(* ===== verification/Prelude.thy ===== *)
theory Prelude
  imports Main "HOL-Library.Word"
begin

text \<open>
  Shared vocabulary of the development: the Go types the sources use (byte strings, unsigned
  machine integers, \<open>time.Time\<close>, \<open>time.Duration\<close>, protobuf timestamps), the parts of the Go
  standard library that the modelled functions call (\<open>strings\<close>, \<open>encoding/hex\<close>), and the
  generic facts on lists, sums and options that the component theories rely on.
\<close>

section \<open>Go types\<close>

text \<open>
  A Go \<open>string\<close> and a \<open>[]byte\<close> are sequences of bytes; a \<open>char\<close> is one byte. A nil slice and
  an empty slice are both the empty list: no modelled function tells them apart.
\<close>

type_synonym bytes = string
type_synonym path = string
type_synonym u32 = "32 word"
type_synonym u64 = "64 word"

text \<open>
  \<open>time.Time\<close> is the number of nanoseconds since the zero time of Go (1 January of year 1, UTC),
  so \<open>t.IsZero()\<close> is \<open>t = 0\<close>, \<open>t.Before(u)\<close> is \<open>t < u\<close> and \<open>t.Add(d)\<close> is \<open>t + d\<close>.
  \<open>time.Duration\<close> is the signed number of nanoseconds.
\<close>

type_synonym gotime = int
type_synonym duration = int

abbreviation second :: duration where
  "second \<equiv> 1000000000"

abbreviation minute :: duration where
  "minute \<equiv> 60000000000"

abbreviation millisecond :: duration where
  "millisecond \<equiv> 1000000"

text \<open>
  A protobuf timestamp as its readers classify it: absent, present but out of range
  (\<open>CheckValid\<close> fails) or valid, both with the time \<open>AsTime\<close> gives.
\<close>

datatype timestamp = TsAbsent | TsInvalid gotime | TsValid gotime

text \<open>
  The wrap-around of the 64-bit signed types (\<open>int\<close>, \<open>int64\<close>, \<open>time.Duration\<close>), written around every
  operation of the sources that can overflow. \<open>t.Sub(u)\<close> saturates instead.
\<close>

definition int64 :: "int \<Rightarrow> int" where
  "int64 x = (x + 2 ^ 63) mod 2 ^ 64 - 2 ^ 63"

definition time_sub :: "gotime \<Rightarrow> gotime \<Rightarrow> duration" where
  "time_sub t u = max (- (2 ^ 63)) (min (2 ^ 63 - 1) (t - u))"

lemma int64_range: "- (2 ^ 63) \<le> int64 x \<and> int64 x < 2 ^ 63"
  by (simp add: int64_def)

lemma int64_id [simp]: "- (2 ^ 63) \<le> x \<Longrightarrow> x < 2 ^ 63 \<Longrightarrow> int64 x = x"
  by (simp add: int64_def)

section \<open>Collections of the development\<close>

named_theorems result_splits \<open>case splits for fallible code\<close>
named_theorems op_defs \<open>definitions of store operations\<close>

lemmas [result_splits] = sum.splits option.splits if_splits prod.splits

section \<open>The strings package\<close>

text \<open>
  The UTF-8 encodings of the runes that \<open>unicode.IsSpace\<close> accepts; \<open>strings.TrimSpace\<close> removes
  them at both ends.
\<close>

definition space_runes :: "bytes list" where
  "space_runes =
     [[CHR 0x09], [CHR 0x0A], [CHR 0x0B], [CHR 0x0C], [CHR 0x0D], [CHR 0x20],
      [CHR 0xC2, CHR 0x85], [CHR 0xC2, CHR 0xA0], [CHR 0xE1, CHR 0x9A, CHR 0x80]]
     @ map (\<lambda>k. [CHR 0xE2, CHR 0x80, char_of k]) [0x80::nat, 0x81, 0x82, 0x83, 0x84, 0x85,
          0x86, 0x87, 0x88, 0x89, 0x8A, 0xA8, 0xA9, 0xAF]
     @ [[CHR 0xE2, CHR 0x81, CHR 0x9F], [CHR 0xE3, CHR 0x80, CHR 0x80]]"

definition starts_with :: "bytes \<Rightarrow> bytes \<Rightarrow> bool" where
  "starts_with p s = (take (length p) s = p)"

definition ends_with :: "bytes \<Rightarrow> bytes \<Rightarrow> bool" where
  "ends_with p s = starts_with (rev p) (rev s)"

fun contains :: "bytes \<Rightarrow> bytes \<Rightarrow> bool" where
  "contains p [] = (p = [])"
| "contains p (x # xs) = (starts_with p (x # xs) \<or> contains p xs)"

text \<open>\<open>strip ps s\<close> removes leading occurrences of the (non-empty) strings \<open>ps\<close>.\<close>

function strip :: "bytes list \<Rightarrow> bytes \<Rightarrow> bytes" where
  "strip ps s =
     (case find (\<lambda>p. p \<noteq> [] \<and> starts_with p s) ps of
        None \<Rightarrow> s
      | Some p \<Rightarrow> strip ps (drop (length p) s))"
  by pat_completeness auto
termination
proof (relation "measure (\<lambda>(ps, s). length s)", goal_cases)
  case 1
  then show ?case by simp
next
  case (2 ps s p)
  then have p: "p \<noteq> []" "starts_with p s"
    by (auto simp: find_Some_iff)
  then have "s \<noteq> []" by (auto simp: starts_with_def)
  with p show ?case by simp
qed

declare strip.simps [simp del]

definition TrimSpace :: "bytes \<Rightarrow> bytes" where
  "TrimSpace s = rev (strip (map rev space_runes) (rev (strip space_runes s)))"

definition TrimPrefix :: "bytes \<Rightarrow> bytes \<Rightarrow> bytes" where
  "TrimPrefix s p = (if starts_with p s then drop (length p) s else s)"

definition TrimSuffix :: "bytes \<Rightarrow> bytes \<Rightarrow> bytes" where
  "TrimSuffix s p = (if ends_with p s then take (length s - length p) s else s)"

text \<open>\<open>strings.Split\<close> at a one-byte separator, and \<open>strings.Join\<close>.\<close>

fun split_at :: "char \<Rightarrow> bytes \<Rightarrow> bytes list" where
  "split_at c [] = [[]]"
| "split_at c (x # xs) =
     (if x = c then [] # split_at c xs
      else case split_at c xs of [] \<Rightarrow> [[x]] | y # ys \<Rightarrow> (x # y) # ys)"

fun join :: "bytes \<Rightarrow> bytes list \<Rightarrow> bytes" where
  "join sep [] = []"
| "join sep [x] = x"
| "join sep (x # y # ys) = x @ sep @ join sep (y # ys)"

text \<open>
  \<open>strings.Fields\<close>: the parts between runs of white space; \<open>cur\<close> is the part being read. Decoding rune by
  rune and matching the encodings of the space runes byte by byte find the same separators, since their
  first bytes are never continuation bytes.
\<close>

function Fields_from :: "bytes \<Rightarrow> bytes \<Rightarrow> bytes list" where
  "Fields_from cur s =
     (case s of
        [] \<Rightarrow> (if cur = [] then [] else [cur])
      | x # xs \<Rightarrow>
          (case find (\<lambda>p. p \<noteq> [] \<and> starts_with p s) space_runes of
             Some p \<Rightarrow> (if cur = [] then [] else [cur]) @ Fields_from [] (drop (length p) s)
           | None \<Rightarrow> Fields_from (cur @ [x]) xs))"
  by pat_completeness auto
termination
  by (relation "measure (\<lambda>(cur, s). length s)") (auto simp: find_Some_iff)

declare Fields_from.simps [simp del]

definition Fields :: "bytes \<Rightarrow> bytes list" where
  "Fields s = Fields_from [] s"

text \<open>\<open>strings.LastIndex\<close>, \<open>None\<close> for a negative result.\<close>

definition LastIndex :: "bytes \<Rightarrow> bytes \<Rightarrow> nat option" where
  "LastIndex s p = find (\<lambda>i. starts_with p (drop i s)) (rev [0..<Suc (length s)])"

section \<open>strconv\<close>

text \<open>
  \<open>strconv.Atoi\<close> in base 10: an optional sign and at least one digit, refused when the value is not an
  \<open>int\<close> (underscores are accepted only with base 0).
\<close>

definition digit_val :: "char \<Rightarrow> int option" where
  "digit_val c = (if 48 \<le> (of_char c :: int) \<and> (of_char c :: int) \<le> 57 then Some (of_char c - 48) else None)"

fun digits_val :: "int \<Rightarrow> bytes \<Rightarrow> int option" where
  "digits_val acc [] = Some acc"
| "digits_val acc (c # cs) =
     (case digit_val c of None \<Rightarrow> None | Some d \<Rightarrow> digits_val (10 * acc + d) cs)"

definition Atoi :: "bytes \<Rightarrow> int option" where
  "Atoi s =
     (let (sign, body) =
        (case s of [] \<Rightarrow> (1, [])
         | c # cs \<Rightarrow> if c = CHR ''-'' then (-1, cs) else if c = CHR ''+'' then (1, cs) else (1, s)) in
      if body = [] then None
      else case digits_val 0 body of
        None \<Rightarrow> None
      | Some v \<Rightarrow> if - (2 ^ 63) \<le> sign * v \<and> sign * v < 2 ^ 63 then Some (sign * v) else None)"

text \<open>\<open>strconv.ParseUint\<close> in base 10 with 64 bits: digits only.\<close>

definition ParseUint64 :: "bytes \<Rightarrow> u64 option" where
  "ParseUint64 s =
     (if s = [] then None
      else case digits_val 0 s of
        None \<Rightarrow> None
      | Some v \<Rightarrow> if v < 2 ^ 64 then Some (word_of_int v) else None)"

text \<open>The decimal form of a number (\<open>%d\<close>).\<close>

fun nat_digits :: "nat \<Rightarrow> string" where
  "nat_digits n = (if n < 10 then [] else nat_digits (n div 10)) @ [char_of (48 + n mod 10)]"

declare nat_digits.simps [simp del]

definition Itoa :: "int \<Rightarrow> string" where
  "Itoa i = (if i < 0 then ''-'' @ nat_digits (nat (- i)) else nat_digits (nat i))"

section \<open>encoding/hex\<close>

definition hex_digit :: "nat \<Rightarrow> char" where
  "hex_digit n = (if n < 10 then char_of (48 + n) else char_of (87 + n))"

definition hex_encode :: "bytes \<Rightarrow> string" where
  "hex_encode bs =
     concat (map (\<lambda>b. [hex_digit (of_char b div 16), hex_digit (of_char b mod 16)]) bs)"

section \<open>Generic lemmas\<close>

lemma strip_Nil [simp]: "strip ps [] = []"
proof -
  have "find (\<lambda>p. p \<noteq> [] \<and> starts_with p []) ps = None"
    by (auto simp: find_None_iff starts_with_def)
  then show ?thesis by (simp add: strip.simps)
qed

lemma Fields_char:
  assumes "x \<notin> {CHR 0x09, CHR 0x0A, CHR 0x0B, CHR 0x0C, CHR 0x0D, CHR '' '', CHR 0xC2, CHR 0xE1, CHR 0xE2, CHR 0xE3}"
  shows "Fields_from cur (x # xs) = Fields_from (cur @ [x]) xs"
proof -
  have "\<forall>p \<in> set space_runes. hd p \<in> {CHR 0x09, CHR 0x0A, CHR 0x0B, CHR 0x0C, CHR 0x0D, CHR '' '', CHR 0xC2, CHR 0xE1, CHR 0xE2, CHR 0xE3}"
    by (simp add: space_runes_def)
  moreover have "hd p = x" if "p \<noteq> []" "starts_with p (x # xs)" for p
    using that by (cases p) (auto simp: starts_with_def)
  ultimately have "\<not> (p \<noteq> [] \<and> starts_with p (x # xs))" if "p \<in> set space_runes" for p
    using assms that by blast
  then have "find (\<lambda>p. p \<noteq> [] \<and> starts_with p (x # xs)) space_runes = None"
    by (simp add: find_None_iff)
  then show ?thesis by (simp add: Fields_from.simps [of cur "x # xs"])
qed

lemma Fields_space: "Fields_from cur (CHR '' '' # xs) = (if cur = [] then [] else [cur]) @ Fields_from [] xs"
  by (simp add: Fields_from.simps [of cur "CHR '' '' # xs"] space_runes_def starts_with_def)

lemma Fields_end: "Fields_from cur [] = (if cur = [] then [] else [cur])"
  by (simp add: Fields_from.simps)

text \<open>To evaluate \<open>Fields\<close> on ASCII text.\<close>

lemmas Fields_eval = Fields_def Fields_char Fields_space Fields_end

lemma strip_fixed: "find (\<lambda>p. p \<noteq> [] \<and> starts_with p (strip ps s)) ps = None"
proof (induction ps s rule: strip.induct)
  case (1 ps s)
  show ?case
  proof (cases "find (\<lambda>p. p \<noteq> [] \<and> starts_with p s) ps")
    case None
    then show ?thesis by (simp add: strip.simps [of ps s])
  next
    case (Some p)
    with "1.IH" show ?thesis by (simp add: strip.simps [of ps s])
  qed
qed

lemma strip_idem [simp]: "strip ps (strip ps s) = strip ps s"
  by (subst strip.simps) (simp add: strip_fixed)

lemma length_strip: "length (strip ps s) \<le> length s"
proof (induction ps s rule: strip.induct)
  case (1 ps s)
  show ?case
  proof (cases "find (\<lambda>p. p \<noteq> [] \<and> starts_with p s) ps")
    case None
    then show ?thesis by (simp add: strip.simps [of ps s])
  next
    case (Some p)
    with "1.IH" have "length (strip ps (drop (length p) s)) \<le> length s - length p" by simp
    with Some show ?thesis by (simp add: strip.simps [of ps s])
  qed
qed

lemma length_TrimSpace: "length (TrimSpace s) \<le> length s"
  unfolding TrimSpace_def
  using length_strip [of "map rev space_runes" "rev (strip space_runes s)"]
    length_strip [of space_runes s]
  by simp

lemma TrimSpace_Nil [simp]: "TrimSpace [] = []"
  by (simp add: TrimSpace_def)

lemma map_of_filter_key:
  "map_of (filter (\<lambda>(k, v). k \<noteq> x) xs) = (map_of xs)(x := None)"
  by (induction xs) (auto simp: fun_eq_iff)

lemma map_of_filter_value:
  assumes "distinct (map fst xs)"
  shows "map_of (filter (\<lambda>(k, v). P v) xs) k =
    (case map_of xs k of None \<Rightarrow> None | Some v \<Rightarrow> if P v then Some v else None)"
  using assms
proof (induction xs)
  case Nil
  then show ?case by simp
next
  case (Cons x xs)
  obtain a b where x: "x = (a, b)" by force
  from Cons.prems have "map_of xs a = None" by (simp add: x map_of_eq_None_iff)
  with Cons show ?case by (auto simp: x split: option.splits)
qed

lemma distinct_fst_filter:
  "distinct (map fst xs) \<Longrightarrow> distinct (map fst (filter P xs))"
  by (induction xs) auto

end
