(* ===== verification/AtomicFile.thy ===== *)
theory AtomicFile
  imports Prelude
begin

text \<open>
  The write-to-temporary, flush, rename discipline that every persistent component of the agent
  uses (\<open>core/hostops/manifest.go\<close>, \<open>core/credentials/store.go\<close>, \<open>core/privileged/store.go\<close>,
  \<open>core/runtimeconfig/store.go\<close>, \<open>core/signing/replay.go\<close>). A writer is a script of file-system
  calls; the environment decides which call fails. The trace of a script lists the disk after
  every call, so that a crash at any point is one of its states.
\<close>

section \<open>Disks and file-system calls\<close>

text \<open>
  The content of a file is a value of a type parameter: whatever the writer encodes. \<open>None\<close> stands
  for a file that is empty, only partly written or not an encoding; \<open>WriteRaw\<close> writes such bytes. Anything that is not a regular file (a
  directory, a symbolic link, a device) is \<open>Other\<close>.
\<close>

datatype 'c node =
    Regular "'c option" nat "int \<times> int"
  | Other

type_synonym 'c disk = "path \<rightharpoonup> 'c node"

datatype 'c fs_op =
    MkdirAll path nat
  | Lstat path
  | CreateTemp path
  | Chown path int int
  | Chmod path nat
  | Write path 'c
  | WriteRaw path
  | Sync path
  | Close path
  | Rename path path
  | SyncDirectory path
  | ReadFile path
  | Remove path
  | AcquireLock path

abbreviation mode_0600 :: nat where
  "mode_0600 \<equiv> 384"

fun set_mode :: "nat \<Rightarrow> 'c node \<Rightarrow> 'c node" where
  "set_mode m (Regular c _ ow) = Regular c m ow"
| "set_mode m Other = Other"

fun set_owner :: "int \<times> int \<Rightarrow> 'c node \<Rightarrow> 'c node" where
  "set_owner ow (Regular c m _) = Regular c m ow"
| "set_owner ow Other = Other"

fun set_content :: "'c option \<Rightarrow> 'c node \<Rightarrow> 'c node" where
  "set_content c (Regular _ m ow) = Regular c m ow"
| "set_content c Other = Other"

text \<open>The effect of a call that succeeds, and what a failing call leaves behind.\<close>

fun effect :: "'c fs_op \<Rightarrow> 'c disk \<Rightarrow> 'c disk" where
  "effect (CreateTemp t) d = d(t \<mapsto> Regular None mode_0600 (-1, -1))"
| "effect (Chown t u g) d = d(t := map_option (set_owner (u, g)) (d t))"
| "effect (Chmod t m) d = d(t := map_option (set_mode m) (d t))"
| "effect (Write t c) d = d(t := map_option (set_content (Some c)) (d t))"
| "effect (WriteRaw t) d = d(t := map_option (set_content None) (d t))"
| "effect (Rename t p) d = d(p := d t, t := None)"
| "effect (Remove t) d = d(t := None)"
| "effect _ d = d"

fun fault_effect :: "'c fs_op \<Rightarrow> 'c disk \<Rightarrow> 'c disk" where
  "fault_effect (Write t c) d = d(t := map_option (set_content None) (d t))"
| "fault_effect (WriteRaw t) d = d(t := map_option (set_content None) (d t))"
| "fault_effect _ d = d"

text \<open>
  Running a script stops at the first call that fails: the calls the environment makes fail
  (\<open>f\<close>), and \<open>Lstat\<close> of something that is not a regular file.
\<close>

definition op_fails :: "('c fs_op \<Rightarrow> bool) \<Rightarrow> 'c fs_op \<Rightarrow> 'c disk \<Rightarrow> bool" where
  "op_fails f x d \<longleftrightarrow> f x \<or> (\<exists>p. x = Lstat p \<and> d p = Some Other)"

lemma op_fails_code [code]:
  "op_fails f x d = (f x \<or> (case x of Lstat p \<Rightarrow> (case d p of Some Other \<Rightarrow> True | _ \<Rightarrow> False) | _ \<Rightarrow> False))"
  by (auto simp: op_fails_def split: fs_op.splits option.splits node.splits)

fun run :: "('c fs_op \<Rightarrow> bool) \<Rightarrow> 'c fs_op list \<Rightarrow> 'c disk \<Rightarrow> 'c fs_op option \<times> 'c disk" where
  "run f [] d = (None, d)"
| "run f (x # xs) d =
     (if op_fails f x d then (Some x, fault_effect x d) else run f xs (effect x d))"

fun trace :: "('c fs_op \<Rightarrow> bool) \<Rightarrow> 'c fs_op list \<Rightarrow> 'c disk \<Rightarrow> 'c disk list" where
  "trace f [] d = [d]"
| "trace f (x # xs) d =
     d # (if op_fails f x d then [fault_effect x d] else trace f xs (effect x d))"

text \<open>The deferred \<open>os.Remove(tmp)\<close> runs on every exit of the function; its error is ignored.\<close>

definition run_deferred ::
  "('c fs_op \<Rightarrow> bool) \<Rightarrow> 'c fs_op list \<Rightarrow> path \<Rightarrow> 'c disk \<Rightarrow> 'c fs_op option \<times> 'c disk" where
  "run_deferred f xs t d = (case run f xs d of (r, d') \<Rightarrow> (r, effect (Remove t) d'))"

text \<open>The paths a call can change.\<close>

fun touches :: "'c fs_op \<Rightarrow> path set" where
  "touches (CreateTemp t) = {t}"
| "touches (Chown t u g) = {t}"
| "touches (Chmod t m) = {t}"
| "touches (Write t c) = {t}"
| "touches (WriteRaw t) = {t}"
| "touches (Rename t p) = {t, p}"
| "touches (Remove t) = {t}"
| "touches _ = {}"

lemma effect_frame: "p \<notin> touches x \<Longrightarrow> effect x d p = d p"
  by (cases x) auto

lemma fault_effect_frame: "p \<notin> touches x \<Longrightarrow> fault_effect x d p = d p"
  by (cases x) auto

lemma run_frame: "\<forall>x \<in> set xs. p \<notin> touches x \<Longrightarrow> snd (run f xs d) p = d p"
  by (induction xs arbitrary: d) (auto simp: effect_frame fault_effect_frame)

lemma trace_frame:
  "\<forall>x \<in> set xs. p \<notin> touches x \<Longrightarrow> d' \<in> set (trace f xs d) \<Longrightarrow> d' p = d p"
  by (induction xs arbitrary: d) (auto simp: effect_frame fault_effect_frame split: if_splits)

lemma run_append:
  "run f (xs @ ys) d =
     (case run f xs d of (None, d') \<Rightarrow> run f ys d' | (Some x, d') \<Rightarrow> (Some x, d'))"
  by (induction xs arbitrary: d) auto

lemma trace_append:
  "d' \<in> set (trace f (xs @ ys) d) \<Longrightarrow> d' \<in> set (trace f xs d) \<or>
     fst (run f xs d) = None \<and> d' \<in> set (trace f ys (snd (run f xs d)))"
proof (induction xs arbitrary: d)
  case Nil
  then show ?case by simp
next
  case (Cons x xs)
  then show ?case by (cases "op_fails f x d") auto
qed

lemma run_None_effect: "fst (run f xs d) = None \<Longrightarrow> snd (run f xs d) = fold effect xs d"
  by (induction xs arbitrary: d) (auto split: if_splits)

lemma run_Some_in: "fst (run f xs d) = Some x \<Longrightarrow> x \<in> set xs"
  by (induction xs arbitrary: d) (auto split: if_splits)

lemma run_Some_fault: "fst (run f xs d) = Some x \<Longrightarrow> f x \<or> (\<exists>p. x = Lstat p)"
  by (induction xs arbitrary: d) (auto simp: op_fails_def split: if_splits)

lemma run_deferred_fault: "run_deferred f xs t d = (Some x, d') \<Longrightarrow> f x \<or> (\<exists>p. x = Lstat p)"
  using run_Some_fault [of f xs d x] by (auto simp: run_deferred_def split: prod.splits)

lemma trace_last: "snd (run f xs d) \<in> set (trace f xs d)"
  by (induction xs arbitrary: d) auto

section \<open>The contract of an atomic writer\<close>

text \<open>
  A writer prepares the temporary file \<open>t\<close> (\<open>pre\<close>), renames it over the destination \<open>p\<close>
  and may then flush the directory (\<open>post\<close>). The laws: preparing touches only the temporary
  file and leaves the complete new file there; what follows the rename changes no file.
\<close>

locale atomic_writer =
  fixes pre :: "path \<Rightarrow> path \<Rightarrow> 'c \<Rightarrow> 'c fs_op list"
    and post :: "path \<Rightarrow> 'c fs_op list"
    and final :: "'c \<Rightarrow> 'c node"
  assumes pre_touches: "x \<in> set (pre t p c) \<Longrightarrow> touches x \<subseteq> {t}"
    and pre_final: "fold effect (pre t p c) d t = Some (final c)"
    and post_touches: "x \<in> set (post p) \<Longrightarrow> touches x = {}"
begin

lemma pre_frame: "q \<noteq> t \<Longrightarrow> x \<in> set (pre t p c) \<Longrightarrow> q \<notin> touches x"
  using pre_touches by blast

lemma post_frame: "x \<in> set (post p) \<Longrightarrow> q \<notin> touches x"
  using post_touches by auto

text \<open>At every instant of the run the destination holds the old file or the complete new one.\<close>

lemma crash_atomic:
  assumes tp: "t \<noteq> p"
    and d': "d' \<in> set (trace f (pre t p c @ Rename t p # post p) d)"
  shows "d' p = d p \<or> d' p = Some (final c)"
proof -
  let ?e = "snd (run f (pre t p c) d)"
  have pre: "e p = d p" if "e \<in> set (trace f (pre t p c) d)" for e
    using that tp pre_frame [of p t] by (intro trace_frame [of "pre t p c"]) auto
  have ep: "?e p = d p"
    using pre trace_last by blast
  show ?thesis
  proof (cases "d' \<in> set (trace f (pre t p c) d)")
    case True
    then show ?thesis using pre by simp
  next
    case False
    with trace_append [OF d']
    have ok: "fst (run f (pre t p c) d) = None"
      and d'': "d' \<in> set (trace f (Rename t p # post p) ?e)"
      by blast+
    have et: "?e t = Some (final c)"
      using run_None_effect [OF ok] pre_final by simp
    let ?r = "effect (Rename t p) ?e"
    have post: "e p = ?r p" if "e \<in> set (trace f (post p) ?r)" for e
      by (rule trace_frame [OF _ that]) (use post_frame in blast)
    from d'' consider "d' = ?e" | "d' = fault_effect (Rename t p) ?e" | "d' \<in> set (trace f (post p) ?r)"
      by (auto split: if_splits)
    then show ?thesis
      using ep et tp post by cases auto
  qed
qed

lemma run_destination:
  assumes tp: "t \<noteq> p"
    and r: "run_deferred f (pre t p c @ Rename t p # post p) t d = (r, d')"
  shows "(r = None \<longrightarrow> d' p = Some (final c)) \<and>
    (\<forall>x. r = Some x \<longrightarrow> x \<notin> set (post p) \<longrightarrow> d' p = d p) \<and>
    (\<forall>x. r = Some x \<longrightarrow> x \<in> set (post p) \<longrightarrow> x \<notin> set (pre t p c) \<longrightarrow> d' p = Some (final c)) \<and>
    d' t = None \<and> (\<forall>q. q \<noteq> t \<longrightarrow> q \<noteq> p \<longrightarrow> d' q = d q)"
proof -
  let ?e = "snd (run f (pre t p c) d)"
  have frame: "?e q = d q" if "q \<noteq> t" for q
    using that by (intro run_frame) (auto dest: pre_frame)
  have pframe: "snd (run f (post p) e) q = e q" for e q
    by (intro run_frame) (auto dest: post_frame)
  show ?thesis
  proof (cases "fst (run f (pre t p c) d)")
    case (Some x)
    then have run: "run f (pre t p c @ Rename t p # post p) d = (Some x, ?e)"
      by (auto simp: run_append split: prod.splits)
    have "x \<in> set (pre t p c)" using run_Some_in [OF Some] .
    then show ?thesis
      using r frame tp by (auto simp: run_deferred_def run)
  next
    case None
    have et: "?e t = Some (final c)"
      using run_None_effect [OF None] pre_final by simp
    let ?s = "?e(p := ?e t, t := None)"
    have run: "run f (pre t p c @ Rename t p # post p) d =
        (if f (Rename t p) then (Some (Rename t p), ?e) else run f (post p) ?s)"
      using None by (auto simp: run_append op_fails_def split: prod.splits)
    show ?thesis
    proof (cases "f (Rename t p)")
      case True
      have "Rename t p \<notin> set (post p)" using post_frame [of "Rename t p" p p] by auto
      with True r run frame tp show ?thesis by (auto simp: run_deferred_def)
    next
      case False
      obtain r' e' where re: "run f (post p) ?s = (r', e')" by force
      have e': "e' q = ?s q" for q using pframe [of ?s q] re by simp
      have rin: "x \<in> set (post p)" if "r' = Some x" for x
        using run_Some_in [of f "post p" ?s x] re that by simp
      have "r = r'" and d': "d' = e'(t := None)"
        using r run False re by (auto simp: run_deferred_def)
      with rin e' et tp frame show ?thesis by auto
    qed
  qed
qed

end

section \<open>The environment of an operation\<close>

text \<open>
  What the operating system contributes to one operation of a store: which calls fail, the name
  \<open>os.CreateTemp\<close> picked, and the clock.
\<close>

record 'c env =
  env_faults :: "'c fs_op \<Rightarrow> bool"
  env_tmp :: path
  env_now :: gotime

definition quiet_env :: "path \<Rightarrow> gotime \<Rightarrow> 'c env" where
  "quiet_env t now = \<lparr>env_faults = (\<lambda>_. False), env_tmp = t, env_now = now\<rparr>"

text \<open>\<open>os.CreateTemp\<close> never returns the name of an existing file.\<close>

definition env_ok :: "'c env \<Rightarrow> path \<Rightarrow> 'c disk \<Rightarrow> bool" where
  "env_ok e p d \<longleftrightarrow> env_tmp e \<noteq> p \<and> d (env_tmp e) = None"

datatype read_result = NotExist | ReadFailed

text \<open>\<open>os.ReadFile\<close>: the content, absence, or another error.\<close>

definition read_file :: "('c fs_op \<Rightarrow> bool) \<Rightarrow> path \<Rightarrow> 'c disk \<Rightarrow> read_result + 'c option" where
  "read_file f p d =
     (if f (ReadFile p) then Inl ReadFailed
      else (case d p of
              None \<Rightarrow> Inl NotExist
            | Some Other \<Rightarrow> Inl ReadFailed
            | Some (Regular c _ _) \<Rightarrow> Inr c))"

section \<open>The contract of a durable store\<close>

text \<open>
  A store keeps a value in memory and its image on disk. One operation runs in an environment
  \<open>e\<close> and says whether it succeeded. The laws: a refused operation leaves the memory as it was,
  no operation moves the file (\<open>key\<close>), and an operation whose environment is \<open>fit\<close> (a fresh
  temporary name, no flush that fails after the rename) keeps memory and disk coherent. What
  follows for whole histories is proved once here.
\<close>

locale durable_store =
  fixes step :: "'e \<Rightarrow> 'op \<Rightarrow> 's \<Rightarrow> 'd \<Rightarrow> bool \<times> 's \<times> 'd"
    and key :: "'s \<Rightarrow> 'k"
    and fit :: "'e \<Rightarrow> 'k \<Rightarrow> bool"
    and coherent :: "'s \<Rightarrow> 'd \<Rightarrow> bool"
  assumes refused: "step e a s d = (False, s', d') \<Longrightarrow> s' = s"
    and keyed: "step e a s d = (ok, s', d') \<Longrightarrow> key s' = key s"
    and kept: "fit e (key s) \<Longrightarrow> coherent s d \<Longrightarrow> step e a s d = (ok, s', d') \<Longrightarrow> coherent s' d'"
begin

primrec runs :: "('e \<times> 'op) list \<Rightarrow> 's \<times> 'd \<Rightarrow> 's \<times> 'd" where
  "runs [] x = x"
| "runs (y # ys) x = runs ys (snd (step (fst y) (snd y) (fst x) (snd x)))"

lemma runs_coherent:
  "\<forall>y \<in> set ys. fit (fst y) (key s) \<Longrightarrow> coherent s d \<Longrightarrow> runs ys (s, d) = (s', d') \<Longrightarrow>
     coherent s' d' \<and> key s' = key s"
proof (induction ys arbitrary: s d)
  case Nil
  then show ?case by simp
next
  case (Cons y ys)
  obtain ok s1 d1 where st: "step (fst y) (snd y) s d = (ok, s1, d1)" by (metis prod_cases3)
  have k: "key s1 = key s" by (rule keyed [OF st])
  have "coherent s1 d1" using Cons.prems by (intro kept [OF _ _ st]) simp_all
  with Cons.IH [of s1 d1] Cons.prems k st show ?case by simp
qed

text \<open>A history in which every operation is refused leaves the memory untouched.\<close>

lemma runs_refused:
  "\<forall>y \<in> set ys. \<forall>s d. \<not> fst (step (fst y) (snd y) s d) \<Longrightarrow> fst (runs ys x) = fst x"
proof (induction ys arbitrary: x)
  case Nil
  then show ?case by simp
next
  case (Cons y ys)
  obtain ok s1 d1 where st: "step (fst y) (snd y) (fst x) (snd x) = (ok, s1, d1)"
    by (metis prod_cases3)
  with Cons.prems have "\<not> ok" by (metis fst_conv list.set_intros(1))
  with st have "s1 = fst x" using refused by simp
  with Cons st show ?case by simp
qed

end

section \<open>atomicWrite of core/hostops\<close>

definition atomicWrite_pre :: "nat \<Rightarrow> int \<Rightarrow> int \<Rightarrow> path \<Rightarrow> path \<Rightarrow> 'c \<Rightarrow> 'c fs_op list" where
  "atomicWrite_pre mode uid gid t p c =
     [Lstat p, CreateTemp t]
     @ (if uid \<ge> 0 \<or> gid \<ge> 0 then [Chown t uid gid] else [])
     @ [Chmod t mode, Write t c, Sync t, Close t]"

definition atomicWrite_post :: "path \<Rightarrow> 'c fs_op list" where
  "atomicWrite_post p = [SyncDirectory p]"

definition atomicWrite ::
  "'c env \<Rightarrow> path \<Rightarrow> 'c \<Rightarrow> nat \<Rightarrow> int \<Rightarrow> int \<Rightarrow> 'c disk \<Rightarrow> 'c fs_op option \<times> 'c disk" where
  "atomicWrite e p c mode uid gid d =
     run_deferred (env_faults e)
       (atomicWrite_pre mode uid gid (env_tmp e) p c @ Rename (env_tmp e) p # atomicWrite_post p)
       (env_tmp e) d"

definition AtomicWrite :: "'c env \<Rightarrow> path \<Rightarrow> 'c \<Rightarrow> nat \<Rightarrow> 'c disk \<Rightarrow> 'c fs_op option \<times> 'c disk" where
  "AtomicWrite e p c mode d = atomicWrite e p c mode (-1) (-1) d"

definition AtomicWriteOwned ::
  "'c env \<Rightarrow> path \<Rightarrow> 'c \<Rightarrow> nat \<Rightarrow> int \<Rightarrow> int \<Rightarrow> 'c disk \<Rightarrow> 'c fs_op option \<times> 'c disk" where
  "AtomicWriteOwned e p c mode uid gid d = atomicWrite e p c mode uid gid d"

definition atomicWrite_final :: "nat \<Rightarrow> int \<Rightarrow> int \<Rightarrow> 'c \<Rightarrow> 'c node" where
  "atomicWrite_final mode uid gid c =
     Regular (Some c) mode (if uid \<ge> 0 \<or> gid \<ge> 0 then (uid, gid) else (-1, -1))"

interpretation aw: atomic_writer
  "atomicWrite_pre mode uid gid" atomicWrite_post "atomicWrite_final mode uid gid"
  for mode :: nat and uid gid :: int
  by unfold_locales
    (auto simp: atomicWrite_pre_def atomicWrite_post_def atomicWrite_final_def split: if_splits)



end
