(* ===== verification/Replay.thy ===== *)
theory Replay
  imports AtomicFile
begin

text \<open>
  \<open>core/signing/replay.go\<close>: the persisted record of instruction nonces. The Go map is an
  association list with distinct keys; its order stands for the order in which \<open>range\<close> happens to
  visit the map, so a fact for every list is a fact for every iteration order. Encoding and
  decoding of the JSON file are the parameters \<open>enc\<close> and \<open>dec\<close> (\<open>dec c = Some None\<close> when the file
  holds the JSON value null).
\<close>

section \<open>State\<close>

type_synonym nonces = "(string \<times> gotime) list"

record replay_guard =
  rg_path :: path
  rg_entries :: nonces
  rg_loaded :: bool

datatype replay_error =
    NoNonce
  | ReplayUnavailable
  | AlreadyCarriedOut
  | NoExpiry
  | CouldNotRecord

abbreviation maximumEntries :: nat where
  "maximumEntries \<equiv> 4096"

definition NewReplayGuard :: "path \<Rightarrow> path \<Rightarrow> replay_guard" where
  "NewReplayGuard DefaultReplayPath p =
     \<lparr>rg_path = (if TrimSpace p = [] then DefaultReplayPath else p), rg_entries = [], rg_loaded = False\<rparr>"

section \<open>Loading and pruning\<close>

definition rg_load ::
  "('c \<Rightarrow> nonces option option) \<Rightarrow> ('c fs_op \<Rightarrow> bool) \<Rightarrow> 'c disk \<Rightarrow> replay_guard \<Rightarrow> bool \<times> replay_guard" where
  "rg_load dec f d g =
     (if rg_loaded g then (True, g)
      else case read_file f (rg_path g) d of
             Inl NotExist \<Rightarrow> (True, g\<lparr>rg_loaded := True\<rparr>)
           | Inl ReadFailed \<Rightarrow> (False, g)
           | Inr None \<Rightarrow> (False, g)
           | Inr (Some c) \<Rightarrow>
               (case dec c of
                  None \<Rightarrow> (False, g)
                | Some None \<Rightarrow> (True, g\<lparr>rg_loaded := True\<rparr>)
                | Some (Some m) \<Rightarrow> (True, g\<lparr>rg_entries := m, rg_loaded := True\<rparr>)))"

text \<open>The scan for the entry with the earliest expiry; the empty string marks "none yet".\<close>

fun scan_oldest :: "nonces \<Rightarrow> string \<times> gotime \<Rightarrow> string \<times> gotime" where
  "scan_oldest [] acc = acc"
| "scan_oldest ((n, x) # r) (oldest, oldestExpiry) =
     scan_oldest r (if oldest = [] \<or> x < oldestExpiry then (n, x) else (oldest, oldestExpiry))"

lemma scan_oldest_in: "fst (scan_oldest es acc) \<in> set (map fst es) \<or> scan_oldest es acc = acc"
proof (induction es acc rule: scan_oldest.induct)
  case (2 n x r oldest oldestExpiry)
  then show ?case by (cases "oldest = [] \<or> x < oldestExpiry") auto
qed simp

function drop_excess :: "nonces \<Rightarrow> nonces" where
  "drop_excess es =
     (if length es > maximumEntries then
        (let oldest = fst (scan_oldest es ([], 0)) in
         if oldest = [] then es else drop_excess (filter (\<lambda>(n, _). n \<noteq> oldest) es))
      else es)"
  by pat_completeness auto
termination
proof (relation "measure length", goal_cases)
  case 1
  then show ?case by simp
next
  case (2 es oldest)
  then have "oldest \<in> set (map fst es)"
    using scan_oldest_in [of es "([], 0)"] by auto
  then obtain x where "(oldest, x) \<in> set es" by auto
  then show ?case by (auto intro: length_filter_less)
qed

declare drop_excess.simps [simp del]

definition pruneLocked :: "gotime \<Rightarrow> nonces \<Rightarrow> nonces" where
  "pruneLocked now es = drop_excess (filter (\<lambda>(n, expiry). \<not> now > expiry) es)"

section \<open>Persisting and consuming\<close>

definition rg_pre :: "path \<Rightarrow> path \<Rightarrow> 'c \<Rightarrow> 'c fs_op list" where
  "rg_pre t p c = [MkdirAll p 448, CreateTemp t, Chmod t mode_0600, Write t c, Sync t, Close t]"

definition rg_post :: "path \<Rightarrow> 'c fs_op list" where
  "rg_post p = []"

definition rg_file :: "'c \<Rightarrow> 'c node" where
  "rg_file c = Regular (Some c) mode_0600 (-1, -1)"

definition persistLocked ::
  "(nonces \<Rightarrow> 'c option) \<Rightarrow> 'c env \<Rightarrow> replay_guard \<Rightarrow> 'c disk \<Rightarrow> bool \<times> 'c disk" where
  "persistLocked enc e g d =
     (case enc (rg_entries g) of
        None \<Rightarrow> (False, d)
      | Some c \<Rightarrow>
          (case run_deferred (env_faults e)
                  (rg_pre (env_tmp e) (rg_path g) c @ Rename (env_tmp e) (rg_path g) # rg_post (rg_path g))
                  (env_tmp e) d of
             (r, d') \<Rightarrow> (r = None, d')))"

definition Consume ::
  "(nonces \<Rightarrow> 'c option) \<Rightarrow> ('c \<Rightarrow> nonces option option) \<Rightarrow> 'c env \<Rightarrow> string \<Rightarrow> gotime \<Rightarrow>
     replay_guard \<Rightarrow> 'c disk \<Rightarrow> replay_error option \<times> replay_guard \<times> 'c disk" where
  "Consume enc dec e nonce expiresAt g d =
     (let trimmed = TrimSpace nonce in
      if trimmed = [] then (Some NoNonce, g, d)
      else case rg_load dec (env_faults e) d g of
        (False, g) \<Rightarrow> (Some ReplayUnavailable, g, d)
      | (True, g) \<Rightarrow>
          (let g = g\<lparr>rg_entries := pruneLocked (env_now e) (rg_entries g)\<rparr> in
           if map_of (rg_entries g) trimmed \<noteq> None then (Some AlreadyCarriedOut, g, d)
           else if expiresAt = 0 then (Some NoExpiry, g, d)
           else
             (let g' = g\<lparr>rg_entries := (trimmed, expiresAt) # rg_entries g\<rparr> in
              case persistLocked enc e g' d of
                (True, d') \<Rightarrow> (None, g', d')
              | (False, d') \<Rightarrow> (Some CouldNotRecord, g, d'))))"

text \<open>\<open>Seen\<close> prunes the guard it looks at.\<close>

definition Seen ::
  "('c \<Rightarrow> nonces option option) \<Rightarrow> ('c fs_op \<Rightarrow> bool) \<Rightarrow> gotime \<Rightarrow> string \<Rightarrow> replay_guard \<Rightarrow> 'c disk \<Rightarrow>
     bool \<times> replay_guard" where
  "Seen dec f now nonce g d =
     (case rg_load dec f d g of
        (False, g) \<Rightarrow> (True, g)
      | (True, g) \<Rightarrow>
          (let g = g\<lparr>rg_entries := pruneLocked now (rg_entries g)\<rparr>
           in (map_of (rg_entries g) (TrimSpace nonce) \<noteq> None, g)))"

section \<open>Facts about pruning\<close>

interpretation rw: atomic_writer rg_pre rg_post rg_file
  by unfold_locales (auto simp: rg_pre_def rg_post_def rg_file_def)

lemma drop_excess_small: "length es \<le> maximumEntries \<Longrightarrow> drop_excess es = es"
  by (simp add: drop_excess.simps)

lemma set_drop_excess: "set (drop_excess es) \<subseteq> set es"
proof (induction es rule: drop_excess.induct)
  case (1 es)
  then show ?case
    by (subst drop_excess.simps) (auto simp: Let_def)
qed

lemma distinct_drop_excess: "distinct (map fst es) \<Longrightarrow> distinct (map fst (drop_excess es))"
proof (induction es rule: drop_excess.induct)
  case (1 es)
  then show ?case
    by (subst drop_excess.simps) (auto simp: Let_def distinct_fst_filter)
qed

lemma length_drop_excess:
  "[] \<notin> set (map fst es) \<Longrightarrow> length (drop_excess es) \<le> maximumEntries"
proof (induction es rule: drop_excess.induct)
  case (1 es)
  show ?case
  proof (cases "length es > maximumEntries")
    case True
    then obtain n x r where es: "es = (n, x) # r" by (cases es) auto
    let ?o = "fst (scan_oldest es ([], 0))"
    have "?o \<noteq> []"
      using scan_oldest_in [of r "(n, x)"] "1.prems" by (force simp: es)
    moreover have "[] \<notin> set (map fst (filter (\<lambda>(n, _). n \<noteq> ?o) es))"
      using "1.prems" by auto
    ultimately have "length (drop_excess (filter (\<lambda>(n, _). n \<noteq> ?o) es)) \<le> maximumEntries"
      by (intro "1.IH" [OF True refl]) auto
    with True \<open>?o \<noteq> []\<close> show ?thesis by (subst drop_excess.simps) (simp add: Let_def)
  next
    case False
    then show ?thesis by (simp add: drop_excess_small)
  qed
qed

lemma distinct_pruneLocked: "distinct (map fst es) \<Longrightarrow> distinct (map fst (pruneLocked now es))"
  by (simp add: pruneLocked_def distinct_drop_excess distinct_fst_filter)

lemma pruneLocked_small:
  "length es \<le> maximumEntries \<Longrightarrow> pruneLocked now es = filter (\<lambda>(n, expiry). \<not> now > expiry) es"
  by (simp add: pruneLocked_def drop_excess_small le_trans [OF length_filter_le])

lemma pruneLocked_keeps:
  assumes "distinct (map fst es)" and "length es \<le> maximumEntries"
    and "map_of es n = Some x" and "now \<le> x"
  shows "map_of (pruneLocked now es) n = Some x"
  using assms by (simp add: pruneLocked_small map_of_filter_value)

lemma pruneLocked_unexpired: "(n, x) \<in> set (pruneLocked now es) \<Longrightarrow> now \<le> x"
  using set_drop_excess by (fastforce simp: pruneLocked_def)

section \<open>Histories\<close>

datatype replay_op = RConsume string gotime | RSeen string | RRestart

fun rg_step ::
  "(nonces \<Rightarrow> 'c option) \<Rightarrow> ('c \<Rightarrow> nonces option option) \<Rightarrow> 'c env \<Rightarrow> replay_op \<Rightarrow>
     replay_guard \<times> 'c disk \<Rightarrow> replay_guard \<times> 'c disk" where
  "rg_step enc dec e (RConsume n x) (g, d) = snd (Consume enc dec e n x g d)"
| "rg_step enc dec e (RSeen n) (g, d) = (snd (Seen dec (env_faults e) (env_now e) n g d), d)"
| "rg_step enc dec e RRestart (g, d) = (\<lparr>rg_path = rg_path g, rg_entries = [], rg_loaded = False\<rparr>, d)"

fun rg_run ::
  "(nonces \<Rightarrow> 'c option) \<Rightarrow> ('c \<Rightarrow> nonces option option) \<Rightarrow> ('c env \<times> replay_op) list \<Rightarrow>
     replay_guard \<times> 'c disk \<Rightarrow> replay_guard \<times> 'c disk" where
  "rg_run enc dec [] x = x"
| "rg_run enc dec ((e, a) # ys) x = rg_run enc dec ys (rg_step enc dec e a x)"

text \<open>JSON keeps the map: what is read back has the same entries, in some order.\<close>

definition codec_ok :: "(nonces \<Rightarrow> 'c option) \<Rightarrow> ('c \<Rightarrow> nonces option option) \<Rightarrow> bool" where
  "codec_ok enc dec \<longleftrightarrow> (\<forall>es c. enc es = Some c \<longrightarrow> distinct (map fst es) \<longrightarrow>
     (\<exists>es'. dec c = Some (Some es') \<and> set es' = set es \<and> distinct (map fst es')))"

text \<open>A nonce is remembered: in memory once loaded, and always on disk, within \<open>k\<close> entries.\<close>

definition holds_nonce :: "string \<Rightarrow> gotime \<Rightarrow> nat \<Rightarrow> nonces \<Rightarrow> bool" where
  "holds_nonce n x k es \<longleftrightarrow> map_of es n = Some x \<and> distinct (map fst es) \<and> length es \<le> k"

definition remembered ::
  "('c \<Rightarrow> nonces option option) \<Rightarrow> string \<Rightarrow> gotime \<Rightarrow> nat \<Rightarrow> replay_guard \<Rightarrow> 'c disk \<Rightarrow> bool" where
  "remembered dec n x k g d \<longleftrightarrow>
     (\<exists>c m ow es. d (rg_path g) = Some (Regular (Some c) m ow) \<and> dec c = Some (Some es) \<and> holds_nonce n x k es) \<and>
     (rg_loaded g \<longrightarrow> holds_nonce n x k (rg_entries g))"

lemma holds_nonce_mono: "holds_nonce n x k es \<Longrightarrow> k \<le> l \<Longrightarrow> holds_nonce n x l es"
  by (simp add: holds_nonce_def)

lemma remembered_mono: "remembered dec n x k g d \<Longrightarrow> k \<le> l \<Longrightarrow> remembered dec n x l g d"
  unfolding remembered_def by (blast intro: holds_nonce_mono)

lemma holds_nonce_prune:
  assumes "holds_nonce n x k es" and "k \<le> maximumEntries" and "now \<le> x"
  shows "holds_nonce n x k (pruneLocked now es)"
  using assms pruneLocked_keeps [of es n x now] distinct_pruneLocked [of es now]
  by (auto simp: holds_nonce_def pruneLocked_small le_trans [OF length_filter_le])

lemma holds_nonce_same_set:
  assumes "holds_nonce n x k es" and "set es' = set es" and "distinct (map fst es')"
  shows "holds_nonce n x k es'"
proof -
  have "length es' = length es"
    using assms by (metis distinct_card distinct_map holds_nonce_def)
  moreover have "map_of es' = map_of es"
    using assms map_of_inject_set [of es' es] by (simp add: holds_nonce_def)
  ultimately show ?thesis using assms by (simp add: holds_nonce_def)
qed

lemma rg_load_remembered:
  assumes "remembered dec n x k g d" and "rg_load dec f d g = (ok, g')"
  shows "remembered dec n x k g' d \<and> rg_path g' = rg_path g \<and> (ok \<longrightarrow> rg_loaded g')"
  using assms by (auto simp: rg_load_def read_file_def remembered_def split: result_splits)

lemma rg_load_ok: "rg_load dec f d g = (True, g') \<Longrightarrow> rg_path g' = rg_path g \<and> rg_loaded g'"
  by (auto simp: rg_load_def split: result_splits read_result.splits)

lemma codec_okE:
  assumes "codec_ok enc dec" and "enc es = Some c" and "distinct (map fst es)"
  obtains es' where "dec c = Some (Some es')" "set es' = set es" "distinct (map fst es')"
  using assms unfolding codec_ok_def by blast

lemma persistLocked_cases:
  assumes "env_tmp e \<noteq> rg_path g" and "persistLocked enc e g d = (ok, d')"
  shows "(\<not> ok \<longrightarrow> d' (rg_path g) = d (rg_path g)) \<and>
    (ok \<longrightarrow> (\<exists>c. enc (rg_entries g) = Some c \<and> d' (rg_path g) = Some (rg_file c)))"
proof (cases "enc (rg_entries g)")
  case None
  with assms(2) show ?thesis by (simp add: persistLocked_def)
next
  case (Some c)
  obtain r d1 where r: "run_deferred (env_faults e)
      (rg_pre (env_tmp e) (rg_path g) c @ Rename (env_tmp e) (rg_path g) # rg_post (rg_path g))
      (env_tmp e) d = (r, d1)" by force
  have "ok = (r = None)" and "d' = d1"
    using assms(2) Some by (simp_all add: persistLocked_def r)
  with rw.run_destination [OF assms(1) r] Some show ?thesis
    by (cases r) (auto simp: rg_post_def)
qed

lemma holds_nonce_add:
  "holds_nonce n x k es \<Longrightarrow> map_of es m = None \<Longrightarrow> holds_nonce n x (Suc k) ((m, y) # es)"
  by (auto simp: holds_nonce_def)

lemma Consume_loaded:
  assumes "TrimSpace m \<noteq> []" and "rg_load dec (env_faults e) d g = (True, g1)"
    and "g2 = g1\<lparr>rg_entries := pruneLocked (env_now e) (rg_entries g1)\<rparr>"
  shows "Consume enc dec e m y g d =
    (if map_of (rg_entries g2) (TrimSpace m) \<noteq> None then (Some AlreadyCarriedOut, g2, d)
     else if y = 0 then (Some NoExpiry, g2, d)
     else (let g3 = g2\<lparr>rg_entries := (TrimSpace m, y) # rg_entries g2\<rparr> in
           case persistLocked enc e g3 d of
             (True, d') \<Rightarrow> (None, g3, d')
           | (False, d') \<Rightarrow> (Some CouldNotRecord, g2, d')))"
  using assms by (simp only: Consume_def Let_def if_False prod.case bool.case)

text \<open>A consumption that finds the nonce in the record is refused and keeps the record.\<close>

lemma Consume_remembered:
  assumes cod: "codec_ok enc dec" and rem: "remembered dec n x k g d" and k: "k < maximumEntries"
    and now: "env_now e \<le> x" and t: "env_tmp e \<noteq> rg_path g"
    and C: "Consume enc dec e m y g d = (r, g', d')"
  shows "remembered dec n x (Suc k) g' d' \<and> rg_path g' = rg_path g \<and> (TrimSpace m = n \<longrightarrow> r \<noteq> None)"
proof (cases "TrimSpace m = []")
  case True
  with C rem show ?thesis by (auto simp: Consume_def Let_def intro: remembered_mono)
next
  case False
  obtain ok g1 where L: "rg_load dec (env_faults e) d g = (ok, g1)" by force
  note L1 = rg_load_remembered [OF rem L]
  show ?thesis
  proof (cases ok)
    case False
    with C L L1 \<open>TrimSpace m \<noteq> []\<close> show ?thesis
      by (auto simp: Consume_def Let_def intro: remembered_mono)
  next
    case True
    define g2 where "g2 = g1\<lparr>rg_entries := pruneLocked (env_now e) (rg_entries g1)\<rparr>"
    note eq = Consume_loaded [OF \<open>TrimSpace m \<noteq> []\<close> L [unfolded eqTrueI [OF True]] g2_def, of enc y]
    have h2: "holds_nonce n x k (rg_entries g2)"
      using L1 True k now by (auto simp: g2_def remembered_def intro: holds_nonce_prune)
    have rem2: "remembered dec n x k g2 d" and p2: "rg_path g2 = rg_path g"
      using L1 h2 by (auto simp: remembered_def g2_def)
    show ?thesis
    proof (cases "map_of (rg_entries g2) (TrimSpace m) \<noteq> None \<or> y = 0")
      case True
      then obtain err where "r = Some err" "g' = g2" "d' = d"
        using C unfolding eq by (auto split: if_splits)
      with p2 remembered_mono [OF rem2, of "Suc k"] show ?thesis by simp
    next
      case False
      define g3 where "g3 = g2\<lparr>rg_entries := (TrimSpace m, y) # rg_entries g2\<rparr>"
      have h3: "holds_nonce n x (Suc k) (rg_entries g3)"
        using False h2 by (auto simp: g3_def intro: holds_nonce_add)
      obtain w d1 where P: "persistLocked enc e g3 d = (w, d1)" by force
      have t3: "env_tmp e \<noteq> rg_path g3" using t p2 by (simp add: g3_def)
      note P1 = persistLocked_cases [OF t3 P]
      have neq: "TrimSpace m \<noteq> n" using False h2 by (auto simp: holds_nonce_def)
      have r: "(r, g', d') = (if w then (None, g3, d1) else (Some CouldNotRecord, g2, d1))"
        using C False P unfolding eq g3_def [symmetric] by (cases w) (simp_all add: Let_def)
      show ?thesis
      proof (cases w)
        case True
        with P1 obtain c where c: "enc (rg_entries g3) = Some c" "d1 (rg_path g3) = Some (rg_file c)"
          by auto
        have "distinct (map fst (rg_entries g3))" using h3 by (simp add: holds_nonce_def)
        from codec_okE [OF cod c(1) this] obtain es' where "dec c = Some (Some es')"
          "set es' = set (rg_entries g3)" "distinct (map fst es')" by blast
        with c h3 holds_nonce_same_set [OF h3] True r neq p2 show ?thesis
          by (auto simp: remembered_def rg_file_def g3_def)
      next
        case False
        with P1 r neq p2 remembered_mono [OF rem2, of "Suc k"] show ?thesis
          by (auto simp: remembered_def g3_def)
      qed
    qed
  qed
qed

lemma rg_step_remembered:
  assumes "codec_ok enc dec" and "remembered dec n x k g d" and "k < maximumEntries"
    and "env_now e \<le> x" and "env_tmp e \<noteq> rg_path g" and "rg_step enc dec e a (g, d) = (g', d')"
  shows "remembered dec n x (Suc k) g' d' \<and> rg_path g' = rg_path g"
proof (cases a)
  case (RConsume m y)
  obtain r where "Consume enc dec e m y g d = (r, g', d')"
    using assms(6) RConsume by (metis prod.collapse rg_step.simps(1))
  from Consume_remembered [OF assms(1-5) this] show ?thesis by simp
next
  case (RSeen m)
  obtain ok g1 where L: "rg_load dec (env_faults e) d g = (ok, g1)" by force
  note L1 = rg_load_remembered [OF assms(2) L]
  have d': "d' = d" and g': "g' = (if ok then g1\<lparr>rg_entries := pruneLocked (env_now e) (rg_entries g1)\<rparr> else g1)"
    using assms(6) L RSeen by (auto simp: Seen_def Let_def split: bool.splits)
  have "remembered dec n x k g' d'"
  proof (cases ok)
    case True
    then have "holds_nonce n x k (pruneLocked (env_now e) (rg_entries g1))"
      using L1 assms(3,4) by (intro holds_nonce_prune) (auto simp: remembered_def)
    with True L1 d' g' show ?thesis by (auto simp: remembered_def)
  next
    case False
    with L1 d' g' show ?thesis by simp
  qed
  with L1 g' show ?thesis by (auto intro: remembered_mono)
next
  case RRestart
  with assms remembered_mono [OF assms(2), of "Suc k"] show ?thesis
    by (auto simp: remembered_def)
qed

lemma rg_run_remembered:
  assumes "codec_ok enc dec"
  shows "remembered dec n x k g d \<Longrightarrow> k + length ys \<le> maximumEntries \<Longrightarrow>
    \<forall>y \<in> set ys. env_now (fst y) \<le> x \<and> env_tmp (fst y) \<noteq> rg_path g \<Longrightarrow>
    rg_run enc dec ys (g, d) = (g', d') \<Longrightarrow>
    remembered dec n x (k + length ys) g' d' \<and> rg_path g' = rg_path g"
proof (induction ys arbitrary: k g d)
  case Nil
  then show ?case by simp
next
  case (Cons y ys)
  obtain e a where y: "y = (e, a)" by force
  obtain g1 d1 where st: "rg_step enc dec e a (g, d) = (g1, d1)" by force
  have "remembered dec n x (Suc k) g1 d1 \<and> rg_path g1 = rg_path g"
    using Cons.prems by (intro rg_step_remembered [OF assms _ _ _ _ st]) (auto simp: y)
  with Cons.IH [of "Suc k" g1 d1] Cons.prems st show ?case by (simp add: y)
qed

text \<open>What a successful consumption leaves behind.\<close>

lemma Consume_success:
  assumes "Consume enc dec e n x g d = (None, g1, d1)"
  shows "TrimSpace n \<noteq> [] \<and> x \<noteq> 0 \<and> rg_path g1 = rg_path g \<and> rg_loaded g1 \<and>
    persistLocked enc e g1 d = (True, d1) \<and>
    (\<exists>es. rg_entries g1 = (TrimSpace n, x) # es \<and> map_of es (TrimSpace n) = None)"
proof -
  obtain ok gl where L: "rg_load dec (env_faults e) d g = (ok, gl)" by force
  have ne: "TrimSpace n \<noteq> []" and ok: "ok"
    using assms L by (auto simp: Consume_def Let_def split: if_splits bool.splits)
  note L1 = L [unfolded eqTrueI [OF ok]]
  define g0 where "g0 = gl\<lparr>rg_entries := pruneLocked (env_now e) (rg_entries gl)\<rparr>"
  note eq = Consume_loaded [OF ne L1 g0_def, of enc x]
  show ?thesis
    using assms ne rg_load_ok [OF L1] unfolding eq
    by (auto simp: g0_def Let_def split: if_splits prod.splits bool.splits)
qed

lemma Consume_success_remembered:
  assumes cod: "codec_ok enc dec" and C: "Consume enc dec e n x g d = (None, g1, d1)"
    and dis: "distinct (map fst (rg_entries g1))" and t: "env_tmp e \<noteq> rg_path g"
  shows "remembered dec (TrimSpace n) x (length (rg_entries g1)) g1 d1"
proof -
  note S = Consume_success [OF C]
  from t S have t1: "env_tmp e \<noteq> rg_path g1" by simp
  have h: "holds_nonce (TrimSpace n) x (length (rg_entries g1)) (rg_entries g1)"
    using S dis by (auto simp: holds_nonce_def)
  from S persistLocked_cases [OF t1] obtain c where
    c: "enc (rg_entries g1) = Some c" "d1 (rg_path g1) = Some (rg_file c)" by blast
  obtain es' where "dec c = Some (Some es')" "set es' = set (rg_entries g1)" "distinct (map fst es')"
    using codec_okE [OF cod c(1) dis] .
  with c h holds_nonce_same_set [OF h] show ?thesis
    by (auto simp: remembered_def rg_file_def)
qed

section \<open>Properties\<close>

text \<open>
  A nonce is accepted at most once before its expiry. After a successful \<open>Consume\<close>, and any
  history of consumptions, queries and restarts whose clock has not passed the recorded expiry and
  that fits the 4096 entries of the record, consuming the same nonce again is refused, whichever
  file-system calls fail on the way.
\<close>

theorem Consume_refuses_replay:
  assumes "codec_ok enc dec"
    and "Consume enc dec e n x g d = (None, g1, d1)"
    and "distinct (map fst (rg_entries g1))"
    and "length (rg_entries g1) + length ys < maximumEntries"
    and "env_tmp e \<noteq> rg_path g"
    and "\<forall>y \<in> set ys. env_now (fst y) \<le> x \<and> env_tmp (fst y) \<noteq> rg_path g"
    and "rg_run enc dec ys (g1, d1) = (g2, d2)"
    and "env_now e' \<le> x" and "env_tmp e' \<noteq> rg_path g"
  shows "fst (Consume enc dec e' n x' g2 d2) \<noteq> None"
proof -
  let ?n = "TrimSpace n" and ?k = "length (rg_entries g1)"
  have g1: "rg_path g1 = rg_path g" using Consume_success [OF assms(2)] by simp
  note rem = Consume_success_remembered [OF assms(1,2,3,5)]
  have R: "remembered dec ?n x (?k + length ys) g2 d2" "rg_path g2 = rg_path g1"
    using rg_run_remembered [OF assms(1) rem _ _ assms(7)] assms(4,6) g1 by auto
  obtain r g3 d3 where C: "Consume enc dec e' n x' g2 d2 = (r, g3, d3)" by (metis prod_cases3)
  have "?k + length ys < maximumEntries" "env_tmp e' \<noteq> rg_path g2" using assms(4,9) R g1 by auto
  from Consume_remembered [OF assms(1) R(1) this(1) assms(8) this(2) C] C show ?thesis by simp
qed

lemma TrimSpace_n1: "TrimSpace ''n1'' = ''n1''"
  by (simp add: TrimSpace_def strip.simps space_runes_def starts_with_def)

lemma Consume_example:
  "\<exists>g1 d1. Consume Some (\<lambda>m. Some (Some m)) (quiet_env ''t'' 5) ''n1'' 100
      (NewReplayGuard ''d'' ''d'') Map.empty = (None, g1, d1) \<and> rg_entries g1 = [(''n1'', 100)] \<and>
      rg_path g1 = ''d''"
  by (simp add: Consume_def Let_def TrimSpace_n1 NewReplayGuard_def rg_load_def read_file_def quiet_env_def
      pruneLocked_def drop_excess_small persistLocked_def run_deferred_def rg_pre_def rg_post_def op_fails_def)

theorem Consume_refuses_replay_witness:
  "\<exists>g1 d1 g2 d2. Consume Some (\<lambda>m. Some (Some m)) (quiet_env ''t'' 5) ''n1'' 100
      (NewReplayGuard ''d'' ''d'') Map.empty = (None, g1, d1) \<and>
    rg_run Some (\<lambda>m. Some (Some m)) [(quiet_env ''t'' 6, RRestart), (quiet_env ''t'' 7, RConsume ''n2'' 50)]
      (g1, d1) = (g2, d2) \<and>
    fst (Consume Some (\<lambda>m. Some (Some m)) (quiet_env ''t'' 8) ''n1'' 100 g2 d2) \<noteq> None"
proof -
  let ?ys = "[(quiet_env ''t'' 6, RRestart), (quiet_env ''t'' 7, RConsume ''n2'' 50)]"
  let ?g = "NewReplayGuard ''d'' ''d''"
  have cod: "codec_ok Some (\<lambda>m. Some (Some m))" by (simp add: codec_ok_def)
  obtain g1 d1 where C: "Consume Some (\<lambda>m. Some (Some m)) (quiet_env ''t'' 5) ''n1'' 100 ?g Map.empty = (None, g1, d1)"
    and g1: "rg_entries g1 = [(''n1'', 100)]" using Consume_example by blast
  have p: "rg_path ?g = ''d''" by (simp add: NewReplayGuard_def)
  obtain g2 d2 where R: "rg_run Some (\<lambda>m. Some (Some m)) ?ys (g1, d1) = (g2, d2)" by force
  have "fst (Consume Some (\<lambda>m. Some (Some m)) (quiet_env ''t'' 8) ''n1'' 100 g2 d2) \<noteq> None"
    by (rule Consume_refuses_replay [OF cod C _ _ _ _ R]) (simp_all add: g1 p quiet_env_def)
  with C R show ?thesis by blast
qed

text \<open>
  The record is bounded and self-cleaning. After \<open>Consume\<close> has succeeded the record holds the
  nonce with its expiry first, no other entry had expired, and, when no recorded nonce is the
  empty string, there are at most 4096 others.
\<close>

theorem Consume_record_bounded:
  assumes "Consume enc dec e n x g d = (None, g1, d1)"
    and "rg_loaded g" and "[] \<notin> set (map fst (rg_entries g))"
  shows "\<exists>es. rg_entries g1 = (TrimSpace n, x) # es \<and> length es \<le> maximumEntries \<and>
    set es \<subseteq> set (rg_entries g) \<and> (\<forall>(m, y) \<in> set es. env_now e \<le> y) \<and> TrimSpace n \<notin> set (map fst es)"
proof -
  let ?es = "pruneLocked (env_now e) (rg_entries g)"
  have "rg_entries g1 = (TrimSpace n, x) # ?es" and "map_of ?es (TrimSpace n) = None"
    using assms(1,2) by (auto simp: Consume_def rg_load_def Let_def split: if_splits prod.splits bool.splits)
  moreover have "length ?es \<le> maximumEntries"
    unfolding pruneLocked_def using assms(3) by (intro length_drop_excess) auto
  moreover have "set ?es \<subseteq> set (rg_entries g)"
    using set_drop_excess by (fastforce simp: pruneLocked_def)
  ultimately show ?thesis
    using pruneLocked_unexpired by (auto simp: map_of_eq_None_iff)
qed

theorem Consume_record_bounded_witness:
  "\<exists>g1 d1 es. Consume Some (\<lambda>m. Some (Some m)) (quiet_env ''t'' 5) ''n1'' 100
      \<lparr>rg_path = ''d'', rg_entries = [(''a'', 4), (''b'', 9)], rg_loaded = True\<rparr> Map.empty = (None, g1, d1) \<and>
    rg_entries g1 = (TrimSpace ''n1'', 100) # es \<and> length es \<le> maximumEntries"
proof -
  let ?g = "\<lparr>rg_path = ''d'', rg_entries = [(''a'', 4), (''b'', 9)], rg_loaded = True\<rparr>"
  obtain g1 d1 where C: "Consume Some (\<lambda>m. Some (Some m)) (quiet_env ''t'' 5) ''n1'' 100 ?g Map.empty = (None, g1, d1)"
    by (simp add: Consume_def Let_def TrimSpace_n1 rg_load_def quiet_env_def pruneLocked_def
        drop_excess_small persistLocked_def run_deferred_def rg_pre_def rg_post_def op_fails_def)
  from Consume_record_bounded [OF C] C show ?thesis by fastforce
qed

end
