(* ===== verification/Credentials.thy ===== *)
theory Credentials
  imports AtomicFile
begin

text \<open>
  \<open>core/credentials/store.go\<close>: the enrolled identity of the agent, kept in memory and in one
  file. JSON encoding is a parameter (\<open>enc\<close>, \<open>None\<close> when \<open>json.MarshalIndent\<close> fails; \<open>dec\<close>);
  every operation takes the environment of its file-system calls and returns its result, the
  store and the disk.
\<close>

section \<open>Data\<close>

record RefreshAttempt =
  ra_RequestID :: string
  ra_StartedAt :: gotime

record PinnedKey =
  pk_Algorithm :: int
  pk_Value :: string
  pk_KeyID :: string
  pk_NotBefore :: gotime
  pk_NotAfter :: "gotime option"

record Identity =
  Endpoint :: string
  AgentID :: string
  PrivateKey :: string
  PublicKey :: string
  KeyID :: string
  Generation :: "u64 option"
  PendingRefresh :: "RefreshAttempt option"
  AccessToken :: string
  AccessTokenExpiresAt :: gotime
  RefreshToken :: string
  RefreshTokenExpiresAt :: gotime
  Scopes :: "string list"
  ControlPlaneKeys :: "PinnedKey list"
  PolicyAlgorithms :: "int list"
  PolicyRequireAll :: bool
  PolicyMinimumSignatures :: u32
  EnrolledAt :: gotime
  UpdatedAt :: gotime

text \<open>The zero value \<open>Identity{}\<close>.\<close>

definition Identity_zero :: Identity where
  "Identity_zero = \<lparr>Endpoint = [], AgentID = [], PrivateKey = [], PublicKey = [], KeyID = [],
     Generation = None, PendingRefresh = None, AccessToken = [], AccessTokenExpiresAt = 0,
     RefreshToken = [], RefreshTokenExpiresAt = 0, Scopes = [], ControlPlaneKeys = [],
     PolicyAlgorithms = [], PolicyRequireAll = False, PolicyMinimumSignatures = 0,
     EnrolledAt = 0, UpdatedAt = 0\<rparr>"

record cred_store =
  cs_path :: path
  cs_identity :: "Identity option"

datatype cred_error =
    ReadCredentials
  | DecodeCredentials
  | EncodeCredentials
  | PersistFailed
  | RemoveCredentials
  | NotEnrolled
  | CommitConflict
  | GenerationDidNotAdvanceOnce
  | DecodeKey
  | KeySize

abbreviation refreshSkew :: duration where
  "refreshSkew \<equiv> 5 * minute"

section \<open>Opening and reading\<close>

definition cred_Open ::
  "path \<Rightarrow> ('c \<Rightarrow> Identity option) \<Rightarrow> ('c fs_op \<Rightarrow> bool) \<Rightarrow> path \<Rightarrow> 'c disk \<Rightarrow> cred_error + cred_store" where
  "cred_Open DefaultPath dec f p d =
     (let p = (if TrimSpace p = [] then DefaultPath else p) in
      case read_file f p d of
        Inl NotExist \<Rightarrow> Inr \<lparr>cs_path = p, cs_identity = None\<rparr>
      | Inl ReadFailed \<Rightarrow> Inl ReadCredentials
      | Inr None \<Rightarrow> Inl DecodeCredentials
      | Inr (Some c) \<Rightarrow>
          (case dec c of None \<Rightarrow> Inl DecodeCredentials
           | Some i \<Rightarrow> Inr \<lparr>cs_path = p, cs_identity = Some i\<rparr>))"

definition Enrolled :: "cred_store \<Rightarrow> bool" where
  "Enrolled s = (case cs_identity s of None \<Rightarrow> False | Some i \<Rightarrow> AgentID i \<noteq> [] \<and> RefreshToken i \<noteq> [])"

definition cred_Identity :: "cred_store \<Rightarrow> Identity \<times> bool" where
  "cred_Identity s = (case cs_identity s of None \<Rightarrow> (Identity_zero, False) | Some i \<Rightarrow> (i, True))"

text \<open>Decoding the private key: \<open>b64\<close> is \<open>base64.StdEncoding.DecodeString\<close>.\<close>

definition SigningKey :: "(string \<Rightarrow> bytes option) \<Rightarrow> Identity \<Rightarrow> cred_error + bytes" where
  "SigningKey b64 i =
     (case b64 (PrivateKey i) of
        None \<Rightarrow> Inl DecodeKey
      | Some raw \<Rightarrow> if length raw \<noteq> 64 then Inl KeySize else Inr raw)"

definition NeedsRefresh :: "Identity \<Rightarrow> gotime \<Rightarrow> bool" where
  "NeedsRefresh i now =
     (if AccessToken i = [] then True
      else if AccessTokenExpiresAt i = 0 then False
      else now + refreshSkew > AccessTokenExpiresAt i)"

definition RefreshExpired :: "Identity \<Rightarrow> gotime \<Rightarrow> bool" where
  "RefreshExpired i now =
     (if RefreshToken i = [] then True
      else if RefreshTokenExpiresAt i = 0 then False
      else now > RefreshTokenExpiresAt i)"

section \<open>Writing\<close>

definition cred_pre :: "path \<Rightarrow> path \<Rightarrow> 'c \<Rightarrow> 'c fs_op list" where
  "cred_pre t p c =
     [MkdirAll p 448, CreateTemp t, Chmod t mode_0600, Write t c, Sync t, Close t]"

definition cred_post :: "path \<Rightarrow> 'c fs_op list" where
  "cred_post p = [SyncDirectory p]"

definition private_file :: "'c \<Rightarrow> 'c node" where
  "private_file c = Regular (Some c) mode_0600 (-1, -1)"

definition cred_persist ::
  "(Identity \<Rightarrow> 'c option) \<Rightarrow> 'c env \<Rightarrow> path \<Rightarrow> Identity \<Rightarrow> 'c disk \<Rightarrow> cred_error option \<times> 'c disk" where
  "cred_persist enc e p i d =
     (case enc i of
        None \<Rightarrow> (Some EncodeCredentials, d)
      | Some c \<Rightarrow>
          (case run_deferred (env_faults e)
                  (cred_pre (env_tmp e) p c @ Rename (env_tmp e) p # cred_post p) (env_tmp e) d of
             (None, d') \<Rightarrow> (None, d')
           | (Some _, d') \<Rightarrow> (Some PersistFailed, d')))"

definition cred_publish ::
  "(Identity \<Rightarrow> 'c option) \<Rightarrow> 'c env \<Rightarrow> cred_store \<Rightarrow> Identity \<Rightarrow> 'c disk \<Rightarrow>
     (cred_error + unit) \<times> cred_store \<times> 'c disk" where
  "cred_publish enc e s i d =
     (case cred_persist enc e (cs_path s) i d of
        (Some err, d') \<Rightarrow> (Inl err, s, d')
      | (None, d') \<Rightarrow> (Inr (), s\<lparr>cs_identity := Some i\<rparr>, d'))"

definition cred_Save ::
  "(Identity \<Rightarrow> 'c option) \<Rightarrow> 'c env \<Rightarrow> Identity \<Rightarrow> cred_store \<Rightarrow> 'c disk \<Rightarrow>
     (cred_error + unit) \<times> cred_store \<times> 'c disk" where
  "cred_Save enc e i s d =
     (let i = i\<lparr>UpdatedAt := env_now e\<rparr>;
          i = (if EnrolledAt i = 0 then i\<lparr>EnrolledAt := UpdatedAt i\<rparr> else i)
      in cred_publish enc e s i d)"

definition UpdateCredentials ::
  "(Identity \<Rightarrow> 'c option) \<Rightarrow> 'c env \<Rightarrow> string \<Rightarrow> string \<Rightarrow> gotime \<Rightarrow> string \<Rightarrow> gotime \<Rightarrow> string list \<Rightarrow>
     cred_store \<Rightarrow> 'c disk \<Rightarrow> (cred_error + unit) \<times> cred_store \<times> 'c disk" where
  "UpdateCredentials enc e agentID accessToken accessExpiry refreshToken refreshExpiry scopes s d =
     (case cs_identity s of
        None \<Rightarrow> (Inl NotEnrolled, s, d)
      | Some i \<Rightarrow>
          (let i = (if agentID \<noteq> [] then i\<lparr>AgentID := agentID\<rparr> else i);
               i = i\<lparr>AccessToken := accessToken, AccessTokenExpiresAt := accessExpiry\<rparr>;
               i = (if refreshToken \<noteq> []
                    then i\<lparr>RefreshToken := refreshToken, RefreshTokenExpiresAt := refreshExpiry\<rparr> else i);
               i = (if scopes \<noteq> [] then i\<lparr>Scopes := scopes\<rparr> else i);
               i = i\<lparr>UpdatedAt := env_now e\<rparr>
           in cred_publish enc e s i d))"

definition PinTrustBundle ::
  "(Identity \<Rightarrow> 'c option) \<Rightarrow> 'c env \<Rightarrow> PinnedKey list \<Rightarrow> int list \<Rightarrow> bool \<Rightarrow> u32 \<Rightarrow>
     cred_store \<Rightarrow> 'c disk \<Rightarrow> (cred_error + unit) \<times> cred_store \<times> 'c disk" where
  "PinTrustBundle enc e keys algorithms requireAll minimum s d =
     (case cs_identity s of
        None \<Rightarrow> (Inl NotEnrolled, s, d)
      | Some i \<Rightarrow>
          cred_publish enc e s
            (i\<lparr>ControlPlaneKeys := keys, PolicyAlgorithms := algorithms,
               PolicyRequireAll := requireAll, PolicyMinimumSignatures := minimum,
               UpdatedAt := env_now e\<rparr>) d)"

definition cred_Clear ::
  "'c env \<Rightarrow> cred_store \<Rightarrow> 'c disk \<Rightarrow> (cred_error + unit) \<times> cred_store \<times> 'c disk" where
  "cred_Clear e s d =
     (if env_faults e (Remove (cs_path s)) \<and> d (cs_path s) \<noteq> None
      then (Inl RemoveCredentials, s, d)
      else (Inr (), s\<lparr>cs_identity := None\<rparr>, effect (Remove (cs_path s)) d))"

text \<open>\<open>uuid\<close> is the request identifier that \<open>uuid.NewString()\<close> returns.\<close>

definition BeginRefresh ::
  "(Identity \<Rightarrow> 'c option) \<Rightarrow> 'c env \<Rightarrow> string \<Rightarrow> cred_store \<Rightarrow> 'c disk \<Rightarrow>
     (cred_error + Identity) \<times> cred_store \<times> 'c disk" where
  "BeginRefresh enc e uuid s d =
     (case cs_identity s of
        None \<Rightarrow> (Inl NotEnrolled, s, d)
      | Some i \<Rightarrow>
          if RefreshToken i = [] then (Inl NotEnrolled, s, d)
          else if PendingRefresh i = None then
            (let i = i\<lparr>PendingRefresh := Some \<lparr>ra_RequestID = uuid, ra_StartedAt = env_now e\<rparr>,
                       UpdatedAt := env_now e\<rparr>
             in case cred_publish enc e s i d of
                  (Inl err, s', d') \<Rightarrow> (Inl err, s', d')
                | (Inr _, s', d') \<Rightarrow> (Inr i, s', d'))
          else (Inr i, s, d))"

definition CommitRefresh ::
  "(Identity \<Rightarrow> 'c option) \<Rightarrow> 'c env \<Rightarrow> Identity \<Rightarrow> Identity \<Rightarrow> cred_store \<Rightarrow> 'c disk \<Rightarrow>
     (cred_error + unit) \<times> cred_store \<times> 'c disk" where
  "CommitRefresh enc e before after s d =
     (case (cs_identity s, PendingRefresh before, Generation after) of
        (Some i, Some b, Some g) \<Rightarrow>
          (case PendingRefresh i of
             None \<Rightarrow> (Inl CommitConflict, s, d)
           | Some a \<Rightarrow>
               if RefreshToken i \<noteq> RefreshToken before \<or> AgentID i \<noteq> AgentID before \<or>
                  ra_RequestID a \<noteq> ra_RequestID b \<or> AgentID after \<noteq> AgentID before
               then (Inl CommitConflict, s, d)
               else if (case Generation before of None \<Rightarrow> False | Some g0 \<Rightarrow> g \<noteq> g0 + 1)
               then (Inl GenerationDidNotAdvanceOnce, s, d)
               else cred_publish enc e s
                      (after\<lparr>PendingRefresh := None, EnrolledAt := EnrolledAt i,
                             UpdatedAt := env_now e\<rparr>) d)
      | _ \<Rightarrow> (Inl CommitConflict, s, d))"

section \<open>Histories of the store\<close>

datatype cred_op =
    OpSave Identity
  | OpUpdate string string gotime string gotime "string list"
  | OpPin "PinnedKey list" "int list" bool u32
  | OpClear
  | OpBegin string
  | OpCommit Identity Identity

definition flat :: "('e + 'a) \<times> 's \<times> 'd \<Rightarrow> bool \<times> 's \<times> 'd" where
  "flat r = (case r of (Inl _, s, d) \<Rightarrow> (False, s, d) | (Inr _, s, d) \<Rightarrow> (True, s, d))"

fun cred_step ::
  "(Identity \<Rightarrow> 'c option) \<Rightarrow> 'c env \<Rightarrow> cred_op \<Rightarrow> cred_store \<Rightarrow> 'c disk \<Rightarrow> bool \<times> cred_store \<times> 'c disk" where
  "cred_step enc e (OpSave i) s d = flat (cred_Save enc e i s d)"
| "cred_step enc e (OpUpdate a t x r y sc) s d = flat (UpdateCredentials enc e a t x r y sc s d)"
| "cred_step enc e (OpPin ks al ra m) s d = flat (PinTrustBundle enc e ks al ra m s d)"
| "cred_step enc e OpClear s d = flat (cred_Clear e s d)"
| "cred_step enc e (OpBegin u) s d = flat (BeginRefresh enc e u s d)"
| "cred_step enc e (OpCommit b a) s d = flat (CommitRefresh enc e b a s d)"

text \<open>The file holds exactly what the memory holds.\<close>

definition cred_coherent :: "(Identity \<Rightarrow> 'c option) \<Rightarrow> cred_store \<Rightarrow> 'c disk \<Rightarrow> bool" where
  "cred_coherent enc s d =
     (case cs_identity s of
        None \<Rightarrow> d (cs_path s) = None
      | Some i \<Rightarrow> \<exists>c. enc i = Some c \<and> d (cs_path s) = Some (private_file c))"

definition fit_env :: "'c env \<Rightarrow> path \<Rightarrow> bool" where
  "fit_env e p \<longleftrightarrow> env_tmp e \<noteq> p \<and> \<not> env_faults e (SyncDirectory p)"

interpretation cw: atomic_writer cred_pre cred_post private_file
  by unfold_locales (auto simp: cred_pre_def cred_post_def private_file_def)

lemma cred_persist_cases:
  assumes "env_tmp e \<noteq> p" and "cred_persist enc e p i d = (r, d')"
  shows "(r = None \<longrightarrow> (\<exists>c. enc i = Some c \<and> d' p = Some (private_file c))) \<and>
    (r \<noteq> None \<longrightarrow> d' p = d p \<or> env_faults e (SyncDirectory p) \<and> (\<exists>c. enc i = Some c \<and> d' p = Some (private_file c)))"
proof (cases "enc i")
  case None
  with assms(2) show ?thesis by (auto simp: cred_persist_def)
next
  case (Some c)
  obtain x d1 where x: "run_deferred (env_faults e)
      (cred_pre (env_tmp e) p c @ Rename (env_tmp e) p # cred_post p) (env_tmp e) d = (x, d1)"
    by force
  note D = cw.run_destination [OF assms(1) x]
  have "d' = d1" and "r = map_option (\<lambda>_. PersistFailed) x"
    using assms(2) Some x by (auto simp: cred_persist_def split: option.splits)
  moreover have "env_faults e (SyncDirectory p)" if "x = Some (SyncDirectory p)"
    using run_deferred_fault that x by fastforce
  ultimately show ?thesis using D Some by (auto simp: cred_post_def cred_pre_def)
qed

lemma cred_publish_cases:
  assumes "env_tmp e \<noteq> cs_path s" and "cred_publish enc e s i d = (r, s', d')"
  shows "cs_path s' = cs_path s \<and>
    (\<forall>err. r = Inl err \<longrightarrow> s' = s \<and>
       (d' (cs_path s) = d (cs_path s) \<or> env_faults e (SyncDirectory (cs_path s)) \<and>
         (\<exists>c. enc i = Some c \<and> d' (cs_path s) = Some (private_file c)))) \<and>
    (\<forall>u. r = Inr u \<longrightarrow> s' = s\<lparr>cs_identity := Some i\<rparr> \<and> cred_coherent enc s' d')"
proof -
  obtain x d1 where x: "cred_persist enc e (cs_path s) i d = (x, d1)" by force
  from cred_persist_cases [OF assms(1) x] assms(2) show ?thesis
    by (cases x) (auto simp: cred_publish_def x cred_coherent_def)
qed

lemma cred_publish_refused: "cred_publish enc e s i d = (Inl err, s', d') \<Longrightarrow> s' = s"
  by (auto simp: cred_publish_def split: prod.splits option.splits)

lemma cred_publish_path: "cred_publish enc e s i d = (r, s', d') \<Longrightarrow> cs_path s' = cs_path s"
  by (auto simp: cred_publish_def split: prod.splits option.splits)

lemmas cred_op_defs [op_defs] =
  cred_Save_def UpdateCredentials_def PinTrustBundle_def cred_Clear_def BeginRefresh_def
  CommitRefresh_def Let_def flat_def

text \<open>Every operation is a refusal that changes nothing, or goes through \<open>cred_publish\<close> or \<open>Clear\<close>.\<close>

lemma cred_step_cases:
  assumes "cred_step enc e a s d = (ok, s', d')"
  obtains "\<not> ok" "s' = s" "d' = d"
  | "ok" "s' = s" "d' = d"
  | i r where "cred_publish enc e s i d = (r, s', d')" "ok = (\<exists>u. r = Inr u)"
  | "ok" "s' = s\<lparr>cs_identity := None\<rparr>" "d' = d(cs_path s := None)"
  using assms
  by (cases a) (auto simp: op_defs split: result_splits)

lemma cred_step_refused:
  assumes "cred_step enc e a s d = (False, s', d')"
  shows "s' = s"
  using assms
proof (cases rule: cred_step_cases)
  case (3 i r)
  then obtain err where "r = Inl err" by (cases r) auto
  with 3 show ?thesis by (auto dest: cred_publish_refused)
qed auto

lemma cred_step_path:
  assumes "cred_step enc e a s d = (ok, s', d')"
  shows "cs_path s' = cs_path s"
  using assms by (cases rule: cred_step_cases) (auto dest: cred_publish_path)

lemma cred_step_coherent:
  assumes fit: "fit_env e (cs_path s)" and coh: "cred_coherent enc s d"
    and st: "cred_step enc e a s d = (ok, s', d')"
  shows "cred_coherent enc s' d'"
  using st
proof (cases rule: cred_step_cases)
  case (3 i r)
  from fit have t: "env_tmp e \<noteq> cs_path s" by (simp add: fit_env_def)
  show ?thesis
  proof (cases r)
    case (Inl err)
    with cred_publish_cases [OF t 3(1)] fit have "s' = s" and "d' (cs_path s) = d (cs_path s)"
      by (auto simp: fit_env_def)
    with coh show ?thesis by (auto simp: cred_coherent_def split: option.splits)
  next
    case (Inr u)
    with cred_publish_cases [OF t 3(1)] show ?thesis by auto
  qed
qed (use coh in \<open>auto simp: cred_coherent_def\<close>)

interpretation cs: durable_store "cred_step enc" cs_path fit_env "cred_coherent enc"
  for enc :: "Identity \<Rightarrow> 'c option"
  by unfold_locales (auto dest: cred_step_refused cred_step_path intro: cred_step_coherent)

section \<open>A concrete store\<close>

definition sample_identity :: Identity where
  "sample_identity = Identity_zero\<lparr>AgentID := ''a1'', AccessToken := ''at'', RefreshToken := ''rt'',
     AccessTokenExpiresAt := 100 * minute, RefreshTokenExpiresAt := 5000 * minute\<rparr>"

definition sample_store :: cred_store where
  "sample_store = \<lparr>cs_path = ''c'', cs_identity = Some sample_identity\<rparr>"

abbreviation sample_disk :: "Identity disk" where
  "sample_disk \<equiv> [''c'' \<mapsto> private_file sample_identity]"

lemma sample_coherent: "cred_coherent Some sample_store sample_disk"
  by (simp add: cred_coherent_def sample_store_def)

lemma sample_path: "TrimSpace (cs_path sample_store) \<noteq> []"
  by (simp add: sample_store_def TrimSpace_def strip.simps space_runes_def starts_with_def)

lemma sample_fit: "fit_env (quiet_env ''t'' now) (cs_path sample_store)"
  by (simp add: fit_env_def quiet_env_def sample_store_def)

lemmas cred_eval =
  sample_identity_def sample_store_def Identity_zero_def quiet_env_def BeginRefresh_def
  CommitRefresh_def cred_publish_def cred_persist_def run_deferred_def cred_pre_def cred_post_def
  op_fails_def Let_def cred_Save_def PinTrustBundle_def UpdateCredentials_def cred_Clear_def flat_def

section \<open>Properties\<close>

lemma cred_Open_coherent:
  assumes rt: "\<forall>i c. enc i = Some c \<longrightarrow> dec c = Some i"
    and coh: "cred_coherent enc s d" and p: "TrimSpace (cs_path s) \<noteq> []"
  shows "cred_Open DefaultPath dec (\<lambda>_. False) (cs_path s) d = Inr s"
proof (cases "cs_identity s")
  case None
  with coh p show ?thesis
    by (simp add: cred_Open_def cred_coherent_def read_file_def)
next
  case (Some i)
  with coh obtain c where "enc i = Some c" "d (cs_path s) = Some (private_file c)"
    by (auto simp: cred_coherent_def)
  with rt p Some show ?thesis
    by (simp add: cred_Open_def read_file_def private_file_def)
qed

text \<open>
  C29: a restart never loses or changes credentials. After any history of saves, rotations,
  pinnings, refresh attempts and logouts, whichever calls before the rename fail and whichever
  operations are refused, opening the credentials file again gives exactly the store in memory.
\<close>

theorem cred_history_reopens:
  assumes "\<forall>i c. enc i = Some c \<longrightarrow> dec c = Some i"
    and "\<forall>y \<in> set ys. fit_env (fst y) (cs_path s)"
    and "cred_coherent enc s d" and "TrimSpace (cs_path s) \<noteq> []"
    and "durable_store.runs (cred_step enc) ys (s, d) = (s', d')"
  shows "cred_Open DefaultPath dec (\<lambda>_. False) (cs_path s) d' = Inr s'"
proof -
  from cs.runs_coherent [OF assms(2,3,5)]
  have "cred_coherent enc s' d'" and "cs_path s' = cs_path s" by auto
  with cred_Open_coherent [OF assms(1), of s' d'] assms(4) show ?thesis by simp
qed

theorem cred_history_reopens_witness:
  "cred_Open ''d'' Some (\<lambda>_. False) ''c''
     (snd (durable_store.runs (cred_step Some) [(quiet_env ''t'' 7, OpBegin ''u1''), (quiet_env ''t'' 8, OpClear)]
        (sample_store, sample_disk))) =
   Inr (fst (durable_store.runs (cred_step Some) [(quiet_env ''t'' 7, OpBegin ''u1''), (quiet_env ''t'' 8, OpClear)]
        (sample_store, sample_disk)))"
proof -
  have f: "\<forall>y \<in> set [(quiet_env ''t'' 7, OpBegin ''u1''), (quiet_env ''t'' 8, OpClear)].
      fit_env (fst y) (cs_path sample_store)"
    by (simp add: sample_fit)
  have "cs_path sample_store = ''c''" by (simp add: sample_store_def)
  with cred_history_reopens [OF _ f sample_coherent sample_path prod.collapse [symmetric],
      of Some "''d''"]
  show ?thesis by simp
qed

text \<open>
  A refresh is one durable operation. Once \<open>BeginRefresh\<close> has returned an identity, every
  retry, with whatever new request identifier and even after a restart from the file, returns the
  same identity with the same request identifier and writes nothing.
\<close>

theorem BeginRefresh_retry:
  assumes "\<forall>i c. enc i = Some c \<longrightarrow> dec c = Some i"
    and "fit_env e (cs_path s)" and "cred_coherent enc s d" and "TrimSpace (cs_path s) \<noteq> []"
    and B: "BeginRefresh enc e u s d = (Inr i, s1, d1)"
  shows "BeginRefresh enc e' u' s1 d1 = (Inr i, s1, d1) \<and> PendingRefresh i \<noteq> None \<and>
    cred_Open DefaultPath dec (\<lambda>_. False) (cs_path s) d1 = Inr s1"
proof -
  have st: "cred_step enc e (OpBegin u) s d = (True, s1, d1)"
    using B by (simp add: flat_def)
  have coh: "cred_coherent enc s1 d1" by (rule cred_step_coherent [OF assms(2,3) st])
  have path: "cs_path s1 = cs_path s" by (rule cred_step_path [OF st])
  have s1: "cs_identity s1 = Some i" "RefreshToken i \<noteq> []" "PendingRefresh i \<noteq> None"
    using B by (auto simp: BeginRefresh_def Let_def cred_publish_def split: result_splits)
  then have "BeginRefresh enc e' u' s1 d1 = (Inr i, s1, d1)"
    by (auto simp: BeginRefresh_def)
  with s1 cred_Open_coherent [OF assms(1) coh] path assms(4) show ?thesis by simp
qed

theorem BeginRefresh_retry_witness:
  "\<exists>i s1 d1. BeginRefresh Some (quiet_env ''t'' 7) ''u1'' sample_store sample_disk = (Inr i, s1, d1) \<and>
     BeginRefresh Some (quiet_env ''t'' 9) ''u2'' s1 d1 = (Inr i, s1, d1)"
proof -
  obtain i s1 d1 where B: "BeginRefresh Some (quiet_env ''t'' 7) ''u1'' sample_store sample_disk = (Inr i, s1, d1)"
    by (simp add: cred_eval)
  from BeginRefresh_retry [OF _ sample_fit sample_coherent sample_path B, of Some "quiet_env ''t'' 9" "''u2''"]
  have "BeginRefresh Some (quiet_env ''t'' 9) ''u2'' s1 d1 = (Inr i, s1, d1)" by simp
  with B show ?thesis by blast
qed

text \<open>
  A refresh result is published at most once and only for the pending request. A successful
  \<open>CommitRefresh\<close> found the same token, agent and request identifier pending, keeps the agent and
  the enrolment time, clears the pending request, and (when the previous generation is known)
  advances the generation by exactly one modulo the 64-bit wrap-around; any further commit is a
  conflict that changes nothing.
\<close>

theorem CommitRefresh_once:
  assumes C: "CommitRefresh enc e before after s d = (Inr u, s1, d1)"
  shows "\<exists>i j a b g. cs_identity s = Some i \<and> cs_identity s1 = Some j \<and>
      PendingRefresh i = Some a \<and> PendingRefresh before = Some b \<and> ra_RequestID a = ra_RequestID b \<and>
      RefreshToken i = RefreshToken before \<and> AgentID j = AgentID i \<and> EnrolledAt j = EnrolledAt i \<and>
      PendingRefresh j = None \<and> Generation j = Some g \<and>
      (\<forall>g0. Generation before = Some g0 \<longrightarrow> g = g0 + 1) \<and>
      CommitRefresh enc e' before' after' s1 d1 = (Inl CommitConflict, s1, d1)"
proof -
  from C obtain i a b g where
    i: "cs_identity s = Some i" "PendingRefresh i = Some a" "PendingRefresh before = Some b"
      "Generation after = Some g" "RefreshToken i = RefreshToken before" "AgentID i = AgentID before"
      "ra_RequestID a = ra_RequestID b" "AgentID after = AgentID before"
      "\<forall>g0. Generation before = Some g0 \<longrightarrow> g = g0 + 1"
    and P: "cred_publish enc e s (after\<lparr>PendingRefresh := None, EnrolledAt := EnrolledAt i,
        UpdatedAt := env_now e\<rparr>) d = (Inr u, s1, d1)"
    unfolding CommitRefresh_def by (auto split: result_splits)
  from P have j: "cs_identity s1 = Some (after\<lparr>PendingRefresh := None, EnrolledAt := EnrolledAt i,
      UpdatedAt := env_now e\<rparr>)"
    by (auto simp: cred_publish_def split: result_splits)
  then have "CommitRefresh enc e' before' after' s1 d1 = (Inl CommitConflict, s1, d1)"
    by (auto simp: CommitRefresh_def split: option.splits)
  with i j show ?thesis by fastforce
qed

theorem CommitRefresh_once_witness:
  "\<exists>u s1 d1. CommitRefresh Some (quiet_env ''t'' 9)
      (sample_identity\<lparr>Generation := Some 4, PendingRefresh := Some \<lparr>ra_RequestID = ''u1'', ra_StartedAt = 7\<rparr>\<rparr>)
      (sample_identity\<lparr>Generation := Some 5, RefreshToken := ''rt2''\<rparr>)
      (sample_store\<lparr>cs_identity := Some (sample_identity\<lparr>PendingRefresh :=
          Some \<lparr>ra_RequestID = ''u1'', ra_StartedAt = 7\<rparr>\<rparr>)\<rparr>) sample_disk = (Inr u, s1, d1) \<and>
    CommitRefresh Some (quiet_env ''t'' 10) sample_identity sample_identity s1 d1 = (Inl CommitConflict, s1, d1)"
    (is "\<exists>u s1 d1. ?C = (Inr u, s1, d1) \<and> _")
proof -
  obtain u s1 d1 where C: "?C = (Inr u, s1, d1)"
    by (simp add: cred_eval)
  from CommitRefresh_once [OF C, of "quiet_env ''t'' 10" sample_identity sample_identity] C
  show ?thesis by blast
qed

end
