(* ===== verification/Base64.thy ===== *)
theory Base64
  imports Prelude
begin

text \<open>
  The part of Go's \<open>encoding/base64\<close> that the agent uses: \<open>StdEncoding\<close> with its padding
  rules. Decoding skips carriage returns and newlines and, as in Go, does not insist that the
  unused bits before the padding are zero. The round trip is the fact key pinning rests on.
\<close>

definition b64_alphabet :: string where
  "b64_alphabet = ''ABCDEFGHIJKLMNOPQRSTUVWXYZabcdefghijklmnopqrstuvwxyz0123456789+/''"

definition b64_char :: "nat \<Rightarrow> char" where
  "b64_char n = b64_alphabet ! n"

fun index_of :: "char \<Rightarrow> string \<Rightarrow> nat option" where
  "index_of c [] = None"
| "index_of c (x # xs) = (if x = c then Some 0 else map_option Suc (index_of c xs))"

definition b64_val :: "char \<Rightarrow> nat option" where
  "b64_val c = index_of c b64_alphabet"

abbreviation pad :: char where
  "pad \<equiv> CHR ''=''"

fun b64_encode :: "bytes \<Rightarrow> string" where
  "b64_encode [] = []"
| "b64_encode [a] = [b64_char (of_char a div 4), b64_char (of_char a mod 4 * 16), pad, pad]"
| "b64_encode [a, b] =
     [b64_char (of_char a div 4), b64_char (of_char a mod 4 * 16 + of_char b div 16),
      b64_char (of_char b mod 16 * 4), pad]"
| "b64_encode (a # b # c # xs) =
     [b64_char (of_char a div 4), b64_char (of_char a mod 4 * 16 + of_char b div 16),
      b64_char (of_char b mod 16 * 4 + of_char c div 64), b64_char (of_char c mod 64)]
     @ b64_encode xs"

fun b64_quads :: "string \<Rightarrow> bytes option" where
  "b64_quads [] = Some []"
| "b64_quads (p # q # r # s # xs) =
     (case (b64_val p, b64_val q) of
        (Some p', Some q') \<Rightarrow>
          (if r = pad then
             (if s = pad \<and> xs = [] then Some [char_of (p' * 4 + q' div 16)] else None)
           else (case b64_val r of
               None \<Rightarrow> None
             | Some r' \<Rightarrow>
                 if s = pad then
                   (if xs = [] then Some [char_of (p' * 4 + q' div 16), char_of (q' mod 16 * 16 + r' div 4)]
                    else None)
                 else (case (b64_val s, b64_quads xs) of
                     (Some s', Some ys) \<Rightarrow>
                       Some (char_of (p' * 4 + q' div 16) # char_of (q' mod 16 * 16 + r' div 4)
                         # char_of (r' mod 4 * 64 + s') # ys)
                   | _ \<Rightarrow> None)))
      | _ \<Rightarrow> None)"
| "b64_quads xs = None"

definition b64_decode :: "string \<Rightarrow> bytes option" where
  "b64_decode s = b64_quads (filter (\<lambda>c. c \<noteq> CHR 0x0A \<and> c \<noteq> CHR 0x0D) s)"

lemma b64_table:
  "\<forall>n \<in> set [0..<64]. b64_val (b64_char n) = Some n \<and> b64_char n \<noteq> pad \<and>
     b64_char n \<noteq> CHR 0x0A \<and> b64_char n \<noteq> CHR 0x0D"
  by code_simp

lemma b64_val_char [simp]: "n < 64 \<Longrightarrow> b64_val (b64_char n) = Some n"
  and b64_char_pad [simp]: "n < 64 \<Longrightarrow> b64_char n \<noteq> pad"
  and b64_char_lf [simp]: "n < 64 \<Longrightarrow> b64_char n \<noteq> CHR 0x0A"
  and b64_char_cr [simp]: "n < 64 \<Longrightarrow> b64_char n \<noteq> CHR 0x0D"
  using b64_table by auto

lemma of_char_bound: "(of_char a :: nat) < 256"
  by simp

lemma sextets:
  "(of_char a :: nat) div 4 < 64" "(of_char a :: nat) mod 4 * 16 < 64"
  "(of_char a :: nat) mod 4 * 16 + of_char b div 16 < 64"
  "(of_char b :: nat) mod 16 * 4 < 64" "(of_char b :: nat) mod 16 * 4 + of_char c div 64 < 64"
  using of_char_bound [of a] of_char_bound [of b] of_char_bound [of c] by (auto, linarith+)

lemma octets:
  "(of_char a :: nat) div 16 div 16 = 0" "(of_char a :: nat) div 16 mod 16 = of_char a div 16"
  "(of_char a :: nat) div 64 div 4 = 0" "(of_char a :: nat) div 64 mod 4 = of_char a div 64"
  using of_char_bound [of a] by (simp_all add: div_mult2_eq [symmetric] less_mult_imp_div_less)

lemma b64_encode_clean: "filter (\<lambda>c. c \<noteq> CHR 0x0A \<and> c \<noteq> CHR 0x0D) (b64_encode xs) = b64_encode xs"
  by (induction xs rule: b64_encode.induct) (simp_all add: sextets)

lemma b64_quads_encode: "b64_quads (b64_encode xs) = Some xs"
proof (induction xs rule: b64_encode.induct)
  case (2 a)
  then show ?case by (simp add: sextets octets)
next
  case (3 a b)
  then show ?case by (simp add: sextets octets)
next
  case (4 a b c xs)
  then show ?case by (simp add: sextets octets)
qed simp

text \<open>Decoding what \<open>EncodeToString\<close> wrote gives the bytes back.\<close>

lemma b64_roundtrip [simp]: "b64_decode (b64_encode xs) = Some xs"
  by (simp add: b64_decode_def b64_encode_clean b64_quads_encode)

end
