(* ===== verification/Signing.thy ===== *)
theory Signing
  imports Replay Credentials Base64
begin

text \<open>
  \<open>core/signing/verify.go\<close> and \<open>recorded.go\<close>: when the agent believes an instruction. Ed25519
  verification (\<open>ed key payload signature\<close>) and the protobuf decoder of the signed payload
  (\<open>unm\<close>, \<open>None\<close> when \<open>proto.Unmarshal\<close> fails) are parameters; base64 is the one of \<open>Base64\<close>.
\<close>

section \<open>Data\<close>

record Signature =
  sig_Algorithm :: int
  sig_KeyId :: string
  sig_Value :: bytes

record SignedEnvelope =
  se_Payload :: bytes
  se_Signatures :: "Signature list"

record SignedInstruction =
  si_AgentId :: string
  si_Nonce :: string
  si_InstructionType :: string
  si_Body :: bytes
  si_IssuedAt :: timestamp
  si_ExpiresAt :: timestamp

record Policy =
  AcceptedAlgorithms :: "int list"
  RequireAll :: bool
  MinimumSignatures :: u32

record Verifier =
  v_agentID :: string
  v_keys :: "PinnedKey list"
  v_policy :: Policy
  v_replay :: "replay_guard option"

record Instruction =
  in_AgentID :: string
  in_Nonce :: string
  in_InstructionType :: string
  in_Body :: bytes
  in_IssuedAt :: gotime
  in_ExpiresAt :: gotime
  in_VerifiedBy :: string

datatype verify_error =
    NoEnvelope
  | NoKeysPinned
  | NoPayload
  | NoSignature
  | PresentDidNotVerify
  | TooFewSignatures
  | NotDecodable
  | WrongAgent
  | NoInstructionNonce
  | NoInstructionExpiry
  | Expired
  | DatedInFuture
  | ReplayRefused replay_error
  | NoIssuance

abbreviation maximumClockSkew :: duration where
  "maximumClockSkew \<equiv> 2 * minute"

abbreviation (input) ED25519 :: int where
  "ED25519 \<equiv> 1"

section \<open>The verifier\<close>

definition New :: "Identity \<Rightarrow> replay_guard option \<Rightarrow> Verifier" where
  "New identity replay =
     \<lparr>v_agentID = AgentID identity, v_keys = ControlPlaneKeys identity,
      v_policy =
        \<lparr>AcceptedAlgorithms = (if PolicyAlgorithms identity = [] then [ED25519] else PolicyAlgorithms identity),
         RequireAll = PolicyRequireAll identity,
         MinimumSignatures = PolicyMinimumSignatures identity\<rparr>,
      v_replay = replay\<rparr>"

fun timeOrZero :: "timestamp \<Rightarrow> gotime" where
  "timeOrZero (TsValid t) = t"
| "timeOrZero _ = 0"

text \<open>Only Ed25519 is implemented; every other algorithm never counts as verified.\<close>

definition verifyOne :: "(bytes \<Rightarrow> bytes \<Rightarrow> bytes \<Rightarrow> bool) \<Rightarrow> int \<Rightarrow> bytes \<Rightarrow> bytes \<Rightarrow> bytes \<Rightarrow> bool" where
  "verifyOne ed algorithm key payload signature =
     (if algorithm = ED25519 then (if length key \<noteq> 32 then False else ed key payload signature)
      else False)"

fun findKey_in :: "PinnedKey list \<Rightarrow> string \<Rightarrow> int \<Rightarrow> gotime \<Rightarrow> bytes option" where
  "findKey_in [] keyID algorithm now = None"
| "findKey_in (pinned # ks) keyID algorithm now =
     (if pk_Algorithm pinned \<noteq> algorithm then findKey_in ks keyID algorithm now
      else if keyID \<noteq> [] \<and> pk_KeyID pinned \<noteq> keyID then findKey_in ks keyID algorithm now
      else if pk_NotBefore pinned \<noteq> 0 \<and> now + maximumClockSkew < pk_NotBefore pinned
        then findKey_in ks keyID algorithm now
      else if (case pk_NotAfter pinned of None \<Rightarrow> False | Some na \<Rightarrow> now - maximumClockSkew > na)
        then findKey_in ks keyID algorithm now
      else case b64_decode (pk_Value pinned) of
             None \<Rightarrow> findKey_in ks keyID algorithm now
           | Some raw \<Rightarrow> Some raw)"

definition findKey :: "Verifier \<Rightarrow> string \<Rightarrow> int \<Rightarrow> gotime \<Rightarrow> bytes option" where
  "findKey v keyID algorithm now = findKey_in (v_keys v) keyID algorithm now"

text \<open>
  The loop over the signatures: the algorithms that verified, the accepted algorithms that were
  present, and the identifiers of the signatures that verified, in order.
\<close>

fun signature_loop ::
  "(bytes \<Rightarrow> bytes \<Rightarrow> bytes \<Rightarrow> bool) \<Rightarrow> Verifier \<Rightarrow> gotime \<Rightarrow> bytes \<Rightarrow> Signature list \<Rightarrow>
     int list \<times> int list \<times> string list \<Rightarrow> int list \<times> int list \<times> string list" where
  "signature_loop ed v now payload [] acc = acc"
| "signature_loop ed v now payload (sg # sgs) (verified, present, ids) =
     (if sig_Algorithm sg \<notin> set (AcceptedAlgorithms (v_policy v))
      then signature_loop ed v now payload sgs (verified, present, ids)
      else
        (case findKey v (sig_KeyId sg) (sig_Algorithm sg) now of
           None \<Rightarrow> signature_loop ed v now payload sgs (verified, sig_Algorithm sg # present, ids)
         | Some key \<Rightarrow>
             if verifyOne ed (sig_Algorithm sg) key payload (sig_Value sg)
             then signature_loop ed v now payload sgs
                    (sig_Algorithm sg # verified, sig_Algorithm sg # present, ids @ [sig_KeyId sg])
             else signature_loop ed v now payload sgs (verified, sig_Algorithm sg # present, ids)))"

definition verifySignatures ::
  "(bytes \<Rightarrow> bytes \<Rightarrow> bytes \<Rightarrow> bool) \<Rightarrow> Verifier \<Rightarrow> gotime \<Rightarrow> bytes \<Rightarrow> Signature list \<Rightarrow> verify_error + string" where
  "verifySignatures ed v now payload signatures =
     (if signatures = [] then Inl NoSignature
      else case signature_loop ed v now payload signatures ([], [], []) of
        (verified, present, ids) \<Rightarrow>
          if RequireAll (v_policy v) \<and> (\<exists>a \<in> set present. a \<notin> set verified) then Inl PresentDidNotVerify
          else
            (let m = unat (MinimumSignatures (v_policy v)); minimum = (if m \<le> 0 then 1 else m) in
             if length ids < minimum then Inl TooFewSignatures
             else Inr (join '','' ids)))"

definition checkBinding :: "Verifier \<Rightarrow> SignedInstruction \<Rightarrow> gotime \<Rightarrow> verify_error option" where
  "checkBinding v i now =
     (if si_AgentId i \<noteq> v_agentID v then Some WrongAgent
      else if TrimSpace (si_Nonce i) = [] then Some NoInstructionNonce
      else
        (let expires = timeOrZero (si_ExpiresAt i); issued = timeOrZero (si_IssuedAt i) in
         if expires = 0 then Some NoInstructionExpiry
         else if now - maximumClockSkew > expires then Some Expired
         else if issued \<noteq> 0 \<and> issued > now + maximumClockSkew then Some DatedInFuture
         else None))"

definition instruction_of :: "SignedInstruction \<Rightarrow> string \<Rightarrow> Instruction" where
  "instruction_of i by_key =
     \<lparr>in_AgentID = si_AgentId i, in_Nonce = si_Nonce i, in_InstructionType = si_InstructionType i,
      in_Body = si_Body i, in_IssuedAt = timeOrZero (si_IssuedAt i),
      in_ExpiresAt = timeOrZero (si_ExpiresAt i), in_VerifiedBy = by_key\<rparr>"

text \<open>
  \<open>Verify\<close> up to the consumption of the nonce, and the whole function. The clock is read three
  times in the source (\<open>nowFunc\<close> twice, \<open>time.Now\<close> in \<open>Consume\<close>); one reading stands for them.
\<close>

definition Verify_checks ::
  "(bytes \<Rightarrow> bytes \<Rightarrow> bytes \<Rightarrow> bool) \<Rightarrow> (bytes \<Rightarrow> SignedInstruction option) \<Rightarrow> Verifier \<Rightarrow> gotime \<Rightarrow>
     SignedEnvelope option \<Rightarrow> verify_error + (SignedInstruction \<times> string)" where
  "Verify_checks ed unm v now envelope =
     (case envelope of
        None \<Rightarrow> Inl NoEnvelope
      | Some env \<Rightarrow>
          if v_keys v = [] then Inl NoKeysPinned
          else if se_Payload env = [] then Inl NoPayload
          else case verifySignatures ed v now (se_Payload env) (se_Signatures env) of
            Inl err \<Rightarrow> Inl err
          | Inr by_key \<Rightarrow>
              (case unm (se_Payload env) of
                 None \<Rightarrow> Inl NotDecodable
               | Some i \<Rightarrow>
                   (case checkBinding v i now of
                      Some err \<Rightarrow> Inl err
                    | None \<Rightarrow> Inr (i, by_key))))"

definition Verify ::
  "(bytes \<Rightarrow> bytes \<Rightarrow> bytes \<Rightarrow> bool) \<Rightarrow> (bytes \<Rightarrow> SignedInstruction option) \<Rightarrow>
     (nonces \<Rightarrow> 'c option) \<Rightarrow> ('c \<Rightarrow> nonces option option) \<Rightarrow> 'c env \<Rightarrow> SignedEnvelope option \<Rightarrow>
     Verifier \<Rightarrow> 'c disk \<Rightarrow> (verify_error + Instruction) \<times> Verifier \<times> 'c disk" where
  "Verify ed unm enc dec e envelope v d =
     (case Verify_checks ed unm v (env_now e) envelope of
        Inl err \<Rightarrow> (Inl err, v, d)
      | Inr (i, by_key) \<Rightarrow>
          (case v_replay v of
             None \<Rightarrow> (Inr (instruction_of i by_key), v, d)
           | Some g \<Rightarrow>
               (case Consume enc dec e (si_Nonce i) (timeOrZero (si_ExpiresAt i)) g d of
                  (Some err, g', d') \<Rightarrow> (Inl (ReplayRefused err), v\<lparr>v_replay := Some g'\<rparr>, d')
                | (None, g', d') \<Rightarrow> (Inr (instruction_of i by_key), v\<lparr>v_replay := Some g'\<rparr>, d'))))"

text \<open>\<open>VerifyRecorded\<close>: the historical check, at the time of issue and without the replay guard.\<close>

definition VerifyRecorded ::
  "(bytes \<Rightarrow> bytes \<Rightarrow> bytes \<Rightarrow> bool) \<Rightarrow> (bytes \<Rightarrow> SignedInstruction option) \<Rightarrow> Verifier \<Rightarrow>
     SignedEnvelope option \<Rightarrow> verify_error + Instruction" where
  "VerifyRecorded ed unm v envelope =
     (case envelope of
        None \<Rightarrow> Inl NoEnvelope
      | Some env \<Rightarrow>
          (case unm (se_Payload env) of
             None \<Rightarrow> Inl NotDecodable
           | Some payload \<Rightarrow>
               (case si_IssuedAt payload of
                  TsValid issued \<Rightarrow>
                    (case Verify_checks ed unm (v\<lparr>v_replay := None\<rparr>) issued envelope of
                       Inl err \<Rightarrow> Inl err
                     | Inr (i, by_key) \<Rightarrow> Inr (instruction_of i by_key))
                | _ \<Rightarrow> Inl NoIssuance)))"

section \<open>Facts\<close>

text \<open>One signature counts when a pinned key that is usable now verifies it.\<close>

definition counts ::
  "(bytes \<Rightarrow> bytes \<Rightarrow> bytes \<Rightarrow> bool) \<Rightarrow> Verifier \<Rightarrow> gotime \<Rightarrow> bytes \<Rightarrow> Signature \<Rightarrow> bool" where
  "counts ed v now payload sg \<longleftrightarrow>
     sig_Algorithm sg \<in> set (AcceptedAlgorithms (v_policy v)) \<and>
     (case findKey v (sig_KeyId sg) (sig_Algorithm sg) now of
        None \<Rightarrow> False
      | Some key \<Rightarrow> verifyOne ed (sig_Algorithm sg) key payload (sig_Value sg))"

lemma signature_loop_eq:
  "signature_loop ed v now payload sgs (verified, present, ids) =
     (rev (map sig_Algorithm (filter (counts ed v now payload) sgs)) @ verified,
      rev (filter (\<lambda>a. a \<in> set (AcceptedAlgorithms (v_policy v))) (map sig_Algorithm sgs)) @ present,
      ids @ map sig_KeyId (filter (counts ed v now payload) sgs))"
  by (induction sgs arbitrary: verified present ids) (auto simp: counts_def split: option.splits)

definition required :: "Verifier \<Rightarrow> nat" where
  "required v = max 1 (unat (MinimumSignatures (v_policy v)))"

lemma verifySignatures_iff:
  "verifySignatures ed v now payload sgs = Inr k \<longleftrightarrow>
     required v \<le> length (filter (counts ed v now payload) sgs) \<and>
     (RequireAll (v_policy v) \<longrightarrow>
        (\<forall>sg \<in> set sgs. sig_Algorithm sg \<in> set (AcceptedAlgorithms (v_policy v)) \<longrightarrow>
           (\<exists>sg' \<in> set sgs. sig_Algorithm sg' = sig_Algorithm sg \<and> counts ed v now payload sg'))) \<and>
     k = join '','' (map sig_KeyId (filter (counts ed v now payload) sgs))"
proof (cases "sgs = []")
  case True
  then show ?thesis by (auto simp: verifySignatures_def required_def)
next
  case False
  have "(\<exists>a \<in> set (rev (filter (\<lambda>a. a \<in> set (AcceptedAlgorithms (v_policy v))) (map sig_Algorithm sgs))).
          a \<notin> set (rev (map sig_Algorithm (filter (counts ed v now payload) sgs)))) =
        (\<not> (\<forall>sg \<in> set sgs. sig_Algorithm sg \<in> set (AcceptedAlgorithms (v_policy v)) \<longrightarrow>
           (\<exists>sg' \<in> set sgs. sig_Algorithm sg' = sig_Algorithm sg \<and> counts ed v now payload sg')))"
    by (auto simp: image_iff) metis+
  with False show ?thesis
    by (auto simp: verifySignatures_def signature_loop_eq required_def Let_def max_def Suc_le_eq split: if_splits)
qed

lemma findKey_in_sound:
  "findKey_in ks keyID algorithm now = Some raw \<Longrightarrow>
    \<exists>k \<in> set ks. pk_Algorithm k = algorithm \<and> (keyID \<noteq> [] \<longrightarrow> pk_KeyID k = keyID) \<and>
      (pk_NotBefore k \<noteq> 0 \<longrightarrow> pk_NotBefore k \<le> now + maximumClockSkew) \<and>
      (\<forall>na. pk_NotAfter k = Some na \<longrightarrow> now \<le> na + maximumClockSkew) \<and>
      b64_decode (pk_Value k) = Some raw"
  by (induction ks) (auto split: if_splits option.splits)

lemma counts_sound:
  "counts ed v now payload sg \<Longrightarrow>
    sig_Algorithm sg = ED25519 \<and> ED25519 \<in> set (AcceptedAlgorithms (v_policy v)) \<and>
    (\<exists>k raw. k \<in> set (v_keys v) \<and> pk_Algorithm k = ED25519 \<and>
      (sig_KeyId sg \<noteq> [] \<longrightarrow> pk_KeyID k = sig_KeyId sg) \<and>
      (pk_NotBefore k \<noteq> 0 \<longrightarrow> pk_NotBefore k \<le> now + maximumClockSkew) \<and>
      (\<forall>na. pk_NotAfter k = Some na \<longrightarrow> now \<le> na + maximumClockSkew) \<and>
      b64_decode (pk_Value k) = Some raw \<and> length raw = 32 \<and> ed raw payload (sig_Value sg))"
  unfolding counts_def findKey_def
  by (auto simp: verifyOne_def split: if_splits option.splits dest!: findKey_in_sound)

lemma length_filter_mono: "(\<And>x. x \<in> set xs \<Longrightarrow> P x \<Longrightarrow> Q x) \<Longrightarrow> length (filter P xs) \<le> length (filter Q xs)"
  by (induction xs) (auto simp: le_SucI)

lemma Verify_checks_Inr:
  "Verify_checks ed unm v now (Some env) = Inr (i, k) \<longleftrightarrow>
     v_keys v \<noteq> [] \<and> se_Payload env \<noteq> [] \<and>
     verifySignatures ed v now (se_Payload env) (se_Signatures env) = Inr k \<and>
     unm (se_Payload env) = Some i \<and> checkBinding v i now = None"
  by (auto simp: Verify_checks_def split: sum.splits option.splits)

lemma Verify_Inr:
  assumes "Verify ed unm enc dec e envelope v d = (Inr ins, v', d')"
  obtains i k where "Verify_checks ed unm v (env_now e) envelope = Inr (i, k)" "ins = instruction_of i k"
    and "v_replay v = None \<Longrightarrow> v' = v \<and> d' = d"
    and "\<And>g. v_replay v = Some g \<Longrightarrow> \<exists>g'. v' = v\<lparr>v_replay := Some g'\<rparr> \<and>
       Consume enc dec e (si_Nonce i) (timeOrZero (si_ExpiresAt i)) g d = (None, g', d')"
  using assms by (auto simp: Verify_def split: result_splits)

lemma instruction_of_simps [simp]:
  "in_AgentID (instruction_of i k) = si_AgentId i"
  "in_Nonce (instruction_of i k) = si_Nonce i"
  "in_InstructionType (instruction_of i k) = si_InstructionType i"
  "in_Body (instruction_of i k) = si_Body i"
  "in_IssuedAt (instruction_of i k) = timeOrZero (si_IssuedAt i)"
  "in_ExpiresAt (instruction_of i k) = timeOrZero (si_ExpiresAt i)"
  by (simp_all add: instruction_of_def)

lemma checkBinding_None:
  "checkBinding v i now = None \<longleftrightarrow>
     si_AgentId i = v_agentID v \<and> TrimSpace (si_Nonce i) \<noteq> [] \<and> timeOrZero (si_ExpiresAt i) \<noteq> 0 \<and>
     now \<le> timeOrZero (si_ExpiresAt i) + maximumClockSkew \<and>
     (timeOrZero (si_IssuedAt i) \<noteq> 0 \<longrightarrow> timeOrZero (si_IssuedAt i) \<le> now + maximumClockSkew)"
  by (auto simp: checkBinding_def Let_def)

text \<open>The specification of a signature that vouches for a payload.\<close>

definition vouched ::
  "(bytes \<Rightarrow> bytes \<Rightarrow> bytes \<Rightarrow> bool) \<Rightarrow> Verifier \<Rightarrow> gotime \<Rightarrow> bytes \<Rightarrow> Signature \<Rightarrow> bool" where
  "vouched ed v now payload sg \<longleftrightarrow>
     sig_Algorithm sg = ED25519 \<and> ED25519 \<in> set (AcceptedAlgorithms (v_policy v)) \<and>
     (\<exists>k \<in> set (v_keys v). \<exists>raw. pk_Algorithm k = ED25519 \<and> (sig_KeyId sg \<noteq> [] \<longrightarrow> pk_KeyID k = sig_KeyId sg) \<and>
        (pk_NotBefore k \<noteq> 0 \<longrightarrow> pk_NotBefore k \<le> now + maximumClockSkew) \<and>
        (\<forall>na. pk_NotAfter k = Some na \<longrightarrow> now \<le> na + maximumClockSkew) \<and>
        b64_decode (pk_Value k) = Some raw \<and> length raw = 32 \<and> ed raw payload (sig_Value sg))"

lemma counts_vouched: "counts ed v now payload sg \<Longrightarrow> vouched ed v now payload sg"
  unfolding vouched_def using counts_sound by blast

lemma verifySignatures_vouched:
  assumes "verifySignatures ed v now payload sgs = Inr k"
  shows "required v \<le> length (filter (vouched ed v now payload) sgs)"
  using assms length_filter_mono [of sgs "counts ed v now payload" "vouched ed v now payload"] counts_vouched
  unfolding verifySignatures_iff by (meson le_trans)

section \<open>A concrete verifier\<close>

definition sample_raw :: bytes where
  "sample_raw = replicate 32 (CHR ''k'')"

definition sample_pin :: "string \<Rightarrow> PinnedKey" where
  "sample_pin kid = \<lparr>pk_Algorithm = ED25519, pk_Value = b64_encode sample_raw, pk_KeyID = kid,
     pk_NotBefore = 0, pk_NotAfter = None\<rparr>"

definition sample_ed :: "bytes \<Rightarrow> bytes \<Rightarrow> bytes \<Rightarrow> bool" where
  "sample_ed key payload sg \<longleftrightarrow> sg = ''ok''"

definition sample_sig :: Signature where
  "sample_sig = \<lparr>sig_Algorithm = ED25519, sig_KeyId = ''k1'', sig_Value = ''ok''\<rparr>"

definition sample_envelope :: SignedEnvelope where
  "sample_envelope = \<lparr>se_Payload = ''p'', se_Signatures = [sample_sig]\<rparr>"

definition sample_instruction :: SignedInstruction where
  "sample_instruction = \<lparr>si_AgentId = ''a1'', si_Nonce = ''n1'', si_InstructionType = ''t'', si_Body = ''b'',
     si_IssuedAt = TsValid 5, si_ExpiresAt = TsValid 1000\<rparr>"

definition sample_guard :: replay_guard where
  "sample_guard = \<lparr>rg_path = ''d'', rg_entries = [], rg_loaded = True\<rparr>"

definition sample_verifier :: "u32 \<Rightarrow> Verifier" where
  "sample_verifier m = New (Identity_zero\<lparr>AgentID := ''a1'', ControlPlaneKeys := [sample_pin ''k1''],
     PolicyMinimumSignatures := m\<rparr>) (Some sample_guard)"

lemma sample_raw_length [simp]: "length sample_raw = 32"
  by (simp add: sample_raw_def)

lemma sample_verifier_simps [simp]:
  "v_agentID (sample_verifier m) = ''a1''" "v_keys (sample_verifier m) = [sample_pin ''k1'']"
  "v_replay (sample_verifier m) = Some sample_guard"
  "AcceptedAlgorithms (v_policy (sample_verifier m)) = [ED25519]"
  "RequireAll (v_policy (sample_verifier m)) = False"
  "MinimumSignatures (v_policy (sample_verifier m)) = m"
  by (simp_all add: sample_verifier_def New_def Identity_zero_def)

lemma sample_counts: "counts sample_ed (sample_verifier m) now payload sample_sig"
  by (simp add: counts_def findKey_def sample_sig_def sample_pin_def verifyOne_def sample_ed_def)

lemma sample_checks:
  "0 \<le> now \<Longrightarrow> now \<le> 1000 + maximumClockSkew \<Longrightarrow>
     Verify_checks sample_ed (\<lambda>_. Some sample_instruction) (sample_verifier 1) now (Some sample_envelope)
       = Inr (sample_instruction, ''k1'')"
  by (simp add: Verify_checks_Inr checkBinding_None sample_envelope_def verifySignatures_iff sample_counts
      required_def sample_instruction_def TrimSpace_n1) (simp add: sample_sig_def)

lemma sample_Verify:
  assumes "0 \<le> now" and "now \<le> 1000 + maximumClockSkew"
  shows "\<exists>g1 d1. Verify sample_ed (\<lambda>_. Some sample_instruction) Some (\<lambda>m. Some (Some m))
      (quiet_env ''t'' now) (Some sample_envelope) (sample_verifier 1) Map.empty =
      (Inr (instruction_of sample_instruction ''k1''), (sample_verifier 1)\<lparr>v_replay := Some g1\<rparr>, d1) \<and>
    rg_entries g1 = [(''n1'', 1000)] \<and> rg_path g1 = ''d''"
proof -
  obtain g1 d1 where "Consume Some (\<lambda>m. Some (Some m)) (quiet_env ''t'' now) ''n1'' 1000 sample_guard Map.empty
      = (None, g1, d1)" and "rg_entries g1 = [(''n1'', 1000)]" and "rg_path g1 = ''d''"
    by (simp add: sample_guard_def Consume_def Let_def TrimSpace_n1 rg_load_def quiet_env_def
      pruneLocked_def drop_excess_small persistLocked_def run_deferred_def rg_pre_def rg_post_def op_fails_def)
  then show ?thesis
    using sample_checks [OF assms]
    by (auto simp: Verify_def sample_instruction_def quiet_env_def)
qed

section \<open>Properties\<close>

text \<open>
  C18: soundness of \<open>Verify\<close>. An accepted instruction is the decoding of the envelope's payload; at
  least the required number of its signatures are Ed25519 signatures of that payload under pinned
  keys valid now (with two minutes of clock skew) of an accepted algorithm; it names this agent,
  carries a nonce and an expiry, has not expired and is not dated in the future (both within the
  skew).
\<close>

theorem Verify_sound:
  assumes "Verify ed unm enc dec e (Some env) v d = (Inr ins, v', d')"
  shows "required v \<le> length (filter (vouched ed v (env_now e) (se_Payload env)) (se_Signatures env)) \<and>
    (\<exists>i k. unm (se_Payload env) = Some i \<and> ins = instruction_of i k) \<and>
    in_AgentID ins = v_agentID v \<and> TrimSpace (in_Nonce ins) \<noteq> [] \<and> in_ExpiresAt ins \<noteq> 0 \<and>
    env_now e \<le> in_ExpiresAt ins + maximumClockSkew \<and>
    (in_IssuedAt ins \<noteq> 0 \<longrightarrow> in_IssuedAt ins \<le> env_now e + maximumClockSkew)"
proof -
  obtain i k where V: "Verify_checks ed unm v (env_now e) (Some env) = Inr (i, k)"
    and ins: "ins = instruction_of i k"
    using assms by (auto simp: Verify_def split: result_splits)
  with verifySignatures_vouched show ?thesis
    by (fastforce simp: Verify_checks_Inr checkBinding_None instruction_of_def)
qed

theorem Verify_sound_witness:
  "\<exists>v1 d1. Verify sample_ed (\<lambda>_. Some sample_instruction) Some (\<lambda>m. Some (Some m))
      (quiet_env ''t'' 10) (Some sample_envelope) (sample_verifier 1) Map.empty =
      (Inr (instruction_of sample_instruction ''k1''), v1, d1) \<and>
    required (sample_verifier 1) \<le> length (filter (vouched sample_ed (sample_verifier 1) 10 ''p'') [sample_sig])"
proof -
  obtain v1 d1 where V: "Verify sample_ed (\<lambda>_. Some sample_instruction) Some (\<lambda>m. Some (Some m))
      (quiet_env ''t'' 10) (Some sample_envelope) (sample_verifier 1) Map.empty =
      (Inr (instruction_of sample_instruction ''k1''), v1, d1)"
    using sample_Verify [of 10] by auto
  have "required (sample_verifier 1) \<le> length (filter (vouched sample_ed (sample_verifier 1) 10 ''p'') [sample_sig])"
    using Verify_sound [OF V] by (simp only: quiet_env_def env.simps sample_envelope_def SignedEnvelope.simps)
  with V show ?thesis by blast
qed

text \<open>
  After an acceptance the record of nonces may go through any history: consumptions and queries for other instructions, and
  restarts of the process, which forget what is in memory. What a verification does to the record is one such step.
\<close>

lemma Verify_later_nonce:
  assumes "codec_ok enc dec"
    and V: "Verify ed unm enc dec e envelope v d = (Inr ins, v1, d1)"
    and "v_replay v = Some g" and "v_replay v1 = Some g1"
    and "distinct (map fst (rg_entries g1))" and "length (rg_entries g1) + length ys < maximumEntries"
    and "env_tmp e \<noteq> rg_path g" and "env_tmp e' \<noteq> rg_path g" and "env_now e' \<le> in_ExpiresAt ins"
    and "\<forall>y \<in> set ys. env_now (fst y) \<le> in_ExpiresAt ins \<and> env_tmp (fst y) \<noteq> rg_path g"
    and "rg_run enc dec ys (g1, d1) = (g2, d2)"
    and W: "Verify ed' unm' enc dec e' envelope' w d2 = (Inr ins', v2, d3)"
    and "v_replay w = Some g2"
  shows "TrimSpace (in_Nonce ins') \<noteq> TrimSpace (in_Nonce ins)"
proof
  assume same: "TrimSpace (in_Nonce ins') = TrimSpace (in_Nonce ins)"
  obtain i k where "ins = instruction_of i k"
    and i: "Consume enc dec e (si_Nonce i) (timeOrZero (si_ExpiresAt i)) g d = (None, g1, d1)"
    using V assms(3,4) by (elim Verify_Inr) auto
  obtain i' k' g3 where "ins' = instruction_of i' k'"
    and C: "Consume enc dec e' (si_Nonce i') (timeOrZero (si_ExpiresAt i')) g2 d2 = (None, g3, d3)"
    using W assms(13) by (elim Verify_Inr) auto
  have "rg_path g1 = rg_path g" using Consume_success [OF i] by simp
  with rg_run_remembered [OF assms(1) Consume_success_remembered [OF assms(1) i assms(5,7)] _ _ assms(11)] assms(6,10) \<open>ins = _\<close>
  have rem: "remembered dec (TrimSpace (si_Nonce i)) (timeOrZero (si_ExpiresAt i)) (length (rg_entries g1) + length ys) g2 d2"
    and "env_tmp e' \<noteq> rg_path g2" using assms(8) by auto
  from Consume_remembered [OF assms(1) rem assms(6) _ this(2) C] same assms(9) \<open>ins = _\<close> \<open>ins' = _\<close>
  show False by simp
qed

lemma Verify_record_step:
  assumes "Verify ed unm enc dec e envelope v d = (r, v', d')" and "v_replay v = Some g"
  shows "\<exists>g' ys. v_replay v' = Some g' \<and> length ys \<le> 1 \<and> (\<forall>y \<in> set ys. fst y = e) \<and> rg_run enc dec ys (g, d) = (g', d')"
proof (cases "v' = v \<and> d' = d")
  case True
  with assms(2) show ?thesis by (intro exI [of _ g] exI [of _ "[]"]) simp
next
  case False
  then obtain n x g' y where "Consume enc dec e n x g d = (y, g', d')" "v_replay v' = Some g'"
    using assms by (auto simp: Verify_def split: sum.splits option.splits prod.splits)
  then show ?thesis by (intro exI [of _ g'] exI [of _ "[(e, RConsume n x)]"]) simp
qed

lemma Verify_nonce_fresh:
  assumes "codec_ok enc dec"
    and "Verify ed unm enc dec e envelope v d = (Inr ins, v1, d1)"
    and "v_replay v = Some g" and "v_replay v1 = Some g1"
    and "distinct (map fst (rg_entries g1))" and "length (rg_entries g1) < maximumEntries"
    and "env_tmp e \<noteq> rg_path g" and "env_tmp e' \<noteq> rg_path g" and "env_now e' \<le> in_ExpiresAt ins"
    and "Verify ed unm enc dec e' envelope' w d1 = (Inr ins', v2, d2)"
    and "v_replay w = Some g1"
  shows "TrimSpace (in_Nonce ins') \<noteq> TrimSpace (in_Nonce ins)"
  using Verify_later_nonce [OF assms(1-5) _ assms(7-9) _ _ assms(10,11), of "[]"] assms(6) by simp

text \<open>
  Replay protection end to end. Once \<open>Verify\<close> has accepted an instruction, no envelope that
  carries the same nonce is accepted again by the same verifier while the clock has not passed the
  expiry of the first one (and the nonce record has room), whichever file-system calls fail.
\<close>

theorem Verify_accepts_once:
  assumes "codec_ok enc dec"
    and V: "Verify ed unm enc dec e envelope v d = (Inr ins, v1, d1)"
    and "v_replay v = Some g" and "v_replay v1 = Some g1"
    and "distinct (map fst (rg_entries g1))" and "length (rg_entries g1) < maximumEntries"
    and "env_tmp e \<noteq> rg_path g" and "env_tmp e' \<noteq> rg_path g" and "env_now e' \<le> in_ExpiresAt ins"
    and W: "Verify ed unm enc dec e' envelope' v1 d1 = (Inr ins', v2, d2)"
  shows "TrimSpace (in_Nonce ins') \<noteq> TrimSpace (in_Nonce ins)"
  using assms(1-10,4) by (rule Verify_nonce_fresh)

theorem Verify_accepts_once_witness:
  "\<not> (\<exists>v1 d1 ins v2 d2. Verify sample_ed (\<lambda>_. Some sample_instruction) Some (\<lambda>m. Some (Some m))
        (quiet_env ''t'' 10) (Some sample_envelope) (sample_verifier 1) Map.empty = (Inr ins, v1, d1) \<and>
      Verify sample_ed (\<lambda>_. Some sample_instruction) Some (\<lambda>m. Some (Some m))
        (quiet_env ''t'' 20) (Some sample_envelope) v1 d1 = (Inr ins, v2, d2))"
proof -
  obtain g1 d1 where V: "Verify sample_ed (\<lambda>_. Some sample_instruction) Some (\<lambda>m. Some (Some m))
      (quiet_env ''t'' 10) (Some sample_envelope) (sample_verifier 1) Map.empty =
      (Inr (instruction_of sample_instruction ''k1''), (sample_verifier 1)\<lparr>v_replay := Some g1\<rparr>, d1)"
    and g1: "rg_entries g1 = [(''n1'', 1000)]" "rg_path g1 = ''d''"
    using sample_Verify [of 10] by auto
  have cod: "codec_ok Some (\<lambda>m. Some (Some m))" by (simp add: codec_ok_def)
  have "False" if "Verify sample_ed (\<lambda>_. Some sample_instruction) Some (\<lambda>m. Some (Some m))
        (quiet_env ''t'' 20) (Some sample_envelope) ((sample_verifier 1)\<lparr>v_replay := Some g1\<rparr>) d1 =
        (Inr (instruction_of sample_instruction ''k1''), v2, d2)" for v2 d2
    using Verify_accepts_once [OF cod V _ _ _ _ _ _ _ that, of sample_guard g1] g1
    by (simp add: sample_guard_def quiet_env_def sample_instruction_def)
  with V show ?thesis by auto
qed

text \<open>The checks do not look at the replay guard.\<close>

lemma signature_loop_replay:
  "signature_loop ed (v\<lparr>v_replay := r\<rparr>) now payload sgs acc = signature_loop ed v now payload sgs acc"
  by (cases acc) (simp add: signature_loop_eq counts_def [abs_def] findKey_def)

lemma replay_frame:
  "v_policy (v\<lparr>v_replay := r\<rparr>) = v_policy v" "v_keys (v\<lparr>v_replay := r\<rparr>) = v_keys v"
  "v_agentID (v\<lparr>v_replay := r\<rparr>) = v_agentID v"
  by simp_all

lemma verifySignatures_replay:
  "verifySignatures ed (v\<lparr>v_replay := r\<rparr>) now payload sgs = verifySignatures ed v now payload sgs"
  unfolding verifySignatures_def signature_loop_replay replay_frame ..

lemma checkBinding_replay: "checkBinding (v\<lparr>v_replay := r\<rparr>) i now = checkBinding v i now"
  by (simp add: checkBinding_def)

lemma Verify_checks_replay:
  "Verify_checks ed unm (v\<lparr>v_replay := r\<rparr>) now envelope = Verify_checks ed unm v now envelope"
  unfolding Verify_checks_def verifySignatures_replay checkBinding_replay replay_frame ..

text \<open>A working disk: encoding never fails and no call fails.\<close>

lemma run_no_faults: "\<forall>x \<in> set xs. \<forall>p. x \<noteq> Lstat p \<Longrightarrow> fst (run (\<lambda>_. False) xs d) = None"
  by (induction xs arbitrary: d) (auto simp: op_fails_def)

lemma persistLocked_works:
  assumes "enc (rg_entries g) \<noteq> None" and "env_faults e = (\<lambda>_. False)"
  shows "fst (persistLocked enc e g d)"
proof -
  obtain c where c: "enc (rg_entries g) = Some c" using assms(1) by blast
  let ?xs = "rg_pre (env_tmp e) (rg_path g) c @ Rename (env_tmp e) (rg_path g) # rg_post (rg_path g)"
  have "\<forall>x \<in> set ?xs. \<forall>p. x \<noteq> Lstat p" by (auto simp: rg_pre_def rg_post_def)
  from run_no_faults [OF this, of d] c assms(2) show ?thesis
    by (auto simp: persistLocked_def run_deferred_def split: prod.splits)
qed

text \<open>
  The clock-skew window reopens replay. The nonce is remembered until the expiry, but the
  instruction is accepted until two minutes after it. An instruction accepted after its expiry is
  accepted again, the nonce having been pruned, as long as its signatures and binding still check
  and the disk works.
\<close>

theorem Verify_replay_after_expiry:
  assumes V: "Verify ed unm enc dec e envelope v d = (Inr ins, v1, d1)"
    and guard: "v_replay v = Some g"
    and late: "in_ExpiresAt ins < env_now e'"
    and checks: "Verify_checks ed unm v (env_now e') envelope = Inr (i, k)"
    and nonce: "in_Nonce ins = si_Nonce i"
    and disk: "env_faults e' = (\<lambda>_. False)" "\<forall>es. enc es \<noteq> None"
  shows "\<exists>v2 d2. Verify ed unm enc dec e' envelope v1 d1 = (Inr (instruction_of i k), v2, d2)"
proof -
  obtain j l g1 where ins: "ins = instruction_of j l" and v1: "v1 = v\<lparr>v_replay := Some g1\<rparr>"
    and C: "Consume enc dec e (si_Nonce j) (timeOrZero (si_ExpiresAt j)) g d = (None, g1, d1)"
    using V guard by (elim Verify_Inr) auto
  note S = Consume_success [OF C]
  have n: "TrimSpace (si_Nonce i) = TrimSpace (si_Nonce j)" using nonce ins by simp
  have exp: "timeOrZero (si_ExpiresAt i) \<noteq> 0"
  proof (cases envelope)
    case None
    with checks show ?thesis by (simp add: Verify_checks_def)
  next
    case (Some env)
    with checks show ?thesis by (simp add: Verify_checks_Inr checkBinding_None)
  qed
  have L: "rg_load dec (env_faults e') d1 g1 = (True, g1)" using S by (simp add: rg_load_def)
  define g2 where "g2 = g1\<lparr>rg_entries := pruneLocked (env_now e') (rg_entries g1)\<rparr>"
  have "map_of (rg_entries g2) (TrimSpace (si_Nonce i)) = None"
  proof -
    have "x \<ge> env_now e'" if "(m, x) \<in> set (rg_entries g2)" for m x
      using that pruneLocked_unexpired by (simp add: g2_def)
    moreover have "set (rg_entries g2) \<subseteq> set (rg_entries g1)"
      using set_drop_excess by (fastforce simp: g2_def pruneLocked_def)
    ultimately have "\<forall>x. (TrimSpace (si_Nonce i), x) \<notin> set (rg_entries g2)"
      using S late ins n by (force simp: map_of_eq_None_iff)
    then show ?thesis by (force simp: map_of_eq_None_iff)
  qed
  moreover have "TrimSpace (si_Nonce i) \<noteq> []" using S n by simp
  moreover have "fst (persistLocked enc e' g3 d1)" for g3
    using disk by (intro persistLocked_works) auto
  ultimately have "\<exists>g3 d2. Consume enc dec e' (si_Nonce i) (timeOrZero (si_ExpiresAt i)) g1 d1 = (None, g3, d2)"
    using exp Consume_loaded [OF _ L g2_def, of "si_Nonce i" enc "timeOrZero (si_ExpiresAt i)"]
    by (auto simp: Let_def split: prod.splits bool.splits) (metis fst_conv)
  moreover have "Verify_checks ed unm v1 (env_now e') envelope = Inr (i, k)"
    using checks by (simp add: v1 Verify_checks_replay)
  ultimately show ?thesis by (auto simp: Verify_def v1)
qed

theorem Verify_replay_after_expiry_witness:
  "\<exists>v1 d1 v2 d2. Verify sample_ed (\<lambda>_. Some sample_instruction) Some (\<lambda>m. Some (Some m))
        (quiet_env ''t'' 2000) (Some sample_envelope) (sample_verifier 1) Map.empty =
        (Inr (instruction_of sample_instruction ''k1''), v1, d1) \<and>
      Verify sample_ed (\<lambda>_. Some sample_instruction) Some (\<lambda>m. Some (Some m))
        (quiet_env ''t'' 3000) (Some sample_envelope) v1 d1 =
        (Inr (instruction_of sample_instruction ''k1''), v2, d2)"
proof -
  obtain v1 d1 where V: "Verify sample_ed (\<lambda>_. Some sample_instruction) Some (\<lambda>m. Some (Some m))
      (quiet_env ''t'' 2000) (Some sample_envelope) (sample_verifier 1) Map.empty =
      (Inr (instruction_of sample_instruction ''k1''), v1, d1)"
    using sample_Verify [of 2000] by auto
  have "\<exists>v2 d2. Verify sample_ed (\<lambda>_. Some sample_instruction) Some (\<lambda>m. Some (Some m))
        (quiet_env ''t'' 3000) (Some sample_envelope) v1 d1 =
        (Inr (instruction_of sample_instruction ''k1''), v2, d2)"
    by (rule Verify_replay_after_expiry [OF V sample_verifier_simps(3)])
      (use sample_checks [of 3000] in \<open>simp_all add: quiet_env_def sample_instruction_def\<close>)
  with V show ?thesis by blast
qed

text \<open>
  The signature threshold counts signatures, not keys. One valid signature repeated \<open>n\<close> times
  in an envelope satisfies every threshold up to \<open>n\<close>.
\<close>

theorem verifySignatures_counts_copies:
  assumes "counts ed v now payload sg" and "required v \<le> n"
  shows "verifySignatures ed v now payload (replicate n sg) = Inr (join '','' (replicate n (sig_KeyId sg)))"
  using assms by (auto simp: verifySignatures_iff required_def)

theorem verifySignatures_counts_copies_witness:
  "verifySignatures sample_ed (sample_verifier 2) 10 ''p'' (replicate 2 sample_sig) =
     Inr (join '','' (replicate 2 ''k1''))"
proof -
  have "required (sample_verifier 2) \<le> 2" by (simp add: required_def)
  from verifySignatures_counts_copies [OF sample_counts this, of 10 "''p''"] show ?thesis
    by (simp add: sample_sig_def)
qed

text \<open>
  A signature without a key identifier is tried with one key only: the first pinned key of its
  algorithm that is usable now decides, whatever keys follow it.
\<close>

theorem anonymous_signature_first_key:
  assumes "v_keys v = k # ks" and "sig_KeyId sg = []" and "pk_Algorithm k = sig_Algorithm sg"
    and "pk_NotBefore k \<le> now" and "pk_NotAfter k = None" and "b64_decode (pk_Value k) = Some raw"
  shows "counts ed v now payload sg \<longleftrightarrow>
    sig_Algorithm sg \<in> set (AcceptedAlgorithms (v_policy v)) \<and>
    verifyOne ed (sig_Algorithm sg) raw payload (sig_Value sg)"
  using assms by (auto simp: counts_def findKey_def)

theorem anonymous_signature_first_key_witness:
  "\<not> counts (\<lambda>k p s. k = sample_raw @ [] \<and> s = ''ok'') ((sample_verifier 1)\<lparr>v_keys :=
       [(sample_pin ''k0'')\<lparr>pk_Value := b64_encode (replicate 32 (CHR ''z''))\<rparr>, sample_pin ''k1'']\<rparr>) 10 ''p''
     (sample_sig\<lparr>sig_KeyId := []\<rparr>)"
proof -
  let ?k = "(sample_pin ''k0'')\<lparr>pk_Value := b64_encode (replicate 32 (CHR ''z''))\<rparr>"
  let ?v = "(sample_verifier 1)\<lparr>v_keys := [?k, sample_pin ''k1'']\<rparr>"
  have "replicate 32 (CHR ''z'') \<noteq> sample_raw" by (simp add: sample_raw_def numeral_eq_Suc)
  then show ?thesis
    using anonymous_signature_first_key [of ?v ?k "[sample_pin ''k1'']" "sample_sig\<lparr>sig_KeyId := []\<rparr>" 10
        "replicate 32 (CHR ''z'')" "\<lambda>k p s. k = sample_raw @ [] \<and> s = ''ok''" "''p''"]
    by (simp add: sample_pin_def sample_sig_def verifyOne_def)
qed

end
