(* ===== verification/Proto.thy ===== *)
theory Proto
  imports Signing
begin

text \<open>
  The protobuf messages of \<open>komari-proto\<close> that the modelled functions read, with the fields they
  read. The generated code is not part of the repository: a message is a record, a pointer to a
  message is an option, and \<open>proto.Equal\<close> is equality. Encoders and decoders are parameters of
  the functions that call them. Enumerations are numbers or datatypes with the constants that the
  sources name.
\<close>

type_synonym mode = int

abbreviation (input) MODE_UNSPECIFIED :: mode where "MODE_UNSPECIFIED \<equiv> 0"
abbreviation (input) MODE_LINUX_ROOT :: mode where "MODE_LINUX_ROOT \<equiv> 1"
abbreviation (input) MODE_LINUX_NON_ROOT :: mode where "MODE_LINUX_NON_ROOT \<equiv> 2"

datatype delivery_state =
    NEEDS_CONFIRMATION
  | NEEDS_MANUAL_AUTHORIZATION
  | AWAITING_AGENT
  | APPLYING
  | DELIVERED
  | FAILED
  | OTHER_STATE int

text \<open>\<open>HostOperationPhase\<close>: a locally applied operation is in phase 3.\<close>

abbreviation (input) PHASE_LOCAL_APPLIED :: int where "PHASE_LOCAL_APPLIED \<equiv> 3"

record PrivilegedConfig =
  pc_RemoteControlEnabled :: "bool option"
  pc_WebsshEnabled :: "bool option"
  pc_ExecutionEnabled :: "bool option"
  pc_EnableGpu :: "bool option"
  pc_RescueHelperEnabled :: "bool option"
  pc_RequiredPrivilegeMode :: mode
  pc_Unknown :: bytes

record HostAuthorization =
  ha_AgentId :: string
  ha_ServiceId :: string
  ha_Revision :: u64
  ha_ConfigHash :: string
  ha_ApprovalGeneration :: u64
  ha_Actions :: "int list"
  ha_TargetPrivilegeMode :: mode
  ha_Nonce :: string
  ha_ApprovedBy :: string
  ha_IssuedAt :: timestamp
  ha_ExpiresAt :: timestamp
  ha_Unknown :: bytes

record ManualTask =
  mt_TaskId :: string
  mt_Nonce :: string
  mt_ExpiresAt :: timestamp

record UpgradePlan =
  up_UpgradeClass :: int
  up_Reasons :: "string list"
  up_ManualTask :: "ManualTask option"

record PrivilegedRevision =
  pr_AgentId :: string
  pr_Revision :: u64
  pr_ProtocolVersion :: u32
  pr_InstallationBaseline :: bool
  pr_State :: delivery_state
  pr_ApprovalGeneration :: u64
  pr_UpdateSequence :: u64
  pr_ConfigHash :: string
  pr_Privileged :: "PrivilegedConfig option"
  pr_Authorization :: "HostAuthorization option"
  pr_Plan :: "UpgradePlan option"
  pr_ReceivedAt :: timestamp
  pr_Signature :: "SignedEnvelope option"
  pr_Unknown :: bytes

record HostOperation =
  ho_OperationId :: string
  ho_Phase :: int
  ho_Authorization :: "HostAuthorization option"
  ho_LeaseExpiresAt :: timestamp
  ho_Signature :: "SignedEnvelope option"
  ho_Unknown :: bytes

text \<open>Getters on a nil message give the zero value of the field.\<close>

definition get_bool :: "bool option \<Rightarrow> bool" where
  "get_bool b = (case b of None \<Rightarrow> False | Some x \<Rightarrow> x)"

end
