(* ===== verification/Privileged.thy ===== *)
theory Privileged
  imports Proto
begin

text \<open>
  \<open>core/privileged\<close> (\<open>store.go\<close>, \<open>approval.go\<close>, \<open>baseline.go\<close>): the settings an agent never
  adopts on its own. The store holds what was delivered, what is active and what was active
  before; only a validated approval moves the first into the second. SHA-256 (\<open>sha\<close>), the protobuf
  and JSON encoders and RFC 3339 formatting are parameters. The copies that \<open>clone\<close> makes are
  invisible in a model without shared mutable memory.
\<close>

section \<open>Settings\<close>

record Settings =
  RequiredPrivilegeMode :: mode
  RemoteControlEnabled :: bool
  WebSSHEnabled :: bool
  ExecutionEnabled :: bool
  EnableGPU :: bool
  RescueHelperEnabled :: bool

definition Settings_zero :: Settings where
  "Settings_zero = \<lparr>RequiredPrivilegeMode = 0, RemoteControlEnabled = False, WebSSHEnabled = False,
     ExecutionEnabled = False, EnableGPU = False, RescueHelperEnabled = False\<rparr>"

definition settingsFromProto :: "PrivilegedConfig option \<Rightarrow> Settings" where
  "settingsFromProto value =
     (case value of
        None \<Rightarrow> Settings_zero
      | Some c \<Rightarrow> \<lparr>RequiredPrivilegeMode = pc_RequiredPrivilegeMode c,
          RemoteControlEnabled = get_bool (pc_RemoteControlEnabled c),
          WebSSHEnabled = get_bool (pc_WebsshEnabled c),
          ExecutionEnabled = get_bool (pc_ExecutionEnabled c),
          EnableGPU = get_bool (pc_EnableGpu c),
          RescueHelperEnabled = get_bool (pc_RescueHelperEnabled c)\<rparr>)"

definition Settings_Proto :: "Settings \<Rightarrow> PrivilegedConfig" where
  "Settings_Proto s =
     \<lparr>pc_RemoteControlEnabled = Some (RemoteControlEnabled s), pc_WebsshEnabled = Some (WebSSHEnabled s),
      pc_ExecutionEnabled = Some (ExecutionEnabled s), pc_EnableGpu = Some (EnableGPU s),
      pc_RescueHelperEnabled = Some (RescueHelperEnabled s),
      pc_RequiredPrivilegeMode = RequiredPrivilegeMode s, pc_Unknown = []\<rparr>"

definition Subset :: "Settings \<Rightarrow> Settings \<Rightarrow> bool" where
  "Subset a b \<longleftrightarrow>
     (RequiredPrivilegeMode a = RequiredPrivilegeMode b \<or> RequiredPrivilegeMode a = 0) \<and>
     (\<not> RemoteControlEnabled a \<or> RemoteControlEnabled b) \<and> (\<not> WebSSHEnabled a \<or> WebSSHEnabled b) \<and>
     (\<not> ExecutionEnabled a \<or> ExecutionEnabled b) \<and> (\<not> EnableGPU a \<or> EnableGPU b) \<and>
     (\<not> RescueHelperEnabled a \<or> RescueHelperEnabled b)"

text \<open>\<open>binary.BigEndian.AppendUint32\<close> of a 32-bit value.\<close>

definition be32 :: "u32 \<Rightarrow> bytes" where
  "be32 w = [char_of (unat w div 2 ^ 24), char_of (unat w div 2 ^ 16), char_of (unat w div 2 ^ 8), char_of (unat w)]"

definition hash_preimage :: "Settings \<Rightarrow> bytes" where
  "hash_preimage s =
     ''komari.privileged-settings.v1'' @ [CHR 0x00]
     @ map (\<lambda>v. if v then CHR 0x01 else CHR 0x00)
         [RemoteControlEnabled s, WebSSHEnabled s, ExecutionEnabled s, EnableGPU s, RescueHelperEnabled s]
     @ be32 (word_of_int (RequiredPrivilegeMode s))"

definition Hash :: "(bytes \<Rightarrow> bytes) \<Rightarrow> Settings \<Rightarrow> string" where
  "Hash sha s = hex_encode (sha (hash_preimage s))"

section \<open>State\<close>

record Receipt =
  rc_ID :: string
  rc_Kind :: string
  rc_Payload :: bytes
  rc_Rejected :: string

record State =
  LastSequence :: u64
  ActiveSignedRevision :: bytes
  Outbox :: "Receipt list"
  RejectedReceipts :: "Receipt list"
  AppliedRevision :: u64
  Active :: Settings
  Previous :: "Settings option"
  PreviousRevision :: u64
  PendingRevision :: u64
  Pending :: "Settings option"
  PendingClass :: int
  PendingReasons :: "string list"
  PendingTaskID :: string
  PendingNonce :: string
  PendingExpiry :: gotime
  st_UpdatedAt :: gotime

definition State_zero :: State where
  "State_zero = \<lparr>LastSequence = 0, ActiveSignedRevision = [], Outbox = [], RejectedReceipts = [],
     AppliedRevision = 0, Active = Settings_zero, Previous = None, PreviousRevision = 0,
     PendingRevision = 0, Pending = None, PendingClass = 0, PendingReasons = [], PendingTaskID = [],
     PendingNonce = [], PendingExpiry = 0, st_UpdatedAt = 0\<rparr>"

record 'h priv_store =
  ps_path :: path
  ps_state :: State
  ps_diskHash :: 'h

datatype priv_error =
    LockUnavailable
  | ReadState
  | DecodeState
  | StaleStore
  | EncodeState
  | PersistState
  | RevisionRequired
  | NotNewer
  | StalePending
  | UnsignedPromotionRetired
  | NoPrevious
  | RollbackWouldWiden
  | InvalidBaseline
  | BaselineExceeds
  | BaselineAuthorizesActions
  | BaselineReplacesHistory
  | BaselineConflicts
  | OutboxFull
  | MarshalFailed
  | ApprovalRequired
  | ApprovalBindingMismatch
  | ApprovalExpired
  | ApprovalHashMismatch
  | ApprovalIdentityDiffers
  | HostOperationRequired
  | StaleApproval

definition clearPending :: "State \<Rightarrow> State" where
  "clearPending st = st\<lparr>PendingRevision := 0, Pending := None, PendingClass := 0, PendingReasons := [],
     PendingTaskID := [], PendingNonce := [], PendingExpiry := 0\<rparr>"

section \<open>The file\<close>

text \<open>
  \<open>digest\<close> is the SHA-256 of the file, and \<open>digest None\<close> the zero array that stands for "no file".
\<close>

definition priv_Open ::
  "path \<Rightarrow> ('c \<Rightarrow> State option) \<Rightarrow> ('c option \<Rightarrow> 'h) \<Rightarrow> ('c fs_op \<Rightarrow> bool) \<Rightarrow> path \<Rightarrow> 'c disk \<Rightarrow>
     priv_error + 'h priv_store" where
  "priv_Open DefaultPath dec digest f p d =
     (let p = (if TrimSpace p = [] then DefaultPath else p) in
      case read_file f p d of
        Inl NotExist \<Rightarrow> Inr \<lparr>ps_path = p, ps_state = State_zero, ps_diskHash = digest None\<rparr>
      | Inl ReadFailed \<Rightarrow> Inl ReadState
      | Inr None \<Rightarrow> Inl DecodeState
      | Inr (Some c) \<Rightarrow>
          (case dec c of
             None \<Rightarrow> Inl DecodeState
           | Some st \<Rightarrow> Inr \<lparr>ps_path = p, ps_state = st, ps_diskHash = digest (Some c)\<rparr>))"

definition priv_pre :: "path \<Rightarrow> path \<Rightarrow> 'c \<Rightarrow> 'c fs_op list" where
  "priv_pre t p c = [MkdirAll p 448, CreateTemp t, Chmod t mode_0600, Write t c, Sync t, Close t]"

definition priv_post :: "path \<Rightarrow> 'c fs_op list" where
  "priv_post p = [SyncDirectory p]"

text \<open>\<open>commit\<close>: lock, compare the file with what was last read or written, write, then update memory.\<close>

definition priv_commit ::
  "(State \<Rightarrow> 'c option) \<Rightarrow> ('c option \<Rightarrow> 'h) \<Rightarrow> 'c env \<Rightarrow> State \<Rightarrow> 'h priv_store \<Rightarrow> 'c disk \<Rightarrow>
     (priv_error + unit) \<times> 'h priv_store \<times> 'c disk" where
  "priv_commit enc digest e next s d =
     (if env_faults e (AcquireLock (ps_path s @ ''.write.lock'')) then (Inl LockUnavailable, s, d)
      else if read_file (env_faults e) (ps_path s) d = Inl ReadFailed then (Inl ReadState, s, d)
      else if (case read_file (env_faults e) (ps_path s) d of
                 Inl _ \<Rightarrow> digest None \<noteq> ps_diskHash s
               | Inr None \<Rightarrow> True
               | Inr (Some c) \<Rightarrow> digest (Some c) \<noteq> ps_diskHash s)
      then (Inl StaleStore, s, d)
      else
        (let next = next\<lparr>st_UpdatedAt := env_now e\<rparr> in
         case enc next of
           None \<Rightarrow> (Inl EncodeState, s, d)
         | Some c \<Rightarrow>
             (case run_deferred (env_faults e)
                     (priv_pre (env_tmp e) (ps_path s) c @ Rename (env_tmp e) (ps_path s) # priv_post (ps_path s))
                     (env_tmp e) d of
                (Some _, d') \<Rightarrow> (Inl PersistState, s, d')
              | (None, d') \<Rightarrow>
                  (Inr (), s\<lparr>ps_state := next, ps_diskHash := digest (Some c)\<rparr>, d'))))"

section \<open>Deliveries, rollback and receipts\<close>

text \<open>The state an operation wants to commit: an error, nothing to write, or the next state.\<close>

datatype plan = Refuse priv_error | Keep | Next State

definition RecordPending_plan :: "PrivilegedRevision option \<Rightarrow> State \<Rightarrow> plan" where
  "RecordPending_plan revision st =
     (case revision of
        None \<Rightarrow> Refuse RevisionRequired
      | Some r \<Rightarrow>
          if pr_Privileged r = None then Refuse RevisionRequired
          else if pr_Revision r \<le> AppliedRevision st then Refuse NotNewer
          else if pr_Revision r < PendingRevision st \<or> pr_UpdateSequence r < LastSequence st then Refuse StalePending
          else
            (let next = st\<lparr>PendingRevision := pr_Revision r, LastSequence := pr_UpdateSequence r,
                   Pending := Some (settingsFromProto (pr_Privileged r)), PendingReasons := [],
                   PendingTaskID := [], PendingNonce := [], PendingExpiry := 0, PendingClass := 0\<rparr>;
                 next = (case pr_Plan r of
                   None \<Rightarrow> next
                 | Some p \<Rightarrow>
                     (let next = next\<lparr>PendingClass := up_UpgradeClass p, PendingReasons := up_Reasons p\<rparr> in
                      case up_ManualTask p of
                        None \<Rightarrow> next
                      | Some task \<Rightarrow>
                          (let next = next\<lparr>PendingTaskID := mt_TaskId task, PendingNonce := mt_Nonce task\<rparr> in
                           case mt_ExpiresAt task of
                             TsValid t \<Rightarrow> next\<lparr>PendingExpiry := t\<rparr>
                           | _ \<Rightarrow> next)))
             in Next next))"

text \<open>Unsigned promotion is retired: every call is refused.\<close>

definition Promote_plan :: "mode \<Rightarrow> State \<Rightarrow> plan" where
  "Promote_plan actual st = Refuse UnsignedPromotionRetired"

definition Rollback_plan :: "State \<Rightarrow> plan" where
  "Rollback_plan st =
     (case Previous st of
        None \<Rightarrow> Refuse NoPrevious
      | Some restored \<Rightarrow>
          if \<not> Subset restored (Active st) then Refuse RollbackWouldWiden
          else Next (st\<lparr>Active := restored, AppliedRevision := PreviousRevision st,
                 ActiveSignedRevision := [], Previous := None, PreviousRevision := 0\<rparr>))"

definition DiscardPending_plan :: "State \<Rightarrow> plan" where
  "DiscardPending_plan st = (if Pending st = None then Keep else Next (clearPending st))"

definition Enqueue_plan :: "Receipt \<Rightarrow> State \<Rightarrow> plan" where
  "Enqueue_plan receipt st =
     (if length (Outbox st) \<ge> 1024 then Refuse OutboxFull
      else if \<exists>r \<in> set (Outbox st). rc_ID r = rc_ID receipt then Keep
      else Next (st\<lparr>Outbox := Outbox st @ [receipt]\<rparr>))"

fun finish_loop ::
  "string \<Rightarrow> string \<Rightarrow> Receipt list \<Rightarrow> Receipt list \<times> Receipt list \<Rightarrow> Receipt list \<times> Receipt list" where
  "finish_loop i rejected [] acc = acc"
| "finish_loop i rejected (r # rs) (pending, rejectedReceipts) =
     (if rc_ID r \<noteq> i then finish_loop i rejected rs (pending @ [r], rejectedReceipts)
      else if rejected \<noteq> [] then
        finish_loop i rejected rs (pending, rejectedReceipts @ [r\<lparr>rc_Rejected := rejected\<rparr>])
      else finish_loop i rejected rs (pending, rejectedReceipts))"

text \<open>\<open>stamp\<close> is the current time in RFC 3339 followed by a colon and a space.\<close>

definition FinishReceipt_plan :: "string \<Rightarrow> string \<Rightarrow> string \<Rightarrow> State \<Rightarrow> plan" where
  "FinishReceipt_plan stamp i rejected st =
     (case finish_loop i (if rejected = [] then [] else stamp @ rejected) (Outbox st) ([], RejectedReceipts st) of
        (pending, rejectedReceipts) \<Rightarrow>
          Next (st\<lparr>Outbox := pending,
                 RejectedReceipts := (if length rejectedReceipts > 128
                   then drop (length rejectedReceipts - 128) rejectedReceipts else rejectedReceipts)\<rparr>))"

section \<open>Approvals and the installation baseline\<close>

definition ValidateApproval ::
  "(bytes \<Rightarrow> bytes) \<Rightarrow> gotime \<Rightarrow> PrivilegedRevision option \<Rightarrow> string \<Rightarrow> string \<Rightarrow> mode \<Rightarrow> priv_error option" where
  "ValidateApproval sha now revision agent service actual =
     (case revision of
        None \<Rightarrow> Some ApprovalRequired
      | Some r \<Rightarrow>
          if pr_ProtocolVersion r \<noteq> 2 \<or> pr_InstallationBaseline r \<or> pr_State r \<noteq> AWAITING_AGENT \<or>
             pr_Revision r = 0 \<or> pr_ApprovalGeneration r = 0 \<or> pr_Signature r = None
          then Some ApprovalRequired
          else case pr_Authorization r of
            None \<Rightarrow> Some ApprovalRequired
          | Some a \<Rightarrow>
              if ha_Unknown a \<noteq> [] \<or> ha_AgentId a \<noteq> agent \<or> pr_AgentId r \<noteq> agent \<or> ha_ServiceId a \<noteq> service \<or>
                 service = [] \<or> ha_Revision a \<noteq> pr_Revision r \<or> ha_ConfigHash a \<noteq> pr_ConfigHash r \<or>
                 ha_ApprovalGeneration a \<noteq> pr_ApprovalGeneration r \<or> ha_Actions a \<noteq> [] \<or>
                 ha_TargetPrivilegeMode a \<noteq> actual \<or>
                 RequiredPrivilegeMode (settingsFromProto (pr_Privileged r)) \<noteq> actual \<or>
                 ha_Nonce a = [] \<or> ha_ApprovedBy a = []
              then Some ApprovalBindingMismatch
              else case (ha_IssuedAt a, ha_ExpiresAt a) of
                (TsValid issued, TsValid expires) \<Rightarrow>
                  if issued > now + minute \<or> \<not> now < expires \<or> \<not> expires > issued then Some ApprovalExpired
                  else
                    (let settings = settingsFromProto (pr_Privileged r) in
                     if pr_ConfigHash r \<noteq> Hash sha settings then Some ApprovalHashMismatch
                     else if RequiredPrivilegeMode settings \<noteq> actual then Some ApprovalIdentityDiffers
                     else None)
              | _ \<Rightarrow> Some ApprovalExpired)"

text \<open>\<open>pm\<close> is \<open>proto.Marshal\<close> on a revision.\<close>

definition commitApproved_plan ::
  "(PrivilegedRevision \<Rightarrow> bytes option) \<Rightarrow> PrivilegedRevision \<Rightarrow> Receipt \<Rightarrow> State \<Rightarrow> plan" where
  "commitApproved_plan pm r receipt st =
     (if pr_Revision r \<le> AppliedRevision st \<or> pr_Revision r < PendingRevision st \<or>
         pr_UpdateSequence r < LastSequence st then Refuse StaleApproval
      else if length (Outbox st) \<ge> 1024 then Refuse OutboxFull
      else case pm r of
        None \<Rightarrow> Refuse MarshalFailed
      | Some encoded \<Rightarrow>
          Next (clearPending (st\<lparr>Previous := Some (Active st), PreviousRevision := AppliedRevision st,
            Active := settingsFromProto (pr_Privileged r), AppliedRevision := pr_Revision r,
            ActiveSignedRevision := encoded, LastSequence := pr_UpdateSequence r,
            Outbox := Outbox st @ [receipt]\<rparr>)))"

definition ApplyApproved_plan ::
  "(bytes \<Rightarrow> bytes) \<Rightarrow> (PrivilegedRevision \<Rightarrow> bytes option) \<Rightarrow> gotime \<Rightarrow> PrivilegedRevision option \<Rightarrow> mode \<Rightarrow>
     Receipt \<Rightarrow> State \<Rightarrow> plan" where
  "ApplyApproved_plan sha pm now revision actual receipt st =
     (case revision of
        None \<Rightarrow> Refuse ApprovalRequired
      | Some r \<Rightarrow>
          (case ValidateApproval sha now revision (pr_AgentId r)
                  (case pr_Authorization r of None \<Rightarrow> [] | Some a \<Rightarrow> ha_ServiceId a) actual of
             Some err \<Rightarrow> Refuse err
           | None \<Rightarrow> commitApproved_plan pm r receipt st))"

definition ApplyHostApproved_plan ::
  "(bytes \<Rightarrow> bytes) \<Rightarrow> (PrivilegedRevision \<Rightarrow> bytes option) \<Rightarrow> PrivilegedRevision option \<Rightarrow>
     HostOperation option \<Rightarrow> mode \<Rightarrow> Receipt \<Rightarrow> State \<Rightarrow> plan" where
  "ApplyHostApproved_plan sha pm revision operation actual receipt st =
     (case (revision, operation) of
        (Some r, Some op) \<Rightarrow>
          if pr_State r \<noteq> APPLYING \<or> pr_ProtocolVersion r \<noteq> 2 \<or> ho_Phase op \<noteq> PHASE_LOCAL_APPLIED \<or>
             ho_OperationId op = [] \<or> pr_Authorization r \<noteq> ho_Authorization op \<or>
             RequiredPrivilegeMode (settingsFromProto (pr_Privileged r)) \<noteq> actual \<or>
             pr_ConfigHash r \<noteq> Hash sha (settingsFromProto (pr_Privileged r))
          then Refuse HostOperationRequired
          else commitApproved_plan pm r receipt st
      | _ \<Rightarrow> Refuse HostOperationRequired)"

definition AdoptBaseline_plan ::
  "(bytes \<Rightarrow> bytes) \<Rightarrow> (PrivilegedRevision \<Rightarrow> bytes option) \<Rightarrow> PrivilegedRevision option \<Rightarrow> Settings \<Rightarrow> mode \<Rightarrow>
     Receipt \<Rightarrow> State \<Rightarrow> plan" where
  "AdoptBaseline_plan sha pm revision local actual receipt st =
     (case revision of
        None \<Rightarrow> Refuse InvalidBaseline
      | Some r \<Rightarrow>
          if \<not> pr_InstallationBaseline r \<or> pr_Revision r \<noteq> 1 \<or> pr_ProtocolVersion r \<noteq> 2 \<or> pr_ApprovalGeneration r \<noteq> 1
          then Refuse InvalidBaseline
          else if RequiredPrivilegeMode local \<noteq> actual \<or> RescueHelperEnabled local \<or>
            settingsFromProto (pr_Privileged r) \<noteq> local \<or> pr_ConfigHash r \<noteq> Hash sha local
          then Refuse BaselineExceeds
          else if (case pr_Authorization r of None \<Rightarrow> True | Some a \<Rightarrow> ha_Actions a \<noteq> [] \<or> ha_ServiceId a = [])
          then Refuse BaselineAuthorizesActions
          else if AppliedRevision st > 1 \<or> PendingRevision st > 1 then Refuse BaselineReplacesHistory
          else if AppliedRevision st = 1 \<and> Active st \<noteq> local then Refuse BaselineConflicts
          else if length (Outbox st) \<ge> 1024 then Refuse OutboxFull
          else case pm r of
            None \<Rightarrow> Refuse MarshalFailed
          | Some encoded \<Rightarrow>
              Next (clearPending (st\<lparr>Active := local, AppliedRevision := 1, ActiveSignedRevision := encoded,
                Outbox := Outbox st @ [receipt]\<rparr>)))"

text \<open>\<open>Effective\<close>: the active settings, restricted by what is pending.\<close>

definition Effective :: "State \<Rightarrow> Settings" where
  "Effective st =
     (case Pending st of
        None \<Rightarrow> Active st
      | Some p \<Rightarrow> (Active st)
          \<lparr>RemoteControlEnabled := RemoteControlEnabled (Active st) \<and> RemoteControlEnabled p,
           WebSSHEnabled := WebSSHEnabled (Active st) \<and> WebSSHEnabled p,
           ExecutionEnabled := ExecutionEnabled (Active st) \<and> ExecutionEnabled p,
           EnableGPU := EnableGPU (Active st) \<and> EnableGPU p,
           RescueHelperEnabled := RescueHelperEnabled (Active st) \<and> RescueHelperEnabled p\<rparr>)"

section \<open>The operations of the store\<close>

definition priv_exec ::
  "(State \<Rightarrow> 'c option) \<Rightarrow> ('c option \<Rightarrow> 'h) \<Rightarrow> 'c env \<Rightarrow> plan \<Rightarrow> 'h priv_store \<Rightarrow> 'c disk \<Rightarrow>
     (priv_error + unit) \<times> 'h priv_store \<times> 'c disk" where
  "priv_exec enc digest e pl s d =
     (case pl of
        Refuse err \<Rightarrow> (Inl err, s, d)
      | Keep \<Rightarrow> (Inr (), s, d)
      | Next next \<Rightarrow> priv_commit enc digest e next s d)"

datatype priv_op =
    RecordPending "PrivilegedRevision option"
  | Promote mode
  | Rollback
  | DiscardPending
  | Enqueue Receipt
  | FinishReceipt string string
  | ApplyApproved "PrivilegedRevision option" mode Receipt
  | ApplyHostApproved "PrivilegedRevision option" "HostOperation option" mode Receipt
  | AdoptBaseline "PrivilegedRevision option" Settings mode Receipt

fun priv_plan ::
  "(bytes \<Rightarrow> bytes) \<Rightarrow> (PrivilegedRevision \<Rightarrow> bytes option) \<Rightarrow> (gotime \<Rightarrow> string) \<Rightarrow> gotime \<Rightarrow> priv_op \<Rightarrow> State \<Rightarrow> plan" where
  "priv_plan sha pm stamp now (RecordPending r) st = RecordPending_plan r st"
| "priv_plan sha pm stamp now (Promote m) st = Promote_plan m st"
| "priv_plan sha pm stamp now Rollback st = Rollback_plan st"
| "priv_plan sha pm stamp now DiscardPending st = DiscardPending_plan st"
| "priv_plan sha pm stamp now (Enqueue r) st = Enqueue_plan r st"
| "priv_plan sha pm stamp now (FinishReceipt i rej) st = FinishReceipt_plan (stamp now) i rej st"
| "priv_plan sha pm stamp now (ApplyApproved r m rc) st = ApplyApproved_plan sha pm now r m rc st"
| "priv_plan sha pm stamp now (ApplyHostApproved r op m rc) st = ApplyHostApproved_plan sha pm r op m rc st"
| "priv_plan sha pm stamp now (AdoptBaseline r l m rc) st = AdoptBaseline_plan sha pm r l m rc st"

definition priv_apply ::
  "(bytes \<Rightarrow> bytes) \<Rightarrow> (PrivilegedRevision \<Rightarrow> bytes option) \<Rightarrow> (gotime \<Rightarrow> string) \<Rightarrow> (State \<Rightarrow> 'c option) \<Rightarrow>
     ('c option \<Rightarrow> 'h) \<Rightarrow> 'c env \<Rightarrow> priv_op \<Rightarrow> 'h priv_store \<Rightarrow> 'c disk \<Rightarrow>
     (priv_error + unit) \<times> 'h priv_store \<times> 'c disk" where
  "priv_apply sha pm stamp enc digest e a s d =
     priv_exec enc digest e (priv_plan sha pm stamp (env_now e) a (ps_state s)) s d"

text \<open>\<open>checkSupported\<close> and the operator-facing name of a mode.\<close>

datatype support_error = IdentityDoesNotMatch | HelperNeedsHostService

definition checkSupported :: "Settings \<Rightarrow> mode \<Rightarrow> support_error option" where
  "checkSupported settings actual =
     (if RequiredPrivilegeMode settings \<noteq> MODE_UNSPECIFIED \<and> RequiredPrivilegeMode settings \<noteq> actual
      then Some IdentityDoesNotMatch
      else if RescueHelperEnabled settings then Some HelperNeedsHostService
      else None)"

section \<open>Facts about single operations\<close>

definition priv_step ::
  "(bytes \<Rightarrow> bytes) \<Rightarrow> (PrivilegedRevision \<Rightarrow> bytes option) \<Rightarrow> (gotime \<Rightarrow> string) \<Rightarrow> (State \<Rightarrow> 'c option) \<Rightarrow>
     ('c option \<Rightarrow> 'h) \<Rightarrow> 'c env \<Rightarrow> priv_op \<Rightarrow> 'h priv_store \<Rightarrow> 'c disk \<Rightarrow> bool \<times> 'h priv_store \<times> 'c disk" where
  "priv_step sha pm stamp enc digest e a s d = flat (priv_apply sha pm stamp enc digest e a s d)"

interpretation pw: atomic_writer priv_pre priv_post private_file
  by unfold_locales (auto simp: priv_pre_def priv_post_def private_file_def)

lemma Subset_refl [simp]: "Subset s s"
  by (simp add: Subset_def)

lemma Subset_trans: "Subset a b \<Longrightarrow> Subset b c \<Longrightarrow> Subset a c"
  unfolding Subset_def by (elim conjE, intro conjI; argo)

lemma Effective_Subset: "Subset (Effective st) (Active st)"
  by (auto simp: Subset_def Effective_def split: option.splits)

lemma clearPending_simps [simp]:
  "Active (clearPending st) = Active st" "AppliedRevision (clearPending st) = AppliedRevision st"
  "LastSequence (clearPending st) = LastSequence st" "Outbox (clearPending st) = Outbox st"
  "RejectedReceipts (clearPending st) = RejectedReceipts st" "Previous (clearPending st) = Previous st"
  "PreviousRevision (clearPending st) = PreviousRevision st" "Pending (clearPending st) = None"
  "ActiveSignedRevision (clearPending st) = ActiveSignedRevision st" "PendingRevision (clearPending st) = 0"
  by (simp_all add: clearPending_def)

lemmas plan_defs = Promote_plan_def
  RecordPending_plan_def Rollback_plan_def DiscardPending_plan_def Enqueue_plan_def FinishReceipt_plan_def
  ApplyApproved_plan_def ApplyHostApproved_plan_def AdoptBaseline_plan_def commitApproved_plan_def

text \<open>The operations that carry a signed grant.\<close>

fun grants :: "priv_op \<Rightarrow> bool" where
  "grants (ApplyApproved _ _ _) = True"
| "grants (ApplyHostApproved _ _ _ _) = True"
| "grants (AdoptBaseline _ _ _ _) = True"
| "grants _ = False"

lemma RecordPending_Next:
  "RecordPending_plan r st = Next st' \<Longrightarrow>
     Active st' = Active st \<and> LastSequence st \<le> LastSequence st' \<and> Outbox st' = Outbox st \<and>
     RejectedReceipts st' = RejectedReceipts st \<and> AppliedRevision st' = AppliedRevision st"
  by (cases r) (auto simp: RecordPending_plan_def Let_def split: option.splits timestamp.splits if_splits)

lemma finish_loop_eq:
  "finish_loop i rej rs (pending, rejected) =
     (pending @ filter (\<lambda>r. rc_ID r \<noteq> i) rs,
      rejected @ (if rej = [] then [] else map (\<lambda>r. r\<lparr>rc_Rejected := rej\<rparr>) (filter (\<lambda>r. rc_ID r = i) rs)))"
  by (induction rs arbitrary: pending rejected) auto

lemma commitApproved_Next:
  assumes "commitApproved_plan pm r rc st = Next st'"
  shows "AppliedRevision st < pr_Revision r \<and> LastSequence st \<le> pr_UpdateSequence r \<and>
    length (Outbox st) < 1024 \<and> Active st' = settingsFromProto (pr_Privileged r) \<and>
    AppliedRevision st' = pr_Revision r \<and> LastSequence st' = pr_UpdateSequence r \<and>
    Outbox st' = Outbox st @ [rc] \<and> RejectedReceipts st' = RejectedReceipts st \<and>
    Previous st' = Some (Active st) \<and> PreviousRevision st' = AppliedRevision st \<and> Pending st' = None"
  using assms by (auto simp: commitApproved_plan_def split: if_splits option.splits)

lemma plan_no_grant_Subset:
  assumes "priv_plan sha pm stamp now a st = Next st'" and "\<not> grants a"
  shows "Subset (Active st') (Active st)"
proof (cases a)
  case (RecordPending r)
  with assms RecordPending_Next show ?thesis by fastforce
qed (use assms in \<open>auto simp: plan_defs finish_loop_eq split: if_splits option.splits\<close>)

text \<open>The queues stay within their bounds and the delivery sequence never goes back.\<close>

definition queues_bounded :: "State \<Rightarrow> bool" where
  "queues_bounded st \<longleftrightarrow> length (Outbox st) \<le> 1024 \<and> length (RejectedReceipts st) \<le> 128"

lemma plan_invariant:
  assumes "priv_plan sha pm stamp now a st = Next st'" and "queues_bounded st"
  shows "queues_bounded st' \<and> LastSequence st \<le> LastSequence st'"
proof (cases a)
  case (RecordPending r)
  with assms RecordPending_Next show ?thesis by (fastforce simp: queues_bounded_def)
next
  case (FinishReceipt i rej)
  with assms show ?thesis
    by (auto simp: plan_defs finish_loop_eq queues_bounded_def le_trans [OF length_filter_le])
next
  case (ApplyApproved r m rc)
  then obtain r' where "commitApproved_plan pm r' rc st = Next st'"
    using assms(1) by (auto simp: ApplyApproved_plan_def split: option.splits if_splits)
  from commitApproved_Next [OF this] assms(2) show ?thesis by (simp add: queues_bounded_def)
next
  case (ApplyHostApproved r op m rc)
  then obtain r' where "commitApproved_plan pm r' rc st = Next st'"
    using assms(1) by (auto simp: ApplyHostApproved_plan_def split: option.splits if_splits)
  from commitApproved_Next [OF this] assms(2) show ?thesis by (simp add: queues_bounded_def)
qed (use assms in \<open>auto simp: plan_defs queues_bounded_def split: option.splits if_splits\<close>)

section \<open>Facts about commits\<close>

lemma priv_commit_cases:
  assumes "env_tmp e \<noteq> ps_path s" and "priv_commit enc digest e next s d = (r, s', d')"
  obtains err where "r = Inl err" "s' = s" "d' (ps_path s) = d (ps_path s)"
  | c where "r = Inl PersistState" "s' = s" "env_faults e (SyncDirectory (ps_path s))"
      "enc (next\<lparr>st_UpdatedAt := env_now e\<rparr>) = Some c" "d' (ps_path s) = Some (private_file c)"
  | c where "r = Inr ()" "enc (next\<lparr>st_UpdatedAt := env_now e\<rparr>) = Some c"
      "s' = s\<lparr>ps_state := next\<lparr>st_UpdatedAt := env_now e\<rparr>, ps_diskHash := digest (Some c)\<rparr>"
      "d' (ps_path s) = Some (private_file c)"
proof (cases "enc (next\<lparr>st_UpdatedAt := env_now e\<rparr>)")
  case None
  with assms(2) that(1) show ?thesis by (auto simp: priv_commit_def Let_def split: if_splits)
next
  case (Some c)
  obtain x d1 where x: "run_deferred (env_faults e)
      (priv_pre (env_tmp e) (ps_path s) c @ Rename (env_tmp e) (ps_path s) # priv_post (ps_path s)) (env_tmp e) d
      = (x, d1)" by force
  note D = pw.run_destination [OF assms(1) x]
  have cases: "(\<exists>err. r = Inl err) \<and> s' = s \<and> d' = d \<or>
      x = None \<and> r = Inr () \<and> d' = d1 \<and>
        s' = s\<lparr>ps_state := next\<lparr>st_UpdatedAt := env_now e\<rparr>, ps_diskHash := digest (Some c)\<rparr> \<or>
      x \<noteq> None \<and> r = Inl PersistState \<and> d' = d1 \<and> s' = s"
    using assms(2) unfolding priv_commit_def Some x Let_def
    by (auto simp: Some x split: if_splits option.splits)
  have "env_faults e (SyncDirectory (ps_path s))" if "x = Some (SyncDirectory (ps_path s))"
    using run_deferred_fault x that by fastforce
  with cases D Some that show ?thesis
    by (cases x) (auto simp: priv_post_def priv_pre_def)
qed

lemma priv_commit_success:
  assumes "priv_commit enc digest e next s d = (Inr u, s', d')"
  shows "ps_state s' = next\<lparr>st_UpdatedAt := env_now e\<rparr> \<and> ps_path s' = ps_path s"
  using assms by (auto simp: priv_commit_def Let_def split: if_splits option.splits prod.splits)

lemma priv_commit_refused: "priv_commit enc digest e next s d = (Inl err, s', d') \<Longrightarrow> s' = s"
  by (auto simp: priv_commit_def Let_def split: if_splits option.splits prod.splits)

lemma priv_apply_cases:
  assumes "priv_apply sha pm stamp enc digest e a s d = (r, s', d')"
  obtains err where "r = Inl err" "s' = s"
  | "r = Inr ()" "s' = s" "d' = d" "priv_plan sha pm stamp (env_now e) a (ps_state s) = Keep"
  | next' where "r = Inr ()" "priv_plan sha pm stamp (env_now e) a (ps_state s) = Next next'"
      "ps_state s' = next'\<lparr>st_UpdatedAt := env_now e\<rparr>" "ps_path s' = ps_path s"
proof (cases "priv_plan sha pm stamp (env_now e) a (ps_state s)")
  case (Next next')
  then have c: "priv_commit enc digest e next' s d = (r, s', d')"
    using assms by (simp add: priv_apply_def priv_exec_def)
  show ?thesis
  proof (cases r)
    case (Inl err)
    with c priv_commit_refused that(1) show ?thesis by blast
  next
    case (Inr u)
    with c priv_commit_success [of enc digest e next' s d u s' d'] Next that(3) show ?thesis by simp
  qed
next
  case (Refuse err)
  with assms have "r = Inl err" "s' = s" by (simp_all add: priv_apply_def priv_exec_def)
  then show ?thesis by (rule that(1))
next
  case Keep
  with assms have "r = Inr ()" "s' = s" "d' = d" by (simp_all add: priv_apply_def priv_exec_def)
  then show ?thesis using Keep by (rule that(2))
qed

lemma priv_apply_path: "priv_apply sha pm stamp enc digest e a s d = (r, s', d') \<Longrightarrow> ps_path s' = ps_path s"
  by (erule priv_apply_cases) simp_all

text \<open>Memory and file agree, and the store knows the hash of the file.\<close>

definition priv_coherent ::
  "(State \<Rightarrow> 'c option) \<Rightarrow> ('c option \<Rightarrow> 'h) \<Rightarrow> 'h priv_store \<Rightarrow> 'c disk \<Rightarrow> bool" where
  "priv_coherent enc digest s d \<longleftrightarrow>
     (d (ps_path s) = None \<and> ps_state s = State_zero \<and> ps_diskHash s = digest None) \<or>
     (\<exists>c. d (ps_path s) = Some (private_file c) \<and> enc (ps_state s) = Some c \<and> ps_diskHash s = digest (Some c))"

lemma priv_step_coherent:
  assumes fit: "fit_env e (ps_path s)" and coh: "priv_coherent enc digest s d"
    and st: "priv_step sha pm stamp enc digest e a s d = (ok, s', d')"
  shows "priv_coherent enc digest s' d'"
proof -
  obtain r where r: "priv_apply sha pm stamp enc digest e a s d = (r, s', d')"
    using st by (auto simp: priv_step_def flat_def split: prod.splits sum.splits)
  from fit have t: "env_tmp e \<noteq> ps_path s" by (simp add: fit_env_def)
  show ?thesis
  proof (cases "priv_plan sha pm stamp (env_now e) a (ps_state s)")
    case (Next next')
    then have "priv_commit enc digest e next' s d = (r, s', d')"
      using r by (simp add: priv_apply_def priv_exec_def)
    from t this show ?thesis
      by (rule priv_commit_cases) (use coh fit in \<open>auto simp: priv_coherent_def fit_env_def\<close>)
  qed (use r coh in \<open>auto simp: priv_apply_def priv_exec_def\<close>)
qed

interpretation pv: durable_store "priv_step sha pm stamp enc digest" ps_path fit_env "priv_coherent enc digest"
  for sha :: "bytes \<Rightarrow> bytes" and pm :: "PrivilegedRevision \<Rightarrow> bytes option" and stamp :: "gotime \<Rightarrow> string"
    and enc :: "State \<Rightarrow> 'c option" and digest :: "'c option \<Rightarrow> 'h"
proof (unfold_locales, goal_cases)
  case (1 e a s d s' d')
  then show ?case
    by (auto simp: priv_step_def flat_def split: prod.splits sum.splits elim: priv_apply_cases)
next
  case (2 e a s d ok s' d')
  then show ?case
    by (auto simp: priv_step_def flat_def split: prod.splits sum.splits dest: priv_apply_path)
next
  case (3 e s d a ok s' d')
  then show ?case by (rule priv_step_coherent)
qed

lemma priv_step_relates:
  assumes st: "priv_step sha pm stamp enc digest e a s d = (ok, s', d')"
    and refl: "\<And>st. R st st"
    and step: "\<And>next'. priv_plan sha pm stamp (env_now e) a (ps_state s) = Next next' \<Longrightarrow>
      R (ps_state s) (next'\<lparr>st_UpdatedAt := env_now e\<rparr>)"
  shows "R (ps_state s) (ps_state s')"
proof -
  obtain r where "priv_apply sha pm stamp enc digest e a s d = (r, s', d')"
    using st by (auto simp: priv_step_def flat_def split: prod.splits sum.splits)
  then show ?thesis by (rule priv_apply_cases) (use refl step in auto)
qed

lemma priv_runs_relates:
  assumes refl: "\<And>st. R st st" and trans: "\<And>a b c. R a b \<Longrightarrow> R b c \<Longrightarrow> R a c"
    and step: "\<And>e a st next'. (e, a) \<in> set ys \<Longrightarrow> I st \<Longrightarrow>
      priv_plan sha pm stamp (env_now e) a st = Next next' \<Longrightarrow>
      R st (next'\<lparr>st_UpdatedAt := env_now e\<rparr>) \<and> I (next'\<lparr>st_UpdatedAt := env_now e\<rparr>)"
    and run: "durable_store.runs (priv_step sha pm stamp enc digest) ys (s, d) = (s', d')"
    and I: "I (ps_state s)"
  shows "R (ps_state s) (ps_state s') \<and> I (ps_state s')"
  using step run I
proof (induction ys arbitrary: s d)
  case Nil
  then show ?case by (simp add: refl)
next
  case (Cons y ys)
  obtain e a where y: "y = (e, a)" by force
  obtain ok s1 d1 where st: "priv_step sha pm stamp enc digest e a s d = (ok, s1, d1)" by (metis prod_cases3)
  have "R (ps_state s) (ps_state s1) \<and> I (ps_state s1)"
    using priv_step_relates [OF st, where R = "\<lambda>x x'. I x \<longrightarrow> R x x' \<and> I x'"] Cons.prems(1,3) refl
    by (auto simp: y)
  moreover have "R (ps_state s1) (ps_state s') \<and> I (ps_state s')"
    using Cons.IH [of s1 d1] Cons.prems st calculation by (auto simp: y)
  ultimately show ?case using trans by blast
qed

section \<open>Injectivity of the settings hash\<close>

lemma hex_digit_inj: "hex_digit m = hex_digit n \<Longrightarrow> m < 16 \<Longrightarrow> n < 16 \<Longrightarrow> m = n"
proof -
  assume h: "hex_digit m = hex_digit n" and lt: "m < 16" "n < 16"
  have c: "of_char (hex_digit k) = (if k < 10 then 48 + k else 87 + k)" if "k < 16" for k
    using that by (simp add: hex_digit_def)
  from arg_cong [OF h, of "of_char :: char \<Rightarrow> nat"] show "m = n"
    unfolding c [OF lt(1)] c [OF lt(2)] using lt by (simp split: if_splits)
qed

lemma hex_byte_inj:
  assumes "hex_digit (of_char a div 16) = hex_digit (of_char b div 16)"
    and "hex_digit (of_char a mod 16) = hex_digit (of_char b mod 16)"
  shows "a = b"
proof -
  have lt: "(of_char c :: nat) div 16 < 16" for c
    using of_char_bound [of c] by (simp add: less_mult_imp_div_less)
  have "(of_char a :: nat) div 16 = of_char b div 16"
    by (rule hex_digit_inj [OF assms(1) lt lt])
  moreover have "(of_char a :: nat) mod 16 = of_char b mod 16"
    by (rule hex_digit_inj [OF assms(2)]) simp_all
  ultimately have "(of_char a :: nat) = of_char b" by (metis div_mult_mod_eq)
  then show ?thesis by simp
qed

lemma hex_encode_inj: "hex_encode xs = hex_encode ys \<Longrightarrow> xs = ys"
proof (induction xs arbitrary: ys)
  case Nil
  then show ?case by (cases ys) (simp_all add: hex_encode_def)
next
  case (Cons x xs)
  then show ?case by (cases ys) (auto simp: hex_encode_def intro: hex_byte_inj)
qed

lemma four_digits:
  "n = a * 256 + r0 \<Longrightarrow> a = b * 256 + r1 \<Longrightarrow> b = c * 256 + r2 \<Longrightarrow>
     n = c * 16777216 + r2 * 65536 + r1 * 256 + (r0 :: nat)"
  by simp

lemma bytes_of_nat:
  assumes "n < (4294967296 :: nat)"
  shows "n = n div 16777216 mod 256 * 16777216 + n div 65536 mod 256 * 65536 + n div 256 mod 256 * 256 + n mod 256"
proof -
  have q: "n div 65536 = n div 256 div 256" "n div 16777216 = n div 256 div 256 div 256"
    by (simp_all add: div_mult2_eq [symmetric])
  have "n div 16777216 < 256" using assms by (simp add: less_mult_imp_div_less)
  then have top: "n div 16777216 mod 256 = n div 16777216" by (rule mod_less)
  show ?thesis unfolding top unfolding q
    by (rule four_digits) (rule div_mult_mod_eq [symmetric])+
qed

lemma be32_inj: "be32 v = be32 w \<Longrightarrow> v = w"
proof -
  assume eq: "be32 v = be32 w"
  have b: "m mod 256 = n mod 256" if "char_of m = (char_of n :: char)" for m n :: nat
    using arg_cong [OF that, of "of_char :: char \<Rightarrow> nat"] by simp
  have lt: "unat u < 4294967296" for u :: u32
    using unsigned_less [of u, where ?'a = nat] by simp
  have c: "char_of (unat v div 2 ^ 24) = (char_of (unat w div 2 ^ 24) :: char)"
    "char_of (unat v div 2 ^ 16) = (char_of (unat w div 2 ^ 16) :: char)"
    "char_of (unat v div 2 ^ 8) = (char_of (unat w div 2 ^ 8) :: char)"
    "char_of (unat v) = (char_of (unat w) :: char)"
    using eq by (simp_all only: be32_def list.inject)
  have p: "(2::nat) ^ 24 = 16777216" "(2::nat) ^ 16 = 65536" "(2::nat) ^ 8 = 256" by simp_all
  have "unat v = unat w"
    by (rule trans [OF bytes_of_nat [OF lt] trans [OF _ bytes_of_nat [OF lt, symmetric]]])
      (simp only: b [OF c(1), unfolded p] b [OF c(2), unfolded p] b [OF c(3), unfolded p] b [OF c(4)])
  then show ?thesis by (simp only: word_unat_eq_iff)
qed

lemma mod_window:
  assumes "x mod 4294967296 = y mod 4294967296"
    and "- 2147483648 \<le> x" "x < 2147483648" "- 2147483648 \<le> y" "y < 2147483648"
  shows "x = (y :: int)"
proof -
  have "(x + 2147483648) mod 4294967296 = (y + 2147483648) mod 4294967296"
    using assms(1) by (rule mod_add_cong) simp
  then show ?thesis using assms(2-5) by simp
qed

lemma hash_preimage_inj:
  assumes "hash_preimage s = hash_preimage t"
    and "RequiredPrivilegeMode s \<in> {-(2 ^ 31)..<2 ^ 31}" and "RequiredPrivilegeMode t \<in> {-(2 ^ 31)..<2 ^ 31}"
  shows "s = t"
proof -
  have parts: "be32 (word_of_int (RequiredPrivilegeMode s)) = be32 (word_of_int (RequiredPrivilegeMode t))"
    "RemoteControlEnabled s = RemoteControlEnabled t" "WebSSHEnabled s = WebSSHEnabled t"
    "ExecutionEnabled s = ExecutionEnabled t" "EnableGPU s = EnableGPU t"
    "RescueHelperEnabled s = RescueHelperEnabled t"
    using assms(1) by (auto simp: hash_preimage_def split: if_splits)
  have "(word_of_int (RequiredPrivilegeMode s) :: u32) = word_of_int (RequiredPrivilegeMode t)"
    by (rule be32_inj [OF parts(1)])
  then have m: "RequiredPrivilegeMode s mod 4294967296 = RequiredPrivilegeMode t mod 4294967296"
    by (simp only: word_of_int_eq_iff take_bit_eq_mod) simp
  have r: "- 2147483648 \<le> RequiredPrivilegeMode s" "RequiredPrivilegeMode s < 2147483648"
    "- 2147483648 \<le> RequiredPrivilegeMode t" "RequiredPrivilegeMode t < 2147483648"
    using assms(2,3) by simp_all
  have "RequiredPrivilegeMode s = RequiredPrivilegeMode t"
    by (rule mod_window [OF m r])
  then show ?thesis using parts by simp
qed

section \<open>Sample values for the witnesses\<close>

definition sample_config :: PrivilegedConfig where
  "sample_config = Settings_Proto (Settings_zero\<lparr>RequiredPrivilegeMode := 2, WebSSHEnabled := True\<rparr>)"

definition sample_authorization :: HostAuthorization where
  "sample_authorization = \<lparr>ha_AgentId = ''a1'', ha_ServiceId = ''svc'', ha_Revision = 3, ha_ConfigHash = ''68'',
     ha_ApprovalGeneration = 1, ha_Actions = [], ha_TargetPrivilegeMode = 2, ha_Nonce = ''n'',
     ha_ApprovedBy = ''op'', ha_IssuedAt = TsValid 5, ha_ExpiresAt = TsValid 50, ha_Unknown = []\<rparr>"

definition sample_revision :: PrivilegedRevision where
  "sample_revision = \<lparr>pr_AgentId = ''a1'', pr_Revision = 3, pr_ProtocolVersion = 2,
     pr_InstallationBaseline = False, pr_State = AWAITING_AGENT, pr_ApprovalGeneration = 1,
     pr_UpdateSequence = 9, pr_ConfigHash = ''68'', pr_Privileged = Some sample_config,
     pr_Authorization = Some sample_authorization, pr_Plan = None, pr_ReceivedAt = TsValid 5,
     pr_Signature = Some \<lparr>se_Payload = [], se_Signatures = []\<rparr>, pr_Unknown = []\<rparr>"

definition sample_receipt :: Receipt where
  "sample_receipt = \<lparr>rc_ID = ''r1'', rc_Kind = ''k'', rc_Payload = ''p'', rc_Rejected = []\<rparr>"

definition empty_store :: "State option priv_store" where
  "empty_store = \<lparr>ps_path = ''s'', ps_state = State_zero, ps_diskHash = None\<rparr>"

abbreviation sample_apply ::
  "State env \<Rightarrow> priv_op \<Rightarrow> State option priv_store \<Rightarrow> State disk \<Rightarrow>
     (priv_error + unit) \<times> State option priv_store \<times> State disk" where
  "sample_apply \<equiv> priv_apply (\<lambda>_. ''h'') (\<lambda>_. Some ''m'') (\<lambda>_. ''t'') Some (\<lambda>x. x)"

abbreviation sample_step ::
  "State env \<Rightarrow> priv_op \<Rightarrow> State option priv_store \<Rightarrow> State disk \<Rightarrow>
     bool \<times> State option priv_store \<times> State disk" where
  "sample_step \<equiv> priv_step (\<lambda>_. ''h'') (\<lambda>_. Some ''m'') (\<lambda>_. ''t'') Some (\<lambda>x. x)"

lemma sample_Hash: "Hash (\<lambda>_. ''h'') s = ''68''"
proof -
  have "hex_encode ''h'' = ''68''" by code_simp
  then show ?thesis by (simp add: Hash_def)
qed

lemmas priv_eval =
  sample_config_def sample_authorization_def sample_revision_def sample_receipt_def empty_store_def
  priv_apply_def priv_exec_def priv_commit_def read_file_def private_file_def quiet_env_def State_zero_def
  Settings_zero_def settingsFromProto_def Settings_Proto_def get_bool_def sample_Hash
  plan_defs ValidateApproval_def run_deferred_def priv_pre_def priv_post_def op_fails_def Let_def

lemma sample_approved:
  obtains s1 d1 where "sample_apply (quiet_env ''t'' 7) (ApplyApproved (Some sample_revision) 2 sample_receipt)
      empty_store Map.empty = (Inr (), s1, d1)"
    "Active (ps_state s1) = settingsFromProto (Some sample_config)" "ps_path s1 = ''s''"
  by (simp add: priv_eval)

section \<open>Properties\<close>

text \<open>
  C14: an agent never widens its own privileges. In any history of the store that contains no
  signed grant (deliveries of any revision, promotions, rollbacks, discards, receipts), with any
  file-system failures and on any disk, the settings finally in force are contained in the active
  settings at the start: no capability and no privilege mode is added.
\<close>

theorem ungranted_history_never_widens:
  assumes "\<forall>y \<in> set ys. \<not> grants (snd y)"
    and "durable_store.runs (priv_step sha pm stamp enc digest) ys (s, d) = (s', d')"
  shows "Subset (Active (ps_state s')) (Active (ps_state s)) \<and>
    Subset (Effective (ps_state s')) (Active (ps_state s))"
proof -
  have "Subset (Active (ps_state s')) (Active (ps_state s))"
    using priv_runs_relates [where R = "\<lambda>a b. Subset (Active b) (Active a)" and I = "\<lambda>_. True", OF _ _ _ assms(2)]
      Subset_trans plan_no_grant_Subset assms(1) by fastforce
  then show ?thesis using Effective_Subset Subset_trans by blast
qed

theorem ungranted_history_never_widens_witness:
  "Subset (Active (ps_state (fst (durable_store.runs sample_step
      [(quiet_env ''t'' 7, RecordPending (Some sample_revision)), (quiet_env ''t'' 8, Rollback)]
      (empty_store, Map.empty))))) (Active (ps_state empty_store))"
proof -
  have "\<forall>y \<in> set [(quiet_env ''t'' 7 :: State env, RecordPending (Some sample_revision)), (quiet_env ''t'' 8, Rollback)].
      \<not> grants (snd y)"
    by simp
  from ungranted_history_never_widens [OF this prod.collapse [symmetric]] show ?thesis by blast
qed

text \<open>
  C15: every widening is bound to a signed grant. An operation after which the active settings are
  not contained in those before is an approval whose authorization names this revision, carries
  the hash of exactly the settings now active, is within its validity and targets the actual
  daemon identity; or the matching completed host operation; or the one installation baseline,
  which never turns on the rescue helper and never replaces a later revision.
\<close>

theorem widening_needs_grant:
  assumes "priv_apply sha pm stamp enc digest e a s d = (r, s', d')"
    and "\<not> Subset (Active (ps_state s')) (Active (ps_state s))"
  shows "(\<exists>rev au m rc issued expires. a = ApplyApproved (Some rev) m rc \<and> pr_Authorization rev = Some au \<and>
       pr_State rev = AWAITING_AGENT \<and> \<not> pr_InstallationBaseline rev \<and> pr_Signature rev \<noteq> None \<and>
       ha_Revision au = pr_Revision rev \<and> ha_AgentId au = pr_AgentId rev \<and> ha_Actions au = [] \<and>
       ha_ConfigHash au = Hash sha (Active (ps_state s')) \<and>
       ha_TargetPrivilegeMode au = m \<and> RequiredPrivilegeMode (Active (ps_state s')) = m \<and>
       ha_IssuedAt au = TsValid issued \<and> ha_ExpiresAt au = TsValid expires \<and>
       issued \<le> env_now e + minute \<and> env_now e < expires \<and> issued < expires \<and>
       AppliedRevision (ps_state s) < pr_Revision rev) \<or>
    (\<exists>rev op m rc. a = ApplyHostApproved (Some rev) (Some op) m rc \<and> pr_State rev = APPLYING \<and>
       ho_Phase op = PHASE_LOCAL_APPLIED \<and> ho_Authorization op = pr_Authorization rev \<and>
       pr_ConfigHash rev = Hash sha (Active (ps_state s')) \<and>
       RequiredPrivilegeMode (Active (ps_state s')) = m \<and> AppliedRevision (ps_state s) < pr_Revision rev) \<or>
    (\<exists>rev m rc. a = AdoptBaseline (Some rev) (Active (ps_state s')) m rc \<and>
       pr_ConfigHash rev = Hash sha (Active (ps_state s')) \<and> \<not> RescueHelperEnabled (Active (ps_state s')) \<and>
       AppliedRevision (ps_state s) \<le> 1 \<and> AppliedRevision (ps_state s') = 1)"
  using assms(1)
proof (cases rule: priv_apply_cases)
  case (3 next')
  have act: "Active (ps_state s') = Active next'" "AppliedRevision (ps_state s') = AppliedRevision next'"
    using 3(3) by simp_all
  show ?thesis
  proof (cases a)
    case (ApplyApproved revision m rc)
    then obtain rev where rev: "revision = Some rev"
      "commitApproved_plan pm rev rc (ps_state s) = Next next'"
      "ValidateApproval sha (env_now e) (Some rev) (pr_AgentId rev)
         (case pr_Authorization rev of None \<Rightarrow> [] | Some a \<Rightarrow> ha_ServiceId a) m = None"
      using 3(2) by (auto simp: ApplyApproved_plan_def split: option.splits)
    note C = commitApproved_Next [OF rev(2)]
    from rev(3) ApplyApproved rev(1) C act show ?thesis
      by (fastforce simp: ValidateApproval_def Let_def split: if_splits option.splits timestamp.splits)
  next
    case (ApplyHostApproved revision operation m rc)
    then obtain rev op where rev: "revision = Some rev" "operation = Some op"
      "commitApproved_plan pm rev rc (ps_state s) = Next next'" "pr_State rev = APPLYING"
      "ho_Phase op = PHASE_LOCAL_APPLIED" "pr_Authorization rev = ho_Authorization op"
      "RequiredPrivilegeMode (settingsFromProto (pr_Privileged rev)) = m"
      "pr_ConfigHash rev = Hash sha (settingsFromProto (pr_Privileged rev))"
      using 3(2) by (auto simp: ApplyHostApproved_plan_def split: option.splits if_splits)
    from commitApproved_Next [OF rev(3)] rev act ApplyHostApproved show ?thesis by auto
  next
    case (AdoptBaseline revision local m rc)
    with 3(2) act show ?thesis
      by (auto simp: AdoptBaseline_plan_def not_less split: option.splits if_splits)
  qed (use 3(2) assms(2) act plan_no_grant_Subset [of sha pm stamp "env_now e" a "ps_state s" next'] in \<open>auto simp del: priv_plan.simps\<close>)
qed (use assms(2) in auto)

theorem widening_needs_grant_witness:
  "\<exists>s1 d1. sample_apply (quiet_env ''t'' 7) (ApplyApproved (Some sample_revision) 2 sample_receipt)
      empty_store Map.empty = (Inr (), s1, d1) \<and>
    (\<exists>au. pr_Authorization sample_revision = Some au \<and> ha_ConfigHash au = Hash (\<lambda>_. ''h'') (Active (ps_state s1)))"
proof -
  obtain s1 d1 where A: "sample_apply (quiet_env ''t'' 7) (ApplyApproved (Some sample_revision) 2 sample_receipt)
      empty_store Map.empty = (Inr (), s1, d1)" and act: "Active (ps_state s1) = settingsFromProto (Some sample_config)"
    by (rule sample_approved)
  have "\<not> Subset (Active (ps_state s1)) (Active (ps_state empty_store))"
    unfolding act by (simp add: Subset_def priv_eval)
  from widening_needs_grant [OF A this] A show ?thesis by auto
qed

text \<open>
  C39: the store stays within its bounds and time. Over every history the receipt outbox keeps at
  most 1024 entries, the rejected receipts at most 128, and the sequence number of the last
  accepted delivery never decreases.
\<close>

theorem priv_history_bounds:
  assumes "queues_bounded (ps_state s)"
    and "durable_store.runs (priv_step sha pm stamp enc digest) ys (s, d) = (s', d')"
  shows "queues_bounded (ps_state s') \<and> LastSequence (ps_state s) \<le> LastSequence (ps_state s')"
proof -
  have frame: "queues_bounded (st\<lparr>st_UpdatedAt := t\<rparr>) = queues_bounded st" for st t
    by (simp add: queues_bounded_def)
  from priv_runs_relates [where R = "\<lambda>a b. LastSequence a \<le> LastSequence b" and I = queues_bounded,
      OF _ _ _ assms(2,1)] plan_invariant
  show ?thesis by (fastforce simp: frame)
qed

theorem priv_history_bounds_witness:
  "queues_bounded (ps_state (fst (durable_store.runs sample_step
      [(quiet_env ''t'' 7, Enqueue sample_receipt), (quiet_env ''t'' 8, FinishReceipt ''r1'' ''no'')]
      (empty_store, Map.empty))))"
proof -
  have "queues_bounded (ps_state empty_store)" by (simp add: empty_store_def State_zero_def queues_bounded_def)
  from priv_history_bounds [OF this prod.collapse [symmetric]] show ?thesis by blast
qed

text \<open>
  C38: two processes never overwrite each other. When two stores were opened on the same file and
  the first one changes it, every later operation of the second leaves its memory and the file as
  they are (it is refused, or had nothing to write), and reopening the file gives the first one's
  store.
\<close>

theorem stale_writer_refused:
  assumes codec: "\<forall>st c. enc st = Some c \<longrightarrow> dec c = Some st" and "inj digest"
    and path: "ps_path s2 = ps_path s1" "TrimSpace (ps_path s1) \<noteq> []" and "env_tmp e1 \<noteq> ps_path s1"
    and coh: "priv_coherent enc digest s1 d" "priv_coherent enc digest s2 d"
    and w1: "priv_apply sha pm stamp enc digest e1 a1 s1 d = (Inr (), s1', d1)"
    and changed: "d1 (ps_path s1) \<noteq> d (ps_path s1)"
    and w2: "priv_apply sha pm stamp enc digest e2 a2 s2 d1 = (r, s2', d2)"
  shows "s2' = s2 \<and> d2 = d1 \<and>
    (r = Inr () \<longrightarrow> priv_plan sha pm stamp (env_now e2) a2 (ps_state s2) = Keep) \<and>
    priv_Open DefaultPath dec digest (\<lambda>_. False) (ps_path s2) d1 = Inr s1'"
proof -
  obtain next' where "priv_commit enc digest e1 next' s1 d = (Inr (), s1', d1)"
    using w1 changed by (auto simp: priv_apply_def priv_exec_def split: plan.splits)
  then obtain c where c: "d1 (ps_path s1) = Some (private_file c)" "enc (ps_state s1') = Some c"
      "ps_diskHash s1' = digest (Some c)" "ps_path s1' = ps_path s1"
    using \<open>env_tmp e1 \<noteq> ps_path s1\<close> by (elim priv_commit_cases) auto
  then have "digest (Some c) \<noteq> ps_diskHash s2"
    using coh(2) changed path(1) \<open>inj digest\<close> by (auto simp: priv_coherent_def inj_eq)
  then have st: "\<exists>err. priv_commit enc digest e2 n s2 d1 = (Inl err, s2, d1)" for n
    using c(1) path(1) by (auto simp: priv_commit_def read_file_def private_file_def)
  have "s2' = s2 \<and> d2 = d1 \<and> (r = Inr () \<longrightarrow> priv_plan sha pm stamp (env_now e2) a2 (ps_state s2) = Keep)"
  proof (cases "priv_plan sha pm stamp (env_now e2) a2 (ps_state s2)")
    case (Next n)
    with w2 st [of n] show ?thesis by (auto simp: priv_apply_def priv_exec_def)
  qed (use w2 in \<open>auto simp: priv_apply_def priv_exec_def\<close>)
  moreover have "priv_Open DefaultPath dec digest (\<lambda>_. False) (ps_path s2) d1 = Inr s1'"
    using c codec path by (simp add: priv_Open_def read_file_def private_file_def Let_def)
  ultimately show ?thesis by blast
qed

theorem stale_writer_refused_witness:
  "\<exists>s1 d1. sample_apply (quiet_env ''t'' 7) (Enqueue sample_receipt) empty_store Map.empty = (Inr (), s1, d1) \<and>
     sample_apply (quiet_env ''t'' 8) Rollback empty_store d1 = (Inl NoPrevious, empty_store, d1) \<and>
     priv_Open ''d'' Some (\<lambda>x. x) (\<lambda>_. False) ''s'' d1 = Inr s1"
proof -
  obtain s1 d1 where A: "sample_apply (quiet_env ''t'' 7) (Enqueue sample_receipt) empty_store Map.empty = (Inr (), s1, d1)"
    and ch: "d1 (ps_path empty_store) \<noteq> Map.empty (ps_path empty_store)"
    by (simp add: priv_eval)
  have coh: "priv_coherent Some (\<lambda>x. x) empty_store Map.empty"
    by (simp add: priv_coherent_def empty_store_def)
  have "TrimSpace (ps_path empty_store) \<noteq> []"
    by (simp add: empty_store_def TrimSpace_def strip.simps space_runes_def starts_with_def)
  moreover have B: "sample_apply (quiet_env ''t'' 8) Rollback empty_store d1 = (Inl NoPrevious, empty_store, d1)"
    by (simp add: priv_eval)
  moreover have "env_tmp (quiet_env ''t'' 7 :: State env) \<noteq> ps_path empty_store"
    by (simp add: empty_store_def quiet_env_def)
  ultimately have "priv_Open ''d'' Some (\<lambda>x. x) (\<lambda>_. False) (ps_path empty_store) d1 = Inr s1"
    using stale_writer_refused [OF _ _ refl _ _ coh coh A ch B, of Some "''d''"] by simp
  with A B show ?thesis by (auto simp: empty_store_def)
qed

text \<open>
  Rollback is the inverse of the last approval, when that narrows. After an applied approval a
  rollback either restores the settings and the revision in force before it, or (when they are not
  contained in the current ones) changes nothing; and a second rollback is refused.
\<close>

theorem rollback_undoes_approval:
  assumes A: "priv_apply sha pm stamp enc digest e1 (ApplyApproved rv m rc) s d = (Inr (), s1, d1)"
    and B: "priv_apply sha pm stamp enc digest e2 Rollback s1 d1 = (r, s2, d2)"
  shows "(r = Inr () \<longrightarrow> Active (ps_state s2) = Active (ps_state s) \<and>
      AppliedRevision (ps_state s2) = AppliedRevision (ps_state s) \<and> Outbox (ps_state s2) = Outbox (ps_state s) @ [rc] \<and>
      Subset (Active (ps_state s)) (Active (ps_state s1)) \<and>
      priv_apply sha pm stamp enc digest e3 Rollback s2 d2 = (Inl NoPrevious, s2, d2)) \<and>
    (\<not> Subset (Active (ps_state s)) (Active (ps_state s1)) \<longrightarrow> r = Inl RollbackWouldWiden \<and> s2 = s1 \<and> d2 = d1)"
proof -
  from A obtain next' where n: "priv_plan sha pm stamp (env_now e1) (ApplyApproved rv m rc) (ps_state s) = Next next'"
      "ps_state s1 = next'\<lparr>st_UpdatedAt := env_now e1\<rparr>"
    by (rule priv_apply_cases)
      (auto simp: ApplyApproved_plan_def commitApproved_plan_def split: option.splits if_splits)
  then obtain rv' where "commitApproved_plan pm rv' rc (ps_state s) = Next next'"
    by (auto simp: ApplyApproved_plan_def split: option.splits)
  note C = commitApproved_Next [OF this]
  show ?thesis
    using B C n(2) unfolding priv_apply_def [of sha pm stamp enc digest e2]
    by (auto simp: priv_exec_def Rollback_plan_def priv_apply_def dest: priv_commit_success split: if_splits)
qed

theorem rollback_undoes_approval_witness:
  "\<exists>s1 d1 s2 d2. sample_apply (quiet_env ''t'' 7) (ApplyApproved (Some sample_revision) 2 sample_receipt)
      empty_store Map.empty = (Inr (), s1, d1) \<and>
    sample_apply (quiet_env ''t'' 8) Rollback s1 d1 = (Inr (), s2, d2) \<and> Active (ps_state s2) = Settings_zero"
proof -
  have "\<exists>s1 d1 s2 d2. sample_apply (quiet_env ''t'' 7) (ApplyApproved (Some sample_revision) 2 sample_receipt)
      empty_store Map.empty = (Inr (), s1, d1) \<and> sample_apply (quiet_env ''t'' 8) Rollback s1 d1 = (Inr (), s2, d2)"
    by (simp add: priv_eval Subset_def)
  then obtain s1 d1 s2 d2 where
    A: "sample_apply (quiet_env ''t'' 7) (ApplyApproved (Some sample_revision) 2 sample_receipt)
      empty_store Map.empty = (Inr (), s1, d1)" and
    B: "sample_apply (quiet_env ''t'' 8) Rollback s1 d1 = (Inr (), s2, d2)" by blast
  from rollback_undoes_approval [OF A B] have "Active (ps_state s2) = Settings_zero"
    by (simp add: empty_store_def State_zero_def)
  with A B show ?thesis by blast
qed

text \<open>
  The configuration hash that an approval signs determines the settings. With an injective
  digest, two settings whose modes are 32-bit enumeration values have the same hash exactly when
  they are equal.
\<close>

theorem Hash_binds_settings:
  assumes "inj sha"
    and "RequiredPrivilegeMode s \<in> {-(2 ^ 31)..<2 ^ 31}" and "RequiredPrivilegeMode t \<in> {-(2 ^ 31)..<2 ^ 31}"
  shows "Hash sha s = Hash sha t \<longleftrightarrow> s = t"
proof
  assume "Hash sha s = Hash sha t"
  then have "sha (hash_preimage s) = sha (hash_preimage t)"
    unfolding Hash_def by (rule hex_encode_inj)
  then have "hash_preimage s = hash_preimage t" by (rule injD [OF assms(1)])
  from this assms(2,3) show "s = t" by (rule hash_preimage_inj)
qed simp

theorem Hash_binds_settings_witness:
  "Hash (\<lambda>b. b) Settings_zero \<noteq> Hash (\<lambda>b. b) (Settings_zero\<lparr>ExecutionEnabled := True\<rparr>)"
  using Hash_binds_settings [of "\<lambda>b. b" Settings_zero "Settings_zero\<lparr>ExecutionEnabled := True\<rparr>"]
  by (simp add: Settings_zero_def)

end
