(* ===== verification/Filepath.thy ===== *)
theory Filepath
  imports Prelude
begin

text \<open>
  The part of \<open>path/filepath\<close> (on Unix) that the sources call: \<open>Clean\<close>, \<open>Dir\<close>, \<open>Join\<close>, \<open>IsAbs\<close>.
  A path is cleaned component by component; a rooted path never climbs above its root.
\<close>

abbreviation sep :: char where
  "sep \<equiv> CHR ''/''"

definition IsAbs :: "path \<Rightarrow> bool" where
  "IsAbs p = (case p of [] \<Rightarrow> False | c # _ \<Rightarrow> c = sep)"

text \<open>The accumulator holds the components kept so far, the last one first.\<close>

fun clean_loop :: "bool \<Rightarrow> string list \<Rightarrow> string list \<Rightarrow> string list" where
  "clean_loop rooted acc [] = rev acc"
| "clean_loop rooted acc (c # cs) =
     (if c = [] \<or> c = ''.'' then clean_loop rooted acc cs
      else if c = ''..'' then
        (case acc of
           [] \<Rightarrow> clean_loop rooted (if rooted then [] else [c]) cs
         | a # as \<Rightarrow> clean_loop rooted (if a = ''..'' then c # acc else as) cs)
      else clean_loop rooted (c # acc) cs)"

definition components :: "path \<Rightarrow> string list" where
  "components p = clean_loop (IsAbs p) [] (split_at sep p)"

definition render :: "bool \<Rightarrow> string list \<Rightarrow> path" where
  "render rooted cs = (if rooted then sep # join [sep] cs else if cs = [] then ''.'' else join [sep] cs)"

definition Clean :: "path \<Rightarrow> path" where
  "Clean p = (if p = [] then ''.'' else render (IsAbs p) (components p))"

text \<open>\<open>Dir\<close>: everything up to the last separator, cleaned.\<close>

definition Dir :: "path \<Rightarrow> path" where
  "Dir p = Clean (rev (dropWhile (\<lambda>c. c \<noteq> sep) (rev p)))"

definition Base :: "path \<Rightarrow> string" where
  "Base p =
     (if p = [] then ''.''
      else (let q = rev (dropWhile (\<lambda>c. c = sep) (rev p)) in
            if q = [] then [sep] else rev (takeWhile (\<lambda>c. c \<noteq> sep) (rev q))))"

fun Join :: "path list \<Rightarrow> path" where
  "Join [] = []"
| "Join (e # es) = (if e = [] then Join es else Clean (join [sep] (filter (\<lambda>x. x \<noteq> []) (e # es))))"

section \<open>Facts\<close>

definition plain :: "string \<Rightarrow> bool" where
  "plain c \<longleftrightarrow> c \<noteq> [] \<and> c \<noteq> ''.'' \<and> c \<noteq> ''..'' \<and> sep \<notin> set c"

lemma split_at_nonempty [simp]: "split_at x p \<noteq> []"
  by (cases p) (simp_all split: list.split)

lemma split_at_sep: "c \<in> set (split_at x p) \<Longrightarrow> x \<notin> set c"
proof (induction p arbitrary: c)
  case (Cons y ys)
  obtain h t where "split_at x ys = h # t" by (cases "split_at x ys") simp_all
  with Cons show ?case by (auto split: if_splits)
qed simp

lemma split_at_free: "x \<notin> set c \<Longrightarrow> split_at x c = [c]"
  by (induction c) auto

lemma split_at_prefix: "x \<notin> set c \<Longrightarrow> split_at x (c @ x # rest) = c # split_at x rest"
  by (induction c) auto

lemma join_Cons: "cs \<noteq> [] \<Longrightarrow> join s (c # cs) = c @ s @ join s cs"
  by (cases cs) simp_all

lemma split_at_join: "cs \<noteq> [] \<Longrightarrow> \<forall>c \<in> set cs. x \<notin> set c \<Longrightarrow> split_at x (join [x] cs) = cs"
proof (induction cs)
  case (Cons c cs)
  then show ?case by (cases "cs = []") (simp_all add: split_at_free split_at_prefix join_Cons)
qed simp

lemma clean_loop_rooted:
  "r \<Longrightarrow> \<forall>c \<in> set acc. plain c \<Longrightarrow> \<forall>c \<in> set cs. sep \<notin> set c \<Longrightarrow> \<forall>c \<in> set (clean_loop r acc cs). plain c"
proof (induction cs arbitrary: acc)
  case (Cons c cs)
  show ?case
  proof (cases "c = [] \<or> c = ''.''")
    case True
    with Cons.prems Cons.IH [of acc] show ?thesis by auto
  next
    case False
    show ?thesis
    proof (cases "c = ''..''")
      case True
      show ?thesis
      proof (cases acc)
        case Nil
        with True Cons.prems Cons.IH [of "[]"] show ?thesis by simp
      next
        case (Cons a as)
        then have "a \<noteq> ''..''" using Cons.prems(2) by (simp add: plain_def)
        with True Cons Cons.prems Cons.IH [of as] show ?thesis by simp
      qed
    next
      case nd: False
      with False Cons.prems have "plain c" by (simp add: plain_def)
      with nd False Cons.prems Cons.IH [of "c # acc"] show ?thesis by simp
    qed
  qed
qed simp

text \<open>A rooted clean path has only plain components: no empty one, no dot and no dot-dot.\<close>

lemma components_plain: "IsAbs p \<Longrightarrow> \<forall>c \<in> set (components p). plain c"
  unfolding components_def by (rule clean_loop_rooted) (auto dest: split_at_sep)

lemma clean_loop_plain: "\<forall>c \<in> set cs. plain c \<Longrightarrow> clean_loop r acc cs = rev acc @ cs"
  by (induction cs arbitrary: acc) (auto simp: plain_def)

lemma components_render:
  assumes "\<forall>c \<in> set cs. plain c"
  shows "components (render True cs) = cs"
proof -
  have "split_at sep (join [sep] cs) = (if cs = [] then [[]] else cs)"
    using split_at_join [of cs sep] assms by (auto simp: plain_def)
  then show ?thesis
    using clean_loop_plain [OF assms, of True "[]"] by (auto simp: components_def render_def IsAbs_def)
qed

lemma IsAbs_render [simp]: "IsAbs (render True cs)"
  by (simp add: IsAbs_def render_def)

lemma Clean_rooted: "IsAbs p \<Longrightarrow> Clean p = render True (components p)"
  by (auto simp: Clean_def IsAbs_def split: list.splits)

text \<open>Cleaning is idempotent on rooted paths.\<close>

lemma Clean_idem: "IsAbs p \<Longrightarrow> Clean (Clean p) = Clean p"
  by (simp add: Clean_rooted components_render components_plain)

end
