(* ===== verification/HostPolicy.thy ===== *)
theory HostPolicy
  imports Privileged Filepath
begin

text \<open>
  \<open>core/hostops\<close> (\<open>manifest.go\<close>, \<open>authorization.go\<close>, \<open>release.go\<close>, \<open>trust_unix.go\<close>): what the
  root-owned host tool and the rescue helper accept. The protected files (manifest, policy, trust
  pin) are read through \<open>TrustedPath\<close>; the signed messages of the panel are checked against the
  locally pinned trust. URL parsing, JSON decoding, protobuf encoding, Ed25519 and SHA-256 are
  parameters.
\<close>

unbundle bit_operations_syntax

section \<open>Protected files\<close>

text \<open>What \<open>os.Lstat\<close> reports: owner, permission bits and whether it is a symbolic link.\<close>

record file_stat =
  fs_uid :: nat
  fs_perm :: nat
  fs_symlink :: bool

text \<open>What \<open>os.Open\<close> and \<open>Stat\<close> give: whether the file is regular, its size and its bytes.\<close>

record host_file =
  hf_regular :: bool
  hf_size :: nat
  hf_data :: bytes

record host_fs =
  lstat :: "path \<Rightarrow> file_stat option"
  open_file :: "path \<Rightarrow> host_file option"

datatype host_error =
    NotAbsolute
  | StatFailed
  | UntrustedPath
  | OpenFailed
  | BadFileType
  | DecodeFailed
  | TrailingContent
  | PolicyMissing
  | PolicyMismatch
  | AccessIncomplete
  | TrustEndpoint
  | TrustIncomplete
  | TrustKeys
  | TrustOtherService
  | SignatureRefused verify_error
  | TypeMismatch
  | HostMarshalFailed
  | BodyNotBound
  | MissingRevision
  | BindingMismatch
  | HostApprovalExpired
  | BadHostAction
  | ConflictingActions
  | MissingOperation
  | LeaseMismatch
  | ReleaseUntrusted
  | ReleaseSchema
  | ReleaseHashMismatch

text \<open>Owned by root, not writable by group or others (mask 022 octal), not a symbolic link.\<close>

definition protected_stat :: "file_stat \<Rightarrow> bool" where
  "protected_stat st \<longleftrightarrow> fs_uid st = 0 \<and> fs_perm st AND 18 = 0 \<and> \<not> fs_symlink st"

text \<open>
  The walk from the cleaned path up to the root, on the components (the last one first): \<open>Dir\<close> of a
  rooted clean path drops the last component.
\<close>

fun trusted_walk :: "(path \<Rightarrow> file_stat option) \<Rightarrow> string list \<Rightarrow> host_error option" where
  "trusted_walk lst rcs =
     (case lst (render True (rev rcs)) of
        None \<Rightarrow> Some StatFailed
      | Some st \<Rightarrow>
          if \<not> protected_stat st then Some UntrustedPath
          else (case rcs of [] \<Rightarrow> None | _ # rest \<Rightarrow> trusted_walk lst rest))"

declare trusted_walk.simps [simp del]

definition TrustedPath :: "(path \<Rightarrow> file_stat option) \<Rightarrow> path \<Rightarrow> host_error option" where
  "TrustedPath lst p = (if \<not> IsAbs p then Some NotAbsolute else trusted_walk lst (rev (components p)))"

text \<open>
  \<open>dec\<close> is the strict JSON decoder: the first value and the bytes after it. Trailing content is
  anything but JSON white space.
\<close>

definition ReadJSON :: "host_fs \<Rightarrow> (bytes \<Rightarrow> ('a \<times> bytes) option) \<Rightarrow> path \<Rightarrow> bool \<Rightarrow> host_error + 'a" where
  "ReadJSON fs dec p trusted =
     (case (if trusted then TrustedPath (lstat fs) p else None) of
        Some err \<Rightarrow> Inl err
      | None \<Rightarrow>
          (case open_file fs p of
             None \<Rightarrow> Inl OpenFailed
           | Some file \<Rightarrow>
               if \<not> hf_regular file \<or> hf_size file > 2 ^ 20 then Inl BadFileType
               else (case dec (take (2 ^ 20) (hf_data file)) of
                       None \<Rightarrow> Inl DecodeFailed
                     | Some (x, rest) \<Rightarrow>
                         if \<exists>c \<in> set rest. c \<notin> {CHR '' '', CHR 0x09, CHR 0x0A, CHR 0x0D} then Inl TrailingContent
                         else Inr x)))"

section \<open>Manifest and policy\<close>

abbreviation (input) ManifestVersion :: int where
  "ManifestVersion \<equiv> 2"

record Manifest =
  mf_Version :: int
  ServiceName :: string
  ServiceUser :: string
  InitSystem :: string
  Executable :: path
  HostTool :: path
  HostPolicyFile :: path
  ConfigFile :: path
  CredentialsFile :: path
  RuntimeStateFile :: path
  PrivilegedStateFile :: path
  ReplayStateFile :: path
  ManifestPath :: path

record HostPolicy =
  hp_Version :: int
  hp_ServiceID :: string
  hp_PrivilegeMode :: mode
  AllowRemoteControl :: bool
  AllowWebSSH :: bool
  AllowExecution :: bool
  AllowGPU :: bool
  ForceDenyRemoteControl :: bool
  BaselineRemoteControl :: bool
  BaselineWebSSH :: bool
  BaselineExecution :: bool
  BaselineGPU :: bool
  AllowRescueHelper :: bool
  ForceDenyRescueHelper :: bool
  HelperAuthorized :: bool
  HelperInstalled :: bool
  DisableSource :: string
  HostRevision :: u64
  HostSettings :: "Settings option"

definition rebase :: "path \<Rightarrow> path \<Rightarrow> path" where
  "rebase dir p = (if p \<noteq> [] \<and> \<not> IsAbs p then Join [dir, p] else p)"

definition ReadManifest :: "host_fs \<Rightarrow> (bytes \<Rightarrow> (Manifest \<times> bytes) option) \<Rightarrow> path \<Rightarrow> host_error + Manifest" where
  "ReadManifest fs dec p =
     (case ReadJSON fs dec p False of
        Inl err \<Rightarrow> Inl err
      | Inr m \<Rightarrow>
          (case (if mf_Version m \<ge> ManifestVersion then TrustedPath (lstat fs) p else None) of
             Some err \<Rightarrow> Inl err
           | None \<Rightarrow>
               (let dir = Dir p in
                Inr (m\<lparr>ManifestPath := p, Executable := rebase dir (Executable m), HostTool := rebase dir (HostTool m),
                  HostPolicyFile := rebase dir (HostPolicyFile m), ConfigFile := rebase dir (ConfigFile m),
                  CredentialsFile := rebase dir (CredentialsFile m), RuntimeStateFile := rebase dir (RuntimeStateFile m),
                  PrivilegedStateFile := rebase dir (PrivilegedStateFile m),
                  ReplayStateFile := rebase dir (ReplayStateFile m)\<rparr>))))"

definition ReadPolicy ::
  "host_fs \<Rightarrow> (bytes \<Rightarrow> (HostPolicy \<times> bytes) option) \<Rightarrow> Manifest option \<Rightarrow> host_error + HostPolicy" where
  "ReadPolicy fs dec m =
     (case m of
        None \<Rightarrow> Inl PolicyMissing
      | Some m \<Rightarrow>
          if mf_Version m \<noteq> ManifestVersion \<or> HostPolicyFile m = [] then Inl PolicyMissing
          else (case ReadJSON fs dec (HostPolicyFile m) True of
                  Inl err \<Rightarrow> Inl err
                | Inr p \<Rightarrow>
                    if hp_Version p \<noteq> ManifestVersion \<or> hp_ServiceID p \<noteq> ServiceName m then Inl PolicyMismatch
                    else Inr p))"

text \<open>The loop ranges over runes; a byte outside ASCII is never an accepted rune.\<close>

definition service_char :: "char \<Rightarrow> bool" where
  "service_char c \<longleftrightarrow> c \<in> set ''abcdefghijklmnopqrstuvwxyzABCDEFGHIJKLMNOPQRSTUVWXYZ0123456789_.-''"

definition ValidService :: "string \<Rightarrow> bool" where
  "ValidService name =
     (if name = [] \<or> length name > 128 \<or> starts_with ''-'' name then False
      else (\<forall>c \<in> set name. service_char c))"

section \<open>The local trust pin\<close>

record Trust =
  tr_Version :: int
  tr_AgentID :: string
  tr_Endpoint :: string
  tr_ServiceID :: string
  tr_ServiceUser :: string
  PanelKeys :: "PinnedKey list"
  ReleaseKeys :: "PinnedKey list"
  AccessConfigFile :: path

record AccessConfig =
  ClientID :: string
  ClientSecret :: string

definition ReadAccess :: "host_fs \<Rightarrow> (bytes \<Rightarrow> (AccessConfig \<times> bytes) option) \<Rightarrow> Trust \<Rightarrow> host_error + AccessConfig" where
  "ReadAccess fs dec t =
     (if AccessConfigFile t = [] then Inr \<lparr>ClientID = [], ClientSecret = []\<rparr>
      else if \<not> IsAbs (AccessConfigFile t) then Inl NotAbsolute
      else (case ReadJSON fs dec (AccessConfigFile t) True of
              Inl err \<Rightarrow> Inl err
            | Inr a \<Rightarrow> if ClientID a = [] \<or> ClientSecret a = [] then Inl AccessIncomplete else Inr a))"

definition TrustPath :: "Manifest \<Rightarrow> path" where
  "TrustPath m = Join [Dir (HostPolicyFile m), ServiceName m @ ''.trust.json'']"

definition AppliedPath :: "Manifest \<Rightarrow> path" where
  "AppliedPath m = Join [Dir (HostPolicyFile m), ServiceName m @ ''.applied.json'']"

definition HelperStatusPath :: "Manifest \<Rightarrow> path" where
  "HelperStatusPath m = Join [''/run/komari'', ServiceName m @ ''.helper.json'']"

definition Trust_Identity :: "Trust \<Rightarrow> Identity" where
  "Trust_Identity t = Identity_zero\<lparr>AgentID := tr_AgentID t, Endpoint := tr_Endpoint t,
     ControlPlaneKeys := PanelKeys t, PolicyAlgorithms := [1], PolicyMinimumSignatures := 1\<rparr>"

text \<open>The parts of a parsed URL that \<open>Validate\<close> looks at; \<open>url_parse\<close> stands for \<open>url.Parse\<close>.\<close>

record url_parts =
  u_Scheme :: string
  u_Host :: string
  u_Hostname :: string
  u_User :: bool
  u_RawQuery :: string
  u_Fragment :: string

definition key_ok :: "PinnedKey \<Rightarrow> bool" where
  "key_ok k \<longleftrightarrow> (case b64_decode (pk_Value k) of None \<Rightarrow> False | Some b \<Rightarrow> length b = 32) \<and>
     pk_KeyID k \<noteq> [] \<and> pk_Algorithm k = 1"

definition Trust_Validate :: "(string \<Rightarrow> url_parts option) \<Rightarrow> Trust \<Rightarrow> host_error option" where
  "Trust_Validate url_parse t =
     (case url_parse (tr_Endpoint t) of
        None \<Rightarrow> Some TrustEndpoint
      | Some u \<Rightarrow>
          if u_Host u = [] \<or>
             (u_Scheme u \<noteq> ''https'' \<and>
                \<not> (u_Scheme u = ''http'' \<and> (u_Hostname u = ''127.0.0.1'' \<or> u_Hostname u = ''::1''))) \<or>
             u_User u \<or> u_RawQuery u \<noteq> [] \<or> u_Fragment u \<noteq> []
          then Some TrustEndpoint
          else if tr_Version t \<noteq> 2 \<or> tr_AgentID t = [] \<or> \<not> ValidService (tr_ServiceID t) \<or>
            \<not> ValidService (tr_ServiceUser t) \<or> PanelKeys t = []
          then Some TrustIncomplete
          else if \<exists>k \<in> set (PanelKeys t @ ReleaseKeys t). \<not> key_ok k then Some TrustKeys
          else None)"

definition ReadTrust ::
  "host_fs \<Rightarrow> (bytes \<Rightarrow> (Trust \<times> bytes) option) \<Rightarrow> (string \<Rightarrow> url_parts option) \<Rightarrow> Manifest \<Rightarrow> host_error + Trust" where
  "ReadTrust fs dec url_parse m =
     (case ReadJSON fs dec (TrustPath m) True of
        Inl err \<Rightarrow> Inl err
      | Inr t \<Rightarrow>
          (case Trust_Validate url_parse t of
             Some err \<Rightarrow> Inl err
           | None \<Rightarrow> if tr_ServiceID t \<noteq> ServiceName m then Inl TrustOtherService else Inr t))"

section \<open>Signed messages\<close>

text \<open>
  \<open>ed\<close> is Ed25519, \<open>unm\<close> the decoder of a signed instruction. The verifier has no replay guard here,
  so its store and disk play no part.
\<close>

definition verify_plain ::
  "(bytes \<Rightarrow> bytes \<Rightarrow> bytes \<Rightarrow> bool) \<Rightarrow> (bytes \<Rightarrow> SignedInstruction option) \<Rightarrow> gotime \<Rightarrow> Verifier \<Rightarrow>
     SignedEnvelope option \<Rightarrow> verify_error + Instruction" where
  "verify_plain ed unm now v envelope =
     fst (Verify ed unm (\<lambda>_. None :: unit option) (\<lambda>_. None) (quiet_env [] now) envelope v Map.empty)"

text \<open>\<open>unknown\<close> are the unknown bytes of the message, \<open>body\<close> its deterministic encoding.\<close>

definition verifyBody ::
  "(bytes \<Rightarrow> bytes \<Rightarrow> bytes \<Rightarrow> bool) \<Rightarrow> (bytes \<Rightarrow> SignedInstruction option) \<Rightarrow> gotime \<Rightarrow> Trust \<Rightarrow>
     SignedEnvelope option \<Rightarrow> bytes \<Rightarrow> bytes option \<Rightarrow> string \<Rightarrow> host_error option" where
  "verifyBody ed unm now t envelope unknown body kind =
     (case verify_plain ed unm now (New (Trust_Identity t) None) envelope of
        Inl err \<Rightarrow> Some (SignatureRefused err)
      | Inr i \<Rightarrow>
          if in_InstructionType i \<noteq> kind \<or> unknown \<noteq> [] then Some TypeMismatch
          else (case body of
                  None \<Rightarrow> Some HostMarshalFailed
                | Some b \<Rightarrow> if b \<noteq> in_Body i then Some BodyNotBound else None))"

abbreviation revision_kind :: string where
  "revision_kind \<equiv> ''komari.config.v2.PrivilegedRevision''"

abbreviation operation_kind :: string where
  "operation_kind \<equiv> ''komari.host.v1.HostOperation''"

definition VerifySignedRevision ::
  "(bytes \<Rightarrow> bytes \<Rightarrow> bytes \<Rightarrow> bool) \<Rightarrow> (bytes \<Rightarrow> SignedInstruction option) \<Rightarrow> (bytes \<Rightarrow> bytes) \<Rightarrow>
     (PrivilegedRevision \<Rightarrow> bytes option) \<Rightarrow> gotime \<Rightarrow> Trust \<Rightarrow> PrivilegedRevision option \<Rightarrow> host_error option" where
  "VerifySignedRevision ed unm sha pm now t revision =
     (case revision of
        None \<Rightarrow> Some MissingRevision
      | Some r \<Rightarrow>
          (let c = r\<lparr>pr_Signature := None\<rparr> in
           case verifyBody ed unm now t (pr_Signature r) (pr_Unknown c) (pm c) revision_kind of
             Some err \<Rightarrow> Some err
           | None \<Rightarrow>
               if pr_ProtocolVersion r \<noteq> 2 \<or> pr_AgentId r \<noteq> tr_AgentID t \<or>
                  (case pr_Privileged r of None \<Rightarrow> True | Some p \<Rightarrow> pc_Unknown p \<noteq> []) \<or>
                  pr_ConfigHash r \<noteq> Hash sha (settingsFromProto (pr_Privileged r))
               then Some BindingMismatch
               else None))"

fun action_loop :: "int list \<Rightarrow> int list \<Rightarrow> host_error option" where
  "action_loop seen [] = (if 2 \<in> set seen \<and> 3 \<in> set seen then Some ConflictingActions else None)"
| "action_loop seen (a # as) =
     (if a < 1 \<or> a > 3 \<or> a \<in> set seen then Some BadHostAction else action_loop (a # seen) as)"

definition VerifyRevision ::
  "(bytes \<Rightarrow> bytes \<Rightarrow> bytes \<Rightarrow> bool) \<Rightarrow> (bytes \<Rightarrow> SignedInstruction option) \<Rightarrow> (bytes \<Rightarrow> bytes) \<Rightarrow>
     (PrivilegedRevision \<Rightarrow> bytes option) \<Rightarrow> gotime \<Rightarrow> Trust \<Rightarrow> PrivilegedRevision option \<Rightarrow> host_error option" where
  "VerifyRevision ed unm sha pm now t revision =
     (case VerifySignedRevision ed unm sha pm now t revision of
        Some err \<Rightarrow> Some err
      | None \<Rightarrow>
          (case revision of
             None \<Rightarrow> Some MissingRevision
           | Some r \<Rightarrow>
               (case pr_Authorization r of
                  None \<Rightarrow> Some BindingMismatch
                | Some a \<Rightarrow>
                    if pr_Revision r = 0 \<or> pr_InstallationBaseline r \<or> ha_Unknown a \<noteq> [] \<or>
                       ha_AgentId a \<noteq> tr_AgentID t \<or> ha_ServiceId a \<noteq> tr_ServiceID t \<or>
                       ha_Revision a \<noteq> pr_Revision r \<or> ha_ConfigHash a \<noteq> pr_ConfigHash r \<or>
                       ha_ApprovalGeneration a \<noteq> pr_ApprovalGeneration r \<or> ha_ApprovalGeneration a = 0 \<or>
                       ha_Nonce a = [] \<or> ha_ApprovedBy a = [] \<or>
                       ha_TargetPrivilegeMode a \<noteq> RequiredPrivilegeMode (settingsFromProto (pr_Privileged r))
                    then Some BindingMismatch
                    else (case (ha_IssuedAt a, ha_ExpiresAt a) of
                            (TsValid issued, TsValid expires) \<Rightarrow>
                              if issued > now + minute \<or> \<not> now < expires \<or> \<not> expires > issued
                              then Some HostApprovalExpired
                              else action_loop [] (ha_Actions a)
                          | _ \<Rightarrow> Some HostApprovalExpired))))"

text \<open>\<open>AsTime\<close>: an absent timestamp is the Unix epoch.\<close>

definition AsTime :: "timestamp \<Rightarrow> gotime" where
  "AsTime ts = (case ts of TsAbsent \<Rightarrow> 62135596800 * second | TsInvalid t \<Rightarrow> t | TsValid t \<Rightarrow> t)"

definition VerifyOperation ::
  "(bytes \<Rightarrow> bytes \<Rightarrow> bytes \<Rightarrow> bool) \<Rightarrow> (bytes \<Rightarrow> SignedInstruction option) \<Rightarrow>
     (HostOperation \<Rightarrow> bytes option) \<Rightarrow> gotime \<Rightarrow> Trust \<Rightarrow> HostOperation option \<Rightarrow> HostAuthorization option \<Rightarrow>
     string \<Rightarrow> host_error option" where
  "VerifyOperation ed unm pm now t operation a i =
     (case operation of
        None \<Rightarrow> Some MissingOperation
      | Some op \<Rightarrow>
          (let c = op\<lparr>ho_Signature := None\<rparr> in
           case verifyBody ed unm now t (ho_Signature op) (ho_Unknown c) (pm c) operation_kind of
             Some err \<Rightarrow> Some err
           | None \<Rightarrow>
               if ho_OperationId op \<noteq> i \<or> i = [] \<or> a \<noteq> ho_Authorization op then Some LeaseMismatch
               else (case ho_LeaseExpiresAt op of
                       TsValid lease \<Rightarrow>
                         if (ho_Phase op < 3 \<and> \<not> now < lease) \<or>
                            lease > AsTime (case a of None \<Rightarrow> TsAbsent | Some au \<Rightarrow> ha_ExpiresAt au)
                         then Some LeaseMismatch
                         else None
                     | _ \<Rightarrow> Some LeaseMismatch)))"

section \<open>Helper releases\<close>

record ReleaseManifest =
  rl_Payload :: bytes
  rl_KeyID :: string
  rl_Signature :: bytes

record ReleasePayload =
  rp_Schema :: string
  rp_Component :: string
  rp_Version :: string
  rp_OS :: string
  rp_Arch :: string
  rp_SHA256 :: string

definition release_key_verifies ::
  "(bytes \<Rightarrow> bytes \<Rightarrow> bytes \<Rightarrow> bool) \<Rightarrow> gotime \<Rightarrow> ReleaseManifest \<Rightarrow> PinnedKey \<Rightarrow> bool" where
  "release_key_verifies ed now m k =
     (case b64_decode (pk_Value k) of
        None \<Rightarrow> False
      | Some key \<Rightarrow>
          length key = 32 \<and> pk_Algorithm k = 1 \<and> pk_KeyID k = rl_KeyID m \<and> \<not> pk_NotBefore k > now \<and>
          (case pk_NotAfter k of None \<Rightarrow> True | Some na \<Rightarrow> now < na) \<and> ed key (rl_Payload m) (rl_Signature m))"

text \<open>\<open>os\<close> and \<open>arch\<close> are \<open>runtime.GOOS\<close> and \<open>runtime.GOARCH\<close>; \<open>unj\<close> and \<open>enj\<close> the JSON codec.\<close>

definition VerifyRelease ::
  "(bytes \<Rightarrow> bytes \<Rightarrow> bytes \<Rightarrow> bool) \<Rightarrow> (bytes \<Rightarrow> ReleasePayload option) \<Rightarrow> (ReleasePayload \<Rightarrow> bytes option) \<Rightarrow>
     (bytes \<Rightarrow> bytes) \<Rightarrow> string \<Rightarrow> string \<Rightarrow> gotime \<Rightarrow> Trust \<Rightarrow> ReleaseManifest \<Rightarrow> bytes \<Rightarrow> host_error + ReleasePayload" where
  "VerifyRelease ed unj enj sha os arch now t m binary =
     (if \<not> (\<exists>k \<in> set (ReleaseKeys t). release_key_verifies ed now m k) then Inl ReleaseUntrusted
      else case unj (rl_Payload m) of
        None \<Rightarrow> Inl DecodeFailed
      | Some p \<Rightarrow>
          if enj p \<noteq> Some (rl_Payload m) \<or> rp_Schema p \<noteq> ''komari.release.v1'' \<or>
             rp_Component p \<noteq> ''komari-agent-rescue'' \<or> rp_Version p = [] \<or> rp_OS p \<noteq> os \<or> rp_Arch p \<noteq> arch
          then Inl ReleaseSchema
          else if rp_SHA256 p \<noteq> hex_encode (sha binary) then Inl ReleaseHashMismatch
          else Inr p)"

section \<open>Facts\<close>

lemma join_snoc: "join s (cs @ [c]) = (if cs = [] then c else join s cs @ s @ c)"
  by (induction cs) (auto simp: join_Cons)

lemma split_at_snoc: "split_at x (p @ [x]) = split_at x p @ [[]]"
proof (induction p)
  case (Cons y ys)
  obtain h t where "split_at x ys = h # t" by (meson list.exhaust split_at_nonempty)
  with Cons show ?case by simp
qed simp

lemma Dir_render:
  assumes "\<forall>c \<in> set (cs @ [c]). plain c"
  shows "Dir (render True (cs @ [c])) = render True cs"
proof -
  let ?d = "sep # (if cs = [] then [] else join [sep] cs @ [sep])"
  have c: "sep \<notin> set c" using assms by (simp add: plain_def)
  have "dropWhile (\<lambda>x. x \<noteq> sep) (rev c @ sep # q) = sep # q" for q
    using c by (subst dropWhile_append3) (auto simp: dropWhile_append)
  then have "rev (dropWhile (\<lambda>x. x \<noteq> sep) (rev (render True (cs @ [c])))) = ?d"
    by (simp add: render_def join_snoc)
  moreover have "Clean ?d = render True cs"
  proof -
    have "clean_loop True [] (cs @ [[]]) = cs"
    proof -
      have "clean_loop True acc (cs @ [[]]) = rev acc @ cs" for acc
        using assms by (induction cs arbitrary: acc) (auto simp: plain_def)
      from this [of "[]"] show ?thesis by simp
    qed
    then have "components ?d = cs"
      using assms split_at_join [of cs sep]
      by (auto simp: components_def IsAbs_def split_at_snoc plain_def)
    then show ?thesis by (simp add: Clean_def IsAbs_def)
  qed
  ultimately show ?thesis by (simp add: Dir_def)
qed

lemma trusted_walk_None:
  "trusted_walk lst rcs = None \<longleftrightarrow>
     (\<forall>k \<le> length rcs. \<exists>st. lst (render True (take k (rev rcs))) = Some st \<and> protected_stat st)"
proof (induction rcs)
  case Nil
  then show ?case by (simp add: trusted_walk.simps [of lst "[]"] split: option.splits)
next
  case (Cons c rcs)
  have "(\<forall>k \<le> length (c # rcs). P k) \<longleftrightarrow> P (length (c # rcs)) \<and> (\<forall>k \<le> length rcs. P k)" for P
    by (auto simp: le_Suc_eq)
  moreover have "take k (rev (c # rcs)) = take k (rev rcs)" if "k \<le> length rcs" for k
    using that by simp
  ultimately show ?case
    using Cons.IH by (simp add: trusted_walk.simps [of lst "c # rcs"] split: option.splits cong: conj_cong)
qed

lemma action_loop_None:
  "action_loop seen as = None \<longleftrightarrow> set as \<subseteq> {1, 2, 3} \<and> distinct as \<and> set as \<inter> set seen = {} \<and>
     \<not> (2 \<in> set seen \<union> set as \<and> 3 \<in> set seen \<union> set as)"
  by (induction seen as rule: action_loop.induct) auto

lemma verify_plain_Inr:
  assumes "verify_plain ed unm now v envelope = Inr i" and "v_replay v = None"
  shows "\<exists>env j. envelope = Some env \<and> unm (se_Payload env) = Some j \<and> in_AgentID i = v_agentID v \<and>
    in_AgentID i = si_AgentId j \<and> in_Body i = si_Body j \<and> in_InstructionType i = si_InstructionType j \<and>
    required v \<le> length (filter (vouched ed v now (se_Payload env)) (se_Signatures env))"
proof -
  obtain v' d' where V: "Verify ed unm (\<lambda>_. None :: unit option) (\<lambda>_. None) (quiet_env [] now) envelope v Map.empty = (Inr i, v', d')"
    using assms(1) unfolding verify_plain_def by (metis eq_fst_iff)
  then obtain env where env: "envelope = Some env" by (cases envelope) (auto simp: Verify_def Verify_checks_def)
  obtain j k where "Verify_checks ed unm v now (Some env) = Inr (j, k)" "i = instruction_of j k"
    using V env by (auto simp: Verify_def quiet_env_def split: result_splits)
  then show ?thesis using verifySignatures_vouched env
    by (fastforce simp: Verify_checks_Inr checkBinding_None instruction_of_def)
qed

lemma verifyBody_None:
  assumes "verifyBody ed unm now t envelope unknown body kind = None"
  shows "\<exists>env j. envelope = Some env \<and> unm (se_Payload env) = Some j \<and> si_AgentId j = tr_AgentID t \<and>
    body = Some (si_Body j) \<and> si_InstructionType j = kind \<and> unknown = [] \<and>
    (\<exists>sg \<in> set (se_Signatures env). vouched ed (New (Trust_Identity t) None) now (se_Payload env) sg)"
proof -
  let ?v = "New (Trust_Identity t) None"
  obtain i where i: "verify_plain ed unm now ?v envelope = Inr i" "in_InstructionType i = kind" "unknown = []"
      "body = Some (in_Body i)"
    using assms by (auto simp: verifyBody_def split: sum.splits if_splits option.splits)
  have v: "v_replay ?v = None" "v_agentID ?v = tr_AgentID t" "1 \<le> required ?v"
    by (simp_all add: New_def Trust_Identity_def required_def)
  from verify_plain_Inr [OF i(1) v(1)] obtain env j where J: "envelope = Some env" "unm (se_Payload env) = Some j"
      "si_AgentId j = tr_AgentID t" "in_Body i = si_Body j" "in_InstructionType i = si_InstructionType j"
      "required ?v \<le> length (filter (vouched ed ?v now (se_Payload env)) (se_Signatures env))"
    using v(2) by auto
  from J(6) v(3) have "filter (vouched ed ?v now (se_Payload env)) (se_Signatures env) \<noteq> []" by auto
  then show ?thesis using J i by (auto simp: filter_empty_conv)
qed
section \<open>Sample values for the witnesses\<close>

definition sample_trust :: Trust where
  "sample_trust = \<lparr>tr_Version = 2, tr_AgentID = ''a1'', tr_Endpoint = ''https://p'', tr_ServiceID = ''svc'',
     tr_ServiceUser = ''u'', PanelKeys = [sample_pin ''k1''], ReleaseKeys = [sample_pin ''k1''], AccessConfigFile = []\<rparr>"

definition sample_signed_revision :: PrivilegedRevision where
  "sample_signed_revision = sample_revision\<lparr>pr_Signature := Some sample_envelope\<rparr>"

definition sample_operation :: HostOperation where
  "sample_operation = \<lparr>ho_OperationId = ''o1'', ho_Phase = 1, ho_Authorization = Some sample_authorization,
     ho_LeaseExpiresAt = TsValid 40, ho_Signature = Some sample_envelope, ho_Unknown = []\<rparr>"

definition sample_payload :: ReleasePayload where
  "sample_payload = \<lparr>rp_Schema = ''komari.release.v1'', rp_Component = ''komari-agent-rescue'', rp_Version = ''1'',
     rp_OS = ''linux'', rp_Arch = ''amd64'', rp_SHA256 = ''68''\<rparr>"

definition sample_release :: ReleaseManifest where
  "sample_release = \<lparr>rl_Payload = ''p'', rl_KeyID = ''k1'', rl_Signature = ''ok''\<rparr>"

lemma sample_plain:
  "verify_plain sample_ed (\<lambda>_. Some (sample_instruction\<lparr>si_InstructionType := k, si_Body := b\<rparr>)) 10
     (New (Trust_Identity sample_trust) None) (Some sample_envelope) =
   Inr (instruction_of (sample_instruction\<lparr>si_InstructionType := k, si_Body := b\<rparr>) ''k1'')"
proof -
  let ?v = "New (Trust_Identity sample_trust) None"
  have v: "v_agentID ?v = ''a1''" "v_keys ?v = [sample_pin ''k1'']" "v_replay ?v = None" "MinimumSignatures (v_policy ?v) = 1"
    "AcceptedAlgorithms (v_policy ?v) = [1]" "\<not> RequireAll (v_policy ?v)"
    by (simp_all add: New_def Trust_Identity_def sample_trust_def Identity_zero_def)
  have "counts sample_ed ?v 10 ''p'' sample_sig"
    by (simp add: counts_def findKey_def sample_sig_def sample_pin_def verifyOne_def sample_ed_def v)
  then have "Verify_checks sample_ed (\<lambda>_. Some (sample_instruction\<lparr>si_InstructionType := k, si_Body := b\<rparr>)) ?v 10
      (Some sample_envelope) = Inr (sample_instruction\<lparr>si_InstructionType := k, si_Body := b\<rparr>, ''k1'')"
    by (simp add: Verify_checks_Inr checkBinding_None sample_envelope_def verifySignatures_iff v
        required_def sample_instruction_def TrimSpace_n1) (simp add: sample_sig_def)
  then show ?thesis by (simp add: verify_plain_def Verify_def quiet_env_def v)
qed

lemma sample_release_key: "release_key_verifies sample_ed 10 sample_release (sample_pin ''k1'')"
  by (simp add: release_key_verifies_def sample_release_def sample_pin_def sample_ed_def)

lemmas host_eval =
  verifyBody_def sample_plain sample_signed_revision_def sample_revision_def sample_authorization_def sample_trust_def
  sample_Hash sample_operation_def Let_def

section \<open>Properties\<close>

text \<open>
  A path is trusted exactly when no part of it can be changed by another user. \<open>TrustedPath\<close>
  accepts an absolute path if and only if, for the cleaned path, every ancestor from the root to the
  file itself exists, belongs to root, is not writable by group or others and is not a symbolic link.
\<close>

theorem TrustedPath_protects:
  "TrustedPath lst p = None \<longleftrightarrow> IsAbs p \<and>
     (\<forall>k \<le> length (components p). \<exists>st. lst (render True (take k (components p))) = Some st \<and>
        fs_uid st = 0 \<and> fs_perm st AND 18 = 0 \<and> \<not> fs_symlink st)"
  by (simp add: TrustedPath_def trusted_walk_None protected_stat_def)

theorem TrustedPath_protects_witness:
  "TrustedPath (\<lambda>p. if p \<in> {''/'', ''/etc'', ''/etc/k''} then Some \<lparr>fs_uid = 0, fs_perm = 420, fs_symlink = False\<rparr> else None)
     ''/etc/./k'' = None"
proof -
  have c: "components ''/etc/./k'' = [''etc'', ''k'']" by (simp add: components_def IsAbs_def)
  have "IsAbs ''/etc/./k''" by (simp add: IsAbs_def)
  moreover have "(420 :: nat) AND 18 = 0" by (simp add: and_nat_rec)
  ultimately show ?thesis
    unfolding TrustedPath_protects c by (auto simp: le_Suc_eq numeral_2_eq_2 render_def)
qed

text \<open>
  C17: nothing is authorized on the host without the panel's signature. A revision accepted by
  \<open>VerifyRevision\<close> carries a signature that verifies under a panel key of the local trust pin, over a
  body that is the encoding of exactly this revision; its hash is the hash of exactly its settings;
  its authorization names this agent, service, revision, hash, generation and privilege mode, is
  within its validity, and lists distinct known actions that do not both install and remove the
  helper.
\<close>

theorem VerifyRevision_sound:
  assumes "VerifyRevision ed unm sha pm now t revision = None"
  shows "\<exists>r a env j b. revision = Some r \<and> pr_Authorization r = Some a \<and> pr_Signature r = Some env \<and>
    (\<exists>sg \<in> set (se_Signatures env). vouched ed (New (Trust_Identity t) None) now (se_Payload env) sg) \<and>
    unm (se_Payload env) = Some j \<and> si_Body j = b \<and> pm (r\<lparr>pr_Signature := None\<rparr>) = Some b \<and>
    si_InstructionType j = revision_kind \<and> si_AgentId j = tr_AgentID t \<and> pr_AgentId r = tr_AgentID t \<and>
    pr_ConfigHash r = Hash sha (settingsFromProto (pr_Privileged r)) \<and> \<not> pr_InstallationBaseline r \<and>
    ha_AgentId a = tr_AgentID t \<and> ha_ServiceId a = tr_ServiceID t \<and> ha_Revision a = pr_Revision r \<and>
    ha_ConfigHash a = pr_ConfigHash r \<and> ha_ApprovalGeneration a = pr_ApprovalGeneration r \<and>
    ha_TargetPrivilegeMode a = RequiredPrivilegeMode (settingsFromProto (pr_Privileged r)) \<and>
    (\<exists>issued expires. ha_IssuedAt a = TsValid issued \<and> ha_ExpiresAt a = TsValid expires \<and>
       issued \<le> now + minute \<and> now < expires \<and> issued < expires) \<and>
    set (ha_Actions a) \<subseteq> {1, 2, 3} \<and> distinct (ha_Actions a) \<and>
    \<not> (2 \<in> set (ha_Actions a) \<and> 3 \<in> set (ha_Actions a))"
proof -
  obtain r where r: "revision = Some r" and
    S: "VerifySignedRevision ed unm sha pm now t (Some r) = None"
    using assms by (cases revision) (auto simp: VerifyRevision_def VerifySignedRevision_def split: option.splits)
  from S have "verifyBody ed unm now t (pr_Signature r) (pr_Unknown r) (pm (r\<lparr>pr_Signature := None\<rparr>)) revision_kind = None"
    and "pr_AgentId r = tr_AgentID t" "pr_ConfigHash r = Hash sha (settingsFromProto (pr_Privileged r))"
    by (auto simp: VerifySignedRevision_def Let_def split: option.splits if_splits)
  with verifyBody_None [OF this(1)] assms show ?thesis
    unfolding r VerifyRevision_def S
    by (auto simp: action_loop_None not_less split: option.splits if_splits timestamp.splits)
qed

theorem VerifyRevision_sound_witness:
  "VerifyRevision sample_ed (\<lambda>_. Some (sample_instruction\<lparr>si_InstructionType := revision_kind, si_Body := ''m''\<rparr>))
      (\<lambda>_. ''h'') (\<lambda>_. Some ''m'') 10 sample_trust (Some sample_signed_revision) = None \<and>
   pr_ConfigHash sample_signed_revision = Hash (\<lambda>_. ''h'') (settingsFromProto (pr_Privileged sample_signed_revision))"
proof -
  have b: "verifyBody sample_ed (\<lambda>_. Some (sample_instruction\<lparr>si_InstructionType := revision_kind, si_Body := ''m''\<rparr>)) 10
      sample_trust (Some sample_envelope) [] (Some ''m'') revision_kind = None"
    using sample_plain [where k = revision_kind and b = "''m''"] by (simp add: verifyBody_def instruction_of_def)
  have V: "VerifyRevision sample_ed (\<lambda>_. Some (sample_instruction\<lparr>si_InstructionType := revision_kind, si_Body := ''m''\<rparr>))
      (\<lambda>_. ''h'') (\<lambda>_. Some ''m'') 10 sample_trust (Some sample_signed_revision) = None"
    unfolding VerifyRevision_def VerifySignedRevision_def
    by (simp add: b sample_signed_revision_def sample_revision_def sample_Hash)
      (simp add: sample_trust_def sample_authorization_def sample_config_def Settings_Proto_def Settings_zero_def settingsFromProto_def)
  from VerifyRevision_sound [OF V] V show ?thesis by auto
qed

text \<open>
  A host operation runs only under the panel's lease for this very authorization. An accepted
  operation carries a pinned signature over its own encoding, has the expected identifier and
  exactly the given authorization; its lease does not outlive the authorization, and a phase that
  still has to act is within the lease.
\<close>

theorem VerifyOperation_sound:
  assumes "VerifyOperation ed unm pm now t operation a i = None"
  shows "\<exists>op env j lease. operation = Some op \<and> ho_Signature op = Some env \<and>
    (\<exists>sg \<in> set (se_Signatures env). vouched ed (New (Trust_Identity t) None) now (se_Payload env) sg) \<and>
    unm (se_Payload env) = Some j \<and> pm (op\<lparr>ho_Signature := None\<rparr>) = Some (si_Body j) \<and>
    si_InstructionType j = operation_kind \<and>
    ho_OperationId op = i \<and> i \<noteq> [] \<and> ho_Authorization op = a \<and> ho_LeaseExpiresAt op = TsValid lease \<and>
    (ho_Phase op < 3 \<longrightarrow> now < lease) \<and> (\<forall>au. a = Some au \<longrightarrow> lease \<le> AsTime (ha_ExpiresAt au))"
proof -
  obtain op where op: "operation = Some op"
    using assms by (cases operation) (auto simp: VerifyOperation_def)
  then have "verifyBody ed unm now t (ho_Signature op) (ho_Unknown op) (pm (op\<lparr>ho_Signature := None\<rparr>)) operation_kind = None"
    using assms by (auto simp: VerifyOperation_def Let_def split: option.splits)
  with verifyBody_None [OF this] assms show ?thesis
    by (auto simp: op VerifyOperation_def not_less split: option.splits if_splits timestamp.splits)
qed

theorem VerifyOperation_sound_witness:
  "VerifyOperation sample_ed (\<lambda>_. Some (sample_instruction\<lparr>si_InstructionType := operation_kind, si_Body := ''m''\<rparr>))
      (\<lambda>_. Some ''m'') 10 sample_trust (Some sample_operation) (Some sample_authorization) ''o1'' = None \<and>
   ho_Authorization sample_operation = Some sample_authorization"
proof -
  have b: "verifyBody sample_ed (\<lambda>_. Some (sample_instruction\<lparr>si_InstructionType := operation_kind, si_Body := ''m''\<rparr>)) 10
      sample_trust (Some sample_envelope) [] (Some ''m'') operation_kind = None"
    using sample_plain [where k = operation_kind and b = "''m''"] by (simp add: verifyBody_def instruction_of_def)
  have V: "VerifyOperation sample_ed (\<lambda>_. Some (sample_instruction\<lparr>si_InstructionType := operation_kind, si_Body := ''m''\<rparr>))
      (\<lambda>_. Some ''m'') 10 sample_trust (Some sample_operation) (Some sample_authorization) ''o1'' = None"
    unfolding VerifyOperation_def
    by (simp add: b sample_operation_def) (simp add: sample_authorization_def AsTime_def)
  from VerifyOperation_sound [OF V] V show ?thesis by auto
qed

text \<open>
  Only a published helper is installed. An accepted release has a signature by a release key of
  the pin that is valid now, over the canonical encoding of the returned payload; the payload names
  the helper for this platform and the SHA-256 of exactly the binary.
\<close>

theorem VerifyRelease_sound:
  assumes "VerifyRelease ed unj enj sha os arch now t m binary = Inr p"
  shows "(\<exists>k \<in> set (ReleaseKeys t). \<exists>key. b64_decode (pk_Value k) = Some key \<and> length key = 32 \<and>
      pk_KeyID k = rl_KeyID m \<and> pk_NotBefore k \<le> now \<and> (\<forall>na. pk_NotAfter k = Some na \<longrightarrow> now < na) \<and>
      ed key (rl_Payload m) (rl_Signature m)) \<and>
    unj (rl_Payload m) = Some p \<and> enj p = Some (rl_Payload m) \<and> rp_Component p = ''komari-agent-rescue'' \<and>
    rp_OS p = os \<and> rp_Arch p = arch \<and> rp_SHA256 p = hex_encode (sha binary)"
  using assms
  by (fastforce simp: VerifyRelease_def release_key_verifies_def split: if_splits option.splits)

theorem VerifyRelease_sound_witness:
  "VerifyRelease sample_ed (\<lambda>_. Some sample_payload) (\<lambda>_. Some ''p'') (\<lambda>_. ''h'') ''linux'' ''amd64'' 10
      sample_trust sample_release ''bin'' = Inr sample_payload \<and> rp_SHA256 sample_payload = hex_encode ''h''"
proof -
  have "hex_encode ''h'' = ''68''" by code_simp
  then have V: "VerifyRelease sample_ed (\<lambda>_. Some sample_payload) (\<lambda>_. Some ''p'') (\<lambda>_. ''h'') ''linux'' ''amd64'' 10
      sample_trust sample_release ''bin'' = Inr sample_payload"
    using sample_release_key by (simp add: VerifyRelease_def sample_payload_def) (simp add: sample_trust_def sample_release_def)
  from VerifyRelease_sound [OF V] V show ?thesis by simp
qed

end
