(* ===== verification/RuntimeConfig.thy ===== *)
theory RuntimeConfig
  imports Credentials
begin

text \<open>
  \<open>core/runtimeconfig\<close> (\<open>store.go\<close>, \<open>receipt.go\<close>): the settings a panel may change online, kept
  with the previous snapshot and an outbox of receipts in one file. The protobuf message is given
  by its fields, the numbers of the fields that are set and the unknown bytes; the JSON encoder of
  the persisted state is a parameter. Copies made by \<open>clone\<close> and \<open>clonePayloads\<close> are invisible in
  a model without shared mutable memory.
\<close>

section \<open>Data\<close>

abbreviation minimumReportInterval :: duration where
  "minimumReportInterval \<equiv> second"

abbreviation maximumReportInterval :: duration where
  "maximumReportInterval \<equiv> 5 * minute"

record Snapshot =
  sn_Revision :: u64
  MemoryIncludeCache :: bool
  sn_EnableGPU :: bool
  DetailedGPU :: bool
  IncludeNics :: "string list"
  ExcludeNics :: "string list"
  IncludeMountpoints :: "string list"
  ReportInterval :: duration
  TrafficResetDay :: u32
  sn_RemoteControlEnabled :: bool
  GetIPAddrFromNIC :: bool

record persistedState =
  Receipts :: "bytes list"
  Current :: Snapshot
  PreviousSnapshot :: "Snapshot option"

record rt_store =
  rt_path :: path
  rt_current :: Snapshot
  rt_previous :: "Snapshot option"
  rt_receipts :: "bytes list"

text \<open>A \<open>google.protobuf.Duration\<close>: invalid, or valid with what \<open>AsDuration\<close> returns.\<close>

datatype duration_msg = DurInvalid | DurValid duration

record RuntimeConfig =
  rm_MemoryIncludeCache :: "bool option"
  rm_EnableGpu :: "bool option"
  rm_DetailedGpu :: "bool option"
  rm_IncludeNics :: "string list"
  rm_ExcludeNics :: "string list"
  rm_IncludeMountpoints :: "string list"
  rm_ReportInterval :: "duration_msg option"
  rm_TrafficResetDay :: "u32 option"
  rm_RemoteControlEnabled :: "bool option"
  rm_GetIpAddrFromNic :: "bool option"
  rm_SetFields :: "nat list"
  rm_Unknown :: bytes

record DesiredConfig =
  dc_Revision :: u64
  dc_Runtime :: "RuntimeConfig option"

datatype rt_error =
    DesiredRequired
  | RevisionZero
  | StaleRevision
  | ReceiptOutboxFull
  | SameRevisionDiffers
  | UnknownFields
  | UnsupportedFields
  | GpuInstallOnly
  | RemoteControlInstallOnly
  | InvalidInterval
  | IntervalOutOfRange
  | ResetDayOutOfRange
  | ListLimitExceeded
  | NoPreviousSnapshot
  | EncodeRuntimeFailed
  | PersistRuntimeFailed
  | BackupFailed
  | LoadFailed

section \<open>Validation and conversion\<close>

definition too_long :: "string list \<Rightarrow> bool" where
  "too_long values \<longleftrightarrow> length values > 128 \<or> (\<exists>item \<in> set values. length item > 512)"

definition validate :: "Snapshot \<Rightarrow> rt_error option" where
  "validate value =
     (if ReportInterval value < minimumReportInterval \<or> ReportInterval value > maximumReportInterval
      then Some IntervalOutOfRange
      else if TrafficResetDay value > 31 then Some ResetDayOutOfRange
      else if too_long (IncludeNics value) \<or> too_long (ExcludeNics value) \<or> too_long (IncludeMountpoints value)
      then Some ListLimitExceeded
      else None)"

definition clean :: "string list \<Rightarrow> string list" where
  "clean values = filter (\<lambda>v. v \<noteq> []) (map TrimSpace values)"

definition split :: "string \<Rightarrow> char \<Rightarrow> string list" where
  "split value separator = (if TrimSpace value = [] then [] else clean (split_at separator value))"

text \<open>The command-line settings that seed the first snapshot (\<open>cmd/flags\<close>).\<close>

record flag_config =
  fl_Token :: string
  fl_DisableRemoteControl :: bool
  fl_MemoryIncludeCache :: bool
  fl_EnableGPU :: bool
  fl_DetailedGPU :: bool
  fl_IncludeNics :: string
  fl_ExcludeNics :: string
  fl_IncludeMountpoints :: string
  fl_MonthRotate :: int
  fl_GetIpAddrFromNic :: bool

text \<open>\<open>scaled\<close> is the floating-point product \<open>Interval * float64(time.Second)\<close> as a duration.\<close>

definition FromFlags :: "duration \<Rightarrow> flag_config \<Rightarrow> Snapshot" where
  "FromFlags scaled config =
     (let interval = (if scaled = 0 then 3 * second else scaled);
          remoteControl = (fl_Token config \<noteq> [] \<and> \<not> fl_DisableRemoteControl config)
      in \<lparr>sn_Revision = 0, MemoryIncludeCache = fl_MemoryIncludeCache config,
          sn_EnableGPU = fl_EnableGPU config, DetailedGPU = fl_DetailedGPU config,
          IncludeNics = split (fl_IncludeNics config) CHR '','',
          ExcludeNics = split (fl_ExcludeNics config) CHR '','',
          IncludeMountpoints = split (fl_IncludeMountpoints config) CHR '';'',
          ReportInterval = interval, TrafficResetDay = word_of_int (max (fl_MonthRotate config) 0),
          sn_RemoteControlEnabled = remoteControl, GetIPAddrFromNIC = fl_GetIpAddrFromNic config\<rparr>)"

definition override :: "'a option \<Rightarrow> 'a \<Rightarrow> 'a" where
  "override new old = (case new of None \<Rightarrow> old | Some x \<Rightarrow> x)"

definition fromProto :: "Snapshot \<Rightarrow> u64 \<Rightarrow> RuntimeConfig \<Rightarrow> rt_error + Snapshot" where
  "fromProto base revision value =
     (if rm_Unknown value \<noteq> [] then Inl UnknownFields
      else if \<exists>n \<in> set (rm_SetFields value). n \<notin> {1, 3, 4, 5, 6, 7, 8, 19} then Inl UnsupportedFields
      else
        (let result = base\<lparr>sn_Revision := revision,
               MemoryIncludeCache := override (rm_MemoryIncludeCache value) (MemoryIncludeCache base)\<rparr> in
         if rm_EnableGpu value \<noteq> None then Inl GpuInstallOnly
         else
           (let result = result
                  \<lparr>DetailedGPU := override (rm_DetailedGpu value) (DetailedGPU result),
                   IncludeNics := clean (rm_IncludeNics value),
                   ExcludeNics := clean (rm_ExcludeNics value),
                   IncludeMountpoints := clean (rm_IncludeMountpoints value),
                   TrafficResetDay := override (rm_TrafficResetDay value) (TrafficResetDay result),
                   GetIPAddrFromNIC := override (rm_GetIpAddrFromNic value) (GetIPAddrFromNIC result)\<rparr> in
            if rm_RemoteControlEnabled value \<noteq> None then Inl RemoteControlInstallOnly
            else if rm_ReportInterval value = Some DurInvalid then Inl InvalidInterval
            else
              (let result = (case rm_ReportInterval value of
                     Some (DurValid i) \<Rightarrow> result\<lparr>ReportInterval := i\<rparr>
                   | _ \<Rightarrow> result) in
               case validate result of
                 Some err \<Rightarrow> Inl err
               | None \<Rightarrow> Inr result))))"

section \<open>The file\<close>

text \<open>\<open>persist\<close> uses a second temporary file, for the backup of the file it replaces.\<close>

record 'c backup_env = "'c env" +
  env_backup :: path

definition rt_pre :: "path \<Rightarrow> path \<Rightarrow> 'c \<Rightarrow> 'c fs_op list" where
  "rt_pre t p c = [CreateTemp t, Chmod t mode_0600, Write t c, Sync t, Close t]"

definition rt_post :: "path \<Rightarrow> 'c fs_op list" where
  "rt_post p = [SyncDirectory p]"

definition bak :: "path \<Rightarrow> path" where
  "bak p = p @ ''.bak''"

definition writeBackup :: "('c fs_op \<Rightarrow> bool) \<Rightarrow> path \<Rightarrow> path \<Rightarrow> 'c option \<Rightarrow> 'c disk \<Rightarrow> bool \<times> 'c disk" where
  "writeBackup f b q existing d =
     (case run_deferred f
        ([CreateTemp b, Chmod b mode_0600, (case existing of Some c \<Rightarrow> Write b c | None \<Rightarrow> WriteRaw b),
          Sync b, Close b, Rename b q]) b d of
        (r, d') \<Rightarrow> (r = None, d'))"

definition rt_replace :: "('c fs_op \<Rightarrow> bool) \<Rightarrow> path \<Rightarrow> path \<Rightarrow> 'c disk \<Rightarrow> rt_error option \<times> 'c disk" where
  "rt_replace f t p d =
     (case run_deferred f (Rename t p # rt_post p) t d of
        (None, d') \<Rightarrow> (None, d')
      | (Some _, d') \<Rightarrow> (Some PersistRuntimeFailed, d'))"

definition rt_persist ::
  "(persistedState \<Rightarrow> 'c option) \<Rightarrow> 'c backup_env \<Rightarrow> path \<Rightarrow> persistedState \<Rightarrow> 'c disk \<Rightarrow>
     rt_error option \<times> 'c disk" where
  "rt_persist enc e p state d =
     (let f = env_faults e; t = env_tmp e in
      if p = [] then (None, d)
      else if f (MkdirAll p 448) then (Some PersistRuntimeFailed, d)
      else case enc state of
        None \<Rightarrow> (Some EncodeRuntimeFailed, d)
      | Some c \<Rightarrow>
          (case run f (rt_pre t p c) d of
             (Some _, d1) \<Rightarrow> (Some PersistRuntimeFailed, effect (Remove t) d1)
           | (None, d1) \<Rightarrow>
               (case read_file f p d1 of
                  Inl ReadFailed \<Rightarrow> (Some BackupFailed, effect (Remove t) d1)
                | Inl NotExist \<Rightarrow> rt_replace f t p d1
                | Inr existing \<Rightarrow>
                    (case writeBackup f (env_backup e) (bak p) existing d1 of
                       (False, d2) \<Rightarrow> (Some BackupFailed, effect (Remove t) d2)
                     | (True, d2) \<Rightarrow> rt_replace f t p d2))))"

definition rt_load ::
  "('c \<Rightarrow> persistedState option) \<Rightarrow> ('c fs_op \<Rightarrow> bool) \<Rightarrow> rt_store \<Rightarrow> 'c disk \<Rightarrow> rt_error + rt_store" where
  "rt_load dec f s d =
     (case read_file f (rt_path s) d of
        Inl NotExist \<Rightarrow> Inr s
      | Inl ReadFailed \<Rightarrow> Inl LoadFailed
      | Inr None \<Rightarrow> Inl LoadFailed
      | Inr (Some c) \<Rightarrow>
          (case dec c of
             None \<Rightarrow> Inl LoadFailed
           | Some state \<Rightarrow>
               (case validate (Current state) of
                  Some err \<Rightarrow> Inl err
                | None \<Rightarrow> Inr (s\<lparr>rt_current := Current state, rt_previous := PreviousSnapshot state,
                    rt_receipts := Receipts state\<rparr>))))"

definition rt_New ::
  "path \<Rightarrow> ('c \<Rightarrow> persistedState option) \<Rightarrow> ('c fs_op \<Rightarrow> bool) \<Rightarrow> Snapshot \<Rightarrow> path \<Rightarrow> 'c disk \<Rightarrow>
     rt_error + rt_store" where
  "rt_New DefaultStatePath dec f initial p d =
     (let p = (if p = [] then DefaultStatePath else p) in
      case validate initial of
        Some err \<Rightarrow> Inl err
      | None \<Rightarrow> rt_load dec f \<lparr>rt_path = p, rt_current = initial, rt_previous = None, rt_receipts = []\<rparr> d)"

section \<open>Operations\<close>

definition rt_image :: "rt_store \<Rightarrow> persistedState" where
  "rt_image s = \<lparr>Receipts = rt_receipts s, Current = rt_current s, PreviousSnapshot = rt_previous s\<rparr>"

text \<open>Every operation computes the next store, writes its image and only then changes the memory.\<close>

definition rt_commit ::
  "(persistedState \<Rightarrow> 'c option) \<Rightarrow> 'c backup_env \<Rightarrow> rt_store \<Rightarrow> rt_store \<Rightarrow> 'c disk \<Rightarrow>
     (rt_error + unit) \<times> rt_store \<times> 'c disk" where
  "rt_commit enc e next s d =
     (case rt_persist enc e (rt_path s) (rt_image next) d of
        (Some err, d') \<Rightarrow> (Inl err, s, d')
      | (None, d') \<Rightarrow> (Inr (), next, d'))"

definition ApplyWithReceipt ::
  "(persistedState \<Rightarrow> 'c option) \<Rightarrow> 'c backup_env \<Rightarrow> DesiredConfig option \<Rightarrow> bytes \<Rightarrow> rt_store \<Rightarrow> 'c disk \<Rightarrow>
     (rt_error + unit) \<times> rt_store \<times> 'c disk" where
  "ApplyWithReceipt enc e desired receipt s d =
     (case desired of
        None \<Rightarrow> (Inl DesiredRequired, s, d)
      | Some dc \<Rightarrow>
          (case dc_Runtime dc of
             None \<Rightarrow> (Inl DesiredRequired, s, d)
           | Some value \<Rightarrow>
               if dc_Revision dc = 0 then (Inl RevisionZero, s, d)
               else if dc_Revision dc < sn_Revision (rt_current s) then (Inl StaleRevision, s, d)
               else if receipt \<noteq> [] \<and> length (rt_receipts s) \<ge> 1024 then (Inl ReceiptOutboxFull, s, d)
               else case fromProto (rt_current s) (dc_Revision dc) value of
                 Inl err \<Rightarrow> (Inl err, s, d)
               | Inr next \<Rightarrow>
                   if dc_Revision dc = sn_Revision (rt_current s) then
                     (if next \<noteq> rt_current s then (Inl SameRevisionDiffers, s, d)
                      else if receipt = [] then (Inr (), s, d)
                      else rt_commit enc e (s\<lparr>rt_receipts := rt_receipts s @ [receipt]\<rparr>) s d)
                   else
                     rt_commit enc e
                       (s\<lparr>rt_previous := Some (rt_current s), rt_current := next,
                          rt_receipts := (if receipt \<noteq> [] then rt_receipts s @ [receipt] else rt_receipts s)\<rparr>) s d))"

definition rt_Rollback ::
  "(persistedState \<Rightarrow> 'c option) \<Rightarrow> 'c backup_env \<Rightarrow> rt_store \<Rightarrow> 'c disk \<Rightarrow>
     (rt_error + unit) \<times> rt_store \<times> 'c disk" where
  "rt_Rollback enc e s d =
     (case rt_previous s of
        None \<Rightarrow> (Inl NoPreviousSnapshot, s, d)
      | Some rolledBack \<Rightarrow>
          rt_commit enc e (s\<lparr>rt_previous := Some (rt_current s), rt_current := rolledBack\<rparr>) s d)"

definition rt_Receipt :: "rt_store \<Rightarrow> bytes" where
  "rt_Receipt s = (case rt_receipts s of [] \<Rightarrow> [] | r # _ \<Rightarrow> r)"

definition QueueReceipt ::
  "(persistedState \<Rightarrow> 'c option) \<Rightarrow> 'c backup_env \<Rightarrow> bytes \<Rightarrow> rt_store \<Rightarrow> 'c disk \<Rightarrow>
     (rt_error + unit) \<times> rt_store \<times> 'c disk" where
  "QueueReceipt enc e payload s d =
     (if length (rt_receipts s) \<ge> 1024 then (Inl ReceiptOutboxFull, s, d)
      else rt_commit enc e (s\<lparr>rt_receipts := rt_receipts s @ [payload]\<rparr>) s d)"

definition rt_FinishReceipt ::
  "(persistedState \<Rightarrow> 'c option) \<Rightarrow> 'c backup_env \<Rightarrow> bytes \<Rightarrow> rt_store \<Rightarrow> 'c disk \<Rightarrow>
     (rt_error + unit) \<times> rt_store \<times> 'c disk" where
  "rt_FinishReceipt enc e payload s d =
     (case rt_receipts s of
        [] \<Rightarrow> (Inr (), s, d)
      | r # rest \<Rightarrow>
          if payload \<noteq> r then (Inr (), s, d)
          else rt_commit enc e (s\<lparr>rt_receipts := rest\<rparr>) s d)"

datatype rt_op =
    RtApply "DesiredConfig option" bytes
  | RtRollback
  | RtQueue bytes
  | RtFinish bytes

fun rt_apply ::
  "(persistedState \<Rightarrow> 'c option) \<Rightarrow> 'c backup_env \<Rightarrow> rt_op \<Rightarrow> rt_store \<Rightarrow> 'c disk \<Rightarrow>
     (rt_error + unit) \<times> rt_store \<times> 'c disk" where
  "rt_apply enc e (RtApply desired receipt) s d = ApplyWithReceipt enc e desired receipt s d"
| "rt_apply enc e RtRollback s d = rt_Rollback enc e s d"
| "rt_apply enc e (RtQueue payload) s d = QueueReceipt enc e payload s d"
| "rt_apply enc e (RtFinish payload) s d = rt_FinishReceipt enc e payload s d"

section \<open>Facts about the file\<close>

text \<open>
  An environment fits a store when the temporary names are fresh and distinct and the directory
  flush after the rename does not fail.
\<close>

definition rt_names :: "'c backup_env \<Rightarrow> path \<Rightarrow> bool" where
  "rt_names e p \<longleftrightarrow> env_tmp e \<notin> {p, bak p, env_backup e} \<and> env_backup e \<noteq> p"

definition rt_fit :: "'c backup_env \<Rightarrow> path \<Rightarrow> bool" where
  "rt_fit e p \<longleftrightarrow> rt_names e p \<and> \<not> env_faults e (SyncDirectory p)"

lemma bak_neq [simp]: "bak p \<noteq> p" "p \<noteq> bak p"
  by (simp_all add: bak_def)

lemma writeBackup_disk:
  assumes "writeBackup f b q x d = (ok, d')"
  shows "(ok \<longrightarrow> d' q = (if q = b then None else Some (Regular x mode_0600 (-1, -1)))) \<and> (\<forall>r. r \<noteq> b \<longrightarrow> r \<noteq> q \<longrightarrow> d' r = d r)"
  using assms
  by (cases x) (auto simp: writeBackup_def run_deferred_def op_fails_def split: if_splits)

lemma rt_replace_disk:
  assumes "rt_replace f t p d = (r, d')" and "t \<noteq> p"
  shows "(r = None \<longrightarrow> d' p = d t) \<and> (r \<noteq> None \<longrightarrow> d' p = d p \<or> d' p = d t \<and> f (SyncDirectory p)) \<and>
    (\<forall>q. q \<noteq> t \<longrightarrow> q \<noteq> p \<longrightarrow> d' q = d q)"
  using assms by (auto simp: rt_replace_def rt_post_def run_deferred_def op_fails_def split: if_splits)

lemma rt_pre_disk:
  assumes "run f (rt_pre t p c) d = (r, d')"
  shows "(\<forall>q. q \<noteq> t \<longrightarrow> d' q = d q) \<and> (r = None \<longrightarrow> d' t = Some (private_file c))"
  using assms by (auto simp: rt_pre_def op_fails_def private_file_def split: if_splits)

lemma rt_persist_disk:
  assumes "rt_names e p" and P: "rt_persist enc e p state d = (r, d')" and "p \<noteq> []"
  shows "(r = None \<longrightarrow> (\<exists>c. enc state = Some c \<and> d' p = Some (private_file c))) \<and>
    (r \<noteq> None \<longrightarrow> d' p = d p \<or> env_faults e (SyncDirectory p) \<and> (\<exists>c. enc state = Some c \<and> d' p = Some (private_file c))) \<and>
    (r = None \<longrightarrow> (\<forall>x m ow. d p = Some (Regular x m ow) \<longrightarrow> env_backup e \<noteq> bak p \<longrightarrow> d' (bak p) = Some (Regular x mode_0600 (-1, -1)))) \<and>
    (\<forall>q. q \<notin> {p, bak p, env_tmp e, env_backup e} \<longrightarrow> d' q = d q)"
proof -
  let ?f = "env_faults e" and ?t = "env_tmp e" and ?b = "env_backup e"
  have n: "?t \<noteq> p" "?t \<noteq> bak p" "?t \<noteq> ?b" "?b \<noteq> p"
    using assms(1) by (auto simp: rt_names_def)
  consider "r \<noteq> None" "d' p = d p" "\<forall>q. q \<notin> {p, bak p, ?t, ?b} \<longrightarrow> d' q = d q"
    | c d1 d2 where "enc state = Some c" "run ?f (rt_pre ?t p c) d = (None, d1)"
      "read_file ?f p d1 = Inl NotExist \<and> d2 = d1 \<or>
        (\<exists>x. read_file ?f p d1 = Inr x \<and> writeBackup ?f ?b (bak p) x d1 = (True, d2))"
      "rt_replace ?f ?t p d2 = (r, d')"
  proof (cases "\<exists>c d1. enc state = Some c \<and> run ?f (rt_pre ?t p c) d = (None, d1)")
    case False
    show ?thesis
    proof (cases "enc state")
      case None
      with P \<open>p \<noteq> []\<close> show ?thesis by (intro that(1)) (auto simp: rt_persist_def Let_def split: if_splits)
    next
      case (Some c)
      with False obtain x d1 where x: "run ?f (rt_pre ?t p c) d = (Some x, d1)" by (metis not_None_eq prod.exhaust)
      then show ?thesis
        using P Some \<open>p \<noteq> []\<close> rt_pre_disk [OF x] n
        by (intro that(1)) (auto simp: rt_persist_def Let_def split: if_splits)
    qed
  next
    case True
    then obtain c d1 where c: "enc state = Some c" "run ?f (rt_pre ?t p c) d = (None, d1)" by blast
    note D = rt_pre_disk [OF c(2)]
    show ?thesis
    proof (cases "?f (MkdirAll p 448)")
      case True
      then show ?thesis using P that(1) \<open>p \<noteq> []\<close> by (auto simp: rt_persist_def Let_def)
    next
      case False
      show ?thesis
      proof (cases "read_file ?f p d1")
        case (Inl a)
        then show ?thesis
          using P c D n that False \<open>p \<noteq> []\<close> by (cases a) (auto simp: rt_persist_def Let_def)
      next
        case (Inr x)
        obtain ok d2 where w: "writeBackup ?f ?b (bak p) x d1 = (ok, d2)" by force
        then show ?thesis
          using P c D n that False \<open>p \<noteq> []\<close> Inr writeBackup_disk [OF w] by (cases ok) (auto simp: rt_persist_def Let_def)
      qed
    qed
  qed
  then show ?thesis
  proof cases
    case (2 c d1 d2)
    note D = rt_pre_disk [OF 2(2)] and E = rt_replace_disk [OF 2(4) n(1)]
    have "d2 p = d p \<and> d2 ?t = Some (private_file c) \<and> (\<forall>q. q \<notin> {p, bak p, ?t, ?b} \<longrightarrow> d2 q = d q) \<and>
      (\<forall>x m ow. d p = Some (Regular x m ow) \<longrightarrow> ?b \<noteq> bak p \<longrightarrow> d2 (bak p) = Some (Regular x mode_0600 (-1, -1)))"
      using 2(3) D n by (auto dest!: writeBackup_disk simp: read_file_def split: if_splits option.splits node.splits)
    then show ?thesis using E 2(1) n by auto
  qed auto
qed
section \<open>Facts about operations\<close>

text \<open>What a successful operation that writes does to the store.\<close>

definition rt_moves :: "rt_op \<Rightarrow> rt_store \<Rightarrow> rt_store \<Rightarrow> bool" where
  "rt_moves a s s' \<longleftrightarrow> rt_path s' = rt_path s \<and>
     (case a of
        RtApply desired receipt \<Rightarrow>
          (\<exists>dc v. desired = Some dc \<and> dc_Runtime dc = Some v \<and> dc_Revision dc \<noteq> 0 \<and>
             fromProto (rt_current s) (dc_Revision dc) v = Inr (rt_current s') \<and>
             sn_Revision (rt_current s) \<le> dc_Revision dc \<and>
             (if dc_Revision dc = sn_Revision (rt_current s)
              then rt_current s' = rt_current s \<and> rt_previous s' = rt_previous s
              else rt_previous s' = Some (rt_current s)) \<and>
             (if receipt = [] then rt_receipts s' = rt_receipts s
              else length (rt_receipts s) < 1024 \<and> rt_receipts s' = rt_receipts s @ [receipt]))
      | RtRollback \<Rightarrow>
          rt_previous s = Some (rt_current s') \<and> rt_previous s' = Some (rt_current s) \<and> rt_receipts s' = rt_receipts s
      | RtQueue payload \<Rightarrow>
          rt_current s' = rt_current s \<and> rt_previous s' = rt_previous s \<and>
          length (rt_receipts s) < 1024 \<and> rt_receipts s' = rt_receipts s @ [payload]
      | RtFinish payload \<Rightarrow>
          rt_current s' = rt_current s \<and> rt_previous s' = rt_previous s \<and> rt_receipts s = payload # rt_receipts s')"

lemma rt_commit_cases:
  assumes "rt_commit enc e next s d = (r, s', d')"
  obtains err where "r = Inl err" "s' = s" "rt_persist enc e (rt_path s) (rt_image next) d = (Some err, d')"
  | "r = Inr ()" "s' = next" "rt_persist enc e (rt_path s) (rt_image next) d = (None, d')"
  using assms by (auto simp: rt_commit_def split: prod.splits option.splits)

lemma ApplyWithReceipt_cases:
  assumes A: "ApplyWithReceipt enc e desired receipt s d = (r, s', d')"
  shows "(\<exists>err. r = Inl err) \<and> s' = s \<and> d' = d \<or> r = Inr () \<and> s' = s \<and> d' = d \<or>
    (\<exists>next'. rt_moves (RtApply desired receipt) s next' \<and> rt_commit enc e next' s d = (r, s', d'))"
proof (cases "\<exists>dc v n. desired = Some dc \<and> dc_Runtime dc = Some v \<and> fromProto (rt_current s) (dc_Revision dc) v = Inr n")
  case False
  then show ?thesis
    using A by (auto simp: ApplyWithReceipt_def split: option.splits sum.splits if_splits)
next
  case True
  then obtain dc v n where n: "desired = Some dc" "dc_Runtime dc = Some v"
    "fromProto (rt_current s) (dc_Revision dc) v = Inr n" by blast
  define s2 where "s2 = (if dc_Revision dc = sn_Revision (rt_current s) then s\<lparr>rt_receipts := rt_receipts s @ [receipt]\<rparr>
    else s\<lparr>rt_previous := Some (rt_current s), rt_current := n,
           rt_receipts := (if receipt \<noteq> [] then rt_receipts s @ [receipt] else rt_receipts s)\<rparr>)"
  show ?thesis
  proof (cases "rt_commit enc e s2 s d = (r, s', d') \<and> rt_moves (RtApply desired receipt) s s2")
    case False
    have m: "rt_moves (RtApply desired receipt) s s2"
      if "dc_Revision dc \<noteq> 0" "\<not> dc_Revision dc < sn_Revision (rt_current s)"
        "\<not> (receipt \<noteq> [] \<and> length (rt_receipts s) \<ge> 1024)"
        "dc_Revision dc = sn_Revision (rt_current s) \<Longrightarrow> n = rt_current s \<and> receipt \<noteq> []"
      using that n by (auto simp: rt_moves_def s2_def)
    show ?thesis
      using A False m n unfolding ApplyWithReceipt_def
      by (auto simp: s2_def split: if_split_asm)
  qed blast
qed

lemma rt_apply_cases:
  assumes A: "rt_apply enc e a s d = (r, s', d')"
  obtains err where "r = Inl err" "s' = s" "d' = d"
  | "r = Inr ()" "s' = s" "d' = d"
  | next' where "rt_moves a s next'" "rt_commit enc e next' s d = (r, s', d')"
proof (cases a)
  case (RtApply desired receipt)
  with A have "ApplyWithReceipt enc e desired receipt s d = (r, s', d')" by simp
  from ApplyWithReceipt_cases [OF this] RtApply that show ?thesis by blast
next
  case RtRollback
  show ?thesis
  proof (cases "rt_previous s")
    case None
    with A RtRollback show ?thesis by (intro that(1) [of NoPreviousSnapshot]) (auto simp: rt_Rollback_def)
  next
    case (Some x)
    with A RtRollback have "rt_commit enc e (s\<lparr>rt_previous := Some (rt_current s), rt_current := x\<rparr>) s d = (r, s', d')"
      by (simp add: rt_Rollback_def)
    with Some RtRollback show ?thesis by (intro that(3)) (auto simp: rt_moves_def)
  qed
next
  case (RtQueue payload)
  show ?thesis
  proof (cases "length (rt_receipts s) \<ge> 1024")
    case True
    with A RtQueue show ?thesis by (intro that(1) [of ReceiptOutboxFull]) (auto simp: QueueReceipt_def)
  next
    case False
    with A RtQueue have "rt_commit enc e (s\<lparr>rt_receipts := rt_receipts s @ [payload]\<rparr>) s d = (r, s', d')"
      by (simp add: QueueReceipt_def)
    with False RtQueue show ?thesis by (intro that(3)) (auto simp: rt_moves_def)
  qed
next
  case (RtFinish payload)
  show ?thesis
  proof (cases "\<exists>rest. rt_receipts s = payload # rest")
    case False
    with A RtFinish show ?thesis by (intro that(2)) (auto simp: rt_FinishReceipt_def split: list.splits if_splits)
  next
    case True
    then obtain rest where rest: "rt_receipts s = payload # rest" ..
    with A RtFinish have "rt_commit enc e (s\<lparr>rt_receipts := rest\<rparr>) s d = (r, s', d')"
      by (simp add: rt_FinishReceipt_def)
    with rest RtFinish show ?thesis by (intro that(3)) (auto simp: rt_moves_def)
  qed
qed

lemma fromProto_Inr:
  assumes "fromProto base n v = Inr next"
  shows "validate next = None \<and> sn_Revision next = n \<and> sn_EnableGPU next = sn_EnableGPU base \<and>
    sn_RemoteControlEnabled next = sn_RemoteControlEnabled base"
  using assms by (auto simp: fromProto_def Let_def split: if_splits option.splits duration_msg.splits)

text \<open>The invariant of a store: valid snapshots and a bounded outbox.\<close>

definition rt_ok :: "rt_store \<Rightarrow> bool" where
  "rt_ok s \<longleftrightarrow> rt_path s \<noteq> [] \<and> validate (rt_current s) = None \<and>
     (\<forall>x. rt_previous s = Some x \<longrightarrow> validate x = None) \<and> length (rt_receipts s) \<le> 1024"

lemma rt_moves_ok: "rt_moves a s s' \<Longrightarrow> rt_ok s \<Longrightarrow> rt_ok s'"
  by (cases a) (auto simp: rt_moves_def rt_ok_def dest: fromProto_Inr split: if_splits)

definition rt_coherent :: "Snapshot \<Rightarrow> (persistedState \<Rightarrow> 'c option) \<Rightarrow> rt_store \<Rightarrow> 'c disk \<Rightarrow> bool" where
  "rt_coherent initial enc s d \<longleftrightarrow> rt_ok s \<and>
     (d (rt_path s) = None \<and> rt_current s = initial \<and> rt_previous s = None \<and> rt_receipts s = [] \<or>
      (\<exists>c. enc (rt_image s) = Some c \<and> d (rt_path s) = Some (private_file c)))"

definition rt_step ::
  "(persistedState \<Rightarrow> 'c option) \<Rightarrow> 'c backup_env \<Rightarrow> rt_op \<Rightarrow> rt_store \<Rightarrow> 'c disk \<Rightarrow> bool \<times> rt_store \<times> 'c disk" where
  "rt_step enc e a s d = flat (rt_apply enc e a s d)"

lemma rt_step_eq: "rt_step enc e a s d = (ok, s', d') \<Longrightarrow>
    \<exists>r. rt_apply enc e a s d = (r, s', d') \<and> (ok \<longleftrightarrow> r = Inr ())"
  by (auto simp: rt_step_def flat_def split: prod.splits sum.splits)

lemma rt_apply_refused: "rt_apply enc e a s d = (Inl err, s', d') \<Longrightarrow> s' = s"
  by (erule rt_apply_cases) (auto elim: rt_commit_cases)

lemma rt_apply_path: "rt_apply enc e a s d = (r, s', d') \<Longrightarrow> rt_path s' = rt_path s"
  by (erule rt_apply_cases) (auto elim!: rt_commit_cases simp: rt_moves_def)

lemma rt_apply_coherent:
  assumes fit: "rt_fit e (rt_path s)" and coh: "rt_coherent initial enc s d"
    and A: "rt_apply enc e a s d = (r, s', d')"
  shows "rt_coherent initial enc s' d'"
  using A
proof (cases rule: rt_apply_cases)
  case (3 next')
  have p: "rt_path s \<noteq> []" and ok: "rt_ok next'"
    using coh rt_moves_ok [OF 3(1)] by (auto simp: rt_coherent_def rt_ok_def)
  have path: "rt_path next' = rt_path s" using 3(1) by (simp add: rt_moves_def)
  note D = rt_persist_disk [of e "rt_path s" enc "rt_image next'" d, OF _ _ p]
  from 3(2) show ?thesis
    by (rule rt_commit_cases) (use D fit coh ok path in \<open>fastforce simp: rt_fit_def rt_coherent_def\<close>)+
qed (use coh in simp_all)

interpretation rtd: durable_store "rt_step enc" rt_path rt_fit "rt_coherent initial enc"
  for enc :: "persistedState \<Rightarrow> 'c option" and initial :: Snapshot
proof (unfold_locales, goal_cases)
  case (1 e a s d s' d')
  then obtain r where "rt_apply enc e a s d = (r, s', d')" "r \<noteq> Inr ()" using rt_step_eq by blast
  then show ?case by (cases r) (auto dest: rt_apply_refused)
next
  case (2 e a s d ok s' d')
  then show ?case by (auto dest!: rt_step_eq rt_apply_path)
next
  case (3 e s d a ok s' d')
  then show ?case by (auto dest!: rt_step_eq intro: rt_apply_coherent)
qed

text \<open>An invariant of every written change is an invariant of every history.\<close>

lemma rt_runs_relates:
  assumes refl: "\<And>s. R s s" and trans: "\<And>a b c. R a b \<Longrightarrow> R b c \<Longrightarrow> R a c"
    and step: "\<And>e a s s'. (e, a) \<in> set ys \<Longrightarrow> I s \<Longrightarrow> rt_moves a s s' \<Longrightarrow> R s s' \<and> I s'"
    and run: "durable_store.runs (rt_step enc) ys (s, d) = (s', d')" and I: "I s"
  shows "R s s' \<and> I s'"
  using step run I
proof (induction ys arbitrary: s d)
  case Nil
  then show ?case by (simp add: refl)
next
  case (Cons y ys)
  obtain e a where y: "y = (e, a)" by force
  obtain ok s1 d1 where st: "rt_step enc e a s d = (ok, s1, d1)" by (metis prod_cases3)
  then obtain r where "rt_apply enc e a s d = (r, s1, d1)" using rt_step_eq by blast
  then have "R s s1 \<and> I s1"
    by (rule rt_apply_cases) (use Cons.prems(1,3) refl in \<open>auto simp: y elim!: rt_commit_cases\<close>)
  moreover from this have "R s1 s' \<and> I s'"
    using Cons.IH [of s1 d1] Cons.prems(1,2) st by (auto simp: y)
  ultimately show ?case using trans by blast
qed

lemma rt_runs_invariant:
  assumes "\<And>a s s'. I s \<Longrightarrow> rt_moves a s s' \<Longrightarrow> I s'"
    and "durable_store.runs (rt_step enc) ys (s, d) = (s', d')" and "I s"
  shows "I s'"
  using rt_runs_relates [where R = "\<lambda>_ _. True" and I = I, OF _ _ _ assms(2,3)] assms(1) by blast
section \<open>Properties\<close>

lemma override_None [simp]: "override None x = x" and override_idem [simp]: "override n (override n x) = override n x"
  by (simp_all add: override_def split: option.splits)

lemma fromProto_fixed: "fromProto base n v = Inr next \<Longrightarrow> fromProto next n v = Inr next"
  by (auto simp: fromProto_def Let_def split: if_splits option.splits duration_msg.splits)

definition sample_snapshot :: Snapshot where
  "sample_snapshot = \<lparr>sn_Revision = 0, MemoryIncludeCache = False, sn_EnableGPU = False, DetailedGPU = False,
     IncludeNics = [], ExcludeNics = [], IncludeMountpoints = [], ReportInterval = 3 * second,
     TrafficResetDay = 1, sn_RemoteControlEnabled = True, GetIPAddrFromNIC = False\<rparr>"

definition sample_desired :: DesiredConfig where
  "sample_desired = \<lparr>dc_Revision = 4, dc_Runtime = Some
     \<lparr>rm_MemoryIncludeCache = Some True, rm_EnableGpu = None, rm_DetailedGpu = None, rm_IncludeNics = [],
      rm_ExcludeNics = [], rm_IncludeMountpoints = [], rm_ReportInterval = Some (DurValid (5 * second)),
      rm_TrafficResetDay = None, rm_RemoteControlEnabled = None, rm_GetIpAddrFromNic = None,
      rm_SetFields = [1, 7], rm_Unknown = []\<rparr>\<rparr>"

definition sample_rt :: rt_store where
  "sample_rt = \<lparr>rt_path = ''r'', rt_current = sample_snapshot, rt_previous = None, rt_receipts = []\<rparr>"

definition sample_rt_env :: "persistedState backup_env" where
  "sample_rt_env = \<lparr>env_faults = (\<lambda>_. False), env_tmp = ''t'', env_now = 7, env_backup = ''b''\<rparr>"

lemmas rt_eval =
  sample_snapshot_def sample_desired_def sample_rt_def sample_rt_env_def ApplyWithReceipt_def rt_commit_def
  rt_persist_def rt_pre_def rt_post_def rt_replace_def writeBackup_def run_deferred_def op_fails_def read_file_def
  fromProto_def validate_def too_long_def clean_def override_def Let_def

lemma sample_rt_coherent: "rt_coherent sample_snapshot enc sample_rt Map.empty"
  by (simp add: rt_coherent_def rt_ok_def sample_rt_def sample_snapshot_def validate_def too_long_def)

lemma sample_rt_fit: "rt_fit sample_rt_env ''r''"
  by (simp add: rt_fit_def rt_names_def sample_rt_env_def bak_def)

text \<open>
  C30: an agent restarts with the runtime configuration it had. After any history of deliveries,
  rollbacks and receipts with any file-system failures (the flush after the rename apart), opening
  the file again gives exactly the store in memory: snapshot, previous snapshot and receipts.
\<close>

theorem runtime_history_reopens:
  assumes codec: "\<forall>st c. enc st = Some c \<longrightarrow> dec c = Some st" and "validate initial = None"
    and fit: "\<forall>y \<in> set ys. rt_fit (fst y) (rt_path s)" and coh: "rt_coherent initial enc s d"
    and run: "durable_store.runs (rt_step enc) ys (s, d) = (s', d')"
  shows "rt_New DefaultStatePath dec (\<lambda>_. False) initial (rt_path s) d' = Inr s'"
proof -
  from rtd.runs_coherent [OF fit coh run] have "rt_coherent initial enc s' d'" "rt_path s' = rt_path s" by simp_all
  with codec assms(2) show ?thesis
    by (auto simp: rt_coherent_def rt_ok_def rt_New_def rt_load_def read_file_def private_file_def rt_image_def Let_def)
qed

theorem runtime_history_reopens_witness:
  "rt_New ''d'' Some (\<lambda>_. False) sample_snapshot ''r''
     (snd (durable_store.runs (rt_step Some) [(sample_rt_env, RtApply (Some sample_desired) ''ok''), (sample_rt_env, RtRollback)]
       (sample_rt, Map.empty))) =
   Inr (fst (durable_store.runs (rt_step Some) [(sample_rt_env, RtApply (Some sample_desired) ''ok''), (sample_rt_env, RtRollback)]
       (sample_rt, Map.empty)))"
proof -
  have "\<forall>y \<in> set [(sample_rt_env, RtApply (Some sample_desired) ''ok''), (sample_rt_env, RtRollback)].
      rt_fit (fst y) (rt_path sample_rt)"
    using sample_rt_fit by (simp add: sample_rt_def)
  moreover have "validate sample_snapshot = None" by (simp add: rt_eval)
  ultimately have "rt_New ''d'' Some (\<lambda>_. False) sample_snapshot (rt_path sample_rt)
     (snd (durable_store.runs (rt_step Some) [(sample_rt_env, RtApply (Some sample_desired) ''ok''), (sample_rt_env, RtRollback)]
       (sample_rt, Map.empty))) =
   Inr (fst (durable_store.runs (rt_step Some) [(sample_rt_env, RtApply (Some sample_desired) ''ok''), (sample_rt_env, RtRollback)]
       (sample_rt, Map.empty)))"
    by (intro runtime_history_reopens [OF _ _ _ sample_rt_coherent prod.collapse [symmetric]]) simp_all
  then show ?thesis by (simp add: sample_rt_def del: rtd.runs.simps)
qed

text \<open>
  C37: what is fixed at installation is never changed online. In any history, whatever the panel
  sends, the GPU and remote-control switches of the current and of the previous snapshot stay those
  the store started with, both snapshots stay valid and the outbox stays within its bound.
\<close>

theorem runtime_install_only:
  assumes "rt_ok s"
    and "\<forall>x. rt_previous s = Some x \<longrightarrow> sn_EnableGPU x = sn_EnableGPU (rt_current s) \<and>
      sn_RemoteControlEnabled x = sn_RemoteControlEnabled (rt_current s)"
    and run: "durable_store.runs (rt_step enc) ys (s, d) = (s', d')"
  shows "sn_EnableGPU (rt_current s') = sn_EnableGPU (rt_current s) \<and>
    sn_RemoteControlEnabled (rt_current s') = sn_RemoteControlEnabled (rt_current s) \<and>
    validate (rt_current s') = None \<and>
    (\<forall>x. rt_previous s' = Some x \<longrightarrow> sn_EnableGPU x = sn_EnableGPU (rt_current s) \<and>
      sn_RemoteControlEnabled x = sn_RemoteControlEnabled (rt_current s) \<and> validate x = None) \<and>
    length (rt_receipts s') \<le> 1024"
proof -
  define f where "f x = (sn_EnableGPU x, sn_RemoteControlEnabled x)" for x :: Snapshot
  let ?I = "\<lambda>z. rt_ok z \<and> f (rt_current z) = f (rt_current s) \<and>
      (\<forall>x. rt_previous z = Some x \<longrightarrow> f x = f (rt_current s))"
  have step: "?I z'" if I: "?I z" and m: "rt_moves a z z'" for a z z'
  proof -
    have "f (rt_current z') = f (rt_current s) \<and> (\<forall>x. rt_previous z' = Some x \<longrightarrow> f x = f (rt_current s))"
    proof (cases a)
      case (RtApply desired receipt)
      then obtain n v where P: "fromProto (rt_current z) n v = Inr (rt_current z')"
          "rt_previous z' \<in> {rt_previous z, Some (rt_current z)}"
        using m by (auto simp: rt_moves_def split: if_splits)
      have "f (rt_current z') = f (rt_current z)" using fromProto_Inr [OF P(1)] by (simp add: f_def)
      with P(2) I show ?thesis by auto
    next
      case RtRollback
      then have "rt_previous z = Some (rt_current z')" "rt_previous z' = Some (rt_current z)"
        using m by (simp_all add: rt_moves_def)
      with I show ?thesis by auto
    qed (use I m in \<open>auto simp: rt_moves_def\<close>)
    with rt_moves_ok [OF m] I show ?thesis by blast
  qed
  have I: "?I s" using assms(1,2) by (simp add: f_def)
  have "?I s'"
    by (rule rt_runs_invariant [where I = ?I, OF step run I])
  then show ?thesis by (simp add: rt_ok_def f_def)
qed

theorem runtime_install_only_witness:
  "let s' = fst (durable_store.runs (rt_step Some) [(sample_rt_env, RtApply (Some sample_desired) ''ok''), (sample_rt_env, RtRollback)]
       (sample_rt, Map.empty)) in
   sn_RemoteControlEnabled (rt_current s') = sn_RemoteControlEnabled (rt_current sample_rt) \<and>
   (\<exists>x. rt_previous s' = Some x \<and> sn_RemoteControlEnabled x = sn_RemoteControlEnabled (rt_current sample_rt))"
proof -
  have "rt_ok sample_rt" using sample_rt_coherent by (simp add: rt_coherent_def)
  have "rt_previous sample_rt = None" by (simp add: sample_rt_def)
  then have "\<forall>x. rt_previous sample_rt = Some x \<longrightarrow> sn_EnableGPU x = sn_EnableGPU (rt_current sample_rt) \<and>
      sn_RemoteControlEnabled x = sn_RemoteControlEnabled (rt_current sample_rt)" by simp
  note R = runtime_install_only [OF \<open>rt_ok sample_rt\<close> this prod.collapse [symmetric], where enc = Some]
  have "rt_previous (fst (durable_store.runs (rt_step Some) [(sample_rt_env, RtApply (Some sample_desired) ''ok''), (sample_rt_env, RtRollback)]
       (sample_rt, Map.empty))) \<noteq> None"
    by (simp add: rt_eval rt_step_def flat_def rt_Rollback_def rt_image_def private_file_def bak_def)
  with R show ?thesis by (auto simp: Let_def simp del: rtd.runs.simps)
qed

text \<open>
  Deliveries are ordered and idempotent. A successful application puts a valid snapshot of
  exactly the delivered revision in force; applying the same delivery again changes nothing; a
  delivery of that revision with another content, or of a lower revision, is refused and leaves the
  memory and the file as they are.
\<close>

theorem runtime_apply_idempotent:
  assumes A: "ApplyWithReceipt enc e (Some dc) receipt s d = (Inr (), s1, d1)"
  shows "sn_Revision (rt_current s1) = dc_Revision dc \<and> sn_Revision (rt_current s) \<le> dc_Revision dc \<and>
    validate (rt_current s1) = None \<and>
    ApplyWithReceipt enc e' (Some dc) [] s1 d1 = (Inr (), s1, d1) \<and>
    (\<forall>dc' v n. dc_Revision dc' = dc_Revision dc \<longrightarrow> dc_Runtime dc' = Some v \<longrightarrow>
       fromProto (rt_current s1) (dc_Revision dc) v = Inr n \<longrightarrow> n \<noteq> rt_current s1 \<longrightarrow>
       ApplyWithReceipt enc e' (Some dc') [] s1 d1 = (Inl SameRevisionDiffers, s1, d1)) \<and>
    (\<forall>dc' r'. dc_Revision dc' < dc_Revision dc \<longrightarrow>
       (\<exists>err. ApplyWithReceipt enc e' (Some dc') r' s1 d1 = (Inl err, s1, d1)))"
proof -
  obtain v where v: "dc_Runtime dc = Some v" "dc_Revision dc \<noteq> 0" "sn_Revision (rt_current s) \<le> dc_Revision dc"
      "fromProto (rt_current s) (dc_Revision dc) v = Inr (rt_current s1)"
    using A by (auto simp: ApplyWithReceipt_def rt_commit_def split: option.splits sum.splits if_splits prod.splits)
  from fromProto_Inr [OF v(4)] fromProto_fixed [OF v(4)] v show ?thesis
    by (auto simp: ApplyWithReceipt_def split: option.splits)
qed

theorem runtime_apply_idempotent_witness:
  "\<exists>s1 d1. ApplyWithReceipt Some sample_rt_env (Some sample_desired) ''ok'' sample_rt Map.empty = (Inr (), s1, d1) \<and>
     ApplyWithReceipt Some sample_rt_env (Some sample_desired) [] s1 d1 = (Inr (), s1, d1)"
proof -
  obtain s1 d1 where A: "ApplyWithReceipt Some sample_rt_env (Some sample_desired) ''ok'' sample_rt Map.empty = (Inr (), s1, d1)"
    by (simp add: rt_eval)
  from runtime_apply_idempotent [OF A] A show ?thesis by blast
qed

text \<open>
  No receipt is lost or overtaken. Through every history without a \<open>FinishReceipt\<close> of its
  payload a queued receipt stays in the outbox, with everything behind it in order and new receipts
  at the end; only receipts before it leave, from the front.
\<close>

theorem runtime_receipts_kept:
  assumes "\<forall>y \<in> set ys. snd y \<noteq> RtFinish p" and run: "durable_store.runs (rt_step enc) ys (s, d) = (s', d')"
    and "rt_receipts s = before @ p # behind"
  shows "\<exists>k more. rt_receipts s' = drop k before @ p # behind @ more"
proof -
  let ?R = "\<lambda>z z'. \<forall>b h. rt_receipts z = b @ p # h \<longrightarrow> (\<exists>k m. rt_receipts z' = drop k b @ p # h @ m)"
  have refl: "?R z z" for z by (metis append_Nil2 drop0)
  have trans: "?R z1 z2 \<Longrightarrow> ?R z2 z3 \<Longrightarrow> ?R z1 z3" for z1 z2 z3
  proof (intro allI impI)
    fix b h
    assume 1: "?R z1 z2" and 2: "?R z2 z3" and b: "rt_receipts z1 = b @ p # h"
    from 1 b obtain k m where "rt_receipts z2 = drop k b @ p # (h @ m)" by blast
    with 2 obtain k' m' where "rt_receipts z3 = drop k' (drop k b) @ p # (h @ m) @ m'" by blast
    then show "\<exists>k m. rt_receipts z3 = drop k b @ p # h @ m" by (metis append_assoc drop_drop)
  qed
  have step: "?R z z'" if "rt_moves a z z'" "a \<noteq> RtFinish p" for a z z'
  proof (intro allI impI)
    fix b h
    assume b: "rt_receipts z = b @ p # h"
    show "\<exists>k m. rt_receipts z' = drop k b @ p # h @ m"
    proof (cases "\<exists>m. rt_receipts z' = rt_receipts z @ m")
      case True
      with b show ?thesis by (metis append_assoc append_Cons drop0)
    next
      case False
      have "\<exists>m. rt_receipts z' = rt_receipts z @ m" if "\<forall>q. a \<noteq> RtFinish q"
        using \<open>rt_moves a z z'\<close> that by (cases a) (auto simp: rt_moves_def split: if_splits)
      with False obtain q where "a = RtFinish q" by blast
      with that(1) have "a = RtFinish q" "rt_receipts z = q # rt_receipts z'" by (simp_all add: rt_moves_def)
      with that(2) b have "rt_receipts z' = drop 1 b @ p # h @ []" by (cases b) auto
      then show ?thesis by blast
    qed
  qed
  have "?R s s' \<and> True"
    by (rule rt_runs_relates [where I = "\<lambda>_. True", OF refl trans _ run])
      (use step assms(1) in \<open>force+\<close>)
  with assms(3) show ?thesis by blast
qed

theorem runtime_receipts_kept_witness:
  "\<exists>k more. rt_receipts (fst (durable_store.runs (rt_step Some) [(sample_rt_env, RtFinish ''a''), (sample_rt_env, RtQueue ''c'')]
     (sample_rt\<lparr>rt_receipts := [''a'', ''b'']\<rparr>, Map.empty))) = drop k [''a''] @ ''b'' # [] @ more"
proof -
  have "\<forall>y \<in> set [(sample_rt_env, RtFinish ''a''), (sample_rt_env, RtQueue ''c'')]. snd y \<noteq> RtFinish ''b''" by simp
  from runtime_receipts_kept [OF this prod.collapse [symmetric], of "sample_rt\<lparr>rt_receipts := [''a'', ''b'']\<rparr>" "[''a'']" "[]"]
  show ?thesis by simp
qed

text \<open>
  The backup is the file that was replaced. When an operation changes the file of a store, the
  file \<open>.bak\<close> holds the former content; whatever fails, the file is either the old one or the
  complete new one.
\<close>

theorem runtime_backup:
  assumes names: "rt_names e (rt_path s)" "env_backup e \<noteq> bak (rt_path s)" "rt_path s \<noteq> []"
    and A: "rt_apply enc e a s d = (r, s', d')"
  shows "d' (rt_path s) = d (rt_path s) \<or>
    (\<exists>c next'. d' (rt_path s) = Some (private_file c) \<and> rt_moves a s next' \<and> enc (rt_image next') = Some c \<and>
      (r = Inr () \<longrightarrow> s' = next' \<and> (\<forall>x m ow. d (rt_path s) = Some (Regular x m ow) \<longrightarrow>
          d' (bak (rt_path s)) = Some (Regular x mode_0600 (-1, -1)))))"
  using A
proof (cases rule: rt_apply_cases)
  case (3 next')
  note D = rt_persist_disk [OF names(1) _ names(3)]
  from 3(2) show ?thesis
  proof (cases rule: rt_commit_cases)
    case (1 err)
    from D [OF 1(3)] 1 3(1) show ?thesis by auto
  next
    case 2
    from D [OF 2(3)] 2 3(1) names(2) show ?thesis by auto
  qed
qed simp_all

theorem runtime_backup_witness:
  "\<exists>r s' d'. rt_apply Some sample_rt_env (RtQueue ''p'') sample_rt [''r'' \<mapsto> private_file (rt_image sample_rt)] = (r, s', d') \<and>
     r = Inr () \<and> d' (bak ''r'') = Some (private_file (rt_image sample_rt))"
proof -
  obtain r s' d' where A: "rt_apply Some sample_rt_env (RtQueue ''p'') sample_rt [''r'' \<mapsto> private_file (rt_image sample_rt)] = (r, s', d')"
    by (metis prod_cases3)
  then have R: "r = Inr ()" "d' ''r'' \<noteq> Some (private_file (rt_image sample_rt))"
    by (auto simp: QueueReceipt_def rt_eval private_file_def rt_image_def bak_def)
  have p: "rt_path sample_rt = ''r''" by (simp add: sample_rt_def)
  have "rt_names sample_rt_env (rt_path sample_rt)" "env_backup sample_rt_env \<noteq> bak (rt_path sample_rt)"
    by (simp_all add: p rt_names_def sample_rt_env_def bak_def)
  from runtime_backup [OF this _ A] R have "d' (bak ''r'') = Some (private_file (rt_image sample_rt))"
    by (auto simp: p private_file_def)
  with A R(1) show ?thesis by blast
qed

end
