(* ===== verification/EffectiveConfig.thy ===== *)
theory EffectiveConfig
  imports HostPolicy RuntimeConfig
begin

text \<open>
  \<open>core/runtimeconfig/effective.go\<close> and \<open>core/capability/capability.go\<close>: the settings finally in
  force, after the runtime snapshot, the privileged store, the protected local policy and the
  command line have had their say, and the capabilities the agent reports and gates on. The
  explanatory maps \<open>Sources\<close> and \<open>Blocked\<close> are kept as association lists and the texts of errors as
  constants.
\<close>

section \<open>The policy as a gate\<close>

text \<open>\<open>manifestFile\<close> is the configured service manifest; \<open>decm\<close> and \<open>decp\<close> the JSON decoders.\<close>

definition CurrentPolicy ::
  "host_fs \<Rightarrow> (bytes \<Rightarrow> (Manifest \<times> bytes) option) \<Rightarrow> (bytes \<Rightarrow> (HostPolicy \<times> bytes) option) \<Rightarrow> path \<Rightarrow>
     host_error + HostPolicy" where
  "CurrentPolicy fs decm decp manifestFile =
     (case ReadManifest fs decm manifestFile of
        Inl err \<Rightarrow> Inl err
      | Inr m \<Rightarrow> ReadPolicy fs decp (Some m))"

definition PolicyAllows :: "Settings \<Rightarrow> HostPolicy option \<Rightarrow> bool" where
  "PolicyAllows settings policy =
     (case policy of
        None \<Rightarrow> False
      | Some p \<Rightarrow>
          RequiredPrivilegeMode settings = hp_PrivilegeMode p \<and>
          (\<not> RemoteControlEnabled settings \<or> AllowRemoteControl p \<and> \<not> ForceDenyRemoteControl p) \<and>
          (\<not> WebSSHEnabled settings \<or> AllowWebSSH p) \<and> (\<not> ExecutionEnabled settings \<or> AllowExecution p) \<and>
          (\<not> EnableGPU settings \<or> AllowGPU p) \<and>
          (\<not> RescueHelperEnabled settings \<or>
             AllowRescueHelper p \<and> \<not> ForceDenyRescueHelper p \<and> HelperInstalled p \<and> HelperAuthorized p))"

section \<open>Inspect\<close>

datatype source = BootstrapFlags | AppliedRuntime u64 | PrivilegedSnapshot | ProtectedRevision u64 | LocalForceDeny

datatype blocked_reason = NotBlocked | PolicyUnavailable | IdentityDiffers | ProtectedForceDeny | ActualIdentityDiffers

record EffectiveConfig =
  ec_Runtime :: Snapshot
  ec_Privileged :: Settings
  ec_Source :: source
  ec_Sources :: "string \<rightharpoonup> source"
  ec_Blocked :: "string \<rightharpoonup> string"
  ec_BlockedReason :: blocked_reason

abbreviation runtime_fields :: "string list" where
  "runtime_fields \<equiv> [''memory_include_cache'', ''detailed_gpu'', ''include_nics'', ''exclude_nics'',
     ''include_mountpoints'', ''report_interval'', ''traffic_reset_day'', ''get_ip_addr_from_nic'']"

abbreviation privileged_fields :: "string list" where
  "privileged_fields \<equiv> [''remote_control_enabled'', ''webssh_enabled'', ''execution_enabled'', ''enable_gpu'',
     ''rescue_helper_enabled'', ''required_privilege_mode'']"

definition set_all :: "string list \<Rightarrow> 'v \<Rightarrow> (string \<rightharpoonup> 'v) \<Rightarrow> (string \<rightharpoonup> 'v)" where
  "set_all ks v m = fold (\<lambda>k m. m(k \<mapsto> v)) ks m"

text \<open>The fields the protected policy denies.\<close>

definition denied_fields :: "HostPolicy \<Rightarrow> string list" where
  "denied_fields p =
     (if \<not> AllowRemoteControl p \<or> ForceDenyRemoteControl p then [''remote_control_enabled''] else [])
     @ (if \<not> AllowWebSSH p then [''webssh_enabled''] else [])
     @ (if \<not> AllowExecution p then [''execution_enabled''] else [])
     @ (if \<not> AllowGPU p then [''enable_gpu''] else [])
     @ (if \<not> AllowRescueHelper p \<or> ForceDenyRescueHelper p \<or> \<not> HelperInstalled p \<or> \<not> HelperAuthorized p
        then [''rescue_helper_enabled''] else [])"

definition restrict_policy :: "HostPolicy \<Rightarrow> Settings \<Rightarrow> Settings" where
  "restrict_policy p s = s
     \<lparr>RemoteControlEnabled := RemoteControlEnabled s \<and> AllowRemoteControl p \<and> \<not> ForceDenyRemoteControl p,
      WebSSHEnabled := WebSSHEnabled s \<and> AllowWebSSH p,
      ExecutionEnabled := ExecutionEnabled s \<and> AllowExecution p,
      EnableGPU := EnableGPU s \<and> AllowGPU p,
      RescueHelperEnabled := RescueHelperEnabled s \<and> AllowRescueHelper p \<and> \<not> ForceDenyRescueHelper p \<and>
        HelperInstalled p \<and> HelperAuthorized p\<rparr>"

definition restrict_target :: "Settings \<Rightarrow> Settings \<Rightarrow> Settings" where
  "restrict_target target s = s
     \<lparr>RemoteControlEnabled := RemoteControlEnabled s \<and> RemoteControlEnabled target,
      WebSSHEnabled := WebSSHEnabled s \<and> WebSSHEnabled target,
      ExecutionEnabled := ExecutionEnabled s \<and> ExecutionEnabled target,
      EnableGPU := EnableGPU s \<and> EnableGPU target,
      RescueHelperEnabled := RescueHelperEnabled s \<and> RescueHelperEnabled target\<rparr>"

text \<open>What the protected policy makes of the result so far; \<open>pstate\<close> is the state of the privileged store.\<close>

definition apply_policy :: "State option \<Rightarrow> HostPolicy \<Rightarrow> EffectiveConfig \<Rightarrow> EffectiveConfig" where
  "apply_policy pstate p result =
     (let result = result\<lparr>ec_Blocked := set_all (denied_fields p) ''protected local policy'' (ec_Blocked result)\<rparr>;
          result =
            (if RequiredPrivilegeMode (ec_Privileged result) \<noteq> 0 \<and>
                RequiredPrivilegeMode (ec_Privileged result) \<noteq> hp_PrivilegeMode p
             then result\<lparr>ec_Privileged := Settings_zero, ec_BlockedReason := IdentityDiffers\<rparr> else result);
          result = result\<lparr>ec_Privileged := restrict_policy p (ec_Privileged result)\<rparr>;
          result =
            (case (pstate, HostSettings p) of
               (Some st, Some target) \<Rightarrow>
                 if AppliedRevision st \<le> HostRevision p then
                   result\<lparr>ec_Privileged := restrict_target target (ec_Privileged result),
                     ec_Sources := (ec_Sources result)(''host_transition_ceiling'' \<mapsto> ProtectedRevision (HostRevision p))\<rparr>
                 else result
             | _ \<Rightarrow> result)
      in if ForceDenyRemoteControl p then result\<lparr>ec_BlockedReason := ProtectedForceDeny\<rparr> else result)"

text \<open>The raw view: the runtime snapshot, and the privileged settings before any local restriction.\<close>

definition raw_config :: "Snapshot \<Rightarrow> State option \<Rightarrow> EffectiveConfig" where
  "raw_config raw privilegedStore =
     (let runtimeSource = (if sn_Revision raw > 0 then AppliedRuntime (sn_Revision raw) else BootstrapFlags);
          bootstrap = Settings_zero\<lparr>RemoteControlEnabled := sn_RemoteControlEnabled raw,
            WebSSHEnabled := sn_RemoteControlEnabled raw, ExecutionEnabled := sn_RemoteControlEnabled raw,
            EnableGPU := sn_EnableGPU raw\<rparr>;
          src = (case privilegedStore of None \<Rightarrow> BootstrapFlags | Some _ \<Rightarrow> PrivilegedSnapshot)
      in \<lparr>ec_Runtime = raw,
          ec_Privileged = (case privilegedStore of None \<Rightarrow> bootstrap | Some st \<Rightarrow> Privileged.Effective st),
          ec_Source = src,
          ec_Sources = set_all privileged_fields src (set_all runtime_fields runtimeSource Map.empty),
          ec_Blocked = Map.empty, ec_BlockedReason = NotBlocked\<rparr>)"

text \<open>
  \<open>policy\<close> is what reading the manifest and the policy gave: \<open>None\<close> when no manifest is configured,
  \<open>Some None\<close> when it could not be read.
\<close>

definition local_policy :: "HostPolicy option option \<Rightarrow> State option \<Rightarrow> EffectiveConfig \<Rightarrow> EffectiveConfig" where
  "local_policy policy pstate result =
     (case policy of
        None \<Rightarrow> result
      | Some None \<Rightarrow> result\<lparr>ec_Privileged := Settings_zero, ec_BlockedReason := PolicyUnavailable\<rparr>
      | Some (Some p) \<Rightarrow> apply_policy pstate p result)"

definition flag_deny :: "flag_config \<Rightarrow> EffectiveConfig \<Rightarrow> EffectiveConfig" where
  "flag_deny config result =
     (if fl_DisableRemoteControl config
      then result\<lparr>ec_Privileged := (ec_Privileged result)\<lparr>RemoteControlEnabled := False\<rparr>,
             ec_Blocked := (ec_Blocked result)(''remote_control_enabled'' \<mapsto> ''local force-deny''),
             ec_Sources := (ec_Sources result)(''remote_control_enabled'' \<mapsto> LocalForceDeny)\<rparr>
      else result)"

text \<open>WebSSH and execution need remote control; the runtime view follows the privileged one.\<close>

definition couple :: "Snapshot \<Rightarrow> EffectiveConfig \<Rightarrow> EffectiveConfig" where
  "couple raw result =
     (let result = (if ec_BlockedReason result \<noteq> NotBlocked
            then result\<lparr>ec_Blocked := (ec_Blocked result)(''privileged'' \<mapsto> ''blocked'')\<rparr> else result);
          s = ec_Privileged result;
          s = s\<lparr>WebSSHEnabled := RemoteControlEnabled s \<and> WebSSHEnabled s,
                ExecutionEnabled := RemoteControlEnabled s \<and> ExecutionEnabled s\<rparr>
      in result\<lparr>ec_Privileged := s,
           ec_Runtime := (ec_Runtime result)\<lparr>sn_EnableGPU := EnableGPU s,
             sn_RemoteControlEnabled := RemoteControlEnabled s, DetailedGPU := DetailedGPU raw \<and> EnableGPU s\<rparr>\<rparr>)"

definition Inspect ::
  "duration \<Rightarrow> flag_config \<Rightarrow> HostPolicy option option \<Rightarrow> Snapshot option \<Rightarrow> State option \<Rightarrow> EffectiveConfig" where
  "Inspect scaled config policy runtimeStore privilegedStore =
     (let raw = (case runtimeStore of None \<Rightarrow> FromFlags scaled config | Some s \<Rightarrow> s)
      in couple raw (flag_deny config (local_policy policy privilegedStore (raw_config raw privilegedStore))))"

definition EffectiveForMode :: "EffectiveConfig \<Rightarrow> mode \<Rightarrow> EffectiveConfig" where
  "EffectiveForMode result actual =
     (if RequiredPrivilegeMode (ec_Privileged result) \<noteq> 0 \<and> RequiredPrivilegeMode (ec_Privileged result) \<noteq> actual
      then result\<lparr>ec_Privileged := Settings_zero,
             ec_Runtime := (ec_Runtime result)\<lparr>sn_RemoteControlEnabled := False, sn_EnableGPU := False, DetailedGPU := False\<rparr>,
             ec_BlockedReason := ActualIdentityDiffers\<rparr>
      else result)"

section \<open>Capabilities\<close>

datatype capability_state = Available | Limited string

definition available :: capability_state where
  "available = Available"

definition limited :: "string \<Rightarrow> capability_state" where
  "limited reason = Limited reason"

record AgentCapabilities =
  ac_PrivilegeMode :: mode
  ac_Gpu :: capability_state
  ac_DetailedGpu :: capability_state
  ac_NetworkInterfaces :: capability_state
  ac_MountPoints :: capability_state
  ac_RemoteControl :: capability_state
  ac_ServiceControl :: capability_state
  ac_Execution :: capability_state
  ac_Webssh :: capability_state
  ac_ReturnRouteProbe :: capability_state
  ac_RescueHelper :: capability_state

text \<open>\<open>store\<close> is the state of the active privileged store, when there is one.\<close>

definition remoteAllowed :: "State option \<Rightarrow> bool \<Rightarrow> mode \<Rightarrow> bool \<Rightarrow> string \<Rightarrow> bool \<times> string" where
  "remoteAllowed store enabled m privilegedOS limitation =
     (if \<not> enabled then (False, ''remote control is disabled by effective configuration or local policy'')
      else if \<not> privilegedOS \<and>
        (case store of None \<Rightarrow> True
         | Some st \<Rightarrow> AppliedRevision st = 0 \<or> RequiredPrivilegeMode (Active st) \<noteq> m)
      then (False, ''same-identity signed authorization required; '' @ limitation)
      else (True, []))"

definition RemoteControlAllowed ::
  "State option \<Rightarrow> EffectiveConfig \<Rightarrow> bool \<Rightarrow> mode \<Rightarrow> bool \<Rightarrow> string \<Rightarrow> bool \<times> string" where
  "RemoteControlAllowed store effective enabled m privilegedOS limitation =
     (let cfg = EffectiveForMode effective m in
      remoteAllowed store (enabled \<and> RemoteControlEnabled (ec_Privileged cfg)) m privilegedOS limitation)"

text \<open>\<open>goos\<close> is \<open>runtime.GOOS\<close>; \<open>probe\<close> the result of \<open>returnRouteProbeState\<close> in \<open>Detect\<close>.\<close>

definition detect ::
  "State option \<Rightarrow> EffectiveConfig \<Rightarrow> string \<Rightarrow> bool \<Rightarrow> mode \<Rightarrow> bool \<Rightarrow> string \<Rightarrow> AgentCapabilities" where
  "detect store effective goos enabled privilege privilegedOS privilegeLimitation =
     (let (allowed, reason) = remoteAllowed store enabled privilege privilegedOS privilegeLimitation;
          remote = (if allowed then available else limited reason);
          execution = remote; webssh = remote;
          cfg = EffectiveForMode effective privilege;
          p = ec_Privileged cfg;
          gated = (store \<noteq> None \<or> \<not> RemoteControlEnabled p);
          denied = limited ''remote control denied by effective configuration'';
          remote = (if gated \<and> \<not> RemoteControlEnabled p then denied else remote);
          execution = (if gated \<and> \<not> RemoteControlEnabled p then denied else execution);
          webssh = (if gated \<and> \<not> RemoteControlEnabled p then denied else webssh);
          execution = (if gated \<and> \<not> ExecutionEnabled p then limited ''execution denied by effective configuration'' else execution);
          webssh = (if gated \<and> \<not> WebSSHEnabled p then limited ''WebSSH denied by effective configuration'' else webssh);
          service = (if \<not> privilegedOS then limited privilegeLimitation else available)
      in \<lparr>ac_PrivilegeMode = privilege,
          ac_Gpu = (if sn_EnableGPU (ec_Runtime cfg) then available else limited ''GPU disabled by effective configuration''),
          ac_DetailedGpu = (if DetailedGPU (ec_Runtime cfg) then available
            else limited ''detailed GPU disabled by effective configuration''),
          ac_NetworkInterfaces = available, ac_MountPoints = available, ac_RemoteControl = remote,
          ac_ServiceControl = (if goos \<noteq> ''linux'' \<and> goos \<noteq> ''windows''
            then limited ''service control capability is platform-dependent'' else service),
          ac_Execution = execution, ac_Webssh = webssh, ac_ReturnRouteProbe = available,
          ac_RescueHelper = (if RescueHelperEnabled p then available else limited ''rescue helper is not installed'')\<rparr>)"

definition Detect ::
  "State option \<Rightarrow> EffectiveConfig \<Rightarrow> string \<Rightarrow> capability_state \<Rightarrow> bool \<Rightarrow> mode \<Rightarrow> bool \<Rightarrow> string \<Rightarrow> AgentCapabilities" where
  "Detect store effective goos probe enabled privilege privilegedOS limitation =
     (detect store effective goos enabled privilege privilegedOS limitation)\<lparr>ac_ReturnRouteProbe := probe\<rparr>"

text \<open>
  \<open>ExecutionAllowed\<close> and \<open>WebSSHAllowed\<close>: the gates of the execution and terminal entry points. The
  process mode and the mode of \<open>privilegeState\<close> are the same effective user.
\<close>

definition ExecutionAllowed ::
  "State option \<Rightarrow> EffectiveConfig \<Rightarrow> string \<Rightarrow> capability_state \<Rightarrow> mode \<Rightarrow> bool \<Rightarrow> string \<Rightarrow> capability_state" where
  "ExecutionAllowed store effective goos probe m privilegedOS limitation =
     ac_Execution (Detect store effective goos probe
       (RemoteControlEnabled (ec_Privileged (EffectiveForMode effective m))) m privilegedOS limitation)"

definition WebSSHAllowed ::
  "State option \<Rightarrow> EffectiveConfig \<Rightarrow> string \<Rightarrow> capability_state \<Rightarrow> mode \<Rightarrow> bool \<Rightarrow> string \<Rightarrow> capability_state" where
  "WebSSHAllowed store effective goos probe m privilegedOS limitation =
     ac_Webssh (Detect store effective goos probe
       (RemoteControlEnabled (ec_Privileged (EffectiveForMode effective m))) m privilegedOS limitation)"

section \<open>Facts\<close>

text \<open>The capabilities of \<open>a\<close> are among those of \<open>b\<close>, whatever the required identity.\<close>

definition within :: "Settings \<Rightarrow> Settings \<Rightarrow> bool" where
  "within a b \<longleftrightarrow> Subset (a\<lparr>RequiredPrivilegeMode := 0\<rparr>) b"

definition policy_ceiling :: "HostPolicy \<Rightarrow> Settings" where
  "policy_ceiling p = restrict_policy p \<lparr>RequiredPrivilegeMode = 0, RemoteControlEnabled = True, WebSSHEnabled = True,
     ExecutionEnabled = True, EnableGPU = True, RescueHelperEnabled = True\<rparr>"

lemma within_refl [simp]: "within s s"
  by (simp add: within_def Subset_def)

lemma within_zero [simp]: "within Settings_zero s"
  by (simp add: within_def Subset_def Settings_zero_def)

lemma within_trans: "within a b \<Longrightarrow> within b c \<Longrightarrow> within a c"
  by (auto simp: within_def Subset_def)

lemma restrict_policy_within: "within (restrict_policy p s) s" "within (restrict_policy p s) (policy_ceiling p)"
  by (auto simp: within_def Subset_def restrict_policy_def policy_ceiling_def)

lemma restrict_target_within: "within (restrict_target g s) s" "within (restrict_target g s) g"
  by (auto simp: within_def Subset_def restrict_target_def)

definition identity_check :: "HostPolicy \<Rightarrow> Settings \<Rightarrow> Settings" where
  "identity_check p s =
     (if RequiredPrivilegeMode s \<noteq> 0 \<and> RequiredPrivilegeMode s \<noteq> hp_PrivilegeMode p then Settings_zero else s)"

definition host_ceiling :: "State option \<Rightarrow> HostPolicy \<Rightarrow> Settings \<Rightarrow> Settings" where
  "host_ceiling pstate p s =
     (case pstate of
        None \<Rightarrow> s
      | Some st \<Rightarrow>
          (case HostSettings p of
             None \<Rightarrow> s
           | Some target \<Rightarrow> if AppliedRevision st \<le> HostRevision p then restrict_target target s else s))"

lemma apply_policy_Privileged:
  "ec_Privileged (apply_policy ps p r) = host_ceiling ps p (restrict_policy p (identity_check p (ec_Privileged r)))"
proof (cases ps)
  case None
  then show ?thesis by (simp add: apply_policy_def Let_def host_ceiling_def identity_check_def)
next
  case (Some st)
  then show ?thesis
    by (cases "HostSettings p") (simp_all add: apply_policy_def Let_def host_ceiling_def identity_check_def)
qed

lemma host_ceiling_within: "within (host_ceiling ps p s) s"
  using restrict_target_within(1) by (auto simp: host_ceiling_def split: option.splits)

lemma identity_check_within: "within (identity_check p s) s"
  by (simp add: identity_check_def)

lemma apply_policy_within:
  "within (ec_Privileged (apply_policy ps p r)) (ec_Privileged r)"
  "within (ec_Privileged (apply_policy ps p r)) (policy_ceiling p)"
  unfolding apply_policy_Privileged
  by (rule within_trans [OF host_ceiling_within within_trans [OF restrict_policy_within(1) identity_check_within]])
    (rule within_trans [OF host_ceiling_within restrict_policy_within(2)])

lemma apply_policy_target:
  "HostSettings p = Some g \<Longrightarrow> AppliedRevision st \<le> HostRevision p \<Longrightarrow>
     within (ec_Privileged (apply_policy (Some st) p r)) g"
  using restrict_target_within(2) by (simp add: apply_policy_Privileged host_ceiling_def)

lemma flag_deny_within: "within (ec_Privileged (flag_deny c r)) (ec_Privileged r)"
  by (auto simp: flag_deny_def within_def Subset_def)

lemma couple_Privileged:
  "ec_Privileged (couple raw r) = (ec_Privileged r)
     \<lparr>WebSSHEnabled := RemoteControlEnabled (ec_Privileged r) \<and> WebSSHEnabled (ec_Privileged r),
      ExecutionEnabled := RemoteControlEnabled (ec_Privileged r) \<and> ExecutionEnabled (ec_Privileged r)\<rparr>"
  by (simp add: couple_def Let_def)

lemma couple_within: "within (ec_Privileged (couple raw r)) (ec_Privileged r)"
  by (auto simp: couple_Privileged within_def Subset_def)

lemma local_policy_within: "within (ec_Privileged (local_policy pol ps r)) (ec_Privileged r)"
  using apply_policy_within by (auto simp: local_policy_def split: option.splits)

lemma Inspect_within:
  "within (ec_Privileged (Inspect sc c pol rt ps))
     (ec_Privileged (local_policy pol ps (raw_config (case rt of None \<Rightarrow> FromFlags sc c | Some s \<Rightarrow> s) ps)))"
  unfolding Inspect_def Let_def using couple_within flag_deny_within within_trans by blast

lemma EffectiveForMode_within: "within (ec_Privileged (EffectiveForMode r m)) (ec_Privileged r)"
  by (simp add: EffectiveForMode_def)

text \<open>The mode that the store asks for survives every restriction, unless all is denied.\<close>

definition mode_kept :: "mode \<Rightarrow> EffectiveConfig \<Rightarrow> bool" where
  "mode_kept g r \<longleftrightarrow> RequiredPrivilegeMode (ec_Privileged r) = g \<or> within (ec_Privileged r) Settings_zero"

lemma local_policy_mode:
  "RequiredPrivilegeMode (ec_Privileged r) = g \<Longrightarrow> mode_kept g (local_policy pol ps r)"
proof -
  assume g: "RequiredPrivilegeMode (ec_Privileged r) = g"
  have "RequiredPrivilegeMode (host_ceiling ps p (restrict_policy p s)) = RequiredPrivilegeMode s" for p s
    by (auto simp: host_ceiling_def restrict_target_def restrict_policy_def split: option.splits)
  moreover have "within (host_ceiling ps p (restrict_policy p Settings_zero)) Settings_zero" for p
    by (rule within_trans [OF host_ceiling_within restrict_policy_within(1)])
  ultimately show ?thesis
    using g by (auto simp: mode_kept_def local_policy_def apply_policy_Privileged identity_check_def split: option.splits)
qed

lemma Inspect_mode:
  "RequiredPrivilegeMode (Privileged.Effective st) = g \<Longrightarrow> mode_kept g (Inspect scaled config policy rt (Some st))"
proof -
  assume g: "RequiredPrivilegeMode (Privileged.Effective st) = g"
  let ?raw = "case rt of None \<Rightarrow> FromFlags scaled config | Some s \<Rightarrow> s"
  have "mode_kept g (local_policy policy (Some st) (raw_config ?raw (Some st)))"
    by (rule local_policy_mode) (simp add: g raw_config_def Let_def)
  then have "mode_kept g (flag_deny config (local_policy policy (Some st) (raw_config ?raw (Some st))))"
    using flag_deny_within within_trans unfolding mode_kept_def by (fastforce simp: flag_deny_def)
  then show ?thesis
    using couple_within within_trans unfolding mode_kept_def Inspect_def Let_def by (fastforce simp: couple_Privileged)
qed

definition runtime_follows :: "EffectiveConfig \<Rightarrow> bool" where
  "runtime_follows r \<longleftrightarrow> sn_RemoteControlEnabled (ec_Runtime r) = RemoteControlEnabled (ec_Privileged r) \<and>
     sn_EnableGPU (ec_Runtime r) = EnableGPU (ec_Privileged r) \<and> (DetailedGPU (ec_Runtime r) \<longrightarrow> EnableGPU (ec_Privileged r))"

lemma EffectiveForMode_follows: "runtime_follows (EffectiveForMode (Inspect scaled config policy rt ps) m)"
  by (simp add: runtime_follows_def EffectiveForMode_def Inspect_def couple_def Let_def Settings_zero_def)

lemma Inspect_allowed:
  assumes "PolicyAllows (Privileged.Effective st) (Some p)" and "\<not> fl_DisableRemoteControl config"
    and "HostSettings p = None \<or> HostRevision p < AppliedRevision st"
  shows "let s = Privileged.Effective st; r = Inspect scaled config (Some (Some p)) runtimeStore (Some st) in
    ec_Privileged r = s\<lparr>WebSSHEnabled := RemoteControlEnabled s \<and> WebSSHEnabled s,
       ExecutionEnabled := RemoteControlEnabled s \<and> ExecutionEnabled s\<rparr> \<and>
    sn_EnableGPU (ec_Runtime r) = EnableGPU s \<and> sn_RemoteControlEnabled (ec_Runtime r) = RemoteControlEnabled s"
proof -
  let ?s = "Privileged.Effective st"
  have "identity_check p ?s = ?s"
    using assms(1) by (simp add: identity_check_def PolicyAllows_def)
  moreover have "restrict_policy p ?s = ?s"
    using assms(1) by (cases ?s) (auto simp: restrict_policy_def PolicyAllows_def)
  moreover have "host_ceiling (Some st) p ?s = ?s"
    using assms(3) by (auto simp: host_ceiling_def split: option.splits)
  ultimately have "ec_Privileged (flag_deny config (local_policy (Some (Some p)) (Some st) (raw_config raw (Some st)))) = ?s" for raw
    using assms(2) by (simp add: flag_deny_def local_policy_def apply_policy_Privileged raw_config_def Let_def)
  then show ?thesis by (simp add: Inspect_def Let_def couple_def)
qed

section \<open>Properties\<close>

text \<open>
  C16: the local policy has the last word. With a protected policy in place the settings in force
  never exceed what it allows, nor what the privileged store has in effect, nor (while the store is
  not newer) the target of the last protected host transition; if the policy cannot be read, or the
  identity the store asks for is not the policy's, or not the one the process runs under, nothing is enabled. What the
  running agent looks at (remote control, GPU, the details of the GPU) follows the privileged settings.
\<close>

theorem effective_within_policy:
  assumes "r = EffectiveForMode (Inspect scaled config policy runtimeStore (Some st)) m"
  shows "within (ec_Privileged r) (Privileged.Effective st) \<and>
    (\<forall>p. policy = Some (Some p) \<longrightarrow> within (ec_Privileged r) (policy_ceiling p) \<and>
       (\<forall>g. HostSettings p = Some g \<longrightarrow> AppliedRevision st \<le> HostRevision p \<longrightarrow> within (ec_Privileged r) g) \<and>
       (RequiredPrivilegeMode (Privileged.Effective st) \<notin> {0, hp_PrivilegeMode p} \<longrightarrow> within (ec_Privileged r) Settings_zero)) \<and>
    (policy = Some None \<longrightarrow> within (ec_Privileged r) Settings_zero) \<and>
    (RequiredPrivilegeMode (Privileged.Effective st) \<notin> {0, m} \<longrightarrow> within (ec_Privileged r) Settings_zero) \<and>
    RequiredPrivilegeMode (ec_Privileged r) \<in> {0, m} \<and>
    sn_RemoteControlEnabled (ec_Runtime r) = RemoteControlEnabled (ec_Privileged r) \<and>
    sn_EnableGPU (ec_Runtime r) = EnableGPU (ec_Privileged r) \<and> (DetailedGPU (ec_Runtime r) \<longrightarrow> EnableGPU (ec_Privileged r))"
proof -
  define raw where "raw = (case runtimeStore of None \<Rightarrow> FromFlags scaled config | Some s \<Rightarrow> s)"
  define l where "l = local_policy policy (Some st) (raw_config raw (Some st))"
  have w: "within (ec_Privileged r) (ec_Privileged l)"
    unfolding assms l_def raw_def using EffectiveForMode_within Inspect_within within_trans by blast
  have raw: "ec_Privileged (raw_config raw (Some st)) = Privileged.Effective st"
    by (simp add: raw_config_def Let_def)
  have l1: "within (ec_Privileged l) (Privileged.Effective st)"
    using local_policy_within [of policy "Some st" "raw_config raw (Some st)"] raw by (simp add: l_def)
  have l2: "within (ec_Privileged l) (policy_ceiling p)"
    "HostSettings p = Some g \<Longrightarrow> AppliedRevision st \<le> HostRevision p \<Longrightarrow> within (ec_Privileged l) g"
    if "policy = Some (Some p)" for p g
    using that apply_policy_within apply_policy_target by (simp_all add: l_def local_policy_def)
  have l3: "within (ec_Privileged l) Settings_zero"
    if "policy = Some (Some p)" "RequiredPrivilegeMode (Privileged.Effective st) \<notin> {0, hp_PrivilegeMode p}" for p
  proof -
    have "identity_check p (Privileged.Effective st) = Settings_zero"
      using that(2) by (simp add: identity_check_def)
    then show ?thesis
      using within_trans [OF host_ceiling_within restrict_policy_within(1)] that(1)
      by (simp add: l_def local_policy_def apply_policy_Privileged raw)
  qed
  have l4: "within (ec_Privileged l) Settings_zero" if "policy = Some None"
    using that by (simp add: l_def local_policy_def)
  have id: "within (ec_Privileged r) Settings_zero" if "RequiredPrivilegeMode (Privileged.Effective st) \<notin> {0, m}"
  proof (cases "RequiredPrivilegeMode (ec_Privileged (Inspect scaled config policy runtimeStore (Some st))) = RequiredPrivilegeMode (Privileged.Effective st)")
    case True
    with that show ?thesis by (simp add: assms EffectiveForMode_def)
  next
    case False
    with Inspect_mode [OF refl, of st scaled config policy runtimeStore]
    have "within (ec_Privileged (Inspect scaled config policy runtimeStore (Some st))) Settings_zero" by (simp add: mode_kept_def)
    with within_trans [OF EffectiveForMode_within] show ?thesis unfolding assms by blast
  qed
  have m: "RequiredPrivilegeMode (ec_Privileged r) \<in> {0, m}"
    by (auto simp: assms EffectiveForMode_def Settings_zero_def)
  from within_trans [OF w l1] within_trans [OF w l2(1)] within_trans [OF w l2(2)] within_trans [OF w l3]
    within_trans [OF w l4] m id EffectiveForMode_follows [of scaled config policy runtimeStore "Some st" m]
  show ?thesis unfolding runtime_follows_def assms [symmetric] by blast
qed

definition sample_flags :: flag_config where
  "sample_flags = \<lparr>fl_Token = ''t'', fl_DisableRemoteControl = False, fl_MemoryIncludeCache = False,
     fl_EnableGPU = False, fl_DetailedGPU = False, fl_IncludeNics = [], fl_ExcludeNics = [],
     fl_IncludeMountpoints = [], fl_MonthRotate = 1, fl_GetIpAddrFromNic = False\<rparr>"

definition sample_settings :: Settings where
  "sample_settings = \<lparr>RequiredPrivilegeMode = 2, RemoteControlEnabled = True, WebSSHEnabled = True,
     ExecutionEnabled = True, EnableGPU = False, RescueHelperEnabled = False\<rparr>"

definition sample_policy :: HostPolicy where
  "sample_policy = \<lparr>hp_Version = 2, hp_ServiceID = ''svc'', hp_PrivilegeMode = 2, AllowRemoteControl = True,
     AllowWebSSH = True, AllowExecution = False, AllowGPU = False, ForceDenyRemoteControl = False,
     BaselineRemoteControl = False, BaselineWebSSH = False, BaselineExecution = False, BaselineGPU = False,
     AllowRescueHelper = False, ForceDenyRescueHelper = False, HelperAuthorized = False, HelperInstalled = False,
     DisableSource = [], HostRevision = 0, HostSettings = None\<rparr>"

definition sample_state :: State where
  "sample_state = State_zero\<lparr>AppliedRevision := 3, Active := sample_settings\<rparr>"

theorem effective_within_policy_witness:
  "let r = EffectiveForMode (Inspect 0 sample_flags (Some (Some sample_policy)) None (Some sample_state)) in
   within (ec_Privileged (r 2)) (policy_ceiling sample_policy) \<and> \<not> ExecutionEnabled (policy_ceiling sample_policy) \<and>
   WebSSHEnabled (ec_Privileged (r 2)) \<and> within (ec_Privileged (r 1)) Settings_zero"
proof -
  have "RequiredPrivilegeMode (Privileged.Effective sample_state) = 2"
    by (simp add: sample_state_def sample_settings_def Privileged.Effective_def State_zero_def)
  moreover have "WebSSHEnabled (ec_Privileged (EffectiveForMode (Inspect 0 sample_flags (Some (Some sample_policy)) None (Some sample_state)) 2))"
    by code_simp
  ultimately show ?thesis
    using effective_within_policy [OF refl, of 0 sample_flags "Some (Some sample_policy)" None sample_state 2]
      effective_within_policy [OF refl, of 0 sample_flags "Some (Some sample_policy)" None sample_state 1]
    by (simp add: policy_ceiling_def restrict_policy_def sample_policy_def)
qed

text \<open>
  What the policy gate accepts takes effect in full. Settings that \<open>PolicyAllows\<close> accepts, active
  in a store that is newer than the last host transition and not disabled on the command line, are
  the settings \<open>Inspect\<close> puts in force (WebSSH and execution still need remote control), and the
  runtime view reports exactly their GPU and remote-control switches.
\<close>

theorem PolicyAllows_takes_effect:
  assumes "PolicyAllows (Privileged.Effective st) (Some p)" and "\<not> fl_DisableRemoteControl config"
    and "HostSettings p = None \<or> HostRevision p < AppliedRevision st"
  shows "let s = Privileged.Effective st; r = Inspect scaled config (Some (Some p)) runtimeStore (Some st) in
    ec_Privileged r = s\<lparr>WebSSHEnabled := RemoteControlEnabled s \<and> WebSSHEnabled s,
       ExecutionEnabled := RemoteControlEnabled s \<and> ExecutionEnabled s\<rparr> \<and>
    sn_EnableGPU (ec_Runtime r) = EnableGPU s \<and> sn_RemoteControlEnabled (ec_Runtime r) = RemoteControlEnabled s"
  using assms by (rule Inspect_allowed)

theorem PolicyAllows_takes_effect_witness:
  "ExecutionEnabled (ec_Privileged (Inspect 0 sample_flags (Some (Some (sample_policy\<lparr>AllowExecution := True\<rparr>))) None
     (Some sample_state)))"
proof -
  have e: "Privileged.Effective sample_state = sample_settings"
    by (simp add: Privileged.Effective_def sample_state_def State_zero_def)
  have "PolicyAllows (Privileged.Effective sample_state) (Some (sample_policy\<lparr>AllowExecution := True\<rparr>))"
    unfolding e by (simp add: PolicyAllows_def sample_policy_def sample_settings_def)
  from PolicyAllows_takes_effect [OF this, of sample_flags 0 None]
  show ?thesis unfolding e
    by (simp add: sample_policy_def sample_flags_def sample_settings_def Let_def)
qed

text \<open>
  The execution and terminal gates honour the effective settings. With a privileged store, a gate
  opens only when remote control and its own sub-capability are in force for the process's identity;
  a process without administrator rights also needs an applied revision that requires exactly its
  own identity.
\<close>

theorem gates_sound:
  assumes "cfg = ec_Privileged (EffectiveForMode effective m)"
  shows "(ExecutionAllowed (Some st) effective goos probe m privilegedOS limitation = Available \<longrightarrow>
      RemoteControlEnabled cfg \<and> ExecutionEnabled cfg \<and>
      (privilegedOS \<or> AppliedRevision st \<noteq> 0 \<and> RequiredPrivilegeMode (Active st) = m)) \<and>
    (WebSSHAllowed (Some st) effective goos probe m privilegedOS limitation = Available \<longrightarrow>
      RemoteControlEnabled cfg \<and> WebSSHEnabled cfg \<and>
      (privilegedOS \<or> AppliedRevision st \<noteq> 0 \<and> RequiredPrivilegeMode (Active st) = m))"
  unfolding assms ExecutionAllowed_def WebSSHAllowed_def Detect_def detect_def remoteAllowed_def
  by (simp add: Let_def limited_def available_def)

theorem gates_sound_witness:
  "let r = Inspect 0 sample_flags (Some (Some (sample_policy\<lparr>AllowExecution := True\<rparr>))) None (Some sample_state) in
   ExecutionAllowed (Some sample_state) r ''linux'' Available 2 False [] = Available \<and>
   ExecutionEnabled (ec_Privileged (EffectiveForMode r 2))"
proof -
  let ?r = "Inspect 0 sample_flags (Some (Some (sample_policy\<lparr>AllowExecution := True\<rparr>))) None (Some sample_state)"
  have e: "Privileged.Effective sample_state = sample_settings"
    by (simp add: Privileged.Effective_def sample_state_def State_zero_def)
  have "PolicyAllows (Privileged.Effective sample_state) (Some (sample_policy\<lparr>AllowExecution := True\<rparr>))"
    unfolding e by (simp add: PolicyAllows_def sample_policy_def sample_settings_def)
  from Inspect_allowed [OF this, of sample_flags 0 None] have "ec_Privileged ?r = sample_settings"
    unfolding e by (simp add: sample_policy_def sample_flags_def sample_settings_def Let_def)
  then have m: "ec_Privileged (EffectiveForMode ?r 2) = sample_settings"
    by (simp add: EffectiveForMode_def sample_settings_def)
  have "Active sample_state = sample_settings" "AppliedRevision sample_state = 3"
    by (simp_all add: sample_state_def)
  then have A: "ExecutionAllowed (Some sample_state) ?r ''linux'' Available 2 False [] = Available"
    unfolding ExecutionAllowed_def Detect_def detect_def remoteAllowed_def m
    by (simp add: Let_def m sample_settings_def available_def)
  from gates_sound [OF refl, where effective = ?r and m = 2 and st = sample_state and goos = "''linux''"
      and probe = Available and privilegedOS = False and limitation = "[]"] A
  show ?thesis by (simp add: Let_def)
qed

text \<open>
  Without a privileged store the sub-capabilities are not checked. A process with administrator
  rights and no active store reports execution and WebSSH available whenever remote control is in
  force, also when the effective settings (for instance the protected policy) deny them.
\<close>

theorem gates_without_store:
  assumes "RemoteControlEnabled (ec_Privileged (EffectiveForMode effective m))"
  shows "ExecutionAllowed None effective goos probe m True limitation = Available \<and>
    WebSSHAllowed None effective goos probe m True limitation = Available"
  unfolding ExecutionAllowed_def WebSSHAllowed_def Detect_def detect_def remoteAllowed_def
  using assms by (simp add: Let_def available_def)

theorem gates_without_store_witness:
  "ExecutionAllowed None (Inspect 0 sample_flags (Some (Some sample_policy)) None None) ''linux'' Available 2 True [] = Available \<and>
   \<not> ExecutionEnabled (ec_Privileged (EffectiveForMode (Inspect 0 sample_flags (Some (Some sample_policy)) None None) 2))"
proof -
  let ?s = "Settings_zero\<lparr>RemoteControlEnabled := True, WebSSHEnabled := True\<rparr>"
  have raw: "sn_RemoteControlEnabled (FromFlags 0 sample_flags)" "\<not> sn_EnableGPU (FromFlags 0 sample_flags)"
    by (simp_all add: FromFlags_def sample_flags_def Let_def)
  have "restrict_policy sample_policy (identity_check sample_policy
      (ec_Privileged (raw_config (FromFlags 0 sample_flags) None))) = ?s"
    using raw by (simp add: raw_config_def Let_def restrict_policy_def identity_check_def sample_policy_def Settings_zero_def)
  then have "ec_Privileged (Inspect 0 sample_flags (Some (Some sample_policy)) None None) = ?s"
    unfolding Inspect_def Let_def couple_Privileged flag_deny_def local_policy_def
    by (simp add: apply_policy_Privileged host_ceiling_def) (simp add: sample_flags_def Settings_zero_def)
  then have e: "ec_Privileged (EffectiveForMode (Inspect 0 sample_flags (Some (Some sample_policy)) None None) 2) = ?s"
    by (simp add: EffectiveForMode_def Settings_zero_def)
  then have "RemoteControlEnabled (ec_Privileged (EffectiveForMode (Inspect 0 sample_flags (Some (Some sample_policy)) None None) 2))"
    by simp
  from gates_without_store [OF this, of "''linux''" Available "[]"] e show ?thesis
    by (simp add: Settings_zero_def)
qed

end
