(* ===== verification/Retry.thy ===== *)
theory Retry
  imports Credentials
begin

text \<open>
  \<open>clientcore/retry.go\<close> and \<open>clientcore/credential_renewal.go\<close>: how long a loop of the client waits
  before it tries again, and the loop that renews the access token. Errors are what the code asks of
  them: the Connect code with the \<open>Retry-After\<close> header, and the \<open>errors.Is\<close> and \<open>errors.As\<close> tests.
  \<open>http.ParseTime\<close> is a parameter; \<open>shave d\<close> is the truncated product of \<open>rand.Float64()\<close> with a fifth
  of \<open>d\<close> that \<open>jitter\<close> subtracts, constrained by \<open>shave_ok\<close> where a theorem needs it.
\<close>

section \<open>Errors\<close>

datatype conn_code =
    CodeCanceled | CodeUnknown | CodeInvalidArgument | CodeDeadlineExceeded | CodeNotFound
  | CodeAlreadyExists | CodePermissionDenied | CodeResourceExhausted | CodeFailedPrecondition
  | CodeAborted | CodeOutOfRange | CodeUnimplemented | CodeInternal | CodeUnavailable
  | CodeDataLoss | CodeUnauthenticated

record go_error =
  er_Connect :: "(conn_code \<times> bytes) option"
  er_Canceled :: bool
  er_DeadlineExceeded :: bool
  er_Network :: bool
  er_Message :: string

definition CodeOf :: "go_error \<Rightarrow> conn_code" where
  "CodeOf err = (case er_Connect err of None \<Rightarrow> CodeUnknown | Some (c, _) \<Rightarrow> c)"

definition isAuthRejection :: "go_error \<Rightarrow> bool" where
  "isAuthRejection err =
     (case er_Connect err of None \<Rightarrow> False
      | Some (c, _) \<Rightarrow> c = CodeUnauthenticated \<or> c = CodePermissionDenied)"

definition isRateLimited :: "go_error \<Rightarrow> bool" where
  "isRateLimited err = (case er_Connect err of None \<Rightarrow> False | Some (c, _) \<Rightarrow> c = CodeResourceExhausted)"

definition isTransientRejection :: "go_error \<Rightarrow> bool" where
  "isTransientRejection err \<longleftrightarrow> isRateLimited err \<or> isAuthRejection err"

definition isUnsupported :: "go_error \<Rightarrow> bool" where
  "isUnsupported err =
     (case er_Connect err of None \<Rightarrow> False | Some (c, _) \<Rightarrow> c = CodeUnimplemented \<or> c = CodeNotFound)"

definition isPermissionDenied :: "go_error \<Rightarrow> bool" where
  "isPermissionDenied err = (case er_Connect err of None \<Rightarrow> False | Some (c, _) \<Rightarrow> c = CodePermissionDenied)"

definition permanentCredentialRejection :: "go_error \<Rightarrow> bool" where
  "permanentCredentialRejection err \<longleftrightarrow> CodeOf err = CodeUnauthenticated \<or> CodeOf err = CodePermissionDenied"

text \<open>What \<open>classify\<close> wraps an error in.\<close>

datatype classified = AsIs go_error | ErrPermissionDenied go_error | ErrLegacyFallback go_error

definition classify :: "go_error option \<Rightarrow> classified option" where
  "classify e =
     (case e of
        None \<Rightarrow> None
      | Some err \<Rightarrow> Some
          (if er_Canceled err \<or> er_DeadlineExceeded err then AsIs err
           else if isPermissionDenied err then ErrPermissionDenied err
           else case er_Connect err of
             Some (c, _) \<Rightarrow> if c = CodeUnavailable \<or> c = CodeUnimplemented then ErrLegacyFallback err else AsIs err
           | None \<Rightarrow> if er_Network err then ErrLegacyFallback err else AsIs err))"

section \<open>Delays\<close>

record retryPolicy =
  rp_attempt :: int

abbreviation (input) retryMaxDelay :: duration where
  "retryMaxDelay \<equiv> 5 * minute"

abbreviation (input) retryAuthMinDelay :: duration where
  "retryAuthMinDelay \<equiv> 60 * second"

abbreviation (input) retryAuthMaxDelay :: duration where
  "retryAuthMaxDelay \<equiv> 15 * minute"

abbreviation (input) retryServerHintCap :: duration where
  "retryServerHintCap \<equiv> 30 * minute"

definition Reset :: "retryPolicy \<Rightarrow> retryPolicy" where
  "Reset p = p\<lparr>rp_attempt := 0\<rparr>"

text \<open>\<open>reconnect\<close> is \<open>GlobalConfig.ReconnectInterval\<close>, in seconds.\<close>

definition baseInterval :: "int \<Rightarrow> duration" where
  "baseInterval reconnect = int64 (max reconnect 1 * second)"

fun backoff_loop :: "duration \<Rightarrow> nat \<Rightarrow> duration \<Rightarrow> duration" where
  "backoff_loop limit 0 delay = (if delay > limit then limit else delay)"
| "backoff_loop limit (Suc n) delay =
     (if delay \<ge> limit div 2 then limit else backoff_loop limit n (int64 (delay * 2)))"

definition backoffDelay :: "duration \<Rightarrow> duration \<Rightarrow> int \<Rightarrow> duration" where
  "backoffDelay base limit attempt =
     (let base = (if base \<le> 0 then second else base);
          limit = (if limit < base then base else limit)
      in backoff_loop limit (nat (attempt - 1)) base)"

definition jitter :: "(duration \<Rightarrow> duration) \<Rightarrow> duration \<Rightarrow> duration" where
  "jitter shave d =
     (if d \<le> 0 then second
      else (let reduced = d - shave d in if reduced < second then second else reduced))"

definition clampHint :: "int \<Rightarrow> duration \<Rightarrow> duration" where
  "clampHint reconnect d =
     (let lowest = baseInterval reconnect in
      if d < lowest then lowest else if d > retryServerHintCap then retryServerHintCap else d)"

definition retryAfterHint :: "(bytes \<Rightarrow> gotime option) \<Rightarrow> int \<Rightarrow> gotime \<Rightarrow> go_error \<Rightarrow> duration option" where
  "retryAfterHint ParseTime reconnect now err =
     (case er_Connect err of
        None \<Rightarrow> None
      | Some (_, raw) \<Rightarrow>
          if raw = [] then None
          else case Atoi raw of
            Some seconds \<Rightarrow>
              if seconds \<le> 0 then None
              else Some (clampHint reconnect (int64 (int64 seconds * second)))
          | None \<Rightarrow>
              (case ParseTime raw of
                 None \<Rightarrow> None
               | Some at \<Rightarrow>
                   (let until = time_sub at now in
                    if until > 0 then Some (clampHint reconnect until) else None)))"

text \<open>The delay to apply, and the policy after it.\<close>

definition next_delay ::
  "(duration \<Rightarrow> duration) \<Rightarrow> (bytes \<Rightarrow> gotime option) \<Rightarrow> int \<Rightarrow> gotime \<Rightarrow> go_error option \<Rightarrow> retryPolicy \<Rightarrow>
     duration \<times> retryPolicy" where
  "next_delay shave ParseTime reconnect now e p =
     (case e of
        None \<Rightarrow> (jitter shave (baseInterval reconnect), p\<lparr>rp_attempt := 0\<rparr>)
      | Some err \<Rightarrow>
          (let p = p\<lparr>rp_attempt := int64 (rp_attempt p + 1)\<rparr> in
           case retryAfterHint ParseTime reconnect now err of
             Some hint \<Rightarrow> (jitter shave hint, p)
           | None \<Rightarrow>
               if isAuthRejection err
               then (jitter shave (backoffDelay retryAuthMinDelay retryAuthMaxDelay (rp_attempt p)), p)
               else (jitter shave (backoffDelay (baseInterval reconnect) retryMaxDelay (rp_attempt p)), p)))"

definition RestartDelay :: "(duration \<Rightarrow> duration) \<Rightarrow> int \<Rightarrow> int \<Rightarrow> duration" where
  "RestartDelay shave reconnect attempt =
     (let attempt = (if attempt < 1 then 1 else attempt) in
      jitter shave (backoffDelay (baseInterval reconnect) retryMaxDelay attempt))"

text \<open>\<open>waitRetry\<close> of \<open>client.go\<close> waits this long.\<close>

definition waitRetry_delay :: "(duration \<Rightarrow> duration) \<Rightarrow> int \<Rightarrow> duration" where
  "waitRetry_delay shave reconnect = jitter shave (baseInterval reconnect)"

section \<open>Renewal of the access token\<close>

text \<open>
  \<open>sha\<close> is SHA-256. The machine's share of the spread is \<open>(digest[0] << 8 | digest[1]) mod 60\<close> seconds.
\<close>

definition renewal_spread :: "(bytes \<Rightarrow> bytes) \<Rightarrow> string \<Rightarrow> duration" where
  "renewal_spread sha agent =
     (let digest = sha agent in
      ((of_char (digest ! 0) * 256 + of_char (digest ! 1)) mod 60) * second)"

definition credentialRenewalDelay :: "(bytes \<Rightarrow> bytes) \<Rightarrow> Identity \<Rightarrow> gotime \<Rightarrow> duration" where
  "credentialRenewalDelay sha i now =
     (if PendingRefresh i \<noteq> None \<or> AccessToken i = [] then 0
      else if AccessTokenExpiresAt i = 0 then 60 * minute
      else if RefreshTokenExpiresAt i \<noteq> 0 \<and> \<not> RefreshTokenExpiresAt i > AccessTokenExpiresAt i
      then max 0 (time_sub (RefreshTokenExpiresAt i) now)
      else max 0 (time_sub (AccessTokenExpiresAt i + (- 5 * minute - renewal_spread sha (AgentID i))) now))"

text \<open>
  One round of \<open>runCredentialRenewal\<close>: what the round observes (the identity at its head, whether the
  context ended in a sleep or during the call, the identity after the sleep, the outcome of the
  refresh), the delays it sleeps, whether it called \<open>refreshCredentials\<close> and with which access token,
  and the backoff of the next round, \<open>None\<close> when the loop returned.
\<close>

record renewal_round =
  rr_Done :: bool
  rr_Identity :: "Identity option"
  rr_Now :: gotime
  rr_DoneInSleep :: bool
  rr_Current :: "Identity option"
  rr_Later :: gotime
  rr_Outcome :: "go_error option"
  rr_DoneInCall :: bool
  rr_DoneInBackoff :: bool

datatype renewal_event = Slept duration | Refreshed string | BackedOff duration

definition renewal_step ::
  "(bytes \<Rightarrow> bytes) \<Rightarrow> duration \<Rightarrow> renewal_round \<Rightarrow> renewal_event list \<times> duration option" where
  "renewal_step sha backoff r =
     (if rr_Done r then ([], None)
      else case rr_Identity r of
        None \<Rightarrow> ([], None)
      | Some identity \<Rightarrow>
          (let delay = credentialRenewalDelay sha identity (rr_Now r) in
           if rr_DoneInSleep r then ([Slept delay], None)
           else case rr_Current r of
             None \<Rightarrow> ([Slept delay], None)
           | Some current \<Rightarrow>
               if credentialRenewalDelay sha current (rr_Later r) > 0 then ([Slept delay], Some backoff)
               else (let evs = [Slept delay, Refreshed (AccessToken current)] in
                 case rr_Outcome r of
                   None \<Rightarrow> (evs, Some (5 * second))
                 | Some err \<Rightarrow>
                     if rr_DoneInCall r then (evs, None)
                     else if permanentCredentialRejection err then (evs, None)
                     else if rr_DoneInBackoff r then (evs @ [BackedOff backoff], None)
                     else (evs @ [BackedOff backoff], Some (min minute (int64 (backoff * 2)))))))"

text \<open>The loop over the rounds it observes; it starts with a backoff of five seconds.\<close>

fun renewal_loop :: "(bytes \<Rightarrow> bytes) \<Rightarrow> duration \<Rightarrow> renewal_round list \<Rightarrow> renewal_event list list" where
  "renewal_loop sha backoff [] = []"
| "renewal_loop sha backoff (r # rs) =
     (case renewal_step sha backoff r of
        (evs, None) \<Rightarrow> [evs]
      | (evs, Some b) \<Rightarrow> evs # renewal_loop sha b rs)"

definition runCredentialRenewal :: "(bytes \<Rightarrow> bytes) \<Rightarrow> renewal_round list \<Rightarrow> renewal_event list list" where
  "runCredentialRenewal sha rounds = renewal_loop sha (5 * second) rounds"

section \<open>Facts on the delays\<close>

definition shave_ok :: "(duration \<Rightarrow> duration) \<Rightarrow> bool" where
  "shave_ok shave \<longleftrightarrow> (\<forall>d>0. 0 \<le> shave d \<and> 5 * shave d \<le> d)"

text \<open>A reconnect interval for which the multiplication does not wrap.\<close>

abbreviation (input) sane_interval :: "int \<Rightarrow> bool" where
  "sane_interval reconnect \<equiv> reconnect \<le> 9000000000"

lemma baseInterval_sane:
  assumes "sane_interval reconnect"
  shows "baseInterval reconnect = max reconnect 1 * second" and "second \<le> baseInterval reconnect"
    and "baseInterval reconnect < 2 ^ 63" and "even (baseInterval reconnect)"
proof -
  have "max reconnect 1 * second < 2 ^ 63" "1 \<le> max reconnect 1" using assms by (auto simp: max_def)
  then show e: "baseInterval reconnect = max reconnect 1 * second"
    by (simp add: baseInterval_def)
  show "second \<le> baseInterval reconnect" "baseInterval reconnect < 2 ^ 63" "even (baseInterval reconnect)"
    using assms unfolding e by (auto simp: max_def)
qed

lemma jitter_bounds:
  assumes "shave_ok shave" and "second \<le> d"
  shows "second \<le> jitter shave d" and "jitter shave d \<le> d" and "4 * d \<le> 5 * jitter shave d"
proof -
  have "0 \<le> shave d" "5 * shave d \<le> d" using assms by (auto simp: shave_ok_def)
  with assms(2) show "second \<le> jitter shave d" "jitter shave d \<le> d" "4 * d \<le> 5 * jitter shave d"
    by (auto simp: jitter_def Let_def)
qed

lemma backoff_loop_closed:
  assumes "even limit" and "limit < 2 ^ 63" and "0 < delay" and "delay \<le> limit"
  shows "backoff_loop limit n delay = min limit (delay * 2 ^ n)"
  using assms(3,4)
proof (induction n arbitrary: delay)
  case 0
  then show ?case by simp
next
  case (Suc n)
  show ?case
  proof (cases "delay \<ge> limit div 2")
    case True
    with assms(1) have "limit \<le> delay * 2" by auto
    also have "\<dots> \<le> delay * 2 ^ Suc n" using Suc.prems(1) by simp
    finally show ?thesis using True by simp
  next
    case False
    with assms(1) have l: "delay * 2 \<le> limit" by auto
    with assms(2) Suc.prems have "int64 (delay * 2) = delay * 2" by simp
    with False Suc.IH [of "delay * 2"] Suc.prems l show ?thesis by (simp add: mult.assoc)
  qed
qed

lemma backoffDelay_closed:
  assumes "0 < base" and "even base" and "even limit" and "base < 2 ^ 63" and "limit < 2 ^ 63"
  shows "backoffDelay base limit attempt = min (max base limit) (base * 2 ^ nat (attempt - 1))"
proof -
  have "backoffDelay base limit attempt = backoff_loop (max base limit) (nat (attempt - 1)) base"
    using assms(1) by (simp add: backoffDelay_def Let_def max_def)
  also have "\<dots> = min (max base limit) (base * 2 ^ nat (attempt - 1))"
    using assms by (intro backoff_loop_closed) (auto simp: max_def)
  finally show ?thesis .
qed

lemma backoffDelay_range:
  assumes "second \<le> base" and "even base" and "even limit" and "base < 2 ^ 63" and "limit < 2 ^ 63"
  shows "base \<le> backoffDelay base limit attempt" and "backoffDelay base limit attempt \<le> max base limit"
proof -
  have "backoffDelay base limit attempt = min (max base limit) (base * 2 ^ nat (attempt - 1))"
    using assms by (intro backoffDelay_closed) simp_all
  moreover have "base * 1 \<le> base * 2 ^ nat (attempt - 1)" using assms(1) by (intro mult_left_mono) auto
  ultimately show "base \<le> backoffDelay base limit attempt" "backoffDelay base limit attempt \<le> max base limit" by simp_all
qed

lemma clampHint_range:
  assumes "sane_interval reconnect"
  shows "second \<le> clampHint reconnect d" and "baseInterval reconnect \<le> clampHint reconnect d \<or> clampHint reconnect d = retryServerHintCap"
    and "clampHint reconnect d \<le> max (baseInterval reconnect) retryServerHintCap"
  using baseInterval_sane(2) [OF assms] by (simp_all add: clampHint_def Let_def max_def)

lemma retryAfterHint_range:
  assumes "sane_interval reconnect" and "retryAfterHint ParseTime reconnect now err = Some h"
  shows "second \<le> h" and "h \<le> max (baseInterval reconnect) retryServerHintCap"
proof -
  from assms(2) obtain d where "h = clampHint reconnect d"
    by (auto simp: retryAfterHint_def Let_def split: option.splits if_splits prod.splits)
  with clampHint_range [OF assms(1)] show "second \<le> h" "h \<le> max (baseInterval reconnect) retryServerHintCap" by auto
qed

text \<open>The largest delay before jitter, by the kind of failure.\<close>

definition delay_cap :: "(bytes \<Rightarrow> gotime option) \<Rightarrow> int \<Rightarrow> gotime \<Rightarrow> go_error option \<Rightarrow> duration" where
  "delay_cap ParseTime reconnect now e =
     (case e of
        None \<Rightarrow> baseInterval reconnect
      | Some err \<Rightarrow>
          if retryAfterHint ParseTime reconnect now err \<noteq> None then max (baseInterval reconnect) retryServerHintCap
          else if isAuthRejection err then retryAuthMaxDelay
          else max (baseInterval reconnect) retryMaxDelay)"

text \<open>
  Every delay of a retry loop is at least one second and at most the cap of its kind of failure:
  the reconnect interval after a clean close, 30 minutes for a server hint, 15 minutes after a refused
  credential and 5 minutes otherwise (never below the reconnect interval), whatever the number of
  failures before; the jitter takes at most a fifth, so a refused credential waits at least 48 seconds.
\<close>

theorem next_delay_bounds:
  assumes "shave_ok shave" and "sane_interval reconnect"
    and "next_delay shave ParseTime reconnect now e p = (d, p')"
  shows "second \<le> d \<and> d \<le> delay_cap ParseTime reconnect now e \<and>
    (e = Some err \<and> isAuthRejection err \<and> retryAfterHint ParseTime reconnect now err = None \<longrightarrow> 48 * second \<le> d)"
proof -
  note B = baseInterval_sane [OF assms(2)]
  have base: "second \<le> jitter shave b \<and> jitter shave b \<le> b \<and> 4 * b \<le> 5 * jitter shave b" if "second \<le> b" for b
    using jitter_bounds [OF assms(1) that] by simp
  show ?thesis
  proof (cases e)
    case None
    with assms(3) base [OF B(2)] show ?thesis by (auto simp: next_delay_def delay_cap_def)
  next
    case (Some er)
    define n where "n = int64 (rp_attempt p + 1)"
    consider (hint) h where "retryAfterHint ParseTime reconnect now er = Some h"
      | (auth) "retryAfterHint ParseTime reconnect now er = None" "isAuthRejection er"
      | (other) "retryAfterHint ParseTime reconnect now er = None" "\<not> isAuthRejection er"
      by (cases "retryAfterHint ParseTime reconnect now er") auto
    then show ?thesis
    proof cases
      case hint
      with retryAfterHint_range [OF assms(2) hint] base [of h] assms(3) Some show ?thesis
        by (auto simp: next_delay_def delay_cap_def Let_def)
    next
      case auth
      have "60 * second \<le> backoffDelay (60 * second) (15 * minute) n" "backoffDelay (60 * second) (15 * minute) n \<le> 15 * minute"
        using backoffDelay_range [of "60 * second" "15 * minute" n] by simp_all
      with base [of "backoffDelay (60 * second) (15 * minute) n"] assms(3) Some auth show ?thesis
        by (auto simp: next_delay_def delay_cap_def Let_def n_def)
    next
      case other
      have "baseInterval reconnect \<le> backoffDelay (baseInterval reconnect) (5 * minute) n"
          "backoffDelay (baseInterval reconnect) (5 * minute) n \<le> max (baseInterval reconnect) (5 * minute)"
        using backoffDelay_range [of "baseInterval reconnect" "5 * minute" n] B by simp_all
      with base [of "backoffDelay (baseInterval reconnect) (5 * minute) n"] B(2) assms(3) Some other show ?thesis
        by (auto simp: next_delay_def delay_cap_def Let_def n_def)
    qed
  qed
qed

text \<open>
  The doubling loop of \<open>backoffDelay\<close> computes the exponential it stands for, capped: with an even
  base and an even limit (both are multiples of a second) the delay of attempt \<open>n\<close> is
  \<open>base * 2^(n-1)\<close> or the limit, whichever is less, for every \<open>n\<close> however large; no step overflows.
\<close>

theorem backoff_closed_form:
  assumes "0 < base" and "even base" and "even limit" and "base < 2 ^ 63" and "limit < 2 ^ 63"
  shows "backoffDelay base limit attempt = min (max base limit) (base * 2 ^ nat (attempt - 1))"
  using assms by (rule backoffDelay_closed)

text \<open>
  A \<open>Retry-After\<close> of 292 years or more overflows the multiplication with a second and becomes
  negative: instead of the 30 minutes of the cap, the client waits one reconnect interval.
\<close>

theorem retry_after_overflow:
  assumes "sane_interval reconnect" and "Atoi raw = Some n" and "9223372037 \<le> n" and "n \<le> 13835058055"
    and "er_Connect err = Some (c, raw)"
  shows "retryAfterHint ParseTime reconnect now err = Some (baseInterval reconnect)"
proof -
  have "raw \<noteq> []" using assms(2) by (auto simp: Atoi_def)
  moreover have "int64 n = n" using assms(3,4) by simp
  moreover have "(n * second + 2 ^ 63) mod 2 ^ 64 = (n * second + 2 ^ 63 - 2 ^ 64) mod 2 ^ 64"
    by (metis minus_mod_self2)
  moreover have "(n * second + 2 ^ 63 - 2 ^ 64) mod 2 ^ 64 = n * second + 2 ^ 63 - (2 :: int) ^ 64"
    using assms(3,4) by (intro mod_pos_pos_trivial) auto
  ultimately have "int64 (int64 n * second) < 0" using assms(3,4) by (simp add: int64_def)
  with baseInterval_sane(2) [OF assms(1)] have "clampHint reconnect (int64 (int64 n * second)) = baseInterval reconnect"
    by (simp add: clampHint_def Let_def)
  with assms(2,3,5) \<open>raw \<noteq> []\<close> show ?thesis by (simp add: retryAfterHint_def)
qed

section \<open>Facts on the renewal\<close>

text \<open>What the backoff of the loop is allowed to be.\<close>

abbreviation (input) backoff_ok :: "duration \<Rightarrow> bool" where
  "backoff_ok b \<equiv> 5 * second \<le> b \<and> b \<le> minute"

text \<open>The events of a round are in this shape: sleep, then at most one refresh, then at most one backoff.\<close>

inductive round_ok :: "(bytes \<Rightarrow> bytes) \<Rightarrow> renewal_round \<Rightarrow> renewal_event list \<Rightarrow> bool" for sha r where
  nothing: "round_ok sha r []"
| slept: "rr_Identity r = Some i \<Longrightarrow> d = credentialRenewalDelay sha i (rr_Now r) \<Longrightarrow> round_ok sha r [Slept d]"
| refreshed: "rr_Identity r = Some i \<Longrightarrow> d = credentialRenewalDelay sha i (rr_Now r) \<Longrightarrow> rr_Current r = Some j \<Longrightarrow>
    credentialRenewalDelay sha j (rr_Later r) = 0 \<Longrightarrow> round_ok sha r [Slept d, Refreshed (AccessToken j)]"
| failed: "rr_Identity r = Some i \<Longrightarrow> d = credentialRenewalDelay sha i (rr_Now r) \<Longrightarrow> rr_Current r = Some j \<Longrightarrow>
    credentialRenewalDelay sha j (rr_Later r) = 0 \<Longrightarrow> rr_Outcome r = Some err \<Longrightarrow> \<not> permanentCredentialRejection err \<Longrightarrow>
    backoff_ok b \<Longrightarrow> round_ok sha r [Slept d, Refreshed (AccessToken j), BackedOff b]"

lemma credentialRenewalDelay_nonneg: "0 \<le> credentialRenewalDelay sha i now"
  by (simp add: credentialRenewalDelay_def)

lemma renewal_step_ok:
  assumes "backoff_ok b" and "renewal_step sha b r = (evs, next)"
  shows "round_ok sha r evs" and "next = Some b' \<Longrightarrow> backoff_ok b'"
proof -
  show "round_ok sha r evs"
    using assms credentialRenewalDelay_nonneg
    by (auto simp: renewal_step_def Let_def not_less order_antisym
        intro!: round_ok.intros split: if_splits option.splits)
  have "int64 (b * 2) = b * 2" using assms(1) by simp
  then show "backoff_ok b'" if "next = Some b'"
    using assms that by (auto simp: renewal_step_def Let_def min_def split: if_splits option.splits)
qed

text \<open>The loop ends with the round that is refused for good.\<close>

lemma renewal_step_stops:
  assumes "renewal_step sha b r = (evs, next)" and "rr_Outcome r = Some err" and "permanentCredentialRejection err"
    and "Refreshed t \<in> set evs"
  shows "next = None"
  using assms by (auto simp: renewal_step_def Let_def split: if_splits option.splits)

lemma renewal_loop_ok:
  assumes "backoff_ok b" and "(r, evs) \<in> set (zip rounds (renewal_loop sha b rounds))"
  shows "round_ok sha r evs"
  using assms
proof (induction rounds arbitrary: b)
  case Nil
  then show ?case by simp
next
  case (Cons x xs)
  obtain ys n where s: "renewal_step sha b x = (ys, n)" by force
  with Cons renewal_step_ok [OF Cons.prems(1) s] show ?case by (cases n) auto
qed

lemma renewal_loop_stops:
  assumes "renewal_loop sha b (rs @ r # rest) = before @ evs # after" and "length before = length rs"
    and "rr_Outcome r = Some err" and "permanentCredentialRejection err" and "Refreshed t \<in> set evs"
  shows "after = []"
  using assms(1,2)
proof (induction rs arbitrary: b before)
  case Nil
  obtain ys n where s: "renewal_step sha b r = (ys, n)" by force
  with Nil renewal_step_stops [OF s assms(3,4)] assms(5) show ?case by (cases n) auto
next
  case (Cons x xs)
  obtain ys n where s: "renewal_step sha b x = (ys, n)" by force
  from Cons.prems(2) obtain z zs where "before = z # zs" by (cases before) auto
  with Cons s show ?case by (cases n) auto
qed

text \<open>
  The renewal loop calls \<open>refreshCredentials\<close> only for an identity whose renewal is due at that
  moment, with the token of that identity, at most once per round after its sleep; between a failure and
  the next round it waits between five seconds and a minute; and after a refused credential it makes no
  further round.
\<close>

theorem renewal_paced:
  assumes "(r, evs) \<in> set (zip rounds (runCredentialRenewal sha rounds))"
  shows "round_ok sha r evs \<and>
    (rounds = rs @ r # rest \<and> runCredentialRenewal sha rounds = before @ evs # after \<and> length before = length rs \<and>
     rr_Outcome r = Some err \<and> permanentCredentialRejection err \<and> Refreshed t \<in> set evs \<longrightarrow> after = [])"
proof
  show "round_ok sha r evs"
    using assms by (intro renewal_loop_ok [where b = "5 * second"]) (auto simp: runCredentialRenewal_def)
  show "rounds = rs @ r # rest \<and> runCredentialRenewal sha rounds = before @ evs # after \<and> length before = length rs \<and>
     rr_Outcome r = Some err \<and> permanentCredentialRejection err \<and> Refreshed t \<in> set evs \<longrightarrow> after = []"
    using renewal_loop_stops [of sha "5 * second" rs r rest before evs after err t]
    by (auto simp: runCredentialRenewal_def)
qed
section \<open>Sample values for the witnesses\<close>

definition conn_error :: "conn_code \<Rightarrow> bytes \<Rightarrow> go_error" where
  "conn_error c header = \<lparr>er_Connect = Some (c, header), er_Canceled = False, er_DeadlineExceeded = False,
     er_Network = False, er_Message = []\<rparr>"

definition sample_member :: Identity where
  "sample_member = Identity_zero\<lparr>AgentID := ''a1'', AccessToken := ''at'', AccessTokenExpiresAt := 900 * second,
     RefreshToken := ''rt'', RefreshTokenExpiresAt := 9000 * second\<rparr>"

abbreviation sample_digest :: "bytes \<Rightarrow> bytes" where
  "sample_digest \<equiv> \<lambda>_. [CHR 0x01, CHR 0x02]"

definition sample_round :: "go_error option \<Rightarrow> renewal_round" where
  "sample_round outcome = \<lparr>rr_Done = False, rr_Identity = Some sample_member, rr_Now = 500 * second, rr_DoneInSleep = False,
     rr_Current = Some sample_member, rr_Later = 600 * second, rr_Outcome = outcome, rr_DoneInCall = False,
     rr_DoneInBackoff = False\<rparr>"

lemma sample_round_steps:
  "renewal_step sample_digest b (sample_round (Some (conn_error CodeUnavailable []))) =
     ([Slept (82 * second), Refreshed ''at'', BackedOff b], Some (min minute (int64 (b * 2))))"
  "renewal_step sample_digest b (sample_round (Some (conn_error CodeUnauthenticated []))) =
     ([Slept (82 * second), Refreshed ''at''], None)"
  by (simp_all add: renewal_step_def sample_round_def sample_member_def credentialRenewalDelay_def renewal_spread_def
      Let_def time_sub_def conn_error_def permanentCredentialRejection_def CodeOf_def Identity_zero_def)

lemma sample_renewal:
  "runCredentialRenewal sample_digest
     [sample_round (Some (conn_error CodeUnavailable [])), sample_round (Some (conn_error CodeUnauthenticated [])), sample_round None] =
   [[Slept (82 * second), Refreshed ''at'', BackedOff (5 * second)], [Slept (82 * second), Refreshed ''at'']]"
  by (simp add: runCredentialRenewal_def sample_round_steps)

section \<open>Witnesses\<close>

text \<open>A first refused credential is retried after 48 seconds when the jitter takes all it may.\<close>

theorem next_delay_bounds_witness:
  "next_delay (\<lambda>d. d div 5) (\<lambda>_. None) 5 0 (Some (conn_error CodeUnauthenticated [])) \<lparr>rp_attempt = 0\<rparr> = (48 * second, \<lparr>rp_attempt = 1\<rparr>) \<and>
    48 * second \<le> delay_cap (\<lambda>_. None) 5 0 (Some (conn_error CodeUnauthenticated []))"
proof -
  have n: "next_delay (\<lambda>d. d div 5) (\<lambda>_. None) 5 0 (Some (conn_error CodeUnauthenticated [])) \<lparr>rp_attempt = 0\<rparr> = (48 * second, \<lparr>rp_attempt = 1\<rparr>)"
    by (simp add: next_delay_def conn_error_def retryAfterHint_def isAuthRejection_def backoffDelay_def Let_def jitter_def)
  have "shave_ok (\<lambda>d. d div 5)" by (auto simp: shave_ok_def)
  from next_delay_bounds [OF this _ n] n show ?thesis by simp
qed

theorem backoff_closed_form_witness:
  "backoffDelay (5 * second) (300 * second) 3 = 20 * second \<and> backoffDelay (5 * second) (300 * second) 4000 = 300 * second"
proof -
  have "(2 :: int) ^ 6 \<le> 2 ^ 3999" by (rule power_increasing) simp_all
  then show ?thesis
    using backoff_closed_form [of "5 * second" "300 * second" 3] backoff_closed_form [of "5 * second" "300 * second" 4000]
    by (simp add: min_def)
qed

theorem retry_after_overflow_witness:
  "retryAfterHint (\<lambda>_. None) 5 0 (conn_error CodeResourceExhausted ''9223372037'') = Some (5 * second) \<and>
   retryAfterHint (\<lambda>_. None) 5 0 (conn_error CodeResourceExhausted ''9000000000'') = Some (30 * minute)"
proof -
  have "Atoi ''9223372037'' = Some 9223372037" "Atoi ''9000000000'' = Some 9000000000"
    by (simp_all add: Atoi_def digit_val_def)
  moreover have "retryAfterHint (\<lambda>_. None) 5 0 (conn_error CodeResourceExhausted ''9223372037'') = Some (baseInterval 5)"
    using calculation(1) by (intro retry_after_overflow) (auto simp: conn_error_def)
  ultimately show ?thesis
    by (simp add: baseInterval_def retryAfterHint_def conn_error_def clampHint_def Let_def)
qed

theorem renewal_paced_witness:
  "round_ok sample_digest (sample_round (Some (conn_error CodeUnavailable [])))
     [Slept (82 * second), Refreshed ''at'', BackedOff (5 * second)]"
proof -
  let ?rounds = "[sample_round (Some (conn_error CodeUnavailable [])), sample_round (Some (conn_error CodeUnauthenticated [])), sample_round None]"
  have "(sample_round (Some (conn_error CodeUnavailable [])), [Slept (82 * second), Refreshed ''at'', BackedOff (5 * second)])
      \<in> set (zip ?rounds (runCredentialRenewal sample_digest ?rounds))"
    by (simp add: sample_renewal)
  from renewal_paced [OF this] show ?thesis by simp
qed

end
