(* ===== verification/Enrollment.thy ===== *)
theory Enrollment
  imports HostPolicy Retry
begin

text \<open>
  \<open>core/enrollment\<close> (\<open>client.go\<close>, \<open>refresh_v2.go\<close>): the device grant by polling, re-authentication of a
  known machine, and the rotation of the credential pair with its signed, bound response. The remote
  service is a parameter: the reply to each request, and the list of poll replies. Key generation,
  Ed25519, SHA-256, UUID and URL parsing, the JSON and protobuf codecs are parameters too.
\<close>

section \<open>Data\<close>

abbreviation minimumPollInterval :: duration where
  "minimumPollInterval \<equiv> 2 * second"

abbreviation defaultPollInterval :: duration where
  "defaultPollInterval \<equiv> 5 * second"

abbreviation maximumPollInterval :: duration where
  "maximumPollInterval \<equiv> 30 * second"

record AgentCredentials =
  is_AgentId :: string
  is_AccessToken :: string
  is_AccessTokenExpiresAt :: timestamp
  is_RefreshToken :: string
  is_RefreshTokenExpiresAt :: timestamp
  is_Scopes :: "string list"

datatype enrollment_state = PENDING | SLOW_DOWN | APPROVED | DENIED | EXPIRED | OTHER_ENROLLMENT

record poll_reply =
  pl_PollInterval :: duration
  pl_State :: enrollment_state
  pl_Credentials :: "AgentCredentials option"
  pl_Error :: "string option"

text \<open>What ends the wait before a poll, and the poll itself.\<close>

datatype poll_event = Cancelled | PollRpcFailed | Reply poll_reply

record begin_request =
  bq_PublicKey :: bytes
  bq_KeyId :: string
  bq_Scopes :: "string list"
  bq_ExistingAgentId :: "string option"

record begin_reply =
  bg_VerificationUri :: string
  bg_VerificationUriComplete :: string
  bg_UserCode :: string
  bg_ExpiresAt :: timestamp
  bg_PollInterval :: duration
  bg_DeviceCode :: string

record login_instruction =
  li_VerificationURI :: string
  li_VerificationURIComplete :: string
  li_UserCode :: string
  li_ExpiresAt :: gotime

datatype enroll_error =
    EndpointRequired
  | EndpointInvalid
  | EndpointScheme
  | EndpointNoHost
  | KeypairFailed
  | StoredKeyUnusable cred_error
  | KeypairMismatch
  | PublicKeyEncoding
  | BeginFailed
  | NoDeviceCode
  | ContextDone
  | PollFailed
  | ApprovedWithoutCredentials
  | EnrollmentDenied
  | EnrollmentExpired
  | EnrollmentFailed
  | UnknownState
  | NoAgentID
  | DifferentMachine
  | NoRefreshToken
  | NoPendingRefresh
  | NoPinnedKeys
  | BadPendingID
  | ProofEncodingFailed
  | RefreshRpcFailed go_error
  | ResponseRejected
  | ResponseMissingSignature
  | NoSupportedAlgorithm
  | EverySignatureRequired
  | InsufficientSignatures
  | EmptyEnvelope
  | NoKeyVerified
  | PayloadMismatch

section \<open>Endpoints and intervals\<close>

record url_full = url_parts +
  u_Path :: path

text \<open>\<open>url_string\<close> renders a parsed URL again.\<close>

definition normalizeEndpoint ::
  "(string \<Rightarrow> url_full option) \<Rightarrow> (url_full \<Rightarrow> string) \<Rightarrow> string \<Rightarrow> enroll_error + string" where
  "normalizeEndpoint url_parse url_string endpoint =
     (let trimmed = TrimSpace endpoint in
      if trimmed = [] then Inl EndpointRequired
      else
        (let trimmed = (if \<not> contains ''://'' trimmed then ''https://'' @ trimmed else trimmed) in
         case url_parse trimmed of
           None \<Rightarrow> Inl EndpointInvalid
         | Some parsed \<Rightarrow>
             if u_Scheme parsed \<noteq> ''http'' \<and> u_Scheme parsed \<noteq> ''https'' then Inl EndpointScheme
             else if u_Host parsed = [] then Inl EndpointNoHost
             else Inr (url_string (parsed\<lparr>u_Path := TrimSuffix (u_Path parsed) ''/'', u_RawQuery := [], u_Fragment := []\<rparr>))))"

definition boundInterval :: "duration \<Rightarrow> duration" where
  "boundInterval value =
     (if value \<le> 0 then defaultPollInterval
      else if value < minimumPollInterval then minimumPollInterval
      else if value > maximumPollInterval then maximumPollInterval
      else value)"

section \<open>The grant\<close>

text \<open>The keys of an enrollment: fresh ones, or the stored pair when it is consistent.\<close>

definition enroll_keys ::
  "(string \<times> string \<times> string) option \<Rightarrow> Identity option \<Rightarrow> enroll_error + (string \<times> string \<times> string)" where
  "enroll_keys fresh existing =
     (case fresh of
        None \<Rightarrow> Inl KeypairFailed
      | Some k \<Rightarrow>
          (case existing of
             None \<Rightarrow> Inr k
           | Some i \<Rightarrow>
               (case SigningKey b64_decode i of
                  Inl err \<Rightarrow> Inl (StoredKeyUnusable err)
                | Inr private \<Rightarrow>
                    if b64_decode (PublicKey i) \<noteq> Some (drop 32 private) then Inl KeypairMismatch
                    else Inr (PublicKey i, PrivateKey i, KeyID i))))"

text \<open>
  The poll loop: the waits it makes and its result, \<open>None\<close> while it is still polling when the list of
  events ends. \<open>issue\<close> builds the identity from the issued credentials.
\<close>

fun poll_loop ::
  "(AgentCredentials \<Rightarrow> Identity) \<Rightarrow> duration \<Rightarrow> poll_event list \<Rightarrow>
     duration list \<times> (enroll_error + Identity) option" where
  "poll_loop issue interval [] = ([], None)"
| "poll_loop issue interval (Cancelled # es) = ([interval], Some (Inl ContextDone))"
| "poll_loop issue interval (PollRpcFailed # es) = ([interval], Some (Inl PollFailed))"
| "poll_loop issue interval (Reply r # es) =
     (let next = (if pl_PollInterval r > 0 then boundInterval (pl_PollInterval r) else interval) in
      case pl_State r of
        PENDING \<Rightarrow> (case poll_loop issue next es of (ws, res) \<Rightarrow> (interval # ws, res))
      | SLOW_DOWN \<Rightarrow>
          (case poll_loop issue (boundInterval (next * 2)) es of (ws, res) \<Rightarrow> (interval # ws, res))
      | APPROVED \<Rightarrow>
          (case pl_Credentials r of
             None \<Rightarrow> ([interval], Some (Inl ApprovedWithoutCredentials))
           | Some issued \<Rightarrow> ([interval], Some (Inr (issue issued))))
      | DENIED \<Rightarrow> ([interval], Some (Inl EnrollmentDenied))
      | EXPIRED \<Rightarrow> ([interval], Some (Inl EnrollmentExpired))
      | OTHER_ENROLLMENT \<Rightarrow>
          ([interval], Some (Inl (if pl_Error r \<noteq> None then EnrollmentFailed else UnknownState))))"

text \<open>What the operator is shown.\<close>

definition login_of :: "begin_reply \<Rightarrow> login_instruction" where
  "login_of b = \<lparr>li_VerificationURI = bg_VerificationUri b,
     li_VerificationURIComplete = bg_VerificationUriComplete b, li_UserCode = bg_UserCode b,
     li_ExpiresAt = timeOrZero (bg_ExpiresAt b)\<rparr>"

definition issued_identity :: "string \<Rightarrow> gotime \<Rightarrow> string \<times> string \<times> string \<Rightarrow> AgentCredentials \<Rightarrow> Identity" where
  "issued_identity endpoint now keys issued =
     (case keys of (publicKey, privateKey, keyID) \<Rightarrow>
        Identity_zero\<lparr>Endpoint := endpoint, AgentID := is_AgentId issued, PrivateKey := privateKey,
          PublicKey := publicKey, KeyID := keyID, AccessToken := is_AccessToken issued,
          AccessTokenExpiresAt := timeOrZero (is_AccessTokenExpiresAt issued),
          RefreshToken := is_RefreshToken issued,
          RefreshTokenExpiresAt := timeOrZero (is_RefreshTokenExpiresAt issued),
          Scopes := is_Scopes issued, EnrolledAt := now\<rparr>)"

text \<open>The request sent, what was shown, the waits, and the result.\<close>

definition enroll ::
  "(begin_request \<Rightarrow> begin_reply option) \<Rightarrow> poll_event list \<Rightarrow> (string \<times> string \<times> string) option \<Rightarrow> gotime \<Rightarrow>
     string \<Rightarrow> string list \<Rightarrow> Identity option \<Rightarrow>
     login_instruction option \<times> duration list \<times> (enroll_error + Identity) option" where
  "enroll service polls fresh now endpoint scopes existing =
     (case enroll_keys fresh existing of
        Inl err \<Rightarrow> (None, [], Some (Inl err))
      | Inr keys \<Rightarrow>
          (case b64_decode (fst keys) of
             None \<Rightarrow> (None, [], Some (Inl PublicKeyEncoding))
           | Some rawPublic \<Rightarrow>
               (case service \<lparr>bq_PublicKey = rawPublic, bq_KeyId = snd (snd keys), bq_Scopes = scopes,
                        bq_ExistingAgentId = map_option AgentID existing\<rparr> of
                  None \<Rightarrow> (None, [], Some (Inl BeginFailed))
                | Some b \<Rightarrow>
                    if TrimSpace (bg_DeviceCode b) = [] then (Some (login_of b), [], Some (Inl NoDeviceCode))
                    else (Some (login_of b),
                      poll_loop (issued_identity endpoint now keys) (boundInterval (bg_PollInterval b)) polls))))"

definition Reauth ::
  "(begin_request \<Rightarrow> begin_reply option) \<Rightarrow> poll_event list \<Rightarrow> (string \<times> string \<times> string) option \<Rightarrow> gotime \<Rightarrow>
     string \<Rightarrow> Identity \<Rightarrow> (enroll_error + Identity) option" where
  "Reauth service polls fresh now endpoint identity =
     (if AgentID identity = [] then Some (Inl NoAgentID)
      else case enroll service polls fresh now endpoint (Scopes identity) (Some identity) of
        (_, _, None) \<Rightarrow> None
      | (_, _, Some (Inl err)) \<Rightarrow> Some (Inl err)
      | (_, _, Some (Inr next)) \<Rightarrow>
          if AgentID next \<noteq> AgentID identity then Some (Inl DifferentMachine)
          else Some (Inr (next\<lparr>ControlPlaneKeys := ControlPlaneKeys identity,
            PolicyAlgorithms := PolicyAlgorithms identity, PolicyRequireAll := PolicyRequireAll identity,
            PolicyMinimumSignatures := PolicyMinimumSignatures identity\<rparr>)))"

section \<open>Trust bundles\<close>

record wire_key =
  wk_Algorithm :: int
  wk_Value :: bytes
  wk_KeyId :: string
  wk_NotBefore :: timestamp
  wk_NotAfter :: timestamp

record trust_bundle =
  tb_SigningKeys :: "wire_key list"
  tb_AcceptedAlgorithms :: "int list"
  tb_RequireAll :: bool
  tb_MinimumSignatures :: u32

definition pin_of :: "wire_key \<Rightarrow> PinnedKey" where
  "pin_of key = \<lparr>pk_Algorithm = wk_Algorithm key, pk_Value = b64_encode (wk_Value key), pk_KeyID = wk_KeyId key,
     pk_NotBefore = timeOrZero (wk_NotBefore key),
     pk_NotAfter = (case wk_NotAfter key of TsValid t \<Rightarrow> Some t | _ \<Rightarrow> None)\<rparr>"

definition FetchTrustBundle ::
  "(string \<Rightarrow> trust_bundle option) \<Rightarrow> string \<Rightarrow> (PinnedKey list \<times> int list \<times> bool \<times> u32) option" where
  "FetchTrustBundle service agentID =
     (case service agentID of
        None \<Rightarrow> None
      | Some b \<Rightarrow> Some (map pin_of (tb_SigningKeys b), tb_AcceptedAlgorithms b, tb_RequireAll b, tb_MinimumSignatures b))"

section \<open>The refresh proof and its response\<close>

record refreshV2Request =
  rq_AgentID :: string
  rq_RefreshToken :: string
  rq_RequestID :: string
  rq_Generation :: "u64 option"
  rq_Timestamp :: string
  rq_Nonce :: string

record refreshV2Response =
  rs_Protocol :: int
  rs_AgentID :: string
  rs_RequestID :: string
  rs_Generation :: u64
  rs_CredentialsSHA256 :: string

text \<open>
  \<open>uuid_ok\<close> says whether \<open>uuid.Parse\<close> accepts, \<open>enc\<close> is the JSON encoder, \<open>sign\<close> Ed25519 signing;
  \<open>stamp\<close> and \<open>nonce\<close> are the formatted time and the fresh UUID of this call.
\<close>

definition signRefreshV2 ::
  "(string \<Rightarrow> bool) \<Rightarrow> (refreshV2Request \<Rightarrow> bytes option) \<Rightarrow> (bytes \<Rightarrow> bytes \<Rightarrow> bytes) \<Rightarrow> string \<Rightarrow> string \<Rightarrow>
     Identity \<Rightarrow> enroll_error + SignedEnvelope" where
  "signRefreshV2 uuid_ok enc sign stamp nonce identity =
     (case PendingRefresh identity of
        None \<Rightarrow> Inl NoPendingRefresh
      | Some p \<Rightarrow>
          if \<not> uuid_ok (ra_RequestID p) then Inl BadPendingID
          else (case SigningKey b64_decode identity of
                  Inl err \<Rightarrow> Inl (StoredKeyUnusable err)
                | Inr key \<Rightarrow>
                    (case enc \<lparr>rq_AgentID = AgentID identity, rq_RefreshToken = RefreshToken identity,
                          rq_RequestID = ra_RequestID p, rq_Generation = Generation identity,
                          rq_Timestamp = stamp, rq_Nonce = nonce\<rparr> of
                       None \<Rightarrow> Inl ProofEncodingFailed
                     | Some payload \<Rightarrow>
                         Inr \<lparr>se_Payload = payload, se_Signatures =
                           [\<lparr>sig_Algorithm = ED25519, sig_KeyId = KeyID identity, sig_Value = sign key payload\<rparr>]\<rparr>)))"

definition pin_verifies ::
  "(bytes \<Rightarrow> bytes \<Rightarrow> bytes \<Rightarrow> bool) \<Rightarrow> gotime \<Rightarrow> bytes \<Rightarrow> Signature \<Rightarrow> PinnedKey \<Rightarrow> bool" where
  "pin_verifies ed now payload sg pin =
     (if pk_Algorithm pin \<noteq> 1 \<or> (pk_KeyID pin \<noteq> [] \<and> sig_KeyId sg \<noteq> pk_KeyID pin) \<or> now < pk_NotBefore pin \<or>
         (case pk_NotAfter pin of None \<Rightarrow> False | Some na \<Rightarrow> \<not> now < na)
      then False
      else (case b64_decode (pk_Value pin) of
              None \<Rightarrow> False
            | Some raw \<Rightarrow> length raw = 32 \<and> ed raw payload (sig_Value sg)))"

text \<open>The values of the keys that verified; a key is counted once.\<close>

fun pinned_loop ::
  "(bytes \<Rightarrow> bytes \<Rightarrow> bytes \<Rightarrow> bool) \<Rightarrow> gotime \<Rightarrow> bytes \<Rightarrow> Identity \<Rightarrow> Signature list \<Rightarrow> string list \<Rightarrow>
     enroll_error + string list" where
  "pinned_loop ed now payload identity [] verified = Inr verified"
| "pinned_loop ed now payload identity (sg # sgs) verified =
     (case (if sig_Algorithm sg = ED25519 then find (pin_verifies ed now payload sg) (ControlPlaneKeys identity) else None) of
        None \<Rightarrow>
          if PolicyRequireAll identity then Inl EverySignatureRequired
          else pinned_loop ed now payload identity sgs verified
      | Some pin \<Rightarrow> pinned_loop ed now payload identity sgs (List.insert (pk_Value pin) verified))"

definition verifyPinnedEnvelope ::
  "(bytes \<Rightarrow> bytes \<Rightarrow> bytes \<Rightarrow> bool) \<Rightarrow> gotime \<Rightarrow> SignedEnvelope option \<Rightarrow> Identity \<Rightarrow> enroll_error option" where
  "verifyPinnedEnvelope ed now envelope identity =
     (case envelope of
        None \<Rightarrow> Some ResponseMissingSignature
      | Some env \<Rightarrow>
          if se_Signatures env = [] then Some ResponseMissingSignature
          else if \<not> (PolicyAlgorithms identity = [] \<or> 1 \<in> set (PolicyAlgorithms identity)) then Some NoSupportedAlgorithm
          else (case pinned_loop ed now (se_Payload env) identity (se_Signatures env) [] of
                  Inl err \<Rightarrow> Some err
                | Inr verified \<Rightarrow>
                    if length verified < max 1 (unat (PolicyMinimumSignatures identity))
                    then Some InsufficientSignatures else None))"

text \<open>\<open>dec\<close> is the strict JSON decoder (with the bytes left), \<open>pm\<close> the deterministic protobuf encoder.\<close>

definition verifyRefreshV2Response ::
  "(bytes \<Rightarrow> bytes \<Rightarrow> bytes \<Rightarrow> bool) \<Rightarrow> (bytes \<Rightarrow> (refreshV2Response \<times> bytes) option) \<Rightarrow>
     (AgentCredentials \<Rightarrow> bytes option) \<Rightarrow> (bytes \<Rightarrow> bytes) \<Rightarrow> gotime \<Rightarrow> SignedEnvelope option \<Rightarrow> Identity \<Rightarrow>
     AgentCredentials option \<Rightarrow> enroll_error + u64" where
  "verifyRefreshV2Response ed dec pm sha now envelope identity issued =
     (case (envelope, issued, PendingRefresh identity) of
        (Some env, Some iss, Some pending) \<Rightarrow>
          if length (se_Payload env) > 4096 then Inl ResponseRejected
          else (case verifyPinnedEnvelope ed now envelope identity of
                  Some err \<Rightarrow> Inl err
                | None \<Rightarrow>
                    (case dec (se_Payload env) of
                       None \<Rightarrow> Inl ResponseRejected
                     | Some (proof, rest) \<Rightarrow>
                         if \<exists>c \<in> set rest. c \<notin> {CHR '' '', CHR 0x09, CHR 0x0A, CHR 0x0D} then Inl ResponseRejected
                         else if rs_Protocol proof \<noteq> 2 \<or> rs_AgentID proof \<noteq> AgentID identity \<or>
                           is_AgentId iss \<noteq> AgentID identity \<or> rs_RequestID proof \<noteq> ra_RequestID pending \<or>
                           rs_Generation proof = 0
                         then Inl ResponseRejected
                         else if (case Generation identity of None \<Rightarrow> False
                           | Some g \<Rightarrow> g = NOT 0 \<or> rs_Generation proof \<noteq> g + 1)
                         then Inl ResponseRejected
                         else (case pm iss of
                                 None \<Rightarrow> Inl ResponseRejected
                               | Some raw \<Rightarrow>
                                   if rs_CredentialsSHA256 proof \<noteq> hex_encode (sha raw) \<or> is_AccessToken iss = [] \<or>
                                     is_RefreshToken iss = [] \<or> is_AccessToken iss = AccessToken identity \<or>
                                     is_RefreshToken iss = RefreshToken identity
                                   then Inl ResponseRejected
                                   else (case (is_AccessTokenExpiresAt iss, is_RefreshTokenExpiresAt iss) of
                                           (TsValid a, TsValid r) \<Rightarrow>
                                             if \<not> now < a \<or> \<not> now < r then Inl ResponseRejected
                                             else Inr (rs_Generation proof)
                                         | _ \<Rightarrow> Inl ResponseRejected))))
      | _ \<Rightarrow> Inl ResponseRejected)"

text \<open>The identity after a verified response.\<close>

definition rotated :: "Identity \<Rightarrow> u64 \<Rightarrow> AgentCredentials \<Rightarrow> Identity" where
  "rotated identity generation iss =
     (let next = identity\<lparr>Generation := Some generation\<rparr>;
          next = (if is_AgentId iss \<noteq> [] then next\<lparr>AgentID := is_AgentId iss\<rparr> else next);
          next = next\<lparr>AccessToken := is_AccessToken iss,
            AccessTokenExpiresAt := timeOrZero (is_AccessTokenExpiresAt iss)\<rparr>;
          next = (if is_RefreshToken iss \<noteq> [] then next
            \<lparr>RefreshToken := is_RefreshToken iss,
             RefreshTokenExpiresAt := timeOrZero (is_RefreshTokenExpiresAt iss)\<rparr> else next)
      in next\<lparr>Scopes := is_Scopes iss\<rparr>)"

text \<open>
  \<open>trust\<close> answers \<open>GetTrustBundle\<close>, \<open>rpc\<close> answers \<open>RefreshCredentials\<close> with the proof and the
  credentials of the response; \<open>prove\<close> and \<open>check\<close> are \<open>signRefreshV2\<close> and
  \<open>verifyRefreshV2Response\<close> with their parameters.
\<close>

definition Refresh ::
  "(string \<Rightarrow> trust_bundle option) \<Rightarrow> (string \<Rightarrow> SignedEnvelope \<Rightarrow> go_error + (SignedEnvelope option \<times> AgentCredentials option)) \<Rightarrow>
     (Identity \<Rightarrow> enroll_error + SignedEnvelope) \<Rightarrow>
     (SignedEnvelope option \<Rightarrow> Identity \<Rightarrow> AgentCredentials option \<Rightarrow> enroll_error + u64) \<Rightarrow>
     Identity \<Rightarrow> enroll_error + Identity" where
  "Refresh trust rpc prove check identity =
     (if TrimSpace (RefreshToken identity) = [] then Inl NoRefreshToken
      else if PendingRefresh identity = None then Inl NoPendingRefresh
      else
        (case (if ControlPlaneKeys identity \<noteq> [] then Some identity
               else case FetchTrustBundle trust (AgentID identity) of
                 None \<Rightarrow> None
               | Some (keys, algorithms, all, minimum) \<Rightarrow>
                   if keys = [] then None
                   else Some (identity\<lparr>ControlPlaneKeys := keys, PolicyAlgorithms := algorithms,
                          PolicyRequireAll := all, PolicyMinimumSignatures := minimum\<rparr>)) of
           None \<Rightarrow> Inl NoPinnedKeys
         | Some identity \<Rightarrow>
             (case prove identity of
                Inl err \<Rightarrow> Inl err
              | Inr proof \<Rightarrow>
                  (case rpc (RefreshToken identity) proof of
                     Inl err \<Rightarrow> Inl (RefreshRpcFailed err)
                   | Inr (response, issued) \<Rightarrow>
                       (case check response identity issued of
                          Inl err \<Rightarrow> Inl err
                        | Inr generation \<Rightarrow>
                            (case issued of
                               None \<Rightarrow> Inl ResponseRejected
                             | Some iss \<Rightarrow>
                                 Inr (rotated identity generation iss)))))))"

section \<open>Facts\<close>

lemma boundInterval_range: "minimumPollInterval \<le> boundInterval v \<and> boundInterval v \<le> maximumPollInterval"
  by (simp add: boundInterval_def)

lemma poll_loop_waits:
  assumes "minimumPollInterval \<le> interval \<and> interval \<le> maximumPollInterval"
    and "poll_loop issue interval es = (ws, res)"
  shows "(\<forall>w \<in> set ws. minimumPollInterval \<le> w \<and> w \<le> maximumPollInterval) \<and> length ws \<le> length es \<and>
    (res = None \<longleftrightarrow> (\<forall>ev \<in> set es. \<exists>r. ev = Reply r \<and> (pl_State r = PENDING \<or> pl_State r = SLOW_DOWN))) \<and>
    (\<forall>i. res = Some (Inr i) \<longrightarrow> (\<exists>r iss. Reply r \<in> set es \<and> pl_State r = APPROVED \<and> pl_Credentials r = Some iss \<and> i = issue iss))"
  using assms
proof (induction es arbitrary: interval ws)
  case Nil
  then show ?case by simp
next
  case (Cons ev es)
  show ?case
  proof (cases ev)
    case (Reply r)
    define next' where "next' = (if pl_PollInterval r > 0 then boundInterval (pl_PollInterval r) else interval)"
    have n: "minimumPollInterval \<le> next' \<and> next' \<le> maximumPollInterval"
      using Cons.prems(1) boundInterval_range by (simp add: next'_def)
    show ?thesis
    proof (cases "pl_State r = PENDING \<or> pl_State r = SLOW_DOWN")
      case True
      define k where "k = (if pl_State r = PENDING then next' else boundInterval (next' * 2))"
      have k: "minimumPollInterval \<le> k \<and> k \<le> maximumPollInterval"
        using n boundInterval_range by (simp add: k_def)
      obtain ws' where ws': "poll_loop issue k es = (ws', res)" "ws = interval # ws'"
        using Cons.prems(2) True
        by (auto simp: Reply k_def next'_def Let_def split: prod.splits)
      note I = Cons.IH [OF k ws'(1)]
      show ?thesis
      proof (intro conjI)
        show "\<forall>w \<in> set ws. minimumPollInterval \<le> w \<and> w \<le> maximumPollInterval" "length ws \<le> length (ev # es)"
          using I Cons.prems(1) ws'(2) by simp_all
        show "res = None \<longleftrightarrow> (\<forall>ev \<in> set (ev # es). \<exists>r. ev = Reply r \<and> (pl_State r = PENDING \<or> pl_State r = SLOW_DOWN))"
          using I True Reply by simp
        show "\<forall>i. res = Some (Inr i) \<longrightarrow> (\<exists>r iss. Reply r \<in> set (ev # es) \<and> pl_State r = APPROVED \<and>
            pl_Credentials r = Some iss \<and> i = issue iss)"
        proof (intro allI impI)
          fix i
          assume "res = Some (Inr i)"
          with I obtain r' iss where "Reply r' \<in> set es" "pl_State r' = APPROVED" "pl_Credentials r' = Some iss" "i = issue iss"
            by blast
          then show "\<exists>r iss. Reply r \<in> set (ev # es) \<and> pl_State r = APPROVED \<and> pl_Credentials r = Some iss \<and> i = issue iss"
            by auto
        qed
      qed
    next
      case False
      with Cons.prems show ?thesis
        by (cases "pl_State r") (auto simp: Reply Let_def split: option.splits)
    qed
  qed (use Cons.prems in auto)
qed

lemma enroll_Some:
  assumes "enroll service polls fresh now endpoint scopes existing = (li, ws, Some (Inr i))"
  shows "\<exists>keys b iss. enroll_keys fresh existing = Inr keys \<and> i = issued_identity endpoint now keys iss \<and>
    (\<exists>r. Reply r \<in> set polls \<and> pl_State r = APPROVED \<and> pl_Credentials r = Some iss) \<and>
    ws = fst (poll_loop (issued_identity endpoint now keys) (boundInterval b) polls)"
proof -
  obtain keys b where k: "enroll_keys fresh existing = Inr keys"
      "poll_loop (issued_identity endpoint now keys) (boundInterval b) polls = (ws, Some (Inr i))"
    using assms by (auto simp: enroll_def split: sum.splits option.splits if_splits)
  from poll_loop_waits [OF boundInterval_range k(2)] obtain r iss where
    "Reply r \<in> set polls" "pl_State r = APPROVED" "pl_Credentials r = Some iss" "i = issued_identity endpoint now keys iss"
    by blast
  moreover have "ws = fst (poll_loop (issued_identity endpoint now keys) (boundInterval b) polls)" using k(2) by simp
  ultimately show ?thesis using k(1) by blast
qed

lemma pinned_loop_Inr:
  assumes "pinned_loop ed now payload identity sgs acc = Inr verified" and "distinct acc"
  shows "distinct verified \<and> (\<forall>v \<in> set verified. v \<in> set acc \<or>
      (\<exists>sg \<in> set sgs. \<exists>pin \<in> set (ControlPlaneKeys identity). sig_Algorithm sg = ED25519 \<and> pk_Value pin = v \<and>
         pin_verifies ed now payload sg pin)) \<and>
    (PolicyRequireAll identity \<longrightarrow> (\<forall>sg \<in> set sgs. sig_Algorithm sg = ED25519 \<and>
       (\<exists>pin \<in> set (ControlPlaneKeys identity). pin_verifies ed now payload sg pin)))"
  using assms
proof (induction sgs arbitrary: acc)
  case Nil
  then show ?case by simp
next
  case (Cons sg sgs)
  let ?f = "if sig_Algorithm sg = ED25519 then find (pin_verifies ed now payload sg) (ControlPlaneKeys identity) else None"
  show ?case
  proof (cases ?f)
    case None
    with Cons.prems have "\<not> PolicyRequireAll identity" "pinned_loop ed now payload identity sgs acc = Inr verified"
      by (auto split: if_splits)
    with Cons.IH [OF this(2) Cons.prems(2)] show ?thesis by auto
  next
    case (Some pin)
    then have a: "sig_Algorithm sg = ED25519" "find (pin_verifies ed now payload sg) (ControlPlaneKeys identity) = Some pin"
      by (simp_all split: if_splits)
    then have p: "pin \<in> set (ControlPlaneKeys identity)" "pin_verifies ed now payload sg pin"
      by (auto simp: find_Some_iff)
    have "pinned_loop ed now payload identity sgs (List.insert (pk_Value pin) acc) = Inr verified"
      using Cons.prems(1) a by simp
    from Cons.IH [OF this] Cons.prems(2) a(1) p show ?thesis by auto
  qed
qed

lemma verifyPinnedEnvelope_None:
  assumes "verifyPinnedEnvelope ed now envelope identity = None"
  shows "\<exists>env vs. envelope = Some env \<and> distinct vs \<and> max 1 (unat (PolicyMinimumSignatures identity)) \<le> length vs \<and>
    (\<forall>v \<in> set vs. \<exists>sg \<in> set (se_Signatures env). \<exists>pin \<in> set (ControlPlaneKeys identity).
       sig_Algorithm sg = ED25519 \<and> pk_Value pin = v \<and> pin_verifies ed now (se_Payload env) sg pin) \<and>
    (PolicyRequireAll identity \<longrightarrow> (\<forall>sg \<in> set (se_Signatures env). sig_Algorithm sg = ED25519 \<and>
       (\<exists>pin \<in> set (ControlPlaneKeys identity). pin_verifies ed now (se_Payload env) sg pin)))"
proof -
  obtain env vs where e: "envelope = Some env" "pinned_loop ed now (se_Payload env) identity (se_Signatures env) [] = Inr vs"
      "max 1 (unat (PolicyMinimumSignatures identity)) \<le> length vs"
    using assms by (auto simp: verifyPinnedEnvelope_def not_less split: option.splits if_splits sum.splits)
  from pinned_loop_Inr [OF e(2)] e show ?thesis by auto
qed

text \<open>What \<open>Refresh\<close> may have adopted before asking: pins and policy, nothing else.\<close>

definition same_but_pins :: "Identity \<Rightarrow> Identity \<Rightarrow> bool" where
  "same_but_pins i j \<longleftrightarrow> Endpoint j = Endpoint i \<and> AgentID j = AgentID i \<and> PrivateKey j = PrivateKey i \<and>
     PublicKey j = PublicKey i \<and> KeyID j = KeyID i \<and> Generation j = Generation i \<and>
     PendingRefresh j = PendingRefresh i \<and> AccessToken j = AccessToken i \<and> RefreshToken j = RefreshToken i"

lemma Refresh_Inr:
  assumes "Refresh trust rpc prove check i = Inr next"
  obtains j response iss g where "same_but_pins i j" "ControlPlaneKeys j \<noteq> []" "check response j (Some iss) = Inr g"
    "Generation next = Some g" "AgentID next = (if is_AgentId iss \<noteq> [] then is_AgentId iss else AgentID i)"
    "AccessToken next = is_AccessToken iss" "PendingRefresh next = PendingRefresh i"
    "RefreshToken next = (if is_RefreshToken iss \<noteq> [] then is_RefreshToken iss else RefreshToken i)"
    "PrivateKey next = PrivateKey i" "PublicKey next = PublicKey i" "ControlPlaneKeys next = ControlPlaneKeys j"
proof -
  define j' where "j' = (if ControlPlaneKeys i \<noteq> [] then Some i
       else case FetchTrustBundle trust (AgentID i) of
         None \<Rightarrow> None
       | Some (keys, algorithms, all, minimum) \<Rightarrow>
           if keys = [] then None
           else Some (i\<lparr>ControlPlaneKeys := keys, PolicyAlgorithms := algorithms,
                  PolicyRequireAll := all, PolicyMinimumSignatures := minimum\<rparr>))"
  obtain j where j: "j' = Some j"
    using assms by (auto simp: Refresh_def j'_def [symmetric] split: if_splits option.splits)
  have s: "same_but_pins i j" "ControlPlaneKeys j \<noteq> []"
  proof -
    show "same_but_pins i j"
      using j by (auto simp: j'_def same_but_pins_def split: if_splits option.splits)
    show "ControlPlaneKeys j \<noteq> []"
      using j by (auto simp: j'_def split: if_splits option.splits)
  qed
  have eq: "AgentID j = AgentID i" "RefreshToken j = RefreshToken i" "PendingRefresh j = PendingRefresh i"
    "PrivateKey j = PrivateKey i" "PublicKey j = PublicKey i"
    using s(1) by (simp_all add: same_but_pins_def)
  have "(case prove j of Inl err \<Rightarrow> Inl err
      | Inr proof \<Rightarrow> (case rpc (RefreshToken j) proof of Inl err \<Rightarrow> Inl (RefreshRpcFailed err)
         | Inr (response, issued) \<Rightarrow> (case check response j issued of Inl err \<Rightarrow> Inl err
            | Inr g \<Rightarrow> (case issued of None \<Rightarrow> Inl ResponseRejected | Some iss \<Rightarrow> Inr (rotated j g iss))))) = Inr next"
    using assms unfolding Refresh_def j'_def [symmetric] j by (simp split: if_split_asm)
  then obtain response iss g where g: "check response j (Some iss) = Inr g" and n: "next = rotated j g iss"
    by (auto split: sum.splits option.splits prod.splits)
  show ?thesis by (rule that [OF s g]) (simp_all add: n rotated_def Let_def eq)
qed
lemma word_less_Suc: "w \<noteq> NOT 0 \<Longrightarrow> w < w + 1" for w :: u64
proof -
  assume n: "w \<noteq> NOT 0"
  then have "w + 1 \<noteq> 0" using add_eq_0_iff2 by fastforce
  then show ?thesis by (metis add.commute unatSuc word_less_nat_alt lessI)
qed

lemma refresh_response_bound_facts:
  assumes "verifyRefreshV2Response ed dec pm sha now envelope identity issued = Inr g"
  shows "\<exists>env iss pf rest pending raw vs. envelope = Some env \<and> issued = Some iss \<and>
    PendingRefresh identity = Some pending \<and> dec (se_Payload env) = Some (pf, rest) \<and>
    distinct vs \<and> max 1 (unat (PolicyMinimumSignatures identity)) \<le> length vs \<and>
    (\<forall>v \<in> set vs. \<exists>sg \<in> set (se_Signatures env). \<exists>pin \<in> set (ControlPlaneKeys identity).
       sig_Algorithm sg = ED25519 \<and> pk_Value pin = v \<and> pin_verifies ed now (se_Payload env) sg pin) \<and>
    rs_AgentID pf = AgentID identity \<and> is_AgentId iss = AgentID identity \<and>
    rs_RequestID pf = ra_RequestID pending \<and> rs_Generation pf = g \<and> 0 < g \<and>
    (\<forall>g0. Generation identity = Some g0 \<longrightarrow> g0 < g \<and> g = g0 + 1) \<and>
    pm iss = Some raw \<and> rs_CredentialsSHA256 pf = hex_encode (sha raw) \<and>
    is_AccessToken iss \<noteq> [] \<and> is_AccessToken iss \<noteq> AccessToken identity \<and>
    is_RefreshToken iss \<noteq> [] \<and> is_RefreshToken iss \<noteq> RefreshToken identity \<and>
    now < timeOrZero (is_AccessTokenExpiresAt iss) \<and> now < timeOrZero (is_RefreshTokenExpiresAt iss)"
proof -
  obtain env iss pending where e: "envelope = Some env" "issued = Some iss" "PendingRefresh identity = Some pending"
    using assms by (auto simp: verifyRefreshV2Response_def split: option.splits)
  have v: "verifyPinnedEnvelope ed now (Some env) identity = None"
    using assms unfolding verifyRefreshV2Response_def e
    by (cases "verifyPinnedEnvelope ed now (Some env) identity") (simp_all split: if_split_asm)
  obtain pf rest where d: "dec (se_Payload env) = Some (pf, rest)"
    using assms unfolding verifyRefreshV2Response_def e
    by (cases "dec (se_Payload env)") (auto simp: v split: if_split_asm)
  have b: "rs_AgentID pf = AgentID identity \<and> is_AgentId iss = AgentID identity \<and>
      rs_RequestID pf = ra_RequestID pending \<and> rs_Generation pf \<noteq> 0"
    "\<not> (case Generation identity of None \<Rightarrow> False | Some g0 \<Rightarrow> g0 = NOT 0 \<or> rs_Generation pf \<noteq> g0 + 1)"
    using assms unfolding verifyRefreshV2Response_def e by (simp_all add: v d split: if_split_asm)
  obtain raw where r: "pm iss = Some raw"
    using assms b unfolding verifyRefreshV2Response_def e
    by (cases "pm iss") (simp_all add: v d split: if_split_asm)
  have h: "rs_CredentialsSHA256 pf = hex_encode (sha raw) \<and> is_AccessToken iss \<noteq> [] \<and> is_RefreshToken iss \<noteq> [] \<and>
      is_AccessToken iss \<noteq> AccessToken identity \<and> is_RefreshToken iss \<noteq> RefreshToken identity"
    using assms b unfolding verifyRefreshV2Response_def e by (simp add: v d r split: if_split_asm)
  obtain a x where ax: "is_AccessTokenExpiresAt iss = TsValid a" "is_RefreshTokenExpiresAt iss = TsValid x"
    using assms b h unfolding verifyRefreshV2Response_def e
    by (cases "is_AccessTokenExpiresAt iss"; cases "is_RefreshTokenExpiresAt iss") (simp_all add: v d r split: if_split_asm)
  have t: "rs_Generation pf = g \<and> now < a \<and> now < x"
    using assms b h unfolding verifyRefreshV2Response_def e by (simp add: v d r ax split: if_split_asm)
  have "g0 < g0 + 1" if "g0 \<noteq> NOT 0" for g0 :: u64
    using that by (rule word_less_Suc)
  with b t have gen: "\<forall>g0. Generation identity = Some g0 \<longrightarrow> g0 < g \<and> g = g0 + 1" by auto
  obtain vs where V: "distinct vs" "max 1 (unat (PolicyMinimumSignatures identity)) \<le> length vs"
    "\<forall>v \<in> set vs. \<exists>sg \<in> set (se_Signatures env). \<exists>pin \<in> set (ControlPlaneKeys identity).
       sig_Algorithm sg = ED25519 \<and> pk_Value pin = v \<and> pin_verifies ed now (se_Payload env) sg pin"
    using verifyPinnedEnvelope_None [OF v] by auto
  have g: "0 < g" using b t by (simp add: word_gt_0)
  show ?thesis
    by (rule exI [of _ env], rule exI [of _ iss], rule exI [of _ pf], rule exI [of _ rest], rule exI [of _ pending],
        rule exI [of _ raw], rule exI [of _ vs], intro conjI; (rule V gen g)?)
      (use e d r b h t ax in simp_all)
qed

section \<open>Properties\<close>

text \<open>
  Polling is paced and ends with the panel's answer. Every wait of an enrollment lies between
  2 and 30 seconds, whatever intervals the panel sends; there is at most one wait per poll; the
  enrollment stays open exactly while every reply is pending or slow-down; and it yields an
  identity only from an approval with credentials, bound to the keys of this machine.
\<close>

theorem enroll_paced:
  assumes "enroll service polls fresh now endpoint scopes existing = (li, ws, res)"
  shows "(\<forall>w \<in> set ws. 2 * second \<le> w \<and> w \<le> 30 * second) \<and> length ws \<le> length polls \<and>
    (res = None \<longrightarrow> (\<forall>ev \<in> set polls. \<exists>r. ev = Reply r \<and> (pl_State r = PENDING \<or> pl_State r = SLOW_DOWN))) \<and>
    (\<forall>i. res = Some (Inr i) \<longrightarrow> (\<exists>r iss keys. Reply r \<in> set polls \<and> pl_State r = APPROVED \<and>
       pl_Credentials r = Some iss \<and> enroll_keys fresh existing = Inr keys \<and>
       AgentID i = is_AgentId iss \<and> AccessToken i = is_AccessToken iss \<and> RefreshToken i = is_RefreshToken iss \<and>
       keys = (PublicKey i, PrivateKey i, KeyID i)))"
proof (cases "\<exists>keys b. enroll_keys fresh existing = Inr keys \<and>
    poll_loop (issued_identity endpoint now keys) (boundInterval b) polls = (ws, res)")
  case True
  then obtain keys b where k: "enroll_keys fresh existing = Inr keys"
      "poll_loop (issued_identity endpoint now keys) (boundInterval b) polls = (ws, res)" by blast
  from poll_loop_waits [OF boundInterval_range k(2)] k(1) show ?thesis
    by (fastforce simp: issued_identity_def split: prod.splits)
next
  case False
  have "ws = []" "res \<noteq> None" "\<forall>i. res \<noteq> Some (Inr i)"
    using assms False by (auto simp: enroll_def split: sum.splits option.splits if_splits)
  then show ?thesis by auto
qed

text \<open>
  Re-authentication never changes the machine. A successful \<open>Reauth\<close> keeps the agent
  identifier, the key pair and the pinned panel keys and policy; it needs a consistent stored key
  pair.
\<close>

theorem Reauth_same_machine:
  assumes "Reauth service polls fresh now endpoint identity = Some (Inr next)"
  shows "AgentID next = AgentID identity \<and> AgentID next \<noteq> [] \<and> PrivateKey next = PrivateKey identity \<and>
    PublicKey next = PublicKey identity \<and> KeyID next = KeyID identity \<and>
    ControlPlaneKeys next = ControlPlaneKeys identity \<and> PolicyAlgorithms next = PolicyAlgorithms identity \<and>
    PolicyRequireAll next = PolicyRequireAll identity \<and>
    PolicyMinimumSignatures next = PolicyMinimumSignatures identity \<and>
    (\<exists>raw. SigningKey b64_decode identity = Inr raw \<and> b64_decode (PublicKey identity) = Some (drop 32 raw))"
proof -
  obtain li ws n where E: "enroll service polls fresh now endpoint (Scopes identity) (Some identity) = (li, ws, Some (Inr n))"
    and n: "AgentID n = AgentID identity" "AgentID identity \<noteq> []"
      "next = n\<lparr>ControlPlaneKeys := ControlPlaneKeys identity,
            PolicyAlgorithms := PolicyAlgorithms identity, PolicyRequireAll := PolicyRequireAll identity,
            PolicyMinimumSignatures := PolicyMinimumSignatures identity\<rparr>"
    using assms by (auto simp: Reauth_def split: if_splits prod.splits option.splits sum.splits)
  from enroll_Some [OF E] obtain keys iss where k: "enroll_keys fresh (Some identity) = Inr keys"
      "n = issued_identity endpoint now keys iss" by blast
  have "keys = (PublicKey identity, PrivateKey identity, KeyID identity) \<and>
      (\<exists>raw. SigningKey b64_decode identity = Inr raw \<and> b64_decode (PublicKey identity) = Some (drop 32 raw))"
    using k(1) by (auto simp: enroll_keys_def split: option.splits sum.splits if_splits)
  with k(2) n show ?thesis by (simp add: issued_identity_def)
qed

text \<open>
  A refresh response counts only when it is signed for this very request. An accepted response is
  vouched for by at least the required number of distinct pinned keys valid now; it names this
  agent and the pending request, advances the known generation by exactly one without wrapping, and
  carries the hash of exactly the issued credentials, which are new and not expired.
\<close>

theorem refresh_response_bound:
  assumes "verifyRefreshV2Response ed dec pm sha now envelope identity issued = Inr g"
  shows "\<exists>env iss pf rest pending raw vs. envelope = Some env \<and> issued = Some iss \<and>
    PendingRefresh identity = Some pending \<and> dec (se_Payload env) = Some (pf, rest) \<and>
    distinct vs \<and> max 1 (unat (PolicyMinimumSignatures identity)) \<le> length vs \<and>
    (\<forall>v \<in> set vs. \<exists>sg \<in> set (se_Signatures env). \<exists>pin \<in> set (ControlPlaneKeys identity).
       sig_Algorithm sg = ED25519 \<and> pk_Value pin = v \<and> pin_verifies ed now (se_Payload env) sg pin) \<and>
    rs_AgentID pf = AgentID identity \<and> is_AgentId iss = AgentID identity \<and>
    rs_RequestID pf = ra_RequestID pending \<and> rs_Generation pf = g \<and> 0 < g \<and>
    (\<forall>g0. Generation identity = Some g0 \<longrightarrow> g0 < g \<and> g = g0 + 1) \<and>
    pm iss = Some raw \<and> rs_CredentialsSHA256 pf = hex_encode (sha raw) \<and>
    is_AccessToken iss \<noteq> [] \<and> is_AccessToken iss \<noteq> AccessToken identity \<and>
    is_RefreshToken iss \<noteq> [] \<and> is_RefreshToken iss \<noteq> RefreshToken identity \<and>
    now < timeOrZero (is_AccessTokenExpiresAt iss) \<and> now < timeOrZero (is_RefreshTokenExpiresAt iss)"
  using assms by (rule refresh_response_bound_facts)

lemma refresh_commit_facts:
  assumes B: "BeginRefresh enc e1 u s d = (Inr i, s1, d1)"
    and R: "Refresh trust rpc prv (verifyRefreshV2Response ed dec pm sha now) i = Inr next"
    and enc: "\<forall>x. enc x \<noteq> None"
  shows "\<exists>s2 d2 j g. CommitRefresh enc (quiet_env t time) i next s1 d1 = (Inr (), s2, d2) \<and> cs_identity s2 = Some j \<and>
    AgentID j = AgentID i \<and> PrivateKey j = PrivateKey i \<and> AccessToken j = AccessToken next \<and>
    AccessToken j \<noteq> AccessToken i \<and> RefreshToken j = RefreshToken next \<and> RefreshToken j \<noteq> RefreshToken i \<and>
    PendingRefresh j = None \<and> Generation j = Some g \<and> (\<forall>g0. Generation i = Some g0 \<longrightarrow> g0 < g \<and> g = g0 + 1)"
proof -
  have si: "cs_identity s1 = Some i" "\<exists>a. PendingRefresh i = Some a"
    using B by (auto simp: BeginRefresh_def cred_publish_def Let_def split: option.splits if_splits prod.splits)
  obtain j0 response iss g where c: "same_but_pins i j0"
      "verifyRefreshV2Response ed dec pm sha now response j0 (Some iss) = Inr g"
    and n: "Generation next = Some g" "AgentID next = (if is_AgentId iss \<noteq> [] then is_AgentId iss else AgentID i)"
      "AccessToken next = is_AccessToken iss" "PendingRefresh next = PendingRefresh i"
      "RefreshToken next = (if is_RefreshToken iss \<noteq> [] then is_RefreshToken iss else RefreshToken i)"
      "PrivateKey next = PrivateKey i"
    using R by (rule Refresh_Inr)
  from refresh_response_bound_facts [OF c(2)] c(1) have f: "is_AgentId iss = AgentID i"
      "\<forall>g0. Generation i = Some g0 \<longrightarrow> g0 < g \<and> g = g0 + 1" "is_AccessToken iss \<noteq> AccessToken i"
      "is_RefreshToken iss \<noteq> []" "is_RefreshToken iss \<noteq> RefreshToken i"
    by (auto simp: same_but_pins_def)
  obtain a where a: "PendingRefresh i = Some a" using si(2) by blast
  define after' where "after' = next\<lparr>PendingRefresh := None, EnrolledAt := EnrolledAt i, UpdatedAt := time\<rparr>"
  obtain c' where "enc after' = Some c'" using enc by blast
  then obtain d2 where "cred_publish enc (quiet_env t time) s1 after' d1 = (Inr (), s1\<lparr>cs_identity := Some after'\<rparr>, d2)"
    by (simp add: cred_publish_def cred_persist_def quiet_env_def run_deferred_def cred_pre_def cred_post_def op_fails_def)
  moreover have "CommitRefresh enc (quiet_env t time) i next s1 d1 = cred_publish enc (quiet_env t time) s1 after' d1"
    using si(1) a n f by (auto simp: CommitRefresh_def after'_def quiet_env_def split: option.splits)
  ultimately have "CommitRefresh enc (quiet_env t time) i next s1 d1 = (Inr (), s1\<lparr>cs_identity := Some after'\<rparr>, d2)" by simp
  moreover have "AgentID after' = AgentID i" "PrivateKey after' = PrivateKey i" "AccessToken after' = AccessToken next"
    "RefreshToken after' = RefreshToken next" "PendingRefresh after' = None" "Generation after' = Some g"
    "AccessToken next \<noteq> AccessToken i" "RefreshToken next \<noteq> RefreshToken i"
    using n f by (simp_all add: after'_def)
  ultimately show ?thesis using f(2) by fastforce
qed

text \<open>
  C20: a verified rotation is always kept. When \<open>BeginRefresh\<close> made the request durable and
  \<open>Refresh\<close> accepted the response for it, \<open>CommitRefresh\<close> stores the new pair (if the disk lets it):
  same agent and key pair, the new tokens, the next generation, nothing pending; the panel and the
  agent cannot end up with different generations because of a refused commit.
\<close>

theorem refresh_then_commit:
  assumes B: "BeginRefresh enc e1 u s d = (Inr i, s1, d1)"
    and R: "Refresh trust rpc prv (verifyRefreshV2Response ed dec pm sha now) i = Inr next"
    and enc: "\<forall>x. enc x \<noteq> None"
  shows "\<exists>s2 d2 j g. CommitRefresh enc (quiet_env t time) i next s1 d1 = (Inr (), s2, d2) \<and> cs_identity s2 = Some j \<and>
    AgentID j = AgentID i \<and> PrivateKey j = PrivateKey i \<and> AccessToken j = AccessToken next \<and>
    AccessToken j \<noteq> AccessToken i \<and> RefreshToken j = RefreshToken next \<and> RefreshToken j \<noteq> RefreshToken i \<and>
    PendingRefresh j = None \<and> Generation j = Some g \<and> (\<forall>g0. Generation i = Some g0 \<longrightarrow> g0 < g \<and> g = g0 + 1)"
  using assms by (rule refresh_commit_facts)

section \<open>Sample values for the witnesses\<close>

definition sample_key :: bytes where
  "sample_key = replicate 32 (CHR ''s'') @ sample_raw"

definition sample_enrolled :: Identity where
  "sample_enrolled = sample_identity\<lparr>PrivateKey := b64_encode sample_key, PublicKey := b64_encode sample_raw,
     KeyID := ''id'', Generation := Some 4, ControlPlaneKeys := [sample_pin ''k1''],
     PendingRefresh := Some \<lparr>ra_RequestID = ''u1'', ra_StartedAt = 7\<rparr>\<rparr>"

definition sample_issued :: AgentCredentials where
  "sample_issued = \<lparr>is_AgentId = ''a1'', is_AccessToken = ''at2'', is_AccessTokenExpiresAt = TsValid 100,
     is_RefreshToken = ''rt2'', is_RefreshTokenExpiresAt = TsValid 200, is_Scopes = []\<rparr>"

definition sample_polls :: "poll_event list" where
  "sample_polls =
     [Reply \<lparr>pl_PollInterval = 0, pl_State = SLOW_DOWN, pl_Credentials = None, pl_Error = None\<rparr>,
      Reply \<lparr>pl_PollInterval = 90 * second, pl_State = APPROVED, pl_Credentials = Some sample_issued, pl_Error = None\<rparr>]"

definition sample_begin :: begin_reply where
  "sample_begin = \<lparr>bg_VerificationUri = ''u'', bg_VerificationUriComplete = ''u'', bg_UserCode = ''c'',
     bg_ExpiresAt = TsAbsent, bg_PollInterval = 1, bg_DeviceCode = ''d''\<rparr>"

definition sample_response :: refreshV2Response where
  "sample_response = \<lparr>rs_Protocol = 2, rs_AgentID = ''a1'', rs_RequestID = ''u1'', rs_Generation = 5,
     rs_CredentialsSHA256 = ''68''\<rparr>"

abbreviation sample_check ::
  "SignedEnvelope option \<Rightarrow> Identity \<Rightarrow> AgentCredentials option \<Rightarrow> enroll_error + u64" where
  "sample_check \<equiv> verifyRefreshV2Response sample_ed (\<lambda>_. Some (sample_response, [])) (\<lambda>_. Some ''raw'') (\<lambda>_. ''h'') 10"

lemma sample_keys:
  "SigningKey b64_decode sample_enrolled = Inr sample_key" "b64_decode (PublicKey sample_enrolled) = Some sample_raw"
  "drop 32 sample_key = sample_raw"
  by (simp_all add: SigningKey_def sample_enrolled_def b64_roundtrip sample_key_def)

lemma sample_pin_verifies: "pin_verifies sample_ed 10 payload sample_sig (sample_pin ''k1'')"
  by (simp add: pin_verifies_def sample_pin_def sample_sig_def sample_ed_def b64_roundtrip)

lemma sample_enrolled_simps:
  "AgentID sample_enrolled = ''a1''" "ControlPlaneKeys sample_enrolled = [sample_pin ''k1'']" "PolicyAlgorithms sample_enrolled = []"
  "PolicyMinimumSignatures sample_enrolled = 0" "PolicyRequireAll sample_enrolled = False" "RefreshToken sample_enrolled = ''rt''"
  "AccessToken sample_enrolled = ''at''" "Generation sample_enrolled = Some 4"
  "PendingRefresh sample_enrolled = Some \<lparr>ra_RequestID = ''u1'', ra_StartedAt = 7\<rparr>" "Scopes sample_enrolled = []"
  by (simp_all add: sample_enrolled_def sample_identity_def Identity_zero_def)

lemma sample_check_ok: "sample_check (Some sample_envelope) sample_enrolled (Some sample_issued) = Inr 5"
proof -
  have "hex_encode ''h'' = ''68''" by code_simp
  moreover have "verifyPinnedEnvelope sample_ed 10 (Some sample_envelope) sample_enrolled = None"
    by (simp add: verifyPinnedEnvelope_def sample_envelope_def sample_enrolled_simps sample_pin_verifies)
      (simp add: sample_sig_def)
  ultimately show ?thesis
    by (simp add: verifyRefreshV2Response_def sample_response_def sample_issued_def sample_enrolled_simps)
      (simp add: sample_envelope_def)
qed

theorem enroll_paced_witness:
  "\<exists>li ws i. enroll (\<lambda>_. Some sample_begin) sample_polls (Some (b64_encode sample_raw, ''priv'', ''kid'')) 9 ''e'' [] None
      = (li, ws, Some (Inr i)) \<and> ws = [2 * second, 4 * second] \<and> (\<forall>w \<in> set ws. 2 * second \<le> w \<and> w \<le> 30 * second)"
proof -
  have td: "TrimSpace ''d'' \<noteq> []"
    by (simp add: TrimSpace_def strip.simps space_runes_def starts_with_def)
  then obtain li i where E: "enroll (\<lambda>_. Some sample_begin) sample_polls (Some (b64_encode sample_raw, ''priv'', ''kid'')) 9 ''e'' [] None
      = (li, [2 * second, 4 * second], Some (Inr i))"
    by (simp add: enroll_def enroll_keys_def b64_roundtrip sample_begin_def sample_polls_def boundInterval_def Let_def)
  from enroll_paced [OF E] E show ?thesis by blast
qed

theorem Reauth_same_machine_witness:
  "\<exists>next. Reauth (\<lambda>_. Some sample_begin) sample_polls (Some ([], [], [])) 9 ''e'' sample_enrolled = Some (Inr next) \<and>
     PrivateKey next = PrivateKey sample_enrolled"
proof -
  have td: "TrimSpace ''d'' \<noteq> []"
    by (simp add: TrimSpace_def strip.simps space_runes_def starts_with_def)
  have k: "enroll_keys (Some ([], [], [])) (Some sample_enrolled) =
      Inr (PublicKey sample_enrolled, PrivateKey sample_enrolled, KeyID sample_enrolled)"
    by (simp add: enroll_keys_def sample_keys)
  obtain next' where R: "Reauth (\<lambda>_. Some sample_begin) sample_polls (Some ([], [], [])) 9 ''e'' sample_enrolled = Some (Inr next')"
    using td by (simp add: Reauth_def enroll_def k sample_keys sample_enrolled_simps sample_begin_def sample_polls_def
        Let_def issued_identity_def sample_issued_def)
  from Reauth_same_machine [OF R] R show ?thesis by blast
qed

theorem refresh_response_bound_witness:
  "sample_check (Some sample_envelope) sample_enrolled (Some sample_issued) = Inr 5 \<and> (4::u64) < 5 \<and>
   is_RefreshToken sample_issued \<noteq> RefreshToken sample_enrolled"
proof -
  from refresh_response_bound [OF sample_check_ok] have "is_RefreshToken sample_issued \<noteq> RefreshToken sample_enrolled" by blast
  with sample_check_ok show ?thesis by simp
qed

theorem refresh_then_commit_witness:
  "\<exists>i s1 d1 s2 d2 j. BeginRefresh Some (quiet_env ''t'' 9) ''u2'' \<lparr>cs_path = ''c'', cs_identity = Some sample_enrolled\<rparr> Map.empty = (Inr i, s1, d1) \<and>
     CommitRefresh Some (quiet_env ''t'' 11) i (rotated i 5 sample_issued) s1 d1 = (Inr (), s2, d2) \<and>
     cs_identity s2 = Some j \<and> RefreshToken j = ''rt2''"
proof -
  have B: "BeginRefresh Some (quiet_env ''t'' 9) ''u2'' \<lparr>cs_path = ''c'', cs_identity = Some sample_enrolled\<rparr> Map.empty =
      (Inr sample_enrolled, \<lparr>cs_path = ''c'', cs_identity = Some sample_enrolled\<rparr>, Map.empty)"
    by (simp add: BeginRefresh_def sample_enrolled_simps)
  have "TrimSpace ''rt'' \<noteq> []"
    by (simp add: TrimSpace_def strip.simps space_runes_def starts_with_def)
  then have R: "Refresh (\<lambda>_. None) (\<lambda>_ _. Inr (Some sample_envelope, Some sample_issued)) (\<lambda>_. Inr sample_envelope)
      sample_check sample_enrolled = Inr (rotated sample_enrolled 5 sample_issued)"
    using sample_check_ok by (simp add: Refresh_def sample_enrolled_simps)
  have "RefreshToken (rotated sample_enrolled 5 sample_issued) = ''rt2''"
    by (simp add: rotated_def sample_issued_def Let_def)
  with refresh_then_commit [OF B R, of "''t''" 11] B show ?thesis by fastforce
qed

end
