(* ===== verification/ClientAuth.thy ===== *)
theory ClientAuth
  imports Enrollment
begin

text \<open>
  The credentials of the running client (\<open>clientcore/client.go\<close>): whose identity it acts for, how it
  rotates its tokens, how it pins the control-plane keys, and how it checks a signed execution. The
  locks of the source serialise these operations, so each is one function on the client, its store and
  the disk. The enrollment client is the one of \<open>Enrollment\<close>, with its RPCs as parameters.
\<close>

section \<open>The client\<close>

record client =
  cl_endpoint :: string
  cl_token :: string
  cl_agentID :: string
  cl_refreshRetryAt :: gotime
  cl_refreshLastErr :: "go_error option"
  cl_credentials :: "cred_store option"
  cl_hostTrust :: "Trust option"
  cl_replayGuard :: replay_guard

definition local_error :: "string \<Rightarrow> go_error" where
  "local_error msg = \<lparr>er_Connect = None, er_Canceled = False, er_DeadlineExceeded = False, er_Network = False,
     er_Message = msg\<rparr>"

text \<open>\<open>identity\<close>: a protected host trust overrides the file's control-plane keys, and vetoes another agent.\<close>

definition client_identity :: "client \<Rightarrow> Identity option" where
  "client_identity c =
     (case cl_credentials c of
        None \<Rightarrow> None
      | Some store \<Rightarrow>
          (case (cs_identity store, cl_hostTrust c) of
             (None, _) \<Rightarrow> None
           | (Some i, None) \<Rightarrow> Some i
           | (Some i, Some t) \<Rightarrow>
               if AgentID i \<noteq> tr_AgentID t \<or> Endpoint i \<noteq> tr_Endpoint t then None
               else Some (i\<lparr>ControlPlaneKeys := PanelKeys t, PolicyAlgorithms := [1],
                      PolicyRequireAll := False, PolicyMinimumSignatures := 1\<rparr>)))"

definition rememberAgentID :: "string \<Rightarrow> client \<Rightarrow> client" where
  "rememberAgentID agentID c =
     (if TrimSpace agentID = [] then c
      else if cl_agentID c = [] then c\<lparr>cl_agentID := agentID\<rparr> else c)"

section \<open>Rotation of the tokens\<close>

text \<open>
  The RPCs of the panel and the primitives of the enrollment client. \<open>p_new\<close> says why
  \<open>enrollment.New\<close> refuses an endpoint.
\<close>

record panel =
  p_new :: "string \<Rightarrow> enroll_error option"
  p_trust :: "string \<Rightarrow> trust_bundle option"
  p_rpc :: "string \<Rightarrow> SignedEnvelope \<Rightarrow> go_error + (SignedEnvelope option \<times> AgentCredentials option)"
  p_prove :: "Identity \<Rightarrow> enroll_error + SignedEnvelope"
  p_check :: "SignedEnvelope option \<Rightarrow> Identity \<Rightarrow> AgentCredentials option \<Rightarrow> enroll_error + u64"

text \<open>The error the wrapped result of \<open>Refresh\<close> is, for \<open>errors.As\<close>.\<close>

definition refresh_error :: "enroll_error \<Rightarrow> go_error" where
  "refresh_error err = (case err of RefreshRpcFailed e \<Rightarrow> e | _ \<Rightarrow> local_error ''refresh credentials'')"

text \<open>The part of \<open>refreshCredentials\<close> after its guards; \<open>e1\<close> and \<open>e2\<close> are the environments of the two writes.\<close>

definition rotate_credentials ::
  "(Identity \<Rightarrow> 'c option) \<Rightarrow> panel \<Rightarrow> string \<Rightarrow> 'c env \<Rightarrow> 'c env \<Rightarrow> client \<Rightarrow> 'c disk \<Rightarrow>
     go_error option \<times> client \<times> 'c disk" where
  "rotate_credentials enc p uuid e1 e2 c d =
     (case (client_identity c, cl_credentials c) of
        (Some identity, Some store) \<Rightarrow>
          if TrimSpace (RefreshToken identity) = []
          then (Some (local_error ''no refresh token available for credential refresh''), c, d)
          else
            (let endpoint = (if cl_endpoint c = [] then Endpoint identity else cl_endpoint c) in
             if p_new p endpoint \<noteq> None then (Some (local_error ''create enrollment client''), c, d)
             else
               (case BeginRefresh enc e1 uuid store d of
                  (Inl _, store1, d1) \<Rightarrow>
                    (Some (local_error ''persist pending refresh''), c\<lparr>cl_credentials := Some store1\<rparr>, d1)
                | (Inr begun, store1, d1) \<Rightarrow>
                    (let pending = begun\<lparr>ControlPlaneKeys := ControlPlaneKeys identity,
                           PolicyAlgorithms := PolicyAlgorithms identity, PolicyRequireAll := PolicyRequireAll identity,
                           PolicyMinimumSignatures := PolicyMinimumSignatures identity\<rparr>;
                         c1 = c\<lparr>cl_credentials := Some store1\<rparr>
                     in case Refresh (p_trust p) (p_rpc p) (p_prove p) (p_check p) pending of
                          Inl err \<Rightarrow> (Some (refresh_error err), c1, d1)
                        | Inr refreshed \<Rightarrow>
                            (case CommitRefresh enc e2 pending refreshed store1 d1 of
                               (Inl _, store2, d2) \<Rightarrow>
                                 (Some (local_error ''save refreshed identity''), c\<lparr>cl_credentials := Some store2\<rparr>, d2)
                             | (Inr _, store2, d2) \<Rightarrow>
                                 (None, c\<lparr>cl_credentials := Some store2, cl_token := AccessToken refreshed\<rparr>, d2)))))
      | _ \<Rightarrow> (Some (local_error ''no refresh token available for credential refresh''), c, d))"

text \<open>\<open>now\<close> is the time of the call and \<open>later\<close> that of its end.\<close>

definition refreshCredentials ::
  "(Identity \<Rightarrow> 'c option) \<Rightarrow> panel \<Rightarrow> string \<Rightarrow> 'c env \<Rightarrow> 'c env \<Rightarrow> gotime \<Rightarrow> gotime \<Rightarrow> string \<Rightarrow> client \<Rightarrow> 'c disk \<Rightarrow>
     go_error option \<times> client \<times> 'c disk" where
  "refreshCredentials enc p uuid e1 e2 now later oldToken c d =
     (if cl_token c \<noteq> oldToken \<and> cl_token c \<noteq> [] then (None, c, d)
      else if cl_refreshLastErr c \<noteq> None \<and> now < cl_refreshRetryAt c then (cl_refreshLastErr c, c, d)
      else
        (case rotate_credentials enc p uuid e1 e2 c d of
           (None, c', d') \<Rightarrow> (None, c'\<lparr>cl_refreshLastErr := None, cl_refreshRetryAt := 0\<rparr>, d')
         | (Some err, c', d') \<Rightarrow>
             (Some err, c'\<lparr>cl_refreshLastErr := Some err,
                cl_refreshRetryAt := later + (if permanentCredentialRejection err then 15 * minute else 5 * second)\<rparr>, d')))"

section \<open>Control-plane keys\<close>

text \<open>\<open>cfg_endpoint\<close> is the endpoint of the configuration, \<open>None\<close> without one.\<close>

definition fetchAndPinTrustBundle ::
  "(Identity \<Rightarrow> 'c option) \<Rightarrow> panel \<Rightarrow> string option \<Rightarrow> 'c env \<Rightarrow> string \<Rightarrow> client \<Rightarrow> 'c disk \<Rightarrow>
     go_error option \<times> client \<times> 'c disk" where
  "fetchAndPinTrustBundle enc p cfg_endpoint e agentID c d =
     (case cl_credentials c of
        None \<Rightarrow> (None, c, d)
      | Some store \<Rightarrow>
          (let endpoint = cl_endpoint c;
               endpoint = (if endpoint = [] then (case cfg_endpoint of None \<Rightarrow> [] | Some x \<Rightarrow> x) else endpoint);
               endpoint = (if endpoint = [] then
                   (case cs_identity store of None \<Rightarrow> [] | Some i \<Rightarrow> if Endpoint i \<noteq> [] then Endpoint i else [])
                 else endpoint) in
           if endpoint = [] then (Some (local_error ''cannot fetch trust bundle: empty endpoint''), c, d)
           else if p_new p endpoint \<noteq> None then (Some (local_error ''endpoint''), c, d)
           else
             (case FetchTrustBundle (p_trust p) agentID of
                None \<Rightarrow> (Some (local_error ''fetch trust bundle''), c, d)
              | Some (keys, algorithms, requireAll, minimum) \<Rightarrow>
                  if keys = [] then (Some (local_error ''control plane returned empty trust bundle''), c, d)
                  else
                    (case PinTrustBundle enc e keys algorithms requireAll minimum store d of
                       (Inl _, store1, d1) \<Rightarrow>
                         (Some (local_error ''pin trust bundle''), c\<lparr>cl_credentials := Some store1\<rparr>, d1)
                     | (Inr _, store1, d1) \<Rightarrow> (None, c\<lparr>cl_credentials := Some store1\<rparr>, d1)))))"

definition ensureTrustBundle ::
  "(Identity \<Rightarrow> 'c option) \<Rightarrow> panel \<Rightarrow> string option \<Rightarrow> 'c env \<Rightarrow> client \<Rightarrow> 'c disk \<Rightarrow>
     go_error option \<times> client \<times> 'c disk" where
  "ensureTrustBundle enc p cfg_endpoint e c d =
     (case cl_credentials c of
        None \<Rightarrow> (None, c, d)
      | Some store \<Rightarrow>
          (case cs_identity store of
             None \<Rightarrow> (None, c, d)
           | Some identity \<Rightarrow>
               if AgentID identity = [] then (None, c, d)
               else if ControlPlaneKeys identity \<noteq> [] then (None, c, d)
               else fetchAndPinTrustBundle enc p cfg_endpoint e (AgentID identity) c d))"

section \<open>Signed executions\<close>

text \<open>\<open>'s\<close> is \<open>ExecutionSpec\<close>, decoded by \<open>spec\<close>; the replay guard's file has its own contents type \<open>'r\<close>.\<close>

record execution_assignment =
  xa_ExecutionId :: "string option"
  xa_Envelope :: "SignedEnvelope option"

datatype assignment_error =
    NilAssignment
  | NoSignedEnvelope
  | NoSigningKeys
  | EnvelopeRefused verify_error
  | NotAnExecution string
  | SpecNotDecodable

text \<open>The identity whose keys verify an assignment, with the self-healing of missing keys; and the checks after \<open>Verify\<close>.\<close>

definition signing_identity ::
  "(Identity \<Rightarrow> 'c option) \<Rightarrow> panel \<Rightarrow> string option \<Rightarrow> 'c env \<Rightarrow> client \<Rightarrow> 'c disk \<Rightarrow>
     Identity option \<times> client \<times> 'c disk" where
  "signing_identity enc p cfg_endpoint e c d =
     (let pinned = (\<lambda>id. case id of None \<Rightarrow> None | Some i \<Rightarrow> if ControlPlaneKeys i = [] then None else id) in
      if pinned (client_identity c) \<noteq> None then (client_identity c, c, d)
      else (case ensureTrustBundle enc p cfg_endpoint e c d of
              (None, c', d') \<Rightarrow> (pinned (client_identity c'), c', d')
            | (Some _, c', d') \<Rightarrow> (None, c', d')))"

definition spec_of :: "(bytes \<Rightarrow> 's option) \<Rightarrow> verify_error + Instruction \<Rightarrow> assignment_error + 's" where
  "spec_of unm_spec r =
     (case r of
        Inl err \<Rightarrow> Inl (EnvelopeRefused err)
      | Inr i \<Rightarrow>
          if in_InstructionType i \<noteq> ''exec:v1'' then Inl (NotAnExecution (in_InstructionType i))
          else (case unm_spec (in_Body i) of None \<Rightarrow> Inl SpecNotDecodable | Some s \<Rightarrow> Inr s))"

definition verifyExecutionAssignment ::
  "(Identity \<Rightarrow> 'c option) \<Rightarrow> panel \<Rightarrow> string option \<Rightarrow> 'c env \<Rightarrow>
     (bytes \<Rightarrow> bytes \<Rightarrow> bytes \<Rightarrow> bool) \<Rightarrow> (bytes \<Rightarrow> SignedInstruction option) \<Rightarrow> (bytes \<Rightarrow> 's option) \<Rightarrow>
     (nonces \<Rightarrow> 'r option) \<Rightarrow> ('r \<Rightarrow> nonces option option) \<Rightarrow> 'r env \<Rightarrow> execution_assignment option \<Rightarrow>
     client \<Rightarrow> 'c disk \<Rightarrow> 'r disk \<Rightarrow> (assignment_error + 's) \<times> client \<times> 'c disk \<times> 'r disk" where
  "verifyExecutionAssignment enc p cfg_endpoint e ed unm unm_spec renc rdec re assignment c d rd =
     (case assignment of
        None \<Rightarrow> (Inl NilAssignment, c, d, rd)
      | Some a \<Rightarrow>
          if xa_Envelope a = None then (Inl NoSignedEnvelope, c, d, rd)
          else
            (case signing_identity enc p cfg_endpoint e c d of
               (None, c, d) \<Rightarrow> (Inl NoSigningKeys, c, d, rd)
             | (Some i, c, d) \<Rightarrow>
                 (let identity = (if AgentID i = [] then i\<lparr>AgentID := cl_agentID c\<rparr> else i) in
                  case Verify ed unm renc rdec re (xa_Envelope a) (New identity (Some (cl_replayGuard c))) rd of
                    (r, v, rd') \<Rightarrow>
                      (spec_of unm_spec r,
                       c\<lparr>cl_replayGuard := (case v_replay v of None \<Rightarrow> cl_replayGuard c | Some g \<Rightarrow> g)\<rparr>, d, rd'))))"

section \<open>Facts\<close>

lemma CommitRefresh_Inr:
  assumes "CommitRefresh enc e before after s d = (Inr u, s', d')"
  shows "\<exists>i. cs_identity s = Some i \<and> AgentID after = AgentID before \<and>
    cs_identity s' = Some (after\<lparr>PendingRefresh := None, EnrolledAt := EnrolledAt i, UpdatedAt := env_now e\<rparr>)"
  using assms
  by (auto simp: CommitRefresh_def cred_publish_def split: option.splits if_splits prod.splits)

lemma BeginRefresh_Inr:
  assumes "BeginRefresh enc e u s d = (Inr i, s', d')"
  shows "\<exists>i0. cs_identity s = Some i0 \<and> AccessToken i = AccessToken i0 \<and> RefreshToken i = RefreshToken i0 \<and>
    Generation i = Generation i0 \<and> AgentID i = AgentID i0 \<and> cs_identity s' = Some i \<and> PendingRefresh i \<noteq> None \<and>
    (PendingRefresh i0 \<noteq> None \<longrightarrow> i = i0)"
  using assms
  by (auto simp: BeginRefresh_def cred_publish_def Let_def split: option.splits if_splits prod.splits)

lemma BeginRefresh_Inl: "BeginRefresh enc e u s d = (Inl err, s', d') \<Longrightarrow> s' = s"
  by (auto simp: BeginRefresh_def Let_def split: option.splits if_splits prod.splits sum.splits dest: cred_publish_refused)

lemma CommitRefresh_Inl: "CommitRefresh enc e b a s d = (Inl err, s', d') \<Longrightarrow> s' = s"
  by (auto simp: CommitRefresh_def split: option.splits if_splits dest: cred_publish_refused)

lemma client_identity_tokens:
  assumes "client_identity c = Some i"
  shows "\<exists>s i0. cl_credentials c = Some s \<and> cs_identity s = Some i0 \<and> AccessToken i = AccessToken i0 \<and>
    AgentID i = AgentID i0 \<and> RefreshToken i = RefreshToken i0 \<and> Generation i = Generation i0"
  using assms by (auto simp: client_identity_def split: option.splits if_splits)

text \<open>What a successful rotation has done, when responses are checked by \<open>verifyRefreshV2Response\<close>.\<close>

lemma rotate_credentials_ok:
  assumes R: "rotate_credentials enc p uuid e1 e2 c d = (None, c', d')"
    and chk: "p_check p = verifyRefreshV2Response ed dec pm sha now"
    and s: "cl_credentials c = Some s" "cs_identity s = Some i"
  shows "\<exists>s' j g. cl_credentials c' = Some s' \<and> cs_identity s' = Some j \<and> AccessToken j = cl_token c' \<and>
    AgentID j = AgentID i \<and> PendingRefresh j = None \<and> Generation j = Some g \<and>
    (\<forall>g0. Generation i = Some g0 \<longrightarrow> g0 < g \<and> g = g0 + 1) \<and> cl_token c' \<noteq> [] \<and> cl_token c' \<noteq> AccessToken i \<and>
    RefreshToken j \<noteq> RefreshToken i \<and> cl_refreshLastErr c' = cl_refreshLastErr c"
proof -
  obtain id begun s1 d1 refreshed s2 d2 where r: "client_identity c = Some id"
      "BeginRefresh enc e1 uuid s d = (Inr begun, s1, d1)"
      "Refresh (p_trust p) (p_rpc p) (p_prove p) (p_check p)
        (begun\<lparr>ControlPlaneKeys := ControlPlaneKeys id, PolicyAlgorithms := PolicyAlgorithms id,
          PolicyRequireAll := PolicyRequireAll id, PolicyMinimumSignatures := PolicyMinimumSignatures id\<rparr>) = Inr refreshed"
      "CommitRefresh enc e2 (begun\<lparr>ControlPlaneKeys := ControlPlaneKeys id, PolicyAlgorithms := PolicyAlgorithms id,
          PolicyRequireAll := PolicyRequireAll id, PolicyMinimumSignatures := PolicyMinimumSignatures id\<rparr>)
         refreshed s1 d1 = (Inr (), s2, d2)"
      "c' = c\<lparr>cl_credentials := Some s2, cl_token := AccessToken refreshed\<rparr>"
    using R s(1) by (auto simp: rotate_credentials_def Let_def split: option.splits if_splits sum.splits prod.splits)
  let ?p = "begun\<lparr>ControlPlaneKeys := ControlPlaneKeys id, PolicyAlgorithms := PolicyAlgorithms id,
      PolicyRequireAll := PolicyRequireAll id, PolicyMinimumSignatures := PolicyMinimumSignatures id\<rparr>"
  from BeginRefresh_Inr [OF r(2)] s(2) have b: "AccessToken begun = AccessToken i" "RefreshToken begun = RefreshToken i"
      "Generation begun = Generation i" "AgentID begun = AgentID i"
    by auto
  obtain j0 response iss g where k: "same_but_pins ?p j0"
      "verifyRefreshV2Response ed dec pm sha now response j0 (Some iss) = Inr g"
    and n: "Generation refreshed = Some g" "AccessToken refreshed = is_AccessToken iss"
      "RefreshToken refreshed = (if is_RefreshToken iss \<noteq> [] then is_RefreshToken iss else RefreshToken ?p)"
    using r(3) unfolding chk by (rule Refresh_Inr)
  from refresh_response_bound_facts [OF k(2)] k(1) b
  have f: "\<forall>g0. Generation i = Some g0 \<longrightarrow> g0 < g \<and> g = g0 + 1" "is_AccessToken iss \<noteq> AccessToken i"
      "is_RefreshToken iss \<noteq> []" "is_RefreshToken iss \<noteq> RefreshToken i"
    by (auto simp: same_but_pins_def)
  have tok: "is_AccessToken iss \<noteq> []"
    using refresh_response_bound_facts [OF k(2)] by auto
  obtain i2 :: Identity where i2: "cs_identity s2 = Some (refreshed\<lparr>PendingRefresh := None,
      EnrolledAt := EnrolledAt i2, UpdatedAt := env_now e2\<rparr>)" "AgentID refreshed = AgentID ?p"
    using CommitRefresh_Inr [OF r(4)] by blast
  have "AgentID refreshed = AgentID i" unfolding i2(2) using b(4) by simp
  moreover define j where "j = refreshed\<lparr>PendingRefresh := None, EnrolledAt := EnrolledAt i2, UpdatedAt := env_now e2\<rparr>"
  ultimately have "cs_identity s2 = Some j" "AgentID j = AgentID i" using i2(1) by simp_all
  moreover have "PendingRefresh j = None" "Generation j = Some g" "AccessToken j = is_AccessToken iss"
      "RefreshToken j \<noteq> RefreshToken i"
    using n f by (simp_all add: j_def)
  moreover have "cl_credentials c' = Some s2" "cl_token c' = is_AccessToken iss" "cl_refreshLastErr c' = cl_refreshLastErr c"
    using r(5) n(2) by simp_all
  ultimately show ?thesis using f(1,2) tok by metis
qed

text \<open>A failed rotation leaves the token alone and the identity as it was, except for its pending request.\<close>

definition same_credentials :: "cred_store \<Rightarrow> cred_store \<Rightarrow> bool" where
  "same_credentials s s' \<longleftrightarrow> cs_path s' = cs_path s \<and>
     (case (cs_identity s, cs_identity s') of
        (None, None) \<Rightarrow> True
      | (Some i, Some j) \<Rightarrow> i\<lparr>PendingRefresh := None, UpdatedAt := 0\<rparr> = j\<lparr>PendingRefresh := None, UpdatedAt := 0\<rparr> \<and>
          (PendingRefresh i \<noteq> None \<longrightarrow> PendingRefresh j = PendingRefresh i)
      | _ \<Rightarrow> False)"

lemma same_credentials_refl [simp]: "same_credentials s s"
  by (simp add: same_credentials_def split: option.splits)

lemma BeginRefresh_same:
  "BeginRefresh enc e u s d = (Inr i, s', d') \<Longrightarrow> same_credentials s s'"
  by (auto simp: BeginRefresh_def cred_publish_def same_credentials_def Let_def split: option.splits if_splits prod.splits)

lemma rotate_credentials_failed:
  assumes "rotate_credentials enc p uuid e1 e2 c d = (Some err, c', d')" and "cl_credentials c = Some s"
  shows "\<exists>s'. c' = c\<lparr>cl_credentials := Some s'\<rparr> \<and> same_credentials s s'"
proof -
  have c: "c = c\<lparr>cl_credentials := Some s\<rparr>" using assms(2) by simp
  have unchanged: ?thesis if "c' = c" using c that same_credentials_refl by metis
  show ?thesis
  proof (cases "client_identity c")
    case None
    with assms unchanged show ?thesis by (simp add: rotate_credentials_def)
  next
    case (Some id)
    consider (early) "TrimSpace (RefreshToken id) = [] \<or> p_new p (if cl_endpoint c = [] then Endpoint id else cl_endpoint c) \<noteq> None"
      | (late) "TrimSpace (RefreshToken id) \<noteq> []" "p_new p (if cl_endpoint c = [] then Endpoint id else cl_endpoint c) = None"
      by auto
    then show ?thesis
    proof cases
      case early
      with assms Some unchanged show ?thesis by (auto simp: rotate_credentials_def Let_def split: if_splits)
    next
      case late
      obtain r s1 d1 where b: "BeginRefresh enc e1 uuid s d = (r, s1, d1)" by (metis prod_cases3)
      show ?thesis
      proof (cases r)
        case (Inl x)
        with b late assms Some have "c' = c\<lparr>cl_credentials := Some s1\<rparr>" by (auto simp: rotate_credentials_def Let_def)
        moreover from b Inl have "s1 = s" by (auto dest: BeginRefresh_Inl)
        ultimately show ?thesis by auto
      next
        case (Inr begun)
        define q where "q = begun\<lparr>ControlPlaneKeys := ControlPlaneKeys id, PolicyAlgorithms := PolicyAlgorithms id,
          PolicyRequireAll := PolicyRequireAll id, PolicyMinimumSignatures := PolicyMinimumSignatures id\<rparr>"
        from b Inr have same: "same_credentials s s1" by (auto dest: BeginRefresh_same)
        show ?thesis
        proof (cases "Refresh (p_trust p) (p_rpc p) (p_prove p) (p_check p) q")
          case (Inl x)
          with b Inr late assms Some have "c' = c\<lparr>cl_credentials := Some s1\<rparr>"
            by (auto simp: rotate_credentials_def Let_def q_def [symmetric])
          with same show ?thesis by auto
        next
          case (Inr refreshed)
          obtain z s2 d2 where z: "CommitRefresh enc e2 q refreshed s1 d1 = (z, s2, d2)" by (metis prod_cases3)
          with \<open>r = Inr begun\<close> Inr b late assms Some obtain x where "z = Inl x" "c' = c\<lparr>cl_credentials := Some s2\<rparr>"
            by (cases z) (auto simp: rotate_credentials_def Let_def q_def [symmetric])
          with z same show ?thesis by (auto dest: CommitRefresh_Inl)
        qed
      qed
    qed
  qed
qed
section \<open>Properties of the rotation\<close>

text \<open>
  A rotation happens once per token. When \<open>refreshCredentials\<close> succeeds for the token the client
  still holds, the client holds a new access token, the store holds it with a new refresh token, the
  next generation and no pending request, and every later call on behalf of the old token (another
  request that was refused in the meantime) returns at once and changes nothing, whatever the panel,
  the clock and the disk do.
\<close>

theorem refreshCredentials_once:
  assumes "refreshCredentials enc p uuid e1 e2 now later t c d = (None, c', d')"
    and "p_check p = verifyRefreshV2Response ed dec pm sha seen"
    and "cl_credentials c = Some s" and "cs_identity s = Some i" and "AccessToken i = t" and "cl_token c = t"
  shows "(\<exists>s' j g. cl_credentials c' = Some s' \<and> cs_identity s' = Some j \<and> AccessToken j = cl_token c' \<and>
      AgentID j = AgentID i \<and> PendingRefresh j = None \<and> Generation j = Some g \<and>
      (\<forall>g0. Generation i = Some g0 \<longrightarrow> g0 < g \<and> g = g0 + 1) \<and> RefreshToken j \<noteq> RefreshToken i) \<and>
    cl_token c' \<noteq> t \<and> refreshCredentials enc' p' uuid' e3 e4 now' later' t c' d'' = (None, c', d'')"
proof -
  obtain c1 where r: "rotate_credentials enc p uuid e1 e2 c d = (None, c1, d')"
      "c' = c1\<lparr>cl_refreshLastErr := None, cl_refreshRetryAt := 0\<rparr>"
    using assms(1,6) by (auto simp: refreshCredentials_def split: if_splits option.splits prod.splits)
  from rotate_credentials_ok [OF r(1) assms(2-4)] obtain s' j g where
    "cl_credentials c1 = Some s'" "cs_identity s' = Some j" "AccessToken j = cl_token c1"
    "AgentID j = AgentID i" "PendingRefresh j = None" "Generation j = Some g"
    "\<forall>g0. Generation i = Some g0 \<longrightarrow> g0 < g \<and> g = g0 + 1" "cl_token c1 \<noteq> []" "cl_token c1 \<noteq> AccessToken i"
    "RefreshToken j \<noteq> RefreshToken i"
    by blast
  with r(2) assms(5) show ?thesis by (auto simp: refreshCredentials_def)
qed

text \<open>
  A failed rotation is quiet. The client keeps its token, its store keeps the same credentials (at
  most a pending request is added, and an existing one is kept, so the retry repeats it), and for five
  seconds, or fifteen minutes when the panel refused the credential, every further call for that token
  returns the same error without sending a request or touching the store or the disk.
\<close>

theorem refreshCredentials_backoff:
  assumes "refreshCredentials enc p uuid e1 e2 now later t c d = (Some err, c', d')"
    and "cl_refreshLastErr c = None \<or> cl_refreshRetryAt c \<le> now" and "cl_credentials c = Some s"
    and "now' < later + (if permanentCredentialRejection err then 15 * minute else 5 * second)"
  shows "(\<exists>s'. cl_credentials c' = Some s' \<and> same_credentials s s') \<and> cl_token c' = cl_token c \<and>
    refreshCredentials enc' p' uuid' e3 e4 now' later' t c' d'' = (Some err, c', d'')"
proof -
  obtain c1 where r: "rotate_credentials enc p uuid e1 e2 c d = (Some err, c1, d')"
      "c' = c1\<lparr>cl_refreshLastErr := Some err,
         cl_refreshRetryAt := later + (if permanentCredentialRejection err then 15 * minute else 5 * second)\<rparr>"
    and t: "\<not> (cl_token c \<noteq> t \<and> cl_token c \<noteq> [])"
    using assms(1,2) by (auto simp: refreshCredentials_def split: if_splits option.splits prod.splits)
  from rotate_credentials_failed [OF r(1) assms(3)] obtain s' where
    "c1 = c\<lparr>cl_credentials := Some s'\<rparr>" "same_credentials s s'" by blast
  with r(2) t assms(4) show ?thesis by (auto simp: refreshCredentials_def)
qed

section \<open>Properties of signed executions\<close>

lemma ensureTrustBundle_replay:
  "ensureTrustBundle enc p cfg e c d = (r, c', d') \<Longrightarrow>
    cl_replayGuard c' = cl_replayGuard c \<and> cl_agentID c' = cl_agentID c"
  by (auto simp: ensureTrustBundle_def fetchAndPinTrustBundle_def Let_def
      split: option.splits if_splits prod.splits sum.splits)

lemma client_identity_replay [simp]: "client_identity (c\<lparr>cl_replayGuard := g\<rparr>) = client_identity c"
  by (cases "cl_credentials c") (simp_all add: client_identity_def)

lemma signing_identity_frame:
  assumes "signing_identity enc p cfg e c d = (known, c', d')"
  shows "cl_replayGuard c' = cl_replayGuard c \<and> cl_agentID c' = cl_agentID c \<and>
    (\<forall>i. known = Some i \<longrightarrow> ControlPlaneKeys i \<noteq> [] \<and> client_identity c' = Some i)"
proof (cases "\<exists>i. client_identity c = Some i \<and> ControlPlaneKeys i \<noteq> []")
  case True
  with assms show ?thesis by (auto simp: signing_identity_def)
next
  case False
  obtain r c1 d1 where e: "ensureTrustBundle enc p cfg e c d = (r, c1, d1)" by (metis prod_cases3)
  from ensureTrustBundle_replay [OF this] assms False e show ?thesis
    by (cases r; cases "client_identity c"; cases "client_identity c1") (auto simp: signing_identity_def split: if_splits)
qed

lemma verifyExecutionAssignment_Inr:
  assumes "verifyExecutionAssignment enc p cfg e ed unm us renc rdec re (Some a) c d rd = (Inr s, c', d', rd')"
  obtains i identity v g' ins where "identity = (if AgentID i = [] then i\<lparr>AgentID := cl_agentID c\<rparr> else i)"
    "ControlPlaneKeys identity \<noteq> []" "client_identity c' = Some i"
    "Verify ed unm renc rdec re (xa_Envelope a) (New identity (Some (cl_replayGuard c))) rd = (Inr ins, v, rd')"
    "v_replay v = Some g'" "cl_replayGuard c' = g'" "in_InstructionType ins = ''exec:v1''" "us (in_Body ins) = Some s"
proof -
  obtain known c1 d1 where k: "signing_identity enc p cfg e c d = (known, c1, d1)" by (metis prod_cases3)
  note F = signing_identity_frame [OF k]
  obtain i where i: "known = Some i"
    using assms k by (cases known) (auto simp: verifyExecutionAssignment_def split: if_splits)
  define identity where "identity = (if AgentID i = [] then i\<lparr>AgentID := cl_agentID c1\<rparr> else i)"
  obtain r v rd1 where V: "Verify ed unm renc rdec re (xa_Envelope a) (New identity (Some (cl_replayGuard c1))) rd = (r, v, rd1)"
    by (metis prod_cases3)
  have res: "spec_of us r = Inr s" "rd' = rd1"
    "c' = c1\<lparr>cl_replayGuard := (case v_replay v of None \<Rightarrow> cl_replayGuard c1 | Some g \<Rightarrow> g)\<rparr>"
    using assms V by (simp_all add: verifyExecutionAssignment_def k i identity_def [symmetric] split: if_splits)
  then obtain ins where ins: "r = Inr ins" "in_InstructionType ins = ''exec:v1''" "us (in_Body ins) = Some s"
    by (auto simp: spec_of_def split: sum.splits if_splits option.splits)
  from V ins(1) obtain g' where g': "v_replay v = Some g'" by (auto simp: New_def elim!: Verify_Inr)
  show ?thesis
  proof (rule that)
    show "identity = (if AgentID i = [] then i\<lparr>AgentID := cl_agentID c\<rparr> else i)" using F by (simp add: identity_def)
    show "ControlPlaneKeys identity \<noteq> []" using F i by (simp add: identity_def)
    show "client_identity c' = Some i" using F i res(3) by simp
    show "Verify ed unm renc rdec re (xa_Envelope a) (New identity (Some (cl_replayGuard c))) rd = (Inr ins, v, rd')"
      using V ins(1) res(2) F by simp
    show "v_replay v = Some g'" by (rule g')
    show "cl_replayGuard c' = g'" using res(3) g' by simp
  qed (use ins in simp_all)
qed

text \<open>
  C19: The panel cannot have a command run twice, and nobody else can have one run at all. An execution
  is handed on only when a signed instruction of type \<open>exec:v1\<close> vouches for exactly the specification
  that runs, under a control-plane key of the identity the client acts for. After that the record of nonces may go through
  any history (verifications of other instructions, restarts of the agent, failing calls): as long as it has room for its
  4096 entries and the clock has not passed the expiry of the instruction, no client that uses the record accepts an
  assignment with the same nonce, the same envelope or another one.
\<close>

theorem execution_runs_once:
  assumes "codec_ok renc rdec"
    and A: "verifyExecutionAssignment enc p cfg e ed unm us renc rdec re (Some a) c d rd = (Inr s, c1, d1, rd1)"
    and "env_tmp re \<noteq> rg_path (cl_replayGuard c)" and "distinct (map fst (rg_entries (cl_replayGuard c1)))"
    and room: "length (rg_entries (cl_replayGuard c1)) + length later < maximumEntries"
    and "rg_run renc rdec later (cl_replayGuard c1, rd1) = (g, rd2)" and "cl_replayGuard c2 = g"
    and files: "\<forall>y \<in> set ((re', RRestart) # later). env_tmp (fst y) \<noteq> rg_path (cl_replayGuard c)"
  shows "\<exists>i env ins. client_identity c1 = Some i \<and> xa_Envelope a = Some env \<and> unm (se_Payload env) = Some ins \<and>
    si_InstructionType ins = ''exec:v1'' \<and> us (si_Body ins) = Some s \<and>
    (\<exists>sg \<in> set (se_Signatures env). vouched ed (New i None) (env_now re) (se_Payload env) sg) \<and>
    ((\<forall>y \<in> set ((re', RRestart) # later). env_now (fst y) \<le> timeOrZero (si_ExpiresAt ins)) \<and>
      xa_Envelope a' = Some env' \<and> unm' (se_Payload env') = Some ins' \<and> TrimSpace (si_Nonce ins') = TrimSpace (si_Nonce ins) \<longrightarrow>
      (\<nexists>s'. fst (verifyExecutionAssignment enc' p' cfg' e' ed' unm' us' renc rdec re' (Some a') c2 d2 rd2) = Inr s'))"
proof -
  from A obtain i identity v ins where I: "identity = (if AgentID i = [] then i\<lparr>AgentID := cl_agentID c\<rparr> else i)"
      "client_identity c1 = Some i" "v_replay v = Some (cl_replayGuard c1)"
      "in_InstructionType ins = ''exec:v1''" "us (in_Body ins) = Some s"
    and V: "Verify ed unm renc rdec re (xa_Envelope a) (New identity (Some (cl_replayGuard c))) rd = (Inr ins, v, rd1)"
    by (elim verifyExecutionAssignment_Inr) auto
  obtain env where env: "xa_Envelope a = Some env" using A by (cases "xa_Envelope a") (auto simp: verifyExecutionAssignment_def)
  from V obtain j k where J: "Verify_checks ed unm (New identity (Some (cl_replayGuard c))) (env_now re) (Some env) = Inr (j, k)"
      "ins = instruction_of j k"
    unfolding env by (elim Verify_Inr) auto
  then have j: "unm (se_Payload env) = Some j"
      "1 \<le> length (filter (vouched ed (New identity (Some (cl_replayGuard c))) (env_now re) (se_Payload env)) (se_Signatures env))"
    using verifySignatures_vouched [of ed "New identity (Some (cl_replayGuard c))" "env_now re" "se_Payload env" "se_Signatures env" k]
    by (auto simp: Verify_checks_Inr required_def)
  then obtain sg where "sg \<in> set (se_Signatures env)" "vouched ed (New identity (Some (cl_replayGuard c))) (env_now re) (se_Payload env) sg"
    by (metis (no_types, lifting) filter_False list.size(3) not_one_le_zero)
  moreover have "vouched ed (New identity (Some (cl_replayGuard c))) (env_now re) (se_Payload env) x = vouched ed (New i None) (env_now re) (se_Payload env) x" for x
    by (simp add: vouched_def New_def I(1))
  ultimately have sg: "\<exists>sg \<in> set (se_Signatures env). vouched ed (New i None) (env_now re) (se_Payload env) sg" by blast
  have "False" if now: "\<forall>y \<in> set ((re', RRestart) # later). env_now (fst y) \<le> timeOrZero (si_ExpiresAt j)"
    and env': "xa_Envelope a' = Some env'" "unm' (se_Payload env') = Some ins'" "TrimSpace (si_Nonce ins') = TrimSpace (si_Nonce j)"
    and B: "fst (verifyExecutionAssignment enc' p' cfg' e' ed' unm' us' renc rdec re' (Some a') c2 d2 rd2) = Inr s'" for s'
  proof -
    obtain c3 d3 rd3 where "verifyExecutionAssignment enc' p' cfg' e' ed' unm' us' renc rdec re' (Some a') c2 d2 rd2 = (Inr s', c3, d3, rd3)"
      using B by (metis prod.collapse)
    then obtain identity' v' i' where W:
      "Verify ed' unm' renc rdec re' (Some env') (New identity' (Some g)) rd2 = (Inr i', v', rd3)"
      using assms(7) unfolding env'(1) [symmetric] by (elim verifyExecutionAssignment_Inr) auto
    then obtain j' k' where "i' = instruction_of j' k'" "unm' (se_Payload env') = Some j'"
      by (elim Verify_Inr) (auto simp: Verify_checks_Inr)
    with J(2) env' have nonce: "TrimSpace (in_Nonce i') = TrimSpace (in_Nonce ins)" by simp
    have "v_replay (New identity (Some (cl_replayGuard c))) = Some (cl_replayGuard c)"
      "v_replay (New identity' (Some g)) = Some g" by (simp_all add: New_def)
    moreover have "env_now re' \<le> in_ExpiresAt ins"
      "\<forall>y \<in> set later. env_now (fst y) \<le> in_ExpiresAt ins \<and> env_tmp (fst y) \<noteq> rg_path (cl_replayGuard c)"
      "env_tmp re' \<noteq> rg_path (cl_replayGuard c)" using now files J(2) by simp_all
    ultimately show False
      using Verify_later_nonce [OF assms(1) V _ I(3) assms(4,5,3) _ _ _ assms(6) W] nonce by blast
  qed
  then show ?thesis using I env j(1) J(2) sg by auto
qed

section \<open>Sample values for the witnesses\<close>

definition sample_panel :: panel where
  "sample_panel = \<lparr>p_new = (\<lambda>_. None), p_trust = (\<lambda>_. None),
     p_rpc = (\<lambda>_ _. Inr (Some sample_envelope, Some sample_issued)),
     p_prove = (\<lambda>_. Inr sample_envelope), p_check = sample_check\<rparr>"

definition sample_client :: "Identity \<Rightarrow> client" where
  "sample_client i = \<lparr>cl_endpoint = ''https://p'', cl_token = AccessToken i, cl_agentID = ''a1'', cl_refreshRetryAt = 0,
     cl_refreshLastErr = None, cl_credentials = Some \<lparr>cs_path = ''c'', cs_identity = Some i\<rparr>, cl_hostTrust = None,
     cl_replayGuard = sample_guard\<rparr>"

lemma sample_client_simps [simp]:
  "cl_endpoint (sample_client i) = ''https://p''" "cl_token (sample_client i) = AccessToken i" "cl_agentID (sample_client i) = ''a1''"
  "cl_refreshLastErr (sample_client i) = None" "cl_credentials (sample_client i) = Some \<lparr>cs_path = ''c'', cs_identity = Some i\<rparr>"
  "cl_replayGuard (sample_client i) = sample_guard" "client_identity (sample_client i) = Some i"
  by (simp_all add: sample_client_def client_identity_def)

lemma sample_rt: "TrimSpace ''rt'' \<noteq> []"
  by (simp add: TrimSpace_def strip.simps space_runes_def starts_with_def)

lemma sample_BeginRefresh:
  "BeginRefresh Some (quiet_env ''t'' 9) ''u2'' \<lparr>cs_path = ''c'', cs_identity = Some sample_enrolled\<rparr> Map.empty =
     (Inr sample_enrolled, \<lparr>cs_path = ''c'', cs_identity = Some sample_enrolled\<rparr>, Map.empty)"
  by (simp add: BeginRefresh_def sample_enrolled_simps)

lemma sample_Refresh:
  "Refresh (p_trust sample_panel) (p_rpc sample_panel) (p_prove sample_panel) (p_check sample_panel) sample_enrolled =
     Inr (rotated sample_enrolled 5 sample_issued)"
  using sample_rt sample_check_ok by (simp add: Refresh_def sample_enrolled_simps sample_panel_def)

lemma sample_enrolled_same:
  "sample_enrolled\<lparr>ControlPlaneKeys := [sample_pin ''k1''], PolicyAlgorithms := [], PolicyRequireAll := False,
     PolicyMinimumSignatures := 0\<rparr> = sample_enrolled"
  by (simp add: sample_enrolled_def sample_identity_def Identity_zero_def)

lemma sample_rotation:
  "\<exists>s2 d2. rotate_credentials Some sample_panel ''u2'' (quiet_env ''t'' 9) (quiet_env ''t'' 11) (sample_client sample_enrolled) Map.empty =
     (None, (sample_client sample_enrolled)\<lparr>cl_credentials := Some s2, cl_token := ''at2''\<rparr>, d2)"
proof -
  obtain s2 d2 where C: "CommitRefresh Some (quiet_env ''t'' 11) sample_enrolled (rotated sample_enrolled 5 sample_issued)
      \<lparr>cs_path = ''c'', cs_identity = Some sample_enrolled\<rparr> Map.empty = (Inr (), s2, d2)"
    using refresh_commit_facts [OF sample_BeginRefresh sample_Refresh [unfolded sample_panel_def panel.simps], of "''t''" 11] by auto
  have "AccessToken (rotated sample_enrolled 5 sample_issued) = ''at2''"
    by (simp add: rotated_def sample_issued_def Let_def)
  moreover have "p_new sample_panel e = None" for e by (simp add: sample_panel_def)
  ultimately show ?thesis
    using sample_rt C by (auto simp: rotate_credentials_def sample_BeginRefresh sample_Refresh sample_enrolled_simps
        sample_enrolled_same Let_def)
qed

text \<open>A panel that cannot be reached.\<close>

definition silent_panel :: panel where
  "silent_panel = sample_panel\<lparr>p_rpc := (\<lambda>_ _. Inl (conn_error CodeUnauthenticated []))\<rparr>"

definition sample_signer :: Identity where
  "sample_signer = Identity_zero\<lparr>AgentID := ''a1'', ControlPlaneKeys := [sample_pin ''k1''], PolicyMinimumSignatures := 1\<rparr>"

abbreviation exec_instruction :: SignedInstruction where
  "exec_instruction \<equiv> sample_instruction\<lparr>si_InstructionType := ''exec:v1''\<rparr>"

lemma sample_exec_Verify:
  "\<exists>g1 d1. Verify sample_ed (\<lambda>_. Some exec_instruction) Some (\<lambda>m. Some (Some m)) (quiet_env ''t'' 10) (Some sample_envelope)
      (New sample_signer (Some sample_guard)) Map.empty =
      (Inr (instruction_of exec_instruction ''k1''), (sample_verifier 1)\<lparr>v_replay := Some g1\<rparr>, d1) \<and>
    rg_entries g1 = [(''n1'', 1000)]"
proof -
  have v: "New sample_signer (Some sample_guard) = sample_verifier 1" by (simp add: sample_signer_def sample_verifier_def)
  have "Verify_checks sample_ed (\<lambda>_. Some sample_instruction) (sample_verifier 1) 10 (Some sample_envelope) = Inr (sample_instruction, ''k1'')"
    by (rule sample_checks) simp_all
  moreover have "checkBinding (sample_verifier 1) exec_instruction 10 = checkBinding (sample_verifier 1) sample_instruction 10"
    by (simp add: sample_instruction_def checkBinding_def)
  ultimately have k: "Verify_checks sample_ed (\<lambda>_. Some exec_instruction) (sample_verifier 1) 10 (Some sample_envelope) = Inr (exec_instruction, ''k1'')"
    by (simp only: Verify_checks_Inr option.inject simp_thms)
  obtain g1 d1 where "Consume Some (\<lambda>m. Some (Some m)) (quiet_env ''t'' 10) ''n1'' 1000 sample_guard Map.empty
      = (None, g1, d1)" and "rg_entries g1 = [(''n1'', 1000)]"
    by (simp add: sample_guard_def Consume_def Let_def TrimSpace_n1 rg_load_def quiet_env_def
      pruneLocked_def drop_excess_small persistLocked_def run_deferred_def rg_pre_def rg_post_def op_fails_def)
  then show ?thesis using k unfolding v
    by (auto simp: Verify_def sample_instruction_def quiet_env_def)
qed

section \<open>Witnesses\<close>

theorem refreshCredentials_once_witness:
  "\<exists>c' d'. refreshCredentials Some sample_panel ''u2'' (quiet_env ''t'' 9) (quiet_env ''t'' 11) 9 11 ''at''
       (sample_client sample_enrolled) Map.empty = (None, c', d') \<and> cl_token c' \<noteq> ''at'' \<and>
     refreshCredentials Some silent_panel ''u3'' (quiet_env ''t'' 12) (quiet_env ''t'' 12) 12 12 ''at'' c' d' = (None, c', d')"
proof -
  obtain c' d' where R: "refreshCredentials Some sample_panel ''u2'' (quiet_env ''t'' 9) (quiet_env ''t'' 11) 9 11 ''at''
       (sample_client sample_enrolled) Map.empty = (None, c', d')"
    using sample_rotation by (auto simp: refreshCredentials_def sample_enrolled_simps)
  have "p_check sample_panel = sample_check" by (simp add: sample_panel_def)
  from refreshCredentials_once [OF R this] R show ?thesis by (fastforce simp: sample_enrolled_simps)
qed

theorem refreshCredentials_backoff_witness:
  "\<exists>c' d'. refreshCredentials Some silent_panel ''u2'' (quiet_env ''t'' 9) (quiet_env ''t'' 11) 9 11 ''at''
       (sample_client sample_enrolled) Map.empty = (Some (conn_error CodeUnauthenticated []), c', d') \<and>
     refreshCredentials Some sample_panel ''u3'' (quiet_env ''t'' 12) (quiet_env ''t'' 12) (14 * minute) (14 * minute) ''at'' c' d' =
       (Some (conn_error CodeUnauthenticated []), c', d')"
proof -
  have "Refresh (p_trust silent_panel) (p_rpc silent_panel) (p_prove silent_panel) (p_check silent_panel) sample_enrolled =
      Inl (RefreshRpcFailed (conn_error CodeUnauthenticated []))"
    using sample_rt by (simp add: Refresh_def silent_panel_def sample_panel_def sample_enrolled_simps)
  moreover have "p_new silent_panel e = None" for e by (simp add: silent_panel_def sample_panel_def)
  ultimately obtain c1 where "rotate_credentials Some silent_panel ''u2'' (quiet_env ''t'' 9) (quiet_env ''t'' 11) (sample_client sample_enrolled) Map.empty =
      (Some (conn_error CodeUnauthenticated []), c1, Map.empty)"
    using sample_rt by (simp add: rotate_credentials_def sample_BeginRefresh sample_enrolled_simps sample_enrolled_same Let_def refresh_error_def)
  then obtain c' where R: "refreshCredentials Some silent_panel ''u2'' (quiet_env ''t'' 9) (quiet_env ''t'' 11) 9 11 ''at''
       (sample_client sample_enrolled) Map.empty = (Some (conn_error CodeUnauthenticated []), c', Map.empty)"
    by (simp add: refreshCredentials_def sample_enrolled_simps)
  have "permanentCredentialRejection (conn_error CodeUnauthenticated [])"
    by (simp add: permanentCredentialRejection_def CodeOf_def conn_error_def)
  with refreshCredentials_backoff [OF R, of _ "14 * minute"] R show ?thesis by fastforce
qed

theorem execution_runs_once_witness:
  "\<exists>c1 d1 rd1 g rd2. verifyExecutionAssignment Some sample_panel None (quiet_env ''t'' 10) sample_ed (\<lambda>_. Some exec_instruction) Some
       Some (\<lambda>m. Some (Some m)) (quiet_env ''t'' 10) (Some \<lparr>xa_ExecutionId = None, xa_Envelope = Some sample_envelope\<rparr>)
       (sample_client sample_signer) Map.empty Map.empty = (Inr ''b'', c1, d1, rd1) \<and>
     rg_run Some (\<lambda>m. Some (Some m)) [(quiet_env ''t'' 12, RRestart), (quiet_env ''t'' 15, RConsume ''n2'' 50)]
       (cl_replayGuard c1, rd1) = (g, rd2) \<and>
     (\<nexists>s'. fst (verifyExecutionAssignment Some sample_panel None (quiet_env ''t'' 10) sample_ed (\<lambda>_. Some exec_instruction) Some
       Some (\<lambda>m. Some (Some m)) (quiet_env ''t'' 20) (Some \<lparr>xa_ExecutionId = Some ''again'', xa_Envelope = Some sample_envelope\<rparr>)
       ((sample_client sample_signer)\<lparr>cl_replayGuard := g\<rparr>) Map.empty rd2) = Inr s')"
proof -
  let ?a = "\<lparr>xa_ExecutionId = None, xa_Envelope = Some sample_envelope\<rparr>"
  let ?again = "\<lparr>xa_ExecutionId = Some ''again'', xa_Envelope = Some sample_envelope\<rparr>"
  let ?later = "[(quiet_env ''t'' 12, RRestart), (quiet_env ''t'' 15, RConsume ''n2'' 50)]"
  obtain g1 rd1 where V: "Verify sample_ed (\<lambda>_. Some exec_instruction) Some (\<lambda>m. Some (Some m)) (quiet_env ''t'' 10) (Some sample_envelope)
      (New sample_signer (Some sample_guard)) Map.empty =
      (Inr (instruction_of exec_instruction ''k1''), (sample_verifier 1)\<lparr>v_replay := Some g1\<rparr>, rd1)"
    and g1: "rg_entries g1 = [(''n1'', 1000)]"
    using sample_exec_Verify by blast
  have i: "AgentID sample_signer = ''a1''" "ControlPlaneKeys sample_signer \<noteq> []" by (simp_all add: sample_signer_def)
  have A: "verifyExecutionAssignment Some sample_panel None (quiet_env ''t'' 10) sample_ed (\<lambda>_. Some exec_instruction) Some
       Some (\<lambda>m. Some (Some m)) (quiet_env ''t'' 10) (Some ?a) (sample_client sample_signer) Map.empty Map.empty =
       (Inr ''b'', (sample_client sample_signer)\<lparr>cl_replayGuard := g1\<rparr>, Map.empty, rd1)"
    using V i by (simp add: verifyExecutionAssignment_def signing_identity_def spec_of_def Let_def)
      (simp add: sample_instruction_def)
  have cod: "codec_ok Some (\<lambda>m. Some (Some m))" by (simp add: codec_ok_def)
  obtain g rd2 where R: "rg_run Some (\<lambda>m. Some (Some m)) ?later (cl_replayGuard ((sample_client sample_signer)\<lparr>cl_replayGuard := g1\<rparr>), rd1) = (g, rd2)"
    by force
  have "\<nexists>s'. fst (verifyExecutionAssignment Some sample_panel None (quiet_env ''t'' 10) sample_ed (\<lambda>_. Some exec_instruction) Some
       Some (\<lambda>m. Some (Some m)) (quiet_env ''t'' 20) (Some ?again) ((sample_client sample_signer)\<lparr>cl_replayGuard := g\<rparr>) Map.empty rd2) = Inr s'"
    using execution_runs_once [OF cod A _ _ _ R, of "(sample_client sample_signer)\<lparr>cl_replayGuard := g\<rparr>" "quiet_env ''t'' 20" ?again
        sample_envelope "\<lambda>_. Some exec_instruction" exec_instruction Some sample_panel None "quiet_env ''t'' 10" sample_ed Some Map.empty] g1
    by (simp add: sample_guard_def quiet_env_def sample_instruction_def)
  with A R show ?thesis by fastforce
qed

end
