(* ===== verification/Dpop.thy ===== *)
theory Dpop
  imports ClientAuth
begin

text \<open>
  \<open>requestheaders/dpop.go\<close> and \<open>auth.go\<close>: the proof of possession every request of the client carries,
  and the one retry after a 401. Ed25519 signing, SHA-256, the clock and the nonces are parameters. The
  transport below, the identity, the token and the 401 handler act on a state: for the client of
  \<open>wrapWithDPoP\<close> it is the client with its disk.
\<close>

section \<open>Requests\<close>

text \<open>
  \<open>hq_Body\<close> is \<open>None\<close> without a body (\<open>nil\<close> or \<open>http.NoBody\<close>) and \<open>Some None\<close> when reading it fails.
  Header names are in their canonical form.
\<close>

record http_request =
  hq_Method :: string
  hq_Path :: string
  hq_Header :: "string \<rightharpoonup> string"
  hq_Body :: "bytes option option"
  hq_ContentLength :: int
  hq_GetBody :: bool

text \<open>A response is its status code.\<close>

record 's transport =
  dt_Base :: "http_request \<Rightarrow> 's \<Rightarrow> (go_error + int) \<times> 's"
  dt_Identity :: "('s \<Rightarrow> Identity option) option"
  dt_Token :: "('s \<Rightarrow> string) option"
  dt_On401 :: "(string \<Rightarrow> 's \<Rightarrow> bool \<times> 's) option"

definition ApplyAgentAuthentication :: "string \<Rightarrow> string \<Rightarrow> string \<Rightarrow> (string \<rightharpoonup> string) \<Rightarrow> (string \<rightharpoonup> string)" where
  "ApplyAgentAuthentication token clientID clientSecret h =
     (let h = h(''Authorization'' \<mapsto> ''Bearer '' @ token) in
      if clientID \<noteq> [] \<and> clientSecret \<noteq> []
      then h(''Cf-Access-Client-Id'' \<mapsto> clientID, ''Cf-Access-Client-Secret'' \<mapsto> clientSecret) else h)"

section \<open>Signing\<close>

definition dpop_payload :: "(bytes \<Rightarrow> bytes) \<Rightarrow> string \<Rightarrow> string \<Rightarrow> string \<Rightarrow> string \<Rightarrow> string \<Rightarrow> bytes \<Rightarrow> bytes" where
  "dpop_payload sha method path stamp nonce token body =
     join [CHR 0x0A] [method, path, stamp, nonce, hex_encode (sha token), hex_encode (sha body)]"

definition is_stream :: "http_request \<Rightarrow> bool" where
  "is_stream req \<longleftrightarrow> hq_Body req \<noteq> None \<and> hq_ContentLength req < 0 \<and> \<not> hq_GetBody req"

text \<open>\<open>signRequest\<close>: \<open>body\<close> holds the bytes read from the body, none for a stream or without a body.\<close>

definition signRequest ::
  "(bytes \<Rightarrow> bytes) \<Rightarrow> (bytes \<Rightarrow> bytes \<Rightarrow> bytes) \<Rightarrow> bytes \<Rightarrow> bytes \<Rightarrow> string \<times> string \<Rightarrow> string \<Rightarrow>
     http_request \<Rightarrow> http_request" where
  "signRequest sha sign privKey body at_nonce curToken req =
     (let stream = is_stream req;
          payload = dpop_payload sha (hq_Method req) (hq_Path req) (fst at_nonce) (snd at_nonce) curToken
            (if stream then [] else body);
          h = (if stream then (hq_Header req)(''X-Komari-Body-Mode'' \<mapsto> ''stream'') else hq_Header req)
      in req\<lparr>hq_Header := h(''Authorization'' \<mapsto> ''Bearer '' @ curToken,
           ''X-Komari-Signature'' \<mapsto> b64_encode (sign privKey payload),
           ''X-Komari-Timestamp'' \<mapsto> fst at_nonce, ''X-Komari-Nonce'' \<mapsto> snd at_nonce)\<rparr>)"

text \<open>The token a request is signed with: the client's, else the one of the header, else the identity's.\<close>

definition request_token :: "'s transport \<Rightarrow> Identity \<Rightarrow> http_request \<Rightarrow> 's \<Rightarrow> string" where
  "request_token t identity req s =
     (let token = (case dt_Token t of None \<Rightarrow> [] | Some f \<Rightarrow> f s);
          token = (if token = [] then
              (let auth = (case hq_Header req ''Authorization'' of None \<Rightarrow> [] | Some a \<Rightarrow> a) in
               if starts_with ''Bearer '' auth then TrimPrefix auth ''Bearer '' else token)
            else token)
      in if token = [] then AccessToken identity else token)"

text \<open>
  The signed exchange: the requests that reach the transport below, the result and the state. \<open>stamp\<close>
  gives the time and the nonce of the first and of the second signature; a stream that is sent again has
  been read already.
\<close>

definition signed_exchange ::
  "(bytes \<Rightarrow> bytes) \<Rightarrow> (bytes \<Rightarrow> bytes \<Rightarrow> bytes) \<Rightarrow> (nat \<Rightarrow> string \<times> string) \<Rightarrow> 's transport \<Rightarrow> bytes \<Rightarrow> string \<Rightarrow>
     bytes \<Rightarrow> http_request \<Rightarrow> 's \<Rightarrow> http_request list \<times> (go_error + int) \<times> 's" where
  "signed_exchange sha sign stamp t privKey token body req s =
     (let first = signRequest sha sign privKey body (stamp 0) token req in
      case dt_Base t first s of
        (Inl err, s1) \<Rightarrow> ([first], Inl err, s1)
      | (Inr status, s1) \<Rightarrow>
          (case dt_On401 t of
             None \<Rightarrow> ([first], Inr status, s1)
           | Some on401 \<Rightarrow>
               if status \<noteq> 401 then ([first], Inr status, s1)
               else (case on401 token s1 of
                       (False, s2) \<Rightarrow> ([first], Inr status, s2)
                     | (True, s2) \<Rightarrow>
                         (let newToken = (case dt_Token t of None \<Rightarrow> [] | Some f \<Rightarrow> f s2) in
                          if newToken \<noteq> [] \<and> newToken \<noteq> token then
                            (let second = signRequest sha sign privKey body (stamp 1) newToken first;
                                 second = (if is_stream req then second\<lparr>hq_Body := Some (Some [])\<rparr> else second) in
                             case dt_Base t second s2 of (r, s3) \<Rightarrow> ([first, second], r, s3))
                          else ([first], Inr status, s2)))))"

definition RoundTrip ::
  "(bytes \<Rightarrow> bytes) \<Rightarrow> (bytes \<Rightarrow> bytes \<Rightarrow> bytes) \<Rightarrow> (nat \<Rightarrow> string \<times> string) \<Rightarrow> 's transport \<Rightarrow> http_request \<Rightarrow> 's \<Rightarrow>
     http_request list \<times> (go_error + int) \<times> 's" where
  "RoundTrip sha sign stamp t req s =
     (let plain = (case dt_Base t req s of (r, s') \<Rightarrow> ([req], r, s')) in
      case dt_Identity t of
        None \<Rightarrow> plain
      | Some get \<Rightarrow>
          (case get s of
             None \<Rightarrow> plain
           | Some identity \<Rightarrow>
               if PrivateKey identity = [] then plain
               else (case SigningKey b64_decode identity of
                       Inl _ \<Rightarrow> plain
                     | Inr privKey \<Rightarrow>
                         (let token = request_token t identity req s in
                          if token = [] then plain
                          else if \<not> is_stream req \<and> hq_Body req = Some None
                          then ([], Inl (local_error ''read body''), s)
                          else signed_exchange sha sign stamp t privKey token
                            (if is_stream req then [] else case hq_Body req of Some (Some b) \<Rightarrow> b | _ \<Rightarrow> []) req s))))"

text \<open>\<open>wrapWithDPoP\<close> of the client: the 401 handler is \<open>refreshCredentials\<close>.\<close>

definition client_transport ::
  "(http_request \<Rightarrow> client \<times> 'c disk \<Rightarrow> (go_error + int) \<times> client \<times> 'c disk) \<Rightarrow> (Identity \<Rightarrow> 'c option) \<Rightarrow> panel \<Rightarrow>
     string \<Rightarrow> 'c env \<Rightarrow> 'c env \<Rightarrow> gotime \<Rightarrow> gotime \<Rightarrow> (client \<times> 'c disk) transport" where
  "client_transport base enc p uuid e1 e2 now later =
     \<lparr>dt_Base = base, dt_Identity = Some (\<lambda>(c, d). client_identity c), dt_Token = Some (\<lambda>(c, d). cl_token c),
      dt_On401 = Some (\<lambda>oldToken (c, d). case refreshCredentials enc p uuid e1 e2 now later oldToken c d of
        (r, c', d') \<Rightarrow> (r = None, c', d'))\<rparr>"

section \<open>Properties\<close>

text \<open>What a verifier of the panel recomputes from a request and the body it read.\<close>

definition proves ::
  "(bytes \<Rightarrow> bytes) \<Rightarrow> (bytes \<Rightarrow> bytes \<Rightarrow> bytes) \<Rightarrow> bytes \<Rightarrow> bytes \<Rightarrow> string \<Rightarrow> http_request \<Rightarrow> bool" where
  "proves sha sign key body token req \<longleftrightarrow>
     (\<exists>stamp nonce. hq_Header req ''Authorization'' = Some (''Bearer '' @ token) \<and>
        hq_Header req ''X-Komari-Timestamp'' = Some stamp \<and> hq_Header req ''X-Komari-Nonce'' = Some nonce \<and>
        hq_Header req ''X-Komari-Signature'' = Some (b64_encode (sign key
          (dpop_payload sha (hq_Method req) (hq_Path req) stamp nonce token body))))"

lemma signRequest_proves:
  "proves sha sign key (if is_stream req then [] else body) token (signRequest sha sign key body n token req)"
  by (simp add: proves_def signRequest_def Let_def)

lemma signRequest_frame [simp]:
  "hq_Method (signRequest sha sign key body n token req) = hq_Method req"
  "hq_Path (signRequest sha sign key body n token req) = hq_Path req"
  "hq_Body (signRequest sha sign key body n token req) = hq_Body req"
  "is_stream (signRequest sha sign key body n token req) = is_stream req"
  by (simp_all add: signRequest_def is_stream_def Let_def)

lemma proves_body [simp]: "proves sha sign key body token (req\<lparr>hq_Body := b\<rparr>) = proves sha sign key body token req"
  by (simp add: proves_def)

lemma hex_digit_no_newline: "n < 16 \<Longrightarrow> hex_digit n \<noteq> CHR 0x0A"
proof
  assume n: "n < 16" and "hex_digit n = CHR 0x0A"
  then have "(of_char (hex_digit n) :: nat) = 10" by simp
  with n show False by (simp add: hex_digit_def split: if_splits)
qed

lemma hex_encode_no_newline: "CHR 0x0A \<notin> set (hex_encode xs)"
proof -
  have "(of_char b :: nat) div 16 < 16" for b :: char using of_char_bound [of b] by (simp add: less_mult_imp_div_less)
  then have "CHR 0x0A \<noteq> hex_digit (of_char b div 16)" "CHR 0x0A \<noteq> hex_digit (of_char b mod 16)" for b :: char
    using hex_digit_no_newline by (metis, metis mod_less_divisor zero_less_numeral)
  then show ?thesis by (simp add: hex_encode_def)
qed

lemma dpop_fields:
  assumes "dpop_payload sha m p t n tok b = dpop_payload sha m' p' t' n' tok' b'"
    and "\<forall>x \<in> {m, p, t, n, m', p', t', n'}. CHR 0x0A \<notin> set x"
  shows "m' = m \<and> p' = p \<and> t' = t \<and> n' = n \<and> sha tok' = sha tok \<and> sha b' = sha b"
proof -
  have hx: "CHR 0x0A \<notin> set (hex_encode xs)" for xs
    using hex_encode_no_newline by blast
  have "split_at (CHR 0x0A) (dpop_payload sha m p t n tok b) = [m, p, t, n, hex_encode (sha tok), hex_encode (sha b)]"
    unfolding dpop_payload_def using assms(2) hx by (intro split_at_join) auto
  moreover have "split_at (CHR 0x0A) (dpop_payload sha m' p' t' n' tok' b') = [m', p', t', n', hex_encode (sha tok'), hex_encode (sha b')]"
    unfolding dpop_payload_def using assms(2) hx by (intro split_at_join) auto
  ultimately show ?thesis using assms(1) by (auto dest: hex_encode_inj)
qed

text \<open>
  A request that leaves in place of \<open>req\<close>: the same method and path, proved for \<open>body\<close> and \<open>token\<close>; a stream, whose body cannot
  be signed, says so in its header.
\<close>

definition carries_proof ::
  "(bytes \<Rightarrow> bytes) \<Rightarrow> (bytes \<Rightarrow> bytes \<Rightarrow> bytes) \<Rightarrow> bytes \<Rightarrow> http_request \<Rightarrow> bytes \<Rightarrow> string \<Rightarrow> http_request \<Rightarrow> bool" where
  "carries_proof sha sign key req body token x \<longleftrightarrow>
     hq_Method x = hq_Method req \<and> hq_Path x = hq_Path req \<and> proves sha sign key body token x \<and>
     (is_stream req \<longrightarrow> hq_Header x ''X-Komari-Body-Mode'' = Some ''stream'') \<and> (\<not> is_stream req \<longrightarrow> hq_Body x = hq_Body req)"

lemma signRequest_carries:
  assumes "(if is_stream req then [] else body) = body" and "hq_Method req' = hq_Method req" "hq_Path req' = hq_Path req"
    "is_stream req' = is_stream req" "\<not> is_stream req \<longrightarrow> hq_Body req' = hq_Body req"
  shows "carries_proof sha sign key req body token (signRequest sha sign key body n token req')"
  using signRequest_proves [of sha sign key req' body token n] assms
  by (auto simp: carries_proof_def split: if_splits) (simp add: signRequest_def Let_def)

text \<open>The exchange sends one proved request, or a second one after a 401 and a rotation.\<close>

lemma signed_exchange_cases:
  assumes E: "signed_exchange sha sign stamp t key token body req s = (sent, r, s')"
    and sb: "(if is_stream req then [] else body) = body"
  obtains (once) x where "sent = [x]" "carries_proof sha sign key req body token x"
  | (twice) x y s1 s2 on401 f where "sent = [x, y]" "carries_proof sha sign key req body token x"
      "dt_Base t x s = (Inr 401, s1)" "dt_On401 t = Some on401" "on401 token s1 = (True, s2)"
      "dt_Token t = Some f" "f s2 \<noteq> []" "f s2 \<noteq> token" "carries_proof sha sign key req body (f s2) y" "dt_Base t y s2 = (r, s')"
proof -
  define first where "first = signRequest sha sign key body (stamp 0) token req"
  have p1: "carries_proof sha sign key req body token first" by (simp add: first_def signRequest_carries sb)
  note E' = E [unfolded signed_exchange_def Let_def first_def [symmetric]]
  obtain r1 s1 where base: "dt_Base t first s = (r1, s1)" by force
  have single: thesis if "sent = [first]" using once that p1 by blast
  show ?thesis
  proof (cases r1)
    case (Inl err)
    with E' base single show ?thesis by simp
  next
    case (Inr status)
    show ?thesis
    proof (cases "dt_On401 t")
      case None
      with E' base Inr single show ?thesis by simp
    next
      case (Some on401)
      obtain ok s2 where o: "on401 token s1 = (ok, s2)" by force
      show ?thesis
      proof (cases "status = 401 \<and> ok \<and> (case dt_Token t of None \<Rightarrow> [] | Some f \<Rightarrow> f s2) \<noteq> [] \<and> (case dt_Token t of None \<Rightarrow> [] | Some f \<Rightarrow> f s2) \<noteq> token")
        case False
        with E' base Inr Some o single show ?thesis by (auto split: if_splits bool.splits)
      next
        case True
        then obtain f where f: "dt_Token t = Some f" "f s2 \<noteq> []" "f s2 \<noteq> token" by (cases "dt_Token t") auto
        define z where "z = signRequest sha sign key body (stamp 1) (f s2) first"
        define y where "y = (if is_stream req then z\<lparr>hq_Body := Some (Some [])\<rparr> else z)"
        have y: "sent = [first, y]" "dt_Base t y s2 = (r, s')"
          using E' base Inr Some o f True by (auto simp: y_def z_def split: prod.splits)
        have "carries_proof sha sign key req body (f s2) z"
          unfolding z_def by (rule signRequest_carries [OF sb]) (simp_all add: first_def)
        then have "carries_proof sha sign key req body (f s2) y" by (simp add: y_def carries_proof_def)
        with y show ?thesis using twice p1 base Inr True Some f o by simp
      qed
    qed
  qed
qed

text \<open>
  C21: Every request that leaves a transport whose identity and key are usable is proved: it carries the
  bearer token and a signature over its own method, path, time, nonce, token and body, with the key of the
  identity; only for a stream the signed body is the empty one, and the request says so. Nothing leaves when the body cannot be read.
  A second request leaves only after the first was answered 401 and the handler reported a refresh after which the client's
  token is another one; it is signed anew with exactly that token, and its answer is the answer. There is no third one.
\<close>

theorem RoundTrip_proves:
  assumes "RoundTrip sha sign stamp t req s = (sent, r, s')"
    and "dt_Identity t = Some get" and "get s = Some identity" and "PrivateKey identity \<noteq> []"
    and "SigningKey b64_decode identity = Inr key" and "request_token t identity req s \<noteq> []"
    and "token = request_token t identity req s"
    and "body = (if is_stream req then [] else case hq_Body req of Some (Some b) \<Rightarrow> b | _ \<Rightarrow> [])"
  shows "(sent = [] \<and> \<not> is_stream req \<and> hq_Body req = Some None) \<or>
    (\<exists>x. sent = [x] \<and> carries_proof sha sign key req body token x) \<or>
    (\<exists>x y s1 s2 on401 f. sent = [x, y] \<and> carries_proof sha sign key req body token x \<and>
       dt_Base t x s = (Inr 401, s1) \<and> dt_On401 t = Some on401 \<and> on401 token s1 = (True, s2) \<and>
       dt_Token t = Some f \<and> f s2 \<noteq> [] \<and> f s2 \<noteq> token \<and> carries_proof sha sign key req body (f s2) y \<and>
       dt_Base t y s2 = (r, s'))"
proof -
  have sb: "(if is_stream req then [] else body) = body" by (simp add: assms(8))
  have RT: "(if \<not> is_stream req \<and> hq_Body req = Some None then ([], Inl (local_error ''read body''), s)
      else signed_exchange sha sign stamp t key token body req s) = (sent, r, s')"
    using assms(1-6) by (simp only: RoundTrip_def Let_def option.case sum.case if_False assms(7,8))
  show ?thesis
  proof (cases "\<not> is_stream req \<and> hq_Body req = Some None")
    case True
    with RT show ?thesis by simp
  next
    case False
    with RT have "signed_exchange sha sign stamp t key token body req s = (sent, r, s')" by argo
    from this sb show ?thesis by (cases rule: signed_exchange_cases) blast+
  qed
qed

text \<open>
  The signed text determines the request: two requests whose method, path, time and nonce are single
  lines have the same signed text only when all four agree and the digests of token and body agree, so a
  proof cannot be moved to another call, token or body (unless SHA-256 collides).
\<close>

theorem dpop_payload_binds:
  assumes "dpop_payload sha m p t n tok b = dpop_payload sha m' p' t' n' tok' b'"
    and "\<forall>x \<in> {m, p, t, n, m', p', t', n'}. CHR 0x0A \<notin> set x"
  shows "m' = m \<and> p' = p \<and> t' = t \<and> n' = n \<and> sha tok' = sha tok \<and> sha b' = sha b"
  using assms by (rule dpop_fields)

text \<open>
  C22: A call refused with 401 recovers by itself, unless its body is a stream (whose data went with the first request)
  or cannot be read. When the client's token is refused and the rotation
  succeeds with a new token, the same call is sent once more, proved with the new token, and its answer is
  the answer of the call; the client keeps the rotated credentials.
\<close>

theorem client_call_recovers:
  assumes "client_identity c = Some i" and "PrivateKey i \<noteq> []" and "SigningKey b64_decode i = Inr key"
    and "cl_token c \<noteq> []" and "\<not> is_stream req" and "hq_Body req \<noteq> Some None"
    and "body = (case hq_Body req of Some (Some b) \<Rightarrow> b | _ \<Rightarrow> [])"
    and "\<And>x. base x (c, d) = (Inr 401, c1, d1)"
    and "refreshCredentials enc p uuid e1 e2 now later (cl_token c) c1 d1 = (None, c2, d2)"
    and "cl_token c2 \<noteq> []" and "cl_token c2 \<noteq> cl_token c"
  shows "\<exists>first second. RoundTrip sha sign stamp (client_transport base enc p uuid e1 e2 now later) req (c, d) =
      (case base second (c2, d2) of (r, s) \<Rightarrow> ([first, second], r, s)) \<and>
    proves sha sign key body (cl_token c) first \<and> proves sha sign key body (cl_token c2) second \<and>
    hq_Method second = hq_Method req \<and> hq_Path second = hq_Path req \<and> hq_Body second = hq_Body req"
proof -
  define t where "t = client_transport base enc p uuid e1 e2 now later"
  define first where "first = signRequest sha sign key body (stamp 0) (cl_token c) req"
  define second where "second = signRequest sha sign key body (stamp 1) (cl_token c2) first"
  have t: "dt_Base t = base" "dt_Identity t = Some (\<lambda>(c, d). client_identity c)" "dt_Token t = Some (\<lambda>(c, d). cl_token c)"
    "dt_On401 t = Some (\<lambda>oldToken (c, d). case refreshCredentials enc p uuid e1 e2 now later oldToken c d of
        (r, c', d') \<Rightarrow> (r = None, c', d'))"
    by (simp_all add: t_def client_transport_def)
  have "request_token t i req (c, d) = cl_token c" using assms(4) by (simp add: request_token_def t)
  then have "RoundTrip sha sign stamp t req (c, d) = signed_exchange sha sign stamp t key (cl_token c) body req (c, d)"
    using assms(1-7) by (simp add: RoundTrip_def t)
  also have "\<dots> = (case base second (c2, d2) of (r, s) \<Rightarrow> ([first, second], r, s))"
    using assms(5,8-11) by (simp add: signed_exchange_def t first_def [symmetric] second_def Let_def)
  finally have "RoundTrip sha sign stamp t req (c, d) = (case base second (c2, d2) of (r, s) \<Rightarrow> ([first, second], r, s))" .
  moreover have "proves sha sign key body (cl_token c) first" "proves sha sign key body (cl_token c2) second"
    using signRequest_proves [of sha sign key req body] signRequest_proves [of sha sign key first body] assms(5)
    by (simp_all add: first_def second_def)
  moreover have "hq_Method second = hq_Method req" "hq_Path second = hq_Path req" "hq_Body second = hq_Body req"
    by (simp_all add: first_def second_def)
  ultimately show ?thesis unfolding t_def by blast
qed

section \<open>Witnesses\<close>

definition sample_request :: http_request where
  "sample_request = \<lparr>hq_Method = ''POST'', hq_Path = ''/x'', hq_Header = Map.empty, hq_Body = Some (Some ''b''),
     hq_ContentLength = 1, hq_GetBody = True\<rparr>"

text \<open>A panel that refuses the old token and accepts any other.\<close>

definition strict_base :: "http_request \<Rightarrow> client \<times> Identity disk \<Rightarrow> (go_error + int) \<times> client \<times> Identity disk" where
  "strict_base req s = (Inr (if cl_token (fst s) = ''at'' then 401 else 200), s)"

lemma sample_private: "PrivateKey sample_enrolled \<noteq> []"
proof
  assume "PrivateKey sample_enrolled = []"
  then have "SigningKey b64_decode sample_enrolled = Inl KeySize" using b64_roundtrip [of "[]"] by (simp add: SigningKey_def)
  with sample_keys(1) show False by simp
qed

lemma sample_refreshed:
  "\<exists>c' d'. refreshCredentials Some sample_panel ''u2'' (quiet_env ''t'' 9) (quiet_env ''t'' 11) 9 11 ''at''
       (sample_client sample_enrolled) Map.empty = (None, c', d') \<and> cl_token c' = ''at2''"
  using sample_rotation by (auto simp: refreshCredentials_def sample_enrolled_simps)

theorem client_call_recovers_witness:
  "\<exists>first second s. RoundTrip (\<lambda>x. x) (\<lambda>k m. m) (\<lambda>_. (''1'', ''n''))
      (client_transport strict_base Some sample_panel ''u2'' (quiet_env ''t'' 9) (quiet_env ''t'' 11) 9 11)
      sample_request (sample_client sample_enrolled, Map.empty) = ([first, second], Inr 200, s) \<and>
    hq_Header second ''Authorization'' = Some ''Bearer at2''"
proof -
  obtain c2 d2 where R: "refreshCredentials Some sample_panel ''u2'' (quiet_env ''t'' 9) (quiet_env ''t'' 11) 9 11 ''at''
       (sample_client sample_enrolled) Map.empty = (None, c2, d2)" "cl_token c2 = ''at2''"
    using sample_refreshed by blast
  have t: "cl_token (sample_client sample_enrolled) = ''at''" by (simp add: sample_enrolled_simps)
  have b: "hq_Body sample_request = Some (Some ''b'') \<and> \<not> is_stream sample_request"
    by (simp add: sample_request_def is_stream_def)
  have base: "strict_base x (sample_client sample_enrolled, Map.empty) = (Inr 401, sample_client sample_enrolled, Map.empty)" for x
    by (simp add: strict_base_def sample_enrolled_simps)
  have "\<exists>first second. RoundTrip (\<lambda>x. x) (\<lambda>k m. m) (\<lambda>_. (''1'', ''n''))
      (client_transport strict_base Some sample_panel ''u2'' (quiet_env ''t'' 9) (quiet_env ''t'' 11) 9 11)
      sample_request (sample_client sample_enrolled, Map.empty) =
      (case strict_base second (c2, d2) of (r, s) \<Rightarrow> ([first, second], r, s)) \<and>
    proves (\<lambda>x. x) (\<lambda>k m. m) sample_key ''b'' (cl_token (sample_client sample_enrolled)) first \<and>
    proves (\<lambda>x. x) (\<lambda>k m. m) sample_key ''b'' (cl_token c2) second \<and>
    hq_Method second = hq_Method sample_request \<and> hq_Path second = hq_Path sample_request \<and> hq_Body second = hq_Body sample_request"
  proof (rule client_call_recovers)
    show "client_identity (sample_client sample_enrolled) = Some sample_enrolled" by simp
    show "PrivateKey sample_enrolled \<noteq> []" by (rule sample_private)
    show "SigningKey b64_decode sample_enrolled = Inr sample_key" by (rule sample_keys(1))
    show "refreshCredentials Some sample_panel ''u2'' (quiet_env ''t'' 9) (quiet_env ''t'' 11) 9 11 (cl_token (sample_client sample_enrolled))
       (sample_client sample_enrolled) Map.empty = (None, c2, d2)"
      using R(1) t by simp
  qed (use b base R(2) t in \<open>simp_all add: sample_enrolled_simps\<close>)
  then obtain first second where X: "RoundTrip (\<lambda>x. x) (\<lambda>k m. m) (\<lambda>_. (''1'', ''n''))
      (client_transport strict_base Some sample_panel ''u2'' (quiet_env ''t'' 9) (quiet_env ''t'' 11) 9 11)
      sample_request (sample_client sample_enrolled, Map.empty) =
      (case strict_base second (c2, d2) of (r, s) \<Rightarrow> ([first, second], r, s))"
    "proves (\<lambda>x. x) (\<lambda>k m. m) sample_key ''b'' (cl_token c2) second"
    by blast
  have "strict_base second (c2, d2) = (Inr 200, c2, d2)" by (simp add: strict_base_def R(2))
  with X R(2) show ?thesis by (auto simp: proves_def)
qed

theorem RoundTrip_proves_witness:
  "\<exists>x y s' r. RoundTrip (\<lambda>x. x) (\<lambda>k m. m) (\<lambda>_. (''1'', ''n''))
      (client_transport strict_base Some sample_panel ''u2'' (quiet_env ''t'' 9) (quiet_env ''t'' 11) 9 11)
      sample_request (sample_client sample_enrolled, Map.empty) = ([x, y], r, s') \<and>
     carries_proof (\<lambda>x. x) (\<lambda>k m. m) sample_key sample_request ''b'' ''at'' x \<and>
     carries_proof (\<lambda>x. x) (\<lambda>k m. m) sample_key sample_request ''b'' ''at2'' y"
proof -
  let ?t = "client_transport strict_base Some sample_panel ''u2'' (quiet_env ''t'' 9) (quiet_env ''t'' 11) 9 11"
  let ?s = "(sample_client sample_enrolled, Map.empty)"
  have tok: "request_token ?t sample_enrolled sample_request ?s = ''at''"
    by (simp add: request_token_def client_transport_def sample_enrolled_simps(7))
  have sk: "SigningKey b64_decode sample_enrolled = Inr sample_key" by (rule sample_keys(1))
  have b: "(if is_stream sample_request then [] else case hq_Body sample_request of Some (Some b) \<Rightarrow> b | _ \<Rightarrow> []) = ''b''"
    by (simp add: sample_request_def is_stream_def)
  have get: "dt_Identity ?t = Some (\<lambda>(c, d). client_identity c)" by (simp add: client_transport_def)
  obtain c2 d2 where R: "refreshCredentials Some sample_panel ''u2'' (quiet_env ''t'' 9) (quiet_env ''t'' 11) 9 11 ''at''
       (sample_client sample_enrolled) Map.empty = (None, c2, d2)" "cl_token c2 = ''at2''"
    using sample_refreshed by blast
  have base: "strict_base x ?s = (Inr 401, ?s)" "strict_base x (c2, d2) = (Inr 200, c2, d2)" for x
    by (simp_all add: strict_base_def sample_enrolled_simps R(2))
  have on: "dt_On401 ?t = Some (\<lambda>oldToken (c, d). case refreshCredentials Some sample_panel ''u2'' (quiet_env ''t'' 9) (quiet_env ''t'' 11) 9 11 oldToken c d of
        (r, c', d') \<Rightarrow> (r = None, c', d'))" "dt_Token ?t = Some (\<lambda>(c, d). cl_token c)" "dt_Base ?t = strict_base"
    by (simp_all add: client_transport_def)
  have q: "\<not> is_stream sample_request" "hq_Body sample_request = Some (Some ''b'')" by (simp_all add: sample_request_def is_stream_def)
  have "RoundTrip (\<lambda>x. x) (\<lambda>k m. m) (\<lambda>_. (''1'', ''n'')) ?t sample_request ?s =
      signed_exchange (\<lambda>x. x) (\<lambda>k m. m) (\<lambda>_. (''1'', ''n'')) ?t sample_key ''at'' ''b'' sample_request ?s"
    using tok sample_private sk get q by (simp add: RoundTrip_def Let_def)
  moreover have "\<exists>x y. signed_exchange (\<lambda>x. x) (\<lambda>k m. m) (\<lambda>_. (''1'', ''n'')) ?t sample_key ''at'' ''b'' sample_request ?s = ([x, y], Inr 200, c2, d2)"
    using base R q by (simp add: signed_exchange_def on Let_def)
  ultimately obtain x y r s' where two: "RoundTrip (\<lambda>x. x) (\<lambda>k m. m) (\<lambda>_. (''1'', ''n'')) ?t sample_request ?s = ([x, y], r, s')"
    by metis
  from RoundTrip_proves [OF two get _ sample_private sk _ refl refl] tok b
  have "carries_proof (\<lambda>x. x) (\<lambda>k m. m) sample_key sample_request ''b'' ''at'' x \<and>
     carries_proof (\<lambda>x. x) (\<lambda>k m. m) sample_key sample_request ''b'' ''at2'' y"
    using R base by (auto simp: on)
  with two show ?thesis by blast
qed

theorem dpop_payload_binds_witness:
  "dpop_payload (\<lambda>x. x) ''GET'' ''/a'' ''1'' ''n'' ''tok'' [] \<noteq> dpop_payload (\<lambda>x. x) ''GET'' ''/b'' ''1'' ''n'' ''tok'' []"
  using dpop_payload_binds [of "\<lambda>x. x" "''GET''" "''/a''" "''1''" "''n''" "''tok''" "[]" "''GET''" "''/b''" "''1''" "''n''" "''tok''" "[]"]
  by auto

end
