(* ===== verification/HostHelper.thy ===== *)
theory HostHelper
  imports HostPolicy
begin

text \<open>
  \<open>core/hostops/helper_linux.go\<close> and \<open>candidate_linux.go\<close>: when the unprivileged agent believes that the
  rescue helper runs, when host actions are offered, and how the root-owned tool reads a candidate that
  the agent wrote. The files of \<open>/proc\<close> are a parameter (\<open>slurp\<close> is \<open>os.ReadFile\<close>); the directory tree
  that \<open>ReadCandidate\<close> walks is a value.
\<close>

section \<open>The heartbeat of the helper\<close>

record HelperStatus =
  hs_PID :: int
  hs_StartTicks :: u64
  hs_Executable :: path
  hs_Authorized :: bool
  hs_LeaseReady :: bool
  hs_ObservedAt :: gotime

datatype link = LinkTo path | LinkDenied | LinkFailed

record procfs =
  slurp :: "path \<Rightarrow> bytes option"
  readlink :: "path \<Rightarrow> link"
  geteuid :: int

datatype helper_error =
    HeartbeatUnreadable host_error
  | HeartbeatStale
  | ProcUnreadable
  | NotRoot
  | ExecutableMismatch
  | PidReused
  | WrongUnit
  | ExecutableUntrusted host_error
  | NeedsRootHelper
  | ParentUntrusted host_error
  | MkdirFailed
  | NotADirectory
  | CandidatePath
  | CandidateOpen
  | CandidateNotRegular
  | CandidateGrew

text \<open>The loop over the lines of \<open>/proc/<pid>/status\<close>: the last \<open>Uid:\<close> line decides.\<close>

fun root_line :: "bytes list \<Rightarrow> bool \<Rightarrow> bool" where
  "root_line [] root = root"
| "root_line (line # ls) root =
     (if starts_with ''Uid:'' line then
        (let fields = Fields (TrimPrefix line ''Uid:'') in
         root_line ls (length fields = 4 \<and> (\<forall>v \<in> set fields. v = ''0'')))
      else root_line ls root)"

definition proc_prefix :: "int \<Rightarrow> path" where
  "proc_prefix pid = ''/proc/'' @ Itoa pid"

definition ProcessStartTicks :: "(path \<Rightarrow> bytes option) \<Rightarrow> int \<Rightarrow> u64 option" where
  "ProcessStartTicks rd pid =
     (case rd (proc_prefix pid @ ''/stat'') of
        None \<Rightarrow> None
      | Some b \<Rightarrow>
          (case LastIndex b '') '' of
             None \<Rightarrow> None
           | Some end \<Rightarrow>
               (let fields = Fields (drop (end + 2) b) in
                if length fields < 20 then None else ParseUint64 (fields ! 19))))"

text \<open>The executable the process of the heartbeat runs, and the checks that follow.\<close>

definition process_exe :: "procfs \<Rightarrow> HelperStatus \<Rightarrow> path option" where
  "process_exe proc status =
     (case readlink proc (proc_prefix (hs_PID status) @ ''/exe'') of
        LinkTo e \<Rightarrow> Some e
      | LinkDenied \<Rightarrow> if geteuid proc = 0 then None else Some (hs_Executable status)
      | LinkFailed \<Rightarrow> None)"

definition process_checks :: "host_fs \<Rightarrow> procfs \<Rightarrow> Manifest \<Rightarrow> HelperStatus \<Rightarrow> path \<Rightarrow> path \<Rightarrow> helper_error option" where
  "process_checks fs proc m status expected exe =
     (if exe \<noteq> expected \<or> hs_Executable status \<noteq> expected then Some ExecutableMismatch
      else case ProcessStartTicks (slurp proc) (hs_PID status) of
        None \<Rightarrow> Some ProcUnreadable
      | Some ticks \<Rightarrow>
          if ticks = 0 \<or> ticks \<noteq> hs_StartTicks status then Some PidReused
          else case slurp proc (proc_prefix (hs_PID status) @ ''/cgroup'') of
            None \<Rightarrow> Some ProcUnreadable
          | Some cgroup \<Rightarrow>
              if \<not> contains (''/'' @ ServiceName m @ ''-rescue.service'') cgroup then Some WrongUnit
              else map_option ExecutableUntrusted (TrustedPath (lstat fs) exe))"

definition ReadHelperStatus ::
  "host_fs \<Rightarrow> (bytes \<Rightarrow> (HelperStatus \<times> bytes) option) \<Rightarrow> procfs \<Rightarrow> gotime \<Rightarrow> Manifest \<Rightarrow> helper_error + HelperStatus" where
  "ReadHelperStatus fs dec proc now m =
     (case ReadJSON fs dec (HelperStatusPath m) True of
        Inl err \<Rightarrow> Inl (HeartbeatUnreadable err)
      | Inr status \<Rightarrow>
          if hs_PID status \<le> 1 \<or> time_sub now (hs_ObservedAt status) > 10 * second \<or>
             hs_ObservedAt status > now + second
          then Inl HeartbeatStale
          else case slurp proc (proc_prefix (hs_PID status) @ ''/status'') of
            None \<Rightarrow> Inl ProcUnreadable
          | Some b \<Rightarrow>
              if \<not> root_line (split_at CHR 0x0A b) False then Inl NotRoot
              else case process_exe proc status of
                None \<Rightarrow> Inl ProcUnreadable
              | Some exe \<Rightarrow>
                  (case process_checks fs proc m status (Join [Dir (HostTool m), ''komari-agent-rescue'']) exe of
                     Some err \<Rightarrow> Inl err
                   | None \<Rightarrow> Inr status))"

text \<open>
  \<open>PrepareHelperStatus\<close> on the entries that exist (\<open>True\<close> for a directory); the umask and the owner
  decide what \<open>Mkdir\<close> creates.
\<close>

definition PrepareHelperStatus ::
  "int \<Rightarrow> (path \<Rightarrow> bool) \<Rightarrow> nat \<Rightarrow> Manifest option \<Rightarrow> (path \<rightharpoonup> file_stat \<times> bool) \<Rightarrow>
     helper_error option \<times> (path \<rightharpoonup> file_stat \<times> bool)" where
  "PrepareHelperStatus euid mkdir_fails umasked manifest entries =
     (case manifest of
        None \<Rightarrow> (Some NeedsRootHelper, entries)
      | Some m \<Rightarrow>
          if euid \<noteq> 0 \<or> InitSystem m \<noteq> ''systemd'' \<or> \<not> ValidService (ServiceName m) then (Some NeedsRootHelper, entries)
          else
            (let dir = Dir (HelperStatusPath m); st = (\<lambda>es p. map_option fst (es p)) in
             case TrustedPath (st entries) (Dir dir) of
               Some err \<Rightarrow> (Some (ParentUntrusted err), entries)
             | None \<Rightarrow>
                 if entries dir = None \<and> mkdir_fails dir then (Some MkdirFailed, entries)
                 else
                   (let es = (if entries dir = None
                       then entries(dir \<mapsto> (\<lparr>fs_uid = 0, fs_perm = umasked, fs_symlink = False\<rparr>, True)) else entries)
                    in case TrustedPath (st es) dir of
                         Some err \<Rightarrow> (Some (ParentUntrusted err), es)
                       | None \<Rightarrow>
                           (case es dir of
                              None \<Rightarrow> (Some (ParentUntrusted StatFailed), es)
                            | Some (x, False) \<Rightarrow> (Some NotADirectory, es)
                            | Some (x, True) \<Rightarrow> (None, es(dir \<mapsto> (x\<lparr>fs_perm := 493\<rparr>, True)))))))"

section \<open>Offering host actions\<close>

definition pam_service :: bytes where
  "pam_service = ''# Komari host: fresh local password and account validity'' @ [CHR 0x0A] @
     ''auth required pam_unix.so'' @ [CHR 0x0A] @ ''account required pam_unix.so'' @ [CHR 0x0A]"

definition HostActionsReady ::
  "host_fs \<Rightarrow> (bytes \<Rightarrow> (Trust \<times> bytes) option) \<Rightarrow> (string \<Rightarrow> url_parts option) \<Rightarrow> (path \<Rightarrow> bytes option) \<Rightarrow>
     Manifest option \<Rightarrow> bool" where
  "HostActionsReady fs dec url_parse rd manifest =
     (case manifest of
        None \<Rightarrow> False
      | Some m \<Rightarrow>
          if InitSystem m \<noteq> ''systemd'' then False
          else (case ReadTrust fs dec url_parse m of
                  Inl _ \<Rightarrow> False
                | Inr _ \<Rightarrow>
                    TrustedPath (lstat fs) (HostTool m) = None \<and> TrustedPath (lstat fs) ''/usr/bin/pamtester'' = None \<and>
                    TrustedPath (lstat fs) ''/etc/pam.d/komari-host'' = None \<and>
                    rd ''/etc/pam.d/komari-host'' = Some pam_service))"

section \<open>Reading a candidate\<close>

text \<open>
  The directory tree under a descriptor. A link node is what \<open>O_NOFOLLOW\<close> refuses to open; \<open>Special\<close> is a
  device or a FIFO. \<open>readable\<close> bytes are what reading the open file gives by then.
\<close>

datatype tree = File "bytes" "bytes" | Directory "string \<rightharpoonup> tree" | Symlink path | Special

text \<open>One \<open>Openat\<close>: \<open>final\<close> is false for the flags with \<open>O_DIRECTORY\<close>. A clean path has no dot components.\<close>

definition openat :: "bool \<Rightarrow> tree \<Rightarrow> string \<Rightarrow> tree option" where
  "openat final fd part =
     (case fd of
        Directory entries \<Rightarrow>
          (case (if part = [] then None else entries part) of
             None \<Rightarrow> None
           | Some (Symlink _) \<Rightarrow> None
           | Some (Directory es) \<Rightarrow> Some (Directory es)
           | Some t \<Rightarrow> if final then Some t else None)
      | _ \<Rightarrow> None)"

fun walk :: "tree \<Rightarrow> string list \<Rightarrow> tree option" where
  "walk fd [] = Some fd"
| "walk fd (part # parts) =
     (case openat (parts = []) fd part of None \<Rightarrow> None | Some next \<Rightarrow> walk next parts)"

definition ReadCandidate :: "tree \<Rightarrow> path \<Rightarrow> helper_error + bytes" where
  "ReadCandidate root p =
     (if \<not> IsAbs p \<or> Clean p \<noteq> p then Inl CandidatePath
      else case walk root (split_at sep (TrimPrefix p ''/'')) of
        None \<Rightarrow> Inl CandidateOpen
      | Some (File seen readable) \<Rightarrow>
          if length seen > 2 ^ 20 then Inl CandidateNotRegular
          else (let b = take (2 ^ 20 + 1) readable in if length b > 2 ^ 20 then Inl CandidateGrew else Inr b)
      | Some _ \<Rightarrow> Inl CandidateNotRegular)"

section \<open>Facts\<close>

text \<open>The last \<open>Uid:\<close> line of a status file names root four times.\<close>

definition uid_root :: "bytes \<Rightarrow> bool" where
  "uid_root b \<longleftrightarrow>
     (\<exists>before line after. split_at CHR 0x0A b = before @ line # after \<and> starts_with ''Uid:'' line \<and>
        Fields (TrimPrefix line ''Uid:'') = [''0'', ''0'', ''0'', ''0''] \<and> (\<forall>l \<in> set after. \<not> starts_with ''Uid:'' l))"

lemma root_line_last:
  "root_line ls root \<Longrightarrow> (root \<and> (\<forall>l \<in> set ls. \<not> starts_with ''Uid:'' l)) \<or>
     (\<exists>before line after. ls = before @ line # after \<and> starts_with ''Uid:'' line \<and>
        length (Fields (TrimPrefix line ''Uid:'')) = 4 \<and> (\<forall>v \<in> set (Fields (TrimPrefix line ''Uid:'')). v = ''0'') \<and>
        (\<forall>l \<in> set after. \<not> starts_with ''Uid:'' l))"
proof (induction ls arbitrary: root)
  case Nil
  then show ?case by simp
next
  case (Cons x xs)
  show ?case
  proof (cases "starts_with ''Uid:'' x")
    case False
    with Cons.prems have "root_line xs root" by simp
    from Cons.IH [OF this] show ?thesis
    proof
      assume "root \<and> (\<forall>l \<in> set xs. \<not> starts_with ''Uid:'' l)"
      with False show ?thesis by simp
    next
      assume "\<exists>before line after. xs = before @ line # after \<and> starts_with ''Uid:'' line \<and>
        length (Fields (TrimPrefix line ''Uid:'')) = 4 \<and> (\<forall>v \<in> set (Fields (TrimPrefix line ''Uid:'')). v = ''0'') \<and>
        (\<forall>l \<in> set after. \<not> starts_with ''Uid:'' l)"
      then show ?thesis by (metis append_Cons)
    qed
  next
    case True
    define r where "r = (length (Fields (TrimPrefix x ''Uid:'')) = 4 \<and> (\<forall>v \<in> set (Fields (TrimPrefix x ''Uid:'')). v = ''0''))"
    with Cons.prems True have "root_line xs r" by (simp add: Let_def)
    from Cons.IH [OF this] show ?thesis
    proof
      assume "r \<and> (\<forall>l \<in> set xs. \<not> starts_with ''Uid:'' l)"
      with True show ?thesis unfolding r_def by (metis append_Nil)
    next
      assume "\<exists>before line after. xs = before @ line # after \<and> starts_with ''Uid:'' line \<and>
        length (Fields (TrimPrefix line ''Uid:'')) = 4 \<and> (\<forall>v \<in> set (Fields (TrimPrefix line ''Uid:'')). v = ''0'') \<and>
        (\<forall>l \<in> set after. \<not> starts_with ''Uid:'' l)"
      then show ?thesis by (metis append_Cons)
    qed
  qed
qed

lemma four_zeros: "length xs = 4 \<Longrightarrow> \<forall>v \<in> set xs. v = z \<Longrightarrow> xs = [z, z, z, z]"
  by (auto simp: numeral_eq_Suc length_Suc_conv)

lemma root_line_uid:
  assumes "root_line (split_at CHR 0x0A b) False"
  shows "uid_root b"
proof -
  obtain before line after where l: "split_at CHR 0x0A b = before @ line # after" "starts_with ''Uid:'' line"
      "length (Fields (TrimPrefix line ''Uid:'')) = 4" "\<forall>v \<in> set (Fields (TrimPrefix line ''Uid:'')). v = ''0''"
      "\<forall>l \<in> set after. \<not> starts_with ''Uid:'' l"
    using root_line_last [OF assms] by blast
  from four_zeros [OF l(3,4)] l(1,2,5) show ?thesis unfolding uid_root_def by blast
qed

text \<open>The components of a path are entries without links in a tree.\<close>

fun reaches :: "tree \<Rightarrow> string list \<Rightarrow> tree \<Rightarrow> bool" where
  "reaches t [] u = (t = u)"
| "reaches t (c # cs) u = (c \<noteq> [] \<and> (\<exists>entries next. t = Directory entries \<and> entries c = Some next \<and> (\<forall>l. next \<noteq> Symlink l) \<and> reaches next cs u))"

lemma walk_reaches: "walk t cs = Some u \<Longrightarrow> reaches t cs u"
proof (induction cs arbitrary: t)
  case Nil
  then show ?case by simp
next
  case (Cons c cs)
  then obtain n where n: "openat (cs = []) t c = Some n" "walk n cs = Some u" by (auto split: option.splits)
  then obtain entries where "c \<noteq> []" "t = Directory entries" "entries c = Some n" "\<forall>l. n \<noteq> Symlink l"
    by (auto simp: openat_def split: tree.splits option.splits if_splits)
  with Cons.IH n(2) show ?case by auto
qed

lemma reaches_walk:
  assumes "reaches t cs (File seen readable)"
  shows "walk t cs = Some (File seen readable)"
  using assms
proof (induction cs arbitrary: t)
  case Nil
  then show ?case by simp
next
  case (Cons c cs)
  then obtain entries n where n: "t = Directory entries" "entries c = Some n" "\<forall>l. n \<noteq> Symlink l"
      "reaches n cs (File seen readable)" "c \<noteq> []" by auto
  have "openat (cs = []) t c = Some n"
  proof (cases cs)
    case Nil
    with n Cons.prems show ?thesis by (auto simp: openat_def split: tree.splits)
  next
    case (Cons x xs)
    with n(4) obtain es where "n = Directory es" by auto
    with n show ?thesis by (simp add: openat_def)
  qed
  with Cons n show ?case by simp
qed

section \<open>Properties\<close>

text \<open>
  C31: The agent reports the rescue helper as running only when it does. A heartbeat is accepted only when
  it is at most ten seconds old, its file and the executable are protected up to the root, the kernel says
  that the process runs as root (all four ids) in the unit of this service, its executable is the rescue
  helper beside the host tool, and the process still is the one that wrote it (same start time).
\<close>

theorem ReadHelperStatus_sound:
  assumes "ReadHelperStatus fs dec proc now m = Inr status"
  shows "TrustedPath (lstat fs) (HelperStatusPath m) = None \<and> 1 < hs_PID status \<and>
    time_sub now (hs_ObservedAt status) \<le> 10 * second \<and> hs_ObservedAt status \<le> now + second \<and>
    (\<exists>b. slurp proc (proc_prefix (hs_PID status) @ ''/status'') = Some b \<and> uid_root b) \<and>
    hs_Executable status = Join [Dir (HostTool m), ''komari-agent-rescue''] \<and>
    TrustedPath (lstat fs) (hs_Executable status) = None \<and>
    (readlink proc (proc_prefix (hs_PID status) @ ''/exe'') = LinkTo (hs_Executable status) \<or>
     readlink proc (proc_prefix (hs_PID status) @ ''/exe'') = LinkDenied \<and> geteuid proc \<noteq> 0) \<and>
    ProcessStartTicks (slurp proc) (hs_PID status) = Some (hs_StartTicks status) \<and> hs_StartTicks status \<noteq> 0 \<and>
    (\<exists>g. slurp proc (proc_prefix (hs_PID status) @ ''/cgroup'') = Some g \<and>
       contains (''/'' @ ServiceName m @ ''-rescue.service'') g)"
proof -
  obtain b where J: "ReadJSON fs dec (HelperStatusPath m) True = Inr status"
    and P: "\<not> hs_PID status \<le> 1" "\<not> time_sub now (hs_ObservedAt status) > 10 * second" "\<not> hs_ObservedAt status > now + second"
    and B: "slurp proc (proc_prefix (hs_PID status) @ ''/status'') = Some b" "root_line (split_at CHR 0x0A b) False"
    using assms by (auto simp: ReadHelperStatus_def simp del: Join.simps split: sum.splits if_splits option.splits)
  have T: "TrustedPath (lstat fs) (HelperStatusPath m) = None"
    using J by (auto simp: ReadJSON_def split: option.splits)
  obtain exe where E: "process_exe proc status = Some exe"
    and K: "process_checks fs proc m status (Join [Dir (HostTool m), ''komari-agent-rescue'']) exe = None"
    using assms J P B by (simp add: ReadHelperStatus_def del: Join.simps split: option.splits)
  from K have x: "exe = hs_Executable status" "hs_Executable status = Join [Dir (HostTool m), ''komari-agent-rescue'']"
    by (auto simp: process_checks_def simp del: Join.simps split: if_splits)
  with K obtain g where "ProcessStartTicks (slurp proc) (hs_PID status) = Some (hs_StartTicks status)" "hs_StartTicks status \<noteq> 0"
      "slurp proc (proc_prefix (hs_PID status) @ ''/cgroup'') = Some g"
      "contains (''/'' @ ServiceName m @ ''-rescue.service'') g" "TrustedPath (lstat fs) exe = None"
    by (auto simp: process_checks_def simp del: Join.simps contains.simps split: if_splits option.splits)
  moreover have "readlink proc (proc_prefix (hs_PID status) @ ''/exe'') = LinkTo (hs_Executable status) \<or>
      readlink proc (proc_prefix (hs_PID status) @ ''/exe'') = LinkDenied \<and> geteuid proc \<noteq> 0"
    using E x(1) by (auto simp: process_exe_def split: link.splits if_splits)
  ultimately show ?thesis using T P B(1) x root_line_uid [OF B(2)] by (auto simp del: Join.simps contains.simps)
qed

text \<open>
  The root tool reads a candidate of the agent without being led astray: it succeeds exactly when the
  cleaned absolute path leads, through real directories and no symbolic link, to a regular file of at most
  1 MiB, and it returns at most 1 MiB of what that file holds.
\<close>

theorem ReadCandidate_iff:
  shows "ReadCandidate root p = Inr b \<longleftrightarrow>
    IsAbs p \<and> Clean p = p \<and>
    (\<exists>seen. reaches root (split_at sep (TrimPrefix p ''/'')) (File seen b) \<and> length seen \<le> 2 ^ 20 \<and> length b \<le> 2 ^ 20)"
  (is "?l = ?r")
proof
    assume ?l
    then obtain seen readable where w: "walk root (split_at sep (TrimPrefix p ''/'')) = Some (File seen readable)"
      and b: "IsAbs p" "Clean p = p" "length seen \<le> 2 ^ 20" "b = take (2 ^ 20 + 1) readable" "length b \<le> 2 ^ 20"
      by (auto simp: ReadCandidate_def Let_def split: if_splits option.splits tree.splits)
    then have "b = readable" by (cases "length readable \<le> 2 ^ 20") auto
    with w b walk_reaches [OF w] show ?r by auto
  next
    assume ?r
    then obtain seen where "walk root (split_at sep (TrimPrefix p ''/'')) = Some (File seen b)" "length seen \<le> 2 ^ 20"
        "length b \<le> 2 ^ 20" "IsAbs p" "Clean p = p"
      using reaches_walk by blast
    then show ?l by (simp add: ReadCandidate_def)
qed

section \<open>Witnesses\<close>

definition sample_manifest :: Manifest where
  "sample_manifest = \<lparr>mf_Version = 2, ServiceName = ''s'', ServiceUser = ''u'', InitSystem = ''systemd'', Executable = ''/k/a'',
     HostTool = ''/k/h'', HostPolicyFile = ''/k/p'', ConfigFile = [], CredentialsFile = [], RuntimeStateFile = [],
     PrivilegedStateFile = [], ReplayStateFile = [], ManifestPath = []\<rparr>"

abbreviation root_stat :: "path \<Rightarrow> file_stat option" where
  "root_stat \<equiv> \<lambda>_. Some \<lparr>fs_uid = 0, fs_perm = 420, fs_symlink = False\<rparr>"

definition sample_status :: HelperStatus where
  "sample_status = \<lparr>hs_PID = 7, hs_StartTicks = 9, hs_Executable = ''/k/komari-agent-rescue'', hs_Authorized = True,
     hs_LeaseReady = True, hs_ObservedAt = 0\<rparr>"

definition sample_procfs :: procfs where
  "sample_procfs = \<lparr>slurp = (\<lambda>p. if p = ''/proc/7/status'' then Some (''Uid: 0 0 0 0'')
       else if p = ''/proc/7/stat'' then Some (''7 (x) S 1 1 1 1 1 1 1 1 1 1 1 1 1 1 1 1 1 1 9 1'')
       else if p = ''/proc/7/cgroup'' then Some ''/s-rescue.service'' else None),
     readlink = (\<lambda>_. LinkDenied), geteuid = 1000\<rparr>"

lemma root_stat_trusted: "IsAbs p \<Longrightarrow> TrustedPath root_stat p = None"
proof -
  have "trusted_walk root_stat cs = None" for cs
    by (induction cs) (simp_all add: trusted_walk.simps protected_stat_def)
  then show "IsAbs p \<Longrightarrow> TrustedPath root_stat p = None" by (simp add: TrustedPath_def)
qed

lemma sample_prefix: "proc_prefix 7 = ''/proc/7''"
proof -
  have "nat_digits 7 = ''7''" by (simp add: nat_digits.simps, code_simp)
  then show ?thesis by (simp add: proc_prefix_def Itoa_def)
qed

lemma sample_expected: "Join [Dir (HostTool sample_manifest), ''komari-agent-rescue''] = ''/k/komari-agent-rescue''"
  by (simp add: sample_manifest_def Dir_def Clean_def components_def render_def IsAbs_def)

lemma sample_ticks: "ProcessStartTicks (slurp sample_procfs) 7 = Some 9"
proof -
  have "LastIndex ''7 (x) S 1 1 1 1 1 1 1 1 1 1 1 1 1 1 1 1 1 1 9 1'' '') '' = Some 4"
    by (simp add: LastIndex_def starts_with_def upt_rec)
  moreover have "Fields ''S 1 1 1 1 1 1 1 1 1 1 1 1 1 1 1 1 1 1 9 1'' =
      ''S'' # replicate 18 ''1'' @ [''9'', ''1'']"
    by (simp add: Fields_eval numeral_eq_Suc)
  moreover have "ParseUint64 ''9'' = Some 9"
    by (simp add: ParseUint64_def digit_val_def)
  ultimately show ?thesis
    by (simp add: ProcessStartTicks_def sample_prefix sample_procfs_def nth_append nth_Cons')
qed

theorem ReadHelperStatus_sound_witness:
  "ReadHelperStatus \<lparr>lstat = root_stat, open_file = (\<lambda>_. Some \<lparr>hf_regular = True, hf_size = 0, hf_data = []\<rparr>)\<rparr>
       (\<lambda>_. Some (sample_status, [])) sample_procfs second sample_manifest = Inr sample_status \<and>
   hs_Executable sample_status = ''/k/komari-agent-rescue''"
proof -
  let ?fs = "\<lparr>lstat = root_stat, open_file = (\<lambda>_. Some \<lparr>hf_regular = True, hf_size = 0, hf_data = []\<rparr>)\<rparr>"
  have "HelperStatusPath sample_manifest = ''/run/komari/s.helper.json''" 
    by (simp add: sample_manifest_def HelperStatusPath_def Clean_def components_def render_def IsAbs_def)
  then have j: "ReadJSON ?fs (\<lambda>_. Some (sample_status, [])) (HelperStatusPath sample_manifest) True = Inr sample_status"
    by (simp add: ReadJSON_def root_stat_trusted IsAbs_def)
  have u: "root_line (split_at CHR 0x0A ''Uid: 0 0 0 0'') False"
    by (simp add: starts_with_def TrimPrefix_def Fields_eval)
  have s: "slurp sample_procfs (proc_prefix (hs_PID sample_status) @ ''/status'') = Some ''Uid: 0 0 0 0''"
    by (simp add: sample_status_def sample_prefix sample_procfs_def)
  have e: "process_exe sample_procfs sample_status = Some ''/k/komari-agent-rescue''"
    by (simp add: process_exe_def sample_procfs_def sample_status_def)
  have c: "contains (''/'' @ ServiceName sample_manifest @ ''-rescue.service'') ''/s-rescue.service''"
    by (simp add: sample_manifest_def starts_with_def)
  have k: "process_checks ?fs sample_procfs sample_manifest sample_status ''/k/komari-agent-rescue'' ''/k/komari-agent-rescue'' = None"
  proof -
    have hs: "hs_Executable sample_status = ''/k/komari-agent-rescue''" "hs_PID sample_status = 7" "hs_StartTicks sample_status = 9"
      by (simp_all add: sample_status_def)
    have cg: "slurp sample_procfs (proc_prefix 7 @ ''/cgroup'') = Some ''/s-rescue.service''"
      by (simp add: sample_prefix sample_procfs_def)
    have tr: "TrustedPath (lstat ?fs) ''/k/komari-agent-rescue'' = None" by (simp add: root_stat_trusted IsAbs_def)
    have "(9 :: u64) \<noteq> 0" by simp
    then show ?thesis unfolding process_checks_def hs sample_ticks cg option.case tr using c by simp
  qed
  have t: "\<not> hs_PID sample_status \<le> 1" "\<not> time_sub second (hs_ObservedAt sample_status) > 10 * second" "\<not> hs_ObservedAt sample_status > second + second"
    by (simp_all add: sample_status_def time_sub_def)
  have R: "ReadHelperStatus ?fs (\<lambda>_. Some (sample_status, [])) sample_procfs second sample_manifest = Inr sample_status"
    unfolding ReadHelperStatus_def j sum.case s option.case e sample_expected k using t u by simp
  from ReadHelperStatus_sound [OF R] R sample_expected show ?thesis by simp
qed

theorem ReadCandidate_iff_witness:
  "ReadCandidate (Directory [''d'' \<mapsto> Directory [''f'' \<mapsto> File ''ab'' ''ab'']]) ''/d/f'' = Inr ''ab'' \<and>
   ReadCandidate (Directory [''d'' \<mapsto> Symlink ''/e'']) ''/d/f'' \<noteq> Inr ''ab''"
proof -
  have "IsAbs ''/d/f''" "Clean ''/d/f'' = ''/d/f''" "split_at sep (TrimPrefix ''/d/f'' ''/'') = [''d'', ''f'']"
    by (simp_all add: IsAbs_def Clean_def components_def render_def TrimPrefix_def starts_with_def)
  then show ?thesis unfolding ReadCandidate_iff by simp
qed

end
