(* ===== verification/Delivery.thy ===== *)
theory Delivery
  imports EffectiveConfig ClientAuth HostHelper
begin

text \<open>
  The receipts of the client (\<open>clientcore/baseline.go\<close>, \<open>host_applied.go\<close> and the configuration part of
  \<open>client.go\<close>): every configuration the panel delivers is answered by a receipt that is queued in the
  store it belongs to before it is sent, and removed only when the panel has accepted or refused it. The
  RPCs are functions of the message they carry; \<open>None\<close> is an accepted message. Protobuf encoders and
  decoders are parameters.
\<close>

section \<open>Messages\<close>

record effective_capabilities =
  cap_RemoteControl :: bool
  cap_Webssh :: bool
  cap_Execution :: bool
  cap_Gpu :: bool
  cap_DetailedGpu :: bool
  cap_RescueHelper :: bool

record observation =
  ob_Revision :: u64
  ob_ConfigHash :: string
  ob_ApprovalGeneration :: u64
  ob_ServiceId :: string
  ob_PrivilegeMode :: mode
  ob_Capabilities :: effective_capabilities
  ob_OperationId :: string
  ob_HelperInstalled :: bool
  ob_HelperRunning :: bool
  ob_HelperAuthorized :: bool
  ob_HelperLeaseReady :: bool

text \<open>\<open>ReportPrivilegedDeliveryRequest\<close>; \<open>dr_Error\<close> is the text of its error detail. The times a message carries are left out.\<close>

record delivery_report =
  dr_AgentId :: string
  dr_Revision :: u64
  dr_State :: delivery_state
  dr_ProtocolVersion :: u32
  dr_ReceiptId :: string
  dr_ConfigHash :: string
  dr_ApprovalGeneration :: u64
  dr_Observation :: "observation option"
  dr_Error :: "string option"

text \<open>\<open>AcknowledgeConfigRequest\<close>: \<open>ak_Error\<close> is \<open>None\<close> for an applied revision, and the code of the error detail of a refused one.\<close>

record config_ack =
  ak_AgentId :: string
  ak_Revision :: u64
  ak_Error :: "string option"

text \<open>The record the root tool leaves of an applied host operation, and what reading it gives.\<close>

record AppliedRecord =
  ar_Version :: int
  ar_Revision :: bytes
  ar_Operation :: bytes

datatype applied_read = AppliedMissing | AppliedUnreadable go_error | Applied AppliedRecord

section \<open>The state and the world of the client\<close>

text \<open>
  What the receipts work on: both stores with their disks. \<open>ag_privileged\<close> is \<open>None\<close> when the privileged
  store could not be opened.
\<close>

record ('r, 'c, 'h) agent =
  ag_runtime :: rt_store
  ag_runtimeDisk :: "'r disk"
  ag_privileged :: "'h priv_store option"
  ag_disk :: "'c disk"

text \<open>
  The parameters: encoders and environments of the stores (the environment of a write may depend on the
  receipt), the RPCs, and what the host shows.
\<close>

record ('r, 'c, 'h) world =
  wl_rtenc :: "persistedState \<Rightarrow> 'r option"
  wl_rtenv :: "bytes \<Rightarrow> 'r backup_env"
  wl_sha :: "bytes \<Rightarrow> bytes"
  wl_pm :: "PrivilegedRevision \<Rightarrow> bytes option"
  wl_stamp :: "gotime \<Rightarrow> string"
  wl_enc :: "State \<Rightarrow> 'c option"
  wl_digest :: "'c option \<Rightarrow> 'h"
  wl_env :: "string \<Rightarrow> 'c env"
  wl_uuid :: "bytes \<Rightarrow> string"
  wl_unm_ack :: "bytes \<Rightarrow> config_ack option"
  wl_pm_ack :: "config_ack \<Rightarrow> bytes option"
  wl_unm_report :: "bytes \<Rightarrow> delivery_report option"
  wl_pm_report :: "delivery_report \<Rightarrow> bytes option"
  wl_unm_revision :: "bytes \<Rightarrow> PrivilegedRevision option"
  wl_unm_operation :: "bytes \<Rightarrow> HostOperation option"
  wl_AcknowledgeConfig :: "config_ack \<Rightarrow> go_error + bool"
  wl_ReportPrivilegedDelivery :: "delivery_report \<Rightarrow> go_error + bool"
  wl_disableRemote :: bool
  wl_manifest :: "Manifest option"
  wl_hostTrust :: "Trust option"
  wl_policy :: "host_error + HostPolicy"
  wl_mode :: mode
  wl_applied :: applied_read

definition priv_do ::
  "('r, 'c, 'h) world \<Rightarrow> string \<Rightarrow> priv_op \<Rightarrow> 'h priv_store \<Rightarrow> 'c disk \<Rightarrow> (priv_error + unit) \<times> 'h priv_store \<times> 'c disk" where
  "priv_do w k a s d = priv_apply (wl_sha w) (wl_pm w) (wl_stamp w) (wl_enc w) (wl_digest w) (wl_env w k) a s d"

definition store_error :: go_error where
  "store_error = local_error ''store''"

section \<open>Saved observations\<close>

definition errSavedHostObservationInvalid :: go_error where
  "errSavedHostObservationInvalid = local_error ''saved host observation no longer describes the local host''"

definition no_capabilities :: effective_capabilities where
  "no_capabilities = \<lparr>cap_RemoteControl = False, cap_Webssh = False, cap_Execution = False, cap_Gpu = False,
     cap_DetailedGpu = False, cap_RescueHelper = False\<rparr>"

text \<open>A missing observation reads as its zero value.\<close>

definition get_observation :: "delivery_report \<Rightarrow> observation" where
  "get_observation r =
     (case dr_Observation r of
        Some o' \<Rightarrow> o'
      | None \<Rightarrow> \<lparr>ob_Revision = 0, ob_ConfigHash = [], ob_ApprovalGeneration = 0, ob_ServiceId = [], ob_PrivilegeMode = 0,
          ob_Capabilities = no_capabilities, ob_OperationId = [], ob_HelperInstalled = False, ob_HelperRunning = False,
          ob_HelperAuthorized = False, ob_HelperLeaseReady = False\<rparr>)"

datatype saved = StillValid | SavedInvalid | SavedError go_error

definition validateSavedHostObservation :: "('r, 'c, 'h) world \<Rightarrow> delivery_report \<Rightarrow> saved" where
  "validateSavedHostObservation w r =
     (let ob = get_observation r; caps = ob_Capabilities ob in
      if wl_disableRemote w \<and> (cap_RemoteControl caps \<or> cap_Webssh caps \<or> cap_Execution caps) then SavedInvalid
      else if ob_OperationId ob = [] then StillValid
      else if wl_manifest w = None \<or> wl_hostTrust w = None then SavedInvalid
      else case wl_policy w of
        Inl _ \<Rightarrow> SavedError (local_error ''policy'')
      | Inr p \<Rightarrow>
          if wl_mode w \<noteq> ob_PrivilegeMode ob \<or> hp_PrivilegeMode p \<noteq> ob_PrivilegeMode ob \<or>
             HelperInstalled p \<noteq> ob_HelperInstalled ob \<or> HelperAuthorized p \<noteq> ob_HelperAuthorized ob
          then SavedInvalid
          else case wl_applied w of
            AppliedMissing \<Rightarrow> SavedInvalid
          | AppliedUnreadable err \<Rightarrow> SavedError err
          | Applied record \<Rightarrow>
              (case (wl_unm_revision w (ar_Revision record), wl_unm_operation w (ar_Operation record)) of
                 (Some revision, Some operation) \<Rightarrow>
                   if ar_Version record \<noteq> 2 \<or> pr_Revision revision \<noteq> ob_Revision ob \<or>
                      pr_ConfigHash revision \<noteq> ob_ConfigHash ob \<or>
                      pr_ApprovalGeneration revision \<noteq> ob_ApprovalGeneration ob \<or>
                      ho_OperationId operation \<noteq> ob_OperationId ob
                   then SavedInvalid else StillValid
               | _ \<Rightarrow> SavedError (local_error ''unmarshal'')))"

section \<open>Flushing\<close>

abbreviation rejected_code :: "go_error \<Rightarrow> bool" where
  "rejected_code err \<equiv> CodeOf err \<in> {CodeAborted, CodeFailedPrecondition, CodeInvalidArgument}"

text \<open>The error of a runtime acknowledgement, \<open>None\<close> when the panel accepted it.\<close>

definition ack_error :: "('r, 'c, 'h) world \<Rightarrow> config_ack \<Rightarrow> go_error option" where
  "ack_error w message =
     (case wl_AcknowledgeConfig w message of
        Inl err \<Rightarrow> Some err
      | Inr accepted \<Rightarrow> if accepted then None
          else Some (\<lparr>er_Connect = Some (CodeFailedPrecondition, []), er_Canceled = False, er_DeadlineExceeded = False,
            er_Network = False, er_Message = ''failed_precondition: runtime ACK rejected''\<rparr>))"

text \<open>
  The receipts of the runtime store, the first one each time, until none is left or one has to wait. A
  refused receipt is kept for diagnosis in the privileged outbox before it is finished. One round of the
  loop either ends it or leaves one receipt less.
\<close>

definition settle_ack ::
  "('r, 'c, 'h) world \<Rightarrow> bytes \<Rightarrow> config_ack \<Rightarrow> ('r, 'c, 'h) agent \<Rightarrow> go_error option \<times> ('r, 'c, 'h) agent" where
  "settle_ack w payload message a =
     (case ack_error w message of
        None \<Rightarrow> (None, a)
      | Some err \<Rightarrow>
          if \<not> rejected_code err then (Some err, a)
          else case ag_privileged a of
            None \<Rightarrow> (None, a)
          | Some s \<Rightarrow>
              (case priv_do w (wl_uuid w payload) (Enqueue \<lparr>rc_ID = wl_uuid w payload, rc_Kind = ''runtime-rejected'',
                      rc_Payload = payload, rc_Rejected = er_Message err\<rparr>) s (ag_disk a) of
                 (Inl _, s', d') \<Rightarrow> (Some store_error, a\<lparr>ag_privileged := Some s', ag_disk := d'\<rparr>)
               | (Inr _, s', d') \<Rightarrow> (None, a\<lparr>ag_privileged := Some s', ag_disk := d'\<rparr>)))"

datatype ('r, 'c, 'h) round = Ended "go_error option" "('r, 'c, 'h) agent" | Again "('r, 'c, 'h) agent"

definition flush_round :: "('r, 'c, 'h) world \<Rightarrow> ('r, 'c, 'h) agent \<Rightarrow> ('r, 'c, 'h) round" where
  "flush_round w a =
     (let payload = rt_Receipt (ag_runtime a) in
      if payload = [] then Ended None a
      else case wl_unm_ack w payload of
        None \<Rightarrow> Ended (Some (local_error ''unmarshal'')) a
      | Some message \<Rightarrow>
          (case settle_ack w payload message a of
             (Some e, a1) \<Rightarrow> Ended (Some e) a1
           | (None, a1) \<Rightarrow>
               (case rt_FinishReceipt (wl_rtenc w) (wl_rtenv w payload) payload (ag_runtime a1) (ag_runtimeDisk a1) of
                  (Inl _, rt', rd') \<Rightarrow> Ended (Some store_error) (a1\<lparr>ag_runtime := rt', ag_runtimeDisk := rd'\<rparr>)
                | (Inr _, rt', rd') \<Rightarrow> Again (a1\<lparr>ag_runtime := rt', ag_runtimeDisk := rd'\<rparr>))))"

lemma rt_commit_Inr: "rt_commit enc e next s d = (Inr u, s', d') \<Longrightarrow> s' = next"
  by (auto simp: rt_commit_def split: prod.splits option.splits)

lemma rt_FinishReceipt_first:
  assumes "rt_FinishReceipt enc e (rt_Receipt s) s d = (Inr u, s', d')" and "rt_Receipt s \<noteq> []"
  shows "rt_receipts s = rt_Receipt s # rt_receipts s' \<and> s' = s\<lparr>rt_receipts := tl (rt_receipts s)\<rparr>"
  using assms by (cases "rt_receipts s") (auto simp: rt_FinishReceipt_def rt_Receipt_def dest: rt_commit_Inr)

lemma settle_ack_runtime:
  "settle_ack w payload message a = (e, a1) \<Longrightarrow> ag_runtime a1 = ag_runtime a \<and> ag_runtimeDisk a1 = ag_runtimeDisk a"
  by (auto simp: settle_ack_def split: option.splits if_splits prod.splits sum.splits)

lemma flush_round_Again:
  assumes "flush_round w a = Again a'"
  shows "rt_receipts (ag_runtime a) = rt_Receipt (ag_runtime a) # rt_receipts (ag_runtime a') \<and>
    ag_runtime a' = (ag_runtime a)\<lparr>rt_receipts := tl (rt_receipts (ag_runtime a))\<rparr> \<and>
    (\<exists>message a1. wl_unm_ack w (rt_Receipt (ag_runtime a)) = Some message \<and>
       settle_ack w (rt_Receipt (ag_runtime a)) message a = (None, a1) \<and>
       ag_privileged a' = ag_privileged a1 \<and> ag_disk a' = ag_disk a1)"
proof -
  define payload where "payload = rt_Receipt (ag_runtime a)"
  obtain message a1 u rt' rd' where f: "payload \<noteq> []" "wl_unm_ack w payload = Some message" "settle_ack w payload message a = (None, a1)"
      "rt_FinishReceipt (wl_rtenc w) (wl_rtenv w payload) payload (ag_runtime a1) (ag_runtimeDisk a1) = (Inr u, rt', rd')"
      "a' = a1\<lparr>ag_runtime := rt', ag_runtimeDisk := rd'\<rparr>"
  proof -
    note A = assms [unfolded flush_round_def Let_def, folded payload_def]
    have ne: "payload \<noteq> []" using A by auto
    then obtain message where m: "wl_unm_ack w payload = Some message" using A by (cases "wl_unm_ack w payload") auto
    obtain e a1 where st: "settle_ack w payload message a = (e, a1)" by force
    with A ne m have "e = None" by (cases e) auto
    obtain r rt' rd' where f: "rt_FinishReceipt (wl_rtenc w) (wl_rtenv w payload) payload (ag_runtime a1) (ag_runtimeDisk a1) = (r, rt', rd')"
      by (metis prod_cases3)
    with A ne m st \<open>e = None\<close> obtain u where "r = Inr u" "a' = a1\<lparr>ag_runtime := rt', ag_runtimeDisk := rd'\<rparr>"
      by (cases r) auto
    with that ne m st f \<open>e = None\<close> show thesis by blast
  qed
  have "rt_receipts (ag_runtime a) = payload # rt_receipts rt'"
      "rt' = (ag_runtime a)\<lparr>rt_receipts := tl (rt_receipts (ag_runtime a))\<rparr>"
  proof -
    have "rt_FinishReceipt (wl_rtenc w) (wl_rtenv w payload) (rt_Receipt (ag_runtime a)) (ag_runtime a) (ag_runtimeDisk a1) = (Inr u, rt', rd')"
      using f(4) settle_ack_runtime [OF f(3)] by (simp only: payload_def)
    from rt_FinishReceipt_first [OF this] f(1)
    show "rt_receipts (ag_runtime a) = payload # rt_receipts rt'"
      "rt' = (ag_runtime a)\<lparr>rt_receipts := tl (rt_receipts (ag_runtime a))\<rparr>" unfolding payload_def by blast+
  qed
  moreover have "ag_runtime a' = rt'" "ag_privileged a' = ag_privileged a1" "ag_disk a' = ag_disk a1" using f(5) by simp_all
  ultimately show ?thesis using f(2,3) unfolding payload_def by simp
qed

function flush_runtime ::
  "('r, 'c, 'h) world \<Rightarrow> ('r, 'c, 'h) agent \<Rightarrow> go_error option \<times> ('r, 'c, 'h) agent" where
  "flush_runtime w a = (case flush_round w a of Ended e a' \<Rightarrow> (e, a') | Again a' \<Rightarrow> flush_runtime w a')"
  by pat_completeness auto
termination flush_runtime
proof (relation "measure (\<lambda>(w, a). length (rt_receipts (ag_runtime a)))", goal_cases)
  case (2 w a a')
  then show ?case using flush_round_Again [of w a a'] by (metis case_prod_conv in_measure length_Cons lessI)
qed simp

declare flush_runtime.simps [simp del]

text \<open>
  The entries of the privileged outbox, as it was when the loop began. What happens to an entry is decided
  before its store is touched: it is finished (with the reason of a refusal, empty when accepted), or it
  waits for the next flush.
\<close>

datatype entry_result = Finish string | Wait go_error

definition refused :: "go_error \<Rightarrow> entry_result" where
  "refused err = (if rejected_code err then Finish (er_Message err) else Wait err)"

definition entry_outcome :: "('r, 'c, 'h) world \<Rightarrow> Receipt \<Rightarrow> entry_result" where
  "entry_outcome w entry =
     (if rc_Kind entry = ''runtime-rejected'' then Finish (rc_Rejected entry)
      else if rc_Kind entry = ''privileged'' then
        (case wl_unm_report w (rc_Payload entry) of
           None \<Rightarrow> refused (local_error ''unmarshal'')
         | Some message \<Rightarrow>
             (case validateSavedHostObservation w message of
                SavedInvalid \<Rightarrow> Finish (er_Message errSavedHostObservationInvalid)
              | SavedError err \<Rightarrow> refused err
              | StillValid \<Rightarrow>
                  (case wl_ReportPrivilegedDelivery w message of
                     Inl err \<Rightarrow> refused err
                   | Inr accepted \<Rightarrow> if accepted then Finish [] else refused (local_error ''privileged receipt was not accepted''))))
      else if rc_Kind entry = ''runtime'' then
        (case wl_unm_ack w (rc_Payload entry) of
           None \<Rightarrow> refused (local_error ''unmarshal'')
         | Some message \<Rightarrow> (case wl_AcknowledgeConfig w message of Inl err \<Rightarrow> refused err | Inr _ \<Rightarrow> Finish []))
      else refused (local_error (''unsupported outbox kind '' @ rc_Kind entry)))"

fun flush_entries ::
  "('r, 'c, 'h) world \<Rightarrow> Receipt list \<Rightarrow> go_error option \<Rightarrow> 'h priv_store \<Rightarrow> 'c disk \<Rightarrow>
     go_error option \<times> 'h priv_store \<times> 'c disk" where
  "flush_entries w [] first s d = (first, s, d)"
| "flush_entries w (entry # es) first s d =
     (case entry_outcome w entry of
        Finish rejected \<Rightarrow>
          (case priv_do w (rc_ID entry) (FinishReceipt (rc_ID entry) rejected) s d of
             (Inl _, s', d') \<Rightarrow> (Some store_error, s', d')
           | (Inr _, s', d') \<Rightarrow> flush_entries w es first s' d')
      | Wait err \<Rightarrow> flush_entries w es (if first = None then Some err else first) s d)"

definition flushReceipts :: "('r, 'c, 'h) world \<Rightarrow> ('r, 'c, 'h) agent \<Rightarrow> go_error option \<times> ('r, 'c, 'h) agent" where
  "flushReceipts w a =
     (case flush_runtime w a of
        (Some err, a1) \<Rightarrow> (Some err, a1)
      | (None, a1) \<Rightarrow>
          (case ag_privileged a1 of
             None \<Rightarrow> (None, a1)
           | Some s \<Rightarrow>
               (case flush_entries w (Outbox (ps_state s)) None s (ag_disk a1) of
                  (first, s', d') \<Rightarrow> (first, a1\<lparr>ag_privileged := Some s', ag_disk := d'\<rparr>))))"

section \<open>Ordinary configuration\<close>

text \<open>
  \<open>applyDesiredConfig\<close> up to the flush: apply with an APPLIED receipt, or queue a REJECTED one. \<open>agentID\<close>
  is the identifier after \<open>rememberAgentID\<close>, and \<open>k\<close> names the environment of the writes.
\<close>

definition queue_answer ::
  "('r, 'c, 'h) world \<Rightarrow> string \<Rightarrow> bytes \<Rightarrow> DesiredConfig \<Rightarrow> ('r, 'c, 'h) agent \<Rightarrow> go_error option \<times> ('r, 'c, 'h) agent" where
  "queue_answer w agentID k desired a =
     (case wl_pm_ack w \<lparr>ak_AgentId = agentID, ak_Revision = dc_Revision desired, ak_Error = None\<rparr> of
        None \<Rightarrow> (Some (local_error ''marshal''), a)
      | Some payload \<Rightarrow>
          (case ApplyWithReceipt (wl_rtenc w) (wl_rtenv w k) (Some desired) payload (ag_runtime a) (ag_runtimeDisk a) of
             (Inr _, rt', rd') \<Rightarrow> (None, a\<lparr>ag_runtime := rt', ag_runtimeDisk := rd'\<rparr>)
           | (Inl err, rt', rd') \<Rightarrow>
               (case wl_pm_ack w \<lparr>ak_AgentId = agentID, ak_Revision = dc_Revision desired, ak_Error = Some ''CONFIG_REJECTED''\<rparr> of
                  None \<Rightarrow> (Some (local_error ''marshal''), a\<lparr>ag_runtime := rt', ag_runtimeDisk := rd'\<rparr>)
                | Some payload \<Rightarrow>
                    (case QueueReceipt (wl_rtenc w) (wl_rtenv w (k @ ''r'')) payload rt' rd' of
                       (Inl _, rt2, rd2) \<Rightarrow> (Some store_error, a\<lparr>ag_runtime := rt2, ag_runtimeDisk := rd2\<rparr>)
                     | (Inr _, rt2, rd2) \<Rightarrow> (None, a\<lparr>ag_runtime := rt2, ag_runtimeDisk := rd2\<rparr>)))))"

definition applyDesiredConfig ::
  "('r, 'c, 'h) world \<Rightarrow> string \<Rightarrow> bytes \<Rightarrow> DesiredConfig option \<Rightarrow> ('r, 'c, 'h) agent \<Rightarrow> go_error option \<times> ('r, 'c, 'h) agent" where
  "applyDesiredConfig w agentID k desired a =
     (case desired of
        None \<Rightarrow> (None, a)
      | Some dc \<Rightarrow>
          (case queue_answer w agentID k dc a of
             (Some err, a1) \<Rightarrow> (Some err, a1)
           | (None, a1) \<Rightarrow> flushReceipts w a1))"

text \<open>
  \<open>SyncConfig\<close>: \<open>fetch\<close> is \<open>GetDesiredConfig\<close> on the revision the client says it has, and \<open>reconciled\<close>
  whether this process has already been through a synchronisation.
\<close>

definition SyncConfig ::
  "('r, 'c, 'h) world \<Rightarrow> (u64 \<Rightarrow> go_error + DesiredConfig option) \<Rightarrow> string \<Rightarrow> bytes \<Rightarrow> bool \<Rightarrow> ('r, 'c, 'h) agent \<Rightarrow>
     go_error option \<times> bool \<times> ('r, 'c, 'h) agent" where
  "SyncConfig w fetch agentID k reconciled a =
     (let after = (if \<not> reconciled then 0 else sn_Revision (rt_current (ag_runtime a))) in
      case fetch after of
        Inl err \<Rightarrow> (Some err, reconciled, a)
      | Inr None \<Rightarrow> (None, reconciled, a)
      | Inr (Some desired) \<Rightarrow>
          (case applyDesiredConfig w agentID k (Some desired) a of
             (Some err, a1) \<Rightarrow> (Some err, reconciled, a1)
           | (None, a1) \<Rightarrow> (None, True, a1)))"

section \<open>Facts about flushing\<close>

text \<open>The panel has accepted or refused the acknowledgement.\<close>

definition settled :: "('r, 'c, 'h) world \<Rightarrow> bytes \<Rightarrow> bool" where
  "settled w payload \<longleftrightarrow>
     (case wl_unm_ack w payload of
        None \<Rightarrow> False
      | Some message \<Rightarrow> (case ack_error w message of None \<Rightarrow> True | Some err \<Rightarrow> rejected_code err))"

text \<open>What the runtime part of a flush does to the privileged store: it only appends to the outbox.\<close>

definition only_queued :: "'h priv_store \<Rightarrow> 'h priv_store \<Rightarrow> bool" where
  "only_queued s s' \<longleftrightarrow>
     Active (ps_state s') = Active (ps_state s) \<and> set (Outbox (ps_state s)) \<subseteq> set (Outbox (ps_state s')) \<and>
     (distinct (map rc_ID (Outbox (ps_state s))) \<longrightarrow> distinct (map rc_ID (Outbox (ps_state s'))))"

lemma only_queued_refl [simp]: "only_queued s s"
  by (simp add: only_queued_def)

lemma only_queued_trans: "only_queued a b \<Longrightarrow> only_queued b c \<Longrightarrow> only_queued a c"
  unfolding only_queued_def by (metis subset_trans)

lemma priv_do_Enqueue: "priv_do w k (Enqueue rc) s d = (r, s', d') \<Longrightarrow> only_queued s s'"
  unfolding priv_do_def
  by (erule priv_apply_cases) (auto simp: only_queued_def Enqueue_plan_def split: if_splits, metis)

lemma priv_do_Finish:
  assumes "priv_do w k (FinishReceipt i rej) s d = (r, s', d')"
  shows "Active (ps_state s') = Active (ps_state s) \<and>
    (Outbox (ps_state s') = Outbox (ps_state s) \<or> Outbox (ps_state s') = filter (\<lambda>e. rc_ID e \<noteq> i) (Outbox (ps_state s)))"
  using assms unfolding priv_do_def
  by - (erule priv_apply_cases; auto simp: FinishReceipt_plan_def finish_loop_eq)

lemma priv_do_Finish_ok:
  assumes "priv_do w k (FinishReceipt i rej) s d = (Inr u, s', d')"
  shows "Outbox (ps_state s') = filter (\<lambda>e. rc_ID e \<noteq> i) (Outbox (ps_state s))"
  using assms unfolding priv_do_def priv_apply_def priv_exec_def
  by (auto simp: FinishReceipt_plan_def finish_loop_eq priv_commit_def Let_def split: if_splits option.splits prod.splits)

lemma settle_ack_keeps:
  assumes "settle_ack w payload message a = (e, a1)"
  shows "(e = None \<longrightarrow> wl_unm_ack w payload = Some message \<longrightarrow> settled w payload) \<and>
    rel_option only_queued (ag_privileged a) (ag_privileged a1)"
proof (cases "ack_error w message")
  case None
  with assms show ?thesis by (auto simp: settle_ack_def settled_def option.rel_refl)
next
  case (Some err)
  show ?thesis
  proof (cases "rejected_code err \<and> ag_privileged a \<noteq> None")
    case False
    with assms Some show ?thesis by (auto simp: settle_ack_def settled_def option.rel_refl split: if_splits)
  next
    case True
    then obtain s where s: "ag_privileged a = Some s" "rejected_code err" by auto
    obtain r s' d' where p: "priv_do w (wl_uuid w payload) (Enqueue \<lparr>rc_ID = wl_uuid w payload, rc_Kind = ''runtime-rejected'',
        rc_Payload = payload, rc_Rejected = er_Message err\<rparr>) s (ag_disk a) = (r, s', d')" by (metis prod_cases3)
    have "ag_privileged a1 = Some s'"
      using assms p s Some by (cases r) (simp_all add: settle_ack_def, auto)
    with priv_do_Enqueue [OF p] s Some show ?thesis by (simp add: settled_def)
  qed
qed

lemma flush_round_Again_keeps:
  assumes "flush_round w a = Again a'"
  shows "rel_option only_queued (ag_privileged a) (ag_privileged a') \<and>
    (\<exists>p. ag_runtime a' = (ag_runtime a)\<lparr>rt_receipts := tl (rt_receipts (ag_runtime a))\<rparr> \<and>
       rt_receipts (ag_runtime a) = p # rt_receipts (ag_runtime a') \<and> settled w p)"
  using flush_round_Again [OF assms] settle_ack_keeps by metis

lemma flush_round_Ended_keeps:
  assumes "flush_round w a = Ended e a'"
  shows "rel_option only_queued (ag_privileged a) (ag_privileged a') \<and> ag_runtime a' = ag_runtime a \<and>
    (e = None \<longrightarrow> a' = a \<and> rt_Receipt (ag_runtime a) = [])"
proof -
  define payload where "payload = rt_Receipt (ag_runtime a)"
  note A = assms [unfolded flush_round_def Let_def, folded payload_def]
  show ?thesis
  proof (cases "payload = [] \<or> wl_unm_ack w payload = None")
    case True
    with A show ?thesis by (auto simp: option.rel_refl payload_def split: option.splits if_splits)
  next
    case False
    then obtain message where m: "payload \<noteq> []" "wl_unm_ack w payload = Some message" by auto
    obtain e1 a1 where st: "settle_ack w payload message a = (e1, a1)" by force
    obtain r rt' rd' where f: "rt_FinishReceipt (wl_rtenc w) (wl_rtenv w payload) payload (ag_runtime a1) (ag_runtimeDisk a1) = (r, rt', rd')"
      by (metis prod_cases3)
    show ?thesis
    proof (cases e1)
      case (Some x)
      with A m st have "a' = a1" "e = Some x" by auto
      with settle_ack_runtime [OF st] settle_ack_keeps [OF st] show ?thesis by simp
    next
      case None
      with A m st f obtain err where "r = Inl err" "e = Some store_error" "a' = a1\<lparr>ag_runtime := rt', ag_runtimeDisk := rd'\<rparr>"
        by (cases r) auto
      moreover from this f have "rt' = ag_runtime a1"
        using rt_apply_refused [of "wl_rtenc w" "wl_rtenv w payload" "RtFinish payload"] by simp
      ultimately show ?thesis using settle_ack_runtime [OF st] settle_ack_keeps [OF st] by simp
    qed
  qed
qed

lemma only_queued_option_trans:
  "rel_option only_queued x y \<Longrightarrow> rel_option only_queued y z \<Longrightarrow> rel_option only_queued x z"
  by (cases x; cases y; cases z) (auto intro: only_queued_trans)

text \<open>What the runtime loop removes has been accepted or refused; success leaves nothing to send.\<close>

lemma flush_runtime_keeps:
  "flush_runtime w a = (e, a') \<Longrightarrow>
     rel_option only_queued (ag_privileged a) (ag_privileged a') \<and> rt_current (ag_runtime a') = rt_current (ag_runtime a) \<and>
     (\<exists>sent. rt_receipts (ag_runtime a) = sent @ rt_receipts (ag_runtime a') \<and> (\<forall>p \<in> set sent. settled w p)) \<and>
     (e = None \<longrightarrow> rt_Receipt (ag_runtime a') = [])"
proof (induction w a rule: flush_runtime.induct)
  case (1 w a)
  show ?case
  proof (cases "flush_round w a")
    case (Ended x b)
    with 1(2) have "x = e" "b = a'" by (simp_all add: flush_runtime.simps)
    with flush_round_Ended_keeps [OF Ended] show ?thesis by auto
  next
    case (Again b)
    with 1(2) have "flush_runtime w b = (e, a')" by (simp add: flush_runtime.simps)
    from 1(1) [OF Again this] obtain sent where b: "rel_option only_queued (ag_privileged b) (ag_privileged a')"
      "rt_current (ag_runtime a') = rt_current (ag_runtime b)" "rt_receipts (ag_runtime b) = sent @ rt_receipts (ag_runtime a')"
      "\<forall>p \<in> set sent. settled w p" "e = None \<longrightarrow> rt_Receipt (ag_runtime a') = []" by blast
    from flush_round_Again_keeps [OF Again] obtain p where p: "rel_option only_queued (ag_privileged a) (ag_privileged b)"
      "ag_runtime b = (ag_runtime a)\<lparr>rt_receipts := tl (rt_receipts (ag_runtime a))\<rparr>"
      "rt_receipts (ag_runtime a) = p # rt_receipts (ag_runtime b)" "settled w p" by blast
    have "rt_receipts (ag_runtime a) = (p # sent) @ rt_receipts (ag_runtime a') \<and> (\<forall>q \<in> set (p # sent). settled w q)"
      using p(3,4) b(3,4) by simp
    moreover have "rt_current (ag_runtime b) = rt_current (ag_runtime a)" unfolding p(2) by simp
    ultimately show ?thesis using only_queued_option_trans [OF p(1) b(1)] b(2,5) by metis
  qed
qed

lemma flush_entries_keeps:
  assumes "flush_entries w es first s d = (r, s', d')" and "distinct (map rc_ID (Outbox (ps_state s)))"
    and "set es \<subseteq> set Q" and "distinct (map rc_ID Q)" and "set (Outbox (ps_state s)) \<subseteq> set Q"
  shows "Active (ps_state s') = Active (ps_state s) \<and>
    (\<forall>x \<in> set (Outbox (ps_state s)). x \<in> set (Outbox (ps_state s')) \<or> (\<exists>why. entry_outcome w x = Finish why)) \<and>
    (r = None \<longrightarrow> first = None \<and> (\<forall>x \<in> set es. \<exists>why. entry_outcome w x = Finish why))"
  using assms
proof (induction es arbitrary: first s d)
  case Nil
  then show ?case by auto
next
  case (Cons x es)
  show ?case
  proof (cases "entry_outcome w x")
    case (Wait err)
    with Cons.prems(1) have "flush_entries w es (if first = None then Some err else first) s d = (r, s', d')" by simp
    from Cons.IH [OF this] Cons.prems show ?thesis by (auto split: if_splits)
  next
    case (Finish why)
    obtain ok s1 d1 where p: "priv_do w (rc_ID x) (FinishReceipt (rc_ID x) why) s d = (ok, s1, d1)" by (metis prod_cases3)
    note F = priv_do_Finish [OF p]
    have sub: "set (Outbox (ps_state s1)) \<subseteq> set (Outbox (ps_state s))" "distinct (map rc_ID (Outbox (ps_state s1)))"
      using F Cons.prems(2) by (auto simp: distinct_map_filter)
    have kept: "y \<in> set (Outbox (ps_state s1)) \<or> (\<exists>why. entry_outcome w y = Finish why)"
      if "y \<in> set (Outbox (ps_state s))" for y
    proof (cases "rc_ID y = rc_ID x")
      case True
      with that Cons.prems(3,4,5) have "y = x" by (auto simp: distinct_map dest: inj_onD)
      with Finish show ?thesis by simp
    qed (use F that in auto)
    show ?thesis
    proof (cases ok)
      case (Inl err)
      with Cons.prems(1) Finish p have "r = Some store_error" "s' = s1" by auto
      with F kept show ?thesis by auto
    next
      case (Inr u)
      with Cons.prems(1) Finish p have "flush_entries w es first s1 d1 = (r, s', d')" by simp
      from Cons.IH [OF this sub(2)] Cons.prems(3,4,5) sub(1)
      have IH: "Active (ps_state s') = Active (ps_state s1)"
        "\<And>y. y \<in> set (Outbox (ps_state s1)) \<Longrightarrow> y \<in> set (Outbox (ps_state s')) \<or> (\<exists>why. entry_outcome w y = Finish why)"
        "r = None \<Longrightarrow> first = None \<and> (\<forall>y \<in> set es. \<exists>why. entry_outcome w y = Finish why)" by auto
      then show ?thesis using F kept Finish by (metis set_ConsD)
    qed
  qed
qed

text \<open>What a loop that succeeds has gone through is out of the outbox.\<close>

lemma flush_entries_late: "fst (flush_entries w es (Some f) s d) \<noteq> None"
proof (induction es arbitrary: f s d)
  case (Cons x es)
  then show ?case by (simp split: entry_result.split prod.split sum.split)
qed simp

lemma flush_entries_removes:
  "flush_entries w es first s d = (None, s', d') \<Longrightarrow>
     set (Outbox (ps_state s')) \<subseteq> {y \<in> set (Outbox (ps_state s)). rc_ID y \<notin> rc_ID ` set es}"
proof (induction es arbitrary: first s d)
  case (Cons x es)
  show ?case
  proof (cases "entry_outcome w x")
    case (Wait err)
    with Cons.prems obtain f where "flush_entries w es (Some f) s d = (None, s', d')" by (cases first) auto
    with flush_entries_late [of w es f s d] show ?thesis by simp
  next
    case (Finish why)
    obtain ok s1 d1 where p: "priv_do w (rc_ID x) (FinishReceipt (rc_ID x) why) s d = (ok, s1, d1)" by (metis prod_cases3)
    with Cons.prems Finish have ok: "ok = Inr ()" and f: "flush_entries w es first s1 d1 = (None, s', d')"
      by (auto split: sum.splits)
    from Cons.IH [OF f] priv_do_Finish_ok [OF p [unfolded ok]] show ?thesis by auto
  qed
qed simp

text \<open>Without faults a write of the runtime store succeeds and the path keeps holding a regular file.\<close>

lemma run_quiet: "\<forall>x \<in> set xs. \<forall>p. x \<noteq> Lstat p \<Longrightarrow> fst (run (\<lambda>_. False) xs d) = None"
  by (induction xs arbitrary: d) (auto simp: op_fails_def)

lemma rt_persist_quiet:
  assumes "env_faults e = (\<lambda>_. False)" "rt_names e p" "enc state = Some c" "d p \<noteq> Some Other"
  obtains d' where "rt_persist enc e p state d = (None, d')" "d' p \<noteq> Some Other"
proof (cases "p = []")
  case True
  with assms that show ?thesis by (simp add: rt_persist_def)
next
  case False
  obtain d1 where r: "run (\<lambda>_. False) (rt_pre (env_tmp e) p c) d = (None, d1)"
    using run_quiet [of "rt_pre (env_tmp e) p c" d] by (cases "run (\<lambda>_. False) (rt_pre (env_tmp e) p c) d") (auto simp: rt_pre_def)
  have p: "d1 p = d p" using rt_pre_disk [OF r] assms(2) by (auto simp: rt_names_def)
  have rep: "fst (rt_replace (\<lambda>_. False) (env_tmp e) p d2) = None" for d2
    by (simp add: rt_replace_def rt_post_def run_deferred_def op_fails_def)
  have bak: "fst (writeBackup (\<lambda>_. False) b q x d2)" for b q x d2
    by (cases x) (simp_all add: writeBackup_def run_deferred_def op_fails_def)
  obtain d' where P: "rt_persist enc e p state d = (None, d')"
  proof (cases "read_file (\<lambda>_. False) p d1")
    case (Inl x)
    then have "x = NotExist" using assms(4) p by (auto simp: read_file_def split: option.splits node.splits)
    with Inl that assms(1,3) r rep [of d1] False show ?thesis
      by (cases "rt_replace (\<lambda>_. False) (env_tmp e) p d1") (simp add: rt_persist_def)
  next
    case (Inr x)
    obtain d2 where "writeBackup (\<lambda>_. False) (env_backup e) (bak p) x d1 = (True, d2)"
      using bak [of "env_backup e" "bak p" x d1] by (cases "writeBackup (\<lambda>_. False) (env_backup e) (bak p) x d1") auto
    with Inr that assms(1,3) r rep [of d2] False show ?thesis
      by (cases "rt_replace (\<lambda>_. False) (env_tmp e) p d2") (simp add: rt_persist_def)
  qed
  with rt_persist_disk [OF assms(2) P False] that show ?thesis by (auto simp: private_file_def)
qed

text \<open>A panel that accepts what it can decode, and a disk without faults.\<close>

definition accepts :: "('r, 'c, 'h) world \<Rightarrow> bytes \<Rightarrow> bool" where
  "accepts w p \<longleftrightarrow> (case wl_unm_ack w p of None \<Rightarrow> False | Some m \<Rightarrow> ack_error w m = None)"

definition calm :: "('r, 'c, 'h) world \<Rightarrow> path \<Rightarrow> bool" where
  "calm w p \<longleftrightarrow> (\<forall>k. env_faults (wl_rtenv w k) = (\<lambda>_. False) \<and> rt_names (wl_rtenv w k) p) \<and> (\<forall>st. wl_rtenc w st \<noteq> None)"

lemma flush_round_calm:
  assumes "calm w (rt_path (ag_runtime a))" "ag_runtimeDisk a (rt_path (ag_runtime a)) \<noteq> Some Other"
    and "accepts w (rt_Receipt (ag_runtime a))" "rt_Receipt (ag_runtime a) \<noteq> []"
  obtains a' where "flush_round w a = Again a'" "ag_runtimeDisk a' (rt_path (ag_runtime a)) \<noteq> Some Other"
    "ag_privileged a' = ag_privileged a" "ag_disk a' = ag_disk a"
proof -
  let ?p = "rt_Receipt (ag_runtime a)" and ?s = "ag_runtime a"
  let ?next = "?s\<lparr>rt_receipts := tl (rt_receipts ?s)\<rparr>"
  obtain m where m: "wl_unm_ack w ?p = Some m" "ack_error w m = None" using assms(3) by (auto simp: accepts_def split: option.splits)
  obtain c where "wl_rtenc w (rt_image ?next) = Some c" using assms(1) by (auto simp: calm_def)
  moreover have "env_faults (wl_rtenv w ?p) = (\<lambda>_. False)" "rt_names (wl_rtenv w ?p) (rt_path ?s)"
    using assms(1) by (simp_all add: calm_def)
  ultimately obtain d' where P: "rt_persist (wl_rtenc w) (wl_rtenv w ?p) (rt_path ?s) (rt_image ?next) (ag_runtimeDisk a) = (None, d')"
    "d' (rt_path ?s) \<noteq> Some Other" using rt_persist_quiet assms(2) by metis
  have "rt_FinishReceipt (wl_rtenc w) (wl_rtenv w ?p) ?p ?s (ag_runtimeDisk a) = (Inr (), ?next, d')"
    using P(1) assms(4) by (cases "rt_receipts ?s") (simp_all add: rt_FinishReceipt_def rt_Receipt_def rt_commit_def)
  then have "flush_round w a = Again (a\<lparr>ag_runtime := ?next, ag_runtimeDisk := d'\<rparr>)"
    using m assms(4) by (simp add: flush_round_def settle_ack_def)
  from that [OF this] P(2) show ?thesis by simp
qed

text \<open>What is queued in answer to a configuration.\<close>

definition answers ::
  "('r, 'c, 'h) world \<Rightarrow> string \<Rightarrow> DesiredConfig \<Rightarrow> Snapshot \<Rightarrow> Snapshot \<Rightarrow> bytes \<Rightarrow> bool" where
  "answers w agentID dc before now p \<longleftrightarrow>
     wl_pm_ack w \<lparr>ak_AgentId = agentID, ak_Revision = dc_Revision dc, ak_Error = None\<rparr> = Some p \<and> sn_Revision now = dc_Revision dc \<or>
     wl_pm_ack w \<lparr>ak_AgentId = agentID, ak_Revision = dc_Revision dc, ak_Error = Some ''CONFIG_REJECTED''\<rparr> = Some p \<and> now = before"

lemma ApplyWithReceipt_queued:
  "ApplyWithReceipt enc e (Some dc) receipt s d = (Inr u, s1, d1) \<Longrightarrow> receipt \<noteq> [] \<Longrightarrow>
     rt_receipts s1 = rt_receipts s @ [receipt] \<and> sn_Revision (rt_current s1) = dc_Revision dc"
  by (auto simp: ApplyWithReceipt_def rt_commit_def dest: fromProto_Inr split: option.splits sum.splits if_splits prod.splits)

lemma queue_answer_None:
  assumes A: "queue_answer w agentID k dc a = (None, a1)" and ne: "\<forall>m. wl_pm_ack w m \<noteq> Some []"
  obtains p where "rt_receipts (ag_runtime a1) = rt_receipts (ag_runtime a) @ [p]" "p \<noteq> []"
    "answers w agentID dc (rt_current (ag_runtime a)) (rt_current (ag_runtime a1)) p" "ag_privileged a1 = ag_privileged a"
proof -
  let ?m = "\<lambda>e. \<lparr>ak_AgentId = agentID, ak_Revision = dc_Revision dc, ak_Error = e\<rparr>"
  obtain p where p: "wl_pm_ack w (?m None) = Some p" "p \<noteq> []"
    using A ne by (cases "wl_pm_ack w (?m None)") (auto simp: queue_answer_def)
  obtain r rt' rd' where B: "ApplyWithReceipt (wl_rtenc w) (wl_rtenv w k) (Some dc) p (ag_runtime a) (ag_runtimeDisk a) = (r, rt', rd')"
    by (metis prod_cases3)
  show ?thesis
  proof (cases r)
    case (Inr u)
    with A B p have "a1 = a\<lparr>ag_runtime := rt', ag_runtimeDisk := rd'\<rparr>" by (simp add: queue_answer_def)
    with ApplyWithReceipt_queued [OF B [unfolded Inr] p(2)] p that show ?thesis by (simp add: answers_def)
  next
    case (Inl err)
    then have "rt' = ag_runtime a"
      using B rt_apply_refused [of "wl_rtenc w" "wl_rtenv w k" "RtApply (Some dc) p"] by simp
    with A B p Inl obtain q r2 rt2 rd2 where q: "wl_pm_ack w (?m (Some ''CONFIG_REJECTED'')) = Some q"
      "QueueReceipt (wl_rtenc w) (wl_rtenv w (k @ ''r'')) q (ag_runtime a) rd' = (r2, rt2, rd2)"
      by (cases "wl_pm_ack w (?m (Some ''CONFIG_REJECTED''))") (auto simp: queue_answer_def, metis prod_cases3)
    with A B p Inl \<open>rt' = ag_runtime a\<close> have "r2 = Inr ()" "a1 = a\<lparr>ag_runtime := rt2, ag_runtimeDisk := rd2\<rparr>"
      by (auto simp: queue_answer_def split: sum.splits)
    moreover from this q(2) have "rt2 = (ag_runtime a)\<lparr>rt_receipts := rt_receipts (ag_runtime a) @ [q]\<rparr>"
      by (auto simp: QueueReceipt_def rt_commit_def split: if_splits prod.splits option.splits)
    moreover have "q \<noteq> []" using q(1) ne by auto
    ultimately show ?thesis using that q(1) by (simp add: answers_def)
  qed
qed

lemma flush_runtime_sent:
  assumes "calm w (rt_path (ag_runtime a))" "ag_runtimeDisk a (rt_path (ag_runtime a)) \<noteq> Some Other"
    and "\<forall>p \<in> set (rt_receipts (ag_runtime a)). p \<noteq> [] \<and> accepts w p"
  shows "\<exists>a'. flush_runtime w a = (None, a') \<and> rt_receipts (ag_runtime a') = [] \<and> ag_privileged a' = ag_privileged a"
  using assms
proof (induction "rt_receipts (ag_runtime a)" arbitrary: a)
  case Nil
  then have "flush_round w a = Ended None a" by (simp add: flush_round_def rt_Receipt_def)
  with Nil(1) show ?case by (simp add: flush_runtime.simps [of w a])
next
  case (Cons p ps)
  have p: "rt_Receipt (ag_runtime a) = p" "p \<noteq> []" "accepts w p" 
    using Cons.prems(3) unfolding Cons.hyps(2) [symmetric] rt_Receipt_def by auto
  with flush_round_calm [of w a] Cons.prems obtain b where b: "flush_round w a = Again b"
    "ag_runtimeDisk b (rt_path (ag_runtime a)) \<noteq> Some Other" "ag_privileged b = ag_privileged a" by metis
  have rt: "ag_runtime b = (ag_runtime a)\<lparr>rt_receipts := tl (rt_receipts (ag_runtime a))\<rparr>" using flush_round_Again [OF b(1)] by blast
  then have ps: "rt_receipts (ag_runtime b) = ps" "rt_path (ag_runtime b) = rt_path (ag_runtime a)"
    using Cons.hyps(2) [symmetric] by simp_all
  have "\<exists>a'. flush_runtime w b = (None, a') \<and> rt_receipts (ag_runtime a') = [] \<and> ag_privileged a' = ag_privileged b"
    using Cons.hyps(1) [of b] Cons.prems b(2) ps Cons.hyps(2) [symmetric] by simp
  with b(1,3) show ?case by (simp add: flush_runtime.simps [of w a])
qed

section \<open>Sample values for the witnesses\<close>

definition sample_ack :: config_ack where
  "sample_ack = \<lparr>ak_AgentId = ''a1'', ak_Revision = 4, ak_Error = None\<rparr>"

definition sample_world :: "(persistedState, State, State option) world" where
  "sample_world = \<lparr>wl_rtenc = Some, wl_rtenv = (\<lambda>_. sample_rt_env), wl_sha = (\<lambda>_. ''h''), wl_pm = (\<lambda>_. Some ''m''),
     wl_stamp = (\<lambda>_. ''t''), wl_enc = Some, wl_digest = (\<lambda>x. x), wl_env = (\<lambda>_. quiet_env ''t'' 7), wl_uuid = (\<lambda>p. p),
     wl_unm_ack = (\<lambda>_. Some sample_ack), wl_pm_ack = (\<lambda>m. Some (if ak_Error m = None then ''ok'' else ''no'')),
     wl_unm_report = (\<lambda>_. None), wl_pm_report = (\<lambda>_. Some ''rp''), wl_unm_revision = (\<lambda>_. None), wl_unm_operation = (\<lambda>_. None),
     wl_AcknowledgeConfig = (\<lambda>_. Inr True), wl_ReportPrivilegedDelivery = (\<lambda>_. Inr True), wl_disableRemote = False,
     wl_manifest = None, wl_hostTrust = None, wl_policy = Inl StatFailed, wl_mode = 2, wl_applied = AppliedMissing\<rparr>"

definition sample_agent :: "(persistedState, State, State option) agent" where
  "sample_agent = \<lparr>ag_runtime = sample_rt, ag_runtimeDisk = Map.empty, ag_privileged = Some empty_store, ag_disk = Map.empty\<rparr>"

lemma sample_world_calm: "calm sample_world ''r''"
  by (simp add: calm_def sample_world_def sample_rt_env_def rt_names_def bak_def)

lemma sample_world_accepts: "accepts sample_world p"
  by (simp add: accepts_def ack_error_def sample_world_def)

section \<open>Properties\<close>

text \<open>
  C23: no receipt is lost. Whatever happens during a flush (failing RPCs, failing disks, an answer that
  does not come), the runtime receipts that left the queue are those at its front, each one accepted or
  refused by the panel; every entry of the privileged outbox is still there unless it was delivered,
  refused, or overtaken by a change of the host; the settings in force do not change. A flush that
  reports success leaves nothing: the outbox is empty, each of its entries settled, and so is the queue of runtime receipts
  (unless one of them has an empty payload, which the loop takes for the end).
\<close>

theorem flush_keeps_receipts:
  assumes "flushReceipts w a = (r, a')" and s: "ag_privileged a = Some s" and "distinct (map rc_ID (Outbox (ps_state s)))"
  shows "\<exists>s' sent. ag_privileged a' = Some s' \<and> Active (ps_state s') = Active (ps_state s) \<and>
    rt_current (ag_runtime a') = rt_current (ag_runtime a) \<and>
    rt_receipts (ag_runtime a) = sent @ rt_receipts (ag_runtime a') \<and> (\<forall>p \<in> set sent. settled w p) \<and>
    (\<forall>x \<in> set (Outbox (ps_state s)). x \<in> set (Outbox (ps_state s')) \<or> (\<exists>why. entry_outcome w x = Finish why)) \<and>
    (r = None \<longrightarrow> Outbox (ps_state s') = [] \<and> (\<forall>x \<in> set (Outbox (ps_state s)). \<exists>why. entry_outcome w x = Finish why) \<and>
       ([] \<notin> set (rt_receipts (ag_runtime a)) \<longrightarrow> rt_receipts (ag_runtime a') = []))"
proof -
  obtain e a1 where R: "flush_runtime w a = (e, a1)" by force
  from flush_runtime_keeps [OF R] s obtain s1 sent where 1: "ag_privileged a1 = Some s1" "only_queued s s1"
    "rt_current (ag_runtime a1) = rt_current (ag_runtime a)"
    "rt_receipts (ag_runtime a) = sent @ rt_receipts (ag_runtime a1)" "\<forall>p \<in> set sent. settled w p"
    "e = None \<longrightarrow> rt_Receipt (ag_runtime a1) = []" by (cases "ag_privileged a1") auto
  show ?thesis
  proof (cases e)
    case (Some err)
    with assms(1) R have "a' = a1" "r = Some err" by (auto simp: flushReceipts_def)
    with 1 show ?thesis by (auto simp: only_queued_def)
  next
    case None
    have q: "rt_receipts (ag_runtime a1) = []" if "[] \<notin> set (rt_receipts (ag_runtime a))"
      using 1(4,6) None that by (cases "rt_receipts (ag_runtime a1)") (auto simp: rt_Receipt_def)
    obtain first s2 d2 where F: "flush_entries w (Outbox (ps_state s1)) None s1 (ag_disk a1) = (first, s2, d2)" by (metis prod_cases3)
    with assms(1) R None 1(1) have a': "a' = a1\<lparr>ag_privileged := Some s2, ag_disk := d2\<rparr>" "r = first" by (auto simp: flushReceipts_def)
    have "distinct (map rc_ID (Outbox (ps_state s1)))" using 1(2) assms(3) by (simp add: only_queued_def)
    from flush_entries_keeps [OF F this order_refl this order_refl] 1(2)
    have k: "Active (ps_state s2) = Active (ps_state s)"
      "\<forall>x \<in> set (Outbox (ps_state s)). x \<in> set (Outbox (ps_state s2)) \<or> (\<exists>why. entry_outcome w x = Finish why)"
      "first = None \<longrightarrow> (\<forall>x \<in> set (Outbox (ps_state s)). \<exists>why. entry_outcome w x = Finish why)"
      by (auto simp: only_queued_def subset_iff)
    have "Outbox (ps_state s2) = []" if "first = None"
    proof -
      have "set (Outbox (ps_state s2)) \<subseteq> {y \<in> set (Outbox (ps_state s1)). rc_ID y \<notin> rc_ID ` set (Outbox (ps_state s1))}"
        using F that by (intro flush_entries_removes) simp
      then have "x \<notin> set (Outbox (ps_state s2))" for x by blast
      then show ?thesis by (metis list.set_intros(1) neq_Nil_conv)
    qed
    with k q 1(3-5) a' show ?thesis by auto
  qed
qed

theorem flush_keeps_receipts_witness:
  "\<exists>r a' s'. flushReceipts sample_world (sample_agent\<lparr>ag_privileged := Some (empty_store\<lparr>ps_state := State_zero\<lparr>Outbox := [sample_receipt]\<rparr>\<rparr>)\<rparr>) = (r, a') \<and>
     ag_privileged a' = Some s' \<and> sample_receipt \<in> set (Outbox (ps_state s')) \<and> r \<noteq> None \<and>
   (\<exists>b t. flushReceipts sample_world (sample_agent\<lparr>ag_privileged := Some (empty_store\<lparr>ps_state := State_zero\<lparr>Outbox := [sample_receipt\<lparr>rc_Kind := ''runtime''\<rparr>]\<rparr>\<rparr>)\<rparr>) = (None, b) \<and>
     ag_privileged b = Some t \<and> Outbox (ps_state t) = [])"
proof -
  let ?s = "empty_store\<lparr>ps_state := State_zero\<lparr>Outbox := [sample_receipt]\<rparr>\<rparr>"
  let ?t = "empty_store\<lparr>ps_state := State_zero\<lparr>Outbox := [sample_receipt\<lparr>rc_Kind := ''runtime''\<rparr>]\<rparr>\<rparr>"
  obtain r a' where F: "flushReceipts sample_world (sample_agent\<lparr>ag_privileged := Some ?s\<rparr>) = (r, a')" by force
  have "\<nexists>why. entry_outcome sample_world sample_receipt = Finish why"
    by (simp add: entry_outcome_def sample_receipt_def refused_def local_error_def CodeOf_def)
  with flush_keeps_receipts [OF F, of ?s]
  have waits: "\<exists>s'. ag_privileged a' = Some s' \<and> sample_receipt \<in> set (Outbox (ps_state s')) \<and> r \<noteq> None" by auto
  have "entry_outcome sample_world (sample_receipt\<lparr>rc_Kind := ''runtime''\<rparr>) = Finish []"
    by (simp add: entry_outcome_def sample_receipt_def sample_world_def)
  moreover have "\<exists>s1 d1. priv_do sample_world ''r1'' (FinishReceipt ''r1'' []) ?t Map.empty = (Inr (), s1, d1)"
    by (simp add: priv_do_def priv_apply_def priv_exec_def FinishReceipt_plan_def priv_commit_def empty_store_def sample_world_def
        quiet_env_def read_file_def run_deferred_def priv_pre_def priv_post_def op_fails_def Let_def split: prod.split)
  moreover have "flush_runtime sample_world (sample_agent\<lparr>ag_privileged := Some ?t\<rparr>) = (None, sample_agent\<lparr>ag_privileged := Some ?t\<rparr>)"
    by (simp add: flush_runtime.simps flush_round_def rt_Receipt_def sample_agent_def sample_rt_def)
  moreover have "rc_ID (sample_receipt\<lparr>rc_Kind := ''runtime''\<rparr>) = ''r1''" "ag_disk sample_agent = Map.empty"
    by (simp_all add: sample_receipt_def sample_agent_def)
  ultimately obtain b where G: "flushReceipts sample_world (sample_agent\<lparr>ag_privileged := Some ?t\<rparr>) = (None, b)"
    by (auto simp: flushReceipts_def)
  with flush_keeps_receipts [OF G, of ?t] waits F show ?thesis by fastforce
qed

text \<open>
  C24: a flush ends with an empty queue. When the panel accepts the acknowledgements and the disk does
  not fail, the loop over the runtime receipts returns success, with every receipt sent and none left,
  whatever their number, and without touching the privileged store.
\<close>

theorem flush_runtime_drains:
  assumes "calm w (rt_path (ag_runtime a))" "ag_runtimeDisk a (rt_path (ag_runtime a)) \<noteq> Some Other"
    and "\<forall>p \<in> set (rt_receipts (ag_runtime a)). p \<noteq> [] \<and> accepts w p"
  shows "\<exists>a'. flush_runtime w a = (None, a') \<and> rt_receipts (ag_runtime a') = [] \<and> ag_privileged a' = ag_privileged a"
  using assms by (rule flush_runtime_sent)

theorem flush_runtime_drains_witness:
  "\<exists>a'. flush_runtime sample_world (sample_agent\<lparr>ag_runtime := sample_rt\<lparr>rt_receipts := [''x'', ''y'', ''z'']\<rparr>\<rparr>) = (None, a') \<and>
     rt_receipts (ag_runtime a') = []"
proof -
  let ?a = "sample_agent\<lparr>ag_runtime := sample_rt\<lparr>rt_receipts := [''x'', ''y'', ''z'']\<rparr>\<rparr>"
  have "calm sample_world (rt_path (ag_runtime ?a))" "ag_runtimeDisk ?a (rt_path (ag_runtime ?a)) \<noteq> Some Other"
    using sample_world_calm by (simp_all add: sample_agent_def sample_rt_def)
  from flush_runtime_drains [OF this] sample_world_accepts show ?thesis by auto
qed

text \<open>
  C25: a synchronisation that succeeds has been answered. When \<open>SyncConfig\<close> reports success for a
  configuration the panel delivered, an answer to that configuration was queued and then settled with
  the panel, nothing is left in the queue, and the answer is the truth: APPLIED with the delivered
  revision in force, or REJECTED with the former configuration unchanged. A process that has not yet
  synchronised asks with revision zero, so that it answers again after a restart.
\<close>

theorem SyncConfig_answers:
  assumes S: "SyncConfig w fetch agentID k reconciled a = (None, reconciled', a')"
    and D: "fetch (if reconciled then sn_Revision (rt_current (ag_runtime a)) else 0) = Inr (Some dc)"
    and ne: "\<forall>m. wl_pm_ack w m \<noteq> Some []" "[] \<notin> set (rt_receipts (ag_runtime a))"
  shows "reconciled' \<and> rt_receipts (ag_runtime a') = [] \<and>
    (\<exists>p. settled w p \<and> answers w agentID dc (rt_current (ag_runtime a)) (rt_current (ag_runtime a')) p)"
proof -
  from S D obtain a1 where 1: "queue_answer w agentID k dc a = (None, a1)" "flushReceipts w a1 = (None, a')" "reconciled'"
    by (auto simp: SyncConfig_def applyDesiredConfig_def Let_def split: prod.splits option.splits if_splits)
  from queue_answer_None [OF 1(1) ne(1)] obtain p where p: "rt_receipts (ag_runtime a1) = rt_receipts (ag_runtime a) @ [p]" "p \<noteq> []"
    "answers w agentID dc (rt_current (ag_runtime a)) (rt_current (ag_runtime a1)) p" .
  from 1(2) obtain a2 where R: "flush_runtime w a1 = (None, a2)" "ag_runtime a' = ag_runtime a2"
    by (auto simp: flushReceipts_def split: prod.splits option.splits)
  from flush_runtime_keeps [OF R(1)] obtain sent where sent: "rt_current (ag_runtime a2) = rt_current (ag_runtime a1)"
    "rt_receipts (ag_runtime a1) = sent @ rt_receipts (ag_runtime a2)" "\<forall>q \<in> set sent. settled w q" "rt_Receipt (ag_runtime a2) = []" by blast
  have "rt_receipts (ag_runtime a2) = []"
  proof (cases "rt_receipts (ag_runtime a2)")
    case (Cons q qs)
    with sent(4) have "[] \<in> set (rt_receipts (ag_runtime a1))" unfolding sent(2) by (simp add: rt_Receipt_def)
    with p(1,2) ne(2) show ?thesis by simp
  qed simp
  with sent(2,3) p(1) have "settled w p" by auto
  with p(3) sent(1) R(2) \<open>rt_receipts (ag_runtime a2) = []\<close> 1(3) show ?thesis by auto
qed

theorem SyncConfig_answers_witness:
  "\<exists>a'. SyncConfig sample_world (\<lambda>_. Inr (Some sample_desired)) ''a1'' ''k'' False sample_agent = (None, True, a') \<and>
     (\<exists>p. settled sample_world p \<and> answers sample_world ''a1'' sample_desired sample_snapshot (rt_current (ag_runtime a')) p)"
proof -
  obtain a1 where q: "queue_answer sample_world ''a1'' ''k'' sample_desired sample_agent = (None, a1)"
    "rt_path (ag_runtime a1) = ''r''" "rt_receipts (ag_runtime a1) = [''ok'']" "ag_runtimeDisk a1 ''r'' \<noteq> Some Other"
    "ag_privileged a1 = Some empty_store"
    by (simp add: queue_answer_def sample_world_def sample_agent_def rt_eval)
  obtain a2 where r: "flush_runtime sample_world a1 = (None, a2)" "ag_privileged a2 = Some empty_store"
    using flush_runtime_sent [of sample_world a1] sample_world_calm sample_world_accepts q by auto
  have e: "flush_entries sample_world (Outbox (ps_state empty_store)) None empty_store (ag_disk a2) = (None, empty_store, ag_disk a2)"
    by (simp add: empty_store_def State_zero_def)
  obtain a' where S: "SyncConfig sample_world (\<lambda>_. Inr (Some sample_desired)) ''a1'' ''k'' False sample_agent = (None, True, a')"
    using q(1) r e by (simp add: SyncConfig_def applyDesiredConfig_def flushReceipts_def)
  from SyncConfig_answers [OF S] have "\<exists>p. settled sample_world p \<and> answers sample_world ''a1'' sample_desired
      (rt_current (ag_runtime sample_agent)) (rt_current (ag_runtime a')) p"
    by (simp add: sample_world_def sample_agent_def sample_rt_def)
  with S show ?thesis by (simp add: sample_agent_def sample_rt_def)
qed

end
