(* ===== verification/HostApply.thy ===== *)
theory HostApply
  imports Delivery
begin

text \<open>
  How the client acts on a privileged revision (\<open>clientcore/privileged_apply.go\<close>, the host part of
  \<open>baseline.go\<close> and \<open>host_applied.go\<close>): the signature is checked, the revision recorded as pending, the
  approval read again online and compared, the local policy consulted, and only then the settings are
  handed to the store, together with the receipt that reports them.
\<close>

section \<open>What the client sees besides its stores\<close>

text \<open>
  The enrolled identity, the policy loaded at start, the two RPCs that read the current state, and the
  status of the rescue helper. \<open>hv_ed\<close>, \<open>hv_unm\<close> and \<open>hv_pm_op\<close> are Ed25519 and the codecs of signed
  instructions and host operations; \<open>hv_uuid\<close> is the identifier the next receipt gets.
\<close>

record host_view =
  hv_ed :: "bytes \<Rightarrow> bytes \<Rightarrow> bytes \<Rightarrow> bool"
  hv_unm :: "bytes \<Rightarrow> SignedInstruction option"
  hv_pm_op :: "HostOperation \<Rightarrow> bytes option"
  hv_now :: gotime
  hv_identity :: "Identity option"
  hv_agentID :: string
  hv_hostPolicy :: "HostPolicy option"
  hv_helper :: "helper_error + HelperStatus"
  hv_GetPrivilegedDelivery :: "go_error + PrivilegedRevision option"
  hv_GetHostOperation :: "string \<Rightarrow> go_error + HostOperation option"
  hv_uuid :: string

definition service_name :: "('r, 'c, 'h) world \<Rightarrow> string" where
  "service_name w = (case wl_manifest w of None \<Rightarrow> [] | Some m \<Rightarrow> ServiceName m)"

definition localBaseline :: "bool \<Rightarrow> HostPolicy \<Rightarrow> Settings" where
  "localBaseline disableRemote p =
     (let remote = BaselineRemoteControl p \<and> \<not> ForceDenyRemoteControl p \<and> AllowRemoteControl p \<and> \<not> disableRemote in
      \<lparr>RequiredPrivilegeMode = hp_PrivilegeMode p, RemoteControlEnabled = remote,
       WebSSHEnabled = remote \<and> BaselineWebSSH p \<and> AllowWebSSH p,
       ExecutionEnabled = remote \<and> BaselineExecution p \<and> AllowExecution p,
       EnableGPU = BaselineGPU p \<and> AllowGPU p, RescueHelperEnabled = False\<rparr>)"

section \<open>Signatures\<close>

definition verifyV2Revision :: "('r, 'c, 'h) world \<Rightarrow> host_view \<Rightarrow> PrivilegedRevision option \<Rightarrow> go_error option" where
  "verifyV2Revision w h revision =
     (case hv_identity h of
        None \<Rightarrow> Some (local_error ''enrolled signing identity required'')
      | Some identity \<Rightarrow>
          (case (revision, verify_plain (hv_ed h) (hv_unm h) (hv_now h) (New identity None) (Option.bind revision pr_Signature)) of
             (Some r, Inr verified) \<Rightarrow>
               if pr_ProtocolVersion r \<noteq> 2 \<or> in_InstructionType verified \<noteq> revision_kind
               then Some (local_error ''v2 signed privileged revision required'')
               else (case wl_pm w (r\<lparr>pr_Signature := None\<rparr>) of
                       None \<Rightarrow> Some (local_error ''marshal'')
                     | Some body \<Rightarrow>
                         if in_Body verified \<noteq> body \<or> pr_AgentId r \<noteq> AgentID identity \<or> pr_Unknown r \<noteq> []
                         then Some (local_error ''signed revision body or agent binding mismatch'')
                         else (case pr_Privileged r of
                                 None \<Rightarrow> Some (local_error ''privileged settings hash or schema mismatch'')
                               | Some p \<Rightarrow>
                                   if pc_Unknown p \<noteq> [] \<or> pr_ConfigHash r \<noteq> Hash (wl_sha w) (settingsFromProto (Some p))
                                   then Some (local_error ''privileged settings hash or schema mismatch'')
                                   else None))
           | _ \<Rightarrow> Some (local_error ''signature refused'')))"

text \<open>
  The check at start, when the installation has a protected trust pin: the settings in force are those
  of the recorded signed revision.
\<close>

definition validatePersistedPrivileged :: "('r, 'c, 'h) world \<Rightarrow> host_view \<Rightarrow> 'h priv_store option \<Rightarrow> go_error option" where
  "validatePersistedPrivileged w h store =
     (case store of
        None \<Rightarrow> None
      | Some s \<Rightarrow>
          (let state = ps_state s in
           if AppliedRevision state = 0 then
             (if Active state \<noteq> Settings_zero
              then Some (local_error ''unsigned non-empty privileged state cannot enter a trusted host profile'') else None)
           else case (wl_unm_revision w (ActiveSignedRevision state), hv_identity h) of
             (None, _) \<Rightarrow> Some (local_error ''unmarshal'')
           | (_, None) \<Rightarrow> Some (local_error ''protected signing identity unavailable'')
           | (Some r, Some identity) \<Rightarrow>
               (case VerifyRecorded (hv_ed h) (hv_unm h) (New identity None) (pr_Signature r) of
                  Inl _ \<Rightarrow> Some (local_error ''signature refused'')
                | Inr i \<Rightarrow>
                    (case wl_pm w (r\<lparr>pr_Signature := None\<rparr>) of
                       None \<Rightarrow> Some (local_error ''marshal'')
                     | Some body \<Rightarrow>
                         if in_InstructionType i \<noteq> revision_kind \<or> in_Body i \<noteq> body \<or> pr_AgentId r \<noteq> AgentID identity \<or>
                            (case pr_Authorization r of None \<Rightarrow> [] | Some a \<Rightarrow> ha_ServiceId a) \<noteq> service_name w \<or>
                            pr_Revision r \<noteq> AppliedRevision state \<or>
                            pr_ConfigHash r \<noteq> Hash (wl_sha w) (settingsFromProto (pr_Privileged r)) \<or>
                            \<not> Subset (Active state) (settingsFromProto (pr_Privileged r))
                         then Some (local_error ''persisted active privileges do not match the protected signed snapshot'')
                         else None))))"

section \<open>Reports\<close>

text \<open>A delivery report without observation or error, and the receipt that carries a report.\<close>

definition plain_report :: "host_view \<Rightarrow> PrivilegedRevision \<Rightarrow> delivery_state \<Rightarrow> string \<Rightarrow> delivery_report" where
  "plain_report h r state rid =
     \<lparr>dr_AgentId = hv_agentID h, dr_Revision = pr_Revision r, dr_State = state, dr_ProtocolVersion = 2, dr_ReceiptId = rid,
      dr_ConfigHash = [], dr_ApprovalGeneration = 0, dr_Observation = None, dr_Error = None\<rparr>"

definition privileged_receipt :: "string \<Rightarrow> bytes \<Rightarrow> Receipt" where
  "privileged_receipt rid payload = \<lparr>rc_ID = rid, rc_Kind = ''privileged'', rc_Payload = payload, rc_Rejected = []\<rparr>"

text \<open>An operation of the privileged store on the agent; the callers have a store.\<close>

definition on_store ::
  "('r, 'c, 'h) world \<Rightarrow> string \<Rightarrow> priv_op \<Rightarrow> ('r, 'c, 'h) agent \<Rightarrow> go_error option \<times> ('r, 'c, 'h) agent" where
  "on_store w k oper a =
     (case ag_privileged a of
        None \<Rightarrow> (Some store_error, a)
      | Some s \<Rightarrow>
          (case priv_do w k oper s (ag_disk a) of
             (Inl _, s', d') \<Rightarrow> (Some store_error, a\<lparr>ag_privileged := Some s', ag_disk := d'\<rparr>)
           | (Inr _, s', d') \<Rightarrow> (None, a\<lparr>ag_privileged := Some s', ag_disk := d'\<rparr>)))"

text \<open>The common end of the handlers: queue or apply, then flush.\<close>

definition store_then_flush ::
  "('r, 'c, 'h) world \<Rightarrow> string \<Rightarrow> priv_op \<Rightarrow> ('r, 'c, 'h) agent \<Rightarrow> go_error option \<times> ('r, 'c, 'h) agent" where
  "store_then_flush w k oper a =
     (case on_store w k oper a of
        (Some err, a1) \<Rightarrow> (Some err, a1)
      | (None, a1) \<Rightarrow> flushReceipts w a1)"

definition failPrivileged ::
  "('r, 'c, 'h) world \<Rightarrow> host_view \<Rightarrow> PrivilegedRevision \<Rightarrow> go_error \<Rightarrow> ('r, 'c, 'h) agent \<Rightarrow> go_error option \<times> ('r, 'c, 'h) agent" where
  "failPrivileged w h r cause a =
     (let rid = hv_uuid h;
          message = (plain_report h r FAILED rid)\<lparr>dr_ConfigHash := pr_ConfigHash r,
            dr_ApprovalGeneration := pr_ApprovalGeneration r, dr_Error := Some (er_Message cause)\<rparr> in
      case wl_pm_report w message of
        None \<Rightarrow> (Some (local_error ''marshal''), a)
      | Some payload \<Rightarrow>
          (case store_then_flush w rid (Enqueue (privileged_receipt rid payload)) a of
             (Some err, a1) \<Rightarrow> (Some err, a1)
           | (None, a1) \<Rightarrow> (Some cause, a1)))"

text \<open>What the client reports to be in force under \<open>settings\<close>.\<close>

definition reported :: "Settings \<Rightarrow> bool \<Rightarrow> effective_capabilities" where
  "reported settings detailedGPU =
     \<lparr>cap_RemoteControl = RemoteControlEnabled settings,
      cap_Webssh = RemoteControlEnabled settings \<and> WebSSHEnabled settings,
      cap_Execution = RemoteControlEnabled settings \<and> ExecutionEnabled settings,
      cap_Gpu = EnableGPU settings, cap_DetailedGpu = EnableGPU settings \<and> detailedGPU,
      cap_RescueHelper = RescueHelperEnabled settings\<rparr>"

definition observed ::
  "('r, 'c, 'h) world \<Rightarrow> PrivilegedRevision \<Rightarrow> Settings \<Rightarrow> ('r, 'c, 'h) agent \<Rightarrow> bool \<Rightarrow> bool \<Rightarrow> bool \<Rightarrow> string \<Rightarrow> observation" where
  "observed w r settings a installed running authorized operation =
     \<lparr>ob_Revision = pr_Revision r, ob_ConfigHash = pr_ConfigHash r, ob_ApprovalGeneration = pr_ApprovalGeneration r,
      ob_ServiceId = service_name w, ob_PrivilegeMode = wl_mode w,
      ob_Capabilities = reported settings (DetailedGPU (rt_current (ag_runtime a))),
      ob_OperationId = operation, ob_HelperInstalled = installed, ob_HelperRunning = running,
      ob_HelperAuthorized = authorized, ob_HelperLeaseReady = running \<and> authorized\<rparr>"

section \<open>The installation baseline\<close>

definition deny_only :: "mode \<Rightarrow> Settings" where
  "deny_only actual = Settings_zero\<lparr>RequiredPrivilegeMode := actual\<rparr>"

text \<open>The binding of a baseline, checked after its signature.\<close>

definition baseline_bound :: "('r, 'c, 'h) world \<Rightarrow> host_view \<Rightarrow> PrivilegedRevision \<Rightarrow> bool" where
  "baseline_bound w h r =
     (case pr_Authorization r of
        None \<Rightarrow> False
      | Some a \<Rightarrow> ha_ServiceId a = service_name w \<and> ha_AgentId a = hv_agentID h \<and> ha_Revision a = 1 \<and>
          ha_ConfigHash a = pr_ConfigHash r \<and> ha_ApprovalGeneration a = 1 \<and> ha_TargetPrivilegeMode a = wl_mode w)"

definition acceptBaseline ::
  "('r, 'c, 'h) world \<Rightarrow> host_view \<Rightarrow> PrivilegedRevision option \<Rightarrow> ('r, 'c, 'h) agent \<Rightarrow> go_error option \<times> ('r, 'c, 'h) agent" where
  "acceptBaseline w h revision a =
     (case (wl_manifest w, hv_hostPolicy h, ag_privileged a) of
        (Some m, Some p, Some s) \<Rightarrow>
          if AppliedRevision (ps_state s) \<ge> 1 then flushReceipts w a
          else (case (verifyV2Revision w h revision, revision) of
            (None, Some r) \<Rightarrow>
              (let local = (if settingsFromProto (pr_Privileged r) = deny_only (wl_mode w) then deny_only (wl_mode w)
                     else localBaseline (wl_disableRemote w) p) in
               if \<not> baseline_bound w h r then (Some (local_error ''baseline authorization binding mismatch''), a)
               else
                 (let rid = hv_uuid h; first = r\<lparr>pr_Revision := 1, pr_ApprovalGeneration := 1\<rparr>;
                      message = (plain_report h first DELIVERED rid)\<lparr>dr_ConfigHash := pr_ConfigHash r, dr_ApprovalGeneration := 1,
                        dr_Observation := Some (observed w first local a False False False [])\<rparr> in
                  case wl_pm_report w message of
                    None \<Rightarrow> (Some (local_error ''marshal''), a)
                  | Some payload \<Rightarrow>
                      store_then_flush w rid (AdoptBaseline (Some r) local (wl_mode w) (privileged_receipt rid payload)) a))
          | (Some err, _) \<Rightarrow> (Some err, a)
          | _ \<Rightarrow> (Some (local_error ''signature refused''), a))
      | _ \<Rightarrow> (Some (local_error ''protected local installation policy is required''), a))"

section \<open>Host operations\<close>

text \<open>
  The signed, locally applied host operation that backs a revision in state \<open>APPLYING\<close>: the record the
  root tool left must carry the authorization of the revision, and the panel must still have the operation.
\<close>

definition checkedHostOperation ::
  "('r, 'c, 'h) world \<Rightarrow> host_view \<Rightarrow> PrivilegedRevision \<Rightarrow> go_error + HostOperation" where
  "checkedHostOperation w h r =
     (case (wl_hostTrust w, wl_applied w) of
        (None, _) \<Rightarrow> Inl (local_error ''protected host trust required'')
      | (_, AppliedMissing) \<Rightarrow> Inl (local_error ''no record'')
      | (_, AppliedUnreadable err) \<Rightarrow> Inl err
      | (Some trust, Applied record) \<Rightarrow>
          (case (wl_unm_revision w (ar_Revision record), wl_unm_operation w (ar_Operation record)) of
             (Some local, Some original) \<Rightarrow>
               if ar_Version record \<noteq> 2 \<or> pr_Authorization local \<noteq> pr_Authorization r \<or>
                  ho_Authorization original \<noteq> pr_Authorization r \<or> ho_OperationId original = []
               then Inl (local_error ''protected host record differs from current approval'')
               else (case hv_GetHostOperation h (ho_OperationId original) of
                       Inl err \<Rightarrow> Inl err
                     | Inr oper \<Rightarrow>
                         (case (VerifyOperation (hv_ed h) (hv_unm h) (hv_pm_op h) (hv_now h) trust oper (pr_Authorization r)
                                  (ho_OperationId original), oper) of
                            (None, Some op') \<Rightarrow>
                              if ho_Phase op' \<noteq> PHASE_LOCAL_APPLIED
                              then Inl (local_error ''host result has not been recorded as locally applied'') else Inr op'
                          | _ \<Rightarrow> Inl (local_error ''operation refused'')))
           | _ \<Rightarrow> Inl (local_error ''unmarshal'')))"

section \<open>Privileged revisions\<close>

text \<open>The text of an approval error, as it is reported to the panel.\<close>

definition approval_text :: "priv_error \<Rightarrow> string" where
  "approval_text err =
     (case err of
        ApprovalRequired \<Rightarrow> ''current signed v2 same-identity approval required''
      | ApprovalBindingMismatch \<Rightarrow> ''approval binding, actions or daemon identity mismatch''
      | ApprovalExpired \<Rightarrow> ''approval is expired or has invalid timestamps''
      | ApprovalHashMismatch \<Rightarrow> ''approval settings hash mismatch''
      | _ \<Rightarrow> ''daemon identity differs from approval'')"

text \<open>The rescue helper, as observed when the settings enable it: whether it runs and is authorized.\<close>

definition helper_observation :: "host_view \<Rightarrow> HostPolicy \<Rightarrow> Settings \<Rightarrow> go_error + (bool \<times> bool \<times> bool)" where
  "helper_observation h policy settings =
     (if \<not> RescueHelperEnabled settings then Inr (False, False, False)
      else case hv_helper h of
        Inl _ \<Rightarrow> Inl (local_error ''helper observation failed'')
      | Inr status \<Rightarrow>
          if \<not> hs_Authorized status \<or> \<not> hs_LeaseReady status
          then Inl (local_error ''approved helper has not reached verified running/authorized/lease-ready status'')
          else Inr (HelperInstalled policy, True, HelperAuthorized policy))"

text \<open>The last part: local denials, the protected policy, the helper, and the store.\<close>

definition grant ::
  "('r, 'c, 'h) world \<Rightarrow> host_view \<Rightarrow> HostPolicy \<Rightarrow> PrivilegedRevision \<Rightarrow> HostOperation option \<Rightarrow> ('r, 'c, 'h) agent \<Rightarrow>
     go_error option \<times> ('r, 'c, 'h) agent" where
  "grant w h policy r operation a =
     (let settings = settingsFromProto (pr_Privileged r) in
      if wl_disableRemote w \<and> RemoteControlEnabled settings
      then failPrivileged w h r (local_error ''approved settings blocked by explicit local remote-control deny'') a
      else if \<not> PolicyAllows settings (Some policy)
      then failPrivileged w h r (local_error ''approved settings exceed protected local policy'') a
      else case helper_observation h policy settings of
        Inl err \<Rightarrow> (Some err, a)
      | Inr (installed, running, authorized) \<Rightarrow>
          (let rid = hv_uuid h;
               message = (plain_report h r DELIVERED rid)\<lparr>dr_ConfigHash := pr_ConfigHash r,
                 dr_ApprovalGeneration := pr_ApprovalGeneration r,
                 dr_Observation := Some (observed w r settings a installed running authorized
                   (case operation of None \<Rightarrow> [] | Some op' \<Rightarrow> ho_OperationId op'))\<rparr> in
           case wl_pm_report w message of
             None \<Rightarrow> (Some (local_error ''marshal''), a)
           | Some payload \<Rightarrow>
               store_then_flush w rid
                 (case operation of
                    None \<Rightarrow> ApplyApproved (Some r) (wl_mode w) (privileged_receipt rid payload)
                  | Some op' \<Rightarrow> ApplyHostApproved (Some r) (Some op') (wl_mode w) (privileged_receipt rid payload)) a))"

text \<open>The current approval, read online and compared with the candidate.\<close>

definition confirm :: "('r, 'c, 'h) world \<Rightarrow> host_view \<Rightarrow> PrivilegedRevision \<Rightarrow> go_error + PrivilegedRevision" where
  "confirm w h r =
     (case hv_GetPrivilegedDelivery h of
        Inl err \<Rightarrow> Inl err
      | Inr current \<Rightarrow>
          (case (verifyV2Revision w h current, current) of
             (None, Some c) \<Rightarrow>
               if pr_Revision c \<noteq> pr_Revision r \<or> pr_ConfigHash c \<noteq> pr_ConfigHash r \<or>
                  pr_ApprovalGeneration c \<noteq> pr_ApprovalGeneration r \<or> pr_State c \<noteq> pr_State r \<or>
                  pr_UpdateSequence c < pr_UpdateSequence r \<or> pr_Authorization c \<noteq> pr_Authorization r
               then Inl (local_error ''approval changed before daemon apply'')
               else Inr c
           | (Some err, _) \<Rightarrow> Inl err
           | _ \<Rightarrow> Inl (local_error ''signature refused'')))"

definition apply_confirmed ::
  "('r, 'c, 'h) world \<Rightarrow> host_view \<Rightarrow> PrivilegedRevision \<Rightarrow> ('r, 'c, 'h) agent \<Rightarrow> go_error option \<times> ('r, 'c, 'h) agent" where
  "apply_confirmed w h r a =
     (if wl_manifest w = None
      then failPrivileged w h r (local_error ''trusted installation manifest required; migrate this service'') a
      else case wl_policy w of
        Inl _ \<Rightarrow> failPrivileged w h r (local_error ''policy'') a
      | Inr policy \<Rightarrow>
          if pr_State r = APPLYING
          then (case checkedHostOperation w h r of
                  Inl err \<Rightarrow> (Some err, a)
                | Inr oper \<Rightarrow> grant w h policy r (Some oper) a)
          else (case ValidateApproval (wl_sha w) (hv_now h) (Some r) (hv_agentID h) (service_name w) (wl_mode w) of
                  Some err \<Rightarrow> failPrivileged w h r (local_error (approval_text err)) a
                | None \<Rightarrow> grant w h policy r None a))"

text \<open>
  The first part: record the revision as pending and queue the receipt that says it was received. It
  changes no setting in force.
\<close>

definition receive_revision ::
  "('r, 'c, 'h) world \<Rightarrow> host_view \<Rightarrow> PrivilegedRevision \<Rightarrow> ('r, 'c, 'h) agent \<Rightarrow> go_error option \<times> ('r, 'c, 'h) agent" where
  "receive_revision w h r a =
     (case on_store w ''pending'' (RecordPending (Some r)) a of
        (Some err, a1) \<Rightarrow> (Some err, a1)
      | (None, a1) \<Rightarrow>
          if pr_ReceivedAt r \<noteq> TsAbsent then (None, a1)
          else
            (let rid = ''received-'' @ nat_digits (unat (pr_Revision r)) in
             case wl_pm_report w (plain_report h r NEEDS_CONFIRMATION rid) of
               None \<Rightarrow> (Some (local_error ''marshal''), a1)
             | Some payload \<Rightarrow> on_store w rid (Enqueue (privileged_receipt rid payload)) a1))"

definition recordPrivilegedRevision ::
  "('r, 'c, 'h) world \<Rightarrow> host_view \<Rightarrow> PrivilegedRevision option \<Rightarrow> ('r, 'c, 'h) agent \<Rightarrow>
     go_error option \<times> ('r, 'c, 'h) agent" where
  "recordPrivilegedRevision w h revision a =
     (case (verifyV2Revision w h revision, revision, ag_privileged a) of
        (None, Some r, Some s) \<Rightarrow>
          if pr_InstallationBaseline r then acceptBaseline w h (Some r) a
          else if pr_Revision r \<le> AppliedRevision (ps_state s) then flushReceipts w a
          else if pr_UpdateSequence r < LastSequence (ps_state s) then (Some (local_error ''stale signed update sequence''), a)
          else (case receive_revision w h r a of
                  (Some err, a1) \<Rightarrow> (Some err, a1)
                | (None, a1) \<Rightarrow>
                    if pr_State r \<notin> {AWAITING_AGENT, APPLYING} then flushReceipts w a1
                    else (case confirm w h r of
                            Inl err \<Rightarrow> (Some err, a1)
                          | Inr current \<Rightarrow> apply_confirmed w h current a1))
      | (Some err, _, _) \<Rightarrow> (Some err, a)
      | _ \<Rightarrow> (Some store_error, a))"

text \<open>
  After a restart, or when the delivery stream was down while the root tool worked: a record of a newer
  revision makes the client read the current delivery.
\<close>

definition reconcileHostRecord ::
  "('r, 'c, 'h) world \<Rightarrow> host_view \<Rightarrow> ('r, 'c, 'h) agent \<Rightarrow> go_error option \<times> ('r, 'c, 'h) agent" where
  "reconcileHostRecord w h a =
     (case wl_applied w of
        AppliedMissing \<Rightarrow> (None, a)
      | AppliedUnreadable err \<Rightarrow> (Some err, a)
      | Applied record \<Rightarrow>
          (case (wl_unm_revision w (ar_Revision record), ag_privileged a) of
             (Some local, Some s) \<Rightarrow>
               if pr_Revision local \<le> AppliedRevision (ps_state s) then (None, a)
               else (case hv_GetPrivilegedDelivery h of
                       Inl err \<Rightarrow> (Some err, a)
                     | Inr revision \<Rightarrow> recordPrivilegedRevision w h revision a)
           | _ \<Rightarrow> (Some (local_error ''unmarshal''), a)))"

text \<open>One round of \<open>runReceiptOutbox\<close>, between two ticks.\<close>

definition outbox_round :: "('r, 'c, 'h) world \<Rightarrow> host_view \<Rightarrow> ('r, 'c, 'h) agent \<Rightarrow> ('r, 'c, 'h) agent" where
  "outbox_round w h a =
     (let a1 = snd (flushReceipts w a) in
      if wl_manifest w \<noteq> None \<and> wl_hostTrust w \<noteq> None then snd (reconcileHostRecord w h a1) else a1)"

section \<open>Facts\<close>

text \<open>The settings in force are kept.\<close>

definition keeps_active :: "('r, 'c, 'h) agent \<Rightarrow> ('r, 'c, 'h) agent \<Rightarrow> bool" where
  "keeps_active a a' \<longleftrightarrow>
     (\<forall>s. ag_privileged a = Some s \<longrightarrow> (\<exists>s'. ag_privileged a' = Some s' \<and> Active (ps_state s') = Active (ps_state s)))"

lemma keeps_active_refl [simp]: "keeps_active a a"
  by (simp add: keeps_active_def)

lemma keeps_active_trans [trans]: "keeps_active a b \<Longrightarrow> keeps_active b c \<Longrightarrow> keeps_active a c"
  unfolding keeps_active_def by metis

lemma flush_entries_active: "flush_entries w es first s d = (r, s', d') \<Longrightarrow> Active (ps_state s') = Active (ps_state s)"
proof (induction es arbitrary: first s d)
  case (Cons x es)
  show ?case
  proof (cases "entry_outcome w x")
    case (Finish why)
    obtain ok s1 d1 where p: "priv_do w (rc_ID x) (FinishReceipt (rc_ID x) why) s d = (ok, s1, d1)" by (metis prod_cases3)
    show ?thesis
    proof (cases ok)
      case (Inl e)
      with p Finish Cons.prems priv_do_Finish [OF p] show ?thesis by simp
    next
      case (Inr u)
      with p Finish Cons.prems have "flush_entries w es first s1 d1 = (r, s', d')" by simp
      from Cons.IH [OF this] priv_do_Finish [OF p] show ?thesis by simp
    qed
  next
    case (Wait e)
    with Cons.prems Cons.IH show ?thesis by simp
  qed
qed simp

lemma flushReceipts_active: "flushReceipts w a = (r, a') \<Longrightarrow> keeps_active a a'"
proof (unfold keeps_active_def, intro allI impI)
  fix s
  assume F: "flushReceipts w a = (r, a')" and s: "ag_privileged a = Some s"
  obtain e a1 where R: "flush_runtime w a = (e, a1)" by force
  from flush_runtime_keeps [OF R] s obtain s1 where 1: "ag_privileged a1 = Some s1" "Active (ps_state s1) = Active (ps_state s)"
    by (cases "ag_privileged a1") (auto simp: only_queued_def)
  obtain first s2 d2 where E: "flush_entries w (Outbox (ps_state s1)) None s1 (ag_disk a1) = (first, s2, d2)" by (metis prod_cases3)
  show "\<exists>s'. ag_privileged a' = Some s' \<and> Active (ps_state s') = Active (ps_state s)"
    using F R 1 E flush_entries_active [OF E] by (cases e) (auto simp: flushReceipts_def)
qed

text \<open>
  What an operation of the store does to the settings in force; a baseline is installed only when the local settings it is
  given are those of the revision.
\<close>

fun granted :: "priv_op \<Rightarrow> Settings option" where
  "granted (ApplyApproved (Some r) _ _) = Some (settingsFromProto (pr_Privileged r))"
| "granted (ApplyHostApproved (Some r) _ _ _) = Some (settingsFromProto (pr_Privileged r))"
| "granted (AdoptBaseline (Some r) settings _ _) = (if settings = settingsFromProto (pr_Privileged r) then Some settings else None)"
| "granted _ = None"

lemma plan_granted:
  assumes "priv_plan sha pm stamp now oper st = Next st'" "oper \<noteq> Rollback"
  shows "Active st' = Active st \<or> Some (Active st') = granted oper"
proof (cases oper)
  case (RecordPending r)
  with assms RecordPending_Next show ?thesis by fastforce
next
  case (ApplyApproved r m rc)
  with assms show ?thesis
    by (cases r) (auto simp: ApplyApproved_plan_def dest: commitApproved_Next split: option.splits)
next
  case (ApplyHostApproved r op m rc)
  with assms show ?thesis
    by (cases r) (auto simp: ApplyHostApproved_plan_def dest: commitApproved_Next split: option.splits if_splits)
qed (use assms in \<open>auto simp: plan_defs finish_loop_eq split: if_splits option.splits\<close>)

lemma on_store_active:
  assumes "on_store w k oper a = (r, a')" "ag_privileged a = Some s" "oper \<noteq> Rollback"
  obtains s' where "ag_privileged a' = Some s'" "Active (ps_state s') = Active (ps_state s) \<or> Some (Active (ps_state s')) = granted oper"
proof -
  obtain x s' d' where P: "priv_do w k oper s (ag_disk a) = (x, s', d')" by (metis prod_cases3)
  have "Active (ps_state s') = Active (ps_state s) \<or> Some (Active (ps_state s')) = granted oper"
    using P [unfolded priv_do_def] by (rule priv_apply_cases) (use plan_granted assms(3) in fastforce)+
  with that assms P show ?thesis by (cases x) (auto simp: on_store_def)
qed

lemma on_store_keeps: "on_store w k oper a = (r, a') \<Longrightarrow> oper \<noteq> Rollback \<Longrightarrow> granted oper = None \<Longrightarrow> keeps_active a a'"
  unfolding keeps_active_def by (metis on_store_active option.distinct(1))

lemma store_then_flush_active:
  assumes "store_then_flush w k oper a = (r, a')" "ag_privileged a = Some s" "oper \<noteq> Rollback"
  obtains s' where "ag_privileged a' = Some s'" "Active (ps_state s') = Active (ps_state s) \<or> Some (Active (ps_state s')) = granted oper"
proof -
  obtain e a1 where O: "on_store w k oper a = (e, a1)" by force
  from on_store_active [OF O assms(2,3)] obtain s1 where s1: "ag_privileged a1 = Some s1"
    "Active (ps_state s1) = Active (ps_state s) \<or> Some (Active (ps_state s1)) = granted oper" .
  have "keeps_active a1 a'"
    using assms(1) O by (cases e) (auto simp: store_then_flush_def intro: flushReceipts_active)
  with s1 that show ?thesis unfolding keeps_active_def by metis
qed

lemma store_then_flush_keeps:
  "store_then_flush w k oper a = (r, a') \<Longrightarrow> oper \<noteq> Rollback \<Longrightarrow> granted oper = None \<Longrightarrow> keeps_active a a'"
  unfolding keeps_active_def by (metis store_then_flush_active option.distinct(1))

lemma failPrivileged_keeps:
  assumes "failPrivileged w h r cause a = (e, a')"
  shows "keeps_active a a' \<and> e \<noteq> None"
proof -
  define m where "m = (plain_report h r FAILED (hv_uuid h))\<lparr>dr_ConfigHash := pr_ConfigHash r,
    dr_ApprovalGeneration := pr_ApprovalGeneration r, dr_Error := Some (er_Message cause)\<rparr>"
  note A = assms [unfolded failPrivileged_def Let_def, folded m_def]
  show ?thesis
  proof (cases "wl_pm_report w m")
    case None
    with A have "a' = a" "e = Some (local_error ''marshal'')" by (simp_all only: option.case prod.inject)
    then show ?thesis by simp
  next
    case (Some payload)
    obtain x a1 where S: "store_then_flush w (hv_uuid h) (Enqueue (privileged_receipt (hv_uuid h) payload)) a = (x, a1)" by force
    have "(case (x, a1) of (Some err, a1) \<Rightarrow> (Some err, a1) | (None, a1) \<Rightarrow> (Some cause, a1)) = (e, a')"
      using A unfolding Some option.case S .
    then have "a' = a1" "e \<noteq> None" by (cases x; auto)+
    with store_then_flush_keeps [OF S] show ?thesis by simp
  qed
qed

lemma receive_revision_keeps: "receive_revision w h r a = (e, a') \<Longrightarrow> keeps_active a a'"
proof -
  assume R: "receive_revision w h r a = (e, a')"
  obtain x a1 where 1: "on_store w ''pending'' (RecordPending (Some r)) a = (x, a1)" by force
  have k1: "keeps_active a a1" by (rule on_store_keeps [OF 1]) simp_all
  note A = R [unfolded receive_revision_def Let_def 1]
  define rid where "rid = ''received-'' @ nat_digits (unat (pr_Revision r))"
  have "keeps_active a1 a'"
  proof (cases "x = None \<and> pr_ReceivedAt r = TsAbsent")
    case True
    with A have B: "(case wl_pm_report w (plain_report h r NEEDS_CONFIRMATION rid) of
        None \<Rightarrow> (Some (local_error ''marshal''), a1)
      | Some payload \<Rightarrow> on_store w rid (Enqueue (privileged_receipt rid payload)) a1) = (e, a')"
      unfolding rid_def by simp
    show ?thesis
    proof (cases "wl_pm_report w (plain_report h r NEEDS_CONFIRMATION rid)")
      case (Some payload)
      with B have "on_store w rid (Enqueue (privileged_receipt rid payload)) a1 = (e, a')" by simp
      then show ?thesis by (rule on_store_keeps) simp_all
    qed (use B in simp)
  qed (use A in \<open>cases x; simp\<close>)
  with k1 show ?thesis by (rule keeps_active_trans)
qed

lemma confirm_Inr:
  assumes "confirm w h r = Inr c"
  shows "hv_GetPrivilegedDelivery h = Inr (Some c) \<and> verifyV2Revision w h (Some c) = None \<and> pr_Revision c = pr_Revision r \<and>
    pr_State c = pr_State r \<and> pr_Authorization c = pr_Authorization r \<and> pr_ConfigHash c = pr_ConfigHash r"
  using assms unfolding confirm_def by (auto split: sum.splits option.splits if_splits)

lemma grant_active:
  assumes "grant w h policy r oper a = (e, a')" "ag_privileged a = Some s"
  obtains s' where "ag_privileged a' = Some s'"
    "Active (ps_state s') = Active (ps_state s) \<or>
     Active (ps_state s') = settingsFromProto (pr_Privileged r) \<and> PolicyAllows (settingsFromProto (pr_Privileged r)) (Some policy) \<and>
       \<not> (wl_disableRemote w \<and> RemoteControlEnabled (settingsFromProto (pr_Privileged r)))"
proof -
  let ?set = "settingsFromProto (pr_Privileged r)"
  note A = assms(1) [unfolded grant_def Let_def]
  consider cause where "failPrivileged w h r cause a = (e, a')" | "a' = a"
    | op where "\<not> (wl_disableRemote w \<and> RemoteControlEnabled ?set)" "PolicyAllows ?set (Some policy)"
        "store_then_flush w (hv_uuid h) op a = (e, a')" "op \<noteq> Rollback" "granted op = Some ?set"
  proof (cases "wl_disableRemote w \<and> RemoteControlEnabled ?set \<or> \<not> PolicyAllows ?set (Some policy)")
    case True
    with A that(1) show ?thesis by (auto split: if_splits)
  next
    case False
    show ?thesis
    proof (cases "helper_observation h policy ?set")
      case (Inl err)
      with A False that(2) show ?thesis by auto
    next
      case (Inr obs)
      obtain i n u where "obs = (i, n, u)" by (metis prod_cases3)
      with A False Inr that(2,3) show ?thesis by (auto split: option.splits)
    qed
  qed
  then show ?thesis
  proof cases
    case (1 cause)
    with failPrivileged_keeps [OF 1] assms(2) that show ?thesis unfolding keeps_active_def by blast
  next
    case 2
    with assms(2) that show ?thesis by blast
  next
    case (3 op)
    from store_then_flush_active [OF 3(3) assms(2) 3(4)] 3(1,2,5) that show ?thesis by (metis option.inject)
  qed
qed

text \<open>What stands behind a change of the settings in force.\<close>

definition approved_online ::
  "('r, 'c, 'h) world \<Rightarrow> host_view \<Rightarrow> PrivilegedRevision \<Rightarrow> 'h priv_store \<Rightarrow> bool" where
  "approved_online w h r s \<longleftrightarrow>
     hv_GetPrivilegedDelivery h = Inr (Some r) \<and> verifyV2Revision w h (Some r) = None \<and>
     AppliedRevision (ps_state s) < pr_Revision r \<and>
     (\<exists>policy. wl_policy w = Inr policy \<and> PolicyAllows (settingsFromProto (pr_Privileged r)) (Some policy)) \<and>
     \<not> (wl_disableRemote w \<and> RemoteControlEnabled (settingsFromProto (pr_Privileged r))) \<and>
     (pr_State r = AWAITING_AGENT \<and>
        ValidateApproval (wl_sha w) (hv_now h) (Some r) (hv_agentID h) (service_name w) (wl_mode w) = None \<or>
      pr_State r = APPLYING \<and> (\<exists>op. checkedHostOperation w h r = Inr op))"

definition installed_baseline ::
  "('r, 'c, 'h) world \<Rightarrow> host_view \<Rightarrow> PrivilegedRevision \<Rightarrow> Settings \<Rightarrow> bool" where
  "installed_baseline w h r settings \<longleftrightarrow>
     pr_InstallationBaseline r \<and> verifyV2Revision w h (Some r) = None \<and> baseline_bound w h r \<and>
     settings = settingsFromProto (pr_Privileged r) \<and>
     (settings = deny_only (wl_mode w) \<or> (\<exists>p. hv_hostPolicy h = Some p \<and> settings = localBaseline (wl_disableRemote w) p))"

lemma apply_confirmed_active:
  assumes "apply_confirmed w h r a = (e, a')" "ag_privileged a = Some s" "pr_State r \<in> {AWAITING_AGENT, APPLYING}"
  obtains s' where "ag_privileged a' = Some s'"
    "Active (ps_state s') = Active (ps_state s) \<or>
     Active (ps_state s') = settingsFromProto (pr_Privileged r) \<and>
     (\<exists>policy. wl_policy w = Inr policy \<and> PolicyAllows (settingsFromProto (pr_Privileged r)) (Some policy)) \<and>
     \<not> (wl_disableRemote w \<and> RemoteControlEnabled (settingsFromProto (pr_Privileged r))) \<and>
     (pr_State r = AWAITING_AGENT \<and>
        ValidateApproval (wl_sha w) (hv_now h) (Some r) (hv_agentID h) (service_name w) (wl_mode w) = None \<or>
      pr_State r = APPLYING \<and> (\<exists>op. checkedHostOperation w h r = Inr op))"
proof -
  note A = assms(1) [unfolded apply_confirmed_def]
  consider cause where "failPrivileged w h r cause a = (e, a')" | "a' = a"
    | policy oper where "wl_policy w = Inr policy" "grant w h policy r oper a = (e, a')"
      "pr_State r = AWAITING_AGENT \<and> ValidateApproval (wl_sha w) (hv_now h) (Some r) (hv_agentID h) (service_name w) (wl_mode w) = None \<or>
       pr_State r = APPLYING \<and> (\<exists>op. checkedHostOperation w h r = Inr op)"
  proof (cases "wl_manifest w = None \<or> (\<exists>x. wl_policy w = Inl x)")
    case True
    with A that(1) show ?thesis by (auto split: if_splits sum.splits)
  next
    case False
    then obtain policy where P: "wl_policy w = Inr policy" "wl_manifest w \<noteq> None" by (cases "wl_policy w") auto
    show ?thesis
    proof (cases "pr_State r = APPLYING")
      case True
      with A P that(2,3) show ?thesis by (auto split: sum.splits)
    next
      case False
      with A P assms(3) that(1,3) show ?thesis by (auto split: option.splits)
    qed
  qed
  then show ?thesis
  proof cases
    case (1 cause)
    with failPrivileged_keeps [OF 1] assms(2) that show ?thesis unfolding keeps_active_def by blast
  next
    case 2
    with assms(2) that show ?thesis by blast
  next
    case (3 policy oper)
    from grant_active [OF 3(2) assms(2)] 3(1,3) that show ?thesis by metis
  qed
qed

lemma acceptBaseline_active:
  assumes "acceptBaseline w h (Some r) a = (e, a')" "ag_privileged a = Some s"
  obtains s' where "ag_privileged a' = Some s'"
    "Active (ps_state s') = Active (ps_state s) \<or>
     AppliedRevision (ps_state s) = 0 \<and> verifyV2Revision w h (Some r) = None \<and> baseline_bound w h r \<and>
       Active (ps_state s') = settingsFromProto (pr_Privileged r) \<and>
       (Active (ps_state s') = deny_only (wl_mode w) \<or>
        (\<exists>p. hv_hostPolicy h = Some p \<and> Active (ps_state s') = localBaseline (wl_disableRemote w) p))"
proof -
  note A = assms(1) [unfolded acceptBaseline_def]
  consider "keeps_active a a'"
    | p rc set where "hv_hostPolicy h = Some p" "\<not> AppliedRevision (ps_state s) \<ge> 1" "verifyV2Revision w h (Some r) = None" "baseline_bound w h r"
      "set = deny_only (wl_mode w) \<or> set = localBaseline (wl_disableRemote w) p"
      "store_then_flush w (hv_uuid h) (AdoptBaseline (Some r) set (wl_mode w) rc) a = (e, a')"
  proof (cases "wl_manifest w = None \<or> hv_hostPolicy h = None \<or> AppliedRevision (ps_state s) \<ge> 1 \<or> verifyV2Revision w h (Some r) \<noteq> None \<or> \<not> baseline_bound w h r")
    case True
    then have "keeps_active a a'"
      using A assms(2) by (auto simp: Let_def intro: flushReceipts_active split: option.splits if_splits)
    with that(1) show ?thesis .
  next
    case False
    then obtain m p where mp: "wl_manifest w = Some m" "hv_hostPolicy h = Some p" by auto
    define set where "set = (if settingsFromProto (pr_Privileged r) = deny_only (wl_mode w) then deny_only (wl_mode w)
      else localBaseline (wl_disableRemote w) p)"
    define message where "message = (let first = r\<lparr>pr_Revision := 1, pr_ApprovalGeneration := 1\<rparr> in
      (plain_report h first DELIVERED (hv_uuid h))\<lparr>dr_ConfigHash := pr_ConfigHash r, dr_ApprovalGeneration := 1,
        dr_Observation := Some (observed w first set a False False False [])\<rparr>)"
    have B: "(case wl_pm_report w message of
        None \<Rightarrow> (Some (local_error ''marshal''), a)
      | Some payload \<Rightarrow> store_then_flush w (hv_uuid h) (AdoptBaseline (Some r) set (wl_mode w) (privileged_receipt (hv_uuid h) payload)) a) = (e, a')"
      using A assms(2) mp False by (simp only: set_def message_def Let_def prod.case option.case if_False de_Morgan_disj not_not) simp
    show ?thesis
    proof (cases "wl_pm_report w message")
      case None
      with B that(1) show ?thesis by simp
    next
      case (Some payload)
      with B have "store_then_flush w (hv_uuid h) (AdoptBaseline (Some r) set (wl_mode w) (privileged_receipt (hv_uuid h) payload)) a = (e, a')" by simp
      moreover have "set = deny_only (wl_mode w) \<or> set = localBaseline (wl_disableRemote w) p" by (simp add: set_def)
      ultimately show ?thesis using mp(2) False that(2) by blast
    qed
  qed
  then show ?thesis
  proof cases
    case 1
    with assms(2) that show ?thesis unfolding keeps_active_def by blast
  next
    case (2 p rc set)
    have z: "AppliedRevision (ps_state s) = 0" using 2(2) by (simp add: not_le)
    obtain s' where s': "ag_privileged a' = Some s'"
      "Active (ps_state s') = Active (ps_state s) \<or> Some (Active (ps_state s')) = granted (AdoptBaseline (Some r) set (wl_mode w) rc)"
      using store_then_flush_active [OF 2(6) assms(2)] by blast
    then have "Active (ps_state s') = Active (ps_state s) \<or> Active (ps_state s') = set \<and> set = settingsFromProto (pr_Privileged r)"
      by (auto split: if_splits)
    then have "Active (ps_state s') = Active (ps_state s) \<or> AppliedRevision (ps_state s) = 0 \<and> verifyV2Revision w h (Some r) = None \<and>
      baseline_bound w h r \<and> Active (ps_state s') = settingsFromProto (pr_Privileged r) \<and>
      (Active (ps_state s') = deny_only (wl_mode w) \<or>
       (\<exists>p. hv_hostPolicy h = Some p \<and> Active (ps_state s') = localBaseline (wl_disableRemote w) p))"
      using z 2(1,3,4,5) by metis
    then show ?thesis by (rule that [OF s'(1)])
  qed
qed

section \<open>Properties\<close>

text \<open>
  C13: the settings in force change only with the consent of the panel and of the machine. Whatever
  revision is delivered, \<open>recordPrivilegedRevision\<close> leaves the active settings as they are, or it sets
  them to those of the revision the panel itself returned when asked, just before, for the current
  delivery: signed by a pinned key, newer than what is applied, within the protected policy and the local
  denial of remote control, and carrying a valid approval or a verified host operation that was locally
  applied; or it installs the signed baseline of a fresh installation: the settings are exactly those of the signed
  revision, and they are those that the protected files of the machine allow, or deny everything.
\<close>

theorem privileges_need_consent:
  assumes R: "recordPrivilegedRevision w h revision a = (e, a')" and s: "ag_privileged a = Some s"
  shows "\<exists>s'. ag_privileged a' = Some s' \<and>
    (Active (ps_state s') = Active (ps_state s) \<or>
     (\<exists>r. approved_online w h r s \<and> Active (ps_state s') = settingsFromProto (pr_Privileged r)) \<or>
     (\<exists>r. revision = Some r \<and> AppliedRevision (ps_state s) = 0 \<and> installed_baseline w h r (Active (ps_state s'))))"
proof (cases "verifyV2Revision w h revision = None \<and> revision \<noteq> None")
  case False
  with R s show ?thesis by (auto simp: recordPrivilegedRevision_def split: option.splits)
next
  case True
  then obtain r where r: "revision = Some r" "verifyV2Revision w h (Some r) = None" by auto
  note A = R [unfolded recordPrivilegedRevision_def r(1), simplified r(2) s]
  show ?thesis
  proof (cases "pr_InstallationBaseline r")
    case True
    then have "acceptBaseline w h (Some r) a = (e, a')" using A by simp
    from acceptBaseline_active [OF this s] obtain s' where s': "ag_privileged a' = Some s'"
      "Active (ps_state s') = Active (ps_state s) \<or>
       AppliedRevision (ps_state s) = 0 \<and> installed_baseline w h r (Active (ps_state s'))"
      using True unfolding installed_baseline_def by blast
    with r(1) show ?thesis by blast
  next
    case False
    show ?thesis
    proof (cases "pr_Revision r \<le> AppliedRevision (ps_state s) \<or> pr_UpdateSequence r < LastSequence (ps_state s)")
      case True
      then have "keeps_active a a'" using A False by (auto intro: flushReceipts_active split: if_splits)
      with s show ?thesis unfolding keeps_active_def by blast
    next
      case newer: False
      obtain x a1 where 1: "receive_revision w h r a = (x, a1)" by force
      from receive_revision_keeps [OF 1] s obtain s1 where s1: "ag_privileged a1 = Some s1" "Active (ps_state s1) = Active (ps_state s)"
        unfolding keeps_active_def by blast
      show ?thesis
      proof (cases "x = None \<and> pr_State r \<in> {AWAITING_AGENT, APPLYING} \<and> (\<exists>c. confirm w h r = Inr c)")
        case False
        then have "keeps_active a1 a'"
          using A \<open>\<not> pr_InstallationBaseline r\<close> newer 1
          by (cases x; cases "confirm w h r") (auto intro: flushReceipts_active split: if_splits)
        with s1 show ?thesis unfolding keeps_active_def by metis
      next
        case True
        then obtain c where c: "confirm w h r = Inr c" by blast
        with A \<open>\<not> pr_InstallationBaseline r\<close> newer 1 True have "apply_confirmed w h c a1 = (e, a')" by auto
        note C = confirm_Inr [OF c]
        from apply_confirmed_active [OF \<open>apply_confirmed w h c a1 = (e, a')\<close> s1(1)] True C obtain s' where
          s': "ag_privileged a' = Some s'" "Active (ps_state s') = Active (ps_state s1) \<or>
             Active (ps_state s') = settingsFromProto (pr_Privileged c) \<and>
             (\<exists>policy. wl_policy w = Inr policy \<and> PolicyAllows (settingsFromProto (pr_Privileged c)) (Some policy)) \<and>
             \<not> (wl_disableRemote w \<and> RemoteControlEnabled (settingsFromProto (pr_Privileged c))) \<and>
             (pr_State c = AWAITING_AGENT \<and>
                ValidateApproval (wl_sha w) (hv_now h) (Some c) (hv_agentID h) (service_name w) (wl_mode w) = None \<or>
              pr_State c = APPLYING \<and> (\<exists>op. checkedHostOperation w h c = Inr op))" by metis
        have "AppliedRevision (ps_state s) < pr_Revision c" using newer C by (simp add: not_le)
        with s' s1(2) C show ?thesis unfolding approved_online_def by metis
      qed
    qed
  qed
qed

lemma VerifyRecorded_Inr:
  assumes "VerifyRecorded ed unm v (Some env) = Inr ins"
  shows "\<exists>j k. unm (se_Payload env) = Some j \<and> ins = instruction_of j k"
proof -
  obtain j where j: "unm (se_Payload env) = Some j" using assms by (auto simp: VerifyRecorded_def split: option.splits)
  obtain issued where i: "si_IssuedAt j = TsValid issued" using assms j by (auto simp: VerifyRecorded_def split: timestamp.splits)
  obtain x where x: "Verify_checks ed unm (v\<lparr>v_replay := None\<rparr>) issued (Some env) = Inr x" "ins = (case x of (i, k) \<Rightarrow> instruction_of i k)"
    using assms j i by (auto simp: VerifyRecorded_def split: sum.splits prod.splits)
  with j show ?thesis by (cases x) (auto simp: Verify_checks_Inr)
qed

section \<open>Sample values for the witnesses\<close>

definition sample_host_world :: "(persistedState, State, State option) world" where
  "sample_host_world = sample_world\<lparr>wl_manifest := Some (sample_manifest\<lparr>ServiceName := ''svc''\<rparr>), wl_policy := Inr sample_policy,
     wl_unm_revision := (\<lambda>_. Some (sample_signed_revision))\<rparr>"

definition sample_view :: host_view where
  "sample_view = \<lparr>hv_ed = sample_ed,
     hv_unm = (\<lambda>_. Some (sample_instruction\<lparr>si_InstructionType := revision_kind, si_Body := ''m''\<rparr>)), hv_pm_op = (\<lambda>_. None),
     hv_now = 10, hv_identity = Some (Trust_Identity sample_trust), hv_agentID = ''a1'', hv_hostPolicy = None,
     hv_helper = Inl HeartbeatStale, hv_GetPrivilegedDelivery = Inr (Some sample_signed_revision),
     hv_GetHostOperation = (\<lambda>_. Inr None), hv_uuid = ''r9''\<rparr>"

lemma sample_host_simps:
  "wl_sha sample_host_world = (\<lambda>_. ''h'')" "wl_pm sample_host_world r = Some ''m''" "wl_mode sample_host_world = 2"
  "wl_pm_report sample_host_world m = Some ''rp''" "wl_disableRemote sample_host_world = False"
  "service_name sample_host_world = ''svc''" "wl_manifest sample_host_world = Some (sample_manifest\<lparr>ServiceName := ''svc''\<rparr>)"
  "wl_policy sample_host_world = Inr sample_policy" "wl_unm_report sample_host_world b = None"
  "wl_unm_revision sample_host_world b = Some sample_signed_revision"
  "hv_ed sample_view = sample_ed" "hv_now sample_view = 10" "hv_identity sample_view = Some (Trust_Identity sample_trust)"
  "hv_unm sample_view = (\<lambda>_. Some (sample_instruction\<lparr>si_InstructionType := revision_kind, si_Body := ''m''\<rparr>))"
  "hv_agentID sample_view = ''a1''" "hv_GetPrivilegedDelivery sample_view = Inr (Some sample_signed_revision)"
  "hv_uuid sample_view = ''r9''"
  by (simp_all add: sample_host_world_def sample_world_def sample_view_def service_name_def sample_manifest_def)

lemma sample_revision_simps:
  "pr_Signature sample_signed_revision = Some sample_envelope" "pr_AgentId sample_signed_revision = ''a1''"
  "pr_Unknown sample_signed_revision = []" "pr_Privileged sample_signed_revision = Some sample_config"
  "pr_ConfigHash sample_signed_revision = ''68''" "pr_ProtocolVersion sample_signed_revision = 2"
  "pr_State sample_signed_revision = AWAITING_AGENT" "pr_Revision sample_signed_revision = 3"
  "pr_UpdateSequence sample_signed_revision = 9" "pr_ReceivedAt sample_signed_revision = TsValid 5"
  "pr_InstallationBaseline sample_signed_revision = False" "pr_Authorization sample_signed_revision = Some sample_authorization"
  "pr_Plan sample_signed_revision = None" "pc_Unknown sample_config = []"
  by (simp_all add: sample_signed_revision_def sample_revision_def sample_config_def Settings_Proto_def)

lemma sample_verified: "verifyV2Revision sample_host_world sample_view (Some sample_signed_revision) = None"
proof -
  have i: "AgentID (Trust_Identity sample_trust) = ''a1''" by (simp add: Trust_Identity_def sample_trust_def)
  show ?thesis
    by (simp add: verifyV2Revision_def sample_host_simps sample_revision_simps sample_plain sample_Hash instruction_of_def i)
qed

lemma sample_validated: "ValidateApproval (\<lambda>_. ''h'') 10 (Some sample_signed_revision) ''a1'' ''svc'' 2 = None"
  by (simp add: priv_eval sample_signed_revision_def)

lemma sample_settings:
  "settingsFromProto (Some sample_config) = Settings_zero\<lparr>RequiredPrivilegeMode := 2, WebSSHEnabled := True\<rparr>"
  "PolicyAllows (settingsFromProto (Some sample_config)) (Some sample_policy)"
  by (simp_all add: settingsFromProto_def sample_config_def Settings_Proto_def get_bool_def Settings_zero_def PolicyAllows_def sample_policy_def)

lemma sample_pending:
  obtains s1 d1 where "priv_do sample_host_world k (RecordPending (Some sample_signed_revision)) empty_store Map.empty = (Inr (), s1, d1)"
    "ps_path s1 = ''s''" "AppliedRevision (ps_state s1) = 0" "PendingRevision (ps_state s1) = 3" "LastSequence (ps_state s1) = 9"
    "Outbox (ps_state s1) = []" "ps_diskHash s1 = Some (ps_state s1)" "d1 = [''s'' \<mapsto> Regular (Some (ps_state s1)) mode_0600 (-1, -1)]"
  by (simp add: priv_do_def priv_eval sample_revision_simps sample_host_world_def sample_world_def)

lemma sample_applied:
  assumes "ps_path s1 = ''s''" "AppliedRevision (ps_state s1) = 0" "PendingRevision (ps_state s1) = 3" "LastSequence (ps_state s1) = 9"
    "Outbox (ps_state s1) = []" "ps_diskHash s1 = Some (ps_state s1)" "d1 = [''s'' \<mapsto> Regular (Some (ps_state s1)) mode_0600 (-1, -1)]"
  obtains s2 d2 where "priv_do sample_host_world k (ApplyApproved (Some sample_signed_revision) 2 rc) s1 d1 = (Inr (), s2, d2)"
    "Active (ps_state s2) = settingsFromProto (Some sample_config)" "Outbox (ps_state s2) = [rc]"
proof -
  have V: "ValidateApproval (\<lambda>_. ''h'') 7 (Some sample_signed_revision) ''a1'' ''svc'' 2 = None"
    by (simp add: priv_eval sample_signed_revision_def)
  obtain st2 where P: "ApplyApproved_plan (\<lambda>_. ''h'') (\<lambda>_. Some ''m'') 7 (Some sample_signed_revision) 2 rc (ps_state s1) = Next st2"
    "Active st2 = settingsFromProto (Some sample_config)" "Outbox st2 = [rc]"
    using assms(2,3,4,5) V by (simp add: ApplyApproved_plan_def commitApproved_plan_def sample_revision_simps sample_authorization_def)
  have "\<exists>d2. priv_do sample_host_world k (ApplyApproved (Some sample_signed_revision) 2 rc) s1 d1 =
      (Inr (), s1\<lparr>ps_state := st2\<lparr>st_UpdatedAt := 7\<rparr>, ps_diskHash := Some (st2\<lparr>st_UpdatedAt := 7\<rparr>)\<rparr>, d2)"
    using assms(1,6,7) P(1)
    by (simp add: priv_do_def priv_apply_def priv_exec_def sample_host_world_def sample_world_def quiet_env_def priv_commit_def
        read_file_def run_deferred_def priv_pre_def priv_post_def op_fails_def Let_def)
  with that P show ?thesis by fastforce
qed

lemma sample_recorded:
  "VerifyRecorded sample_ed (\<lambda>_. Some (sample_instruction\<lparr>si_InstructionType := k, si_Body := b\<rparr>))
     (New (Trust_Identity sample_trust) None) (Some sample_envelope) =
   Inr (instruction_of (sample_instruction\<lparr>si_InstructionType := k, si_Body := b\<rparr>) ''k1'')"
proof -
  let ?v = "New (Trust_Identity sample_trust) None"
  have v: "v_agentID ?v = ''a1''" "v_keys ?v = [sample_pin ''k1'']" "v_replay ?v = None" "MinimumSignatures (v_policy ?v) = 1"
    "AcceptedAlgorithms (v_policy ?v) = [1]" "\<not> RequireAll (v_policy ?v)"
    by (simp_all add: New_def Trust_Identity_def sample_trust_def Identity_zero_def)
  have "counts sample_ed ?v 5 ''p'' sample_sig"
    by (simp add: counts_def findKey_def sample_sig_def sample_pin_def verifyOne_def sample_ed_def v)
  then have "Verify_checks sample_ed (\<lambda>_. Some (sample_instruction\<lparr>si_InstructionType := k, si_Body := b\<rparr>)) ?v 5
      (Some sample_envelope) = Inr (sample_instruction\<lparr>si_InstructionType := k, si_Body := b\<rparr>, ''k1'')"
    by (simp add: Verify_checks_Inr checkBinding_None sample_envelope_def verifySignatures_iff v
        required_def sample_instruction_def TrimSpace_n1) (simp add: sample_sig_def)
  moreover have "?v\<lparr>v_replay := None\<rparr> = ?v" by (simp add: New_def)
  ultimately show ?thesis by (simp add: VerifyRecorded_def sample_envelope_def sample_instruction_def)
qed

theorem privileges_need_consent_witness:
  "\<exists>e a' s'. recordPrivilegedRevision sample_host_world sample_view (Some sample_signed_revision) sample_agent = (e, a') \<and>
     ag_privileged a' = Some s' \<and> Active (ps_state s') = Settings_zero\<lparr>RequiredPrivilegeMode := 2, WebSSHEnabled := True\<rparr> \<and>
     approved_online sample_host_world sample_view sample_signed_revision empty_store"
proof -
  let ?w = sample_host_world and ?h = sample_view and ?r = sample_signed_revision
  obtain s1 d1 where 1: "priv_do ?w ''pending'' (RecordPending (Some ?r)) empty_store Map.empty = (Inr (), s1, d1)"
    and f: "ps_path s1 = ''s''" "AppliedRevision (ps_state s1) = 0" "PendingRevision (ps_state s1) = 3" "LastSequence (ps_state s1) = 9"
      "Outbox (ps_state s1) = []" "ps_diskHash s1 = Some (ps_state s1)" "d1 = [''s'' \<mapsto> Regular (Some (ps_state s1)) mode_0600 (-1, -1)]"
    using sample_pending .
  let ?rc = "privileged_receipt ''r9'' ''rp''"
  obtain s2 d2 where 2: "priv_do ?w ''r9'' (ApplyApproved (Some ?r) 2 ?rc) s1 d1 = (Inr (), s2, d2)"
    "Active (ps_state s2) = settingsFromProto (Some sample_config)"
    using sample_applied [OF f] by metis
  let ?a1 = "sample_agent\<lparr>ag_privileged := Some s1, ag_disk := d1\<rparr>" and ?a2 = "sample_agent\<lparr>ag_privileged := Some s2, ag_disk := d2\<rparr>"
  have rec: "receive_revision ?w ?h ?r sample_agent = (None, ?a1)"
    using 1 by (simp add: receive_revision_def on_store_def sample_agent_def sample_revision_simps)
  have conf: "confirm ?w ?h ?r = Inr ?r" by (simp add: confirm_def sample_host_simps sample_verified)
  obtain e a' where fl: "flushReceipts ?w ?a2 = (e, a')" by force
  from flushReceipts_active [OF this] obtain s' where s': "ag_privileged a' = Some s'" "Active (ps_state s') = settingsFromProto (Some sample_config)"
    using 2(2) by (auto simp: keeps_active_def)
  have "\<not> RemoteControlEnabled (settingsFromProto (Some sample_config))" "\<not> RescueHelperEnabled (settingsFromProto (Some sample_config))"
    by (simp_all add: sample_settings(1) Settings_zero_def)
  then have "apply_confirmed ?w ?h ?r ?a1 = (e, a')"
    using 2(1) fl
    by (simp add: apply_confirmed_def sample_host_simps sample_revision_simps sample_validated grant_def sample_settings(2)
        helper_observation_def store_then_flush_def on_store_def Let_def)
  with rec conf have R: "recordPrivilegedRevision ?w ?h (Some ?r) sample_agent = (e, a')"
    by (simp add: recordPrivilegedRevision_def sample_verified sample_revision_simps sample_agent_def empty_store_def State_zero_def)
  have start: "ag_privileged sample_agent = Some empty_store" by (simp add: sample_agent_def)
  have "approved_online ?w ?h ?r empty_store"
    using privileges_need_consent [OF R start] s'
    by (auto simp: sample_settings empty_store_def State_zero_def Settings_zero_def installed_baseline_def sample_revision_simps
        approved_online_def sample_host_simps)
  with R s' show ?thesis by (auto simp: sample_settings)
qed

text \<open>
  C26: what was approved passes the check of the next start. When an approved revision has been applied
  to the store, then as long as its encoding decodes to itself and its signature is still vouched for by
  the pinned keys at its time of issue, \<open>validatePersistedPrivileged\<close> accepts the store: an agent does
  not lock itself out by applying a valid approval.
\<close>

theorem approved_passes_start_check:
  assumes P: "priv_do w k (ApplyApproved (Some r) actual rc) s d = (Inr (), s', d')"
    and V: "verifyV2Revision w h (Some r) = None" and S: "service_name w = ha_ServiceId a" "pr_Authorization r = Some a"
    and E: "wl_pm w r = Some b" "wl_unm_revision w b = Some r"
    and K: "hv_identity h = Some i" "VerifyRecorded (hv_ed h) (hv_unm h) (New i None) (pr_Signature r) = Inr ins"
  shows "validatePersistedPrivileged w h (Some s') = None"
proof -
  from P [unfolded priv_do_def] obtain st' where st: "ApplyApproved_plan (wl_sha w) (wl_pm w) (env_now (wl_env w k)) (Some r) actual rc (ps_state s) = Next st'"
    "ps_state s' = st'\<lparr>st_UpdatedAt := env_now (wl_env w k)\<rparr>"
    by (rule priv_apply_cases) (auto simp: ApplyApproved_plan_def commitApproved_plan_def split: option.splits if_splits)
  then have f: "Active (ps_state s') = settingsFromProto (pr_Privileged r)" "AppliedRevision (ps_state s') = pr_Revision r"
      "ActiveSignedRevision (ps_state s') = b" "pr_Revision r \<noteq> 0"
    using E(1) by (auto simp: ApplyApproved_plan_def commitApproved_plan_def split: option.splits if_splits)
  obtain v where v: "verify_plain (hv_ed h) (hv_unm h) (hv_now h) (New i None) (pr_Signature r) = Inr v"
    "in_InstructionType v = revision_kind" "wl_pm w (r\<lparr>pr_Signature := None\<rparr>) = Some (in_Body v)" "pr_AgentId r = AgentID i"
    "pr_ConfigHash r = Hash (wl_sha w) (settingsFromProto (pr_Privileged r))"
    using V K(1) by (auto simp: verifyV2Revision_def split: sum.splits option.splits if_splits)
  have "v_replay (New i None) = None" by (simp add: New_def)
  from verify_plain_Inr [OF v(1) this] obtain env j where j: "pr_Signature r = Some env" "hv_unm h (se_Payload env) = Some j"
    "in_Body v = si_Body j" "in_InstructionType v = si_InstructionType j" by blast
  have "in_Body ins = si_Body j \<and> in_InstructionType ins = si_InstructionType j"
    using VerifyRecorded_Inr [OF K(2) [unfolded j(1)]] j(2) by (auto simp: instruction_of_def)
  then have "in_Body ins = in_Body v" "in_InstructionType ins = revision_kind" using j(3,4) v(2) by simp_all
  moreover have "(case pr_Authorization r of None \<Rightarrow> [] | Some a \<Rightarrow> ha_ServiceId a) = service_name w" by (simp add: S)
  ultimately show ?thesis
    unfolding validatePersistedPrivileged_def Let_def option.case f(1,2,3) E(2) K prod.case sum.case v(3)
    using f(4) v(4,5) by simp
qed

theorem approved_passes_start_check_witness:
  "\<exists>s1 d1 s2 d2. priv_do sample_host_world ''k'' (ApplyApproved (Some sample_signed_revision) 2 sample_receipt) s1 d1 = (Inr (), s2, d2) \<and>
     validatePersistedPrivileged sample_host_world sample_view (Some s2) = None"
proof -
  let ?w = sample_host_world and ?h = sample_view and ?r = sample_signed_revision
  obtain s1 d1 where "priv_do ?w ''k'' (RecordPending (Some ?r)) empty_store Map.empty = (Inr (), s1, d1)"
    and f: "ps_path s1 = ''s''" "AppliedRevision (ps_state s1) = 0" "PendingRevision (ps_state s1) = 3" "LastSequence (ps_state s1) = 9"
      "Outbox (ps_state s1) = []" "ps_diskHash s1 = Some (ps_state s1)" "d1 = [''s'' \<mapsto> Regular (Some (ps_state s1)) mode_0600 (-1, -1)]"
    using sample_pending .
  obtain s2 d2 where P: "priv_do ?w ''k'' (ApplyApproved (Some ?r) 2 sample_receipt) s1 d1 = (Inr (), s2, d2)"
    using sample_applied [OF f] by metis
  have S: "service_name ?w = ha_ServiceId sample_authorization" by (simp add: sample_host_simps sample_authorization_def)
  obtain ins where "VerifyRecorded (hv_ed ?h) (hv_unm ?h) (New (Trust_Identity sample_trust) None) (pr_Signature ?r) = Inr ins"
    using sample_recorded by (auto simp: sample_host_simps sample_revision_simps)
  from approved_passes_start_check [OF P sample_verified S _ _ _ _ this, where b = "''m''"] P show ?thesis
    by (auto simp: sample_host_simps sample_revision_simps)
qed

end
