(* ===== verification/HostService.thy ===== *)
theory HostService
  imports HostHelper
begin

text \<open>
  What \<open>komari-host\<close> knows of a systemd service (\<open>internal/hostcmd/systemd.go\<close>,
  \<open>profile_linux.go\<close>, \<open>legacy_policy_linux.go\<close>): the parser of \<open>systemctl show\<close>, the quoting of
  unit files, the migration of historical command lines, the observation of a restarted process and
  the local ceilings of an approved configuration. What \<open>systemctl\<close> and \<open>/proc\<close> answer is a parameter.
\<close>

section \<open>Cutting strings\<close>

text \<open>\<open>strings.Cut\<close>: the text before and after the first occurrence of \<open>p\<close>.\<close>

fun Cut :: "bytes \<Rightarrow> bytes \<Rightarrow> (bytes \<times> bytes) option" where
  "Cut p [] = (if p = [] then Some ([], []) else None)"
| "Cut p (x # xs) =
     (if starts_with p (x # xs) then Some ([], drop (length p) (x # xs))
      else map_option (\<lambda>(a, b). (x # a, b)) (Cut p xs))"

text \<open>\<open>strings.ReplaceAll\<close> of a one-byte string.\<close>

definition ReplaceAll :: "char \<Rightarrow> bytes \<Rightarrow> bytes \<Rightarrow> bytes" where
  "ReplaceAll c r s = concat (map (\<lambda>x. if x = c then r else [x]) s)"

definition hex_val :: "char \<Rightarrow> nat option" where
  "hex_val c =
     (let n = of_char c :: nat in
      if 48 \<le> n \<and> n \<le> 57 then Some (n - 48)
      else if 97 \<le> n \<and> n \<le> 102 then Some (n - 87)
      else if 65 \<le> n \<and> n \<le> 70 then Some (n - 55) else None)"

text \<open>
  The value \<open>strconv.ParseUint(s, 16, 64)\<close> returns beside its error, which the caller drops: zero for
  text that is not a number, the largest value when a digit is left after an overflow.
\<close>

fun hex_loop :: "nat \<Rightarrow> bytes \<Rightarrow> nat" where
  "hex_loop n [] = n"
| "hex_loop n (c # cs) =
     (case hex_val c of
        None \<Rightarrow> 0
      | Some d \<Rightarrow> if n \<ge> 2 ^ 60 then 2 ^ 64 - 1 else hex_loop (n * 16 + d) cs)"

definition ParseHex64 :: "bytes \<Rightarrow> u64" where
  "ParseHex64 s = of_nat (hex_loop 0 s)"

section \<open>Words of a command line\<close>

text \<open>
  \<open>splitWords\<close>: \<open>args\<close> are the finished words, \<open>token\<close> the word being read (\<open>started\<close> once it exists,
  even when empty) and \<open>quote\<close> the open quotation mark.
\<close>

fun split_loop :: "string list \<Rightarrow> string \<Rightarrow> char option \<Rightarrow> bool \<Rightarrow> bytes \<Rightarrow> string list option" where
  "split_loop args token quote started [] =
     (if quote \<noteq> None then None else Some (if started then args @ [token] else args))"
| "split_loop args token quote started (c # cs) =
     (if c = CHR 0x5C then
        (case cs of
           [] \<Rightarrow> None
         | d # ds \<Rightarrow>
             if d = CHR ''x'' then
               (case ds of
                  h # l # rest \<Rightarrow>
                    (case (hex_val h, hex_val l) of
                       (Some a, Some b) \<Rightarrow>
                         if a * 16 + b = 0 then None
                         else split_loop args (token @ [char_of (a * 16 + b)]) quote True rest
                     | _ \<Rightarrow> None)
                | _ \<Rightarrow> None)
             else if d \<in> {CHR 0x5C, CHR 0x22, CHR 0x27, CHR '' ''} then split_loop args (token @ [d]) quote True ds
             else None)
      else if (c = CHR 0x22 \<or> c = CHR 0x27) \<and> quote = None then split_loop args token (Some c) True cs
      else if (c = CHR 0x22 \<or> c = CHR 0x27) \<and> quote = Some c then split_loop args token None started cs
      else if quote = None \<and> (c = CHR '' '' \<or> c = CHR 0x09) then
        (if started then split_loop (args @ [token]) [] quote False cs else split_loop args token quote started cs)
      else if c = CHR 0x0A \<or> c = CHR 0x00 then None
      else split_loop args (token @ [c]) quote True cs)"

definition splitWords :: "bytes \<Rightarrow> string list option" where
  "splitWords value = split_loop [] [] None False value"

definition unitQuote :: "string \<Rightarrow> string" where
  "unitQuote s =
     (let s = ReplaceAll (CHR 0x5C) [CHR 0x5C, CHR 0x5C] s;
          s = ReplaceAll (CHR 0x22) [CHR 0x5C, CHR 0x22] s;
          s = ReplaceAll (CHR ''%'') ''%%'' s;
          s = ReplaceAll (CHR ''$'') ''$$'' s
      in [CHR 0x22] @ s @ [CHR 0x22])"

text \<open>\<open>strings.Count(value, p) = 1\<close> for a text \<open>p\<close> that does not overlap itself.\<close>

definition occurs_once :: "bytes \<Rightarrow> bytes \<Rightarrow> bool" where
  "occurs_once p s = (case Cut p s of None \<Rightarrow> False | Some (_, rest) \<Rightarrow> Cut p rest = None)"

definition parseExecStart :: "bytes \<Rightarrow> string list option" where
  "parseExecStart value =
     (if \<not> occurs_once ''{ path='' value then None
      else case Cut '' ; argv[]='' value of
        None \<Rightarrow> None
      | Some (_, tail) \<Rightarrow>
          (case Cut '' ; ignore_errors='' tail of
             None \<Rightarrow> None
           | Some (argv, _) \<Rightarrow>
               if contains '' ; '' argv then None
               else case splitWords argv of
                 None \<Rightarrow> None
               | Some args \<Rightarrow>
                   (case args of [] \<Rightarrow> None | a # _ \<Rightarrow> if starts_with ''/'' a then Some args else None)))"

section \<open>Observing a service\<close>

record serviceObservation =
  so_User :: string
  so_WorkingDirectory :: string
  so_FragmentPath :: string
  so_DropInPaths :: string
  so_MainPID :: string
  so_ExecStart :: string

definition no_observation :: serviceObservation where
  "no_observation = \<lparr>so_User = [], so_WorkingDirectory = [], so_FragmentPath = [], so_DropInPaths = [],
     so_MainPID = [], so_ExecStart = []\<rparr>"

definition observe_line :: "bytes \<Rightarrow> serviceObservation \<Rightarrow> serviceObservation" where
  "observe_line line ob =
     (case Cut ''='' line of
        None \<Rightarrow> ob
      | Some (k, v) \<Rightarrow>
          if k = ''User'' then ob\<lparr>so_User := v\<rparr>
          else if k = ''WorkingDirectory'' then ob\<lparr>so_WorkingDirectory := v\<rparr>
          else if k = ''FragmentPath'' then ob\<lparr>so_FragmentPath := v\<rparr>
          else if k = ''DropInPaths'' then ob\<lparr>so_DropInPaths := v\<rparr>
          else if k = ''MainPID'' then ob\<lparr>so_MainPID := v\<rparr>
          else if k = ''ExecStart'' then ob\<lparr>so_ExecStart := v\<rparr>
          else ob)"

text \<open>\<open>show\<close> is the output of \<open>systemctl show\<close>, \<open>None\<close> when it fails.\<close>

definition observe :: "bytes option \<Rightarrow> string \<Rightarrow> serviceObservation option" where
  "observe show service =
     (if \<not> ValidService service then None
      else case show of
        None \<Rightarrow> None
      | Some value \<Rightarrow>
          (let ob = fold observe_line (split_at CHR 0x0A value) no_observation in
           if so_FragmentPath ob = [] \<or> so_ExecStart ob = [] then None else Some ob))"

text \<open>The values of \<open>/proc/<pid>/status\<close>; a key that is missing has the empty value.\<close>

definition status_line :: "bytes \<Rightarrow> (bytes \<rightharpoonup> bytes) \<Rightarrow> (bytes \<rightharpoonup> bytes)" where
  "status_line line m = (case Cut '':'' line of None \<Rightarrow> m | Some (k, v) \<Rightarrow> m(k \<mapsto> TrimSpace v))"

definition status_value :: "bytes \<Rightarrow> bytes \<Rightarrow> bytes" where
  "status_value b k = (case fold status_line (split_at CHR 0x0A b) Map.empty k of None \<Rightarrow> [] | Some v \<Rightarrow> v)"

text \<open>The capabilities 0, 1, 6, 7, 12, 13, 21 and 22; the unprivileged profile has only \<open>CAP_NET_RAW\<close>.\<close>

definition required_caps :: u64 where
  "required_caps = 0x6030C3"

definition service_profile :: "int \<Rightarrow> int \<Rightarrow> bytes \<Rightarrow> bool" where
  "service_profile wantUID mode b =
     (let uids = Fields (status_value b ''Uid'');
          bound = ParseHex64 (status_value b ''CapBnd'');
          eff = ParseHex64 (status_value b ''CapEff'');
          valid = (length uids = 4 \<and> (\<forall>uid \<in> set uids. uid = Itoa wantUID))
      in if mode = 1
         then valid \<and> status_value b ''NoNewPrivs'' = ''0'' \<and> bound AND required_caps = required_caps \<and>
              eff AND required_caps = required_caps
         else valid \<and> status_value b ''NoNewPrivs'' = ''1'' \<and> bound = 0x2000)"

text \<open>One attempt sees the observation, if any, and the \<open>/proc\<close> status of its main process, if readable.\<close>

type_synonym sighting = "(serviceObservation \<times> bytes option) option"

definition sighted :: "int \<Rightarrow> int \<Rightarrow> sighting \<Rightarrow> (string \<times> bool) option" where
  "sighted wantUID mode s =
     (case s of
        Some (ob, Some b) \<Rightarrow>
          if so_MainPID ob \<noteq> ''0'' \<and> so_MainPID ob \<noteq> []
          then Some (so_MainPID ob, service_profile wantUID mode b) else None
      | _ \<Rightarrow> None)"

text \<open>The loop over the attempts, with the process seen last and how often it was seen.\<close>

fun verify_loop :: "(sighting \<Rightarrow> (string \<times> bool) option) \<Rightarrow> sighting list \<Rightarrow> string \<Rightarrow> nat \<Rightarrow> bool" where
  "verify_loop see [] previous streak = False"
| "verify_loop see (s # ss) previous streak =
     (case see s of
        None \<Rightarrow> verify_loop see ss previous streak
      | Some (pid, valid) \<Rightarrow>
          if valid then
            (let streak' = (if pid = previous then streak + 1 else 1) in
             streak' \<ge> 3 \<or> verify_loop see ss pid streak')
          else verify_loop see ss previous 0)"

text \<open>\<open>verifyService\<close> succeeds within thirty attempts; \<open>obs i\<close> is what attempt \<open>i\<close> sees.\<close>

definition verifyService :: "(nat \<Rightarrow> sighting) \<Rightarrow> int \<Rightarrow> int \<Rightarrow> bool" where
  "verifyService obs wantUID mode = verify_loop (sighted wantUID mode) (map obs [0..<30]) [] 0"

text \<open>\<open>waitHelper\<close>: sixty heartbeats at most, until one is authorized and ready for leases.\<close>

definition waitHelper :: "(nat \<Rightarrow> helper_error + HelperStatus) \<Rightarrow> bool" where
  "waitHelper beat =
     (\<exists>i \<in> set [0..<60]. case beat i of Inl _ \<Rightarrow> False | Inr st \<Rightarrow> hs_Authorized st \<and> hs_LeaseReady st)"

section \<open>Historical command lines\<close>

text \<open>\<open>flags.Config\<close>, as \<open>host-bootstrap.json\<close> holds it. \<open>Interval\<close> is the IEEE 754 value of the source.\<close>

record bootstrap =
  bo_ServiceManifestFile :: string
  bo_AutoDiscoveryKey :: string
  bo_ServerName :: string
  bo_DisableAutoUpdate :: bool
  bo_Token :: string
  bo_Endpoint :: string
  bo_Interval :: u64
  bo_IgnoreUnsafeCert :: bool
  bo_MaxRetries :: int
  bo_ReconnectInterval :: int
  bo_InfoReportInterval :: int
  bo_IncludeNics :: string
  bo_ExcludeNics :: string
  bo_IncludeMountpoints :: string
  bo_MonthRotate :: int
  bo_MemoryIncludeCache :: bool
  bo_CustomDNS :: string
  bo_CFAccessClientID :: string
  bo_CFAccessClientSecret :: string
  bo_EnableGPU :: bool
  bo_DetailedGPU :: bool
  bo_DisableRemoteControl :: bool
  bo_ShowWarning :: bool
  bo_CustomIpv4 :: string
  bo_CustomIpv6 :: string
  bo_GetIpAddrFromNic :: bool
  bo_HostProc :: string
  bo_ConfigFile :: string
  bo_DisableCompression :: bool
  bo_PreferIPVersion :: string
  bo_RuntimeStateFile :: string
  bo_PrivilegedStateFile :: string
  bo_ReplayStateFile :: string
  bo_CredentialsFile :: string

text \<open>The initial configuration: an interval of 3.0 (its IEEE 754 value) and the three integers.\<close>

definition bootstrap_defaults :: bootstrap where
  "bootstrap_defaults = \<lparr>bo_ServiceManifestFile = [], bo_AutoDiscoveryKey = [], bo_ServerName = [],
     bo_DisableAutoUpdate = False, bo_Token = [], bo_Endpoint = [], bo_Interval = 0x4008000000000000,
     bo_IgnoreUnsafeCert = False, bo_MaxRetries = 3, bo_ReconnectInterval = 5, bo_InfoReportInterval = 5,
     bo_IncludeNics = [], bo_ExcludeNics = [], bo_IncludeMountpoints = [], bo_MonthRotate = 0,
     bo_MemoryIncludeCache = False, bo_CustomDNS = [], bo_CFAccessClientID = [], bo_CFAccessClientSecret = [],
     bo_EnableGPU = False, bo_DetailedGPU = False, bo_DisableRemoteControl = False, bo_ShowWarning = False,
     bo_CustomIpv4 = [], bo_CustomIpv6 = [], bo_GetIpAddrFromNic = False, bo_HostProc = [], bo_ConfigFile = [],
     bo_DisableCompression = False, bo_PreferIPVersion = [], bo_RuntimeStateFile = [],
     bo_PrivilegedStateFile = [], bo_ReplayStateFile = [], bo_CredentialsFile = []\<rparr>"

text \<open>A field, by its kind, with its assignment.\<close>

datatype field =
    FString "string \<Rightarrow> bootstrap \<Rightarrow> bootstrap"
  | FBool "bool \<Rightarrow> bootstrap \<Rightarrow> bootstrap"
  | FInt "int \<Rightarrow> bootstrap \<Rightarrow> bootstrap"
  | FFloat "u64 \<Rightarrow> bootstrap \<Rightarrow> bootstrap"

text \<open>
  The table that \<open>parseLegacyBootstrap\<close> builds from the JSON names of the fields, with underscores as
  dashes, and its four aliases. \<open>ServiceManifestFile\<close> has no JSON name.
\<close>

definition legacy_fields :: "(string \<times> field) list" where
  "legacy_fields =
     [(''auto-discovery-key'', FString (\<lambda>v. bo_AutoDiscoveryKey_update (\<lambda>_. v))),
      (''server-name'', FString (\<lambda>v. bo_ServerName_update (\<lambda>_. v))),
      (''disable-auto-update'', FBool (\<lambda>v. bo_DisableAutoUpdate_update (\<lambda>_. v))),
      (''token'', FString (\<lambda>v. bo_Token_update (\<lambda>_. v))),
      (''endpoint'', FString (\<lambda>v. bo_Endpoint_update (\<lambda>_. v))),
      (''interval'', FFloat (\<lambda>v. bo_Interval_update (\<lambda>_. v))),
      (''ignore-unsafe-cert'', FBool (\<lambda>v. bo_IgnoreUnsafeCert_update (\<lambda>_. v))),
      (''max-retries'', FInt (\<lambda>v. bo_MaxRetries_update (\<lambda>_. v))),
      (''reconnect-interval'', FInt (\<lambda>v. bo_ReconnectInterval_update (\<lambda>_. v))),
      (''info-report-interval'', FInt (\<lambda>v. bo_InfoReportInterval_update (\<lambda>_. v))),
      (''include-nics'', FString (\<lambda>v. bo_IncludeNics_update (\<lambda>_. v))),
      (''exclude-nics'', FString (\<lambda>v. bo_ExcludeNics_update (\<lambda>_. v))),
      (''include-mountpoints'', FString (\<lambda>v. bo_IncludeMountpoints_update (\<lambda>_. v))),
      (''month-rotate'', FInt (\<lambda>v. bo_MonthRotate_update (\<lambda>_. v))),
      (''memory-include-cache'', FBool (\<lambda>v. bo_MemoryIncludeCache_update (\<lambda>_. v))),
      (''custom-dns'', FString (\<lambda>v. bo_CustomDNS_update (\<lambda>_. v))),
      (''cf-access-client-id'', FString (\<lambda>v. bo_CFAccessClientID_update (\<lambda>_. v))),
      (''cf-access-client-secret'', FString (\<lambda>v. bo_CFAccessClientSecret_update (\<lambda>_. v))),
      (''enable-gpu'', FBool (\<lambda>v. bo_EnableGPU_update (\<lambda>_. v))),
      (''detailed-gpu'', FBool (\<lambda>v. bo_DetailedGPU_update (\<lambda>_. v))),
      (''disable-remote-control'', FBool (\<lambda>v. bo_DisableRemoteControl_update (\<lambda>_. v))),
      (''show-warning'', FBool (\<lambda>v. bo_ShowWarning_update (\<lambda>_. v))),
      (''custom-ipv4'', FString (\<lambda>v. bo_CustomIpv4_update (\<lambda>_. v))),
      (''custom-ipv6'', FString (\<lambda>v. bo_CustomIpv6_update (\<lambda>_. v))),
      (''get-ip-addr-from-nic'', FBool (\<lambda>v. bo_GetIpAddrFromNic_update (\<lambda>_. v))),
      (''host-proc'', FString (\<lambda>v. bo_HostProc_update (\<lambda>_. v))),
      (''config-file'', FString (\<lambda>v. bo_ConfigFile_update (\<lambda>_. v))),
      (''disable-compression'', FBool (\<lambda>v. bo_DisableCompression_update (\<lambda>_. v))),
      (''prefer-ip-version'', FString (\<lambda>v. bo_PreferIPVersion_update (\<lambda>_. v))),
      (''runtime-state-file'', FString (\<lambda>v. bo_RuntimeStateFile_update (\<lambda>_. v))),
      (''privileged-state-file'', FString (\<lambda>v. bo_PrivilegedStateFile_update (\<lambda>_. v))),
      (''replay-state-file'', FString (\<lambda>v. bo_ReplayStateFile_update (\<lambda>_. v))),
      (''credentials-file'', FString (\<lambda>v. bo_CredentialsFile_update (\<lambda>_. v))),
      (''include-mountpoint'', FString (\<lambda>v. bo_IncludeMountpoints_update (\<lambda>_. v))),
      (''auto-discovery'', FString (\<lambda>v. bo_AutoDiscoveryKey_update (\<lambda>_. v))),
      (''config'', FString (\<lambda>v. bo_ConfigFile_update (\<lambda>_. v))),
      (''gpu'', FBool (\<lambda>v. bo_EnableGPU_update (\<lambda>_. v)))]"

definition short_flags :: "(string \<times> string) list" where
  "short_flags = [(''e'', ''endpoint''), (''t'', ''token''), (''i'', ''interval''), (''r'', ''max-retries''),
     (''u'', ''ignore-unsafe-cert''), (''c'', ''reconnect-interval'')]"

definition long_key :: "string \<Rightarrow> string" where
  "long_key key =
     (if length key = 2 \<and> starts_with ''-'' key then
        (case map_of short_flags (drop 1 key) of None \<Rightarrow> key | Some name \<Rightarrow> ''--'' @ name)
      else key)"

definition ParseBool :: "string \<Rightarrow> bool option" where
  "ParseBool s =
     (if s \<in> {''1'', ''t'', ''T'', ''TRUE'', ''true'', ''True''} then Some True
      else if s \<in> {''0'', ''f'', ''F'', ''FALSE'', ''false'', ''False''} then Some False else None)"

text \<open>The assignment of a textual value; \<open>parse_float\<close> is \<open>strconv.ParseFloat\<close>.\<close>

definition set_field :: "(string \<Rightarrow> u64 option) \<Rightarrow> field \<Rightarrow> string \<Rightarrow> bootstrap \<Rightarrow> bootstrap option" where
  "set_field parse_float f value c =
     (case f of
        FString s \<Rightarrow> Some (s value c)
      | FBool s \<Rightarrow> map_option (\<lambda>b. s b c) (ParseBool value)
      | FInt s \<Rightarrow> map_option (\<lambda>n. s n c) (Atoi value)
      | FFloat s \<Rightarrow> map_option (\<lambda>x. s x c) (parse_float value))"

definition is_bool :: "field \<Rightarrow> bool" where
  "is_bool f = (case f of FBool _ \<Rightarrow> True | _ \<Rightarrow> False)"

fun legacy_loop :: "(string \<Rightarrow> u64 option) \<Rightarrow> string list \<Rightarrow> bootstrap \<Rightarrow> bootstrap option" where
  "legacy_loop parse_float [] c = Some c"
| "legacy_loop parse_float (arg # rest) c =
     (let (key, value, has) = (case Cut ''='' arg of None \<Rightarrow> (arg, [], False) | Some (k, v) \<Rightarrow> (k, v, True));
          key = long_key key
      in if key = ''--service-manifest'' then
           (if has then legacy_loop parse_float rest c
            else case rest of [] \<Rightarrow> None | _ # rest' \<Rightarrow> legacy_loop parse_float rest' c)
         else case map_of legacy_fields (TrimPrefix key ''--'') of
           None \<Rightarrow> None
         | Some f \<Rightarrow>
             if \<not> starts_with ''--'' key then None
             else if has \<or> is_bool f then
               (case set_field parse_float f (if has then value else ''true'') c of
                  None \<Rightarrow> None
                | Some c' \<Rightarrow> legacy_loop parse_float rest c')
             else case rest of
               [] \<Rightarrow> None
             | value # rest' \<Rightarrow>
                 (case set_field parse_float f value c of
                    None \<Rightarrow> None
                  | Some c' \<Rightarrow> legacy_loop parse_float rest' c'))"

text \<open>\<open>read\<close> is \<open>ReadCandidate\<close> on the tree of the machine, \<open>unmarshal\<close> decodes JSON onto a configuration.\<close>

definition parseLegacyBootstrap ::
  "(string \<Rightarrow> u64 option) \<Rightarrow> tree \<Rightarrow> (bytes \<Rightarrow> bootstrap \<Rightarrow> bootstrap option) \<Rightarrow> string list \<Rightarrow> bootstrap option" where
  "parseLegacyBootstrap parse_float root unmarshal args =
     (case legacy_loop parse_float (drop 1 args) bootstrap_defaults of
        None \<Rightarrow> None
      | Some c \<Rightarrow>
          (case (if bo_ConfigFile c = [] then Some c
                 else case ReadCandidate root (bo_ConfigFile c) of
                        Inl _ \<Rightarrow> None | Inr data \<Rightarrow> unmarshal data c) of
             None \<Rightarrow> None
           | Some c' \<Rightarrow>
               Some (c'\<lparr>bo_DisableRemoteControl := bo_DisableRemoteControl c' \<or> bo_DisableRemoteControl c\<rparr>)))"

text \<open>\<open>environment\<close> is the output of \<open>systemctl show\<close> for the environment properties.\<close>

definition captureBootstrap ::
  "(string \<Rightarrow> u64 option) \<Rightarrow> tree \<Rightarrow> (bytes \<Rightarrow> bootstrap \<Rightarrow> bootstrap option) \<Rightarrow> bytes option \<Rightarrow> Manifest \<Rightarrow>
     serviceObservation \<Rightarrow> Trust \<Rightarrow> bootstrap option" where
  "captureBootstrap parse_float root unmarshal environment m ob t =
     (case parseExecStart (so_ExecStart ob) of
        None \<Rightarrow> None
      | Some args \<Rightarrow>
          if hd args \<noteq> Executable m then None
          else case parseLegacyBootstrap parse_float root unmarshal args of
            None \<Rightarrow> None
          | Some c \<Rightarrow>
              (case environment of
                 None \<Rightarrow> None
               | Some env \<Rightarrow>
                   if \<exists>line \<in> set (split_at CHR 0x0A env). case Cut ''='' line of None \<Rightarrow> False | Some (_, v) \<Rightarrow> v \<noteq> []
                   then None
                   else Some (c\<lparr>bo_Endpoint := tr_Endpoint t\<rparr>)))"

section \<open>Local ceilings\<close>

definition legacyRemoteControlReview :: "HostPolicy \<Rightarrow> PrivilegedRevision \<Rightarrow> HostPolicy \<times> bool" where
  "legacyRemoteControlReview p r =
     (let review = (ForceDenyRemoteControl p \<and> AllowRemoteControl p \<and> DisableSource p = ''legacy-unknown-preserve'' \<and>
            (case pr_Privileged r of None \<Rightarrow> False | Some c \<Rightarrow> get_bool (pc_RemoteControlEnabled c)))
      in (if review then p\<lparr>ForceDenyRemoteControl := False\<rparr> else p, review))"

text \<open>The answer of the administrator: the first line of the first 512 bytes read from the terminal.\<close>

definition readLegacyRemoteControlConsent :: "bytes \<Rightarrow> string \<Rightarrow> u64 \<Rightarrow> bool" where
  "readLegacyRemoteControlConsent input service revision =
     (case Cut [CHR 0x0A] (take 512 input) of
        None \<Rightarrow> False
      | Some (line, _) \<Rightarrow> TrimSpace line = ''authorize '' @ service @ '' '' @ Itoa (uint revision))"

definition localCeilingViolations :: "HostPolicy \<Rightarrow> Settings \<Rightarrow> bool \<Rightarrow> string list" where
  "localCeilingViolations p s installingHelper =
     (if RemoteControlEnabled s then
        (if ForceDenyRemoteControl p
         then [''remote_control_enabled blocked by force_deny_remote_control=true (source='' @ DisableSource p @ '')'']
         else []) @
        (if \<not> AllowRemoteControl p then [''remote_control_enabled blocked by allow_remote_control=false''] else [])
      else []) @
     concat (map (\<lambda>(requested, allowed, fld, ceiling).
         if requested \<and> \<not> allowed then [fld @ '' blocked by '' @ ceiling @ ''=false''] else [])
       [(WebSSHEnabled s, AllowWebSSH p, ''webssh_enabled'', ''allow_webssh''),
        (ExecutionEnabled s, AllowExecution p, ''execution_enabled'', ''allow_execution''),
        (EnableGPU s, AllowGPU p, ''enable_gpu'', ''allow_gpu'')]) @
     (if RescueHelperEnabled s then
        (if ForceDenyRescueHelper p then [''rescue_helper_enabled blocked by force_deny_rescue_helper=true''] else []) @
        (if \<not> AllowRescueHelper p \<and> \<not> installingHelper
         then [''rescue_helper_enabled blocked by allow_rescue_helper=false without a signed install action''] else [])
      else [])"

section \<open>Facts\<close>

text \<open>
  The counter of \<open>verifyService\<close> looks for three observations in a row of one process, all with the wanted
  profile; attempts that see no process are passed over.
\<close>

definition steady :: "(string \<times> bool) list \<Rightarrow> bool" where
  "steady xs \<longleftrightarrow> (\<exists>as pid bs. xs = as @ [(pid, True), (pid, True), (pid, True)] @ bs)"

lemma steady_Cons: "steady (x # xs) \<longleftrightarrow> (snd x \<and> (\<exists>bs. xs = x # x # bs)) \<or> steady xs" (is "?l \<longleftrightarrow> ?r")
proof
  assume ?l
  then obtain as pid bs where e: "x # xs = as @ [(pid, True), (pid, True), (pid, True)] @ bs"
    unfolding steady_def by blast
  show ?r
  proof (cases as)
    case Nil
    with e show ?thesis by auto
  next
    case (Cons a as')
    with e show ?thesis by (auto simp: steady_def)
  qed
next
  assume ?r
  then show ?l
  proof
    assume "snd x \<and> (\<exists>bs. xs = x # x # bs)"
    then obtain bs where "x # xs = [] @ [(fst x, True), (fst x, True), (fst x, True)] @ bs"
      by (cases x) auto
    then show ?thesis unfolding steady_def by blast
  next
    assume "steady xs"
    then show ?thesis unfolding steady_def by (metis append_Cons)
  qed
qed

lemma short_cases: "n < (3::nat) \<Longrightarrow> n = 0 \<or> n = 1 \<or> n = 2"
  by linarith

lemma steady_Nil [simp]: "\<not> steady []"
  by (simp add: steady_def)

lemma steady_other: "\<not> v \<Longrightarrow> n < 3 \<Longrightarrow> steady (replicate n (p, True) @ (q, v) # xs) \<longleftrightarrow> steady xs"
  by (drule short_cases) (auto simp: steady_Cons numeral_2_eq_2)

lemma steady_switch: "p \<noteq> q \<Longrightarrow> n < 3 \<Longrightarrow>
    steady (replicate n (p, True) @ (q, True) # xs) \<longleftrightarrow> steady ((q, True) # xs)"
  by (drule short_cases) (auto simp: steady_Cons numeral_2_eq_2)

lemma verify_loop_steady:
  assumes "streak < 3" and "\<forall>s \<in> set ss. \<forall>pid v. see s = Some (pid, v) \<longrightarrow> pid \<noteq> []"
  shows "verify_loop see ss previous streak \<longleftrightarrow>
    steady (replicate streak (previous, True) @ List.map_filter see ss)"
  using assms
proof (induction ss arbitrary: previous streak)
  case Nil
  have "\<not> steady (replicate streak (previous, True))"
    using short_cases [OF Nil.prems(1)] by (auto simp: steady_Cons numeral_2_eq_2)
  then show ?case by (simp add: map_filter_simps)
next
  case (Cons s ss)
  show ?case
  proof (cases "see s")
    case None
    with Cons show ?thesis by (simp add: map_filter_simps)
  next
    case (Some x)
    obtain pid v where x: "x = (pid, v)" by force
    have IH: "n < 3 \<Longrightarrow> verify_loop see ss p n \<longleftrightarrow> steady (replicate n (p, True) @ List.map_filter see ss)" for p n
      using Cons.IH Cons.prems(2) by simp
    show ?thesis
    proof (cases v)
      case False
      with Some x Cons.prems(1) show ?thesis by (simp add: map_filter_simps IH steady_other)
    next
      case True
      show ?thesis
      proof (cases "pid = previous")
        case same: True
        consider "streak = 2" | "streak + 1 < 3" using Cons.prems(1) by linarith
        then show ?thesis
        proof cases
          case 1
          with Some x True same show ?thesis
            by (simp add: map_filter_simps steady_Cons numeral_2_eq_2)
        next
          case 2
          with Some x True same show ?thesis
            using IH [of "streak + 1" previous]
            by (simp add: map_filter_simps replicate_app_Cons_same)
        qed
      next
        case False
        with Some x True Cons.prems(1) show ?thesis
          using IH [of 1 pid] by (simp add: map_filter_simps steady_switch)
      qed
    qed
  qed
qed

text \<open>
  C36: The counting loop of \<open>verifyService\<close> accepts exactly when three observations in a row, among those of the
  thirty attempts that see a process, are of one process with the wanted profile.
\<close>

theorem verifyService_steady:
  "verifyService obs wantUID mode \<longleftrightarrow> steady (List.map_filter (sighted wantUID mode) (map obs [0..<30]))"
proof -
  have "pid \<noteq> []" if "sighted wantUID mode s = Some (pid, v)" for s pid v
    using that by (auto simp: sighted_def split: option.splits if_splits)
  then show ?thesis
    using verify_loop_steady [of 0 "map obs [0..<30]" "sighted wantUID mode" "[]"]
    by (simp add: verifyService_def)
qed

text \<open>The words of a quoted line come back, whatever they contain but control bytes and expansions.\<close>

definition quotable :: "string \<Rightarrow> bool" where
  "quotable s \<longleftrightarrow> set s \<inter> {CHR 0x00, CHR 0x0A, CHR ''%'', CHR ''$''} = {}"

lemma ReplaceAll_Cons: "ReplaceAll c r (x # xs) = (if x = c then r else [x]) @ ReplaceAll c r xs"
  by (simp add: ReplaceAll_def)

lemma ReplaceAll_Nil [simp]: "ReplaceAll c r [] = []"
  by (simp add: ReplaceAll_def)

lemma ReplaceAll_append: "ReplaceAll c r (xs @ ys) = ReplaceAll c r xs @ ReplaceAll c r ys"
  by (simp add: ReplaceAll_def)

lemma split_loop_quoted:
  assumes "quotable s"
  shows "split_loop args token (Some CHR 0x22) started
      (ReplaceAll (CHR ''$'') ''$$'' (ReplaceAll (CHR ''%'') ''%%''
        (ReplaceAll (CHR 0x22) [CHR 0x5C, CHR 0x22] (ReplaceAll (CHR 0x5C) [CHR 0x5C, CHR 0x5C] s))) @ CHR 0x22 # rest) =
    split_loop args (token @ s) None (started \<or> s \<noteq> []) rest"
  using assms
proof (induction s arbitrary: token started)
  case (Cons x xs)
  have q: "quotable xs" "x \<notin> {CHR 0x00, CHR 0x0A, CHR ''%'', CHR ''$''}"
    using Cons.prems by (auto simp: quotable_def)
  consider "x = CHR 0x5C" | "x = CHR 0x22" | "x \<notin> {CHR 0x5C, CHR 0x22}" by auto
  then show ?case
    using q(2) Cons.IH [OF q(1), of "token @ [x]" True]
    by cases (auto simp: ReplaceAll_Cons ReplaceAll_append)
qed simp

lemma split_loop_word:
  assumes "quotable s"
  shows "split_loop args [] None False (unitQuote s @ rest) = split_loop args s None True rest"
  using split_loop_quoted [OF assms, of args "[]" True rest] by (simp add: unitQuote_def)

lemma split_loop_words:
  assumes "\<forall>w \<in> set ws. quotable w"
  shows "split_loop args [] None False (join '' '' (map unitQuote ws)) = Some (args @ ws)"
  using assms
proof (induction ws arbitrary: args)
  case (Cons w ws)
  then have w: "quotable w" "\<forall>v \<in> set ws. quotable v" by simp_all
  show ?case
  proof (cases ws)
    case Nil
    with split_loop_word [OF w(1), of args "[]"] show ?thesis by simp
  next
    case (Cons v vs)
    with split_loop_word [OF w(1), of args "'' '' @ join '' '' (map unitQuote ws)"]
      Cons.IH [OF w(2), of "args @ [w]"]
    show ?thesis by simp
  qed
qed simp

text \<open>
  Words quoted for a unit file are read back as they were by the parser of command lines, when they hold no
  character that systemd would expand or that the parser refuses.
\<close>

theorem quoted_words_round_trip:
  assumes "\<forall>w \<in> set ws. quotable w"
  shows "splitWords (join '' '' (map unitQuote ws)) = Some ws"
  unfolding splitWords_def using split_loop_words [OF assms, of "[]"] by simp

theorem quoted_words_round_trip_witness:
  "splitWords (join '' '' (map unitQuote [''/opt/k/agent'', [], ''a '' @ [CHR 0x22, CHR 0x27, CHR 0x5C] @ ''b''])) =
     Some [''/opt/k/agent'', [], ''a '' @ [CHR 0x22, CHR 0x27, CHR 0x5C] @ ''b'']"
  by (rule quoted_words_round_trip) (simp add: quotable_def)

lemma ceilings_empty:
  "localCeilingViolations p s installing = [] \<longleftrightarrow>
     (RemoteControlEnabled s \<longrightarrow> \<not> ForceDenyRemoteControl p \<and> AllowRemoteControl p) \<and>
     (WebSSHEnabled s \<longrightarrow> AllowWebSSH p) \<and> (ExecutionEnabled s \<longrightarrow> AllowExecution p) \<and>
     (EnableGPU s \<longrightarrow> AllowGPU p) \<and>
     (RescueHelperEnabled s \<longrightarrow> \<not> ForceDenyRescueHelper p \<and> (AllowRescueHelper p \<or> installing))"
  by (auto simp: localCeilingViolations_def)

end
