(* ===== verification/HostJournal.thy ===== *)
theory HostJournal
  imports HostService Delivery
begin

text \<open>
  The journal of a host transaction (\<open>internal/hostcmd/transaction_linux.go\<close>): the files of the machine,
  the journal on disk and in memory, and the operations that back files up, fence the state
  directories and restore ownership. Every call that can fail takes one tick, and the environment says
  what happens at each tick, so that a fault or a crash at any point is one of the environments.
\<close>

section \<open>Files\<close>

datatype kind = KRegular | KDirectory | KSymlink | KSpecial

text \<open>\<open>nd_data\<close> is \<open>None\<close> for a file that was only partly written.\<close>

record inode =
  nd_kind :: kind
  nd_data :: "bytes option"
  nd_uid :: int
  nd_gid :: int
  nd_mode :: nat
  nd_dev :: nat
  nd_nlink :: nat

definition root_file :: "bytes option \<Rightarrow> nat \<Rightarrow> inode" where
  "root_file data mode = \<lparr>nd_kind = KRegular, nd_data = data, nd_uid = 0, nd_gid = 0, nd_mode = mode, nd_dev = 0,
     nd_nlink = 1\<rparr>"

definition node_size :: "inode \<Rightarrow> nat" where
  "node_size n = (case nd_data n of None \<Rightarrow> 0 | Some d \<Rightarrow> length d)"

section \<open>The journal\<close>

record fileBackup =
  fb_Path :: path
  fb_Backup :: path
  fb_Mode :: nat
  fb_UID :: int
  fb_GID :: int
  fb_Exists :: bool

record ownership =
  ow_Path :: path
  ow_UID :: int
  ow_GID :: int
  ow_Mode :: nat

record hostJournal =
  hj_Version :: int
  hj_Manifest :: path
  hj_ID :: string
  hj_Phase :: string
  hj_Operator :: string
  hj_Revision :: bytes
  hj_Operation :: bytes
  hj_Receipt :: bytes
  hj_SupersededReceipts :: "bytes list"
  hj_Backups :: "fileBackup list"
  hj_Ownership :: "ownership list"
  hj_RecoveryOwnership :: "ownership list"
  hj_Error :: string
  hj_PreviousMode :: int
  hj_PreviousUID :: int
  hj_PreviousHelper :: bool
  hj_FenceStage :: string
  hj_LegacyRemoteControlConsent :: bool

definition hostJournalVersion :: int where
  "hostJournalVersion = 3"

definition maxStateFileBytes :: nat where
  "maxStateFileBytes = 256 * 2 ^ 20"

definition maxStateTreeBytes :: nat where
  "maxStateTreeBytes = 512 * 2 ^ 20"

definition maxStateEntries :: nat where
  "maxStateEntries = 512"

text \<open>
  The machine as the tool sees it: the files by path, \<open>transaction.json\<close> of the active directory
  (decoded; \<open>None\<close> without one), the journal in memory, the archived journals by operation, the
  budget of the fence being built and the calls of \<open>systemctl\<close> made so far.
\<close>

record host =
  h_files :: "path \<rightharpoonup> inode"
  h_journal :: "hostJournal option"
  h_mem :: hostJournal
  h_archive :: "(string \<times> hostJournal) list"
  h_entries :: nat
  h_bytes :: nat
  h_calls :: "string list list"
  h_tick :: nat

section \<open>Places\<close>

definition journalDir :: "Manifest \<Rightarrow> path" where
  "journalDir m = Join [''/var/lib/komari-host'', ServiceName m]"

definition journalPath :: "Manifest \<Rightarrow> path" where
  "journalPath m = Join [journalDir m, ''transaction.json'']"

definition profilePath :: "Manifest \<Rightarrow> path" where
  "profilePath m = Join [''/etc/systemd/system'', ServiceName m @ ''.service.d/95-komari-host-profile.conf'']"

definition bootstrapPath :: "Manifest \<Rightarrow> path" where
  "bootstrapPath m = Join [Dir (Executable m), ''host-bootstrap.json'']"

definition helperUnit :: "Manifest \<Rightarrow> string" where
  "helperUnit m = ServiceName m @ ''-rescue.service''"

definition helperBinary :: "Manifest \<Rightarrow> path" where
  "helperBinary m = Join [Dir (HostTool m), ''komari-agent-rescue'']"

definition helperConfig :: "Manifest \<Rightarrow> path" where
  "helperConfig m = Join [Dir (HostTool m), ''rescue.json'']"

definition helperUnitPath :: "Manifest \<Rightarrow> path" where
  "helperUnitPath m = Join [''/etc/systemd/system'', helperUnit m]"

text \<open>The files that \<open>apply\<close> backs up before it changes anything.\<close>

definition protected_files :: "Manifest \<Rightarrow> path list" where
  "protected_files m = [profilePath m, bootstrapPath m, HostPolicyFile m, AppliedPath m, helperBinary m,
     helperConfig m, helperUnitPath m]"

text \<open>A path is \<open>dir\<close> or below it (\<open>path == dir || strings.HasPrefix(path, dir+"/")\<close>).\<close>

definition under :: "path \<Rightarrow> path \<Rightarrow> bool" where
  "under dir p \<longleftrightarrow> p = dir \<or> starts_with (dir @ ''/'') p"

section \<open>Steps\<close>

text \<open>
  What a call does at its tick: it works, it fails without an effect, or it has its effect and still
  reports an error (a rename whose directory flush failed, a request whose answer is lost).
\<close>

datatype outcome = Works | Fails | FailsAfter

type_synonym 'a step = "host \<Rightarrow> (go_error + 'a) \<times> host"

definition ret :: "'a \<Rightarrow> 'a step" where
  "ret x h = (Inr x, h)"

definition fail :: "string \<Rightarrow> 'a step" where
  "fail msg h = (Inl (local_error msg), h)"

definition raise :: "go_error \<Rightarrow> 'a step" where
  "raise err h = (Inl err, h)"

definition gets :: "(host \<Rightarrow> 'a) \<Rightarrow> 'a step" where
  "gets f h = (Inr (f h), h)"

definition modify :: "(host \<Rightarrow> host) \<Rightarrow> unit step" where
  "modify f h = (Inr (), f h)"

text \<open>\<open>andThen s k\<close>: run \<open>s\<close>, return its error, or go on with its result.\<close>

definition andThen :: "'a step \<Rightarrow> ('a \<Rightarrow> 'b step) \<Rightarrow> 'b step" where
  "andThen s k h = (case s h of (Inl err, h') \<Rightarrow> (Inl err, h') | (Inr x, h') \<Rightarrow> k x h')"

text \<open>A sequence of steps, each of which returns its error at once.\<close>

fun script :: "unit step list \<Rightarrow> unit step" where
  "script [] = ret ()"
| "script (s # ss) = andThen s (\<lambda>_. script ss)"

text \<open>A call whose error the code drops.\<close>

definition ignoring :: "'a step \<Rightarrow> unit step" where
  "ignoring s h = (Inr (), snd (s h))"

definition require :: "bool \<Rightarrow> string \<Rightarrow> unit step" where
  "require b msg = (if b then ret () else fail msg)"

definition onlyif :: "bool \<Rightarrow> unit step \<Rightarrow> unit step" where
  "onlyif b s = (if b then s else ret ())"

definition from_option :: "string \<Rightarrow> 'a option \<Rightarrow> 'a step" where
  "from_option msg r = (case r of None \<Rightarrow> fail msg | Some x \<Rightarrow> ret x)"

text \<open>The error of another component, of which only the text is kept.\<close>

definition from_sum :: "string \<Rightarrow> 'e + 'a \<Rightarrow> 'a step" where
  "from_sum msg r = (case r of Inl _ \<Rightarrow> fail msg | Inr x \<Rightarrow> ret x)"

text \<open>One call of the operating system with effect \<open>f\<close>.\<close>

definition call :: "(nat \<Rightarrow> outcome) \<Rightarrow> string \<Rightarrow> (host \<Rightarrow> host) \<Rightarrow> unit step" where
  "call out msg f h =
     (let h1 = h\<lparr>h_tick := Suc (h_tick h)\<rparr> in
      case out (h_tick h) of
        Works \<Rightarrow> (Inr (), f h1)
      | Fails \<Rightarrow> (Inl (local_error msg), h1)
      | FailsAfter \<Rightarrow> (Inl (local_error msg), f h1))"

text \<open>A question to the outside (the panel, the process table), answered by the environment at its tick.\<close>

definition ask :: "(nat \<Rightarrow> go_error + 'a) \<Rightarrow> 'a step" where
  "ask answer h = (answer (h_tick h), h\<lparr>h_tick := Suc (h_tick h)\<rparr>)"

section \<open>The environment\<close>

text \<open>What the tool sends to the panel, and the configuration it writes for the rescue helper.\<close>

record prepare_request =
  pq_AgentId :: string
  pq_OperationId :: string
  pq_Revision :: u64
  pq_ApprovalGeneration :: u64
  pq_ConfigHash :: string
  pq_Nonce :: string

record report_request =
  rq_AgentId :: string
  rq_OperationId :: string
  rq_ReceiptId :: string
  rq_Phase :: int
  rq_Error :: string
  rq_LocalAuthentication :: string
  rq_Operator :: string

record rescue_config =
  rs_HostManifest :: path
  rs_Endpoint :: string
  rs_Token :: string
  rs_AgentID :: string
  rs_InstanceIDPath :: path
  rs_Version :: string
  rs_IgnoreUnsafeCert :: bool
  rs_CFAccessClientID :: string
  rs_CFAccessClientSecret :: string
  rs_CredentialsFile :: path
  rs_ReplayFile :: path
  rs_AgentPath :: path
  rs_ConfigPath :: path
  rs_RuntimeStatePath :: path
  rs_ServiceName :: string
  rs_RuntimeIdentity :: string
  rs_RuntimeUser :: string
  rs_ControlPlaneURL :: string
  rs_IsolationStatePath :: path
  rs_PrivilegedStatePath :: path

text \<open>The journal of a software upgrade (\<open>upgrade_state_linux.go\<close>).\<close>

record softwareUpgrade =
  su_Phase :: string
  su_Version :: string
  su_Manifest :: path
  su_Paths :: "path list"
  su_Modes :: "nat list"
  su_Active :: "bool list"
  su_At :: gotime
  su_PreviousAttempt :: string

datatype finish_event = CtxDone | DeadlineFired | TickerFired

text \<open>
  The environment: what happens at a tick (\<open>te_out\<close>), what the services and the rest of the machine do to
  the files while \<open>systemctl\<close> runs (\<open>te_services\<close>), the answers of the operating system (directory
  listings, the user database with UID and GID as text, the directory tree of candidates, processes,
  heartbeats, \<open>systemctl show\<close>, local authentication, the consent of the administrator), the answers of
  the panel and of the publisher, the clock, the identifiers that are drawn, and the primitives
  (Ed25519, SHA-256, JSON and protobuf). \<open>te_RESTORED\<close> is the number of a constant of the generated code.
\<close>

record host_env =
  te_manifest :: Manifest
  te_out :: "nat \<Rightarrow> outcome"
  te_services :: "nat \<Rightarrow> (path \<rightharpoonup> inode) \<Rightarrow> (path \<rightharpoonup> inode)"
  te_names :: "nat \<Rightarrow> path \<Rightarrow> string list"
  te_user :: "string \<Rightarrow> (string \<times> string) option"
  te_tree :: "nat \<Rightarrow> tree"
  te_sightings :: "nat \<Rightarrow> string \<Rightarrow> nat \<Rightarrow> sighting"
  te_beats :: "nat \<Rightarrow> nat \<Rightarrow> helper_error + HelperStatus"
  te_show :: "nat \<Rightarrow> string \<Rightarrow> string \<Rightarrow> bytes option"
  te_authenticate :: "nat \<Rightarrow> go_error + string"
  te_tty :: "nat \<Rightarrow> bytes option"
  te_delivery :: "nat \<Rightarrow> go_error + PrivilegedRevision option"
  te_operation :: "nat \<Rightarrow> string \<Rightarrow> go_error + HostOperation option"
  te_prepare :: "nat \<Rightarrow> prepare_request \<Rightarrow> go_error + HostOperation option"
  te_report :: "nat \<Rightarrow> report_request \<Rightarrow> go_error + bool"
  te_http :: "nat \<Rightarrow> string \<Rightarrow> (int \<times> int \<times> bytes) option"
  te_now :: "nat \<Rightarrow> gotime"
  te_uuid :: "nat \<Rightarrow> string"
  te_ed :: "bytes \<Rightarrow> bytes \<Rightarrow> bytes \<Rightarrow> bool"
  te_sha :: "bytes \<Rightarrow> bytes"
  te_unm :: "bytes \<Rightarrow> SignedInstruction option"
  te_revision_body :: "PrivilegedRevision \<Rightarrow> bytes option"
  te_operation_body :: "HostOperation \<Rightarrow> bytes option"
  te_decode_revision :: "bytes \<Rightarrow> PrivilegedRevision option"
  te_encode_report :: "report_request \<Rightarrow> bytes option"
  te_decode_report :: "bytes \<Rightarrow> report_request option"
  te_encode_policy :: "HostPolicy \<Rightarrow> bytes option"
  te_decode_policy :: "bytes \<Rightarrow> (HostPolicy \<times> bytes) option"
  te_decode_trust :: "bytes \<Rightarrow> (Trust \<times> bytes) option"
  te_decode_access :: "bytes \<Rightarrow> (AccessConfig \<times> bytes) option"
  te_decode_manifest :: "bytes \<Rightarrow> (Manifest \<times> bytes) option"
  te_decode_identity :: "bytes \<Rightarrow> Identity option"
  te_decode_signed :: "bytes \<Rightarrow> (ReleaseManifest \<times> bytes) option"
  te_unmarshal_signed :: "bytes \<Rightarrow> ReleaseManifest option"
  te_encode_signed :: "ReleaseManifest \<Rightarrow> bytes option"
  te_decode_payload :: "bytes \<Rightarrow> ReleasePayload option"
  te_encode_payload :: "ReleasePayload \<Rightarrow> bytes option"
  te_encode_bootstrap :: "bootstrap \<Rightarrow> bytes option"
  te_decode_bootstrap :: "bytes \<Rightarrow> bootstrap \<Rightarrow> bootstrap option"
  te_parse_float :: "string \<Rightarrow> u64 option"
  te_encode_applied :: "AppliedRecord \<Rightarrow> bytes option"
  te_encode_rescue :: "rescue_config \<Rightarrow> bytes option"
  te_url :: "string \<Rightarrow> url_parts option"
  te_os :: string
  te_arch :: string
  te_RESTORED :: int
  te_finish :: "nat \<Rightarrow> finish_event"
  te_glob :: "nat \<Rightarrow> path \<Rightarrow> path list"
  te_decode_upgrade :: "bytes \<Rightarrow> (softwareUpgrade \<times> bytes) option"
  te_encode_upgrade :: "softwareUpgrade \<Rightarrow> bytes option"
  te_decode_rescue :: "bytes \<Rightarrow> (rescue_config \<times> bytes) option"
  te_encode_manifest :: "Manifest \<Rightarrow> bytes option"
  te_encode_trust :: "Trust \<Rightarrow> bytes option"
  te_encode_revision :: "PrivilegedRevision \<Rightarrow> bytes option"
  te_encode_operation :: "HostOperation \<Rightarrow> bytes option"
  te_exe :: "nat \<Rightarrow> string \<Rightarrow> path option"
  te_self :: path
  te_version :: string
  te_euid :: int

text \<open>\<open>os.Lstat\<close> on the files and on the journal, which the tool writes as a private file of root.\<close>

definition node_stat :: "inode \<Rightarrow> file_stat" where
  "node_stat n = \<lparr>fs_uid = nat (nd_uid n), fs_perm = nd_mode n, fs_symlink = nd_kind n = KSymlink\<rparr>"

definition h_lstat :: "Manifest \<Rightarrow> host \<Rightarrow> path \<Rightarrow> file_stat option" where
  "h_lstat m h p =
     (if p = journalPath m then map_option (\<lambda>_. node_stat (root_file None 384)) (h_journal h)
      else map_option node_stat (h_files h p))"

definition h_open :: "host \<Rightarrow> path \<Rightarrow> host_file option" where
  "h_open h p =
     (case h_files h p of
        None \<Rightarrow> None
      | Some n \<Rightarrow> Some \<lparr>hf_regular = nd_kind n = KRegular, hf_size = node_size n,
          hf_data = (case nd_data n of None \<Rightarrow> [] | Some d \<Rightarrow> d)\<rparr>)"

definition h_fs :: "Manifest \<Rightarrow> host \<Rightarrow> host_fs" where
  "h_fs m h = \<lparr>lstat = h_lstat m h, open_file = h_open h\<rparr>"

definition trusted :: "Manifest \<Rightarrow> path \<Rightarrow> unit step" where
  "trusted m p = andThen (gets (\<lambda>h. TrustedPath (h_lstat m h) p)) (\<lambda>r. require (r = None) ''untrusted path'')"

text \<open>\<open>chown\<close> leaves an identity of -1 alone.\<close>

definition chown_id :: "int \<Rightarrow> int \<Rightarrow> int" where
  "chown_id old new = (if new = -1 then old else new mod 2 ^ 32)"

definition put :: "path \<Rightarrow> inode option \<Rightarrow> host \<Rightarrow> host" where
  "put p n h = h\<lparr>h_files := (h_files h)(p := n)\<rparr>"

definition change :: "path \<Rightarrow> (inode \<Rightarrow> inode) \<Rightarrow> host \<Rightarrow> host" where
  "change p f h = h\<lparr>h_files := (h_files h)(p := map_option f (h_files h p))\<rparr>"

definition chown :: "host_env \<Rightarrow> path \<Rightarrow> int \<Rightarrow> int \<Rightarrow> unit step" where
  "chown e p uid gid =
     call (te_out e) ''chown'' (change p (\<lambda>n. n\<lparr>nd_uid := chown_id (nd_uid n) uid, nd_gid := chown_id (nd_gid n) gid\<rparr>))"

definition chmod :: "host_env \<Rightarrow> path \<Rightarrow> nat \<Rightarrow> unit step" where
  "chmod e p mode = call (te_out e) ''chmod'' (change p (\<lambda>n. n\<lparr>nd_mode := mode\<rparr>))"

text \<open>A read of the operating system that can fail but changes nothing.\<close>

definition probe :: "host_env \<Rightarrow> string \<Rightarrow> unit step" where
  "probe e msg = call (te_out e) msg (\<lambda>h. h)"

text \<open>
  \<open>AtomicWriteOwned\<close> as its callers see it: all of the new file or none of it; the temporary file is not
  followed. A directory in the place makes the rename fail.
\<close>

definition write_owned :: "host_env \<Rightarrow> path \<Rightarrow> bytes \<Rightarrow> nat \<Rightarrow> int \<Rightarrow> int \<Rightarrow> unit step" where
  "write_owned e p data mode uid gid =
     andThen (gets (\<lambda>h. h_files h p)) (\<lambda>old.
       if (case old of None \<Rightarrow> False | Some n \<Rightarrow> nd_kind n \<noteq> KRegular) then fail ''not a regular file''
       else call (te_out e) ''write'' (put p (Some ((root_file (Some data) mode)
              \<lparr>nd_uid := chown_id 0 uid, nd_gid := chown_id 0 gid\<rparr>))))"

definition write_file :: "host_env \<Rightarrow> path \<Rightarrow> bytes \<Rightarrow> nat \<Rightarrow> unit step" where
  "write_file e p data mode = write_owned e p data mode (-1) (-1)"

text \<open>\<open>os.Remove\<close>, with the test for a missing file that every caller makes.\<close>

definition remove_file :: "host_env \<Rightarrow> path \<Rightarrow> unit step" where
  "remove_file e p = call (te_out e) ''remove'' (put p None)"

text \<open>\<open>systemctl\<close>: the program itself must be trusted; the services act on the files while it runs.\<close>

definition systemctl :: "host_env \<Rightarrow> string list \<Rightarrow> unit step" where
  "systemctl e args =
     script [trusted (te_manifest e) ''/usr/bin/systemctl'',
       call (te_out e) ''systemctl'' (\<lambda>h. h\<lparr>h_calls := h_calls h @ [args],
         h_files := te_services e (h_tick h) (h_files h)\<rparr>)]"

section \<open>Saving and backing up\<close>

definition mem :: "(hostJournal \<Rightarrow> hostJournal) \<Rightarrow> unit step" where
  "mem f = modify (\<lambda>h. h\<lparr>h_mem := f (h_mem h)\<rparr>)"

definition save :: "host_env \<Rightarrow> unit step" where
  "save e = call (te_out e) ''save journal'' (\<lambda>h. h\<lparr>h_journal := Some (h_mem h)\<rparr>)"

definition set_phase :: "host_env \<Rightarrow> string \<Rightarrow> unit step" where
  "set_phase e phase = script [mem (hj_Phase_update (\<lambda>_. phase)), save e]"

text \<open>
  \<open>io.Copy\<close> into the new backup file: a failure leaves a partial copy. \<open>O_EXCL\<close> refuses a file that
  exists.
\<close>

definition copy_backup :: "host_env \<Rightarrow> bytes option \<Rightarrow> path \<Rightarrow> unit step" where
  "copy_backup e data target =
     script [andThen (gets (\<lambda>h. h_files h target)) (\<lambda>old. require (old = None) ''backup exists''),
       call (te_out e) ''create backup'' (put target (Some (root_file None 384))),
       call (te_out e) ''copy backup'' (change target (\<lambda>n. n\<lparr>nd_data := data\<rparr>)),
       probe e ''sync backup'', probe e ''close backup'']"

text \<open>The name of the next backup (\<open>fmt.Sprintf("backup-%d", len(j.Backups))\<close>).\<close>

definition backup_path :: "Manifest \<Rightarrow> nat \<Rightarrow> path" where
  "backup_path m k = Join [journalDir m, ''backup-'' @ Itoa (int k)]"

definition backup :: "host_env \<Rightarrow> path \<Rightarrow> unit step" where
  "backup e p =
     andThen (gets h_mem) (\<lambda>j.
       if \<exists>b \<in> set (hj_Backups j). fb_Path b = p then ret ()
       else
         (let b = \<lparr>fb_Path = p, fb_Backup = backup_path (te_manifest e) (length (hj_Backups j)),
                fb_Mode = 0, fb_UID = 0, fb_GID = 0, fb_Exists = False\<rparr> in
          andThen (probe e ''lstat'') (\<lambda>_. andThen (gets (\<lambda>h. h_files h p)) (\<lambda>st.
            case st of
              None \<Rightarrow> script [mem (hj_Backups_update (\<lambda>bs. bs @ [b])), save e]
            | Some n \<Rightarrow>
                script [require (nd_kind n = KRegular \<and> node_size n \<le> 256 * 2 ^ 20) ''unsafe transaction backup file'',
                  trusted (te_manifest e) p,
                  probe e ''open'',
                  copy_backup e (nd_data n) (fb_Backup b),
                  mem (hj_Backups_update (\<lambda>bs. bs @ [b\<lparr>fb_Exists := True, fb_Mode := nd_mode n, fb_UID := nd_uid n,
                    fb_GID := nd_gid n\<rparr>])),
                  save e]))))"

section \<open>The fence of the state directories\<close>

text \<open>\<open>entries := &j.Ownership\<close>, or the recovery list.\<close>

definition entries_of :: "bool \<Rightarrow> hostJournal \<Rightarrow> ownership list" where
  "entries_of recovery j = (if recovery then hj_RecoveryOwnership j else hj_Ownership j)"

definition add_entry :: "bool \<Rightarrow> ownership \<Rightarrow> hostJournal \<Rightarrow> hostJournal" where
  "add_entry recovery en j =
     (if recovery then j\<lparr>hj_RecoveryOwnership := hj_RecoveryOwnership j @ [en]\<rparr>
      else j\<lparr>hj_Ownership := hj_Ownership j @ [en]\<rparr>)"

text \<open>
  \<open>copySealedStateFile\<close>: a fresh file of root takes the place of the old one, so that descriptors opened
  before lead nowhere.
\<close>

definition copySealedStateFile :: "host_env \<Rightarrow> path \<Rightarrow> inode \<Rightarrow> nat \<Rightarrow> unit step" where
  "copySealedStateFile e p n limit =
     (if node_size n > limit then fail ''state file grew beyond migration limit''
      else script [call (te_out e) ''copy state file'' (put p (Some (root_file (nd_data n) 384\<lparr>nd_dev := nd_dev n\<rparr>))),
        modify (\<lambda>h. h\<lparr>h_bytes := h_bytes h + node_size n\<rparr>)])"

text \<open>The checks of \<open>seal\<close> on an entry, its record in the journal, and the change of its owner and mode.\<close>

definition seal_checks :: "path \<Rightarrow> inode \<Rightarrow> int \<Rightarrow> nat \<Rightarrow> unit step" where
  "seal_checks p n owner device =
     script [
       require (nd_dev n = device \<and> (nd_uid n = owner \<or> nd_uid n = 0) \<and>
         (nd_kind n = KDirectory \<or> nd_kind n = KRegular \<and> nd_nlink n = 1))
         ''state tree contains an unexpected owner, mount, link or special file'',
       modify (\<lambda>h. h\<lparr>h_entries := Suc (h_entries h)\<rparr>),
       andThen (gets h_entries) (\<lambda>k. require (k \<le> maxStateEntries) ''state tree exceeds entry limit''),
       andThen (gets h_bytes) (\<lambda>used.
         require (nd_kind n = KDirectory \<or> node_size n \<le> min maxStateFileBytes (maxStateTreeBytes - used))
           ''state file exceeds the remaining migration limit'')]"

definition seal_record :: "host_env \<Rightarrow> path \<Rightarrow> inode \<Rightarrow> bool \<Rightarrow> unit step" where
  "seal_record e p n recovery =
     script [
       andThen (gets h_mem) (\<lambda>j.
         if \<exists>en \<in> set (entries_of recovery j). ow_Path en = p then ret ()
         else script [
           require (length (entries_of recovery j) < maxStateEntries) ''state tree exceeds reviewed migration limit'',
           mem (add_entry recovery \<lparr>ow_Path = p, ow_UID = nd_uid n, ow_GID = nd_gid n, ow_Mode = nd_mode n\<rparr>)]),
       save e]"

definition seal_close :: "host_env \<Rightarrow> path \<Rightarrow> inode \<Rightarrow> unit step" where
  "seal_close e p n =
     script [chown e p 0 0, chmod e p (if nd_kind n = KDirectory then 448 else 384)]"

text \<open>
  The recursion: \<open>fuel\<close> counts the levels below, nine of them for the depths 0 to 8. A link is refused by
  \<open>O_NOFOLLOW\<close>. The names are those of one directory, so \<open>filepath.Join\<close> appends them to its clean path.
\<close>

fun seal :: "host_env \<Rightarrow> int \<Rightarrow> nat \<Rightarrow> bool \<Rightarrow> nat \<Rightarrow> path \<Rightarrow> unit step" where
  "seal e owner device recovery 0 p = fail ''state tree exceeds depth limit''"
| "seal e owner device recovery (Suc fuel) p =
     andThen (probe e ''open'') (\<lambda>_. andThen (gets (\<lambda>h. h_files h p)) (\<lambda>st.
       case st of
         None \<Rightarrow> fail ''no such file''
       | Some n \<Rightarrow>
           if nd_kind n = KSymlink then fail ''too many levels of symbolic links''
           else script [seal_checks p n owner device, seal_record e p n recovery, seal_close e p n,
             (if nd_kind n = KDirectory then
                script [probe e ''readdir'',
                  andThen (gets (\<lambda>h. te_names e (h_tick h) p)) (\<lambda>names.
                    if length names > maxStateEntries then fail ''state directory has too many entries''
                    else script (map (\<lambda>name. seal e owner device recovery fuel (p @ ''/'' @ name)) names)),
                  probe e ''sync'']
              else andThen (gets h_bytes) (\<lambda>used.
                copySealedStateFile e p n (min maxStateFileBytes (maxStateTreeBytes - used))))]))"

definition fenceStateDirectories :: "host_env \<Rightarrow> path list \<Rightarrow> int \<Rightarrow> bool \<Rightarrow> unit step" where
  "fenceStateDirectories e dirs owner recovery =
     andThen (gets h_mem) (\<lambda>j.
       if recovery \<and> hj_FenceStage j = ''sealing'' then ret ()
       else script [
         (if recovery then ret () else script [mem (hj_FenceStage_update (\<lambda>_. ''sealing'')), save e]),
         modify (\<lambda>h. h\<lparr>h_entries := 0, h_bytes := 0\<rparr>),
         script (map (\<lambda>dir. andThen (probe e ''lstat'') (\<lambda>_. andThen (gets (\<lambda>h. h_files h dir)) (\<lambda>st.
             case st of
               None \<Rightarrow> fail ''no such file''
             | Some n \<Rightarrow>
                 if nd_kind n \<noteq> KDirectory then fail ''state root is not a directory''
                 else seal e owner (nd_dev n) recovery 9 dir))) dirs)])"

definition stateDirectories_loop_step ::
  "Manifest \<Rightarrow> path \<Rightarrow> path list \<Rightarrow> (path list) step" where
  "stateDirectories_loop_step m p dirs =
     (if \<not> IsAbs p \<or> Clean p \<noteq> p then fail ''state paths must be absolute and clean''
      else
        (let dir = Dir p in
         if dir \<in> {''/'', ''/etc'', ''/var'', ''/var/lib'', ''/opt'', ''/usr''}
         then fail ''state requires a dedicated directory''
         else if \<exists>ex \<in> set dirs. dir \<noteq> ex \<and> (starts_with (ex @ ''/'') dir \<or> starts_with (dir @ ''/'') ex)
         then fail ''nested state roots require reviewed migration''
         else if dir \<in> set dirs then ret dirs
         else andThen (trusted m (Dir dir)) (\<lambda>_. ret (dirs @ [dir]))))"

fun stateDirectories_loop :: "Manifest \<Rightarrow> path list \<Rightarrow> path list \<Rightarrow> (path list) step" where
  "stateDirectories_loop m [] dirs = ret dirs"
| "stateDirectories_loop m (p # ps) dirs =
     andThen (stateDirectories_loop_step m p dirs) (stateDirectories_loop m ps)"

definition stateDirectories :: "host_env \<Rightarrow> (path list) step" where
  "stateDirectories e =
     (let m = te_manifest e in
      stateDirectories_loop m [CredentialsFile m, RuntimeStateFile m, PrivilegedStateFile m, ReplayStateFile m] [])"

section \<open>Ownership\<close>

text \<open>\<open>changeOwnership\<close>: the entries in reverse order, a missing one skipped, a link refused.\<close>

definition change_entry :: "host_env \<Rightarrow> int \<Rightarrow> int \<Rightarrow> bool \<Rightarrow> ownership \<Rightarrow> unit step" where
  "change_entry e uid gid original en =
     andThen (probe e ''lstat'') (\<lambda>_. andThen (gets (\<lambda>h. h_files h (ow_Path en))) (\<lambda>st.
       case st of
         None \<Rightarrow> ret ()
       | Some n \<Rightarrow>
           if nd_kind n = KSymlink then fail ''state path became a symlink during restoration''
           else script [
             chown e (ow_Path en) (if original then ow_UID en else uid) (if original then ow_GID en else gid),
             chmod e (ow_Path en)
               (if original then ow_Mode en else if nd_kind n = KDirectory then 448 else 384)]))"

definition changeOwnership :: "host_env \<Rightarrow> ownership list \<Rightarrow> int \<Rightarrow> int \<Rightarrow> bool \<Rightarrow> unit step" where
  "changeOwnership e entries uid gid original = script (map (change_entry e uid gid original) (rev entries))"

text \<open>The map of \<open>restoreStateOwnership\<close>: a later entry of a path replaces an earlier one.\<close>

definition original_of :: "ownership list \<Rightarrow> path \<Rightarrow> ownership option" where
  "original_of os p = map_of (rev (map (\<lambda>en. (ow_Path en, en)) os)) p"

text \<open>The entry under which a file that appeared after the first fence is restored.\<close>

definition adopt_entry :: "host_env \<Rightarrow> ownership list \<Rightarrow> path list \<Rightarrow> ownership \<Rightarrow> ownership step" where
  "adopt_entry e os dirs en =
     (case find (\<lambda>dir. under dir (ow_Path en)) dirs of
        None \<Rightarrow> ret en
      | Some dir \<Rightarrow>
          (case original_of os dir of
             None \<Rightarrow> ret en
           | Some root \<Rightarrow>
               (let en = en\<lparr>ow_UID := ow_UID root, ow_GID := ow_GID root, ow_Mode := 384\<rparr> in
                andThen (probe e ''lstat'') (\<lambda>_. andThen (gets (\<lambda>h. h_files h (ow_Path en))) (\<lambda>st.
                  ret (case st of None \<Rightarrow> en
                       | Some n \<Rightarrow> if nd_kind n = KDirectory then en\<lparr>ow_Mode := 448\<rparr> else en))))))"

fun adopt_entries :: "host_env \<Rightarrow> ownership list \<Rightarrow> path list \<Rightarrow> ownership list \<Rightarrow> ownership list \<Rightarrow> (ownership list) step" where
  "adopt_entries e os dirs [] acc = ret acc"
| "adopt_entries e os dirs (en # ens) acc =
     (if original_of os (ow_Path en) \<noteq> None then adopt_entries e os dirs ens acc
      else andThen (adopt_entry e os dirs en) (\<lambda>en'. adopt_entries e os dirs ens (acc @ [en'])))"

definition restoreStateOwnership :: "host_env \<Rightarrow> path list \<Rightarrow> unit step" where
  "restoreStateOwnership e dirs =
     andThen (gets h_mem) (\<lambda>j.
       andThen (adopt_entries e (hj_Ownership j) dirs (hj_RecoveryOwnership j) (hj_Ownership j))
         (\<lambda>entries. changeOwnership e entries 0 0 True))"

section \<open>Trusted directories\<close>

text \<open>\<open>ensureTrustedDir\<close> on the components, the last one first; the root always exists.\<close>

fun ensure_components :: "host_env \<Rightarrow> string list \<Rightarrow> unit step" where
  "ensure_components e rcs =
     (let dir = render True (rev rcs) in
      script [
        andThen (probe e ''lstat'') (\<lambda>_. andThen (gets (\<lambda>h. h_files h dir)) (\<lambda>st.
          if st \<noteq> None then ret ()
          else (case rcs of
                  [] \<Rightarrow> fail ''no root directory''
                | _ # rest \<Rightarrow> script [ensure_components e rest,
                    call (te_out e) ''mkdir'' (put dir (Some ((root_file None 493)\<lparr>nd_kind := KDirectory\<rparr>)))]))),
        trusted (te_manifest e) dir])"

declare ensure_components.simps [simp del]

definition ensureTrustedDir :: "host_env \<Rightarrow> path \<Rightarrow> unit step" where
  "ensureTrustedDir e dir =
     (if \<not> IsAbs dir then fail ''absolute trusted directory required'' else ensure_components e (rev (components dir)))"

end
