(* ===== verification/HostRelease.thy ===== *)
theory HostRelease
  imports HostJournal
begin

text \<open>
  Where the host tool takes programs from (\<open>internal/hostcmd/fetch_linux.go\<close>, the artifacts of
  \<open>platform_linux.go\<close>) and the journal of a software upgrade (\<open>upgrade_state_linux.go\<close>): only ELF files
  with a digest of the administrator or a signature of the publisher, and only backups that the
  journal of this installation binds. HTTP is a parameter.
\<close>

section \<open>The installation\<close>

definition requireRoot :: "host_env \<Rightarrow> unit step" where
  "requireRoot e = require (te_euid e = 0) ''administrator privileges required''"

definition acquireHostLock :: "host_env \<Rightarrow> unit step" where
  "acquireHostLock e = script [ensureTrustedDir e ''/var/lib/komari-host'', probe e ''open lock'', probe e ''flock'']"

definition resolveManifest :: "host_env \<Rightarrow> path \<Rightarrow> Manifest step" where
  "resolveManifest e path =
     (let p = (if path = [] then Join [Dir (te_self e), ''service-config.json''] else path);
          fs = h_fs (te_manifest e)
      in andThen (probe e ''read manifest'') (\<lambda>_.
           andThen (gets (\<lambda>h. ReadManifest (fs h) (te_decode_manifest e) p)) (\<lambda>r.
             andThen (from_sum ''manifest'' r) (\<lambda>m.
               if mf_Version m \<noteq> 2 \<or> InitSystem m \<noteq> ''systemd'' \<or> \<not> ValidService (ServiceName m) \<or>
                  ends_with ''.service'' (ServiceName m)
               then fail ''trusted Linux systemd service manifest required''
               else andThen (script (map (trusted (te_manifest e)) [Executable m, HostTool m, ManifestPath m, HostPolicyFile m]))
                 (\<lambda>_. ret m)))))"

section \<open>Release tags and downloads\<close>

definition tag_char :: "char \<Rightarrow> bool" where
  "tag_char c \<longleftrightarrow> c \<in> set ''abcdefghijklmnopqrstuvwxyzABCDEFGHIJKLMNOPQRSTUVWXYZ0123456789._-+''"

definition validateReleaseTag :: "string \<Rightarrow> bool" where
  "validateReleaseTag version \<longleftrightarrow>
     \<not> (version = [] \<or> length version > 100 \<or> contains ''..'' version) \<and> (\<forall>c \<in> set version. tag_char c) \<and>
     \<not> (version = ''latest'' \<or> version = ''.'')"

definition elf :: "bytes \<Rightarrow> bool" where
  "elf b \<longleftrightarrow> take 4 b = [CHR 0x7F, CHR ''E'', CHR ''L'', CHR ''F'']"

definition release_url :: "host_env \<Rightarrow> string \<Rightarrow> string" where
  "release_url e version = ''https://github.com/r11234567/komari-agent/releases/download/'' @ version @ ''/'' @
     ''komari-agent-rescue-'' @ te_os e @ ''-'' @ te_arch e"

text \<open>One asset: its status and its announced length, then at most \<open>limit\<close> bytes.\<close>

definition download :: "host_env \<Rightarrow> string \<Rightarrow> nat \<Rightarrow> bytes step" where
  "download e url limit =
     ask (\<lambda>n. case te_http e n url of
         None \<Rightarrow> Inl (local_error ''request failed'')
       | Some (status, announced, body) \<Rightarrow>
           if status \<noteq> 200 \<or> announced > int limit then Inl (local_error ''release asset unavailable or exceeds size limit'')
           else if length body > limit then Inl (local_error ''release asset exceeds size limit'')
           else Inr body)"

definition verify_release :: "host_env \<Rightarrow> Trust \<Rightarrow> ReleaseManifest \<Rightarrow> bytes \<Rightarrow> ReleasePayload step" where
  "verify_release e t sm binary =
     ask (\<lambda>n. case VerifyRelease (te_ed e) (te_decode_payload e) (te_encode_payload e) (te_sha e) (te_os e) (te_arch e)
          (te_now e n) t sm binary of
         Inl _ \<Rightarrow> Inl (local_error ''release refused'') | Inr payload \<Rightarrow> Inr payload)"

definition downloadHelper :: "host_env \<Rightarrow> Trust \<Rightarrow> string \<Rightarrow> (bytes \<times> ReleaseManifest \<times> ReleasePayload) step" where
  "downloadHelper e t version =
     (if \<not> validateReleaseTag version then fail ''invalid release tag''
      else if ReleaseKeys t = [] then fail ''pin an independently verified release signing key first''
      else andThen (download e (release_url e version @ ''.release.json'') (2 ^ 20)) (\<lambda>metadata.
        case te_unmarshal_signed e metadata of
          None \<Rightarrow> fail ''invalid release metadata''
        | Some sm \<Rightarrow>
            andThen (download e (release_url e version) (256 * 2 ^ 20)) (\<lambda>binary.
              andThen (verify_release e t sm binary) (\<lambda>payload.
                if rp_Version payload \<noteq> version then fail ''signed release does not match the requested exact tag''
                else if \<not> elf binary then fail ''Linux helper must be ELF''
                else ret (binary, sm, payload)))))"

definition helperCache :: "Manifest \<Rightarrow> path" where
  "helperCache m = Join [''/var/cache/komari'', ServiceName m, ''komari-agent-rescue'']"

definition encoded :: "bytes option \<Rightarrow> (bytes \<Rightarrow> unit step) \<Rightarrow> unit step" where
  "encoded b k = (case b of None \<Rightarrow> fail ''encode'' | Some x \<Rightarrow> k x)"

text \<open>\<open>hostops.WriteJSON\<close> of a value that the encoder turned into bytes; the file ends with a newline.\<close>

definition write_json :: "host_env \<Rightarrow> path \<Rightarrow> bytes option \<Rightarrow> nat \<Rightarrow> unit step" where
  "write_json e p value mode = encoded value (\<lambda>b. write_file e p (b @ [CHR 0x0A]) mode)"

definition cacheHelper :: "host_env \<Rightarrow> Trust \<Rightarrow> string \<Rightarrow> (bytes \<times> ReleasePayload) step" where
  "cacheHelper e t version =
     andThen (downloadHelper e t version) (\<lambda>(binary, sm, payload).
       (let p = helperCache (te_manifest e) in
        andThen (script [ensureTrustedDir e (Dir p), write_file e p binary 384,
            write_json e (p @ ''.release.json'') (te_encode_signed e sm) 420])
          (\<lambda>_. ret (binary, payload))))"

text \<open>
  \<open>readHelper\<close>; the error says whether a file was missing (\<open>errors.Is(err, os.ErrNotExist)\<close>).
\<close>

definition missing_file :: go_error where
  "missing_file = local_error ''file does not exist''"

definition readHelper :: "host_env \<Rightarrow> Trust \<Rightarrow> path \<Rightarrow> path \<Rightarrow> (bytes \<times> ReleasePayload) step" where
  "readHelper e t artifact release =
     (let m = te_manifest e in
      andThen (probe e ''read'') (\<lambda>_.
      andThen (gets (\<lambda>h. ReadJSON (h_fs m h) (te_decode_signed e) release True)) (\<lambda>r.
        case r of
          Inl err \<Rightarrow> if err = StatFailed \<or> err = OpenFailed then raise missing_file else fail ''release manifest''
        | Inr sm \<Rightarrow>
            andThen (gets (\<lambda>h. (TrustedPath (h_lstat m h) artifact, h_files h artifact))) (\<lambda>(err, st).
              if err = Some StatFailed then raise missing_file
              else if err \<noteq> None then fail ''untrusted artifact''
              else case st of
                None \<Rightarrow> raise missing_file
              | Some n \<Rightarrow>
                  if node_size n > 256 * 2 ^ 20 \<or> nd_kind n \<noteq> KRegular then fail ''invalid helper artifact''
                  else (let binary = (case nd_data n of None \<Rightarrow> [] | Some d \<Rightarrow> d) in
                    andThen (verify_release e t sm binary) (\<lambda>payload.
                      if \<not> elf binary then fail ''Linux helper must be ELF'' else ret (binary, payload)))))))"

definition prepareHelper :: "host_env \<Rightarrow> Trust \<Rightarrow> path \<Rightarrow> path \<Rightarrow> string \<Rightarrow> (bytes \<times> string) step" where
  "prepareHelper e t artifact release version =
     (if artifact \<noteq> [] then
        andThen (readHelper e t artifact release) (\<lambda>(binary, payload). ret (binary, rp_Version payload))
      else if \<not> validateReleaseTag version then fail ''invalid release tag''
      else (let p = helperCache (te_manifest e);
                fetch = andThen (cacheHelper e t version) (\<lambda>(binary, payload). ret (binary, rp_Version payload))
            in (\<lambda>h. case readHelper e t p (p @ ''.release.json'') h of
                 (Inr (binary, payload), h') \<Rightarrow>
                   if rp_Version payload = version then (Inr (binary, rp_Version payload), h') else fetch h'
               | (Inl err, h') \<Rightarrow>
                   if err \<noteq> missing_file then (Inl (local_error ''invalid rescue cache''), h') else fetch h')))"

text \<open>An artifact with the digest the administrator gives (\<open>strings.EqualFold\<close> on hexadecimal text).\<close>

definition lower :: "char \<Rightarrow> char" where
  "lower c = (let n = of_char c :: nat in if 65 \<le> n \<and> n \<le> 90 then char_of (n + 32) else c)"

definition verifiedArtifact :: "host_env \<Rightarrow> path \<Rightarrow> string \<Rightarrow> bytes step" where
  "verifiedArtifact e p want =
     (if length want \<noteq> 64 then fail ''a trusted SHA-256 digest is required''
      else andThen (trusted (te_manifest e) p) (\<lambda>_. andThen (probe e ''read'') (\<lambda>_.
        andThen (gets (\<lambda>h. h_files h p)) (\<lambda>st.
          case st of
            None \<Rightarrow> fail ''no such file''
          | Some n \<Rightarrow>
              (let b = (case nd_data n of None \<Rightarrow> [] | Some d \<Rightarrow> d) in
               if nd_kind n \<noteq> KRegular \<or> node_size n > 256 * 2 ^ 20 then fail ''invalid binary size or type''
               else if map lower want \<noteq> map lower (hex_encode (te_sha e b)) then fail ''artifact checksum mismatch''
               else if \<not> elf b then fail ''Linux ELF executable required''
               else ret b)))))"

section \<open>The journal of a software upgrade\<close>

definition upgradePaths :: "Manifest \<Rightarrow> path list" where
  "upgradePaths m = [Executable m, HostTool m, helperBinary m, helperConfig m]"

text \<open>\<open>os.Lstat\<close> of the journal: anything but a missing file refuses.\<close>

definition noPendingHostTransaction :: "host_env \<Rightarrow> unit step" where
  "noPendingHostTransaction e =
     script [probe e ''lstat'',
       andThen (gets h_journal) (\<lambda>j. require (j = None) ''host authorization transaction is pending'')]"

text \<open>
  The masks: only permission bits, nothing writable by group or others, readable by the owner, the
  programs executable and the configuration private.
\<close>

fun safe_modes :: "nat \<Rightarrow> nat list \<Rightarrow> bool" where
  "safe_modes i [] = True"
| "safe_modes i (m # ms) =
     (m < 512 \<and> m AND 18 = 0 \<and> m AND 256 \<noteq> 0 \<and> (i < 3 \<longrightarrow> m AND 73 \<noteq> 0) \<and> (i = 3 \<longrightarrow> m AND 63 = 0) \<and>
      safe_modes (Suc i) ms)"

definition validateUpgradeJournal :: "Manifest \<Rightarrow> softwareUpgrade \<Rightarrow> bool" where
  "validateUpgradeJournal m s \<longleftrightarrow>
     su_Phase s \<in> {''prepared'', ''replacing'', ''restore_failed''} \<and>
     \<not> (su_Manifest s \<noteq> ManifestPath m \<or> su_Paths s \<noteq> upgradePaths m \<or> length (su_Modes s) \<noteq> 4 \<or>
        length (su_Active s) \<noteq> 2) \<and>
     safe_modes 0 (su_Modes s)"

text \<open>The loop over the journals that \<open>Glob\<close> lists.\<close>

fun pending_loop ::
  "host_env \<Rightarrow> path list \<Rightarrow> (softwareUpgrade \<times> path) option \<Rightarrow> ((softwareUpgrade \<times> path) option) step" where
  "pending_loop e [] pending = ret pending"
| "pending_loop e (p # ps) pending =
     andThen (probe e ''read'') (\<lambda>_.
       andThen (gets (\<lambda>h. ReadJSON (h_fs (te_manifest e) h) (te_decode_upgrade e) p True)) (\<lambda>r.
         case r of
           Inl _ \<Rightarrow> fail ''upgrade journal''
         | Inr s \<Rightarrow>
             if su_Phase s = ''completed'' \<or> su_Phase s = ''restored'' then pending_loop e ps pending
             else if \<not> validateUpgradeJournal (te_manifest e) s then fail ''unsafe pending upgrade''
             else if pending \<noteq> None then fail ''multiple pending software upgrades''
             else pending_loop e ps (Some (s, Dir p))))"

definition pendingSoftwareUpgrade :: "host_env \<Rightarrow> ((softwareUpgrade \<times> path) option) step" where
  "pendingSoftwareUpgrade e =
     andThen (gets (\<lambda>h. te_glob e (h_tick h) (Join [journalDir (te_manifest e), ''upgrade-*'', ''upgrade.json''])))
       (\<lambda>paths. pending_loop e paths None)"

definition rejectPendingSoftwareUpgrade :: "host_env \<Rightarrow> unit step" where
  "rejectPendingSoftwareUpgrade e =
     andThen (pendingSoftwareUpgrade e) (\<lambda>pending. require (pending = None) ''software upgrade interrupted'')"

text \<open>The four backups, in the order of \<open>upgradePaths\<close>.\<close>

fun read_backups :: "host_env \<Rightarrow> path \<Rightarrow> nat list \<Rightarrow> bytes list \<Rightarrow> (bytes list) step" where
  "read_backups e dir [] acc = ret acc"
| "read_backups e dir (i # is) acc =
     (let p = Join [dir, Itoa (int i)] in
      andThen (trusted (te_manifest e) p) (\<lambda>_. andThen (probe e ''read'') (\<lambda>_. andThen (gets (\<lambda>h. h_files h p)) (\<lambda>st.
        case st of
          None \<Rightarrow> fail ''no such file''
        | Some n \<Rightarrow>
            (let b = (case nd_data n of None \<Rightarrow> [] | Some d \<Rightarrow> d) in
             if nd_kind n \<noteq> KRegular \<or> node_size n > 256 * 2 ^ 20 then fail ''invalid protected upgrade backup''
             else if i < 3 \<and> \<not> elf b then fail ''protected executable backup is not an ELF''
             else read_backups e dir is (acc @ [b]))))))"

definition readUpgradeBackups :: "host_env \<Rightarrow> softwareUpgrade \<Rightarrow> path \<Rightarrow> (bytes list) step" where
  "readUpgradeBackups e s dir =
     (if \<not> validateUpgradeJournal (te_manifest e) s then fail ''journal''
      else read_backups e dir [0, 1, 2, 3] [])"

definition validateUpgradeConfig :: "host_env \<Rightarrow> Trust \<Rightarrow> rescue_config \<Rightarrow> unit step" where
  "validateUpgradeConfig e t cfg =
     (let m = te_manifest e in
      andThen (resolveManifest e (rs_HostManifest cfg)) (\<lambda>hm.
        require (hm\<lparr>ManifestPath := ManifestPath m\<rparr> = m \<and> rs_CredentialsFile cfg = CredentialsFile m \<and>
          rs_AgentID cfg = tr_AgentID t \<and> rs_Endpoint cfg = tr_Endpoint t \<and> rs_ServiceName cfg = ServiceName m \<and>
          rs_AgentPath cfg = Executable m) ''installed rescue configuration belongs to a different installation''))"

end
