(* ===== verification/HostTransaction.thy ===== *)
theory HostTransaction
  imports HostRelease
begin

text \<open>
  The host transaction (\<open>internal/hostcmd/transaction_linux.go\<close>): the privileged change of a service that
  an administrator applies after a local authentication, its recovery, and the receipts it owes the panel. Each
  function is a step on the host of \<open>HostJournal\<close>; what is printed for the administrator is left out.
\<close>

section \<open>Services\<close>

definition restartReviewedService :: "host_env \<Rightarrow> string \<Rightarrow> unit step" where
  "restartReviewedService e service h =
     (case systemctl e [''reset-failed'', service] h of
        (Inr _, h1) \<Rightarrow> systemctl e [''restart'', service] h1
      | (Inl err, h1) \<Rightarrow>
          (case andThen (trusted (te_manifest e) ''/usr/bin/systemctl'')
                  (\<lambda>_. ask (\<lambda>n. case te_show e n service ''LoadState'' of None \<Rightarrow> Inl err | Some s \<Rightarrow> Inr s)) h1 of
             (Inl _, h2) \<Rightarrow> (Inl err, h2)
           | (Inr s, h2) \<Rightarrow>
               if TrimSpace s \<noteq> ''loaded'' then (Inl err, h2) else systemctl e [''restart'', service] h2))"

definition observe_service :: "host_env \<Rightarrow> string \<Rightarrow> serviceObservation step" where
  "observe_service e service =
     andThen (trusted (te_manifest e) ''/usr/bin/systemctl'') (\<lambda>_.
       ask (\<lambda>n. case observe (te_show e n service ''User,WorkingDirectory,FragmentPath,DropInPaths,MainPID,ExecStart'') service of
         None \<Rightarrow> Inl (local_error ''service not found or has no executable'') | Some ob \<Rightarrow> Inr ob))"

definition verify_service :: "host_env \<Rightarrow> string \<Rightarrow> int \<Rightarrow> int \<Rightarrow> unit step" where
  "verify_service e service uid mode =
     ask (\<lambda>n. if verifyService (te_sightings e n service) uid mode then Inr ()
       else Inl (local_error ''service did not reach verified profile''))"

definition wait_helper :: "host_env \<Rightarrow> unit step" where
  "wait_helper e = ask (\<lambda>n. if waitHelper (te_beats e n) then Inr ()
     else Inl (local_error ''helper is installed but not authorized/connected''))"

text \<open>\<open>user.Lookup\<close> and \<open>strconv.Atoi\<close> of its UID; and of both numbers.\<close>

definition lookup_uid :: "host_env \<Rightarrow> string \<Rightarrow> int step" where
  "lookup_uid e name =
     (case te_user e name of
        None \<Rightarrow> fail ''unknown user''
      | Some (uid, gid) \<Rightarrow> from_option ''invalid syntax'' (Atoi uid))"

definition lookup_ids :: "host_env \<Rightarrow> string \<Rightarrow> (int \<times> int \<times> string) step" where
  "lookup_ids e name =
     (case te_user e name of
        None \<Rightarrow> fail ''unknown user''
      | Some (uid, gid) \<Rightarrow>
          andThen (from_option ''invalid syntax'' (Atoi uid)) (\<lambda>u.
            andThen (from_option ''invalid syntax'' (Atoi gid)) (\<lambda>g. ret (u, g, gid))))"

section \<open>Protected reads\<close>

definition read_policy :: "host_env \<Rightarrow> HostPolicy step" where
  "read_policy e =
     andThen (probe e ''read policy'') (\<lambda>_.
       andThen (gets (\<lambda>h. ReadPolicy (h_fs (te_manifest e) h) (te_decode_policy e) (Some (te_manifest e)))) (from_sum ''policy''))"

definition read_trust :: "host_env \<Rightarrow> Trust step" where
  "read_trust e =
     andThen (probe e ''read trust'') (\<lambda>_.
       andThen (gets (\<lambda>h. ReadTrust (h_fs (te_manifest e) h) (te_decode_trust e) (te_url e) (te_manifest e)))
         (from_sum ''trust''))"

section \<open>The panel\<close>

text \<open>
  \<open>newPanel\<close>: the access file and the credentials that the daemon wrote, which must be those of the pinned
  identity. The result is the token and the access configuration that authenticate the requests.
\<close>

definition newPanel :: "host_env \<Rightarrow> Trust \<Rightarrow> (string \<times> AccessConfig) step" where
  "newPanel e t =
     andThen (gets (\<lambda>h. ReadAccess (h_fs (te_manifest e) h) (te_decode_access e) t)) (\<lambda>r.
       andThen (from_sum ''access'' r) (\<lambda>access.
         andThen (ask (\<lambda>n. case ReadCandidate (te_tree e n) (CredentialsFile (te_manifest e)) of
             Inl _ \<Rightarrow> Inl (local_error ''credentials'') | Inr b \<Rightarrow> Inr b)) (\<lambda>b.
           case te_decode_identity e b of
             None \<Rightarrow> fail ''invalid enrolled credentials''
           | Some i \<Rightarrow>
               if AgentID i \<noteq> tr_AgentID t \<or> Endpoint i \<noteq> tr_Endpoint t \<or> AccessToken i = []
               then fail ''credentials do not match independently pinned host identity/endpoint''
               else ret (AccessToken i, access))))"

definition panel_current :: "host_env \<Rightarrow> Trust \<Rightarrow> PrivilegedRevision step" where
  "panel_current e t =
     ask (\<lambda>n. case te_delivery e n of
         Inl err \<Rightarrow> Inl err
       | Inr r \<Rightarrow>
           (case VerifyRevision (te_ed e) (te_unm e) (te_sha e) (te_revision_body e) (te_now e n) t r of
              Some _ \<Rightarrow> Inl (local_error ''revision refused'')
            | None \<Rightarrow> (case r of None \<Rightarrow> Inl (local_error ''missing revision'') | Some x \<Rightarrow> Inr x)))"

definition panel_get :: "host_env \<Rightarrow> string \<Rightarrow> (HostOperation option) step" where
  "panel_get e opid = ask (\<lambda>n. te_operation e n opid)"

text \<open>\<open>hostops.VerifyOperation\<close> at the time of the step.\<close>

definition verify_operation ::
  "host_env \<Rightarrow> Trust \<Rightarrow> HostOperation option \<Rightarrow> HostAuthorization option \<Rightarrow> string \<Rightarrow> unit step" where
  "verify_operation e t oper a opid =
     ask (\<lambda>n. case VerifyOperation (te_ed e) (te_unm e) (te_operation_body e) (te_now e n) t oper a opid of
         None \<Rightarrow> Inr () | Some _ \<Rightarrow> Inl (local_error ''host execution lease binding mismatch or expiry''))"

definition phase_of :: "HostOperation option \<Rightarrow> int" where
  "phase_of oper = (case oper of None \<Rightarrow> 0 | Some x \<Rightarrow> ho_Phase x)"

section \<open>Validation\<close>

definition actions_of :: "PrivilegedRevision \<Rightarrow> int list" where
  "actions_of r = (case pr_Authorization r of None \<Rightarrow> [] | Some a \<Rightarrow> ha_Actions a)"

definition target_mode :: "PrivilegedRevision \<Rightarrow> int" where
  "target_mode r = (case pr_Authorization r of None \<Rightarrow> 0 | Some a \<Rightarrow> ha_TargetPrivilegeMode a)"

definition validateActions ::
  "HostPolicy \<Rightarrow> Trust \<Rightarrow> PrivilegedRevision \<Rightarrow> serviceObservation \<Rightarrow> string option" where
  "validateActions p t r ob =
     (let seen = (\<lambda>k. k \<in> set (actions_of r));
          target = target_mode r;
          current = (if so_User ob = [] \<or> so_User ob = ''root'' then 1 else 2);
          settings = settingsFromProto (pr_Privileged r)
      in if target \<noteq> 1 \<and> target \<noteq> 2 then Some ''only Linux root/non-root profiles are supported''
         else if current \<noteq> hp_PrivilegeMode p then Some ''actual systemd user differs from protected policy''
         else if seen 1 \<noteq> (current \<noteq> target) then Some ''identity action does not match actual source/target diff''
         else if localCeilingViolations p settings (seen 2) \<noteq> []
         then Some ''approved configuration exceeds protected local ceilings''
         else if seen 2 \<and> ReleaseKeys t = []
         then Some ''pin an independently verified release signing key before installing rescue''
         else if seen 2 \<noteq> (RescueHelperEnabled settings \<and> \<not> HelperInstalled p) \<or>
                 seen 3 \<noteq> (\<not> RescueHelperEnabled settings \<and> HelperInstalled p)
         then Some ''helper actions do not match installed/desired state''
         else if actions_of r = [] then Some ''no host actions''
         else if tr_ServiceUser t = ''root'' then Some ''original non-root service identity missing''
         else None)"

section \<open>Applying\<close>

definition nl :: string where
  "nl = [CHR 0x0A]"

definition exec_start :: "Manifest \<Rightarrow> string" where
  "exec_start m = ''ExecStart='' @ nl @ ''ExecStart='' @ unitQuote (Executable m) @ '' --service-manifest '' @
     unitQuote (ManifestPath m) @ '' --config '' @ unitQuote (bootstrapPath m) @ nl @
     ''Environment='' @ nl @ ''EnvironmentFile='' @ nl @ ''PassEnvironment='' @ nl"

text \<open>The drop-in of the two profiles.\<close>

definition profile_unit :: "Manifest \<Rightarrow> string \<Rightarrow> string \<Rightarrow> string \<Rightarrow> int \<Rightarrow> string" where
  "profile_unit m account gid workingDir mode =
     (if mode = 1 then
        ''[Service]'' @ nl @ ''User=root'' @ nl @ ''Group=root'' @ nl @ ''SupplementaryGroups='' @ nl @ exec_start m @
        ''WorkingDirectory='' @ workingDir @ nl @ ''NoNewPrivileges=false'' @ nl @
        ''CapabilityBoundingSet=~'' @ nl @ ''AmbientCapabilities='' @ nl
      else
        ''[Service]'' @ nl @ ''User='' @ account @ nl @ ''Group='' @ gid @ nl @ ''SupplementaryGroups='' @ nl @ exec_start m @
        ''WorkingDirectory='' @ workingDir @ nl @ ''NoNewPrivileges=true'' @ nl @
        ''CapabilityBoundingSet='' @ nl @ ''CapabilityBoundingSet=CAP_NET_RAW'' @ nl @
        ''AmbientCapabilities='' @ nl @ ''AmbientCapabilities=CAP_NET_RAW'' @ nl)"

definition helper_unit_text :: "Manifest \<Rightarrow> string" where
  "helper_unit_text m =
     ''[Unit]'' @ nl @ ''Description=Komari bounded rescue helper'' @ nl @ ''After=network-online.target'' @ nl @
     ''Wants=network-online.target'' @ nl @ ''[Service]'' @ nl @ ''Type=simple'' @ nl @ ''User=root'' @ nl @
     ''Group=root'' @ nl @ ''ExecStart='' @ unitQuote (helperBinary m) @ '' --config '' @ unitQuote (helperConfig m) @ nl @
     ''WorkingDirectory=/'' @ nl @ ''Environment=PATH=/usr/sbin:/usr/bin:/sbin:/bin'' @ nl @
     ''NoNewPrivileges=false'' @ nl @ ''CapabilityBoundingSet=~'' @ nl @ ''Restart=on-failure'' @ nl @
     ''RestartSec=5'' @ nl @ ''UMask=0077'' @ nl @ ''[Install]'' @ nl @ ''WantedBy=multi-user.target'' @ nl"

definition installHelper :: "host_env \<Rightarrow> Trust \<Rightarrow> bootstrap \<Rightarrow> bytes \<Rightarrow> string \<Rightarrow> unit step" where
  "installHelper e t boot binary version =
     (let m = te_manifest e; dir = Join [''/var/lib/komari-rescue'', ServiceName m] in
      script [
        write_file e (helperBinary m) binary 493,
        ensureTrustedDir e dir,
        chmod e dir 448,
        write_json e (helperConfig m) (te_encode_rescue e
          \<lparr>rs_HostManifest = ManifestPath m, rs_Endpoint = tr_Endpoint t, rs_Token = [], rs_AgentID = tr_AgentID t,
           rs_InstanceIDPath = Join [dir, ''instance''], rs_Version = version, rs_IgnoreUnsafeCert = False,
           rs_CFAccessClientID = bo_CFAccessClientID boot, rs_CFAccessClientSecret = bo_CFAccessClientSecret boot,
           rs_CredentialsFile = CredentialsFile m, rs_ReplayFile = Join [dir, ''replay.json''],
           rs_AgentPath = Executable m, rs_ConfigPath = [], rs_RuntimeStatePath = [], rs_ServiceName = ServiceName m,
           rs_RuntimeIdentity = [], rs_RuntimeUser = [], rs_ControlPlaneURL = tr_Endpoint t,
           rs_IsolationStatePath = Join [dir, ''isolation.json''], rs_PrivilegedStatePath = []\<rparr>) 384,
        write_file e (helperUnitPath m) (helper_unit_text m) 420])"

text \<open>\<open>os.Stat\<close> of the unit of the helper: any error counts as missing.\<close>

definition helper_unit_exists :: "host_env \<Rightarrow> (bool \<Rightarrow> unit step) \<Rightarrow> unit step" where
  "helper_unit_exists e k h =
     (case probe e ''stat'' h of
        (Inl _, h') \<Rightarrow> k False h'
      | (Inr _, h') \<Rightarrow> k (h_files h' (helperUnitPath (te_manifest e)) \<noteq> None) h')"

text \<open>The policy that the transaction writes, from the reviewed one.\<close>

definition applied_policy :: "HostPolicy \<Rightarrow> PrivilegedRevision \<Rightarrow> HostPolicy" where
  "applied_policy p r =
     (let settings = settingsFromProto (pr_Privileged r) in
      p\<lparr>hp_PrivilegeMode := RequiredPrivilegeMode settings, HostRevision := pr_Revision r, HostSettings := Some settings,
        AllowRescueHelper := AllowRescueHelper p \<or> 2 \<in> set (actions_of r),
        HelperInstalled := RescueHelperEnabled settings, HelperAuthorized := RescueHelperEnabled settings\<rparr>)"

definition applied_bootstrap :: "Manifest \<Rightarrow> Trust \<Rightarrow> HostPolicy \<Rightarrow> bootstrap \<Rightarrow> bootstrap" where
  "applied_bootstrap m t p b =
     b\<lparr>bo_Endpoint := tr_Endpoint t, bo_ServiceManifestFile := ManifestPath m, bo_CredentialsFile := CredentialsFile m,
       bo_RuntimeStateFile := RuntimeStateFile m, bo_PrivilegedStateFile := PrivilegedStateFile m,
       bo_ReplayStateFile := ReplayStateFile m, bo_ConfigFile := [], bo_HostProc := [], bo_IgnoreUnsafeCert := False,
       bo_DisableRemoteControl := ForceDenyRemoteControl p, bo_DisableAutoUpdate := True, bo_Token := [],
       bo_AutoDiscoveryKey := []\<rparr>"

text \<open>The part of \<open>executeTransaction\<close> up to the last check of the live authorization.\<close>

definition still_authorized :: "host_env \<Rightarrow> Trust \<Rightarrow> PrivilegedRevision \<Rightarrow> unit step" where
  "still_authorized e t r =
     script [
       andThen (newPanel e t) (\<lambda>_. ret ()),
       andThen (panel_current e t) (\<lambda>current.
         require (pr_Authorization current = pr_Authorization r \<and> pr_State current = APPLYING)
           ''approval superseded before profile change''),
       andThen (gets (hj_ID \<circ> h_mem)) (\<lambda>opid. andThen (panel_get e opid) (\<lambda>oper.
         script [verify_operation e t oper (pr_Authorization r) opid,
           require (phase_of oper = 2) ''host operation is not applying'']))]"

text \<open>The policy after the consent to release a historical restriction.\<close>

definition consented_policy :: "HostPolicy \<Rightarrow> PrivilegedRevision \<Rightarrow> HostPolicy step" where
  "consented_policy p r =
     andThen (gets (hj_LegacyRemoteControlConsent \<circ> h_mem)) (\<lambda>consent.
       if \<not> consent then ret p
       else (case legacyRemoteControlReview p r of
               (preview, permitted) \<Rightarrow>
                 if \<not> permitted then fail ''historical remote-control restriction changed after local consent''
                 else ret (preview\<lparr>DisableSource := ''legacy-remote-control-reauthorized''\<rparr>)))"

text \<open>The files of the target profile.\<close>

definition remove_helper :: "host_env \<Rightarrow> unit step" where
  "remove_helper e =
     (let m = te_manifest e in
      helper_unit_exists e (\<lambda>exists.
        onlyif exists (script ([systemctl e [''stop'', helperUnit m], systemctl e [''disable'', helperUnit m]] @
          map (remove_file e) [helperUnitPath m, helperBinary m, helperConfig m]))))"

definition write_profile ::
  "host_env \<Rightarrow> HostPolicy \<Rightarrow> Trust \<Rightarrow> PrivilegedRevision \<Rightarrow> bootstrap \<Rightarrow> bytes \<Rightarrow> string \<Rightarrow> string \<Rightarrow> int \<times> int \<times> string \<Rightarrow>
     unit step" where
  "write_profile e p t r boot helper helperVersion workingDir ids =
     (let m = te_manifest e; settings = settingsFromProto (pr_Privileged r); (uid, gid, gidText) = ids;
          p' = applied_policy p r; boot' = applied_bootstrap m t p' boot
      in script [
        write_json e (HostPolicyFile m) (te_encode_policy e p') 420,
        write_json e (bootstrapPath m) (te_encode_bootstrap e boot') 384,
        ensureTrustedDir e (Dir (profilePath m)),
        write_file e (profilePath m) (profile_unit m (tr_ServiceUser t) gidText workingDir (hp_PrivilegeMode p')) 420,
        onlyif (RescueHelperEnabled settings \<and> helper \<noteq> []) (installHelper e t boot' helper helperVersion),
        onlyif (\<not> RescueHelperEnabled settings) (remove_helper e),
        onlyif (hp_PrivilegeMode p' = 2) (script [
          andThen (gets (hj_Ownership \<circ> h_mem)) (\<lambda>os. changeOwnership e os uid gid False),
          chown e (bootstrapPath m) 0 gid,
          chmod e (bootstrapPath m) 416])])"

text \<open>The restart of the services under the target profile, and the public record of the change.\<close>

definition start_profile :: "host_env \<Rightarrow> PrivilegedRevision \<Rightarrow> int \<Rightarrow> unit step" where
  "start_profile e r uid =
     (let m = te_manifest e; settings = settingsFromProto (pr_Privileged r); mode = RequiredPrivilegeMode settings in
      script [
        systemctl e [''daemon-reload''],
        onlyif (RescueHelperEnabled settings) (script [
          systemctl e [''enable'', helperUnit m],
          restartReviewedService e (helperUnit m),
          verify_service e (ServiceName m @ ''-rescue'') 0 1]),
        restartReviewedService e (ServiceName m),
        verify_service e (ServiceName m) (if mode = 1 then 0 else uid) mode,
        onlyif (RescueHelperEnabled settings) (wait_helper e),
        andThen (gets h_mem) (\<lambda>j. write_json e (AppliedPath m) (te_encode_applied e
          \<lparr>ar_Version = 2, ar_Revision = hj_Revision j, ar_Operation = hj_Operation j\<rparr>) 420)])"

definition executeTransaction ::
  "host_env \<Rightarrow> HostPolicy \<Rightarrow> Trust \<Rightarrow> PrivilegedRevision \<Rightarrow> path list \<Rightarrow> bootstrap \<Rightarrow> bytes \<Rightarrow> string \<Rightarrow> string \<Rightarrow> unit step" where
  "executeTransaction e p t r dirs boot helper helperVersion workingDir =
     andThen (systemctl e [''stop'', ServiceName (te_manifest e)]) (\<lambda>_.
       andThen (lookup_ids e (tr_ServiceUser t)) (\<lambda>ids.
         andThen (fenceStateDirectories e dirs (fst ids) False) (\<lambda>_.
           andThen (still_authorized e t r) (\<lambda>_.
             andThen (consented_policy p r) (\<lambda>p'.
               script [
                 mem (hj_FenceStage_update (\<lambda>_. ''profile'')),
                 save e,
                 write_profile e p' t r boot helper helperVersion workingDir ids,
                 start_profile e r (fst ids)])))))"

section \<open>Restoring\<close>

text \<open>The loop over the backups, the last one first.\<close>

definition restore_file :: "host_env \<Rightarrow> fileBackup \<Rightarrow> unit step" where
  "restore_file e b =
     (if \<not> fb_Exists b then remove_file e (fb_Path b)
      else andThen (probe e ''read backup'') (\<lambda>_. andThen (gets (\<lambda>h. h_files h (fb_Backup b))) (\<lambda>st.
        case st of
          None \<Rightarrow> fail ''backup missing''
        | Some n \<Rightarrow>
            write_owned e (fb_Path b) (case nd_data n of None \<Rightarrow> [] | Some d \<Rightarrow> d) (fb_Mode b) (fb_UID b) (fb_GID b))))"

definition restore_files :: "host_env \<Rightarrow> fileBackup list \<Rightarrow> unit step" where
  "restore_files e bs = script (map (restore_file e) (rev bs))"

definition stop_helper :: "host_env \<Rightarrow> unit step" where
  "stop_helper e =
     (let u = helperUnit (te_manifest e) in
      helper_unit_exists e (\<lambda>exists. onlyif exists
        (script [systemctl e [''stop'', u], ignoring (systemctl e [''disable'', u])])))"

text \<open>The restart of the original services, and the checks before the journal is marked restored.\<close>

definition restart_original :: "host_env \<Rightarrow> unit step" where
  "restart_original e =
     (let m = te_manifest e in
      script [
        systemctl e [''daemon-reload''],
        andThen (gets (hj_PreviousHelper \<circ> h_mem)) (\<lambda>helper. onlyif helper (script [
          systemctl e [''enable'', helperUnit m], restartReviewedService e (helperUnit m)])),
        restartReviewedService e (ServiceName m),
        andThen (read_policy e) (\<lambda>policy. andThen (gets h_mem) (\<lambda>j. script [
          require (hp_PrivilegeMode policy = hj_PreviousMode j) ''restored policy differs from recorded original identity'',
          verify_service e (ServiceName m) (hj_PreviousUID j) (hj_PreviousMode j)]))])"

definition restoreTransaction :: "host_env \<Rightarrow> unit step" where
  "restoreTransaction e =
     script [
       set_phase e ''restoring'',
       systemctl e [''stop'', ServiceName (te_manifest e)],
       stop_helper e,
       andThen (stateDirectories e) (\<lambda>dirs.
         andThen (read_trust e) (\<lambda>t.
           andThen (lookup_uid e (tr_ServiceUser t)) (\<lambda>owner.
             script [
               fenceStateDirectories e dirs owner True,
               andThen (gets (hj_Backups \<circ> h_mem)) (restore_files e),
               restoreStateOwnership e dirs]))),
       restart_original e,
       set_phase e ''restored'']"

section \<open>Receipts\<close>

definition prepareRestorationReceipt :: "host_env \<Rightarrow> unit step" where
  "prepareRestorationReceipt e =
     script [
       andThen (gets h_mem) (\<lambda>j.
         if hj_Receipt j = [] then ret ()
         else case te_decode_report e (hj_Receipt j) of
           None \<Rightarrow> fail ''receipt''
         | Some r \<Rightarrow>
             if rq_Phase r \<noteq> te_RESTORED e
             then mem (\<lambda>j. j\<lparr>hj_SupersededReceipts := hj_SupersededReceipts j @ [hj_Receipt j], hj_Receipt := []\<rparr>)
             else ret ()),
       save e]"

definition pam_text :: string where
  "pam_text = ''PAM:komari-host:authenticate+acct_mgmt''"

text \<open>\<open>report\<close>: the receipt is made and saved once, sent until the panel accepts it, then cleared.\<close>

definition report :: "host_env \<Rightarrow> Trust \<Rightarrow> int \<Rightarrow> string \<Rightarrow> unit step" where
  "report e t phase detail =
     script [
       andThen (gets h_mem) (\<lambda>j.
         if hj_Receipt j \<noteq> [] then ret ()
         else andThen (gets (te_uuid e \<circ> h_tick)) (\<lambda>receipt.
           encoded (te_encode_report e \<lparr>rq_AgentId = tr_AgentID t, rq_OperationId = hj_ID j, rq_ReceiptId = receipt,
               rq_Phase = phase, rq_Error = detail, rq_LocalAuthentication = pam_text, rq_Operator = hj_Operator j\<rparr>)
             (\<lambda>b. script [mem (hj_Receipt_update (\<lambda>_. b)), save e]))),
       andThen (gets (hj_Receipt \<circ> h_mem)) (\<lambda>b.
         case te_decode_report e b of
           None \<Rightarrow> fail ''receipt''
         | Some rq \<Rightarrow>
             if rq_Phase rq \<noteq> phase
             then fail ''an earlier durable host receipt must be resolved before another phase''
             else andThen (ask (\<lambda>n. te_report e n rq)) (\<lambda>accepted. require accepted ''host receipt rejected'')),
       mem (hj_Receipt_update (\<lambda>_. [])),
       save e]"

definition reportRestoration :: "host_env \<Rightarrow> Trust \<Rightarrow> string \<Rightarrow> unit step" where
  "reportRestoration e t detail =
     andThen (prepareRestorationReceipt e) (\<lambda>_.
       andThen (gets h_mem) (\<lambda>j.
         andThen (panel_get e (hj_ID j)) (\<lambda>oper.
           if phase_of oper = te_RESTORED e then
             (case te_decode_revision e (hj_Revision j) of
                None \<Rightarrow> fail ''revision''
              | Some original \<Rightarrow>
                  if pr_Authorization original = None then fail ''restoration journal has no original authorization''
                  else script [
                    verify_operation e t oper (pr_Authorization original) (hj_ID j),
                    onlyif (hj_Receipt j \<noteq> []) (mem (\<lambda>j. j\<lparr>hj_SupersededReceipts := hj_SupersededReceipts j @ [hj_Receipt j],
                      hj_Receipt := []\<rparr>)),
                    save e])
           else report e t (te_RESTORED e) detail)))"

section \<open>Archiving\<close>

text \<open>The directory moves as a whole, with its backups, under the name of the operation.\<close>

definition move_dir :: "path \<Rightarrow> path \<Rightarrow> (path \<rightharpoonup> inode) \<Rightarrow> (path \<rightharpoonup> inode)" where
  "move_dir dir target files p =
     (if under target p then files (dir @ drop (length target) p)
      else if under dir p then None else files p)"

definition archiveJournal :: "host_env \<Rightarrow> unit step" where
  "archiveJournal e =
     (let dir = journalDir (te_manifest e) in
      andThen (gets (hj_ID \<circ> h_mem)) (\<lambda>opid. andThen (gets h_archive) (\<lambda>old.
        if opid \<in> fst ` set old then fail ''directory not empty''
        else script [
          call (te_out e) ''rename journal directory'' (\<lambda>h. h\<lparr>
            h_files := move_dir dir (dir @ ''-'' @ opid) (h_files h), h_journal := None,
            h_archive := (case h_journal h of None \<Rightarrow> h_archive h | Some j \<Rightarrow> h_archive h @ [(opid, j)])\<rparr>),
          probe e ''sync''])))"

text \<open>The answers that \<open>finishHost\<close> polls for, 45 of them at most before its deadline.\<close>

fun finish_loop :: "host_env \<Rightarrow> Trust \<Rightarrow> nat \<Rightarrow> unit step" where
  "finish_loop e t 0 = ret ()"
| "finish_loop e t (Suc k) =
     andThen (ask (\<lambda>n. Inr (te_finish e n))) (\<lambda>event.
       case event of
         CtxDone \<Rightarrow> fail ''context''
       | DeadlineFired \<Rightarrow> ret ()
       | TickerFired \<Rightarrow>
           andThen (ask (\<lambda>n. Inr (te_delivery e n, te_now e n))) (\<lambda>(answer, now).
             case answer of
               Inl _ \<Rightarrow> finish_loop e t k
             | Inr r \<Rightarrow>
                 andThen (gets h_mem) (\<lambda>j.
                   case te_decode_revision e (hj_Revision j) of
                     None \<Rightarrow> fail ''revision''
                   | Some old \<Rightarrow>
                       if VerifySignedRevision (te_ed e) (te_unm e) (te_sha e) (te_revision_body e) now t r \<noteq> None
                       then fail ''revision refused''
                       else (case r of
                           None \<Rightarrow> fail ''revision refused''
                         | Some rv \<Rightarrow>
                             if pr_Revision rv \<noteq> pr_Revision old \<or> pr_ApprovalGeneration rv \<noteq> pr_ApprovalGeneration old
                             then fail ''host result belongs to a superseded target''
                             else if pr_State rv = DELIVERED
                             then script [set_phase e ''completed'', archiveJournal e]
                             else finish_loop e t k))))"

definition finishHost :: "host_env \<Rightarrow> Trust \<Rightarrow> unit step" where
  "finishHost e t = finish_loop e t 45"

section \<open>Recovery\<close>

text \<open>The installation of the journal, which may have been found by another copy of its manifest.\<close>

definition resolveJournalManifest :: "host_env \<Rightarrow> hostJournal \<Rightarrow> Manifest step" where
  "resolveJournalManifest e j =
     (let m = te_manifest e in
      if hj_Version j \<noteq> hostJournalVersion then fail ''unsupported transaction journal version''
      else if hj_ID j = [] \<or> hj_Manifest j = [] then fail ''transaction journal is missing its operation ID or manifest''
      else andThen (resolveManifest e (hj_Manifest j)) (\<lambda>original.
        if original\<lparr>ManifestPath := ManifestPath m\<rparr> \<noteq> m then fail ''journal installation differs from selected manifest''
        else ret original))"

definition known_phases :: "string list" where
  "known_phases = [''claiming'', ''prepared'', ''mutating'', ''local_applied'', ''restoring'', ''restored'']"

text \<open>
  An operation that was never claimed: the panel knows nothing of it, so nothing is owed. The result says
  whether \<open>resume\<close> is done.
\<close>

definition settle_unclaimed :: "host_env \<Rightarrow> bool step" where
  "settle_unclaimed e =
     andThen (gets h_mem) (\<lambda>j.
       if hj_Phase j = ''claiming'' \<and> hj_Operation j = [] \<and> hj_Backups j = [] \<and> hj_Ownership j = [] then
         andThen (read_trust e) (\<lambda>t. andThen (newPanel e t) (\<lambda>_.
           andThen (ask (\<lambda>n. Inr (te_operation e n (hj_ID j)))) (\<lambda>answer.
             case answer of
               Inr _ \<Rightarrow> ret False
             | Inl err \<Rightarrow>
                 if CodeOf err = CodeNotFound
                 then andThen (script [set_phase e ''unclaimed'', archiveJournal e]) (\<lambda>_. ret True)
                 else fail ''claim outcome unknown; no local changes made'')))
       else ret False)"

text \<open>The restoration, then the receipt that the panel is owed, then the archive.\<close>

definition restore_and_report :: "host_env \<Rightarrow> unit step" where
  "restore_and_report e =
     script [
       andThen (gets (hj_Phase \<circ> h_mem)) (\<lambda>phase.
         if phase = ''restored'' then ret ()
         else if phase = ''claiming'' \<or> phase = ''prepared'' then set_phase e ''restored''
         else restoreTransaction e),
       andThen (read_trust e) (\<lambda>t. andThen (newPanel e t) (\<lambda>_.
         reportRestoration e t ''interrupted operation restored by local administrator'')),
       archiveJournal e]"

text \<open>The way to completion of an operation that was applied locally.\<close>

definition complete_applied :: "host_env \<Rightarrow> unit step" where
  "complete_applied e =
     andThen (read_trust e) (\<lambda>t. andThen (newPanel e t) (\<lambda>_. andThen (gets h_mem) (\<lambda>j.
       case te_decode_revision e (hj_Revision j) of
         None \<Rightarrow> fail ''revision''
       | Some original \<Rightarrow>
           andThen (panel_get e (hj_ID j)) (\<lambda>oper.
             andThen (verify_operation e t oper (pr_Authorization original) (hj_ID j)) (\<lambda>_.
               if phase_of oper = PHASE_LOCAL_APPLIED
               then script [mem (hj_Receipt_update (\<lambda>_. [])), save e, finishHost e t]
               else
                 andThen (panel_current e t) (\<lambda>current.
                   if pr_Authorization current \<noteq> pr_Authorization original then fail ''approval superseded''
                   else andThen (read_policy e) (\<lambda>policy.
                     andThen (if hp_PrivilegeMode policy = 2 then lookup_uid e (tr_ServiceUser t) else ret 0) (\<lambda>uid.
                       script [
                         verify_service e (ServiceName (te_manifest e)) uid (hp_PrivilegeMode policy),
                         onlyif (HelperInstalled policy) (wait_helper e),
                         onlyif (phase_of oper < PHASE_LOCAL_APPLIED) (report e t PHASE_LOCAL_APPLIED []),
                         finishHost e t]))))))))"

text \<open>\<open>resume\<close> and \<open>restore\<close>, once the manifest of the journal is the one of the environment.\<close>

definition resume_journal :: "host_env \<Rightarrow> bool \<Rightarrow> unit step" where
  "resume_journal e restore =
     andThen (gets (hj_Phase \<circ> h_mem)) (\<lambda>phase.
       if phase = ''completed'' \<or> phase = ''unclaimed'' then archiveJournal e
       else if phase \<notin> set known_phases then fail ''unknown journal phase; no service changes made''
       else andThen (ask (te_authenticate e)) (\<lambda>_. andThen (settle_unclaimed e) (\<lambda>settled.
         if settled then ret ()
         else if restore \<or> phase \<noteq> ''local_applied'' then restore_and_report e
         else complete_applied e)))"

text \<open>The journal is read from disk into memory; \<open>ReadJSON\<close> requires that it is trusted.\<close>

definition load_journal :: "host_env \<Rightarrow> unit step" where
  "load_journal e =
     script [trusted (te_manifest e) (journalPath (te_manifest e)),
       probe e ''read journal'',
       andThen (gets h_journal) (\<lambda>j.
         case j of None \<Rightarrow> fail ''no transaction journal'' | Some j \<Rightarrow> modify (\<lambda>h. h\<lparr>h_mem := j\<rparr>))]"

definition resume_manifest :: "host_env \<Rightarrow> bool \<Rightarrow> unit step" where
  "resume_manifest e restore =
     andThen (load_journal e) (\<lambda>_. andThen (gets h_mem) (\<lambda>j.
       andThen (resolveJournalManifest e j) (\<lambda>m. resume_journal (e\<lparr>te_manifest := m\<rparr>) restore)))"

definition resume :: "host_env \<Rightarrow> path \<Rightarrow> bool \<Rightarrow> unit step" where
  "resume e manifest restore =
     andThen (script [requireRoot e, acquireHostLock e]) (\<lambda>_.
       andThen (resolveManifest e manifest) (\<lambda>m. resume_manifest (e\<lparr>te_manifest := m\<rparr>) restore))"

section \<open>Apply\<close>

definition confirmLegacyRemoteControl :: "host_env \<Rightarrow> string \<Rightarrow> u64 \<Rightarrow> unit step" where
  "confirmLegacyRemoteControl e service revision =
     ask (\<lambda>n. case te_tty e n of
         None \<Rightarrow> Inl (local_error ''no controlling terminal'')
       | Some input \<Rightarrow>
           if readLegacyRemoteControlConsent input service revision then Inr ()
           else Inl (local_error ''legacy remote-control restriction retained''))"

text \<open>What \<open>apply\<close> has reviewed before it asks the administrator.\<close>

record review =
  rv_Policy :: HostPolicy
  rv_Trust :: Trust
  rv_Revision :: PrivilegedRevision
  rv_Consent :: bool
  rv_PreviousUID :: int
  rv_Dirs :: "path list"
  rv_WorkingDir :: path
  rv_Bootstrap :: bootstrap

text \<open>The directory of the journal, which must not hold a journal.\<close>

definition prepare_journal_dir :: "host_env \<Rightarrow> unit step" where
  "prepare_journal_dir e =
     (let dir = journalDir (te_manifest e) in
      script [ensureTrustedDir e dir, chmod e dir 448, probe e ''lstat'',
        andThen (gets h_journal) (\<lambda>j. require (j = None) ''transaction journal exists'')])"

definition working_directory :: "host_env \<Rightarrow> serviceObservation \<Rightarrow> path list \<Rightarrow> path step" where
  "working_directory e ob dirs =
     (let wd = (if so_WorkingDirectory ob = [] then ''/'' else so_WorkingDirectory ob) in
      if \<not> IsAbs wd \<or> Clean wd \<noteq> wd \<or> set wd \<inter> {CHR 0x0A, CHR 0x0D, CHR ''%''} \<noteq> {}
      then fail ''service WorkingDirectory must be a literal absolute path''
      else if wd \<in> set dirs then ret wd
      else andThen (trusted (te_manifest e) wd) (\<lambda>_. ret wd))"

definition capture_bootstrap :: "host_env \<Rightarrow> serviceObservation \<Rightarrow> Trust \<Rightarrow> bootstrap step" where
  "capture_bootstrap e ob t =
     ask (\<lambda>n. case captureBootstrap (te_parse_float e) (te_tree e n) (te_decode_bootstrap e)
          (te_show e n (ServiceName (te_manifest e)) ''Environment,EnvironmentFiles,PassEnvironment'') (te_manifest e) ob t of
         None \<Rightarrow> Inl (local_error ''bootstrap'') | Some b \<Rightarrow> Inr b)"

definition apply_review :: "host_env \<Rightarrow> u64 \<Rightarrow> review step" where
  "apply_review e revision =
     andThen (rejectPendingSoftwareUpgrade e) (\<lambda>_.
     andThen (read_policy e) (\<lambda>p.
     andThen (read_trust e) (\<lambda>t.
     andThen (prepare_journal_dir e) (\<lambda>_.
     andThen (newPanel e t) (\<lambda>_.
     andThen (panel_current e t) (\<lambda>r.
       if pr_Revision r \<noteq> revision \<or> pr_State r \<noteq> NEEDS_MANUAL_AUTHORIZATION
       then fail ''requested revision is not the current approved host task''
       else
         andThen (observe_service e (ServiceName (te_manifest e))) (\<lambda>ob.
           (case legacyRemoteControlReview p r of (preview, consent) \<Rightarrow>
             (case validateActions preview t r ob of
                Some msg \<Rightarrow> fail msg
              | None \<Rightarrow>
                  andThen (if hp_PrivilegeMode p = 2 then lookup_uid e (so_User ob) else ret 0) (\<lambda>previousUID.
                  andThen (stateDirectories e) (\<lambda>dirs.
                  andThen (working_directory e ob dirs) (\<lambda>wd.
                  andThen (capture_bootstrap e ob t) (\<lambda>boot.
                    ret \<lparr>rv_Policy = p, rv_Trust = t, rv_Revision = r, rv_Consent = consent,
                      rv_PreviousUID = previousUID, rv_Dirs = dirs, rv_WorkingDir = wd, rv_Bootstrap = boot\<rparr>)))))))))))))"

text \<open>The local authentication, the verified helper and the comparison with the live authorization.\<close>

definition authorize :: "host_env \<Rightarrow> path \<Rightarrow> path \<Rightarrow> review \<Rightarrow> (string \<times> (bytes \<times> string) \<times> PrivilegedRevision) step" where
  "authorize e artifact release v =
     (let r = rv_Revision v; installRescue = 2 \<in> set (actions_of r) in
      if (artifact = []) \<noteq> (release = []) \<or> \<not> installRescue \<and> (artifact \<noteq> [] \<or> release \<noteq> [])
      then fail ''--helper-artifact and --release-manifest must be supplied together for a rescue install''
      else
        andThen (onlyif (rv_Consent v) (confirmLegacyRemoteControl e (ServiceName (te_manifest e)) (pr_Revision r))) (\<lambda>_.
        andThen (ask (te_authenticate e)) (\<lambda>operator.
        andThen (if installRescue then prepareHelper e (rv_Trust v) artifact release (te_version e) else ret ([], [])) (\<lambda>helper.
        andThen (panel_current e (rv_Trust v)) (\<lambda>current.
          if pr_Authorization current \<noteq> pr_Authorization r \<or> pr_State current \<noteq> pr_State r
          then fail ''approval changed during local authentication''
          else ret (operator, helper, current))))))"

definition new_journal :: "host_env \<Rightarrow> review \<Rightarrow> string \<Rightarrow> string \<Rightarrow> bytes \<Rightarrow> hostJournal" where
  "new_journal e v operator opid revision =
     \<lparr>hj_Version = hostJournalVersion, hj_Manifest = ManifestPath (te_manifest e), hj_ID = opid, hj_Phase = ''claiming'',
      hj_Operator = operator, hj_Revision = revision, hj_Operation = [], hj_Receipt = [], hj_SupersededReceipts = [],
      hj_Backups = [], hj_Ownership = [], hj_RecoveryOwnership = [], hj_Error = [],
      hj_PreviousMode = hp_PrivilegeMode (rv_Policy v), hj_PreviousUID = rv_PreviousUID v,
      hj_PreviousHelper = HelperInstalled (rv_Policy v), hj_FenceStage = [],
      hj_LegacyRemoteControlConsent = rv_Consent v\<rparr>"

text \<open>The claim of the operation, from the first save of the journal to the report of the phase "applying".\<close>

definition claim :: "host_env \<Rightarrow> review \<Rightarrow> string \<Rightarrow> PrivilegedRevision \<Rightarrow> unit step" where
  "claim e v operator r =
     andThen (gets (te_uuid e \<circ> h_tick)) (\<lambda>opid.
     andThen (from_option ''marshal'' (te_encode_revision e r)) (\<lambda>b.
     andThen (script [modify (\<lambda>h. h\<lparr>h_mem := new_journal e v operator opid b\<rparr>), save e]) (\<lambda>_.
     andThen (ask (\<lambda>n. te_prepare e n \<lparr>pq_AgentId = tr_AgentID (rv_Trust v), pq_OperationId = opid,
         pq_Revision = pr_Revision r, pq_ApprovalGeneration = pr_ApprovalGeneration r, pq_ConfigHash = pr_ConfigHash r,
         pq_Nonce = (case pr_Authorization r of None \<Rightarrow> [] | Some a \<Rightarrow> ha_Nonce a)\<rparr>)) (\<lambda>oper.
     script [
       verify_operation e (rv_Trust v) oper (pr_Authorization r) opid,
       require (phase_of oper = 1) ''new operation has unexpected phase'',
       andThen (from_option ''marshal'' (case oper of None \<Rightarrow> None | Some x \<Rightarrow> te_encode_operation e x))
         (\<lambda>ob. mem (hj_Operation_update (\<lambda>_. ob))),
       set_phase e ''prepared'',
       report e (rv_Trust v) 2 []]))))"

text \<open>A failed transaction is restored and reported at once; the error of the command says how far that went.\<close>

definition undo :: "host_env \<Rightarrow> Trust \<Rightarrow> go_error \<Rightarrow> unit step" where
  "undo e t err =
     script [
       mem (hj_Error_update (\<lambda>_. er_Message err)),
       ignoring (save e),
       restoreTransaction e,
       reportRestoration e t (er_Message err),
       archiveJournal e,
       raise err]"

definition apply_claimed :: "host_env \<Rightarrow> review \<Rightarrow> bytes \<times> string \<Rightarrow> PrivilegedRevision \<Rightarrow> unit step" where
  "apply_claimed e v helper r =
     andThen (script (map (backup e) (protected_files (te_manifest e)))) (\<lambda>_.
     andThen (set_phase e ''mutating'') (\<lambda>_.
       (\<lambda>h. case executeTransaction e (rv_Policy v) (rv_Trust v) r (rv_Dirs v) (rv_Bootstrap v) (fst helper) (snd helper)
               (rv_WorkingDir v) h of
            (Inl err, h') \<Rightarrow> undo e (rv_Trust v) err h'
          | (Inr _, h') \<Rightarrow>
              script [set_phase e ''local_applied'', report e (rv_Trust v) PHASE_LOCAL_APPLIED [],
                finishHost e (rv_Trust v)] h')))"

text \<open>\<open>apply\<close> once the manifest is resolved.\<close>

definition apply_manifest :: "host_env \<Rightarrow> u64 \<Rightarrow> path \<Rightarrow> path \<Rightarrow> unit step" where
  "apply_manifest e revision artifact release =
     andThen (apply_review e revision) (\<lambda>v.
     andThen (authorize e artifact release v) (\<lambda>(operator, helper, r).
     andThen (claim e v operator r) (\<lambda>_. apply_claimed e v helper r)))"

definition apply_command :: "host_env \<Rightarrow> path \<Rightarrow> u64 \<Rightarrow> path \<Rightarrow> path \<Rightarrow> unit step" where
  "apply_command e manifest revision artifact release =
     (if revision = 0 then fail ''--revision N is required''
      else andThen (script [requireRoot e, acquireHostLock e]) (\<lambda>_.
        andThen (resolveManifest e manifest) (\<lambda>m.
          apply_manifest (e\<lparr>te_manifest := m\<rparr>) revision artifact release)))"

end
