(* ===== verification/HostFrames.thy ===== *)
theory HostFrames
  imports HostTransaction
begin

text \<open>
  Frames for the steps of a host transaction: which steps leave the protected files alone, and which keep
  at least the backups and the phase of the journal. The two relations between hosts are instances of
  one locale.
\<close>

section \<open>Relations that steps keep\<close>

declare script.simps [simp del]

definition preserves :: "(host \<Rightarrow> host \<Rightarrow> bool) \<Rightarrow> 'a step \<Rightarrow> bool" where
  "preserves R s \<longleftrightarrow> (\<forall>h. R h (snd (s h)))"

lemma preservesD: "preserves R s \<Longrightarrow> s h = (r, h') \<Longrightarrow> R h h'"
  by (metis preserves_def snd_conv)

named_theorems kept \<open>steps that keep a relation\<close>

locale host_relation =
  fixes R :: "host \<Rightarrow> host \<Rightarrow> bool"
  assumes R_refl: "R h h"
    and R_trans: "R h1 h2 \<Longrightarrow> R h2 h3 \<Longrightarrow> R h1 h3"
    and R_tick: "h_tick h \<le> n \<Longrightarrow> R h (h\<lparr>h_tick := n\<rparr>)"
    and R_budget: "R h (h\<lparr>h_entries := n, h_bytes := b\<rparr>)"
begin

lemma ret_kept: "preserves R (ret x)"
  by (simp add: preserves_def ret_def R_refl)

lemma fail_kept: "preserves R (fail msg)"
  by (simp add: preserves_def fail_def R_refl)

lemma raise_kept: "preserves R (raise err)"
  by (simp add: preserves_def raise_def R_refl)

lemma gets_kept: "preserves R (gets f)"
  by (simp add: preserves_def gets_def R_refl)

lemma andThen_kept:
  assumes "preserves R s" and "\<And>x. preserves R (k x)"
  shows "preserves R (andThen s k)"
  unfolding preserves_def
proof
  fix h
  obtain r h1 where s: "s h = (r, h1)" by force
  from assms(1) s have "R h h1" by (metis preserves_def snd_conv)
  moreover have "R h1 (snd (k x h1))" for x using assms(2) by (simp add: preserves_def)
  ultimately show "R h (snd (andThen s k h))"
    using s by (auto simp: andThen_def intro: R_trans split: sum.split)
qed

lemma andThen_gets_kept:
  assumes "\<And>h. R h (snd (k (f h) h))"
  shows "preserves R (andThen (gets f) k)"
  using assms by (simp add: preserves_def andThen_def gets_def)

lemma script_kept: "(\<And>s. s \<in> set ss \<Longrightarrow> preserves R s) \<Longrightarrow> preserves R (script ss)"
  by (induction ss) (simp_all add: script.simps ret_kept andThen_kept)

lemma ignoring_kept: "preserves R s \<Longrightarrow> preserves R (ignoring s)"
  by (simp add: preserves_def ignoring_def)

lemma require_kept: "preserves R (require b msg)"
  by (simp add: require_def ret_kept fail_kept)

lemma onlyif_kept: "(b \<Longrightarrow> preserves R s) \<Longrightarrow> preserves R (onlyif b s)"
  by (simp add: onlyif_def ret_kept)

lemma from_option_kept: "preserves R (from_option msg r)"
  by (simp add: from_option_def ret_kept fail_kept split: option.split)

lemma from_sum_kept: "preserves R (from_sum msg r)"
  by (simp add: from_sum_def ret_kept fail_kept split: sum.split)

lemma ask_kept: "preserves R (ask answer)"
  by (simp add: preserves_def ask_def R_tick)

lemma call_kept:
  assumes "\<And>h. R h (f h)"
  shows "preserves R (call out msg f)"
proof -
  have "R h (f (h\<lparr>h_tick := Suc (h_tick h)\<rparr>))" for h
    by (rule R_trans [OF R_tick assms]) simp
  then show ?thesis
    by (simp add: preserves_def call_def Let_def R_tick split: outcome.split)
qed

lemma probe_kept: "preserves R (probe e msg)"
  unfolding probe_def by (rule call_kept) (rule R_refl)

lemma trusted_kept: "preserves R (trusted m p)"
  unfolding trusted_def by (rule andThen_kept) (rule gets_kept require_kept)+

lemma budget_kept: "preserves R (modify (\<lambda>h. h\<lparr>h_entries := 0, h_bytes := 0\<rparr>))"
  by (simp add: preserves_def modify_def R_budget)

lemma entries_kept: "preserves R (modify (\<lambda>h. h\<lparr>h_entries := Suc (h_entries h)\<rparr>))"
proof -
  have "R h (h\<lparr>h_entries := Suc (h_entries h)\<rparr>)" for h
    using R_budget [where h = h and n = "Suc (h_entries h)" and b = "h_bytes h"] by simp
  then show ?thesis by (simp add: preserves_def modify_def)
qed

lemma bytes_kept: "preserves R (modify (\<lambda>h. h\<lparr>h_bytes := h_bytes h + n\<rparr>))"
proof -
  have "R h (h\<lparr>h_bytes := h_bytes h + n\<rparr>)" for h
    using R_budget [where h = h and n = "h_entries h" and b = "h_bytes h + n"] by simp
  then show ?thesis by (simp add: preserves_def modify_def)
qed

lemmas basics_kept = ret_kept fail_kept raise_kept gets_kept require_kept from_option_kept from_sum_kept ask_kept
  probe_kept trusted_kept budget_kept entries_kept bytes_kept

end

section \<open>What the transaction protects\<close>

definition prot :: "Manifest \<Rightarrow> path set" where
  "prot m = set (protected_files m)"

definition vault :: "Manifest \<Rightarrow> path set" where
  "vault m = range (backup_path m)"

definition state_roots :: "Manifest \<Rightarrow> path set" where
  "state_roots m = Dir ` {CredentialsFile m, RuntimeStateFile m, PrivilegedStateFile m, ReplayStateFile m}"

definition ancestors :: "path \<Rightarrow> path set" where
  "ancestors d = {render True (take k (components d)) | k. True}"

text \<open>
  The places of an installation are apart: the protected files and the backups are neither in the state
  directories nor where the tool makes directories and caches, and the services leave them alone.
\<close>

definition work_places :: "Manifest \<Rightarrow> path set" where
  "work_places m = ancestors (journalDir m) \<union> ancestors ''/var/lib/komari-host'' \<union> ancestors (Dir (helperCache m)) \<union>
     {helperCache m, helperCache m @ ''.release.json''}"

definition target_places :: "Manifest \<Rightarrow> path set" where
  "target_places m = ancestors (Dir (profilePath m)) \<union> ancestors (Join [''/var/lib/komari-rescue'', ServiceName m])"

definition separated :: "Manifest \<Rightarrow> bool" where
  "separated m \<longleftrightarrow>
     prot m \<inter> vault m = {} \<and>
     (\<forall>p \<in> prot m. \<not> under (journalDir m) p \<and> (\<forall>opid. \<not> under (journalDir m @ ''-'' @ opid) p)) \<and>
     (prot m \<union> vault m) \<inter> work_places m = {} \<and> vault m \<inter> target_places m = {} \<and>
     (\<forall>d \<in> state_roots m. \<forall>p \<in> prot m \<union> vault m. \<not> under d p)"

definition hands_off :: "host_env \<Rightarrow> bool" where
  "hands_off e \<longleftrightarrow> (\<forall>n f p. p \<in> prot (te_manifest e) \<union> vault (te_manifest e) \<longrightarrow> te_services e n f p = f p)"

text \<open>The ownership entries of a journal never name a protected file.\<close>

definition clean_entries :: "Manifest \<Rightarrow> hostJournal \<Rightarrow> bool" where
  "clean_entries m j \<longleftrightarrow> (\<forall>en \<in> set (hj_Ownership j) \<union> set (hj_RecoveryOwnership j). ow_Path en \<notin> prot m)"

text \<open>\<open>quiet\<close>: the journal keeps its phase and its backups, and the backup files keep their contents.\<close>

definition quiet :: "Manifest \<Rightarrow> host \<Rightarrow> host \<Rightarrow> bool" where
  "quiet m h h' \<longleftrightarrow>
     (\<forall>p \<in> vault m. \<forall>n. h_files h p = Some n \<longrightarrow> (\<exists>n'. h_files h' p = Some n' \<and> nd_data n' = nd_data n)) \<and>
     hj_Phase (h_mem h') = hj_Phase (h_mem h) \<and> hj_Backups (h_mem h') = hj_Backups (h_mem h) \<and>
     h_archive h' = h_archive h \<and>
     (clean_entries m (h_mem h) \<longrightarrow> clean_entries m (h_mem h')) \<and>
     (h_journal h' = h_journal h \<or>
       (\<exists>j. h_journal h' = Some j \<and> hj_Phase j = hj_Phase (h_mem h) \<and> hj_Backups j = hj_Backups (h_mem h) \<and>
         (clean_entries m (h_mem h) \<longrightarrow> clean_entries m j)))"

text \<open>\<open>still\<close>: moreover the protected files are untouched.\<close>

definition still :: "Manifest \<Rightarrow> host \<Rightarrow> host \<Rightarrow> bool" where
  "still m h h' \<longleftrightarrow> quiet m h h' \<and> (clean_entries m (h_mem h) \<longrightarrow> (\<forall>p \<in> prot m. h_files h' p = h_files h p))"

lemma quiet_trans: "quiet m h1 h2 \<Longrightarrow> quiet m h2 h3 \<Longrightarrow> quiet m h1 h3"
  unfolding quiet_def by (elim conjE) (intro conjI; metis)

lemma quiet_refl: "quiet m h h"
  by (simp add: quiet_def)

interpretation qt: host_relation "quiet m" for m
proof
  show "quiet m h h" for h by (rule quiet_refl)
  show "quiet m h1 h2 \<Longrightarrow> quiet m h2 h3 \<Longrightarrow> quiet m h1 h3" for h1 h2 h3 by (rule quiet_trans)
  show "quiet m h (h\<lparr>h_tick := n\<rparr>)" for h n by (simp add: quiet_def)
  show "quiet m h (h\<lparr>h_entries := n, h_bytes := b\<rparr>)" for h n b by (simp add: quiet_def)
qed

interpretation st: host_relation "still m" for m
proof
  show "still m h h" for h by (simp add: still_def quiet_refl)
  show "still m h1 h3" if "still m h1 h2" "still m h2 h3" for h1 h2 h3
    using that quiet_trans [of m h1 h2 h3] by (simp add: still_def quiet_def)
  show "still m h (h\<lparr>h_tick := n\<rparr>)" for h n by (simp add: still_def quiet_def)
  show "still m h (h\<lparr>h_entries := n, h_bytes := b\<rparr>)" for h n b by (simp add: still_def quiet_def)
qed

declare qt.basics_kept [kept] st.basics_kept [kept]
  qt.andThen_kept [kept] st.andThen_kept [kept] qt.script_kept [kept] st.script_kept [kept]
  qt.ignoring_kept [kept] st.ignoring_kept [kept] qt.onlyif_kept [kept] st.onlyif_kept [kept]

lemma still_quiet: "preserves (still m) s \<Longrightarrow> preserves (quiet m) s"
  by (simp add: preserves_def still_def)

section \<open>What each step keeps\<close>

lemma mem_kept:
  assumes "\<And>j. hj_Phase (f j) = hj_Phase j \<and> hj_Backups (f j) = hj_Backups j"
    and "\<And>j. clean_entries m j \<Longrightarrow> clean_entries m (f j)"
  shows "preserves (still m) (mem f)"
  using assms by (simp add: preserves_def mem_def modify_def still_def quiet_def)

lemma save_kept: "preserves (still m) (save e)"
  unfolding save_def by (rule st.call_kept) (simp add: still_def quiet_def)

lemma put_still: "p \<notin> prot m \<union> vault m \<Longrightarrow> preserves (still m) (call out msg (put p n))"
  by (rule st.call_kept) (auto simp: still_def quiet_def put_def)

lemma put_quiet: "p \<notin> vault m \<Longrightarrow> preserves (quiet m) (call out msg (put p n))"
  by (rule qt.call_kept) (auto simp: quiet_def put_def)

lemma change_quiet: "(\<And>n. nd_data (f n) = nd_data n) \<Longrightarrow> preserves (quiet m) (call out msg (change p f))"
  by (rule qt.call_kept) (auto simp: quiet_def change_def)

lemma change_still: "(\<And>n. nd_data (f n) = nd_data n) \<Longrightarrow> p \<notin> prot m \<Longrightarrow> preserves (still m) (call out msg (change p f))"
  by (rule st.call_kept) (auto simp: still_def quiet_def change_def)

lemma chown_kept [kept]: "preserves (quiet m) (chown e p u g)" "p \<notin> prot m \<Longrightarrow> preserves (still m) (chown e p u g)"
  unfolding chown_def by (rule change_quiet change_still; simp)+

lemma chmod_kept [kept]: "preserves (quiet m) (chmod e p k)" "p \<notin> prot m \<Longrightarrow> preserves (still m) (chmod e p k)"
  unfolding chmod_def by (rule change_quiet change_still; simp)+

lemma write_owned_kept:
  "p \<notin> vault m \<Longrightarrow> preserves (quiet m) (write_owned e p d k u g)"
  "p \<notin> prot m \<union> vault m \<Longrightarrow> preserves (still m) (write_owned e p d k u g)"
  unfolding write_owned_def
   apply (rule qt.andThen_kept, rule kept)
   apply (simp add: put_quiet qt.fail_kept)
  apply (rule st.andThen_kept, rule kept)
  apply (simp add: put_still st.fail_kept)
  done

lemma write_file_kept:
  "p \<notin> vault m \<Longrightarrow> preserves (quiet m) (write_file e p d k)"
  "p \<notin> prot m \<union> vault m \<Longrightarrow> preserves (still m) (write_file e p d k)"
  by (simp_all add: write_file_def write_owned_kept)

lemma write_json_kept:
  "p \<notin> vault m \<Longrightarrow> preserves (quiet m) (write_json e p d k)"
  "p \<notin> prot m \<union> vault m \<Longrightarrow> preserves (still m) (write_json e p d k)"
  by (auto simp: write_json_def encoded_def write_file_kept qt.fail_kept st.fail_kept split: option.split)

lemma remove_kept: "p \<notin> vault m \<Longrightarrow> preserves (quiet m) (remove_file e p)"
  unfolding remove_file_def by (rule put_quiet)

lemma systemctl_kept:
  assumes "hands_off e" and "te_manifest e = m"
  shows "preserves (still m) (systemctl e args)"
proof -
  have "still m h (h\<lparr>h_calls := c, h_files := te_services e k (h_files h)\<rparr>)" for h c k
    using assms by (simp add: hands_off_def still_def quiet_def)
  then have "preserves (still m) (call (te_out e) ''systemctl'' (\<lambda>h. h\<lparr>h_calls := h_calls h @ [args],
      h_files := te_services e (h_tick h) (h_files h)\<rparr>))"
    by (rule st.call_kept)
  then show ?thesis
    unfolding systemctl_def script.simps by (intro st.andThen_kept st.trusted_kept st.ret_kept)
qed

context host_relation
begin

lemma restart_related:
  assumes sys: "\<And>args. preserves R (systemctl e args)"
  shows "preserves R (restartReviewedService e s)"
  unfolding preserves_def
proof
  fix h
  obtain r h1 where 1: "systemctl e [''reset-failed'', s] h = (r, h1)" by force
  have a: "R h h1" by (rule preservesD [OF sys 1])
  have b: "R g (snd (systemctl e [''restart'', s] g))" for g
    using sys by (simp add: preserves_def)
  show "R h (snd (restartReviewedService e s h))"
  proof (cases r)
    case (Inr u)
    with 1 a b show ?thesis by (auto simp: restartReviewedService_def intro: R_trans)
  next
    case (Inl err)
    let ?q = "andThen (trusted (te_manifest e) ''/usr/bin/systemctl'')
        (\<lambda>_. ask (\<lambda>n. case te_show e n s ''LoadState'' of None \<Rightarrow> Inl err | Some x \<Rightarrow> Inr x))"
    obtain q h2 where 2: "?q h1 = (q, h2)" by force
    have "preserves R ?q" by (intro andThen_kept basics_kept)
    from preservesD [OF this 2] have "R h1 h2" .
    with a have c: "R h h2" by (rule R_trans)
    show ?thesis
    proof (cases q)
      case (Inl x)
      with 1 2 c \<open>r = Inl err\<close> show ?thesis by (simp add: restartReviewedService_def)
    next
      case (Inr x)
      with 1 2 c b [of h2] \<open>r = Inl err\<close> show ?thesis
        by (auto simp: restartReviewedService_def intro: R_trans)
    qed
  qed
qed

end

lemma restart_kept:
  assumes "hands_off e" and "te_manifest e = m"
  shows "preserves (still m) (restartReviewedService e s)"
  by (rule st.restart_related) (rule systemctl_kept [OF assms])

lemma ensure_components_kept:
  assumes "host_relation R" and put: "\<And>p out msg n. p \<notin> A \<Longrightarrow> preserves R (call out msg (put p n))"
    and "\<forall>k. render True (take k (rev rcs)) \<notin> A"
  shows "preserves R (ensure_components e rcs)"
  using assms(3)
proof (induction rcs)
  case Nil
  note r = host_relation.andThen_kept [OF assms(1)] host_relation.basics_kept [OF assms(1)]
  show ?case
    unfolding ensure_components.simps [of e "[]"] Let_def script.simps list.case by (intro r) (auto intro!: r)
next
  case (Cons c rcs)
  note r = host_relation.andThen_kept [OF assms(1)] host_relation.basics_kept [OF assms(1)]
  have "\<forall>k. render True (take k (rev rcs)) \<notin> A"
  proof
    fix k
    have "take k (rev rcs) = take (min k (length rcs)) (rev (c # rcs))" by (simp add: min_def)
    with Cons.prems show "render True (take k (rev rcs)) \<notin> A" by metis
  qed
  then have IH: "preserves R (ensure_components e rcs)" by (rule Cons.IH)
  have p: "render True (rev (c # rcs)) \<notin> A"
    using Cons.prems [rule_format, of "length (c # rcs)"] by simp
  have "preserves R (if st \<noteq> None then ret ()
      else script [ensure_components e rcs, call (te_out e) ''mkdir'' (put (render True (rev (c # rcs))) n)])" for st :: "inode option" and n
    using IH put [OF p] by (auto intro!: r host_relation.script_kept [OF assms(1)] simp del: rev.simps)
  then show ?case
    unfolding ensure_components.simps [of e "c # rcs"] Let_def list.case script.simps(2) [of "andThen _ _"]
      script.simps(2) [of "trusted _ _"] script.simps(1) by (intro r)
qed

lemma ensure_still:
  assumes "ancestors d \<inter> (prot m \<union> vault m) = {}"
  shows "preserves (still m) (ensureTrustedDir e d)"
proof -
  have "\<forall>k. render True (take k (rev (rev (components d)))) \<notin> prot m \<union> vault m"
    using assms by (auto simp: ancestors_def)
  from ensure_components_kept [OF st.host_relation_axioms put_still this] show ?thesis
    by (simp add: ensureTrustedDir_def st.fail_kept)
qed

lemma ensure_quiet:
  assumes "ancestors d \<inter> vault m = {}"
  shows "preserves (quiet m) (ensureTrustedDir e d)"
proof -
  have "\<forall>k. render True (take k (rev (rev (components d)))) \<notin> vault m"
    using assms by (auto simp: ancestors_def)
  from ensure_components_kept [OF qt.host_relation_axioms put_quiet this] show ?thesis
    by (simp add: ensureTrustedDir_def qt.fail_kept)
qed

lemma starts_with_iff: "starts_with p s \<longleftrightarrow> (\<exists>r. s = p @ r)"
  by (metis append_eq_conv_conj append_take_drop_id starts_with_def)

lemma under_child: "under (p @ ''/'' @ name) q \<Longrightarrow> under p q"
  by (auto simp: under_def starts_with_iff)

lemma under_refl: "under p p"
  by (simp add: under_def)

lemma seal_checks_kept: "preserves (still m) (seal_checks p n owner device)"
  unfolding seal_checks_def by (auto intro!: kept)

lemma seal_record_kept:
  assumes "p \<notin> prot m"
  shows "preserves (still m) (seal_record e p n recovery)"
proof -
  have "preserves (still m) (mem (add_entry recovery \<lparr>ow_Path = p, ow_UID = u, ow_GID = g, ow_Mode = k\<rparr>))" for u g k
    using assms by (intro mem_kept) (auto simp: add_entry_def clean_entries_def)
  then show ?thesis
    unfolding seal_record_def by (auto intro!: kept save_kept)
qed

lemma seal_kept:
  "\<forall>q \<in> prot m \<union> vault m. \<not> under p q \<Longrightarrow> preserves (still m) (seal e owner device recovery fuel p)"
proof (induction fuel arbitrary: p)
  case 0
  show ?case by (simp add: kept)
next
  case (Suc fuel)
  have p: "p \<notin> prot m \<union> vault m" using Suc.prems under_refl by blast
  have child: "preserves (still m) (seal e owner device recovery fuel (p @ ''/'' @ name))" for name
    using Suc.prems under_child by (intro Suc.IH) blast
  have close: "preserves (still m) (seal_close e p n)" for n
    unfolding seal_close_def using p by (auto intro!: kept)
  have copy: "preserves (still m) (copySealedStateFile e p n limit)" for n limit
    using put_still [OF p] by (auto simp: copySealedStateFile_def intro!: kept)
  have "preserves (still m) (script [probe e ''readdir'',
      andThen (gets (\<lambda>h. te_names e (h_tick h) p)) (\<lambda>names.
        if length names > maxStateEntries then fail ''state directory has too many entries''
        else script (map (\<lambda>name. seal e owner device recovery fuel (p @ ''/'' @ name)) names)),
      probe e ''sync''])"
    using child by (auto intro!: kept)
  moreover have "preserves (still m) (andThen (gets h_bytes) (\<lambda>used.
      copySealedStateFile e p n (min maxStateFileBytes (maxStateTreeBytes - used))))" for n
    by (intro kept copy)
  ultimately have body: "preserves (still m) (script [seal_checks p n owner device, seal_record e p n recovery, seal_close e p n,
      (if nd_kind n = KDirectory then script [probe e ''readdir'',
          andThen (gets (\<lambda>h. te_names e (h_tick h) p)) (\<lambda>names.
            if length names > maxStateEntries then fail ''state directory has too many entries''
            else script (map (\<lambda>name. seal e owner device recovery fuel (p @ ''/'' @ name)) names)),
          probe e ''sync'']
        else andThen (gets h_bytes) (\<lambda>used.
          copySealedStateFile e p n (min maxStateFileBytes (maxStateTreeBytes - used))))])" for n
    using p close by (auto intro!: st.script_kept seal_checks_kept seal_record_kept)
  show ?case
    unfolding seal.simps using body by (auto intro!: kept split: option.split)
qed

lemma fence_kept:
  assumes "separated m" and "set dirs \<subseteq> state_roots m"
  shows "preserves (still m) (fenceStateDirectories e dirs owner recovery)"
proof -
  have "preserves (still m) (seal e owner k recovery 9 dir)" if "dir \<in> set dirs" for dir k
    using that assms by (intro seal_kept) (auto simp: separated_def)
  then have one: "preserves (still m) (script (map (\<lambda>dir. andThen (probe e ''lstat'') (\<lambda>_. andThen (gets (\<lambda>h. h_files h dir)) (\<lambda>st.
             case st of
               None \<Rightarrow> fail ''no such file''
             | Some n \<Rightarrow>
                 if nd_kind n \<noteq> KDirectory then fail ''state root is not a directory''
                 else seal e owner (nd_dev n) recovery 9 dir))) dirs))"
    by (auto intro!: kept split: option.split)
  have "preserves (still m) (mem (hj_FenceStage_update (\<lambda>_. x)))" for x
    by (intro mem_kept) (simp_all add: clean_entries_def)
  with one save_kept have "preserves (still m) (script [
         (if recovery then ret () else script [mem (hj_FenceStage_update (\<lambda>_. ''sealing'')), save e]),
         modify (\<lambda>h. h\<lparr>h_entries := 0, h_bytes := 0\<rparr>),
         script (map (\<lambda>dir. andThen (probe e ''lstat'') (\<lambda>_. andThen (gets (\<lambda>h. h_files h dir)) (\<lambda>st.
             case st of
               None \<Rightarrow> fail ''no such file''
             | Some n \<Rightarrow>
                 if nd_kind n \<noteq> KDirectory then fail ''state root is not a directory''
                 else seal e owner (nd_dev n) recovery 9 dir))) dirs)])"
    by (auto intro!: kept)
  then show ?thesis
    unfolding fenceStateDirectories_def by (auto intro!: st.andThen_kept st.gets_kept st.ret_kept)
qed

lemma change_entry_kept:
  "preserves (quiet m) (change_entry e uid gid original en)"
  "ow_Path en \<notin> prot m \<Longrightarrow> preserves (still m) (change_entry e uid gid original en)"
  unfolding change_entry_def by (auto intro!: kept split: option.split)

lemma changeOwnership_kept:
  "preserves (quiet m) (changeOwnership e es uid gid original)"
  "\<forall>en \<in> set es. ow_Path en \<notin> prot m \<Longrightarrow> preserves (still m) (changeOwnership e es uid gid original)"
  unfolding changeOwnership_def by (auto intro!: kept change_entry_kept)

lemma adopt_entry_kept: "preserves (still m) (adopt_entry e os dirs en)"
  unfolding adopt_entry_def Let_def by (auto intro!: kept split: option.split)

lemma adopt_entries_kept: "preserves (still m) (adopt_entries e os dirs ens acc)"
  by (induction ens arbitrary: acc) (auto intro!: kept adopt_entry_kept)

lemma adopt_entry_path: "adopt_entry e os dirs en h = (Inr en', h') \<Longrightarrow> ow_Path en' = ow_Path en"
  by (auto simp: adopt_entry_def andThen_def gets_def ret_def probe_def call_def Let_def
      split: option.splits sum.splits outcome.splits prod.splits if_splits)

lemma adopt_entries_paths:
  "adopt_entries e os dirs ens acc h = (Inr r, h') \<Longrightarrow> ow_Path ` set r \<subseteq> ow_Path ` (set acc \<union> set ens)"
proof (induction ens arbitrary: acc h)
  case Nil
  then show ?case by (simp add: ret_def)
next
  case (Cons en ens)
  show ?case
  proof (cases "original_of os (ow_Path en) = None")
    case False
    with Cons.IH [of acc h] Cons.prems show ?thesis by auto
  next
    case True
    with Cons.prems obtain en' h1 where s: "adopt_entry e os dirs en h = (Inr en', h1)"
        "adopt_entries e os dirs ens (acc @ [en']) h1 = (Inr r, h')"
      by (auto simp: andThen_def split: sum.splits prod.splits)
    from adopt_entry_path [OF s(1)] Cons.IH [OF s(2)] show ?thesis by auto
  qed
qed

lemma restoreStateOwnership_kept: "preserves (still m) (restoreStateOwnership e dirs)"
  unfolding restoreStateOwnership_def
proof (rule st.andThen_gets_kept)
  fix h :: host
  let ?a = "adopt_entries e (hj_Ownership (h_mem h)) dirs (hj_RecoveryOwnership (h_mem h)) (hj_Ownership (h_mem h))"
  obtain r h1 where a: "?a h = (r, h1)" by force
  have k: "still m h h1" by (rule preservesD [OF adopt_entries_kept a])
  show "still m h (snd (andThen ?a (\<lambda>entries. changeOwnership e entries 0 0 True) h))"
  proof (cases r)
    case (Inl err)
    with a k show ?thesis by (simp add: andThen_def)
  next
    case (Inr es)
    let ?c = "changeOwnership e es 0 0 True"
    have e: "andThen ?a (\<lambda>entries. changeOwnership e entries 0 0 True) h = ?c h1"
      using a Inr by (simp add: andThen_def)
    show ?thesis
    proof (cases "clean_entries m (h_mem h)")
      case True
      have "ow_Path ` set es \<subseteq> ow_Path ` (set (hj_Ownership (h_mem h)) \<union> set (hj_RecoveryOwnership (h_mem h)))"
        using adopt_entries_paths [of e _ dirs _ _ h es h1] a Inr by blast
      with True have "\<forall>en \<in> set es. ow_Path en \<notin> prot m" by (auto simp: clean_entries_def)
      then have "still m h1 (snd (?c h1))"
        using changeOwnership_kept(2) [of es m e 0 0 True] by (simp add: preserves_def)
      with k e show ?thesis by (auto intro: st.R_trans)
    next
      case False
      have "quiet m h1 (snd (?c h1))"
        using changeOwnership_kept(1) [of m e es 0 0 True] by (simp add: preserves_def)
      moreover have "quiet m h h1" using k by (simp add: still_def)
      ultimately have "quiet m h (snd (?c h1))" by (rule quiet_trans [rotated])
      with False e show ?thesis by (simp add: still_def)
    qed
  qed
qed

lemma stateDirectories_loop_kept: "preserves (still m) (stateDirectories_loop m' ps dirs)"
proof (induction ps arbitrary: dirs)
  case (Cons p ps)
  have "preserves (still m) (stateDirectories_loop_step m' p dirs)"
    unfolding stateDirectories_loop_step_def Let_def by (auto intro!: kept)
  with Cons show ?case by (auto intro!: kept)
qed (simp add: kept)

lemma stateDirectories_kept: "preserves (still m) (stateDirectories e)"
  unfolding stateDirectories_def Let_def by (rule stateDirectories_loop_kept)

lemma stateDirectories_loop_roots:
  "stateDirectories_loop m ps dirs h = (Inr r, h') \<Longrightarrow> set r \<subseteq> set dirs \<union> Dir ` set ps"
proof (induction ps arbitrary: dirs h)
  case Nil
  then show ?case by (simp add: ret_def)
next
  case (Cons p ps)
  from Cons.prems obtain d h1 where s: "stateDirectories_loop_step m p dirs h = (Inr d, h1)"
      "stateDirectories_loop m ps d h1 = (Inr r, h')"
    by (auto simp: andThen_def split: sum.splits prod.splits)
  have "set d \<subseteq> insert (Dir p) (set dirs)"
    using s(1) by (auto simp: stateDirectories_loop_step_def andThen_def Let_def ret_def fail_def
      split: if_splits sum.splits prod.splits)
  with Cons.IH [OF s(2)] show ?case by auto
qed

lemma stateDirectories_roots:
  "stateDirectories e h = (Inr dirs, h') \<Longrightarrow> set dirs \<subseteq> state_roots (te_manifest e)"
  unfolding stateDirectories_def Let_def by (drule stateDirectories_loop_roots) (auto simp: state_roots_def)

lemma reads_kept:
  "preserves (still m) (read_policy e)" "preserves (still m) (read_trust e)"
  "preserves (still m) (lookup_uid e name)" "preserves (still m) (lookup_ids e name)"
  unfolding read_policy_def read_trust_def lookup_uid_def lookup_ids_def
  by (auto intro!: kept split: option.split)

lemma panel_kept:
  "preserves (still m) (newPanel e t)" "preserves (still m) (panel_current e t)"
  "preserves (still m) (panel_get e opid)" "preserves (still m) (verify_operation e t oper a opid)"
  "preserves (still m) (verify_service e s uid mode)" "preserves (still m) (wait_helper e)"
  unfolding newPanel_def panel_current_def panel_get_def verify_operation_def verify_service_def wait_helper_def
  by (auto intro!: kept split: option.split)

lemma receipt_update_kept: "preserves (still m) (mem (hj_Receipt_update f))"
  by (rule mem_kept) (simp_all add: clean_entries_def)

lemma fence_stage_kept: "preserves (still m) (mem (hj_FenceStage_update f))"
  by (rule mem_kept) (simp_all add: clean_entries_def)

lemma superseded_kept: "preserves (still m) (mem (\<lambda>j. j\<lparr>hj_SupersededReceipts := f j, hj_Receipt := []\<rparr>))"
  by (rule mem_kept) (simp_all add: clean_entries_def)

lemma encoded_kept: "(\<And>x. preserves (still m) (k x)) \<Longrightarrow> preserves (still m) (encoded b k)"
  by (auto simp: encoded_def intro!: kept split: option.split)

lemma prepareRestorationReceipt_kept: "preserves (still m) (prepareRestorationReceipt e)"
  unfolding prepareRestorationReceipt_def
  by (auto intro!: kept save_kept superseded_kept split: option.split)

lemma report_kept: "preserves (still m) (report e t phase detail)"
  unfolding report_def
  by (auto intro!: kept save_kept receipt_update_kept encoded_kept split: option.split)

lemma reportRestoration_kept: "preserves (still m) (reportRestoration e t detail)"
  unfolding reportRestoration_def
  by (auto intro!: kept save_kept superseded_kept prepareRestorationReceipt_kept panel_kept report_kept split: option.split)

lemma protected_members:
  "profilePath m \<in> prot m" "bootstrapPath m \<in> prot m" "HostPolicyFile m \<in> prot m" "AppliedPath m \<in> prot m"
  "helperBinary m \<in> prot m" "helperConfig m \<in> prot m" "helperUnitPath m \<in> prot m"
  by (simp_all add: prot_def protected_files_def)

lemma not_vault: "separated m \<Longrightarrow> p \<in> prot m \<Longrightarrow> p \<notin> vault m"
  by (auto simp: separated_def)

lemma helper_unit_exists_kept:
  assumes "\<And>b. preserves (still m) (k b)"
  shows "preserves (still m) (helper_unit_exists e k)"
  unfolding preserves_def
proof
  fix h :: host
  obtain r h1 where p: "probe e ''stat'' h = (r, h1)" by force
  have a: "still m h h1" by (rule preservesD [OF st.probe_kept p])
  have "still m h1 (snd (k b h1))" for b using assms by (simp add: preserves_def)
  with a p show "still m h (snd (helper_unit_exists e k h))"
    by (auto simp: helper_unit_exists_def intro: st.R_trans split: sum.split)
qed

lemma helper_unit_exists_quiet:
  assumes "\<And>b. preserves (quiet m) (k b)"
  shows "preserves (quiet m) (helper_unit_exists e k)"
  unfolding preserves_def
proof
  fix h :: host
  obtain r h1 where p: "probe e ''stat'' h = (r, h1)" by force
  have a: "quiet m h h1" by (rule preservesD [OF qt.probe_kept p])
  have "quiet m h1 (snd (k b h1))" for b using assms by (simp add: preserves_def)
  with a p show "quiet m h (snd (helper_unit_exists e k h))"
    by (auto simp: helper_unit_exists_def intro: quiet_trans split: sum.split)
qed

lemma still_authorized_kept: "preserves (still m) (still_authorized e t r)"
  unfolding still_authorized_def by (auto intro!: kept panel_kept)

lemma consented_policy_kept: "preserves (still m) (consented_policy p r)"
  unfolding consented_policy_def by (auto intro!: kept split: prod.split)

text \<open>An installation whose environment leaves it alone.\<close>

definition apart :: "Manifest \<Rightarrow> host_env \<Rightarrow> bool" where
  "apart m e \<longleftrightarrow> separated m \<and> hands_off e \<and> te_manifest e = m"

lemma apart_sys: "apart m e \<Longrightarrow> preserves (still m) (systemctl e args)"
  by (auto simp: apart_def intro: systemctl_kept)

lemma apart_restart: "apart m e \<Longrightarrow> preserves (still m) (restartReviewedService e s)"
  by (auto simp: apart_def intro: restart_kept)

lemma write_protected:
  assumes "apart m e" and "p \<in> prot m"
  shows "preserves (quiet m) (write_file e p d k)" "preserves (quiet m) (write_json e p v k)"
    "preserves (quiet m) (remove_file e p)" "preserves (quiet m) (write_owned e p d k u g)"
  using assms not_vault [of m p] by (auto simp: apart_def intro!: write_file_kept write_json_kept remove_kept write_owned_kept)

lemma installHelper_quiet:
  assumes "apart m e"
  shows "preserves (quiet m) (installHelper e t boot binary version)"
proof -
  have m: "te_manifest e = m" and s: "separated m" using assms by (simp_all add: apart_def)
  have "preserves (quiet m) (ensureTrustedDir e (Join [''/var/lib/komari-rescue'', ServiceName m]))"
    using s by (intro ensure_quiet) (auto simp: separated_def target_places_def)
  then show ?thesis
    unfolding installHelper_def m Let_def
    by (auto intro!: kept write_protected [OF assms] simp: protected_members)
qed

lemma remove_helper_quiet:
  assumes "apart m e"
  shows "preserves (quiet m) (remove_helper e)"
proof -
  have m: "te_manifest e = m" using assms by (simp add: apart_def)
  show ?thesis
    unfolding remove_helper_def m Let_def
    by (auto intro!: helper_unit_exists_quiet kept still_quiet [OF apart_sys [OF assms]] write_protected [OF assms]
        simp: protected_members)
qed

lemma write_profile_quiet:
  assumes "apart m e"
  shows "preserves (quiet m) (write_profile e p t r boot helper version wd ids)"
proof -
  have m: "te_manifest e = m" and s: "separated m" using assms by (simp_all add: apart_def)
  obtain uid gid g where ids: "ids = (uid, gid, g)" by (rule prod_cases3)
  have "preserves (quiet m) (ensureTrustedDir e (Dir (profilePath m)))"
    using s by (intro ensure_quiet) (auto simp: separated_def target_places_def)
  then show ?thesis
    unfolding write_profile_def m Let_def ids split_conv
    by (auto intro!: kept write_protected [OF assms] installHelper_quiet [OF assms] remove_helper_quiet [OF assms]
        changeOwnership_kept(1) simp: protected_members)
qed

lemma start_profile_quiet:
  assumes "apart m e"
  shows "preserves (quiet m) (start_profile e r uid)"
proof -
  have m: "te_manifest e = m" using assms by (simp add: apart_def)
  show ?thesis
    unfolding start_profile_def m Let_def
    by (auto intro!: kept write_protected [OF assms] still_quiet [OF apart_sys [OF assms]]
        still_quiet [OF apart_restart [OF assms]] still_quiet [OF panel_kept(5)] still_quiet [OF panel_kept(6)]
        simp: protected_members)
qed

lemma executeTransaction_quiet:
  assumes "apart m e" and "set dirs \<subseteq> state_roots m"
  shows "preserves (quiet m) (executeTransaction e p t r dirs boot helper version wd)"
proof -
  have s: "separated m" using assms by (simp add: apart_def)
  show ?thesis
    unfolding executeTransaction_def
    by (auto intro!: kept still_quiet [OF apart_sys [OF assms(1)]] still_quiet [OF reads_kept(4)]
        still_quiet [OF fence_kept [OF s assms(2)]] still_quiet [OF still_authorized_kept]
        still_quiet [OF consented_policy_kept] still_quiet [OF fence_stage_kept] still_quiet [OF save_kept]
        write_profile_quiet [OF assms(1)] start_profile_quiet [OF assms(1)])
qed

lemma stop_helper_kept: "apart m e \<Longrightarrow> preserves (still m) (stop_helper e)"
  unfolding stop_helper_def Let_def by (auto intro!: helper_unit_exists_kept kept apart_sys)

lemma restart_original_kept: "apart m e \<Longrightarrow> preserves (still m) (restart_original e)"
  unfolding restart_original_def Let_def by (auto intro!: kept apart_sys apart_restart reads_kept panel_kept)

end
