(* ===== verification/HostWork.thy ===== *)
theory HostWork
  imports HostFrames
begin

text \<open>
  What the preparations of a transaction keep: the steps that only read, ask, or write away from some places
  \<open>A\<close>. The relation \<open>still\<close> of \<open>HostFrames\<close> is one instance; \<open>HostGuarantees\<close> has another.
\<close>

lemma Clean_ancestor: "IsAbs p \<Longrightarrow> Clean p \<in> ancestors (Clean p)"
proof -
  assume p: "IsAbs p"
  have "Clean p = render True (take (length (components (Clean p))) (components (Clean p)))"
    using p by (simp add: Clean_rooted components_render components_plain)
  then show ?thesis unfolding ancestors_def by (intro CollectI exI conjI TrueI)
qed

lemma journalDir_work: "journalDir m \<in> work_places m"
proof -
  obtain r where "journalDir m = Clean (sep # r)"
    by (cases "ServiceName m = []") (simp_all add: journalDir_def)
  then have "journalDir m \<in> ancestors (journalDir m)" using Clean_ancestor [of "sep # r"] by (simp add: IsAbs_def)
  then show ?thesis by (simp add: work_places_def)
qed

locale file_relation = host_relation +
  fixes A :: "path set"
  assumes R_put: "p \<notin> A \<Longrightarrow> R h (put p n h)"
    and R_change: "p \<notin> A \<Longrightarrow> (\<And>n. nd_data (f n) = nd_data n) \<Longrightarrow> R h (change p f h)"
begin

lemmas working = basics_kept andThen_kept script_kept onlyif_kept ignoring_kept

lemma put_work: "p \<notin> A \<Longrightarrow> preserves R (call out msg (put p n))"
  by (rule call_kept) (rule R_put)

lemma chmod_work: "p \<notin> A \<Longrightarrow> preserves R (chmod e p k)"
  unfolding chmod_def by (rule call_kept) (rule R_change, simp_all)

lemma write_file_work: "p \<notin> A \<Longrightarrow> preserves R (write_file e p d k)"
  by (auto simp: write_file_def write_owned_def intro!: working put_work)

lemma write_json_work: "p \<notin> A \<Longrightarrow> preserves R (write_json e p d k)"
  by (auto simp: write_json_def encoded_def intro!: write_file_work fail_kept split: option.split)

lemma ensure_work:
  assumes "ancestors d \<inter> A = {}"
  shows "preserves R (ensureTrustedDir e d)"
proof -
  have "\<forall>k. render True (take k (rev (rev (components d)))) \<notin> A"
    using assms by (auto simp: ancestors_def)
  from ensure_components_kept [OF host_relation_axioms put_work this] show ?thesis
    by (simp add: ensureTrustedDir_def fail_kept)
qed

lemma reads_work:
  "preserves R (read_policy e)" "preserves R (read_trust e)" "preserves R (lookup_uid e name)"
  unfolding read_policy_def read_trust_def lookup_uid_def by (auto intro!: working split: option.split)

lemma panel_work:
  "preserves R (newPanel e t)" "preserves R (panel_current e t)" "preserves R (verify_operation e t oper a opid)"
  unfolding newPanel_def panel_current_def verify_operation_def by (auto intro!: working split: option.split)

lemma stateDirectories_work: "preserves R (stateDirectories e)"
proof -
  have "preserves R (stateDirectories_loop m ps dirs)" for m ps dirs
  proof (induction ps arbitrary: dirs)
    case (Cons p ps)
    have "preserves R (stateDirectories_loop_step m p dirs)"
      unfolding stateDirectories_loop_step_def Let_def by (auto intro!: working)
    with Cons show ?case by (auto intro!: working)
  qed (simp add: ret_kept)
  then show ?thesis unfolding stateDirectories_def Let_def .
qed

lemma pending_work: "preserves R (rejectPendingSoftwareUpgrade e)"
proof -
  have "preserves R (pending_loop e ps pending)" for ps pending
  proof (induction ps arbitrary: pending)
    case (Cons p ps)
    then show ?case by (auto intro!: working split: sum.split)
  qed (simp add: ret_kept)
  then show ?thesis
    unfolding rejectPendingSoftwareUpgrade_def pendingSoftwareUpgrade_def by (auto intro!: working)
qed

lemma download_work: "preserves R (download e url limit)"
  unfolding download_def by (rule ask_kept)

lemma readHelper_work: "preserves R (readHelper e t artifact release)"
  unfolding readHelper_def Let_def verify_release_def by (auto intro!: working split: sum.split option.split)

lemma downloadHelper_work: "preserves R (downloadHelper e t version)"
  unfolding downloadHelper_def verify_release_def
  by (auto intro!: working download_work split: option.split)

lemma cacheHelper_work:
  assumes "work_places (te_manifest e) \<inter> A = {}"
  shows "preserves R (cacheHelper e t version)"
  unfolding cacheHelper_def Let_def using assms
  by (auto intro!: working downloadHelper_work ensure_work write_file_work write_json_work
      simp: work_places_def split: prod.split)

lemma prepareHelper_work:
  assumes "work_places (te_manifest e) \<inter> A = {}"
  shows "preserves R (prepareHelper e t artifact release version)"
proof -
  let ?p = "helperCache (te_manifest e)"
  let ?fetch = "andThen (cacheHelper e t version) (\<lambda>(binary, payload). ret (binary, rp_Version payload))"
  have f: "preserves R ?fetch"
    by (auto intro!: working cacheHelper_work [OF assms] split: prod.split)
  have "R h (snd (prepareHelper e t [] release version h))" for h
  proof (cases "validateReleaseTag version")
    case True
    obtain r h1 where s: "readHelper e t ?p (?p @ ''.release.json'') h = (r, h1)" by force
    have "R h h1" by (rule preservesD [OF readHelper_work s])
    moreover from this have "R h (snd (?fetch h1))" using f by (auto simp: preserves_def intro: R_trans)
    ultimately show ?thesis
      using s True by (auto simp: prepareHelper_def Let_def split: sum.split prod.split)
  qed (simp add: prepareHelper_def fail_def R_refl)
  moreover have "preserves R (andThen (readHelper e t artifact release) (\<lambda>(binary, payload). ret (binary, rp_Version payload)))"
    by (auto intro!: working readHelper_work split: prod.split)
  ultimately show ?thesis
    by (cases "artifact = []") (auto simp: prepareHelper_def preserves_def)
qed

lemma prepare_journal_dir_work:
  assumes "work_places (te_manifest e) \<inter> A = {}" and "journalDir (te_manifest e) \<notin> A"
  shows "preserves R (prepare_journal_dir e)"
  unfolding prepare_journal_dir_def Let_def using assms
  by (auto intro!: working ensure_work chmod_work simp: work_places_def)

lemma observation_work:
  "preserves R (observe_service e s)" "preserves R (working_directory e ob dirs)"
  "preserves R (capture_bootstrap e ob t)" "preserves R (confirmLegacyRemoteControl e s revision)"
  unfolding observe_service_def working_directory_def capture_bootstrap_def confirmLegacyRemoteControl_def Let_def
  by (auto intro!: working)

lemma review_work:
  assumes "work_places (te_manifest e) \<inter> A = {}" and "journalDir (te_manifest e) \<notin> A"
  shows "preserves R (apply_review e revision)"
  unfolding apply_review_def Let_def
  by (auto intro!: working pending_work reads_work prepare_journal_dir_work [OF assms] observation_work panel_work stateDirectories_work
      split: prod.split option.split)

lemma authorize_work:
  assumes "work_places (te_manifest e) \<inter> A = {}"
  shows "preserves R (authorize e artifact release v)"
  unfolding authorize_def Let_def
  by (auto intro!: working panel_work observation_work prepareHelper_work [OF assms])

end

text \<open>Moreover the relation is about the files: the journal may change.\<close>

locale work_relation = file_relation +
  assumes R_mem: "R h (h\<lparr>h_mem := j\<rparr>)"
    and R_journal: "R h (h\<lparr>h_journal := oj\<rparr>)"
begin

lemma mem_work: "preserves R (mem f)"
  by (simp add: preserves_def mem_def modify_def R_mem)

lemma set_mem_work: "preserves R (modify (\<lambda>h. h\<lparr>h_mem := j\<rparr>))"
  by (simp add: preserves_def modify_def R_mem)

lemma save_work: "preserves R (save e)"
  unfolding save_def by (rule call_kept) (rule R_journal)

lemma report_work: "preserves R (report e t phase detail)"
  unfolding report_def encoded_def
  by (auto intro!: working save_work mem_work split: option.split)

lemma claim_work: "preserves R (claim e v operator r)"
  unfolding claim_def set_phase_def
  by (auto intro!: working save_work mem_work set_mem_work report_work panel_work)

end

interpretation sw: file_relation "still m" "prot m \<union> vault m" for m
proof
  show "still m h (put p n h)" if "p \<notin> prot m \<union> vault m" for h p n
    using that by (auto simp: still_def quiet_def put_def)
  show "still m h (change p f h)" if "p \<notin> prot m \<union> vault m" "\<And>n. nd_data (f n) = nd_data n" for h p f
    using that by (auto simp: still_def quiet_def change_def)
qed

end
