(* ===== verification/HostRecovery.thy ===== *)
theory HostRecovery
  imports HostWork
begin

text \<open>
  What a host transaction guarantees when any of its calls fails or the tool dies: the protected files are
  either what they were before, or the journal on disk holds backups from which they are restored.
\<close>

section \<open>Triples\<close>

text \<open>\<open>triple P s Q E\<close>: from \<open>P\<close> the step ends in \<open>Q\<close> with its result, or in \<open>E\<close> with an error.\<close>

definition triple :: "(host \<Rightarrow> bool) \<Rightarrow> 'a step \<Rightarrow> ('a \<Rightarrow> host \<Rightarrow> bool) \<Rightarrow> (host \<Rightarrow> bool) \<Rightarrow> bool" where
  "triple P s Q E \<longleftrightarrow> (\<forall>h. P h \<longrightarrow> (case s h of (Inl _, h') \<Rightarrow> E h' | (Inr x, h') \<Rightarrow> Q x h'))"

lemma tripleI: "(\<And>h err h'. P h \<Longrightarrow> s h = (Inl err, h') \<Longrightarrow> E h') \<Longrightarrow> (\<And>h x h'. P h \<Longrightarrow> s h = (Inr x, h') \<Longrightarrow> Q x h') \<Longrightarrow>
    triple P s Q E"
  by (auto simp: triple_def split: sum.split prod.split)

lemma triple_andThen:
  "triple P s R E \<Longrightarrow> (\<And>x. triple (R x) (k x) Q E) \<Longrightarrow> triple P (andThen s k) Q E"
  by (fastforce simp: triple_def andThen_def split: sum.splits prod.splits)

lemma triple_gets: "(\<And>x. triple (\<lambda>h. P h \<and> f h = x) (k x) Q E) \<Longrightarrow> triple P (andThen (gets f) k) Q E"
  by (simp add: triple_def andThen_def gets_def)

lemma triple_conseq:
  "triple P s Q E \<Longrightarrow> (\<And>h. P' h \<Longrightarrow> P h) \<Longrightarrow> (\<And>x h. Q x h \<Longrightarrow> Q' x h) \<Longrightarrow> (\<And>h. E h \<Longrightarrow> E' h) \<Longrightarrow> triple P' s Q' E'"
  by (fastforce simp: triple_def split: sum.splits prod.splits)

lemma triple_ret: "(\<And>h. P h \<Longrightarrow> Q x h) \<Longrightarrow> triple P (ret x) Q E"
  by (simp add: triple_def ret_def)

lemma triple_fail: "(\<And>h. P h \<Longrightarrow> E h) \<Longrightarrow> triple P (fail msg) Q E"
  by (simp add: triple_def fail_def)

lemma triple_raise: "(\<And>h. P h \<Longrightarrow> E h) \<Longrightarrow> triple P (raise err) Q E"
  by (simp add: triple_def raise_def)

lemma triple_script_Nil: "(\<And>h. P h \<Longrightarrow> Q () h) \<Longrightarrow> triple P (script []) Q E"
  by (simp add: script.simps triple_ret)

lemma triple_script_Cons: "triple P s (\<lambda>_. R) E \<Longrightarrow> triple R (script ss) Q E \<Longrightarrow> triple P (script (s # ss)) Q E"
  by (auto simp: script.simps intro: triple_andThen)

lemma triple_if: "(b \<Longrightarrow> triple P s Q E) \<Longrightarrow> (\<not> b \<Longrightarrow> triple P t Q E) \<Longrightarrow> triple P (if b then s else t) Q E"
  by simp

text \<open>A relation that a step keeps carries every assertion that the relation respects.\<close>

lemma triple_kept:
  assumes "preserves R s" and "\<And>h h'. R h h' \<Longrightarrow> P h \<Longrightarrow> P h'" and "\<And>h. P h \<Longrightarrow> E h"
  shows "triple P s (\<lambda>_. P) E"
  by (rule tripleI) (metis assms preservesD)+

section \<open>The invariant\<close>

text \<open>What an administrator sees of a file: its kind, contents, owner and mode.\<close>

definition obs :: "inode option \<Rightarrow> (kind \<times> bytes option \<times> int \<times> int \<times> nat) option" where
  "obs = map_option (\<lambda>n. (nd_kind n, nd_data n, nd_uid n, nd_gid n, nd_mode n))"

definition intact :: "Manifest \<Rightarrow> (path \<rightharpoonup> inode) \<Rightarrow> host \<Rightarrow> bool" where
  "intact m orig h \<longleftrightarrow> (\<forall>p \<in> prot m. obs (h_files h p) = obs (orig p))"

text \<open>A backup describes the original file, and its copy is on disk.\<close>

definition describes :: "(path \<rightharpoonup> inode) \<Rightarrow> host \<Rightarrow> fileBackup \<Rightarrow> bool" where
  "describes orig h b \<longleftrightarrow>
     (if fb_Exists b then
        (\<exists>n k. orig (fb_Path b) = Some n \<and> nd_kind n = KRegular \<and> h_files h (fb_Backup b) = Some k \<and>
          nd_data k = nd_data n \<and> fb_Mode b = nd_mode n \<and> fb_UID b = nd_uid n \<and> fb_GID b = nd_gid n)
      else orig (fb_Path b) = None)"

definition good_backups :: "Manifest \<Rightarrow> (path \<rightharpoonup> inode) \<Rightarrow> host \<Rightarrow> fileBackup list \<Rightarrow> bool" where
  "good_backups m orig h bs \<longleftrightarrow>
     (\<forall>b \<in> set bs. fb_Path b \<in> prot m \<and> fb_Backup b \<in> vault m \<and> describes orig h b) \<and> distinct (map fb_Path bs)"

definition covered :: "Manifest \<Rightarrow> (path \<rightharpoonup> inode) \<Rightarrow> host \<Rightarrow> hostJournal \<Rightarrow> bool" where
  "covered m orig h j \<longleftrightarrow> good_backups m orig h (hj_Backups j) \<and> prot m \<subseteq> fb_Path ` set (hj_Backups j)"

text \<open>The phases in which nothing is changed, and those in which the target is being applied or undone.\<close>

definition settled :: "string set" where
  "settled = {''claiming'', ''prepared'', ''restored'', ''unclaimed''}"

definition mutated :: "string set" where
  "mutated = {''mutating'', ''local_applied'', ''restoring''}"

definition journal_ok :: "Manifest \<Rightarrow> (path \<rightharpoonup> inode) \<Rightarrow> host \<Rightarrow> hostJournal \<Rightarrow> bool" where
  "journal_ok m orig h j \<longleftrightarrow> clean_entries m j \<and> (hj_Phase j \<in> settled \<longrightarrow> intact m orig h) \<and>
     (hj_Phase j \<in> mutated \<longrightarrow> covered m orig h j)"

text \<open>The archive is \<open>A\<close>, or \<open>A\<close> and the journal of this transaction.\<close>

definition archive_ok :: "Manifest \<Rightarrow> (path \<rightharpoonup> inode) \<Rightarrow> (string \<times> hostJournal) list \<Rightarrow> host \<Rightarrow> bool" where
  "archive_ok m orig A h \<longleftrightarrow>
     h_archive h = A \<or> (\<exists>opid j. h_archive h = A @ [(opid, j)] \<and> (hj_Phase j \<in> settled \<longrightarrow> intact m orig h))"

definition safe_host :: "Manifest \<Rightarrow> (path \<rightharpoonup> inode) \<Rightarrow> (string \<times> hostJournal) list \<Rightarrow> host \<Rightarrow> bool" where
  "safe_host m orig A h \<longleftrightarrow>
     journal_ok m orig h (h_mem h) \<and> (\<forall>j. h_journal h = Some j \<longrightarrow> journal_ok m orig h j) \<and>
     (h_journal h = None \<and> h_archive h = A \<longrightarrow> intact m orig h) \<and> archive_ok m orig A h \<and>
     (h_journal h \<noteq> None \<longrightarrow> h_archive h = A)"

text \<open>While the transaction is open: no archive of it yet; and while the target is applied or undone.\<close>

definition opened :: "Manifest \<Rightarrow> (path \<rightharpoonup> inode) \<Rightarrow> (string \<times> hostJournal) list \<Rightarrow> host \<Rightarrow> bool" where
  "opened m orig A h \<longleftrightarrow> safe_host m orig A h \<and> h_archive h = A"

definition mutable :: "Manifest \<Rightarrow> (path \<rightharpoonup> inode) \<Rightarrow> (string \<times> hostJournal) list \<Rightarrow> host \<Rightarrow> bool" where
  "mutable m orig A h \<longleftrightarrow> opened m orig A h \<and> hj_Phase (h_mem h) \<in> mutated \<and>
     (\<exists>j. h_journal h = Some j \<and> hj_Phase j \<in> mutated)"

text \<open>Files that the tool can write back: complete, with identities of 32 bits.\<close>

definition sane :: "Manifest \<Rightarrow> (path \<rightharpoonup> inode) \<Rightarrow> bool" where
  "sane m orig \<longleftrightarrow> (\<forall>p \<in> prot m. \<forall>n. orig p = Some n \<longrightarrow> nd_data n \<noteq> None \<and>
     0 \<le> nd_uid n \<and> nd_uid n < 2 ^ 32 \<and> 0 \<le> nd_gid n \<and> nd_gid n < 2 ^ 32)"

lemma phases_apart: "settled \<inter> mutated = {}" "''restoring'' \<in> mutated" "''mutating'' \<in> mutated" "''local_applied'' \<in> mutated"
  "''restored'' \<in> settled" "''claiming'' \<in> settled" "''prepared'' \<in> settled" "''unclaimed'' \<in> settled"
  "''completed'' \<notin> settled" "''completed'' \<notin> mutated" "[] \<notin> settled" "[] \<notin> mutated"
  by (auto simp: settled_def mutated_def)

lemma quiet_backups:
  assumes "quiet m h h'" and "good_backups m orig h bs"
  shows "good_backups m orig h' bs"
proof -
  have "describes orig h' b" if "b \<in> set bs" for b
  proof -
    have "fb_Backup b \<in> vault m" "describes orig h b" using assms(2) that by (auto simp: good_backups_def)
    then show ?thesis using assms(1) by (fastforce simp: describes_def quiet_def split: if_splits)
  qed
  with assms(2) show ?thesis by (simp add: good_backups_def)
qed

lemma quiet_covered: "quiet m h h' \<Longrightarrow> covered m orig h j \<Longrightarrow> hj_Backups j' = hj_Backups j \<Longrightarrow> covered m orig h' j'"
  by (simp add: covered_def quiet_backups)

lemma still_intact: "still m h h' \<Longrightarrow> clean_entries m (h_mem h) \<Longrightarrow> intact m orig h' = intact m orig h"
  by (simp add: intact_def still_def)

lemma still_opened:
  assumes "still m h h'" and "opened m orig A h"
  shows "opened m orig A h'"
proof -
  let ?j = "h_mem h" and ?j' = "h_mem h'"
  have q: "quiet m h h'" using assms(1) by (simp add: still_def)
  have c: "clean_entries m ?j" using assms(2) by (simp add: opened_def safe_host_def journal_ok_def)
  have i: "intact m orig h' = intact m orig h" by (rule still_intact [OF assms(1) c])
  have ok: "journal_ok m orig h' j'" if "journal_ok m orig h j" "hj_Phase j' = hj_Phase j" "hj_Backups j' = hj_Backups j"
      "clean_entries m j'" for j j'
    using that i quiet_covered [OF q] by (auto simp: journal_ok_def)
  have mem: "journal_ok m orig h' ?j'"
    using assms(2) q c by (intro ok [of ?j]) (auto simp: opened_def safe_host_def quiet_def)
  have a: "h_archive h' = h_archive h" using q by (simp add: quiet_def)
  consider "h_journal h' = h_journal h" |
      j where "h_journal h' = Some j" "hj_Phase j = hj_Phase ?j" "hj_Backups j = hj_Backups ?j" "clean_entries m j"
    using q c by (auto simp: quiet_def)
  then show ?thesis
  proof cases
    case 1
    have "journal_ok m orig h' j" if "h_journal h = Some j" for j
      using that assms(2) by (intro ok [of j]) (auto simp: opened_def safe_host_def journal_ok_def)
    with 1 mem a i assms(2) show ?thesis by (auto simp: opened_def safe_host_def archive_ok_def)
  next
    case 2
    have "journal_ok m orig h' j" using assms(2) 2 by (intro ok [of ?j]) (auto simp: opened_def safe_host_def)
    with 2 mem a assms(2) show ?thesis by (auto simp: opened_def safe_host_def archive_ok_def)
  qed
qed

lemma quiet_mutable:
  assumes "quiet m h h'" and "mutable m orig A h"
  shows "mutable m orig A h'"
proof -
  let ?j = "h_mem h" and ?j' = "h_mem h'"
  have c: "clean_entries m ?j" using assms(2) by (simp add: mutable_def opened_def safe_host_def journal_ok_def)
  have p: "hj_Phase ?j \<in> mutated" using assms(2) by (simp add: mutable_def)
  have ok: "journal_ok m orig h' j'" if "journal_ok m orig h j" "hj_Phase j \<in> mutated" "hj_Phase j' = hj_Phase j"
      "hj_Backups j' = hj_Backups j" "clean_entries m j'" for j j'
    using that phases_apart(1) quiet_covered [OF assms(1)] by (auto simp: journal_ok_def)
  have mem: "journal_ok m orig h' ?j'" "hj_Phase ?j' \<in> mutated"
    using assms c p ok [of ?j ?j'] by (auto simp: mutable_def opened_def safe_host_def quiet_def)
  have a: "h_archive h' = A" using assms by (simp add: quiet_def mutable_def opened_def)
  obtain j0 where j0: "h_journal h = Some j0" "hj_Phase j0 \<in> mutated" "journal_ok m orig h j0"
    using assms(2) by (auto simp: mutable_def opened_def safe_host_def)
  consider "h_journal h' = Some j0" |
      j where "h_journal h' = Some j" "hj_Phase j = hj_Phase ?j" "hj_Backups j = hj_Backups ?j" "clean_entries m j"
    using assms(1) c j0(1) by (auto simp: quiet_def)
  then show ?thesis
  proof cases
    case 1
    have "journal_ok m orig h' j0" using j0 by (intro ok [of j0]) (auto simp: journal_ok_def)
    with 1 mem a j0 show ?thesis by (simp add: mutable_def opened_def safe_host_def archive_ok_def)
  next
    case 2
    have "journal_ok m orig h' j"
      using assms(2) 2 p by (intro ok [of ?j]) (auto simp: mutable_def opened_def safe_host_def)
    with 2 mem a p show ?thesis by (simp add: mutable_def opened_def safe_host_def archive_ok_def)
  qed
qed

lemma still_mutable: "still m h h' \<Longrightarrow> mutable m orig A h \<Longrightarrow> mutable m orig A h'"
  by (auto simp: still_def intro: quiet_mutable)

lemma opened_clean: "opened m orig A h \<Longrightarrow> clean_entries m (h_mem h)"
  by (simp add: opened_def safe_host_def journal_ok_def)

lemma still_at:
  assumes "still m h h'" and "opened m orig A h \<and> intact m orig h"
  shows "opened m orig A h' \<and> intact m orig h'"
  using assms still_opened [of m h h' orig A] still_intact [of m h h' orig] opened_clean [of m orig A h] by simp

text \<open>What the journal on disk says relative to the one in memory.\<close>

definition loaded :: "host \<Rightarrow> bool" where
  "loaded h \<longleftrightarrow> (\<exists>j. h_journal h = Some j \<and> hj_Phase j = hj_Phase (h_mem h))"

lemma quiet_loaded: "quiet m h h' \<Longrightarrow> loaded h \<Longrightarrow> loaded h'"
  by (auto simp: quiet_def loaded_def)

lemma quiet_phase: "quiet m h h' \<Longrightarrow> hj_Phase (h_mem h') = hj_Phase (h_mem h)"
  by (simp add: quiet_def)

section \<open>The phases\<close>

lemma set_phase_result:
  "set_phase e x h =
    (let j = (h_mem h)\<lparr>hj_Phase := x\<rparr>; h1 = h\<lparr>h_mem := j, h_tick := Suc (h_tick h)\<rparr> in
     case te_out e (h_tick h) of
       Works \<Rightarrow> (Inr (), h1\<lparr>h_journal := Some j\<rparr>)
     | Fails \<Rightarrow> (Inl (local_error ''save journal''), h1)
     | FailsAfter \<Rightarrow> (Inl (local_error ''save journal''), h1\<lparr>h_journal := Some j\<rparr>))"
  by (auto simp: set_phase_def script.simps andThen_def mem_def modify_def save_def call_def ret_def Let_def
      split: outcome.split)

lemma journal_ok_cong: "h_files h' = h_files h \<Longrightarrow> journal_ok m orig h' j = journal_ok m orig h j"
  by (simp add: journal_ok_def intact_def covered_def good_backups_def describes_def)

lemma intact_cong: "h_files h' = h_files h \<Longrightarrow> intact m orig h' = intact m orig h"
  by (simp add: intact_def)

lemma set_phase_opened:
  assumes "\<And>h. P h \<Longrightarrow> opened m orig A h \<and> journal_ok m orig h ((h_mem h)\<lparr>hj_Phase := x\<rparr>)"
  shows "triple P (set_phase e x)
    (\<lambda>_ h. opened m orig A h \<and> loaded h \<and> hj_Phase (h_mem h) = x \<and>
      (\<exists>g. P g \<and> h_files h = h_files g \<and> hj_Backups (h_mem h) = hj_Backups (h_mem g)))
    (opened m orig A)"
proof -
  have key: "opened m orig A (h\<lparr>h_mem := (h_mem h)\<lparr>hj_Phase := x\<rparr>, h_tick := k\<rparr>)"
      "opened m orig A (h\<lparr>h_mem := (h_mem h)\<lparr>hj_Phase := x\<rparr>, h_tick := k, h_journal := Some ((h_mem h)\<lparr>hj_Phase := x\<rparr>)\<rparr>)"
    if P: "P h" for h k
  proof -
    let ?j = "(h_mem h)\<lparr>hj_Phase := x\<rparr>"
    let ?h1 = "h\<lparr>h_mem := ?j, h_tick := k\<rparr>" and ?h2 = "h\<lparr>h_mem := ?j, h_tick := k, h_journal := Some ?j\<rparr>"
    have ok: "journal_ok m orig ?h1 j = journal_ok m orig h j" "journal_ok m orig ?h2 j = journal_ok m orig h j"
        "intact m orig ?h1 = intact m orig h" for j
      by (rule journal_ok_cong intact_cong, simp)+
    note a = assms [OF P]
    from a show "opened m orig A ?h1"
      unfolding opened_def safe_host_def archive_ok_def ok by simp
    from a show "opened m orig A ?h2"
      unfolding opened_def safe_host_def archive_ok_def ok by simp
  qed
  show ?thesis
  proof (rule tripleI)
    fix h err h'
    assume "P h" and "set_phase e x h = (Inl err, h')"
    with key [of h "Suc (h_tick h)"] show "opened m orig A h'"
      by (auto simp: set_phase_result Let_def split: outcome.splits)
  next
    fix h u h'
    assume P: "P h" and s: "set_phase e x h = (Inr u, h')"
    let ?j = "(h_mem h)\<lparr>hj_Phase := x\<rparr>"
    have h': "h' = h\<lparr>h_mem := ?j, h_tick := Suc (h_tick h), h_journal := Some ?j\<rparr>"
      using s by (auto simp: set_phase_result Let_def split: outcome.splits)
    have "loaded h'" "hj_Phase (h_mem h') = x" "h_files h' = h_files h" "hj_Backups (h_mem h') = hj_Backups (h_mem h)"
      by (simp_all add: h' loaded_def)
    with P key(2) [OF P, of "Suc (h_tick h)"]
    show "opened m orig A h' \<and> loaded h' \<and> hj_Phase (h_mem h') = x \<and>
        (\<exists>g. P g \<and> h_files h' = h_files g \<and> hj_Backups (h_mem h') = hj_Backups (h_mem g))"
      unfolding h' by blast
  qed
qed

section \<open>Restoring the files\<close>

lemma mutable_opened: "mutable m orig A h \<Longrightarrow> opened m orig A h"
  by (simp add: mutable_def)

lemma opened_inv: "opened m orig A h \<Longrightarrow> safe_host m orig A h"
  by (simp add: opened_def)

lemma restore_file_quiet:
  assumes "apart m e" and "fb_Path b \<in> prot m"
  shows "preserves (quiet m) (restore_file e b)"
  unfolding restore_file_def
  using write_protected [OF assms] by (auto intro!: kept split: option.split)

lemma write_owned_Inr:
  "write_owned e p d k u g h = (Inr x, h') \<Longrightarrow>
     h_files h' = (h_files h)(p \<mapsto> (root_file (Some d) k)\<lparr>nd_uid := chown_id 0 u, nd_gid := chown_id 0 g\<rparr>)"
  by (auto simp: write_owned_def andThen_def gets_def fail_def call_def put_def Let_def split: outcome.splits option.splits if_splits)

lemma chown_id_id: "0 \<le> x \<Longrightarrow> x < 2 ^ 32 \<Longrightarrow> chown_id 0 x = x"
  by (simp add: chown_id_def)

lemma restore_file_done:
  assumes "restore_file e b h = (Inr x, h')" and "describes orig h b" and "sane m orig" and "fb_Path b \<in> prot m"
  shows "obs (h_files h' (fb_Path b)) = obs (orig (fb_Path b)) \<and> (\<forall>p. p \<noteq> fb_Path b \<longrightarrow> h_files h' p = h_files h p)"
proof (cases "fb_Exists b")
  case False
  then show ?thesis
    using assms(1,2) by (auto simp: restore_file_def remove_file_def call_def put_def Let_def describes_def obs_def split: outcome.splits)
next
  case True
  obtain n k where n: "orig (fb_Path b) = Some n" "nd_kind n = KRegular" "h_files h (fb_Backup b) = Some k"
      "nd_data k = nd_data n" "fb_Mode b = nd_mode n" "fb_UID b = nd_uid n" "fb_GID b = nd_gid n"
    using assms(2) True by (auto simp: describes_def)
  obtain d where d: "nd_data n = Some d" using assms(3,4) n(1) by (auto simp: sane_def)
  have id: "chown_id 0 (nd_uid n) = nd_uid n" "chown_id 0 (nd_gid n) = nd_gid n"
    using assms(3,4) n(1) by (auto simp: sane_def intro!: chown_id_id)
  obtain h1 where p: "probe e ''read backup'' h = (Inr (), h1)" "h_files h1 = h_files h"
      "write_owned e (fb_Path b) d (nd_mode n) (nd_uid n) (nd_gid n) h1 = (Inr x, h')"
    using assms(1) True n d
    by (auto simp: restore_file_def andThen_def gets_def probe_def call_def Let_def split: outcome.splits)
  from write_owned_Inr [OF p(3)] p(2) n d id show ?thesis
    by (simp add: obs_def root_file_def)
qed

lemma restore_loop:
  assumes "apart m e" and "sane m orig" and "distinct (map fb_Path L)"
  shows "triple (\<lambda>h. mutable m orig A h \<and> (\<forall>b \<in> set L. fb_Path b \<in> prot m \<and> fb_Backup b \<in> vault m \<and> describes orig h b) \<and>
      (\<forall>p \<in> D. obs (h_files h p) = obs (orig p)) \<and> D \<inter> fb_Path ` set L = {})
    (script (map (restore_file e) L))
    (\<lambda>_ h. mutable m orig A h \<and> (\<forall>p \<in> D \<union> fb_Path ` set L. obs (h_files h p) = obs (orig p)))
    (opened m orig A)"
  using assms(3)
proof (induction L arbitrary: D)
  case Nil
  then show ?case by (auto intro: triple_script_Nil)
next
  case (Cons b L)
  let ?G = "\<lambda>L h. \<forall>b \<in> set L. fb_Path b \<in> prot m \<and> fb_Backup b \<in> vault m \<and> describes orig h b"
  let ?P = "\<lambda>h. mutable m orig A h \<and> ?G (b # L) h \<and> (\<forall>p \<in> D. obs (h_files h p) = obs (orig p)) \<and>
      D \<inter> fb_Path ` set (b # L) = {}"
  let ?R = "\<lambda>h. mutable m orig A h \<and> ?G L h \<and> (\<forall>p \<in> insert (fb_Path b) D. obs (h_files h p) = obs (orig p)) \<and>
      insert (fb_Path b) D \<inter> fb_Path ` set L = {}"
  have quiet: "quiet m h h'" if "?P h" "restore_file e b h = (r, h')" for h h' and r :: "go_error + unit"
    by (rule preservesD [OF restore_file_quiet that(2)]) (use assms(1) that(1) in auto)
  have good: "?G L h'" if "quiet m h h'" "?G L h" for h h'
  proof -
    have "describes orig h' b" if "b \<in> set L" for b
      using \<open>?G L h\<close> that \<open>quiet m h h'\<close> by (fastforce simp: describes_def quiet_def split: if_splits)
    with that show ?thesis by simp
  qed
  have "triple ?P (restore_file e b) (\<lambda>_. ?R) (opened m orig A)"
  proof (rule tripleI)
    fix h err h'
    assume "?P h" "restore_file e b h = (Inl err, h')"
    with quiet show "opened m orig A h'" by (blast intro: mutable_opened quiet_mutable)
  next
    fix h x h'
    assume P: "?P h" and s: "restore_file e b h = (Inr x, h')"
    have q: "quiet m h h'" using quiet P s by blast
    have "obs (h_files h' (fb_Path b)) = obs (orig (fb_Path b)) \<and> (\<forall>p. p \<noteq> fb_Path b \<longrightarrow> h_files h' p = h_files h p)"
      using P by (intro restore_file_done [OF s _ assms(2)]) auto
    moreover have "mutable m orig A h'" using quiet_mutable q P by blast
    moreover have "?G L h'" using good [OF q] P by simp
    moreover from calculation(1) have "obs (h_files h' p) = obs (orig p)" if "p \<in> insert (fb_Path b) D" for p
      using that P by (cases "p = fb_Path b") auto
    ultimately show "?R h'" using P Cons.prems by auto
  qed
  moreover have "triple ?R (script (map (restore_file e) L))
      (\<lambda>_ h. mutable m orig A h \<and> (\<forall>p \<in> insert (fb_Path b) D \<union> fb_Path ` set L. obs (h_files h p) = obs (orig p)))
      (opened m orig A)"
    using Cons.prems by (intro Cons.IH) simp
  ultimately have "triple ?P (script (map (restore_file e) (b # L)))
      (\<lambda>_ h. mutable m orig A h \<and> (\<forall>p \<in> insert (fb_Path b) D \<union> fb_Path ` set L. obs (h_files h p) = obs (orig p)))
      (opened m orig A)"
    by (simp add: triple_script_Cons)
  then show ?case by (rule triple_conseq) auto
qed

lemma mutable_covered: "mutable m orig A h \<Longrightarrow> covered m orig h (h_mem h)"
  by (simp add: mutable_def opened_def safe_host_def journal_ok_def)

lemma restore_files_intact:
  assumes "apart m e" and "sane m orig"
  shows "triple (mutable m orig A) (andThen (gets (hj_Backups \<circ> h_mem)) (restore_files e))
    (\<lambda>_ h. mutable m orig A h \<and> intact m orig h) (opened m orig A)"
proof (rule triple_gets)
  fix bs
  let ?P = "\<lambda>h. mutable m orig A h \<and> (hj_Backups \<circ> h_mem) h = bs"
  show "triple ?P (restore_files e bs) (\<lambda>_ h. mutable m orig A h \<and> intact m orig h) (opened m orig A)"
  proof (cases "distinct (map fb_Path (rev bs)) \<and> prot m \<subseteq> fb_Path ` set bs")
    case True
    have "triple ?P (script (map (restore_file e) (rev bs)))
        (\<lambda>_ h. mutable m orig A h \<and> (\<forall>p \<in> {} \<union> fb_Path ` set (rev bs). obs (h_files h p) = obs (orig p))) (opened m orig A)"
      by (rule triple_conseq [OF restore_loop [OF assms, of "rev bs" A "{}"]])
        (use True mutable_covered in \<open>auto simp: covered_def good_backups_def\<close>)
    then show ?thesis
      unfolding restore_files_def by (rule triple_conseq) (use True in \<open>auto simp: intact_def\<close>)
  next
    case False
    have "\<not> ?P h" for h
      using mutable_covered [of m orig A h] False by (auto simp: covered_def good_backups_def rev_map [symmetric])
    then show ?thesis by (auto simp: triple_def)
  qed
qed

lemma still_mutable_intact:
  "still m h h' \<Longrightarrow> mutable m orig A h \<and> intact m orig h \<Longrightarrow> mutable m orig A h' \<and> intact m orig h'"
  using still_mutable [of m h h' orig A] still_at [of m h h' orig A] mutable_opened by blast

lemma mutable_step: "preserves (still m) s \<Longrightarrow> triple (mutable m orig A) s (\<lambda>_. mutable m orig A) (opened m orig A)"
  by (erule triple_kept) (auto intro: still_mutable mutable_opened)

lemma restored_step: "preserves (still m) s \<Longrightarrow> triple (\<lambda>h. mutable m orig A h \<and> intact m orig h) s
    (\<lambda>_ h. mutable m orig A h \<and> intact m orig h) (opened m orig A)"
  by (erule triple_kept) (erule (1) still_mutable_intact | simp add: mutable_opened)+

lemma opened_step: "preserves (still m) s \<Longrightarrow> triple (opened m orig A) s (\<lambda>_. opened m orig A) (opened m orig A)"
  by (erule triple_kept) (auto intro: still_opened)

lemma intact_step: "preserves (still m) s \<Longrightarrow> triple (\<lambda>h. opened m orig A h \<and> intact m orig h) s
    (\<lambda>_ h. opened m orig A h \<and> intact m orig h) (opened m orig A)"
  by (erule triple_kept) (erule (1) still_at | simp)+

lemma triple_pure: "(b \<Longrightarrow> triple P s Q E) \<Longrightarrow> triple (\<lambda>h. P h \<and> b) s Q E"
  by (auto simp: triple_def)

lemma triple_result:
  assumes "triple P s (\<lambda>_. R) E" and "\<And>h x h'. P h \<Longrightarrow> s h = (Inr x, h') \<Longrightarrow> C x"
  shows "triple P s (\<lambda>x h. R h \<and> C x) E"
  using assms by (fastforce simp: triple_def split: sum.splits prod.splits)

lemma restore_middle:
  assumes "apart m e" and "sane m orig"
  shows "triple (mutable m orig A)
    (andThen (stateDirectories e) (\<lambda>dirs. andThen (read_trust e) (\<lambda>t. andThen (lookup_uid e (tr_ServiceUser t)) (\<lambda>owner.
      script [fenceStateDirectories e dirs owner True, andThen (gets (hj_Backups \<circ> h_mem)) (restore_files e),
        restoreStateOwnership e dirs]))))
    (\<lambda>_ h. mutable m orig A h \<and> intact m orig h) (opened m orig A)"
proof -
  have m: "te_manifest e = m" and s: "separated m" using assms(1) by (simp_all add: apart_def)
  have inner: "triple (mutable m orig A) (script [fenceStateDirectories e dirs owner True,
      andThen (gets (hj_Backups \<circ> h_mem)) (restore_files e), restoreStateOwnership e dirs])
      (\<lambda>_ h. mutable m orig A h \<and> intact m orig h) (opened m orig A)" if "set dirs \<subseteq> state_roots m" for dirs owner
    by (rule triple_script_Cons [OF mutable_step [OF fence_kept [OF s that]]]
        triple_script_Cons [OF restore_files_intact [OF assms]]
        triple_script_Cons [OF restored_step [OF restoreStateOwnership_kept]] triple_script_Nil)+
  show ?thesis
    by (rule triple_andThen, rule triple_result [where C = "\<lambda>dirs. set dirs \<subseteq> state_roots m"],
        rule mutable_step, rule stateDirectories_kept, use stateDirectories_roots m in blast,
        rule triple_pure, rule triple_andThen, rule mutable_step, rule reads_kept, rule triple_andThen,
        rule mutable_step, rule reads_kept, rule inner)
qed

lemma restoring_ok: "opened m orig A h \<Longrightarrow> hj_Phase (h_mem h) \<in> mutated \<Longrightarrow>
    journal_ok m orig h ((h_mem h)\<lparr>hj_Phase := ''restoring''\<rparr>)"
  using phases_apart by (auto simp: opened_def safe_host_def journal_ok_def covered_def clean_entries_def)

lemma set_phase_any:
  assumes "opened m orig A h" and "journal_ok m orig h ((h_mem h)\<lparr>hj_Phase := x\<rparr>)" and "set_phase e x h = (r, h')"
  shows "opened m orig A h'"
  using set_phase_opened [of "\<lambda>g. g = h" m orig A x e] assms by (auto simp: triple_def split: sum.splits)

text \<open>The whole restoration: success leaves every protected file as it was.\<close>

lemma restoreTransaction_triple:
  assumes "apart m e" and "sane m orig"
  shows "triple (\<lambda>h. opened m orig A h \<and> hj_Phase (h_mem h) \<in> mutated) (restoreTransaction e)
    (\<lambda>_ h. opened m orig A h \<and> loaded h \<and> hj_Phase (h_mem h) = ''restored'') (opened m orig A)"
proof -
  let ?pre = "\<lambda>h. opened m orig A h \<and> hj_Phase (h_mem h) \<in> mutated"
  have 1: "triple ?pre (set_phase e ''restoring'') (\<lambda>_. mutable m orig A) (opened m orig A)"
    by (rule triple_conseq [OF set_phase_opened [of ?pre m orig A]])
      (auto simp: mutable_def loaded_def phases_apart intro: restoring_ok)
  have 2: "triple (\<lambda>h. mutable m orig A h \<and> intact m orig h) (set_phase e ''restored'')
      (\<lambda>_ h. opened m orig A h \<and> loaded h \<and> hj_Phase (h_mem h) = ''restored'') (opened m orig A)"
    by (rule triple_conseq [OF set_phase_opened [of "\<lambda>h. mutable m orig A h \<and> intact m orig h" m orig A]])
      (use phases_apart in \<open>auto simp: mutable_def opened_def safe_host_def journal_ok_def clean_entries_def\<close>)
  show ?thesis
    unfolding restoreTransaction_def
    by (rule triple_script_Cons [OF 1] triple_script_Cons [OF mutable_step [OF apart_sys [OF assms(1)]]]
        triple_script_Cons [OF mutable_step [OF stop_helper_kept [OF assms(1)]]]
        triple_script_Cons [OF restore_middle [OF assms]]
        triple_script_Cons [OF restored_step [OF restart_original_kept [OF assms(1)]]]
        triple_script_Cons [OF 2] triple_script_Nil)+
qed

section \<open>Archiving\<close>

lemma inv_tick [simp]: "safe_host m orig A (h\<lparr>h_tick := n\<rparr>) = safe_host m orig A h"
proof -
  have "journal_ok m orig (h\<lparr>h_tick := n\<rparr>) j = journal_ok m orig h j" "intact m orig (h\<lparr>h_tick := n\<rparr>) = intact m orig h" for j
    by (rule journal_ok_cong intact_cong, simp)+
  then show ?thesis by (simp add: safe_host_def archive_ok_def)
qed

lemma probe_inv: "triple (safe_host m orig A) (probe e msg) (\<lambda>_. safe_host m orig A) (safe_host m orig A)"
  by (auto simp: triple_def probe_def call_def Let_def split: outcome.split)

lemma move_dir_prot: "separated m \<Longrightarrow> p \<in> prot m \<Longrightarrow> move_dir (journalDir m) (journalDir m @ ''-'' @ opid) f p = f p"
  by (simp add: move_dir_def separated_def)

lemma rename_inv:
  assumes "separated m" and "opened m orig A h" and "hj_Phase (h_mem h) \<notin> mutated"
    and files: "h_files h' = move_dir (journalDir m) (journalDir m @ ''-'' @ opid) (h_files h)"
    and h': "h_journal h' = None" "h_mem h' = h_mem h"
      "h_archive h' = (case h_journal h of None \<Rightarrow> h_archive h | Some j \<Rightarrow> h_archive h @ [(opid, j)])"
  shows "safe_host m orig A h'"
proof -
  have i: "intact m orig h' = intact m orig h"
    using move_dir_prot [OF assms(1)] by (simp add: intact_def files)
  have "journal_ok m orig h' (h_mem h')"
    using assms(2,3) i by (simp add: journal_ok_def opened_def safe_host_def h')
  with assms(2) i show ?thesis
    by (auto simp: opened_def safe_host_def h' archive_ok_def journal_ok_def split: option.split)
qed

lemma archiveJournal_triple:
  assumes "apart m e"
  shows "triple (\<lambda>h. opened m orig A h \<and> hj_Phase (h_mem h) \<notin> mutated) (archiveJournal e) (\<lambda>_. safe_host m orig A) (safe_host m orig A)"
proof -
  have m: "te_manifest e = m" and s: "separated m" using assms by (simp_all add: apart_def)
  let ?P = "\<lambda>h. opened m orig A h \<and> hj_Phase (h_mem h) \<notin> mutated"
  let ?f = "\<lambda>opid h. h\<lparr>h_files := move_dir (journalDir m) (journalDir m @ ''-'' @ opid) (h_files h), h_journal := None,
      h_archive := (case h_journal h of None \<Rightarrow> h_archive h | Some j \<Rightarrow> h_archive h @ [(opid, j)])\<rparr>"
  have move: "triple ?P (call (te_out e) msg (?f opid)) (\<lambda>_. safe_host m orig A) (safe_host m orig A)" for msg opid
  proof -
    have "safe_host m orig A (?f opid (h\<lparr>h_tick := k\<rparr>))" if "?P h" for h k
      using that by (intro rename_inv [OF s, where h = h and opid = opid]) (auto split: option.split)
    then show ?thesis
      by (auto simp: triple_def call_def Let_def opened_inv split: outcome.split)
  qed
  have body: "triple ?P (script [call (te_out e) ''rename journal directory'' (?f opid), probe e ''sync''])
      (\<lambda>_. safe_host m orig A) (safe_host m orig A)" for opid
    by (rule triple_script_Cons [OF move] triple_script_Cons [OF probe_inv] triple_script_Nil)+
  have guarded: "triple ?P (if opid \<in> fst ` set old then fail ''directory not empty''
      else script [call (te_out e) ''rename journal directory'' (?f opid), probe e ''sync''])
      (\<lambda>_. safe_host m orig A) (safe_host m orig A)" for opid old
    by (rule triple_if [OF triple_fail body]) (simp add: opened_inv)
  show ?thesis
    unfolding archiveJournal_def Let_def m by (rule triple_gets, rule triple_gets, rule triple_conseq [OF guarded]) auto
qed

section \<open>The receipts and the end of a transaction\<close>

definition finishing :: "Manifest \<Rightarrow> (path \<rightharpoonup> inode) \<Rightarrow> (string \<times> hostJournal) list \<Rightarrow> host \<Rightarrow> bool" where
  "finishing m orig A h \<longleftrightarrow> opened m orig A h \<and> hj_Phase (h_mem h) \<notin> mutated"

lemma finishing_step: "preserves (still m) s \<Longrightarrow> triple (finishing m orig A) s (\<lambda>_. finishing m orig A) (safe_host m orig A)"
proof (erule triple_kept)
  fix h h'
  assume "still m h h'" "finishing m orig A h"
  then show "finishing m orig A h'"
    using still_opened [of m h h' orig A] quiet_phase [of m h h'] by (simp add: finishing_def still_def)
qed (simp add: finishing_def opened_inv)

lemma open_inv_step: "preserves (still m) s \<Longrightarrow> triple (opened m orig A) s (\<lambda>_. opened m orig A) (safe_host m orig A)"
  by (rule triple_conseq [OF opened_step]) (auto intro: opened_inv)

lemma complete_triple:
  assumes "apart m e"
  shows "triple (opened m orig A) (script [set_phase e ''completed'', archiveJournal e]) (\<lambda>_. safe_host m orig A) (safe_host m orig A)"
proof -
  have 1: "triple (opened m orig A) (set_phase e ''completed'') (\<lambda>_ h. opened m orig A h \<and> hj_Phase (h_mem h) \<notin> mutated) (safe_host m orig A)"
    by (rule triple_conseq [OF set_phase_opened [of "opened m orig A" m orig A]])
      (auto simp: phases_apart opened_def safe_host_def journal_ok_def clean_entries_def)
  show ?thesis
    by (rule triple_script_Cons [OF 1] triple_script_Cons [OF archiveJournal_triple [OF assms]] triple_script_Nil)+
qed

lemma finish_loop_triple:
  assumes "apart m e"
  shows "triple (opened m orig A) (finish_loop e t k) (\<lambda>_. safe_host m orig A) (safe_host m orig A)"
proof (induction k)
  case 0
  show ?case by (simp add: triple_ret opened_inv)
next
  case (Suc k)
  note f = triple_fail [of "opened m orig A" "safe_host m orig A", OF opened_inv]
  have answer: "triple (opened m orig A) (andThen (gets h_mem) (\<lambda>j.
       case te_decode_revision e (hj_Revision j) of
         None \<Rightarrow> fail ''revision''
       | Some old \<Rightarrow>
           if VerifySignedRevision (te_ed e) (te_unm e) (te_sha e) (te_revision_body e) now t r \<noteq> None
           then fail ''revision refused''
           else (case r of
               None \<Rightarrow> fail ''revision refused''
             | Some rv \<Rightarrow>
                 if pr_Revision rv \<noteq> pr_Revision old \<or> pr_ApprovalGeneration rv \<noteq> pr_ApprovalGeneration old
                 then fail ''host result belongs to a superseded target''
                 else if pr_State rv = DELIVERED
                 then script [set_phase e ''completed'', archiveJournal e]
                 else finish_loop e t k))) (\<lambda>_. safe_host m orig A) (safe_host m orig A)" for now r
    by (rule triple_andThen [OF open_inv_step [OF st.gets_kept]]) (use complete_triple [OF assms] Suc.IH f in \<open>auto split: option.split\<close>)
  show ?case
    unfolding finish_loop.simps
    by (rule triple_andThen [OF open_inv_step [OF st.ask_kept]])
      (auto intro!: f triple_ret triple_andThen [OF open_inv_step [OF st.ask_kept]] Suc.IH answer
        split: finish_event.split prod.split sum.split dest: opened_inv)
qed

section \<open>Recovery\<close>

definition live :: "Manifest \<Rightarrow> (path \<rightharpoonup> inode) \<Rightarrow> (string \<times> hostJournal) list \<Rightarrow> string \<Rightarrow> host \<Rightarrow> bool" where
  "live m orig A phase h \<longleftrightarrow> opened m orig A h \<and> loaded h \<and> hj_Phase (h_mem h) = phase"

lemma live_opened: "live m orig A phase h \<Longrightarrow> opened m orig A h"
  by (simp add: live_def)

lemma live_inv: "live m orig A phase h \<Longrightarrow> safe_host m orig A h"
  by (simp add: live_def opened_inv)

lemma live_step: "preserves (still m) s \<Longrightarrow> triple (live m orig A ph) s (\<lambda>_. live m orig A ph) (safe_host m orig A)"
proof (erule triple_kept)
  fix h h'
  assume "still m h h'" "live m orig A ph h"
  then show "live m orig A ph h'"
    using still_opened [of m h h' orig A] quiet_phase [of m h h'] quiet_loaded [of m h h'] by (simp add: live_def still_def)
qed (rule live_inv)

lemma settled_phase_ok:
  "opened m orig A h \<Longrightarrow> hj_Phase (h_mem h) \<in> settled \<Longrightarrow> x \<in> settled \<Longrightarrow>
    journal_ok m orig h ((h_mem h)\<lparr>hj_Phase := x\<rparr>)"
  using phases_apart(1) by (auto simp: opened_def safe_host_def journal_ok_def clean_entries_def)

lemma restored_triple:
  assumes "apart m e" and "sane m orig"
  shows "triple (\<lambda>h. opened m orig A h \<and> loaded h \<and> hj_Phase (h_mem h) \<in> set known_phases)
    (andThen (gets (hj_Phase \<circ> h_mem)) (\<lambda>phase.
         if phase = ''restored'' then ret ()
         else if phase = ''claiming'' \<or> phase = ''prepared'' then set_phase e ''restored''
         else restoreTransaction e))
    (\<lambda>_. finishing m orig A) (safe_host m orig A)"
proof (rule triple_gets)
  fix ph
  let ?P = "\<lambda>h. (opened m orig A h \<and> loaded h \<and> hj_Phase (h_mem h) \<in> set known_phases) \<and> (hj_Phase \<circ> h_mem) h = ph"
  have early: "triple ?P (set_phase e ''restored'') (\<lambda>_. finishing m orig A) (safe_host m orig A)"
    if "ph = ''claiming'' \<or> ph = ''prepared''"
    by (rule triple_conseq [OF set_phase_opened [of ?P m orig A]])
      (use that phases_apart settled_phase_ok [of m orig A _ "''restored''"] in
        \<open>auto simp: finishing_def intro: opened_inv\<close>)
  have nm: "''restored'' \<notin> mutated" using phases_apart by blast
  have late: "triple ?P (restoreTransaction e) (\<lambda>_. finishing m orig A) (safe_host m orig A)"
    if n: "ph \<noteq> ''restored''" "ph \<noteq> ''claiming''" "ph \<noteq> ''prepared''"
  proof (rule triple_conseq [OF restoreTransaction_triple [OF assms, of A]])
    fix h
    assume P: "?P h"
    then have "ph \<in> mutated" using n by (simp add: known_phases_def mutated_def) blast
    with P show "opened m orig A h \<and> hj_Phase (h_mem h) \<in> mutated" by simp
  qed (use nm in \<open>simp_all add: finishing_def opened_inv\<close>)
  show "triple ?P (if ph = ''restored'' then ret () else if ph = ''claiming'' \<or> ph = ''prepared'' then set_phase e ''restored''
      else restoreTransaction e) (\<lambda>_. finishing m orig A) (safe_host m orig A)"
    using early late nm by (intro triple_if triple_ret) (auto simp: finishing_def)
qed

lemma restore_and_report_triple:
  assumes "apart m e" and "sane m orig"
  shows "triple (\<lambda>h. opened m orig A h \<and> loaded h \<and> hj_Phase (h_mem h) \<in> set known_phases) (restore_and_report e)
    (\<lambda>_. safe_host m orig A) (safe_host m orig A)"
proof -
  have arch: "triple (finishing m orig A) (archiveJournal e) (\<lambda>_. safe_host m orig A) (safe_host m orig A)"
    unfolding finishing_def by (rule archiveJournal_triple [OF assms(1)])
  have tell: "triple (finishing m orig A) (andThen (read_trust e) (\<lambda>t. andThen (newPanel e t) (\<lambda>_. reportRestoration e t d)))
      (\<lambda>_. finishing m orig A) (safe_host m orig A)" for d
    by (intro finishing_step kept reads_kept panel_kept reportRestoration_kept)
  show ?thesis
    unfolding restore_and_report_def
    by (rule triple_script_Cons [OF restored_triple [OF assms]] triple_script_Cons [OF tell] triple_script_Cons [OF arch]
        triple_script_Nil)+
qed

lemma complete_applied_triple:
  assumes "apart m e"
  shows "triple (opened m orig A) (complete_applied e) (\<lambda>_. safe_host m orig A) (safe_host m orig A)"
proof -
  note f = triple_fail [of "opened m orig A" "safe_host m orig A", OF opened_inv]
  have fin: "triple (opened m orig A) (finishHost e t) (\<lambda>_. safe_host m orig A) (safe_host m orig A)" for t
    unfolding finishHost_def by (rule finish_loop_triple [OF assms])
  note o = open_inv_step
  have a: "triple (opened m orig A) (script [mem (hj_Receipt_update (\<lambda>_. [])), save e, finishHost e t])
      (\<lambda>_. safe_host m orig A) (safe_host m orig A)" for t
    by (rule triple_script_Cons [OF open_inv_step [OF receipt_update_kept]] triple_script_Cons [OF open_inv_step [OF save_kept]]
        triple_script_Cons [OF fin] triple_script_Nil)+
  have b: "triple (opened m orig A) (script [verify_service e s uid k, onlyif c (wait_helper e),
      onlyif c' (report e t PHASE_LOCAL_APPLIED []), finishHost e t]) (\<lambda>_. safe_host m orig A) (safe_host m orig A)" for s uid k c c' t
    by (rule triple_script_Cons [OF open_inv_step [OF panel_kept(5)]]
        triple_script_Cons [OF open_inv_step [OF st.onlyif_kept [OF panel_kept(6)]]]
        triple_script_Cons [OF open_inv_step [OF st.onlyif_kept [OF report_kept]]]
        triple_script_Cons [OF fin] triple_script_Nil)+
  have c: "preserves (still m) (if b then lookup_uid e n else ret 0)" for b n
    by (simp add: reads_kept st.ret_kept)
  show ?thesis
    unfolding complete_applied_def
    by (rule triple_andThen [OF open_inv_step [OF reads_kept(2)]],
        rule triple_andThen [OF open_inv_step [OF panel_kept(1)]],
        rule triple_andThen [OF open_inv_step [OF st.gets_kept]])
      (auto intro!: f a b triple_if triple_andThen [OF open_inv_step [OF panel_kept(3)]]
        triple_andThen [OF open_inv_step [OF panel_kept(4)]] triple_andThen [OF open_inv_step [OF panel_kept(2)]]
        triple_andThen [OF open_inv_step [OF reads_kept(1)]] triple_andThen [OF open_inv_step [OF c]] split: option.split)
qed

definition unless_done :: "Manifest \<Rightarrow> (path \<rightharpoonup> inode) \<Rightarrow> (string \<times> hostJournal) list \<Rightarrow> string \<Rightarrow> bool \<Rightarrow> host \<Rightarrow> bool" where
  "unless_done m orig A ph finished h \<longleftrightarrow> (if finished then safe_host m orig A h else live m orig A ph h)"

lemma settle_unclaimed_triple:
  assumes "apart m e"
  shows "triple (live m orig A ph) (settle_unclaimed e) (unless_done m orig A ph) (safe_host m orig A)"
proof -
  let ?Q = "unless_done m orig A ph"
  have un: "triple (live m orig A ph) (script [set_phase e ''unclaimed'', archiveJournal e]) (\<lambda>_. safe_host m orig A) (safe_host m orig A)"
    if "ph = ''claiming''"
  proof -
    have "triple (live m orig A ph) (set_phase e ''unclaimed'')
        (\<lambda>_ h. opened m orig A h \<and> hj_Phase (h_mem h) \<notin> mutated) (safe_host m orig A)"
      by (rule triple_conseq [OF set_phase_opened [of "live m orig A ph" m orig A]])
        (use that phases_apart settled_phase_ok [of m orig A _ "''unclaimed''"] in
          \<open>auto simp: live_def intro: opened_inv\<close>)
    then show ?thesis
      by (rule triple_script_Cons) (rule triple_script_Cons [OF archiveJournal_triple [OF assms]] triple_script_Nil)+
  qed
  have no: "triple (live m orig A ph) (ret False) ?Q (safe_host m orig A)" by (simp add: triple_ret unless_done_def)
  have f: "triple (live m orig A ph) (fail msg) ?Q (safe_host m orig A)" for msg by (rule triple_fail) (rule live_inv)
  have yes: "triple (live m orig A ph) (andThen (script [set_phase e ''unclaimed'', archiveJournal e]) (\<lambda>_. ret True)) ?Q (safe_host m orig A)"
    if "ph = ''claiming''"
    by (rule triple_andThen [OF un [OF that]]) (simp add: triple_ret unless_done_def)
  have asked: "triple (live m orig A ph) (andThen (read_trust e) (\<lambda>t. andThen (newPanel e t) (\<lambda>_.
           andThen (ask (\<lambda>n. Inr (te_operation e n (hj_ID j)))) (\<lambda>answer.
             case answer of
               Inr _ \<Rightarrow> ret False
             | Inl err \<Rightarrow>
                 if CodeOf err = CodeNotFound
                 then andThen (script [set_phase e ''unclaimed'', archiveJournal e]) (\<lambda>_. ret True)
                 else fail ''claim outcome unknown; no local changes made'')))) ?Q (safe_host m orig A)"
    if "ph = ''claiming''" for j
    by (rule triple_andThen [OF live_step [OF reads_kept(2)]], rule triple_andThen [OF live_step [OF panel_kept(1)]],
        rule triple_andThen [OF live_step [OF st.ask_kept]])
      (use yes [OF that] no f in \<open>auto split: sum.split\<close>)
  show ?thesis
    unfolding settle_unclaimed_def
  proof (rule triple_gets)
    fix j
    let ?P = "\<lambda>h. live m orig A ph h \<and> h_mem h = j"
    let ?c = "hj_Phase j = ''claiming'' \<and> hj_Operation j = [] \<and> hj_Backups j = [] \<and> hj_Ownership j = []"
    consider "?c" "ph = ''claiming''" | "?c" "ph \<noteq> ''claiming''" | "\<not> ?c" by blast
    then show "triple ?P (if ?c then andThen (read_trust e) (\<lambda>t. andThen (newPanel e t) (\<lambda>_.
           andThen (ask (\<lambda>n. Inr (te_operation e n (hj_ID j)))) (\<lambda>answer.
             case answer of
               Inr _ \<Rightarrow> ret False
             | Inl err \<Rightarrow>
                 if CodeOf err = CodeNotFound
                 then andThen (script [set_phase e ''unclaimed'', archiveJournal e]) (\<lambda>_. ret True)
                 else fail ''claim outcome unknown; no local changes made'')))
       else ret False) ?Q (safe_host m orig A)"
    proof cases
      case 1
      from asked [OF 1(2), of j] show ?thesis
        unfolding if_P [OF 1(1)] by (rule triple_conseq) auto
    next
      case 2
      then have "\<not> ?P h" for h by (auto simp: live_def)
      then show ?thesis by (simp only: triple_def) simp
    next
      case 3
      from no show ?thesis unfolding if_not_P [OF 3] by (rule triple_conseq) auto
    qed
  qed
qed

lemma resume_journal_triple:
  assumes "apart m e" and "sane m orig"
  shows "triple (\<lambda>h. opened m orig A h \<and> loaded h) (resume_journal e restore) (\<lambda>_. safe_host m orig A) (safe_host m orig A)"
  unfolding resume_journal_def
proof (rule triple_gets)
  fix ph
  have arch: "triple (live m orig A ph) (archiveJournal e) (\<lambda>_. safe_host m orig A) (safe_host m orig A)"
    if "ph = ''completed'' \<or> ph = ''unclaimed''"
    by (rule triple_conseq [OF archiveJournal_triple [OF assms(1)]])
      (use that phases_apart in \<open>auto simp: live_def\<close>)
  have go: "triple (unless_done m orig A ph finished) (if finished then ret ()
         else if restore \<or> ph \<noteq> ''local_applied'' then restore_and_report e
         else complete_applied e) (\<lambda>_. safe_host m orig A) (safe_host m orig A)" if "ph \<in> set known_phases" for finished
  proof -
    have unless: "unless_done m orig A ph True = safe_host m orig A" "unless_done m orig A ph False = live m orig A ph"
      by (simp_all add: fun_eq_iff unless_done_def)
    have a: "triple (live m orig A ph) (restore_and_report e) (\<lambda>_. safe_host m orig A) (safe_host m orig A)"
      by (rule triple_conseq [OF restore_and_report_triple [OF assms]]) (use that in \<open>auto simp: live_def\<close>)
    have b: "triple (live m orig A ph) (complete_applied e) (\<lambda>_. safe_host m orig A) (safe_host m orig A)"
      by (rule triple_conseq [OF complete_applied_triple [OF assms(1)]]) (auto simp: live_def)
    from a b show ?thesis
      by (cases finished) (simp_all add: unless, auto intro: triple_ret)
  qed
  have rest: "triple (live m orig A ph) (if ph = ''completed'' \<or> ph = ''unclaimed'' then archiveJournal e
       else if ph \<notin> set known_phases then fail ''unknown journal phase; no service changes made''
       else andThen (ask (te_authenticate e)) (\<lambda>_. andThen (settle_unclaimed e) (\<lambda>finished.
         if finished then ret ()
         else if restore \<or> ph \<noteq> ''local_applied'' then restore_and_report e
         else complete_applied e))) (\<lambda>_. safe_host m orig A) (safe_host m orig A)"
    by (rule triple_if, rule arch, assumption, rule triple_if, rule triple_fail, erule live_inv,
        rule triple_andThen [OF live_step [OF st.ask_kept]],
        rule triple_andThen [OF settle_unclaimed_triple [OF assms(1)]], rule go, simp)
  show "triple (\<lambda>h. (opened m orig A h \<and> loaded h) \<and> (hj_Phase \<circ> h_mem) h = ph)
      (if ph = ''completed'' \<or> ph = ''unclaimed'' then archiveJournal e
       else if ph \<notin> set known_phases then fail ''unknown journal phase; no service changes made''
       else andThen (ask (te_authenticate e)) (\<lambda>_. andThen (settle_unclaimed e) (\<lambda>finished.
         if finished then ret ()
         else if restore \<or> ph \<noteq> ''local_applied'' then restore_and_report e
         else complete_applied e))) (\<lambda>_. safe_host m orig A) (safe_host m orig A)"
    by (rule triple_conseq [OF rest]) (auto simp: live_def)
qed

text \<open>The places of an installation do not depend on where its manifest was found.\<close>

lemma same_places:
  fixes m :: Manifest and y :: path
  defines "m' \<equiv> m\<lparr>ManifestPath := y\<rparr>"
  shows "prot m' = prot m" "vault m' = vault m" "separated m' = separated m" "safe_host m' = safe_host m"
proof -
  have u: "journalDir m' = journalDir m" "state_roots m' = state_roots m" "work_places m' = work_places m"
      "target_places m' = target_places m" "backup_path m' = backup_path m"
    by (simp_all add: m'_def journalDir_def state_roots_def work_places_def target_places_def backup_path_def
        helperCache_def profilePath_def fun_eq_iff)
  show p: "prot m' = prot m"
    by (simp add: m'_def prot_def protected_files_def profilePath_def bootstrapPath_def AppliedPath_def helperBinary_def
        helperConfig_def helperUnitPath_def helperUnit_def)
  show v: "vault m' = vault m" by (simp add: vault_def u)
  show "separated m' = separated m" by (simp add: separated_def u p v)
  show "safe_host m' = safe_host m"
    by (simp add: safe_host_def journal_ok_def intact_def covered_def good_backups_def archive_ok_def clean_entries_def p v fun_eq_iff)
qed

lemma moved_manifest:
  assumes "apart m e" and "m'\<lparr>ManifestPath := x\<rparr> = m" and "sane m orig"
  shows "apart m' (e\<lparr>te_manifest := m'\<rparr>)" "safe_host m' = safe_host m" "sane m' orig" "opened m' = opened m"
proof -
  define y where "y = ManifestPath m'"
  have m': "m' = m\<lparr>ManifestPath := y\<rparr>" using assms(2) by (auto simp: y_def)
  note s = same_places [where m = m and y = y, folded m']
  show "apart m' (e\<lparr>te_manifest := m'\<rparr>)" using assms(1) s by (simp add: apart_def hands_off_def)
  show "safe_host m' = safe_host m" by (rule s)
  show "sane m' orig" using assms(3) s by (simp add: sane_def)
  show "opened m' = opened m" using s by (simp add: opened_def fun_eq_iff)
qed

lemma trusted_inv: "triple (safe_host m orig A) (trusted m' p) (\<lambda>_. safe_host m orig A) (safe_host m orig A)"
  by (auto simp: triple_def trusted_def andThen_def gets_def require_def ret_def fail_def)

lemma load_journal_triple:
  "triple (safe_host m orig A) (load_journal e) (\<lambda>_ h. opened m orig A h \<and> loaded h) (safe_host m orig A)"
proof -
  have "triple (\<lambda>h. safe_host m orig A h \<and> h_journal h = j)
      (case j of None \<Rightarrow> fail ''no transaction journal'' | Some j \<Rightarrow> modify (\<lambda>h. h\<lparr>h_mem := j\<rparr>))
      (\<lambda>_ h. opened m orig A h \<and> loaded h) (safe_host m orig A)" for j
  proof (cases j)
    case None
    then show ?thesis by (simp add: triple_def fail_def)
  next
    case (Some x)
    have "opened m orig A (h\<lparr>h_mem := x\<rparr>)" if "safe_host m orig A h" "h_journal h = Some x" for h
    proof -
      have "journal_ok m orig (h\<lparr>h_mem := x\<rparr>) j = journal_ok m orig h j" "intact m orig (h\<lparr>h_mem := x\<rparr>) = intact m orig h" for j
        by (rule journal_ok_cong intact_cong, simp)+
      with that show ?thesis by (simp add: opened_def safe_host_def archive_ok_def)
    qed
    with Some show ?thesis by (simp add: triple_def modify_def loaded_def)
  qed
  then have "triple (safe_host m orig A) (andThen (gets h_journal) (\<lambda>j.
      case j of None \<Rightarrow> fail ''no transaction journal'' | Some j \<Rightarrow> modify (\<lambda>h. h\<lparr>h_mem := j\<rparr>)))
      (\<lambda>_ h. opened m orig A h \<and> loaded h) (safe_host m orig A)"
    by (rule triple_gets)
  then show ?thesis
    unfolding load_journal_def
    by (intro triple_script_Cons [OF trusted_inv] triple_script_Cons [OF probe_inv] triple_script_Cons)
      (auto intro: triple_script_Nil)
qed

lemma resolve_kept: "preserves (still m) (resolveManifest e p)" "preserves (still m) (resolveJournalManifest e j)"
  unfolding resolveJournalManifest_def resolveManifest_def Let_def by (auto intro!: kept)

lemma resolveJournalManifest_same:
  "resolveJournalManifest e j h = (Inr m', h') \<Longrightarrow> m'\<lparr>ManifestPath := ManifestPath (te_manifest e)\<rparr> = te_manifest e"
  by (auto simp: resolveJournalManifest_def fail_def andThen_def ret_def Let_def split: if_splits sum.splits prod.splits)

lemma loaded_step:
  "preserves (still m) s \<Longrightarrow> triple (\<lambda>h. opened m orig A h \<and> loaded h) s (\<lambda>_ h. opened m orig A h \<and> loaded h) (safe_host m orig A)"
proof (erule triple_kept)
  fix h h'
  assume "still m h h'" "opened m orig A h \<and> loaded h"
  then show "opened m orig A h' \<and> loaded h'"
    using still_opened [of m h h' orig A] quiet_loaded [of m h h'] by (simp add: still_def)
qed (simp add: opened_inv)

lemma resume_manifest_triple:
  assumes "apart m e" and "sane m orig"
  shows "triple (safe_host m orig A) (resume_manifest e restore) (\<lambda>_. safe_host m orig A) (safe_host m orig A)"
proof -
  have m: "te_manifest e = m" using assms(1) by (simp add: apart_def)
  have go: "triple (\<lambda>h. opened m orig A h \<and> loaded h) (resume_journal (e\<lparr>te_manifest := m'\<rparr>) restore)
      (\<lambda>_. safe_host m orig A) (safe_host m orig A)" if "m'\<lparr>ManifestPath := ManifestPath m\<rparr> = m" for m'
    using resume_journal_triple [OF moved_manifest(1,3) [OF assms(1) that assms(2)], of A restore]
    by (simp add: moved_manifest(2,4) [OF assms(1) that assms(2)])
  show ?thesis
    unfolding resume_manifest_def
    by (rule triple_andThen [OF load_journal_triple], rule triple_andThen [OF loaded_step [OF st.gets_kept]],
        rule triple_andThen, rule triple_result [where C = "\<lambda>m'. m'\<lparr>ManifestPath := ManifestPath m\<rparr> = m"],
        rule loaded_step, rule resolve_kept, use resolveJournalManifest_same m in metis,
        rule triple_pure, rule go)
qed

section \<open>Applying\<close>

definition base :: "Manifest \<Rightarrow> (path \<rightharpoonup> inode) \<Rightarrow> (string \<times> hostJournal) list \<Rightarrow> host \<Rightarrow> bool" where
  "base m orig A h \<longleftrightarrow> opened m orig A h \<and> intact m orig h"

lemma base_step: "preserves (still m) s \<Longrightarrow> triple (base m orig A) s (\<lambda>_. base m orig A) (safe_host m orig A)"
  unfolding base_def by (rule triple_conseq [OF intact_step]) (auto intro: opened_inv)

lemma base_fail: "triple (base m orig A) (fail msg) Q (safe_host m orig A)"
  by (rule triple_fail) (simp add: base_def opened_inv)

lemma apart_work:
  assumes "apart m e"
  shows "work_places (te_manifest e) \<inter> (prot m \<union> vault m) = {}" "journalDir (te_manifest e) \<notin> prot m \<union> vault m"
proof -
  have m: "te_manifest e = m" and s: "separated m" using assms by (simp_all add: apart_def)
  show w: "work_places (te_manifest e) \<inter> (prot m \<union> vault m) = {}" using s m by (auto simp: separated_def)
  show "journalDir (te_manifest e) \<notin> prot m \<union> vault m" using w journalDir_work by blast
qed

lemma apply_review_triple:
  assumes "apart m e"
  shows "triple (base m orig A) (apply_review e revision) (\<lambda>v h. base m orig A h \<and> set (rv_Dirs v) \<subseteq> state_roots m)
    (safe_host m orig A)"
proof -
  have m: "te_manifest e = m" using assms by (simp add: apart_def)
  let ?Q = "\<lambda>v h. base m orig A h \<and> set (rv_Dirs v) \<subseteq> state_roots m"
  have uid: "preserves (still m) (if b then lookup_uid e n else ret 0)" for b n
    by (simp add: reads_kept st.ret_kept)
  have tail: "triple (base m orig A) (andThen (if b then lookup_uid e n else ret 0) (\<lambda>previousUID.
                  andThen (stateDirectories e) (\<lambda>dirs.
                  andThen (working_directory e ob dirs) (\<lambda>wd.
                  andThen (capture_bootstrap e ob t) (\<lambda>boot.
                    ret \<lparr>rv_Policy = p, rv_Trust = t, rv_Revision = r, rv_Consent = consent,
                      rv_PreviousUID = previousUID, rv_Dirs = dirs, rv_WorkingDir = wd, rv_Bootstrap = boot\<rparr>)))))
      ?Q (safe_host m orig A)" for b n ob t p r consent
    by (rule triple_andThen [OF base_step [OF uid]], rule triple_andThen,
        rule triple_result [where C = "\<lambda>dirs. set dirs \<subseteq> state_roots m"], rule base_step, rule stateDirectories_kept,
        use stateDirectories_roots m in blast, rule triple_pure,
        rule triple_andThen [OF base_step [OF sw.observation_work(2)]], rule triple_andThen [OF base_step [OF sw.observation_work(3)]],
        rule triple_ret, simp)
  show ?thesis
    unfolding apply_review_def
    by (rule triple_andThen [OF base_step [OF sw.pending_work]], rule triple_andThen [OF base_step [OF reads_kept(1)]],
        rule triple_andThen [OF base_step [OF reads_kept(2)]],
        rule triple_andThen [OF base_step [OF sw.prepare_journal_dir_work [OF apart_work [OF assms]]]],
        rule triple_andThen [OF base_step [OF panel_kept(1)]], rule triple_andThen [OF base_step [OF panel_kept(2)]],
        rule triple_if, rule base_fail, rule triple_andThen [OF base_step [OF sw.observation_work(1)]])
      (simp add: tail base_fail split: prod.split option.split split del: if_split)
qed

lemma authorize_kept: "apart m e \<Longrightarrow> preserves (still m) (authorize e artifact release v)"
  unfolding authorize_def Let_def
  by (auto intro!: kept sw.observation_work sw.prepareHelper_work apart_work(1) panel_kept split: prod.split)

text \<open>The claim: the journal reaches the phase "prepared" with nothing changed and nothing backed up yet.\<close>

definition claimed :: "Manifest \<Rightarrow> (path \<rightharpoonup> inode) \<Rightarrow> (string \<times> hostJournal) list \<Rightarrow> string \<Rightarrow> host \<Rightarrow> bool" where
  "claimed m orig A ph h \<longleftrightarrow> base m orig A h \<and> hj_Phase (h_mem h) = ph \<and> hj_Backups (h_mem h) = []"

lemma claimed_step: "preserves (still m) s \<Longrightarrow> triple (claimed m orig A ph) s (\<lambda>_. claimed m orig A ph) (safe_host m orig A)"
proof (erule triple_kept)
  fix h h'
  assume s: "still m h h'" and c: "claimed m orig A ph h"
  have "hj_Phase (h_mem h') = hj_Phase (h_mem h)" "hj_Backups (h_mem h') = hj_Backups (h_mem h)"
    using s by (simp_all add: still_def quiet_def)
  with c still_at [OF s, of orig A] show "claimed m orig A ph h'" by (simp add: claimed_def base_def)
qed (simp add: claimed_def base_def opened_inv)

lemma new_journal_claimed:
  "triple (base m orig A) (modify (\<lambda>h. h\<lparr>h_mem := new_journal e v operator opid b\<rparr>)) (\<lambda>_. claimed m orig A ''claiming'') E"
proof -
  have "claimed m orig A ''claiming'' (h\<lparr>h_mem := new_journal e v operator opid b\<rparr>)" if "base m orig A h" for h
  proof -
    have "journal_ok m orig (h\<lparr>h_mem := new_journal e v operator opid b\<rparr>) j = journal_ok m orig h j"
      "intact m orig (h\<lparr>h_mem := new_journal e v operator opid b\<rparr>) = intact m orig h" for j
      by (rule journal_ok_cong intact_cong, simp)+
    with that phases_apart show ?thesis
      by (simp add: claimed_def base_def opened_def safe_host_def archive_ok_def)
        (auto simp: new_journal_def journal_ok_def clean_entries_def)
  qed
  then show ?thesis by (simp add: triple_def modify_def)
qed

lemma clean_operation: "preserves (still m) (mem (hj_Operation_update f))"
  by (rule mem_kept) (simp_all add: clean_entries_def)

lemma claim_triple:
  "triple (base m orig A) (claim e v operator r)
    (\<lambda>_ h. claimed m orig A ''prepared'' h \<and> loaded h) (safe_host m orig A)"
proof -
  have prep: "triple (claimed m orig A ''claiming'') (set_phase e ''prepared'')
      (\<lambda>_ h. claimed m orig A ''prepared'' h \<and> loaded h) (safe_host m orig A)"
  proof (rule triple_conseq [OF set_phase_opened [of "claimed m orig A ''claiming''" m orig A]])
    fix h
    assume "claimed m orig A ''claiming'' h"
    then show "opened m orig A h \<and> journal_ok m orig h ((h_mem h)\<lparr>hj_Phase := ''prepared''\<rparr>)"
      using settled_phase_ok [of m orig A h "''prepared''"] phases_apart by (simp add: claimed_def base_def)
  next
    fix h
    assume "opened m orig A h \<and> loaded h \<and> hj_Phase (h_mem h) = ''prepared'' \<and>
      (\<exists>g. claimed m orig A ''claiming'' g \<and> h_files h = h_files g \<and> hj_Backups (h_mem h) = hj_Backups (h_mem g))"
    then show "claimed m orig A ''prepared'' h \<and> loaded h"
      by (auto simp: claimed_def base_def intact_def)
  qed (simp_all add: opened_inv)
  have told: "triple (\<lambda>h. claimed m orig A ''prepared'' h \<and> loaded h) (report e t ph d)
      (\<lambda>_ h. claimed m orig A ''prepared'' h \<and> loaded h) (safe_host m orig A)" for t ph d
  proof (rule triple_kept [OF report_kept [of m]])
    fix h h'
    assume s: "still m h h'" and c: "claimed m orig A ''prepared'' h \<and> loaded h"
    have q: "quiet m h h'" using s by (simp add: still_def)
    have "loaded h'" using quiet_loaded [OF q] c by simp
    moreover have "hj_Phase (h_mem h') = hj_Phase (h_mem h)" "hj_Backups (h_mem h') = hj_Backups (h_mem h)"
      using q by (simp_all add: quiet_def)
    ultimately show "claimed m orig A ''prepared'' h' \<and> loaded h'"
      using c still_at [OF s, of orig A] by (simp add: claimed_def base_def)
  qed (simp add: claimed_def base_def opened_inv)
  have tail: "triple (claimed m orig A ''claiming'') (script [verify_operation e t oper a opid, require c msg,
       andThen (from_option ''marshal'' o') (\<lambda>ob. mem (hj_Operation_update (\<lambda>_. ob))),
       set_phase e ''prepared'', report e t 2 []])
      (\<lambda>_ h. claimed m orig A ''prepared'' h \<and> loaded h) (safe_host m orig A)" for t oper a opid c msg o'
    by (rule triple_script_Cons [OF claimed_step [OF panel_kept(4)]] triple_script_Cons [OF claimed_step [OF st.require_kept]]
        triple_script_Cons [OF claimed_step [OF st.andThen_kept [OF st.from_option_kept clean_operation]]]
        triple_script_Cons [OF prep] triple_script_Cons [OF told] triple_script_Nil)+
  have start: "triple (base m orig A) (script [modify (\<lambda>h. h\<lparr>h_mem := new_journal e v operator opid b\<rparr>), save e])
      (\<lambda>_. claimed m orig A ''claiming'') (safe_host m orig A)" for opid b
    by (rule triple_script_Cons [OF new_journal_claimed] triple_script_Cons [OF claimed_step [OF save_kept]] triple_script_Nil)+
  show ?thesis
    unfolding claim_def
    by (rule triple_andThen [OF base_step [OF st.gets_kept]], rule triple_andThen [OF base_step [OF st.from_option_kept]],
        rule triple_andThen [OF start], rule triple_andThen [OF claimed_step [OF st.ask_kept]], rule tail)
qed

section \<open>The backups\<close>

text \<open>While the files of \<open>D\<close> have been backed up: nothing is changed, and the backups describe the originals.\<close>

definition saved :: "Manifest \<Rightarrow> (path \<rightharpoonup> inode) \<Rightarrow> (string \<times> hostJournal) list \<Rightarrow> fileBackup list \<Rightarrow> host \<Rightarrow> bool" where
  "saved m orig A bs h \<longleftrightarrow> base m orig A h \<and> loaded h \<and> hj_Phase (h_mem h) = ''prepared'' \<and>
     hj_Backups (h_mem h) = bs \<and> good_backups m orig h bs"

lemma saved_still:
  assumes "still m h h'" and "saved m orig A bs h"
  shows "saved m orig A bs h'"
proof -
  have q: "quiet m h h'" using assms(1) by (simp add: still_def)
  have "loaded h'" using quiet_loaded [OF q] assms(2) by (simp add: saved_def)
  moreover have "hj_Phase (h_mem h') = hj_Phase (h_mem h)" "hj_Backups (h_mem h') = hj_Backups (h_mem h)"
    using q by (simp_all add: quiet_def)
  ultimately show ?thesis
    using assms(2) still_at [OF assms(1), of orig A] quiet_backups [OF q, of orig bs]
    by (simp add: saved_def base_def)
qed

lemma saved_safe: "saved m orig A bs h \<Longrightarrow> safe_host m orig A h"
  by (simp add: saved_def base_def opened_inv)

text \<open>A change of files outside the protected ones that keeps the backups.\<close>

lemma saved_files:
  assumes "saved m orig A bs h" and "h_journal h' = h_journal h" "h_mem h' = h_mem h" "h_archive h' = h_archive h"
    and "\<forall>p \<in> prot m. h_files h' p = h_files h p"
    and "\<forall>b \<in> set bs. fb_Exists b \<longrightarrow> h_files h' (fb_Backup b) = h_files h (fb_Backup b)"
  shows "saved m orig A bs h'"
proof -
  have i: "intact m orig h' = intact m orig h" using assms(5) by (simp add: intact_def)
  have ph: "hj_Phase (h_mem h) = ''prepared''" "loaded h" using assms(1) by (simp_all add: saved_def)
  have ok: "journal_ok m orig h' j = journal_ok m orig h j" if "hj_Phase j = ''prepared''" for j
    using that i phases_apart by (auto simp: journal_ok_def)
  have "good_backups m orig h' bs"
    using assms(1,6) by (auto simp: saved_def good_backups_def describes_def split: if_splits)
  with assms(1-4) i ok ph show ?thesis
    by (auto simp: saved_def base_def opened_def safe_host_def loaded_def archive_ok_def)
qed

lemma triple_eq: "(\<And>h. P h \<Longrightarrow> s h = t h) \<Longrightarrow> triple P t Q E \<Longrightarrow> triple P s Q E"
  by (simp add: triple_def)

lemma saved_step: "preserves (still m) s \<Longrightarrow> triple (saved m orig A bs) s (\<lambda>_. saved m orig A bs) (safe_host m orig A)"
  by (erule triple_kept) (auto intro: saved_still saved_safe)

lemma append_saved:
  assumes "fb_Path b \<in> prot m" and "fb_Backup b \<in> vault m" and "fb_Path b \<notin> fb_Path ` set bs"
  shows "triple (\<lambda>h. saved m orig A bs h \<and> describes orig h b) (mem (hj_Backups_update (\<lambda>bs. bs @ [b])))
    (\<lambda>_. saved m orig A (bs @ [b])) E"
proof -
  have "saved m orig A (bs @ [b]) (h\<lparr>h_mem := hj_Backups_update (\<lambda>bs. bs @ [b]) (h_mem h)\<rparr>)"
    if s: "saved m orig A bs h" and d: "describes orig h b" for h
  proof -
    let ?h = "h\<lparr>h_mem := hj_Backups_update (\<lambda>bs. bs @ [b]) (h_mem h)\<rparr>"
    have c: "journal_ok m orig ?h j = journal_ok m orig h j" "intact m orig ?h = intact m orig h" for j
      by (rule journal_ok_cong intact_cong, simp)+
    have "good_backups m orig ?h (bs @ [b])"
      using s d assms by (auto simp: saved_def good_backups_def describes_def)
    moreover have "journal_ok m orig h (hj_Backups_update (\<lambda>bs. bs @ [b]) (h_mem h))"
      using s phases_apart by (auto simp: saved_def base_def journal_ok_def opened_def safe_host_def clean_entries_def)
    moreover have "loaded ?h" using s by (auto simp: saved_def loaded_def)
    ultimately show ?thesis
      using s by (simp add: saved_def base_def opened_def safe_host_def archive_ok_def c)
  qed
  then show ?thesis by (simp add: triple_def mem_def modify_def)
qed

lemma triple_call:
  assumes "\<And>h k. P h \<Longrightarrow> Q () (f (h\<lparr>h_tick := k\<rparr>))" and "\<And>h k. P h \<Longrightarrow> E (h\<lparr>h_tick := k\<rparr>)" and "\<And>h. Q () h \<Longrightarrow> E h"
  shows "triple P (call out msg f) Q E"
  using assms by (simp add: triple_def call_def Let_def split: outcome.split)

text \<open>The copy of a file that is there: the new backup holds its contents.\<close>

definition copying :: "Manifest \<Rightarrow> (path \<rightharpoonup> inode) \<Rightarrow> (string \<times> hostJournal) list \<Rightarrow> fileBackup list \<Rightarrow> path \<Rightarrow> inode \<Rightarrow> host \<Rightarrow> bool" where
  "copying m orig A bs p n h \<longleftrightarrow> saved m orig A bs h \<and> h_files h p = Some n"

lemma copying_step:
  assumes "p \<in> prot m" and "preserves (still m) s"
  shows "triple (copying m orig A bs p n) s (\<lambda>_. copying m orig A bs p n) (safe_host m orig A)"
proof (rule triple_kept [OF assms(2)])
  fix h h'
  assume s: "still m h h'" and c: "copying m orig A bs p n h"
  have "clean_entries m (h_mem h)" using c by (auto simp: copying_def saved_def base_def intro: opened_clean)
  with s assms(1) c have "h_files h' p = Some n" by (simp add: still_def copying_def)
  with saved_still [OF s] c show "copying m orig A bs p n h'" by (simp add: copying_def)
qed (auto simp: copying_def intro: saved_safe)

definition copied :: "Manifest \<Rightarrow> (path \<rightharpoonup> inode) \<Rightarrow> (string \<times> hostJournal) list \<Rightarrow> fileBackup list \<Rightarrow> path \<Rightarrow> inode \<Rightarrow> path \<Rightarrow>
    bytes option \<Rightarrow> host \<Rightarrow> bool" where
  "copied m orig A bs p n target data h \<longleftrightarrow> copying m orig A bs p n h \<and> (\<forall>b \<in> set bs. fb_Exists b \<longrightarrow> fb_Backup b \<noteq> target) \<and>
     (\<exists>k. h_files h target = Some k \<and> nd_data k = data)"

lemma copied_change:
  assumes "target \<in> vault m" "separated m" "p \<in> prot m" "copying m orig A bs p n h"
    "\<forall>b \<in> set bs. fb_Exists b \<longrightarrow> fb_Backup b \<noteq> target"
    "h_journal h' = h_journal h" "h_mem h' = h_mem h" "h_archive h' = h_archive h" "h_files h' = (h_files h)(target := Some k)"
  shows "copied m orig A bs p n target (nd_data k) h'"
proof -
  have t: "target \<notin> prot m" using assms(1,2) by (auto simp: separated_def)
  then have "saved m orig A bs h'"
    using assms by (intro saved_files [of m orig A bs h h']) (auto simp: copying_def)
  with assms t show ?thesis by (auto simp: copied_def copying_def)
qed

lemma copied_step:
  assumes "target \<in> vault m" "separated m" "p \<in> prot m" "preserves (still m) s"
  shows "triple (copied m orig A bs p n target d) s (\<lambda>_. copied m orig A bs p n target d) (safe_host m orig A)"
proof (rule triple_kept [OF assms(4)])
  fix h h'
  assume s: "still m h h'" and c: "copied m orig A bs p n target d h"
  have "clean_entries m (h_mem h)" using c by (auto simp: copied_def copying_def saved_def base_def intro: opened_clean)
  with s assms(3) c have "h_files h' p = Some n" by (simp add: still_def copied_def copying_def)
  moreover have "\<exists>k. h_files h' target = Some k \<and> nd_data k = d"
    using s c assms(1) by (fastforce simp: still_def quiet_def copied_def)
  ultimately show "copied m orig A bs p n target d h'"
    using saved_still [OF s, of orig A bs] c by (simp add: copied_def copying_def)
qed (auto simp: copied_def copying_def intro: saved_safe)

lemma copy_backup_triple:
  assumes "target \<in> vault m" "separated m" "p \<in> prot m"
  shows "triple (copying m orig A bs p n) (copy_backup e (nd_data n) target)
    (\<lambda>_. copied m orig A bs p n target (nd_data n)) (safe_host m orig A)"
proof -
  let ?fresh = "\<lambda>h. copying m orig A bs p n h \<and> h_files h target = None"
  have distinct_target: "\<forall>b \<in> set bs. fb_Exists b \<longrightarrow> fb_Backup b \<noteq> target" if "?fresh h" for h
    using that by (auto simp: copying_def saved_def good_backups_def describes_def)
  have safe: "safe_host m orig A h" if "copied m orig A bs p n target d h" for h d
    using that by (auto simp: copied_def copying_def intro: saved_safe)
  have a: "triple (copying m orig A bs p n) (andThen (gets (\<lambda>h. h_files h target)) (\<lambda>old. require (old = None) ''backup exists''))
      (\<lambda>_. ?fresh) (safe_host m orig A)"
    by (rule triple_gets) (auto simp: triple_def require_def ret_def fail_def copying_def saved_safe)
  have b: "triple ?fresh (call (te_out e) msg (put target (Some (root_file None 384))))
      (\<lambda>_. copied m orig A bs p n target None) (safe_host m orig A)" for msg
  proof -
    have "copied m orig A bs p n target None (put target (Some (root_file None 384)) (h\<lparr>h_tick := k\<rparr>))" if f: "?fresh h" for h k
      using copied_change [OF assms, of orig A bs n h _ "root_file None 384"] f distinct_target [OF f]
      by (simp add: put_def root_file_def)
    moreover have "safe_host m orig A h" if "?fresh h" for h using that by (auto simp: copying_def intro: saved_safe)
    ultimately show ?thesis using safe by (intro triple_call) auto
  qed
  have c: "triple (copied m orig A bs p n target None) (call (te_out e) msg (change target (\<lambda>n'. n'\<lparr>nd_data := nd_data n\<rparr>)))
      (\<lambda>_. copied m orig A bs p n target (nd_data n)) (safe_host m orig A)" for msg
  proof -
    have "copied m orig A bs p n target (nd_data n) (change target (\<lambda>n'. n'\<lparr>nd_data := nd_data n\<rparr>) (h\<lparr>h_tick := k\<rparr>))"
      if f: "copied m orig A bs p n target None h" for h k
    proof -
      obtain x where x: "h_files h target = Some x" using f by (auto simp: copied_def)
      show ?thesis
        using copied_change [OF assms, of orig A bs n h _ "x\<lparr>nd_data := nd_data n\<rparr>"] f x
        by (simp add: change_def copied_def)
    qed
    with safe show ?thesis by (intro triple_call) auto
  qed
  show ?thesis
    unfolding copy_backup_def
    by (rule triple_script_Cons [OF a] triple_script_Cons [OF b] triple_script_Cons [OF c]
        triple_script_Cons [OF copied_step [OF assms st.probe_kept]] triple_script_Nil)+
qed

lemma backup_triple:
  assumes "apart m e" and p: "p \<in> prot m"
  shows "triple (saved m orig A bs) (backup e p)
    (\<lambda>_ h. \<exists>bs'. saved m orig A bs' h \<and> fb_Path ` set bs' = insert p (fb_Path ` set bs)) (safe_host m orig A)"
    (is "triple _ _ ?Q _")
proof (cases "p \<in> fb_Path ` set bs")
  case True
  then have "backup e p h = (Inr (), h)" if "saved m orig A bs h" for h
    using that by (auto simp: backup_def andThen_def gets_def ret_def saved_def)
  with True show ?thesis by (auto simp: triple_def)
next
  case new: False
  have m: "te_manifest e = m" and s: "separated m" using assms(1) by (simp_all add: apart_def)
  let ?target = "backup_path m (length bs)"
  have tv: "?target \<in> vault m" by (simp add: vault_def)
  let ?b = "\<lparr>fb_Path = p, fb_Backup = ?target, fb_Mode = 0, fb_UID = 0, fb_GID = 0, fb_Exists = False\<rparr>"
  note nd = append_saved [where bs = bs and m = m and orig = orig and A = A and E = "safe_host m orig A"]
  have save: "triple (saved m orig A (bs @ [b'])) (script [save e]) ?Q (safe_host m orig A)" if "fb_Path b' = p" for b'
    by (rule triple_script_Cons [OF saved_step [OF save_kept]], rule triple_script_Nil)
      (use that in \<open>auto intro!: exI [of _ "bs @ [b']"]\<close>)
  have absent: "triple (\<lambda>h. saved m orig A bs h \<and> h_files h p = None)
      (script [mem (hj_Backups_update (\<lambda>bs. bs @ [?b])), save e]) ?Q (safe_host m orig A)"
  proof (rule triple_script_Cons)
    show "triple (\<lambda>h. saved m orig A bs h \<and> h_files h p = None) (mem (hj_Backups_update (\<lambda>bs. bs @ [?b])))
        (\<lambda>_. saved m orig A (bs @ [?b])) (safe_host m orig A)"
    proof (rule triple_conseq [OF nd])
      fix h
      assume "saved m orig A bs h \<and> h_files h p = None"
      moreover from this have "obs (orig p) = None" using p by (auto simp: saved_def base_def intact_def obs_def)
      ultimately show "saved m orig A bs h \<and> describes orig h ?b" by (auto simp: describes_def obs_def)
    qed (use p tv new in auto)
    show "triple (saved m orig A (bs @ [?b])) (script [save e]) ?Q (safe_host m orig A)" by (rule save) simp
  qed
  have present: "triple (\<lambda>h. saved m orig A bs h \<and> h_files h p = Some n)
      (script [require (nd_kind n = KRegular \<and> node_size n \<le> 256 * 2 ^ 20) ''unsafe transaction backup file'',
         trusted m p, probe e ''open'', copy_backup e (nd_data n) ?target,
         mem (hj_Backups_update (\<lambda>bs. bs @ [?b\<lparr>fb_Exists := True, fb_Mode := nd_mode n, fb_UID := nd_uid n, fb_GID := nd_gid n\<rparr>])),
         save e]) ?Q (safe_host m orig A)" for n
  proof (cases "nd_kind n = KRegular \<and> node_size n \<le> 256 * 2 ^ 20")
    case False
    then show ?thesis
      by (auto simp: script.simps triple_def andThen_def require_def fail_def saved_safe)
  next
    case True
    define b' where "b' = ?b\<lparr>fb_Exists := True, fb_Mode := nd_mode n, fb_UID := nd_uid n, fb_GID := nd_gid n\<rparr>"
    have app: "triple (copied m orig A bs p n ?target (nd_data n)) (mem (hj_Backups_update (\<lambda>bs. bs @ [b'])))
        (\<lambda>_. saved m orig A (bs @ [b'])) (safe_host m orig A)"
    proof (rule triple_conseq [OF nd])
      fix h
      assume c: "copied m orig A bs p n ?target (nd_data n) h"
      then have "obs (orig p) = obs (Some n)" using p by (auto simp: copied_def copying_def saved_def base_def intact_def)
      then obtain n0 where "orig p = Some n0" "nd_kind n0 = nd_kind n" "nd_data n0 = nd_data n" "nd_uid n0 = nd_uid n"
          "nd_gid n0 = nd_gid n" "nd_mode n0 = nd_mode n"
        by (auto simp: obs_def)
      with c True show "saved m orig A bs h \<and> describes orig h b'"
        by (auto simp: copied_def copying_def describes_def b'_def)
    qed (use p tv new in \<open>auto simp: b'_def\<close>)
    have sv: "triple (saved m orig A (bs @ [b'])) (script [save e]) ?Q (safe_host m orig A)"
      by (rule save) (simp add: b'_def)
    note c = copying_step [OF p, where n = n and bs = bs and orig = orig and A = A]
    have "triple (copying m orig A bs p n) (script [require (nd_kind n = KRegular \<and> node_size n \<le> 256 * 2 ^ 20) ''unsafe transaction backup file'',
         trusted m p, probe e ''open'', copy_backup e (nd_data n) ?target, mem (hj_Backups_update (\<lambda>bs. bs @ [b'])), save e])
         ?Q (safe_host m orig A)"
      by (rule triple_script_Cons [OF c [OF st.require_kept]], rule triple_script_Cons [OF c [OF st.trusted_kept]],
          rule triple_script_Cons [OF c [OF st.probe_kept]], rule triple_script_Cons [OF copy_backup_triple [OF tv s p]],
          rule triple_script_Cons [OF app], rule sv)
    then show ?thesis unfolding copying_def b'_def .
  qed
  have "triple (saved m orig A bs) (andThen (probe e ''lstat'') (\<lambda>_. andThen (gets (\<lambda>h. h_files h p)) (\<lambda>st.
        case st of
          None \<Rightarrow> script [mem (hj_Backups_update (\<lambda>bs. bs @ [?b])), save e]
        | Some n \<Rightarrow>
            script [require (nd_kind n = KRegular \<and> node_size n \<le> 256 * 2 ^ 20) ''unsafe transaction backup file'',
              trusted m p, probe e ''open'', copy_backup e (nd_data n) ?target,
              mem (hj_Backups_update (\<lambda>bs. bs @ [?b\<lparr>fb_Exists := True, fb_Mode := nd_mode n, fb_UID := nd_uid n, fb_GID := nd_gid n\<rparr>])),
              save e]))) ?Q (safe_host m orig A)"
    by (rule triple_andThen [OF saved_step [OF st.probe_kept]], rule triple_gets)
      (use absent present in \<open>simp split: option.split\<close>)
  moreover have "\<not> (\<exists>b \<in> set (hj_Backups (h_mem h)). fb_Path b = p)" "hj_Backups (h_mem h) = bs"
    if "saved m orig A bs h" for h
    using that new by (auto simp: saved_def)
  then have "backup e p h = andThen (probe e ''lstat'') (\<lambda>_. andThen (gets (\<lambda>h. h_files h p)) (\<lambda>st.
        case st of
          None \<Rightarrow> script [mem (hj_Backups_update (\<lambda>bs. bs @ [?b])), save e]
        | Some n \<Rightarrow>
            script [require (nd_kind n = KRegular \<and> node_size n \<le> 256 * 2 ^ 20) ''unsafe transaction backup file'',
              trusted m p, probe e ''open'', copy_backup e (nd_data n) ?target,
              mem (hj_Backups_update (\<lambda>bs. bs @ [?b\<lparr>fb_Exists := True, fb_Mode := nd_mode n, fb_UID := nd_uid n, fb_GID := nd_gid n\<rparr>])),
              save e])) h" if "saved m orig A bs h" for h
    unfolding backup_def andThen_def [of "gets h_mem"] gets_def [of h_mem] prod.case sum.case Let_def m
    using that by (simp cong: option.case_cong)
  ultimately show ?thesis by (rule triple_eq [rotated])
qed

lemma triple_ex:
  assumes "\<And>x. triple (P x) s Q E"
  shows "triple (\<lambda>h. \<exists>x. P x h) s Q E"
  unfolding triple_def using assms [unfolded triple_def] by metis

lemma backups_triple:
  assumes "apart m e" and "set ps \<subseteq> prot m"
  shows "triple (saved m orig A bs) (script (map (backup e) ps))
    (\<lambda>_ h. \<exists>bs'. saved m orig A bs' h \<and> fb_Path ` set bs' = set ps \<union> fb_Path ` set bs) (safe_host m orig A)"
  using assms(2)
proof (induction ps arbitrary: bs)
  case Nil
  then show ?case by (auto intro: triple_script_Nil)
next
  case (Cons p ps)
  let ?Q = "\<lambda>h. \<exists>bs'. saved m orig A bs' h \<and> fb_Path ` set bs' = insert p (fb_Path ` set bs)"
  have "triple ?Q (script (map (backup e) ps))
      (\<lambda>_ h. \<exists>bs'. saved m orig A bs' h \<and> fb_Path ` set bs' = set (p # ps) \<union> fb_Path ` set bs) (safe_host m orig A)"
  proof -
    have "triple (\<lambda>h. saved m orig A bs' h \<and> fb_Path ` set bs' = insert p (fb_Path ` set bs)) (script (map (backup e) ps))
      (\<lambda>_ h. \<exists>bs'. saved m orig A bs' h \<and> fb_Path ` set bs' = set (p # ps) \<union> fb_Path ` set bs) (safe_host m orig A)" for bs'
      by (rule triple_pure, rule triple_conseq [OF Cons.IH]) (use Cons.prems in auto)
    then show ?thesis by (rule triple_ex)
  qed
  then show ?case
    using Cons.prems by (simp add: triple_script_Cons [OF backup_triple [OF assms(1)]])
qed

lemma triple_try:
  assumes "triple P s (\<lambda>_. R) R'" and "\<And>err. triple R' (f err) Q E" and "triple R k Q E"
  shows "triple P (\<lambda>h. case s h of (Inl err, h') \<Rightarrow> f err h' | (Inr _, h') \<Rightarrow> k h') Q E"
  unfolding triple_def
proof (intro allI impI)
  fix h
  assume P: "P h"
  obtain r h1 where s: "s h = (r, h1)" by force
  show "case (case s h of (Inl err, h') \<Rightarrow> f err h' | (Inr _, h') \<Rightarrow> k h') of (Inl _, h') \<Rightarrow> E h' | (Inr x, h') \<Rightarrow> Q x h'"
  proof (cases r)
    case (Inl err)
    then have "R' h1" using assms(1) P s by (auto simp: triple_def)
    with assms(2) [of err] s Inl show ?thesis by (simp add: triple_def)
  next
    case (Inr x)
    then have "R h1" using assms(1) P s by (auto simp: triple_def)
    with assms(3) s Inr show ?thesis by (simp add: triple_def)
  qed
qed

lemma mutable_safe: "mutable m orig A h \<Longrightarrow> safe_host m orig A h"
  by (simp add: mutable_def opened_inv)

lemma undo_triple:
  assumes "apart m e" and "sane m orig"
  shows "triple (mutable m orig A) (undo e t err) (\<lambda>_. safe_host m orig A) (safe_host m orig A)"
proof -
  have step: "triple (mutable m orig A) s (\<lambda>_. mutable m orig A) (safe_host m orig A)" if "preserves (still m) s" for s :: "unit step"
    using that by (rule triple_conseq [OF mutable_step]) (auto intro: opened_inv)
  have note_error: "preserves (still m) (mem (hj_Error_update f))" for f
    by (rule mem_kept) (simp_all add: clean_entries_def)
  have restored: "triple (mutable m orig A) (restoreTransaction e) (\<lambda>_. finishing m orig A) (safe_host m orig A)"
    by (rule triple_conseq [OF restoreTransaction_triple [OF assms]])
      (use phases_apart in \<open>auto simp: mutable_def finishing_def opened_inv\<close>)
  have arch: "triple (finishing m orig A) (archiveJournal e) (\<lambda>_. safe_host m orig A) (safe_host m orig A)"
    unfolding finishing_def by (rule archiveJournal_triple [OF assms(1)])
  show ?thesis
    unfolding undo_def
    by (rule triple_script_Cons [OF step [OF note_error]] triple_script_Cons [OF step [OF st.ignoring_kept [OF save_kept]]]
        triple_script_Cons [OF restored] triple_script_Cons [OF finishing_step [OF reportRestoration_kept]]
        triple_script_Cons [OF arch] triple_script_Cons [OF triple_raise] triple_script_Nil | assumption)+
qed

lemma apply_claimed_triple:
  assumes "apart m e" and "sane m orig" and "set (rv_Dirs v) \<subseteq> state_roots m"
  shows "triple (\<lambda>h. claimed m orig A ''prepared'' h \<and> loaded h) (apply_claimed e v helper r)
    (\<lambda>_. safe_host m orig A) (safe_host m orig A)"
proof -
  have m: "te_manifest e = m" using assms(1) by (simp add: apart_def)
  have start: "triple (\<lambda>h. claimed m orig A ''prepared'' h \<and> loaded h) (script (map (backup e) (protected_files m)))
      (\<lambda>_ h. \<exists>bs. saved m orig A bs h \<and> prot m \<subseteq> fb_Path ` set bs) (safe_host m orig A)"
    by (rule triple_conseq [OF backups_triple [OF assms(1), of "protected_files m" orig A "[]"]])
      (auto simp: claimed_def saved_def good_backups_def prot_def)
  have mut: "triple (\<lambda>h. \<exists>bs. saved m orig A bs h \<and> prot m \<subseteq> fb_Path ` set bs) (set_phase e ''mutating'')
      (\<lambda>_. mutable m orig A) (safe_host m orig A)"
  proof (rule triple_conseq [OF set_phase_opened])
    fix h
    assume "\<exists>bs. saved m orig A bs h \<and> prot m \<subseteq> fb_Path ` set bs"
    then show "opened m orig A h \<and> journal_ok m orig h ((h_mem h)\<lparr>hj_Phase := ''mutating''\<rparr>)"
      using phases_apart
      by (auto simp: saved_def base_def opened_def safe_host_def journal_ok_def covered_def clean_entries_def)
  qed (use phases_apart in \<open>auto simp: mutable_def loaded_def opened_inv\<close>)
  have exec: "triple (mutable m orig A) (executeTransaction e p t r dirs boot b ver wd) (\<lambda>_. mutable m orig A) (mutable m orig A)"
    if "dirs = rv_Dirs v" for p t dirs boot b ver wd
    unfolding that by (rule triple_kept [OF executeTransaction_quiet [OF assms(1,3)]]) (auto intro: quiet_mutable)
  have loc: "triple (mutable m orig A) (set_phase e ''local_applied'') (\<lambda>_. opened m orig A) (safe_host m orig A)"
  proof (rule triple_conseq [OF set_phase_opened])
    fix h
    assume "mutable m orig A h"
    then show "opened m orig A h \<and> journal_ok m orig h ((h_mem h)\<lparr>hj_Phase := ''local_applied''\<rparr>)"
      using phases_apart
      by (auto simp: mutable_def opened_def safe_host_def journal_ok_def covered_def clean_entries_def)
  qed (auto simp: opened_inv)
  have fin: "triple (mutable m orig A) (script [set_phase e ''local_applied'', report e t ph [], finishHost e t])
      (\<lambda>_. safe_host m orig A) (safe_host m orig A)" for t ph
    by (rule triple_script_Cons [OF loc] triple_script_Cons [OF open_inv_step [OF report_kept]]
        triple_script_Cons [OF finish_loop_triple [OF assms(1), folded finishHost_def]] triple_script_Nil
        | simp add: finishHost_def finish_loop_triple [OF assms(1)])+
  show ?thesis
    unfolding apply_claimed_def m
    by (rule triple_andThen [OF start], rule triple_andThen [OF mut],
        rule triple_try, rule exec, rule refl, rule undo_triple [OF assms(1,2)], rule fin)
qed

lemma apply_manifest_triple:
  assumes "apart m e" and "sane m orig"
  shows "triple (base m orig A) (apply_manifest e revision artifact release) (\<lambda>_. safe_host m orig A) (safe_host m orig A)"
proof -
  have go: "triple (base m orig A) (case x of (operator, helper, r) \<Rightarrow> andThen (claim e v operator r) (\<lambda>_. apply_claimed e v helper r))
      (\<lambda>_. safe_host m orig A) (safe_host m orig A)" if "set (rv_Dirs v) \<subseteq> state_roots m" for x v
    by (cases x) (auto intro!: triple_andThen [OF claim_triple] apply_claimed_triple [OF assms that])
  show ?thesis
    unfolding apply_manifest_def
    by (rule triple_andThen [OF apply_review_triple [OF assms(1)]], rule triple_pure,
        rule triple_andThen [OF base_step [OF authorize_kept [OF assms(1)]]], rule go)
qed

section \<open>Any history of one transaction\<close>

text \<open>Every command starts with a fresh memory; an \<open>apply\<close> is followed by any number of recoveries.\<close>

definition no_journal :: hostJournal where
  "no_journal = \<lparr>hj_Version = 0, hj_Manifest = [], hj_ID = [], hj_Phase = [], hj_Operator = [], hj_Revision = [],
     hj_Operation = [], hj_Receipt = [], hj_SupersededReceipts = [], hj_Backups = [], hj_Ownership = [],
     hj_RecoveryOwnership = [], hj_Error = [], hj_PreviousMode = 0, hj_PreviousUID = 0, hj_PreviousHelper = False,
     hj_FenceStage = [], hj_LegacyRemoteControlConsent = False\<rparr>"

definition command :: "unit step \<Rightarrow> host \<Rightarrow> host" where
  "command s h = snd (s (h\<lparr>h_mem := no_journal\<rparr>))"

fun recoveries :: "(host_env \<times> bool) list \<Rightarrow> host \<Rightarrow> host" where
  "recoveries [] h = h"
| "recoveries ((e, restore) # es) h = recoveries es (command (resume_manifest e restore) h)"

definition transaction_history ::
  "host_env \<Rightarrow> u64 \<Rightarrow> path \<Rightarrow> path \<Rightarrow> (host_env \<times> bool) list \<Rightarrow> host \<Rightarrow> host" where
  "transaction_history e revision artifact release es h =
     recoveries es (command (apply_manifest e revision artifact release) h)"

lemma fresh_memory:
  assumes "safe_host m orig A h"
  shows "safe_host m orig A (h\<lparr>h_mem := no_journal\<rparr>)"
proof -
  have "journal_ok m orig (h\<lparr>h_mem := no_journal\<rparr>) j = journal_ok m orig h j"
      "intact m orig (h\<lparr>h_mem := no_journal\<rparr>) = intact m orig h" for j
    by (rule journal_ok_cong intact_cong, simp)+
  with assms show ?thesis
    using phases_apart by (simp add: safe_host_def archive_ok_def) (simp add: journal_ok_def no_journal_def clean_entries_def)
qed

lemma triple_command: "triple P s (\<lambda>_. Q) Q \<Longrightarrow> P (h\<lparr>h_mem := no_journal\<rparr>) \<Longrightarrow> Q (command s h)"
  by (cases "s (h\<lparr>h_mem := no_journal\<rparr>)") (auto simp: triple_def command_def split: sum.splits)

lemma recoveries_safe:
  assumes "\<forall>(e, restore) \<in> set es. apart m e" and "sane m orig" and "safe_host m orig A h"
  shows "safe_host m orig A (recoveries es h)"
  using assms(1,3)
proof (induction es arbitrary: h)
  case (Cons x es)
  obtain e restore where x: "x = (e, restore)" by force
  have "safe_host m orig A (command (resume_manifest e restore) h)"
    using Cons.prems x by (intro triple_command [OF resume_manifest_triple] fresh_memory assms(2)) auto
  with Cons x show ?case by simp
qed simp

lemma history_safe:
  assumes "apart m e" "\<forall>(e, restore) \<in> set es. apart m e" "sane m (h_files h)" "h_journal h = None"
  shows "safe_host m (h_files h) (h_archive h) (transaction_history e revision artifact release es h)"
proof -
  have "base m (h_files h) (h_archive h) (h\<lparr>h_mem := no_journal\<rparr>)"
    using assms(4) phases_apart
    by (simp add: base_def opened_def safe_host_def archive_ok_def intact_def journal_ok_def no_journal_def clean_entries_def)
  with assms show ?thesis
    unfolding transaction_history_def
    by (intro recoveries_safe triple_command [OF apply_manifest_triple]) auto
qed

end
