(* ===== verification/HostGuarantees.thy ===== *)
theory HostGuarantees
  imports HostRecovery
begin

text \<open>
  The properties of the host transaction, with an installation on which they are instantiated, and the
  authorization that every change needs.
\<close>

section \<open>Recovery\<close>

text \<open>
  C1: The host is never stranded. Whatever call fails or half-fails during an apply and any number of recoveries
  (a crash is a suffix of failures; each command starts with an empty memory and reads the journal on disk),
  once the journal says that nothing is changed or everything is undone the protected files are as they were
  before (contents, owner, mode), without a journal they are too, and while the journal says that the target
  is being applied or undone it describes a backup, on disk, of every protected file.
\<close>

theorem host_never_stranded:
  assumes "apart m e" and "\<forall>(e', restore) \<in> set es. apart m e'" and "sane m (h_files h)" and "h_journal h = None"
    and h': "h' = transaction_history e revision artifact release es h"
  shows "(\<forall>j. h_journal h' = Some j \<longrightarrow> hj_Phase j \<in> settled \<longrightarrow> intact m (h_files h) h') \<and>
    (\<forall>opid j. h_archive h' = h_archive h @ [(opid, j)] \<longrightarrow> hj_Phase j \<in> settled \<longrightarrow> intact m (h_files h) h') \<and>
    (h_journal h' = None \<and> h_archive h' = h_archive h \<longrightarrow> intact m (h_files h) h') \<and>
    (\<forall>j. h_journal h' = Some j \<longrightarrow> hj_Phase j \<in> mutated \<longrightarrow>
      (\<forall>p \<in> prot m. \<exists>b \<in> set (hj_Backups j). fb_Path b = p \<and> describes (h_files h) h' b))"
proof -
  have s: "safe_host m (h_files h) (h_archive h) h'"
    unfolding h' by (rule history_safe [OF assms(1-4)])
  have "\<exists>b \<in> set (hj_Backups j). fb_Path b = p \<and> describes (h_files h) h' b"
    if "h_journal h' = Some j" "hj_Phase j \<in> mutated" "p \<in> prot m" for j p
  proof -
    have "covered m (h_files h) h' j" using s that by (simp add: safe_host_def journal_ok_def)
    with that(3) show ?thesis by (auto simp: covered_def good_backups_def)
  qed
  with s show ?thesis by (auto simp: safe_host_def journal_ok_def archive_ok_def)
qed

text \<open>
  C32: Every journal that an apply and its recoveries leave on disk is well formed: its ownership entries never
  name a protected file, and in the phases that change files its backups name each protected file exactly
  once and lie under the backup names of the journal directory.
\<close>

theorem journal_well_formed:
  assumes "apart m e" and "\<forall>(e', restore) \<in> set es. apart m e'" and "sane m (h_files h)" and "h_journal h = None"
  shows "\<forall>j. h_journal (transaction_history e revision artifact release es h) = Some j \<longrightarrow>
    clean_entries m j \<and> (hj_Phase j \<in> mutated \<longrightarrow> distinct (map fb_Path (hj_Backups j)) \<and>
      fb_Path ` set (hj_Backups j) = prot m \<and> fb_Backup ` set (hj_Backups j) \<subseteq> vault m)"
  using history_safe [OF assms, of revision artifact release]
  by (auto simp: safe_host_def journal_ok_def covered_def good_backups_def)

section \<open>An installation\<close>

definition sample_installation :: Manifest where
  "sample_installation = \<lparr>mf_Version = 2, ServiceName = ''k'', ServiceUser = ''u'', InitSystem = ''systemd'',
     Executable = ''/k/agent'', HostTool = ''/k/host'', HostPolicyFile = ''/e/k.policy.json'', ConfigFile = [],
     CredentialsFile = ''/s/k/c.json'', RuntimeStateFile = ''/s/k/r.json'', PrivilegedStateFile = ''/s/k/p.json'',
     ReplayStateFile = ''/s/k/n.json'', ManifestPath = ''/e/k.json''\<rparr>"

lemma Join_child:
  assumes "\<forall>c \<in> set (cs @ [name]). plain c" and "cs \<noteq> []"
  shows "Join [render True cs, name] = render True (cs @ [name])"
proof -
  have n: "name \<noteq> []" using assms(1) by (simp add: plain_def)
  have "join [sep] [render True cs, name] = render True (cs @ [name])"
    using assms(2) by (simp add: render_def join_snoc)
  moreover have "render True cs \<noteq> []" by (simp add: render_def)
  ultimately have "Join [render True cs, name] = Clean (render True (cs @ [name]))"
    using n by simp
  also have "\<dots> = render True (cs @ [name])"
    using Clean_rooted [OF IsAbs_render, of "cs @ [name]"] components_render [OF assms(1)] by simp
  finally show ?thesis .
qed

lemma nat_digits_chars: "c \<in> set (nat_digits n) \<Longrightarrow> c \<in> set ''0123456789''"
proof (induction n rule: nat_digits.induct)
  case (1 n)
  have "\<forall>d \<in> {..<10::nat}. (char_of (48 + d) :: char) \<in> set ''0123456789''" by code_simp
  then have "char_of (48 + n mod 10) \<in> set ''0123456789''" by simp
  with 1 show ?case by (auto simp: nat_digits.simps [of n] split: if_splits)
qed

lemma sample_dirs: "journalDir sample_installation = ''/var/lib/komari-host/k''"
  by code_simp

lemma sample_backup_path: "backup_path sample_installation k = ''/var/lib/komari-host/k/backup-'' @ Itoa (int k)"
proof -
  have d: "sep \<notin> set (Itoa (int k))"
    using nat_digits_chars [of sep k] by (auto simp: Itoa_def)
  have r: "render True [''var'', ''lib'', ''komari-host'', ''k''] = ''/var/lib/komari-host/k''" by code_simp
  have "Join [render True [''var'', ''lib'', ''komari-host'', ''k''], ''backup-'' @ Itoa (int k)] =
      render True ([''var'', ''lib'', ''komari-host'', ''k''] @ [''backup-'' @ Itoa (int k)])"
    by (rule Join_child) (use d in \<open>auto simp: plain_def\<close>)
  then show ?thesis by (simp add: backup_path_def sample_dirs r) (simp add: render_def)
qed

lemma sample_prot: "protected_files sample_installation =
    [''/etc/systemd/system/k.service.d/95-komari-host-profile.conf'', ''/k/host-bootstrap.json'', ''/e/k.policy.json'',
     ''/e/k.applied.json'', ''/k/komari-agent-rescue'', ''/k/rescue.json'', ''/etc/systemd/system/k-rescue.service'']"
  by code_simp

lemma ancestors_set: "ancestors d = set (map (\<lambda>k. render True (take k (components d))) [0..<Suc (length (components d))])"
proof -
  let ?f = "\<lambda>k. render True (take k (components d))"
  have "?f k \<in> ?f ` {0..<Suc (length (components d))}" for k
    by (rule image_eqI [of _ _ "min k (length (components d))"]) (simp_all add: min_def)
  then have "ancestors d = ?f ` {0..<Suc (length (components d))}" by (auto simp: ancestors_def)
  also have "\<dots> = set (map ?f [0..<Suc (length (components d))])" by (simp only: set_map set_upt)
  finally show ?thesis .
qed

lemma sample_ancestors:
  "ancestors (journalDir sample_installation) = {''/'', ''/var'', ''/var/lib'', ''/var/lib/komari-host'', ''/var/lib/komari-host/k''}"
  "ancestors ''/var/lib/komari-host'' = {''/'', ''/var'', ''/var/lib'', ''/var/lib/komari-host''}"
  "ancestors (Dir (helperCache sample_installation)) = {''/'', ''/var'', ''/var/cache'', ''/var/cache/komari'', ''/var/cache/komari/k''}"
  "ancestors (Dir (profilePath sample_installation)) = {''/'', ''/etc'', ''/etc/systemd'', ''/etc/systemd/system'', ''/etc/systemd/system/k.service.d''}"
  "ancestors (Join [''/var/lib/komari-rescue'', ServiceName sample_installation]) = {''/'', ''/var'', ''/var/lib'', ''/var/lib/komari-rescue'', ''/var/lib/komari-rescue/k''}"
  "ancestors (Join [''/var/lib/komari-rescue'', ''k'']) = {''/'', ''/var'', ''/var/lib'', ''/var/lib/komari-rescue'', ''/var/lib/komari-rescue/k''}"
  unfolding ancestors_set by code_simp+

lemma sample_name: "ServiceName sample_installation = ''k''"
  by code_simp

lemma sample_cache: "helperCache sample_installation = ''/var/cache/komari/k/komari-agent-rescue''"
  by code_simp

lemma sample_roots: "state_roots sample_installation = {''/s/k''}"
  by code_simp

lemma sample_places:
  "work_places sample_installation = {''/'', ''/var'', ''/var/lib'', ''/var/lib/komari-host'', ''/var/lib/komari-host/k'',
     ''/var/cache'', ''/var/cache/komari'', ''/var/cache/komari/k'', ''/var/cache/komari/k/komari-agent-rescue'',
     ''/var/cache/komari/k/komari-agent-rescue.release.json''}"
  "target_places sample_installation = {''/'', ''/etc'', ''/etc/systemd'', ''/etc/systemd/system'',
     ''/etc/systemd/system/k.service.d'', ''/var'', ''/var/lib'', ''/var/lib/komari-rescue'', ''/var/lib/komari-rescue/k''}"
  unfolding work_places_def target_places_def sample_ancestors by (auto simp: sample_cache)

lemma sample_separated: "separated sample_installation"
proof -
  have "p \<noteq> backup_path sample_installation k" if "p \<in> prot sample_installation" for p k
    using that by (auto simp: prot_def sample_prot sample_backup_path)
  then have "prot sample_installation \<inter> vault sample_installation = {}" by (auto simp: vault_def)
  moreover have "vault sample_installation \<inter> (work_places sample_installation \<union> target_places sample_installation) = {}"
    by (auto simp: vault_def sample_places sample_backup_path)
  moreover have "prot sample_installation \<inter> work_places sample_installation = {}"
    by (simp add: prot_def sample_prot sample_places)
  moreover have "\<forall>p \<in> prot sample_installation. \<not> under (journalDir sample_installation) p \<and>
      (\<forall>opid. \<not> under (journalDir sample_installation @ ''-'' @ opid) p)"
    by (simp add: prot_def sample_prot sample_dirs under_def starts_with_iff)
  moreover have "\<forall>d \<in> state_roots sample_installation. \<forall>p \<in> prot sample_installation \<union> vault sample_installation. \<not> under d p"
    by (auto simp: sample_roots prot_def sample_prot vault_def sample_backup_path under_def starts_with_iff)
  ultimately show ?thesis by (auto simp: separated_def)
qed

text \<open>
  A machine on which the commands fail from the tick \<open>k\<close> on, with a panel that cannot be reached, and a
  host in the middle of a transaction that made a drop-in.
\<close>

definition sample_env :: "nat \<Rightarrow> host_env" where
  "sample_env k = \<lparr>te_manifest = sample_installation, te_out = (\<lambda>n. if n < k then Works else Fails),
     te_services = (\<lambda>_ f. f), te_names = (\<lambda>_ _. []), te_user = (\<lambda>_. Some (''1000'', ''1000'')),
     te_tree = (\<lambda>_. Directory (\<lambda>_. None)), te_sightings = (\<lambda>_ _ _. None), te_beats = (\<lambda>_ _. Inl HeartbeatStale),
     te_show = (\<lambda>_ _ _. None), te_authenticate = (\<lambda>_. Inr ''alice''), te_tty = (\<lambda>_. None),
     te_delivery = (\<lambda>_. Inl (local_error ''unreachable'')), te_operation = (\<lambda>_ _. Inl (local_error ''unreachable'')),
     te_prepare = (\<lambda>_ _. Inl (local_error ''unreachable'')), te_report = (\<lambda>_ _. Inl (local_error ''unreachable'')),
     te_http = (\<lambda>_ _. None), te_now = int, te_uuid = (\<lambda>n. Itoa (int n)), te_ed = (\<lambda>_ _ _. False), te_sha = (\<lambda>b. b),
     te_unm = (\<lambda>_. None), te_revision_body = (\<lambda>_. None), te_operation_body = (\<lambda>_. None), te_decode_revision = (\<lambda>_. None),
     te_encode_report = (\<lambda>_. None), te_decode_report = (\<lambda>_. None), te_encode_policy = (\<lambda>_. None),
     te_decode_policy = (\<lambda>_. None), te_decode_trust = (\<lambda>_. None), te_decode_access = (\<lambda>_. None),
     te_decode_manifest = (\<lambda>_. None), te_decode_identity = (\<lambda>_. None), te_decode_signed = (\<lambda>_. None),
     te_unmarshal_signed = (\<lambda>_. None), te_encode_signed = (\<lambda>_. None), te_decode_payload = (\<lambda>_. None),
     te_encode_payload = (\<lambda>_. None), te_encode_bootstrap = (\<lambda>_. None), te_decode_bootstrap = (\<lambda>_ _. None),
     te_parse_float = (\<lambda>_. None), te_encode_applied = (\<lambda>_. None), te_encode_rescue = (\<lambda>_. None), te_url = (\<lambda>_. None),
     te_os = ''linux'', te_arch = ''amd64'', te_RESTORED = 7, te_finish = (\<lambda>_. DeadlineFired), te_glob = (\<lambda>_ _. []),
     te_decode_upgrade = (\<lambda>_. None), te_encode_upgrade = (\<lambda>_. None), te_decode_rescue = (\<lambda>_. None),
     te_encode_manifest = (\<lambda>_. None), te_encode_trust = (\<lambda>_. None), te_encode_revision = (\<lambda>_. None),
     te_encode_operation = (\<lambda>_. None), te_exe = (\<lambda>_ _. None), te_self = ''/k/host'', te_version = ''v1'', te_euid = 0\<rparr>"

lemma sample_apart: "apart sample_installation (sample_env k)"
  by (simp add: apart_def sample_separated hands_off_def sample_env_def)

definition sample_backups :: "fileBackup list" where
  "sample_backups = map (\<lambda>p. \<lparr>fb_Path = p, fb_Backup = backup_path sample_installation 0, fb_Mode = 0, fb_UID = 0, fb_GID = 0,
     fb_Exists = False\<rparr>) (protected_files sample_installation)"

definition sample_host :: host where
  "sample_host = \<lparr>h_files = [profilePath sample_installation \<mapsto> root_file (Some ''[Service]'') 420],
     h_journal = Some (no_journal\<lparr>hj_ID := ''op'', hj_Phase := ''mutating'', hj_Backups := sample_backups\<rparr>),
     h_mem = no_journal, h_archive = [], h_entries = 0, h_bytes = 0, h_calls = [], h_tick = 0\<rparr>"

definition sample_clean :: host where
  "sample_clean = sample_host\<lparr>h_journal := None\<rparr>"

theorem host_never_stranded_witness:
  "apart sample_installation (sample_env 9) \<and> sane sample_installation (h_files sample_clean) \<and>
    (let h' = transaction_history (sample_env 9) 5 [] [] [(sample_env 40, False), (sample_env 100, True)] sample_clean in
     case h_journal h' of
       None \<Rightarrow> (if h_archive h' = [] then intact sample_installation (h_files sample_clean) h' else True)
     | Some j \<Rightarrow> (if hj_Phase j \<in> settled then intact sample_installation (h_files sample_clean) h' else True))"
proof -
  have s: "sane sample_installation (h_files sample_clean)"
    by (simp add: sane_def sample_clean_def sample_host_def root_file_def)
  have j: "h_journal sample_clean = None" by (simp add: sample_clean_def)
  have es: "\<forall>(e', restore) \<in> set [(sample_env 40, False), (sample_env 100, True)]. apart sample_installation e'"
    by (simp add: sample_apart)
  show ?thesis
    using host_never_stranded [OF sample_apart [of 9] es s j, of _ 5 "[]" "[]", OF refl] s j
    by (simp add: sample_apart Let_def sample_clean_def sample_host_def split: option.split)
qed

theorem journal_well_formed_witness:
  "sane sample_installation (h_files sample_clean) \<and>
    (case h_journal (transaction_history (sample_env 9) 5 [] [] [(sample_env 40, True)] sample_clean) of
       None \<Rightarrow> True | Some j \<Rightarrow> clean_entries sample_installation j)"
proof -
  have s: "sane sample_installation (h_files sample_clean)"
    by (simp add: sane_def sample_clean_def sample_host_def root_file_def)
  have j: "h_journal sample_clean = None" by (simp add: sample_clean_def)
  have es: "\<forall>(e', restore) \<in> set [(sample_env 40, True)]. apart sample_installation e'"
    by (simp add: sample_apart)
  show ?thesis
    using journal_well_formed [OF sample_apart [of 9] es s j, of 5 "[]" "[]"] s by (simp split: option.split)
qed

text \<open>
  C8: The recovery invariant, from any state in which a crash can leave the host: if the journal, the archive
  and the backups are consistent with the original files, they still are after any number of resumes and
  restores, however they fail.
\<close>

theorem recovery_keeps_the_backups:
  assumes "\<forall>(e', restore) \<in> set es. apart m e'" and "sane m orig" and "safe_host m orig A h"
  shows "safe_host m orig A (recoveries es h)"
  by (rule recoveries_safe [OF assms])

lemma sample_mutating: "safe_host sample_installation (\<lambda>_. None) [] sample_host"
proof -
  have "covered sample_installation (\<lambda>_. None) sample_host
      (no_journal\<lparr>hj_ID := ''op'', hj_Phase := ''mutating'', hj_Backups := sample_backups\<rparr>)"
    by (auto simp: covered_def good_backups_def describes_def sample_backups_def prot_def vault_def comp_def sample_prot)
  then show ?thesis
    using phases_apart
    by (auto simp: safe_host_def journal_ok_def archive_ok_def sample_host_def no_journal_def clean_entries_def)
qed

theorem recovery_keeps_the_backups_witness:
  "hj_Phase (the (h_journal sample_host)) = ''mutating'' \<and> h_files sample_host (profilePath sample_installation) \<noteq> None \<and>
    safe_host sample_installation (\<lambda>_. None) [] (recoveries [(sample_env 3, False), (sample_env 12, True)] sample_host)"
proof -
  have es: "\<forall>(e', restore) \<in> set [(sample_env 3, False), (sample_env 12, True)]. apart sample_installation e'"
    by (simp add: sample_apart)
  have s: "sane sample_installation (\<lambda>_. None)" by (simp add: sane_def)
  show ?thesis
    using recovery_keeps_the_backups [OF es s sample_mutating] by (simp add: sample_host_def)
qed

section \<open>No change without authorization\<close>

text \<open>\<open>calm\<close>: no protected file changes, no command is given to systemd, and time goes on.\<close>

definition calm :: "Manifest \<Rightarrow> host \<Rightarrow> host \<Rightarrow> bool" where
  "calm m h h' \<longleftrightarrow> (\<forall>p \<in> prot m. h_files h' p = h_files h p) \<and> h_calls h' = h_calls h \<and> h_tick h \<le> h_tick h'"

interpretation cm: work_relation "calm m" "prot m" for m
proof
  show "calm m h1 h2 \<Longrightarrow> calm m h2 h3 \<Longrightarrow> calm m h1 h3" for h1 h2 h3 by (simp add: calm_def)
  show "calm m h (put p n h)" if "p \<notin> prot m" for h p n using that by (auto simp: calm_def put_def)
  show "calm m h (change p f h)" if "p \<notin> prot m" "\<And>n. nd_data (f n) = nd_data n" for h p f
    using that by (auto simp: calm_def change_def)
qed (simp_all add: calm_def)

lemma andThen_Inr:
  assumes "andThen s k h = (Inr y, h')"
  obtains x h1 where "s h = (Inr x, h1)" "k x h1 = (Inr y, h')"
proof -
  obtain r h1 where s: "s h = (r, h1)" by force
  with assms that show thesis by (cases r) (simp_all add: andThen_def)
qed

lemma calm_andThen:
  assumes "andThen s k h = (Inr y, h')" and "preserves (calm m) s"
  obtains x h1 where "s h = (Inr x, h1)" "k x h1 = (Inr y, h')" "h_tick h \<le> h_tick h1"
proof -
  from assms(1) obtain x h1 where s: "s h = (Inr x, h1)" "k x h1 = (Inr y, h')" by (rule andThen_Inr)
  moreover have "h_tick h \<le> h_tick h1" using preservesD [OF assms(2) s(1)] by (simp add: calm_def)
  ultimately show thesis by (rule that)
qed

text \<open>A revision that the panel delivers at a tick, verified under the trust of the host.\<close>

definition delivered :: "host_env \<Rightarrow> Trust \<Rightarrow> nat \<Rightarrow> PrivilegedRevision \<Rightarrow> bool" where
  "delivered e t n r \<longleftrightarrow> te_delivery e n = Inr (Some r) \<and>
     VerifyRevision (te_ed e) (te_unm e) (te_sha e) (te_revision_body e) (te_now e n) t (Some r) = None"

lemma ask_Inr: "ask answer h = (Inr x, h') \<longleftrightarrow> answer (h_tick h) = Inr x \<and> h' = h\<lparr>h_tick := Suc (h_tick h)\<rparr>"
  by (auto simp: ask_def)

lemma panel_current_Inr:
  "panel_current e t h = (Inr r, h') \<Longrightarrow> delivered e t (h_tick h) r \<and> h_tick h' = Suc (h_tick h)"
  by (auto simp: panel_current_def ask_Inr delivered_def split: sum.splits option.splits)

lemma fail_not_Inr [simp]: "fail msg h \<noteq> (Inr x, h')"
  by (simp add: fail_def)

lemma require_Inr: "require b msg h = (Inr x, h') \<longleftrightarrow> b \<and> h' = h"
  by (auto simp: require_def ret_def)

lemma calm_tick:
  assumes "preserves (calm m) s" and "s h = (r, h')"
  shows "h_tick h \<le> h_tick h'"
  using preservesD [OF assms] by (simp add: calm_def)

lemma script_Inr:
  "script (s # ss) h = (Inr u, h') \<Longrightarrow> (\<And>h1. s h = (Inr (), h1) \<Longrightarrow> script ss h1 = (Inr u, h') \<Longrightarrow> P) \<Longrightarrow> P"
  unfolding script.simps by (erule andThen_Inr) simp

text \<open>The review after the revision is read.\<close>

definition reviewed :: "host_env \<Rightarrow> HostPolicy \<Rightarrow> Trust \<Rightarrow> PrivilegedRevision \<Rightarrow> review step" where
  "reviewed e p t r =
     andThen (observe_service e (ServiceName (te_manifest e))) (\<lambda>ob.
       (case legacyRemoteControlReview p r of (preview, consent) \<Rightarrow>
         (case validateActions preview t r ob of
            Some msg \<Rightarrow> fail msg
          | None \<Rightarrow>
              andThen (if hp_PrivilegeMode p = 2 then lookup_uid e (so_User ob) else ret 0) (\<lambda>previousUID.
              andThen (stateDirectories e) (\<lambda>dirs.
              andThen (working_directory e ob dirs) (\<lambda>wd.
              andThen (capture_bootstrap e ob t) (\<lambda>boot.
                ret \<lparr>rv_Policy = p, rv_Trust = t, rv_Revision = r, rv_Consent = consent,
                  rv_PreviousUID = previousUID, rv_Dirs = dirs, rv_WorkingDir = wd, rv_Bootstrap = boot\<rparr>)))))))"

lemma apply_review_eq:
  "apply_review e revision =
     andThen (rejectPendingSoftwareUpgrade e) (\<lambda>_. andThen (read_policy e) (\<lambda>p. andThen (read_trust e) (\<lambda>t.
     andThen (prepare_journal_dir e) (\<lambda>_. andThen (newPanel e t) (\<lambda>_. andThen (panel_current e t) (\<lambda>r.
       if pr_Revision r \<noteq> revision \<or> pr_State r \<noteq> NEEDS_MANUAL_AUTHORIZATION
       then fail ''requested revision is not the current approved host task''
       else reviewed e p t r))))))"
  unfolding apply_review_def reviewed_def by (rule refl)

lemma review_facts:
  assumes "apply_review e revision h = (Inr v, h')"
  shows "\<exists>n. n < h_tick h' \<and> delivered e (rv_Trust v) n (rv_Revision v) \<and> pr_Revision (rv_Revision v) = revision \<and>
    pr_State (rv_Revision v) = NEEDS_MANUAL_AUTHORIZATION"
proof -
  from assms obtain p t h5 r h6 where c: "panel_current e t h5 = (Inr r, h6)"
      and k: "(if pr_Revision r \<noteq> revision \<or> pr_State r \<noteq> NEEDS_MANUAL_AUTHORIZATION
       then fail ''requested revision is not the current approved host task'' else reviewed e p t r) h6 = (Inr v, h')"
    unfolding apply_review_eq by (elim andThen_Inr) blast
  from k have r: "pr_Revision r = revision" "pr_State r = NEEDS_MANUAL_AUTHORIZATION" and k': "reviewed e p t r h6 = (Inr v, h')"
    by (auto split: if_splits)
  from k' have v: "rv_Trust v = t \<and> rv_Revision v = r"
    unfolding reviewed_def by (auto elim!: andThen_Inr simp: ret_def split: prod.splits option.splits)
  have kept: "preserves (calm m) (reviewed e p t r)" for m
    unfolding reviewed_def
    by (auto intro!: cm.working cm.observation_work cm.reads_work cm.stateDirectories_work split: prod.split option.split)
  have "h_tick h6 \<le> h_tick h'" by (rule calm_tick [OF kept k'])
  with panel_current_Inr [OF c] r v show ?thesis by (intro exI [of _ "h_tick h5"]) auto
qed

lemma authorize_facts:
  assumes "authorize e artifact release v h = (Inr (operator, helper, current), h')" and "apart m e"
  shows "\<exists>n1 n2. h_tick h \<le> n1 \<and> n1 < n2 \<and> n2 < h_tick h' \<and> te_authenticate e n1 = Inr operator \<and>
    delivered e (rv_Trust v) n2 current \<and> pr_Authorization current = pr_Authorization (rv_Revision v) \<and>
    pr_State current = pr_State (rv_Revision v) \<and>
    (rv_Consent v \<longrightarrow> (\<exists>n0 input. h_tick h \<le> n0 \<and> n0 < n1 \<and> te_tty e n0 = Some input \<and>
      readLegacyRemoteControlConsent input (ServiceName (te_manifest e)) (pr_Revision (rv_Revision v))))"
proof -
  let ?r = "rv_Revision v"
  let ?consent = "onlyif (rv_Consent v) (confirmLegacyRemoteControl e (ServiceName (te_manifest e)) (pr_Revision ?r))"
  let ?helper = "if 2 \<in> set (actions_of ?r) then prepareHelper e (rv_Trust v) artifact release (te_version e) else ret ([], [])"
  have w: "work_places (te_manifest e) \<inter> prot m = {}" using apart_work [OF assms(2)] by auto
  let ?guard = "(artifact = []) \<noteq> (release = []) \<or> 2 \<notin> set (actions_of ?r) \<and> (artifact \<noteq> [] \<or> release \<noteq> [])"
  have g: "\<not> ?guard" using assms(1) by (auto simp: authorize_def Let_def split: if_splits)
  from assms(1) have "andThen ?consent (\<lambda>_. andThen (ask (te_authenticate e)) (\<lambda>operator. andThen ?helper (\<lambda>helper.
        andThen (panel_current e (rv_Trust v)) (\<lambda>current.
          if pr_Authorization current \<noteq> pr_Authorization ?r \<or> pr_State current \<noteq> pr_State ?r
          then fail ''approval changed during local authentication'' else ret (operator, helper, current))))) h =
      (Inr (operator, helper, current), h')"
    unfolding authorize_def Let_def if_not_P [OF g] .
  then obtain u h1 who h2 x h3 c h4 where s: "?consent h = (Inr u, h1)" "ask (te_authenticate e) h1 = (Inr who, h2)"
      "?helper h2 = (Inr x, h3)" "panel_current e (rv_Trust v) h3 = (Inr c, h4)"
    and k: "(if pr_Authorization c \<noteq> pr_Authorization ?r \<or> pr_State c \<noteq> pr_State ?r
         then fail ''approval changed during local authentication'' else ret (who, x, c)) h4 = (Inr (operator, helper, current), h')"
    by (elim andThen_Inr)
  have kept: "preserves (calm m) ?consent" "preserves (calm m) ?helper"
    by (auto intro!: cm.working cm.observation_work cm.prepareHelper_work w)
  note le = calm_tick [OF kept(1) s(1)] calm_tick [OF kept(2) s(3)]
  from s(2) have a: "te_authenticate e (h_tick h1) = Inr who" "h_tick h2 = Suc (h_tick h1)" by (auto simp: ask_Inr)
  from k have c: "pr_Authorization c = pr_Authorization ?r" "pr_State c = pr_State ?r" "who = operator" "c = current" "h' = h4"
    by (auto simp: ret_def split: if_splits)
  have consent: "\<exists>input. te_tty e (h_tick h) = Some input \<and> h_tick h < h_tick h1 \<and>
      readLegacyRemoteControlConsent input (ServiceName (te_manifest e)) (pr_Revision ?r)" if "rv_Consent v"
    using s(1) that by (auto simp: onlyif_def confirmLegacyRemoteControl_def ask_Inr split: option.splits if_splits)
  show ?thesis
    using panel_current_Inr [OF s(4)] a c le consent
    by (intro exI [of _ "h_tick h1"] exI [of _ "h_tick h3"]) auto
qed

lemma report_facts:
  assumes "report e t phase detail h = (Inr u, h')"
  shows "\<exists>n rq. h_tick h \<le> n \<and> te_report e n rq = Inr True \<and> rq_Phase rq = phase"
proof -
  let ?make = "andThen (gets h_mem) (\<lambda>j.
         if hj_Receipt j \<noteq> [] then ret ()
         else andThen (gets (te_uuid e \<circ> h_tick)) (\<lambda>receipt.
           encoded (te_encode_report e \<lparr>rq_AgentId = tr_AgentID t, rq_OperationId = hj_ID j, rq_ReceiptId = receipt,
               rq_Phase = phase, rq_Error = detail, rq_LocalAuthentication = pam_text, rq_Operator = hj_Operator j\<rparr>)
             (\<lambda>b. script [mem (hj_Receipt_update (\<lambda>_. b)), save e])))"
  from assms obtain h1 h2 where s: "?make h = (Inr (), h1)"
      and k: "andThen (gets (hj_Receipt \<circ> h_mem)) (\<lambda>b.
         case te_decode_report e b of
           None \<Rightarrow> fail ''receipt''
         | Some rq \<Rightarrow>
             if rq_Phase rq \<noteq> phase
             then fail ''an earlier durable host receipt must be resolved before another phase''
             else andThen (ask (\<lambda>n. te_report e n rq)) (\<lambda>accepted. require accepted ''host receipt rejected'')) h1 = (Inr (), h2)"
    unfolding report_def by (elim script_Inr)
  have kept: "preserves (calm m) ?make" for m
    by (auto simp: encoded_def intro!: cm.working cm.save_work cm.mem_work split: option.split)
  have "h_tick h \<le> h_tick h1" by (rule calm_tick [OF kept s])
  moreover from k have "\<exists>rq. te_report e (h_tick h1) rq = Inr True \<and> rq_Phase rq = phase"
    by (auto elim!: andThen_Inr simp: gets_def ask_Inr require_Inr split: option.splits if_splits) blast
  ultimately show ?thesis by blast
qed

lemma claim_facts:
  assumes "claim e v operator r h = (Inr u, h')"
  shows "\<exists>n oper opid k rq. h_tick h \<le> n \<and> n < k \<and> phase_of oper = 1 \<and> te_report e k rq = Inr True \<and> rq_Phase rq = 2 \<and>
    VerifyOperation (te_ed e) (te_unm e) (te_operation_body e) (te_now e n) (rv_Trust v) oper (pr_Authorization r) opid = None"
proof -
  let ?oper = "te_encode_operation e"
  from assms obtain opid h1 b h2 h3 oper h4 where s: "gets (te_uuid e \<circ> h_tick) h = (Inr opid, h1)"
      "from_option ''marshal'' (te_encode_revision e r) h1 = (Inr b, h2)"
      "script [modify (\<lambda>h. h\<lparr>h_mem := new_journal e v operator opid b\<rparr>), save e] h2 = (Inr (), h3)"
      "ask (\<lambda>n. te_prepare e n \<lparr>pq_AgentId = tr_AgentID (rv_Trust v), pq_OperationId = opid,
         pq_Revision = pr_Revision r, pq_ApprovalGeneration = pr_ApprovalGeneration r, pq_ConfigHash = pr_ConfigHash r,
         pq_Nonce = (case pr_Authorization r of None \<Rightarrow> [] | Some a \<Rightarrow> ha_Nonce a)\<rparr>) h3 = (Inr oper, h4)"
      and k: "script [
       verify_operation e (rv_Trust v) oper (pr_Authorization r) opid,
       require (phase_of oper = 1) ''new operation has unexpected phase'',
       andThen (from_option ''marshal'' (case oper of None \<Rightarrow> None | Some x \<Rightarrow> te_encode_operation e x))
         (\<lambda>ob. mem (hj_Operation_update (\<lambda>_. ob))),
       set_phase e ''prepared'',
       report e (rv_Trust v) 2 []] h4 = (Inr u, h')"
    unfolding claim_def by (elim andThen_Inr) simp
  have kept: "preserves (calm m) (script [modify (\<lambda>h. h\<lparr>h_mem := new_journal e v operator opid b\<rparr>), save e])" for m
    by (auto intro!: cm.working cm.save_work cm.set_mem_work)
  have "h_tick h2 \<le> h_tick h3" by (rule calm_tick [OF kept s(3)])
  with s(1,2,4) have le: "h_tick h \<le> h_tick h4"
    by (auto simp: gets_def from_option_def ask_Inr ret_def split: option.splits)
  from k obtain h5 h6 h7 h8 h9 where
      v: "verify_operation e (rv_Trust v) oper (pr_Authorization r) opid h4 = (Inr (), h5)"
      and p: "require (phase_of oper = 1) ''new operation has unexpected phase'' h5 = (Inr (), h6)"
      and j: "andThen (from_option ''marshal'' (case oper of None \<Rightarrow> None | Some x \<Rightarrow> te_encode_operation e x))
         (\<lambda>ob. mem (hj_Operation_update (\<lambda>_. ob))) h6 = (Inr (), h7)" "set_phase e ''prepared'' h7 = (Inr (), h8)"
      and rep: "report e (rv_Trust v) 2 [] h8 = (Inr (), h9)"
    by (elim script_Inr)
  have kept': "preserves (calm m) (andThen (from_option ''marshal'' (case oper of None \<Rightarrow> None | Some x \<Rightarrow> te_encode_operation e x))
         (\<lambda>ob. mem (hj_Operation_update (\<lambda>_. ob))))" "preserves (calm m) (set_phase e ''prepared'')" for m
    unfolding set_phase_def by (auto intro!: cm.working cm.save_work cm.mem_work)
  have "h_tick h6 \<le> h_tick h8"
    using calm_tick [OF kept'(1) j(1)] calm_tick [OF kept'(2) j(2)] by simp
  with v p have v': "VerifyOperation (te_ed e) (te_unm e) (te_operation_body e) (te_now e (h_tick h4)) (rv_Trust v) oper
      (pr_Authorization r) opid = None" "phase_of oper = 1" "h_tick h4 < h_tick h8"
    by (auto simp: verify_operation_def ask_Inr require_Inr split: option.splits)
  from report_facts [OF rep] obtain n rq where "h_tick h8 \<le> n" "te_report e n rq = Inr True" "rq_Phase rq = 2" by blast
  with v' le show ?thesis by (metis (full_types) less_le_trans)
qed

text \<open>
  C2: No change without authorization. An apply gives no command to systemd and leaves every protected file alone
  unless, in this order, the panel delivered a verified revision of the requested number that needs manual
  authorization, the local administrator authenticated, the panel delivered a revision with the same
  authorization and state once more, its operation passed verification in the first phase, and the panel accepted the
  receipt of the phase "applying".
\<close>

theorem change_needs_authorization:
  assumes "apart m e"
  shows "let h' = command (apply_manifest e revision artifact release) h in
    (\<forall>p \<in> prot m. h_files h' p = h_files h p) \<and> h_calls h' = h_calls h \<or>
    (\<exists>n1 n2 n3 n4 n5 t r operator current oper opid rq. n1 < n2 \<and> n2 < n3 \<and> n3 < n4 \<and> n4 < n5 \<and>
      delivered e t n1 r \<and> pr_Revision r = revision \<and> pr_State r = NEEDS_MANUAL_AUTHORIZATION \<and>
      te_authenticate e n2 = Inr operator \<and>
      delivered e t n3 current \<and> pr_Authorization current = pr_Authorization r \<and> pr_State current = pr_State r \<and>
      VerifyOperation (te_ed e) (te_unm e) (te_operation_body e) (te_now e n4) t oper (pr_Authorization current) opid = None \<and>
      phase_of oper = 1 \<and> te_report e n5 rq = Inr True \<and> rq_Phase rq = 2)"
proof -
  let ?h = "h\<lparr>h_mem := no_journal\<rparr>"
  let ?same = "\<lambda>h'. (\<forall>p \<in> prot m. h_files h' p = h_files h p) \<and> h_calls h' = h_calls h"
  have w: "work_places (te_manifest e) \<inter> prot m = {}" "journalDir (te_manifest e) \<notin> prot m"
    using apart_work [OF assms] by auto
  have same: "?same h'" if "calm m ?h h'" for h' using that by (simp add: calm_def)
  obtain rv h1 where 1: "apply_review e revision ?h = (rv, h1)" by force
  have c1: "calm m ?h h1" by (rule preservesD [OF cm.review_work [OF w] 1])
  show ?thesis
  proof (cases rv)
    case (Inl err)
    with 1 same [OF c1] show ?thesis by (simp add: Let_def command_def apply_manifest_def andThen_def)
  next
    case (Inr v)
    obtain ra h2 where 2: "authorize e artifact release v h1 = (ra, h2)" by force
    have c2: "calm m ?h h2" by (rule cm.R_trans [OF c1 preservesD [OF cm.authorize_work [OF w(1)] 2]])
    show ?thesis
    proof (cases ra)
      case (Inl err)
      with 1 2 Inr same [OF c2] show ?thesis by (simp add: Let_def command_def apply_manifest_def andThen_def)
    next
      case a: (Inr x)
      obtain operator helper current where x: "x = (operator, helper, current)" by (cases x) auto
      obtain rc h3 where 3: "claim e v operator current h2 = (rc, h3)" by force
      have c3: "calm m ?h h3" by (rule cm.R_trans [OF c2 preservesD [OF cm.claim_work 3]])
      show ?thesis
      proof (cases rc)
        case (Inl err)
        with 1 2 3 Inr a x same [OF c3] show ?thesis by (simp add: Let_def command_def apply_manifest_def andThen_def)
      next
        case c: (Inr u)
        obtain n1 where n1: "n1 < h_tick h1" "delivered e (rv_Trust v) n1 (rv_Revision v)" "pr_Revision (rv_Revision v) = revision"
          "pr_State (rv_Revision v) = NEEDS_MANUAL_AUTHORIZATION" using review_facts [OF 1 [unfolded Inr]] by blast
        obtain n2 n3 where n2: "h_tick h1 \<le> n2" "n2 < n3" "n3 < h_tick h2" "te_authenticate e n2 = Inr operator"
          "delivered e (rv_Trust v) n3 current" "pr_Authorization current = pr_Authorization (rv_Revision v)"
          "pr_State current = pr_State (rv_Revision v)" using authorize_facts [OF 2 [unfolded a x] assms] by blast
        obtain n4 oper opid n5 rq where n4: "h_tick h2 \<le> n4" "n4 < n5" "phase_of oper = 1" "te_report e n5 rq = Inr True"
          "rq_Phase rq = 2" "VerifyOperation (te_ed e) (te_unm e) (te_operation_body e) (te_now e n4) (rv_Trust v) oper
            (pr_Authorization current) opid = None" using claim_facts [OF 3 [unfolded c]] by blast
        have "n1 < n2" "n3 < n4" using n1(1) n2(1,3) n4(1) by simp_all
        with n1(2-4) n2(2,4-7) n4(2-6) show ?thesis unfolding Let_def by blast
      qed
    qed
  qed
qed

theorem change_needs_authorization_witness:
  "apart sample_installation (sample_env 9) \<and>
    map (h_files (command (apply_manifest (sample_env 9) 5 [] []) sample_clean)) (protected_files sample_installation) =
      map (h_files sample_clean) (protected_files sample_installation)"
proof -
  have "\<not> delivered (sample_env 9) t n r" for t n r
    by (simp add: delivered_def sample_env_def)
  with change_needs_authorization [OF sample_apart [of 9], of 5 "[]" "[]" sample_clean] show ?thesis
    by (auto simp: sample_apart Let_def prot_def)
qed

section \<open>Programs\<close>

text \<open>A program that the publisher signed, by the verification of the release at some moment of the run.\<close>

definition released :: "host_env \<Rightarrow> Trust \<Rightarrow> bytes \<Rightarrow> ReleasePayload \<Rightarrow> bool" where
  "released e t b payload \<longleftrightarrow>
     (\<exists>n sm. VerifyRelease (te_ed e) (te_decode_payload e) (te_encode_payload e) (te_sha e) (te_os e) (te_arch e)
        (te_now e n) t sm b = Inr payload)"

lemma verify_release_Inr: "verify_release e t sm b h = (Inr payload, h') \<Longrightarrow> released e t b payload"
  unfolding released_def by (intro exI [of _ "h_tick h"] exI [of _ sm]) (auto simp: verify_release_def ask_Inr split: sum.splits)

lemma readHelper_facts:
  assumes "readHelper e t artifact release h = (Inr (b, payload), h')"
  shows "elf b \<and> released e t b payload"
  using assms unfolding readHelper_def Let_def
  by (auto elim!: andThen_Inr dest!: verify_release_Inr simp: gets_def raise_def ret_def split: sum.splits option.splits if_splits)

lemma downloadHelper_facts:
  assumes "downloadHelper e t version h = (Inr (b, sm, payload), h')"
  shows "elf b \<and> rp_Version payload = version \<and> validateReleaseTag version \<and>
    released e t b payload"
  using assms unfolding downloadHelper_def
  by (auto elim!: andThen_Inr dest!: verify_release_Inr simp: ret_def split: option.splits if_splits)

lemma cacheHelper_facts:
  assumes "cacheHelper e t version h = (Inr (b, payload), h')"
  shows "elf b \<and> rp_Version payload = version \<and>
    released e t b payload"
proof -
  from assms obtain x h1 where d: "downloadHelper e t version h = (Inr x, h1)"
    and k: "(case x of (binary, sm, payload) \<Rightarrow> let p = helperCache (te_manifest e) in
        andThen (script [ensureTrustedDir e (Dir p), write_file e p binary 384,
            write_json e (p @ ''.release.json'') (te_encode_signed e sm) 420])
          (\<lambda>_. ret (binary, payload))) h1 = (Inr (b, payload), h')"
    unfolding cacheHelper_def by (rule andThen_Inr)
  obtain b' sm p' where x: "x = (b', sm, p')" by (rule prod_cases3)
  from k have "b' = b" "p' = payload" unfolding x Let_def split_conv by (auto elim!: andThen_Inr simp: ret_def)
  with downloadHelper_facts [OF d [unfolded x]] show ?thesis by blast
qed

text \<open>
  C10: The rescue program that is installed is an ELF file for which a release manifest passed verification under
  the pinned release keys, and its version is the one named by the signature; without a staged artifact it is
  exactly the requested release, from the cache or from the publisher.
\<close>

theorem helper_is_signed:
  "case fst (prepareHelper e t artifact release version h) of
     Inl _ \<Rightarrow> True
   | Inr (b, v) \<Rightarrow> elf b \<and> (if artifact = [] then v = version else True) \<and>
       (\<exists>payload. v = rp_Version payload \<and> released e t b payload)"
proof (cases "prepareHelper e t artifact release version h")
  case (Pair r h')
  show ?thesis
  proof (cases r)
    case (Inr x)
    obtain b v where x: "x = (b, v)" by force
    note p = Pair [unfolded Inr x]
    show ?thesis
    proof (cases "artifact = []")
      case False
      from p False obtain y h1 where r: "readHelper e t artifact release h = (Inr y, h1)"
        and k: "(case y of (binary, payload) \<Rightarrow> ret (binary, rp_Version payload)) h1 = (Inr (b, v), h')"
        unfolding prepareHelper_def by (auto elim!: andThen_Inr)
      obtain b' pl where y: "y = (b', pl)" by force
      from k have "b' = b" "rp_Version pl = v" by (simp_all add: y ret_def)
      with readHelper_facts [OF r [unfolded y]] False show ?thesis
        by (auto simp: Pair Inr x)
    next
      case True
      let ?fetch = "andThen (cacheHelper e t version) (\<lambda>(binary, payload). ret (binary, rp_Version payload))"
      have fetch: "elf b \<and> (\<exists>payload. v = version \<and> v = rp_Version payload \<and> released e t b payload)" if "?fetch h1 = (Inr (b, v), h')" for h1
      proof -
        from that obtain y h2 where r: "cacheHelper e t version h1 = (Inr y, h2)"
          and k: "(case y of (binary, payload) \<Rightarrow> ret (binary, rp_Version payload)) h2 = (Inr (b, v), h')"
          by (rule andThen_Inr)
        obtain b' pl where y: "y = (b', pl)" by force
        from k have "b' = b" "rp_Version pl = v" by (simp_all add: y ret_def)
        with cacheHelper_facts [OF r [unfolded y]] show ?thesis by auto
      qed
      let ?p = "helperCache (te_manifest e)"
      obtain rr h1 where rd: "readHelper e t ?p (?p @ ''.release.json'') h = (rr, h1)" by force
      have "validateReleaseTag version" using p True by (auto simp: prepareHelper_def split: if_splits)
      with p True rd have "(case rr of
            Inr (binary, payload) \<Rightarrow>
              if rp_Version payload = version then (Inr (binary, rp_Version payload), h1) else ?fetch h1
          | Inl err \<Rightarrow> if err \<noteq> missing_file then (Inl (local_error ''invalid rescue cache''), h1) else ?fetch h1) = (Inr (b, v), h')"
        by (simp add: prepareHelper_def Let_def split: sum.splits prod.splits)
      then consider "?fetch h1 = (Inr (b, v), h')" | pl where "rr = Inr (b, pl)" "rp_Version pl = version" "v = version"
        by (auto split: sum.splits prod.splits if_splits)
      then show ?thesis
      proof cases
        case 1
        with fetch show ?thesis by (auto simp: Pair Inr x)
      next
        case 2
        with readHelper_facts [of e t ?p "?p @ ''.release.json''" h b pl h1] rd show ?thesis by (auto simp: Pair Inr x)
      qed
    qed
  qed (simp add: Pair)
qed

section \<open>Validation and ownership\<close>

lemma validateActions_None:
  "validateActions p t r ob = None \<longleftrightarrow>
     (let settings = settingsFromProto (pr_Privileged r); acts = set (actions_of r);
          actual = (if so_User ob \<in> {[], ''root''} then 1 else 2)
      in target_mode r \<in> {1, 2} \<and> actual = hp_PrivilegeMode p \<and> actions_of r \<noteq> [] \<and> tr_ServiceUser t \<noteq> ''root'' \<and>
        (1 \<in> acts \<longleftrightarrow> actual \<noteq> target_mode r) \<and>
        (2 \<in> acts \<longleftrightarrow> RescueHelperEnabled settings \<and> \<not> HelperInstalled p) \<and>
        (3 \<in> acts \<longleftrightarrow> \<not> RescueHelperEnabled settings \<and> HelperInstalled p) \<and>
        (if 2 \<in> acts then ReleaseKeys t \<noteq> [] else True) \<and>
        (if RemoteControlEnabled settings then \<not> ForceDenyRemoteControl p \<and> AllowRemoteControl p else True) \<and>
        (if WebSSHEnabled settings then AllowWebSSH p else True) \<and>
        (if ExecutionEnabled settings then AllowExecution p else True) \<and> (if EnableGPU settings then AllowGPU p else True) \<and>
        (if RescueHelperEnabled settings then \<not> ForceDenyRescueHelper p \<and> (AllowRescueHelper p \<or> 2 \<in> acts) else True))"
  unfolding validateActions_def Let_def by (simp add: ceilings_empty)

text \<open>The policy that the transaction starts from: the one that was reviewed, but for where its denial came from.\<close>

lemma consented_policy_reviewed:
  assumes "legacyRemoteControlReview p r = (preview, hj_LegacyRemoteControlConsent (h_mem h))" "consented_policy p r h = (Inr q, h')"
  shows "q\<lparr>DisableSource := x\<rparr> = preview\<lparr>DisableSource := x\<rparr> \<and> h' = h"
  using assms
  by (auto simp: consented_policy_def andThen_def gets_def ret_def fail_def legacyRemoteControlReview_def Let_def split: if_splits option.splits)

text \<open>Settings that the policy names as its own target and allows are in force as they are.\<close>

lemma Inspect_own_target:
  assumes "PolicyAllows s (Some p)" "HostSettings p = Some s" "Privileged.Effective st = s"
    and "fl_DisableRemoteControl config \<longrightarrow> \<not> RemoteControlEnabled s"
  shows "ec_Privileged (Inspect scaled config (Some (Some p)) rt (Some st)) =
    s\<lparr>WebSSHEnabled := RemoteControlEnabled s \<and> WebSSHEnabled s, ExecutionEnabled := RemoteControlEnabled s \<and> ExecutionEnabled s\<rparr>"
proof -
  have "identity_check p s = s" using assms(1) by (simp add: identity_check_def PolicyAllows_def)
  moreover have "restrict_policy p s = s" using assms(1) by (cases s) (auto simp: restrict_policy_def PolicyAllows_def)
  moreover have "host_ceiling (Some st) p s = s" using assms(2) by (cases s) (simp add: host_ceiling_def restrict_target_def)
  ultimately have "ec_Privileged (local_policy (Some (Some p)) (Some st) (raw_config raw (Some st))) = s" for raw
    using assms(3) by (simp add: local_policy_def apply_policy_Privileged raw_config_def Let_def)
  then show ?thesis using assms(4) by (cases s) (auto simp: Inspect_def couple_Privileged flag_deny_def Let_def)
qed

text \<open>
  C34: What the administrator accepts takes effect, and is what the actions said. When the actions of an approved revision
  pass the review of the host tool (against the policy, or the policy without its historical denial if that is to be
  consented to), then the policy that the transaction writes differs from the old one exactly as the
  actions said: in the identity when they change it, in the helper when they install or remove it. This policy allows
  everything the revision asks for, and an agent that runs under the target identity with the bootstrap the transaction
  wrote and the settings of the revision applied has exactly these settings in force (WebSSH and
  execution with remote control only): no ceiling, no transition target and no local denial takes any of them
  away. That the target identity is the one of the settings is part of the checks of a revision (C17).
\<close>

theorem accepted_change_takes_effect:
  assumes review: "legacyRemoteControlReview p r = (preview, consent)" "validateActions preview t r ob = None"
    and target: "target_mode r = RequiredPrivilegeMode (settingsFromProto (pr_Privileged r))"
    and run: "hj_LegacyRemoteControlConsent (h_mem h) = consent" "consented_policy p r h = (Inr q, h')"
    and agent: "Privileged.Effective st = settingsFromProto (pr_Privileged r)"
      "fl_DisableRemoteControl config = bo_DisableRemoteControl (applied_bootstrap m t (applied_policy q r) boot)"
  shows "let s = settingsFromProto (pr_Privileged r); policy = applied_policy q r in
    (1 \<in> set (actions_of r) \<longleftrightarrow> hp_PrivilegeMode policy \<noteq> hp_PrivilegeMode p) \<and>
    (2 \<in> set (actions_of r) \<longleftrightarrow> HelperInstalled policy \<and> \<not> HelperInstalled p) \<and>
    (3 \<in> set (actions_of r) \<longleftrightarrow> \<not> HelperInstalled policy \<and> HelperInstalled p) \<and> PolicyAllows s (Some policy) \<and>
    ec_Privileged (EffectiveForMode (Inspect scaled config (Some (Some policy)) rt (Some st)) (target_mode r)) =
      s\<lparr>WebSSHEnabled := RemoteControlEnabled s \<and> WebSSHEnabled s, ExecutionEnabled := RemoteControlEnabled s \<and> ExecutionEnabled s\<rparr>"
proof -
  define s where "s = settingsFromProto (pr_Privileged r)"
  note V = review(2) [unfolded validateActions_None Let_def s_def [symmetric]]
  have q: "q\<lparr>DisableSource := []\<rparr> = preview\<lparr>DisableSource := []\<rparr>"
    using consented_policy_reviewed [OF _ run(2)] review(1) run(1) by simp
  from arg_cong [OF q, of hp_PrivilegeMode] arg_cong [OF q, of HelperInstalled] arg_cong [OF q, of ForceDenyRemoteControl]
    arg_cong [OF q, of AllowRemoteControl] arg_cong [OF q, of AllowWebSSH] arg_cong [OF q, of AllowExecution]
    arg_cong [OF q, of AllowGPU] arg_cong [OF q, of AllowRescueHelper] arg_cong [OF q, of ForceDenyRescueHelper]
  have same: "hp_PrivilegeMode q = hp_PrivilegeMode preview" "HelperInstalled q = HelperInstalled preview"
    "ForceDenyRemoteControl q = ForceDenyRemoteControl preview" "AllowRemoteControl q = AllowRemoteControl preview"
    "AllowWebSSH q = AllowWebSSH preview" "AllowExecution q = AllowExecution preview" "AllowGPU q = AllowGPU preview"
    "AllowRescueHelper q = AllowRescueHelper preview" "ForceDenyRescueHelper q = ForceDenyRescueHelper preview" by simp_all
  have old: "hp_PrivilegeMode preview = hp_PrivilegeMode p" "HelperInstalled preview = HelperInstalled p"
    using review(1) by (auto simp: legacyRemoteControlReview_def Let_def split: if_splits)
  have allows: "PolicyAllows s (Some (applied_policy q r))"
    using V same by (auto simp: PolicyAllows_def applied_policy_def Let_def s_def [symmetric] split: if_splits)
  have "ec_Privileged (Inspect scaled config (Some (Some (applied_policy q r))) rt (Some st)) =
    s\<lparr>WebSSHEnabled := RemoteControlEnabled s \<and> WebSSHEnabled s, ExecutionEnabled := RemoteControlEnabled s \<and> ExecutionEnabled s\<rparr>"
  proof (rule Inspect_own_target [OF allows])
    show "HostSettings (applied_policy q r) = Some s" by (simp add: applied_policy_def Let_def s_def)
    show "fl_DisableRemoteControl config \<longrightarrow> \<not> RemoteControlEnabled s"
      using V same agent(2) by (auto simp: applied_bootstrap_def applied_policy_def Let_def split: if_splits)
  qed (use agent(1) in \<open>simp add: s_def\<close>)
  then have e: "ec_Privileged (EffectiveForMode (Inspect scaled config (Some (Some (applied_policy q r))) rt (Some st)) (target_mode r)) =
    s\<lparr>WebSSHEnabled := RemoteControlEnabled s \<and> WebSSHEnabled s, ExecutionEnabled := RemoteControlEnabled s \<and> ExecutionEnabled s\<rparr>"
    using target by (simp add: EffectiveForMode_def s_def [symmetric])
  have "hp_PrivilegeMode (applied_policy q r) = target_mode r" "HelperInstalled (applied_policy q r) = RescueHelperEnabled s"
    using target by (simp_all add: applied_policy_def Let_def s_def)
  then have "(1 \<in> set (actions_of r) \<longleftrightarrow> hp_PrivilegeMode (applied_policy q r) \<noteq> hp_PrivilegeMode p) \<and>
    (2 \<in> set (actions_of r) \<longleftrightarrow> HelperInstalled (applied_policy q r) \<and> \<not> HelperInstalled p) \<and>
    (3 \<in> set (actions_of r) \<longleftrightarrow> \<not> HelperInstalled (applied_policy q r) \<and> HelperInstalled p)"
    using V unfolding old by metis
  with allows e show ?thesis unfolding Let_def s_def [symmetric] by blast
qed

text \<open>A machine installed long ago denies remote control; its administrator consents to release that, and drops root.\<close>

definition legacy_policy :: HostPolicy where
  "legacy_policy = sample_policy\<lparr>hp_PrivilegeMode := 1, ForceDenyRemoteControl := True, DisableSource := ''legacy-unknown-preserve''\<rparr>"

definition wanted_settings :: Settings where
  "wanted_settings = Settings_zero\<lparr>RequiredPrivilegeMode := 2, RemoteControlEnabled := True, WebSSHEnabled := True\<rparr>"

definition drop_root :: PrivilegedRevision where
  "drop_root = sample_revision\<lparr>pr_Privileged := Some (Settings_Proto wanted_settings),
     pr_Authorization := Some (sample_authorization\<lparr>ha_Actions := [1]\<rparr>)\<rparr>"

lemma accepted_change_takes_effect_witness:
  "\<exists>q h'. consented_policy legacy_policy drop_root (sample_clean\<lparr>h_mem := (h_mem sample_clean)\<lparr>hj_LegacyRemoteControlConsent := True\<rparr>\<rparr>) = (Inr q, h') \<and>
     \<not> PolicyAllows wanted_settings (Some legacy_policy) \<and>
     ec_Privileged (EffectiveForMode (Inspect 0 sample_flags (Some (Some (applied_policy q drop_root))) None
       (Some (State_zero\<lparr>AppliedRevision := 3, Active := wanted_settings\<rparr>))) 2) = wanted_settings"
proof -
  let ?h = "sample_clean\<lparr>h_mem := (h_mem sample_clean)\<lparr>hj_LegacyRemoteControlConsent := True\<rparr>\<rparr>"
  let ?preview = "legacy_policy\<lparr>ForceDenyRemoteControl := False\<rparr>"
  have s: "settingsFromProto (pr_Privileged drop_root) = wanted_settings"
    by (simp add: drop_root_def sample_revision_def settingsFromProto_def Settings_Proto_def wanted_settings_def Settings_zero_def get_bool_def)
  have r: "legacyRemoteControlReview legacy_policy drop_root = (?preview, True)"
    by (simp add: legacyRemoteControlReview_def legacy_policy_def sample_policy_def drop_root_def sample_revision_def Settings_Proto_def
        wanted_settings_def Settings_zero_def get_bool_def)
  have acts: "actions_of drop_root = [1]" "target_mode drop_root = 2"
    by (simp_all add: actions_of_def target_mode_def drop_root_def sample_revision_def sample_authorization_def)
  have v: "validateActions ?preview sample_trust drop_root no_observation = None"
    by (simp add: validateActions_None s acts Let_def no_observation_def)
      (simp add: legacy_policy_def sample_policy_def sample_trust_def wanted_settings_def Settings_zero_def)
  obtain q h' where c: "consented_policy legacy_policy drop_root ?h = (Inr q, h')"
    using r by (simp add: consented_policy_def andThen_def gets_def ret_def)
  then have f: "ForceDenyRemoteControl q = False"
    using r by (auto simp: consented_policy_def andThen_def gets_def ret_def)
  have a: "Privileged.Effective (State_zero\<lparr>AppliedRevision := 3, Active := wanted_settings\<rparr>) = settingsFromProto (pr_Privileged drop_root)"
    "fl_DisableRemoteControl sample_flags = bo_DisableRemoteControl (applied_bootstrap sample_installation sample_trust (applied_policy q drop_root) b)" for b
    by (simp add: s Privileged.Effective_def State_zero_def)
      (simp add: sample_flags_def applied_bootstrap_def applied_policy_def Let_def f)
  have m: "target_mode drop_root = RequiredPrivilegeMode (settingsFromProto (pr_Privileged drop_root))"
    by (simp add: s acts wanted_settings_def Settings_zero_def)
  have "\<not> PolicyAllows wanted_settings (Some legacy_policy)"
    by (simp add: PolicyAllows_def wanted_settings_def Settings_zero_def legacy_policy_def sample_policy_def)
  moreover have "wanted_settings\<lparr>WebSSHEnabled := RemoteControlEnabled wanted_settings \<and> WebSSHEnabled wanted_settings,
      ExecutionEnabled := RemoteControlEnabled wanted_settings \<and> ExecutionEnabled wanted_settings\<rparr> = wanted_settings"
    by (simp add: wanted_settings_def Settings_zero_def)
  ultimately show ?thesis
    using accepted_change_takes_effect [OF r v m _ c a, of 0 None] c by (simp add: Let_def s acts)
qed

text \<open>The attributes that an entry records.\<close>

definition owned_as :: "ownership \<Rightarrow> inode \<Rightarrow> bool" where
  "owned_as en n \<longleftrightarrow> nd_uid n = (if ow_UID en = -1 then nd_uid n else ow_UID en mod 2 ^ 32) \<and>
     nd_gid n = (if ow_GID en = -1 then nd_gid n else ow_GID en mod 2 ^ 32) \<and> nd_mode n = ow_Mode en"

lemma change_entry_other:
  assumes "ow_Path en \<noteq> p"
  shows "h_files (snd (change_entry e uid gid original en h)) p = h_files h p"
proof -
  have r: "host_relation (\<lambda>h h'. h_files h' p = h_files h p)" by unfold_locales simp_all
  have "preserves (\<lambda>h h'. h_files h' p = h_files h p) (change_entry e uid gid original en)"
    unfolding change_entry_def chown_def chmod_def using assms
    by (auto intro!: host_relation.basics_kept [OF r] host_relation.andThen_kept [OF r] host_relation.script_kept [OF r]
        host_relation.call_kept [OF r] simp: change_def split: option.split)
  then show ?thesis by (simp add: preserves_def)
qed

lemma change_entry_restores:
  assumes "change_entry e uid gid True en h = (Inr u, h')"
  shows "\<forall>n. h_files h' (ow_Path en) = Some n \<longrightarrow> owned_as en n"
  using assms
  by (auto simp: change_entry_def andThen_def gets_def probe_def call_def Let_def script.simps chown_def chmod_def change_def
      ret_def owned_as_def chown_id_def split: option.splits sum.splits outcome.splits if_splits prod.splits)

text \<open>
  C35: A restoration of the state files that succeeds gives every file that still exists the owner, the group and the
  mode that its entry recorded.
\<close>

theorem ownership_restored:
  assumes "changeOwnership e es uid gid True h = (Inr u, h')" and "distinct (map ow_Path es)" and "en \<in> set es"
    and "h_files h' (ow_Path en) = Some n"
  shows "owned_as en n"
proof -
  have "en \<in> set es \<Longrightarrow> script (map (change_entry e uid gid True) es) h = (Inr u, h') \<Longrightarrow> distinct (map ow_Path es) \<Longrightarrow>
      h_files h' (ow_Path en) = Some n \<Longrightarrow> owned_as en n" for es h
  proof (induction es arbitrary: h)
    case (Cons x es)
    from Cons.prems(2) obtain h1 where s: "change_entry e uid gid True x h = (Inr (), h1)"
        "script (map (change_entry e uid gid True) es) h1 = (Inr u, h')"
      by (auto elim!: script_Inr)
    show ?case
    proof (cases "en \<in> set es")
      case True
      with Cons s show ?thesis by simp
    next
      case False
      then have x: "x = en" using Cons.prems(1) by simp
      have rest: "h_files h' p = h_files h1 p" if "p \<notin> ow_Path ` set es" for p
        using s(2) that
      proof (induction es arbitrary: h1)
        case Nil
        then show ?case by (simp add: script.simps ret_def)
      next
        case (Cons y ys)
        from Cons.prems(1) obtain h2 where t: "change_entry e uid gid True y h1 = (Inr (), h2)"
            "script (map (change_entry e uid gid True) ys) h2 = (Inr u, h')"
          by (auto elim!: script_Inr)
        have "h_files h2 p = h_files h1 p" using change_entry_other [of y p e uid gid True h1] Cons.prems(2) t(1) by auto
        moreover have "h_files h' p = h_files h2 p" using Cons.prems(2) by (intro Cons.IH [OF t(2)]) simp
        ultimately show ?case by simp
      qed
      have "ow_Path en \<notin> ow_Path ` set es" using Cons.prems(3) x by simp
      with rest change_entry_restores [OF s(1)] Cons.prems(4) show ?thesis unfolding x by simp
    qed
  qed simp
  from this [of "rev es" h] assms show ?thesis by (simp add: changeOwnership_def rev_map [symmetric])
qed

theorem ownership_restored_witness:
  "let f = (root_file (Some ''{}'') 384)\<lparr>nd_uid := 1000\<rparr>;
       h = sample_host\<lparr>h_files := [''/s/k/c.json'' \<mapsto> root_file (Some ''{}'') 256, ''/s/k/n.json'' \<mapsto> root_file None 256]\<rparr>;
       es = [\<lparr>ow_Path = ''/s/k/c.json'', ow_UID = 1000, ow_GID = 1000, ow_Mode = 384\<rparr>,
         \<lparr>ow_Path = ''/s/k/n.json'', ow_UID = 1000, ow_GID = 1000, ow_Mode = 384\<rparr>];
       h' = snd (changeOwnership (sample_env 40) es 0 0 True h)
   in case h_files h' ''/s/k/c.json'' of None \<Rightarrow> False | Some n \<Rightarrow> owned_as (es ! 0) n"
proof -
  let ?h = "sample_host\<lparr>h_files := [''/s/k/c.json'' \<mapsto> root_file (Some ''{}'') 256, ''/s/k/n.json'' \<mapsto> root_file None 256]\<rparr>"
  let ?es = "[\<lparr>ow_Path = ''/s/k/c.json'', ow_UID = 1000, ow_GID = 1000, ow_Mode = 384\<rparr>,
         \<lparr>ow_Path = ''/s/k/n.json'', ow_UID = 1000, ow_GID = 1000, ow_Mode = 384\<rparr>]"
  obtain r h' where c: "changeOwnership (sample_env 40) ?es 0 0 True ?h = (r, h')" by force
  have "r = Inr () \<and> h_files h' ''/s/k/c.json'' \<noteq> None"
    using c by (auto simp: changeOwnership_def change_entry_def script.simps andThen_def probe_def call_def gets_def Let_def
        sample_env_def sample_host_def root_file_def chown_def chmod_def change_def ret_def)
  then obtain n where n: "h_files h' ''/s/k/c.json'' = Some n" and r: "r = Inr ()" by auto
  have "owned_as (?es ! 0) n"
    by (rule ownership_restored [OF c [unfolded r]]) (simp_all add: n)
  with c n show ?thesis by (simp add: Let_def)
qed

end
