(* ===== verification/FileUpload.thy ===== *)
theory FileUpload
  imports Filepath "HOL-Library.Signed_Division" "HOL-Library.Sublist"
begin

text \<open>
  The upload of a file in chunks (\<open>files/stream.go\<close> and the upload operations of \<open>files/ops.go\<close>). The streams
  of an upload write their chunks concurrently at their offsets of a part file; a commit renames it over
  the target. The calls are split at their locks and system calls into events, and a history is any sequence of
  events, so that streams, commits and cancellations interleave as the goroutines do. The files are
  inodes reached by names, so that a stream goes on writing into a file that was renamed.
\<close>

section \<open>Arguments\<close>

text \<open>A JSON value of a request; of a number, the conversion to \<open>int64\<close> matters.\<close>

datatype argument = AString string | ABool bool | ANumber int | AOther

type_synonym arguments = "string \<rightharpoonup> argument"

definition argString :: "arguments \<Rightarrow> string \<Rightarrow> string" where
  "argString args key = (case args key of Some (AString s) \<Rightarrow> s | _ \<Rightarrow> [])"

definition argBool :: "arguments \<Rightarrow> string \<Rightarrow> bool" where
  "argBool args key = (case args key of Some (ABool b) \<Rightarrow> b | _ \<Rightarrow> False)"

definition argInt64 :: "arguments \<Rightarrow> string \<Rightarrow> int" where
  "argInt64 args key = (case args key of Some (ANumber n) \<Rightarrow> int64 n | _ \<Rightarrow> 0)"

text \<open>\<open>home\<close> is the answer of \<open>os.UserHomeDir\<close>; \<open>resolveOSPath\<close> is the identity on Unix.\<close>

definition resolveFilePath :: "string option \<Rightarrow> string \<Rightarrow> path" where
  "resolveFilePath home p =
     (let trimmed = (if TrimSpace p = [] then ''/'' else TrimSpace p);
          tilde = (trimmed = ''~'' \<or> starts_with ''~/'' trimmed \<or> starts_with [CHR ''~'', CHR 0x5C] trimmed)
      in case home of
           Some h \<Rightarrow>
             if tilde \<and> h \<noteq> [] then (if trimmed = ''~'' then h else Join [h, drop 2 trimmed]) else Clean trimmed
         | None \<Rightarrow> Clean trimmed)"

definition samePath :: "path \<Rightarrow> path \<Rightarrow> bool" where
  "samePath a b \<longleftrightarrow> Clean a = Clean b"

section \<open>Chunks\<close>

definition defaultTransferChunkSize :: int where
  "defaultTransferChunkSize = 25 * 1024 * 1024"

definition maxTransferChunkSize :: int where
  "maxTransferChunkSize = 128 * 1024 * 1024"

definition uploadCancelTombstoneTTL :: duration where
  "uploadCancelTombstoneTTL = 15 * minute"

record uploadStreamSpec =
  sp_Path :: path
  sp_UploadID :: string
  sp_Offset :: int
  sp_ChunkIndex :: int
  sp_ChunkCount :: int
  sp_TotalSize :: int
  sp_ChunkSize :: int
  sp_Expected :: int
  sp_First :: bool

definition uploadChunkCount :: "int \<Rightarrow> int \<Rightarrow> int" where
  "uploadChunkCount amount chunkSize =
     (if amount \<le> 0 \<or> chunkSize \<le> 0 then 0 else int64 (amount + chunkSize - 1) sdiv chunkSize)"

definition chunk_size :: "arguments \<Rightarrow> int" where
  "chunk_size args = (if argInt64 args ''chunk_size'' = 0 then defaultTransferChunkSize else argInt64 args ''chunk_size'')"

definition parseUploadStreamSpec :: "string option \<Rightarrow> arguments \<Rightarrow> string + uploadStreamSpec" where
  "parseUploadStreamSpec home args =
     (let sp = \<lparr>sp_Path = resolveFilePath home (argString args ''path''), sp_UploadID = TrimSpace (argString args ''upload_id''),
            sp_Offset = argInt64 args ''offset'', sp_ChunkIndex = argInt64 args ''chunk_index'',
            sp_ChunkCount = argInt64 args ''chunk_count'', sp_TotalSize = argInt64 args ''total_size'',
            sp_ChunkSize = chunk_size args, sp_Expected = 0, sp_First = argBool args ''first''\<rparr>;
          expected = min (sp_ChunkSize sp) (int64 (sp_TotalSize sp - sp_Offset sp))
      in if sp_UploadID sp = [] then Inl ''upload_id is required''
         else if sp_Path sp = ''/'' \<or> sp_Path sp = ''.'' then Inl ''upload path must be a file''
         else if sp_Offset sp < 0 \<or> sp_ChunkCount sp \<le> 0 \<or> sp_TotalSize sp \<le> 0 then Inl ''invalid upload stream metadata''
         else if sp_ChunkSize sp \<le> 0 \<or> sp_ChunkSize sp > maxTransferChunkSize then Inl ''chunk_size out of range''
         else if sp_ChunkCount sp \<noteq> int64 (sp_TotalSize sp + sp_ChunkSize sp - 1) sdiv sp_ChunkSize sp
         then Inl ''chunk_count does not match total_size''
         else if sp_ChunkIndex sp < 0 \<or> sp_ChunkIndex sp \<ge> sp_ChunkCount sp \<or>
                 sp_Offset sp \<noteq> int64 (sp_ChunkIndex sp * sp_ChunkSize sp)
         then Inl ''invalid upload chunk offset''
         else if expected \<le> 0 then Inl ''invalid upload chunk size''
         else Inr (sp\<lparr>sp_Expected := expected\<rparr>))"

definition uploadPartPathFor :: "path \<Rightarrow> string \<Rightarrow> path" where
  "uploadPartPathFor targetPath uploadID =
     (let base = Base targetPath; name = (if base = [] \<or> base = ''.'' \<or> base = ''/'' then ''upload'' else base)
      in Join [Dir targetPath, ''.'' @ name @ ''.komari-upload-'' @ uploadID @ ''.part''])"

section \<open>The state\<close>

record uploadChunkState =
  uc_Size :: int
  uc_ExpectedSize :: int
  uc_ChunkSize :: int
  uc_TargetPath :: path
  uc_Parts :: "int set"
  uc_PartCount :: int
  uc_TempPath :: path
  uc_CreatedAt :: gotime

text \<open>\<open>idle\<close> is the channel that is closed while no stream is active; the streams are given by their keys.\<close>

record lifecycle =
  lc_active :: nat
  lc_canceled :: bool
  lc_canceledAt :: gotime
  lc_streams :: "string set"

record stored =
  fi_Regular :: bool
  fi_Data :: bytes
  fi_Mode :: nat
  fi_UID :: int
  fi_GID :: int

text \<open>
  A stream in flight: its specification, its key, what the body of the response still holds, and once it
  is open the part path, the inode of its descriptor and the bytes written.
\<close>

record stream =
  sm_Spec :: uploadStreamSpec
  sm_Key :: string
  sm_Body :: bytes
  sm_Open :: "(path \<times> nat \<times> nat) option"

text \<open>A commit in flight, of the upload it is filed under, after the check of the session, after the check of the size, or after the rename.\<close>

datatype stage = Checked | Sized | Published

record commit =
  cm_Path :: path
  cm_TotalSize :: int
  cm_PartPath :: path
  cm_Stage :: stage

record uploads =
  up_sessions :: "string \<rightharpoonup> uploadChunkState"
  up_lives :: "string \<rightharpoonup> lifecycle"
  up_streams :: "nat \<rightharpoonup> stream"
  up_commits :: "string \<rightharpoonup> commit"
  up_names :: "path \<rightharpoonup> nat"
  up_inodes :: "nat \<Rightarrow> stored"
  up_next :: nat

text \<open>The answer of an event: it waits, its call fails, its call goes on, or its call has returned.\<close>

datatype reply = Blocked | Failed string | Going | Answered int

section \<open>Streams\<close>

definition pruneUploadLifecycles :: "gotime \<Rightarrow> (string \<rightharpoonup> lifecycle) \<Rightarrow> (string \<rightharpoonup> lifecycle)" where
  "pruneUploadLifecycles now lives uploadID =
     (case lives uploadID of
        None \<Rightarrow> None
      | Some lc \<Rightarrow>
          if \<not> lc_canceled lc \<or> lc_active lc \<noteq> 0 then Some lc
          else if lc_canceledAt lc = 0 \<or> time_sub now (lc_canceledAt lc) \<ge> uploadCancelTombstoneTTL then None
          else Some lc)"

definition new_lifecycle :: lifecycle where
  "new_lifecycle = \<lparr>lc_active = 0, lc_canceled = False, lc_canceledAt = 0, lc_streams = {}\<rparr>"

definition lifecycle_of :: "(string \<rightharpoonup> lifecycle) \<Rightarrow> string \<Rightarrow> lifecycle" where
  "lifecycle_of lives uploadID = (case lives uploadID of None \<Rightarrow> new_lifecycle | Some lc \<Rightarrow> lc)"

text \<open>\<open>beginUploadStream\<close>; the upload has an identifier.\<close>

definition beginUploadStream ::
  "string \<Rightarrow> string \<Rightarrow> gotime \<Rightarrow> (string \<rightharpoonup> lifecycle) \<Rightarrow> bool \<times> (string \<rightharpoonup> lifecycle)" where
  "beginUploadStream uploadID streamID now lives =
     (let lives = pruneUploadLifecycles now lives; lc = lifecycle_of lives uploadID
      in if lc_canceled lc then (False, lives(uploadID \<mapsto> lc))
         else (True, lives(uploadID \<mapsto> lc\<lparr>lc_active := Suc (lc_active lc),
           lc_streams := (if streamID = [] then lc_streams lc else insert streamID (lc_streams lc))\<rparr>)))"

text \<open>The function it returns, which every stream runs once.\<close>

definition endUploadStream :: "string \<Rightarrow> string \<Rightarrow> (string \<rightharpoonup> lifecycle) \<Rightarrow> (string \<rightharpoonup> lifecycle)" where
  "endUploadStream uploadID streamID lives =
     (case lives uploadID of
        None \<Rightarrow> lives
      | Some lc \<Rightarrow>
          (let lc = lc\<lparr>lc_streams := (if streamID = [] then lc_streams lc else lc_streams lc - {streamID})\<rparr> in
           if lc_active lc = 0 then lives(uploadID \<mapsto> lc)
           else if lc_active lc = 1 \<and> \<not> lc_canceled lc then lives(uploadID := None)
           else lives(uploadID \<mapsto> lc\<lparr>lc_active := lc_active lc - 1\<rparr>)))"

text \<open>\<open>waitUploadStreams\<close>: \<open>None\<close> while a stream is active.\<close>

definition waitUploadStreams :: "string \<Rightarrow> (string \<rightharpoonup> lifecycle) \<Rightarrow> (string \<rightharpoonup> lifecycle) option" where
  "waitUploadStreams uploadID lives =
     (case lives uploadID of
        None \<Rightarrow> Some lives
      | Some lc \<Rightarrow>
          if lc_active lc \<noteq> 0 then None
          else Some (if lc_canceled lc then lives else lives(uploadID := None)))"

text \<open>\<open>cancelUploadStreams\<close>; the second result are the streams whose contexts are cancelled.\<close>

definition cancelUploadStreams ::
  "string \<Rightarrow> gotime \<Rightarrow> (string \<rightharpoonup> lifecycle) \<Rightarrow> (string \<rightharpoonup> lifecycle) \<times> string set" where
  "cancelUploadStreams uploadID now lives =
     (let lives = pruneUploadLifecycles now lives; lc = lifecycle_of lives uploadID
      in (lives(uploadID \<mapsto> lc\<lparr>lc_canceled := True, lc_canceledAt := now\<rparr>), lc_streams lc))"

text \<open>The first part of \<open>receiveUploadStream\<close>; \<open>body\<close> is what the panel sends if it accepts the request.\<close>

definition begin_stream ::
  "string option \<Rightarrow> nat \<Rightarrow> arguments \<Rightarrow> bytes \<Rightarrow> gotime \<Rightarrow> uploads \<Rightarrow> reply \<times> uploads" where
  "begin_stream home n args body now S =
     (if up_streams S n \<noteq> None then (Blocked, S)
      else case parseUploadStreamSpec home args of
        Inl err \<Rightarrow> (Failed err, S)
      | Inr sp \<Rightarrow>
          (let key = TrimSpace (argString args ''transfer_id'');
               (ok, lives) = beginUploadStream (sp_UploadID sp) key now (up_lives S)
           in if ok
              then (Going, S\<lparr>up_lives := lives, up_streams := (up_streams S)(n \<mapsto>
                \<lparr>sm_Spec = sp, sm_Key = key, sm_Body = body, sm_Open = None\<rparr>)\<rparr>)
              else (Failed ''upload session was cancelled'', S\<lparr>up_lives := lives\<rparr>)))"

text \<open>The end of a stream: the deferred calls.\<close>

definition end_stream :: "nat \<Rightarrow> stream \<Rightarrow> uploads \<Rightarrow> uploads" where
  "end_stream n sm S =
     S\<lparr>up_lives := endUploadStream (sp_UploadID (sm_Spec sm)) (sm_Key sm) (up_lives S),
       up_streams := (up_streams S)(n := None)\<rparr>"

text \<open>\<open>os.OpenFile\<close> for writing with \<open>O_CREATE\<close>: the inode and the new state.\<close>

definition open_file :: "path \<Rightarrow> bool \<Rightarrow> uploads \<Rightarrow> (nat \<times> uploads) option" where
  "open_file p trunc S =
     (case up_names S p of
        None \<Rightarrow> Some (up_next S, S\<lparr>up_names := (up_names S)(p \<mapsto> up_next S), up_next := Suc (up_next S),
          up_inodes := (up_inodes S)(up_next S :=
            \<lparr>fi_Regular = True, fi_Data = [], fi_Mode = 384, fi_UID = 0, fi_GID = 0\<rparr>)\<rparr>)
      | Some i \<Rightarrow>
          if \<not> fi_Regular (up_inodes S i) then None
          else Some (i, if trunc then S\<lparr>up_inodes := (up_inodes S)(i := (up_inodes S i)\<lparr>fi_Data := []\<rparr>)\<rparr> else S))"

definition new_session :: "uploadStreamSpec \<Rightarrow> path \<Rightarrow> uploadChunkState" where
  "new_session sp part = \<lparr>uc_Size = 0, uc_ExpectedSize = sp_TotalSize sp, uc_ChunkSize = sp_ChunkSize sp,
     uc_TargetPath = sp_Path sp, uc_Parts = {}, uc_PartCount = sp_ChunkCount sp, uc_TempPath = part, uc_CreatedAt = 0\<rparr>"

definition session_mismatch :: "path \<Rightarrow> int \<Rightarrow> int \<Rightarrow> int \<Rightarrow> uploadChunkState \<Rightarrow> string option" where
  "session_mismatch p amount chunkSize count st =
     (if uc_TargetPath st \<noteq> [] \<and> \<not> samePath (uc_TargetPath st) p then Some ''upload target path does not match session''
      else if uc_ExpectedSize st \<noteq> 0 \<and> uc_ExpectedSize st \<noteq> amount then Some ''upload total size does not match session''
      else if uc_ChunkSize st \<noteq> 0 \<and> uc_ChunkSize st \<noteq> chunkSize then Some ''upload chunk size does not match session''
      else if uc_PartCount st \<noteq> 0 \<and> uc_PartCount st \<noteq> count then Some ''upload chunk count does not match session''
      else None)"

text \<open>The session a stream finds or, if it is marked as first, makes. \<open>ok\<close> decides which calls work.\<close>

definition find_session :: "uploadStreamSpec \<Rightarrow> (nat \<Rightarrow> bool) \<Rightarrow> uploads \<Rightarrow> (string + uploadChunkState) \<times> uploads" where
  "find_session sp ok S =
     (case up_sessions S (sp_UploadID sp) of
        Some st \<Rightarrow> (Inr st, S)
      | None \<Rightarrow>
          if \<not> sp_First sp then (Inl ''unknown upload session'', S)
          else (let part = uploadPartPathFor (sp_Path sp) (sp_UploadID sp) in
                if \<not> ok 0 then (Inl ''open'', S)
                else case open_file part True S of
                  None \<Rightarrow> (Inl ''open'', S)
                | Some (i, S') \<Rightarrow>
                    if \<not> ok 1 then (Inl ''close'', S')
                    else (let st = new_session sp part in
                      (Inr st, S'\<lparr>up_sessions := (up_sessions S')(sp_UploadID sp \<mapsto> st)\<rparr>))))"

text \<open>The second part of \<open>receiveUploadStream\<close>: the answer of the panel, the session, the descriptor.\<close>

definition open_stream :: "nat \<Rightarrow> bool \<Rightarrow> (nat \<Rightarrow> bool) \<Rightarrow> uploads \<Rightarrow> reply \<times> uploads" where
  "open_stream n accepted ok S =
     (case up_streams S n of
        None \<Rightarrow> (Blocked, S)
      | Some sm \<Rightarrow>
          if sm_Open sm \<noteq> None then (Blocked, S)
          else if \<not> accepted then (Failed ''file transfer endpoint'', end_stream n sm S)
          else case find_session (sm_Spec sm) ok S of
            (Inl err, S') \<Rightarrow> (Failed err, end_stream n sm S')
          | (Inr st, S') \<Rightarrow>
              (let sp = sm_Spec sm in
               case session_mismatch (sp_Path sp) (sp_TotalSize sp) (sp_ChunkSize sp) (sp_ChunkCount sp) st of
                 Some err \<Rightarrow> (Failed err, end_stream n sm S')
               | None \<Rightarrow>
                   (let part = (if uc_TempPath st = [] then uploadPartPathFor (sp_Path sp) (sp_UploadID sp) else uc_TempPath st) in
                    if \<not> ok 2 then (Failed ''open'', end_stream n sm S')
                    else case open_file part False S' of
                      None \<Rightarrow> (Failed ''open'', end_stream n sm S')
                    | Some (i, S'') \<Rightarrow>
                        (Going, S''\<lparr>up_streams := (up_streams S'')(n \<mapsto> sm\<lparr>sm_Open := Some (part, i, 0)\<rparr>)\<rparr>))))"

text \<open>\<open>WriteAt\<close>: a gap before the offset reads as zeros.\<close>

definition write_at :: "nat \<Rightarrow> bytes \<Rightarrow> bytes \<Rightarrow> bytes" where
  "write_at off b data =
     (if b = [] then data
      else take off data @ replicate (off - length data) (CHR 0x00) @ b @ drop (off + length b) data)"

text \<open>
  One write of the copy loop: the next \<open>k\<close> bytes of the body within the limit; \<open>done\<close> of them reach the file,
  fewer than \<open>k\<close> when the write fails.
\<close>

definition receive :: "nat \<Rightarrow> nat \<Rightarrow> nat \<Rightarrow> uploads \<Rightarrow> reply \<times> uploads" where
  "receive n k written S =
     (case up_streams S n of
        None \<Rightarrow> (Blocked, S)
      | Some sm \<Rightarrow>
          (case sm_Open sm of
             None \<Rightarrow> (Blocked, S)
           | Some (part, i, w) \<Rightarrow>
               (let sp = sm_Spec sm;
                    b = take (min k (nat (sp_Expected sp) - w)) (sm_Body sm);
                    reached = take written b;
                    f = up_inodes S i;
                    S' = S\<lparr>up_inodes := (up_inodes S)(i := f\<lparr>fi_Data := write_at (nat (sp_Offset sp) + w) reached (fi_Data f)\<rparr>)\<rparr>
                in if length reached < length b then (Failed ''write'', end_stream n sm S')
                   else (Going, S'\<lparr>up_streams := (up_streams S')(n \<mapsto>
                     sm\<lparr>sm_Body := drop (length b) (sm_Body sm), sm_Open := Some (part, i, w + length b)\<rparr>)\<rparr>))))"

text \<open>The end of the copy: the length is checked, the file flushed and closed, and the chunk recorded.\<close>

definition record_part :: "uploadStreamSpec \<Rightarrow> path \<Rightarrow> int \<Rightarrow> gotime \<Rightarrow> uploadChunkState \<Rightarrow> uploadChunkState" where
  "record_part sp part written now st =
     st\<lparr>uc_ExpectedSize := sp_TotalSize sp, uc_ChunkSize := sp_ChunkSize sp, uc_PartCount := sp_ChunkCount sp,
       uc_Size := max (uc_Size st) (int64 (sp_Offset sp + written)),
       uc_TargetPath := (if uc_TargetPath st = [] then sp_Path sp else uc_TargetPath st),
       uc_Parts := insert (sp_ChunkIndex sp) (uc_Parts st), uc_TempPath := part, uc_CreatedAt := now\<rparr>"

definition finish_stream :: "nat \<Rightarrow> (nat \<Rightarrow> bool) \<Rightarrow> gotime \<Rightarrow> uploads \<Rightarrow> reply \<times> uploads" where
  "finish_stream n ok now S =
     (case up_streams S n of
        None \<Rightarrow> (Blocked, S)
      | Some sm \<Rightarrow>
          (case sm_Open sm of
             None \<Rightarrow> (Blocked, S)
           | Some (part, i, w) \<Rightarrow>
               (let sp = sm_Spec sm; S' = end_stream n sm S in
                if int w \<noteq> sp_Expected sp then (Failed ''upload stream ended early'', S')
                else if \<not> ok 0 then (Failed ''sync'', S')
                else if \<not> ok 1 then (Failed ''close'', S')
                else case up_sessions S (sp_UploadID sp) of
                  None \<Rightarrow> (Failed ''upload session was cancelled while receiving the stream'', S')
                | Some st \<Rightarrow>
                    (Answered (int w), S'\<lparr>up_sessions := (up_sessions S')(sp_UploadID sp \<mapsto>
                       record_part sp part (int w) now st)\<rparr>))))"

section \<open>Commits and cancellations\<close>

text \<open>
  \<open>uploadWriteLock\<close> admits one commit or removal of an upload at a time; it is represented by the commits in flight.
  A lock object that is forgotten while another call still waits for it is not represented.
\<close>

definition locked :: "string \<Rightarrow> uploads \<Rightarrow> bool" where
  "locked uploadID S \<longleftrightarrow> up_commits S uploadID \<noteq> None"

text \<open>The checks on the arguments of \<open>commitFileUpload\<close>.\<close>

definition parse_commit :: "string option \<Rightarrow> arguments \<Rightarrow> string + (string \<times> path \<times> int \<times> int \<times> int)" where
  "parse_commit home args =
     (let uploadID = TrimSpace (argString args ''upload_id''); p = resolveFilePath home (argString args ''path'');
          amount = argInt64 args ''total_size''; chunkSize = chunk_size args; count = argInt64 args ''chunk_count''
      in if uploadID = [] then Inl ''upload_id is required''
         else if p = ''/'' \<or> p = ''.'' then Inl ''upload path must be a file''
         else if amount \<le> 0 \<or> count \<le> 0 then Inl ''chunk_count and total_size are required''
         else if chunkSize \<le> 0 \<or> chunkSize > maxTransferChunkSize then Inl ''chunk_size out of range''
         else if count \<noteq> uploadChunkCount amount chunkSize then Inl ''chunk_count does not match total_size''
         else Inr (uploadID, p, amount, chunkSize, count))"

text \<open>The wait for the streams that are active. It comes before the lock, so that streams can begin after it.\<close>

definition commit_wait :: "string option \<Rightarrow> arguments \<Rightarrow> uploads \<Rightarrow> reply \<times> uploads" where
  "commit_wait home args S =
     (case parse_commit home args of
        Inl err \<Rightarrow> (Failed err, S)
      | Inr (uploadID, p, amount, chunkSize, count) \<Rightarrow>
          (case waitUploadStreams uploadID (up_lives S) of
             None \<Rightarrow> (Blocked, S)
           | Some lives \<Rightarrow> (Going, S\<lparr>up_lives := lives\<rparr>)))"

text \<open>Up to the snapshot of the part path: every chunk is recorded.\<close>

definition commit_check :: "string option \<Rightarrow> arguments \<Rightarrow> uploads \<Rightarrow> reply \<times> uploads" where
  "commit_check home args S =
     (case parse_commit home args of
        Inl err \<Rightarrow> (Failed err, S)
      | Inr (uploadID, p, amount, chunkSize, count) \<Rightarrow>
          if locked uploadID S then (Blocked, S)
          else (case up_sessions S uploadID of
             None \<Rightarrow> (Failed ''unknown upload session'', S)
           | Some st \<Rightarrow>
               (case session_mismatch p amount chunkSize count st of
                  Some err \<Rightarrow> (Failed err, S)
                | None \<Rightarrow>
                    if int (card (uc_Parts st)) \<noteq> count then (Failed ''upload incomplete'', S)
                    else if uc_TempPath st = [] then (Failed ''upload part file is missing'', S)
                    else (Going, S\<lparr>up_commits := (up_commits S)(uploadID \<mapsto> \<lparr>cm_Path = p,
                      cm_TotalSize = amount, cm_PartPath = uc_TempPath st, cm_Stage = Checked\<rparr>)\<rparr>))))"

definition drop_commit :: "string \<Rightarrow> uploads \<Rightarrow> uploads" where
  "drop_commit uploadID S = S\<lparr>up_commits := (up_commits S)(uploadID := None)\<rparr>"

definition set_data :: "nat \<Rightarrow> bytes \<Rightarrow> uploads \<Rightarrow> uploads" where
  "set_data i b S = S\<lparr>up_inodes := (up_inodes S)(i := (up_inodes S i)\<lparr>fi_Data := b\<rparr>)\<rparr>"

text \<open>The size of the part file, which is cut when it is longer.\<close>

definition commit_size :: "string \<Rightarrow> (nat \<Rightarrow> bool) \<Rightarrow> uploads \<Rightarrow> reply \<times> uploads" where
  "commit_size uploadID ok S =
     (case up_commits S uploadID of
        None \<Rightarrow> (Blocked, S)
      | Some cm \<Rightarrow>
          if cm_Stage cm \<noteq> Checked then (Blocked, S)
          else (case up_names S (cm_PartPath cm) of
             None \<Rightarrow> (Failed ''stat'', drop_commit uploadID S)
           | Some i \<Rightarrow>
               (let b = fi_Data (up_inodes S i); amount = nat (cm_TotalSize cm);
                    S' = S\<lparr>up_commits := (up_commits S)(uploadID \<mapsto> cm\<lparr>cm_Stage := Sized\<rparr>)\<rparr>
                in if \<not> ok 0 then (Failed ''stat'', drop_commit uploadID S)
                   else if length b < amount then (Failed ''upload part file is too short'', drop_commit uploadID S)
                   else if length b = amount then (Going, S')
                   else if \<not> ok 1 then (Failed ''truncate'', drop_commit uploadID S)
                   else (Going, set_data i (take amount b) S'))))"

definition replaceableFile :: "path \<Rightarrow> uploads \<Rightarrow> string + stored option" where
  "replaceableFile p S =
     (case up_names S p of
        None \<Rightarrow> Inr None
      | Some i \<Rightarrow> if fi_Regular (up_inodes S i) then Inr (Some (up_inodes S i)) else Inl ''cannot replace a non-regular file'')"

text \<open>The owner and the mode of the file that is replaced; 420 is 0o644.\<close>

definition preserveReplacementMetadata :: "nat \<Rightarrow> stored option \<Rightarrow> (nat \<Rightarrow> bool) \<Rightarrow> uploads \<Rightarrow> bool \<times> uploads" where
  "preserveReplacementMetadata i existing ok S =
     (let f = up_inodes S i;
          owned = (case existing of None \<Rightarrow> f | Some x \<Rightarrow> f\<lparr>fi_UID := fi_UID x, fi_GID := fi_GID x\<rparr>);
          mode = (case existing of None \<Rightarrow> 420 | Some x \<Rightarrow> fi_Mode x)
      in if existing \<noteq> None \<and> \<not> ok 0 then (False, S)
         else if \<not> ok 1 then (False, S\<lparr>up_inodes := (up_inodes S)(i := owned)\<rparr>)
         else (True, S\<lparr>up_inodes := (up_inodes S)(i := owned\<lparr>fi_Mode := mode\<rparr>)\<rparr>))"

text \<open>The publication: the directory, the target, the metadata, and the rename.\<close>

definition commit_rename :: "string \<Rightarrow> (nat \<Rightarrow> bool) \<Rightarrow> uploads \<Rightarrow> reply \<times> uploads" where
  "commit_rename uploadID ok S =
     (case up_commits S uploadID of
        None \<Rightarrow> (Blocked, S)
      | Some cm \<Rightarrow>
          if cm_Stage cm \<noteq> Sized then (Blocked, S)
          else if \<not> ok 0 then (Failed ''mkdir'', drop_commit uploadID S)
          else if \<not> ok 1 then (Failed ''lstat'', drop_commit uploadID S)
          else case replaceableFile (cm_Path cm) S of
            Inl err \<Rightarrow> (Failed err, drop_commit uploadID S)
          | Inr existing \<Rightarrow>
              (case up_names S (cm_PartPath cm) of
                 None \<Rightarrow> (Failed ''no such file'', drop_commit uploadID S)
               | Some i \<Rightarrow>
                   (case preserveReplacementMetadata i existing (\<lambda>k. ok (k + 2)) S of
                      (False, S') \<Rightarrow> (Failed ''metadata'', drop_commit uploadID S')
                    | (True, S') \<Rightarrow>
                        if \<not> ok 4 then (Failed ''rename'', drop_commit uploadID S')
                        else (Going, S'\<lparr>up_names := (up_names S')(cm_PartPath cm := None, cm_Path cm \<mapsto> i),
                          up_commits := (up_commits S')(uploadID \<mapsto> cm\<lparr>cm_Stage := Published\<rparr>)\<rparr>))))"

text \<open>The flush of the directory, and the end of the session.\<close>

definition commit_sync :: "string \<Rightarrow> bool \<Rightarrow> uploads \<Rightarrow> reply \<times> uploads" where
  "commit_sync uploadID ok S =
     (case up_commits S uploadID of
        None \<Rightarrow> (Blocked, S)
      | Some cm \<Rightarrow>
          if cm_Stage cm \<noteq> Published then (Blocked, S)
          else if \<not> ok then (Failed ''sync'', drop_commit uploadID S)
          else (Answered (cm_TotalSize cm),
            (drop_commit uploadID S)\<lparr>up_sessions := (up_sessions S)(uploadID := None)\<rparr>))"

text \<open>
  The two parts of \<open>cancelFileUpload\<close>. The second one starts when no stream is active and the lock is free; between
  the wait and the lock no stream begins, since the upload has been marked.
\<close>

definition cancel_mark :: "arguments \<Rightarrow> gotime \<Rightarrow> uploads \<Rightarrow> reply \<times> uploads" where
  "cancel_mark args now S =
     (let uploadID = TrimSpace (argString args ''upload_id'') in
      if uploadID = [] then (Failed ''upload_id is required'', S)
      else (Going, S\<lparr>up_lives := fst (cancelUploadStreams uploadID now (up_lives S))\<rparr>))"

definition remove_file :: "path \<Rightarrow> uploads \<Rightarrow> uploads" where
  "remove_file p S = S\<lparr>up_names := (up_names S)(p := None)\<rparr>"

definition removeUploadFile :: "string \<Rightarrow> uploadChunkState \<Rightarrow> bool \<Rightarrow> uploads \<Rightarrow> bool \<times> uploads" where
  "removeUploadFile uploadID st ok S =
     (if uc_TempPath st \<noteq> [] \<and> \<not> ok then (False, S)
      else (True, (if uc_TempPath st = [] then S else remove_file (uc_TempPath st) S)
             \<lparr>up_sessions := (up_sessions S)(uploadID := None)\<rparr>))"

definition cancel_remove :: "string option \<Rightarrow> arguments \<Rightarrow> bool \<Rightarrow> uploads \<Rightarrow> reply \<times> uploads" where
  "cancel_remove home args ok S =
     (let uploadID = TrimSpace (argString args ''upload_id''); given = TrimSpace (argString args ''path'');
          target = (if given = [] then [] else resolveFilePath home given)
      in if uploadID = [] then (Failed ''upload_id is required'', S)
         else if locked uploadID S then (Blocked, S)
         else case waitUploadStreams uploadID (up_lives S) of
           None \<Rightarrow> (Blocked, S)
         | Some lives \<Rightarrow>
             (let S = S\<lparr>up_lives := lives\<rparr> in
              case up_sessions S uploadID of
                Some st \<Rightarrow>
                  if target \<noteq> [] \<and> uc_TargetPath st \<noteq> [] \<and> \<not> samePath target (uc_TargetPath st)
                  then (Failed ''upload target path does not match session'', S)
                  else (case removeUploadFile uploadID st ok S of
                          (False, S') \<Rightarrow> (Failed ''remove'', S') | (True, S') \<Rightarrow> (Answered 0, S'))
              | None \<Rightarrow>
                  if target = [] then (Answered 0, S)
                  else if \<not> ok then (Failed ''remove'', S)
                  else (Answered 0, remove_file (uploadPartPathFor target uploadID) S)))"

section \<open>Histories\<close>

datatype event =
    Begin nat arguments bytes gotime
  | OpenStream nat bool "nat \<Rightarrow> bool"
  | Receive nat nat nat
  | Finish nat "nat \<Rightarrow> bool" gotime
  | CommitWait arguments
  | CommitCheck arguments
  | CommitSize string "nat \<Rightarrow> bool"
  | CommitRename string "nat \<Rightarrow> bool"
  | CommitSync string bool
  | CancelMark arguments gotime
  | CancelRemove arguments bool

fun handle :: "string option \<Rightarrow> event \<Rightarrow> uploads \<Rightarrow> reply \<times> uploads" where
  "handle home (Begin n args body now) S = begin_stream home n args body now S"
| "handle home (OpenStream n accepted ok) S = open_stream n accepted ok S"
| "handle home (Receive n k written) S = receive n k written S"
| "handle home (Finish n ok now) S = finish_stream n ok now S"
| "handle home (CommitWait args) S = commit_wait home args S"
| "handle home (CommitCheck args) S = commit_check home args S"
| "handle home (CommitSize uploadID ok) S = commit_size uploadID ok S"
| "handle home (CommitRename uploadID ok) S = commit_rename uploadID ok S"
| "handle home (CommitSync uploadID ok) S = commit_sync uploadID ok S"
| "handle home (CancelMark args now) S = cancel_mark args now S"
| "handle home (CancelRemove args ok) S = cancel_remove home args ok S"

fun history :: "string option \<Rightarrow> event list \<Rightarrow> uploads \<Rightarrow> uploads" where
  "history home [] S = S"
| "history home (ev # evs) S = history home evs (snd (handle home ev S))"

section \<open>Bounds of the chunks\<close>

lemma argInt64_range: "- (2 ^ 63) \<le> argInt64 args key \<and> argInt64 args key < 2 ^ 63"
  using int64_range by (simp add: argInt64_def split: option.split argument.split)

lemma count_exact:
  assumes "0 < amount" "amount < 2 ^ 63" "0 < cs" "cs \<le> maxTransferChunkSize" "0 < int64 (amount + cs - 1) sdiv cs"
  shows "int64 (amount + cs - 1) sdiv cs = (amount + cs - 1) div cs"
proof -
  have cs: "cs < 2 ^ 28" using assms(4) by (simp add: maxTransferChunkSize_def)
  have "amount + cs - 1 < 2 ^ 63"
  proof (rule ccontr)
    assume big: "\<not> amount + cs - 1 < 2 ^ 63"
    have "int64 (amount + cs - 1) = amount + cs - 1 - 2 ^ 64"
    proof -
      have "(amount + cs - 1 + 2 ^ 63) mod 2 ^ 64 = (amount + cs - 1 + 2 ^ 63 - 2 ^ 64) mod 2 ^ 64" by (simp only: minus_mod_self2)
      also have "\<dots> = amount + cs - 1 + 2 ^ 63 - 2 ^ 64" using big assms(2) cs by (intro mod_pos_pos_trivial) simp_all
      finally have "(amount + cs - 1 + 2 ^ 63) mod 2 ^ 64 = amount + cs - 1 + 2 ^ 63 - 2 ^ 64" .
      then show ?thesis by (simp add: int64_def)
    qed
    then have "int64 (amount + cs - 1) < 0" using assms(2) cs by simp
    with assms(3,5) show False
      using pos_imp_zdiv_nonneg_iff [OF assms(3), of "- int64 (amount + cs - 1)"]
      by (simp add: signed_divide_int_def zero_less_mult_iff)
  qed
  with assms(1,3) show ?thesis by (simp add: signed_divide_int_def)
qed

text \<open>What an accepted specification means.\<close>

definition chunk_spec :: "uploadStreamSpec \<Rightarrow> bool" where
  "chunk_spec sp \<longleftrightarrow> sp_UploadID sp \<noteq> [] \<and> 0 < sp_ChunkSize sp \<and> sp_ChunkSize sp \<le> maxTransferChunkSize \<and>
     0 < sp_TotalSize sp \<and> sp_ChunkCount sp = (sp_TotalSize sp + sp_ChunkSize sp - 1) div sp_ChunkSize sp \<and>
     0 \<le> sp_ChunkIndex sp \<and> sp_ChunkIndex sp < sp_ChunkCount sp \<and> sp_Offset sp = sp_ChunkIndex sp * sp_ChunkSize sp \<and>
     sp_Expected sp = min (sp_ChunkSize sp) (sp_TotalSize sp - sp_Offset sp)"

lemma chunk_inside:
  assumes "0 < cs" "0 < (amount :: int)" "0 \<le> k" "k < (amount + cs - 1) div cs"
  shows "k * cs < amount"
proof -
  have "k + 1 \<le> (amount + cs - 1) div cs" using assms(4) by simp
  then have "(k + 1) * cs \<le> (amount + cs - 1) div cs * cs" using assms(1) by (intro mult_right_mono) auto
  also have "\<dots> = amount + cs - 1 - (amount + cs - 1) mod cs" by (simp add: minus_mod_eq_div_mult)
  also have "\<dots> \<le> amount + cs - 1" using pos_mod_sign [OF assms(1)] by (simp only: diff_le_eq) simp
  finally show ?thesis by (simp add: distrib_right)
qed

lemma parse_spec:
  assumes "parseUploadStreamSpec home args = Inr sp"
  shows "chunk_spec sp" "sp_TotalSize sp < 2 ^ 63"
proof -
  let ?n = "argInt64 args ''total_size''" and ?cs = "chunk_size args" and ?k = "argInt64 args ''chunk_index''"
    and ?off = "argInt64 args ''offset''" and ?count = "argInt64 args ''chunk_count''"
  have c: "TrimSpace (argString args ''upload_id'') \<noteq> []" "0 \<le> ?off" "0 < ?count" "0 < ?n" "0 < ?cs" "?cs \<le> maxTransferChunkSize"
      "?count = int64 (?n + ?cs - 1) sdiv ?cs" "0 \<le> ?k" "?k < ?count" "?off = int64 (?k * ?cs)"
    and sp: "sp_UploadID sp = TrimSpace (argString args ''upload_id'')" "sp_Offset sp = ?off" "sp_ChunkIndex sp = ?k" "sp_ChunkCount sp = ?count"
      "sp_TotalSize sp = ?n" "sp_ChunkSize sp = ?cs" "sp_Expected sp = min ?cs (int64 (?n - ?off))"
    using assms by (auto simp: parseUploadStreamSpec_def Let_def split: if_splits)
  have n: "?n < 2 ^ 63" using argInt64_range by blast
  have count: "?count = (?n + ?cs - 1) div ?cs"
    using count_exact [OF c(4) n c(5,6)] c(3,7) by simp
  have inside: "?k * ?cs < ?n" using chunk_inside [OF c(5,4,8)] c(9) count by simp
  then have "int64 (?k * ?cs) = ?k * ?cs" using n c(5,8) by (intro int64_id) (auto intro: order_trans [of _ 0])
  with c(10) have off: "?off = ?k * ?cs" by simp
  have "int64 (?n - ?off) = ?n - ?off" using inside off n c(2) by (intro int64_id) auto
  with c sp off count show "chunk_spec sp" by (simp add: chunk_spec_def)
  show "sp_TotalSize sp < 2 ^ 63" using sp n by simp
qed

lemma spec_range:
  assumes "chunk_spec sp"
  shows "0 \<le> sp_Offset sp" "0 < sp_Expected sp" "sp_Offset sp + sp_Expected sp \<le> sp_TotalSize sp"
proof -
  note c = assms [unfolded chunk_spec_def]
  have "sp_ChunkIndex sp * sp_ChunkSize sp < sp_TotalSize sp"
    using c by (intro chunk_inside) simp_all
  with c show "0 \<le> sp_Offset sp" "0 < sp_Expected sp" "sp_Offset sp + sp_Expected sp \<le> sp_TotalSize sp" by simp_all
qed

text \<open>
  C40: Accepted chunks lie inside the file. The specification of an accepted stream covers a nonempty range of at most 128
  MiB within the announced size, at the index times the chunk size, although the sums and products of the checks wrap
  around at 64 bits.
\<close>

theorem chunk_within_file:
  assumes "parseUploadStreamSpec home args = Inr sp"
  shows "0 \<le> sp_Offset sp \<and> 0 < sp_Expected sp \<and> sp_Expected sp \<le> maxTransferChunkSize \<and>
    sp_Offset sp + sp_Expected sp \<le> sp_TotalSize sp \<and> sp_TotalSize sp < 2 ^ 63 \<and>
    sp_Offset sp = sp_ChunkIndex sp * sp_ChunkSize sp \<and>
    (sp_Offset sp + sp_Expected sp = sp_TotalSize sp \<longleftrightarrow> sp_ChunkIndex sp = sp_ChunkCount sp - 1)"
proof -
  note p = parse_spec [OF assms] and r = spec_range [OF parse_spec(1) [OF assms]]
  note c = p(1) [unfolded chunk_spec_def]
  have "(sp_ChunkIndex sp + 1) * sp_ChunkSize sp < sp_TotalSize sp" if "sp_ChunkIndex sp + 1 < sp_ChunkCount sp"
    using c that by (intro chunk_inside) simp_all
  moreover have "sp_TotalSize sp \<le> sp_ChunkCount sp * sp_ChunkSize sp"
  proof -
    have "sp_TotalSize sp + sp_ChunkSize sp - 1 < (sp_TotalSize sp + sp_ChunkSize sp - 1) div sp_ChunkSize sp * sp_ChunkSize sp + sp_ChunkSize sp"
      using c pos_mod_bound [of "sp_ChunkSize sp"] by (simp add: div_mult_mod_eq [symmetric] minus_mod_eq_div_mult [symmetric])
    with c show ?thesis by simp
  qed
  moreover have "sp_ChunkCount sp = sp_ChunkIndex sp + 1" if "\<not> sp_ChunkIndex sp + 1 < sp_ChunkCount sp" using c that by simp
  ultimately have e: "if sp_ChunkIndex sp + 1 < sp_ChunkCount sp then (sp_ChunkIndex sp + 1) * sp_ChunkSize sp < sp_TotalSize sp
      else sp_ChunkCount sp = sp_ChunkIndex sp + 1 \<and> sp_TotalSize sp \<le> (sp_ChunkIndex sp + 1) * sp_ChunkSize sp" by auto
  have m: "sp_Offset sp = sp_ChunkIndex sp * sp_ChunkSize sp" "sp_ChunkSize sp \<le> maxTransferChunkSize"
    "sp_Expected sp = min (sp_ChunkSize sp) (sp_TotalSize sp - sp_Offset sp)" using c by simp_all
  then have "sp_Offset sp + sp_Expected sp = sp_TotalSize sp \<longleftrightarrow> sp_ChunkIndex sp = sp_ChunkCount sp - 1"
    using e r by (auto simp: algebra_simps min_def split: if_splits)
  with m p(2) r show ?thesis by simp
qed

lemma chunk_within_file_witness:
  "(case parseUploadStreamSpec None [''path'' \<mapsto> AString ''/f'', ''upload_id'' \<mapsto> AString ''u'', ''offset'' \<mapsto> ANumber 4,
      ''chunk_index'' \<mapsto> ANumber 2, ''chunk_count'' \<mapsto> ANumber 3, ''total_size'' \<mapsto> ANumber 5, ''chunk_size'' \<mapsto> ANumber 2] of
     Inl err \<Rightarrow> False | Inr sp \<Rightarrow> sp_Offset sp + sp_Expected sp = sp_TotalSize sp)"
proof -
  let ?args = "[''path'' \<mapsto> AString ''/f'', ''upload_id'' \<mapsto> AString ''u'', ''offset'' \<mapsto> ANumber 4,
      ''chunk_index'' \<mapsto> ANumber 2, ''chunk_count'' \<mapsto> ANumber 3, ''total_size'' \<mapsto> ANumber 5, ''chunk_size'' \<mapsto> ANumber 2]"
  have w: "resolveFilePath None ''/f'' = ''/f''" "TrimSpace ''u'' = ''u''" by code_simp+
  obtain sp where sp: "parseUploadStreamSpec None ?args = Inr sp" "sp_ChunkIndex sp = 2" "sp_ChunkCount sp = 3"
    by (simp add: parseUploadStreamSpec_def argString_def argInt64_def argBool_def w chunk_size_def int64_def maxTransferChunkSize_def)
  from chunk_within_file [OF sp(1)] sp show ?thesis by simp
qed

end
