(* ===== verification/FileIntegrity.thy ===== *)
theory FileIntegrity
  imports FileUpload
begin

text \<open>
  What an upload writes to its target. The invariant of one upload says that what its streams have received
  and what its session has recorded is the content that the panel sends, at its place in the part
  file; every event of a history keeps it, however the events of this and of other uploads interleave.
\<close>


section \<open>An upload and its invariant\<close>

text \<open>
  The upload that the properties are about: its identifier, its target, its content and its chunk size. The events
  of a history are \<open>intended\<close> when the streams and the commits of this upload are about this target and carry
  this content, as far as they get, and other uploads have other targets and part files.
\<close>

record plan =
  pl_ID :: string
  pl_Path :: path
  pl_Data :: bytes
  pl_Chunk :: int

definition part_of :: "plan \<Rightarrow> path" where
  "part_of pl = uploadPartPathFor (pl_Path pl) (pl_ID pl)"

definition places :: "plan \<Rightarrow> path set" where
  "places pl = {pl_Path pl, part_of pl}"

definition own_spec :: "plan \<Rightarrow> uploadStreamSpec \<Rightarrow> bool" where
  "own_spec pl sp \<longleftrightarrow> sp_Path sp = pl_Path pl \<and> sp_TotalSize sp = int (length (pl_Data pl)) \<and> sp_ChunkSize sp = pl_Chunk pl"

definition intended :: "plan \<Rightarrow> string option \<Rightarrow> event \<Rightarrow> bool" where
  "intended pl home ev =
     (case ev of
        Begin n args body now \<Rightarrow>
          (case parseUploadStreamSpec home args of
             Inl err \<Rightarrow> True
           | Inr sp \<Rightarrow>
               if sp_UploadID sp = pl_ID pl
               then own_spec pl sp \<and> prefix (take (nat (sp_Expected sp)) body) (drop (nat (sp_Offset sp)) (pl_Data pl))
               else uploadPartPathFor (sp_Path sp) (sp_UploadID sp) \<notin> places pl)
      | CommitCheck args \<Rightarrow>
          (case parse_commit home args of
             Inl err \<Rightarrow> True
           | Inr (uploadID, p, amount, chunkSize, count) \<Rightarrow>
               if uploadID = pl_ID pl then p = pl_Path pl \<and> amount = int (length (pl_Data pl)) else p \<notin> places pl)
      | CancelRemove args ok \<Rightarrow>
          (let uploadID = TrimSpace (argString args ''upload_id'');
               part = uploadPartPathFor (resolveFilePath home (TrimSpace (argString args ''path''))) uploadID
           in part \<noteq> pl_Path pl \<and> (uploadID = pl_ID pl \<or> part \<noteq> part_of pl))
      | _ \<Rightarrow> True)"

definition contents :: "uploads \<Rightarrow> path \<Rightarrow> bytes option" where
  "contents S p = map_option (\<lambda>i. fi_Data (up_inodes S i)) (up_names S p)"

text \<open>Position \<open>j\<close> of the part file holds what the content has there.\<close>

definition right :: "plan \<Rightarrow> bytes \<Rightarrow> nat \<Rightarrow> bool" where
  "right pl b j \<longleftrightarrow> j < length b \<and> j < length (pl_Data pl) \<and> b ! j = pl_Data pl ! j"

definition right_range :: "plan \<Rightarrow> bytes \<Rightarrow> int \<Rightarrow> int \<Rightarrow> bool" where
  "right_range pl b from n \<longleftrightarrow> (\<forall>j. from \<le> int j \<and> int j < from + n \<longrightarrow> right pl b j)"

definition chunk_right :: "plan \<Rightarrow> bytes \<Rightarrow> int \<Rightarrow> bool" where
  "chunk_right pl b k \<longleftrightarrow>
     right_range pl b (k * pl_Chunk pl) (min (pl_Chunk pl) (int (length (pl_Data pl)) - k * pl_Chunk pl))"

definition chunk_count :: "plan \<Rightarrow> int" where
  "chunk_count pl = (int (length (pl_Data pl)) + pl_Chunk pl - 1) div pl_Chunk pl"

definition names_ok :: "uploads \<Rightarrow> bool" where
  "names_ok S \<longleftrightarrow> (\<forall>p q i. up_names S p = Some i \<longrightarrow> up_names S q = Some i \<longrightarrow> p = q) \<and>
     (\<forall>p i. up_names S p = Some i \<longrightarrow> i < up_next S)"

definition own_stream :: "plan \<Rightarrow> uploads \<Rightarrow> stream \<Rightarrow> bool" where
  "own_stream pl S sm \<longleftrightarrow> chunk_spec (sm_Spec sm) \<and> own_spec pl (sm_Spec sm) \<and>
     (case sm_Open sm of
        None \<Rightarrow> prefix (take (nat (sp_Expected (sm_Spec sm))) (sm_Body sm)) (drop (nat (sp_Offset (sm_Spec sm))) (pl_Data pl))
      | Some (part, i, w) \<Rightarrow>
          part = part_of pl \<and> up_names S (part_of pl) = Some i \<and> up_sessions S (pl_ID pl) \<noteq> None \<and>
          int w \<le> sp_Expected (sm_Spec sm) \<and> right_range pl (fi_Data (up_inodes S i)) (sp_Offset (sm_Spec sm)) (int w) \<and>
          prefix (take (nat (sp_Expected (sm_Spec sm)) - w) (sm_Body sm)) (drop (nat (sp_Offset (sm_Spec sm)) + w) (pl_Data pl)))"

definition other_stream :: "plan \<Rightarrow> uploads \<Rightarrow> stream \<Rightarrow> bool" where
  "other_stream pl S sm \<longleftrightarrow> uploadPartPathFor (sp_Path (sm_Spec sm)) (sp_UploadID (sm_Spec sm)) \<notin> places pl \<and>
     (case sm_Open sm of
        None \<Rightarrow> True
      | Some (part, i, w) \<Rightarrow> part \<notin> places pl \<and> i < up_next S \<and> (\<forall>p \<in> places pl. up_names S p \<noteq> Some i))"

definition stream_ok :: "plan \<Rightarrow> uploads \<Rightarrow> stream \<Rightarrow> bool" where
  "stream_ok pl S sm \<longleftrightarrow> (if sp_UploadID (sm_Spec sm) = pl_ID pl then own_stream pl S sm else other_stream pl S sm)"

definition session_ok :: "plan \<Rightarrow> uploads \<Rightarrow> uploadChunkState \<Rightarrow> bool" where
  "session_ok pl S st \<longleftrightarrow> uc_TargetPath st = pl_Path pl \<and> uc_TempPath st = part_of pl \<and>
     (\<exists>i. up_names S (part_of pl) = Some i \<and> fi_Regular (up_inodes S i) \<and>
       length (fi_Data (up_inodes S i)) \<le> length (pl_Data pl) \<and>
       (\<forall>k \<in> uc_Parts st. chunk_right pl (fi_Data (up_inodes S i)) k)) \<and>
     uc_Parts st \<subseteq> {0..<chunk_count pl} \<and> uc_PartCount st = chunk_count pl \<and> 0 < pl_Chunk pl"

definition sessions_ok :: "plan \<Rightarrow> uploads \<Rightarrow> bool" where
  "sessions_ok pl S \<longleftrightarrow> (\<forall>uploadID st. up_sessions S uploadID = Some st \<longrightarrow>
     (if uploadID = pl_ID pl then session_ok pl S st else uc_TempPath st \<notin> places pl))"

definition commit_ok :: "plan \<Rightarrow> uploads \<Rightarrow> string \<Rightarrow> commit \<Rightarrow> bool" where
  "commit_ok pl S u cm \<longleftrightarrow>
     (if u = pl_ID pl
      then cm_Path cm = pl_Path pl \<and> cm_TotalSize cm = int (length (pl_Data pl)) \<and> cm_PartPath cm = part_of pl \<and>
        cm_Stage cm \<noteq> Published \<and> 0 < chunk_count pl \<and>
        (\<exists>st. up_sessions S (pl_ID pl) = Some st \<and> uc_Parts st = {0..<chunk_count pl})
      else cm_Path cm \<notin> places pl \<and> cm_PartPath cm \<notin> places pl)"

definition members :: "plan \<Rightarrow> uploads \<Rightarrow> nat set" where
  "members pl S = {n. \<exists>sm. up_streams S n = Some sm \<and> sp_UploadID (sm_Spec sm) = pl_ID pl}"

definition active_ok :: "plan \<Rightarrow> uploads \<Rightarrow> bool" where
  "active_ok pl S \<longleftrightarrow> finite (members pl S) \<and> card (members pl S) = lc_active (lifecycle_of (up_lives S) (pl_ID pl))"

definition upload_inv :: "plan \<Rightarrow> bytes option \<Rightarrow> uploads \<Rightarrow> bool" where
  "upload_inv pl before S \<longleftrightarrow> names_ok S \<and> contents S (pl_Path pl) = before \<and>
     (\<forall>n sm. up_streams S n = Some sm \<longrightarrow> stream_ok pl S sm) \<and> sessions_ok pl S \<and>
     (\<forall>c cm. up_commits S c = Some cm \<longrightarrow> commit_ok pl S c cm) \<and> active_ok pl S"

section \<open>Steps away from the upload\<close>

text \<open>A step that keeps what the invariant reads of the files and of the session.\<close>

definition same_view :: "plan \<Rightarrow> uploads \<Rightarrow> uploads \<Rightarrow> bool" where
  "same_view pl S S' \<longleftrightarrow> (\<forall>p \<in> places pl. up_names S' p = up_names S p) \<and> up_next S \<le> up_next S' \<and>
     (\<forall>p \<in> places pl. \<forall>i. up_names S p = Some i \<longrightarrow> fi_Data (up_inodes S' i) = fi_Data (up_inodes S i) \<and>
       fi_Regular (up_inodes S' i) = fi_Regular (up_inodes S i)) \<and>
     up_sessions S' (pl_ID pl) = up_sessions S (pl_ID pl)"

lemma part_places [simp]: "part_of pl \<in> places pl" "pl_Path pl \<in> places pl"
  by (simp_all add: places_def)

lemma view_refl [simp]: "same_view pl S S"
  by (simp add: same_view_def)

lemma viewD:
  assumes "same_view pl S S'"
  shows "up_names S' (part_of pl) = up_names S (part_of pl)" "up_names S' (pl_Path pl) = up_names S (pl_Path pl)"
    "up_sessions S' (pl_ID pl) = up_sessions S (pl_ID pl)" "up_next S \<le> up_next S'"
    "up_names S (part_of pl) = Some i \<Longrightarrow> fi_Data (up_inodes S' i) = fi_Data (up_inodes S i)"
    "up_names S (part_of pl) = Some i \<Longrightarrow> fi_Regular (up_inodes S' i) = fi_Regular (up_inodes S i)"
    "up_names S (pl_Path pl) = Some i \<Longrightarrow> fi_Data (up_inodes S' i) = fi_Data (up_inodes S i)"
  using assms unfolding same_view_def places_def by blast+

lemma view_contents: "same_view pl S S' \<Longrightarrow> contents S' (pl_Path pl) = contents S (pl_Path pl)"
  by (cases "up_names S (pl_Path pl)") (simp_all add: viewD contents_def)

lemma view_stream:
  assumes "same_view pl S S'" and "stream_ok pl S sm"
  shows "stream_ok pl S' sm"
proof (cases "sp_UploadID (sm_Spec sm) = pl_ID pl")
  case True
  with assms(2) show ?thesis
    by (auto simp: stream_ok_def own_stream_def viewD [OF assms(1)] split: option.splits)
next
  case False
  have "up_names S' p = up_names S p" if "p \<in> places pl" for p using assms(1) that by (simp add: same_view_def)
  with False assms(2) viewD(4) [OF assms(1)] show ?thesis
    by (auto simp: stream_ok_def other_stream_def split: option.splits)
qed

lemma view_session: "same_view pl S S' \<Longrightarrow> session_ok pl S st \<Longrightarrow> session_ok pl S' st"
  unfolding session_ok_def by (auto simp: viewD)

lemma view_commit: "same_view pl S S' \<Longrightarrow> commit_ok pl S u cm \<Longrightarrow> commit_ok pl S' u cm"
  unfolding commit_ok_def same_view_def by auto

lemma view_sessions:
  assumes "same_view pl S S'" and "sessions_ok pl S"
    and "\<And>id st. id \<noteq> pl_ID pl \<Longrightarrow> up_sessions S' id = Some st \<Longrightarrow> uc_TempPath st \<notin> places pl"
  shows "sessions_ok pl S'"
  unfolding sessions_ok_def
proof (intro allI impI)
  fix id st
  assume s: "up_sessions S' id = Some st"
  show "if id = pl_ID pl then session_ok pl S' st else uc_TempPath st \<notin> places pl"
  proof (cases "id = pl_ID pl")
    case True
    with s assms(1) have "up_sessions S (pl_ID pl) = Some st" by (simp add: same_view_def)
    with assms(2) have "session_ok pl S st" by (auto simp: sessions_ok_def)
    with True view_session [OF assms(1)] show ?thesis by simp
  qed (simp add: assms(3) [OF _ s])
qed

lemma view_inv:
  assumes "upload_inv pl before S" and "same_view pl S S'" and "names_ok S'"
    and "\<And>n sm. up_streams S' n = Some sm \<Longrightarrow> up_streams S n = Some sm \<or> stream_ok pl S' sm"
    and "\<And>id st. id \<noteq> pl_ID pl \<Longrightarrow> up_sessions S' id = Some st \<Longrightarrow> uc_TempPath st \<notin> places pl"
    and "\<And>c cm. up_commits S' c = Some cm \<Longrightarrow> up_commits S c = Some cm \<or> commit_ok pl S' c cm"
    and "active_ok pl S'"
  shows "upload_inv pl before S'"
  unfolding upload_inv_def
proof (intro conjI allI impI)
  show "contents S' (pl_Path pl) = before"
    using assms(1) view_contents [OF assms(2)] by (simp add: upload_inv_def)
  show "stream_ok pl S' sm" if "up_streams S' n = Some sm" for n sm
    using assms(1) assms(4) [OF that] view_stream [OF assms(2)] by (auto simp: upload_inv_def)
  show "commit_ok pl S' c cm" if "up_commits S' c = Some cm" for c cm
    using assms(1) assms(6) [OF that] view_commit [OF assms(2)] by (auto simp: upload_inv_def)
  show "sessions_ok pl S'"
    using assms(1) by (intro view_sessions [OF assms(2) _ assms(5)]) (auto simp: upload_inv_def)
qed (rule assms)+

section \<open>The events keep the invariant\<close>

lemma inv_parts:
  assumes "upload_inv pl before S"
  shows "names_ok S" "contents S (pl_Path pl) = before" "up_streams S n = Some sm \<Longrightarrow> stream_ok pl S sm" "sessions_ok pl S"
    "up_commits S c = Some cm \<Longrightarrow> commit_ok pl S c cm" "active_ok pl S"
    "up_sessions S (pl_ID pl) = Some st \<Longrightarrow> session_ok pl S st"
    "up_sessions S u = Some st \<Longrightarrow> u \<noteq> pl_ID pl \<Longrightarrow> uc_TempPath st \<notin> places pl"
  using assms unfolding upload_inv_def sessions_ok_def by auto

lemma lifecycle_upd [simp]:
  "lifecycle_of (lives(v \<mapsto> lc)) v = lc" "v \<noteq> u \<Longrightarrow> lifecycle_of (lives(v := x)) u = lifecycle_of lives u"
  "lifecycle_of (lives(v := None)) v = new_lifecycle"
  by (simp_all add: lifecycle_of_def)

lemma prune_active: "lc_active (lifecycle_of (pruneUploadLifecycles now lives) u) = lc_active (lifecycle_of lives u)"
  by (auto simp: lifecycle_of_def pruneUploadLifecycles_def new_lifecycle_def split: option.split)

lemma wait_active:
  assumes "waitUploadStreams v lives = Some lives'"
  shows "lc_active (lifecycle_of lives' u) = lc_active (lifecycle_of lives u)" "lc_active (lifecycle_of lives v) = 0"
  using assms
  by (cases "v = u"; auto simp: waitUploadStreams_def lifecycle_of_def new_lifecycle_def split: option.splits if_splits)+

lemma lives_inv:
  assumes "upload_inv pl before S" and "lc_active (lifecycle_of l (pl_ID pl)) = lc_active (lifecycle_of (up_lives S) (pl_ID pl))"
  shows "upload_inv pl before (S\<lparr>up_lives := l\<rparr>)"
proof (rule view_inv [OF assms(1)])
  show "active_ok pl (S\<lparr>up_lives := l\<rparr>)"
    using inv_parts(6) [OF assms(1)] assms(2) by (simp add: active_ok_def members_def)
qed (use inv_parts [OF assms(1)] in \<open>auto simp: same_view_def names_ok_def\<close>)

lemma cancel_inv: "upload_inv pl before S \<Longrightarrow> upload_inv pl before (snd (cancel_mark args now S))"
  unfolding cancel_mark_def Let_def
  by (cases "TrimSpace (argString args ''upload_id'') = pl_ID pl")
    (auto intro!: lives_inv simp: cancelUploadStreams_def Let_def prune_active)

lemma end_inv:
  assumes "upload_inv pl before S" and "up_streams S n = Some sm"
  shows "upload_inv pl before (end_stream n sm S)"
proof (rule view_inv [OF assms(1)])
  let ?S = "end_stream n sm S" and ?u = "pl_ID pl"
  note a = inv_parts(6) [OF assms(1)]
  show "active_ok pl ?S"
  proof (cases "sp_UploadID (sm_Spec sm) = ?u")
    case True
    then have m: "members pl ?S = members pl S - {n}" "n \<in> members pl S"
      using assms(2) by (auto simp: members_def end_stream_def split: if_splits)
    have fin: "finite (members pl S)" using a by (simp add: active_ok_def)
    have c: "card (members pl ?S) = card (members pl S) - 1"
      unfolding m(1) using m(2) by (rule card_Diff_singleton)
    have "0 < card (members pl S)" using fin m(2) by (metis card_gt_0_iff empty_iff)
    then have "0 < lc_active (lifecycle_of (up_lives S) ?u)" using a by (simp add: active_ok_def)
    then obtain lc where lc: "up_lives S ?u = Some lc" "0 < lc_active lc"
      by (cases "up_lives S ?u") (auto simp: lifecycle_of_def new_lifecycle_def)
    have "lc_active (lifecycle_of (up_lives ?S) ?u) = lc_active lc - 1"
      using True lc by (simp add: end_stream_def endUploadStream_def Let_def new_lifecycle_def)
    with c a fin lc show ?thesis unfolding active_ok_def m(1) by (simp add: lifecycle_of_def)
  next
    case False
    then have "members pl ?S = members pl S" using assms(2) by (auto simp: members_def end_stream_def)
    moreover have "lifecycle_of (up_lives ?S) ?u = lifecycle_of (up_lives S) ?u"
      using False by (auto simp: end_stream_def endUploadStream_def Let_def lifecycle_of_def split: option.split)
    ultimately show ?thesis using a by (simp add: active_ok_def)
  qed
qed (use inv_parts [OF assms(1)] in \<open>auto simp: same_view_def names_ok_def end_stream_def split: if_splits\<close>)

lemma begin_inv:
  assumes "upload_inv pl before S" and "intended pl home (Begin n args body now)"
  shows "upload_inv pl before (snd (begin_stream home n args body now S))"
proof (cases "up_streams S n")
  case None
  show ?thesis
  proof (cases "parseUploadStreamSpec home args")
    case (Inr sp)
    let ?u = "pl_ID pl" and ?id = "sp_UploadID sp"
    let ?key = "TrimSpace (argString args ''transfer_id'')"
    obtain ok lives where b: "beginUploadStream ?id ?key now (up_lives S) = (ok, lives)" by force
    have act: "lc_active (lifecycle_of lives ?u) = lc_active (lifecycle_of (up_lives S) ?u) + (if ok \<and> ?id = ?u then 1 else 0)"
      using b prune_active [of now "up_lives S" ?u] prune_active [of now "up_lives S" ?id]
      by (cases "?id = ?u") (auto simp: beginUploadStream_def Let_def split: if_splits)
    show ?thesis
    proof (cases ok)
      case False
      with None Inr b act show ?thesis
        by (auto simp: begin_stream_def Let_def intro!: lives_inv [OF assms(1)])
    next
      case True
      let ?sm = "\<lparr>sm_Spec = sp, sm_Key = ?key, sm_Body = body, sm_Open = None\<rparr>"
      let ?S = "S\<lparr>up_lives := lives, up_streams := (up_streams S)(n \<mapsto> ?sm)\<rparr>"
      have "upload_inv pl before ?S"
      proof (rule view_inv [OF assms(1)])
        have "members pl ?S = (if ?id = ?u then insert n (members pl S) else members pl S)" "n \<notin> members pl S"
          using None by (auto simp: members_def)
        with inv_parts(6) [OF assms(1)] act True show "active_ok pl ?S" by (auto simp: active_ok_def)
        have "stream_ok pl ?S ?sm"
          using assms(2) Inr parse_spec(1) [OF Inr]
          by (auto simp: intended_def stream_ok_def own_stream_def other_stream_def split: if_splits)
        then show "up_streams ?S k = Some sm \<Longrightarrow> up_streams S k = Some sm \<or> stream_ok pl ?S sm" for k sm
          by (auto split: if_splits)
      qed (use inv_parts [OF assms(1)] in \<open>auto simp: same_view_def names_ok_def\<close>)
      with None Inr b True show ?thesis by (simp add: begin_stream_def Let_def)
    qed
  qed (simp add: begin_stream_def None assms(1))
qed (simp add: begin_stream_def assms(1))

lemma open_file_other:
  assumes "upload_inv pl before S" and "p \<notin> places pl" and "open_file p trunc S = Some (i, S')"
  shows "upload_inv pl before S'" "i < up_next S'" "\<forall>q \<in> places pl. up_names S' q \<noteq> Some i" "up_streams S' = up_streams S"
    "up_sessions S' = up_sessions S"
proof -
  note n = inv_parts(1) [OF assms(1)]
  have "same_view pl S S' \<and> names_ok S' \<and> i < up_next S' \<and> (\<forall>q \<in> places pl. up_names S' q \<noteq> Some i) \<and>
    up_streams S' = up_streams S \<and> up_sessions S' = up_sessions S \<and> up_commits S' = up_commits S \<and> up_lives S' = up_lives S"
  proof (cases "up_names S p")
    case None
    have "up_names S q \<noteq> Some (up_next S)" for q using n by (auto simp: names_ok_def)
    with None assms(2,3) n show ?thesis
      by (auto simp: open_file_def names_ok_def same_view_def less_Suc_eq split: if_splits)
  next
    case (Some k)
    have "up_names S q \<noteq> Some k" if "q \<in> places pl" for q
      using Some assms(2) n that by (auto simp: names_ok_def)
    with Some assms(3) n show ?thesis
      by (auto simp: open_file_def names_ok_def same_view_def split: if_splits)
  qed
  note * = this
  then show "i < up_next S'" "\<forall>q \<in> places pl. up_names S' q \<noteq> Some i" "up_streams S' = up_streams S" "up_sessions S' = up_sessions S"
    by simp_all
  show "upload_inv pl before S'"
  proof (rule view_inv [OF assms(1)])
    show "active_ok pl S'" using inv_parts(6) [OF assms(1)] * by (simp add: active_ok_def members_def)
  qed (use * inv_parts [OF assms(1)] in auto)
qed

lemma session_made:
  assumes "upload_inv pl before S" and "up_sessions S (pl_ID pl) = None" and "names_ok S'"
    and "up_names S' (pl_Path pl) = up_names S (pl_Path pl)" and "contents S' (pl_Path pl) = contents S (pl_Path pl)"
    and "\<And>i. up_names S' (part_of pl) = Some i \<Longrightarrow> up_names S (part_of pl) = Some i \<or> up_next S \<le> i" and "up_next S \<le> up_next S'"
    and "up_streams S' = up_streams S" "up_commits S' = up_commits S" "up_lives S' = up_lives S"
    and "up_sessions S' = (up_sessions S)(pl_ID pl := x)" and "\<And>st. x = Some st \<Longrightarrow> session_ok pl S' st"
  shows "upload_inv pl before S'"
  unfolding upload_inv_def
proof (intro conjI allI impI)
  show "names_ok S'" by (rule assms(3))
  show "contents S' (pl_Path pl) = before" using assms(5) inv_parts(2) [OF assms(1)] by simp
  show "active_ok pl S'" using inv_parts(6) [OF assms(1)] assms(8,10) by (simp add: active_ok_def members_def)
  show "sessions_ok pl S'"
    using inv_parts(8) [OF assms(1)] assms(11,12) by (auto simp: sessions_ok_def)
  show "commit_ok pl S' c cm" if "up_commits S' c = Some cm" for c cm
    using inv_parts(5) [OF assms(1), of c cm] that assms(2,9) by (auto simp: commit_ok_def)
  show "stream_ok pl S' sm" if "up_streams S' n = Some sm" for n sm
  proof -
    have s: "stream_ok pl S sm" using inv_parts(3) [OF assms(1), of n sm] that assms(8) by simp
    show ?thesis
    proof (cases "sp_UploadID (sm_Spec sm) = pl_ID pl")
      case True
      with s assms(2) show ?thesis by (auto simp: stream_ok_def own_stream_def split: option.splits)
    next
      case False
      with s assms(4,6,7) show ?thesis
        by (fastforce simp: stream_ok_def other_stream_def places_def split: option.splits)
    qed
  qed
qed

lemma part_opened:
  assumes inv: "upload_inv pl before S" and sess: "up_sessions S (pl_ID pl) = None" and pt: "pl_Path pl \<noteq> part_of pl"
    and op: "open_file (part_of pl) True S = Some (i, S')"
  shows "upload_inv pl before S'"
    and "\<lbrakk>own_spec pl sp; chunk_spec sp\<rbrakk> \<Longrightarrow>
      upload_inv pl before (S'\<lparr>up_sessions := (up_sessions S')(pl_ID pl \<mapsto> new_session sp (part_of pl))\<rparr>)"
proof -
  note n = inv_parts(1) [OF inv]
  have T: "up_names S (pl_Path pl) \<noteq> up_names S (part_of pl) \<or> up_names S (part_of pl) = None"
    using n pt by (cases "up_names S (part_of pl)") (auto simp: names_ok_def)
  have f: "names_ok S' \<and> up_names S' (pl_Path pl) = up_names S (pl_Path pl) \<and>
      contents S' (pl_Path pl) = contents S (pl_Path pl) \<and> up_next S \<le> up_next S' \<and> up_streams S' = up_streams S \<and>
      up_commits S' = up_commits S \<and> up_lives S' = up_lives S \<and> up_sessions S' = up_sessions S \<and>
      up_names S' (part_of pl) = Some i \<and> (up_names S (part_of pl) = Some i \<or> up_next S \<le> i) \<and>
      fi_Data (up_inodes S' i) = [] \<and> fi_Regular (up_inodes S' i)"
  proof (cases "up_names S (part_of pl)")
    case None
    moreover have "up_names S p \<noteq> Some (up_next S)" for p using n by (auto simp: names_ok_def)
    ultimately show ?thesis
      using op n pt
      by (cases "up_names S (pl_Path pl)") (auto simp: open_file_def names_ok_def contents_def less_Suc_eq split: if_splits)
  next
    case (Some k)
    then show ?thesis
      using op n pt T
      by (cases "up_names S (pl_Path pl)") (auto simp: open_file_def names_ok_def contents_def split: if_splits)
  qed
  show "upload_inv pl before S'"
    by (rule session_made [OF inv sess, where x = None]) (use f sess in \<open>auto simp: fun_upd_idem\<close>)
  assume sp: "own_spec pl sp" "chunk_spec sp"
  let ?S = "S'\<lparr>up_sessions := (up_sessions S')(pl_ID pl \<mapsto> new_session sp (part_of pl))\<rparr>"
  have "session_ok pl ?S (new_session sp (part_of pl))"
    using f sp by (auto simp: session_ok_def new_session_def own_spec_def chunk_spec_def chunk_count_def)
  then show "upload_inv pl before ?S"
    by (intro session_made [OF inv sess, where x = "Some (new_session sp (part_of pl))"])
      (use f in \<open>auto simp: names_ok_def contents_def\<close>)
qed

lemma other_session:
  assumes "upload_inv pl before S" and "u \<noteq> pl_ID pl" and "\<And>st. x = Some st \<Longrightarrow> uc_TempPath st \<notin> places pl"
  shows "upload_inv pl before (S\<lparr>up_sessions := (up_sessions S)(u := x)\<rparr>)"
proof (rule view_inv [OF assms(1)])
  show "active_ok pl (S\<lparr>up_sessions := (up_sessions S)(u := x)\<rparr>)"
    using inv_parts(6) [OF assms(1)] by (simp add: active_ok_def members_def)
qed (use assms inv_parts [OF assms(1)] in \<open>auto simp: same_view_def names_ok_def split: if_splits\<close>)

lemma find_inv:
  assumes inv: "upload_inv pl before S" and sm: "up_streams S n = Some sm" "sm_Open sm = None" and pt: "pl_Path pl \<noteq> part_of pl"
    and f: "find_session (sm_Spec sm) ok S = (r, S')"
  shows "upload_inv pl before S'" "up_streams S' = up_streams S" "r = Inr st \<Longrightarrow> up_sessions S' (sp_UploadID (sm_Spec sm)) = Some st"
proof -
  let ?sp = "sm_Spec sm"
  let ?part = "uploadPartPathFor (sp_Path ?sp) (sp_UploadID ?sp)"
  have s: "stream_ok pl S sm" by (rule inv_parts(3) [OF inv sm(1)])
  have "upload_inv pl before S' \<and> up_streams S' = up_streams S \<and> (r = Inr st \<longrightarrow> up_sessions S' (sp_UploadID ?sp) = Some st)"
  proof (cases "up_sessions S (sp_UploadID ?sp) = None \<and> sp_First ?sp \<and> ok 0 \<and> open_file ?part True S \<noteq> None")
    case False
    with f inv show ?thesis by (auto simp: find_session_def Let_def split: option.splits if_splits)
  next
    case True
    then obtain i S1 where o: "open_file ?part True S = Some (i, S1)" by auto
    have keep: "up_streams S1 = up_streams S \<and> up_sessions S1 = up_sessions S"
      using o by (auto simp: open_file_def split: option.splits if_splits)
    have two: "upload_inv pl before S1 \<and>
        upload_inv pl before (S1\<lparr>up_sessions := (up_sessions S1)(sp_UploadID ?sp \<mapsto> new_session ?sp ?part)\<rparr>)"
    proof (cases "sp_UploadID ?sp = pl_ID pl")
      case own: True
      with s have sp: "own_spec pl ?sp" "chunk_spec ?sp" by (auto simp: stream_ok_def own_stream_def)
      then have p: "?part = part_of pl" using own by (simp add: own_spec_def part_of_def)
      show ?thesis
        using part_opened [OF inv _ pt o [unfolded p]] True own sp p by simp
    next
      case other: False
      with s have "?part \<notin> places pl" by (simp add: stream_ok_def other_stream_def)
      with open_file_other(1) [OF inv this o] other show ?thesis
        by (auto intro!: other_session simp: new_session_def)
    qed
    have "(r, S') = (if \<not> ok 1 then (Inl ''close'', S1) else
        (Inr (new_session ?sp ?part), S1\<lparr>up_sessions := (up_sessions S1)(sp_UploadID ?sp \<mapsto> new_session ?sp ?part)\<rparr>))"
      using f True o by (auto simp: find_session_def Let_def split: if_splits)
    with two keep show ?thesis by (auto split: if_splits)
  qed
  then show "upload_inv pl before S'" "up_streams S' = up_streams S"
    "r = Inr st \<Longrightarrow> up_sessions S' (sp_UploadID (sm_Spec sm)) = Some st" by simp_all
qed

text \<open>A stream that changes its own entry only.\<close>

lemma stream_set:
  assumes "upload_inv pl before S" and "up_streams S n = Some sm0" and "sp_UploadID (sm_Spec sm) = sp_UploadID (sm_Spec sm0)"
    and "stream_ok pl S sm"
  shows "upload_inv pl before (S\<lparr>up_streams := (up_streams S)(n \<mapsto> sm)\<rparr>)"
proof (rule view_inv [OF assms(1)])
  let ?S = "S\<lparr>up_streams := (up_streams S)(n \<mapsto> sm)\<rparr>"
  have v: "same_view pl S ?S" by (simp add: same_view_def)
  show "same_view pl S ?S" by (rule v)
  show "active_ok pl ?S"
  proof -
    have "members pl ?S = members pl S" using assms(2,3) by (auto simp: members_def)
    then show ?thesis using inv_parts(6) [OF assms(1)] by (simp add: active_ok_def)
  qed
  show "up_streams S k = Some x \<or> stream_ok pl ?S x" if "up_streams ?S k = Some x" for k x
    using that view_stream [OF v assms(4)] by (auto split: if_splits)
qed (use inv_parts [OF assms(1)] in \<open>auto simp: names_ok_def\<close>)

lemma open_inv:
  assumes inv: "upload_inv pl before S" and pt: "pl_Path pl \<noteq> part_of pl"
  shows "upload_inv pl before (snd (open_stream n accepted ok S))"
proof (cases "up_streams S n")
  case (Some sm)
  show ?thesis
  proof (cases "sm_Open sm = None \<and> accepted")
    case False
    with Some show ?thesis using inv end_inv [OF inv Some] by (auto simp: open_stream_def)
  next
    case True
    obtain r S' where f: "find_session (sm_Spec sm) ok S = (r, S')" by force
    note fi = find_inv [OF inv Some conjunct1 [OF True] pt f]
    have Some': "up_streams S' n = Some sm" using fi(2) Some by simp
    note e = end_inv [OF fi(1) Some']
    show ?thesis
    proof (cases r)
      case (Inl err)
      with Some True f e show ?thesis by (simp add: open_stream_def)
    next
      case (Inr st)
      let ?sp = "sm_Spec sm"
      let ?part = "if uc_TempPath st = [] then uploadPartPathFor (sp_Path ?sp) (sp_UploadID ?sp) else uc_TempPath st"
      note sess = fi(3) [OF Inr]
      have s: "stream_ok pl S' sm" by (rule inv_parts(3) [OF fi(1) Some'])
      show ?thesis
      proof (cases "session_mismatch (sp_Path ?sp) (sp_TotalSize ?sp) (sp_ChunkSize ?sp) (sp_ChunkCount ?sp) st = None \<and>
          ok 2 \<and> open_file ?part False S' \<noteq> None")
        case False
        with Some True f Inr e show ?thesis by (auto simp: open_stream_def Let_def split: option.splits)
      next
        case t: True
        then obtain i S'' where o: "open_file ?part False S' = Some (i, S'')" by auto
        let ?sm = "sm\<lparr>sm_Open := Some (?part, i, 0)\<rparr>"
        have "upload_inv pl before (S''\<lparr>up_streams := (up_streams S'')(n \<mapsto> ?sm)\<rparr>)"
        proof (cases "sp_UploadID ?sp = pl_ID pl")
          case own: True
          with sess inv_parts(7) [OF fi(1)] have so: "session_ok pl S' st" by simp
          have p: "?part = part_of pl"
            using so s own by (auto simp: session_ok_def stream_ok_def own_stream_def own_spec_def part_of_def)
          obtain k where k: "up_names S' (part_of pl) = Some k" "fi_Regular (up_inodes S' k)" using so by (auto simp: session_ok_def)
          with o p have S'': "S'' = S'" "i = k" by (auto simp: open_file_def)
          have "stream_ok pl S' ?sm"
            using s own k p sess True S''
            by (auto simp: stream_ok_def own_stream_def right_range_def dest: spec_range(2))
          then show ?thesis unfolding S'' by (intro stream_set [OF fi(1) Some']) simp_all
        next
          case other: False
          with s sess inv_parts(8) [OF fi(1)] have p: "?part \<notin> places pl"
            by (auto simp: stream_ok_def other_stream_def)
          note opn = open_file_other [OF fi(1) p o]
          have "stream_ok pl S'' ?sm"
            using s other p opn by (auto simp: stream_ok_def other_stream_def)
          then show ?thesis using opn(4) Some' by (intro stream_set [OF opn(1)]) simp_all
        qed
        with Some True f Inr t o show ?thesis by (auto simp: open_stream_def Let_def)
      qed
    qed
  qed
qed (simp add: open_stream_def inv)

lemma prefix_drop_both: "prefix xs ys \<Longrightarrow> n \<le> length xs \<Longrightarrow> prefix (drop n xs) (drop n ys)"
  by (auto simp: prefix_def)

lemma write_right:
  assumes "prefix b (drop a (pl_Data pl))" and "length old \<le> length (pl_Data pl)"
  shows "right pl old j \<Longrightarrow> right pl (write_at a b old) j" "a \<le> j \<Longrightarrow> j < a + length b \<Longrightarrow> right pl (write_at a b old) j"
    "length (write_at a b old) \<le> length (pl_Data pl)"
proof -
  have len: "b = [] \<or> a + length b \<le> length (pl_Data pl)"
    using prefix_length_le [OF assms(1)] by (cases b) auto
  have nth: "k < length b \<Longrightarrow> b ! k = pl_Data pl ! (a + k)" for k
    using assms(1) len by (cases "b = []") (auto simp: prefix_def nth_append dest!: arg_cong [where f = "\<lambda>xs. xs ! k"])
  have at: "write_at a b old ! j = (if j < a then (if j < length old then old ! j else CHR 0x00)
      else if j < a + length b then b ! (j - a) else old ! j)" "j < length (write_at a b old)"
    if "b \<noteq> []" "j < max (length old) (a + length b)" for j
    using that by (auto simp: write_at_def nth_append min_def max_def split: if_splits)
  show "length (write_at a b old) \<le> length (pl_Data pl)"
    using len assms(2) by (auto simp: write_at_def)
  show "right pl (write_at a b old) j" if "a \<le> j" "j < a + length b"
  proof -
    have "b \<noteq> []" using that by auto
    with at [of j] that nth [of "j - a"] len show ?thesis by (auto simp: right_def)
  qed
  show "right pl (write_at a b old) j" if "right pl old j"
  proof (cases "b = []")
    case False
    with at [of j] that nth [of "j - a"] len show ?thesis by (auto simp: right_def)
  qed (use that in \<open>simp add: write_at_def\<close>)
qed

lemma own_inode:
  assumes "upload_inv pl before S" and "pl_Path pl \<noteq> part_of pl" and "up_names S (part_of pl) = Some i"
  shows "up_names S (pl_Path pl) \<noteq> Some i"
  using inv_parts(1) [OF assms(1)] assms(2,3) by (auto simp: names_ok_def)

lemma data_grown:
  assumes inv: "upload_inv pl before S" and pt: "pl_Path pl \<noteq> part_of pl" and P: "up_names S (part_of pl) = Some i"
    and new: "\<And>j. right pl (fi_Data (up_inodes S i)) j \<Longrightarrow> right pl b j" "length b \<le> length (pl_Data pl)"
  shows "upload_inv pl before (set_data i b S)"
proof -
  let ?S = "set_data i b S"
  note T = own_inode [OF inv pt P]
  have range: "right_range pl (fi_Data (up_inodes S i)) x y \<Longrightarrow> right_range pl b x y" for x y
    using new(1) by (auto simp: right_range_def)
  show ?thesis
    unfolding upload_inv_def
  proof (intro conjI allI impI)
    show "names_ok ?S" using inv_parts(1) [OF inv] by (simp add: names_ok_def set_data_def)
    show "contents ?S (pl_Path pl) = before"
      using inv_parts(2) [OF inv] T by (cases "up_names S (pl_Path pl)") (auto simp: contents_def set_data_def)
    show "active_ok pl ?S" using inv_parts(6) [OF inv] by (simp add: active_ok_def members_def set_data_def)
    show "stream_ok pl ?S sm" if "up_streams ?S n = Some sm" for n sm
    proof -
      have "stream_ok pl S sm" using inv_parts(3) [OF inv, of n sm] that by (simp add: set_data_def)
      then show ?thesis
        using P range by (auto simp: stream_ok_def own_stream_def other_stream_def set_data_def split: option.splits if_splits)
    qed
    show "sessions_ok pl ?S"
      using inv_parts(4) [OF inv] P range new(2)
      by (auto simp: sessions_ok_def session_ok_def set_data_def chunk_right_def split: if_splits)
    show "commit_ok pl ?S c cm" if "up_commits ?S c = Some cm" for c cm
      using inv_parts(5) [OF inv, of c cm] that by (simp add: set_data_def commit_ok_def)
  qed
qed

lemma data_elsewhere:
  assumes inv: "upload_inv pl before S" and out: "\<forall>p \<in> places pl. up_names S p \<noteq> Some i"
  shows "upload_inv pl before (S\<lparr>up_inodes := (up_inodes S)(i := f)\<rparr>)"
proof (rule view_inv [OF inv])
  show "active_ok pl (S\<lparr>up_inodes := (up_inodes S)(i := f)\<rparr>)"
    using inv_parts(6) [OF inv] by (simp add: active_ok_def members_def)
qed (use out inv_parts [OF inv] in \<open>auto simp: same_view_def names_ok_def\<close>)

lemma receive_inv:
  assumes inv: "upload_inv pl before S" and pt: "pl_Path pl \<noteq> part_of pl"
  shows "upload_inv pl before (snd (receive n k written S))"
proof (cases "\<exists>sm part i w. up_streams S n = Some sm \<and> sm_Open sm = Some (part, i, w)")
  case False
  then have "up_streams S n = None \<or> (\<exists>sm. up_streams S n = Some sm \<and> sm_Open sm = None)"
    by (metis option.exhaust prod_cases3)
  then have "snd (receive n k written S) = S" by (auto simp only: receive_def option.case snd_conv)
  with inv show ?thesis by simp
next
  case True
  then obtain sm part i w where sm: "up_streams S n = Some sm" "sm_Open sm = Some (part, i, w)" by auto
  let ?sp = "sm_Spec sm"
  define b where "b = take (min k (nat (sp_Expected ?sp) - w)) (sm_Body sm)"
  have lb: "length b \<le> nat (sp_Expected ?sp) - w" by (simp add: b_def)
  let ?r = "take written b"
  let ?S = "set_data i (write_at (nat (sp_Offset ?sp) + w) ?r (fi_Data (up_inodes S i))) S"
  let ?sm = "sm\<lparr>sm_Body := drop (length b) (sm_Body sm), sm_Open := Some (part, i, w + length b)\<rparr>"
  have s: "stream_ok pl S sm" by (rule inv_parts(3) [OF inv sm(1)])
  have both: "upload_inv pl before ?S \<and> (length ?r = length b \<longrightarrow> stream_ok pl ?S ?sm)"
  proof (cases "sp_UploadID ?sp = pl_ID pl")
    case True
    with s sm have o: "chunk_spec ?sp" "part = part_of pl" "up_names S (part_of pl) = Some i" "up_sessions S (pl_ID pl) \<noteq> None"
        "int w \<le> sp_Expected ?sp" "right_range pl (fi_Data (up_inodes S i)) (sp_Offset ?sp) (int w)"
        "prefix (take (nat (sp_Expected ?sp) - w) (sm_Body sm)) (drop (nat (sp_Offset ?sp) + w) (pl_Data pl))" "own_spec pl ?sp"
      by (auto simp: stream_ok_def own_stream_def)
    have pb: "prefix b (drop (nat (sp_Offset ?sp) + w) (pl_Data pl))"
    proof -
      have "prefix b (take (nat (sp_Expected ?sp) - w) (sm_Body sm))"
        by (metis b_def min.commute take_is_prefix take_take)
      with o(7) show ?thesis by (rule prefix_order.trans [rotated])
    qed
    then have pr: "prefix ?r (drop (nat (sp_Offset ?sp) + w) (pl_Data pl))"
      using take_is_prefix prefix_order.trans by blast
    from o(4) inv_parts(7) [OF inv] o(3) have len: "length (fi_Data (up_inodes S i)) \<le> length (pl_Data pl)"
      by (auto simp: session_ok_def)
    note wr = write_right [OF pr len]
    have iS: "upload_inv pl before ?S" by (rule data_grown [OF inv pt o(3) wr(1,3)])
    have "stream_ok pl ?S ?sm" if "length ?r = length b"
    proof -
      have rb: "?r = b" using that by (metis take_all_iff length_take min.absorb_iff2 nat_le_linear)
      have "right_range pl (fi_Data (up_inodes ?S i)) (sp_Offset ?sp) (int (w + length b))"
        unfolding right_range_def
      proof (intro allI impI)
        fix j assume j: "sp_Offset ?sp \<le> int j \<and> int j < sp_Offset ?sp + int (w + length b)"
        have off: "0 \<le> sp_Offset ?sp" by (rule spec_range(1) [OF o(1)])
        show "right pl (fi_Data (up_inodes ?S i)) j"
        proof (cases "int j < sp_Offset ?sp + int w")
          case True
          with j o(6) have "right pl (fi_Data (up_inodes S i)) j" by (simp add: right_range_def)
          from wr(1) [OF this] show ?thesis by (simp add: set_data_def)
        next
          case False
          with j off have l: "nat (sp_Offset ?sp) + w \<le> j" by linarith
          have "j < nat (sp_Offset ?sp) + w + length b" using j off by linarith
          then have "j < nat (sp_Offset ?sp) + w + length ?r" by (simp only: rb)
          from wr(2) [OF l this] show ?thesis by (simp add: set_data_def)
        qed
      qed
      moreover have "prefix (take (nat (sp_Expected ?sp) - (w + length b)) (drop (length b) (sm_Body sm)))
          (drop (nat (sp_Offset ?sp) + (w + length b)) (pl_Data pl))"
      proof -
        have "prefix (drop (length b) (take (nat (sp_Expected ?sp) - w) (sm_Body sm)))
            (drop (length b) (drop (nat (sp_Offset ?sp) + w) (pl_Data pl)))"
          by (rule prefix_drop_both [OF o(7)]) (simp add: b_def)
        then show ?thesis by (simp add: drop_take ac_simps)
      qed
      moreover have "int (w + length b) \<le> sp_Expected ?sp" using o(5) lb by linarith
      ultimately show ?thesis
        using o True by (simp add: stream_ok_def own_stream_def set_data_def)
    qed
    with iS show ?thesis by blast
  next
    case False
    with s sm have out: "\<forall>p \<in> places pl. up_names S p \<noteq> Some i" by (simp add: stream_ok_def other_stream_def)
    have iS: "upload_inv pl before ?S" unfolding set_data_def by (rule data_elsewhere [OF inv out])
    have "stream_ok pl ?S ?sm"
      using s sm False by (simp add: stream_ok_def other_stream_def set_data_def)
    with iS show ?thesis by blast
  qed
  have sS: "up_streams ?S n = Some sm" using sm by (simp add: set_data_def)
  have r: "snd (receive n k written S) = (if length ?r < length b then end_stream n sm ?S
      else ?S\<lparr>up_streams := (up_streams ?S)(n \<mapsto> ?sm)\<rparr>)"
    unfolding receive_def sm(1) option.case sm(2) prod.case Let_def b_def [symmetric] set_data_def
    by (simp only: if_distrib [of snd] snd_conv)
  show ?thesis
  proof (cases "length ?r < length b")
    case True
    show ?thesis unfolding r if_P [OF True] by (rule end_inv [OF conjunct1 [OF both] sS])
  next
    case False
    then have "length ?r = length b" by simp
    with both have "stream_ok pl ?S ?sm" by blast
    then show ?thesis unfolding r if_not_P [OF False] by (intro stream_set [OF conjunct1 [OF both] sS]) simp_all
  qed
qed

lemma session_set:
  assumes inv: "upload_inv pl before S" and old: "up_sessions S (pl_ID pl) = Some st" and new: "session_ok pl S st'"
    and more: "uc_Parts st \<subseteq> uc_Parts st'"
  shows "upload_inv pl before (S\<lparr>up_sessions := (up_sessions S)(pl_ID pl \<mapsto> st')\<rparr>)"
  unfolding upload_inv_def
proof (intro conjI allI impI)
  let ?S = "S\<lparr>up_sessions := (up_sessions S)(pl_ID pl \<mapsto> st')\<rparr>"
  show "names_ok ?S" using inv_parts(1) [OF inv] by (simp add: names_ok_def)
  show "contents ?S (pl_Path pl) = before" using inv_parts(2) [OF inv] by (simp add: contents_def)
  show "active_ok pl ?S" using inv_parts(6) [OF inv] by (simp add: active_ok_def members_def)
  have "session_ok pl ?S st'" using new by (simp add: session_ok_def)
  then show "sessions_ok pl ?S" using inv_parts(8) [OF inv] by (auto simp: sessions_ok_def)
  show "stream_ok pl ?S sm" if "up_streams ?S n = Some sm" for n sm
    using inv_parts(3) [OF inv, of n sm] that
    by (auto simp: stream_ok_def own_stream_def other_stream_def split: option.splits)
  show "commit_ok pl ?S c cm" if "up_commits ?S c = Some cm" for c cm
    using inv_parts(5) [OF inv, of c cm] that old more new by (auto simp: commit_ok_def session_ok_def)
qed

lemma finish_inv:
  assumes inv: "upload_inv pl before S"
  shows "upload_inv pl before (snd (finish_stream n ok now S))"
proof (cases "\<exists>sm part i w. up_streams S n = Some sm \<and> sm_Open sm = Some (part, i, w)")
  case False
  then have "up_streams S n = None \<or> (\<exists>sm. up_streams S n = Some sm \<and> sm_Open sm = None)"
    by (metis option.exhaust prod_cases3)
  then have "snd (finish_stream n ok now S) = S" by (auto simp only: finish_stream_def option.case snd_conv)
  with inv show ?thesis by simp
next
  case True
  then obtain sm part i w where sm: "up_streams S n = Some sm" "sm_Open sm = Some (part, i, w)" by auto
  let ?sp = "sm_Spec sm" and ?E = "end_stream n sm S"
  note E = end_inv [OF inv sm(1)]
  have s: "stream_ok pl S sm" by (rule inv_parts(3) [OF inv sm(1)])
  show ?thesis
  proof (cases "int w = sp_Expected ?sp \<and> ok 0 \<and> ok 1 \<and> up_sessions S (sp_UploadID ?sp) \<noteq> None")
    case False
    then have "snd (finish_stream n ok now S) = ?E"
      using sm by (auto simp: finish_stream_def Let_def split: option.split)
    with E show ?thesis by simp
  next
    case go: True
    then obtain st where st: "up_sessions S (sp_UploadID ?sp) = Some st" by auto
    let ?st = "record_part ?sp part (int w) now st"
    have keep: "up_sessions ?E = up_sessions S" "up_names ?E = up_names S" "up_inodes ?E = up_inodes S"
      by (simp_all add: end_stream_def)
    have r: "snd (finish_stream n ok now S) = ?E\<lparr>up_sessions := (up_sessions ?E)(sp_UploadID ?sp \<mapsto> ?st)\<rparr>"
      using sm go st by (simp add: finish_stream_def Let_def)
    show ?thesis
    proof (cases "sp_UploadID ?sp = pl_ID pl")
      case own: True
      with s sm have o: "chunk_spec ?sp" "own_spec pl ?sp" "part = part_of pl" "up_names S (part_of pl) = Some i"
          "right_range pl (fi_Data (up_inodes S i)) (sp_Offset ?sp) (int w)"
        by (auto simp: stream_ok_def own_stream_def)
      have so: "session_ok pl ?E st" using own st keep inv_parts(7) [OF E] by simp
      have k: "sp_ChunkIndex ?sp \<in> {0..<chunk_count pl}" "sp_ChunkCount ?sp = chunk_count pl"
        using o(1,2) by (auto simp: chunk_spec_def own_spec_def chunk_count_def)
      have "chunk_right pl (fi_Data (up_inodes S i)) (sp_ChunkIndex ?sp)"
        using o(1,2,5) go unfolding chunk_right_def chunk_spec_def own_spec_def by simp
      with so o(3,4) k keep o(2) [unfolded own_spec_def] have "session_ok pl ?E ?st"
        unfolding session_ok_def record_part_def by auto
      moreover have "up_sessions ?E (pl_ID pl) = Some st" using own st keep by simp
      ultimately have "upload_inv pl before (?E\<lparr>up_sessions := (up_sessions ?E)(pl_ID pl \<mapsto> ?st)\<rparr>)"
        using E by (intro session_set) (auto simp: record_part_def)
      then show ?thesis unfolding r own .
    next
      case other: False
      with s sm have "part \<notin> places pl" by (simp add: stream_ok_def other_stream_def)
      then show ?thesis unfolding r using other E by (intro other_session) (auto simp: record_part_def)
    qed
  qed
qed

lemma commit_set:
  assumes "upload_inv pl before S" and "\<And>cm. x = Some cm \<Longrightarrow> commit_ok pl S c cm"
  shows "upload_inv pl before (S\<lparr>up_commits := (up_commits S)(c := x)\<rparr>)"
proof (rule view_inv [OF assms(1)])
  let ?S = "S\<lparr>up_commits := (up_commits S)(c := x)\<rparr>"
  have v: "same_view pl S ?S" by (simp add: same_view_def)
  then show "same_view pl S ?S" .
  show "active_ok pl ?S" using inv_parts(6) [OF assms(1)] by (simp add: active_ok_def members_def)
  show "up_commits S k = Some cm \<or> commit_ok pl ?S k cm" if "up_commits ?S k = Some cm" for k cm
    using that view_commit [OF v assms(2)] by (auto split: if_splits)
qed (use inv_parts [OF assms(1)] in \<open>auto simp: names_ok_def\<close>)

lemma drop_inv: "upload_inv pl before S \<Longrightarrow> upload_inv pl before (drop_commit c S)"
  unfolding drop_commit_def by (rule commit_set) simp_all

text \<open>When a commit finds as many parts as the upload has chunks, every chunk has been recorded.\<close>

lemma all_recorded:
  assumes "session_ok pl S st" and "session_mismatch p amount cs count st = None" and "int (card (uc_Parts st)) = count" "0 < count"
  shows "uc_Parts st = {0..<chunk_count pl}" "0 < chunk_count pl"
proof -
  have sub: "uc_Parts st \<subseteq> {0..<chunk_count pl}" "uc_PartCount st = chunk_count pl" using assms(1) by (auto simp: session_ok_def)
  have "uc_Parts st \<noteq> {}" using assms(3,4) by auto
  with sub(1) show pos: "0 < chunk_count pl" by (metis atLeastLessThan_empty_iff2 bot.extremum_uniqueI)
  with assms(2) sub(2) have "count = chunk_count pl" by (auto simp: session_mismatch_def split: if_splits)
  with assms(3) pos have "card (uc_Parts st) = card {0..<chunk_count pl}" by simp
  with sub(1) show "uc_Parts st = {0..<chunk_count pl}" by (intro card_subset_eq) simp_all
qed

lemma commit_wait_inv: "upload_inv pl before S \<Longrightarrow> upload_inv pl before (snd (commit_wait home args S))"
  by (auto simp: commit_wait_def intro!: lives_inv dest!: wait_active(1) split: option.split sum.split)

lemma commit_check_inv:
  assumes inv: "upload_inv pl before S" and int: "intended pl home (CommitCheck args)"
  shows "upload_inv pl before (snd (commit_check home args S))"
proof (cases "\<exists>x. parse_commit home args = Inr x")
  case False
  with inv show ?thesis by (cases "parse_commit home args") (auto simp: commit_check_def)
next
  case True
  then obtain u p amount cs count where parsed: "parse_commit home args = Inr (u, p, amount, cs, count)"
    by (metis prod_cases5)
  show ?thesis
  proof (cases "\<exists>st. \<not> locked u S \<and> up_sessions S u = Some st \<and> session_mismatch p amount cs count st = None \<and>
      int (card (uc_Parts st)) = count \<and> uc_TempPath st \<noteq> []")
    case True
    then obtain st where st: "\<not> locked u S" "up_sessions S u = Some st" "session_mismatch p amount cs count st = None"
        "int (card (uc_Parts st)) = count" "uc_TempPath st \<noteq> []" by auto
    let ?cm = "\<lparr>cm_Path = p, cm_TotalSize = amount, cm_PartPath = uc_TempPath st, cm_Stage = Checked\<rparr>"
    have count: "0 < count" using parsed by (auto simp: parse_commit_def Let_def split: if_splits)
    have "commit_ok pl S u ?cm"
    proof (cases "u = pl_ID pl")
      case own: True
      have so: "session_ok pl S st" using inv_parts(7) [OF inv] st(2) own by simp
      show ?thesis
        using int parsed own so all_recorded [OF so st(3,4) count] st(2)
        by (auto simp: intended_def commit_ok_def session_ok_def)
    next
      case False
      with int parsed inv_parts(8) [OF inv] st(2) show ?thesis by (auto simp: intended_def commit_ok_def)
    qed
    then have "upload_inv pl before (S\<lparr>up_commits := (up_commits S)(u \<mapsto> ?cm)\<rparr>)"
      by (intro commit_set [OF inv]) simp
    then show ?thesis using parsed st by (simp add: commit_check_def)
  next
    case failed: False
    then have "snd (commit_check home args S) = S"
      using parsed
      by (cases "up_sessions S u"; cases "session_mismatch p amount cs count (the (up_sessions S u))")
        (auto simp: commit_check_def)
    with inv show ?thesis by simp
  qed
qed

lemma commit_size_inv:
  assumes inv: "upload_inv pl before S"
  shows "upload_inv pl before (snd (commit_size c ok S))"
proof (cases "\<exists>cm i. up_commits S c = Some cm \<and> cm_Stage cm = Checked \<and> up_names S (cm_PartPath cm) = Some i")
  case False
  then have "snd (commit_size c ok S) \<in> {S, drop_commit c S}"
    by (auto simp: commit_size_def split: option.split)
  with inv drop_inv [OF inv] show ?thesis by auto
next
  case True
  then obtain cm i where cm: "up_commits S c = Some cm" "cm_Stage cm = Checked" "up_names S (cm_PartPath cm) = Some i" by auto
  let ?b = "fi_Data (up_inodes S i)" and ?n = "nat (cm_TotalSize cm)" and ?cm = "cm\<lparr>cm_Stage := Sized\<rparr>"
  let ?S = "S\<lparr>up_commits := (up_commits S)(c \<mapsto> ?cm)\<rparr>"
  have co: "commit_ok pl S c cm" by (rule inv_parts(5) [OF inv cm(1)])
  have "upload_inv pl before ?S" using co cm(2) by (intro commit_set [OF inv]) (auto simp: commit_ok_def)
  note here = this
  have cut: "upload_inv pl before (set_data i (take ?n ?b) ?S)" if "?n < length ?b"
  proof (cases "c = pl_ID pl")
    case True
    with co obtain st where "up_sessions S (pl_ID pl) = Some st" by (auto simp: commit_ok_def)
    from inv_parts(7) [OF inv this] True co cm(3) have "length ?b \<le> ?n" by (auto simp: session_ok_def commit_ok_def)
    with that show ?thesis by simp
  next
    case False
    with co cm(3) inv_parts(1) [OF inv] have "\<forall>p \<in> places pl. up_names ?S p \<noteq> Some i"
      by (auto simp: commit_ok_def names_ok_def)
    from data_elsewhere [OF here this] show ?thesis unfolding set_data_def .
  qed
  have "snd (commit_size c ok S) \<in> {drop_commit c S, ?S} \<or>
      (?n < length ?b \<and> snd (commit_size c ok S) = set_data i (take ?n ?b) ?S)"
    using cm by (auto simp: commit_size_def Let_def)
  with here cut drop_inv [OF inv] show ?thesis by auto
qed

lemma metadata_inv:
  assumes inv: "upload_inv pl before S" and m: "preserveReplacementMetadata i existing ok S = (r, S')"
  shows "upload_inv pl before S'" "up_names S' = up_names S" "up_commits S' = up_commits S" "up_sessions S' = up_sessions S"
    "fi_Data (up_inodes S' j) = fi_Data (up_inodes S j)"
proof -
  have f: "up_names S' = up_names S \<and> up_commits S' = up_commits S \<and> up_sessions S' = up_sessions S \<and>
      up_streams S' = up_streams S \<and> up_lives S' = up_lives S \<and> up_next S' = up_next S \<and>
      (\<forall>j. fi_Data (up_inodes S' j) = fi_Data (up_inodes S j) \<and> fi_Regular (up_inodes S' j) = fi_Regular (up_inodes S j))"
    using m by (cases existing) (auto simp: preserveReplacementMetadata_def Let_def split: if_splits)
  then show "up_names S' = up_names S" "up_commits S' = up_commits S" "up_sessions S' = up_sessions S"
    "fi_Data (up_inodes S' j) = fi_Data (up_inodes S j)" by simp_all
  show "upload_inv pl before S'"
  proof (rule view_inv [OF inv])
    show "active_ok pl S'" using inv_parts(6) [OF inv] f by (simp add: active_ok_def members_def)
  qed (use inv_parts [OF inv] f in \<open>auto simp: same_view_def names_ok_def\<close>)
qed

text \<open>A publication: the rename of a commit of this upload succeeds.\<close>

definition publishes :: "plan \<Rightarrow> event \<Rightarrow> uploads \<Rightarrow> bool" where
  "publishes pl ev S \<longleftrightarrow>
     (case ev of
        CommitRename c ok \<Rightarrow>
          c = pl_ID pl \<and> fst (commit_rename c ok S) = Going
      | _ \<Rightarrow> False)"

lemma names_moved:
  assumes "names_ok S" and "up_names S a = Some i"
  shows "names_ok (S\<lparr>up_names := (up_names S)(a := None, b \<mapsto> i)\<rparr>)"
  using assms by (auto simp: names_ok_def)

lemma commit_rename_inv:
  assumes inv: "upload_inv pl before S" and not: "\<not> publishes pl (CommitRename c ok) S"
  shows "upload_inv pl before (snd (commit_rename c ok S))"
proof (cases "\<exists>cm existing i. up_commits S c = Some cm \<and> cm_Stage cm = Sized \<and> ok 0 \<and> ok 1 \<and>
    replaceableFile (cm_Path cm) S = Inr existing \<and> up_names S (cm_PartPath cm) = Some i")
  case False
  then have "snd (commit_rename c ok S) \<in> {S, drop_commit c S}"
    by (auto simp: commit_rename_def split: option.split sum.split)
  with inv drop_inv [OF inv] show ?thesis by auto
next
  case True
  then obtain cm existing i where cm: "up_commits S c = Some cm" "cm_Stage cm = Sized" "ok 0" "ok 1"
      "replaceableFile (cm_Path cm) S = Inr existing" "up_names S (cm_PartPath cm) = Some i" by auto
  obtain r S' where m: "preserveReplacementMetadata i existing (\<lambda>k. ok (k + 2)) S = (r, S')" by force
  note mi = metadata_inv [OF inv m]
  show ?thesis
  proof (cases "r \<and> ok 4")
    case False
    then have "snd (commit_rename c ok S) = drop_commit c S'" using cm m by (auto simp: commit_rename_def split: bool.split)
    with drop_inv [OF mi(1)] show ?thesis by simp
  next
    case True
    let ?T = "S'\<lparr>up_names := (up_names S')(cm_PartPath cm := None, cm_Path cm \<mapsto> i)\<rparr>"
    let ?cm = "cm\<lparr>cm_Stage := Published\<rparr>"
    have s: "snd (commit_rename c ok S) = ?T\<lparr>up_commits := (up_commits ?T)(c \<mapsto> ?cm)\<rparr>" "fst (commit_rename c ok S) = Going"
      using True cm m by (simp_all add: commit_rename_def)
    with not cm(1) have other: "c \<noteq> pl_ID pl" by (simp add: publishes_def)
    with inv_parts(5) [OF inv cm(1)] have out: "cm_Path cm \<notin> places pl" "cm_PartPath cm \<notin> places pl"
      by (simp_all add: commit_ok_def)
    have away: "\<forall>p \<in> places pl. up_names ?T p = up_names S' p" using out by auto
    have "upload_inv pl before ?T"
    proof (rule view_inv [OF mi(1)])
      show "same_view pl S' ?T" using away by (simp add: same_view_def)
      show "names_ok ?T" using inv_parts(1) [OF mi(1)] cm(6) mi(2) by (intro names_moved) simp_all
      show "active_ok pl ?T" using inv_parts(6) [OF mi(1)] by (simp add: active_ok_def members_def)
    qed (use inv_parts [OF mi(1)] in auto)
    then show ?thesis unfolding s(1) using other out by (intro commit_set) (auto simp: commit_ok_def)
  qed
qed

lemma commit_sync_inv:
  assumes inv: "upload_inv pl before S"
  shows "upload_inv pl before (snd (commit_sync c ok S))"
proof (cases "\<exists>cm. up_commits S c = Some cm \<and> cm_Stage cm = Published")
  case False
  with inv show ?thesis by (auto simp: commit_sync_def split: option.split)
next
  case True
  then obtain cm where cm: "up_commits S c = Some cm" "cm_Stage cm = Published" by auto
  with inv_parts(5) [OF inv cm(1)] have "c \<noteq> pl_ID pl" by (auto simp: commit_ok_def)
  then have "upload_inv pl before ((drop_commit c S)\<lparr>up_sessions := (up_sessions (drop_commit c S))(c := None)\<rparr>)"
    by (intro other_session [OF drop_inv [OF inv]]) simp_all
  with drop_inv [OF inv] cm show ?thesis by (simp add: commit_sync_def drop_commit_def)
qed

text \<open>A removal of this upload finds no stream and no commit of it.\<close>

lemma cleared_inv:
  assumes inv: "upload_inv pl before S" and none: "members pl S = {}" "\<not> locked (pl_ID pl) S" and p: "p \<noteq> pl_Path pl"
    and N: "N = up_names S \<or> N = (up_names S)(p := None)"
  shows "upload_inv pl before (S\<lparr>up_names := N, up_sessions := (up_sessions S)(pl_ID pl := None)\<rparr>)"
  unfolding upload_inv_def
proof (intro conjI allI impI)
  let ?S = "S\<lparr>up_names := N, up_sessions := (up_sessions S)(pl_ID pl := None)\<rparr>"
  show "names_ok ?S" using inv_parts(1) [OF inv] N by (auto simp: names_ok_def split: if_splits)
  show "contents ?S (pl_Path pl) = before" using inv_parts(2) [OF inv] p N by (auto simp: contents_def)
  show "active_ok pl ?S" using inv_parts(6) [OF inv] by (simp add: active_ok_def members_def)
  show "sessions_ok pl ?S" using inv_parts(8) [OF inv] by (auto simp: sessions_ok_def)
  show "stream_ok pl ?S sm" if "up_streams ?S n = Some sm" for n sm
  proof -
    have "sp_UploadID (sm_Spec sm) \<noteq> pl_ID pl" using none(1) that by (auto simp: members_def)
    with inv_parts(3) [OF inv, of n sm] that N show ?thesis
      by (auto simp: stream_ok_def other_stream_def split: option.splits if_splits)
  qed
  show "commit_ok pl ?S c cm" if "up_commits ?S c = Some cm" for c cm
  proof -
    have "c \<noteq> pl_ID pl" using none(2) that by (auto simp: locked_def)
    with inv_parts(5) [OF inv, of c cm] that show ?thesis by (simp add: commit_ok_def)
  qed
qed

lemma names_removed:
  assumes inv: "upload_inv pl before S" and p: "p \<notin> places pl"
  shows "upload_inv pl before (remove_file p S)"
proof (rule view_inv [OF inv])
  show "same_view pl S (remove_file p S)" using p by (auto simp: same_view_def remove_file_def)
  show "names_ok (remove_file p S)" using inv_parts(1) [OF inv] by (auto simp: names_ok_def remove_file_def)
  show "active_ok pl (remove_file p S)" using inv_parts(6) [OF inv] by (simp add: active_ok_def members_def remove_file_def)
qed (use inv_parts [OF inv] in \<open>auto simp: remove_file_def\<close>)

lemma cancel_remove_inv:
  assumes inv0: "upload_inv pl before S" and int: "intended pl home (CancelRemove args ok)"
    and pt: "pl_Path pl \<noteq> part_of pl"
  shows "upload_inv pl before (snd (cancel_remove home args ok S))"
proof -
  let ?u = "TrimSpace (argString args ''upload_id'')" and ?given = "TrimSpace (argString args ''path'')"
  let ?target = "if ?given = [] then [] else resolveFilePath home ?given"
  show ?thesis
  proof (cases "?u = [] \<or> locked ?u S \<or> waitUploadStreams ?u (up_lives S) = None")
    case True
    with inv0 show ?thesis by (auto simp: cancel_remove_def Let_def)
  next
    case False
    then obtain l where l: "waitUploadStreams ?u (up_lives S) = Some l" by auto
    let ?S = "S\<lparr>up_lives := l\<rparr>"
    have inv: "upload_inv pl before ?S" by (rule lives_inv [OF inv0 wait_active(1) [OF l]])
    have clear: "upload_inv pl before (?S\<lparr>up_names := N, up_sessions := (up_sessions ?S)(pl_ID pl := None)\<rparr>)"
      if own: "?u = pl_ID pl" and p: "p \<noteq> pl_Path pl" "N = up_names ?S \<or> N = (up_names ?S)(p := None)" for p N
    proof (rule cleared_inv [OF inv _ _ p])
      show "\<not> locked (pl_ID pl) ?S" using False own by (simp add: locked_def)
      have "finite (members pl ?S)" "card (members pl ?S) = 0"
        using inv_parts(6) [OF inv0] wait_active(2) [OF l] own by (simp_all add: active_ok_def members_def)
      then show "members pl ?S = {}" by simp
    qed
    show ?thesis
    proof (cases "up_sessions S ?u")
      case (Some st)
      let ?N = "if uc_TempPath st = [] then up_names S else (up_names S)(uc_TempPath st := None)"
      have "snd (cancel_remove home args ok S) \<in> {?S, ?S\<lparr>up_names := ?N, up_sessions := (up_sessions S)(?u := None)\<rparr>}"
        using False l Some by (auto simp: cancel_remove_def Let_def removeUploadFile_def remove_file_def)
      moreover have "upload_inv pl before (?S\<lparr>up_names := ?N, up_sessions := (up_sessions S)(?u := None)\<rparr>)"
      proof (cases "?u = pl_ID pl")
        case True
        with inv_parts(7) [OF inv] Some have "uc_TempPath st = part_of pl" by (simp add: session_ok_def)
        with clear [OF True, of "part_of pl" ?N] pt True show ?thesis by simp
      next
        case other: False
        with inv_parts(8) [OF inv] Some have p: "uc_TempPath st \<notin> places pl" by simp
        have "upload_inv pl before (?S\<lparr>up_names := ?N\<rparr>)"
          using inv names_removed [OF inv p] by (simp add: remove_file_def)
        from other_session [OF this other, of None] show ?thesis by simp
      qed
      ultimately show ?thesis using inv by auto
    next
      case None
      let ?p = "uploadPartPathFor (resolveFilePath home ?given) ?u"
      have "snd (cancel_remove home args ok S) \<in> {?S, remove_file ?p ?S}"
        using False l None by (auto simp: cancel_remove_def Let_def)
      moreover have "upload_inv pl before (remove_file ?p ?S)"
      proof (cases "?u = pl_ID pl")
        case True
        have "?p \<noteq> pl_Path pl" using int by (simp add: intended_def Let_def)
        from clear [OF True this disjI2 [OF refl]] None True show ?thesis by (simp add: remove_file_def fun_upd_idem)
      next
        case other: False
        with int have "?p \<notin> places pl" by (simp add: intended_def Let_def places_def)
        from names_removed [OF inv this] show ?thesis .
      qed
      ultimately show ?thesis using inv by auto
    qed
  qed
qed

lemmas event_inv = begin_inv open_inv receive_inv finish_inv commit_wait_inv commit_check_inv commit_size_inv commit_sync_inv cancel_inv

lemma handle_inv:
  assumes inv: "upload_inv pl before S" and pt: "pl_Path pl \<noteq> part_of pl" and "intended pl home ev" and "\<not> publishes pl ev S"
  shows "upload_inv pl before (snd (handle home ev S))"
  using assms(3,4)
  by (cases ev) (simp_all add: event_inv [OF inv] open_inv [OF inv pt] receive_inv [OF inv pt] commit_rename_inv [OF inv]
    cancel_remove_inv [OF inv _ pt])

text \<open>No event of a history is a publication of this upload.\<close>

fun unpublished :: "plan \<Rightarrow> string option \<Rightarrow> event list \<Rightarrow> uploads \<Rightarrow> bool" where
  "unpublished pl home [] S = True"
| "unpublished pl home (ev # evs) S = (\<not> publishes pl ev S \<and> unpublished pl home evs (snd (handle home ev S)))"

lemma history_inv:
  assumes "upload_inv pl before S" and "pl_Path pl \<noteq> part_of pl" and "list_all (intended pl home) evs" and "unpublished pl home evs S"
  shows "upload_inv pl before (history home evs S)"
  using assms(1,3,4)
proof (induction evs arbitrary: S)
  case (Cons ev evs)
  then show ?case using handle_inv [OF _ assms(2)] by simp
qed simp

section \<open>What a publication publishes\<close>

lemma chunk_of:
  assumes "0 < c" "0 \<le> j" "j < (n :: int)"
  shows "j div c * c \<le> j" "j < j div c * c + c" "0 \<le> j div c" "j div c < (n + c - 1) div c"
proof -
  have m: "j div c * c = j - j mod c" by (simp add: minus_mod_eq_div_mult)
  then show "j div c * c \<le> j" "j < j div c * c + c" using pos_mod_sign [OF assms(1), of j] pos_mod_bound [OF assms(1), of j] by linarith+
  show "0 \<le> j div c" using assms by (simp add: pos_imp_zdiv_nonneg_iff)
  have "(j + c) div c \<le> (n + c - 1) div c" using assms by (intro zdiv_mono1) simp_all
  then show "j div c < (n + c - 1) div c" using div_add_self2 [of c j] assms(1) by simp
qed

text \<open>A file no longer than the content, with every chunk in its place, is the content.\<close>

lemma chunks_content:
  assumes "0 < pl_Chunk pl" and "length b \<le> length (pl_Data pl)" and "\<forall>k \<in> {0..<chunk_count pl}. chunk_right pl b k"
  shows "b = pl_Data pl"
proof -
  have r: "right pl b j" if "j < length (pl_Data pl)" for j
  proof -
    note k = chunk_of [OF assms(1), of "int j" "int (length (pl_Data pl))"]
    have "chunk_right pl b (int j div pl_Chunk pl)" using assms(3) k(3,4) that by (simp add: chunk_count_def)
    with k(1,2) that show ?thesis by (simp add: chunk_right_def right_range_def)
  qed
  then have "\<not> length b < length (pl_Data pl)" by (force simp: right_def)
  with assms(2) have "length b = length (pl_Data pl)" by simp
  with r show ?thesis by (auto simp: right_def intro: nth_equalityI)
qed

lemma published:
  assumes inv: "upload_inv pl before S" and p: "publishes pl (CommitRename c ok) S"
  shows "contents (snd (commit_rename c ok S)) (pl_Path pl) = Some (pl_Data pl)"
proof -
  obtain cm where cm: "up_commits S c = Some cm" "c = pl_ID pl" "fst (commit_rename c ok S) = Going"
    using p by (cases "up_commits S c") (auto simp: publishes_def commit_rename_def)
  obtain existing i where g: "ok 0" "ok 1" "replaceableFile (cm_Path cm) S = Inr existing" "up_names S (cm_PartPath cm) = Some i"
      "cm_Stage cm = Sized"
    using cm by (auto simp: commit_rename_def split: if_splits sum.splits option.splits)
  obtain r S' where m: "preserveReplacementMetadata i existing (\<lambda>k. ok (k + 2)) S = (r, S')" by force
  note mi = metadata_inv [OF inv m]
  have r: "r" "ok 4" using cm g m by (cases r; simp add: commit_rename_def split: if_splits)+
  obtain st where st: "up_sessions S (pl_ID pl) = Some st" "uc_Parts st = {0..<chunk_count pl}"
    and co: "cm_Path cm = pl_Path pl" "cm_PartPath cm = part_of pl"
    using inv_parts(5) [OF inv cm(1)] cm(2) by (auto simp: commit_ok_def)
  have "fi_Data (up_inodes S i) = pl_Data pl"
    using inv_parts(7) [OF inv st(1)] st(2) g(4) co by (intro chunks_content) (auto simp: session_ok_def)
  with mi(5) cm g m r co show ?thesis by (simp add: commit_rename_def contents_def)
qed

text \<open>A state without a trace of this upload.\<close>

definition fresh :: "plan \<Rightarrow> uploads \<Rightarrow> bool" where
  "fresh pl S \<longleftrightarrow> names_ok S \<and> up_sessions S = Map.empty \<and> up_lives S = Map.empty \<and> up_streams S = Map.empty \<and>
     up_commits S = Map.empty"

lemma fresh_inv: "fresh pl S \<Longrightarrow> upload_inv pl (contents S (pl_Path pl)) S"
  by (simp add: fresh_def upload_inv_def sessions_ok_def active_ok_def members_def lifecycle_of_def new_lifecycle_def)

text \<open>
  C3: Chunked uploads replace their target by the whole content or not at all. From a start without sessions and
  streams, through any interleaving of streams, commits and cancellations of this and of other uploads, with any failing
  calls, short streams and repeated chunks, the target keeps its content as long as no rename of this upload's commit
  succeeds, and the first rename that succeeds makes it exactly the content that the chunks carried.
\<close>

theorem upload_exact:
  assumes "fresh pl S" and "pl_Path pl \<noteq> part_of pl" and "list_all (intended pl home) evs" and "unpublished pl home evs S"
  shows "contents (history home evs S) (pl_Path pl) = contents S (pl_Path pl) \<and>
    (if publishes pl (CommitRename c ok) (history home evs S)
     then contents (snd (handle home (CommitRename c ok) (history home evs S))) (pl_Path pl) = Some (pl_Data pl) else True)"
proof -
  have "upload_inv pl (contents S (pl_Path pl)) (history home evs S)"
    by (rule history_inv [OF fresh_inv [OF assms(1)] assms(2-4)])
  from inv_parts(2) [OF this] published [OF this] show ?thesis by simp
qed

lemma history_append: "history home (xs @ ys) S = history home ys (history home xs S)"
  by (induction xs arbitrary: S) simp_all

section \<open>An upload of two chunks\<close>

definition demo_plan :: plan where
  "demo_plan = \<lparr>pl_ID = ''u'', pl_Path = ''/d/f'', pl_Data = ''abc'', pl_Chunk = 2\<rparr>"

definition demo_args :: "int \<Rightarrow> bool \<Rightarrow> arguments" where
  "demo_args k first = [''path'' \<mapsto> AString ''/d/f'', ''upload_id'' \<mapsto> AString ''u'', ''offset'' \<mapsto> ANumber (2 * k),
     ''chunk_index'' \<mapsto> ANumber k, ''chunk_count'' \<mapsto> ANumber 2, ''total_size'' \<mapsto> ANumber 3, ''chunk_size'' \<mapsto> ANumber 2,
     ''first'' \<mapsto> ABool first]"

text \<open>Two streams whose writes interleave; the second chunk arrives before the first is complete.\<close>

definition demo_streams :: "event list" where
  "demo_streams = [Begin 0 (demo_args 0 True) ''ab'' 1, OpenStream 0 True (\<lambda>_. True), Begin 1 (demo_args 1 False) ''c'' 1,
     Receive 0 1 1, OpenStream 1 True (\<lambda>_. True), Receive 1 4 4, Finish 1 (\<lambda>_. True) 2, Receive 0 1 1,
     Finish 0 (\<lambda>_. True) 2]"

definition demo_commit :: "event list" where
  "demo_commit = [CommitWait (demo_args 0 False), CommitCheck (demo_args 0 False), CommitSize ''u'' (\<lambda>_. True)]"

definition demo_start :: uploads where
  "demo_start = \<lparr>up_sessions = Map.empty, up_lives = Map.empty, up_streams = Map.empty, up_commits = Map.empty,
     up_names = [''/d/f'' \<mapsto> 0], up_inodes = (\<lambda>_. \<lparr>fi_Regular = True, fi_Data = ''old'', fi_Mode = 420, fi_UID = 0, fi_GID = 0\<rparr>),
     up_next = 1\<rparr>"

lemma demo_fresh: "fresh demo_plan demo_start"
  by (simp add: fresh_def names_ok_def demo_start_def)

lemma demo_parts: "part_of demo_plan = ''/d/.f.komari-upload-u.part''"
  by code_simp

definition demo_spec :: "int \<Rightarrow> bool \<Rightarrow> uploadStreamSpec" where
  "demo_spec k first = \<lparr>sp_Path = ''/d/f'', sp_UploadID = ''u'', sp_Offset = 2 * k, sp_ChunkIndex = k,
     sp_ChunkCount = 2, sp_TotalSize = 3, sp_ChunkSize = 2, sp_Expected = 2 - k, sp_First = first\<rparr>"

lemma demo_resolve: "resolveFilePath None ''/d/f'' = ''/d/f''" "TrimSpace ''u'' = ''u''" "TrimSpace [] = []"
  by code_simp+

lemma demo_parse:
  "parseUploadStreamSpec None (demo_args 0 True) = Inr (demo_spec 0 True)"
  "parseUploadStreamSpec None (demo_args 1 False) = Inr (demo_spec 1 False)"
  by (simp_all add: parseUploadStreamSpec_def argString_def argInt64_def argBool_def demo_args_def demo_resolve demo_spec_def
    chunk_size_def int64_def maxTransferChunkSize_def)

lemma demo_commit_args: "parse_commit None (demo_args k b) = Inr (''u'', ''/d/f'', 3, 2, 2)"
  by (simp add: parse_commit_def argString_def argInt64_def demo_args_def demo_resolve chunk_size_def int64_def
    maxTransferChunkSize_def uploadChunkCount_def)

lemma demo_part: "uploadPartPathFor ''/d/f'' ''u'' = ''/d/.f.komari-upload-u.part''"
  by code_simp

lemma demo_key: "argString (demo_args k b) ''transfer_id'' = []"
  by (simp add: argString_def demo_args_def)

lemmas demo_values = demo_parse demo_commit_args demo_part demo_key demo_resolve

lemmas event_steps = begin_stream_def open_stream_def receive_def finish_stream_def commit_wait_def commit_check_def commit_size_def
  commit_rename_def commit_sync_def beginUploadStream_def pruneUploadLifecycles_def end_stream_def endUploadStream_def
  waitUploadStreams_def lifecycle_of_def new_lifecycle_def find_session_def new_session_def session_mismatch_def open_file_def
  record_part_def write_at_def samePath_def locked_def drop_commit_def set_data_def replaceableFile_def
  preserveReplacementMetadata_def

text \<open>The state before the rename.\<close>

definition demo_ready :: uploads where
  "demo_ready = history None (demo_streams @ demo_commit) demo_start"

lemma demo_intended: "list_all (intended demo_plan None) (demo_streams @ demo_commit)"
  by (simp add: demo_streams_def demo_commit_def intended_def demo_values own_spec_def demo_plan_def demo_spec_def)

lemma demo_unpublished: "unpublished demo_plan None (demo_streams @ demo_commit) demo_start"
  by (simp add: demo_streams_def demo_commit_def publishes_def)

lemma demo_history:
  "history None (demo_streams @ demo_commit @ more) demo_start = history None more demo_ready"
  for more
  by (simp add: demo_ready_def history_append)

lemma demo_publishes: "publishes demo_plan (CommitRename ''u'' (\<lambda>_. True)) demo_ready"
  by (simp add: demo_ready_def publishes_def demo_plan_def demo_streams_def demo_commit_def demo_start_def event_steps demo_values
    demo_spec_def Let_def insert_commute)

lemma upload_exact_witness:
  "contents demo_ready ''/d/f'' = Some ''old'' \<and>
   contents (snd (handle None (CommitRename ''u'' (\<lambda>_. True)) demo_ready)) ''/d/f'' = Some ''abc''"
  using upload_exact [OF demo_fresh _ demo_intended demo_unpublished, of "''u''" "\<lambda>_. True"] demo_publishes demo_parts
  by (simp add: demo_plan_def demo_ready_def contents_def demo_start_def)

section \<open>A commit whose directory is not flushed\<close>

text \<open>
  The rename is done, but the flush of the directory fails: the call returns an error and leaves the session, with every
  part recorded, although the part file is gone. A panel that sends one chunk again and commits again gets an
  accepted commit of a new part file that holds this chunk and zeros.
\<close>

definition resend :: "event list" where
  "resend = [CommitRename ''u'' (\<lambda>_. True), CommitSync ''u'' False,
     Begin 2 (demo_args 1 False) ''c'' 3, OpenStream 2 True (\<lambda>_. True), Receive 2 4 4, Finish 2 (\<lambda>_. True) 4,
     CommitWait (demo_args 0 False), CommitCheck (demo_args 0 False), CommitSize ''u'' (\<lambda>_. True), CommitRename ''u'' (\<lambda>_. True)]"

lemma unsynced_session_survives:
  "contents (history None resend demo_ready) ''/d/f'' = Some [CHR 0x00, CHR 0x00, CHR ''c'']"
  by (simp add: demo_ready_def resend_def demo_streams_def demo_commit_def demo_start_def event_steps demo_values
    demo_spec_def Let_def insert_commute contents_def numeral_2_eq_2)

end
