(* ===== verification/SshAccess.thy ===== *)
theory SshAccess
  imports Filepath
begin

text \<open>
  The temporary opening of the SSH port by the rescue helper (\<open>rescue/ssh_access_linux.go\<close>): the rule in the
  firewall, the persisted deadline, the revocation timer and the reconciliation. The firewall tools, the process table
  and the clock are parameters. Every call takes a tick; at each tick the surroundings say whether the call works, fails
  or is the last one of the process, so that a history has faults and deaths at any point.
\<close>

section \<open>Processes\<close>

text \<open>
  What becomes of a call: it works, it fails without an effect, it fails after half a write, or the process dies
  before it, within it or after it.
\<close>

datatype fate = Succeeds | Refused | Tears | Killed | KilledTorn | KilledAfter

datatype 'a result = Value 'a | Error string | Dead

datatype mechanism = NftablesSet | UFW | Firewalld | Iptables | OtherMechanism string

datatype expiry = ExpiryUnspecified | NftablesTimeout | SystemdTimer | HelperReconcile

record sshAccessState =
  sa_Port :: nat
  sa_GrantedAt :: gotime
  sa_ExpiresAt :: gotime
  sa_Mechanism :: mechanism
  sa_Expiry :: expiry

text \<open>The state file; \<open>Garbled\<close> is one that does not decode.\<close>

datatype saved = NoFile | Garbled | Saved sshAccessState

record 'w machine =
  mc_file :: saved
  mc_wall :: 'w
  mc_tick :: nat

text \<open>What \<open>/proc\<close>, systemd and the configuration of sshd show.\<close>

record daemon_view =
  dv_tcp :: "bytes option"
  dv_tcp6 :: "bytes option"
  dv_systemctl :: bool
  dv_active :: "string \<Rightarrow> bool"
  dv_comms :: "bytes option list option"
  dv_configs :: "bytes option list"

text \<open>
  \<open>sr_run\<close> is a command that may change the firewall: whether it reports success, and the firewall after it. The queries
  \<open>sr_ask\<close> change nothing that the model sees.
\<close>

record 'w surroundings =
  sr_fate :: "nat \<Rightarrow> fate"
  sr_readable :: "nat \<Rightarrow> bool"
  sr_clock :: "nat \<Rightarrow> gotime"
  sr_look :: "nat \<Rightarrow> string \<Rightarrow> bool"
  sr_ask :: "nat \<Rightarrow> string list \<Rightarrow> 'w \<Rightarrow> bool"
  sr_run :: "nat \<Rightarrow> string list \<Rightarrow> 'w \<Rightarrow> bool \<times> 'w"
  sr_daemon :: "nat \<Rightarrow> daemon_view"
  sr_root :: bool

type_synonym ('w, 'a) call = "'w machine \<Rightarrow> 'a result \<times> 'w machine"

definition give :: "'a \<Rightarrow> ('w, 'a) call" where
  "give x m = (Value x, m)"

definition give_up :: "string \<Rightarrow> ('w, 'a) call" where
  "give_up err m = (Error err, m)"

definition and_then :: "('w, 'a) call \<Rightarrow> ('a \<Rightarrow> ('w, 'b) call) \<Rightarrow> ('w, 'b) call" where
  "and_then f g m =
     (case f m of
        (Value x, m') \<Rightarrow> g x m'
      | (Error err, m') \<Rightarrow> (Error err, m')
      | (Dead, m') \<Rightarrow> (Dead, m'))"

text \<open>The error of a call as a value.\<close>

definition attempt :: "('w, 'a) call \<Rightarrow> ('w, string + 'a) call" where
  "attempt f m =
     (case f m of
        (Value x, m') \<Rightarrow> (Value (Inr x), m')
      | (Error err, m') \<Rightarrow> (Value (Inl err), m')
      | (Dead, m') \<Rightarrow> (Dead, m'))"

definition tick :: "'w machine \<Rightarrow> 'w machine" where
  "tick m = m\<lparr>mc_tick := Suc (mc_tick m)\<rparr>"

text \<open>\<open>os/exec\<close>: a command, a query, \<open>exec.LookPath\<close>; and \<open>time.Now\<close>.\<close>

definition platformCommand :: "'w surroundings \<Rightarrow> string list \<Rightarrow> ('w, unit) call" where
  "platformCommand e args m =
     (let (ok, w) = sr_run e (mc_tick m) args (mc_wall m); m' = (tick m)\<lparr>mc_wall := w\<rparr> in
      case sr_fate e (mc_tick m) of
        Killed \<Rightarrow> (Dead, tick m)
      | KilledTorn \<Rightarrow> (Dead, m')
      | KilledAfter \<Rightarrow> (Dead, m')
      | _ \<Rightarrow> if ok then (Value (), m') else (Error (hd args), m'))"

definition ask :: "'w surroundings \<Rightarrow> string list \<Rightarrow> ('w, bool) call" where
  "ask e args m = (Value (sr_ask e (mc_tick m) args (mc_wall m)), tick m)"

definition look :: "'w surroundings \<Rightarrow> string \<Rightarrow> ('w, bool) call" where
  "look e name m = (Value (sr_look e (mc_tick m) name), tick m)"

definition Now :: "'w surroundings \<Rightarrow> ('w, gotime) call" where
  "Now e m = (Value (sr_clock e (mc_tick m)), tick m)"

text \<open>A call that leaves nothing behind that the model sees, such as the writing of a temporary file.\<close>

definition aside :: "'w surroundings \<Rightarrow> string \<Rightarrow> ('w, unit) call" where
  "aside e what m =
     (case sr_fate e (mc_tick m) of
        Succeeds \<Rightarrow> (Value (), tick m)
      | Refused \<Rightarrow> (Error what, tick m)
      | Tears \<Rightarrow> (Error what, tick m)
      | _ \<Rightarrow> (Dead, tick m))"

section \<open>The state file\<close>

text \<open>\<open>os.WriteFile\<close> truncates the file and writes it in place.\<close>

definition saveSSHAccessState :: "'w surroundings \<Rightarrow> sshAccessState \<Rightarrow> ('w, unit) call" where
  "saveSSHAccessState e st m =
     (let m' = tick m in
      case sr_fate e (mc_tick m) of
        Succeeds \<Rightarrow> (Value (), m'\<lparr>mc_file := Saved st\<rparr>)
      | Refused \<Rightarrow> (Error ''write'', m')
      | Tears \<Rightarrow> (Error ''write'', m'\<lparr>mc_file := Garbled\<rparr>)
      | Killed \<Rightarrow> (Dead, m')
      | KilledTorn \<Rightarrow> (Dead, m'\<lparr>mc_file := Garbled\<rparr>)
      | KilledAfter \<Rightarrow> (Dead, m'\<lparr>mc_file := Saved st\<rparr>))"

definition loadSSHAccessState :: "'w surroundings \<Rightarrow> ('w, sshAccessState option) call" where
  "loadSSHAccessState e m =
     (if sr_fate e (mc_tick m) \<in> {Killed, KilledTorn, KilledAfter} then (Dead, tick m)
      else if \<not> sr_readable e (mc_tick m) then (Error ''read'', tick m)
      else case mc_file m of
        NoFile \<Rightarrow> (Value None, tick m)
      | Garbled \<Rightarrow> (Error ''decode'', tick m)
      | Saved st \<Rightarrow> (Value (Some st), tick m))"

definition removeSSHAccessState :: "'w surroundings \<Rightarrow> ('w, unit) call" where
  "removeSSHAccessState e m =
     (let m' = tick m in
      case sr_fate e (mc_tick m) of
        Succeeds \<Rightarrow> (Value (), m'\<lparr>mc_file := NoFile\<rparr>)
      | Refused \<Rightarrow> (Error ''remove'', m')
      | Tears \<Rightarrow> (Error ''remove'', m')
      | Killed \<Rightarrow> (Dead, m')
      | KilledTorn \<Rightarrow> (Dead, m'\<lparr>mc_file := NoFile\<rparr>)
      | KilledAfter \<Rightarrow> (Dead, m'\<lparr>mc_file := NoFile\<rparr>))"

section \<open>The firewall tools\<close>

definition temporarySSHDuration :: duration where
  "temporarySSHDuration = 15 * minute"

definition temporarySSHTable :: string where
  "temporarySSHTable = ''komari_temp_ssh''"

definition temporarySSHSet :: string where
  "temporarySSHSet = ''temp_ssh''"

definition temporarySSHUnit :: string where
  "temporarySSHUnit = ''komari-temp-ssh-revoke''"

definition temporarySSHMark :: string where
  "temporarySSHMark = ''komari-temp-ssh''"

definition defaultSSHPort :: nat where
  "defaultSSHPort = 22"

definition durationForNft :: "duration \<Rightarrow> string" where
  "durationForNft v =
     (if v mod minute = 0 then Itoa (v div minute) @ ''m'' else Itoa (v div second) @ ''s'')"

text \<open>The text of the script; the lines are indented with tabs in the source.\<close>

definition nft_script :: string where
  "nft_script = join [CHR 0x0A] [''table inet '' @ temporarySSHTable @ '' {'', CHR 0x09 # ''set '' @ temporarySSHSet @ '' {'',
     [CHR 0x09, CHR 0x09] @ ''type inet_service'', [CHR 0x09, CHR 0x09] @ ''flags timeout'', CHR 0x09 # ''}'',
     CHR 0x09 # ''chain input {'', [CHR 0x09, CHR 0x09] @ ''type filter hook input priority -150; policy accept;'',
     [CHR 0x09, CHR 0x09] @ ''tcp dport @'' @ temporarySSHSet @ '' accept'', CHR 0x09 # ''}'', ''}'', []]"

definition nft_element :: "nat \<Rightarrow> string list" where
  "nft_element port = [''nft'', ''add'', ''element'', ''inet'', temporarySSHTable, temporarySSHSet,
     ''{ '' @ Itoa (int port) @ '' timeout '' @ durationForNft temporarySSHDuration @ '' }'']"

definition nft_delete :: "string list" where
  "nft_delete = [''nft'', ''delete'', ''table'', ''inet'', temporarySSHTable]"

definition iptables_rule :: "nat \<Rightarrow> string list" where
  "iptables_rule port = [''-p'', ''tcp'', ''--dport'', Itoa (int port), ''-m'', ''comment'', ''--comment'', temporarySSHMark,
     ''-j'', ''ACCEPT'']"

text \<open>The command that puts a rule in force, and the one that takes it away.\<close>

definition rule_command :: "mechanism \<Rightarrow> nat \<Rightarrow> string list" where
  "rule_command mech port =
     (case mech of
        NftablesSet \<Rightarrow> nft_element port
      | UFW \<Rightarrow> [''ufw'', ''allow'', Itoa (int port) @ ''/tcp'']
      | Firewalld \<Rightarrow> [''firewall-cmd'', ''--add-port='' @ Itoa (int port) @ ''/tcp'']
      | _ \<Rightarrow> [''iptables'', ''-I'', ''INPUT'', ''1''] @ iptables_rule port)"

definition unrule_command :: "mechanism \<Rightarrow> nat \<Rightarrow> string list" where
  "unrule_command mech port =
     (case mech of
        NftablesSet \<Rightarrow> nft_delete
      | UFW \<Rightarrow> [''ufw'', ''delete'', ''allow'', Itoa (int port) @ ''/tcp'']
      | Firewalld \<Rightarrow> [''firewall-cmd'', ''--remove-port='' @ Itoa (int port) @ ''/tcp'']
      | _ \<Rightarrow> [''iptables'', ''-D'', ''INPUT''] @ iptables_rule port)"

definition installNftablesSSHAccess :: "'w surroundings \<Rightarrow> nat \<Rightarrow> ('w, unit) call" where
  "installNftablesSSHAccess e port =
     and_then (aside e ''temporary file'') (\<lambda>_.
     and_then (platformCommand e [''nft'', ''-f'', nft_script]) (\<lambda>_. platformCommand e (rule_command NftablesSet port)))"

definition deleteNftablesSSHAccess :: "'w surroundings \<Rightarrow> ('w, unit) call" where
  "deleteNftablesSSHAccess e =
     and_then (look e ''nft'') (\<lambda>found.
       if \<not> found then give ()
       else and_then (ask e [''nft'', ''list'', ''table'', ''inet'', temporarySSHTable]) (\<lambda>there.
         if \<not> there then give () else platformCommand e (unrule_command NftablesSet 0)))"

text \<open>The failures of \<open>systemctl stop\<close> are ignored.\<close>

definition cancelSSHAccessTimer :: "'w surroundings \<Rightarrow> ('w, unit) call" where
  "cancelSSHAccessTimer e =
     and_then (look e ''systemctl'') (\<lambda>found.
       if \<not> found then give ()
       else and_then (ask e [''systemctl'', ''stop'', temporarySSHUnit @ ''.timer'']) (\<lambda>_.
            and_then (ask e [''systemctl'', ''stop'', temporarySSHUnit @ ''.service'']) (\<lambda>_. give ())))"

definition timer_command :: "string \<Rightarrow> string \<Rightarrow> string list" where
  "timer_command self statePath = [''systemd-run'', ''--unit='' @ temporarySSHUnit,
     ''--on-active='' @ Itoa (temporarySSHDuration div second), ''--timer-property=AccuracySec=1s'',
     ''--description=Revoke Komari temporary SSH access'', self, ''--revoke-temporary-ssh''] @
     (if TrimSpace statePath = [] then [] else [''--isolation-state-file'', TrimSpace statePath])"

definition armSSHAccessTimer :: "'w surroundings \<Rightarrow> string \<Rightarrow> ('w, unit) call" where
  "armSSHAccessTimer e statePath =
     and_then (look e ''systemd-run'') (\<lambda>found.
       if \<not> found then give_up ''systemd-run''
       else and_then (cancelSSHAccessTimer e) (\<lambda>_.
            and_then (aside e ''executable'') (\<lambda>_. platformCommand e (timer_command ''komari-agent-rescue'' statePath))))"

text \<open>\<open>ufw status\<close> answers whether its output says \<open>Status: active\<close>.\<close>

definition detectFirewallMechanism :: "'w surroundings \<Rightarrow> ('w, mechanism) call" where
  "detectFirewallMechanism e =
     and_then (look e ''ufw'') (\<lambda>ufw.
     and_then (if ufw then ask e [''ufw'', ''status''] else give False) (\<lambda>active.
       if active then give UFW
       else and_then (look e ''firewall-cmd'') (\<lambda>firewalld.
         and_then (if firewalld then ask e [''firewall-cmd'', ''--state''] else give False) (\<lambda>running.
           if running then give Firewalld
           else and_then (look e ''nft'') (\<lambda>nft.
             if nft then give NftablesSet
             else and_then (look e ''iptables'') (\<lambda>iptables.
               if iptables then give Iptables else give_up ''no supported firewall tool is available''))))))"

definition installSSHAccessRule :: "'w surroundings \<Rightarrow> string \<Rightarrow> nat \<Rightarrow> mechanism \<Rightarrow> ('w, expiry) call" where
  "installSSHAccessRule e statePath port mech =
     (if mech = NftablesSet then and_then (installNftablesSSHAccess e port) (\<lambda>_. give NftablesTimeout)
      else and_then (case mech of OtherMechanism _ \<Rightarrow> give () | _ \<Rightarrow> platformCommand e (rule_command mech port)) (\<lambda>_.
           and_then (attempt (armSSHAccessTimer e statePath)) (\<lambda>armed.
             give (case armed of Inl _ \<Rightarrow> HelperReconcile | Inr _ \<Rightarrow> SystemdTimer))))"

definition removeSSHAccessRule :: "'w surroundings \<Rightarrow> sshAccessState \<Rightarrow> ('w, unit) call" where
  "removeSSHAccessRule e st =
     (case sa_Mechanism st of
        NftablesSet \<Rightarrow> deleteNftablesSSHAccess e
      | OtherMechanism _ \<Rightarrow> give_up ''unknown temporary SSH access mechanism''
      | mech \<Rightarrow> platformCommand e (unrule_command mech (sa_Port st)))"

section \<open>The SSH daemon\<close>

text \<open>\<open>strconv.ParseUint(s, 16, 32)\<close>: \<open>None\<close> for an error.\<close>

definition hex32_digit :: "char \<Rightarrow> nat option" where
  "hex32_digit c =
     (let n = of_char c :: nat in
      if 48 \<le> n \<and> n \<le> 57 then Some (n - 48)
      else if 97 \<le> n \<and> n \<le> 102 then Some (n - 87)
      else if 65 \<le> n \<and> n \<le> 70 then Some (n - 55) else None)"

fun hex32_digits :: "nat \<Rightarrow> bytes \<Rightarrow> nat option" where
  "hex32_digits n [] = Some n"
| "hex32_digits n (c # cs) = (case hex32_digit c of None \<Rightarrow> None | Some d \<Rightarrow> hex32_digits (n * 16 + d) cs)"

definition ParseHex32 :: "bytes \<Rightarrow> nat option" where
  "ParseHex32 s =
     (if s = [] then None else case hex32_digits 0 s of None \<Rightarrow> None | Some n \<Rightarrow> if n < 2 ^ 32 then Some n else None)"

text \<open>The text behind the first colon, which \<open>strings.Cut\<close> finds.\<close>

definition after_colon :: "bytes \<Rightarrow> bytes option" where
  "after_colon s = (case dropWhile (\<lambda>c. c \<noteq> CHR '':'') s of [] \<Rightarrow> None | _ # rest \<Rightarrow> Some rest)"

definition listen_port :: "bytes \<Rightarrow> nat option" where
  "listen_port line =
     (let fields = Fields line in
      if length fields < 4 then None
      else if fields ! 3 \<noteq> ''0A'' then None
      else case after_colon (fields ! 1) of None \<Rightarrow> None | Some hex \<Rightarrow> ParseHex32 hex)"

text \<open>Both \<open>unique\<close> functions keep the first occurrence of a value.\<close>

definition unique_values :: "'a list \<Rightarrow> 'a list" where
  "unique_values xs = fold (\<lambda>x seen. if x \<in> set seen then seen else seen @ [x]) xs []"

definition uniqueUint32 :: "nat list \<Rightarrow> nat list" where
  "uniqueUint32 xs = unique_values xs"

text \<open>\<open>sort.Strings\<close> orders the bytes lexically.\<close>

fun string_le :: "string \<Rightarrow> string \<Rightarrow> bool" where
  "string_le [] ys = True"
| "string_le (x # xs) [] = False"
| "string_le (x # xs) (y # ys) = (if x = y then string_le xs ys else (of_char x :: nat) < of_char y)"

fun insert_string :: "string \<Rightarrow> string list \<Rightarrow> string list" where
  "insert_string x [] = [x]"
| "insert_string x (y # ys) = (if string_le x y then x # y # ys else y # insert_string x ys)"

definition uniqueStrings :: "string list \<Rightarrow> string list" where
  "uniqueStrings xs = foldr insert_string (unique_values (filter (\<lambda>s. s \<noteq> []) xs)) []"

definition ports_of :: "bytes option \<Rightarrow> nat list" where
  "ports_of content =
     (case content of None \<Rightarrow> [] | Some b \<Rightarrow> List.map_filter listen_port (drop 1 (split_at (CHR 0x0A) b)))"

definition listeningTCPPorts :: "daemon_view \<Rightarrow> nat list option" where
  "listeningTCPPorts v =
     (if dv_tcp v = None \<and> dv_tcp6 v = None then None
      else Some (uniqueUint32 (ports_of (dv_tcp v) @ ports_of (dv_tcp6 v))))"

definition sshDaemonRunning :: "daemon_view \<Rightarrow> bool" where
  "sshDaemonRunning v \<longleftrightarrow>
     dv_systemctl v \<and> (\<exists>u \<in> set [''sshd'', ''ssh'']. dv_active v u) \<or>
     (case dv_comms v of
        None \<Rightarrow> False
      | Some comms \<Rightarrow> \<exists>c \<in> set comms. case c of None \<Rightarrow> False | Some b \<Rightarrow> TrimSpace b = ''sshd'')"

text \<open>
  \<open>strings.EqualFold\<close> with an ASCII word: besides the other case of a letter, the long s and the Kelvin sign
  fold to \<open>s\<close> and \<open>k\<close>.
\<close>

fun fold_case :: "bytes \<Rightarrow> bytes" where
  "fold_case [] = []"
| "fold_case (c # cs) =
     (if starts_with [CHR 0xC5, CHR 0xBF] (c # cs) then CHR ''s'' # fold_case (drop 1 cs)
      else if starts_with [CHR 0xE2, CHR 0x84, CHR 0xAA] (c # cs) then CHR ''k'' # fold_case (drop 2 cs)
      else (if (65 :: nat) \<le> of_char c \<and> of_char c \<le> (90 :: nat) then char_of (of_char c + (32 :: nat)) else c) # fold_case cs)"

definition listen_address :: "bytes \<Rightarrow> string option" where
  "listen_address line =
     (let trimmed = TrimSpace line; fields = Fields trimmed in
      if trimmed = [] \<or> starts_with ''#'' trimmed then None
      else if length fields \<ge> 2 \<and> fold_case (fields ! 0) = ''listenaddress'' then Some (fields ! 1) else None)"

definition sshdListenAddresses :: "daemon_view \<Rightarrow> string list" where
  "sshdListenAddresses v =
     uniqueStrings (concat (map (\<lambda>b. case b of None \<Rightarrow> [] | Some b \<Rightarrow>
       List.map_filter listen_address (split_at (CHR 0x0A) b)) (dv_configs v)))"

datatype limitation = NoLimitation | UnreadableSockets | NotRunning | NotListening nat

record sshDaemonState =
  sd_ObservedListenPorts :: "nat list"
  sd_Reachable :: bool
  sd_Running :: bool
  sd_ListenAddresses :: "string list"
  sd_Limitation :: limitation

definition inspectSSHDaemon :: "daemon_view \<Rightarrow> nat \<Rightarrow> sshDaemonState" where
  "inspectSSHDaemon v port =
     (let listening = listeningTCPPorts v; ports = (case listening of None \<Rightarrow> [] | Some ps \<Rightarrow> ps);
          reachable = (port \<in> set ports); running = sshDaemonRunning v
      in \<lparr>sd_ObservedListenPorts = ports, sd_Reachable = reachable, sd_Running = running,
          sd_ListenAddresses = sshdListenAddresses v,
          sd_Limitation = (if \<not> running then NotRunning
            else if \<not> reachable \<and> ports \<noteq> [] then NotListening port
            else if listening = None then UnreadableSockets else NoLimitation)\<rparr>)"

section \<open>The window\<close>

definition revokeSSHAccess :: "'w surroundings \<Rightarrow> sshAccessState \<Rightarrow> ('w, unit) call" where
  "revokeSSHAccess e st =
     and_then (attempt (removeSSHAccessRule e st)) (\<lambda>rule.
     and_then (attempt (cancelSSHAccessTimer e)) (\<lambda>timer.
     and_then (attempt (removeSSHAccessState e)) (\<lambda>state.
       if rule = Inr () \<and> timer = Inr () \<and> state = Inr () then give ()
       else give_up ''revoke temporary SSH access'')))"

definition sweepOrphanedSSHAccess :: "'w surroundings \<Rightarrow> ('w, unit) call" where
  "sweepOrphanedSSHAccess e = and_then (deleteNftablesSSHAccess e) (\<lambda>_. cancelSSHAccessTimer e)"

definition closeTemporarySSHAccess :: "'w surroundings \<Rightarrow> bool \<Rightarrow> ('w, unit) call" where
  "closeTemporarySSHAccess e force =
     and_then (loadSSHAccessState e) (\<lambda>found.
       case found of
         None \<Rightarrow> if force then sweepOrphanedSSHAccess e else give ()
       | Some st \<Rightarrow>
           if force then revokeSSHAccess e st
           else and_then (Now e) (\<lambda>now. if now < sa_ExpiresAt st then give () else revokeSSHAccess e st))"

definition ReconcileTemporarySSHAccess :: "'w surroundings \<Rightarrow> ('w, unit) call" where
  "ReconcileTemporarySSHAccess e = closeTemporarySSHAccess e False"

definition CloseTemporarySSHAccess :: "'w surroundings \<Rightarrow> ('w, unit) call" where
  "CloseTemporarySSHAccess e = closeTemporarySSHAccess e True"

record temporarySSHAccess =
  ta_Port :: nat
  ta_Granted :: bool
  ta_GrantedAt :: gotime
  ta_ExpiresAt :: gotime
  ta_ExpiryMechanism :: expiry
  ta_SshdState :: "sshDaemonState option"

definition sshPort :: "nat \<Rightarrow> nat" where
  "sshPort requested = (if requested = 0 \<or> requested > 65535 then defaultSSHPort else requested)"

text \<open>
  The part of \<open>grantTemporarySSHAccess\<close> behind the checks, from its end: the second write of the state records how the
  window closes; an installation that fails takes the state away; the deadline is saved before the rule is installed.
\<close>

definition record_expiry :: "'w surroundings \<Rightarrow> sshAccessState \<Rightarrow> sshDaemonState \<Rightarrow> ('w, temporarySSHAccess) call" where
  "record_expiry e st daemon =
     and_then (attempt (saveSSHAccessState e st)) (\<lambda>saved.
       case saved of
         Inl err \<Rightarrow>
           and_then (attempt (removeSSHAccessRule e st)) (\<lambda>_.
           and_then (attempt (cancelSSHAccessTimer e)) (\<lambda>_. give_up err))
       | Inr _ \<Rightarrow> give \<lparr>ta_Port = sa_Port st, ta_Granted = True, ta_GrantedAt = sa_GrantedAt st,
           ta_ExpiresAt = sa_ExpiresAt st, ta_ExpiryMechanism = sa_Expiry st, ta_SshdState = Some daemon\<rparr>)"

definition finish_grant :: "'w surroundings \<Rightarrow> sshAccessState \<Rightarrow> sshDaemonState \<Rightarrow> string + expiry \<Rightarrow> ('w, temporarySSHAccess) call" where
  "finish_grant e st daemon installed =
     (case installed of
        Inl err \<Rightarrow> and_then (attempt (removeSSHAccessState e)) (\<lambda>_. give_up err)
      | Inr expiry \<Rightarrow> record_expiry e (st\<lparr>sa_Expiry := expiry\<rparr>) daemon)"

definition open_window :: "'w surroundings \<Rightarrow> string \<Rightarrow> nat \<Rightarrow> mechanism \<Rightarrow> sshDaemonState \<Rightarrow> ('w, temporarySSHAccess) call" where
  "open_window e statePath port mech daemon =
     and_then (Now e) (\<lambda>granted.
       let st = \<lparr>sa_Port = port, sa_GrantedAt = granted, sa_ExpiresAt = granted + temporarySSHDuration,
                 sa_Mechanism = mech, sa_Expiry = ExpiryUnspecified\<rparr> in
       and_then (saveSSHAccessState e st) (\<lambda>_.
       and_then (attempt (installSSHAccessRule e statePath port mech)) (finish_grant e st daemon)))"

definition already_open :: "'w surroundings \<Rightarrow> ('w, bool) call" where
  "already_open e =
     and_then (attempt (loadSSHAccessState e)) (\<lambda>existing.
       case existing of
         Inr (Some st) \<Rightarrow> and_then (Now e) (\<lambda>now. give (sa_ExpiresAt st > now))
       | _ \<Rightarrow> give False)"

definition grantTemporarySSHAccess :: "'w surroundings \<Rightarrow> string \<Rightarrow> nat \<Rightarrow> ('w, temporarySSHAccess) call" where
  "grantTemporarySSHAccess e statePath requestedPort =
     (if \<not> sr_root e then give_up ''temporary SSH access requires a privileged rescue helper''
      else
        and_then (ReconcileTemporarySSHAccess e) (\<lambda>_.
        and_then (already_open e) (\<lambda>open.
          if open then give_up ''temporary SSH access is already open''
          else and_then (detectFirewallMechanism e) (\<lambda>mech. \<lambda>m.
            open_window e statePath (sshPort requestedPort) mech
              (inspectSSHDaemon (sr_daemon e (mc_tick m)) (sshPort requestedPort)) m))))"

definition revokeTemporarySSHAccess :: "'w surroundings \<Rightarrow> ('w, temporarySSHAccess option) call" where
  "revokeTemporarySSHAccess e =
     (if \<not> sr_root e then give_up ''temporary SSH access requires a privileged rescue helper''
      else and_then (loadSSHAccessState e) (\<lambda>found.
        case found of
          None \<Rightarrow> give None
        | Some st \<Rightarrow> and_then (revokeSSHAccess e st) (\<lambda>_.
            give (Some \<lparr>ta_Port = sa_Port st, ta_Granted = False, ta_GrantedAt = sa_GrantedAt st,
              ta_ExpiresAt = sa_ExpiresAt st, ta_ExpiryMechanism = ExpiryUnspecified, ta_SshdState = None\<rparr>))))"

text \<open>
  A history of the helper on one machine: grants and revocations of the panel, reconciliations, and forced closings by the
  timer or on the loss of the authorization. An event whose process dies is followed by the next one after the restart.
\<close>

datatype ssh_event = Grant nat | Revoke | Reconcile | Close

definition ssh_step :: "'w surroundings \<Rightarrow> string \<Rightarrow> ssh_event \<Rightarrow> 'w machine \<Rightarrow> 'w machine" where
  "ssh_step e statePath ev m =
     (case ev of
        Grant port \<Rightarrow> snd (grantTemporarySSHAccess e statePath port m)
      | Revoke \<Rightarrow> snd (revokeTemporarySSHAccess e m)
      | Reconcile \<Rightarrow> snd (ReconcileTemporarySSHAccess e m)
      | Close \<Rightarrow> snd (CloseTemporarySSHAccess e m))"

fun ssh_history :: "'w surroundings \<Rightarrow> string \<Rightarrow> ssh_event list \<Rightarrow> 'w machine \<Rightarrow> 'w machine" where
  "ssh_history e statePath [] m = m"
| "ssh_history e statePath (ev # evs) m = ssh_history e statePath evs (ssh_step e statePath ev m)"

section \<open>What the tools promise\<close>

definition known :: "mechanism \<Rightarrow> bool" where
  "known mech = (case mech of OtherMechanism _ \<Rightarrow> False | _ \<Rightarrow> True)"

text \<open>
  \<open>R t w mech port\<close> counts the rules of the helper that are in force at the tick \<open>t\<close> with the firewall \<open>w\<close>. Time
  alone adds none; a command adds one at most, when it succeeds and is the one that installs this rule; the
  successful removal takes one away; the removal of a rule in force succeeds; while an element of the nftables set is in
  force, \<open>nft\<close> is installed and lists the table.
\<close>

definition firewall_ok :: "'w surroundings \<Rightarrow> (nat \<Rightarrow> 'w \<Rightarrow> mechanism \<Rightarrow> nat \<Rightarrow> nat) \<Rightarrow> bool" where
  "firewall_ok e R \<longleftrightarrow>
     (\<forall>t w mech p. R (Suc t) w mech p \<le> R t w mech p) \<and>
     (\<forall>t args w mech p. R (Suc t) (snd (sr_run e t args w)) mech p \<le>
        (if fst (sr_run e t args w) \<and> args = rule_command mech p then Suc (R t w mech p) else R t w mech p)) \<and>
     (\<forall>t w mech p. fst (sr_run e t (unrule_command mech p) w) \<longrightarrow>
        R (Suc t) (snd (sr_run e t (unrule_command mech p) w)) mech p \<le> R t w mech p - 1) \<and>
     (\<forall>t w mech p. 0 < R t w mech p \<longrightarrow> fst (sr_run e t (unrule_command mech p) w)) \<and>
     (\<forall>t w p. 0 < R t w NftablesSet p \<longrightarrow>
        sr_look e t ''nft'' \<and> sr_ask e t [''nft'', ''list'', ''table'', ''inet'', temporarySSHTable] w) \<and>
     (\<forall>t w s p. R t w (OtherMechanism s) p = 0)"

lemma firewall_okD:
  assumes "firewall_ok e R"
  shows "R (Suc t) w mech p \<le> R t w mech p"
    "R (Suc t) (snd (sr_run e t args w)) mech p \<le> (if fst (sr_run e t args w) \<and> args = rule_command mech p then Suc (R t w mech p) else R t w mech p)"
    "fst (sr_run e t (unrule_command mech p) w) \<Longrightarrow> R (Suc t) (snd (sr_run e t (unrule_command mech p) w)) mech p \<le> R t w mech p - 1"
    "0 < R t w mech p \<Longrightarrow> fst (sr_run e t (unrule_command mech p) w)"
    "0 < R t w NftablesSet p \<Longrightarrow> sr_look e t ''nft''"
    "0 < R t w NftablesSet p \<Longrightarrow> sr_ask e t [''nft'', ''list'', ''table'', ''inet'', temporarySSHTable] w"
    "0 < R t w mech p \<Longrightarrow> known mech"
proof -
  note f = assms [unfolded firewall_ok_def]
  note g = f [THEN conjunct2, THEN conjunct2, THEN conjunct2, THEN conjunct2, THEN conjunct1, rule_format]
  show "R (Suc t) w mech p \<le> R t w mech p" by (rule f [THEN conjunct1, rule_format])
  show "R (Suc t) (snd (sr_run e t args w)) mech p \<le> (if fst (sr_run e t args w) \<and> args = rule_command mech p then Suc (R t w mech p) else R t w mech p)"
    by (rule f [THEN conjunct2, THEN conjunct1, rule_format])
  show "fst (sr_run e t (unrule_command mech p) w) \<Longrightarrow> R (Suc t) (snd (sr_run e t (unrule_command mech p) w)) mech p \<le> R t w mech p - 1"
    by (rule f [THEN conjunct2, THEN conjunct2, THEN conjunct1, rule_format])
  show "0 < R t w mech p \<Longrightarrow> fst (sr_run e t (unrule_command mech p) w)"
    by (rule f [THEN conjunct2, THEN conjunct2, THEN conjunct2, THEN conjunct1, rule_format])
  show "0 < R t w NftablesSet p \<Longrightarrow> sr_look e t ''nft''" by (rule g [THEN conjunct1])
  show "0 < R t w NftablesSet p \<Longrightarrow> sr_ask e t [''nft'', ''list'', ''table'', ''inet'', temporarySSHTable] w"
    by (rule g [THEN conjunct2])
  show "0 < R t w mech p \<Longrightarrow> known mech"
    using f [THEN conjunct2, THEN conjunct2, THEN conjunct2, THEN conjunct2, THEN conjunct2, rule_format]
    by (cases mech) (simp_all add: known_def)
qed

text \<open>A rule command names its mechanism and its port.\<close>

lemma digit_chars:
  assumes "a < 10" "b < 10" "(char_of (48 + a) :: char) = char_of (48 + b)"
  shows "a = (b :: nat)"
proof -
  have "of_char (char_of (48 + a) :: char) = (of_char (char_of (48 + b) :: char) :: nat)" using assms(3) by simp
  with assms(1,2) show ?thesis by simp
qed
lemma nat_digits_inj: "nat_digits m = nat_digits n \<Longrightarrow> m = n"
proof (induction m arbitrary: n rule: less_induct)
  case (less m)
  have len: "nat_digits k \<noteq> []" for k by (subst nat_digits.simps) simp
  show ?case
  proof (cases "m < 10 \<or> n < 10")
    case True
    with less.prems len not_sym [OF len] digit_chars show ?thesis
      by (subst (asm) (1 2) nat_digits.simps) (auto split: if_splits)
  next
    case False
    then have e: "nat_digits m = nat_digits (m div 10) @ [char_of (48 + m mod 10)]"
       "nat_digits n = nat_digits (n div 10) @ [char_of (48 + n mod 10)]"
      by (subst nat_digits.simps, simp)+
    with less.prems have h: "nat_digits (m div 10) = nat_digits (n div 10)" "(char_of (48 + m mod 10) :: char) = char_of (48 + n mod 10)" by simp_all
    have "m div 10 = n div 10" by (rule less.IH [OF _ h(1)]) (use False in simp)
    moreover have "m mod 10 = n mod 10" by (rule digit_chars [OF _ _ h(2)]) simp_all
    ultimately show ?thesis by (metis div_mult_mod_eq)
  qed
qed
lemma Itoa_inj: "Itoa (int m) = Itoa (int n) \<Longrightarrow> m = n"
  by (simp add: Itoa_def nat_digits_inj)

lemma rule_inj:
  assumes "known mech" "known mech'" and "rule_command mech p = rule_command mech' p'"
  shows "mech = mech' \<and> p = p'"
  using assms
  by (cases mech; cases mech')
    (auto simp: rule_command_def nft_element_def iptables_rule_def known_def dest: Itoa_inj)

text \<open>No write is torn, the state file can be read, and the clock does not run backwards.\<close>

definition orderly :: "'w surroundings \<Rightarrow> bool" where
  "orderly e \<longleftrightarrow> (\<forall>t. sr_fate e t \<noteq> Tears \<and> sr_fate e t \<noteq> KilledTorn \<and> sr_readable e t) \<and>
     (\<forall>t. sr_clock e t \<le> sr_clock e (Suc t))"

lemma clock_mono: "orderly e \<Longrightarrow> t \<le> t' \<Longrightarrow> sr_clock e t \<le> sr_clock e t'"
  by (rule lift_Suc_mono_le [of "sr_clock e"]) (auto simp: orderly_def)

definition closed :: "(nat \<Rightarrow> 'w \<Rightarrow> mechanism \<Rightarrow> nat \<Rightarrow> nat) \<Rightarrow> 'w machine \<Rightarrow> bool" where
  "closed R m \<longleftrightarrow> (\<forall>mech p. R (mc_tick m) (mc_wall m) mech p = 0)"

definition covered :: "(nat \<Rightarrow> 'w \<Rightarrow> mechanism \<Rightarrow> nat \<Rightarrow> nat) \<Rightarrow> sshAccessState \<Rightarrow> 'w machine \<Rightarrow> bool" where
  "covered R st m \<longleftrightarrow> (\<forall>mech p. R (mc_tick m) (mc_wall m) mech p \<le>
     (if sa_Mechanism st = mech \<and> sa_Port st = p then 1 else 0))"

text \<open>A rule in force is recorded, with a deadline at most fifteen minutes ahead.\<close>

definition window_inv :: "'w surroundings \<Rightarrow> (nat \<Rightarrow> 'w \<Rightarrow> mechanism \<Rightarrow> nat \<Rightarrow> nat) \<Rightarrow> 'w machine \<Rightarrow> bool" where
  "window_inv e R m \<longleftrightarrow>
     (case mc_file m of
        NoFile \<Rightarrow> closed R m
      | Garbled \<Rightarrow> False
      | Saved st \<Rightarrow> covered R st m \<and> known (sa_Mechanism st) \<and> sa_ExpiresAt st \<le> sr_clock e (mc_tick m) + temporarySSHDuration)"

lemma covered_upd [simp]:
  "covered R (st\<lparr>sa_Expiry := x\<rparr>) m = covered R st m" "covered R st (m\<lparr>mc_file := f\<rparr>) = covered R st m"
  "closed R (m\<lparr>mc_file := f\<rparr>) = closed R m"
  by (simp_all add: covered_def closed_def)

text \<open>A step that leaves the state file and adds no rule.\<close>

definition lower :: "(nat \<Rightarrow> 'w \<Rightarrow> mechanism \<Rightarrow> nat \<Rightarrow> nat) \<Rightarrow> 'w machine \<Rightarrow> 'w machine \<Rightarrow> bool" where
  "lower R m m' \<longleftrightarrow> mc_file m' = mc_file m \<and> mc_tick m \<le> mc_tick m' \<and>
     (\<forall>mech p. R (mc_tick m') (mc_wall m') mech p \<le> R (mc_tick m) (mc_wall m) mech p)"

lemma lower_refl [simp]: "lower R m m"
  by (simp add: lower_def)

lemma lower_trans: "lower R m m' \<Longrightarrow> lower R m' m'' \<Longrightarrow> lower R m m''"
  unfolding lower_def using le_trans by metis

lemma lower_closed: "closed R m \<Longrightarrow> lower R m m' \<Longrightarrow> closed R m'"
  by (simp add: closed_def lower_def)

lemma lower_covered: "covered R st m \<Longrightarrow> lower R m m' \<Longrightarrow> covered R st m'"
  unfolding covered_def lower_def using le_trans by blast

lemma closed_covered: "closed R m \<Longrightarrow> covered R st m"
  by (simp add: closed_def covered_def)

lemma lower_inv:
  assumes "orderly e" and "window_inv e R m" and "lower R m m'"
  shows "window_inv e R m'"
proof -
  have "sr_clock e (mc_tick m) \<le> sr_clock e (mc_tick m')"
    using assms(1,3) by (auto simp: lower_def intro: clock_mono)
  then show ?thesis
    using assms(2,3) lower_closed [OF _ assms(3)] lower_covered [OF _ assms(3)]
    by (cases "mc_file m") (auto simp: window_inv_def lower_def)
qed

definition calms :: "(nat \<Rightarrow> 'w \<Rightarrow> mechanism \<Rightarrow> nat \<Rightarrow> nat) \<Rightarrow> ('w, 'a) call \<Rightarrow> bool" where
  "calms R f \<longleftrightarrow> (\<forall>m. lower R m (snd (f m)))"

lemma calmsD: "calms R f \<Longrightarrow> f m = (r, m') \<Longrightarrow> lower R m m'"
  by (metis calms_def snd_conv)

lemma calms_give [simp]: "calms R (give x)" "calms R (give_up err)"
  by (simp_all add: calms_def give_def give_up_def)

lemma calms_and_then: "calms R f \<Longrightarrow> (\<And>x. calms R (g x)) \<Longrightarrow> calms R (and_then f g)"
  unfolding calms_def and_then_def
  by (auto split: prod.split result.split) (metis lower_trans snd_conv)+

lemma calms_attempt: "calms R f \<Longrightarrow> calms R (attempt f)"
  unfolding calms_def attempt_def
  by (auto split: prod.split result.split) (metis snd_conv)+

lemma tick_lower: "firewall_ok e R \<Longrightarrow> lower R m (tick m)"
  by (simp add: lower_def tick_def firewall_ok_def)

lemma calms_ask [simp]: "firewall_ok e R \<Longrightarrow> calms R (ask e args)"
  and calms_look [simp]: "firewall_ok e R \<Longrightarrow> calms R (look e name)"
  and calms_Now [simp]: "firewall_ok e R \<Longrightarrow> calms R (Now e)"
  and calms_aside [simp]: "firewall_ok e R \<Longrightarrow> calms R (aside e name)"
  and calms_load [simp]: "firewall_ok e R \<Longrightarrow> calms R (loadSSHAccessState e)"
  by (auto simp: calms_def ask_def look_def Now_def aside_def loadSSHAccessState_def tick_lower split: fate.split saved.split)

lemma calms_command:
  fixes e :: "'w surroundings"
  assumes "firewall_ok e R" and "\<And>mech p. args \<noteq> rule_command mech p"
  shows "calms R (platformCommand e args)"
  unfolding calms_def
proof
  fix m :: "'w machine"
  obtain ok w where run: "sr_run e (mc_tick m) args (mc_wall m) = (ok, w)" by force
  have l: "lower R m (tick m)" "lower R m ((tick m)\<lparr>mc_wall := w\<rparr>)"
    using assms run tick_lower [OF assms(1)] unfolding firewall_ok_def lower_def tick_def
    by (auto dest!: spec [where x = "mc_tick m"] spec [where x = args] spec [where x = "mc_wall m"] split: if_splits)
  show "lower R m (snd (platformCommand e args m))"
    using l by (simp add: platformCommand_def run Let_def split: fate.split)
qed

lemma not_rule:
  "[''nft'', ''-f'', s] \<noteq> rule_command mech p" "unrule_command mech' p' \<noteq> rule_command mech p"
  "timer_command self path \<noteq> rule_command mech p"
  by (cases mech; cases mech'; simp add: rule_command_def unrule_command_def nft_element_def nft_delete_def timer_command_def iptables_rule_def)+

lemmas calm_calls = calms_and_then calms_attempt calms_command not_rule

lemma calms_timers:
  assumes "firewall_ok e R"
  shows "calms R (cancelSSHAccessTimer e)" "calms R (armSSHAccessTimer e path)" "calms R (deleteNftablesSSHAccess e)"
    "calms R (removeSSHAccessRule e st)" "calms R (detectFirewallMechanism e)" "calms R (already_open e)"
proof -
  note c = calms_and_then calms_attempt calms_command [OF assms] not_rule
  show 1: "calms R (cancelSSHAccessTimer e)" unfolding cancelSSHAccessTimer_def using assms by (auto intro!: c)
  show "calms R (armSSHAccessTimer e path)" unfolding armSSHAccessTimer_def using assms 1 by (auto intro!: c)
  show 3: "calms R (deleteNftablesSSHAccess e)" unfolding deleteNftablesSSHAccess_def using assms by (auto intro!: c)
  show "calms R (removeSSHAccessRule e st)"
    unfolding removeSSHAccessRule_def using assms 3 by (cases "sa_Mechanism st") (auto intro!: c)
  show "calms R (detectFirewallMechanism e)" unfolding detectFirewallMechanism_def using assms by (auto intro!: c)
  show "calms R (already_open e)"
    unfolding already_open_def using assms by (auto intro!: c split: sum.split option.split)
qed

section \<open>The operations\<close>

text \<open>
  \<open>leads e R P f Q E\<close>: from a machine with \<open>P\<close>, the call \<open>f\<close> reaches \<open>Q\<close> with its value or \<open>E\<close> with an error; if
  the process dies within it, the invariant holds.
\<close>

fun ends :: "'w surroundings \<Rightarrow> (nat \<Rightarrow> 'w \<Rightarrow> mechanism \<Rightarrow> nat \<Rightarrow> nat) \<Rightarrow> ('a \<Rightarrow> 'w machine \<Rightarrow> bool) \<Rightarrow>
    ('w machine \<Rightarrow> bool) \<Rightarrow> 'a result \<times> 'w machine \<Rightarrow> bool" where
  "ends e R Q E (Value x, m) = Q x m"
| "ends e R Q E (Error err, m) = E m"
| "ends e R Q E (Dead, m) = window_inv e R m"

definition leads :: "'w surroundings \<Rightarrow> (nat \<Rightarrow> 'w \<Rightarrow> mechanism \<Rightarrow> nat \<Rightarrow> nat) \<Rightarrow> ('w machine \<Rightarrow> bool) \<Rightarrow> ('w, 'a) call \<Rightarrow>
    ('a \<Rightarrow> 'w machine \<Rightarrow> bool) \<Rightarrow> ('w machine \<Rightarrow> bool) \<Rightarrow> bool" where
  "leads e R P f Q E \<longleftrightarrow> (\<forall>m. P m \<longrightarrow> ends e R Q E (f m))"

lemma ends_cases:
  obtains (result) x m' where "r = (Value x, m')" | (error) err m' where "r = (Error err, m')" | (dead) m' where "r = (Dead, m')"
  by (metis result.exhaust surj_pair)

lemma leads_and_then:
  assumes "leads e R P f Q E" and "\<And>x. leads e R (Q x) (g x) Q' E"
  shows "leads e R P (and_then f g) Q' E"
  unfolding leads_def
proof (intro allI impI)
  fix m assume "P m"
  with assms(1) have "ends e R Q E (f m)" by (simp add: leads_def)
  then show "ends e R Q' E (and_then f g m)"
    using assms(2) by (cases "f m" rule: ends_cases) (simp_all add: and_then_def leads_def)
qed

lemma leads_attempt:
  assumes "leads e R P f Q E"
  shows "leads e R P (attempt f) (\<lambda>r. case r of Inl _ \<Rightarrow> E | Inr x \<Rightarrow> Q x) E'"
  unfolding leads_def
proof (intro allI impI)
  fix m assume "P m"
  with assms have "ends e R Q E (f m)" by (simp add: leads_def)
  then show "ends e R (\<lambda>r. case r of Inl _ \<Rightarrow> E | Inr x \<Rightarrow> Q x) E' (attempt f m)"
    by (cases "f m" rule: ends_cases) (simp_all add: attempt_def)
qed

lemma leads_conseq:
  assumes "leads e R P f Q E" and "\<And>m. P' m \<Longrightarrow> P m" "\<And>x m. Q x m \<Longrightarrow> Q' x m" "\<And>m. E m \<Longrightarrow> E' m"
  shows "leads e R P' f Q' E'"
  unfolding leads_def
proof (intro allI impI)
  fix m assume "P' m"
  with assms(1,2) have "ends e R Q E (f m)" by (simp add: leads_def)
  then show "ends e R Q' E' (f m)" using assms(3,4) by (cases "f m" rule: ends_cases) simp_all
qed

lemma leads_give: "(\<And>m. P m \<Longrightarrow> Q x m) \<Longrightarrow> leads e R P (give x) Q E"
  and leads_give_up: "(\<And>m. P m \<Longrightarrow> E m) \<Longrightarrow> leads e R P (give_up err) Q E"
  by (simp_all add: leads_def give_def give_up_def)

text \<open>A call that adds no rule keeps every property that such calls keep.\<close>

lemma leads_calm:
  assumes "calms R f" and "\<And>m m'. P m \<Longrightarrow> lower R m m' \<Longrightarrow> P m'" and "\<And>m. P m \<Longrightarrow> window_inv e R m"
  shows "leads e R P f (\<lambda>_. P) P"
  unfolding leads_def
proof (intro allI impI)
  fix m assume P: "P m"
  show "ends e R (\<lambda>_. P) P (f m)"
    using assms(2) [OF P calmsD [OF assms(1)]] assms(3) by (cases "f m" rule: ends_cases) simp_all
qed

text \<open>Nothing is in force.\<close>

definition shut :: "'w surroundings \<Rightarrow> (nat \<Rightarrow> 'w \<Rightarrow> mechanism \<Rightarrow> nat \<Rightarrow> nat) \<Rightarrow> 'w machine \<Rightarrow> bool" where
  "shut e R m \<longleftrightarrow> closed R m \<and> window_inv e R m"

definition recorded :: "'w surroundings \<Rightarrow> (nat \<Rightarrow> 'w \<Rightarrow> mechanism \<Rightarrow> nat \<Rightarrow> nat) \<Rightarrow> sshAccessState \<Rightarrow> 'w machine \<Rightarrow> bool" where
  "recorded e R st m \<longleftrightarrow> mc_file m = Saved st \<and> window_inv e R m"

lemma stable:
  assumes "orderly e" and "lower R m m'"
  shows "window_inv e R m \<Longrightarrow> window_inv e R m'" "shut e R m \<Longrightarrow> shut e R m'" "recorded e R st m \<Longrightarrow> recorded e R st m'"
    "shut e R m \<and> mc_file m = f \<Longrightarrow> shut e R m' \<and> mc_file m' = f"
  using lower_inv [OF assms(1) _ assms(2)] lower_closed [OF _ assms(2)] assms(2)
  by (auto simp: shut_def recorded_def lower_def)

lemma stable_calls:
  assumes "orderly e" and "calms R f"
  shows "leads e R (shut e R) f (\<lambda>_. shut e R) (shut e R)"
    "leads e R (recorded e R st) f (\<lambda>_. recorded e R st) (recorded e R st)"
    "leads e R (\<lambda>m. shut e R m \<and> mc_file m = fl) f (\<lambda>_ m. shut e R m \<and> mc_file m = fl) (\<lambda>m. shut e R m \<and> mc_file m = fl)"
    "leads e R (window_inv e R) f (\<lambda>_. window_inv e R) (window_inv e R)"
  by (rule leads_calm [OF assms(2)], erule (1) stable [OF assms(1), rotated], simp add: shut_def recorded_def)+

lemma command_removes:
  fixes e :: "'w surroundings"
  assumes ok: "firewall_ok e R" and o: "orderly e" and cov: "covered R st m" "window_inv e R m"
  shows "ends e R (\<lambda>_ m'. closed R m' \<and> lower R m m') (\<lambda>m'. closed R m' \<and> lower R m m')
    (platformCommand e (unrule_command (sa_Mechanism st) (sa_Port st)) m)"
proof -
  let ?args = "unrule_command (sa_Mechanism st) (sa_Port st)"
  let ?R = "R (mc_tick m) (mc_wall m) (sa_Mechanism st) (sa_Port st)"
  obtain good w where run: "sr_run e (mc_tick m) ?args (mc_wall m) = (good, w)" by force
  let ?m = "(tick m)\<lparr>mc_wall := w\<rparr>"
  have calm: "calms R (platformCommand e ?args)" by (rule calms_command [OF ok not_rule(2)])
  have l: "lower R m ?m" "lower R m (tick m)"
    using ok run not_rule(2) tick_lower [OF ok, of m] unfolding firewall_ok_def lower_def tick_def
    by (auto dest!: spec [where x = "mc_tick m"] spec [where x = ?args] spec [where x = "mc_wall m"] split: if_splits)
  have "closed R ?m"
  proof -
    have "R (mc_tick ?m) (mc_wall ?m) (sa_Mechanism st) (sa_Port st) = 0"
    proof (cases "?R = 0")
      case True
      with l(1) show ?thesis unfolding lower_def by (metis le_zero_eq)
    next
      case False
      moreover have "?R \<le> 1" using spec [OF spec [OF cov(1) [unfolded covered_def]], of "sa_Mechanism st" "sa_Port st"] by simp
      ultimately have "?R = 1" by simp
      moreover have good: "fst (sr_run e (mc_tick m) ?args (mc_wall m))" by (rule firewall_okD(4) [OF ok]) (use False in simp)
      ultimately show ?thesis using firewall_okD(3) [OF ok good] run by (simp add: tick_def)
    qed
    moreover have "R (mc_tick ?m) (mc_wall ?m) mech p = 0" if "mech \<noteq> sa_Mechanism st \<or> p \<noteq> sa_Port st" for mech p
    proof -
      have "R (mc_tick ?m) (mc_wall ?m) mech p \<le> R (mc_tick m) (mc_wall m) mech p" using l(1) by (simp only: lower_def)
      also have "\<dots> = 0" using cov(1) that unfolding covered_def by (metis le_zero_eq)
      finally show ?thesis by simp
    qed
    ultimately show ?thesis unfolding closed_def by metis
  qed
  with l lower_inv [OF o cov(2)] show ?thesis
    by (simp add: platformCommand_def run Let_def split: fate.split)
qed

lemma removal_closes:
  fixes e :: "'w surroundings"
  assumes ok: "firewall_ok e R" and o: "orderly e" and k: "known (sa_Mechanism st)"
  shows "leads e R (recorded e R st) (removeSSHAccessRule e st)
    (\<lambda>_ m'. shut e R m' \<and> mc_file m' = Saved st) (\<lambda>m'. shut e R m' \<and> mc_file m' = Saved st)"
  unfolding leads_def
proof (intro allI impI)
  fix m assume rec: "recorded e R st m"
  then have inv: "window_inv e R m" and f: "mc_file m = Saved st" and cov: "covered R st m"
    by (auto simp: recorded_def window_inv_def)
  let ?Q = "\<lambda>m'. shut e R m' \<and> mc_file m' = Saved st"
  have weak: "closed R m' \<and> lower R m m' \<Longrightarrow> ?Q m'" for m'
    using lower_inv [OF o inv] f by (auto simp: shut_def lower_def)
  have cmd: "ends e R (\<lambda>_. ?Q) ?Q (platformCommand e (unrule_command (sa_Mechanism st) (sa_Port st)) m)"
    using command_removes [OF ok o cov inv] weak
    by (cases "platformCommand e (unrule_command (sa_Mechanism st) (sa_Port st)) m" rule: ends_cases) auto
  show "ends e R (\<lambda>_. ?Q) ?Q (removeSSHAccessRule e st m)"
  proof (cases "sa_Mechanism st = NftablesSet")
    case False
    with cmd k show ?thesis by (cases "sa_Mechanism st") (simp_all add: removeSSHAccessRule_def known_def)
  next
    case True
    show ?thesis
    proof (cases "closed R m")
      case True
      then have "shut e R m" using inv by (simp add: shut_def)
      moreover have "leads e R ?Q (removeSSHAccessRule e st) (\<lambda>_. ?Q) ?Q"
        by (rule stable_calls(3) [OF o calms_timers(4) [OF ok]])
      ultimately show ?thesis using f unfolding leads_def by blast
    next
      case False
      then have pos: "0 < R (mc_tick m) (mc_wall m) NftablesSet (sa_Port st)"
      proof -
        obtain mech p where "R (mc_tick m) (mc_wall m) mech p \<noteq> 0" using False by (auto simp: closed_def)
        moreover from this have "sa_Mechanism st = mech \<and> sa_Port st = p"
          using spec [OF spec [OF cov [unfolded covered_def]], of mech p] by (auto split: if_splits)
        ultimately show ?thesis using True by simp
      qed
      let ?m = "tick m"
      have there: "sr_look e (mc_tick m) ''nft''" by (rule firewall_okD(5) [OF ok pos])
      show ?thesis
      proof (cases "sr_ask e (mc_tick ?m) [''nft'', ''list'', ''table'', ''inet'', temporarySSHTable] (mc_wall ?m)")
        case listed: True
        have l: "lower R m (tick ?m)" using tick_lower [OF ok] lower_trans by blast
        have rec': "recorded e R st (tick ?m)" by (rule stable(3) [OF o l rec])
        then have inv': "window_inv e R (tick ?m)" "covered R st (tick ?m)" "mc_file (tick ?m) = Saved st"
          by (auto simp: recorded_def window_inv_def)
        have "removeSSHAccessRule e st m = platformCommand e (unrule_command NftablesSet 0) (tick ?m)"
          using there listed True
          by (simp add: removeSSHAccessRule_def deleteNftablesSSHAccess_def and_then_def look_def ask_def)
        moreover have "unrule_command NftablesSet 0 = unrule_command (sa_Mechanism st) (sa_Port st)"
          using True by (simp add: unrule_command_def)
        moreover have "ends e R (\<lambda>_. ?Q) ?Q (platformCommand e (unrule_command (sa_Mechanism st) (sa_Port st)) (tick ?m))"
          using command_removes [OF ok o inv'(2,1)] lower_inv [OF o inv'(1)] inv'(3)
          by (cases "platformCommand e (unrule_command (sa_Mechanism st) (sa_Port st)) (tick ?m)" rule: ends_cases)
            (auto simp: shut_def lower_def)
        ultimately show ?thesis by (simp only:)
      next
        case False
        then have z: "R (mc_tick ?m) (mc_wall ?m) NftablesSet p = 0" for p
          using firewall_okD(6) [OF ok, of "mc_tick ?m" "mc_wall ?m" p] by auto
        have l: "lower R m (tick ?m)" "lower R m ?m" using tick_lower [OF ok] lower_trans by blast+
        have "closed R ?m"
          unfolding closed_def
        proof (intro allI)
          fix mech p
          have "R (mc_tick ?m) (mc_wall ?m) mech p \<le> R (mc_tick m) (mc_wall m) mech p" using l(2) unfolding lower_def by blast
          with z spec [OF spec [OF cov [unfolded covered_def]], of mech p] True
          show "R (mc_tick ?m) (mc_wall ?m) mech p = 0" by (cases "mech = NftablesSet") auto
        qed
        then have "closed R (tick ?m)" by (rule lower_closed [OF _ tick_lower [OF ok]])
        moreover have "removeSSHAccessRule e st m = (Value (), tick ?m)"
          using there False True
          by (simp add: removeSSHAccessRule_def deleteNftablesSSHAccess_def and_then_def look_def ask_def give_def)
        ultimately show ?thesis using weak [of "tick ?m"] l by simp
      qed
    qed
  qed
qed

lemma state_removed:
  assumes "orderly e" "firewall_ok e R"
  shows "leads e R (shut e R) (removeSSHAccessState e) (\<lambda>_ m'. shut e R m' \<and> mc_file m' = NoFile) (shut e R)"
  unfolding leads_def
proof (intro allI impI)
  fix m assume s: "shut e R m"
  have "shut e R (tick m)" by (rule stable(2) [OF assms(1) tick_lower [OF assms(2)] s])
  moreover from this have "shut e R ((tick m)\<lparr>mc_file := NoFile\<rparr>)" by (simp add: shut_def window_inv_def closed_def)
  ultimately show "ends e R (\<lambda>_ m'. shut e R m' \<and> mc_file m' = NoFile) (shut e R) (removeSSHAccessState e m)"
    by (cases "sr_fate e (mc_tick m)") (simp_all add: removeSSHAccessState_def Let_def, simp_all add: shut_def)
qed

lemma revoke_shuts:
  assumes ok: "firewall_ok e R" and o: "orderly e" and k: "known (sa_Mechanism st)"
  shows "leads e R (recorded e R st) (revokeSSHAccess e st) (\<lambda>_. shut e R) (shut e R)"
  unfolding revokeSSHAccess_def
proof (rule leads_and_then)
  show "leads e R (recorded e R st) (attempt (removeSSHAccessRule e st)) (\<lambda>_. shut e R) (shut e R)"
    by (rule leads_conseq [OF leads_attempt [OF removal_closes [OF ok o k]]]) (auto split: sum.splits)
  fix rule
  show "leads e R (shut e R) (and_then (attempt (cancelSSHAccessTimer e)) (\<lambda>timer.
      and_then (attempt (removeSSHAccessState e)) (\<lambda>state.
        if rule = Inr () \<and> timer = Inr () \<and> state = Inr () then give () else give_up ''revoke temporary SSH access'')))
      (\<lambda>_. shut e R) (shut e R)"
  proof (rule leads_and_then)
    show "leads e R (shut e R) (attempt (cancelSSHAccessTimer e)) (\<lambda>_. shut e R) (shut e R)"
      by (rule stable_calls(1) [OF o calms_attempt [OF calms_timers(1) [OF ok]]])
    fix timer
    show "leads e R (shut e R) (and_then (attempt (removeSSHAccessState e)) (\<lambda>state.
        if rule = Inr () \<and> timer = Inr () \<and> state = Inr () then give () else give_up ''revoke temporary SSH access''))
        (\<lambda>_. shut e R) (shut e R)"
    proof (rule leads_and_then)
      show "leads e R (shut e R) (attempt (removeSSHAccessState e)) (\<lambda>_. shut e R) (shut e R)"
        by (rule leads_conseq [OF leads_attempt [OF state_removed [OF o ok]]]) (auto split: sum.splits)
    qed (auto intro: leads_give leads_give_up)
  qed
qed

lemma load_cases:
  assumes "orderly e" and "window_inv e R m"
  shows "loadSSHAccessState e m = (Dead, tick m) \<or>
    loadSSHAccessState e m = (Value (case mc_file m of Saved st \<Rightarrow> Some st | _ \<Rightarrow> None), tick m)"
  using assms by (auto simp: loadSSHAccessState_def orderly_def window_inv_def split: saved.splits)

lemma close_shuts:
  fixes e :: "'w surroundings"
  assumes ok: "firewall_ok e R" and o: "orderly e" and inv: "window_inv e R m"
    and due: "force \<or> (case mc_file m of Saved st \<Rightarrow> sa_ExpiresAt st \<le> sr_clock e (Suc (mc_tick m)) | _ \<Rightarrow> True)"
  shows "ends e R (\<lambda>_. shut e R) (shut e R) (closeTemporarySSHAccess e force m)"
proof -
  let ?m = "tick m"
  have l: "lower R m ?m" "lower R ?m (tick ?m)" by (rule tick_lower [OF ok])+
  have inv': "window_inv e R ?m" by (rule lower_inv [OF o inv l(1)])
  show ?thesis
  proof (cases "loadSSHAccessState e m = (Dead, tick m)")
    case True
    with inv' show ?thesis by (simp add: closeTemporarySSHAccess_def and_then_def)
  next
    case False
    with load_cases [OF o inv]
    have load: "loadSSHAccessState e m = (Value (case mc_file m of Saved st \<Rightarrow> Some st | _ \<Rightarrow> None), ?m)" by blast
    show ?thesis
    proof (cases "mc_file m")
      case NoFile
      then have s: "shut e R ?m" using inv' by (simp add: shut_def window_inv_def tick_def)
      have "calms R (sweepOrphanedSSHAccess e)"
        unfolding sweepOrphanedSSHAccess_def using calms_timers [OF ok] by (auto intro: calms_and_then)
      then have "leads e R (shut e R) (sweepOrphanedSSHAccess e) (\<lambda>_. shut e R) (shut e R)"
        by (rule stable_calls(1) [OF o])
      with s NoFile load show ?thesis
        by (cases force) (simp_all add: closeTemporarySSHAccess_def and_then_def leads_def give_def)
    next
      case Garbled
      with inv show ?thesis by (simp add: window_inv_def)
    next
      case (Saved st)
      then have r: "recorded e R st ?m" "known (sa_Mechanism st)" using inv inv' by (auto simp: recorded_def window_inv_def tick_def)
      have r': "recorded e R st (tick ?m)" by (rule stable(3) [OF o l(2) r(1)])
      note rv = revoke_shuts [OF ok o r(2), unfolded leads_def, rule_format]
      show ?thesis
        using Saved load due rv [OF r(1)] rv [OF r']
        by (cases force) (auto simp: closeTemporarySSHAccess_def and_then_def Now_def tick_def)
    qed
  qed
qed

lemma close_early:
  fixes e :: "'w surroundings"
  assumes ok: "firewall_ok e R" and o: "orderly e" and inv: "window_inv e R m" and "mc_file m = Saved st"
    and "sr_clock e (Suc (mc_tick m)) < sa_ExpiresAt st"
  shows "closeTemporarySSHAccess e False m \<in> {(Value (), tick (tick m)), (Dead, tick m)}"
  using load_cases [OF o inv] assms(4,5)
  by (auto simp: closeTemporarySSHAccess_def and_then_def Now_def give_def tick_def)

lemma ends_inv:
  assumes "ends e R Q E (f m)" and "\<And>x m. Q x m \<Longrightarrow> window_inv e R m" "\<And>m. E m \<Longrightarrow> window_inv e R m"
  shows "window_inv e R (snd (f m))"
  using assms by (cases "f m" rule: ends_cases) auto

lemma close_inv:
  fixes e :: "'w surroundings"
  assumes ok: "firewall_ok e R" and o: "orderly e" and inv: "window_inv e R m"
  shows "window_inv e R (snd (closeTemporarySSHAccess e force m))"
proof (cases "force \<or> (case mc_file m of Saved st \<Rightarrow> sa_ExpiresAt st \<le> sr_clock e (Suc (mc_tick m)) | _ \<Rightarrow> True)")
  case True
  from close_shuts [OF ok o inv True] show ?thesis by (rule ends_inv) (simp_all add: shut_def)
next
  case False
  then obtain st where "mc_file m = Saved st" "sr_clock e (Suc (mc_tick m)) < sa_ExpiresAt st" "\<not> force"
    by (cases "mc_file m") auto
  then have "closeTemporarySSHAccess e force m \<in> {(Value (), tick (tick m)), (Dead, tick m)}"
    using close_early [OF ok o inv] by (cases force) simp_all
  then have "snd (closeTemporarySSHAccess e force m) = tick (tick m) \<or> snd (closeTemporarySSHAccess e force m) = tick m" by auto
  moreover have "lower R m (tick m)" "lower R (tick m) (tick (tick m))" by (rule tick_lower [OF ok])+
  ultimately show ?thesis using lower_inv [OF o] inv by metis
qed

lemma revoke_inv:
  fixes e :: "'w surroundings"
  assumes ok: "firewall_ok e R" and o: "orderly e" and inv: "window_inv e R m"
  shows "window_inv e R (snd (revokeTemporarySSHAccess e m))"
proof -
  have inv': "window_inv e R (tick m)" by (rule lower_inv [OF o inv tick_lower [OF ok]])
  show ?thesis
  proof (cases "\<exists>st. sr_root e \<and> mc_file m = Saved st \<and> loadSSHAccessState e m = (Value (Some st), tick m)")
    case True
    then obtain st where st: "sr_root e" "mc_file m = Saved st" "loadSSHAccessState e m = (Value (Some st), tick m)" by auto
    then have "recorded e R st (tick m)" "known (sa_Mechanism st)"
      using inv inv' by (auto simp: recorded_def window_inv_def tick_def)
    then have "ends e R (\<lambda>_. shut e R) (shut e R) (revokeSSHAccess e st (tick m))"
      using revoke_shuts [OF ok o] by (simp add: leads_def)
    then show ?thesis
      using st by (cases "revokeSSHAccess e st (tick m)" rule: ends_cases)
        (simp_all add: revokeTemporarySSHAccess_def and_then_def give_def shut_def)
  next
    case False
    with load_cases [OF o inv] inv inv' show ?thesis
      by (cases "mc_file m") (auto simp: revokeTemporarySSHAccess_def and_then_def give_def give_up_def)
  qed
qed

text \<open>The command that installs a rule, from a machine on which the deadline is recorded and nothing in force.\<close>

lemma rule_installs:
  fixes e :: "'w surroundings"
  assumes ok: "firewall_ok e R" and o: "orderly e" and st: "sa_Mechanism st = mech" "sa_Port st = p" "known mech"
  shows "leads e R (\<lambda>m. shut e R m \<and> mc_file m = Saved st) (platformCommand e (rule_command mech p)) (\<lambda>_. recorded e R st) (shut e R)"
  unfolding leads_def
proof (intro allI impI)
  fix m :: "'w machine"
  assume m: "shut e R m \<and> mc_file m = Saved st"
  let ?args = "rule_command mech p"
  obtain good w where run: "sr_run e (mc_tick m) ?args (mc_wall m) = (good, w)" by force
  let ?m = "(tick m)\<lparr>mc_wall := w\<rparr>"
  have z: "R (mc_tick m) (mc_wall m) mech' p' = 0" for mech' p' using m by (simp add: shut_def closed_def)
  have le: "R (mc_tick ?m) (mc_wall ?m) mech' p' \<le> (if good \<and> ?args = rule_command mech' p' then 1 else 0)" for mech' p'
    using firewall_okD(2) [OF ok, of "mc_tick m" ?args "mc_wall m" mech' p'] run z by (simp add: tick_def split: if_splits)
  have cov: "covered R st ?m"
    unfolding covered_def
  proof (intro allI)
    fix mech' p'
    show "R (mc_tick ?m) (mc_wall ?m) mech' p' \<le> (if sa_Mechanism st = mech' \<and> sa_Port st = p' then 1 else 0)"
    proof (cases "0 < R (mc_tick ?m) (mc_wall ?m) mech' p'")
      case True
      then have "good \<and> ?args = rule_command mech' p'" "known mech'"
        using le [of mech' p'] firewall_okD(7) [OF ok] by (auto split: if_splits)
      with rule_inj [OF st(3), of mech' p p'] le [of mech' p'] st show ?thesis by simp
    qed simp
  qed
  have clk: "sr_clock e (mc_tick m) \<le> sr_clock e (Suc (mc_tick m))" using o by (simp add: orderly_def)
  have "window_inv e R ?m" using m cov clk by (auto simp: shut_def window_inv_def tick_def)
  moreover have "closed R ?m" if "\<not> good" using le that by (simp add: closed_def)
  moreover have "window_inv e R (tick m)" by (rule lower_inv [OF o _ tick_lower [OF ok]]) (use m in \<open>simp add: shut_def\<close>)
  ultimately show "ends e R (\<lambda>_. recorded e R st) (shut e R) (platformCommand e ?args m)"
    using m by (auto simp: platformCommand_def run Let_def recorded_def shut_def tick_def split: fate.split)
qed

lemma install_records:
  fixes e :: "'w surroundings"
  assumes ok: "firewall_ok e R" and o: "orderly e" and st: "sa_Mechanism st = mech" "sa_Port st = p" "known mech"
  shows "leads e R (\<lambda>m. shut e R m \<and> mc_file m = Saved st) (installSSHAccessRule e path p mech) (\<lambda>_. recorded e R st) (shut e R)"
proof -
  let ?P = "\<lambda>m. shut e R m \<and> mc_file m = Saved st"
  note rule = rule_installs [OF ok o st]
  have calm: "leads e R ?P f (\<lambda>_. ?P) (shut e R)" if "calms R f" for f :: "('w, unit) call"
    by (rule leads_conseq [OF stable_calls(3) [OF o that]]) blast+
  have armed: "leads e R (recorded e R st) (and_then (attempt (armSSHAccessTimer e path)) (\<lambda>armed. give (h armed)))
      (\<lambda>_. recorded e R st) (shut e R)" for h :: "string + unit \<Rightarrow> expiry"
  proof (rule leads_and_then)
    show "leads e R (recorded e R st) (attempt (armSSHAccessTimer e path)) (\<lambda>_. recorded e R st) (shut e R)"
      by (rule leads_conseq [OF leads_attempt [OF stable_calls(2) [OF o calms_timers(2) [OF ok]]]]) (auto split: sum.splits)
  qed (auto intro: leads_give)
  have nft: "leads e R ?P (installNftablesSSHAccess e p) (\<lambda>_. recorded e R st) (shut e R)" if "mech = NftablesSet"
    unfolding installNftablesSSHAccess_def
  proof (intro leads_and_then)
    show "leads e R ?P (aside e ''temporary file'') (\<lambda>_. ?P) (shut e R)" by (rule calm) (simp add: ok)
    show "leads e R ?P (platformCommand e [''nft'', ''-f'', nft_script]) (\<lambda>_. ?P) (shut e R)"
      by (rule calm [OF calms_command [OF ok not_rule(1)]])
    show "leads e R ?P (platformCommand e (rule_command NftablesSet p)) (\<lambda>_. recorded e R st) (shut e R)"
      using rule that by simp
  qed
  show ?thesis
  proof (cases "mech = NftablesSet")
    case True
    then show ?thesis
      unfolding installSSHAccessRule_def by (auto intro!: leads_and_then [OF nft] leads_give)
  next
    case False
    have c: "(case mech of OtherMechanism x \<Rightarrow> give () | _ \<Rightarrow> platformCommand e (rule_command mech p)) =
        platformCommand e (rule_command mech p)"
      using st(3) by (cases mech) (simp_all add: known_def)
    from False show ?thesis
      unfolding installSSHAccessRule_def c by (simp add: leads_and_then [OF rule armed])
  qed
qed

lemma save_records:
  fixes e :: "'w surroundings"
  assumes ok: "firewall_ok e R" and o: "orderly e"
    and P: "\<And>m. P m \<Longrightarrow> window_inv e R m" "\<And>m m'. P m \<Longrightarrow> lower R m m' \<Longrightarrow> P m'"
      "\<And>m. P m \<Longrightarrow> Q (m\<lparr>mc_file := Saved st\<rparr>)" "\<And>m. Q m \<Longrightarrow> window_inv e R m"
  shows "leads e R P (saveSSHAccessState e st) (\<lambda>_. Q) P"
  unfolding leads_def
proof (intro allI impI)
  fix m assume "P m"
  then have "P (tick m)" by (rule P(2) [OF _ tick_lower [OF ok]])
  moreover have "sr_fate e (mc_tick m) \<noteq> Tears \<and> sr_fate e (mc_tick m) \<noteq> KilledTorn" using o by (simp add: orderly_def)
  ultimately show "ends e R (\<lambda>_. Q) P (saveSSHAccessState e st m)"
    using P(1,3,4) by (cases "sr_fate e (mc_tick m)") (simp_all add: saveSSHAccessState_def Let_def)
qed

lemma record_expiry_inv:
  fixes e :: "'w surroundings"
  assumes ok: "firewall_ok e R" and o: "orderly e"
  shows "leads e R (recorded e R st) (record_expiry e (st\<lparr>sa_Expiry := x\<rparr>) daemon) (\<lambda>_. window_inv e R) (window_inv e R)"
proof -
  let ?I = "window_inv e R"
  note calm = stable_calls(4) [OF o]
  have again: "recorded e R st m \<Longrightarrow> ?I (m\<lparr>mc_file := Saved (st\<lparr>sa_Expiry := x\<rparr>)\<rparr>)" for m
    by (auto simp: recorded_def window_inv_def)
  have "leads e R (recorded e R st) (saveSSHAccessState e (st\<lparr>sa_Expiry := x\<rparr>)) (\<lambda>_. ?I) (recorded e R st)"
  proof (rule save_records [OF ok o, of "recorded e R st" ?I])
    show "recorded e R st m \<Longrightarrow> lower R m m' \<Longrightarrow> recorded e R st m'" for m m' by (rule stable(3) [OF o])
  qed (auto simp: recorded_def intro: again)
  then have "leads e R (recorded e R st) (attempt (saveSSHAccessState e (st\<lparr>sa_Expiry := x\<rparr>))) (\<lambda>_. ?I) ?I"
    by (rule leads_conseq [OF leads_attempt]) (auto simp: recorded_def split: sum.splits)
  then show ?thesis
    unfolding record_expiry_def
    by (rule leads_and_then)
      (auto intro!: leads_and_then [OF calm [OF calms_attempt]] leads_give leads_give_up calms_timers [OF ok] split: sum.split)
qed

lemma finish_grant_inv:
  fixes e :: "'w surroundings"
  assumes ok: "firewall_ok e R" and o: "orderly e"
  shows "leads e R (case installed of Inl _ \<Rightarrow> shut e R | Inr x \<Rightarrow> recorded e R st) (finish_grant e st daemon installed)
    (\<lambda>_. window_inv e R) (window_inv e R)"
proof (cases installed)
  case (Inl err)
  have "leads e R (shut e R) (attempt (removeSSHAccessState e)) (\<lambda>_. window_inv e R) (window_inv e R)"
    by (rule leads_conseq [OF leads_attempt [OF state_removed [OF o ok]]]) (auto simp: shut_def split: sum.splits)
  with Inl show ?thesis by (auto simp: finish_grant_def intro!: leads_and_then leads_give_up)
qed (simp add: finish_grant_def record_expiry_inv [OF ok o])

lemma open_window_inv:
  fixes e :: "'w surroundings"
  assumes ok: "firewall_ok e R" and o: "orderly e" and k: "known mech"
  shows "leads e R (shut e R) (open_window e path p mech daemon) (\<lambda>_. window_inv e R) (window_inv e R)"
  unfolding leads_def
proof (intro allI impI)
  fix m :: "'w machine"
  assume m: "shut e R m"
  define st where "st = \<lparr>sa_Port = p, sa_GrantedAt = sr_clock e (mc_tick m), sa_ExpiresAt = sr_clock e (mc_tick m) + temporarySSHDuration,
    sa_Mechanism = mech, sa_Expiry = ExpiryUnspecified\<rparr>"
  let ?I = "window_inv e R" and ?E = "\<lambda>m'. shut e R m' \<and> sr_clock e (mc_tick m) \<le> sr_clock e (mc_tick m')"
  have timed: "?E m' \<Longrightarrow> lower R m' m'' \<Longrightarrow> ?E m''" for m' m''
    using stable(2) [OF o] clock_mono [OF o, of "mc_tick m'" "mc_tick m''"] by (auto simp: lower_def)
  have saved: "?E m' \<Longrightarrow> shut e R (m'\<lparr>mc_file := Saved st\<rparr>)" for m'
    using k closed_covered [of R m' st] by (simp add: shut_def window_inv_def st_def)
  have "leads e R ?E (and_then (saveSSHAccessState e st) (\<lambda>_.
      and_then (attempt (installSSHAccessRule e path p mech)) (finish_grant e st daemon))) (\<lambda>_. ?I) ?I"
  proof (rule leads_and_then)
    let ?Q = "\<lambda>m. shut e R m \<and> mc_file m = Saved st"
    have "?E m' \<Longrightarrow> ?Q (m'\<lparr>mc_file := Saved st\<rparr>)" for m' using saved by simp
    note now = this
    have "leads e R ?E (saveSSHAccessState e st) (\<lambda>_. ?Q) ?E"
    proof (rule save_records [OF ok o, of ?E ?Q])
      show "?E m' \<Longrightarrow> lower R m' m'' \<Longrightarrow> ?E m''" for m' m'' by (rule timed)
      show "?E m' \<Longrightarrow> ?Q (m'\<lparr>mc_file := Saved st\<rparr>)" for m' by (rule now)
    qed (simp_all add: shut_def)
    then show "leads e R ?E (saveSSHAccessState e st) (\<lambda>_. ?Q) ?I"
      by (rule leads_conseq) (simp_all add: shut_def)
    show "leads e R (\<lambda>m. shut e R m \<and> mc_file m = Saved st)
        (and_then (attempt (installSSHAccessRule e path p mech)) (finish_grant e st daemon)) (\<lambda>_. ?I) ?I"
      by (rule leads_and_then [OF leads_attempt [OF install_records [OF ok o]] finish_grant_inv [OF ok o]])
        (simp_all add: st_def k)
  qed
  moreover have "?E (tick m)" using timed [of m "tick m"] m tick_lower [OF ok] by simp
  ultimately show "ends e R (\<lambda>_. ?I) ?I (open_window e path p mech daemon m)"
    unfolding leads_def by (simp add: open_window_def and_then_def Now_def Let_def st_def)
qed

text \<open>
  A grant reads the clock twice before it writes, once for the reconciliation and once for the refusal of a second window. The
  window before it has its deadline between the two readings.
\<close>

definition straddles :: "'w surroundings \<Rightarrow> 'w machine \<Rightarrow> bool" where
  "straddles e m \<longleftrightarrow>
     (case mc_file m of
        Saved st \<Rightarrow> sr_clock e (Suc (mc_tick m)) < sa_ExpiresAt st \<and> sa_ExpiresAt st \<le> sr_clock e (mc_tick m + 3)
      | _ \<Rightarrow> False)"

lemma detect_known: "detectFirewallMechanism e m = (Value mech, m') \<Longrightarrow> known mech"
  by (auto simp: detectFirewallMechanism_def and_then_def look_def ask_def give_def give_up_def known_def split: if_splits)

lemma grant_rest:
  fixes e :: "'w surroundings"
  assumes ok: "firewall_ok e R" and o: "orderly e"
  shows "leads e R (shut e R) (and_then (already_open e) (\<lambda>open.
      if open then give_up ''temporary SSH access is already open''
      else and_then (detectFirewallMechanism e) (\<lambda>mech. \<lambda>m. open_window e path p mech (daemon m) m)))
      (\<lambda>_. window_inv e R) (window_inv e R)"
proof (rule leads_and_then)
  show "leads e R (shut e R) (already_open e) (\<lambda>_. shut e R) (window_inv e R)"
    by (rule leads_conseq [OF stable_calls(1) [OF o calms_timers(6) [OF ok]]]) (simp_all add: shut_def)
  fix x
  have "leads e R (shut e R) (detectFirewallMechanism e) (\<lambda>mech m. shut e R m \<and> known mech) (window_inv e R)"
    unfolding leads_def
  proof (intro allI impI)
    fix m :: "'w machine"
    assume "shut e R m"
    then have "ends e R (\<lambda>_. shut e R) (shut e R) (detectFirewallMechanism e m)"
      using stable_calls(1) [OF o calms_timers(5) [OF ok]] by (simp add: leads_def)
    then show "ends e R (\<lambda>mech m. shut e R m \<and> known mech) (window_inv e R) (detectFirewallMechanism e m)"
      by (cases "detectFirewallMechanism e m" rule: ends_cases) (auto simp: shut_def dest: detect_known)
  qed
  then have "leads e R (shut e R) (and_then (detectFirewallMechanism e) (\<lambda>mech. \<lambda>m. open_window e path p mech (daemon m) m))
      (\<lambda>_. window_inv e R) (window_inv e R)"
    by (rule leads_and_then) (use open_window_inv [OF ok o] in \<open>auto simp: leads_def\<close>)
  then show "leads e R (shut e R) (if x then give_up ''temporary SSH access is already open''
      else and_then (detectFirewallMechanism e) (\<lambda>mech. \<lambda>m. open_window e path p mech (daemon m) m))
      (\<lambda>_. window_inv e R) (window_inv e R)"
    by (auto intro: leads_give_up simp: shut_def)
qed

lemma grant_inv:
  fixes e :: "'w surroundings"
  assumes ok: "firewall_ok e R" and o: "orderly e" and inv: "window_inv e R m" and not: "\<not> straddles e m"
  shows "window_inv e R (snd (grantTemporarySSHAccess e path requested m))"
proof (cases "sr_root e")
  case False
  with inv show ?thesis by (simp add: grantTemporarySSHAccess_def give_up_def)
next
  case root: True
  let ?rest = "and_then (already_open e) (\<lambda>open.
      if open then give_up ''temporary SSH access is already open''
      else and_then (detectFirewallMechanism e) (\<lambda>mech. \<lambda>m. open_window e path (sshPort requested) mech
        (inspectSSHDaemon (sr_daemon e (mc_tick m)) (sshPort requested)) m))"
  have g: "grantTemporarySSHAccess e path requested m = and_then (closeTemporarySSHAccess e False) (\<lambda>_. ?rest) m"
    using root by (simp add: grantTemporarySSHAccess_def ReconcileTemporarySSHAccess_def)
  show ?thesis
  proof (cases "case mc_file m of Saved st \<Rightarrow> sa_ExpiresAt st \<le> sr_clock e (Suc (mc_tick m)) | _ \<Rightarrow> True")
    case True
    then have c: "ends e R (\<lambda>_. shut e R) (shut e R) (closeTemporarySSHAccess e False m)"
      using close_shuts [OF ok o inv, of False] by simp
    show ?thesis
    proof (cases "closeTemporarySSHAccess e False m" rule: ends_cases)
      case (result x m')
      with c have "ends e R (\<lambda>_. window_inv e R) (window_inv e R) (?rest m')"
        using grant_rest [OF ok o] by (simp add: leads_def)
      then have "window_inv e R (snd (?rest m'))" by (rule ends_inv) simp_all
      then show ?thesis unfolding g and_then_def [of "closeTemporarySSHAccess e False"] result by simp
    qed (use c g in \<open>simp_all add: and_then_def shut_def\<close>)
  next
    case False
    then obtain st where st: "mc_file m = Saved st" "sr_clock e (Suc (mc_tick m)) < sa_ExpiresAt st"
      by (cases "mc_file m") auto
    let ?m = "tick (tick m)"
    have low: "lower R m (tick m)" "lower R m ?m" "lower R m (tick ?m)" "lower R m (tick (tick ?m))"
      using tick_lower [OF ok] lower_trans by blast+
    note low_inv = lower_inv [OF o inv]
    have late: "sr_clock e (mc_tick m + 3) < sa_ExpiresAt st" using not st by (simp add: straddles_def)
    have f: "mc_file ?m = Saved st" using st(1) by (simp add: tick_def)
    have "snd (?rest ?m) = tick ?m \<or> snd (?rest ?m) = tick (tick ?m)"
      using load_cases [OF o low_inv [OF low(2)]] f late
      by (auto simp: and_then_def already_open_def attempt_def Now_def give_def give_up_def tick_def eval_nat_numeral)
    then have "snd (grantTemporarySSHAccess e path requested m) \<in> {tick m, tick ?m, tick (tick ?m)}"
      using close_early [OF ok o inv st] unfolding g and_then_def [of "closeTemporarySSHAccess e False"] by auto
    with low_inv low show ?thesis by auto
  qed
qed

section \<open>The window closes\<close>

text \<open>No grant of the history straddles a deadline.\<close>

fun steady_grants :: "'w surroundings \<Rightarrow> string \<Rightarrow> ssh_event list \<Rightarrow> 'w machine \<Rightarrow> bool" where
  "steady_grants e path [] m = True"
| "steady_grants e path (ev # evs) m =
     ((case ev of Grant _ \<Rightarrow> \<not> straddles e m | _ \<Rightarrow> True) \<and> steady_grants e path evs (ssh_step e path ev m))"

lemma ssh_history_inv:
  fixes e :: "'w surroundings"
  assumes "firewall_ok e R" and "orderly e" and "window_inv e R m" and "steady_grants e path evs m"
  shows "window_inv e R (ssh_history e path evs m)"
  using assms(3,4)
proof (induction evs arbitrary: m)
  case (Cons ev evs)
  have "window_inv e R (ssh_step e path ev m)"
    using Cons.prems grant_inv [OF assms(1,2)] revoke_inv [OF assms(1,2)] close_inv [OF assms(1,2)]
    by (cases ev) (simp_all add: ssh_step_def ReconcileTemporarySSHAccess_def CloseTemporarySSHAccess_def)
  with Cons show ?case by simp
qed simp

lemma ends_closed: "ends e R (\<lambda>_. shut e R) (shut e R) r \<Longrightarrow> fst r = Dead \<or> closed R (snd r)"
  by (cases r rule: ends_cases) (simp_all add: shut_def)

text \<open>
  C7: A temporary SSH window always has a recorded deadline and closes. Through any history of grants, revocations,
  reconciliations and forced closings on one machine, with failing calls and with the helper dying at any point, a rule of
  the helper that is in force is the one the state file records, with a deadline at most fifteen minutes ahead; a
  reconciliation that runs to its end at or after the deadline leaves no rule in force, and so does a forced closing
  at any time. This holds while removals of rules in force succeed, a failed installation leaves no rule, the state
  file is never torn or unreadable and no grant straddles a deadline; the findings show what happens otherwise.
\<close>

theorem ssh_window_closes:
  fixes e :: "'w surroundings"
  assumes ok: "firewall_ok e R" and o: "orderly e" and start: "mc_file m0 = NoFile" "closed R m0"
    and steady: "steady_grants e path evs m0"
  shows "let m = ssh_history e path evs m0 in
    (closed R m \<or> (case mc_file m of
       Saved st \<Rightarrow> covered R st m \<and> sa_ExpiresAt st \<le> sr_clock e (mc_tick m) + temporarySSHDuration | _ \<Rightarrow> False)) \<and>
    (fst (ReconcileTemporarySSHAccess e m) = Dead \<or> closed R (snd (ReconcileTemporarySSHAccess e m)) \<or>
      (case mc_file m of Saved st \<Rightarrow> sr_clock e (Suc (mc_tick m)) < sa_ExpiresAt st | _ \<Rightarrow> False)) \<and>
    (fst (CloseTemporarySSHAccess e m) = Dead \<or> closed R (snd (CloseTemporarySSHAccess e m)))"
proof -
  let ?m = "ssh_history e path evs m0"
  have inv: "window_inv e R ?m"
    by (rule ssh_history_inv [OF ok o _ steady]) (simp add: window_inv_def start)
  have "fst (ReconcileTemporarySSHAccess e ?m) = Dead \<or> closed R (snd (ReconcileTemporarySSHAccess e ?m))"
    if "case mc_file ?m of Saved st \<Rightarrow> sa_ExpiresAt st \<le> sr_clock e (Suc (mc_tick ?m)) | _ \<Rightarrow> True"
    unfolding ReconcileTemporarySSHAccess_def by (rule ends_closed [OF close_shuts [OF ok o inv]]) (use that in simp)
  moreover have "fst (CloseTemporarySSHAccess e ?m) = Dead \<or> closed R (snd (CloseTemporarySSHAccess e ?m))"
    unfolding CloseTemporarySSHAccess_def by (rule ends_closed [OF close_shuts [OF ok o inv]]) simp
  ultimately show ?thesis
    using inv by (cases "mc_file ?m") (auto simp: window_inv_def Let_def)
qed

section \<open>A machine with iptables\<close>

definition iptables_entry :: "string \<Rightarrow> string list" where
  "iptables_entry s = [''-p'', ''tcp'', ''--dport'', s, ''-m'', ''comment'', ''--comment'', temporarySSHMark, ''-j'', ''ACCEPT'']"

text \<open>The ports of the rules of the helper; \<open>broken\<close> says which commands fail.\<close>

definition demo_run :: "(nat \<Rightarrow> string list \<Rightarrow> bool) \<Rightarrow> nat \<Rightarrow> string list \<Rightarrow> string set \<Rightarrow> bool \<times> string set" where
  "demo_run broken t args w =
     (if broken t args then (False, w)
      else if take 4 args = [''iptables'', ''-I'', ''INPUT'', ''1''] \<and> drop 4 args = iptables_entry (args ! 7) then (True, insert (args ! 7) w)
      else if take 3 args = [''iptables'', ''-D'', ''INPUT''] \<and> drop 3 args = iptables_entry (args ! 6) then (True, w - {args ! 6})
      else (True, w))"

definition demo_machine :: "(nat \<Rightarrow> fate) \<Rightarrow> (nat \<Rightarrow> gotime) \<Rightarrow> (nat \<Rightarrow> string list \<Rightarrow> bool) \<Rightarrow> string set surroundings" where
  "demo_machine fates clock broken = \<lparr>sr_fate = fates, sr_readable = (\<lambda>_. True), sr_clock = clock,
     sr_look = (\<lambda>_ name. name = ''iptables''), sr_ask = (\<lambda>_ _ _. False), sr_run = demo_run broken,
     sr_daemon = (\<lambda>_. \<lparr>dv_tcp = None, dv_tcp6 = None, dv_systemctl = False, dv_active = (\<lambda>_. False), dv_comms = None,
       dv_configs = []\<rparr>), sr_root = True\<rparr>"

definition demo_rules :: "nat \<Rightarrow> string set \<Rightarrow> mechanism \<Rightarrow> nat \<Rightarrow> nat" where
  "demo_rules t w mech p = (if mech = Iptables \<and> Itoa (int p) \<in> w then 1 else 0)"

definition demo_idle :: "string set machine" where
  "demo_idle = \<lparr>mc_file = NoFile, mc_wall = {}, mc_tick = 0\<rparr>"

lemma demo_words:
  "take 4 (rule_command Iptables p) = [''iptables'', ''-I'', ''INPUT'', ''1'']" "drop 4 (rule_command Iptables p) = iptables_entry (Itoa (int p))"
  "rule_command Iptables p ! 7 = Itoa (int p)"
  "take 3 (unrule_command Iptables p) = [''iptables'', ''-D'', ''INPUT'']" "drop 3 (unrule_command Iptables p) = iptables_entry (Itoa (int p))"
  "unrule_command Iptables p ! 6 = Itoa (int p)" "take 4 (unrule_command Iptables p) = [''iptables'', ''-D'', ''INPUT'', ''-p'']"
  by (simp_all add: unrule_command_def rule_command_def iptables_rule_def iptables_entry_def)

lemma demo_commands:
  "demo_run broken t (unrule_command Iptables p) w =
     (if broken t (unrule_command Iptables p) then (False, w) else (True, w - {Itoa (int p)}))"
  "demo_run broken t (rule_command Iptables p) w =
     (if broken t (rule_command Iptables p) then (False, w) else (True, insert (Itoa (int p)) w))"
  unfolding demo_run_def demo_words by simp_all

lemma demo_adds:
  "demo_rules (Suc t) (snd (demo_run (\<lambda>_ _. False) t args w)) mech p \<le>
     (if fst (demo_run (\<lambda>_ _. False) t args w) \<and> args = rule_command mech p then Suc (demo_rules t w mech p) else demo_rules t w mech p)"
proof (cases "take 4 args = [''iptables'', ''-I'', ''INPUT'', ''1''] \<and> drop 4 args = iptables_entry (args ! 7)")
  case True
  then have r: "demo_run (\<lambda>_ _. False) t args w = (True, insert (args ! 7) w)" by (simp only: demo_run_def if_False if_True simp_thms)
  show ?thesis
  proof (cases "mech = Iptables \<and> Itoa (int p) = args ! 7")
    case same: True
    with True have "args = rule_command mech p" by (metis append_take_drop_id demo_words(1,2))
    with r show ?thesis by (simp add: demo_rules_def)
  next
    case False
    with r show ?thesis by (auto simp: demo_rules_def)
  qed
next
  case False
  then have "demo_run (\<lambda>_ _. False) t args w = (True, w) \<or> demo_run (\<lambda>_ _. False) t args w = (True, w - {args ! 6})"
    unfolding demo_run_def by (simp only: if_False if_True) (metis (full_types))
  then show ?thesis by (auto simp: demo_rules_def)
qed

lemma demo_firewall: "firewall_ok (demo_machine fates clock (\<lambda>_ _. False)) demo_rules"
  unfolding firewall_ok_def
proof (intro conjI allI impI)
  fix t args w mech p
  show "demo_rules (Suc t) (snd (sr_run (demo_machine fates clock (\<lambda>_ _. False)) t args w)) mech p \<le>
     (if fst (sr_run (demo_machine fates clock (\<lambda>_ _. False)) t args w) \<and> args = rule_command mech p
      then Suc (demo_rules t w mech p) else demo_rules t w mech p)"
    unfolding demo_machine_def surroundings.simps by (rule demo_adds)
qed (auto simp: demo_machine_def demo_rules_def demo_commands split: if_splits)

lemma demo_orderly: "orderly (demo_machine (\<lambda>_. Succeeds) (\<lambda>t. int t * minute) (\<lambda>_ _. False))"
  by (simp add: orderly_def demo_machine_def)

lemmas ssh_steps = ssh_step_def grantTemporarySSHAccess_def revokeTemporarySSHAccess_def ReconcileTemporarySSHAccess_def
  CloseTemporarySSHAccess_def closeTemporarySSHAccess_def and_then_def attempt_def give_def give_up_def Now_def look_def ask_def
  loadSSHAccessState_def saveSSHAccessState_def removeSSHAccessState_def already_open_def detectFirewallMechanism_def
  open_window_def finish_grant_def record_expiry_def installSSHAccessRule_def armSSHAccessTimer_def removeSSHAccessRule_def
  revokeSSHAccess_def cancelSSHAccessTimer_def sweepOrphanedSSHAccess_def deleteNftablesSSHAccess_def platformCommand_def
  tick_def Let_def sshPort_def defaultSSHPort_def temporarySSHDuration_def demo_machine_def demo_idle_def demo_commands

lemma ssh_window_closes_witness:
  "let e = demo_machine (\<lambda>_. Succeeds) (\<lambda>t. int t * minute) (\<lambda>_ _. False);
       m = ssh_history e [] [Grant 0, Reconcile, Reconcile, Reconcile, Reconcile] demo_idle
   in \<not> closed demo_rules (ssh_history e [] [Grant 0] demo_idle) \<and> closed demo_rules (snd (CloseTemporarySSHAccess e m))"
proof -
  let ?e = "demo_machine (\<lambda>_. Succeeds) (\<lambda>t. int t * minute) (\<lambda>_ _. False)"
  let ?m = "ssh_history ?e [] [Grant 0, Reconcile, Reconcile, Reconcile, Reconcile] demo_idle"
  have "\<not> closed demo_rules (ssh_history ?e [] [Grant 0] demo_idle)"
    by (simp add: ssh_steps closed_def demo_rules_def) (rule exI [of _ 22], simp)
  moreover have steady: "steady_grants ?e [] [Grant 0, Reconcile, Reconcile, Reconcile, Reconcile] demo_idle"
    by (simp add: straddles_def demo_idle_def)
  moreover have start: "closed demo_rules demo_idle" "mc_file demo_idle = NoFile" by (simp_all add: closed_def demo_rules_def demo_idle_def)
  moreover have "fst (CloseTemporarySSHAccess ?e ?m) \<noteq> Dead" by (simp add: ssh_steps)
  ultimately show ?thesis
    unfolding Let_def
    using ssh_window_closes [OF demo_firewall demo_orderly start(2,1) steady, unfolded Let_def] by blast
qed

section \<open>When the promises are broken\<close>

text \<open>
  A removal that fails: the state file and the timer are taken away all the same, so that the rule stays in
  force and nothing will close it.
\<close>

definition failing_removal :: "nat \<Rightarrow> string list \<Rightarrow> bool" where
  "failing_removal t args \<longleftrightarrow> args = unrule_command Iptables 22"

lemma failing_removal_simps:
  "failing_removal t (unrule_command Iptables 22)" "\<not> failing_removal t (rule_command Iptables 22)"
  using not_rule(2) [of Iptables 22 Iptables 22] by (auto simp: failing_removal_def)

definition demo_open :: "string set machine" where
  "demo_open = \<lparr>mc_file = Saved \<lparr>sa_Port = 22, sa_GrantedAt = 6 * minute, sa_ExpiresAt = 21 * minute,
      sa_Mechanism = Iptables, sa_Expiry = HelperReconcile\<rparr>, mc_wall = {Itoa 22}, mc_tick = 11\<rparr>"

lemma failed_removal_steps:
  assumes "e = demo_machine (\<lambda>_. Succeeds) (\<lambda>t. int t * minute) failing_removal"
  shows "ssh_step e [] (Grant 0) demo_idle = demo_open"
    "ssh_step e [] Close demo_open = \<lparr>mc_file = NoFile, mc_wall = {Itoa 22}, mc_tick = 15\<rparr>"
    "ssh_step e [] Reconcile \<lparr>mc_file = NoFile, mc_wall = w, mc_tick = t\<rparr> = \<lparr>mc_file = NoFile, mc_wall = w, mc_tick = Suc t\<rparr>"
    "ssh_step e [] Close \<lparr>mc_file = NoFile, mc_wall = w, mc_tick = t\<rparr> = \<lparr>mc_file = NoFile, mc_wall = w, mc_tick = t + 3\<rparr>"
  unfolding assms by (simp_all add: ssh_steps failing_removal_simps demo_open_def)

lemma failed_removal_forgotten:
  "let e = demo_machine (\<lambda>_. Succeeds) (\<lambda>t. int t * minute) failing_removal;
       m = ssh_history e [] [Grant 0, Close, Reconcile, Close] demo_idle
   in mc_file m = NoFile \<and> demo_rules (mc_tick m) (mc_wall m) Iptables 22 = 1"
  by (simp add: failed_removal_steps [OF refl] Let_def demo_rules_def)

text \<open>
  The state file is written in place. If the helper dies within the second write, the file does not decode, and neither a
  reconciliation nor the forced closing of the timer removes the rule.
\<close>

lemma torn_state_never_closes:
  "let e = demo_machine (\<lambda>t. if t = 10 then KilledTorn else Succeeds) (\<lambda>t. int t * minute) (\<lambda>_ _. False);
       m = ssh_history e [] [Grant 0, Reconcile, Close] demo_idle
   in mc_file m = Garbled \<and> demo_rules (mc_tick m) (mc_wall m) Iptables 22 = 1"
  by (simp add: ssh_steps demo_rules_def)

text \<open>
  The deadline of a window passes between the two readings of the clock: the second grant overwrites its record, and the
  first port stays open.
\<close>

lemma ports_differ: "Itoa 22 \<noteq> Itoa 8022"
  by (simp add: Itoa_def nat_digits.simps)

lemma straddling_grant_forgets:
  "let e = demo_machine (\<lambda>_. Succeeds) (\<lambda>t. if t \<le> 12 then 0 else 15 * minute) (\<lambda>_ _. False);
       m = ssh_history e [] [Grant 0, Grant 8022, Close] demo_idle
   in mc_file m = NoFile \<and> demo_rules (mc_tick m) (mc_wall m) Iptables 22 = 1"
  by (simp add: ssh_steps demo_rules_def ports_differ)

end
