(* ===== verification/RescueWatch.thy ===== *)
theory RescueWatch
  imports HostHelper SshAccess
begin

text \<open>
  The authorization of the rescue helper (\<open>rescue/host_authorization.go\<close>): the panel streams a freshly signed revision
  every second, and the helper acts only while the last one it accepted is younger than ten seconds and the protected
  local policy allows it. The loop of \<open>watchAuthorization\<close> is a machine over the events of its \<open>select\<close>; an event
  carries what the outside shows at that moment: the time, the protected files, the tree with the credentials, the
  frame. A loss of the authorization closes the SSH window of SshAccess.
\<close>

section \<open>The identity and the policy\<close>

text \<open>\<open>dec\<close> decodes the credentials; they are untrusted except for what the trust pin confirms.\<close>

definition readHostIdentity :: "(bytes \<Rightarrow> Identity option) \<Rightarrow> Manifest \<Rightarrow> Trust \<Rightarrow> tree \<Rightarrow> Identity option" where
  "readHostIdentity dec m t root =
     (case ReadCandidate root (CredentialsFile m) of
        Inl _ \<Rightarrow> None
      | Inr b \<Rightarrow>
          (case dec b of
             None \<Rightarrow> None
           | Some i \<Rightarrow>
               if AgentID i \<noteq> tr_AgentID t \<or> Endpoint i \<noteq> tr_Endpoint t \<or> AccessToken i = [] then None
               else Some (i\<lparr>ControlPlaneKeys := PanelKeys t, PolicyAlgorithms := [1], PolicyMinimumSignatures := 1,
                            PolicyRequireAll := False\<rparr>)))"

definition rootPolicyAllows :: "(bytes \<Rightarrow> (HostPolicy \<times> bytes) option) \<Rightarrow> Manifest \<Rightarrow> host_fs \<Rightarrow> bool" where
  "rootPolicyAllows dec m fs =
     (case ReadPolicy fs dec (Some m) of
        Inl _ \<Rightarrow> False
      | Inr p \<Rightarrow> AllowRescueHelper p \<and> \<not> ForceDenyRescueHelper p \<and> HelperInstalled p \<and> HelperAuthorized p)"

section \<open>One heartbeat\<close>

abbreviation authorizationSilence :: duration where
  "authorizationSilence \<equiv> 10 * second"

definition RescueHelperEnabled :: "PrivilegedRevision \<Rightarrow> bool" where
  "RescueHelperEnabled r =
     (case pr_Privileged r of None \<Rightarrow> False | Some p \<Rightarrow> pc_RescueHelperEnabled p = Some True)"

definition rescueRevisionAllowed :: "PrivilegedRevision \<Rightarrow> bool" where
  "rescueRevisionAllowed r \<longleftrightarrow>
     RescueHelperEnabled r \<and> (pr_State r = APPLYING \<or> pr_State r = DELIVERED \<or> pr_State r = AWAITING_AGENT)"

record heartbeatCursor =
  hc_issued :: gotime
  hc_sequence :: u64

datatype heartbeat_error = Unverified host_error | UndecodableHeartbeat | MissingHeartbeatTime | StaleHeartbeat

text \<open>What the model is given: Ed25519, protobuf, SHA-256, the decoders, the pin and the manifest.\<close>

record watch_config =
  wc_ed :: "bytes \<Rightarrow> bytes \<Rightarrow> bytes \<Rightarrow> bool"
  wc_unm :: "bytes \<Rightarrow> SignedInstruction option"
  wc_sha :: "bytes \<Rightarrow> bytes"
  wc_pm :: "PrivilegedRevision \<Rightarrow> bytes option"
  wc_trust :: Trust
  wc_manifest :: Manifest
  wc_identity :: "bytes \<Rightarrow> Identity option"
  wc_policy :: "bytes \<Rightarrow> (HostPolicy \<times> bytes) option"

abbreviation verifySigned :: "watch_config \<Rightarrow> gotime \<Rightarrow> PrivilegedRevision option \<Rightarrow> host_error option" where
  "verifySigned P now r \<equiv> VerifySignedRevision (wc_ed P) (wc_unm P) (wc_sha P) (wc_pm P) now (wc_trust P) r"

text \<open>The time in the signed payload; \<open>CheckValid\<close> and the nil check refuse the other timestamps.\<close>

definition heartbeat_issued :: "watch_config \<Rightarrow> PrivilegedRevision \<Rightarrow> heartbeat_error + gotime" where
  "heartbeat_issued P r =
     (case wc_unm P (case pr_Signature r of None \<Rightarrow> [] | Some s \<Rightarrow> se_Payload s) of
        None \<Rightarrow> Inl UndecodableHeartbeat
      | Some i \<Rightarrow> (case si_IssuedAt i of TsValid t \<Rightarrow> Inr t | _ \<Rightarrow> Inl MissingHeartbeatTime))"

text \<open>\<open>heartbeatCursor.accept\<close>.\<close>

definition accept_heartbeat ::
  "watch_config \<Rightarrow> gotime \<Rightarrow> heartbeatCursor \<Rightarrow> PrivilegedRevision option \<Rightarrow> heartbeat_error + heartbeatCursor" where
  "accept_heartbeat P now c revision =
     (case verifySigned P now revision of
        Some err \<Rightarrow> Inl (Unverified err)
      | None \<Rightarrow>
          (case heartbeat_issued P (the revision) of
             Inl err \<Rightarrow> Inl err
           | Inr issued \<Rightarrow>
               if time_sub now issued \<ge> authorizationSilence \<or> issued > now + second \<or> \<not> issued > hc_issued c \<or>
                  pr_UpdateSequence (the revision) < hc_sequence c
               then Inl StaleHeartbeat
               else Inr \<lparr>hc_issued = issued, hc_sequence = pr_UpdateSequence (the revision)\<rparr>))"

text \<open>
  \<open>receiveAuthorization\<close>: the frames of one stream. \<open>None\<close> is a call that fails; a message comes with whether its
  response header announces the protocol.
\<close>

datatype frame = FrameError | Revision "PrivilegedRevision option"

fun stream_frames :: "(bool \<times> PrivilegedRevision option) list \<Rightarrow> frame list" where
  "stream_frames [] = [FrameError]"
| "stream_frames ((announced, r) # ms) = (if announced then Revision r # stream_frames ms else [FrameError])"

definition receiveAuthorization :: "(bool \<times> PrivilegedRevision option) list option \<Rightarrow> frame list" where
  "receiveAuthorization call = (case call of None \<Rightarrow> [FrameError] | Some ms \<Rightarrow> stream_frames ms)"

section \<open>The watch\<close>

text \<open>
  The variables of \<open>watchAuthorization\<close> and the two flags of the helper. \<open>wa_stream\<close> is whether \<open>frames\<close> and
  \<open>cancelStream\<close> are set, \<open>wa_changes\<close> whether the notification channel is; \<open>wa_status\<close> is the published status file,
  \<open>wa_running\<close> whether the loop goes on. The last error only keeps the log short and is left out.
\<close>

record 'w watch =
  wa_authorized :: bool
  wa_leaseReady :: bool
  wa_changes :: bool
  wa_stream :: bool
  wa_token :: string
  wa_cursor :: heartbeatCursor
  wa_lastFrame :: gotime
  wa_nextRetry :: gotime
  wa_lastLocal :: gotime
  wa_lastPublish :: gotime
  wa_lastCheck :: gotime
  wa_backoff :: duration
  wa_status :: "HelperStatus option"
  wa_ssh :: "'w machine"
  wa_running :: bool

datatype watch_event =
    Over
  | NotificationClosed
  | CredentialsChanged gotime tree
  | Frame gotime frame host_fs
  | Ticker gotime tree tree host_fs "helper_error + u64 \<times> path" int

definition deny :: "'w surroundings \<Rightarrow> 'w watch \<Rightarrow> 'w watch" where
  "deny e w =
     (let w' = w\<lparr>wa_leaseReady := False, wa_authorized := False\<rparr> in
      if wa_authorized w then
        (let (r, m) = CloseTemporarySSHAccess e (wa_ssh w) in w'\<lparr>wa_ssh := m, wa_running := (r \<noteq> Dead)\<rparr>)
      else w')"

definition disconnect :: "'w surroundings \<Rightarrow> gotime \<Rightarrow> 'w watch \<Rightarrow> 'w watch" where
  "disconnect e now w =
     (let w' = deny e w in
      w'\<lparr>wa_stream := False, wa_nextRetry := now + wa_backoff w', wa_backoff := min (30 * second) (wa_backoff w' * 2)\<rparr>)"

definition handoff :: "watch_config \<Rightarrow> 'w surroundings \<Rightarrow> gotime \<Rightarrow> tree \<Rightarrow> 'w watch \<Rightarrow> 'w watch" where
  "handoff P e now root w =
     (case readHostIdentity (wc_identity P) (wc_manifest P) (wc_trust P) root of
        None \<Rightarrow> disconnect e now w
      | Some i \<Rightarrow>
          if AccessToken i = wa_token w then w
          else w\<lparr>wa_stream := False, wa_nextRetry := 0, wa_backoff := 500 * millisecond\<rparr>)"

text \<open>The case of a frame. A nil channel never delivers.\<close>

definition on_frame :: "watch_config \<Rightarrow> 'w surroundings \<Rightarrow> gotime \<Rightarrow> frame \<Rightarrow> host_fs \<Rightarrow> 'w watch \<Rightarrow> 'w watch" where
  "on_frame P e now f fs w =
     (case f of
        FrameError \<Rightarrow> disconnect e now w
      | Revision r \<Rightarrow>
          (case accept_heartbeat P now (wa_cursor w) r of
             Inl _ \<Rightarrow> disconnect e now w
           | Inr c \<Rightarrow>
               (let w' = w\<lparr>wa_cursor := c, wa_lastFrame := (if hc_issued c < now then hc_issued c else now)\<rparr> in
                if \<not> rescueRevisionAllowed (the r) then deny e w'
                else if \<not> rootPolicyAllows (wc_policy P) (wc_manifest P) fs then deny e w'
                else w'\<lparr>wa_authorized := True, wa_leaseReady := True, wa_backoff := 500 * millisecond\<rparr>)))"

text \<open>The case of the ticker, one definition per block; \<open>None\<close> is the \<open>continue\<close> of the second.\<close>

definition tick_credentials :: "watch_config \<Rightarrow> 'w surroundings \<Rightarrow> gotime \<Rightarrow> tree \<Rightarrow> 'w watch \<Rightarrow> 'w watch" where
  "tick_credentials P e now root w =
     (if \<not> wa_changes w \<and> time_sub now (wa_lastCheck w) \<ge> 5 * second
      then handoff P e now root (w\<lparr>wa_lastCheck := now\<rparr>) else w)"

definition tick_connect :: "watch_config \<Rightarrow> gotime \<Rightarrow> tree \<Rightarrow> 'w watch \<Rightarrow> 'w watch option" where
  "tick_connect P now root w =
     (if \<not> wa_stream w \<and> now \<ge> wa_nextRetry w then
        (case readHostIdentity (wc_identity P) (wc_manifest P) (wc_trust P) root of
           None \<Rightarrow> None
         | Some i \<Rightarrow> Some (w\<lparr>wa_stream := True, wa_token := AccessToken i,
             wa_lastFrame := (if wa_lastFrame w = 0 \<or> \<not> wa_authorized w then now else wa_lastFrame w)\<rparr>))
      else Some w)"

definition tick_silence :: "'w surroundings \<Rightarrow> gotime \<Rightarrow> 'w watch \<Rightarrow> 'w watch" where
  "tick_silence e now w =
     (if wa_stream w \<and> time_sub now (wa_lastFrame w) \<ge> authorizationSilence then disconnect e now w else w)"

definition tick_policy :: "watch_config \<Rightarrow> 'w surroundings \<Rightarrow> gotime \<Rightarrow> host_fs \<Rightarrow> 'w watch \<Rightarrow> 'w watch" where
  "tick_policy P e now fs w =
     (if time_sub now (wa_lastLocal w) \<ge> 500 * millisecond then
        (let w' = w\<lparr>wa_lastLocal := now\<rparr> in if rootPolicyAllows (wc_policy P) (wc_manifest P) fs then w' else deny e w')
      else w)"

text \<open>\<open>publishHostStatus\<close>: the start ticks and the executable of the process, or the error that stops it.\<close>

definition publishHostStatus :: "gotime \<Rightarrow> helper_error + u64 \<times> path \<Rightarrow> int \<Rightarrow> 'w watch \<Rightarrow> 'w watch" where
  "publishHostStatus now self pid w =
     (case self of
        Inl _ \<Rightarrow> w
      | Inr (ticks, exe) \<Rightarrow> w\<lparr>wa_status := Some \<lparr>hs_PID = pid, hs_StartTicks = ticks, hs_Executable = exe,
          hs_Authorized = wa_authorized w, hs_LeaseReady = wa_leaseReady w, hs_ObservedAt = now\<rparr>\<rparr>)"

definition tick_publish :: "gotime \<Rightarrow> helper_error + u64 \<times> path \<Rightarrow> int \<Rightarrow> 'w watch \<Rightarrow> 'w watch" where
  "tick_publish now self pid w =
     (if time_sub now (wa_lastPublish w) \<ge> 2 * second then publishHostStatus now self pid (w\<lparr>wa_lastPublish := now\<rparr>) else w)"

definition on_tick ::
  "watch_config \<Rightarrow> 'w surroundings \<Rightarrow> gotime \<Rightarrow> tree \<Rightarrow> tree \<Rightarrow> host_fs \<Rightarrow> helper_error + u64 \<times> path \<Rightarrow> int \<Rightarrow>
     'w watch \<Rightarrow> 'w watch" where
  "on_tick P e now root1 root2 fs self pid w =
     (let w1 = tick_credentials P e now root1 w in
      case tick_connect P now root2 w1 of
        None \<Rightarrow> disconnect e now w1
      | Some w2 \<Rightarrow>
          (let w3 = tick_policy P e now fs (tick_silence e now w2) in
           if wa_running w3 then tick_publish now self pid w3 else w3))"

text \<open>The calls under a cancelled context: \<open>exec.CommandContext\<close> does not start the command.\<close>

definition cancelled :: "'w surroundings \<Rightarrow> 'w surroundings" where
  "cancelled e = e\<lparr>sr_run := (\<lambda>_ _ w. (False, w)), sr_ask := (\<lambda>_ _ _. False)\<rparr>"

text \<open>The end of the loop with the deferred calls.\<close>

definition watch_over :: "'w surroundings \<Rightarrow> 'w watch \<Rightarrow> 'w watch" where
  "watch_over e w =
     (deny (cancelled e) w)\<lparr>wa_authorized := False, wa_leaseReady := False, wa_stream := False, wa_status := None,
        wa_running := False\<rparr>"

definition watch_step :: "watch_config \<Rightarrow> 'w surroundings \<Rightarrow> watch_event \<Rightarrow> 'w watch \<Rightarrow> 'w watch" where
  "watch_step P e ev w =
     (if \<not> wa_running w then w
      else case ev of
        Over \<Rightarrow> watch_over e w
      | NotificationClosed \<Rightarrow> w\<lparr>wa_changes := False\<rparr>
      | CredentialsChanged now root \<Rightarrow> if wa_changes w then handoff P e now root w else w
      | Frame now f fs \<Rightarrow> if wa_stream w then on_frame P e now f fs w else w
      | Ticker now root1 root2 fs self pid \<Rightarrow> on_tick P e now root1 root2 fs self pid w)"

text \<open>\<open>watchAuthorization\<close>, for the events that arrive.\<close>

fun watchAuthorization :: "watch_config \<Rightarrow> 'w surroundings \<Rightarrow> watch_event list \<Rightarrow> 'w watch \<Rightarrow> 'w watch" where
  "watchAuthorization P e [] w = w"
| "watchAuthorization P e (ev # evs) w = watchAuthorization P e evs (watch_step P e ev w)"

text \<open>The variables as the loop starts: \<open>Run\<close> has dropped the authorization of an earlier process.\<close>

definition watch_start :: "bool \<Rightarrow> HelperStatus option \<Rightarrow> 'w machine \<Rightarrow> 'w watch" where
  "watch_start notified status m =
     \<lparr>wa_authorized = False, wa_leaseReady = False, wa_changes = notified, wa_stream = False, wa_token = [],
      wa_cursor = \<lparr>hc_issued = 0, hc_sequence = 0\<rparr>, wa_lastFrame = 0, wa_nextRetry = 0, wa_lastLocal = 0,
      wa_lastPublish = 0, wa_lastCheck = 0, wa_backoff = 500 * millisecond, wa_status = status, wa_ssh = m,
      wa_running = True\<rparr>"

section \<open>Facts on the steps\<close>

lemma deny_simps [simp]:
  "wa_authorized (deny e w) = False" "wa_leaseReady (deny e w) = False" "wa_stream (deny e w) = wa_stream w"
  "wa_cursor (deny e w) = wa_cursor w" "wa_lastFrame (deny e w) = wa_lastFrame w" "wa_nextRetry (deny e w) = wa_nextRetry w"
  "wa_backoff (deny e w) = wa_backoff w" "wa_token (deny e w) = wa_token w" "wa_changes (deny e w) = wa_changes w"
  "wa_status (deny e w) = wa_status w" "wa_lastLocal (deny e w) = wa_lastLocal w"
  by (simp_all add: deny_def Let_def split: prod.split)

lemma deny_quiet: "\<not> wa_authorized w \<Longrightarrow> deny e w = w\<lparr>wa_leaseReady := False\<rparr>"
  by (simp add: deny_def)

lemma disconnect_simps [simp]:
  "wa_authorized (disconnect e now w) = False" "wa_leaseReady (disconnect e now w) = False"
  "wa_stream (disconnect e now w) = False" "wa_cursor (disconnect e now w) = wa_cursor w"
  "wa_backoff (disconnect e now w) = min (30 * second) (wa_backoff w * 2)"
  "wa_nextRetry (disconnect e now w) = now + wa_backoff w"
  by (simp_all add: disconnect_def Let_def)

lemma handoff_cases:
  "handoff P e now root w = disconnect e now w \<or> handoff P e now root w = w \<or>
   handoff P e now root w = w\<lparr>wa_stream := False, wa_nextRetry := 0, wa_backoff := 500 * millisecond\<rparr>"
  by (auto simp: handoff_def split: option.split)

lemma time_sub_less: "time_sub t u < d \<Longrightarrow> d < 2 ^ 63 \<Longrightarrow> - (2 ^ 63) < d \<Longrightarrow> t - u < d"
  by (auto simp: time_sub_def)

lemma silence_broken: "time_sub t u < authorizationSilence \<Longrightarrow> t - u < authorizationSilence"
  by (rule time_sub_less) simp_all

lemma silence_broken': "time_sub t u < 10000000000 \<Longrightarrow> t - u < 10000000000"
  using silence_broken [of t u] by simp

text \<open>What an accepted heartbeat is.\<close>

lemma accept_heartbeatD:
  assumes "accept_heartbeat P now c revision = Inr c'"
  shows "\<exists>r. revision = Some r \<and> verifySigned P now (Some r) = None \<and> heartbeat_issued P r = Inr (hc_issued c') \<and>
    hc_issued c < hc_issued c' \<and> hc_sequence c \<le> hc_sequence c' \<and> hc_sequence c' = pr_UpdateSequence r \<and>
    now - hc_issued c' < authorizationSilence \<and> hc_issued c' \<le> now + second"
proof (cases revision)
  case None
  with assms show ?thesis by (simp add: accept_heartbeat_def VerifySignedRevision_def)
next
  case (Some r)
  with assms show ?thesis
    by (auto simp: accept_heartbeat_def not_le not_less split: option.splits sum.splits if_splits dest: silence_broken')
qed

text \<open>The authorization outlives a stopped loop in no case, and a helper that is authorized has a time to answer to.\<close>

definition watch_inv :: "'w watch \<Rightarrow> bool" where
  "watch_inv w \<longleftrightarrow> 0 \<le> hc_issued (wa_cursor w) \<and> wa_leaseReady w = wa_authorized w \<and> (\<not> wa_running w \<longrightarrow> \<not> wa_authorized w) \<and>
     (wa_authorized w \<longrightarrow> (wa_stream w \<or> wa_nextRetry w = 0) \<and> 0 < wa_lastFrame w \<and>
        wa_lastFrame w \<le> hc_issued (wa_cursor w))"

lemma watch_inv_denied [simp]:
  "0 \<le> hc_issued (wa_cursor w) \<Longrightarrow> watch_inv (deny e w)" "0 \<le> hc_issued (wa_cursor w) \<Longrightarrow> watch_inv (disconnect e now w)"
  by (simp_all add: watch_inv_def)

lemma watch_inv_start: "watch_inv (watch_start notified status m)"
  by (simp add: watch_inv_def watch_start_def)

fun dated :: "watch_event \<Rightarrow> bool" where
  "dated (CredentialsChanged now _) = (0 < now)"
| "dated (Frame now _ _) = (0 < now)"
| "dated (Ticker now _ _ _ _ _) = (0 < now)"
| "dated _ = True"

section \<open>The blocks of a tick\<close>

lemma handoff_inv:
  assumes "watch_inv w"
  shows "watch_inv (handoff P e now root w)"
  using handoff_cases [of P e now root w] assms by (auto simp: watch_inv_def)

lemma tick_credentials_inv: "watch_inv w \<Longrightarrow> watch_inv (tick_credentials P e now root w)"
  by (auto simp: tick_credentials_def intro!: handoff_inv) (simp add: watch_inv_def)

lemma handoff_keeps:
  "wa_authorized (handoff P e now root w) \<Longrightarrow> wa_authorized w \<and> wa_cursor (handoff P e now root w) = wa_cursor w"
  using handoff_cases [of P e now root w] by auto

lemma tick_credentials_keeps:
  assumes "wa_authorized (tick_credentials P e now root w)"
  shows "wa_authorized w \<and> wa_cursor (tick_credentials P e now root w) = wa_cursor w"
  using assms handoff_keeps [of P e now root "w\<lparr>wa_lastCheck := now\<rparr>"] by (auto simp: tick_credentials_def split: if_splits)

lemma tick_connect_inv:
  assumes "watch_inv w" and "0 < now" and "tick_connect P now root w = Some w'"
  shows "watch_inv w' \<and> wa_authorized w' = wa_authorized w \<and> wa_cursor w' = wa_cursor w \<and> wa_running w' = wa_running w \<and>
    (wa_authorized w \<longrightarrow> wa_stream w' \<and> wa_lastFrame w' = wa_lastFrame w)"
  using assms by (auto simp: tick_connect_def watch_inv_def split: if_splits option.splits)

lemma tick_tail:
  assumes "watch_inv w"
  shows "watch_inv (tick_policy P e now fs (tick_silence e now w))"
    and "wa_authorized (tick_policy P e now fs (tick_silence e now w)) \<Longrightarrow>
      wa_authorized w \<and> (wa_stream w \<longrightarrow> now - wa_lastFrame w < authorizationSilence)"
    and "wa_cursor (tick_policy P e now fs (tick_silence e now w)) = wa_cursor w"
proof -
  have s: "watch_inv (tick_silence e now w)" "wa_cursor (tick_silence e now w) = wa_cursor w"
    "wa_authorized (tick_silence e now w) \<Longrightarrow>
      wa_authorized w \<and> (wa_stream w \<longrightarrow> now - wa_lastFrame w < authorizationSilence)"
    using assms silence_broken [of now "wa_lastFrame w"]
    by (auto simp: tick_silence_def not_le watch_inv_def split: if_splits)
  then show "watch_inv (tick_policy P e now fs (tick_silence e now w))"
    by (auto simp: tick_policy_def Let_def watch_inv_def)
  show "wa_cursor (tick_policy P e now fs (tick_silence e now w)) = wa_cursor w"
    using s(2) by (simp add: tick_policy_def Let_def)
  assume "wa_authorized (tick_policy P e now fs (tick_silence e now w))"
  then have "wa_authorized (tick_silence e now w)" by (simp add: tick_policy_def Let_def split: if_splits)
  with s(3) show "wa_authorized w \<and> (wa_stream w \<longrightarrow> now - wa_lastFrame w < authorizationSilence)" by simp
qed

lemma publish_simps [simp]:
  "wa_authorized (tick_publish now self pid w) = wa_authorized w" "wa_cursor (tick_publish now self pid w) = wa_cursor w"
  "wa_running (tick_publish now self pid w) = wa_running w" "wa_ssh (tick_publish now self pid w) = wa_ssh w"
  "wa_stream (tick_publish now self pid w) = wa_stream w" "wa_nextRetry (tick_publish now self pid w) = wa_nextRetry w"
  "wa_backoff (tick_publish now self pid w) = wa_backoff w"
  "watch_inv (tick_publish now self pid w) = watch_inv w"
  by (auto simp: tick_publish_def publishHostStatus_def watch_inv_def split: sum.split)

lemma on_tick_inv:
  assumes "watch_inv w" and "0 < now"
  shows "watch_inv (on_tick P e now root1 root2 fs self pid w)"
    and "wa_authorized (on_tick P e now root1 root2 fs self pid w) \<Longrightarrow>
      wa_authorized w \<and> wa_cursor (on_tick P e now root1 root2 fs self pid w) = wa_cursor w \<and>
      now - hc_issued (wa_cursor w) < authorizationSilence"
proof -
  let ?w1 = "tick_credentials P e now root1 w"
  have i: "watch_inv ?w1" by (rule tick_credentials_inv [OF assms(1)])
  then have pos: "0 \<le> hc_issued (wa_cursor ?w1)" by (simp add: watch_inv_def)
  show "watch_inv (on_tick P e now root1 root2 fs self pid w)"
  proof (cases "tick_connect P now root2 ?w1")
    case (Some w2)
    from tick_connect_inv [OF i assms(2) Some] have "watch_inv w2" by simp
    from tick_tail(1) [OF this, of P e now fs] show ?thesis by (simp add: on_tick_def Some Let_def)
  qed (simp add: on_tick_def pos)
  assume a: "wa_authorized (on_tick P e now root1 root2 fs self pid w)"
  then obtain w2 where w2: "tick_connect P now root2 ?w1 = Some w2"
    by (auto simp: on_tick_def Let_def split: option.splits)
  note c = tick_connect_inv [OF i assms(2) w2]
  from a have f: "wa_authorized w2" "wa_stream w2 \<longrightarrow> now - wa_lastFrame w2 < authorizationSilence"
    using tick_tail(2) [of w2 P e now fs] c by (simp_all add: on_tick_def Let_def w2 split: if_splits)
  have k: "wa_authorized w" "wa_cursor ?w1 = wa_cursor w" using tick_credentials_keeps [of P e now root1 w] f(1) c by auto
  have "wa_cursor (on_tick P e now root1 root2 fs self pid w) = wa_cursor w"
    using tick_tail(3) [of w2] c k by (simp add: on_tick_def Let_def w2)
  moreover have "wa_lastFrame w2 \<le> hc_issued (wa_cursor w)" "wa_stream w2"
    using c f(1) k by (auto simp: watch_inv_def)
  ultimately show "wa_authorized w \<and> wa_cursor (on_tick P e now root1 root2 fs self pid w) = wa_cursor w \<and>
      now - hc_issued (wa_cursor w) < authorizationSilence"
    using f(2) k by simp
qed

section \<open>The frames\<close>

lemma on_frame_cases:
  obtains (denied) "\<not> wa_authorized (on_frame P e now f fs w)"
  | (granted) r c where "f = Revision (Some r)" "accept_heartbeat P now (wa_cursor w) (Some r) = Inr c"
      "rescueRevisionAllowed r" "rootPolicyAllows (wc_policy P) (wc_manifest P) fs"
      "on_frame P e now f fs w = w\<lparr>wa_cursor := c, wa_lastFrame := (if hc_issued c < now then hc_issued c else now),
         wa_authorized := True, wa_leaseReady := True, wa_backoff := 500 * millisecond\<rparr>"
proof (cases "wa_authorized (on_frame P e now f fs w)")
  case True
  then obtain v where v: "f = Revision v" by (cases f) (simp_all add: on_frame_def)
  from True v obtain c where c: "accept_heartbeat P now (wa_cursor w) v = Inr c"
    by (cases "accept_heartbeat P now (wa_cursor w) v") (simp_all add: on_frame_def)
  from accept_heartbeatD [OF c] obtain r where r: "v = Some r" by blast
  from True show thesis
    using granted [of r c] by (auto simp: on_frame_def v c [unfolded r] r Let_def split: if_splits)
qed (rule denied)

lemma on_frame_inv:
  assumes "watch_inv w" and "wa_stream w" and "0 < now" and "wa_running w"
  shows "watch_inv (on_frame P e now f fs w)"
proof -
  have pos: "0 \<le> hc_issued c" if "accept_heartbeat P now (wa_cursor w) r = Inr c" for r c
    using accept_heartbeatD [OF that] assms(1) by (auto simp: watch_inv_def)
  show ?thesis
  proof (cases rule: on_frame_cases [of P e now f fs w])
    case denied
    then show ?thesis
      using assms(1) pos by (auto simp: on_frame_def Let_def watch_inv_def split: frame.splits sum.splits if_splits)
  next
    case (granted r c)
    have "hc_issued (wa_cursor w) < hc_issued c" using accept_heartbeatD [OF granted(2)] by auto
    then show ?thesis using assms granted by (auto simp: watch_inv_def)
  qed
qed

section \<open>No action without a fresh heartbeat\<close>

lemma watch_step_inv:
  assumes "watch_inv w" and "dated ev"
  shows "watch_inv (watch_step P e ev w)"
proof (cases ev)
  case Over
  with assms(1) show ?thesis by (simp add: watch_step_def watch_over_def watch_inv_def)
next
  case NotificationClosed
  with assms(1) show ?thesis by (simp add: watch_step_def watch_inv_def)
qed (use assms in \<open>simp_all add: watch_step_def handoff_inv on_frame_inv on_tick_inv(1)\<close>)

lemma watch_append: "watchAuthorization P e (evs @ [ev]) w = watch_step P e ev (watchAuthorization P e evs w)"
  by (induction evs arbitrary: w) simp_all

lemma watch_history_inv:
  "watch_inv w \<Longrightarrow> list_all dated evs \<Longrightarrow> watch_inv (watchAuthorization P e evs w)"
  by (induction evs arbitrary: w) (simp_all add: watch_step_inv)

fun ticked_by :: "gotime \<Rightarrow> watch_event \<Rightarrow> bool" where
  "ticked_by limit (Ticker now _ _ _ _ _) = (now < limit)"
| "ticked_by limit _ = True"

lemma watch_step_authorized:
  assumes "watch_inv w" and "dated ev" and "wa_authorized (watch_step P e ev w)"
  shows "(\<exists>now r fs. ev = Frame now (Revision (Some r)) fs \<and>
      accept_heartbeat P now (wa_cursor w) (Some r) = Inr (wa_cursor (watch_step P e ev w)) \<and>
      rescueRevisionAllowed r \<and> rootPolicyAllows (wc_policy P) (wc_manifest P) fs) \<or>
    (wa_authorized w \<and> wa_cursor (watch_step P e ev w) = wa_cursor w \<and>
      ticked_by (hc_issued (wa_cursor w) + authorizationSilence) ev)"
proof (cases "wa_running w")
  case False
  with assms show ?thesis by (auto simp: watch_step_def watch_inv_def)
next
  case run: True
  show ?thesis
  proof (cases ev)
    case (Frame now f fs)
    show ?thesis
    proof (cases "wa_stream w")
      case True
      then have s: "watch_step P e ev w = on_frame P e now f fs w" using run by (simp add: watch_step_def Frame)
      show ?thesis
      proof (cases rule: on_frame_cases [of P e now f fs w])
        case denied
        with assms(3) s show ?thesis by simp
      next
        case (granted r c)
        with s Frame show ?thesis by simp
      qed
    qed (use assms(3) run Frame in \<open>simp add: watch_step_def\<close>)
  next
    case (Ticker now root1 root2 fs self pid)
    then show ?thesis using on_tick_inv(2) [OF assms(1), of now P e root1 root2 fs self pid] assms(2,3) run
      by (simp add: watch_step_def)
  next
    case (CredentialsChanged now root)
    then show ?thesis using handoff_keeps [of P e now root w] assms(3) run
      by (cases "wa_changes w") (simp_all add: watch_step_def)
  qed (use assms(3) run in \<open>simp_all add: watch_step_def watch_over_def\<close>)
qed

text \<open>
  C5: The rescue helper is authorized only by a fresh heartbeat. Whatever frames, credential changes and ticks arrive, if
  the helper is authorized afterwards then some frame of the history carried a revision signed by the pinned panel keys
  that enables the rescue helper in an approved state, while the protected local policy allowed it; that heartbeat was
  issued later than every one accepted before it, its sequence had not gone back, it was less than ten seconds old and
  at most one second ahead, nothing was accepted after it, and every tick since came less than ten seconds after its
  signed time: neither a reconnection nor a change of credentials extends it.
\<close>

theorem rescue_needs_heartbeat:
  fixes m :: "'w machine"
  assumes "list_all dated evs"
    and "wa_authorized (watchAuthorization P e evs (watch_start notified status m))"
  shows "\<exists>pre now r fs post issued.
    evs = pre @ Frame now (Revision (Some r)) fs # post \<and>
    verifySigned P now (Some r) = None \<and> heartbeat_issued P r = Inr issued \<and>
    rescueRevisionAllowed r \<and> rootPolicyAllows (wc_policy P) (wc_manifest P) fs \<and>
    hc_issued (wa_cursor (watchAuthorization P e pre (watch_start notified status m))) < issued \<and>
    hc_sequence (wa_cursor (watchAuthorization P e pre (watch_start notified status m))) \<le> pr_UpdateSequence r \<and>
    now - issued < authorizationSilence \<and> issued \<le> now + second \<and>
    wa_cursor (watchAuthorization P e evs (watch_start notified status m)) =
      \<lparr>hc_issued = issued, hc_sequence = pr_UpdateSequence r\<rparr> \<and>
    list_all (ticked_by (issued + authorizationSilence)) post"
  using assms
proof (induction evs rule: rev_induct)
  case Nil
  then show ?case by (simp add: watch_start_def)
next
  case (snoc ev evs)
  let ?w = "\<lambda>evs. watchAuthorization P e evs (watch_start notified status m)"
  from snoc.prems(1) have d: "dated ev" "list_all dated evs" by simp_all
  have inv: "watch_inv (?w evs)" by (rule watch_history_inv [OF watch_inv_start d(2)])
  have step: "?w (evs @ [ev]) = watch_step P e ev (?w evs)" by (rule watch_append)
  from watch_step_authorized [OF inv d(1)] snoc.prems(2) [unfolded step]
  consider (fresh) now r fs where "ev = Frame now (Revision (Some r)) fs"
      "accept_heartbeat P now (wa_cursor (?w evs)) (Some r) = Inr (wa_cursor (?w (evs @ [ev])))"
      "rescueRevisionAllowed r" "rootPolicyAllows (wc_policy P) (wc_manifest P) fs"
    | (old) "wa_authorized (?w evs)" "wa_cursor (?w (evs @ [ev])) = wa_cursor (?w evs)"
      "ticked_by (hc_issued (wa_cursor (?w evs)) + authorizationSilence) ev"
    unfolding step by blast
  then show ?case
  proof cases
    case fresh
    obtain c where c: "wa_cursor (?w (evs @ [ev])) = c" by simp
    from accept_heartbeatD [OF fresh(2)] have h: "verifySigned P now (Some r) = None" "heartbeat_issued P r = Inr (hc_issued c)"
      "hc_issued (wa_cursor (?w evs)) < hc_issued c" "hc_sequence (wa_cursor (?w evs)) \<le> hc_sequence c"
      "hc_sequence c = pr_UpdateSequence r" "now - hc_issued c < authorizationSilence" "hc_issued c \<le> now + second"
      unfolding c by auto
    show ?thesis
      by (rule exI [of _ evs], rule exI [of _ now], rule exI [of _ r], rule exI [of _ fs], rule exI [of _ "[]"],
          rule exI [of _ "hc_issued c"]) (use fresh(1,3,4) h c in simp)
  next
    case old
    from snoc.IH [OF d(2) old(1)] obtain pre now r fs post issued where ih:
      "evs = pre @ Frame now (Revision (Some r)) fs # post"
      "verifySigned P now (Some r) = None" "heartbeat_issued P r = Inr issued"
      "rescueRevisionAllowed r" "rootPolicyAllows (wc_policy P) (wc_manifest P) fs"
      "hc_issued (wa_cursor (?w pre)) < issued" "hc_sequence (wa_cursor (?w pre)) \<le> pr_UpdateSequence r"
      "now - issued < authorizationSilence" "issued \<le> now + second"
      "wa_cursor (?w evs) = \<lparr>hc_issued = issued, hc_sequence = pr_UpdateSequence r\<rparr>"
      "list_all (ticked_by (issued + authorizationSilence)) post"
      by blast
    show ?thesis
      by (rule exI [of _ pre], rule exI [of _ now], rule exI [of _ r], rule exI [of _ fs], rule exI [of _ "post @ [ev]"],
          rule exI [of _ issued]) (use ih old(2,3) in simp)
  qed
qed

section \<open>The watch comes back\<close>

fun not_after :: "gotime \<Rightarrow> watch_event \<Rightarrow> bool" where
  "not_after limit (CredentialsChanged now _) = (now \<le> limit)"
| "not_after limit (Frame now _ _) = (now \<le> limit)"
| "not_after limit (Ticker now _ _ _ _ _) = (now \<le> limit)"
| "not_after limit _ = True"

definition retry_inv :: "gotime \<Rightarrow> 'w watch \<Rightarrow> bool" where
  "retry_inv limit w \<longleftrightarrow> wa_nextRetry w \<le> limit + 30 * second \<and> wa_backoff w \<le> 30 * second"

lemma retry_inv_simps [simp]:
  "retry_inv limit (deny e w) = retry_inv limit w"
  "retry_inv limit (tick_publish now self pid w) = retry_inv limit w"
  "retry_inv limit w \<Longrightarrow> now \<le> limit \<Longrightarrow> retry_inv limit (disconnect e now w)"
  by (auto simp: retry_inv_def)

lemma handoff_retry: "retry_inv limit w \<Longrightarrow> 0 < now \<Longrightarrow> now \<le> limit \<Longrightarrow> retry_inv limit (handoff P e now root w)"
  using handoff_cases [of P e now root w] by (auto simp: retry_inv_def)

lemma on_tick_retry:
  assumes "retry_inv limit w" and "0 < now" and "now \<le> limit"
  shows "retry_inv limit (on_tick P e now root1 root2 fs self pid w)"
proof -
  have c: "retry_inv limit (tick_credentials P e now root1 w)"
    using assms by (auto simp: tick_credentials_def intro!: handoff_retry) (simp add: retry_inv_def)
  have k: "retry_inv limit w2" if "tick_connect P now root2 (tick_credentials P e now root1 w) = Some w2" for w2
    using that c by (auto simp: tick_connect_def retry_inv_def split: if_splits option.splits)
  have s: "retry_inv limit (tick_policy P e now fs (tick_silence e now w2))" if "retry_inv limit w2" for w2
  proof -
    have "retry_inv limit (tick_silence e now w2)" using that assms(3) by (simp add: tick_silence_def)
    then show ?thesis by (auto simp: tick_policy_def Let_def retry_inv_def)
  qed
  show ?thesis using c k s assms(3) by (auto simp: on_tick_def Let_def split: option.splits)
qed

lemma on_frame_retry:
  assumes "retry_inv limit w" and "now \<le> limit"
  shows "retry_inv limit (on_frame P e now f fs w)"
  using assms by (auto simp: on_frame_def Let_def split: frame.splits sum.splits) (simp_all add: retry_inv_def)

lemma watch_step_retry:
  assumes "retry_inv limit w" and "dated ev" and "not_after limit ev"
  shows "retry_inv limit (watch_step P e ev w)"
proof -
  have "retry_inv limit (watch_over e w)" "retry_inv limit (w\<lparr>wa_changes := False\<rparr>)"
    using assms(1) by (simp_all add: retry_inv_def watch_over_def)
  then show ?thesis using assms by (cases ev) (simp_all add: watch_step_def handoff_retry on_tick_retry on_frame_retry)
qed

lemma watch_history_retry:
  "retry_inv limit w \<Longrightarrow> list_all dated evs \<Longrightarrow> list_all (not_after limit) evs \<Longrightarrow>
    retry_inv limit (watchAuthorization P e evs w)"
  by (induction evs arbitrary: w) (simp_all add: watch_step_retry)

text \<open>
  C28: The watch always comes back. Whatever has gone wrong by some moment, refused frames, broken streams, unreadable
  credentials, a disconnected and unauthorized helper that still runs opens a new stream with the credentials it then
  finds at the first tick thirty seconds later or after: the doubled waiting time has no effect beyond that bound.
\<close>

theorem watch_reconnects:
  fixes m :: "'w machine"
  assumes "list_all dated evs" and "list_all (not_after limit) evs" and "0 \<le> limit"
    and w: "w = watchAuthorization P e evs (watch_start notified status m)"
    and "wa_running w" and "\<not> wa_authorized w" and "\<not> wa_stream w"
    and now: "limit + 30 * second \<le> now"
    and i: "readHostIdentity (wc_identity P) (wc_manifest P) (wc_trust P) root = Some i"
  shows "wa_stream (watch_step P e (Ticker now root root fs self pid) w) \<and>
    wa_token (watch_step P e (Ticker now root root fs self pid) w) = AccessToken i"
proof -
  have "retry_inv limit w"
    unfolding w by (rule watch_history_retry [OF _ assms(1,2)]) (simp add: watch_start_def retry_inv_def assms(3))
  then have "wa_nextRetry w \<le> now" using now by (simp add: retry_inv_def)
  then obtain w1 where w1: "tick_credentials P e now root w = w1" "\<not> wa_stream w1" "wa_nextRetry w1 \<le> now" "\<not> wa_authorized w1"
      "wa_running w1"
    using assms(3,5,6,7) now i by (auto simp: tick_credentials_def handoff_def)
  let ?w2 = "w1\<lparr>wa_stream := True, wa_token := AccessToken i, wa_lastFrame := now\<rparr>"
  have c: "tick_connect P now root w1 = Some ?w2" using w1 i by (simp add: tick_connect_def)
  have s: "tick_silence e now ?w2 = ?w2" by (simp add: tick_silence_def time_sub_def)
  have "wa_stream (tick_policy P e now fs ?w2)" "wa_token (tick_policy P e now fs ?w2) = AccessToken i"
    by (auto simp: tick_policy_def Let_def)
  then show ?thesis
    using assms(5) by (auto simp: watch_step_def on_tick_def w1(1) c s Let_def tick_publish_def publishHostStatus_def split: sum.split)
qed

section \<open>A watched helper\<close>

definition demo_beat :: PrivilegedRevision where
  "demo_beat = sample_signed_revision\<lparr>pr_Privileged := Some (sample_config\<lparr>pc_RescueHelperEnabled := Some True\<rparr>)\<rparr>"

definition demo_policy :: HostPolicy where
  "demo_policy = \<lparr>hp_Version = 2, hp_ServiceID = ''s'', hp_PrivilegeMode = 2, AllowRemoteControl = False,
     AllowWebSSH = False, AllowExecution = False, AllowGPU = False, ForceDenyRemoteControl = False,
     BaselineRemoteControl = False, BaselineWebSSH = False, BaselineExecution = False, BaselineGPU = False,
     AllowRescueHelper = True, ForceDenyRescueHelper = False, HelperAuthorized = True, HelperInstalled = True,
     DisableSource = [], HostRevision = 0, HostSettings = None\<rparr>"

definition demo_config :: watch_config where
  "demo_config = \<lparr>wc_ed = sample_ed,
     wc_unm = (\<lambda>_. Some (sample_instruction\<lparr>si_InstructionType := revision_kind, si_Body := ''m''\<rparr>)),
     wc_sha = (\<lambda>_. ''h''), wc_pm = (\<lambda>_. Some ''m''), wc_trust = sample_trust,
     wc_manifest = sample_manifest\<lparr>CredentialsFile := ''/c''\<rparr>,
     wc_identity = (\<lambda>_. Some (Identity_zero\<lparr>AgentID := ''a1'', Endpoint := ''https://p'', AccessToken := ''t''\<rparr>)),
     wc_policy = (\<lambda>_. Some (demo_policy, []))\<rparr>"

definition demo_fs :: host_fs where
  "demo_fs = \<lparr>lstat = root_stat, open_file = (\<lambda>_. Some \<lparr>hf_regular = True, hf_size = 0, hf_data = []\<rparr>)\<rparr>"

definition demo_root :: tree where
  "demo_root = Directory [''c'' \<mapsto> File [] []]"

definition demo_tick :: "gotime \<Rightarrow> watch_event" where
  "demo_tick now = Ticker now demo_root demo_root demo_fs (Inr (9, ''/k/h'')) 7"

lemma demo_credentials:
  "\<exists>i. readHostIdentity (wc_identity demo_config) (wc_manifest demo_config) (wc_trust demo_config) demo_root = Some i \<and>
    AccessToken i = ''t''"
proof -
  have "IsAbs ''/c''" "Clean ''/c'' = ''/c''" "split_at sep (TrimPrefix ''/c'' ''/'') = [''c'']"
    by (simp_all add: IsAbs_def Clean_def components_def render_def TrimPrefix_def starts_with_def)
  then have "ReadCandidate demo_root ''/c'' = Inr []" by (simp add: ReadCandidate_def demo_root_def openat_def)
  then show ?thesis
    by (simp add: readHostIdentity_def demo_config_def sample_trust_def)
qed

lemma demo_allowed: "rootPolicyAllows (wc_policy demo_config) (wc_manifest demo_config) demo_fs"
  by (simp add: rootPolicyAllows_def ReadPolicy_def ReadJSON_def demo_config_def demo_fs_def sample_manifest_def
      root_stat_trusted IsAbs_def demo_policy_def)

lemma demo_accepted:
  "accept_heartbeat demo_config 10 \<lparr>hc_issued = 0, hc_sequence = 0\<rparr> (Some demo_beat) = Inr \<lparr>hc_issued = 5, hc_sequence = 9\<rparr>"
proof -
  have b: "verifyBody sample_ed (\<lambda>_. Some (sample_instruction\<lparr>si_InstructionType := revision_kind, si_Body := ''m''\<rparr>)) 10
      sample_trust (Some sample_envelope) [] (Some ''m'') revision_kind = None"
    using sample_plain [where k = revision_kind and b = "''m''"] by (simp add: verifyBody_def instruction_of_def)
  have "verifySigned demo_config 10 (Some demo_beat) = None"
    by (simp add: VerifySignedRevision_def demo_config_def demo_beat_def sample_signed_revision_def sample_revision_def b
        sample_Hash Let_def) (simp add: sample_trust_def sample_config_def Settings_Proto_def)
  moreover have "heartbeat_issued demo_config demo_beat = Inr 5" "pr_UpdateSequence demo_beat = 9"
    by (simp_all add: heartbeat_issued_def demo_config_def demo_beat_def sample_signed_revision_def sample_revision_def
        sample_instruction_def)
  ultimately show ?thesis by (simp add: accept_heartbeat_def time_sub_def)
qed

lemma demo_revision: "rescueRevisionAllowed demo_beat"
  by (simp add: rescueRevisionAllowed_def RescueHelperEnabled_def demo_beat_def sample_signed_revision_def sample_revision_def)

lemma demo_first_tick:
  "watch_step demo_config e (demo_tick 6) (watch_start True None m) =
    (watch_start True None m)\<lparr>wa_stream := True, wa_token := ''t'', wa_lastFrame := 6\<rparr>"
  using demo_credentials
  by (auto simp: watch_step_def demo_tick_def on_tick_def tick_credentials_def tick_connect_def watch_start_def
      tick_silence_def tick_policy_def tick_publish_def time_sub_def Let_def)

lemma demo_second:
  "watchAuthorization demo_config e [demo_tick 6, ev] (watch_start True None m) =
    watch_step demo_config e ev ((watch_start True None m)\<lparr>wa_stream := True, wa_token := ''t'', wa_lastFrame := 6\<rparr>)"
  by (simp add: demo_first_tick)

lemma demo_beating:
  "wa_authorized (watchAuthorization demo_config e [demo_tick 6, Frame 10 (Revision (Some demo_beat)) demo_fs]
     (watch_start True None m))"
  unfolding demo_second
  by (simp add: watch_step_def on_frame_def watch_start_def demo_accepted demo_revision demo_allowed)

abbreviation quiet_machine :: "string set surroundings" where
  "quiet_machine \<equiv> demo_machine (\<lambda>_. Succeeds) (\<lambda>t. int t * minute) (\<lambda>_ _. False)"

lemma rescue_needs_heartbeat_witness:
  "wa_authorized (watchAuthorization demo_config quiet_machine [demo_tick 6, Frame 10 (Revision (Some demo_beat)) demo_fs]
     (watch_start True None demo_idle)) \<and>
   (\<exists>pre now r fs post issued.
      [demo_tick 6, Frame 10 (Revision (Some demo_beat)) demo_fs] = pre @ Frame now (Revision (Some r)) fs # post \<and>
      heartbeat_issued demo_config r = Inr issued \<and> now - issued < authorizationSilence)"
proof -
  have "list_all dated [demo_tick 6, Frame 10 (Revision (Some demo_beat)) demo_fs]" by (simp add: demo_tick_def)
  from rescue_needs_heartbeat [OF this demo_beating, of quiet_machine demo_idle] demo_beating show ?thesis by blast
qed

lemma watch_reconnects_witness:
  "wa_stream (watch_step demo_config quiet_machine (demo_tick (40 * second))
     (watchAuthorization demo_config quiet_machine [demo_tick 6, Frame 7 FrameError demo_fs]
        (watch_start True None demo_idle)))"
proof -
  let ?w = "watchAuthorization demo_config quiet_machine [demo_tick 6, Frame 7 FrameError demo_fs] (watch_start True None demo_idle)"
  have w: "wa_running ?w" "\<not> wa_authorized ?w" "\<not> wa_stream ?w"
    unfolding demo_second by (simp_all add: watch_step_def on_frame_def watch_start_def) (simp add: disconnect_def deny_def)
  obtain j where j: "readHostIdentity (wc_identity demo_config) (wc_manifest demo_config) (wc_trust demo_config) demo_root = Some j"
    using demo_credentials by blast
  show ?thesis
    unfolding demo_tick_def [of "40 * second"]
    by (rule conjunct1 [OF watch_reconnects [OF _ _ _ refl w _ j, of 7]]) (simp_all add: demo_tick_def)
qed

end
