(* ===== verification/RescueActions.thy ===== *)
theory RescueActions
  imports RescueWatch
begin

text \<open>
  The actions of the rescue helper (\<open>rescue/actions.go\<close>, \<open>rescue/actions_linux.go\<close>): the routing of an action, the
  isolation of the network with its state file and its nftables table, the restoration, the power and restart commands.
  The calls are those of SshAccess; the firewall they act on has the state file of the isolation beside it.
\<close>

section \<open>Isolation\<close>

datatype isolation_mode =
    ModeUnspecified
  | ModeNone
  | PublicInterfaces
  | TailscaleInterfaces
  | ControlPlaneOnly
  | OtherMode int

record isolationState =
  is_Mode :: isolation_mode
  is_Interfaces :: "string list"
  is_AppliedAt :: gotime

datatype isolation_file = IsolationAbsent | IsolationGarbled | IsolationSaved isolationState

record 'v net =
  nt_state :: isolation_file
  nt_wall :: 'v

definition linuxIsolationTable :: string where
  "linuxIsolationTable = ''komari_rescue''"

definition isolationPath :: "string \<Rightarrow> path" where
  "isolationPath configured =
     (if TrimSpace configured \<noteq> [] then TrimSpace configured else ''/etc/komari-agent/rescue-isolation.json'')"

definition sshAccessStatePath :: "string \<Rightarrow> path" where
  "sshAccessStatePath configured = Join [Dir (isolationPath configured), ''rescue-temp-ssh.json'']"

text \<open>\<open>os.WriteFile\<close> and \<open>os.Remove\<close> on the state file.\<close>

definition put_isolation :: "isolation_file \<Rightarrow> 'v net machine \<Rightarrow> 'v net machine" where
  "put_isolation f m = m\<lparr>mc_wall := (mc_wall m)\<lparr>nt_state := f\<rparr>\<rparr>"

definition saveIsolationState :: "'v net surroundings \<Rightarrow> isolationState \<Rightarrow> ('v net, unit) call" where
  "saveIsolationState e st m =
     (let m' = tick m in
      case sr_fate e (mc_tick m) of
        Succeeds \<Rightarrow> (Value (), put_isolation (IsolationSaved st) m')
      | Refused \<Rightarrow> (Error ''write'', m')
      | Tears \<Rightarrow> (Error ''write'', put_isolation IsolationGarbled m')
      | Killed \<Rightarrow> (Dead, m')
      | KilledTorn \<Rightarrow> (Dead, put_isolation IsolationGarbled m')
      | KilledAfter \<Rightarrow> (Dead, put_isolation (IsolationSaved st) m'))"

text \<open>The error of the removal is dropped.\<close>

definition removeIsolationState :: "'v net surroundings \<Rightarrow> ('v net, unit) call" where
  "removeIsolationState e m =
     (let m' = tick m in
      case sr_fate e (mc_tick m) of
        Succeeds \<Rightarrow> (Value (), put_isolation IsolationAbsent m')
      | Refused \<Rightarrow> (Value (), m')
      | Tears \<Rightarrow> (Value (), m')
      | Killed \<Rightarrow> (Dead, m')
      | _ \<Rightarrow> (Dead, put_isolation IsolationAbsent m'))"

text \<open>A file that cannot be read counts as absent, one that does not decode has no mode.\<close>

definition networkIsolationStatus :: "'v net surroundings \<Rightarrow> ('v net, isolation_mode \<times> string list) call" where
  "networkIsolationStatus e m =
     (Value
       (if \<not> sr_readable e (mc_tick m) then (ModeNone, [])
        else case nt_state (mc_wall m) of
          IsolationAbsent \<Rightarrow> (ModeNone, [])
        | IsolationGarbled \<Rightarrow> (ModeUnspecified, [])
        | IsolationSaved st \<Rightarrow> (is_Mode st, is_Interfaces st)), tick m)"

definition ensureNoActiveIsolation :: "'v net surroundings \<Rightarrow> ('v net, unit) call" where
  "ensureNoActiveIsolation e =
     and_then (networkIsolationStatus e) (\<lambda>(mode, _).
       if mode \<noteq> ModeNone \<and> mode \<noteq> ModeUnspecified
       then give_up ''remove the active Komari network isolation before selecting another isolation mode''
       else give ())"

section \<open>The rules\<close>

text \<open>\<open>strconv.Quote\<close> for bytes below 128; a byte of a printable rune above stands for itself.\<close>

definition quote_char :: "char \<Rightarrow> string" where
  "quote_char c =
     (let n = of_char c :: nat in
      if c = CHR 0x22 \<or> c = CHR 0x5C then [CHR 0x5C, c]
      else if n = 7 then [CHR 0x5C, CHR ''a''] else if n = 8 then [CHR 0x5C, CHR ''b'']
      else if n = 12 then [CHR 0x5C, CHR ''f''] else if n = 10 then [CHR 0x5C, CHR ''n'']
      else if n = 13 then [CHR 0x5C, CHR ''r''] else if n = 9 then [CHR 0x5C, CHR ''t'']
      else if n = 11 then [CHR 0x5C, CHR ''v'']
      else if n < 32 \<or> n = 127 then [CHR 0x5C, CHR ''x'', hex_digit (n div 16), hex_digit (n mod 16)]
      else [c])"

definition Quote :: "string \<Rightarrow> string" where
  "Quote s = CHR 0x22 # concat (map quote_char s) @ [CHR 0x22]"

definition isolation_table :: "string \<Rightarrow> string \<Rightarrow> string" where
  "isolation_table inputs outputs =
     ''table inet '' @ linuxIsolationTable @ '' {'' @ [CHR 0x0A] @
     '' chain input { type filter hook input priority -50; policy accept; '' @ inputs @ '' drop; }'' @ [CHR 0x0A] @
     '' chain output { type filter hook output priority -50; policy accept; '' @ outputs @ '' drop; }'' @ [CHR 0x0A] @
     ''}'' @ [CHR 0x0A]"

definition interfaceIsolationRules :: "string list \<Rightarrow> string" where
  "interfaceIsolationRules interfaces =
     (let names = join '', '' (map Quote interfaces) in
      isolation_table (''iifname { '' @ names @ '' }'') (''oifname { '' @ names @ '' }''))"

text \<open>An address is whether \<open>To4\<close> gives one, and its text.\<close>

definition allow_rules :: "string \<Rightarrow> string list \<Rightarrow> string \<Rightarrow> string \<times> string" where
  "allow_rules family addresses port =
     (if addresses = [] then ([], [])
      else
        (let list = join '', '' addresses in
         ('' '' @ family @ '' saddr { '' @ list @ '' } tcp sport '' @ port @ '' ct state established accept;'' @
          '' '' @ family @ '' saddr { '' @ list @ '' } udp sport '' @ port @ '' ct state established accept;'',
          '' '' @ family @ '' daddr { '' @ list @ '' } tcp dport '' @ port @ '' accept;'' @
          '' '' @ family @ '' daddr { '' @ list @ '' } udp dport '' @ port @ '' accept;'')))"

definition controlPlaneIsolationRules :: "(bool \<times> string) list \<Rightarrow> nat \<Rightarrow> string" where
  "controlPlaneIsolationRules addresses port =
     (let p = Itoa (int port);
          v4 = allow_rules ''ip'' (map snd (filter fst addresses)) p;
          v6 = allow_rules ''ip6'' (map snd (filter (Not \<circ> fst) addresses)) p in
      isolation_table (''iifname lo accept;'' @ fst v4 @ fst v6) (''oifname lo accept;'' @ snd v4 @ snd v6))"

section \<open>Putting the rules in force\<close>

text \<open>\<open>strings.Replace(s, old, new, 1)\<close>.\<close>

fun replace_first :: "string \<Rightarrow> string \<Rightarrow> string \<Rightarrow> string" where
  "replace_first old new [] = (if old = [] then new else [])"
| "replace_first old new (c # cs) =
     (if starts_with old (c # cs) then new @ drop (length old) (c # cs) else c # replace_first old new cs)"

definition check_script :: "int \<Rightarrow> string \<Rightarrow> string" where
  "check_script pid script =
     replace_first (''table inet '' @ linuxIsolationTable) (''table inet '' @ linuxIsolationTable @ ''_check_'' @ Itoa pid) script"

definition list_isolation :: "string list" where
  "list_isolation = [''nft'', ''list'', ''table'', ''inet'', linuxIsolationTable]"

definition delete_isolation :: "string list" where
  "delete_isolation = [''nft'', ''delete'', ''table'', ''inet'', linuxIsolationTable]"

definition deleteNftIsolation :: "'w surroundings \<Rightarrow> ('w, unit) call" where
  "deleteNftIsolation e =
     and_then (look e ''nft'') (\<lambda>found.
       if \<not> found then give_up ''nftables is required for emergency network isolation''
       else and_then (ask e list_isolation) (\<lambda>there.
         if \<not> there then give () else platformCommand e delete_isolation))"

text \<open>
  \<open>background\<close> are the calls that do not run under the context of the operation. A script is an argument of \<open>nft\<close> here,
  where the code passes the name of a temporary file with it.
\<close>

definition applyNftScript :: "'w surroundings \<Rightarrow> 'w surroundings \<Rightarrow> int \<Rightarrow> string \<Rightarrow> ('w, unit) call" where
  "applyNftScript e background pid script =
     and_then (look e ''nft'') (\<lambda>found.
       if \<not> found then give_up ''nftables is required for emergency network isolation''
       else and_then (aside e ''temporary file'') (\<lambda>_.
            and_then (aside e ''write the check'') (\<lambda>_.
            and_then (platformCommand e [''nft'', ''-c'', ''-f'', check_script pid script]) (\<lambda>_.
            and_then (aside e ''write the script'') (\<lambda>_.
            and_then (attempt (deleteNftIsolation background)) (\<lambda>_.
              platformCommand e [''nft'', ''-f'', script]))))))"

section \<open>The actions\<close>

text \<open>\<open>AfterReport\<close>: what is left to do once the event has been reported.\<close>

datatype aftermath =
    Power string
  | RestartService string
  | ApplyIsolation isolation_mode "string list" string

record ActionResult =
  ar_Stdout :: bytes
  ar_Stderr :: bytes
  ar_AfterReport :: "aftermath option"
  ar_Diagnostics :: "bytes option"
  ar_SSHAccess :: "temporarySSHAccess option"

abbreviation no_result :: ActionResult where
  "no_result \<equiv> \<lparr>ar_Stdout = [], ar_Stderr = [], ar_AfterReport = None, ar_Diagnostics = None, ar_SSHAccess = None\<rparr>"

datatype rescue_action =
    ActionUnspecified
  | Diagnostics
  | DetailedCPUMetrics
  | DetailedMemoryMetrics
  | TemporarySSHAccess
  | RevokeTemporarySSHAccess
  | RollbackPrivilegedConfig
  | Shutdown
  | Reboot
  | BlockPublicInterfaces
  | BlockTailscaleInterfaces
  | IsolateControlPlane
  | RestoreNetwork
  | RollbackOnlineConfig
  | OtherAction int

record ActionConfig =
  ac_ServiceName :: string
  ac_ControlPlaneURL :: string
  ac_IsolationStatePath :: string

text \<open>
  What the machine answers: the outputs of the diagnostic commands with the text of their error, the collector of
  \<open>monitoring/unit\<close>, the default routes of both families (\<open>None\<close> for a command that fails, \<open>Some None\<close> for an output
  that does not decode), the interfaces, \<open>url.Parse\<close> (scheme, host name and port) and the resolver.
\<close>

record facts =
  fa_command :: "string list \<Rightarrow> bytes \<times> bytes \<times> string option"
  fa_collect :: "bool \<Rightarrow> bool \<Rightarrow> string + bytes"
  fa_routes :: "string list option option list"
  fa_interfaces :: "string list option"
  fa_url :: "string \<Rightarrow> (string \<times> string \<times> string) option"
  fa_lookup :: "string \<Rightarrow> (bool \<times> string) list option"
  fa_pid :: int

definition maximumActionOutput :: nat where
  "maximumActionOutput = 2 ^ 20"

definition truncation_suffix :: bytes where
  "truncation_suffix = CHR 0x0A # ''[output truncated]'' @ [CHR 0x0A]"

definition limitBytes :: "bytes \<Rightarrow> nat \<Rightarrow> bytes" where
  "limitBytes b limit =
     (if length b \<le> limit then b
      else if limit \<le> length truncation_suffix then take limit b
      else take (limit - length truncation_suffix) b @ truncation_suffix)"

definition diagnostic_checks :: "string list list" where
  "diagnostic_checks = [[''uname'', ''-a''], [''uptime''], [''free'', ''-h''], [''df'', ''-h''],
     [''ip'', ''-brief'', ''address''], [''ip'', ''route'', ''show''], [''systemctl'', ''--failed'', ''--no-pager'', ''--plain'']]"

definition diagnostic_section :: "(string list \<Rightarrow> bytes \<times> bytes \<times> string option) \<Rightarrow> string list \<Rightarrow> bytes" where
  "diagnostic_section command check =
     ''$ '' @ join '' '' check @ [CHR 0x0A] @
     (case command check of (out, err, failure) \<Rightarrow>
        out @ err @ (case failure of None \<Rightarrow> [] | Some text \<Rightarrow> ''error='' @ text @ [CHR 0x0A])) @ [CHR 0x0A]"

definition machineDiagnostics :: "facts \<Rightarrow> ActionResult" where
  "machineDiagnostics fa =
     no_result\<lparr>ar_Stdout := limitBytes (concat (map (diagnostic_section (fa_command fa)) diagnostic_checks)) maximumActionOutput\<rparr>"

definition performanceDiagnostics :: "facts \<Rightarrow> bool \<Rightarrow> bool \<Rightarrow> ('w, ActionResult) call" where
  "performanceDiagnostics fa cpu mem =
     (case fa_collect fa cpu mem of Inl err \<Rightarrow> give_up err | Inr r \<Rightarrow> give (no_result\<lparr>ar_Diagnostics := Some r\<rparr>))"

definition preparePowerAction :: "'w surroundings \<Rightarrow> bool \<Rightarrow> ('w, ActionResult) call" where
  "preparePowerAction e reboot =
     (if \<not> sr_root e then give_up ''machine power control requires a privileged rescue helper''
      else give (no_result\<lparr>ar_Stdout := ''machine_'' @ (if reboot then ''reboot'' else ''shutdown'') @ ''=scheduled'' @ [CHR 0x0A],
        ar_AfterReport := Some (Power (if reboot then ''reboot'' else ''poweroff''))\<rparr>))"

definition service_forbidden :: "char \<Rightarrow> bool" where
  "service_forbidden c \<longleftrightarrow> c \<in> {CHR ''/'', CHR 0x5C, CHR 0x00, CHR 0x0A, CHR 0x0D}"

definition prepareAgentRestart :: "'w surroundings \<Rightarrow> ActionConfig \<Rightarrow> ('w, ActionResult) call" where
  "prepareAgentRestart e cfg =
     (if \<not> sr_root e then give_up ''restarting the Agent requires a privileged rescue helper''
      else
        (let service = TrimSpace (ac_ServiceName cfg) in
         if service = [] \<or> (\<exists>c \<in> set service. service_forbidden c) then give_up ''invalid Agent service name''
         else give (no_result\<lparr>ar_Stdout := ''online_config_rollback=accepted'' @ [CHR 0x0A] @ ''agent_restart=scheduled'' @ [CHR 0x0A],
           ar_AfterReport := Some (RestartService service)\<rparr>)))"

text \<open>The loop over the two families returns at the first output that does not decode.\<close>

fun route_names :: "string list option option list \<Rightarrow> string + string list" where
  "route_names [] = Inr []"
| "route_names (None # rs) = route_names rs"
| "route_names (Some None # rs) = Inl ''decode default routes''"
| "route_names (Some (Some devs) # rs) =
     (case route_names rs of
        Inl err \<Rightarrow> Inl err
      | Inr names \<Rightarrow> Inr (filter (\<lambda>d. d \<noteq> [] \<and> d \<noteq> ''lo'') devs @ names))"

definition interfacesForMode :: "facts \<Rightarrow> isolation_mode \<Rightarrow> string + string list" where
  "interfacesForMode fa mode =
     (case (case mode of
              PublicInterfaces \<Rightarrow> route_names (fa_routes fa)
            | TailscaleInterfaces \<Rightarrow>
                (case fa_interfaces fa of
                   None \<Rightarrow> Inl ''interfaces''
                 | Some names \<Rightarrow> Inr (filter (\<lambda>n. starts_with ''tailscale'' (fold_case n)) names))
            | _ \<Rightarrow> Inl ''unsupported interface isolation mode'') of
        Inl err \<Rightarrow> Inl err
      | Inr names \<Rightarrow>
          if uniqueStrings names = [] then Inl ''no matching network interfaces were found'' else Inr (uniqueStrings names))"

definition prepareInterfaceIsolation :: "'w surroundings \<Rightarrow> facts \<Rightarrow> isolation_mode \<Rightarrow> ('w, ActionResult) call" where
  "prepareInterfaceIsolation e fa mode =
     (if \<not> sr_root e then give_up ''network isolation requires a privileged rescue helper''
      else case interfacesForMode fa mode of
        Inl err \<Rightarrow> give_up err
      | Inr interfaces \<Rightarrow> give (no_result\<lparr>
          ar_Stdout := ''network_isolation=scheduled'' @ [CHR 0x0A] @ ''interfaces='' @ join '','' interfaces @ [CHR 0x0A],
          ar_AfterReport := Some (ApplyIsolation mode interfaces (interfaceIsolationRules interfaces))\<rparr>))"

text \<open>\<open>strconv.ParseUint(s, 10, 16)\<close> without an empty text; a resolver that finds nothing is an error.\<close>

definition parse_port :: "string \<Rightarrow> nat option" where
  "parse_port s =
     (if s = [] \<or> (\<exists>c \<in> set s. (of_char c :: nat) < 48 \<or> 57 < (of_char c :: nat)) then None
      else (let n = foldl (\<lambda>a c. 10 * a + (of_char c - 48)) 0 s in if n > 65535 then None else Some n))"

definition resolveControlPlane :: "facts \<Rightarrow> string \<Rightarrow> string + (bool \<times> string) list \<times> nat" where
  "resolveControlPlane fa endpoint =
     (case fa_url fa (TrimSpace endpoint) of
        None \<Rightarrow> Inl ''a valid HTTP(S) control plane URL is required''
      | Some (scheme, hostname, port) \<Rightarrow>
          if hostname = [] \<or> (scheme \<noteq> ''http'' \<and> scheme \<noteq> ''https'')
          then Inl ''a valid HTTP(S) control plane URL is required''
          else
            (case (if port = [] then Some (if scheme = ''http'' then 80 else 443)
                   else case parse_port port of Some v \<Rightarrow> if v = 0 then None else Some v | None \<Rightarrow> None) of
               None \<Rightarrow> Inl ''control plane port is invalid''
             | Some p \<Rightarrow>
                 (case fa_lookup fa hostname of
                    None \<Rightarrow> Inl ''resolve control plane''
                  | Some addresses \<Rightarrow>
                      if addresses = [] then Inl ''resolve control plane'' else Inr (addresses, p))))"

definition prepareControlPlaneIsolation :: "'w surroundings \<Rightarrow> facts \<Rightarrow> ActionConfig \<Rightarrow> ('w, ActionResult) call" where
  "prepareControlPlaneIsolation e fa cfg =
     (if \<not> sr_root e then give_up ''network isolation requires a privileged rescue helper''
      else case resolveControlPlane fa (ac_ControlPlaneURL cfg) of
        Inl err \<Rightarrow> give_up err
      | Inr (addresses, port) \<Rightarrow> give (no_result\<lparr>
          ar_Stdout := ''network_isolation=control-plane-only-scheduled'' @ [CHR 0x0A],
          ar_AfterReport := Some (ApplyIsolation ControlPlaneOnly [] (controlPlaneIsolationRules addresses port))\<rparr>))"

definition restoreNetwork :: "'v net surroundings \<Rightarrow> ('v net, ActionResult) call" where
  "restoreNetwork e =
     (if \<not> sr_root e then give_up ''restoring network access requires a privileged rescue helper''
      else and_then (deleteNftIsolation e) (\<lambda>_.
           and_then (removeIsolationState e) (\<lambda>_.
             give (no_result\<lparr>ar_Stdout := ''network_isolation=removed'' @ [CHR 0x0A]\<rparr>))))"

definition ssh_result :: "temporarySSHAccess option \<Rightarrow> ActionResult" where
  "ssh_result access =
     (case access of
        None \<Rightarrow> no_result\<lparr>ar_Stdout := ''no temporary SSH access is open'' @ [CHR 0x0A]\<rparr>
      | Some a \<Rightarrow> no_result\<lparr>ar_SSHAccess := Some a\<rparr>)"

definition ExecuteAction ::
  "'v net surroundings \<Rightarrow> facts \<Rightarrow> ActionConfig \<Rightarrow> rescue_action \<Rightarrow> string list \<Rightarrow> nat \<Rightarrow> ('v net, ActionResult) call" where
  "ExecuteAction e fa cfg action arguments port =
     (if arguments \<noteq> [] then give_up ''rescue actions do not accept remote arguments''
      else case action of
        Diagnostics \<Rightarrow> give (machineDiagnostics fa)
      | DetailedCPUMetrics \<Rightarrow> performanceDiagnostics fa True False
      | DetailedMemoryMetrics \<Rightarrow> performanceDiagnostics fa False True
      | TemporarySSHAccess \<Rightarrow>
          and_then (grantTemporarySSHAccess e (ac_IsolationStatePath cfg) port) (\<lambda>a. give (ssh_result (Some a)))
      | RevokeTemporarySSHAccess \<Rightarrow> and_then (revokeTemporarySSHAccess e) (\<lambda>a. give (ssh_result a))
      | RollbackPrivilegedConfig \<Rightarrow>
          give_up ''privileged rollback requires the daemon control channel; direct helper writes are retired''
      | Shutdown \<Rightarrow> preparePowerAction e False
      | Reboot \<Rightarrow> preparePowerAction e True
      | BlockPublicInterfaces \<Rightarrow>
          and_then (ensureNoActiveIsolation e) (\<lambda>_. prepareInterfaceIsolation e fa PublicInterfaces)
      | BlockTailscaleInterfaces \<Rightarrow>
          and_then (ensureNoActiveIsolation e) (\<lambda>_. prepareInterfaceIsolation e fa TailscaleInterfaces)
      | IsolateControlPlane \<Rightarrow> and_then (ensureNoActiveIsolation e) (\<lambda>_. prepareControlPlaneIsolation e fa cfg)
      | RestoreNetwork \<Rightarrow> restoreNetwork e
      | RollbackOnlineConfig \<Rightarrow> prepareAgentRestart e cfg
      | _ \<Rightarrow> give_up ''unsupported rescue action'')"

text \<open>
  The action that follows the report. \<open>waitForCommit\<close> fails when the context ends within the two seconds; the commands of
  \<open>Power\<close> and \<open>RestartService\<close> are only started.
\<close>

definition after_report :: "'v net surroundings \<Rightarrow> 'v net surroundings \<Rightarrow> int \<Rightarrow> aftermath \<Rightarrow> ('v net, unit) call" where
  "after_report e background pid what =
     and_then (aside e ''context'') (\<lambda>_.
       case what of
         Power verb \<Rightarrow> platformCommand background [''systemctl'', verb]
       | RestartService service \<Rightarrow> platformCommand background [''systemctl'', ''restart'', service @ ''.service'']
       | ApplyIsolation mode interfaces script \<Rightarrow>
           and_then (Now e) (\<lambda>now.
           and_then (saveIsolationState e \<lparr>is_Mode = mode, is_Interfaces = interfaces, is_AppliedAt = now\<rparr>) (\<lambda>_.
           and_then (attempt (applyNftScript e background pid script)) (\<lambda>applied.
             case applied of
               Inr _ \<Rightarrow> give ()
             | Inl err \<Rightarrow> and_then (removeIsolationState e) (\<lambda>_. give_up err)))))"

text \<open>\<open>execute\<close> carries out an action and, once it is reported, what it left to do.\<close>

definition perform ::
  "'v net surroundings \<Rightarrow> 'v net surroundings \<Rightarrow> facts \<Rightarrow> ActionConfig \<Rightarrow> rescue_action \<Rightarrow> string list \<Rightarrow> nat \<Rightarrow> ('v net, unit) call" where
  "perform e background fa cfg action arguments port =
     and_then (ExecuteAction e fa cfg action arguments port) (\<lambda>r.
       case ar_AfterReport r of None \<Rightarrow> give () | Some a \<Rightarrow> after_report e background (fa_pid fa) a)"

section \<open>What nftables promises\<close>

text \<open>
  \<open>T t v\<close>: the isolation table is in force at the tick \<open>t\<close> with the firewall \<open>v\<close>. Only a script of the isolation puts it
  there, a successful deletion takes it away, a table in force is listed, and no command writes the state file.
\<close>

definition isolates :: "string list \<Rightarrow> bool" where
  "isolates args \<longleftrightarrow> (case args of
     [n, f, script] \<Rightarrow> n = ''nft'' \<and> f = ''-f'' \<and> starts_with (''table inet '' @ linuxIsolationTable @ '' {'') script | _ \<Rightarrow> False)"

definition nft_ok :: "'v net surroundings \<Rightarrow> (nat \<Rightarrow> 'v \<Rightarrow> bool) \<Rightarrow> bool" where
  "nft_ok e T \<longleftrightarrow>
     (\<forall>t v. T (Suc t) v \<longrightarrow> T t v) \<and>
     (\<forall>t args w. nt_state (snd (sr_run e t args w)) = nt_state w) \<and>
     (\<forall>t args w. T (Suc t) (nt_wall (snd (sr_run e t args w))) \<longrightarrow> T t (nt_wall w) \<or> fst (sr_run e t args w) \<and> isolates args) \<and>
     (\<forall>t w. fst (sr_run e t delete_isolation w) \<longrightarrow> \<not> T (Suc t) (nt_wall (snd (sr_run e t delete_isolation w)))) \<and>
     (\<forall>t w. T t (nt_wall w) \<longrightarrow> sr_ask e t list_isolation w)"

definition in_force :: "(nat \<Rightarrow> 'v \<Rightarrow> bool) \<Rightarrow> 'v net machine \<Rightarrow> bool" where
  "in_force T m = T (mc_tick m) (nt_wall (mc_wall m))"

definition active :: "isolation_file \<Rightarrow> bool" where
  "active f = (case f of IsolationSaved st \<Rightarrow> is_Mode st \<noteq> ModeNone \<and> is_Mode st \<noteq> ModeUnspecified | _ \<Rightarrow> False)"

definition isolation_inv :: "(nat \<Rightarrow> 'v \<Rightarrow> bool) \<Rightarrow> 'v net machine \<Rightarrow> bool" where
  "isolation_inv T m \<longleftrightarrow> (in_force T m \<longrightarrow> active (nt_state (mc_wall m)))"

text \<open>A step that neither puts the table in force nor touches the state file.\<close>

definition milder :: "(nat \<Rightarrow> 'v \<Rightarrow> bool) \<Rightarrow> 'v net machine \<Rightarrow> 'v net machine \<Rightarrow> bool" where
  "milder T m m' \<longleftrightarrow> (in_force T m' \<longrightarrow> in_force T m) \<and> nt_state (mc_wall m') = nt_state (mc_wall m)"

lemma milder_refl [simp]: "milder T m m"
  by (simp add: milder_def)

lemma milder_trans: "milder T m m' \<Longrightarrow> milder T m' m'' \<Longrightarrow> milder T m m''"
  by (auto simp: milder_def)

lemma milder_inv: "isolation_inv T m \<Longrightarrow> milder T m m' \<Longrightarrow> isolation_inv T m'"
  by (auto simp: isolation_inv_def milder_def)

lemma milder_file [simp]: "milder T m (m'\<lparr>mc_file := f\<rparr>) = milder T m m'"
  by (simp add: milder_def in_force_def)

definition tame :: "(nat \<Rightarrow> 'v \<Rightarrow> bool) \<Rightarrow> ('v net, 'a) call \<Rightarrow> bool" where
  "tame T f \<longleftrightarrow> (\<forall>m. milder T m (snd (f m)))"

lemma tame_give [simp]: "tame T (give x)" "tame T (give_up err)"
  by (simp_all add: tame_def give_def give_up_def)

lemma tame_and_then: "tame T f \<Longrightarrow> (\<And>x. tame T (g x)) \<Longrightarrow> tame T (and_then f g)"
  unfolding tame_def and_then_def
  by (auto split: prod.split result.split) (metis milder_trans snd_conv)+

lemma tame_attempt: "tame T f \<Longrightarrow> tame T (attempt f)"
  unfolding tame_def attempt_def
  by (auto split: prod.split result.split) (metis snd_conv)+

lemma tick_milder: "nft_ok e T \<Longrightarrow> milder T m (tick m)"
  by (simp add: milder_def tick_def in_force_def nft_ok_def)

lemma tame_atoms [simp]:
  assumes "nft_ok e T"
  shows "tame T (ask e args)" "tame T (look e name)" "tame T (Now e)" "tame T (aside e name)"
    "tame T (loadSSHAccessState e)" "tame T (saveSSHAccessState e st)" "tame T (removeSSHAccessState e)"
    "tame T (networkIsolationStatus e)"
  using tick_milder [OF assms]
  by (auto simp: tame_def ask_def look_def Now_def aside_def loadSSHAccessState_def saveSSHAccessState_def
      removeSSHAccessState_def networkIsolationStatus_def Let_def split: fate.split saved.split)

lemma command_milder:
  assumes "nft_ok e T" and "\<not> isolates args \<or> fst (platformCommand e args m) \<noteq> Value () \<and> fst (platformCommand e args m) \<noteq> Dead"
  shows "milder T m (snd (platformCommand e args m))"
proof -
  obtain ok w where r: "sr_run e (mc_tick m) args (mc_wall m) = (ok, w)" by force
  have w: "nt_state w = nt_state (mc_wall m)" "T (Suc (mc_tick m)) (nt_wall w) \<Longrightarrow> in_force T m \<or> ok \<and> isolates args"
    using assms(1) r unfolding nft_ok_def in_force_def by (metis fst_conv snd_conv)+
  then have "\<not> (ok \<and> isolates args) \<Longrightarrow> milder T m ((tick m)\<lparr>mc_wall := w\<rparr>)"
    by (auto simp: milder_def tick_def in_force_def)
  then show ?thesis
    using assms(2) tick_milder [OF assms(1)] by (auto simp: platformCommand_def r Let_def split: fate.split)
qed

lemma tame_command: "nft_ok e T \<Longrightarrow> \<not> isolates args \<Longrightarrow> tame T (platformCommand e args)"
  by (simp add: tame_def command_milder)

text \<open>The commands of the SSH window, of the checks and of the restarts.\<close>

lemma other_script: "\<not> starts_with (''table inet '' @ linuxIsolationTable @ '' {'') nft_script"
  by (simp add: nft_script_def temporarySSHTable_def linuxIsolationTable_def starts_with_def)

lemma not_isolating [simp]:
  "\<not> isolates [''nft'', ''-f'', nft_script]" "\<not> isolates (unrule_command mech p)" "\<not> isolates (rule_command mech p)"
  "\<not> isolates (timer_command self path)" "\<not> isolates delete_isolation" "\<not> isolates [''nft'', ''-c'', ''-f'', s]"
  "\<not> isolates [''systemctl'', verb]" "\<not> isolates [''systemctl'', ''restart'', service]"
  using other_script
  by (cases mech; simp add: isolates_def rule_command_def unrule_command_def nft_element_def nft_delete_def timer_command_def
      iptables_rule_def delete_isolation_def)+

lemmas tame_calls = tame_and_then tame_attempt tame_command

lemma tame_ssh:
  fixes e :: "'v net surroundings"
  assumes "nft_ok e T"
  shows "tame T (grantTemporarySSHAccess e path port)" and "tame T (revokeTemporarySSHAccess e)"
proof -
  note c = tame_and_then tame_attempt tame_command [OF assms]
  have timer: "tame T (cancelSSHAccessTimer e)" unfolding cancelSSHAccessTimer_def using assms by (auto intro!: c)
  have arm: "tame T (armSSHAccessTimer e path)" unfolding armSSHAccessTimer_def using assms timer by (auto intro!: c)
  have del: "tame T (deleteNftablesSSHAccess e)" unfolding deleteNftablesSSHAccess_def using assms by (auto intro!: c)
  have rem: "tame T (removeSSHAccessRule e st)" for st
    unfolding removeSSHAccessRule_def using assms del by (cases "sa_Mechanism st") (auto intro!: c)
  have rev: "tame T (revokeSSHAccess e st)" for st
    unfolding revokeSSHAccess_def using assms timer rem by (auto intro!: c)
  have close: "tame T (closeTemporarySSHAccess e force)" for force
    unfolding closeTemporarySSHAccess_def sweepOrphanedSSHAccess_def using assms rev timer del
    by (auto intro!: c split: option.split)
  have detect: "tame T (detectFirewallMechanism e)" unfolding detectFirewallMechanism_def using assms by (auto intro!: c)
  have nft: "tame T (installNftablesSSHAccess e port)" for port
    unfolding installNftablesSSHAccess_def using assms by (auto intro!: c)
  have install: "tame T (installSSHAccessRule e path port mech)" for port mech
    unfolding installSSHAccessRule_def using assms nft arm by (cases mech) (auto intro!: c)
  have recs: "tame T (record_expiry e st daemon)" for st daemon
    unfolding record_expiry_def using assms rem timer by (auto intro!: c split: sum.split)
  have finish: "tame T (finish_grant e st daemon i)" for st daemon i
    unfolding finish_grant_def using assms recs by (auto intro!: c split: sum.split)
  have "tame T (open_window e path port mech daemon)" for port mech daemon
    unfolding open_window_def Let_def using assms install finish by (auto intro!: c)
  then have opens: "tame T (\<lambda>m. open_window e path port mech (daemon m) m)" for port mech daemon
    by (simp add: tame_def)
  have already: "tame T (already_open e)"
    unfolding already_open_def using assms by (auto intro!: c split: sum.split option.split)
  show "tame T (grantTemporarySSHAccess e path port)"
    unfolding grantTemporarySSHAccess_def ReconcileTemporarySSHAccess_def using assms close already detect opens by (auto intro!: c)
  show "tame T (revokeTemporarySSHAccess e)"
    unfolding revokeTemporarySSHAccess_def using assms rev by (auto intro!: c split: option.split)
qed

section \<open>The table is recorded\<close>

definition mild :: "(nat \<Rightarrow> 'v \<Rightarrow> bool) \<Rightarrow> ('v net, 'a) call \<Rightarrow> bool" where
  "mild T f \<longleftrightarrow> (\<forall>m. nt_state (mc_wall (snd (f m))) = nt_state (mc_wall m) \<and>
     (case fst (f m) of Error _ \<Rightarrow> milder T m (snd (f m)) | _ \<Rightarrow> True))"

lemma tame_mild: "tame T f \<Longrightarrow> mild T f"
  by (auto simp: tame_def mild_def milder_def split: result.split)

lemma mild_and_then:
  assumes "tame T f" and "\<And>x. mild T (g x)"
  shows "mild T (and_then f g)"
  unfolding mild_def
proof
  fix m
  from assms(1) have f: "milder T m (snd (f m))" by (simp add: tame_def)
  show "nt_state (mc_wall (snd (and_then f g m))) = nt_state (mc_wall m) \<and>
     (case fst (and_then f g m) of Error _ \<Rightarrow> milder T m (snd (and_then f g m)) | _ \<Rightarrow> True)"
  proof (cases "fst (f m)")
    case (Value x)
    then have s: "and_then f g m = g x (snd (f m))" by (cases "f m") (simp add: and_then_def)
    from assms(2) [of x] have g: "nt_state (mc_wall (snd (g x (snd (f m))))) = nt_state (mc_wall (snd (f m)))"
      "case fst (g x (snd (f m))) of Error _ \<Rightarrow> milder T (snd (f m)) (snd (g x (snd (f m)))) | _ \<Rightarrow> True"
      by (simp_all add: mild_def)
    show ?thesis using g f milder_trans [OF f] unfolding s by (auto simp: milder_def split: result.splits)
  qed (use f in \<open>auto simp: and_then_def milder_def split: prod.splits\<close>)
qed

lemma command_state: "nft_ok e T \<Longrightarrow> nt_state (mc_wall (snd (platformCommand e args m))) = nt_state (mc_wall m)"
  by (auto simp: platformCommand_def tick_def nft_ok_def Let_def split: prod.split fate.split) (metis snd_conv)+

lemma mild_command: "nft_ok e T \<Longrightarrow> mild T (platformCommand e args)"
  using command_milder [of e T args] command_state [of e T args]
  by (auto simp: mild_def split: result.split)

lemma delete_tame: "nft_ok e T \<Longrightarrow> tame T (deleteNftIsolation e)"
  unfolding deleteNftIsolation_def by (auto intro!: tame_calls)

lemma delete_clears:
  fixes e :: "'v net surroundings"
  assumes ok: "nft_ok e T" and "fst (deleteNftIsolation e m) = Value x"
  shows "\<not> in_force T (snd (deleteNftIsolation e m))"
proof -
  from assms(2) have found: "sr_look e (mc_tick m) ''nft''"
    by (auto simp: deleteNftIsolation_def and_then_def look_def give_up_def split: if_splits)
  show ?thesis
  proof (cases "sr_ask e (mc_tick (tick m)) list_isolation (mc_wall (tick m))")
    case False
    then have "\<not> in_force T (tick m)" using ok by (auto simp: nft_ok_def in_force_def)
    then have "\<not> in_force T (tick (tick m))" using tick_milder [OF ok, of "tick m"] by (auto simp: milder_def)
    then show ?thesis using found False by (simp add: deleteNftIsolation_def and_then_def look_def ask_def give_def)
  next
    case True
    let ?m = "tick (tick m)"
    have d: "deleteNftIsolation e m = platformCommand e delete_isolation ?m"
      using found True by (simp add: deleteNftIsolation_def and_then_def look_def ask_def)
    obtain okay w where r: "sr_run e (mc_tick ?m) delete_isolation (mc_wall ?m) = (okay, w)" by force
    from assms(2) have "okay" "snd (platformCommand e delete_isolation ?m) = (tick ?m)\<lparr>mc_wall := w\<rparr>"
      by (auto simp: d platformCommand_def r Let_def split: fate.splits if_splits)
    moreover have "okay \<Longrightarrow> \<not> T (Suc (mc_tick ?m)) (nt_wall w)"
      using ok r unfolding nft_ok_def by (metis fst_conv snd_conv)
    ultimately show ?thesis by (simp add: d in_force_def tick_def)
  qed
qed

lemma apply_mild:
  assumes "nft_ok e T" and "nft_ok b T"
  shows "mild T (applyNftScript e b pid script)"
  unfolding applyNftScript_def using assms
  by (auto intro!: mild_and_then mild_command tame_attempt delete_tame tame_command simp: tame_mild)

text \<open>Once the table is not in force, the rest of an isolation keeps the record.\<close>

lemma absent_inv: "\<not> in_force T m \<Longrightarrow> isolation_inv T m"
  by (simp add: isolation_inv_def)

lemma put_in_force [simp]: "in_force T (put_isolation f m) = in_force T m" "nt_state (mc_wall (put_isolation f m)) = f"
  by (simp_all add: in_force_def put_isolation_def)

lemma remove_absent:
  assumes "nft_ok e T" and "\<not> in_force T m"
  shows "\<not> in_force T (snd (removeIsolationState e m))"
  using assms tick_milder [OF assms(1), of m] by (auto simp: removeIsolationState_def milder_def Let_def split: fate.split)

lemma save_absent:
  assumes "nft_ok e T" and "\<not> in_force T m"
  shows "\<not> in_force T (snd (saveIsolationState e st m))"
    and "fst (saveIsolationState e st m) = Value () \<Longrightarrow> nt_state (mc_wall (snd (saveIsolationState e st m))) = IsolationSaved st"
  using assms tick_milder [OF assms(1), of m] by (auto simp: saveIsolationState_def milder_def Let_def split: fate.splits)

lemma isolation_applied:
  fixes e b :: "'v net surroundings"
  assumes ok: "nft_ok e T" "nft_ok b T" and m: "\<not> in_force T m" and mode: "mode \<noteq> ModeNone" "mode \<noteq> ModeUnspecified"
  shows "isolation_inv T (snd (after_report e b pid (ApplyIsolation mode interfaces script) m))"
proof -
  let ?save = "\<lambda>now. saveIsolationState e \<lparr>is_Mode = mode, is_Interfaces = interfaces, is_AppliedAt = now\<rparr>"
  let ?rest = "\<lambda>applied. case applied of Inr _ \<Rightarrow> give () | Inl err \<Rightarrow> and_then (removeIsolationState e) (\<lambda>_. give_up err)"
  have last: "isolation_inv T (snd (and_then (attempt (applyNftScript e b pid script)) ?rest m'))"
    if "\<not> in_force T m'" "active (nt_state (mc_wall m'))" for m' :: "'v net machine"
  proof -
    obtain r m2 where a: "applyNftScript e b pid script m' = (r, m2)" by force
    with apply_mild [OF ok, of pid script] have s: "nt_state (mc_wall m2) = nt_state (mc_wall m')"
      "\<And>err. r = Error err \<Longrightarrow> \<not> in_force T m2"
      using that(1) by (cases r; auto simp: mild_def milder_def dest!: spec [where x = m'])+
    then have "isolation_inv T m2" using that(2) by (simp add: isolation_inv_def)
    moreover have "\<not> in_force T (snd (removeIsolationState e m2))" if "r = Error err" for err
      using remove_absent [OF ok(1) s(2) [OF that]] .
    ultimately show ?thesis
      using a by (cases r) (auto simp: and_then_def attempt_def give_def give_up_def intro: absent_inv split: prod.split result.split)
  qed
  have saved: "isolation_inv T (snd (and_then (?save now) (\<lambda>_. and_then (attempt (applyNftScript e b pid script)) ?rest) m'))"
    if "\<not> in_force T m'" for m' :: "'v net machine" and now
  proof -
    obtain r m2 where s: "?save now m' = (r, m2)" by force
    note sa = save_absent [OF ok(1) that, of "\<lparr>is_Mode = mode, is_Interfaces = interfaces, is_AppliedAt = now\<rparr>", unfolded s]
    then have i: "isolation_inv T m2" by (simp add: absent_inv)
    show ?thesis
    proof (cases r)
      case (Value u)
      then have "and_then (?save now) (\<lambda>_. and_then (attempt (applyNftScript e b pid script)) ?rest) m' =
          and_then (attempt (applyNftScript e b pid script)) ?rest m2" by (simp only: and_then_def [of "?save now"] s result.case prod.case)
      moreover have "isolation_inv T (snd (and_then (attempt (applyNftScript e b pid script)) ?rest m2))"
        by (rule last) (use sa Value mode in \<open>simp_all add: active_def\<close>)
      ultimately show ?thesis by (simp only:)
    qed (use i in \<open>simp_all add: and_then_def [of "?save now"] s\<close>)
  qed
  have tick: "\<not> in_force T (tick m)" "\<not> in_force T (tick (tick m))"
    using m tick_milder [OF ok(1), of m] tick_milder [OF ok(1), of "tick m"] by (auto simp: milder_def)
  obtain r m2 where a: "aside e ''context'' m = (r, m2)" by force
  then have "m2 = tick m" by (auto simp: aside_def split: fate.splits)
  then show ?thesis
    using a tick saved [of "tick (tick m)"]
    by (cases r) (simp_all add: after_report_def and_then_def [of "aside e ''context''"] and_then_def [of "Now e"] Now_def absent_inv)
qed

lemma restore_inv:
  fixes e :: "'v net surroundings"
  assumes ok: "nft_ok e T" and inv: "isolation_inv T m"
  shows "isolation_inv T (snd (restoreNetwork e m))"
    and "fst (restoreNetwork e m) = Value r \<Longrightarrow> \<not> in_force T (snd (restoreNetwork e m))"
proof -
  obtain d m1 where d: "deleteNftIsolation e m = (d, m1)" by force
  have m1: "milder T m m1" using delete_tame [OF ok] d by (auto simp: tame_def dest!: spec [where x = m])
  have c: "\<not> in_force T m1" if "d = Value x" for x using delete_clears [OF ok, of m x] d that by simp
  obtain k m2 where k: "removeIsolationState e m1 = (k, m2)" by force
  have m2: "\<not> in_force T m2" if "d = Value x" for x using remove_absent [OF ok c [OF that]] k by simp
  show "isolation_inv T (snd (restoreNetwork e m))"
    using inv milder_inv [OF inv m1] m2 by (cases d; cases k) (auto simp: restoreNetwork_def and_then_def d k give_def give_up_def absent_inv)
  show "fst (restoreNetwork e m) = Value r \<Longrightarrow> \<not> in_force T (snd (restoreNetwork e m))"
    using m2 by (cases d; cases k) (auto simp: restoreNetwork_def and_then_def d k give_def give_up_def split: if_splits)
qed

lemma ExecuteAction_tame:
  fixes e :: "'v net surroundings"
  assumes "nft_ok e T" and "action \<noteq> RestoreNetwork"
  shows "tame T (ExecuteAction e fa cfg action arguments port)"
proof -
  have ensure: "tame T (ensureNoActiveIsolation e)"
    unfolding ensureNoActiveIsolation_def using assms(1) by (auto intro!: tame_and_then)
  show ?thesis
    using assms tame_ssh [OF assms(1)] ensure
    by (cases action)
      (auto simp: ExecuteAction_def performanceDiagnostics_def preparePowerAction_def prepareAgentRestart_def Let_def
        prepareInterfaceIsolation_def prepareControlPlaneIsolation_def intro!: tame_and_then split: sum.split)
qed

text \<open>An isolation is left to do only when none was recorded.\<close>

lemma isolation_prepared:
  fixes e :: "'v net surroundings"
  assumes "\<And>t. sr_readable e t" and "ExecuteAction e fa cfg action arguments port m = (Value r, m')"
    and "ar_AfterReport r = Some (ApplyIsolation mode interfaces script)"
  shows "\<not> active (nt_state (mc_wall m)) \<and> mode \<noteq> ModeNone \<and> mode \<noteq> ModeUnspecified \<and> action \<noteq> RestoreNetwork"
proof -
  have e: "\<not> active (nt_state (mc_wall m))" if "fst (ensureNoActiveIsolation e m) = Value x" for x
    using that assms(1)
    by (auto simp: ensureNoActiveIsolation_def networkIsolationStatus_def and_then_def give_up_def active_def
        split: isolation_file.splits if_splits)
  show ?thesis
    using assms(2,3) e
    by (cases action)
      (auto simp: ExecuteAction_def performanceDiagnostics_def preparePowerAction_def prepareAgentRestart_def Let_def
        prepareInterfaceIsolation_def prepareControlPlaneIsolation_def and_then_def give_def give_up_def machineDiagnostics_def
        restoreNetwork_def ssh_result_def split: if_splits sum.splits prod.splits result.splits option.splits)
qed

lemma perform_inv:
  fixes e b :: "'v net surroundings"
  assumes ok: "nft_ok e T" "nft_ok b T" and read: "\<And>t. sr_readable e t" and inv: "isolation_inv T m"
  shows "isolation_inv T (snd (perform e b fa cfg action arguments port m))"
proof -
  obtain r m' where x: "ExecuteAction e fa cfg action arguments port m = (r, m')" by force
  have inv': "isolation_inv T m'"
  proof (cases "action = RestoreNetwork")
    case True
    show ?thesis using restore_inv(1) [OF ok(1) inv] x inv unfolding True
      by (auto simp: ExecuteAction_def give_up_def split: if_splits)
  next
    case False
    with ExecuteAction_tame [OF ok(1) this, of fa cfg arguments port] x have "milder T m m'"
      unfolding tame_def by (metis snd_conv)
    with inv show ?thesis by (rule milder_inv)
  qed
  show ?thesis
  proof (cases "\<exists>v mode interfaces script. r = Value v \<and> ar_AfterReport v = Some (ApplyIsolation mode interfaces script)")
    case True
    then obtain v mode interfaces script where v: "r = Value v" "ar_AfterReport v = Some (ApplyIsolation mode interfaces script)"
      by blast
    from isolation_prepared [OF read x [unfolded v(1)] v(2)]
    have p: "\<not> active (nt_state (mc_wall m))" "mode \<noteq> ModeNone" "mode \<noteq> ModeUnspecified" "action \<noteq> RestoreNetwork" by auto
    have "\<not> in_force T m" using p(1) inv by (auto simp: isolation_inv_def)
    then have "\<not> in_force T m'"
      using ExecuteAction_tame [OF ok(1) p(4), of fa cfg arguments port] x unfolding tame_def milder_def by (metis snd_conv)
    from isolation_applied [OF ok this p(2,3)] show ?thesis by (simp add: perform_def and_then_def x v)
  next
    case False
    have "tame T (after_report e b (fa_pid fa) a)" if "\<nexists>mode i s. a = ApplyIsolation mode i s" for a
      using that ok by (cases a) (auto simp: after_report_def intro!: tame_and_then tame_command)
    then have "isolation_inv T (snd (after_report e b (fa_pid fa) a m'))" if "\<nexists>mode i s. a = ApplyIsolation mode i s" for a
      using that milder_inv [OF inv'] by (simp add: tame_def)
    with False inv' show ?thesis by (cases r) (auto simp: perform_def and_then_def x give_def split: option.split)
  qed
qed

section \<open>Histories\<close>

record request =
  rq_facts :: facts
  rq_action :: rescue_action
  rq_arguments :: "string list"
  rq_port :: nat

fun rescue_history ::
  "'v net surroundings \<Rightarrow> 'v net surroundings \<Rightarrow> ActionConfig \<Rightarrow> request list \<Rightarrow> 'v net machine \<Rightarrow> 'v net machine" where
  "rescue_history e b cfg [] m = m"
| "rescue_history e b cfg (q # qs) m =
     rescue_history e b cfg qs (snd (perform e b (rq_facts q) cfg (rq_action q) (rq_arguments q) (rq_port q) m))"

text \<open>
  C11: An isolated machine says so, and its isolation can be lifted. Through any sequence of rescue actions of the panel,
  with writes cut short, the helper dying at any point, and failures of any command but those of the conditions: if the
  isolation table is in force then the state file records an isolation, so that the status the helper reports shows it and
  every further isolation is refused; and a restoration that reports success has taken the table out of force. The
  conditions: \<open>nft list\<close> does not fail while the table is in force, an \<open>nft -f\<close> that fails or is cancelled leaves no table, a
  successful deletion removes it, nobody else puts it in force or writes the state file, and that file can be read. Without the
  first the code takes a failure of \<open>nft list\<close> for an absent table and forgets an isolation in force; the finding at line 313 of
  \<open>rescue/actions_linux.go\<close> (\<open>cancelled_restore_forgets\<close>) shows it.
\<close>

theorem isolation_recorded:
  fixes e b :: "'v net surroundings"
  assumes "nft_ok e T" and "nft_ok b T" and "\<And>t. sr_readable e t" and start: "isolation_inv T m0"
    and m: "m = rescue_history e b cfg qs m0"
  shows "(in_force T m \<longrightarrow>
      (\<exists>mode interfaces. fst (networkIsolationStatus e m) = Value (mode, interfaces) \<and> mode \<noteq> ModeNone \<and> mode \<noteq> ModeUnspecified) \<and>
      (action = BlockPublicInterfaces \<or> action = BlockTailscaleInterfaces \<or> action = IsolateControlPlane \<longrightarrow>
         (\<exists>err. fst (ExecuteAction e fa cfg action arguments port m) = Error err))) \<and>
    (fst (ExecuteAction e fa cfg RestoreNetwork arguments port m) = Value r \<longrightarrow>
       \<not> in_force T (snd (ExecuteAction e fa cfg RestoreNetwork arguments port m)))"
proof -
  have "isolation_inv T (rescue_history e b cfg qs m0)"
    using start by (induction qs arbitrary: m0) (simp_all add: perform_inv [OF assms(1,2,3)])
  then have inv: "isolation_inv T m" by (simp only: m)
  have "\<exists>st. nt_state (mc_wall m) = IsolationSaved st \<and> is_Mode st \<noteq> ModeNone \<and> is_Mode st \<noteq> ModeUnspecified" if "in_force T m"
    using inv that by (auto simp: isolation_inv_def active_def split: isolation_file.splits)
  moreover have "fst (restoreNetwork e m) = Value r \<Longrightarrow> \<not> in_force T (snd (restoreNetwork e m))"
    by (rule restore_inv(2) [OF assms(1) inv])
  ultimately show ?thesis
    using assms(3)
    by (auto simp: networkIsolationStatus_def ExecuteAction_def ensureNoActiveIsolation_def and_then_def give_up_def)
qed

section \<open>A machine with nftables\<close>

text \<open>The firewall is whether the table is in force; \<open>hung\<close> says whether the context is over.\<close>

definition nft_machine :: "bool net surroundings" where
  "nft_machine = \<lparr>sr_fate = (\<lambda>_. Succeeds), sr_readable = (\<lambda>_. True), sr_clock = (\<lambda>t. int t), sr_look = (\<lambda>_ _. True),
     sr_ask = (\<lambda>_ args w. args = list_isolation \<and> nt_wall w),
     sr_run = (\<lambda>_ args w. if isolates args then (True, w\<lparr>nt_wall := True\<rparr>)
       else if args = delete_isolation then (True, w\<lparr>nt_wall := False\<rparr>) else (True, w)),
     sr_daemon = (\<lambda>_. \<lparr>dv_tcp = None, dv_tcp6 = None, dv_systemctl = False, dv_active = (\<lambda>_. False), dv_comms = None,
       dv_configs = []\<rparr>), sr_root = True\<rparr>"

definition table_there :: "nat \<Rightarrow> bool \<Rightarrow> bool" where
  "table_there t v = v"

lemma nft_machine_ok: "nft_ok nft_machine table_there"
  by (auto simp: nft_ok_def nft_machine_def table_there_def)

definition sample_facts :: facts where
  "sample_facts = \<lparr>fa_command = (\<lambda>_. ([], [], None)), fa_collect = (\<lambda>_ _. Inr []), fa_routes = [Some (Some [''eth0'']), None],
     fa_interfaces = Some [''tailscale0''], fa_url = (\<lambda>_. Some (''https'', ''p'', [])), fa_lookup = (\<lambda>_. Some [(True, ''1.2.3.4'')]),
     fa_pid = 7\<rparr>"

definition sample_action_config :: ActionConfig where
  "sample_action_config = \<lparr>ac_ServiceName = ''komari-agent'', ac_ControlPlaneURL = ''https://p'', ac_IsolationStatePath = []\<rparr>"

definition reachable_net :: "bool net machine" where
  "reachable_net = \<lparr>mc_file = NoFile, mc_wall = \<lparr>nt_state = IsolationAbsent, nt_wall = False\<rparr>, mc_tick = 0\<rparr>"

definition isolated_net :: "bool net machine" where
  "isolated_net = snd (perform nft_machine nft_machine sample_facts sample_action_config BlockPublicInterfaces [] 0 reachable_net)"

lemma rules_isolate: "isolates [''nft'', ''-f'', interfaceIsolationRules names]"
  by (simp add: isolates_def interfaceIsolationRules_def isolation_table_def starts_with_def linuxIsolationTable_def Let_def)

lemma not_list [simp]: "list_isolation \<noteq> delete_isolation" "\<not> isolates list_isolation"
  by (simp_all add: list_isolation_def delete_isolation_def isolates_def)

lemma sample_interfaces: "interfacesForMode sample_facts PublicInterfaces = Inr [''eth0'']"
  by (simp add: interfacesForMode_def sample_facts_def uniqueStrings_def unique_values_def)

lemmas action_steps = perform_def ExecuteAction_def after_report_def applyNftScript_def deleteNftIsolation_def
  saveIsolationState_def removeIsolationState_def networkIsolationStatus_def ensureNoActiveIsolation_def restoreNetwork_def
  and_then_def attempt_def give_def give_up_def Now_def look_def ask_def aside_def platformCommand_def tick_def put_isolation_def
  Let_def

lemma isolated_net:
  "\<exists>st t. is_Mode st = PublicInterfaces \<and>
    isolated_net = \<lparr>mc_file = NoFile, mc_wall = \<lparr>nt_state = IsolationSaved st, nt_wall = True\<rparr>, mc_tick = t\<rparr>"
  by (simp add: isolated_net_def reachable_net_def action_steps prepareInterfaceIsolation_def sample_interfaces nft_machine_def
      rules_isolate)

lemma isolation_recorded_witness:
  "in_force table_there isolated_net \<and>
   (\<exists>err. fst (ExecuteAction nft_machine sample_facts sample_action_config IsolateControlPlane [] 0 isolated_net) = Error err) \<and>
   \<not> in_force table_there (snd (ExecuteAction nft_machine sample_facts sample_action_config RestoreNetwork [] 0 isolated_net))"
proof -
  let ?qs = "[\<lparr>rq_facts = sample_facts, rq_action = BlockPublicInterfaces, rq_arguments = [], rq_port = 0\<rparr>]"
  obtain st t where i: "is_Mode st = PublicInterfaces"
      "isolated_net = \<lparr>mc_file = NoFile, mc_wall = \<lparr>nt_state = IsolationSaved st, nt_wall = True\<rparr>, mc_tick = t\<rparr>"
    using isolated_net by blast
  have f: "in_force table_there isolated_net" by (simp add: in_force_def i table_there_def)
  obtain r where r: "fst (ExecuteAction nft_machine sample_facts sample_action_config RestoreNetwork [] 0 isolated_net) = Value r"
    by (simp add: action_steps nft_machine_def i)
  have s: "isolation_inv table_there reachable_net" by (simp add: isolation_inv_def in_force_def reachable_net_def table_there_def)
  have h: "isolated_net = rescue_history nft_machine nft_machine sample_action_config ?qs reachable_net"
    by (simp add: isolated_net_def)
  have "sr_readable nft_machine t" for t by (simp add: nft_machine_def)
  from isolation_recorded [OF nft_machine_ok nft_machine_ok this s h, where action = IsolateControlPlane and
      fa = sample_facts and arguments = "[]" and port = 0 and r = r] f r
  show ?thesis by blast
qed

section \<open>Beyond the promises\<close>

text \<open>
  A restoration whose context is over before its first command: the listing fails, which counts as an absent table, and
  the state file is removed while the table stays in force. The status then says that the network is not isolated.
\<close>

lemma cancelled_restore_forgets:
  "let m = snd (ExecuteAction (cancelled nft_machine) sample_facts sample_action_config RestoreNetwork [] 0 isolated_net)
   in in_force table_there m \<and> fst (networkIsolationStatus nft_machine m) = Value (ModeNone, [])"
proof -
  obtain st t where i: "isolated_net = \<lparr>mc_file = NoFile, mc_wall = \<lparr>nt_state = IsolationSaved st, nt_wall = True\<rparr>, mc_tick = t\<rparr>"
    using isolated_net by blast
  show ?thesis unfolding i by (simp add: action_steps cancelled_def nft_machine_def in_force_def table_there_def)
qed

text \<open>The script that is checked is the one put in force, but for the name of the table.\<close>

lemma starts_with_append [simp]: "starts_with p (p @ s)"
  by (simp add: starts_with_def)

lemma replace_first_prefix: "old \<noteq> [] \<Longrightarrow> replace_first old new (old @ s) = new @ s"
  by (cases old) (simp_all add: starts_with_def)

lemma checked_script_same:
  "\<exists>rest. isolation_table inputs outputs = (''table inet '' @ linuxIsolationTable) @ rest \<and>
    check_script pid (isolation_table inputs outputs) = (''table inet '' @ linuxIsolationTable @ ''_check_'' @ Itoa pid) @ rest"
proof -
  obtain rest where r: "isolation_table inputs outputs = (''table inet '' @ linuxIsolationTable) @ rest"
    by (simp add: isolation_table_def)
  show ?thesis
    by (rule exI [of _ rest]) (simp only: r check_script_def replace_first_prefix append_is_Nil_conv list.distinct simp_thms not_Cons_self2)
qed

lemma limitBytes_length: "length (limitBytes b limit) \<le> limit"
  by (auto simp: limitBytes_def not_le)

text \<open>Nothing is done for an action that carries arguments, nor by a helper without privileges.\<close>

lemma no_remote_arguments: "arguments \<noteq> [] \<Longrightarrow> ExecuteAction e fa cfg action arguments port m = (Error ''rescue actions do not accept remote arguments'', m)"
  by (simp add: ExecuteAction_def give_up_def)

end
