(* ===== verification/RescueHelper.thy ===== *)
theory RescueHelper
  imports RescueActions
begin

text \<open>
  The rescue helper (\<open>rescue/helper.go\<close>): how it is set up from its configuration, the credentials and the root-owned
  pins, its instance identifier, and what it does with an assignment of the panel: verification, deadlines, the
  action, the report and what follows the report. HTTP, protobuf, JSON, URL parsing, UUIDs and the clock are parameters.
\<close>

section \<open>Setting up\<close>

record helper_config =
  cf_HostManifest :: path
  cf_Endpoint :: string
  cf_Token :: string
  cf_AgentID :: string
  cf_InstanceIDPath :: path
  cf_Version :: string
  cf_IgnoreUnsafeCert :: bool
  cf_CFAccessClientID :: string
  cf_CFAccessClientSecret :: string
  cf_CredentialsFile :: path
  cf_ReplayFile :: path
  cf_Action :: ActionConfig

text \<open>\<open>he_baseURL\<close> and \<open>he_insecure\<close> are what the client and its transport are built with.\<close>

record rescue_helper =
  he_manifest :: "Manifest option"
  he_hostTrust :: "Trust option"
  he_token :: string
  he_agentID :: string
  he_instanceID :: string
  he_version :: string
  he_cfAccessClientID :: string
  he_cfAccessClientSecret :: string
  he_action :: ActionConfig
  he_credStore :: "cred_store option"
  he_identity :: Identity
  he_replayGuard :: replay_guard
  he_baseURL :: string
  he_insecure :: bool

text \<open>The machine as \<open>New\<close> finds it, with the decoders. \<open>hw_store\<close> is what \<open>credentials.Open\<close> gives.\<close>

record helper_world =
  hw_root :: tree
  hw_fs :: host_fs
  hw_store :: "cred_error + cred_store"
  hw_identity :: "bytes \<Rightarrow> Identity option"
  hw_manifest :: "bytes \<Rightarrow> (Manifest \<times> bytes) option"
  hw_trust :: "bytes \<Rightarrow> (Trust \<times> bytes) option"
  hw_access :: "bytes \<Rightarrow> (AccessConfig \<times> bytes) option"
  hw_url :: "string \<Rightarrow> url_parts option"
  hw_configDir :: "string option"
  hw_replayDefault :: path

definition TrimRightSlash :: "string \<Rightarrow> string" where
  "TrimRightSlash s = rev (dropWhile (\<lambda>c. c = CHR ''/'') (rev s))"

definition normalizeEndpoint :: "(string \<Rightarrow> url_parts option) \<Rightarrow> string \<Rightarrow> string + string" where
  "normalizeEndpoint url endpoint =
     (let v = TrimRightSlash (TrimSpace endpoint) in
      case url v of
        None \<Rightarrow> Inl ''invalid Connect endpoint''
      | Some p \<Rightarrow>
          if u_Scheme p = [] \<or> u_Host p = [] then Inl ''invalid Connect endpoint''
          else if u_Scheme p \<noteq> ''http'' \<and> u_Scheme p \<noteq> ''https'' then Inl ''Connect endpoint must use HTTP or HTTPS''
          else Inr v)"

definition DefaultInstanceIDPath :: "string option \<Rightarrow> path" where
  "DefaultInstanceIDPath dir =
     (case dir of
        None \<Rightarrow> ''.komari-rescue-instance''
      | Some d \<Rightarrow> if TrimSpace d = [] then ''.komari-rescue-instance'' else Join [d, ''komari-agent'', ''rescue-instance''])"

text \<open>\<open>atomicWrite\<close> of the helper: without a flush of the directory.\<close>

definition instance_pre :: "path \<Rightarrow> path \<Rightarrow> bytes \<Rightarrow> bytes fs_op list" where
  "instance_pre t p c = [MkdirAll (Dir p) 448, CreateTemp t, Chmod t mode_0600, Write t c, Sync t, fs_op.Close t]"

definition instance_write :: "bytes env \<Rightarrow> path \<Rightarrow> bytes \<Rightarrow> bytes disk \<Rightarrow> bytes fs_op option \<times> bytes disk" where
  "instance_write e p c d =
     run_deferred (env_faults e) (instance_pre (env_tmp e) p c @ Rename (env_tmp e) p # []) (env_tmp e) d"

text \<open>\<open>valid\<close> is \<open>uuid.Parse\<close> and \<open>fresh\<close> the result of \<open>uuid.NewString\<close>.\<close>

definition loadOrCreateInstanceID ::
  "(string \<Rightarrow> bool) \<Rightarrow> string \<Rightarrow> bytes env \<Rightarrow> path \<Rightarrow> bytes disk \<Rightarrow> (string + string) \<times> bytes disk" where
  "loadOrCreateInstanceID valid fresh e p d =
     (case read_file (env_faults e) p d of
        Inr None \<Rightarrow> (Inl ''stored helper instance ID is invalid'', d)
      | Inr (Some c) \<Rightarrow>
          if valid (TrimSpace c) then (Inr (TrimSpace c), d) else (Inl ''stored helper instance ID is invalid'', d)
      | Inl ReadFailed \<Rightarrow> (Inl ''read'', d)
      | Inl NotExist \<Rightarrow>
          if env_faults e (MkdirAll (Dir p) 448) then (Inl ''mkdir'', d)
          else (case instance_write e p (fresh @ [CHR 0x0A]) d of
                  (Some _, d') \<Rightarrow> (Inl ''write'', d')
                | (None, d') \<Rightarrow> (Inr fresh, d')))"

text \<open>The first part of \<open>New\<close>: whose credentials the helper uses.\<close>

definition helper_credentials ::
  "helper_world \<Rightarrow> helper_config \<Rightarrow> string + Identity \<times> cred_store option \<times> helper_config" where
  "helper_credentials w cfg =
     (if cf_HostManifest cfg \<noteq> [] then
        (case ReadCandidate (hw_root w) (cf_CredentialsFile cfg) of
           Inl _ \<Rightarrow> Inl ''read credentials''
         | Inr b \<Rightarrow>
             (case hw_identity w b of
                None \<Rightarrow> Inl ''decode credentials''
              | Some i \<Rightarrow> Inr (i, None, cfg\<lparr>cf_Token := AccessToken i\<rparr>)))
      else
        (case hw_store w of
           Inl _ \<Rightarrow> Inr (Identity_zero, None, cfg)
         | Inr s \<Rightarrow>
             (case cred_Identity s of
                (i, ok) \<Rightarrow>
                  if ok \<and> AccessToken i \<noteq> [] then
                    Inr (i, Some s, cfg\<lparr>cf_Endpoint := (if Endpoint i \<noteq> [] then Endpoint i else cf_Endpoint cfg),
                      cf_Token := AccessToken i, cf_AgentID := (if AgentID i \<noteq> [] then AgentID i else cf_AgentID cfg)\<rparr>)
                  else Inr (Identity_zero, Some s, cfg))))"

text \<open>The second part: the root-owned manifest and trust override what the configuration and the credentials say.\<close>

definition helper_pins ::
  "helper_world \<Rightarrow> Identity \<Rightarrow> helper_config \<Rightarrow> string + Identity \<times> Manifest option \<times> Trust option \<times> helper_config" where
  "helper_pins w i cfg =
     (if cf_HostManifest cfg = [] then Inr (i, None, None, cfg)
      else case ReadManifest (hw_fs w) (hw_manifest w) (cf_HostManifest cfg) of
        Inl _ \<Rightarrow> Inl ''read manifest''
      | Inr m \<Rightarrow>
          (case ReadTrust (hw_fs w) (hw_trust w) (hw_url w) m of
             Inl _ \<Rightarrow> Inl ''read trust''
           | Inr t \<Rightarrow>
               if AgentID i \<noteq> tr_AgentID t \<or> Endpoint i \<noteq> tr_Endpoint t \<or> cf_CredentialsFile cfg \<noteq> CredentialsFile m
               then Inl ''helper enrollment does not match root-pinned host identity''
               else
                 (let i' = i\<lparr>ControlPlaneKeys := PanelKeys t, PolicyAlgorithms := [1], PolicyMinimumSignatures := 1,
                             PolicyRequireAll := False\<rparr>;
                      c = cfg\<lparr>cf_Endpoint := tr_Endpoint t, cf_AgentID := tr_AgentID t, cf_IgnoreUnsafeCert := False\<rparr> in
                  if AccessConfigFile t = [] then Inr (i', Some m, Some t, c)
                  else (case ReadAccess (hw_fs w) (hw_access w) t of
                          Inl _ \<Rightarrow> Inl ''read access''
                        | Inr a \<Rightarrow> Inr (i', Some m, Some t,
                            c\<lparr>cf_CFAccessClientID := ClientID a, cf_CFAccessClientSecret := ClientSecret a\<rparr>)))))"

definition instance_path :: "helper_world \<Rightarrow> helper_config \<Rightarrow> path" where
  "instance_path w cfg =
     (if TrimSpace (cf_InstanceIDPath cfg) = [] then DefaultInstanceIDPath (hw_configDir w) else TrimSpace (cf_InstanceIDPath cfg))"

text \<open>\<open>instance\<close> is \<open>loadOrCreateInstanceID\<close> on the disk of the machine.\<close>

definition NewHelper :: "helper_world \<Rightarrow> (path \<Rightarrow> string + string) \<Rightarrow> helper_config \<Rightarrow> string + rescue_helper" where
  "NewHelper w instance_id cfg =
     (case helper_credentials w cfg of
        Inl err \<Rightarrow> Inl err
      | Inr (i, store, cfg) \<Rightarrow>
          (case helper_pins w i cfg of
             Inl err \<Rightarrow> Inl err
           | Inr (i, m, t, cfg) \<Rightarrow>
               (case normalizeEndpoint (hw_url w) (cf_Endpoint cfg) of
                  Inl err \<Rightarrow> Inl err
                | Inr url \<Rightarrow>
                    if TrimSpace (cf_Token cfg) = [] then Inl ''Agent token is required''
                    else if (TrimSpace (cf_CFAccessClientID cfg) = []) \<noteq> (TrimSpace (cf_CFAccessClientSecret cfg) = [])
                    then Inl ''Cloudflare Access client ID and client secret must be configured together''
                    else
                      (case instance_id (instance_path w cfg) of
                         Inl err \<Rightarrow> Inl err
                       | Inr inst \<Rightarrow> Inr
                           \<lparr>he_manifest = m, he_hostTrust = t, he_token = TrimSpace (cf_Token cfg),
                            he_agentID = TrimSpace (cf_AgentID cfg), he_instanceID = inst, he_version = cf_Version cfg,
                            he_cfAccessClientID = TrimSpace (cf_CFAccessClientID cfg),
                            he_cfAccessClientSecret = TrimSpace (cf_CFAccessClientSecret cfg), he_action = cf_Action cfg,
                            he_credStore = store, he_identity = i, he_replayGuard = NewReplayGuard (hw_replayDefault w) (cf_ReplayFile cfg),
                            he_baseURL = url, he_insecure = cf_IgnoreUnsafeCert cfg\<rparr>))))"

text \<open>The token a request carries.\<close>

definition helper_token :: "(bytes \<Rightarrow> Identity option) \<Rightarrow> tree \<Rightarrow> rescue_helper \<Rightarrow> string" where
  "helper_token dec root h =
     (case he_hostTrust h of
        None \<Rightarrow> he_token h
      | Some t \<Rightarrow>
          (case he_manifest h of
             None \<Rightarrow> []
           | Some m \<Rightarrow> (case readHostIdentity dec m t root of None \<Rightarrow> [] | Some i \<Rightarrow> AccessToken i)))"

section \<open>Assignments\<close>

datatype operation_state = Succeeded | Cancelled | DeadlineExceeded | FailedState | CancelRequested | OtherOperation int

record rescue_session =
  rs_SessionId :: string
  rs_Action :: rescue_action
  rs_Arguments :: "string list"
  rs_SshPort :: "nat option"
  rs_DeadlineAt :: timestamp
  rs_State :: operation_state

record rescue_assignment =
  as_AssignmentId :: string
  as_Session :: "rescue_session option"
  as_Envelope :: "SignedEnvelope option"
  as_LeaseExpiresAt :: timestamp

abbreviation GetSshPort :: "rescue_session \<Rightarrow> nat" where
  "GetSshPort s \<equiv> (case rs_SshPort s of None \<Rightarrow> 0 | Some p \<Rightarrow> p)"

text \<open>The keys an assignment is verified with; missing ones are taken from the credential store.\<close>

definition rescue_identity :: "rescue_helper \<Rightarrow> Identity" where
  "rescue_identity h =
     (if ControlPlaneKeys (he_identity h) = [] then
        (case he_credStore h of
           None \<Rightarrow> he_identity h
         | Some s \<Rightarrow> (case cred_Identity s of (i, ok) \<Rightarrow> if ok \<and> ControlPlaneKeys i \<noteq> [] then i else he_identity h))
      else he_identity h)"

text \<open>What the assignment says beside the envelope has to agree with what is signed.\<close>

definition mirrors :: "rescue_assignment \<Rightarrow> rescue_session \<Rightarrow> bool" where
  "mirrors a s =
     (case as_Session a of
        None \<Rightarrow> True
      | Some o' \<Rightarrow> (rs_SessionId o' = [] \<or> rs_SessionId o' = rs_SessionId s) \<and> rs_Action o' = rs_Action s \<and>
          GetSshPort o' = GetSshPort s)"

definition session_of :: "(bytes \<Rightarrow> rescue_session option) \<Rightarrow> rescue_assignment \<Rightarrow> verify_error + Instruction \<Rightarrow> string + rescue_session" where
  "session_of unm_session a r =
     (case r of
        Inl _ \<Rightarrow> Inl ''verify rescue envelope''
      | Inr i \<Rightarrow>
          if in_InstructionType i \<noteq> ''rescue:v1'' then Inl ''not a rescue instruction''
          else (case unm_session (in_Body i) of
                  None \<Rightarrow> Inl ''unmarshal signed rescue session''
                | Some s \<Rightarrow> if mirrors a s then Inr s else Inl ''mismatch between envelope and assignment''))"

definition verifyRescueAssignment ::
  "(bytes \<Rightarrow> bytes \<Rightarrow> bytes \<Rightarrow> bool) \<Rightarrow> (bytes \<Rightarrow> SignedInstruction option) \<Rightarrow> (bytes \<Rightarrow> rescue_session option) \<Rightarrow>
     (nonces \<Rightarrow> 'r option) \<Rightarrow> ('r \<Rightarrow> nonces option option) \<Rightarrow> 'r env \<Rightarrow> rescue_assignment option \<Rightarrow>
     rescue_helper \<Rightarrow> 'r disk \<Rightarrow> (string + rescue_session) \<times> rescue_helper \<times> 'r disk" where
  "verifyRescueAssignment ed unm unm_session renc rdec re assignment h rd =
     (case assignment of
        None \<Rightarrow> (Inl ''nil rescue assignment'', h, rd)
      | Some a \<Rightarrow>
          if as_Envelope a = None then (Inl ''the panel sent a rescue assignment without a SignedEnvelope'', h, rd)
          else
            (let i = rescue_identity h; h = h\<lparr>he_identity := i\<rparr> in
             if ControlPlaneKeys i = [] then (Inl ''no panel signing keys are pinned'', h, rd)
             else
               (let identity = (if AgentID i = [] then i\<lparr>AgentID := he_agentID h\<rparr> else i) in
                case Verify ed unm renc rdec re (as_Envelope a) (New identity (Some (he_replayGuard h))) rd of
                  (r, v, rd') \<Rightarrow>
                    (session_of unm_session a r,
                     h\<lparr>he_replayGuard := (case v_replay v of None \<Rightarrow> he_replayGuard h | Some g \<Rightarrow> g)\<rparr>, rd'))))"

section \<open>Carrying out an assignment\<close>

text \<open>
  The deadline of the operation: the lease (two minutes without one), shortened by the signed session and by the
  expiry of the signed instruction. An expiry that is present counts even where it is not valid.
\<close>

definition deadlineForAssignment :: "gotime \<Rightarrow> gotime \<Rightarrow> gotime" where
  "deadlineForAssignment now v = (if v = 0 then now + 2 * minute else v)"

definition operation_deadline :: "gotime \<Rightarrow> rescue_assignment \<Rightarrow> rescue_session \<Rightarrow> SignedInstruction \<Rightarrow> gotime" where
  "operation_deadline now a s i =
     (let d = (case as_LeaseExpiresAt a of TsValid t \<Rightarrow> t | _ \<Rightarrow> deadlineForAssignment now 0);
          d = (case rs_DeadlineAt s of TsValid t \<Rightarrow> if t < d then t else d | _ \<Rightarrow> d) in
      case si_ExpiresAt i of
        TsAbsent \<Rightarrow> d
      | TsInvalid t \<Rightarrow> if t < d then t else d
      | TsValid t \<Rightarrow> if t < d then t else d)"

definition maximumEventOutput :: nat where
  "maximumEventOutput = 2 ^ 16"

definition truncateError :: "string \<Rightarrow> string" where
  "truncateError v = take 512 (TrimSpace v)"

definition finalOutput :: "ActionResult \<Rightarrow> operation_state \<Rightarrow> bytes" where
  "finalOutput r state =
     (if state = Cancelled \<or> state = DeadlineExceeded then []
      else
        (let out = ar_Stdout r in
         limitBytes
           (if ar_Stderr r = [] then out
            else out @ (if out \<noteq> [] \<and> last out \<noteq> CHR 0x0A then [CHR 0x0A] else []) @ ''[stderr]'' @ [CHR 0x0A] @ ar_Stderr r)
           maximumEventOutput))"

record rescue_event =
  ev_SessionId :: string
  ev_Sequence :: nat
  ev_State :: operation_state
  ev_Output :: bytes
  ev_Error :: "(string \<times> string) option"
  ev_Diagnostics :: "bytes option"
  ev_SshAccess :: "temporarySSHAccess option"

text \<open>
  How the operation ended: whether the cancellation of the server came in, whether the context was cancelled by it
  or by a revocation, and the time of the end.
\<close>

record operation_end =
  oe_cancelledByServer :: bool
  oe_cancelled :: bool
  oe_finished :: gotime

definition operation_outcome :: "operation_end \<Rightarrow> gotime \<Rightarrow> string + ActionResult \<Rightarrow> operation_state \<times> (string \<times> string) option" where
  "operation_outcome oe deadline r =
     (if oe_cancelledByServer oe then (Cancelled, Some (''CANCELLED'', ''rescue operation was cancelled by the server''))
      else if \<not> oe_cancelled oe \<and> deadline \<le> oe_finished oe
      then (DeadlineExceeded, Some (''DEADLINE_EXCEEDED'', ''rescue operation exceeded its deadline''))
      else case r of
        Inl err \<Rightarrow> (FailedState, Some (''ACTION_FAILED'', truncateError err))
      | Inr _ \<Rightarrow> (Succeeded, None))"

definition rescueEvent :: "rescue_session \<Rightarrow> operation_end \<Rightarrow> gotime \<Rightarrow> string + ActionResult \<Rightarrow> rescue_event" where
  "rescueEvent s oe deadline r =
     (let (state, detail) = operation_outcome oe deadline r; res = (case r of Inl _ \<Rightarrow> no_result | Inr x \<Rightarrow> x) in
      \<lparr>ev_SessionId = rs_SessionId s, ev_Sequence = 1, ev_State = state, ev_Output = finalOutput res state, ev_Error = detail,
       ev_Diagnostics = (if state = Succeeded then ar_Diagnostics res else None),
       ev_SshAccess = (if state = Succeeded then ar_SSHAccess res else None)\<rparr>)"

text \<open>The sequence the server acknowledges must cover the event.\<close>

definition reportEvent :: "string + nat \<Rightarrow> rescue_event \<Rightarrow> string option" where
  "reportEvent response event =
     (case response of
        Inl err \<Rightarrow> Some err
      | Inr accepted \<Rightarrow> if accepted < ev_Sequence event then Some ''server acknowledged an earlier rescue event'' else None)"

text \<open>\<open>watchCancellation\<close>: the assignment that a second lease returns asks for the end of this one.\<close>

definition watchCancellation :: "string \<Rightarrow> (string + rescue_assignment option) \<Rightarrow> bool" where
  "watchCancellation assignmentID leased =
     (case leased of
        Inr (Some a) \<Rightarrow>
          (case as_Session a of
             None \<Rightarrow> False
           | Some s \<Rightarrow> as_AssignmentId a = assignmentID \<and> rs_State s = CancelRequested)
      | _ \<Rightarrow> False)"

text \<open>
  \<open>execute\<close>. \<open>gate1\<close> and \<open>gate2\<close> are the authorization at its start and before what follows the report. The result
  lists the operation that was started with its deadline, and the event that was reported.
\<close>

record execution =
  xe_result :: "unit result"
  xe_started :: "(rescue_session \<times> gotime) option"
  xe_event :: "rescue_event option"

abbreviation turned_down :: "string \<Rightarrow> execution" where
  "turned_down err \<equiv> \<lparr>xe_result = Error err, xe_started = None, xe_event = None\<rparr>"

record ('v, 'r) operation_world =
  ow_ed :: "bytes \<Rightarrow> bytes \<Rightarrow> bytes \<Rightarrow> bool"
  ow_unm :: "bytes \<Rightarrow> SignedInstruction option"
  ow_session :: "bytes \<Rightarrow> rescue_session option"
  ow_renc :: "nonces \<Rightarrow> 'r option"
  ow_rdec :: "'r \<Rightarrow> nonces option option"
  ow_env :: "'r env"
  ow_facts :: facts
  ow_calls :: "'v net surroundings"
  ow_background :: "'v net surroundings"
  ow_end :: operation_end
  ow_response :: "string + nat"

text \<open>From the report on.\<close>

definition conclude ::
  "('v, 'r) operation_world \<Rightarrow> bool \<Rightarrow> bool \<Rightarrow> rescue_session \<Rightarrow> gotime \<Rightarrow> string + ActionResult \<Rightarrow>
     'v net machine \<Rightarrow> execution \<times> 'v net machine" where
  "conclude w host gate2 s deadline r m =
     (let event = rescueEvent s (ow_end w) deadline r;
          finish = (\<lambda>result. \<lparr>xe_result = result, xe_started = Some (s, deadline), xe_event = Some event\<rparr>) in
      case reportEvent (ow_response w) event of
        Some err \<Rightarrow> (finish (Error err), m)
      | None \<Rightarrow>
          (case (if ev_State event = Succeeded then (case r of Inl _ \<Rightarrow> None | Inr x \<Rightarrow> ar_AfterReport x) else None) of
             None \<Rightarrow> (finish (Value ()), m)
           | Some a \<Rightarrow>
               if host \<and> \<not> gate2 then (finish (Error ''rescue authorization withdrawn before committing action''), m)
               else (case after_report (ow_calls w) (ow_background w) (fa_pid (ow_facts w)) a m of
                       (result, m') \<Rightarrow> (finish result, m'))))"

definition execute ::
  "('v, 'r) operation_world \<Rightarrow> bool \<Rightarrow> bool \<Rightarrow> rescue_assignment option \<Rightarrow> rescue_helper \<Rightarrow> 'r disk \<Rightarrow> 'v net machine \<Rightarrow>
     execution \<times> rescue_helper \<times> 'r disk \<times> 'v net machine" where
  "execute w gate1 gate2 assignment h rd m =
     (let host = (he_hostTrust h \<noteq> None) in
      if host \<and> \<not> gate1 then (turned_down ''rescue authorization is withdrawn or unverifiable'', h, rd, m)
      else
        (case verifyRescueAssignment (ow_ed w) (ow_unm w) (ow_session w) (ow_renc w) (ow_rdec w) (ow_env w) assignment h rd of
           (Inl err, h', rd') \<Rightarrow> (turned_down err, h', rd', m)
         | (Inr s, h', rd') \<Rightarrow>
             (case assignment of
                None \<Rightarrow> (turned_down ''nil'', h', rd', m)
              | Some a \<Rightarrow>
                  (case ow_unm w (case as_Envelope a of None \<Rightarrow> [] | Some env \<Rightarrow> se_Payload env) of
                     None \<Rightarrow> (turned_down ''decode'', h', rd', m)
                   | Some i \<Rightarrow>
                       (let deadline = operation_deadline (env_now (ow_env w)) a s i in
                        case ExecuteAction (ow_calls w) (ow_facts w) (he_action h') (rs_Action s) (rs_Arguments s) (GetSshPort s) m of
                          (Dead, m') \<Rightarrow>
                            (\<lparr>xe_result = Dead, xe_started = Some (s, deadline), xe_event = None\<rparr>, h', rd', m')
                        | (Error err, m') \<Rightarrow>
                            (case conclude w host gate2 s deadline (Inl err) m' of (x, m'') \<Rightarrow> (x, h', rd', m''))
                        | (Value r, m') \<Rightarrow>
                            (case conclude w host gate2 s deadline (Inr r) m' of (x, m'') \<Rightarrow> (x, h', rd', m'')))))))"

text \<open>The status of the helper: the isolation and the error of its last round.\<close>

record rescue_status =
  st_Version :: string
  st_HelperInstanceId :: string
  st_NetworkIsolation :: isolation_mode
  st_BlockedInterfaces :: "string list"
  st_Error :: "(string \<times> string) option"

definition reportStatus ::
  "'v net surroundings \<Rightarrow> (rescue_status \<Rightarrow> string + bool) \<Rightarrow> rescue_helper \<Rightarrow> string option \<Rightarrow> ('v net, unit) call" where
  "reportStatus e send h failure =
     and_then (networkIsolationStatus e) (\<lambda>(mode, interfaces).
       case send \<lparr>st_Version = he_version h, st_HelperInstanceId = he_instanceID h, st_NetworkIsolation = mode,
            st_BlockedInterfaces = interfaces,
            st_Error = map_option (\<lambda>err. (''HELPER_CONNECTION'', truncateError err)) failure\<rparr> of
         Inl err \<Rightarrow> give_up err
       | Inr accepted \<Rightarrow> if accepted then give () else give_up ''server rejected rescue helper status'')"

section \<open>Facts\<close>

lemma verifyRescueAssignment_Inr:
  assumes "verifyRescueAssignment ed unm us renc rdec re (Some a) h rd = (Inr s, h', rd')"
  obtains identity env v g' ins where
    "identity = (if AgentID (rescue_identity h) = [] then (rescue_identity h)\<lparr>AgentID := he_agentID h\<rparr> else rescue_identity h)"
    "ControlPlaneKeys (rescue_identity h) \<noteq> []" "as_Envelope a = Some env"
    "Verify ed unm renc rdec re (Some env) (New identity (Some (he_replayGuard h))) rd = (Inr ins, v, rd')"
    "v_replay v = Some g'" "h' = h\<lparr>he_identity := rescue_identity h, he_replayGuard := g'\<rparr>"
    "in_InstructionType ins = ''rescue:v1''" "us (in_Body ins) = Some s" "mirrors a s"
proof -
  obtain env where env: "as_Envelope a = Some env"
    using assms by (cases "as_Envelope a") (simp_all add: verifyRescueAssignment_def)
  define identity where
    "identity = (if AgentID (rescue_identity h) = [] then (rescue_identity h)\<lparr>AgentID := he_agentID h\<rparr> else rescue_identity h)"
  obtain r v rd1 where V: "Verify ed unm renc rdec re (Some env) (New identity (Some (he_replayGuard h))) rd = (r, v, rd1)"
    by (metis prod_cases3)
  have k: "ControlPlaneKeys (rescue_identity h) \<noteq> []" and res: "session_of us a r = Inr s" "rd' = rd1"
    "h' = h\<lparr>he_identity := rescue_identity h, he_replayGuard := (case v_replay v of None \<Rightarrow> he_replayGuard h | Some g \<Rightarrow> g)\<rparr>"
    using assms V by (auto simp: verifyRescueAssignment_def env identity_def Let_def split: if_splits option.splits)
  then obtain ins where ins: "r = Inr ins" "in_InstructionType ins = ''rescue:v1''" "us (in_Body ins) = Some s" "mirrors a s"
    by (auto simp: session_of_def split: sum.splits if_splits option.splits)
  from V ins(1) obtain g' where g': "v_replay v = Some g'" by (auto simp: New_def elim!: Verify_Inr)
  show ?thesis
    by (rule that [OF identity_def k env _ g' _ ins(2,3,4)]) (use V ins(1) res g' in simp_all)
qed

lemma conclude_started: "conclude w host gate2 s dl r m = (x, m') \<Longrightarrow> xe_started x = Some (s, dl)"
  by (auto simp: conclude_def Let_def split: prod.splits option.splits if_splits)

lemma verify_trust: "verifyRescueAssignment ed unm us renc rdec re a h rd = (r, h', rd') \<Longrightarrow> he_hostTrust h' = he_hostTrust h"
  by (auto simp: verifyRescueAssignment_def Let_def split: option.splits if_splits prod.splits)

lemma execute_cases:
  assumes X: "execute w gate1 gate2 assignment h rd m = (x, h', rd', m')"
  obtains (unstarted) "xe_started x = None" "xe_event x = None" "m' = m" "he_hostTrust h' = he_hostTrust h"
  | (started) a i s r m1 where "assignment = Some a" "he_hostTrust h = None \<or> gate1"
    "verifyRescueAssignment (ow_ed w) (ow_unm w) (ow_session w) (ow_renc w) (ow_rdec w) (ow_env w) (Some a) h rd = (Inr s, h', rd')"
    "ow_unm w (case as_Envelope a of None \<Rightarrow> [] | Some env \<Rightarrow> se_Payload env) = Some i"
    "xe_started x = Some (s, operation_deadline (env_now (ow_env w)) a s i)"
    "ExecuteAction (ow_calls w) (ow_facts w) (he_action h') (rs_Action s) (rs_Arguments s) (GetSshPort s) m = (r, m1)"
    "m' = m1 \<or> (\<exists>z. conclude w (he_hostTrust h \<noteq> None) gate2 s (operation_deadline (env_now (ow_env w)) a s i) z m1 = (x, m'))"
proof (cases "he_hostTrust h \<noteq> None \<and> \<not> gate1")
  case True
  with X show thesis by (intro unstarted) (auto simp: execute_def Let_def)
next
  case gate: False
  obtain v h1 rd1 where V: "verifyRescueAssignment (ow_ed w) (ow_unm w) (ow_session w) (ow_renc w) (ow_rdec w) (ow_env w) assignment h rd = (v, h1, rd1)"
    by (metis prod_cases3)
  note E = X [unfolded execute_def Let_def if_not_P [OF gate] V prod.case]
  show thesis
  proof (cases v)
    case (Inl err)
    with E verify_trust [OF V] show thesis by (intro unstarted) auto
  next
    case (Inr s)
    show thesis
    proof (cases assignment)
      case None
      with V Inr show thesis by (simp add: verifyRescueAssignment_def)
    next
      case (Some a)
      show thesis
      proof (cases "ow_unm w (case as_Envelope a of None \<Rightarrow> [] | Some env \<Rightarrow> se_Payload env)")
        case None
        with E Inr Some verify_trust [OF V] show thesis by (intro unstarted) auto
      next
        case i: (Some i)
        let ?dl = "operation_deadline (env_now (ow_env w)) a s i"
        obtain r m1 where A: "ExecuteAction (ow_calls w) (ow_facts w) (he_action h1) (rs_Action s) (rs_Arguments s) (GetSshPort s) m = (r, m1)"
          by force
        obtain xr mr where C: "conclude w (he_hostTrust h \<noteq> None) gate2 s ?dl (Inr (case r of Value y \<Rightarrow> y | _ \<Rightarrow> undefined)) m1 = (xr, mr)"
          by force
        obtain xl ml where D: "conclude w (he_hostTrust h \<noteq> None) gate2 s ?dl (Inl (case r of Error y \<Rightarrow> y | _ \<Rightarrow> undefined)) m1 = (xl, ml)"
          by force
        have c: "xe_started x = Some (s, ?dl) \<and> h' = h1 \<and> rd' = rd1 \<and>
            (m' = m1 \<or> (\<exists>z. conclude w (he_hostTrust h \<noteq> None) gate2 s ?dl z m1 = (x, m')))"
          using E [unfolded Inr Some, simplified i A sum.case option.case prod.case] C D
          by (cases r) (auto dest: conclude_started)
        then show thesis using started [OF Some _ _ i, of s r m1] gate V Inr Some A by auto
      qed
    qed
  qed
qed

text \<open>An operation that is not started changes nothing on the machine.\<close>

lemma unstarted_changes_nothing:
  assumes "execute w gate1 gate2 assignment h rd m = (x, h', rd', m')" and "xe_started x = None"
  shows "m' = m \<and> xe_event x = None"
  using assms(2) by (cases rule: execute_cases [OF assms(1)]) simp_all

lemma execute_started:
  assumes "execute w gate1 gate2 assignment h rd m = (x, h', rd', m')" and "xe_started x = Some (s, dl)"
  obtains a i where "assignment = Some a" "he_hostTrust h = None \<or> gate1"
    "verifyRescueAssignment (ow_ed w) (ow_unm w) (ow_session w) (ow_renc w) (ow_rdec w) (ow_env w) (Some a) h rd = (Inr s, h', rd')"
    "ow_unm w (case as_Envelope a of None \<Rightarrow> [] | Some env \<Rightarrow> se_Payload env) = Some i"
    "dl = operation_deadline (env_now (ow_env w)) a s i"
  using assms(2) that by (cases rule: execute_cases [OF assms(1)]) auto

lemma operation_deadline_le:
  "si_ExpiresAt i = TsValid t \<Longrightarrow> operation_deadline now a s i \<le> t"
  "rs_DeadlineAt s = TsValid u \<Longrightarrow> operation_deadline now a s i \<le> u"
  "as_LeaseExpiresAt a = TsValid l \<Longrightarrow> operation_deadline now a s i \<le> l"
  by (auto simp: operation_deadline_def Let_def split: timestamp.split)

lemma finalOutput_bound: "length (finalOutput r state) \<le> maximumEventOutput"
  by (simp add: finalOutput_def Let_def limitBytes_length)

section \<open>Only what the panel signed\<close>

text \<open>
  C6: A rescue action runs only for a signed instruction, within its time, and once. When an operation is started on a
  machine with a local trust pin, the helper was authorized; a signature under a pinned control-plane key vouches for an
  instruction of type \<open>rescue:v1\<close> whose body is exactly the session that is carried out, and what the assignment says
  beside it agrees; the deadline is no later than the lease, the signed session and the expiry of the signature allow.
  After that the record of nonces may go through any history (verifications of other instructions, restarts of the helper,
  failing calls): as long as it has room for its 4096 entries and the clock has not passed the expiry of the instruction,
  an assignment with the same nonce, in the same envelope or another one, starts nothing and leaves the machine as it is.
\<close>

theorem rescue_action_vouched:
  fixes w w' :: "('v, 'r) operation_world"
  assumes "codec_ok (ow_renc w) (ow_rdec w)"
    and X: "execute w gate1 gate2 (Some a) h rd m = (x, h1, rd1, m1)" and S: "xe_started x = Some (s, deadline)"
    and "env_tmp (ow_env w) \<noteq> rg_path (he_replayGuard h)" and "distinct (map fst (rg_entries (he_replayGuard h1)))"
    and "length (rg_entries (he_replayGuard h1)) + length later < maximumEntries"
    and "rg_run (ow_renc w) (ow_rdec w) later (he_replayGuard h1, rd1) = (g, rd2)"
    and files: "\<forall>y \<in> set ((ow_env w', RRestart) # later). env_tmp (fst y) \<noteq> rg_path (he_replayGuard h)"
    and same: "ow_renc w' = ow_renc w" "ow_rdec w' = ow_rdec w" "he_replayGuard h2 = g"
    and again: "execute w' gate1' gate2' (Some a') h2 rd2 m2 = (x', h3, rd3, m3)"
      "as_Envelope a' = Some env'" "ow_unm w' (se_Payload env') = Some ins'"
  shows "(he_hostTrust h = None \<or> gate1) \<and>
    (\<exists>env ins. as_Envelope a = Some env \<and> ow_unm w (se_Payload env) = Some ins \<and>
      si_InstructionType ins = ''rescue:v1'' \<and> ow_session w (si_Body ins) = Some s \<and> mirrors a s \<and>
      (\<exists>sg \<in> set (se_Signatures env). vouched (ow_ed w) (New (rescue_identity h) None) (env_now (ow_env w)) (se_Payload env) sg) \<and>
      (\<forall>t. si_ExpiresAt ins = TsValid t \<or> rs_DeadlineAt s = TsValid t \<or> as_LeaseExpiresAt a = TsValid t \<longrightarrow> deadline \<le> t) \<and>
      ((\<forall>y \<in> set ((ow_env w', RRestart) # later). env_now (fst y) \<le> timeOrZero (si_ExpiresAt ins)) \<and>
        TrimSpace (si_Nonce ins') = TrimSpace (si_Nonce ins) \<longrightarrow> xe_started x' = None \<and> xe_event x' = None \<and> m3 = m2))"
proof -
  from execute_started [OF X S] obtain i where g: "he_hostTrust h = None \<or> gate1"
    and A: "verifyRescueAssignment (ow_ed w) (ow_unm w) (ow_session w) (ow_renc w) (ow_rdec w) (ow_env w) (Some a) h rd = (Inr s, h1, rd1)"
    and i: "ow_unm w (case as_Envelope a of None \<Rightarrow> [] | Some env \<Rightarrow> se_Payload env) = Some i"
    and dl: "deadline = operation_deadline (env_now (ow_env w)) a s i"
    by blast
  from A obtain identity env v g' ins where
    I: "identity = (if AgentID (rescue_identity h) = [] then (rescue_identity h)\<lparr>AgentID := he_agentID h\<rparr> else rescue_identity h)"
      "as_Envelope a = Some env" "v_replay v = Some g'" "h1 = h\<lparr>he_identity := rescue_identity h, he_replayGuard := g'\<rparr>"
      "in_InstructionType ins = ''rescue:v1''" "ow_session w (in_Body ins) = Some s" "mirrors a s"
    and V: "Verify (ow_ed w) (ow_unm w) (ow_renc w) (ow_rdec w) (ow_env w) (Some env) (New identity (Some (he_replayGuard h))) rd = (Inr ins, v, rd1)"
    by (elim verifyRescueAssignment_Inr) auto
  from V obtain j k where J: "Verify_checks (ow_ed w) (ow_unm w) (New identity (Some (he_replayGuard h))) (env_now (ow_env w)) (Some env) = Inr (j, k)"
      "ins = instruction_of j k" by (elim Verify_Inr) auto
  then have j: "ow_unm w (se_Payload env) = Some j"
      "1 \<le> length (filter (vouched (ow_ed w) (New identity (Some (he_replayGuard h))) (env_now (ow_env w)) (se_Payload env)) (se_Signatures env))"
    using verifySignatures_vouched [of "ow_ed w" "New identity (Some (he_replayGuard h))" "env_now (ow_env w)" "se_Payload env" "se_Signatures env" k]
    by (auto simp: Verify_checks_Inr required_def)
  have ij: "i = j" using i j(1) I(2) by simp
  have "vouched (ow_ed w) (New identity (Some (he_replayGuard h))) t p = vouched (ow_ed w) (New (rescue_identity h) None) t p" for t p
    by (rule ext) (simp add: vouched_def New_def I(1))
  from j(2) [unfolded this] have "filter (vouched (ow_ed w) (New (rescue_identity h) None) (env_now (ow_env w)) (se_Payload env)) (se_Signatures env) \<noteq> []"
    by auto
  then have sg: "\<exists>sg \<in> set (se_Signatures env). vouched (ow_ed w) (New (rescue_identity h) None) (env_now (ow_env w)) (se_Payload env) sg"
    by (auto simp: filter_empty_conv)
  have unstarted: "xe_started x' = None"
    if now: "\<forall>y \<in> set ((ow_env w', RRestart) # later). env_now (fst y) \<le> timeOrZero (si_ExpiresAt j)"
      and nonce: "TrimSpace (si_Nonce ins') = TrimSpace (si_Nonce j)"
  proof (rule ccontr)
    assume "xe_started x' \<noteq> None"
    then obtain s' d' where "xe_started x' = Some (s', d')" by auto
    from execute_started [OF again(1) this]
    have "verifyRescueAssignment (ow_ed w') (ow_unm w') (ow_session w') (ow_renc w) (ow_rdec w) (ow_env w') (Some a') h2 rd2 = (Inr s', h3, rd3)"
      unfolding same by auto
    then obtain identity' v' i' where
      W: "Verify (ow_ed w') (ow_unm w') (ow_renc w) (ow_rdec w) (ow_env w') (Some env') (New identity' (Some g)) rd2 = (Inr i', v', rd3)"
      using again(2) same(3) by (elim verifyRescueAssignment_Inr) auto
    then obtain j' k' where "i' = instruction_of j' k'" "ow_unm w' (se_Payload env') = Some j'"
      by (elim Verify_Inr) (auto simp: Verify_checks_Inr)
    with J(2) again(3) nonce have n: "TrimSpace (in_Nonce i') = TrimSpace (in_Nonce ins)" by simp
    have "v_replay (New identity (Some (he_replayGuard h))) = Some (he_replayGuard h)" "v_replay (New identity' (Some g)) = Some g"
      by (simp_all add: New_def)
    moreover have "env_now (ow_env w') \<le> in_ExpiresAt ins" "env_tmp (ow_env w') \<noteq> rg_path (he_replayGuard h)"
      "\<forall>y \<in> set later. env_now (fst y) \<le> in_ExpiresAt ins \<and> env_tmp (fst y) \<noteq> rg_path (he_replayGuard h)"
      using now files J(2) by simp_all
    moreover have "distinct (map fst (rg_entries g'))" "length (rg_entries g') + length later < maximumEntries"
      "rg_run (ow_renc w) (ow_rdec w) later (g', rd1) = (g, rd2)" using assms(5-7) I(4) by simp_all
    ultimately show False
      using Verify_later_nonce [OF assms(1) V _ I(3) _ _ assms(4) _ _ _ _ W] n by blast
  qed
  have "deadline \<le> t" if "si_ExpiresAt j = TsValid t \<or> rs_DeadlineAt s = TsValid t \<or> as_LeaseExpiresAt a = TsValid t" for t
    using that operation_deadline_le [where i = j and a = a and s = s] unfolding dl ij by blast
  moreover have "xe_started x' = None \<and> xe_event x' = None \<and> m3 = m2"
    if "\<forall>y \<in> set ((ow_env w', RRestart) # later). env_now (fst y) \<le> timeOrZero (si_ExpiresAt j)"
      "TrimSpace (si_Nonce ins') = TrimSpace (si_Nonce j)"
    using unstarted [OF that] unstarted_changes_nothing [OF again(1)] by simp
  ultimately show ?thesis using g I(2,5,6,7) j(1) J(2) sg by auto
qed

section \<open>The pins win\<close>


section \<open>The instance identifier\<close>

definition instance_file :: "bytes \<Rightarrow> bytes node" where
  "instance_file c = Regular (Some c) mode_0600 (-1, -1)"

interpretation iw: atomic_writer instance_pre "\<lambda>_. []" instance_file
  by unfold_locales (auto simp: instance_pre_def instance_file_def)

text \<open>
  The helper keeps its name. An identifier that \<open>loadOrCreateInstanceID\<close> returns is the one it returns ever after, as
  long as the file stays and can be read; and whichever calls fail, at every instant of its creation the file is
  absent or complete, so that a crash cannot leave an identifier that a later start refuses.
\<close>

theorem instance_id_stable:
  assumes fresh: "valid fresh" "TrimSpace (fresh @ [CHR 0x0A]) = fresh" and "env_tmp e \<noteq> p"
    and L: "loadOrCreateInstanceID valid fresh e p d = (Inr v, d')"
    and later: "d'' p = d' p" "\<not> env_faults e' (ReadFile p)"
  shows "valid v \<and> loadOrCreateInstanceID valid fresh' e' p d'' = (Inr v, d'') \<and>
    (\<forall>d3 \<in> set (trace (env_faults e) (instance_pre (env_tmp e) p (fresh @ [CHR 0x0A]) @ Rename (env_tmp e) p # []) d).
       d3 p = d p \<or> d3 p = Some (instance_file (fresh @ [CHR 0x0A])))"
proof (intro conjI)
  show "\<forall>d3 \<in> set (trace (env_faults e) (instance_pre (env_tmp e) p (fresh @ [CHR 0x0A]) @ Rename (env_tmp e) p # []) d).
       d3 p = d p \<or> d3 p = Some (instance_file (fresh @ [CHR 0x0A]))"
    by (intro ballI) (rule iw.crash_atomic [OF assms(3)])
  have "\<exists>c. d' p = Some (Regular (Some c) mode_0600 (-1, -1)) \<and> TrimSpace c = v \<and> valid v \<or>
      (\<exists>c' m o'. d' p = Some (Regular (Some c') m o') \<and> TrimSpace c' = v \<and> valid v)"
  proof (cases "read_file (env_faults e) p d")
    case (Inl err)
    with L have "\<exists>r. instance_write e p (fresh @ [CHR 0x0A]) d = (None, d') \<and> v = fresh"
      by (auto simp: loadOrCreateInstanceID_def split: read_result.splits if_splits prod.splits option.splits)
    then have "d' p = Some (instance_file (fresh @ [CHR 0x0A]))" "v = fresh"
      using iw.run_destination [OF assms(3)] by (auto simp: instance_write_def)
    then show ?thesis using fresh by (auto simp: instance_file_def)
  next
    case (Inr c)
    then show ?thesis using L
      by (auto simp: loadOrCreateInstanceID_def read_file_def split: option.splits if_splits node.splits)
  qed
  then obtain c m ow where "d' p = Some (Regular (Some c) m ow)" "TrimSpace c = v" "valid v" by auto
  then show "valid v" "loadOrCreateInstanceID valid fresh' e' p d'' = (Inr v, d'')"
    using later by (simp_all add: loadOrCreateInstanceID_def read_file_def)
qed

section \<open>A pinned helper and a signed action\<close>

definition pinned_manifest :: Manifest where
  "pinned_manifest = sample_manifest\<lparr>ServiceName := ''svc'', CredentialsFile := ''/c''\<rparr>"

definition pinned_identity :: Identity where
  "pinned_identity = Identity_zero\<lparr>AgentID := ''a1'', Endpoint := ''https://p'', AccessToken := ''t'', PolicyRequireAll := True\<rparr>"

definition pinned_world :: helper_world where
  "pinned_world = \<lparr>hw_root = demo_root, hw_fs = demo_fs, hw_store = Inl ReadCredentials, hw_identity = (\<lambda>_. Some pinned_identity),
     hw_manifest = (\<lambda>_. Some (pinned_manifest, [])), hw_trust = (\<lambda>_. Some (sample_trust, [])), hw_access = (\<lambda>_. None),
     hw_url = (\<lambda>_. Some \<lparr>u_Scheme = ''https'', u_Host = ''p'', u_Hostname = ''p'', u_User = False, u_RawQuery = [], u_Fragment = []\<rparr>),
     hw_configDir = None, hw_replayDefault = ''/r''\<rparr>"

definition pinned_config :: helper_config where
  "pinned_config = \<lparr>cf_HostManifest = ''/m'', cf_Endpoint = ''http://other'', cf_Token = [], cf_AgentID = ''a2'', cf_InstanceIDPath = ''/i'',
     cf_Version = ''1'', cf_IgnoreUnsafeCert = True, cf_CFAccessClientID = [], cf_CFAccessClientSecret = [],
     cf_CredentialsFile = ''/c'', cf_ReplayFile = [], cf_Action = sample_action_config\<rparr>"

lemma pinned_reads:
  "ReadManifest demo_fs (\<lambda>_. Some (pinned_manifest, [])) ''/m'' = Inr (pinned_manifest\<lparr>ManifestPath := ''/m''\<rparr>)"
  "ReadTrust demo_fs (\<lambda>_. Some (sample_trust, [])) (hw_url pinned_world) (pinned_manifest\<lparr>ManifestPath := ''/m''\<rparr>) = Inr sample_trust"
  "ReadCandidate demo_root ''/c'' = Inr []"
proof -
  show "ReadManifest demo_fs (\<lambda>_. Some (pinned_manifest, [])) ''/m'' = Inr (pinned_manifest\<lparr>ManifestPath := ''/m''\<rparr>)"
    by (simp add: ReadManifest_def ReadJSON_def demo_fs_def pinned_manifest_def sample_manifest_def root_stat_trusted IsAbs_def
        rebase_def Let_def)
  have "TrustPath (pinned_manifest\<lparr>ManifestPath := ''/m''\<rparr>) = ''/k/svc.trust.json''"
    by (simp add: TrustPath_def pinned_manifest_def sample_manifest_def Dir_def Clean_def components_def render_def IsAbs_def)
  moreover have "key_ok (sample_pin ''k1'')" by (simp add: key_ok_def sample_pin_def)
  ultimately show "ReadTrust demo_fs (\<lambda>_. Some (sample_trust, [])) (hw_url pinned_world) (pinned_manifest\<lparr>ManifestPath := ''/m''\<rparr>) = Inr sample_trust"
    by (simp add: ReadTrust_def ReadJSON_def demo_fs_def root_stat_trusted IsAbs_def Trust_Validate_def sample_trust_def
        pinned_world_def ValidService_def service_char_def pinned_manifest_def starts_with_def)
  have "IsAbs ''/c''" "Clean ''/c'' = ''/c''" "split_at sep (TrimPrefix ''/c'' ''/'') = [''c'']"
    by (simp_all add: IsAbs_def Clean_def components_def render_def TrimPrefix_def starts_with_def)
  then show "ReadCandidate demo_root ''/c'' = Inr []" by (simp add: ReadCandidate_def demo_root_def openat_def)
qed


lemma instance_id_stable_witness:
  "\<exists>d1. loadOrCreateInstanceID (\<lambda>s. s = ''u1'') ''u1'' (quiet_env ''t'' 0) ''/i'' Map.empty = (Inr ''u1'', d1) \<and>
     loadOrCreateInstanceID (\<lambda>s. s = ''u1'') ''u2'' (quiet_env ''t'' 0) ''/i'' d1 = (Inr ''u1'', d1)"
proof -
  have t: "TrimSpace (''u1'' @ [CHR 0x0A]) = ''u1''" by (simp add: TrimSpace_def strip.simps space_runes_def starts_with_def)
  obtain d1 where L: "loadOrCreateInstanceID (\<lambda>s. s = ''u1'') ''u1'' (quiet_env ''t'' 0) ''/i'' Map.empty = (Inr ''u1'', d1)"
    by (simp add: loadOrCreateInstanceID_def read_file_def quiet_env_def instance_write_def instance_pre_def run_deferred_def op_fails_def)
  have "env_tmp (quiet_env ''t'' 0 :: bytes env) \<noteq> ''/i''" "\<not> env_faults (quiet_env ''t'' 0 :: bytes env) (ReadFile ''/i'')"
    by (simp_all add: quiet_env_def)
  from instance_id_stable [where valid = "\<lambda>s. s = ''u1''" and fresh = "''u1''" and fresh' = "''u2''" and d'' = d1, OF refl t this(1) L refl this(2)] L
  show ?thesis by blast
qed

definition signed_shutdown :: rescue_session where
  "signed_shutdown = \<lparr>rs_SessionId = ''s1'', rs_Action = Shutdown, rs_Arguments = [], rs_SshPort = None, rs_DeadlineAt = TsValid 500,
     rs_State = OtherOperation 1\<rparr>"

abbreviation rescue_instruction :: SignedInstruction where
  "rescue_instruction \<equiv> sample_instruction\<lparr>si_InstructionType := ''rescue:v1''\<rparr>"

definition shutdown_world :: "gotime \<Rightarrow> (bool, nonces) operation_world" where
  "shutdown_world now = \<lparr>ow_ed = sample_ed, ow_unm = (\<lambda>_. Some rescue_instruction), ow_session = (\<lambda>_. Some signed_shutdown),
     ow_renc = Some, ow_rdec = (\<lambda>m. Some (Some m)), ow_env = quiet_env ''t'' now, ow_facts = sample_facts, ow_calls = nft_machine,
     ow_background = nft_machine, ow_end = \<lparr>oe_cancelledByServer = False, oe_cancelled = False, oe_finished = 11\<rparr>,
     ow_response = Inr 1\<rparr>"

definition shutdown_assignment :: rescue_assignment where
  "shutdown_assignment = \<lparr>as_AssignmentId = ''x'', as_Session = None, as_Envelope = Some sample_envelope, as_LeaseExpiresAt = TsAbsent\<rparr>"

definition pinned_helper :: rescue_helper where
  "pinned_helper = \<lparr>he_manifest = Some pinned_manifest, he_hostTrust = Some sample_trust, he_token = ''t'', he_agentID = ''a1'',
     he_instanceID = ''id'', he_version = ''1'', he_cfAccessClientID = [], he_cfAccessClientSecret = [],
     he_action = sample_action_config, he_credStore = None,
     he_identity = Identity_zero\<lparr>AgentID := ''a1'', ControlPlaneKeys := [sample_pin ''k1''], PolicyMinimumSignatures := 1\<rparr>,
     he_replayGuard = sample_guard, he_baseURL = ''https://p'', he_insecure = False\<rparr>"

lemma shutdown_verified:
  "\<exists>g1 rd1. verifyRescueAssignment sample_ed (\<lambda>_. Some rescue_instruction) (\<lambda>_. Some signed_shutdown) Some (\<lambda>m. Some (Some m))
      (quiet_env ''t'' 10) (Some shutdown_assignment) pinned_helper Map.empty =
      (Inr signed_shutdown, pinned_helper\<lparr>he_replayGuard := g1\<rparr>, rd1) \<and> rg_entries g1 = [(''n1'', 1000)]"
proof -
  have v: "New (he_identity pinned_helper) (Some sample_guard) = sample_verifier 1" by (simp add: pinned_helper_def sample_verifier_def)
  have "Verify_checks sample_ed (\<lambda>_. Some sample_instruction) (sample_verifier 1) 10 (Some sample_envelope) = Inr (sample_instruction, ''k1'')"
    by (rule sample_checks) simp_all
  moreover have "checkBinding (sample_verifier 1) rescue_instruction 10 = checkBinding (sample_verifier 1) sample_instruction 10"
    by (simp add: sample_instruction_def checkBinding_def)
  ultimately have k: "Verify_checks sample_ed (\<lambda>_. Some rescue_instruction) (sample_verifier 1) 10 (Some sample_envelope) = Inr (rescue_instruction, ''k1'')"
    by (simp only: Verify_checks_Inr option.inject simp_thms)
  obtain g1 d1 where C: "Consume Some (\<lambda>m. Some (Some m)) (quiet_env ''t'' 10) ''n1'' 1000 sample_guard Map.empty
      = (None, g1, d1)" and g1: "rg_entries g1 = [(''n1'', 1000)]"
    by (simp add: sample_guard_def Consume_def Let_def TrimSpace_n1 rg_load_def quiet_env_def
      pruneLocked_def drop_excess_small persistLocked_def run_deferred_def rg_pre_def rg_post_def op_fails_def)
  have i: "rescue_identity pinned_helper = he_identity pinned_helper" "ControlPlaneKeys (he_identity pinned_helper) \<noteq> []"
    "AgentID (he_identity pinned_helper) = ''a1''" "he_replayGuard pinned_helper = sample_guard"
    by (simp_all add: rescue_identity_def pinned_helper_def)
  have q: "v_replay (sample_verifier 1) = Some sample_guard" "env_now (quiet_env ''t'' 10) = 10"
    by (simp_all add: sample_verifier_def quiet_env_def New_def)
  have V: "Verify sample_ed (\<lambda>_. Some rescue_instruction) Some (\<lambda>m. Some (Some m)) (quiet_env ''t'' 10) (Some sample_envelope) (sample_verifier 1) Map.empty =
      (Inr (instruction_of rescue_instruction ''k1''), (sample_verifier 1)\<lparr>v_replay := Some g1\<rparr>, d1)"
    unfolding Verify_def q k using C by (simp add: sample_instruction_def)
  have "pinned_helper\<lparr>he_identity := he_identity pinned_helper\<rparr> = pinned_helper" by simp
  then show ?thesis
    using V g1 by (simp add: verifyRescueAssignment_def shutdown_assignment_def i v session_of_def mirrors_def Let_def) blast
qed

lemma rescue_action_vouched_witness:
  "\<exists>x h1 rd1 m1 g rd2. execute (shutdown_world 10) True True (Some shutdown_assignment) pinned_helper Map.empty reachable_net = (x, h1, rd1, m1) \<and>
     xe_started x = Some (signed_shutdown, 500) \<and> ev_State (the (xe_event x)) = Succeeded \<and>
     rg_run Some (\<lambda>m. Some (Some m)) [(quiet_env ''t'' 12, RRestart), (quiet_env ''t'' 15, RConsume ''n2'' 50)] (he_replayGuard h1, rd1) = (g, rd2) \<and>
     xe_started (fst (execute (shutdown_world 20) True True (Some shutdown_assignment) (pinned_helper\<lparr>he_replayGuard := g\<rparr>) rd2 reachable_net)) = None"
proof -
  let ?later = "[(quiet_env ''t'' 12, RRestart), (quiet_env ''t'' 15, RConsume ''n2'' 50)]"
  let ?w = "shutdown_world 10"
  let ?w' = "shutdown_world 20"
  obtain g1 rd1 where V: "verifyRescueAssignment sample_ed (\<lambda>_. Some rescue_instruction) (\<lambda>_. Some signed_shutdown) Some (\<lambda>m. Some (Some m))
      (quiet_env ''t'' 10) (Some shutdown_assignment) pinned_helper Map.empty =
      (Inr signed_shutdown, pinned_helper\<lparr>he_replayGuard := g1\<rparr>, rd1)" and g1: "rg_entries g1 = [(''n1'', 1000)]"
    using shutdown_verified by blast
  have d: "operation_deadline 10 shutdown_assignment signed_shutdown rescue_instruction = 500"
    by (simp add: operation_deadline_def shutdown_assignment_def signed_shutdown_def deadlineForAssignment_def sample_instruction_def)
  obtain x m1 where X: "execute ?w True True (Some shutdown_assignment) pinned_helper Map.empty reachable_net =
      (x, pinned_helper\<lparr>he_replayGuard := g1\<rparr>, rd1, m1)" and S: "xe_started x = Some (signed_shutdown, 500)"
      and E: "ev_State (the (xe_event x)) = Succeeded"
  proof -
    have w: "ow_ed ?w = sample_ed" "ow_unm ?w = (\<lambda>_. Some rescue_instruction)" "ow_session ?w = (\<lambda>_. Some signed_shutdown)"
      "ow_renc ?w = Some" "ow_rdec ?w = (\<lambda>m. Some (Some m))" "ow_env ?w = quiet_env ''t'' 10" "env_now (quiet_env ''t'' 10) = 10"
      "ow_calls ?w = nft_machine" "ow_response ?w = Inr 1" "sr_root nft_machine"
      by (simp_all add: shutdown_world_def quiet_env_def nft_machine_def)
    have s: "rs_Action signed_shutdown = Shutdown" "rs_Arguments signed_shutdown = []" by (simp_all add: signed_shutdown_def)
    obtain r where r: "ExecuteAction nft_machine (ow_facts ?w) (he_action (pinned_helper\<lparr>he_replayGuard := g1\<rparr>)) Shutdown []
        (GetSshPort signed_shutdown) reachable_net = (Value r, reachable_net)"
      by (simp add: ExecuteAction_def preparePowerAction_def w give_def)
    obtain x m1 where C: "conclude ?w True True signed_shutdown 500 (Inr r) reachable_net = (x, m1)" by force
    have o: "operation_outcome (ow_end ?w) 500 (Inr r) = (Succeeded, None)" by (simp add: operation_outcome_def shutdown_world_def)
    have "ev_State (the (xe_event x)) = Succeeded"
      using C by (auto simp: conclude_def Let_def rescueEvent_def o reportEvent_def w split: option.splits prod.splits)
    moreover have "execute ?w True True (Some shutdown_assignment) pinned_helper Map.empty reachable_net =
        (x, pinned_helper\<lparr>he_replayGuard := g1\<rparr>, rd1, m1)"
      using C r by (simp add: execute_def w V s d Let_def) (simp add: pinned_helper_def)
    ultimately show thesis using that conclude_started [OF C] by blast
  qed
  have cod: "codec_ok (ow_renc ?w) (ow_rdec ?w)" by (simp add: codec_ok_def shutdown_world_def)
  have g: "rg_path (he_replayGuard pinned_helper) = ''d''" by (simp add: pinned_helper_def sample_guard_def)
  obtain g rd2 where R: "rg_run Some (\<lambda>m. Some (Some m)) ?later (he_replayGuard (pinned_helper\<lparr>he_replayGuard := g1\<rparr>), rd1) = (g, rd2)"
    by force
  then have R': "rg_run (ow_renc ?w) (ow_rdec ?w) ?later (he_replayGuard (pinned_helper\<lparr>he_replayGuard := g1\<rparr>), rd1) = (g, rd2)"
    by (simp only: shutdown_world_def operation_world.simps)
  obtain x' h3 rd3 m3 where again: "execute ?w' True True (Some shutdown_assignment) (pinned_helper\<lparr>he_replayGuard := g\<rparr>) rd2 reachable_net = (x', h3, rd3, m3)"
    by (metis prod_cases4)
  have e: "as_Envelope shutdown_assignment = Some sample_envelope" "ow_unm ?w' (se_Payload sample_envelope) = Some rescue_instruction"
    by (simp_all add: shutdown_assignment_def shutdown_world_def)
  have "xe_started x' = None"
    using rescue_action_vouched [OF cod X S _ _ _ R' _ _ _ _ again e] g g1 e(1)
    by (simp add: shutdown_world_def quiet_env_def sample_instruction_def)
  with X S E R again show ?thesis by fastforce
qed

end
