(* ===== verification/RescueRun.thy ===== *)
theory RescueRun
  imports RescueHelper
begin

text \<open>
  The rescue helper as a whole (\<open>Run\<close> of \<open>rescue/helper.go\<close>): its start, the rounds of its main loop and the watch beside
  them, as interleaving events on one machine with a local trust pin. What the parts guarantee together: a helper that is
  not authorized leaves no port open.
\<close>

section \<open>The helper\<close>

record ('v, 'r) helper_run =
  ru_watch :: "'v net watch"
  ru_helper :: rescue_helper
  ru_disk :: "'r disk"
  ru_after :: string

text \<open>
  The start of \<open>Run\<close> with a local trust: the directory of the status file, the closing of a window that an earlier process
  left, the first status, the watch; the result of the first reconciliation is only logged.
\<close>

definition start_run ::
  "'v net surroundings \<Rightarrow> helper_error option \<Rightarrow> gotime \<Rightarrow> helper_error + u64 \<times> path \<Rightarrow> int \<Rightarrow> bool \<Rightarrow>
     ('v, 'r) helper_run \<Rightarrow> ('v, 'r) helper_run" where
  "start_run e prepared now self pid notified s =
     (let m = wa_ssh (ru_watch s); down = (\<lambda>m'. s\<lparr>ru_watch := (ru_watch s)\<lparr>wa_ssh := m', wa_running := False, wa_authorized := False,
            wa_leaseReady := False\<rparr>\<rparr>) in
      if prepared \<noteq> None then down m
      else case CloseTemporarySSHAccess e m of
        (Value _, m1) \<Rightarrow>
          (case self of
             Inl _ \<Rightarrow> down m1
           | Inr _ \<Rightarrow>
               (case ReconcileTemporarySSHAccess e m1 of
                  (Dead, m2) \<Rightarrow> down m2
                | (_, m2) \<Rightarrow>
                    s\<lparr>ru_watch := publishHostStatus now self pid (watch_start notified (wa_status (ru_watch s)) m2), ru_after := []\<rparr>))
      | (_, m1) \<Rightarrow> down m1)"

text \<open>\<open>lease\<close>: the assignment the stream delivers, \<open>Inl\<close> for an error or the end of the stream.\<close>

definition lease :: "bool \<Rightarrow> bool \<Rightarrow> string + rescue_assignment option \<Rightarrow> string + rescue_assignment option" where
  "lease host gate response =
     (if host \<and> \<not> gate then Inl ''rescue authorization is withdrawn or unverifiable'' else response)"

text \<open>
  The round of the main loop up to its lease, and the round from the assignment on. The gates read the flag the watch
  writes.
\<close>

definition round_head :: "'v net surroundings \<Rightarrow> ('v, 'r) helper_run \<Rightarrow> ('v, 'r) helper_run" where
  "round_head e s =
     (let w = ru_watch s in
      if he_hostTrust (ru_helper s) \<noteq> None \<and> \<not> wa_authorized w then s
      else (case ReconcileTemporarySSHAccess e (wa_ssh w) of
              (r, m) \<Rightarrow> s\<lparr>ru_watch := (if r = Dead then w\<lparr>wa_ssh := m, wa_running := False, wa_authorized := False, wa_leaseReady := False\<rparr>
                  else w\<lparr>wa_ssh := m\<rparr>)\<rparr>))"

definition round_body ::
  "('v, 'r) operation_world \<Rightarrow> string + rescue_assignment option \<Rightarrow> ('v, 'r) helper_run \<Rightarrow> ('v, 'r) helper_run" where
  "round_body ow response s =
     (let w = ru_watch s; gate = wa_authorized w in
      case lease (he_hostTrust (ru_helper s) \<noteq> None) gate response of
        Inl _ \<Rightarrow> s
      | Inr None \<Rightarrow> s
      | Inr (Some a) \<Rightarrow>
          if as_Session a = None then s
          else
            (case execute ow gate gate (Some a) (ru_helper s) (ru_disk s) (wa_ssh w) of
               (x, h, rd, m) \<Rightarrow>
                 s\<lparr>ru_watch := (if xe_result x = Dead then w\<lparr>wa_ssh := m, wa_running := False, wa_authorized := False, wa_leaseReady := False\<rparr>
                     else w\<lparr>wa_ssh := m\<rparr>),
                   ru_helper := h, ru_disk := rd, ru_after := as_AssignmentId a\<rparr>))"

datatype ('v, 'r) helper_event =
    Start "helper_error option" gotime "helper_error + u64 \<times> path" int bool
  | Watched watch_event
  | Head
  | Body "('v, 'r) operation_world" "string + rescue_assignment option"

definition helper_step ::
  "watch_config \<Rightarrow> 'v net surroundings \<Rightarrow> ('v, 'r) helper_event \<Rightarrow> ('v, 'r) helper_run \<Rightarrow> ('v, 'r) helper_run" where
  "helper_step P e ev s =
     (case ev of
        Start prepared now self pid notified \<Rightarrow>
          if wa_running (ru_watch s) then s else start_run e prepared now self pid notified s
      | Watched wev \<Rightarrow> s\<lparr>ru_watch := watch_step P e wev (ru_watch s)\<rparr>
      | Head \<Rightarrow> if wa_running (ru_watch s) then round_head e s else s
      | Body ow response \<Rightarrow> if wa_running (ru_watch s) then round_body ow response s else s)"

fun helper_history ::
  "watch_config \<Rightarrow> 'v net surroundings \<Rightarrow> ('v, 'r) helper_event list \<Rightarrow> ('v, 'r) helper_run \<Rightarrow> ('v, 'r) helper_run" where
  "helper_history P e [] s = s"
| "helper_history P e (ev # evs) s = helper_history P e evs (helper_step P e ev s)"

section \<open>The window under the actions\<close>

text \<open>The rules of the window do not depend on the state file of the isolation.\<close>

definition blind :: "(nat \<Rightarrow> 'v net \<Rightarrow> mechanism \<Rightarrow> nat \<Rightarrow> nat) \<Rightarrow> bool" where
  "blind R \<longleftrightarrow> (\<forall>t w f mech p. R t (w\<lparr>nt_state := f\<rparr>) mech p = R t w mech p)"

lemma calms_isolation [simp]:
  assumes "firewall_ok e R" and "blind R"
  shows "calms R (saveIsolationState e st)" "calms R (removeIsolationState e)" "calms R (networkIsolationStatus e)"
proof -
  have p: "lower R m (put_isolation f (tick m))" for m f
    using tick_lower [OF assms(1), of m] assms(2) by (simp add: lower_def put_isolation_def blind_def)
  then show "calms R (saveIsolationState e st)" "calms R (removeIsolationState e)" "calms R (networkIsolationStatus e)"
    using tick_lower [OF assms(1)]
    by (auto simp: calms_def saveIsolationState_def removeIsolationState_def networkIsolationStatus_def Let_def split: fate.split)
qed

lemma no_rule [simp]:
  "delete_isolation \<noteq> rule_command mech p" "[''nft'', ''-c'', ''-f'', s] \<noteq> rule_command mech p"
  "[''nft'', ''-f'', s] \<noteq> rule_command mech p"
  "[''systemctl'', verb] \<noteq> rule_command mech p" "[''systemctl'', ''restart'', service] \<noteq> rule_command mech p"
  by (cases mech; simp add: rule_command_def nft_element_def iptables_rule_def delete_isolation_def)+

lemma calms_after:
  fixes e :: "'v net surroundings"
  assumes "firewall_ok e R" and "blind R"
  shows "calms R (after_report e e pid a)"
proof -
  note c = calms_and_then calms_attempt calms_command [OF assms(1)]
  have d: "calms R (deleteNftIsolation e)" unfolding deleteNftIsolation_def using assms by (auto intro!: c)
  have "calms R (applyNftScript e e pid script)" for script
    unfolding applyNftScript_def using assms d by (auto intro!: c)
  then show ?thesis
    unfolding after_report_def using assms by (cases a) (auto intro!: c split: sum.split)
qed

lemma calms_action:
  fixes e :: "'v net surroundings"
  assumes "firewall_ok e R" and "blind R" and "action \<noteq> TemporarySSHAccess" and "action \<noteq> RevokeTemporarySSHAccess"
  shows "calms R (ExecuteAction e fa cfg action arguments port)"
proof -
  note c = calms_and_then calms_attempt calms_command [OF assms(1)]
  have d: "calms R (deleteNftIsolation e)" unfolding deleteNftIsolation_def using assms by (auto intro!: c)
  have "calms R (ensureNoActiveIsolation e)" unfolding ensureNoActiveIsolation_def using assms by (auto intro!: c)
  then show ?thesis
    using assms d
    by (cases action)
      (auto simp: ExecuteAction_def performanceDiagnostics_def preparePowerAction_def prepareAgentRestart_def Let_def restoreNetwork_def
        prepareInterfaceIsolation_def prepareControlPlaneIsolation_def intro!: c split: sum.split)
qed

lemma action_window:
  fixes e :: "'v net surroundings"
  assumes ok: "firewall_ok e R" "blind R" and o: "orderly e" and inv: "window_inv e R m" and "\<not> straddles e m"
  shows "window_inv e R (snd (ExecuteAction e fa cfg action arguments port m))"
proof (cases "arguments = [] \<and> (action = TemporarySSHAccess \<or> action = RevokeTemporarySSHAccess)")
  case True
  have s: "snd (and_then f (\<lambda>a. give (g a)) m) = snd (f m)" for f :: "('v net, 'a) call" and g :: "'a \<Rightarrow> ActionResult"
    by (simp add: and_then_def give_def split: prod.split result.split)
  show ?thesis
    using True grant_inv [OF ok(1) o inv assms(5)] revoke_inv [OF ok(1) o inv] by (auto simp: ExecuteAction_def s)
next
  case False
  then consider "arguments \<noteq> []" | "action \<noteq> TemporarySSHAccess" "action \<noteq> RevokeTemporarySSHAccess" by blast
  then show ?thesis
  proof cases
    case 1
    with inv show ?thesis by (simp add: no_remote_arguments)
  next
    case 2
    from calms_action [OF ok 2] have "lower R m (snd (ExecuteAction e fa cfg action arguments port m))" by (simp add: calms_def)
    with inv show ?thesis by (rule lower_inv [OF o])
  qed
qed

lemma execute_window:
  fixes ow :: "('v, 'r) operation_world"
  assumes ok: "firewall_ok e R" "blind R" and o: "orderly e" and inv: "window_inv e R m" and "\<not> straddles e m"
    and ow: "ow_calls ow = e" "ow_background ow = e" and X: "execute ow gate1 gate2 assignment h rd m = (x, h', rd', m')"
  shows "window_inv e R m'"
proof -
  have c: "window_inv e R (snd (conclude ow host gate2 s dl r m1))" if "window_inv e R m1" for host s dl r m1
  proof -
    have "window_inv e R (snd (after_report e e pid a m1))" for pid a
      using calms_after [OF ok] lower_inv [OF o that] by (simp add: calms_def)
    with that show ?thesis by (auto simp: conclude_def ow Let_def split: option.split prod.split) (metis snd_conv)+
  qed
  show ?thesis
  proof (cases rule: execute_cases [OF X, case_names unstarted started])
    case unstarted
    with inv show ?thesis by simp
  next
    case (started a i s r m1)
    have i: "window_inv e R m1"
      using action_window [OF ok o inv assms(5)] started(6) unfolding ow by (metis snd_conv)
    with started(7) c show ?thesis by (metis snd_conv)
  qed
qed

section \<open>Without authorization the port is closed\<close>

text \<open>
  The invariant of the run. \<open>safe\<close> speaks of the watch: the record covers every rule, and a running helper that is not
  authorized has none in force.
\<close>

definition safe :: "'w surroundings \<Rightarrow> (nat \<Rightarrow> 'w \<Rightarrow> mechanism \<Rightarrow> nat \<Rightarrow> nat) \<Rightarrow> 'w watch \<Rightarrow> bool" where
  "safe e R w \<longleftrightarrow> window_inv e R (wa_ssh w) \<and> (wa_running w \<and> \<not> wa_authorized w \<longrightarrow> closed R (wa_ssh w))"

lemma safe_update [simp]:
  "safe e R (w\<lparr>wa_stream := b, wa_nextRetry := t, wa_backoff := d\<rparr>) = safe e R w"
  "safe e R (w\<lparr>wa_stream := b, wa_token := s, wa_lastFrame := t\<rparr>) = safe e R w"
  "safe e R (w\<lparr>wa_stream := b, wa_token := s\<rparr>) = safe e R w"
  "safe e R (w\<lparr>wa_cursor := c, wa_lastFrame := t\<rparr>) = safe e R w"
  "safe e R (w\<lparr>wa_lastCheck := t\<rparr>) = safe e R w" "safe e R (w\<lparr>wa_lastLocal := t\<rparr>) = safe e R w"
  "safe e R (w\<lparr>wa_changes := b\<rparr>) = safe e R w" "safe e R (tick_publish now self pid w) = safe e R w"
  by (auto simp: safe_def tick_publish_def publishHostStatus_def split: sum.split)

lemma deny_safe:
  fixes e :: "'w surroundings"
  assumes ok: "firewall_ok e R" and o: "orderly e" and s: "safe e R w"
  shows "safe e R (deny e w)"
proof (cases "wa_authorized w")
  case False
  with s show ?thesis by (simp add: deny_quiet safe_def)
next
  case True
  from s have inv: "window_inv e R (wa_ssh w)" by (simp add: safe_def)
  obtain r m where c: "closeTemporarySSHAccess e True (wa_ssh w) = (r, m)" by force
  from close_inv [OF ok o inv, of True] c have "window_inv e R m" by simp
  moreover from ends_closed [OF close_shuts [OF ok o inv, of True]] c have "r = Dead \<or> closed R m" by simp
  ultimately show ?thesis using True c by (auto simp: deny_def Let_def CloseTemporarySSHAccess_def safe_def)
qed

lemma watch_step_safe:
  fixes e :: "'w surroundings"
  assumes ok: "firewall_ok e R" and o: "orderly e" and s: "safe e R w" and over: "ev = Over \<Longrightarrow> \<not> wa_authorized w"
  shows "safe e R (watch_step P e ev w)"
proof -
  note d = deny_safe [OF ok o]
  have dis: "safe e R (disconnect e now w')" if "safe e R w'" for now w'
    using d [OF that] by (simp add: disconnect_def Let_def)
  have hand: "safe e R (handoff P e now root w')" if "safe e R w'" for now root w'
    using that dis [OF that] by (simp add: handoff_def split: option.split)
  show ?thesis
  proof (cases "wa_running w")
    case True
    show ?thesis
    proof (cases ev)
      case Over
      with over s True show ?thesis by (simp add: watch_step_def watch_over_def deny_quiet safe_def)
    next
      case (Frame now f fs)
      have "safe e R (on_frame P e now f fs w)"
        unfolding on_frame_def Let_def using s dis [OF s] d
        by (simp split: frame.split sum.split) (auto simp: safe_def)
      then show ?thesis using s by (simp add: watch_step_def Frame)
    next
      case (Ticker now root1 root2 fs self pid)
      have 1: "safe e R (tick_credentials P e now root1 w)" using s hand by (simp add: tick_credentials_def)
      have 2: "safe e R w2" if "tick_connect P now root2 (tick_credentials P e now root1 w) = Some w2" for w2
        using that 1 by (auto simp: tick_connect_def split: if_splits option.splits)
      have 3: "safe e R (tick_policy P e now fs (tick_silence e now w2))" if "safe e R w2" for w2
      proof -
        have "safe e R (tick_silence e now w2)" using that dis by (simp add: tick_silence_def)
        then show ?thesis using d by (simp add: tick_policy_def Let_def)
      qed
      show ?thesis
        using 1 2 3 dis True by (auto simp: watch_step_def Ticker on_tick_def Let_def split: option.split)
    qed (use s hand True in \<open>simp_all add: watch_step_def\<close>)
  qed (use s in \<open>simp add: watch_step_def\<close>)
qed

text \<open>
  Whole calls interleave; the calls of a body run in the surroundings of the helper. No end of the loop while the helper is
  authorized, and no grant across the deadline of the window before it.
\<close>

definition undisturbed :: "'v net surroundings \<Rightarrow> ('v, 'r) helper_event \<Rightarrow> ('v, 'r) helper_run \<Rightarrow> bool" where
  "undisturbed e ev s \<longleftrightarrow>
     (case ev of
        Watched Over \<Rightarrow> \<not> wa_authorized (ru_watch s)
      | Body ow _ \<Rightarrow> ow_calls ow = e \<and> ow_background ow = e \<and> \<not> straddles e (wa_ssh (ru_watch s))
      | _ \<Rightarrow> True)"

fun undisturbed_history :: "watch_config \<Rightarrow> 'v net surroundings \<Rightarrow> ('v, 'r) helper_event list \<Rightarrow> ('v, 'r) helper_run \<Rightarrow> bool" where
  "undisturbed_history P e [] s = True"
| "undisturbed_history P e (ev # evs) s = (undisturbed e ev s \<and> undisturbed_history P e evs (helper_step P e ev s))"

lemma close_window:
  fixes e :: "'w surroundings"
  assumes "firewall_ok e R" and "orderly e" and "window_inv e R m"
  shows "window_inv e R (snd (CloseTemporarySSHAccess e m))" "window_inv e R (snd (ReconcileTemporarySSHAccess e m))"
    "fst (CloseTemporarySSHAccess e m) = Dead \<or> closed R (snd (CloseTemporarySSHAccess e m))"
  using close_inv [OF assms] ends_closed [OF close_shuts [OF assms, of True]]
  by (simp_all add: CloseTemporarySSHAccess_def ReconcileTemporarySSHAccess_def)

lemma reconcile_keeps_closed:
  fixes e :: "'w surroundings"
  assumes ok: "firewall_ok e R" and o: "orderly e" and inv: "window_inv e R m" and c: "closed R m"
  shows "fst (ReconcileTemporarySSHAccess e m) = Dead \<or> closed R (snd (ReconcileTemporarySSHAccess e m))"
proof (cases "case mc_file m of Saved st \<Rightarrow> sa_ExpiresAt st \<le> sr_clock e (Suc (mc_tick m)) | _ \<Rightarrow> True")
  case True
  then show ?thesis using ends_closed [OF close_shuts [OF ok o inv, of False]] by (simp add: ReconcileTemporarySSHAccess_def)
next
  case False
  then obtain st where "mc_file m = Saved st" "sr_clock e (Suc (mc_tick m)) < sa_ExpiresAt st" by (cases "mc_file m") auto
  from close_early [OF ok o inv this] have "snd (ReconcileTemporarySSHAccess e m) = tick (tick m) \<or> fst (ReconcileTemporarySSHAccess e m) = Dead"
    by (auto simp: ReconcileTemporarySSHAccess_def)
  moreover have "closed R (tick (tick m))" by (rule lower_closed [OF lower_closed [OF c tick_lower [OF ok]] tick_lower [OF ok]])
  ultimately show ?thesis by auto
qed

lemma execute_trust:
  assumes X: "execute w gate1 gate2 assignment h rd m = (x, h', rd', m')"
  shows "he_hostTrust h' = he_hostTrust h"
  by (cases rule: execute_cases [OF X, case_names unstarted started]) (auto dest: verify_trust)

definition run_inv :: "'v net surroundings \<Rightarrow> (nat \<Rightarrow> 'v net \<Rightarrow> mechanism \<Rightarrow> nat \<Rightarrow> nat) \<Rightarrow> ('v, 'r) helper_run \<Rightarrow> bool" where
  "run_inv e R s \<longleftrightarrow> safe e R (ru_watch s) \<and> he_hostTrust (ru_helper s) \<noteq> None"

lemma start_inv:
  fixes e :: "'v net surroundings"
  assumes ok: "firewall_ok e R" and o: "orderly e" and inv: "run_inv e R s"
  shows "run_inv e R (start_run e prepared now self pid notified s)"
proof -
  let ?m = "wa_ssh (ru_watch s)"
  from inv have w: "window_inv e R ?m" by (simp add: run_inv_def safe_def)
  obtain r m1 where c: "CloseTemporarySSHAccess e ?m = (r, m1)" by force
  from close_window [OF ok o w] c have w1: "window_inv e R m1" "r = Dead \<or> closed R m1" by simp_all
  obtain r2 m2 where d: "ReconcileTemporarySSHAccess e m1 = (r2, m2)" by force
  from close_window(2) [OF ok o w1(1)] d have w2: "window_inv e R m2" by simp
  have w3: "r2 = Dead \<or> closed R m2" if "r \<noteq> Dead" using reconcile_keeps_closed [OF ok o w1(1)] w1(2) d that by simp
  have p: "safe e R (publishHostStatus now x pid w') = safe e R w'" for w' :: "'v net watch" and x
    by (auto simp: safe_def publishHostStatus_def split: sum.split)
  have down: "safe e R ((ru_watch s)\<lparr>wa_ssh := m', wa_running := False, wa_authorized := False, wa_leaseReady := False\<rparr>)"
    if "window_inv e R m'" for m'
    using that by (simp add: safe_def)
  have up: "safe e R (watch_start notified st m2)" if "closed R m2" for st
    using w2 that by (simp add: safe_def watch_start_def)
  show ?thesis
    using inv w w1 w2 w3 down [OF w] down [OF w1(1)] down [OF w2] up
    by (cases r; cases r2) (auto simp: start_run_def Let_def c d run_inv_def p split: sum.split)
qed

lemma helper_step_inv:
  fixes e :: "'v net surroundings" and s :: "('v, 'r) helper_run"
  assumes ok: "firewall_ok e R" "blind R" and o: "orderly e" and inv: "run_inv e R s" and u: "undisturbed e ev s"
  shows "run_inv e R (helper_step P e ev s)"
proof (cases ev)
  case (Start prepared now self pid notified)
  with start_inv [OF ok(1) o inv] inv show ?thesis by (simp add: helper_step_def)
next
  case (Watched wev)
  have "safe e R (watch_step P e wev (ru_watch s))"
    by (rule watch_step_safe [OF ok(1) o]) (use inv u Watched in \<open>auto simp: run_inv_def undisturbed_def\<close>)
  with inv show ?thesis by (simp add: helper_step_def Watched run_inv_def)
next
  case Head
  have w: "window_inv e R (wa_ssh (ru_watch s))" using inv by (simp add: run_inv_def safe_def)
  from close_window(2) [OF ok(1) o w] inv show ?thesis
    by (auto simp: helper_step_def Head round_head_def Let_def run_inv_def safe_def split: prod.split)
next
  case (Body ow response)
  have w: "window_inv e R (wa_ssh (ru_watch s))" using inv by (simp add: run_inv_def safe_def)
  from u have b: "ow_calls ow = e" "ow_background ow = e" "\<not> straddles e (wa_ssh (ru_watch s))"
    by (simp_all add: undisturbed_def Body)
  show ?thesis
  proof (cases "wa_running (ru_watch s) \<and> wa_authorized (ru_watch s)")
    case True
    have "window_inv e R m" if "execute ow g1 g2 a (ru_helper s) (ru_disk s) (wa_ssh (ru_watch s)) = (x, h, rd, m)" for g1 g2 a x h rd m
      by (rule execute_window [OF ok o w b(3,1,2) that])
    moreover have "he_hostTrust h = he_hostTrust (ru_helper s)"
      if "execute ow g1 g2 a (ru_helper s) (ru_disk s) (wa_ssh (ru_watch s)) = (x, h, rd, m)" for g1 g2 a x h rd m
      by (rule execute_trust [OF that])
    ultimately show ?thesis using inv True
      by (auto simp: helper_step_def Body round_body_def Let_def run_inv_def safe_def split: sum.split option.split prod.split)
  next
    case False
    with inv show ?thesis
      by (auto simp: helper_step_def Body round_body_def Let_def run_inv_def lease_def)
  qed
qed

text \<open>
  C4: A rescue helper without authorization leaves no port open, while the machine behaves. Through any interleaving of
  starts, watch events (frames, silence, broken streams, credential changes, policy checks), rounds and assignments, the
  helper killed between any two steps: every rule of the helper that is in force is recorded with a deadline at most
  fifteen minutes ahead, and while a started helper is not authorized none is in force. The machine behaves when the
  removal of a rule in force succeeds (other calls may fail), a failed installation leaves no rule, \<open>nft\<close> is there and
  lists its table while an element is in force, nobody else adds rules, the state file is never
  torn and always readable, and the clock does not go back; the helper has a local trust pin, starts from a state in which an
  open rule is recorded, no deadline passes while a grant runs, and the loop does not end while it is authorized. Whole
  calls interleave here. The conditions matter: the findings at lines 93, 124, 228 and 617 of
  \<open>rescue/ssh_access_linux.go\<close>, at line 220 of \<open>host_authorization.go\<close> and at line 361 of \<open>helper.go\<close> show a port left open
  without one of them.
\<close>

theorem unauthorized_port_closed:
  fixes e :: "'v net surroundings" and s :: "('v, 'r) helper_run"
  assumes "firewall_ok e R" and "blind R" and "orderly e" and "he_hostTrust (ru_helper s) \<noteq> None"
    and "window_inv e R (wa_ssh (ru_watch s))" and "\<not> wa_running (ru_watch s)" and "undisturbed_history P e evs s"
  shows "let w = ru_watch (helper_history P e evs s) in
    (case mc_file (wa_ssh w) of
       NoFile \<Rightarrow> closed R (wa_ssh w)
     | Garbled \<Rightarrow> False
     | Saved st \<Rightarrow> covered R st (wa_ssh w) \<and> sa_ExpiresAt st \<le> sr_clock e (mc_tick (wa_ssh w)) + temporarySSHDuration) \<and>
    (wa_running w \<longrightarrow> closed R (wa_ssh w) \<or> wa_authorized w)"
proof -
  have "run_inv e R s" using assms(4-6) by (simp add: run_inv_def safe_def)
  then have "run_inv e R (helper_history P e evs s)"
    using assms(7) by (induction evs arbitrary: s) (simp_all add: helper_step_inv [OF assms(1-3)])
  then show ?thesis by (auto simp: run_inv_def safe_def window_inv_def Let_def split: saved.splits)
qed

section \<open>A helper on a machine with iptables\<close>

definition on_net :: "'v surroundings \<Rightarrow> 'v net surroundings" where
  "on_net e = \<lparr>sr_fate = sr_fate e, sr_readable = sr_readable e, sr_clock = sr_clock e, sr_look = sr_look e,
     sr_ask = (\<lambda>t args w. sr_ask e t args (nt_wall w)),
     sr_run = (\<lambda>t args w. (fst (sr_run e t args (nt_wall w)), w\<lparr>nt_wall := snd (sr_run e t args (nt_wall w))\<rparr>)),
     sr_daemon = sr_daemon e, sr_root = sr_root e\<rparr>"

lemma on_net_firewall: "firewall_ok e R \<Longrightarrow> firewall_ok (on_net e) (\<lambda>t w. R t (nt_wall w))"
  by (simp add: firewall_ok_def on_net_def)

lemma on_net_blind: "blind (\<lambda>t w. R t (nt_wall w))"
  by (simp add: blind_def)

abbreviation demo_e :: "string set surroundings" where
  "demo_e \<equiv> demo_machine (\<lambda>_. Succeeds) (\<lambda>t. int t * minute) (\<lambda>_ _. False)"

abbreviation net_rules :: "nat \<Rightarrow> string set net \<Rightarrow> mechanism \<Rightarrow> nat \<Rightarrow> nat" where
  "net_rules \<equiv> \<lambda>t w. demo_rules t (nt_wall w)"

definition left_open :: "string set net machine" where
  "left_open = \<lparr>mc_file = mc_file demo_open, mc_wall = \<lparr>nt_state = IsolationAbsent, nt_wall = mc_wall demo_open\<rparr>, mc_tick = mc_tick demo_open\<rparr>"

definition stopped_helper :: "(string set, unit) helper_run" where
  "stopped_helper = \<lparr>ru_watch = (watch_start True None left_open)\<lparr>wa_running := False\<rparr>, ru_helper = pinned_helper,
     ru_disk = Map.empty, ru_after = []\<rparr>"

lemma open_rules: "demo_rules t (mc_wall demo_open) mech p = (if mech = Iptables \<and> p = 22 then 1 else 0)"
proof -
  have "Itoa (int p) = Itoa 22 \<longleftrightarrow> p = 22" by (metis Itoa_inj of_nat_numeral)
  then show ?thesis by (simp only: demo_rules_def demo_open_def machine.simps singleton_iff)
qed

lemma unauthorized_port_closed_witness:
  "\<not> closed net_rules left_open \<and>
   wa_running (ru_watch (helper_history demo_config (on_net demo_e) [Start None 5 (Inr (9, ''/k/h'')) 7 True] stopped_helper)) \<and>
   closed net_rules (wa_ssh (ru_watch (helper_history demo_config (on_net demo_e) [Start None 5 (Inr (9, ''/k/h'')) 7 True] stopped_helper)))"
proof -
  let ?evs = "[Start None 5 (Inr (9, ''/k/h'')) 7 True] :: (string set, unit) helper_event list"
  let ?w = "ru_watch (helper_history demo_config (on_net demo_e) ?evs stopped_helper)"
  have c: "\<not> closed net_rules left_open"
    by (simp add: closed_def left_open_def open_rules)
  have o: "orderly (on_net demo_e)" using demo_orderly by (simp add: orderly_def on_net_def)
  have i: "window_inv (on_net demo_e) net_rules left_open"
  proof -
    obtain st where st: "mc_file left_open = Saved st" "sa_Mechanism st = Iptables" "sa_Port st = 22" "sa_ExpiresAt st = 21 * minute"
      "mc_tick left_open = 11"
      by (simp add: left_open_def demo_open_def)
    have "nt_wall (mc_wall left_open) = mc_wall demo_open" by (simp add: left_open_def)
    then have "covered net_rules st left_open" by (simp add: covered_def open_rules st)
    then show ?thesis
      by (simp add: window_inv_def st known_def) (simp add: on_net_def demo_machine_def temporarySSHDuration_def)
  qed
  have h: "he_hostTrust (ru_helper stopped_helper) \<noteq> None" "\<not> wa_running (ru_watch stopped_helper)" "wa_ssh (ru_watch stopped_helper) = left_open"
    by (simp_all add: stopped_helper_def pinned_helper_def watch_start_def)
  have u: "undisturbed_history demo_config (on_net demo_e) ?evs stopped_helper" by (simp add: undisturbed_def)
  obtain v t where close: "CloseTemporarySSHAccess (on_net demo_e) left_open = (Value (), \<lparr>mc_file = NoFile, mc_wall = v, mc_tick = t\<rparr>)"
    by (simp add: left_open_def demo_open_def on_net_def ssh_steps)
  have rec: "ReconcileTemporarySSHAccess (on_net demo_e) \<lparr>mc_file = NoFile, mc_wall = v, mc_tick = t\<rparr> =
      (Value (), \<lparr>mc_file = NoFile, mc_wall = v, mc_tick = Suc t\<rparr>)"
    by (simp add: on_net_def ssh_steps)
  have r: "wa_running ?w \<and> \<not> wa_authorized ?w"
    by (simp add: helper_step_def h(2) start_run_def h(3) close rec) (simp add: publishHostStatus_def watch_start_def)
  from unauthorized_port_closed [OF on_net_firewall [OF demo_firewall] on_net_blind o h(1) i [folded h(3)] h(2) u, unfolded Let_def] r c
  show ?thesis by blast
qed

section \<open>Beyond whole calls\<close>

definition watching :: "'w machine \<Rightarrow> 'w watch" where
  "watching m = (watch_start True None m)\<lparr>wa_authorized := True, wa_leaseReady := True, wa_stream := True\<rparr>"

text \<open>
  The loop ends while a window is open: the forced closing runs under the cancelled context, so that no command is started,
  but the state file is removed. The timer that fires later finds no state and leaves the rule alone.
\<close>

lemma shutdown_forgets_window:
  "let m = wa_ssh (watch_step P demo_e Over (watching demo_open)); m' = snd (CloseTemporarySSHAccess demo_e m)
   in mc_file m = NoFile \<and> demo_rules (mc_tick m) (mc_wall m) Iptables 22 = 1 \<and>
      mc_file m' = NoFile \<and> demo_rules (mc_tick m') (mc_wall m') Iptables 22 = 1"
  by (simp add: watch_step_def watching_def watch_start_def watch_over_def deny_def cancelled_def demo_open_def ssh_steps
      demo_rules_def)

text \<open>
  The authorization is withdrawn between the gate of \<open>execute\<close> and the grant: the closing of the watch finds nothing to close,
  and the grant opens the window of a helper that is not authorized any more.
\<close>

lemma revocation_races_grant:
  "let w = watch_step P demo_e (Frame 7 FrameError fs) (watching demo_idle);
       m = snd (grantTemporarySSHAccess demo_e [] 0 (wa_ssh w))
   in wa_running w \<and> \<not> wa_authorized w \<and> demo_rules (mc_tick m) (mc_wall m) Iptables 22 = 1"
  by (simp add: watch_step_def watching_def watch_start_def on_frame_def disconnect_def deny_def ssh_steps demo_rules_def)

end
