(* ===== verification/NetStatic.thy ===== *)
theory NetStatic
  imports Complex_Main Prelude
begin

text \<open>
  The traffic statistics (\<open>monitoring/netstatic/static.go\<close>): per network interface the bytes sent and received,
  as differences of the counters of the system. Differences are collected in a cache; a save sums the cache up
  into one entry of the store and writes the store to a file. A nil map and an empty map are both \<open>Map.empty\<close>:
  the operations modelled here never write to a nil map, since each one that writes initialises the maps
  first. \<open>ForceReplaceRecord\<close>, which can install a nil map, has no caller and is left out. A \<open>float64\<close>
  that JSON can hold is a rational; the rounding of its arithmetic and its conversion to an integer are fields
  of the environment. Every operation holds the lock throughout, so it is one step.
\<close>

section \<open>Data\<close>

record TrafficData =
  td_Timestamp :: u64
  td_Tx :: u64
  td_Rx :: u64

record NetStaticConfig =
  nc_DataPreserveDay :: rat
  nc_DetectInterval :: rat
  nc_SaveInterval :: rat
  nc_Nics :: "string list option"

record NetStatic =
  ns_Interfaces :: "string \<rightharpoonup> TrafficData list"
  ns_Config :: NetStaticConfig

record IOCounter =
  io_Name :: string
  io_BytesSent :: u64
  io_BytesRecv :: u64

text \<open>The variables of the package. The two tickers are the durations they were made with.\<close>

record netstate =
  st_store :: NetStatic
  st_cache :: "string \<rightharpoonup> TrafficData list"
  st_config :: NetStaticConfig
  st_last :: "string \<rightharpoonup> u64 \<times> u64"
  st_running :: bool
  st_tickers :: "duration \<times> duration"

definition no_config :: NetStaticConfig where
  "no_config = \<lparr>nc_DataPreserveDay = 0, nc_DetectInterval = 0, nc_SaveInterval = 0, nc_Nics = None\<rparr>"

definition package_start :: netstate where
  "package_start = \<lparr>st_store = \<lparr>ns_Interfaces = Map.empty, ns_Config = no_config\<rparr>, st_cache = Map.empty, st_config = no_config,
     st_last = Map.empty, st_running = False, st_tickers = (0, 0)\<rparr>"

text \<open>
  The files, by path, and the codec of \<open>encoding/json\<close>. The environment of one call: the clock, the rounding
  of floating-point arithmetic and its conversion, and which calls of the file system fail. \<open>nx_written\<close> is
  how much of its content a failing write leaves.
\<close>

type_synonym netdisk = "path \<rightharpoonup> bytes"

record json_codec =
  js_encode :: "NetStatic \<Rightarrow> bytes"
  js_decode :: "bytes \<Rightarrow> NetStatic option"

record netenv =
  nx_now :: gotime
  nx_round :: "rat \<Rightarrow> rat"
  nx_integer :: "rat \<Rightarrow> duration"
  nx_open_fails :: bool
  nx_read_fails :: bool
  nx_backup_fails :: bool
  nx_mkdir_fails :: bool
  nx_marshal_fails :: bool
  nx_written :: "nat option"
  nx_rename_fails :: bool

definition DefaultDataPreserveDay :: rat where "DefaultDataPreserveDay = 31"
definition DefaultDetectInterval :: rat where "DefaultDetectInterval = 2"
definition DefaultSaveInterval :: rat where "DefaultSaveInterval = 600"
definition SaveFilePath :: path where "SaveFilePath = ''./net_static.json''"

section \<open>Time\<close>

text \<open>\<open>uint64(t.Unix())\<close>: whole seconds since 1970, rounded down, at 64 bits.\<close>

definition unix_seconds :: "gotime \<Rightarrow> u64" where
  "unix_seconds t = word_of_int (t div second - 62135596800)"

definition nowUnix :: "netenv \<Rightarrow> u64" where
  "nowUnix e = unix_seconds (nx_now e)"

text \<open>\<open>time.Duration(x * float64(unit))\<close>, a product of floating-point numbers.\<close>

definition float_duration :: "netenv \<Rightarrow> rat \<Rightarrow> duration \<Rightarrow> duration" where
  "float_duration e x unit = nx_integer e (nx_round e (x * of_int unit))"

definition preserve_cutoff :: "netenv \<Rightarrow> NetStaticConfig \<Rightarrow> u64" where
  "preserve_cutoff e c =
     unix_seconds (nx_now e + int64 (- float_duration e (nx_round e (nc_DataPreserveDay c * 24)) (60 * minute)))"

section \<open>Operations\<close>

definition isNicAllowed :: "NetStaticConfig \<Rightarrow> string \<Rightarrow> bool" where
  "isNicAllowed c name = (case nc_Nics c of None \<Rightarrow> True | Some [] \<Rightarrow> True | Some nics \<Rightarrow> name \<in> set nics)"

definition configOrDefault :: "NetStaticConfig \<Rightarrow> NetStaticConfig" where
  "configOrDefault c = c\<lparr>
     nc_DataPreserveDay := if nc_DataPreserveDay c = 0 then DefaultDataPreserveDay else nc_DataPreserveDay c,
     nc_DetectInterval := if nc_DetectInterval c = 0 then DefaultDetectInterval else nc_DetectInterval c,
     nc_SaveInterval := if nc_SaveInterval c = 0 then DefaultSaveInterval else nc_SaveInterval c\<rparr>"

definition ensureInitLocked :: "netstate \<Rightarrow> netstate" where
  "ensureInitLocked s = s\<lparr>st_config := configOrDefault (st_config s)\<rparr>"

definition purge_interfaces :: "u64 \<Rightarrow> (string \<rightharpoonup> TrafficData list) \<Rightarrow> (string \<rightharpoonup> TrafficData list)" where
  "purge_interfaces cutoff m = (\<lambda>name. case m name of None \<Rightarrow> None
     | Some arr \<Rightarrow> (let kept = filter (\<lambda>td. cutoff \<le> td_Timestamp td) arr in if kept = [] then None else Some kept))"

definition purgeExpiredLocked :: "netenv \<Rightarrow> netstate \<Rightarrow> netstate" where
  "purgeExpiredLocked e s = s\<lparr>st_store := (st_store s)\<lparr>ns_Interfaces :=
     purge_interfaces (preserve_cutoff e (st_config s)) (ns_Interfaces (st_store s))\<rparr>\<rparr>"

definition loadFromFileLocked :: "json_codec \<Rightarrow> netenv \<Rightarrow> netstate \<Rightarrow> netdisk \<Rightarrow> bool \<times> netstate \<times> netdisk" where
  "loadFromFileLocked js e s d =
     (let fresh = (let s1 = ensureInitLocked s in s1\<lparr>st_store := (st_store s1)\<lparr>ns_Config := configOrDefault (st_config s1)\<rparr>\<rparr>)
      in if nx_open_fails e then (False, s, d)
      else case d SaveFilePath of
        None \<Rightarrow> (True, fresh, d)
      | Some data \<Rightarrow>
          if nx_read_fails e then (False, s, d)
          else if data = [] then (True, fresh, d)
          else (case js_decode js data of
            None \<Rightarrow> (True, fresh, if nx_backup_fails e then d
                      else d(SaveFilePath @ ''.bak'' \<mapsto> data, SaveFilePath := None))
          | Some ns \<Rightarrow> (True, purgeExpiredLocked e (ensureInitLocked (s\<lparr>st_store := ns, st_config := configOrDefault (ns_Config ns)\<rparr>)), d)))"

definition saveToFileLocked :: "json_codec \<Rightarrow> netenv \<Rightarrow> netstate \<Rightarrow> netdisk \<Rightarrow> bool \<times> netstate \<times> netdisk" where
  "saveToFileLocked js e s d =
     (if nx_mkdir_fails e then (False, s, d)
      else
        let s1 = s\<lparr>st_store := (st_store s)\<lparr>ns_Config := configOrDefault (st_config s)\<rparr>\<rparr>; tmp = SaveFilePath @ ''.tmp'' in
        if nx_marshal_fails e then (False, s1, d)
        else
          let b = js_encode js (st_store s1) in
          case nx_written e of
            Some n \<Rightarrow> (False, s1, d(tmp \<mapsto> take n b))
          | None \<Rightarrow>
              let d1 = d(tmp \<mapsto> b) in
              if nx_rename_fails e then (False, s1, d1) else (True, s1, d1(SaveFilePath \<mapsto> b, tmp := None)))"

definition safeDelta :: "u64 \<Rightarrow> u64 \<Rightarrow> u64" where
  "safeDelta cur prev = (if prev \<le> cur then cur - prev else 0)"

definition append_to :: "(string \<rightharpoonup> 'a list) \<Rightarrow> string \<Rightarrow> 'a list \<Rightarrow> (string \<rightharpoonup> 'a list)" where
  "append_to m name xs = m(name \<mapsto> (case m name of None \<Rightarrow> [] | Some ys \<Rightarrow> ys) @ xs)"

definition sample_counter :: "u64 \<Rightarrow> IOCounter \<Rightarrow> netstate \<Rightarrow> netstate" where
  "sample_counter ts io s =
     (let name = io_Name io; cur = (io_BytesSent io, io_BytesRecv io) in
      if \<not> isNicAllowed (st_config s) name then s
      else
        (case st_last s name of None \<Rightarrow> s
         | Some prev \<Rightarrow>
            (let dtx = safeDelta (fst cur) (fst prev); drx = safeDelta (snd cur) (snd prev) in
             if dtx > 0 \<or> drx > 0
             then s\<lparr>st_cache := append_to (st_cache s) name [\<lparr>td_Timestamp = ts, td_Tx = dtx, td_Rx = drx\<rparr>]\<rparr>
             else s))\<lparr>st_last := (st_last s)(name \<mapsto> cur)\<rparr>)"

definition sampleOnceLocked :: "netenv \<Rightarrow> IOCounter list option \<Rightarrow> netstate \<Rightarrow> netstate" where
  "sampleOnceLocked e ios s = (case ios of None \<Rightarrow> s | Some ios \<Rightarrow> fold (sample_counter (nowUnix e)) ios s)"

definition sum_tx :: "TrafficData list \<Rightarrow> u64" where
  "sum_tx arr = foldl (\<lambda>n td. n + td_Tx td) 0 arr"

definition sum_rx :: "TrafficData list \<Rightarrow> u64" where
  "sum_rx arr = foldl (\<lambda>n td. n + td_Rx td) 0 arr"

text \<open>The loop over the cache visits every interface once, in any order; each visit changes that interface only.\<close>

definition flush_interfaces :: "u64 \<Rightarrow> (string \<rightharpoonup> TrafficData list) \<Rightarrow> (string \<rightharpoonup> TrafficData list) \<Rightarrow> (string \<rightharpoonup> TrafficData list)" where
  "flush_interfaces ts cache m = (\<lambda>name. case cache name of None \<Rightarrow> m name
     | Some arr \<Rightarrow> if sum_tx arr > 0 \<or> sum_rx arr > 0
        then append_to m name [\<lparr>td_Timestamp = ts, td_Tx = sum_tx arr, td_Rx = sum_rx arr\<rparr>] name else m name)"

definition flushCacheLocked :: "u64 \<Rightarrow> netstate \<Rightarrow> netstate" where
  "flushCacheLocked ts s = s\<lparr>st_store := (st_store s)\<lparr>ns_Interfaces := flush_interfaces ts (st_cache s) (ns_Interfaces (st_store s))\<rparr>,
     st_cache := Map.empty\<rparr>"

text \<open>The two goroutines of \<open>startGoroutinesLocked\<close>: what one tick does. \<open>t\<close> is the time of the tick.\<close>

definition detect_tick :: "netenv \<Rightarrow> IOCounter list option \<Rightarrow> netstate \<Rightarrow> netstate" where
  "detect_tick e ios s = sampleOnceLocked e ios s"

definition save_tick :: "json_codec \<Rightarrow> netenv \<Rightarrow> gotime \<Rightarrow> netstate \<Rightarrow> netdisk \<Rightarrow> netstate \<times> netdisk" where
  "save_tick js e t s d = snd (saveToFileLocked js e (purgeExpiredLocked e (flushCacheLocked (unix_seconds t) s)) d)"

text \<open>
  \<open>NewTicker\<close> panics for a duration that is not positive; the process dies with the locks it holds.
\<close>

datatype start_result = Continues | Started | LoadFailed | TickerPanic

definition new_tickers :: "netenv \<Rightarrow> NetStaticConfig \<Rightarrow> (duration \<times> duration) option" where
  "new_tickers e c =
     (let detect = float_duration e (nc_DetectInterval c) second; save = float_duration e (nc_SaveInterval c) second in
      if detect \<le> 0 \<or> save \<le> 0 then None else Some (detect, save))"

definition StartOrContinue :: "json_codec \<Rightarrow> netenv \<Rightarrow> netstate \<Rightarrow> netdisk \<Rightarrow> start_result \<times> netstate \<times> netdisk" where
  "StartOrContinue js e s d =
     (if st_running s then (Continues, s, d)
      else
        case loadFromFileLocked js e (ensureInitLocked s) d of
          (False, s1, d1) \<Rightarrow> (LoadFailed, s1, d1)
        | (True, s1, d1) \<Rightarrow>
            (case new_tickers e (st_config s1) of
               None \<Rightarrow> (TickerPanic, s1, d1)
             | Some tickers \<Rightarrow> (Started, s1\<lparr>st_tickers := tickers, st_running := True\<rparr>, d1)))"

definition Clear :: "netstate \<Rightarrow> netstate" where
  "Clear s = (let s1 = ensureInitLocked s in
     s1\<lparr>st_store := (st_store s1)\<lparr>ns_Interfaces := Map.empty\<rparr>, st_cache := Map.empty, st_last := Map.empty\<rparr>)"

definition Stop :: "json_codec \<Rightarrow> netenv \<Rightarrow> netstate \<Rightarrow> netdisk \<Rightarrow> bool \<times> netstate \<times> netdisk" where
  "Stop js e s d =
     (if \<not> st_running s then (True, s, d)
      else saveToFileLocked js e (purgeExpiredLocked e (flushCacheLocked (nowUnix e) (s\<lparr>st_running := False\<rparr>))) d)"

text \<open>Whoever merges the new configuration gives zero for what stays as it is; no list of interfaces means the same.\<close>

definition merge_config :: "NetStaticConfig \<Rightarrow> NetStaticConfig \<Rightarrow> NetStaticConfig" where
  "merge_config new old = old\<lparr>
     nc_DataPreserveDay := if nc_DataPreserveDay new \<noteq> 0 then nc_DataPreserveDay new else nc_DataPreserveDay old,
     nc_DetectInterval := if nc_DetectInterval new \<noteq> 0 then nc_DetectInterval new else nc_DetectInterval old,
     nc_SaveInterval := if nc_SaveInterval new \<noteq> 0 then nc_SaveInterval new else nc_SaveInterval old,
     nc_Nics := case nc_Nics new of None \<Rightarrow> nc_Nics old | Some nics \<Rightarrow> Some nics\<rparr>"

definition drop_unlisted :: "NetStaticConfig \<Rightarrow> (string \<rightharpoonup> 'a) \<Rightarrow> (string \<rightharpoonup> 'a)" where
  "drop_unlisted c m = (case nc_Nics c of None \<Rightarrow> m | Some [] \<Rightarrow> m | Some nics \<Rightarrow> (\<lambda>name. if name \<in> set nics then m name else None))"

definition configured :: "NetStaticConfig \<Rightarrow> netstate \<Rightarrow> netstate" where
  "configured new s =
     (let s1 = ensureInitLocked s; cfg = configOrDefault (merge_config new (ns_Config (st_store s1))) in
      s1\<lparr>st_store := (st_store s1)\<lparr>ns_Config := cfg\<rparr>, st_config := cfg\<rparr>)"

definition retimed :: "(duration \<times> duration) option \<Rightarrow> netstate \<Rightarrow> netstate" where
  "retimed tickers s = (let cfg = st_config s in
     if st_running s
     then s\<lparr>st_tickers := the tickers, st_last := drop_unlisted cfg (st_last s), st_cache := drop_unlisted cfg (st_cache s)\<rparr>
     else s)"

definition SetNewConfig :: "json_codec \<Rightarrow> netenv \<Rightarrow> NetStaticConfig \<Rightarrow> netstate \<Rightarrow> netdisk \<Rightarrow> bool \<times> netstate \<times> netdisk" where
  "SetNewConfig js e new s d =
     (let s2 = configured new s; tickers = new_tickers e (st_config s2) in
      if st_running s2 \<and> tickers = None then (False, s2, d)
      else (case saveToFileLocked js e (retimed tickers s2) d of (saved, s4, d4) \<Rightarrow> (True, purgeExpiredLocked e s4, d4)))"

section \<open>What is reported\<close>

definition traffic_entries :: "(string \<rightharpoonup> TrafficData list) \<Rightarrow> string \<Rightarrow> TrafficData list" where
  "traffic_entries m name = (case m name of None \<Rightarrow> [] | Some arr \<Rightarrow> arr)"

definition GetNetStatic :: "netstate \<Rightarrow> NetStatic" where
  "GetNetStatic s = (let s1 = ensureInitLocked s; store = ns_Interfaces (st_store s1); cache = st_cache s1 in
     \<lparr>ns_Interfaces = (\<lambda>name. case cache name of None \<Rightarrow> store name
        | Some arr \<Rightarrow> Some (traffic_entries store name @ arr)),
      ns_Config = configOrDefault (st_config s1)\<rparr>)"

definition in_range :: "u64 \<Rightarrow> u64 \<Rightarrow> u64 \<Rightarrow> bool" where
  "in_range start until ts \<longleftrightarrow> (start = 0 \<or> start \<le> ts) \<and> (until = 0 \<or> ts \<le> until)"

definition GetNetStaticBetween :: "u64 \<Rightarrow> u64 \<Rightarrow> netstate \<Rightarrow> NetStatic" where
  "GetNetStaticBetween start until s =
     (let s1 = ensureInitLocked s; pick = (\<lambda>m name. filter (\<lambda>td. in_range start until (td_Timestamp td)) (traffic_entries m name)) in
      \<lparr>ns_Interfaces = (\<lambda>name. case pick (ns_Interfaces (st_store s1)) name @ pick (st_cache s1) name of [] \<Rightarrow> None | arr \<Rightarrow> Some arr),
       ns_Config = configOrDefault (st_config s1)\<rparr>)"

definition add_traffic :: "u64 \<Rightarrow> u64 \<Rightarrow> (u64 \<times> u64) option \<Rightarrow> (u64 \<times> u64) option" where
  "add_traffic tx rx cur = (case cur of None \<Rightarrow> Some (tx, rx) | Some (tx0, rx0) \<Rightarrow> Some (tx0 + tx, rx0 + rx))"

text \<open>
  The results are maps from interfaces to sums; their \<open>Timestamp\<close> stays zero and is left out. Each loop visits an
  interface once.
\<close>

definition add_entries :: "TrafficData list option \<Rightarrow> (u64 \<times> u64) option \<Rightarrow> (u64 \<times> u64) option" where
  "add_entries arr cur = (case arr of None \<Rightarrow> cur | Some arr \<Rightarrow> add_traffic (sum_tx arr) (sum_rx arr) cur)"

definition GetTotalTraffic :: "netstate \<Rightarrow> (string \<rightharpoonup> u64 \<times> u64)" where
  "GetTotalTraffic s = (\<lambda>name. add_entries (st_cache s name) (add_entries (ns_Interfaces (st_store s) name) None))"

definition add_between :: "u64 \<Rightarrow> u64 \<Rightarrow> TrafficData list option \<Rightarrow> (u64 \<times> u64) option \<Rightarrow> (u64 \<times> u64) option" where
  "add_between start until arr cur = (case arr of None \<Rightarrow> cur | Some arr \<Rightarrow>
     (let picked = filter (\<lambda>td. in_range start until (td_Timestamp td)) arr; tx = sum_tx picked; rx = sum_rx picked in
      if tx > 0 \<or> rx > 0 then add_traffic tx rx cur else cur))"

definition GetTotalTrafficBetween :: "u64 \<Rightarrow> u64 \<Rightarrow> netstate \<Rightarrow> (string \<rightharpoonup> u64 \<times> u64)" where
  "GetTotalTrafficBetween start until s =
     (\<lambda>name. add_between start until (st_cache s name) (add_between start until (ns_Interfaces (st_store s) name) None))"

section \<open>Histories\<close>

text \<open>
  What can happen, in any order: the two goroutines tick (a pending tick may still run after a stop), and the
  process stops, starts again and reconfigures the statistics.
\<close>

datatype net_event = Detect netenv "IOCounter list option" | Save netenv gotime | Stopping netenv | Starting netenv |
  Configure netenv NetStaticConfig

fun net_step :: "json_codec \<Rightarrow> net_event \<Rightarrow> netstate \<times> netdisk \<Rightarrow> netstate \<times> netdisk" where
  "net_step js (Detect e ios) (s, d) = (detect_tick e ios s, d)"
| "net_step js (Save e t) (s, d) = save_tick js e t s d"
| "net_step js (Stopping e) (s, d) = snd (Stop js e s d)"
| "net_step js (Starting e) (s, d) = snd (StartOrContinue js e s d)"
| "net_step js (Configure e c) (s, d) = snd (SetNewConfig js e c s d)"

abbreviation net_history :: "json_codec \<Rightarrow> net_event list \<Rightarrow> netstate \<times> netdisk \<Rightarrow> netstate \<times> netdisk" where
  "net_history js evs sd \<equiv> fold (net_step js) evs sd"

section \<open>Sums\<close>

lemma foldl_plus: "foldl (\<lambda>n td. n + f td) (a :: u64) xs = a + foldl (\<lambda>n td. n + f td) 0 xs"
proof (induction xs arbitrary: a)
  case (Cons x xs)
  show ?case using Cons.IH [of "a + f x"] Cons.IH [of "f x"] by (simp add: ac_simps)
qed simp

lemma sums_append [simp]:
  "sum_tx (xs @ ys) = sum_tx xs + sum_tx ys" "sum_rx (xs @ ys) = sum_rx xs + sum_rx ys"
  using foldl_plus [of td_Tx "sum_tx xs" ys] foldl_plus [of td_Rx "sum_rx xs" ys] by (simp_all add: sum_tx_def sum_rx_def)

lemma sums_small [simp]:
  "sum_tx [] = 0" "sum_rx [] = 0" "sum_tx [td] = td_Tx td" "sum_rx [td] = td_Rx td"
  by (simp_all add: sum_tx_def sum_rx_def)

definition reported_total :: "netstate \<Rightarrow> string \<Rightarrow> u64 \<times> u64" where
  "reported_total s name = (case GetTotalTraffic s name of None \<Rightarrow> (0, 0) | Some t \<Rightarrow> t)"

definition in_store :: "netstate \<Rightarrow> string \<Rightarrow> TrafficData list" where
  "in_store s name = traffic_entries (ns_Interfaces (st_store s)) name"

definition in_cache :: "netstate \<Rightarrow> string \<Rightarrow> TrafficData list" where
  "in_cache s name = traffic_entries (st_cache s) name"

lemma reported_sums:
  "reported_total s name = (sum_tx (in_store s name) + sum_tx (in_cache s name), sum_rx (in_store s name) + sum_rx (in_cache s name))"
  by (simp add: reported_total_def GetTotalTraffic_def add_entries_def add_traffic_def in_store_def in_cache_def traffic_entries_def
      split: option.splits)

section \<open>Readings\<close>

text \<open>
  What the counters of one interface say: the reference definition of the traffic between a first reading and
  the readings after it.
\<close>

fun growth :: "(u64 \<times> u64) option \<Rightarrow> (u64 \<times> u64) list \<Rightarrow> u64 \<times> u64" where
  "growth p [] = (0, 0)"
| "growth None (r # rs) = growth (Some r) rs"
| "growth (Some p) (r # rs) =
     (safeDelta (fst r) (fst p) + fst (growth (Some r) rs), safeDelta (snd r) (snd p) + snd (growth (Some r) rs))"

definition latest :: "(u64 \<times> u64) option \<Rightarrow> (u64 \<times> u64) list \<Rightarrow> (u64 \<times> u64) option" where
  "latest p rs = (if rs = [] then p else Some (last rs))"

fun readings :: "string \<Rightarrow> net_event \<Rightarrow> (u64 \<times> u64) list" where
  "readings name (Detect e (Some ios)) = [(io_BytesSent io, io_BytesRecv io). io \<leftarrow> ios, io_Name io = name]"
| "readings name _ = []"

definition plus2 :: "u64 \<times> u64 \<Rightarrow> u64 \<times> u64 \<Rightarrow> u64 \<times> u64" where
  "plus2 a b = (fst a + fst b, snd a + snd b)"

lemma plus2_laws [simp]:
  "plus2 (0, 0) b = b" "plus2 a (0, 0) = a" "plus2 (plus2 a b) c = plus2 a (plus2 b c)"
  by (simp_all add: plus2_def add.assoc)

lemma latest_laws [simp]:
  "latest p [] = p" "latest (latest p xs) ys = latest p (xs @ ys)" "latest p [r] = Some r" "latest p (r # rs) = latest (Some r) rs"
  by (auto simp: latest_def)

lemma growth_append: "growth p (xs @ ys) = plus2 (growth p xs) (growth (latest p xs) ys)"
  by (induction p xs rule: growth.induct) (simp_all add: plus2_def add.assoc)

lemma growth_Cons: "growth p (r # rs) = plus2 (growth p [r]) (growth (Some r) rs)"
  using growth_append [of p "[r]" rs] by simp

lemma growth_one: "growth p [r] = (case p of None \<Rightarrow> (0, 0) | Some p \<Rightarrow> (safeDelta (fst r) (fst p), safeDelta (snd r) (snd p)))"
  by (cases p) simp_all

lemma growth_monotone:
  assumes "sorted (map fst (p # rs))" "sorted (map snd (p # rs))"
  shows "growth (Some p) rs = (fst (last (p # rs)) - fst p, snd (last (p # rs)) - snd p)"
  using assms by (induction rs arbitrary: p) (auto simp: safeDelta_def)

section \<open>One operation\<close>

definition timely :: "u64 \<Rightarrow> netstate \<Rightarrow> string \<Rightarrow> bool" where
  "timely t0 s name \<longleftrightarrow> list_all (\<lambda>td. t0 \<le> td_Timestamp td) (in_store s name @ in_cache s name)"

lemma entries_append_to [simp]:
  "traffic_entries (append_to m n xs) name = (if n = name then traffic_entries m name @ xs else traffic_entries m name)"
  by (simp add: traffic_entries_def append_to_def)

lemma sample_counter_frame [simp]:
  "st_store (sample_counter ts io s) = st_store s" "st_config (sample_counter ts io s) = st_config s"
  "st_running (sample_counter ts io s) = st_running s"
  by (auto simp: sample_counter_def Let_def split: option.splits)

lemma sample_other:
  assumes "io_Name io \<noteq> name"
  shows "in_cache (sample_counter ts io s) name = in_cache s name" "st_last (sample_counter ts io s) name = st_last s name"
  using assms by (auto simp: sample_counter_def Let_def in_cache_def split: option.splits)

lemma sample_own:
  assumes "io_Name io = name" "isNicAllowed (st_config s) name" "r = (io_BytesSent io, io_BytesRecv io)"
  shows "st_last (sample_counter ts io s) name = Some r"
    and "plus2 (reported_total s name) (growth (st_last s name) [r]) = reported_total (sample_counter ts io s) name"
    and "timely t0 s name \<Longrightarrow> t0 \<le> ts \<Longrightarrow> timely t0 (sample_counter ts io s) name"
  using assms by (auto simp: sample_counter_def Let_def reported_sums in_store_def in_cache_def plus2_def timely_def growth_one
      word_gt_0 split: option.splits)

lemma counter_step:
  assumes "isNicAllowed (st_config s) name" "rs = (if io_Name io = name then [(io_BytesSent io, io_BytesRecv io)] else [])"
  shows "st_last (sample_counter ts io s) name = latest (st_last s name) rs \<and>
    reported_total (sample_counter ts io s) name = plus2 (reported_total s name) (growth (st_last s name) rs) \<and>
    (timely t0 s name \<longrightarrow> t0 \<le> ts \<longrightarrow> timely t0 (sample_counter ts io s) name)"
  using sample_own [of io name s, OF _ _ refl] sample_other [of io name ts s] assms
  by (cases "io_Name io = name") (simp_all add: reported_sums timely_def in_store_def)

lemma fold_sample:
  assumes "isNicAllowed (st_config s) name" "rs = [(io_BytesSent io, io_BytesRecv io). io \<leftarrow> ios, io_Name io = name]"
  shows "st_store (fold (sample_counter ts) ios s) = st_store s \<and> st_config (fold (sample_counter ts) ios s) = st_config s \<and>
    st_running (fold (sample_counter ts) ios s) = st_running s \<and>
    st_last (fold (sample_counter ts) ios s) name = latest (st_last s name) rs \<and>
    reported_total (fold (sample_counter ts) ios s) name = plus2 (reported_total s name) (growth (st_last s name) rs) \<and>
    (timely t0 s name \<longrightarrow> t0 \<le> ts \<longrightarrow> timely t0 (fold (sample_counter ts) ios s) name)"
  unfolding assms(2) using assms(1)
proof (induction ios arbitrary: s)
  case (Cons io ios)
  have "isNicAllowed (st_config (sample_counter ts io s)) name" using Cons.prems by simp
  note later = Cons.IH [OF this]
  show ?case
  proof (cases "io_Name io = name")
    case True
    note now = counter_step [OF Cons.prems refl, where io = io and ts = ts and ?t0.0 = t0, unfolded if_P [OF True]]
    show ?thesis using later now True unfolding growth_Cons [of _ _ "concat _"] by (simp add: growth_Cons [of _ _ "concat _"])
  next
    case False
    note now = counter_step [OF Cons.prems refl, where io = io and ts = ts and ?t0.0 = t0, unfolded if_not_P [OF False]]
    show ?thesis using later now False by simp
  qed
qed simp

lemma flush_step:
  "reported_total (flushCacheLocked ts s) name = reported_total s name" "st_last (flushCacheLocked ts s) = st_last s"
  "st_config (flushCacheLocked ts s) = st_config s" "st_running (flushCacheLocked ts s) = st_running s"
  "timely t0 s name \<Longrightarrow> t0 \<le> ts \<Longrightarrow> timely t0 (flushCacheLocked ts s) name"
  by (auto simp: flushCacheLocked_def flush_interfaces_def reported_sums in_store_def in_cache_def timely_def traffic_entries_def
      append_to_def word_gt_0 split: option.splits)

lemma filter_timely: "list_all (\<lambda>td. t0 \<le> td_Timestamp td) xs \<Longrightarrow> cutoff \<le> t0 \<Longrightarrow> filter (\<lambda>td. cutoff \<le> td_Timestamp td) xs = xs"
  by (induction xs) auto

lemma purge_entries:
  assumes "list_all (\<lambda>td. t0 \<le> td_Timestamp td) (traffic_entries m name)" "cutoff \<le> t0"
  shows "traffic_entries (purge_interfaces cutoff m) name = traffic_entries m name"
  using assms by (auto simp: purge_interfaces_def traffic_entries_def Let_def filter_timely split: option.splits)

lemma purge_frame [simp]:
  "st_last (purgeExpiredLocked e s) = st_last s" "st_config (purgeExpiredLocked e s) = st_config s"
  "st_running (purgeExpiredLocked e s) = st_running s" "st_cache (purgeExpiredLocked e s) = st_cache s"
  by (simp_all add: purgeExpiredLocked_def)

lemma purge_step:
  assumes "timely t0 s name" "preserve_cutoff e (st_config s) \<le> t0"
  shows "in_store (purgeExpiredLocked e s) name = in_store s name" "reported_total (purgeExpiredLocked e s) name = reported_total s name"
    "timely t0 (purgeExpiredLocked e s) name"
proof -
  show *: "in_store (purgeExpiredLocked e s) name = in_store s name"
    using purge_entries [OF _ assms(2)] assms(1) by (simp add: timely_def in_store_def purgeExpiredLocked_def)
  then show "reported_total (purgeExpiredLocked e s) name = reported_total s name" "timely t0 (purgeExpiredLocked e s) name"
    using assms(1) by (simp_all add: reported_sums timely_def in_cache_def)
qed

section \<open>Histories of one process\<close>

text \<open>
  A save that works: no call fails, and the file it writes is read back as it was written.
\<close>

definition with_config :: "netstate \<Rightarrow> NetStatic" where
  "with_config s = (st_store s)\<lparr>ns_Config := configOrDefault (st_config s)\<rparr>"

definition saves_well :: "json_codec \<Rightarrow> netenv \<Rightarrow> netstate \<Rightarrow> bool" where
  "saves_well js e s \<longleftrightarrow> \<not> nx_mkdir_fails e \<and> \<not> nx_marshal_fails e \<and> nx_written e = None \<and> \<not> nx_rename_fails e \<and>
     js_encode js (with_config s) \<noteq> [] \<and> js_decode js (js_encode js (with_config s)) = Some (with_config s)"

text \<open>
  What the accounting of one interface needs of an event: the interface is watched, its entries have not expired, and
  a save works when the process is stopped or stops, since the file is then the only record. A save may fail while the process
  runs, and an attempt to start may fail. An event that panics ends the process.
\<close>

fun calm_event :: "json_codec \<Rightarrow> string \<Rightarrow> u64 \<Rightarrow> net_event \<Rightarrow> netstate \<times> netdisk \<Rightarrow> bool" where
  "calm_event js name t0 (Detect e ios) (s, d) = (isNicAllowed (st_config s) name \<and> t0 \<le> nowUnix e)"
| "calm_event js name t0 (Save e t) (s, d) = (t0 \<le> unix_seconds t \<and> preserve_cutoff e (st_config s) \<le> t0 \<and>
     (st_running s \<or> saves_well js e (purgeExpiredLocked e (flushCacheLocked (unix_seconds t) s))))"
| "calm_event js name t0 (Stopping e) (s, d) = (\<not> st_running s \<or> t0 \<le> nowUnix e \<and> preserve_cutoff e (st_config s) \<le> t0 \<and>
     saves_well js e (purgeExpiredLocked e (flushCacheLocked (nowUnix e) (s\<lparr>st_running := False\<rparr>))))"
| "calm_event js name t0 (Starting e) (s, d) = (case StartOrContinue js e s d of (r, s', d') \<Rightarrow>
     r \<noteq> TickerPanic \<and> preserve_cutoff e (st_config s') \<le> t0)"
| "calm_event js name t0 (Configure e c) (s, d) = (case SetNewConfig js e c s d of (returned, s', d') \<Rightarrow>
     returned \<and> isNicAllowed (st_config s') name \<and> preserve_cutoff e (st_config s') \<le> t0 \<and>
     (st_running s \<or> saves_well js e (configured c s)))"

fun calm_history :: "json_codec \<Rightarrow> string \<Rightarrow> u64 \<Rightarrow> net_event list \<Rightarrow> netstate \<times> netdisk \<Rightarrow> bool" where
  "calm_history js name t0 [] sd = True"
| "calm_history js name t0 (ev # evs) sd = (calm_event js name t0 ev sd \<and> calm_history js name t0 evs (net_step js ev sd))"

definition on_file :: "json_codec \<Rightarrow> string \<Rightarrow> netstate \<Rightarrow> netdisk \<Rightarrow> bool" where
  "on_file js name s d \<longleftrightarrow> (case d SaveFilePath of None \<Rightarrow> False | Some b \<Rightarrow> b \<noteq> [] \<and>
     (case js_decode js b of None \<Rightarrow> False | Some ns \<Rightarrow> traffic_entries (ns_Interfaces ns) name = in_store s name))"

definition accounted :: "json_codec \<Rightarrow> string \<Rightarrow> u64 \<Rightarrow> netstate \<times> netdisk \<Rightarrow> bool" where
  "accounted js name t0 sd \<longleftrightarrow> timely t0 (fst sd) name \<and> (st_running (fst sd) \<or> on_file js name (fst sd) (snd sd))"

text \<open>An event keeps the account of an interface when the reported traffic grows by what its readings say.\<close>

definition keeps_account :: "json_codec \<Rightarrow> string \<Rightarrow> u64 \<Rightarrow> (u64 \<times> u64) list \<Rightarrow> netstate \<Rightarrow> netstate \<times> netdisk \<Rightarrow> bool" where
  "keeps_account js name t0 rs s sd \<longleftrightarrow> accounted js name t0 sd \<and> st_last (fst sd) name = latest (st_last s name) rs \<and>
     reported_total (fst sd) name = plus2 (reported_total s name) (growth (st_last s name) rs)"

lemma same_entries:
  assumes "in_store s' name = in_store s name" "in_cache s' name = in_cache s name"
  shows "reported_total s' name = reported_total s name" "timely t0 s' name = timely t0 s name"
  using assms by (simp_all add: reported_sums timely_def)

lemma save_frame:
  assumes "saveToFileLocked js e s d = (ok, s', d')"
  shows "in_store s' name = in_store s name \<and> in_cache s' name = in_cache s name \<and> st_last s' = st_last s \<and> st_config s' = st_config s \<and>
    st_running s' = st_running s"
  using assms by (auto simp: saveToFileLocked_def Let_def in_store_def in_cache_def split: if_splits option.splits)

lemma save_writes:
  assumes "saveToFileLocked js e s d = (ok, s', d')" "saves_well js e s"
  shows "on_file js name s' d'"
  using assms by (auto simp: saveToFileLocked_def saves_well_def with_config_def Let_def on_file_def in_store_def SaveFilePath_def)

lemma save_accounts:
  assumes S: "saveToFileLocked js e (purgeExpiredLocked e (flushCacheLocked ts s)) d = (ok, s', d')"
    and t: "timely t0 s name" "t0 \<le> ts" "preserve_cutoff e (st_config s) \<le> t0"
    and w: "st_running s \<or> saves_well js e (purgeExpiredLocked e (flushCacheLocked ts s))"
  shows "keeps_account js name t0 [] s (s', d')"
proof -
  let ?f = "flushCacheLocked ts s" and ?p = "purgeExpiredLocked e (flushCacheLocked ts s)"
  note flushed = flush_step(1) [of ts s name] flush_step(2-4) [of ts s] flush_step(5) [OF t(1,2)]
  have c: "preserve_cutoff e (st_config ?f) \<le> t0" using t(3) by (simp add: flush_step)
  note purged = purge_step [OF flushed(5) c]
  note saved = save_frame [OF S, of name]
  have e: "reported_total s' name = reported_total ?p name" "timely t0 s' name = timely t0 ?p name"
    using saved by (intro same_entries; simp)+
  have "st_running s' \<or> on_file js name s' d'"
    using w saved save_writes [OF S, of name] by (auto simp: flush_step)
  then show ?thesis using e saved purged flushed by (simp add: keeps_account_def accounted_def)
qed

lemma ensure_frame [simp]:
  "in_store (ensureInitLocked s) = in_store s" "in_cache (ensureInitLocked s) = in_cache s" "st_last (ensureInitLocked s) = st_last s"
  "st_running (ensureInitLocked s) = st_running s" "st_store (ensureInitLocked s) = st_store s"
  "st_cache (ensureInitLocked s) = st_cache s"
  by (auto simp: ensureInitLocked_def in_store_def in_cache_def)

lemma on_file_cong: "in_store s' name = in_store s name \<Longrightarrow> on_file js name s' d = on_file js name s d"
  by (simp add: on_file_def split: option.splits)

lemma on_file_frame [simp]:
  "on_file js name (ensureInitLocked s) d = on_file js name s d"
  by (rule on_file_cong) simp

lemma detect_accounts:
  assumes "accounted js name t0 (s, d)" "calm_event js name t0 (Detect e ios) (s, d)"
  shows "keeps_account js name t0 (readings name (Detect e ios)) s (detect_tick e ios s, d)"
proof (cases ios)
  case (Some l)
  have a: "isNicAllowed (st_config s) name" "t0 \<le> nowUnix e" using assms(2) by simp_all
  have "on_file js name (fold (sample_counter (nowUnix e)) l s) d = on_file js name s d"
    using fold_sample [OF a(1) refl, where ts = "nowUnix e" and ios = l] by (intro on_file_cong) (simp add: in_store_def)
  with fold_sample [OF a(1) refl, where ts = "nowUnix e" and ios = l and ?t0.0 = t0] assms(1) a(2) show ?thesis
    by (auto simp: keeps_account_def accounted_def detect_tick_def sampleOnceLocked_def Some)
qed (use assms in \<open>simp add: keeps_account_def detect_tick_def sampleOnceLocked_def\<close>)

lemma start_accounts:
  assumes a: "accounted js name t0 (s, d)" and u: "calm_event js name t0 (Starting e) (s, d)"
  shows "keeps_account js name t0 [] s (snd (StartOrContinue js e s d))"
proof (cases "st_running s")
  case True
  then show ?thesis using a by (simp add: StartOrContinue_def keeps_account_def)
next
  case stopped: False
  then obtain b ns where b: "d SaveFilePath = Some b" "b \<noteq> []" "js_decode js b = Some ns"
      "traffic_entries (ns_Interfaces ns) name = in_store s name"
    using a by (auto simp: accounted_def on_file_def split: option.splits)
  show ?thesis
  proof (cases "nx_open_fails e \<or> nx_read_fails e")
    case True
    then have "loadFromFileLocked js e (ensureInitLocked s) d = (False, ensureInitLocked s, d)"
      using b(1) by (auto simp: loadFromFileLocked_def Let_def)
    then show ?thesis
      using a stopped by (simp add: StartOrContinue_def keeps_account_def accounted_def timely_def reported_sums)
  next
    case False
    let ?l = "ensureInitLocked ((ensureInitLocked s)\<lparr>st_store := ns, st_config := configOrDefault (ns_Config ns)\<rparr>)"
    let ?p = "purgeExpiredLocked e ?l"
    have L: "loadFromFileLocked js e (ensureInitLocked s) d = (True, ?p, d)"
      using False b by (simp add: loadFromFileLocked_def)
    have l: "in_store ?l name = in_store s name" "in_cache ?l name = in_cache s name" "st_last ?l = st_last s"
      using b(4) by (simp_all add: in_store_def in_cache_def ensureInitLocked_def)
    from L u stopped obtain tk where S: "StartOrContinue js e s d = (Started, ?p\<lparr>st_tickers := tk, st_running := True\<rparr>, d)"
      by (auto simp: StartOrContinue_def split: option.splits)
    have "preserve_cutoff e (st_config ?l) \<le> t0" using u S by simp
    moreover have "timely t0 ?l name" using a same_entries(2) [OF l(1,2)] by (simp add: accounted_def)
    ultimately have p: "in_store ?p name = in_store ?l name" "timely t0 ?p name" by (simp_all add: purge_step)
    let ?f = "?p\<lparr>st_tickers := tk, st_running := True\<rparr>"
    have "in_cache ?p name = in_cache ?l name" by (simp add: in_cache_def)
    then have f: "in_store ?f name = in_store s name" "in_cache ?f name = in_cache s name" "st_last ?f = st_last s"
      using p l by (simp_all add: in_store_def in_cache_def)
    show ?thesis
      using a f(3) same_entries [OF f(1,2)] unfolding S by (simp add: keeps_account_def accounted_def)
  qed
qed

lemma configured_frame:
  "in_store (configured c s) name = in_store s name" "in_cache (configured c s) name = in_cache s name" "st_last (configured c s) = st_last s"
  "st_running (configured c s) = st_running s"
  by (simp_all add: configured_def Let_def in_store_def in_cache_def ensureInitLocked_def)

lemma drop_listed: "isNicAllowed c name \<Longrightarrow> drop_unlisted c m name = m name"
  by (auto simp: isNicAllowed_def drop_unlisted_def split: option.splits list.splits)

lemma configure_accounts:
  assumes a: "accounted js name t0 (s, d)" and u: "calm_event js name t0 (Configure e c) (s, d)"
  shows "keeps_account js name t0 [] s (snd (SetNewConfig js e c s d))"
proof -
  let ?s2 = "configured c s" and ?cfg = "st_config (configured c s)"
  let ?s3 = "retimed (new_tickers e ?cfg) ?s2"
  have np: "\<not> (st_running ?s2 \<and> new_tickers e ?cfg = None)" 
  proof
    assume "st_running ?s2 \<and> new_tickers e ?cfg = None"
    then have "fst (SetNewConfig js e c s d) = False" by (simp add: SetNewConfig_def Let_def)
    then show False using u by (cases "SetNewConfig js e c s d") simp
  qed
  obtain ok s4 d4 where S: "saveToFileLocked js e ?s3 d = (ok, s4, d4)" by (cases "saveToFileLocked js e ?s3 d") auto
  have R: "SetNewConfig js e c s d = (True, purgeExpiredLocked e s4, d4)"
    using np S by (simp add: SetNewConfig_def Let_def)
  note saved = save_frame [OF S, of name]
  have cfg: "st_config s4 = ?cfg" using saved by (simp add: retimed_def Let_def)
  have allowed: "isNicAllowed ?cfg name" "preserve_cutoff e (st_config s4) \<le> t0"
    using u cfg by (simp_all add: R)
  have s3: "in_store ?s3 name = in_store s name" "in_cache ?s3 name = in_cache s name" "st_last ?s3 name = st_last s name"
      "st_running ?s3 = st_running s"
    using configured_frame(1,2) [of c s name] configured_frame(3,4) [of c s] drop_listed [OF allowed(1), of "st_cache ?s2"] drop_listed [OF allowed(1), of "st_last ?s2"]
    by (auto simp: retimed_def Let_def in_store_def in_cache_def traffic_entries_def)
  have four: "in_store s4 name = in_store s name" "in_cache s4 name = in_cache s name" "st_last s4 name = st_last s name"
      "st_running s4 = st_running s"
    using saved s3 by simp_all
  have "timely t0 s4 name" using a same_entries(2) [OF four(1,2)] by (simp add: accounted_def)
  note purged = purge_step [OF this allowed(2)]
  have "st_running s4 \<or> on_file js name s4 d4"
    using u save_writes [OF S, of name] four(4) configured_frame(4) [of c s] by (auto simp: R retimed_def)
  then have "st_running s4 \<or> on_file js name (purgeExpiredLocked e s4) d4"
    using on_file_cong [OF purged(1)] by simp
  then show ?thesis
    using purged four same_entries(1) [OF four(1,2)] unfolding R by (simp add: keeps_account_def accounted_def)
qed

lemma step_accounts:
  assumes "accounted js name t0 (s, d)" "calm_event js name t0 ev (s, d)"
  shows "keeps_account js name t0 (readings name ev) s (net_step js ev (s, d))"
proof (cases ev)
  case (Detect e ios)
  then show ?thesis using detect_accounts assms by simp
next
  case (Save e t)
  obtain ok s' d' where S: "saveToFileLocked js e (purgeExpiredLocked e (flushCacheLocked (unix_seconds t) s)) d = (ok, s', d')"
    by (metis prod_cases3)
  then show ?thesis using save_accounts [OF S] assms Save by (auto simp: save_tick_def accounted_def)
next
  case (Stopping e)
  let ?s = "s\<lparr>st_running := False\<rparr>"
  show ?thesis
  proof (cases "st_running s")
    case True
    obtain ok s' d' where S: "saveToFileLocked js e (purgeExpiredLocked e (flushCacheLocked (nowUnix e) ?s)) d = (ok, s', d')"
      by (metis prod_cases3)
    have "in_store ?s name = in_store s name" "in_cache ?s name = in_cache s name" by (simp_all add: in_store_def in_cache_def)
    note same = same_entries [OF this]
    have "keeps_account js name t0 [] ?s (s', d')"
      using save_accounts [OF S] assms True Stopping same(2) [of t0] by (auto simp: accounted_def)
    then show ?thesis using S True Stopping same(1) by (simp add: Stop_def keeps_account_def)
  qed (use assms Stopping in \<open>simp add: Stop_def keeps_account_def\<close>)
next
  case (Starting e)
  then show ?thesis using start_accounts assms by simp
next
  case (Configure e c)
  then show ?thesis using configure_accounts assms by simp
qed

lemma history_accounts:
  assumes "accounted js name t0 sd" "calm_history js name t0 evs sd"
  shows "keeps_account js name t0 (concat (map (readings name) evs)) (fst sd) (net_history js evs sd)"
  using assms
proof (induction evs arbitrary: sd)
  case Nil
  then show ?case by (simp add: keeps_account_def)
next
  case (Cons ev evs)
  let ?sd = "net_step js ev sd"
  have now: "keeps_account js name t0 (readings name ev) (fst sd) ?sd"
    using step_accounts [of js name t0 "fst sd" "snd sd" ev] Cons.prems by simp
  then have "keeps_account js name t0 (concat (map (readings name) evs)) (fst ?sd) (net_history js evs ?sd)"
    using Cons by (simp add: keeps_account_def)
  then show ?case using now by (simp add: keeps_account_def growth_append)
qed

text \<open>
  C33: Traffic is counted exactly once. From a running process, through any interleaving of samples, saves, stops, starts and
  new configurations, with saves that fail while the process runs and starts that fail, the totals reported for
  a watched interface grow by exactly what its counters say: the sum of the differences of successive
  readings, a counter that went back counting as zero; when its counters never go back, the last reading less the first. This
  holds at 64 bits, wrap-around included, while nothing of the interface expires and the save of a stop works.
\<close>

theorem traffic_counted_once:
  assumes "st_running s" "timely t0 s name" "calm_history js name t0 evs (s, d)"
  shows "reported_total (fst (net_history js evs (s, d))) name =
      plus2 (reported_total s name) (growth (st_last s name) (concat (map (readings name) evs))) \<and>
    (\<forall>p rs. st_last s name = Some p \<and> rs = p # concat (map (readings name) evs) \<and> sorted (map fst rs) \<and> sorted (map snd rs) \<longrightarrow>
      reported_total (fst (net_history js evs (s, d))) name = plus2 (reported_total s name) (fst (last rs) - fst p, snd (last rs) - snd p))"
proof -
  have "accounted js name t0 (s, d)" using assms(1,2) by (simp add: accounted_def)
  from history_accounts [OF this assms(3)] show ?thesis
    using growth_monotone [of _ "concat (map (readings name) evs)"] by (auto simp: keeps_account_def)
qed

section \<open>A day of one interface\<close>

definition demo_time :: "int \<Rightarrow> gotime" where
  "demo_time secs = (62135596800 + 1700000000 + secs) * second"

definition demo_net :: "int \<Rightarrow> netenv" where
  "demo_net secs = \<lparr>nx_now = demo_time secs, nx_round = (\<lambda>x. x), nx_integer = floor, nx_open_fails = False, nx_read_fails = False,
     nx_backup_fails = False, nx_mkdir_fails = False, nx_marshal_fails = False, nx_written = None, nx_rename_fails = False\<rparr>"

definition demo_counter :: "u64 \<Rightarrow> u64 \<Rightarrow> IOCounter" where
  "demo_counter tx rx = \<lparr>io_Name = ''eth0'', io_BytesSent = tx, io_BytesRecv = rx\<rparr>"

definition demo_entry :: "TrafficData" where
  "demo_entry = \<lparr>td_Timestamp = 1700000020, td_Tx = 50, td_Rx = 20\<rparr>"

definition demo_kept :: NetStatic where
  "demo_kept = \<lparr>ns_Interfaces = [''eth0'' \<mapsto> [demo_entry]], ns_Config = configOrDefault no_config\<rparr>"

definition demo_json :: json_codec where
  "demo_json = \<lparr>js_encode = (\<lambda>_. ''{}''), js_decode = (\<lambda>_. Some demo_kept)\<rparr>"

definition demo_running :: netstate where
  "demo_running = package_start\<lparr>st_config := configOrDefault no_config, st_running := True, st_last := [''eth0'' \<mapsto> (100, 10)]\<rparr>"

definition demo_sampled :: netstate where
  "demo_sampled = demo_running\<lparr>st_cache := [''eth0'' \<mapsto> [\<lparr>td_Timestamp = 1700000010, td_Tx = 50, td_Rx = 20\<rparr>]],
     st_last := [''eth0'' \<mapsto> (150, 30)]\<rparr>"

definition demo_stopped :: netstate where
  "demo_stopped = demo_running\<lparr>st_running := False, st_store := demo_kept, st_last := [''eth0'' \<mapsto> (150, 30)]\<rparr>"

lemma demo_default: "configOrDefault no_config = \<lparr>nc_DataPreserveDay = 31, nc_DetectInterval = 2, nc_SaveInterval = 600, nc_Nics = None\<rparr>"
  by (simp add: configOrDefault_def no_config_def DefaultDataPreserveDay_def DefaultDetectInterval_def DefaultSaveInterval_def)

lemma demo_default_again [simp]: "configOrDefault (configOrDefault c) = configOrDefault c"
  by (simp add: configOrDefault_def DefaultDataPreserveDay_def DefaultDetectInterval_def DefaultSaveInterval_def)

lemma demo_cutoff: "preserve_cutoff (demo_net secs) (configOrDefault no_config) = word_of_int (1697321600 + secs)"
proof -
  have "preserve_cutoff (demo_net secs) (configOrDefault no_config) =
      word_of_int (((62135596800 + 1697321600 + secs) * second) div second - 62135596800)"
    by (simp add: preserve_cutoff_def demo_default demo_net_def demo_time_def float_duration_def unix_seconds_def algebra_simps)
  also have "\<dots> = word_of_int (1697321600 + secs)"
    by (subst nonzero_mult_div_cancel_right) simp_all
  finally show ?thesis .
qed

lemma demo_unix: "unix_seconds (demo_time secs) = word_of_int (1700000000 + secs)"
  unfolding demo_time_def unix_seconds_def by (subst nonzero_mult_div_cancel_right) simp_all

lemma demo_net_fields [simp]:
  "nx_now (demo_net n) = demo_time n" "nx_round (demo_net n) x = x" "nx_integer (demo_net n) = floor"
  "\<not> nx_open_fails (demo_net n)" "\<not> nx_read_fails (demo_net n)" "\<not> nx_mkdir_fails (demo_net n)"
  "\<not> nx_marshal_fails (demo_net n)" "nx_written (demo_net n) = None" "\<not> nx_rename_fails (demo_net n)"
  by (simp_all add: demo_net_def)

lemma demo_sample:
  "sampleOnceLocked (demo_net 10) (Some [demo_counter 150 30]) demo_running = demo_sampled"
  by (simp add: sampleOnceLocked_def sample_counter_def Let_def demo_counter_def demo_running_def demo_sampled_def demo_default
      isNicAllowed_def package_start_def safeDelta_def append_to_def nowUnix_def demo_unix)

lemma demo_flushed:
  "purgeExpiredLocked (demo_net 20) (flushCacheLocked 1700000020 (demo_sampled\<lparr>st_running := False\<rparr>)) =
    demo_stopped\<lparr>st_store := demo_kept\<lparr>ns_Config := no_config\<rparr>\<rparr>"
proof -
  have c: "preserve_cutoff (demo_net 20) (configOrDefault no_config) = 1697321620" by (simp add: demo_cutoff)
  have "flush_interfaces 1700000020 [''eth0'' \<mapsto> [\<lparr>td_Timestamp = 1700000010, td_Tx = 50, td_Rx = 20\<rparr>]] Map.empty = [''eth0'' \<mapsto> [demo_entry]]"
    by (auto simp: flush_interfaces_def append_to_def demo_entry_def)
  moreover have "purge_interfaces 1697321620 [''eth0'' \<mapsto> [demo_entry]] = [''eth0'' \<mapsto> [demo_entry]]"
    by (auto simp: purge_interfaces_def demo_entry_def)
  ultimately show ?thesis
    using c by (simp add: flushCacheLocked_def purgeExpiredLocked_def demo_sampled_def demo_running_def package_start_def demo_stopped_def demo_kept_def)
qed

lemma demo_stop:
  "Stop demo_json (demo_net 20) demo_sampled d = (True, demo_stopped, d(SaveFilePath \<mapsto> ''{}'', SaveFilePath @ ''.tmp'' := None))"
proof -
  have "st_running demo_sampled" "nowUnix (demo_net 20) = 1700000020"
    by (simp_all add: demo_sampled_def demo_running_def nowUnix_def demo_unix)
  then show ?thesis
    unfolding Stop_def
    by (simp add: demo_flushed saveToFileLocked_def demo_json_def demo_stopped_def demo_running_def demo_kept_def Let_def
        fun_upd_twist SaveFilePath_def)
qed

definition demo_restarted :: netstate where
  "demo_restarted = demo_stopped\<lparr>st_tickers := (2 * second, 600 * second), st_running := True\<rparr>"

lemma demo_tickers: "new_tickers e (configOrDefault no_config) = Some (2 * second, 600 * second)" if "e = demo_net n" for e n
  using that by (simp add: new_tickers_def demo_default float_duration_def)

lemma demo_load:
  assumes "d SaveFilePath = Some ''{}''"
  shows "StartOrContinue demo_json (demo_net 30) demo_stopped d = (Started, demo_restarted, d)"
proof -
  let ?m = "[''eth0'' \<mapsto> [demo_entry]]"
  have c: "preserve_cutoff (demo_net 30) (configOrDefault no_config) = 1697321630" by (simp add: demo_cutoff)
  have p: "purge_interfaces 1697321630 ?m = ?m" by (auto simp: purge_interfaces_def demo_entry_def)
  have s: "\<not> st_running demo_stopped" "ensureInitLocked demo_stopped = demo_stopped"
    by (simp_all add: demo_stopped_def demo_running_def ensureInitLocked_def)
  have l: "ensureInitLocked (demo_stopped\<lparr>st_store := demo_kept, st_config := configOrDefault (ns_Config demo_kept)\<rparr>) = demo_stopped"
    by (simp add: demo_stopped_def demo_running_def ensureInitLocked_def demo_kept_def)
  have q: "purgeExpiredLocked (demo_net 30) demo_stopped = demo_stopped"
    using c p by (simp add: purgeExpiredLocked_def demo_stopped_def demo_running_def demo_kept_def)
  have "loadFromFileLocked demo_json (demo_net 30) (ensureInitLocked demo_stopped) d = (True, demo_stopped, d)"
    using assms s(2) l q by (simp add: loadFromFileLocked_def demo_json_def)
  moreover have "new_tickers (demo_net 30) (st_config demo_stopped) = Some (2 * second, 600 * second)"
    using demo_tickers [OF refl, of 30] by (simp add: demo_stopped_def demo_running_def)
  ultimately show ?thesis using s(1) by (simp add: StartOrContinue_def demo_restarted_def)
qed

definition demo_day :: "net_event list" where
  "demo_day = [Detect (demo_net 10) (Some [demo_counter 150 30]), Stopping (demo_net 20), Starting (demo_net 30),
     Detect (demo_net 40) (Some [demo_counter 170 30])]"

lemma demo_undisturbed: "calm_history demo_json ''eth0'' 1699000000 demo_day (demo_running, Map.empty)"
proof -
  let ?d = "[SaveFilePath \<mapsto> ''{}'']"
  have tmp: "Map.empty(SaveFilePath \<mapsto> ''{}'', SaveFilePath @ ''.tmp'' := None) = ?d"
    by (rule ext) (simp add: SaveFilePath_def)
  have c: "st_config demo_running = configOrDefault no_config" "st_config demo_sampled = configOrDefault no_config"
    "st_config demo_restarted = configOrDefault no_config"
    by (simp_all add: demo_restarted_def demo_stopped_def demo_sampled_def demo_running_def)
  have w: "saves_well demo_json (demo_net 20) (purgeExpiredLocked (demo_net 20) (flushCacheLocked 1700000020 (demo_sampled\<lparr>st_running := False\<rparr>)))"
    unfolding demo_flushed
    by (simp add: saves_well_def with_config_def demo_json_def demo_stopped_def demo_running_def demo_kept_def)
  have n: "nowUnix (demo_net 10) = 1700000010" "nowUnix (demo_net 20) = 1700000020" "nowUnix (demo_net 40) = 1700000040"
    by (simp_all add: nowUnix_def demo_unix)
  have a: "isNicAllowed (configOrDefault no_config) ''eth0''" by (simp add: isNicAllowed_def demo_default)
  show ?thesis
    unfolding demo_day_def
    by (simp add: detect_tick_def demo_sample demo_stop [of Map.empty, unfolded tmp] demo_load [of ?d] demo_cutoff n a c w)
qed

lemma traffic_counted_once_witness:
  "reported_total (fst (net_history demo_json demo_day (demo_running, Map.empty))) ''eth0'' = (70, 20)"
proof -
  have "st_running demo_running" "timely 1699000000 demo_running ''eth0''" "reported_total demo_running ''eth0'' = (0, 0)"
      "st_last demo_running ''eth0'' = Some (100, 10)"
    by (simp_all add: demo_running_def package_start_def timely_def reported_sums in_store_def in_cache_def traffic_entries_def)
  moreover have "concat (map (readings ''eth0'') demo_day) = [(150, 30), (170, 30)]"
    by (simp add: demo_day_def demo_counter_def)
  ultimately show ?thesis
    using traffic_counted_once [OF _ _ demo_undisturbed]
    by (auto simp: plus2_def)
qed

section \<open>Two ways to lose the records\<close>

text \<open>
  A machine without a clock battery starts in 1970. Until 31 days have passed since then, the cutoff lies before
  1970 and wraps around to a value beyond every timestamp, so the first purge deletes all records.
\<close>

theorem early_clock_deletes_everything:
  assumes "nx_now e = (62135596800 + secs) * second" "0 \<le> secs" "secs < 31 * 24 * 3600"
    and "nx_round e = (\<lambda>x. x)" "nx_integer e = floor" "st_config s = configOrDefault no_config"
    and "\<And>arr td. ns_Interfaces (st_store s) name = Some arr \<Longrightarrow> td \<in> set arr \<Longrightarrow> td_Timestamp td < 2 ^ 63"
  shows "ns_Interfaces (st_store (purgeExpiredLocked e s)) name = None"
proof -
  have "preserve_cutoff e (st_config s) = word_of_int (((62135596800 + secs - 2678400) * second) div second - 62135596800)"
    by (simp add: preserve_cutoff_def demo_default assms float_duration_def unix_seconds_def algebra_simps)
  also have "\<dots> = word_of_int (secs - 2678400)" by (subst nonzero_mult_div_cancel_right) simp_all
  finally have c: "preserve_cutoff e (st_config s) = word_of_int (secs - 2678400)" .
  have "uint (word_of_int (secs - 2678400) :: u64) = secs - 2678400 + 2 ^ 64"
  proof -
    have "(secs - 2678400) mod 2 ^ 64 = (secs - 2678400 + 2 ^ 64) mod 2 ^ 64"
      by (rule mod_add_self2 [symmetric])
    also have "\<dots> = secs - 2678400 + 2 ^ 64" using assms(2,3) by (intro mod_pos_pos_trivial) simp_all
    finally show ?thesis unfolding uint_word_of_int by simp
  qed
  then have "(2 :: u64) ^ 63 \<le> preserve_cutoff e (st_config s)" using assms(2) by (simp add: c word_le_def)
  then have "filter (\<lambda>td. preserve_cutoff e (st_config s) \<le> td_Timestamp td) arr = []"
    if "ns_Interfaces (st_store s) name = Some arr" for arr
    using assms(7) [OF that] by (fastforce simp: filter_empty_conv)
  then show ?thesis by (auto simp: purgeExpiredLocked_def purge_interfaces_def Let_def split: option.splits)
qed

text \<open>
  The start of the agent (\<open>cmd/root.go\<close>): a failure to load the records is logged, and the configuration of the
  interfaces is saved all the same. A file that could not be read is replaced by an empty one.
\<close>

definition start_statistics :: "json_codec \<Rightarrow> netenv \<Rightarrow> netenv \<Rightarrow> string list option \<Rightarrow> netstate \<Rightarrow> netdisk \<Rightarrow> netstate \<times> netdisk" where
  "start_statistics js e e' nics s d =
     (case StartOrContinue js e s d of (r, s1, d1) \<Rightarrow>
        if r = TickerPanic then (s1, d1) else snd (SetNewConfig js e' (no_config\<lparr>nc_Nics := nics\<rparr>) s1 d1))"

theorem unread_records_replaced:
  assumes "d SaveFilePath = Some old" "nx_read_fails e" "\<not> nx_open_fails e"
    and "\<not> nx_mkdir_fails e'" "\<not> nx_marshal_fails e'" "nx_written e' = None" "\<not> nx_rename_fails e'"
  shows "\<exists>c. snd (start_statistics js e e' nics package_start d) SaveFilePath =
    Some (js_encode js \<lparr>ns_Interfaces = Map.empty, ns_Config = c\<rparr>)"
proof -
  have s: "\<not> st_running package_start" "loadFromFileLocked js e (ensureInitLocked package_start) d = (False, ensureInitLocked package_start, d)"
    using assms(1-3) by (simp_all add: package_start_def loadFromFileLocked_def Let_def)
  have r: "\<not> st_running (configured (no_config\<lparr>nc_Nics := nics\<rparr>) (ensureInitLocked package_start))"
    by (simp add: configured_frame package_start_def)
  show ?thesis
    using assms s r
    by (simp add: start_statistics_def StartOrContinue_def SetNewConfig_def Let_def saveToFileLocked_def retimed_def,
        simp add: configured_def package_start_def ensureInitLocked_def Let_def SaveFilePath_def, blast)
qed

end
