(* ===== verification/HostUpgrade.thy ===== *)
theory HostUpgrade
  imports HostGuarantees
begin

text \<open>
  The software upgrade (\<open>internal/hostcmd/upgrade_linux.go\<close>, \<open>upgrade_state_linux.go\<close>): agent, host tool, rescue
  program and rescue configuration are replaced together, with the originals in a protected directory from which a
  later attempt starts again when one was interrupted. As in \<open>HostTransaction\<close> each function is a step on the host;
  the arguments are those after the parsing of the flags. What is printed is left out, but for the last
  line, whose error counts.
\<close>

section \<open>Attempts\<close>

text \<open>Run a step and go on with what it returned, error or not.\<close>

definition try_step :: "'a step \<Rightarrow> (go_error + 'a) step" where
  "try_step s h = (case s h of (r, h') \<Rightarrow> (Inr r, h'))"

text \<open>Run all the steps; the answer says whether every one succeeded (\<open>len(failures) == 0\<close>).\<close>

fun tally :: "unit step list \<Rightarrow> bool step" where
  "tally [] = ret True"
| "tally (s # ss) = andThen (try_step s) (\<lambda>r. andThen (tally ss) (\<lambda>clean. ret (clean \<and> \<not> isl r)))"

declare tally.simps [simp del]

section \<open>Services\<close>

definition show_property :: "host_env \<Rightarrow> string \<Rightarrow> string \<Rightarrow> string step" where
  "show_property e unit property =
     andThen (trusted (te_manifest e) ''/usr/bin/systemctl'') (\<lambda>_.
       ask (\<lambda>n. case te_show e n unit property of None \<Rightarrow> Inl (local_error ''systemctl'') | Some s \<Rightarrow> Inr (TrimSpace s)))"

definition upgradeServiceActive :: "host_env \<Rightarrow> string \<Rightarrow> bool \<Rightarrow> bool step" where
  "upgradeServiceActive e unit helper =
     (let settling = fail ''service is transitioning; retry after it settles'' in
      andThen (show_property e unit ''ActiveState'') (\<lambda>state.
        if state = ''active'' then ret True
        else if state = ''inactive'' \<or> state = ''failed'' then ret False
        else if state = ''activating'' \<and> helper then
          andThen (show_property e unit ''SubState'') (\<lambda>sub. if sub = ''auto-restart'' then ret True else settling)
        else settling))"

text \<open>The loop of five observations, a second apart.\<close>

fun upgrade_watch :: "host_env \<Rightarrow> string \<Rightarrow> path \<Rightarrow> string \<Rightarrow> nat \<Rightarrow> unit step" where
  "upgrade_watch e unit executable pid 0 = ret ()"
| "upgrade_watch e unit executable pid (Suc k) =
     andThen (try_step (observe_service e unit)) (\<lambda>r.
     andThen (ask (\<lambda>n. Inr (te_exe e n (case r of Inl _ \<Rightarrow> [] | Inr ob \<Rightarrow> so_MainPID ob)))) (\<lambda>exe.
       case r of
         Inl _ \<Rightarrow> fail ''service failed upgrade process/executable health checks''
       | Inr ob \<Rightarrow>
           if exe = None \<or> pid = ''0'' \<or> pid = [] \<or> so_MainPID ob \<noteq> pid \<or> exe \<noteq> Some executable
           then fail ''service failed upgrade process/executable health checks''
           else upgrade_watch e unit executable pid k))"

definition verifyUpgradeService :: "host_env \<Rightarrow> string \<Rightarrow> path \<Rightarrow> unit step" where
  "verifyUpgradeService e unit executable =
     andThen (observe_service e unit) (\<lambda>ob. upgrade_watch e unit executable (so_MainPID ob) 5)"

definition upgrade_units :: "Manifest \<Rightarrow> string list" where
  "upgrade_units m = [ServiceName m, helperUnit m]"

text \<open>The units that were active, restarted and watched with the program they should run.\<close>

definition start_unit :: "host_env \<Rightarrow> string \<Rightarrow> path \<Rightarrow> unit step" where
  "start_unit e unit executable = script [restartReviewedService e unit, verifyUpgradeService e unit executable]"

definition start_units :: "host_env \<Rightarrow> bool list \<Rightarrow> unit step list" where
  "start_units e active = (let m = te_manifest e in
     map (\<lambda>(on, unit, executable). start_unit e unit executable)
       (filter fst (zip active [(ServiceName m, Executable m), (helperUnit m, helperBinary m)])))"

section \<open>The preflight\<close>

record upgrade_args =
  ua_manifest :: path
  ua_agent :: path
  ua_agentHash :: string
  ua_host :: path
  ua_hostHash :: string
  ua_helper :: path
  ua_signature :: path
  ua_version :: string

text \<open>What the preflight finds: the upgrade to recover, with its originals, the new programs and the configuration.\<close>

record upgrade_plan =
  up_pending :: "(softwareUpgrade \<times> path \<times> bytes list) option"
  up_programs :: "bytes list"
  up_config :: rescue_config

definition read_rescue :: "host_env \<Rightarrow> path \<Rightarrow> rescue_config step" where
  "read_rescue e p =
     andThen (probe e ''read'') (\<lambda>_.
       andThen (gets (\<lambda>h. ReadJSON (h_fs (te_manifest e) h) (te_decode_rescue e) p True)) (from_sum ''rescue configuration''))"

definition reviewed_unit :: "host_env \<Rightarrow> unit step" where
  "reviewed_unit e =
     (let m = te_manifest e in
      andThen (trusted m (helperUnitPath m)) (\<lambda>_.
      andThen (observe_service e (helperUnit m)) (\<lambda>actual.
        require (parseExecStart (so_ExecStart actual) = Some [helperBinary m, ''--config'', helperConfig m] \<and>
          so_FragmentPath actual = helperUnitPath m \<and> so_User actual = ''root'' \<and> so_DropInPaths actual = [])
          ''installed rescue unit differs from its protected installation; review locally before upgrade'')))"

definition pending_originals :: "host_env \<Rightarrow> (softwareUpgrade \<times> path) option \<Rightarrow> ((softwareUpgrade \<times> path \<times> bytes list) option) step" where
  "pending_originals e pending =
     (case pending of None \<Rightarrow> ret None
      | Some (s, dir) \<Rightarrow> andThen (readUpgradeBackups e s dir) (\<lambda>originals. ret (Some (s, dir, originals))))"

text \<open>The three programs, and the configuration of the rescue helper that is installed.\<close>

definition new_programs :: "host_env \<Rightarrow> upgrade_args \<Rightarrow> Trust \<Rightarrow> (bytes list) step" where
  "new_programs e a t =
     andThen (verifiedArtifact e (ua_agent a) (ua_agentHash a)) (\<lambda>agent.
     andThen (verifiedArtifact e (ua_host a) (ua_hostHash a)) (\<lambda>host.
     andThen (readHelper e t (ua_helper a) (ua_signature a)) (\<lambda>(helper, payload).
       if rp_Version payload \<noteq> ua_version a
       then fail ''signed rescue version differs from the selected Agent/Host release''
       else if te_version e \<noteq> [] \<and> te_version e \<noteq> ua_version a
       then fail ''target Host release differs from the selected upgrade version''
       else ret [agent, host, helper])))"

definition installed_rescue :: "host_env \<Rightarrow> Trust \<Rightarrow> (softwareUpgrade \<times> path \<times> bytes list) option \<Rightarrow> rescue_config step" where
  "installed_rescue e t found =
     andThen (read_rescue e (case found of None \<Rightarrow> helperConfig (te_manifest e) | Some (s, dir, _) \<Rightarrow> Join [dir, ''3''])) (\<lambda>cfg.
     andThen (validateUpgradeConfig e t cfg) (\<lambda>_.
     andThen (reviewed_unit e) (\<lambda>_. ret cfg)))"

definition upgrade_preflight :: "host_env \<Rightarrow> upgrade_args \<Rightarrow> upgrade_plan step" where
  "upgrade_preflight e a =
     andThen (noPendingHostTransaction e) (\<lambda>_.
     andThen (read_policy e) (\<lambda>p.
     andThen (require (HelperInstalled p) ''rescue is not registered as installed; upgrades cannot grant installation consent'') (\<lambda>_.
     andThen (pendingSoftwareUpgrade e) (\<lambda>pending.
     andThen (read_trust e) (\<lambda>t.
     andThen (new_programs e a t) (\<lambda>programs.
     andThen (pending_originals e pending) (\<lambda>found.
     andThen (installed_rescue e t found) (\<lambda>cfg.
       ret \<lparr>up_pending = found, up_programs = programs, up_config = cfg\<rparr>))))))))"

section \<open>The protected directory\<close>

text \<open>Directory, originals, modes and states of the services, and the name of the attempt that failed before.\<close>

record upgrade_vault =
  uv_dir :: path
  uv_originals :: "bytes list"
  uv_modes :: "nat list"
  uv_active :: "bool list"
  uv_previous :: string

definition original_path :: "path \<Rightarrow> nat \<Rightarrow> path" where
  "original_path dir i = Join [dir, Itoa (int i)]"

definition upgrade_journal :: "path \<Rightarrow> path" where
  "upgrade_journal dir = Join [dir, ''upgrade.json'']"

definition content :: "inode \<Rightarrow> bytes" where
  "content n = (case nd_data n of None \<Rightarrow> [] | Some d \<Rightarrow> d)"

fun read_originals :: "host_env \<Rightarrow> path list \<Rightarrow> ((bytes \<times> nat) list) step" where
  "read_originals e [] = ret []"
| "read_originals e (p # ps) =
     andThen (trusted (te_manifest e) p) (\<lambda>_. andThen (probe e ''stat'') (\<lambda>_. andThen (gets (\<lambda>h. h_files h p)) (\<lambda>st.
       case st of
         None \<Rightarrow> fail ''invalid installed upgrade file''
       | Some n \<Rightarrow>
           if nd_kind n \<noteq> KRegular \<or> node_size n > 256 * 2 ^ 20 then fail ''invalid installed upgrade file''
           else andThen (probe e ''read'') (\<lambda>_. andThen (read_originals e ps) (\<lambda>rest. ret ((content n, nd_mode n mod 512) # rest))))))"

text \<open>
  \<open>os.MkdirTemp\<close> and the \<open>Chmod\<close> after it. The name it draws is unused, or it fails after its retries.
\<close>

definition make_vault :: "host_env \<Rightarrow> path step" where
  "make_vault e =
     andThen (gets (\<lambda>h. journalDir (te_manifest e) @ ''/upgrade-'' @ te_uuid e (h_tick h))) (\<lambda>dir.
     andThen (gets (\<lambda>h. h_files h dir)) (\<lambda>st.
       andThen (script [require (st = None) ''file exists'',
           call (te_out e) ''mkdir'' (put dir (Some ((root_file None 448)\<lparr>nd_kind := KDirectory\<rparr>))),
           chmod e dir 448])
         (\<lambda>_. ret dir)))"

definition fresh_vault :: "host_env \<Rightarrow> upgrade_vault step" where
  "fresh_vault e =
     (let m = te_manifest e in
      andThen (upgradeServiceActive e (ServiceName m) False) (\<lambda>service.
      andThen (upgradeServiceActive e (helperUnit m) True) (\<lambda>helper.
      andThen (ensureTrustedDir e (journalDir m)) (\<lambda>_.
      andThen (read_originals e (upgradePaths m)) (\<lambda>found.
      andThen (make_vault e) (\<lambda>dir.
      andThen (script (map (\<lambda>(i, original, mode). write_file e (original_path dir i) original 384) (zip [0..<4] found))) (\<lambda>_.
        ret \<lparr>uv_dir = dir, uv_originals = map fst found, uv_modes = map snd found, uv_active = [service, helper],
          uv_previous = []\<rparr>)))))))"

definition attempt_name :: "gotime \<Rightarrow> string" where
  "attempt_name now = ''attempt-'' @ Itoa (int64 (now - 62135596800 * second)) @ ''.json''"

definition pending_vault :: "host_env \<Rightarrow> softwareUpgrade \<Rightarrow> path \<Rightarrow> bytes list \<Rightarrow> upgrade_vault step" where
  "pending_vault e s dir originals =
     andThen (gets (\<lambda>h. attempt_name (te_now e (h_tick h)))) (\<lambda>previous.
     andThen (probe e ''read'') (\<lambda>_.
     andThen (gets (\<lambda>h. h_files h (upgrade_journal dir))) (\<lambda>st.
       case st of
         None \<Rightarrow> fail ''no such file''
       | Some n \<Rightarrow>
           andThen (write_file e (Join [dir, previous]) (content n) 384) (\<lambda>_.
             ret \<lparr>uv_dir = dir, uv_originals = originals, uv_modes = su_Modes s, uv_active = su_Active s, uv_previous = previous\<rparr>))))"

definition upgrade_record :: "host_env \<Rightarrow> string \<Rightarrow> upgrade_vault \<Rightarrow> string \<Rightarrow> gotime \<Rightarrow> softwareUpgrade" where
  "upgrade_record e version v phase now =
     \<lparr>su_Phase = phase, su_Version = version, su_Manifest = ManifestPath (te_manifest e), su_Paths = upgradePaths (te_manifest e),
      su_Modes = uv_modes v, su_Active = uv_active v, su_At = now, su_PreviousAttempt = uv_previous v\<rparr>"

text \<open>\<open>writePhase\<close>.\<close>

definition write_phase :: "host_env \<Rightarrow> string \<Rightarrow> upgrade_vault \<Rightarrow> string \<Rightarrow> unit step" where
  "write_phase e version v phase =
     andThen (gets (\<lambda>h. te_now e (h_tick h))) (\<lambda>now.
       write_json e (upgrade_journal (uv_dir v)) (te_encode_upgrade e (upgrade_record e version v phase now)) 384)"

definition prepare_upgrade :: "host_env \<Rightarrow> string \<Rightarrow> upgrade_plan \<Rightarrow> upgrade_vault step" where
  "prepare_upgrade e version plan =
     andThen (case up_pending plan of None \<Rightarrow> fresh_vault e | Some (s, dir, originals) \<Rightarrow> pending_vault e s dir originals) (\<lambda>v.
     andThen (require (validateUpgradeJournal (te_manifest e) (upgrade_record e version v ''prepared'' 0)) ''upgrade journal'') (\<lambda>_.
     andThen (write_phase e version v ''prepared'') (\<lambda>_. ret v)))"

section \<open>Replacement and rollback\<close>

definition stop_units :: "host_env \<Rightarrow> unit step list" where
  "stop_units e = map (\<lambda>unit. systemctl e [''stop'', unit]) (upgrade_units (te_manifest e))"

definition replace_programs :: "host_env \<Rightarrow> string \<Rightarrow> upgrade_plan \<Rightarrow> upgrade_vault \<Rightarrow> unit step" where
  "replace_programs e version plan v =
     (let m = te_manifest e in
      script (stop_units e @
        [write_phase e version v ''replacing''] @
        map (\<lambda>(p, data, mode). write_file e p data mode) (zip (upgradePaths m) (zip (up_programs plan) (uv_modes v))) @
        [write_json e (helperConfig m) (te_encode_rescue e ((up_config plan)\<lparr>rs_Version := version\<rparr>)) (uv_modes v ! 3)] @
        start_units e (uv_active v) @
        [write_phase e version v ''completed'', probe e ''print'']))"

text \<open>The deferred function, which runs when the replacement reports an error.\<close>

definition restore_programs :: "host_env \<Rightarrow> upgrade_vault \<Rightarrow> unit step list" where
  "restore_programs e v =
     map (\<lambda>(p, data, mode). write_file e p data mode) (zip (upgradePaths (te_manifest e)) (zip (uv_originals v) (uv_modes v)))"

definition roll_back :: "host_env \<Rightarrow> string \<Rightarrow> upgrade_vault \<Rightarrow> unit step" where
  "roll_back e version v =
     andThen (tally (stop_units e @ restore_programs e v)) (\<lambda>written.
     andThen (if written then tally (start_units e (uv_active v)) else ret False) (\<lambda>clean.
       if clean then script [ignoring (write_phase e version v ''restored''), fail ''previous Agent, Host, rescue and configuration restored'']
       else script [ignoring (write_phase e version v ''restore_failed''), fail ''rollback incomplete'']))"

definition upgrade_programs :: "host_env \<Rightarrow> string \<Rightarrow> upgrade_plan \<Rightarrow> upgrade_vault \<Rightarrow> unit step" where
  "upgrade_programs e version plan v h =
     (case replace_programs e version plan v h of (Inr u, h') \<Rightarrow> (Inr u, h') | (Inl err, h') \<Rightarrow> roll_back e version v h')"

definition upgrade_manifest :: "host_env \<Rightarrow> upgrade_args \<Rightarrow> unit step" where
  "upgrade_manifest e a =
     andThen (upgrade_preflight e a) (\<lambda>plan. andThen (prepare_upgrade e (ua_version a) plan) (upgrade_programs e (ua_version a) plan))"

definition upgradeInstalledRescue :: "host_env \<Rightarrow> upgrade_args \<Rightarrow> unit step" where
  "upgradeInstalledRescue e a =
     (if \<not> validateReleaseTag (ua_version a) then fail ''invalid release tag''
      else andThen (script [requireRoot e, acquireHostLock e]) (\<lambda>_.
        andThen (resolveManifest e (ua_manifest a)) (\<lambda>m. upgrade_manifest (e\<lparr>te_manifest := m\<rparr>) a)))"

text \<open>The check before the installer stages anything.\<close>

definition checkUpgrade :: "host_env \<Rightarrow> path \<Rightarrow> unit step" where
  "checkUpgrade e manifest =
     andThen (script [requireRoot e, acquireHostLock e]) (\<lambda>_.
     andThen (resolveManifest e manifest) (\<lambda>m.
       (let e = e\<lparr>te_manifest := m\<rparr> in
        andThen (noPendingHostTransaction e) (\<lambda>_.
        andThen (read_policy e) (\<lambda>p.
        andThen (pendingSoftwareUpgrade e) (\<lambda>pending.
        andThen (case pending of
            None \<Rightarrow> ret ()
          | Some (s, dir) \<Rightarrow>
              if \<not> HelperInstalled p then fail ''pending rescue upgrade conflicts with current installation policy''
              else andThen (readUpgradeBackups e s dir) (\<lambda>_. ret ())) (\<lambda>_. probe e ''print'')))))))"

section \<open>Names in a directory\<close>

lemma split_at_append: "split_at x (p @ x # q) = split_at x p @ split_at x q"
proof (induction p)
  case (Cons c p)
  obtain h t where "split_at x p = h # t" by (cases "split_at x p") simp_all
  with Cons show ?case by simp
qed simp

lemma clean_loop_snoc: "plain a \<Longrightarrow> clean_loop r acc (cs @ [a]) = clean_loop r acc cs @ [a]"
  by (induction r acc cs rule: clean_loop.induct) (auto simp: plain_def split: list.split)

lemma Join_name:
  assumes "IsAbs d" "plain a"
  shows "Join [d, a] = render True (components d @ [a])"
proof -
  have ne: "d \<noteq> []" "a \<noteq> []" "IsAbs (d @ sep # a)"
    using assms by (auto simp: IsAbs_def plain_def split: list.splits)
  have "split_at sep (d @ sep # a) = split_at sep d @ [a]"
    using assms(2) by (simp add: split_at_append split_at_free plain_def)
  then have "components (d @ sep # a) = components d @ [a]"
    using ne assms by (simp add: components_def clean_loop_snoc)
  then show ?thesis using ne by (simp add: Clean_rooted)
qed

lemma Join_inj:
  assumes "IsAbs d" "plain a" "plain b" "Join [d, a] = Join [d, b]"
  shows "a = b"
proof -
  have plains: "\<forall>c \<in> set (components d @ [x]). plain c" if "plain x" for x
    using components_plain [OF assms(1)] that by simp
  have "render True (components d @ [a]) = render True (components d @ [b])"
    using assms by (simp only: Join_name)
  then have "components d @ [a] = components d @ [b]"
    by (metis components_render plains assms(2,3))
  then show ?thesis by simp
qed

lemma digits_plain: "sep \<notin> set (nat_digits n)"
proof (induction n rule: nat_digits.induct)
  case (1 n)
  have "char_of (48 + n mod 10) \<noteq> sep"
  proof
    assume "char_of (48 + n mod 10) = sep"
    then have "of_char (char_of (48 + n mod 10) :: char) = (of_char sep :: nat)" by simp
    moreover have "n mod 10 < 10" by simp
    ultimately show False by (simp add: of_char_of take_bit_eq_mod)
  qed
  with 1 show ?case by (subst nat_digits.simps) auto
qed

lemma attempt_plain: "plain (attempt_name now)"
  using digits_plain by (auto simp: plain_def attempt_name_def Itoa_def)

lemma small_numbers: "Itoa 0 = ''0''" "Itoa 1 = ''1''" "Itoa 2 = ''2''" "Itoa 3 = ''3''"
  by code_simp+

lemma four_cases: "i < 4 \<Longrightarrow> i = 0 \<or> i = 1 \<or> i = 2 \<or> i = (3 :: nat)"
  by linarith

lemma number_plain: "i < 4 \<Longrightarrow> plain (Itoa (int i)) \<and> length (Itoa (int i)) = 1"
  by (drule four_cases) (auto simp: small_numbers plain_def)

lemma number_inj: "i < 4 \<Longrightarrow> j < 4 \<Longrightarrow> Itoa (int i) = Itoa (int j) \<Longrightarrow> i = j"
  by (drule four_cases, drule four_cases) (auto simp: small_numbers)

lemma original_inj: "IsAbs d \<Longrightarrow> i < 4 \<Longrightarrow> j < 4 \<Longrightarrow> original_path d i = original_path d j \<Longrightarrow> i = j"
  unfolding original_path_def by (metis Join_inj number_plain number_inj)

lemma original_other:
  assumes "IsAbs d" "i < 4" "plain a" "length a \<noteq> 1"
  shows "original_path d i \<noteq> Join [d, a]"
  using Join_inj [of d "Itoa (int i)" a] number_plain [OF assms(2)] assms unfolding original_path_def by auto

section \<open>Steps that leave files alone\<close>

definition untouched :: "path set \<Rightarrow> host \<Rightarrow> host \<Rightarrow> bool" where
  "untouched A h h' \<longleftrightarrow> (\<forall>p \<in> A. h_files h' p = h_files h p)"

interpretation un: work_relation "untouched A" A for A
  by unfold_locales (auto simp: untouched_def put_def change_def)

context host_relation
begin

lemma try_step_kept: "preserves R s \<Longrightarrow> preserves R (try_step s)"
  by (simp add: preserves_def try_step_def split: prod.split) (metis snd_conv)

lemma tally_kept: "(\<And>s. s \<in> set ss \<Longrightarrow> preserves R s) \<Longrightarrow> preserves R (tally ss)"
proof (induction ss)
  case (Cons s ss)
  then show ?case unfolding tally.simps by (intro andThen_kept try_step_kept ret_kept) simp_all
qed (simp add: tally.simps ret_kept)

end

context file_relation
begin

lemma asking_work:
  "preserves R (show_property e unit property)" "preserves R (upgradeServiceActive e unit helper)"
  "preserves R (upgrade_watch e unit x pid k)" "preserves R (verifyUpgradeService e unit x)"
proof -
  show *: "preserves R (show_property e unit property)" for unit property
    unfolding show_property_def by (intro working)
  show "preserves R (upgradeServiceActive e unit helper)"
    unfolding upgradeServiceActive_def Let_def by (auto intro!: working *)
  show **: "preserves R (upgrade_watch e unit x pid k)" for pid k
    by (induction k) (auto intro!: working try_step_kept observation_work split: sum.split)
  show "preserves R (verifyUpgradeService e unit x)"
    unfolding verifyUpgradeService_def by (intro working observation_work **)
qed

lemma pending_loop_work: "preserves R (pending_loop e ps pending)"
proof (induction ps arbitrary: pending)
  case (Cons p ps)
  then show ?case by (auto intro!: working split: sum.split)
qed (simp add: ret_kept)

lemma read_backups_work: "preserves R (read_backups e dir is acc)"
  by (induction "is" arbitrary: acc) (auto simp: Let_def intro!: working split: option.split)

lemma reading_work:
  "preserves R (pendingSoftwareUpgrade e)" "preserves R (readUpgradeBackups e s dir)" "preserves R (verifiedArtifact e q want)"
  "preserves R (resolveManifest e q)" "preserves R (read_originals e ps)" "preserves R (noPendingHostTransaction e)"
  "preserves R (read_rescue e q)" "preserves R (reviewed_unit e)"
proof -
  show "preserves R (pendingSoftwareUpgrade e)" unfolding pendingSoftwareUpgrade_def by (intro working pending_loop_work)
  show "preserves R (readUpgradeBackups e s dir)" unfolding readUpgradeBackups_def by (simp add: read_backups_work fail_kept del: read_backups.simps)
  show "preserves R (verifiedArtifact e q want)"
    unfolding verifiedArtifact_def Let_def by (auto intro!: working split: option.split)
  show "preserves R (resolveManifest e q)" unfolding resolveManifest_def Let_def by (auto intro!: working)
  show "preserves R (read_originals e ps)" by (induction ps) (auto intro!: working split: option.split)
  show "preserves R (noPendingHostTransaction e)" unfolding noPendingHostTransaction_def by (auto intro!: working)
  show "preserves R (read_rescue e q)" unfolding read_rescue_def by (auto intro!: working)
  show "preserves R (reviewed_unit e)" unfolding reviewed_unit_def Let_def by (auto intro!: working observation_work)
qed

lemma preflight_stages_work:
  "preserves R (pending_originals e pending)" "preserves R (new_programs e a t)" "preserves R (installed_rescue e t found)"
  unfolding pending_originals_def new_programs_def installed_rescue_def validateUpgradeConfig_def Let_def
  by (auto intro!: working reading_work readHelper_work split: option.split prod.split)

lemma preflight_work: "preserves R (upgrade_preflight e a)"
  unfolding upgrade_preflight_def
  by (intro working reading_work reads_work preflight_stages_work)

end

text \<open>What only reads leaves the whole disk alone, the journal of a transaction included.\<close>

definition same_disk :: "host \<Rightarrow> host \<Rightarrow> bool" where
  "same_disk h h' \<longleftrightarrow> h_files h' = h_files h \<and> h_journal h' = h_journal h"

interpretation sd: file_relation same_disk UNIV
  by unfold_locales (auto simp: same_disk_def)

text \<open>The services leave the files of the upgrade alone: the programs, and whatever lies in the directories of upgrades.\<close>

definition vault_dirs :: "host_env \<Rightarrow> path set" where
  "vault_dirs e = (let m = te_manifest e in
     {Dir p | p n. p \<in> set (te_glob e n (Join [journalDir m, ''upgrade-*'', ''upgrade.json'']))} \<union>
     {journalDir m @ ''/upgrade-'' @ te_uuid e n | n. True})"

definition upgrade_files :: "host_env \<Rightarrow> path set" where
  "upgrade_files e = set (upgradePaths (te_manifest e)) \<union> {original_path dir i | dir i. dir \<in> vault_dirs e \<and> i < 4} \<union>
     upgrade_journal ` vault_dirs e"

definition upgrade_hands_off :: "host_env \<Rightarrow> bool" where
  "upgrade_hands_off e \<longleftrightarrow> (\<forall>n f p. p \<in> upgrade_files e \<longrightarrow> te_services e n f p = f p)"

text \<open>
  The places of the upgrade are apart: four different programs, none of which lies in the directory of an upgrade
  or on the way to it; and that way does not lead through the files of an upgrade.
\<close>

definition upgrade_separated :: "host_env \<Rightarrow> bool" where
  "upgrade_separated e \<longleftrightarrow> (let m = te_manifest e in
     distinct (upgradePaths m) \<and> ancestors (journalDir m) \<inter> upgrade_files e = {} \<and>
     (\<forall>dir \<in> vault_dirs e. IsAbs dir \<and> dir \<notin> set (upgradePaths m) \<and> (\<forall>name. plain name \<longrightarrow> Join [dir, name] \<notin> set (upgradePaths m))))"

lemma systemctl_untouched:
  assumes "upgrade_hands_off e" "A \<subseteq> upgrade_files e"
  shows "preserves (untouched A) (systemctl e args)"
proof -
  have "untouched A h (h\<lparr>h_calls := c, h_files := te_services e k (h_files h)\<rparr>)" for h c k
    using assms by (auto simp: upgrade_hands_off_def untouched_def)
  then have "preserves (untouched A) (call (te_out e) ''systemctl'' (\<lambda>h. h\<lparr>h_calls := h_calls h @ [args],
      h_files := te_services e (h_tick h) (h_files h)\<rparr>))"
    by (rule un.call_kept)
  then show ?thesis
    unfolding systemctl_def script.simps by (intro un.andThen_kept un.trusted_kept un.ret_kept)
qed

lemma services_untouched:
  assumes "upgrade_hands_off e" "A \<subseteq> upgrade_files e"
  shows "s \<in> set (stop_units e) \<Longrightarrow> preserves (untouched A) s" "s \<in> set (start_units e active) \<Longrightarrow> preserves (untouched A) s"
  using systemctl_untouched [OF assms] un.restart_related [of A e, OF systemctl_untouched [OF assms]] un.asking_work(4) [of A e]
  by (auto simp: stop_units_def start_units_def start_unit_def Let_def intro!: un.working)

section \<open>Writing files\<close>

lemma andThen_ok: "andThen s k h = (Inr y, h') \<Longrightarrow> \<exists>x h1. s h = (Inr x, h1) \<and> k x h1 = (Inr y, h')"
  by (auto simp: andThen_def split: sum.splits prod.splits)

lemma script_append: "script (xs @ ys) h = andThen (script xs) (\<lambda>_. script ys) h"
  by (induction xs arbitrary: h) (auto simp: script.simps andThen_def ret_def split: sum.splits prod.splits)

lemma write_file_ok:
  assumes "write_file e p d k h = (Inr u, h')"
  shows "\<exists>n. h_files h' p = Some n \<and> nd_data n = Some d \<and> nd_mode n = k"
  using assms
  by (auto simp: write_file_def write_owned_def andThen_def gets_def fail_def call_def put_def Let_def root_file_def
      split: option.splits if_splits outcome.splits)

lemma write_file_other: "p \<notin> A \<Longrightarrow> preserves (untouched A) (write_file e p d k)"
  by (rule un.write_file_work)

text \<open>Files written one after the other, each at its own place, all hold what was written.\<close>

lemma writes_ok:
  assumes "script (map (\<lambda>(p, d, k). write_file e p d k) ws) h = (Inr u, h')" "distinct (map fst ws)" "(p, d, k) \<in> set ws"
  shows "\<exists>n. h_files h' p = Some n \<and> nd_data n = Some d \<and> nd_mode n = k"
  using assms
proof (induction ws arbitrary: h)
  case (Cons w ws)
  obtain q d' k' where w: "w = (q, d', k')" by (cases w)
  obtain h1 where s: "write_file e q d' k' h = (Inr (), h1)" "script (map (\<lambda>(p, d, k). write_file e p d k) ws) h1 = (Inr u, h')"
    using Cons.prems(1) w by (auto simp: script.simps dest!: andThen_ok)
  show ?case
  proof (cases "(p, d, k) = w")
    case True
    have "x \<noteq> q" if "(x, y) \<in> set ws" for x y using Cons.prems(2) w that by force
    then have "preserves (untouched {q}) (script (map (\<lambda>(p, d, k). write_file e p d k) ws))"
      by (intro un.script_kept) (auto intro!: write_file_other)
    then have "h_files h' q = h_files h1 q" using s(2) by (auto dest!: preservesD simp: untouched_def)
    then show ?thesis using write_file_ok [OF s(1)] True w by auto
  next
    case False
    then show ?thesis using Cons.IH [OF s(2)] Cons.prems by auto
  qed
qed simp

lemma tally_runs: "\<exists>clean h'. tally ss h = (Inr clean, h') \<and> (clean \<longrightarrow> script ss h = (Inr (), h'))"
proof (induction ss arbitrary: h)
  case (Cons s ss)
  obtain r h1 where s: "s h = (r, h1)" by force
  from Cons [of h1] obtain clean h' where "tally ss h1 = (Inr clean, h')" "clean \<longrightarrow> script ss h1 = (Inr (), h')" by blast
  with s show ?case
    by (cases r) (auto simp: tally.simps script.simps andThen_def try_step_def ret_def)
next
  case Nil
  have "tally [] h = (Inr True, h)" "script [] h = (Inr (), h)" by (simp_all add: tally.simps script.simps ret_def)
  then show ?case by blast
qed

section \<open>What the preflight finds\<close>

text \<open>An interrupted upgrade as it lies on the disk: a journal of this installation and the four originals.\<close>

definition holds_originals :: "path \<Rightarrow> bytes list \<Rightarrow> host \<Rightarrow> bool" where
  "holds_originals dir bs h \<longleftrightarrow> length bs = 4 \<and>
     list_all (\<lambda>i. case h_files h (original_path dir i) of None \<Rightarrow> False | Some n \<Rightarrow> content n = bs ! i) [0, 1, 2, 3]"

definition interrupted :: "host_env \<Rightarrow> softwareUpgrade \<Rightarrow> path \<Rightarrow> bytes list \<Rightarrow> host \<Rightarrow> bool" where
  "interrupted e s dir bs h \<longleftrightarrow> validateUpgradeJournal (te_manifest e) s \<and>
     (\<exists>p n. p \<in> set (te_glob e n (Join [journalDir (te_manifest e), ''upgrade-*'', ''upgrade.json''])) \<and> dir = Dir p \<and>
        ReadJSON (h_fs (te_manifest e) h) (te_decode_upgrade e) p True = Inr s) \<and> holds_originals dir bs h"

text \<open>A program as the administrator or the publisher vouches for it.\<close>

definition vouched_artifact :: "host_env \<Rightarrow> string \<Rightarrow> bytes \<Rightarrow> bool" where
  "vouched_artifact e want b \<longleftrightarrow> elf b \<and> length want = 64 \<and> map lower want = map lower (hex_encode (te_sha e b))"

definition vouched_programs :: "host_env \<Rightarrow> upgrade_args \<Rightarrow> host \<Rightarrow> bytes list \<Rightarrow> bool" where
  "vouched_programs e a h bs \<longleftrightarrow> length bs = 3 \<and> vouched_artifact e (ua_agentHash a) (bs ! 0) \<and>
     vouched_artifact e (ua_hostHash a) (bs ! 1) \<and> elf (bs ! 2) \<and>
     (\<exists>t payload. ReadTrust (h_fs (te_manifest e) h) (te_decode_trust e) (te_url e) (te_manifest e) = Inr t \<and>
        released e t (bs ! 2) payload \<and> rp_Version payload = ua_version a)"

lemma same_disk_fs: "same_disk h h' \<Longrightarrow> h_fs m h' = h_fs m h"
  by (auto simp: same_disk_def h_fs_def h_lstat_def h_open_def fun_eq_iff)

lemma same_disk_originals: "same_disk h h' \<Longrightarrow> holds_originals dir bs h' = holds_originals dir bs h"
  by (simp add: same_disk_def holds_originals_def)

lemma verifiedArtifact_ok: "verifiedArtifact e p want h = (Inr b, h') \<Longrightarrow> vouched_artifact e want b"
  unfolding verifiedArtifact_def vouched_artifact_def Let_def
  by (auto elim!: andThen_Inr simp: fail_def ret_def split: option.splits if_splits)

lemma pending_loop_ok:
  assumes "pending_loop e ps pending h = (Inr res, h')"
  shows "res = pending \<or> (\<exists>p s. p \<in> set ps \<and> res = Some (s, Dir p) \<and> validateUpgradeJournal (te_manifest e) s \<and>
    ReadJSON (h_fs (te_manifest e) h) (te_decode_upgrade e) p True = Inr s)"
  using assms
proof (induction ps arbitrary: pending h)
  case (Cons p ps)
  from Cons.prems obtain u h1 where 1: "probe e ''read'' h = (Inr u, h1)"
    and 2: "andThen (gets (\<lambda>h. ReadJSON (h_fs (te_manifest e) h) (te_decode_upgrade e) p True)) (\<lambda>r.
         case r of
           Inl _ \<Rightarrow> fail ''upgrade journal''
         | Inr s \<Rightarrow>
             if su_Phase s = ''completed'' \<or> su_Phase s = ''restored'' then pending_loop e ps pending
             else if \<not> validateUpgradeJournal (te_manifest e) s then fail ''unsafe pending upgrade''
             else if pending \<noteq> None then fail ''multiple pending software upgrades''
             else pending_loop e ps (Some (s, Dir p))) h1 = (Inr res, h')"
    unfolding pending_loop.simps by (rule andThen_Inr)
  have fs: "h_fs (te_manifest e) h1 = h_fs (te_manifest e) h"
    by (rule same_disk_fs [OF preservesD [OF sd.probe_kept 1]])
  let ?r = "ReadJSON (h_fs (te_manifest e) h) (te_decode_upgrade e) p True"
  from 2 fs obtain s where s: "?r = Inr s"
    and k: "(if su_Phase s = ''completed'' \<or> su_Phase s = ''restored'' then pending_loop e ps pending
       else if \<not> validateUpgradeJournal (te_manifest e) s then fail ''unsafe pending upgrade''
       else if pending \<noteq> None then fail ''multiple pending software upgrades''
       else pending_loop e ps (Some (s, Dir p))) h1 = (Inr res, h')"
    by (cases ?r) (auto simp: andThen_def gets_def fail_def)
  show ?case
  proof (cases "su_Phase s = ''completed'' \<or> su_Phase s = ''restored''")
    case True
    with k Cons.IH [of pending h1] fs show ?thesis by auto
  next
    case False
    with k have "validateUpgradeJournal (te_manifest e) s" "pending_loop e ps (Some (s, Dir p)) h1 = (Inr res, h')"
      by (auto simp: fail_def split: if_splits)
    with Cons.IH [of "Some (s, Dir p)" h1] fs s show ?thesis by auto
  qed
qed (simp add: ret_def)

lemma read_backups_ok:
  assumes "read_backups e dir is acc h = (Inr r, h')"
  shows "\<exists>l. r = acc @ l \<and> list_all2 (\<lambda>i b. \<exists>n. h_files h (original_path dir i) = Some n \<and> content n = b) is l"
  using assms
proof (induction "is" arbitrary: acc h)
  case (Cons i "is")
  let ?p = "original_path dir i"
  from Cons.prems obtain u h1 where 1: "trusted (te_manifest e) ?p h = (Inr u, h1)"
    and 2: "andThen (probe e ''read'') (\<lambda>_. andThen (gets (\<lambda>h. h_files h ?p)) (\<lambda>st.
        case st of
          None \<Rightarrow> fail ''no such file''
        | Some n \<Rightarrow>
            (let b = (case nd_data n of None \<Rightarrow> [] | Some d \<Rightarrow> d) in
             if nd_kind n \<noteq> KRegular \<or> node_size n > 256 * 2 ^ 20 then fail ''invalid protected upgrade backup''
             else if i < 3 \<and> \<not> elf b then fail ''protected executable backup is not an ELF''
             else read_backups e dir is (acc @ [b])))) h1 = (Inr r, h')"
    unfolding read_backups.simps Let_def original_path_def by (rule andThen_Inr)
  from 2 obtain u2 h2 where p: "probe e ''read'' h1 = (Inr u2, h2)"
    and k: "andThen (gets (\<lambda>h. h_files h ?p)) (\<lambda>st.
        case st of
          None \<Rightarrow> fail ''no such file''
        | Some n \<Rightarrow>
            (let b = (case nd_data n of None \<Rightarrow> [] | Some d \<Rightarrow> d) in
             if nd_kind n \<noteq> KRegular \<or> node_size n > 256 * 2 ^ 20 then fail ''invalid protected upgrade backup''
             else if i < 3 \<and> \<not> elf b then fail ''protected executable backup is not an ELF''
             else read_backups e dir is (acc @ [b]))) h2 = (Inr r, h')"
    by (rule andThen_Inr)
  have "same_disk h h1" "same_disk h1 h2" by (rule preservesD [OF sd.trusted_kept 1] preservesD [OF sd.probe_kept p])+
  then have same: "h_files h2 = h_files h" by (simp add: same_disk_def)
  from k same obtain n where n: "h_files h ?p = Some n" "read_backups e dir is (acc @ [content n]) h2 = (Inr r, h')"
    by (auto simp: andThen_def gets_def fail_def content_def Let_def split: option.splits if_splits)
  from Cons.IH [OF n(2)] same n(1) show ?case by auto
qed (simp add: ret_def)

lemma list_all2_four:
  assumes "list_all2 Q [0, 1, 2, 3 :: nat] l"
  shows "length l = 4 \<and> Q 0 (l ! 0) \<and> Q 1 (l ! 1) \<and> Q 2 (l ! 2) \<and> Q 3 (l ! 3)"
  using assms by (auto simp: list_all2_Cons1)

lemma readUpgradeBackups_ok:
  assumes "readUpgradeBackups e s dir h = (Inr bs, h')"
  shows "holds_originals dir bs h"
proof -
  have "read_backups e dir [0, 1, 2, 3] [] h = (Inr bs, h')"
    using assms by (simp add: readUpgradeBackups_def fail_def del: read_backups.simps split: if_splits)
  from read_backups_ok [OF this] list_all2_four show ?thesis
    by (fastforce simp: holds_originals_def)
qed

lemma triple_fact: "(F \<Longrightarrow> triple P s Q E) \<Longrightarrow> triple (\<lambda>h. P h \<and> F) s Q E"
  by (simp add: triple_def)

text \<open>A step that keeps the relation to a first host \<open>h\<close>, with what its result says.\<close>

context host_relation
begin

lemma related_triple:
  assumes "preserves R s" "\<And>g x g'. R h g \<Longrightarrow> s g = (Inr x, g') \<Longrightarrow> F x"
  shows "triple (R h) s (\<lambda>x g. R h g \<and> F x) (R h)"
  using assms(2) by (intro tripleI) (auto intro: R_trans dest: preservesD [OF assms(1)])

lemma related_then:
  assumes "preserves R s" "\<And>g x g'. R h g \<Longrightarrow> s g = (Inr x, g') \<Longrightarrow> F x"
    and "\<And>x. F x \<Longrightarrow> triple (R h) (k x) Q (R h)"
  shows "triple (R h) (andThen s k) Q (R h)"
  by (rule triple_andThen [OF related_triple [OF assms(1,2)] triple_fact [OF assms(3)]])

lemma related_over:
  assumes "preserves R s" "\<And>x. triple (R h) (k x) Q (R h)"
  shows "triple (R h) (andThen s k) Q (R h)"
  by (rule related_then [where F = "\<lambda>_. True"]) (use assms in simp_all)

end

lemma read_trust_ok:
  assumes "same_disk h g" "read_trust e g = (Inr t, g')"
  shows "ReadTrust (h_fs (te_manifest e) h) (te_decode_trust e) (te_url e) (te_manifest e) = Inr t"
proof -
  from assms(2) obtain u g1 where p: "probe e ''read trust'' g = (Inr u, g1)"
    and k: "andThen (gets (\<lambda>h. ReadTrust (h_fs (te_manifest e) h) (te_decode_trust e) (te_url e) (te_manifest e)))
         (from_sum ''trust'') g1 = (Inr t, g')"
    unfolding read_trust_def by (rule andThen_Inr)
  have "same_disk h g1" by (rule sd.R_trans [OF assms(1) preservesD [OF sd.probe_kept p]])
  then show ?thesis using k same_disk_fs [of h g1] by (auto simp: andThen_def gets_def from_sum_def fail_def ret_def split: sum.splits)
qed

definition found_journal :: "host_env \<Rightarrow> host \<Rightarrow> (softwareUpgrade \<times> path) option \<Rightarrow> bool" where
  "found_journal e h pending \<longleftrightarrow> (case pending of None \<Rightarrow> True | Some (s, dir) \<Rightarrow>
     \<exists>p n. p \<in> set (te_glob e n (Join [journalDir (te_manifest e), ''upgrade-*'', ''upgrade.json''])) \<and> dir = Dir p \<and>
       validateUpgradeJournal (te_manifest e) s \<and> ReadJSON (h_fs (te_manifest e) h) (te_decode_upgrade e) p True = Inr s)"

definition found_pending :: "host_env \<Rightarrow> host \<Rightarrow> (softwareUpgrade \<times> path \<times> bytes list) option \<Rightarrow> bool" where
  "found_pending e h found \<longleftrightarrow> (case found of None \<Rightarrow> True | Some (s, dir, bs) \<Rightarrow> interrupted e s dir bs h)"

lemma pendingSoftwareUpgrade_ok:
  assumes "same_disk h g" "pendingSoftwareUpgrade e g = (Inr pending, g')"
  shows "found_journal e h pending"
proof -
  have "pending_loop e (te_glob e (h_tick g) (Join [journalDir (te_manifest e), ''upgrade-*'', ''upgrade.json''])) None g = (Inr pending, g')"
    using assms(2) by (simp add: pendingSoftwareUpgrade_def andThen_def gets_def del: Join.simps)
  from pending_loop_ok [OF this] consider "pending = None" | p s where "pending = Some (s, Dir p)"
      "p \<in> set (te_glob e (h_tick g) (Join [journalDir (te_manifest e), ''upgrade-*'', ''upgrade.json'']))"
      "validateUpgradeJournal (te_manifest e) s" "ReadJSON (h_fs (te_manifest e) h) (te_decode_upgrade e) p True = Inr s"
    unfolding same_disk_fs [OF assms(1), of "te_manifest e"] by blast
  then show ?thesis
  proof cases
    case 1
    then show ?thesis by (simp add: found_journal_def)
  next
    case 2
    then show ?thesis unfolding found_journal_def 2(1) option.case prod.case by blast
  qed
qed

lemma pending_originals_ok:
  assumes "same_disk h g" "pending_originals e pending g = (Inr found, g')" "found_journal e h pending"
  shows "found_pending e h found"
proof (cases pending)
  case None
  with assms(2) show ?thesis by (simp add: pending_originals_def ret_def found_pending_def)
next
  case (Some x)
  obtain s dir where x: "x = (s, dir)" by (cases x)
  from assms(2) obtain bs g1 where b: "readUpgradeBackups e s dir g = (Inr bs, g1)" "found = Some (s, dir, bs)"
    unfolding pending_originals_def Some x by (auto elim!: andThen_Inr simp: ret_def)
  from assms(3) Some x readUpgradeBackups_ok [OF b(1)] same_disk_originals [OF assms(1)] show ?thesis
    by (auto simp: found_pending_def found_journal_def b(2) interrupted_def simp del: Join.simps)
qed

lemma new_programs_ok:
  assumes "new_programs e a t g = (Inr bs, g')"
    and "ReadTrust (h_fs (te_manifest e) h) (te_decode_trust e) (te_url e) (te_manifest e) = Inr t"
  shows "vouched_programs e a h bs"
  using assms(1) unfolding new_programs_def
  by (auto elim!: andThen_Inr dest!: verifiedArtifact_ok readHelper_facts simp: fail_def ret_def vouched_programs_def assms(2)
      split: if_splits) blast+

lemma preflight_triple:
  "triple (same_disk h) (upgrade_preflight e a)
     (\<lambda>plan g. same_disk h g \<and> found_pending e h (up_pending plan) \<and> vouched_programs e a h (up_programs plan)) (same_disk h)"
  unfolding upgrade_preflight_def
proof (rule sd.related_over [OF sd.reading_work(6)], rule sd.related_over [OF sd.reads_work(1)], rule sd.related_over [OF sd.require_kept],
    rule sd.related_then [OF sd.reading_work(1)], erule (1) pendingSoftwareUpgrade_ok,
    rule sd.related_then [OF sd.reads_work(2)], erule (1) read_trust_ok)
  fix pending t
  assume p: "found_journal e h pending" and t: "ReadTrust (h_fs (te_manifest e) h) (te_decode_trust e) (te_url e) (te_manifest e) = Inr t"
  show "triple (same_disk h) (andThen (new_programs e a t) (\<lambda>programs. andThen (pending_originals e pending) (\<lambda>found.
      andThen (installed_rescue e t found) (\<lambda>cfg. ret \<lparr>up_pending = found, up_programs = programs, up_config = cfg\<rparr>))))
     (\<lambda>plan g. same_disk h g \<and> found_pending e h (up_pending plan) \<and> vouched_programs e a h (up_programs plan)) (same_disk h)"
    by (rule sd.related_then [OF sd.preflight_stages_work(2)], erule new_programs_ok [OF _ t],
        rule sd.related_then [OF sd.preflight_stages_work(1)], erule (1) pending_originals_ok [OF _ _ p],
        rule sd.related_over [OF sd.preflight_stages_work(3)]) (rule triple_ret, simp)
qed

section \<open>The protected directory holds the originals\<close>

text \<open>The programs and the configuration, with the bytes and the permissions given for each.\<close>

definition programs_hold :: "host_env \<Rightarrow> bytes list \<Rightarrow> nat list \<Rightarrow> host \<Rightarrow> bool" where
  "programs_hold e bs modes h \<longleftrightarrow> list_all2 (\<lambda>p (b, k). case h_files h p of None \<Rightarrow> False
     | Some n \<Rightarrow> content n = b \<and> nd_mode n mod 512 = k) (upgradePaths (te_manifest e)) (zip bs modes)"

text \<open>Where the originals of a directory come from: the programs installed at the start, or an interrupted upgrade.\<close>

definition taken_from :: "host_env \<Rightarrow> host \<Rightarrow> upgrade_vault \<Rightarrow> bool" where
  "taken_from e h v \<longleftrightarrow> programs_hold e (uv_originals v) (uv_modes v) h \<or>
     (\<exists>s. interrupted e s (uv_dir v) (uv_originals v) h \<and> uv_modes v = su_Modes s)"

abbreviation programs :: "host_env \<Rightarrow> path set" where
  "programs e \<equiv> set (upgradePaths (te_manifest e))"

abbreviation originals_in :: "path \<Rightarrow> path set" where
  "originals_in dir \<equiv> original_path dir ` {i. i < 4}"

lemma separatedD:
  assumes "upgrade_separated e"
  shows "distinct (upgradePaths (te_manifest e))" "ancestors (journalDir (te_manifest e)) \<inter> upgrade_files e = {}"
    "dir \<in> vault_dirs e \<Longrightarrow> IsAbs dir \<and> dir \<notin> programs e" "dir \<in> vault_dirs e \<Longrightarrow> plain name \<Longrightarrow> Join [dir, name] \<notin> programs e"
  using assms by (simp_all add: upgrade_separated_def Let_def del: Join.simps)

lemma places_apart:
  assumes "upgrade_separated e" "dir \<in> vault_dirs e"
  shows "upgrade_journal dir \<notin> programs e" "i < 4 \<Longrightarrow> original_path dir i \<notin> programs e"
    "Join [dir, attempt_name now] \<notin> programs e"
  unfolding upgrade_journal_def original_path_def
  by (rule separatedD(4) [OF assms]; simp add: plain_def number_plain [unfolded plain_def] attempt_plain [unfolded plain_def])+

lemma upgrade_places:
  "programs e \<subseteq> upgrade_files e" "dir \<in> vault_dirs e \<Longrightarrow> originals_in dir \<subseteq> upgrade_files e"
  "dir \<in> vault_dirs e \<Longrightarrow> upgrade_journal dir \<in> upgrade_files e"
  by (auto simp: upgrade_files_def)

lemma originals_same: "untouched (originals_in dir) h h' \<Longrightarrow> holds_originals dir bs h \<Longrightarrow> holds_originals dir bs h'"
  by (simp add: untouched_def holds_originals_def)

lemma programs_same: "untouched (programs e) h h' \<Longrightarrow> programs_hold e bs ks h' = programs_hold e bs ks h"
  unfolding programs_hold_def by (rule list.rel_cong) (auto simp: untouched_def)

lemma read_originals_ok:
  assumes "read_originals e ps g = (Inr l, g')"
  shows "list_all2 (\<lambda>p (b, k). case h_files g p of None \<Rightarrow> False | Some n \<Rightarrow> content n = b \<and> nd_mode n mod 512 = k) ps l"
  using assms
proof (induction ps arbitrary: g l g')
  case (Cons p ps)
  let ?k = "\<lambda>st. case st of None \<Rightarrow> fail ''invalid installed upgrade file''
     | Some n \<Rightarrow> if nd_kind n \<noteq> KRegular \<or> node_size n > 256 * 2 ^ 20 then fail ''invalid installed upgrade file''
         else andThen (probe e ''read'') (\<lambda>_. andThen (read_originals e ps) (\<lambda>rest. ret ((content n, nd_mode n mod 512) # rest)))"
  from Cons.prems obtain u g1 where 1: "trusted (te_manifest e) p g = (Inr u, g1)"
    and r1: "andThen (probe e ''stat'') (\<lambda>_. andThen (gets (\<lambda>h. h_files h p)) ?k) g1 = (Inr l, g')"
    unfolding read_originals.simps by (rule andThen_Inr)
  from r1 obtain u2 g2 where 2: "probe e ''stat'' g1 = (Inr u2, g2)" "andThen (gets (\<lambda>h. h_files h p)) ?k g2 = (Inr l, g')"
    by (rule andThen_Inr)
  have s2: "same_disk g g2" by (rule sd.R_trans [OF preservesD [OF sd.trusted_kept 1] preservesD [OF sd.probe_kept 2(1)]])
  from 2(2) s2 obtain n where n: "h_files g p = Some n"
    "andThen (probe e ''read'') (\<lambda>_. andThen (read_originals e ps) (\<lambda>rest. ret ((content n, nd_mode n mod 512) # rest))) g2 = (Inr l, g')"
    by (auto simp: andThen_def gets_def fail_def same_disk_def split: option.splits if_splits)
  from n(2) obtain u3 g3 where 3: "probe e ''read'' g2 = (Inr u3, g3)"
    "andThen (read_originals e ps) (\<lambda>rest. ret ((content n, nd_mode n mod 512) # rest)) g3 = (Inr l, g')"
    by (rule andThen_Inr)
  from 3(2) obtain rest g4 where 4: "read_originals e ps g3 = (Inr rest, g4)" "l = (content n, nd_mode n mod 512) # rest"
    by (auto elim!: andThen_Inr simp: ret_def)
  have "same_disk g g3" by (rule sd.R_trans [OF s2 preservesD [OF sd.probe_kept 3(1)]])
  then show ?case using Cons.IH [OF 4(1)] n(1) 4(2) by (simp add: same_disk_def)
qed (simp add: ret_def)

lemma make_vault_work:
  assumes "upgrade_separated e"
  shows "preserves (untouched (programs e)) (make_vault e)"
proof -
  have "preserves (untouched (programs e)) (andThen (gets (\<lambda>h. h_files h dir)) (\<lambda>st.
       andThen (script [require (st = None) ''file exists'',
           call (te_out e) ''mkdir'' (put dir (Some ((root_file None 448)\<lparr>nd_kind := KDirectory\<rparr>))),
           chmod e dir 448])
         (\<lambda>_. ret dir)))" if "dir \<in> vault_dirs e" for dir
    using separatedD(3) [OF assms that] by (auto intro!: un.working un.put_work un.chmod_work)
  moreover have "journalDir (te_manifest e) @ ''/upgrade-'' @ te_uuid e n \<in> vault_dirs e" for n
    by (auto simp: vault_dirs_def Let_def)
  ultimately show ?thesis
    unfolding make_vault_def by (intro un.andThen_gets_kept) (simp only: preserves_def)
qed

lemma make_vault_ok: "make_vault e g = (Inr dir, g') \<Longrightarrow> dir \<in> vault_dirs e"
  unfolding make_vault_def
  by (auto elim!: andThen_Inr simp: gets_def ret_def vault_dirs_def Let_def)

lemma holds_originalsI:
  assumes "length bs = 4" "\<And>i. i < 4 \<Longrightarrow> \<exists>n. h_files h (original_path dir i) = Some n \<and> nd_data n = Some (bs ! i)"
  shows "holds_originals dir bs h"
  using assms(1) assms(2) [of 0] assms(2) [of 1] assms(2) [of 2] assms(2) [of 3]
  by (auto simp: holds_originals_def content_def)

lemma vault_writes_ok:
  assumes "script (map (\<lambda>(i, original, mode). write_file e (original_path dir i) original 384) (zip [0..<4] found)) g = (Inr u, g')"
    and "IsAbs dir" "length found = 4"
  shows "holds_originals dir (map fst found) g'"
proof -
  let ?ws = "map (\<lambda>(i, original, mode). (original_path dir i, original, 384 :: nat)) (zip [0..<4] found)"
  have s: "script (map (\<lambda>(p, d, k). write_file e p d k) ?ws) g = (Inr u, g')"
    using assms(1) by (simp add: comp_def case_prod_beta')
  have "map fst ?ws = map (original_path dir) (map fst (zip [0..<4] found))" by auto
  then have "map fst ?ws = map (original_path dir) [0..<4]" using assms(3) by simp
  moreover have "inj_on (original_path dir) (set [0..<4])"
    by (rule inj_onI) (auto intro: original_inj [OF assms(2)])
  ultimately have d: "distinct (map fst ?ws)" by (simp add: distinct_map)
  show ?thesis
  proof (rule holds_originalsI)
    fix i :: nat
    assume i: "i < 4"
    have "(i, found ! i) \<in> set (zip [0..<4] found)" using i assms(3) by (auto simp: set_zip intro!: exI [of _ i])
    moreover obtain original mode where "found ! i = (original, mode)" by force
    ultimately have "(original_path dir i, fst (found ! i), 384) \<in> set ?ws"
      unfolding set_map by (auto intro!: rev_image_eqI)
    from writes_ok [OF s d this] i assms(3) show "\<exists>n. h_files g' (original_path dir i) = Some n \<and> nd_data n = Some (map fst found ! i)"
      by auto
  qed (use assms(3) in simp)
qed

lemma fresh_vault_triple:
  assumes sep: "upgrade_separated e"
  shows "triple (untouched (programs e) h) (fresh_vault e)
    (\<lambda>v g. untouched (programs e) h g \<and> uv_dir v \<in> vault_dirs e \<and> holds_originals (uv_dir v) (uv_originals v) g \<and> taken_from e h v)
    (untouched (programs e) h)"
proof -
  let ?m = "te_manifest e" and ?R = "untouched (programs e)"
  have ensure: "preserves ?R (ensureTrustedDir e (journalDir ?m))"
    using separatedD(2) [OF sep] upgrade_places(1) [of e] by (intro un.ensure_work) blast
  have read: "\<And>g l g'. ?R h g \<Longrightarrow> read_originals e (upgradePaths ?m) g = (Inr l, g') \<Longrightarrow>
      length l = 4 \<and> programs_hold e (map fst l) (map snd l) h"
  proof
    fix g l g'
    assume *: "?R h g" "read_originals e (upgradePaths ?m) g = (Inr l, g')"
    note l = read_originals_ok [OF *(2)]
    then show "length l = 4" by (auto dest: list_all2_lengthD simp: upgradePaths_def)
    have "programs_hold e (map fst l) (map snd l) g" using l by (simp add: programs_hold_def zip_map_fst_snd)
    then show "programs_hold e (map fst l) (map snd l) h" using programs_same [OF *(1)] by simp
  qed
  show ?thesis
    unfolding fresh_vault_def Let_def
  proof (rule un.related_over [OF un.asking_work(2)], rule un.related_over [OF un.asking_work(2)], rule un.related_over [OF ensure],
      rule un.related_then [OF un.reading_work(5) read], assumption, assumption,
      rule un.related_then [OF make_vault_work [OF sep]], erule make_vault_ok)
    fix service helper :: bool and found :: "(bytes \<times> nat) list" and dir
    assume found: "length found = 4 \<and> programs_hold e (map fst found) (map snd found) h" and dir: "dir \<in> vault_dirs e"
    let ?w = "script (map (\<lambda>(i, original, mode). write_file e (original_path dir i) original 384) (zip [0..<4] found))"
    let ?v = "\<lparr>uv_dir = dir, uv_originals = map fst found, uv_modes = map snd found, uv_active = [service, helper], uv_previous = []\<rparr>"
    have "original_path dir i \<notin> programs e" if "(i, y) \<in> set (zip [0..<4] found)" for i y
      using places_apart(2) [OF sep dir, of i] set_zip_leftD [OF that] by simp
    then have w: "preserves ?R ?w" by (auto intro!: un.script_kept un.write_file_work)
    show "triple (?R h) (andThen ?w (\<lambda>_. ret ?v))
      (\<lambda>v g. ?R h g \<and> uv_dir v \<in> vault_dirs e \<and> holds_originals (uv_dir v) (uv_originals v) g \<and> taken_from e h v) (?R h)"
    proof (rule triple_andThen [where R = "\<lambda>_ g. ?R h g \<and> holds_originals dir (map fst found) g"])
      show "triple (?R h) ?w (\<lambda>_ g. ?R h g \<and> holds_originals dir (map fst found) g) (?R h)"
        using vault_writes_ok [of e dir found] separatedD(3) [OF sep dir] found
        by (intro tripleI) (auto intro: un.R_trans dest: preservesD [OF w])
      show "triple (\<lambda>g. ?R h g \<and> holds_originals dir (map fst found) g) (ret ?v)
        (\<lambda>v g. ?R h g \<and> uv_dir v \<in> vault_dirs e \<and> holds_originals (uv_dir v) (uv_originals v) g \<and> taken_from e h v) (?R h)" for u
        using found dir by (intro triple_ret) (simp add: taken_from_def)
    qed
  qed
qed

lemma originals_not_attempt: "IsAbs dir \<Longrightarrow> Join [dir, attempt_name now] \<notin> originals_in dir"
proof -
  assume "IsAbs dir"
  then have "original_path dir i \<noteq> Join [dir, attempt_name now]" if "i < 4" for i
    using original_other [OF _ that attempt_plain, of dir now] by (simp add: attempt_name_def del: Join.simps)
  then show ?thesis by (metis (no_types, lifting) imageE mem_Collect_eq)
qed

lemma pending_vault_triple:
  assumes sep: "upgrade_separated e" and i: "interrupted e s dir bs h"
  shows "triple (untouched (programs e \<union> originals_in dir) h) (pending_vault e s dir bs)
    (\<lambda>v g. untouched (programs e) h g \<and> uv_dir v \<in> vault_dirs e \<and> holds_originals (uv_dir v) (uv_originals v) g \<and> taken_from e h v)
    (untouched (programs e \<union> originals_in dir) h)"
proof -
  let ?A = "programs e \<union> originals_in dir"
  have dir: "dir \<in> vault_dirs e"
    using i by (auto simp: interrupted_def vault_dirs_def Let_def simp del: Join.simps)
  have w: "preserves (untouched ?A) (write_file e (Join [dir, attempt_name now]) b 384)" for now b
    using separatedD(3) [OF sep dir] places_apart(3) [OF sep dir, of now] originals_not_attempt [of dir now]
    by (intro un.write_file_work) (auto simp del: Join.simps)
  let ?v = "\<lambda>previous. \<lparr>uv_dir = dir, uv_originals = bs, uv_modes = su_Modes s, uv_active = su_Active s, uv_previous = previous\<rparr>"
  have "taken_from e h (?v previous)" for previous
    unfolding taken_from_def using i by (intro disjI2 exI [of _ s]) simp
  then have result: "untouched ?A h g \<Longrightarrow> untouched (programs e) h g \<and> uv_dir (?v previous) \<in> vault_dirs e \<and>
      holds_originals (uv_dir (?v previous)) (uv_originals (?v previous)) g \<and> taken_from e h (?v previous)" for g previous
    using i originals_same [of dir h g bs] dir
    by (auto simp: untouched_def interrupted_def simp del: Join.simps)
  show ?thesis
    unfolding pending_vault_def
    by (rule un.related_then [OF un.gets_kept, where F = "\<lambda>previous. \<exists>now. previous = attempt_name now"])
      (auto simp: gets_def simp del: Join.simps intro!: un.related_over un.probe_kept un.gets_kept w triple_fail triple_ret result
        split: option.split)
qed

section \<open>The journal of the upgrade\<close>

definition journal_says :: "host_env \<Rightarrow> string \<Rightarrow> upgrade_vault \<Rightarrow> string list \<Rightarrow> host \<Rightarrow> bool" where
  "journal_says e version v phases h \<longleftrightarrow> (\<exists>phase now b. phase \<in> set phases \<and>
     te_encode_upgrade e (upgrade_record e version v phase now) = Some b \<and>
     (case h_files h (upgrade_journal (uv_dir v)) of None \<Rightarrow> False | Some n \<Rightarrow> nd_data n = Some (b @ [CHR 0x0A])))"

text \<open>The phases that \<open>pendingSoftwareUpgrade\<close> takes up again; it passes over "completed" and "restored".\<close>

definition unfinished :: "string list" where
  "unfinished = [''prepared'', ''replacing'', ''restore_failed'']"

lemma journal_same: "untouched {upgrade_journal (uv_dir v)} h h' \<Longrightarrow> journal_says e version v phases h' = journal_says e version v phases h"
  by (simp add: journal_says_def untouched_def)

lemma journal_more: "journal_says e version v phases h \<Longrightarrow> set phases \<subseteq> set phases' \<Longrightarrow> journal_says e version v phases' h"
  unfolding journal_says_def by blast

text \<open>A write either leaves the file as it was or has put the new one in its place.\<close>

lemma write_file_result:
  assumes "write_file e p d k h = (r, h')"
  shows "h_files h' p = h_files h p \<and> isl r \<or> (\<exists>n. h_files h' p = Some n \<and> nd_data n = Some d)"
  using assms
  by (auto simp: write_file_def write_owned_def andThen_def gets_def fail_def call_def put_def Let_def root_file_def
      split: option.splits if_splits outcome.splits)

lemma write_phase_result:
  assumes "write_phase e version v phase h = (r, h')"
  shows "(\<not> isl r \<longrightarrow> journal_says e version v [phase] h') \<and>
    (journal_says e version v phases h \<longrightarrow> journal_says e version v (phase # phases) h')"
proof -
  let ?now = "te_now e (h_tick h)" and ?j = "upgrade_journal (uv_dir v)"
  have w: "write_json e ?j (te_encode_upgrade e (upgrade_record e version v phase ?now)) 384 h = (r, h')"
    using assms by (simp add: write_phase_def andThen_def gets_def)
  show ?thesis
  proof (cases "te_encode_upgrade e (upgrade_record e version v phase ?now)")
    case None
    with w show ?thesis by (auto simp: write_json_def encoded_def fail_def intro: journal_more)
  next
    case (Some b)
    then have "write_file e ?j (b @ [CHR 0x0A]) 384 h = (r, h')" using w by (simp add: write_json_def encoded_def)
    from write_file_result [OF this] show ?thesis
    proof (elim disjE exE conjE)
      assume "h_files h' ?j = h_files h ?j" "isl r"
      then show ?thesis using journal_same [of v h h' e version phases] by (auto simp: untouched_def intro: journal_more)
    next
      fix n
      assume n: "h_files h' ?j = Some n" "nd_data n = Some (b @ [CHR 0x0A])"
      then have "journal_says e version v [phase] h'"
        using Some unfolding journal_says_def by (intro exI [of _ phase] exI [of _ ?now] exI [of _ b]) simp
      then show ?thesis by (auto intro: journal_more)
    qed
  qed
qed

text \<open>What every step of a replacement and of a rollback keeps: the originals, and a journal in one of the phases \<open>ps\<close>.\<close>

definition guarded :: "host_env \<Rightarrow> string \<Rightarrow> upgrade_vault \<Rightarrow> string list \<Rightarrow> host \<Rightarrow> host \<Rightarrow> bool" where
  "guarded e version v ps h h' \<longleftrightarrow> untouched (originals_in (uv_dir v)) h h' \<and>
     (journal_says e version v ps h \<longrightarrow> journal_says e version v ps h')"

interpretation gd: host_relation "guarded e version v ps" for e version v ps
  by unfold_locales (auto simp: guarded_def untouched_def journal_says_def)

lemma guardedI:
  assumes "preserves (untouched (insert (upgrade_journal (uv_dir v)) (originals_in (uv_dir v)))) s"
  shows "preserves (guarded e version v ps) s"
  unfolding preserves_def guarded_def
proof (intro allI conjI impI)
  fix h
  have "untouched (insert (upgrade_journal (uv_dir v)) (originals_in (uv_dir v))) h (snd (s h))"
    using assms by (simp add: preserves_def)
  then have *: "untouched (originals_in (uv_dir v)) h (snd (s h))" "untouched {upgrade_journal (uv_dir v)} h (snd (s h))"
    by (auto simp: untouched_def)
  show "untouched (originals_in (uv_dir v)) h (snd (s h))" by (rule *(1))
  show "journal_says e version v ps h \<Longrightarrow> journal_says e version v ps (snd (s h))"
    using journal_same [OF *(2)] by simp
qed

lemma journal_apart: "IsAbs dir \<Longrightarrow> upgrade_journal dir \<notin> originals_in dir"
proof -
  assume "IsAbs dir"
  then have "original_path dir i \<noteq> upgrade_journal dir" if "i < 4" for i
    using original_other [OF _ that, of dir "''upgrade.json''"] by (simp add: plain_def upgrade_journal_def del: Join.simps)
  then show ?thesis by (metis (no_types, lifting) imageE mem_Collect_eq)
qed

lemma write_phase_untouched: "upgrade_journal (uv_dir v) \<notin> A \<Longrightarrow> preserves (untouched A) (write_phase e version v phase)"
  unfolding write_phase_def by (intro un.working un.write_json_work)

lemma write_phase_guarded:
  assumes "phase \<in> set ps" "IsAbs (uv_dir v)"
  shows "preserves (guarded e version v ps) (write_phase e version v phase)"
  unfolding preserves_def guarded_def
proof (intro allI conjI impI)
  fix h
  obtain r h' where w: "write_phase e version v phase h = (r, h')" by force
  show "untouched (originals_in (uv_dir v)) h (snd (write_phase e version v phase h))"
    using write_phase_untouched [OF journal_apart [OF assms(2)]] by (simp add: preserves_def)
  assume "journal_says e version v ps h"
  then have "journal_says e version v (phase # ps) h'" using write_phase_result [OF w] by blast
  then show "journal_says e version v ps (snd (write_phase e version v phase h))"
    using w assms(1) by (auto intro: journal_more)
qed

section \<open>Replacement and rollback\<close>

lemma places_insert:
  assumes "uv_dir v \<in> vault_dirs e"
  shows "insert (upgrade_journal (uv_dir v)) (originals_in (uv_dir v)) \<subseteq> upgrade_files e"
  using upgrade_places(2,3) [OF assms] by blast

lemma program_writes_guarded:
  assumes sep: "upgrade_separated e" and dir: "uv_dir v \<in> vault_dirs e" and p: "p \<in> programs e"
  shows "preserves (guarded e version v ps) (write_file e p d k)" "preserves (guarded e version v ps) (write_json e p j k)"
proof -
  have "p \<notin> insert (upgrade_journal (uv_dir v)) (originals_in (uv_dir v))"
    using places_apart(1,2) [OF sep dir] p by auto
  note out = this
  show "preserves (guarded e version v ps) (write_file e p d k)" by (intro guardedI un.write_file_work out)
  show "preserves (guarded e version v ps) (write_json e p j k)" by (intro guardedI un.write_json_work out)
qed

lemma services_guarded:
  assumes "upgrade_hands_off e" "uv_dir v \<in> vault_dirs e"
  shows "s \<in> set (stop_units e) \<Longrightarrow> preserves (guarded e version v ps) s" "s \<in> set (start_units e active) \<Longrightarrow> preserves (guarded e version v ps) s"
  using services_untouched [OF assms(1) places_insert [OF assms(2)]] by (auto intro: guardedI)

lemma zip_programs: "(p, d, k) \<in> set (zip (upgradePaths m) (zip ds ks)) \<Longrightarrow> p \<in> set (upgradePaths m)"
  by (auto dest: set_zip_leftD)

lemma program_files_guarded:
  assumes "upgrade_separated e" "uv_dir v \<in> vault_dirs e"
    and "s \<in> set (map (\<lambda>(p, data, mode). write_file e p data mode) (zip (upgradePaths (te_manifest e)) (zip ds ks)))"
  shows "preserves (guarded e version v ps) s"
proof -
  from assms(3) obtain p d k where s: "s = write_file e p d k" "(p, d, k) \<in> set (zip (upgradePaths (te_manifest e)) (zip ds ks))"
    by (auto simp del: set_zip)
  show ?thesis unfolding s(1) by (rule program_writes_guarded(1) [OF assms(1,2) zip_programs [OF s(2)]])
qed

text \<open>The replacement up to the two last calls: the journal "completed" and the line that is printed.\<close>

definition replace_steps :: "host_env \<Rightarrow> string \<Rightarrow> upgrade_plan \<Rightarrow> upgrade_vault \<Rightarrow> unit step list" where
  "replace_steps e version plan v =
     (let m = te_manifest e in
      stop_units e @
      [write_phase e version v ''replacing''] @
      map (\<lambda>(p, data, mode). write_file e p data mode) (zip (upgradePaths m) (zip (up_programs plan) (uv_modes v))) @
      [write_json e (helperConfig m) (te_encode_rescue e ((up_config plan)\<lparr>rs_Version := version\<rparr>)) (uv_modes v ! 3)] @
      start_units e (uv_active v))"

lemma replace_split:
  "replace_programs e version plan v = script (replace_steps e version plan v @ [write_phase e version v ''completed'', probe e ''print''])"
  by (simp add: replace_programs_def replace_steps_def Let_def)

lemma replace_guarded:
  assumes "upgrade_separated e" "upgrade_hands_off e" "uv_dir v \<in> vault_dirs e"
  shows "preserves (guarded e version v unfinished) (script (replace_steps e version plan v))"
proof -
  let ?P = "preserves (guarded e version v unfinished)" and ?m = "te_manifest e"
  have abs: "IsAbs (uv_dir v)" using separatedD(3) [OF assms(1,3)] by simp
  have phases: "''replacing'' \<in> set unfinished" by (simp add: unfinished_def)
  have config: "?P (write_json e (helperConfig ?m) j k)" for j k
    by (rule program_writes_guarded(2) [OF assms(1,3)]) (simp add: upgradePaths_def)
  note steps = services_guarded [OF assms(2,3)] program_files_guarded [OF assms(1,3)] config
    write_phase_guarded [OF phases abs]
  show ?thesis
    unfolding replace_steps_def Let_def
    by (rule gd.script_kept, unfold set_append list.set Un_iff insert_iff empty_iff)
      (elim disjE FalseE; (simp only:)?; rule steps; assumption?)
qed

definition programs_written :: "host_env \<Rightarrow> bytes list \<Rightarrow> nat list \<Rightarrow> host \<Rightarrow> bool" where
  "programs_written e bs modes h \<longleftrightarrow> list_all2 (\<lambda>p (b, k). case h_files h p of None \<Rightarrow> False
     | Some n \<Rightarrow> nd_data n = Some b \<and> nd_mode n = k) (upgradePaths (te_manifest e)) (zip bs modes)"

lemma written_same: "untouched (programs e) h h' \<Longrightarrow> programs_written e bs ks h' = programs_written e bs ks h"
  unfolding programs_written_def by (rule list.rel_cong) (auto simp: untouched_def)

lemma writes_at:
  assumes "script (map (\<lambda>(p, data, mode). write_file e p data mode) (zip ps (zip ds ks))) h = (Inr u, h')" "distinct ps"
    and "i < length ps" "i < length ds" "i < length ks"
  shows "\<exists>n. h_files h' (ps ! i) = Some n \<and> nd_data n = Some (ds ! i) \<and> nd_mode n = ks ! i"
proof (rule writes_ok [OF assms(1)])
  show "distinct (map fst (zip ps (zip ds ks)))" using assms(2) by (simp add: map_fst_zip_take)
  show "(ps ! i, ds ! i, ks ! i) \<in> set (zip ps (zip ds ks))" using assms(3-5) by (auto simp: set_zip)
qed

lemma length_paths: "length (upgradePaths m) = 4"
  by (simp add: upgradePaths_def)

lemma restored_written:
  assumes "script (stop_units e @ restore_programs e v) h = (Inr u, h')" "upgrade_separated e"
    and "length (uv_originals v) = 4" "length (uv_modes v) = 4"
  shows "programs_written e (uv_originals v) (uv_modes v) h'"
proof -
  from assms(1) obtain h1 where "script (restore_programs e v) h1 = (Inr u, h')"
    by (auto simp: script_append dest!: andThen_ok)
  then have "script (map (\<lambda>(p, data, mode). write_file e p data mode)
      (zip (upgradePaths (te_manifest e)) (zip (uv_originals v) (uv_modes v)))) h1 = (Inr u, h')" by (simp add: restore_programs_def)
  from writes_at [OF this separatedD(1) [OF assms(2)]] assms(3,4) show ?thesis
    by (fastforce simp: programs_written_def list_all2_conv_all_nth length_paths)
qed

lemma start_units_programs:
  assumes "upgrade_hands_off e" "s \<in> set (start_units e active)"
  shows "preserves (untouched (programs e)) s"
  by (rule services_untouched(2) [OF assms(1) upgrade_places(1) assms(2)])

lemma journal_split: "journal_says e version v (phase # phases) h \<Longrightarrow> journal_says e version v [phase] h \<or> journal_says e version v phases h"
  unfolding journal_says_def by auto

text \<open>How a command that had begun to change programs ends when it reports an error.\<close>

definition undone_error :: go_error where
  "undone_error = local_error ''previous Agent, Host, rescue and configuration restored''"

text \<open>What a rollback leaves when it began with a journal in one of the phases \<open>ps\<close>.\<close>

lemma roll_back_ends:
  assumes sep: "upgrade_separated e" and hands: "upgrade_hands_off e" and dir: "uv_dir v \<in> vault_dirs e"
    and len: "length (uv_originals v) = 4" "length (uv_modes v) = 4"
    and run: "roll_back e version v g = (r, h')" and j: "journal_says e version v ps g"
  shows "\<exists>err. r = Inl err \<and> untouched (originals_in (uv_dir v)) g h' \<and>
    (journal_says e version v (''restore_failed'' # ps) h' \<or>
     journal_says e version v [''restored''] h' \<and> programs_written e (uv_originals v) (uv_modes v) h') \<and>
    (err = undone_error \<longrightarrow> programs_written e (uv_originals v) (uv_modes v) h')"
proof -
  let ?G = "guarded e version v ps" and ?W = "programs_written e (uv_originals v) (uv_modes v)"
  have abs: "IsAbs (uv_dir v)" using separatedD(3) [OF sep dir] by simp
  have jp: "upgrade_journal (uv_dir v) \<notin> programs e"
    by (rule places_apart(1) [OF sep dir])
  obtain written h1 where 1: "tally (stop_units e @ restore_programs e v) g = (Inr written, h1)"
      "written \<longrightarrow> script (stop_units e @ restore_programs e v) g = (Inr (), h1)"
    using tally_runs by blast
  have "preserves ?G (tally (stop_units e @ restore_programs e v))"
    by (rule gd.tally_kept, unfold restore_programs_def set_append Un_iff)
      (elim disjE; rule services_guarded(1) [OF hands dir] program_files_guarded [OF sep dir]; assumption)
  from preservesD [OF this 1(1)] have g1: "?G g h1" .
  define second where "second = (if written then tally (start_units e (uv_active v)) else ret False)"
  obtain clean h2 where 2: "second h1 = (Inr clean, h2)"
    using tally_runs [of "start_units e (uv_active v)" h1] by (cases written) (auto simp: second_def ret_def)
  have "preserves ?G second" "preserves (untouched (programs e)) second"
    using services_guarded(2) [OF hands dir] start_units_programs [OF hands]
    by (auto simp: second_def intro!: gd.tally_kept un.tally_kept gd.ret_kept un.ret_kept)
  from preservesD [OF this(1) 2] preservesD [OF this(2) 2] have g2: "?G g h2" and u2: "untouched (programs e) h1 h2"
    using gd.R_trans [OF g1] by auto
  have w2: "?W h2" if clean
  proof -
    have written using 2 that by (auto simp: second_def ret_def split: if_splits)
    then have "?W h1" using restored_written [OF _ sep len] 1(2) by blast
    then show ?thesis using written_same [OF u2] by simp
  qed
  let ?phase = "if clean then ''restored'' else ''restore_failed''"
  obtain q h3 where 3: "write_phase e version v ?phase h2 = (q, h3)" by force
  have r: "r = Inl (if clean then undone_error else local_error ''rollback incomplete'')" "h' = h3"
    using run 1(1) 2 3
    by (auto simp: roll_back_def andThen_def second_def [symmetric] script.simps ignoring_def fail_def undone_error_def split: if_splits)
  have u3: "untouched (programs e) h2 h3" "untouched (originals_in (uv_dir v)) h2 h3"
    using preservesD [OF write_phase_untouched [OF jp] 3] preservesD [OF write_phase_untouched [OF journal_apart [OF abs]] 3] by auto
  have j2: "journal_says e version v ps h2" using g2 j by (simp add: guarded_def)
  from write_phase_result [OF 3] j2 have "journal_says e version v (?phase # ps) h3" by blast
  then have "journal_says e version v (''restore_failed'' # ps) h3 \<or> clean \<and> journal_says e version v [''restored''] h3"
    using journal_split [of e version v "''restored''" ps h3] journal_more [of e version v ps h3 "''restore_failed'' # ps"]
    by (auto split: if_splits)
  moreover have "clean \<longrightarrow> ?W h3" using w2 written_same [OF u3(1)] by simp
  moreover have "local_error ''rollback incomplete'' \<noteq> undone_error" by (simp add: undone_error_def local_error_def)
  moreover have "untouched (originals_in (uv_dir v)) g h3" using g2 u3(2) by (simp add: guarded_def untouched_def)
  ultimately show ?thesis using r by auto
qed


text \<open>A command that succeeds has put the vouched programs in place, with the configuration for their version.\<close>

definition installed :: "host_env \<Rightarrow> string \<Rightarrow> upgrade_plan \<Rightarrow> upgrade_vault \<Rightarrow> host \<Rightarrow> bool" where
  "installed e version plan v h \<longleftrightarrow>
     list_all (\<lambda>i. case h_files h (upgradePaths (te_manifest e) ! i) of None \<Rightarrow> False
       | Some n \<Rightarrow> nd_data n = Some (up_programs plan ! i) \<and> nd_mode n = uv_modes v ! i) [0, 1, 2] \<and>
     (case (te_encode_rescue e ((up_config plan)\<lparr>rs_Version := version\<rparr>), h_files h (helperConfig (te_manifest e))) of
        (Some b, Some n) \<Rightarrow> nd_data n = Some (b @ [CHR 0x0A]) | _ \<Rightarrow> False)"

lemma installed_same: "untouched (programs e) h h' \<Longrightarrow> installed e version plan v h' = installed e version plan v h"
  by (simp add: installed_def untouched_def upgradePaths_def)

lemma write_json_ok: "write_json e p j k h = (Inr u, h') \<Longrightarrow> \<exists>b n. j = Some b \<and> h_files h' p = Some n \<and> nd_data n = Some (b @ [CHR 0x0A])"
  by (auto simp: write_json_def encoded_def fail_def split: option.splits dest: write_file_ok)

text \<open>The steps before the last two put everything in place; the last two leave it there.\<close>

lemma replace_installs:
  assumes sep: "upgrade_separated e" and hands: "upgrade_hands_off e"
    and len: "length (up_programs plan) = 3" "length (uv_modes v) = 4"
    and run: "script (replace_steps e version plan v) g = (Inr u, h')"
  shows "installed e version plan v h'"
proof -
  let ?m = "te_manifest e" and ?cfg = "te_encode_rescue e ((up_config plan)\<lparr>rs_Version := version\<rparr>)"
  let ?files = "map (\<lambda>(p, data, mode). write_file e p data mode) (zip (upgradePaths ?m) (zip (up_programs plan) (uv_modes v)))"
  let ?config = "write_json e (helperConfig ?m) ?cfg (uv_modes v ! 3)"
  let ?starts = "start_units e (uv_active v)"
  from run obtain h1 where "script (?files @ [?config] @ ?starts) h1 = (Inr u, h')"
    unfolding replace_steps_def Let_def by (auto simp: script_append simp del: append.simps dest!: andThen_ok)
  then obtain h2 u2 where files: "script ?files h1 = (Inr u2, h2)" and r2: "script ([?config] @ ?starts) h2 = (Inr u, h')"
    by (auto simp: script_append simp del: append.simps dest!: andThen_ok)
  from r2 obtain h3 u3 where config: "?config h2 = (Inr u3, h3)" and starts: "script ?starts h3 = (Inr u, h')"
    by (auto simp: script.simps dest!: andThen_ok)
  have new: "\<exists>n. h_files h2 (upgradePaths ?m ! i) = Some n \<and> nd_data n = Some (up_programs plan ! i) \<and> nd_mode n = uv_modes v ! i"
    if "i < 3" for i
    using writes_at [OF files separatedD(1) [OF sep], of i] that len by (simp add: length_paths)
  have "set (take 3 (upgradePaths ?m)) \<inter> {helperConfig ?m} = {}"
    using separatedD(1) [OF sep] by (auto simp: upgradePaths_def)
  then have "untouched (set (take 3 (upgradePaths ?m))) h2 h3"
    by (intro preservesD [OF un.write_json_work config]) auto
  then have i3: "installed e version plan v h3"
    using new [of 0] new [of 1] new [of 2] write_json_ok [OF config]
    by (auto simp: installed_def untouched_def upgradePaths_def)
  have "untouched (programs e) h3 h'"
    by (rule preservesD [OF un.script_kept starts]) (rule start_units_programs [OF hands])
  then show ?thesis using i3 installed_same by blast
qed

lemma last_steps:
  assumes sep: "upgrade_separated e" and dir: "uv_dir v \<in> vault_dirs e"
    and run: "script [write_phase e version v ''completed'', probe e ''print''] g = (r, h')"
  shows "untouched (programs e) g h' \<and> untouched (originals_in (uv_dir v)) g h' \<and>
    (\<not> isl r \<longrightarrow> journal_says e version v [''completed''] h') \<and>
    (journal_says e version v ps g \<longrightarrow> journal_says e version v (''completed'' # ps) h')"
proof -
  have abs: "IsAbs (uv_dir v)" using separatedD(3) [OF sep dir] by simp
  obtain x h1 where 1: "write_phase e version v ''completed'' g = (x, h1)" by force
  have u: "untouched (programs e) g h1" "untouched (originals_in (uv_dir v)) g h1"
    using preservesD [OF write_phase_untouched [OF places_apart(1) [OF sep dir]] 1]
      preservesD [OF write_phase_untouched [OF journal_apart [OF abs]] 1] by auto
  obtain y h2 where 2: "probe e ''print'' h1 = (y, h2)" by force
  have "untouched UNIV h1 h2" by (rule preservesD [OF un.probe_kept 2])
  then have same: "h_files h2 = h_files h1" by (auto simp: untouched_def)
  have r: "h' = (if isl x then h1 else h2)" "isl r \<longleftrightarrow> isl x \<or> isl y"
    using run 1 2 by (auto simp: script.simps andThen_def ret_def split: sum.splits)
  then have f: "h_files h' = h_files h1" using same by simp
  then have j: "journal_says e version v phases h' = journal_says e version v phases h1" for phases
    by (simp add: journal_says_def)
  note w = write_phase_result [OF 1]
  have "untouched (programs e) g h'" "untouched (originals_in (uv_dir v)) g h'"
    using u by (simp_all add: untouched_def f)
  moreover have "\<not> isl r \<longrightarrow> journal_says e version v [''completed''] h'" using w r(2) unfolding j by blast
  moreover have "journal_says e version v ps g \<longrightarrow> journal_says e version v (''completed'' # ps) h'" using w unfolding j by blast
  ultimately show ?thesis by blast
qed

text \<open>
  How a command that had begun to change programs ends when it reports an error. The last case is the one of an upgrade
  that had been carried out and checked: the journal says "completed" because its last write took effect although it
  failed, or because the line that is printed failed after it; the rollback was then not finished, or could not be noted.
\<close>

definition undone :: "host_env \<Rightarrow> string \<Rightarrow> upgrade_plan \<Rightarrow> upgrade_vault \<Rightarrow> go_error \<Rightarrow> host \<Rightarrow> bool" where
  "undone e version plan v err h \<longleftrightarrow>
     (journal_says e version v unfinished h \<or>
      journal_says e version v [''restored''] h \<and> programs_written e (uv_originals v) (uv_modes v) h \<or>
      journal_says e version v [''completed''] h \<and>
        (\<exists>g x g'. installed e version plan v g \<and>
           script [write_phase e version v ''completed'', probe e ''print''] g = (Inl x, g') \<and> installed e version plan v g' \<and>
           journal_says e version v [''completed''] g' \<and> roll_back e version v g' = (Inl err, h))) \<and>
     (err = undone_error \<longrightarrow> programs_written e (uv_originals v) (uv_modes v) h)"

lemma upgrade_programs_ends:
  assumes sep: "upgrade_separated e" and hands: "upgrade_hands_off e" and dir: "uv_dir v \<in> vault_dirs e"
    and len: "length (up_programs plan) = 3" "length (uv_modes v) = 4"
    and o: "holds_originals (uv_dir v) (uv_originals v) g" and j: "journal_says e version v unfinished g"
    and run: "upgrade_programs e version plan v g = (r, h')"
  shows "holds_originals (uv_dir v) (uv_originals v) h' \<and>
    (case r of Inr u \<Rightarrow> installed e version plan v h' \<and> journal_says e version v [''completed''] h' | Inl err \<Rightarrow> undone e version plan v err h')"
proof -
  let ?last = "[write_phase e version v ''completed'', probe e ''print'']"
  have len4: "length (uv_originals v) = 4" using o by (simp add: holds_originals_def)
  note rolled = roll_back_ends [OF sep hands dir len4 len(2)]
  have sub: "set (''restore_failed'' # unfinished) \<subseteq> set unfinished" by (simp add: unfinished_def)
  obtain q h1 where 1: "script (replace_steps e version plan v) g = (q, h1)" by force
  from preservesD [OF replace_guarded [OF sep hands dir] 1]
  have o1: "holds_originals (uv_dir v) (uv_originals v) h1" and j1: "journal_says e version v unfinished h1"
    using originals_same [OF _ o] j by (auto simp: guarded_def)
  show ?thesis
  proof (cases q)
    case (Inl err)
    then have "replace_programs e version plan v g = (Inl err, h1)" using 1 by (simp add: replace_split script_append andThen_def)
    with run have "roll_back e version v h1 = (r, h')" by (simp add: upgrade_programs_def)
    from rolled [OF this j1] obtain err' where e: "r = Inl err'" "untouched (originals_in (uv_dir v)) h1 h'"
      "journal_says e version v (''restore_failed'' # unfinished) h' \<or>
       journal_says e version v [''restored''] h' \<and> programs_written e (uv_originals v) (uv_modes v) h'"
      "err' = undone_error \<longrightarrow> programs_written e (uv_originals v) (uv_modes v) h'" by blast
    from e(3) have "undone e version plan v err' h'"
      unfolding undone_def using journal_more [OF _ sub] e(4) by blast
    then show ?thesis using originals_same [OF e(2) o1] e(1) by simp
  next
    case (Inr u)
    have i1: "installed e version plan v h1" by (rule replace_installs [OF sep hands len 1 [unfolded Inr]])
    obtain x h2 where 2: "script ?last h1 = (x, h2)" by force
    note L = last_steps [OF sep dir 2, of unfinished]
    have rep: "replace_programs e version plan v g = (x, h2)" using 1 2 Inr by (simp add: replace_split script_append andThen_def)
    have o2: "holds_originals (uv_dir v) (uv_originals v) h2" and i2: "installed e version plan v h2"
      using L originals_same [OF _ o1] installed_same i1 by blast+
    show ?thesis
    proof (cases x)
      case (Inr u')
      with run rep have "r = Inr u'" "h' = h2" by (simp_all add: upgrade_programs_def)
      with o2 i2 L Inr show ?thesis by simp
    next
      case x: (Inl err)
      with run rep have rb: "roll_back e version v h2 = (r, h')" by (simp add: upgrade_programs_def)
      have "journal_says e version v (''completed'' # unfinished) h2" using L j1 by blast
      from journal_split [OF this] show ?thesis
      proof
        assume "journal_says e version v unfinished h2"
        from rolled [OF rb this] obtain err' where e: "r = Inl err'" "untouched (originals_in (uv_dir v)) h2 h'"
          "journal_says e version v (''restore_failed'' # unfinished) h' \<or>
           journal_says e version v [''restored''] h' \<and> programs_written e (uv_originals v) (uv_modes v) h'"
          "err' = undone_error \<longrightarrow> programs_written e (uv_originals v) (uv_modes v) h'" by blast
        from e(3) have "undone e version plan v err' h'"
          unfolding undone_def using journal_more [OF _ sub] e(4) by blast
        then show ?thesis using originals_same [OF e(2) o2] e(1) by simp
      next
        assume c: "journal_says e version v [''completed''] h2"
        from rolled [OF rb this] obtain err' where e: "r = Inl err'" "untouched (originals_in (uv_dir v)) h2 h'"
          "journal_says e version v [''restore_failed'', ''completed''] h' \<or>
           journal_says e version v [''restored''] h' \<and> programs_written e (uv_originals v) (uv_modes v) h'"
          "err' = undone_error \<longrightarrow> programs_written e (uv_originals v) (uv_modes v) h'" by blast
        have "journal_says e version v [''restore_failed''] h' \<Longrightarrow> journal_says e version v unfinished h'"
          by (erule journal_more) (simp add: unfinished_def)
        then have "undone e version plan v err' h'"
          unfolding undone_def using journal_split [of e version v "''restore_failed''" "[''completed'']" h'] e(3,4) i1 i2 c 2 x rb e(1)
          by blast
        then show ?thesis using originals_same [OF e(2) o2] e(1) by simp
      qed
    qed
  qed
qed

section \<open>The whole command\<close>

definition prepared :: "host_env \<Rightarrow> string \<Rightarrow> host \<Rightarrow> upgrade_vault \<Rightarrow> host \<Rightarrow> bool" where
  "prepared e version h v g \<longleftrightarrow> untouched (programs e) h g \<and> uv_dir v \<in> vault_dirs e \<and> taken_from e h v \<and>
     length (uv_modes v) = 4 \<and> holds_originals (uv_dir v) (uv_originals v) g \<and> journal_says e version v unfinished g"

lemma triple_run: "triple P s Q E \<Longrightarrow> P h \<Longrightarrow> s h = (r, h') \<Longrightarrow> (case r of Inl err \<Rightarrow> E h' | Inr x \<Rightarrow> Q x h')"
  unfolding triple_def by (drule spec [of _ h]) (simp split: sum.splits)

lemma prepare_ends:
  assumes sep: "upgrade_separated e" and found: "found_pending e h (up_pending plan)" and disk: "same_disk h g"
    and run: "prepare_upgrade e version plan g = (r, h')"
  shows "case r of Inl err \<Rightarrow> untouched (programs e) h h' | Inr v \<Rightarrow> prepared e version h v h'"
proof -
  let ?U = "untouched (programs e)"
  define vault where "vault = (case up_pending plan of None \<Rightarrow> fresh_vault e | Some (s, dir, originals) \<Rightarrow> pending_vault e s dir originals)"
  have V: "triple (same_disk h) vault
    (\<lambda>v g. ?U h g \<and> uv_dir v \<in> vault_dirs e \<and> holds_originals (uv_dir v) (uv_originals v) g \<and> taken_from e h v) (?U h)"
  proof (cases "up_pending plan")
    case None
    then show ?thesis
      unfolding vault_def by (simp, intro triple_conseq [OF fresh_vault_triple [OF sep]]) (auto simp: same_disk_def untouched_def)
  next
    case (Some x)
    obtain s dir bs where x: "x = (s, dir, bs)" by (cases x)
    then have "interrupted e s dir bs h" using found Some by (simp add: found_pending_def)
    from pending_vault_triple [OF sep this] show ?thesis
      unfolding vault_def Some x option.case prod.case
      by (rule triple_conseq) (auto simp: same_disk_def untouched_def)
  qed
  obtain q g1 where 1: "vault g = (q, g1)" by force
  show ?thesis
  proof (cases q)
    case (Inl err)
    then have "r = Inl err" "h' = g1" using run 1 by (auto simp: prepare_upgrade_def vault_def [symmetric] andThen_def)
    then show ?thesis using triple_run [OF V disk 1] Inl by simp
  next
    case (Inr v)
    then have v: "?U h g1" "uv_dir v \<in> vault_dirs e" "holds_originals (uv_dir v) (uv_originals v) g1" "taken_from e h v"
      using triple_run [OF V disk 1] by simp_all
    let ?ok = "validateUpgradeJournal (te_manifest e) (upgrade_record e version v ''prepared'' 0)"
    show ?thesis
    proof (cases ?ok)
      case False
      then have "\<exists>err. r = Inl err" "h' = g1"
        using run 1 Inr by (auto simp: prepare_upgrade_def vault_def [symmetric] andThen_def require_def fail_def)
      then show ?thesis using v(1) by auto
    next
      case True
      then have modes: "length (uv_modes v) = 4" by (auto simp: validateUpgradeJournal_def upgrade_record_def)
      obtain w g2 where 2: "write_phase e version v ''prepared'' g1 = (w, g2)" by force
      have abs: "IsAbs (uv_dir v)" using separatedD(3) [OF sep v(2)] by simp
      have r: "h' = g2" "r = (case w of Inl err \<Rightarrow> Inl err | Inr u \<Rightarrow> Inr v)"
        using run 1 Inr True 2
        by (auto simp: prepare_upgrade_def vault_def [symmetric] andThen_def require_def ret_def split: sum.splits)
      have "?U g1 g2" by (rule preservesD [OF write_phase_untouched [OF places_apart(1) [OF sep v(2)]] 2])
      then have u: "?U h g2" using v(1) by (simp add: untouched_def)
      have "untouched (originals_in (uv_dir v)) g1 g2"
        by (rule preservesD [OF write_phase_untouched [OF journal_apart [OF abs]] 2])
      then have o: "holds_originals (uv_dir v) (uv_originals v) g2" by (rule originals_same [OF _ v(3)])
      have j: "journal_says e version v unfinished g2" if "w = Inr ()"
        using write_phase_result [OF 2, of "[]"] that journal_more [of e version v "[''prepared'']" g2 unfinished]
        by (simp add: unfinished_def)
      show ?thesis using r u o j v(2,4) modes by (cases w) (simp_all add: prepared_def)
    qed
  qed
qed

text \<open>
  C9: A software upgrade keeps a way back, but for one end. Whatever calls fail, fail after their effect, or are cut off by the death
  of the tool: either the upgrade has not begun and the three programs and the configuration are as they were, or there
  is a protected directory that holds, complete and unchanged, the originals that were installed at the start or that an
  interrupted upgrade had kept, with a journal of the state. A success means that the files hold programs vouched for by
  the digests of the administrator and the signature of the publisher, with the configuration of their version and the journal
  completed. After an error the journal is in a phase that the next attempt takes up again ("prepared", "replacing",
  "restore_failed"); or it says "restored", and that is true: the files hold the originals with their permissions, as
  they do when the command reports that it restored them. Only one other end is possible, the one of the
  finding on the last print: the new programs were in place, checked, and journalled as completed, the write of that
  journal or the line after it reported an error, and the rollback that followed did not get to note its end.
\<close>

theorem upgrade_never_strands:
  assumes "upgrade_separated e" "upgrade_hands_off e" "upgrade_manifest e a h = (r, h')"
  shows "isl r \<and> untouched (programs e) h h' \<or>
    (\<exists>v. taken_from e h v \<and> holds_originals (uv_dir v) (uv_originals v) h' \<and>
      (\<exists>plan. vouched_programs e a h (up_programs plan) \<and>
        (case r of
           Inr u \<Rightarrow> installed e (ua_version a) plan v h' \<and> journal_says e (ua_version a) v [''completed''] h'
         | Inl err \<Rightarrow> undone e (ua_version a) plan v err h')))"
proof -
  obtain q h1 where 1: "upgrade_preflight e a h = (q, h1)" by force
  note P = triple_run [OF preflight_triple sd.R_refl 1]
  show ?thesis
  proof (cases q)
    case (Inl err)
    then have "r = Inl err" "h' = h1" using assms(3) 1 by (auto simp: upgrade_manifest_def andThen_def)
    moreover have "same_disk h h1" using P Inl by simp
    ultimately show ?thesis by (simp add: same_disk_def untouched_def)
  next
    case (Inr plan)
    then have plan: "same_disk h h1" "found_pending e h (up_pending plan)" "vouched_programs e a h (up_programs plan)"
      using P by simp_all
    obtain s h2 where 2: "prepare_upgrade e (ua_version a) plan h1 = (s, h2)" by force
    note p = prepare_ends [OF assms(1) plan(2,1) 2]
    show ?thesis
    proof (cases s)
      case (Inl err)
      then have "r = Inl err" "h' = h2" using assms(3) 1 2 \<open>q = Inr plan\<close> by (auto simp: upgrade_manifest_def andThen_def)
      then show ?thesis using p Inl by simp
    next
      case (Inr v)
      then have run: "upgrade_programs e (ua_version a) plan v h2 = (r, h')"
        using assms(3) 1 2 \<open>q = Inr plan\<close> by (auto simp: upgrade_manifest_def andThen_def)
      have v: "prepared e (ua_version a) h v h2" using p Inr by simp
      have len: "length (up_programs plan) = 3" using plan(3) by (simp add: vouched_programs_def)
      have "holds_originals (uv_dir v) (uv_originals v) h' \<and>
        (case r of Inr u \<Rightarrow> installed e (ua_version a) plan v h' \<and> journal_says e (ua_version a) v [''completed''] h'
         | Inl err \<Rightarrow> undone e (ua_version a) plan v err h')"
        using upgrade_programs_ends [OF assms(1,2) _ len _ _ _ run] v by (simp add: prepared_def)
      then show ?thesis using v plan(3) by (intro disjI2 exI [of _ v]) (auto simp: prepared_def split: sum.splits)
    qed
  qed
qed

section \<open>An upgrade that is cut off half way\<close>

lemma sample_paths: "upgradePaths sample_installation = [''/k/agent'', ''/k/host'', ''/k/komari-agent-rescue'', ''/k/rescue.json'']"
  by code_simp

lemma sample_drawn: "IsAbs (''/var/lib/komari-host/k/upgrade-'' @ Itoa (int n))"
    "components (''/var/lib/komari-host/k/upgrade-'' @ Itoa (int n)) = [''var'', ''lib'', ''komari-host'', ''k'', ''upgrade-'' @ Itoa (int n)]"
proof -
  have d: "sep \<notin> set (Itoa (int n))" using digits_plain by (simp add: Itoa_def)
  have r: "''/var/lib/komari-host/k/upgrade-'' @ Itoa (int n) =
      render True [''var'', ''lib'', ''komari-host'', ''k'', ''upgrade-'' @ Itoa (int n)]"
    by (simp add: render_def)
  show "components (''/var/lib/komari-host/k/upgrade-'' @ Itoa (int n)) = [''var'', ''lib'', ''komari-host'', ''k'', ''upgrade-'' @ Itoa (int n)]"
    unfolding r by (rule components_render) (use d in \<open>auto simp: plain_def\<close>)
qed (simp add: IsAbs_def)

lemma sample_vault_dirs: "vault_dirs (sample_env k) = range (\<lambda>n. ''/var/lib/komari-host/k/upgrade-'' @ Itoa (int n))"
  by (auto simp: vault_dirs_def sample_env_def sample_dirs)

lemma sample_inside:
  assumes "dir \<in> vault_dirs (sample_env k)" "plain name"
  shows "\<exists>cs. Join [dir, name] = ''/var/lib/komari-host/k/upgrade-'' @ cs"
proof -
  from assms(1) obtain n where dir: "dir = ''/var/lib/komari-host/k/upgrade-'' @ Itoa (int n)" by (auto simp: sample_vault_dirs)
  have "Join [dir, name] = render True (components dir @ [name])"
    by (rule Join_name) (simp_all only: dir sample_drawn(1) assms(2))
  then show ?thesis unfolding dir sample_drawn(2) by (simp add: render_def)
qed

lemma sample_upgrade_separated: "upgrade_separated (sample_env k)"
proof -
  have m: "te_manifest (sample_env k) = sample_installation" by (simp add: sample_env_def)
  have out: "\<exists>cs. p = ''/var/lib/komari-host/k/upgrade-'' @ cs"
    if "p \<in> {original_path dir i | dir i. dir \<in> vault_dirs (sample_env k) \<and> i < 4} \<union> upgrade_journal ` vault_dirs (sample_env k)" for p
    using that sample_inside number_plain by (auto simp: original_path_def upgrade_journal_def plain_def simp del: Join.simps)
  have "ancestors (journalDir sample_installation) \<inter> upgrade_files (sample_env k) = {}"
    using out by (auto simp: sample_ancestors upgrade_files_def m sample_paths simp del: Un_iff)
  moreover have "IsAbs dir \<and> dir \<notin> set (upgradePaths sample_installation)" if "dir \<in> vault_dirs (sample_env k)" for dir
    using that by (auto simp: sample_vault_dirs IsAbs_def sample_paths)
  moreover have "Join [dir, name] \<notin> set (upgradePaths sample_installation)" if "dir \<in> vault_dirs (sample_env k)" "plain name" for dir name
    using sample_inside [OF that] by (auto simp: sample_paths simp del: Join.simps)
  ultimately show ?thesis by (simp add: upgrade_separated_def m sample_paths del: Join.simps)
qed

text \<open>
  A machine with the programs of version 1 and the files of version 2 beside them, on which every call works before its tick
  \<open>k\<close> and none from then on.
\<close>

definition padded :: "bytes \<Rightarrow> bytes" where
  "padded b = take 32 (b @ replicate 32 CHR 0x00)"

definition program :: "string \<Rightarrow> bytes" where
  "program name = CHR 0x7F # ''ELF'' @ name"

definition sample_files :: "path \<rightharpoonup> inode" where
  "sample_files =
     map_of (map (\<lambda>p. (p, (root_file None 493)\<lparr>nd_kind := KDirectory\<rparr>))
         [''/'', ''/k'', ''/e'', ''/t'', ''/usr'', ''/usr/bin'', ''/etc'', ''/etc/systemd'', ''/etc/systemd/system'',
          ''/var'', ''/var/lib'', ''/var/lib/komari-host'', ''/var/lib/komari-host/k''] @
       map (\<lambda>(p, mode, b). (p, root_file (Some b) mode))
         [(''/k/agent'', 493, program ''agent1''), (''/k/host'', 493, program ''host1''),
          (''/k/komari-agent-rescue'', 493, program ''rescue1''), (''/k/rescue.json'', 384, ''v1''),
          (''/e/k.json'', 420, []), (''/e/k.policy.json'', 420, []), (''/e/k.trust.json'', 420, []),
          (''/t/a'', 493, program ''agent2''), (''/t/h'', 493, program ''host2''), (''/t/r'', 493, program ''rescue2''),
          (''/t/r.json'', 420, []), (''/usr/bin/systemctl'', 493, []), (''/etc/systemd/system/k-rescue.service'', 420, [])])"

definition upgrading_host :: host where
  "upgrading_host = sample_clean\<lparr>h_files := sample_files\<rparr>"

definition upgrade_call :: upgrade_args where
  "upgrade_call = \<lparr>ua_manifest = ''/e/k.json'', ua_agent = ''/t/a'', ua_agentHash = hex_encode (padded (program ''agent2'')),
     ua_host = ''/t/h'', ua_hostHash = hex_encode (padded (program ''host2'')), ua_helper = ''/t/r'',
     ua_signature = ''/t/r.json'', ua_version = ''v2''\<rparr>"

definition publisher_trust :: Trust where
  "publisher_trust = \<lparr>tr_Version = 2, tr_AgentID = ''a1'', tr_Endpoint = ''https://p'', tr_ServiceID = ''k'',
     tr_ServiceUser = ''u'', PanelKeys = [sample_pin ''k1''], ReleaseKeys = [sample_pin ''k1''], AccessConfigFile = []\<rparr>"

definition release_payload :: ReleasePayload where
  "release_payload = \<lparr>rp_Schema = ''komari.release.v1'', rp_Component = ''komari-agent-rescue'', rp_Version = ''v2'',
     rp_OS = ''linux'', rp_Arch = ''amd64'', rp_SHA256 = hex_encode (padded (program ''rescue2''))\<rparr>"

definition rescue_v1 :: rescue_config where
  "rescue_v1 = \<lparr>rs_HostManifest = ''/e/k.json'', rs_Endpoint = ''https://p'', rs_Token = [], rs_AgentID = ''a1'',
     rs_InstanceIDPath = [], rs_Version = ''v1'', rs_IgnoreUnsafeCert = False, rs_CFAccessClientID = [],
     rs_CFAccessClientSecret = [], rs_CredentialsFile = ''/s/k/c.json'', rs_ReplayFile = [], rs_AgentPath = ''/k/agent'',
     rs_ConfigPath = [], rs_RuntimeStatePath = [], rs_ServiceName = ''k'', rs_RuntimeIdentity = [], rs_RuntimeUser = [],
     rs_ControlPlaneURL = [], rs_IsolationStatePath = [], rs_PrivilegedStatePath = []\<rparr>"

definition unit_show :: "string \<Rightarrow> string \<Rightarrow> bytes option" where
  "unit_show unit property =
     (if property = ''ActiveState'' then Some ''inactive''
      else Some (''User=root'' @ [CHR 0x0A] @ ''FragmentPath=/etc/systemd/system/k-rescue.service'' @ [CHR 0x0A] @
        ''ExecStart={ path=/k/komari-agent-rescue ; argv[]=/k/komari-agent-rescue --config /k/rescue.json ; ignore_errors=no ; }''))"

definition upgrading_env :: "nat \<Rightarrow> host_env" where
  "upgrading_env k = (sample_env k)\<lparr>te_show := \<lambda>_. unit_show, te_ed := sample_ed, te_sha := padded,
     te_decode_policy := \<lambda>_. Some (sample_policy\<lparr>hp_ServiceID := ''k'', HelperInstalled := True\<rparr>, []),
     te_decode_trust := \<lambda>_. Some (publisher_trust, []), te_decode_manifest := \<lambda>_. Some (sample_installation, []),
     te_decode_signed := \<lambda>_. Some (\<lparr>rl_Payload = ''p'', rl_KeyID = ''k1'', rl_Signature = ''ok''\<rparr>, []),
     te_decode_payload := \<lambda>_. Some release_payload, te_encode_payload := \<lambda>_. Some ''p'',
     te_url := \<lambda>_. Some \<lparr>u_Scheme = ''https'', u_Host = ''p'', u_Hostname = ''p'', u_User = False, u_RawQuery = [], u_Fragment = []\<rparr>,
     te_decode_rescue := \<lambda>_. Some (rescue_v1, []), te_encode_rescue := Some \<circ> rs_Version,
     te_encode_upgrade := Some \<circ> su_Phase, te_version := ''v2''\<rparr>"


definition fixed_files :: "path list" where
  "fixed_files = [''/'', ''/e'', ''/t'', ''/usr'', ''/usr/bin'', ''/etc'', ''/etc/systemd'', ''/etc/systemd/system'', ''/var'', ''/var/lib'',
     ''/var/lib/komari-host'', ''/var/lib/komari-host/k'', ''/k'', ''/e/k.json'', ''/e/k.policy.json'', ''/e/k.trust.json'',
     ''/t/a'', ''/t/h'', ''/t/r'', ''/t/r.json'', ''/usr/bin/systemctl'', ''/etc/systemd/system/k-rescue.service'']"

definition keeps_sample :: "path list \<Rightarrow> host \<Rightarrow> bool" where
  "keeps_sample ps h \<longleftrightarrow> h_journal h = None \<and> (\<forall>p \<in> set ps. h_files h p = sample_files p)"

definition way_up :: "path \<Rightarrow> path list" where
  "way_up p = map (\<lambda>k. render True (take k (components p))) [0..<Suc (length (components p))]"

definition listed :: "path list" where
  "listed = [''/k/agent'', ''/k/host'', ''/k/komari-agent-rescue'', ''/k/rescue.json''] @ fixed_files"

lemma fixed_listed: "q \<in> set fixed_files \<Longrightarrow> q \<in> set listed"
  by (simp add: listed_def)

lemma listed_ways: "list_all (\<lambda>p. IsAbs p \<and> list_all (\<lambda>q. List.member fixed_files q \<or> q = p) (way_up p)) listed"
  by code_simp

lemma listed_safe: "list_all (\<lambda>q. case sample_files q of None \<Rightarrow> False | Some n \<Rightarrow> protected_stat (node_stat n)) listed"
  by code_simp

lemma walk_ok:
  assumes "\<forall>q \<in> ancestors p. case lst q of None \<Rightarrow> False | Some st \<Rightarrow> protected_stat st" "IsAbs p"
  shows "TrustedPath lst p = None"
proof -
  have "trusted_walk lst (rev cs) = None" if "\<forall>k. case lst (render True (take k cs)) of None \<Rightarrow> False | Some st \<Rightarrow> protected_stat st" for cs
    using that
  proof (induction cs rule: rev_induct)
    case Nil
    from Nil [rule_format, of 0] show ?case by (auto simp: trusted_walk.simps split: option.splits)
  next
    case (snoc c cs)
    have "case lst (render True (take k cs)) of None \<Rightarrow> False | Some st \<Rightarrow> protected_stat st" for k
      using snoc.prems [rule_format, of "min k (length cs)"] by (simp add: min_def split: if_splits)
    then have "trusted_walk lst (rev cs) = None" by (intro snoc.IH) blast
    with snoc.prems [rule_format, of "Suc (length cs)"] show ?case
      by (subst trusted_walk.simps) (auto split: option.splits)
  qed
  with assms show ?thesis by (auto simp: TrustedPath_def ancestors_def)
qed

lemma keeps_trusted:
  assumes "keeps_sample fixed_files h" "h_files h p = sample_files p" "p \<in> set listed"
  shows "TrustedPath (h_lstat sample_installation h) p = None"
proof (rule walk_ok)
  have w: "IsAbs p" "\<forall>q \<in> set (way_up p). q \<in> set fixed_files \<or> q = p"
    using listed_ways assms(3) unfolding list_all_iff List.member_iff by blast+
  show "IsAbs p" by (rule w(1))
  show "\<forall>q \<in> ancestors p. case h_lstat sample_installation h q of None \<Rightarrow> False | Some st \<Rightarrow> protected_stat st"
  proof
    fix q assume q: "q \<in> ancestors p"
    then have q': "q \<in> set fixed_files \<or> q = p" using w(2) unfolding ancestors_set way_up_def by blast
    then have "h_files h q = sample_files q" using assms(1,2) by (auto simp: keeps_sample_def)
    moreover have "case sample_files q of None \<Rightarrow> False | Some n \<Rightarrow> protected_stat (node_stat n)"
      using listed_safe q' assms(3) fixed_listed unfolding list_all_iff by auto
    moreover have "q \<noteq> journalPath sample_installation"
    proof
      have "List.member listed q" using q' assms(3) fixed_listed by (auto simp: List.member_iff)
      moreover assume "q = journalPath sample_installation"
      moreover have "\<not> List.member listed (journalPath sample_installation)" by code_simp
      ultimately show False by simp
    qed
    ultimately show "case h_lstat sample_installation h q of None \<Rightarrow> False | Some st \<Rightarrow> protected_stat st"
      by (auto simp: h_lstat_def split: option.splits)
  qed
qed

lemma keeps_json:
  assumes "keeps_sample fixed_files h" "h_files h p = sample_files p" "p \<in> set listed"
    and "sample_files p = Some (root_file (Some b) mode)" "length b \<le> 9"
  shows "ReadJSON (h_fs sample_installation h) (\<lambda>_. Some (x, [])) p t = Inr x"
  using keeps_trusted [OF assms(1-3)] assms(2,4,5)
  by (simp add: ReadJSON_def h_fs_def h_open_def root_file_def node_size_def)

lemma sample_contents:
  "sample_files ''/k/agent'' = Some (root_file (Some (program ''agent1'')) 493)"
  "sample_files ''/k/host'' = Some (root_file (Some (program ''host1'')) 493)"
  "sample_files ''/k/komari-agent-rescue'' = Some (root_file (Some (program ''rescue1'')) 493)"
  "sample_files ''/k/rescue.json'' = Some (root_file (Some ''v1'') 384)"
  "sample_files ''/e/k.json'' = Some (root_file (Some []) 420)" "sample_files ''/e/k.policy.json'' = Some (root_file (Some []) 420)"
  "sample_files ''/e/k.trust.json'' = Some (root_file (Some []) 420)"
  "sample_files ''/t/a'' = Some (root_file (Some (program ''agent2'')) 493)"
  "sample_files ''/t/h'' = Some (root_file (Some (program ''host2'')) 493)"
  "sample_files ''/t/r'' = Some (root_file (Some (program ''rescue2'')) 493)" "sample_files ''/t/r.json'' = Some (root_file (Some []) 420)"
  by (simp_all add: sample_files_def)

lemma upgrading_env_simps [simp]:
  "te_manifest (upgrading_env k) = sample_installation" "te_out (upgrading_env k) n = (if n < k then Works else Fails)"
  "te_services (upgrading_env k) n = (\<lambda>f. f)" "te_show (upgrading_env k) n = unit_show" "te_now (upgrading_env k) = int"
  "te_uuid (upgrading_env k) n = Itoa (int n)" "te_ed (upgrading_env k) = sample_ed" "te_sha (upgrading_env k) = padded" "te_glob (upgrading_env k) n p = []"
  "te_decode_policy (upgrading_env k) = (\<lambda>_. Some (sample_policy\<lparr>hp_ServiceID := ''k'', HelperInstalled := True\<rparr>, []))"
  "te_decode_trust (upgrading_env k) = (\<lambda>_. Some (publisher_trust, []))" "te_decode_manifest (upgrading_env k) = (\<lambda>_. Some (sample_installation, []))"
  "te_decode_signed (upgrading_env k) = (\<lambda>_. Some (\<lparr>rl_Payload = ''p'', rl_KeyID = ''k1'', rl_Signature = ''ok''\<rparr>, []))"
  "te_decode_payload (upgrading_env k) = (\<lambda>_. Some release_payload)" "te_encode_payload (upgrading_env k) = (\<lambda>_. Some ''p'')"
  "te_url (upgrading_env k) = (\<lambda>_. Some \<lparr>u_Scheme = ''https'', u_Host = ''p'', u_Hostname = ''p'', u_User = False, u_RawQuery = [], u_Fragment = []\<rparr>)"
  "te_decode_rescue (upgrading_env k) = (\<lambda>_. Some (rescue_v1, []))" "te_encode_rescue (upgrading_env k) c = Some (rs_Version c)"
  "te_encode_upgrade (upgrading_env k) u = Some (su_Phase u)" "te_version (upgrading_env k) = ''v2''" "te_os (upgrading_env k) = ''linux''" "te_arch (upgrading_env k) = ''amd64''"
  by (simp_all add: upgrading_env_def sample_env_def)

abbreviation at_tick :: "nat \<Rightarrow> host" where
  "at_tick n \<equiv> upgrading_host\<lparr>h_tick := n\<rparr>"

lemma at_start_files [simp]: "h_files (at_tick n) = sample_files" "h_journal (at_tick n) = None" "keeps_sample ps (at_tick n)"
  by (simp_all add: keeps_sample_def upgrading_host_def sample_clean_def sample_host_def)

lemma at_start_trusted [simp]: "p \<in> set listed \<Longrightarrow> TrustedPath (h_lstat sample_installation (at_tick n)) p = None"
  by (rule keeps_trusted) simp_all

lemma at_start_read [simp]:
  "p \<in> set listed \<Longrightarrow> sample_files p = Some (root_file (Some b) mode) \<Longrightarrow> length b \<le> 9 \<Longrightarrow>
   ReadJSON (h_fs sample_installation (at_tick n)) (\<lambda>_. Some (x, [])) p t = Inr x"
  by (rule keeps_json) simp_all

lemma at_start_json [simp]:
  "ReadJSON (h_fs sample_installation (at_tick n)) (\<lambda>_. Some (x, [])) ''/e/k.json'' t = Inr x"
  "ReadJSON (h_fs sample_installation (at_tick n)) (\<lambda>_. Some (x, [])) ''/e/k.policy.json'' t = Inr x"
  "ReadJSON (h_fs sample_installation (at_tick n)) (\<lambda>_. Some (x, [])) ''/e/k.trust.json'' t = Inr x"
  "ReadJSON (h_fs sample_installation (at_tick n)) (\<lambda>_. Some (x, [])) ''/t/r.json'' t = Inr x"
  "ReadJSON (h_fs sample_installation (at_tick n)) (\<lambda>_. Some (x, [])) ''/k/rescue.json'' t = Inr x"
  by (rule at_start_read [OF _ sample_contents(5)] at_start_read [OF _ sample_contents(6)] at_start_read [OF _ sample_contents(7)] at_start_read [OF _ sample_contents(11)]
      at_start_read [OF _ sample_contents(4)]; simp add: listed_def fixed_files_def)+

lemma installation_paths:
  "HostPolicyFile sample_installation = ''/e/k.policy.json''" "TrustPath sample_installation = ''/e/k.trust.json''"
  "helperUnitPath sample_installation = ''/etc/systemd/system/k-rescue.service''" "helperUnit sample_installation = ''k-rescue.service''"
  "helperBinary sample_installation = ''/k/komari-agent-rescue''" "helperConfig sample_installation = ''/k/rescue.json''"
  "Executable sample_installation = ''/k/agent''" "HostTool sample_installation = ''/k/host''"
  "mf_Version sample_installation = 2" "ServiceName sample_installation = ''k''" "ManifestPath sample_installation = ''/e/k.json''"
  "CredentialsFile sample_installation = ''/s/k/c.json''" "InitSystem sample_installation = ''systemd''"
  by code_simp+

lemma reads_run:
  assumes "n < k"
  shows "noPendingHostTransaction (upgrading_env k) (at_tick n) = (Inr (), at_tick (Suc n))"
    "read_policy (upgrading_env k) (at_tick n) = (Inr (sample_policy\<lparr>hp_ServiceID := ''k'', HelperInstalled := True\<rparr>), at_tick (Suc n))"
    "read_trust (upgrading_env k) (at_tick n) = (Inr publisher_trust, at_tick (Suc n))"
    "pendingSoftwareUpgrade (upgrading_env k) (at_tick n) = (Inr None, at_tick n)"
    "read_rescue (upgrading_env k) ''/k/rescue.json'' (at_tick n) = (Inr rescue_v1, at_tick (Suc n))"
proof -
  show "noPendingHostTransaction (upgrading_env k) (at_tick n) = (Inr (), at_tick (Suc n))"
    using assms by (simp add: noPendingHostTransaction_def script.simps andThen_def probe_def call_def gets_def require_def ret_def Let_def)
  show "read_policy (upgrading_env k) (at_tick n) = (Inr (sample_policy\<lparr>hp_ServiceID := ''k'', HelperInstalled := True\<rparr>), at_tick (Suc n))"
    using assms by (simp add: read_policy_def andThen_def probe_def call_def gets_def ret_def Let_def ReadPolicy_def installation_paths from_sum_def)
      (simp add: sample_policy_def)
  have "Trust_Validate (te_url (upgrading_env k)) publisher_trust = None"
    by (simp add: Trust_Validate_def publisher_trust_def key_ok_def sample_pin_def sample_raw_def ValidService_def service_char_def starts_with_def)
  then show "read_trust (upgrading_env k) (at_tick n) = (Inr publisher_trust, at_tick (Suc n))"
    using assms by (simp add: read_trust_def andThen_def probe_def call_def gets_def ret_def Let_def ReadTrust_def installation_paths from_sum_def)
      (simp add: publisher_trust_def)
  show "pendingSoftwareUpgrade (upgrading_env k) (at_tick n) = (Inr None, at_tick n)"
    by (simp add: pendingSoftwareUpgrade_def andThen_def gets_def ret_def)
  show "read_rescue (upgrading_env k) ''/k/rescue.json'' (at_tick n) = (Inr rescue_v1, at_tick (Suc n))"
    using assms by (simp add: read_rescue_def andThen_def probe_def call_def gets_def ret_def Let_def from_sum_def)
qed

lemma trusted_step:
  "keeps_sample fixed_files h \<Longrightarrow> h_files h p = sample_files p \<Longrightarrow> p \<in> set listed \<Longrightarrow> trusted sample_installation p h = (Inr (), h)"
  by (simp add: trusted_def andThen_def gets_def require_def ret_def keeps_trusted)

lemma at_start_trusted_step [simp]: "p \<in> set listed \<Longrightarrow> trusted sample_installation p (at_tick n) = (Inr (), at_tick n)"
  by (rule trusted_step) simp_all

lemma listed_files [simp]:
  "''/t/a'' \<in> set listed" "''/t/h'' \<in> set listed" "''/t/r'' \<in> set listed" "''/usr/bin/systemctl'' \<in> set listed"
  "''/etc/systemd/system/k-rescue.service'' \<in> set listed" "''/e/k.json'' \<in> set listed" "''/e/k.policy.json'' \<in> set listed"
  "''/k/agent'' \<in> set listed" "''/k/host'' \<in> set listed" "''/k/komari-agent-rescue'' \<in> set listed" "''/k/rescue.json'' \<in> set listed"
  by (simp_all add: listed_def fixed_files_def)

lemma length_hex: "length (hex_encode bs) = 2 * length bs"
  by (induction bs) (simp_all add: hex_encode_def)

lemma length_padded [simp]: "length (hex_encode (padded b)) = 64"
  by (simp add: padded_def length_hex)

lemma program_elf [simp]: "elf (program name)"
  by (simp add: elf_def program_def)

lemma artifacts_run:
  assumes "n < k"
  shows "verifiedArtifact (upgrading_env k) ''/t/a'' (hex_encode (padded (program ''agent2''))) (at_tick n) = (Inr (program ''agent2''), at_tick (Suc n))"
    "verifiedArtifact (upgrading_env k) ''/t/h'' (hex_encode (padded (program ''host2''))) (at_tick n) = (Inr (program ''host2''), at_tick (Suc n))"
  using assms by (simp_all add: verifiedArtifact_def andThen_def probe_def call_def gets_def ret_def Let_def sample_contents root_file_def node_size_def) (simp_all add: program_def)

lemma release_run:
  "VerifyRelease sample_ed (\<lambda>_. Some release_payload) (\<lambda>_. Some ''p'') padded ''linux'' ''amd64'' (int n) publisher_trust
     \<lparr>rl_Payload = ''p'', rl_KeyID = ''k1'', rl_Signature = ''ok''\<rparr> (program ''rescue2'') = Inr release_payload"
  by (simp add: VerifyRelease_def release_key_verifies_def publisher_trust_def sample_pin_def sample_raw_def sample_ed_def release_payload_def list.set)

lemma helper_read:
  assumes "n < k"
  shows "readHelper (upgrading_env k) publisher_trust ''/t/r'' ''/t/r.json'' (at_tick n) = (Inr (program ''rescue2'', release_payload), at_tick (n + 2))"
  using assms by (simp add: readHelper_def andThen_def probe_def call_def gets_def ret_def Let_def sample_contents root_file_def verify_release_def ask_def
     release_run node_size_def) (simp add: program_def)

lemma programs_run:
  assumes "n + 3 < k"
  shows "new_programs (upgrading_env k) upgrade_call publisher_trust (at_tick n) =
    (Inr [program ''agent2'', program ''host2'', program ''rescue2''], at_tick (n + 4))"
proof -
  have p: "rp_Version release_payload = ua_version upgrade_call" by (simp add: release_payload_def upgrade_call_def)
  show ?thesis using assms p
   by (simp add: new_programs_def andThen_def artifacts_run helper_read ret_def upgrade_call_def)
qed

lemma unit_reviewed:
  assumes "n < k"
  shows "reviewed_unit (upgrading_env k) (at_tick n) = (Inr (), at_tick (Suc n))"
proof -
  obtain ob where ob: "observe (unit_show ''k-rescue.service'' ''User,WorkingDirectory,FragmentPath,DropInPaths,MainPID,ExecStart'') ''k-rescue.service'' = Some ob"
    "parseExecStart (so_ExecStart ob) = Some [''/k/komari-agent-rescue'', ''--config'', ''/k/rescue.json'']"
    "so_FragmentPath ob = ''/etc/systemd/system/k-rescue.service''" "so_User ob = ''root''" "so_DropInPaths ob = []"
  proof -
    have "(case observe (unit_show ''k-rescue.service'' ''User,WorkingDirectory,FragmentPath,DropInPaths,MainPID,ExecStart'') ''k-rescue.service'' of
        None \<Rightarrow> False
      | Some ob \<Rightarrow> parseExecStart (so_ExecStart ob) = Some [''/k/komari-agent-rescue'', ''--config'', ''/k/rescue.json''] \<and>
          so_FragmentPath ob = ''/etc/systemd/system/k-rescue.service'' \<and> so_User ob = ''root'' \<and> so_DropInPaths ob = [])"
      by code_simp
    then show thesis using that by (auto split: option.splits)
  qed
  show ?thesis
    by (simp add: reviewed_unit_def andThen_def Let_def installation_paths observe_service_def ask_def ob require_def ret_def)
qed

lemma config_valid:
  assumes "n < k"
  shows "validateUpgradeConfig (upgrading_env k) publisher_trust rescue_v1 (at_tick n) = (Inr (), at_tick (Suc n))"
proof -
  have r: "resolveManifest (upgrading_env k) ''/e/k.json'' (at_tick n) = (Inr sample_installation, at_tick (Suc n))"
  proof -
    have "ReadManifest (h_fs sample_installation (at_tick n)) (\<lambda>_. Some (sample_installation, [])) ''/e/k.json'' = Inr sample_installation" for n
    proof -
      have "TrustedPath (lstat (h_fs sample_installation (at_tick n))) ''/e/k.json'' = None" by (simp add: h_fs_def)
      moreover have "sample_installation\<lparr>ManifestPath := ''/e/k.json'', Executable := rebase d (Executable sample_installation),
          HostTool := rebase d (HostTool sample_installation), HostPolicyFile := rebase d (HostPolicyFile sample_installation),
          ConfigFile := rebase d (ConfigFile sample_installation), CredentialsFile := rebase d (CredentialsFile sample_installation),
          RuntimeStateFile := rebase d (RuntimeStateFile sample_installation),
          PrivilegedStateFile := rebase d (PrivilegedStateFile sample_installation),
          ReplayStateFile := rebase d (ReplayStateFile sample_installation)\<rparr> = sample_installation" for d
        by (simp add: sample_installation_def rebase_def IsAbs_def)
      ultimately show ?thesis by (simp add: ReadManifest_def Let_def)
    qed
    then show ?thesis using assms
      by (simp add: resolveManifest_def andThen_def Let_def probe_def call_def gets_def from_sum_def ret_def installation_paths script.simps)
        (simp add: ValidService_def service_char_def starts_with_def ends_with_def list.set)
  qed
  have "rs_HostManifest rescue_v1 = ''/e/k.json''" "sample_installation\<lparr>ManifestPath := ''/e/k.json''\<rparr> = sample_installation"
    "rs_CredentialsFile rescue_v1 = ''/s/k/c.json''" "rs_AgentID rescue_v1 = tr_AgentID publisher_trust" "rs_Endpoint rescue_v1 = tr_Endpoint publisher_trust"
    "rs_ServiceName rescue_v1 = ''k''" "rs_AgentPath rescue_v1 = ''/k/agent''"
    by (simp_all add: rescue_v1_def publisher_trust_def sample_installation_def)
  then show ?thesis
    by (simp add: validateUpgradeConfig_def andThen_def Let_def r require_def ret_def installation_paths)
qed

lemma preflight_run:
  "upgrade_preflight (upgrading_env 33) upgrade_call (at_tick 0) =
    (Inr \<lparr>up_pending = None, up_programs = [program ''agent2'', program ''host2'', program ''rescue2''], up_config = rescue_v1\<rparr>, at_tick 10)"
  by (simp add: upgrade_preflight_def andThen_def reads_run pending_originals_def programs_run installed_rescue_def unit_reviewed config_valid require_def ret_def installation_paths)

definition unsaid :: "(path \<rightharpoonup> inode) \<Rightarrow> bool" where
  "unsaid f \<longleftrightarrow> (\<forall>p n. f p = Some n \<longrightarrow> nd_data n \<noteq> Some (''completed'' @ [CHR 0x0A]))"

lemma unsaid_upd [simp]: "unsaid f \<Longrightarrow> nd_data n \<noteq> Some (''completed'' @ [CHR 0x0A]) \<Longrightarrow> unsaid (f(p \<mapsto> n))"
  by (auto simp: unsaid_def)

lemma unsaid_sample [simp]: "unsaid sample_files"
  unfolding unsaid_def sample_files_def by (auto dest!: map_of_SomeD simp: root_file_def program_def)

lemma root_file_data [simp]: "nd_data (root_file d mode) = d"
  by (simp add: root_file_def)

definition vault_at :: path where
  "vault_at = ''/var/lib/komari-host/k/upgrade-21''"

lemma vault_paths:
  "journalDir sample_installation @ ''/upgrade-'' @ Itoa 21 = vault_at"
  "original_path vault_at 0 = ''/var/lib/komari-host/k/upgrade-21/0''" "original_path vault_at 1 = ''/var/lib/komari-host/k/upgrade-21/1''"
  "original_path vault_at (Suc 0) = ''/var/lib/komari-host/k/upgrade-21/1''"
  "original_path vault_at 2 = ''/var/lib/komari-host/k/upgrade-21/2''" "original_path vault_at 3 = ''/var/lib/komari-host/k/upgrade-21/3''"
  "upgrade_journal vault_at = ''/var/lib/komari-host/k/upgrade-21/upgrade.json''"
  by code_simp+

definition vault_v1 :: upgrade_vault where
  "vault_v1 = \<lparr>uv_dir = vault_at, uv_originals = [program ''agent1'', program ''host1'', program ''rescue1'', ''v1''],
     uv_modes = [493, 493, 493, 384], uv_active = [False, False], uv_previous = []\<rparr>"

lemma inactive_unit: "n < k \<Longrightarrow> upgradeServiceActive (upgrading_env k) unit b (at_tick n) = (Inr False, at_tick (Suc n))"
proof -
  have "TrimSpace ''inactive'' = ''inactive''" by code_simp
  then show ?thesis
    by (simp add: upgradeServiceActive_def show_property_def andThen_def ask_def unit_show_def ret_def Let_def)
qed

lemma directory_there: "n < k \<Longrightarrow> ensureTrustedDir (upgrading_env k) (journalDir sample_installation) (at_tick n) = (Inr (), at_tick (Suc n))"
proof -
  let ?d = "''/var/lib/komari-host/k''"
  have d: "IsAbs ?d" "render True (rev (rev (components ?d))) = ?d" by code_simp+
  have "?d \<in> set listed" "sample_files ?d \<noteq> None" by (simp_all add: listed_def fixed_files_def sample_files_def)
  then show "n < k \<Longrightarrow> ?thesis"
    using d by (simp add: sample_dirs ensureTrustedDir_def)
      (subst ensure_components.simps, simp add: Let_def script.simps andThen_def probe_def call_def gets_def ret_def)
qed

lemma originals_read:
  assumes "n + 7 < k"
  shows "read_originals (upgrading_env k) (upgradePaths sample_installation) (at_tick n) =
    (Inr [(program ''agent1'', 493), (program ''host1'', 493), (program ''rescue1'', 493), (''v1'', 384)], at_tick (n + 8))"
  using assms by (simp add: sample_paths andThen_def probe_def call_def gets_def ret_def sample_contents Let_def)
    (simp add: root_file_def node_size_def content_def program_def)

lemma write_works:
  assumes "h_tick h < k" "case h_files h p of None \<Rightarrow> True | Some n \<Rightarrow> nd_kind n = KRegular"
  shows "write_file (upgrading_env k) p data mode h =
    (Inr (), h\<lparr>h_tick := Suc (h_tick h), h_files := (h_files h)(p \<mapsto> root_file (Some data) mode)\<rparr>)"
  using assms by (auto simp: write_file_def write_owned_def andThen_def gets_def call_def put_def chown_id_def root_file_def Let_def split: option.splits)

lemma vault_apart: "list_all (\<lambda>p. p \<noteq> vault_at \<and> p \<noteq> upgrade_journal vault_at \<and> list_all (\<lambda>i. p \<noteq> original_path vault_at i) [0, 1, 2, 3]) listed"
  by code_simp

lemma vault_free [simp]: "sample_files vault_at = None" "sample_files (upgrade_journal vault_at) = None"
  "sample_files (original_path vault_at 0) = None" "sample_files (original_path vault_at (Suc 0)) = None"
  "sample_files (original_path vault_at 2) = None" "sample_files (original_path vault_at 3) = None"
  unfolding vault_paths by (simp_all add: sample_files_def vault_at_def)

lemma vault_names: "distinct [vault_at, original_path vault_at 0, original_path vault_at (Suc 0), original_path vault_at 2,
    original_path vault_at 3, upgrade_journal vault_at]"
  by code_simp

lemma vault_distinct [simp]:
  "vault_at \<noteq> original_path vault_at 0" "vault_at \<noteq> original_path vault_at (Suc 0)" "vault_at \<noteq> original_path vault_at 2" "vault_at \<noteq> original_path vault_at 3" "vault_at \<noteq> upgrade_journal vault_at"
  "original_path vault_at 0 \<noteq> vault_at" "original_path vault_at 0 \<noteq> original_path vault_at (Suc 0)" "original_path vault_at 0 \<noteq> original_path vault_at 2" "original_path vault_at 0 \<noteq> original_path vault_at 3" "original_path vault_at 0 \<noteq> upgrade_journal vault_at"
  "original_path vault_at (Suc 0) \<noteq> vault_at" "original_path vault_at (Suc 0) \<noteq> original_path vault_at 0" "original_path vault_at (Suc 0) \<noteq> original_path vault_at 2" "original_path vault_at (Suc 0) \<noteq> original_path vault_at 3" "original_path vault_at (Suc 0) \<noteq> upgrade_journal vault_at"
  "original_path vault_at 2 \<noteq> vault_at" "original_path vault_at 2 \<noteq> original_path vault_at 0" "original_path vault_at 2 \<noteq> original_path vault_at (Suc 0)" "original_path vault_at 2 \<noteq> original_path vault_at 3" "original_path vault_at 2 \<noteq> upgrade_journal vault_at"
  "original_path vault_at 3 \<noteq> vault_at" "original_path vault_at 3 \<noteq> original_path vault_at 0" "original_path vault_at 3 \<noteq> original_path vault_at (Suc 0)" "original_path vault_at 3 \<noteq> original_path vault_at 2" "original_path vault_at 3 \<noteq> upgrade_journal vault_at"
  "upgrade_journal vault_at \<noteq> vault_at" "upgrade_journal vault_at \<noteq> original_path vault_at 0" "upgrade_journal vault_at \<noteq> original_path vault_at (Suc 0)" "upgrade_journal vault_at \<noteq> original_path vault_at 2" "upgrade_journal vault_at \<noteq> original_path vault_at 3"
  using vault_names by auto

definition first_plan :: upgrade_plan where
  "first_plan = \<lparr>up_pending = None, up_programs = [program ''agent2'', program ''host2'', program ''rescue2''], up_config = rescue_v1\<rparr>"

lemma preparation_run:
  "\<exists>g. prepare_upgrade (upgrading_env 33) ''v2'' first_plan (at_tick 10) = (Inr vault_v1, g) \<and> h_tick g = 28 \<and> h_journal g = None \<and>
    (\<forall>p \<in> set listed. h_files g p = sample_files p) \<and>
    h_files g (upgrade_journal vault_at) = Some (root_file (Some (''prepared'' @ [CHR 0x0A])) 384) \<and> unsaid (h_files g)"
proof -
  note d = vault_paths(1) [simplified]
  have z: "zip [0..<4] [(program ''agent1'', 493), (program ''host1'', 493), (program ''rescue1'', 493), (''v1'', 384 :: nat)] =
      [(0 :: nat, program ''agent1'', 493), (1, program ''host1'', 493), (2, program ''rescue1'', 493), (3, ''v1'', 384)]"
    by (simp add: upt_rec)
  have f: "fresh_vault (upgrading_env 33) (at_tick 10) = (Inr vault_v1, upgrading_host\<lparr>h_tick := 27, h_files := sample_files
    (vault_at \<mapsto> (root_file None 448)\<lparr>nd_kind := KDirectory\<rparr>,
     original_path vault_at 0 \<mapsto> root_file (Some (program ''agent1'')) 384, original_path vault_at 1 \<mapsto> root_file (Some (program ''host1'')) 384,
     original_path vault_at 2 \<mapsto> root_file (Some (program ''rescue1'')) 384, original_path vault_at 3 \<mapsto> root_file (Some ''v1'') 384)\<rparr>)"
    unfolding fresh_vault_def
    by (simp add: Let_def andThen_def inactive_unit directory_there originals_read z make_vault_def gets_def d 
        require_def ret_def script.simps call_def put_def chmod_def change_def write_works installation_paths vault_v1_def)
      (simp add: root_file_def)
  have v: "validateUpgradeJournal sample_installation (upgrade_record (upgrading_env 33) ''v2'' vault_v1 ''prepared'' 0)"
    by (simp add: validateUpgradeJournal_def upgrade_record_def vault_v1_def)
  have w: "p \<noteq> vault_at \<and> p \<noteq> upgrade_journal vault_at \<and> p \<noteq> original_path vault_at 0 \<and> p \<noteq> original_path vault_at 1 \<and>
      p \<noteq> original_path vault_at 2 \<and> p \<noteq> original_path vault_at 3" if "p \<in> set listed" for p
    using vault_apart that unfolding list_all_iff by auto
  have "uv_dir vault_v1 = vault_at" by (simp add: vault_v1_def)
  moreover have "h_journal upgrading_host = None" by (simp add: upgrading_host_def sample_clean_def sample_host_def)
  ultimately show ?thesis using w
    by (simp add: prepare_upgrade_def first_plan_def andThen_def f v require_def ret_def write_phase_def gets_def write_json_def encoded_def write_works)
      (simp add: upgrade_record_def program_def)
qed

definition dead_step :: "nat \<Rightarrow> unit step \<Rightarrow> bool" where
  "dead_step k s \<longleftrightarrow> (\<forall>h. k \<le> h_tick h \<longrightarrow> isl (fst (s h)) \<and> h_files (snd (s h)) = h_files h \<and> k \<le> h_tick (snd (s h)))"

lemma dead_steps:
  "dead_step k (write_file (upgrading_env k) p data mode)" "dead_step k (systemctl (upgrading_env k) args)" "dead_step k (write_phase (upgrading_env k) version v phase)"
proof -
  show w: "dead_step k (write_file (upgrading_env k) p data mode)" for p data mode
    by (simp add: dead_step_def write_file_def write_owned_def andThen_def gets_def call_def fail_def Let_def)
  show "dead_step k (systemctl (upgrading_env k) args)"
    by (simp add: dead_step_def systemctl_def script.simps trusted_def andThen_def gets_def require_def ret_def call_def fail_def Let_def)
  show "dead_step k (write_phase (upgrading_env k) version v phase)"
    using w by (simp add: dead_step_def write_phase_def andThen_def gets_def write_json_def encoded_def)
qed

lemma dead_tally:
  assumes "\<And>s. s \<in> set ss \<Longrightarrow> dead_step k s" "k \<le> h_tick h"
  shows "fst (tally ss h) = Inr (ss = []) \<and> h_files (snd (tally ss h)) = h_files h \<and> k \<le> h_tick (snd (tally ss h))"
  using assms
proof (induction ss arbitrary: h)
  case Nil
  then show ?case by (simp add: tally.simps ret_def)
next
  case (Cons s ss)
  obtain r h1 where s: "s h = (r, h1)" by force
  have "dead_step k s" using Cons.prems(1) by simp
  then have d: "isl r" "h_files h1 = h_files h" "k \<le> h_tick h1" using Cons.prems(2) s by (auto simp: dead_step_def)
  have "fst (tally ss h1) = Inr (ss = []) \<and> h_files (snd (tally ss h1)) = h_files h1 \<and> k \<le> h_tick (snd (tally ss h1))"
    by (rule Cons.IH) (use Cons.prems d in auto)
  with d s show ?case
    by (cases "tally ss h1") (simp add: tally.simps andThen_def try_step_def ret_def)
qed

lemma dead_rollback:
  assumes "k \<le> h_tick h"
  shows "isl (fst (roll_back (upgrading_env k) version v h)) \<and> h_files (snd (roll_back (upgrading_env k) version v h)) = h_files h"
proof -
  let ?ss = "stop_units (upgrading_env k) @ restore_programs (upgrading_env k) v"
  have "?ss \<noteq> []" by (simp add: stop_units_def upgrade_units_def)
  moreover have "dead_step k s" if "s \<in> set ?ss" for s
    using that dead_steps by (auto simp: stop_units_def restore_programs_def)
  ultimately obtain h1 where t: "tally ?ss h = (Inr False, h1)" "h_files h1 = h_files h" "k \<le> h_tick h1"
    using dead_tally [of ?ss k h] assms by (cases "tally ?ss h") auto
  have "h_files (snd (write_phase (upgrading_env k) version v ''restore_failed'' h1)) = h_files h1"
    using dead_steps(3) t(3) by (simp add: dead_step_def)
  with t show ?thesis
    by (simp add: roll_back_def andThen_def ret_def script.simps ignoring_def fail_def)
qed

lemma service_call:
  assumes "keeps_sample fixed_files h" "h_files h ''/usr/bin/systemctl'' = sample_files ''/usr/bin/systemctl''" "h_tick h < k"
  shows "systemctl (upgrading_env k) args h = (Inr (), h\<lparr>h_tick := Suc (h_tick h), h_calls := h_calls h @ [args]\<rparr>)"
  using assms by (simp add: systemctl_def script.simps andThen_def trusted_step ret_def call_def Let_def)

lemma write_cut_off:
  assumes "k \<le> h_tick h" "case h_files h p of None \<Rightarrow> True | Some n \<Rightarrow> nd_kind n = KRegular"
  shows "write_file (upgrading_env k) p data mode h = (Inl (local_error ''write''), h\<lparr>h_tick := Suc (h_tick h)\<rparr>)"
  using assms by (auto simp: write_file_def write_owned_def andThen_def gets_def call_def Let_def split: option.splits)

lemma root_file_kind [simp]: "nd_kind (root_file d mode) = KRegular"
  by (simp add: root_file_def)

lemma replacement_cut_off:
  assumes "h_tick g = 28" "h_journal g = None" "\<forall>p \<in> set listed. h_files g p = sample_files p"
    and "h_files g (upgrade_journal vault_at) = Some (root_file d 384)" "unsaid (h_files g)"
  shows "\<exists>err g'. replace_programs (upgrading_env 33) ''v2'' first_plan vault_v1 g = (Inl err, g') \<and> 33 \<le> h_tick g' \<and>
    h_files g' ''/k/agent'' = Some (root_file (Some (program ''agent2'')) 493) \<and>
    h_files g' ''/k/host'' = Some (root_file (Some (program ''host2'')) 493) \<and>
    h_files g' ''/k/komari-agent-rescue'' = Some (root_file (Some (program ''rescue1'')) 493) \<and> unsaid (h_files g')"
proof -
  have s: "systemctl (upgrading_env 33) args g' = (Inr (), g'\<lparr>h_tick := Suc (h_tick g'), h_calls := h_calls g' @ [args]\<rparr>)"
    if "h_journal g' = None" "h_files g' = h_files g" "h_tick g' < 33" for g' args
    using service_call [of g' 33 args] that listed_files(4) assms(3) fixed_listed by (auto simp: keeps_sample_def)
  have dir: "uv_dir vault_v1 = vault_at" "uv_modes vault_v1 = [493, 493, 493, 384]" by (simp_all add: vault_v1_def)
  have "p \<noteq> upgrade_journal vault_at" if "p \<in> set listed" for p using vault_apart that unfolding list_all_iff by auto
  then have p: "''/k/agent'' \<noteq> upgrade_journal vault_at" "''/k/host'' \<noteq> upgrade_journal vault_at"
      "''/k/komari-agent-rescue'' \<noteq> upgrade_journal vault_at" using listed_files(8-10) by blast+
  have f: "h_files g ''/k/agent'' = Some (root_file (Some (program ''agent1'')) 493)"
      "h_files g ''/k/host'' = Some (root_file (Some (program ''host1'')) 493)"
      "h_files g ''/k/komari-agent-rescue'' = Some (root_file (Some (program ''rescue1'')) 493)"
    using assms(3) listed_files(8-10) by (simp_all only: sample_contents)
  show ?thesis
    using p
    by (simp add: replace_programs_def Let_def stop_units_def upgrade_units_def script.simps andThen_def s assms write_phase_def gets_def
        write_json_def encoded_def write_works dir sample_paths first_plan_def f write_cut_off)
      (simp add: upgrade_record_def program_def assms)
qed

lemma replaced_halfway:
  "\<exists>err h'. upgrade_manifest (upgrading_env 33) upgrade_call (at_tick 0) = (Inl err, h') \<and>
    h_files h' ''/k/agent'' = Some (root_file (Some (program ''agent2'')) 493) \<and>
    h_files h' ''/k/host'' = Some (root_file (Some (program ''host2'')) 493) \<and>
    h_files h' ''/k/komari-agent-rescue'' = Some (root_file (Some (program ''rescue1'')) 493) \<and> unsaid (h_files h')"
proof -
  have v: "ua_version upgrade_call = ''v2''" by (simp add: upgrade_call_def)
  obtain g where g: "prepare_upgrade (upgrading_env 33) ''v2'' first_plan (at_tick 10) = (Inr vault_v1, g)"
    "h_tick g = 28" "h_journal g = None" "\<forall>p \<in> set listed. h_files g p = sample_files p"
    "h_files g (upgrade_journal vault_at) = Some (root_file (Some (''prepared'' @ [CHR 0x0A])) 384)" "unsaid (h_files g)"
    using preparation_run by blast
  obtain err g' where r: "replace_programs (upgrading_env 33) ''v2'' first_plan vault_v1 g = (Inl err, g')" "33 \<le> h_tick g'"
    "h_files g' ''/k/agent'' = Some (root_file (Some (program ''agent2'')) 493)"
    "h_files g' ''/k/host'' = Some (root_file (Some (program ''host2'')) 493)"
    "h_files g' ''/k/komari-agent-rescue'' = Some (root_file (Some (program ''rescue1'')) 493)" "unsaid (h_files g')"
    using replacement_cut_off [OF g(2-6)] by blast
  have "upgrade_manifest (upgrading_env 33) upgrade_call (at_tick 0) = roll_back (upgrading_env 33) ''v2'' vault_v1 g'"
    using preflight_run g(1) r(1) by (simp add: upgrade_manifest_def andThen_def v first_plan_def upgrade_programs_def)
  then show ?thesis using dead_rollback [OF r(2), of "''v2''" vault_v1] r(3-6)
    by (cases "roll_back (upgrading_env 33) ''v2'' vault_v1 g'"; cases "fst (roll_back (upgrading_env 33) ''v2'' vault_v1 g')") auto
qed

lemma upgrading_separated: "upgrade_separated (upgrading_env k)" "upgrade_hands_off (upgrading_env k)"
proof -
  have m: "te_manifest (sample_env k) = sample_installation" by (simp add: sample_env_def)
  have "vault_dirs (upgrading_env k) = vault_dirs (sample_env k)" "upgrade_files (upgrading_env k) = upgrade_files (sample_env k)"
    by (simp_all add: vault_dirs_def upgrade_files_def upgrading_env_def)
  then show "upgrade_separated (upgrading_env k)"
    using sample_upgrade_separated [of k]
    by (simp add: upgrade_separated_def Let_def m del: Join.simps)
  show "upgrade_hands_off (upgrading_env k)" by (simp add: upgrade_hands_off_def)
qed

lemma originals_of_v1:
  assumes "taken_from (upgrading_env k) (at_tick 0) v" "length (uv_originals v) = 4"
  shows "\<exists>config. uv_originals v = [program ''agent1'', program ''host1'', program ''rescue1'', config]"
proof -
  have hold: "programs_hold (upgrading_env k) (uv_originals v) (uv_modes v) (at_tick 0)"
    using assms(1) by (simp add: taken_from_def interrupted_def)
  obtain a b c d where o: "uv_originals v = [a, b, c, d]"
    using assms(2) by (auto simp: eval_nat_numeral length_Suc_conv)
  have "length (zip (uv_originals v) (uv_modes v)) = 4"
    using hold by (auto simp: programs_hold_def sample_paths dest: list_all2_lengthD)
  then have "4 \<le> length (uv_modes v)" using o by simp
  then obtain i j k l ms where "uv_modes v = i # j # k # l # ms"
    by (auto simp: Suc_le_length_iff eval_nat_numeral)
  with hold show ?thesis
    by (auto simp: programs_hold_def sample_paths sample_contents content_def o)
qed

theorem upgrade_never_strands_witness:
  "upgrade_separated (upgrading_env 33) \<and> upgrade_hands_off (upgrading_env 33) \<and>
    (case upgrade_manifest (upgrading_env 33) upgrade_call (at_tick 0) of (r, h') \<Rightarrow>
       h_files h' ''/k/agent'' = Some (root_file (Some (program ''agent2'')) 493) \<and>
       h_files h' ''/k/komari-agent-rescue'' = Some (root_file (Some (program ''rescue1'')) 493) \<and>
       (\<exists>v config. holds_originals (uv_dir v) [program ''agent1'', program ''host1'', program ''rescue1'', config] h' \<and>
          journal_says (upgrading_env 33) ''v2'' v unfinished h'))"
proof -
  let ?e = "upgrading_env 33"
  obtain err h' where run: "upgrade_manifest ?e upgrade_call (at_tick 0) = (Inl err, h')"
    and files: "h_files h' ''/k/agent'' = Some (root_file (Some (program ''agent2'')) 493)"
      "h_files h' ''/k/komari-agent-rescue'' = Some (root_file (Some (program ''rescue1'')) 493)" "unsaid (h_files h')"
    using replaced_halfway by blast
  have v2: "ua_version upgrade_call = ''v2''" by (simp add: upgrade_call_def)
  have "program ''agent2'' \<noteq> program ''agent1''" by (simp add: program_def)
  then have "\<not> untouched (programs ?e) (at_tick 0) h'"
    using files(1) by (auto simp: untouched_def sample_paths sample_contents root_file_def)
  then obtain v plan where v: "taken_from ?e (at_tick 0) v" "holds_originals (uv_dir v) (uv_originals v) h'" "undone ?e ''v2'' plan v err h'"
    using upgrade_never_strands [OF upgrading_separated run] v2 by auto
  obtain config where o: "uv_originals v = [program ''agent1'', program ''host1'', program ''rescue1'', config]"
    using originals_of_v1 [OF v(1)] v(2) by (auto simp: holds_originals_def)
  have "\<not> programs_written ?e (uv_originals v) (uv_modes v) h'"
    using files(1) by (cases "uv_modes v") (auto simp: programs_written_def sample_paths o program_def)
  moreover have "\<not> journal_says ?e ''v2'' v [''completed''] h'"
    using files(3) by (auto simp: journal_says_def upgrade_record_def unsaid_def split: option.splits)
  ultimately have "journal_says ?e ''v2'' v unfinished h'" using v(3) by (auto simp: undone_def)
  then show ?thesis using run files(1,2) v(2) upgrading_separated by (auto simp: o)
qed

end
