(* ===== verification/Spec2Isabelle.thy ===== *)
theory Spec2Isabelle
  imports EffectiveConfig Dpop HostApply HostGuarantees FileIntegrity RescueRun NetStatic HostUpgrade
begin

text \<open>
  Verification of the komari agent (\<open>github.com/komari-monitor/komari-agent\<close>, Go).

  The agent runs on a machine, enrolls with a panel, takes configuration and instructions from it and
  reports back. Beside it run a host tool (\<open>komari-host\<close>), with which the administrator of the machine changes
  what the agent may do, and a rescue helper (\<open>komari-agent-rescue\<close>), a small root process that repairs the machine when
  the agent is gone. The development covers what decides what the panel may do to the machine, and what is
  left of the machine when something fails half way.

  Foundations. Prelude, Filepath and Base64 hold the Go types and the parts of the Go standard library the
  sources call (\<open>strings\<close>, \<open>path/filepath\<close>, \<open>encoding/hex\<close>, \<open>encoding/base64\<close>). AtomicFile is the file
  system as the writers see it: scripts of calls, an environment that decides which call fails,
  traces for crashes, the contract of an atomic writer and of a durable store (locales), and
  \<open>atomicWrite\<close> of \<open>core/hostops/manifest.go\<close>. Proto gives the protobuf messages (their generated code is not
  part of the repository) as records.

  Identity. Credentials models \<open>core/credentials/store.go\<close>: the enrolled identity, the durable refresh request
  and its commit. Enrollment models \<open>core/enrollment\<close>: the polled device grant (the loop consumes a list
  of events, one per poll, so it returns for every list that holds an answer), re-authentication,
  the refresh proof and the checks of its response. Dpop models \<open>requestheaders\<close>: the proof every request of the client
  carries, and the second attempt after a refused token.

  What the panel may ask. Replay models \<open>core/signing/replay.go\<close>, Signing \<open>core/signing/verify.go\<close> and
  \<open>recorded.go\<close>: which signed instructions are carried out, and how often. Privileged models
  \<open>core/privileged\<close>: the settings the agent never widens by itself; every operation is a plan (an error,
  nothing to write, or the next state) carried out by \<open>commit\<close>. RuntimeConfig models
  \<open>core/runtimeconfig/store.go\<close> and \<open>receipt.go\<close>: the settings a panel changes online, with backup and receipt outbox.
  HostPolicy models \<open>core/hostops\<close>: protected files, the local trust pin, and the checks of signed revisions,
  operations and helper releases. EffectiveConfig models \<open>core/runtimeconfig/effective.go\<close> and
  \<open>core/capability\<close>: the settings finally in force and the gates.

  The client (\<open>clientcore\<close>). Retry models \<open>retry.go\<close> and the loop of \<open>credential_renewal.go\<close>; ClientAuth the credentials of
  the running client, their rotation, trust bundles and signed executions; Delivery the receipts and
  \<open>SyncConfig\<close>; HostApply the delivery of privileged revisions. HostHelper models how the client reads the heartbeat
  of the rescue helper and how root reads a candidate file of the agent (\<open>helper_linux.go\<close>, \<open>candidate_linux.go\<close> of
  \<open>core/hostops\<close>).

  The host tool (\<open>internal/hostcmd\<close>). HostService models what it knows of a systemd service; HostRelease where it takes
  programs from, and the journal of software upgrades; HostJournal the files of the machine as the tool writes them, step by
  step, with the journal of a transaction; HostTransaction the transaction itself (apply, resume,
  restore). HostFrames and HostWork say what each step leaves alone; HostRecovery proves the recovery
  invariant; HostGuarantees holds the properties. HostUpgrade models the coordinated upgrade of agent, host tool, rescue program
  and its configuration (\<open>upgrade_linux.go\<close>, \<open>upgrade_state_linux.go\<close>): preflight, the protected directory with the originals, the
  phases of its journal (prepared, replacing, completed, restored, restore_failed), replacement and rollback. A step may work, fail, or fail after its effect, by its
  number, so a crash is a suffix of failures.

  Files (\<open>files\<close>). FileUpload models chunked uploads as interleaving events over files and names;
  FileIntegrity proves what their target holds.

  The rescue helper (\<open>rescue\<close>). SshAccess models the temporary opening of the SSH port (\<open>ssh_access_linux.go\<close>), with a
  firewall given by what its commands do; RescueWatch the authorization by heartbeats (\<open>host_authorization.go\<close>);
  RescueActions the actions and the isolation of the network (\<open>actions.go\<close>, \<open>actions_linux.go\<close>); RescueHelper the set-up of the
  helper and an assignment from its signed envelope to its event (\<open>helper.go\<close>); RescueRun the helper as a whole.

  Monitoring. NetStatic models the traffic statistics (\<open>monitoring/netstatic/static.go\<close>, with their start in \<open>cmd/root.go\<close>): sampling of
  the counters at 64 bits, the cache and its flush, saving, loading and purging, the reports over an interval. \<open>ForceReplaceRecord\<close>,
  which has no caller, is left out.

  How they interact. The client applies a delivery with the stores (Privileged, RuntimeConfig) after the
  checks of Signing and HostPolicy; the host tool asks the panel through the same checks and leaves its result
  in protected files, from which EffectiveConfig computes what is in force; the rescue helper trusts the files the
  host tool wrote, and the heartbeats the panel signs. Each locale is interpreted on the model's own definitions:
  the writers and stores (the instance file of the rescue helper too) on the contracts of AtomicFile, the
  relations between hosts on the frames of HostFrames and HostWork.

  Conventions. A Go struct is a record, an error a constructor of the component's error type, a nil
  pointer \<open>None\<close>. Strings and byte slices are lists of bytes; \<open>uint32\<close> and \<open>uint64\<close> are words, times and
  durations integers in nanoseconds (the zero time is 0). One reading of the clock stands for the
  readings of one call, except in SshAccess, where every step reads its own. Stores are passed explicitly with the
  disk; a mutex makes an operation one step, so histories of operations are lists. Cryptography, codecs, the network and
  the operating system are parameters; what a property needs of them is a hypothesis of the property, and each
  property with hypotheses has a witness that discharges them on concrete values.

  Bounds and fuel. Loops over data are structural. Polling loops that the code bounds itself carry the bound of the code:
  30 observations of a service, five of an upgraded one, 45 polls for the end of a transaction, 60 seconds for the helper. The validation of the state
  fence descends through nested directories at most to the depth of the code, so its fuel of 9 (depths 0 to 8) is never used up.
  The loop of \<open>Run\<close> and the watch are histories of events.

  What the lemmas show. Each store: which calls change memory and disk, that a refused operation
  changes nothing, that memory and disk stay coherent over every history (the \<open>durable_store\<close> locale
  proves this once), and the invariants of its state. Each check: what an accepted message implies. The transaction, the
  upload and the rescue helper: an invariant that every step keeps, whatever fails, and from it what
  holds at every moment.

  Not modelled. System calls, network transports, terminals, collectors of system counters and the command line, which
  are input and output around this core; the installation of the host tool, its trust command and local
  authentication by PAM (a yes or no of the environment); the streams and remote sessions of the client; downloads and
  the worker process of the file operations; the rescue helper without a local trust pin and on other
  systems than Linux. The locks between processes appear as one call that may
  fail. JSON and protobuf decoding are functions given from outside.
\<close>

end
